(* ===== verification/Prelude.thy ===== *)
theory Prelude
  imports Main "HOL-Library.Word" "HOL-Library.Signed_Division"
begin

text \<open>
  Shared vocabulary of the development: results and their sequencing, the Rust integer types
  the contracts compute with, the few facts on option values and finite maps that every
  component uses, and the collections of rewrite rules that the component proofs draw on.

  Integers. A Rust \<open>u32\<close> or \<open>u64\<close> is a word, whose operations wrap. A Rust \<open>i128\<close> is an
  \<^typ>\<open>int\<close>; the unchecked operators are \<open>add_i128\<close>, \<open>sub_i128\<close>, \<open>mul_i128\<close>, which wrap at
  128 bits, because the release profile of the workspace (\<^verbatim>\<open>src/Cargo.toml\<close>) leaves
  \<^verbatim>\<open>overflow-checks\<close> at its default for release builds, which is off. The checked operators
  return an option, and division truncates towards zero.
\<close>

section \<open>Collections\<close>

named_theorems result_simps \<open>inversion of successful results\<close>
named_theorems i128_defs \<open>the 128-bit operators\<close>
named_theorems storage_defs \<open>storage, time-to-live and event primitives\<close>

section \<open>Results\<close>

text \<open>
  A contract call either aborts, and then the host rolls every effect back, or it returns a
  value. Aborts are a contract error of the contract's own enumeration
  (\<^verbatim>\<open>panic_with_error!\<close>), a missing authorisation (\<^verbatim>\<open>require_auth\<close>), a callee that
  failed (a token transfer), or a trap of the language (division by zero, an
  \<^verbatim>\<open>unwrap\<close> of nothing).
\<close>

datatype 'e fault = ContractError 'e | Unauthenticated | CalleeFailed | Trapped

type_synonym ('e, 'a) result = "'e fault + 'a"

definition fail :: "'e \<Rightarrow> ('e, 'a) result" where
  "fail e = Inl (ContractError e)"

definition and_then :: "('e, 'a) result \<Rightarrow> ('a \<Rightarrow> ('e, 'b) result) \<Rightarrow> ('e, 'b) result" where
  "and_then m f = (case m of Inl e \<Rightarrow> Inl e | Inr x \<Rightarrow> f x)"

definition ok_or :: "'e \<Rightarrow> 'a option \<Rightarrow> ('e, 'a) result" where
  "ok_or e v = (case v of None \<Rightarrow> fail e | Some x \<Rightarrow> Inr x)"

definition unwrap_or :: "'a option \<Rightarrow> 'a \<Rightarrow> 'a" where
  "unwrap_or v d = (case v of None \<Rightarrow> d | Some x \<Rightarrow> x)"

definition is_ok :: "('e, 'a) result \<Rightarrow> bool" where
  "is_ok r = (case r of Inl _ \<Rightarrow> False | Inr _ \<Rightarrow> True)"

lemma and_then_simps [simp]:
  "and_then (Inl e) f = Inl e"
  "and_then (Inr x) f = f x"
  "and_then (fail c) f = fail c"
  by (simp_all add: and_then_def fail_def)

lemma and_then_Inr_iff [result_simps]:
  "and_then m f = Inr y \<longleftrightarrow> (\<exists>x. m = Inr x \<and> f x = Inr y)"
  by (cases m) auto

lemma fail_neq_Inr [simp]: "fail e \<noteq> Inr x" "Inr x \<noteq> fail e"
  by (simp_all add: fail_def)

lemma fail_inject [simp]: "fail e = fail e' \<longleftrightarrow> e = e'"
  by (simp add: fail_def)

lemma fail_eq_Inl [simp]: "fail e = Inl x \<longleftrightarrow> x = ContractError e"
  by (auto simp: fail_def)

lemma and_then_cong [fundef_cong]:
  "m = m' \<Longrightarrow> (\<And>x. m' = Inr x \<Longrightarrow> f x = f' x) \<Longrightarrow> and_then m f = and_then m' f'"
  by (cases m') auto

lemma if_fail_Inr_iff [result_simps]:
  "(if b then fail e else m) = Inr y \<longleftrightarrow> \<not> b \<and> m = Inr y"
  "(if b then m else fail e) = Inr y \<longleftrightarrow> b \<and> m = Inr y"
  "(if b then Inl x else m) = Inr y \<longleftrightarrow> \<not> b \<and> m = Inr y"
  "(if b then m else Inl x) = Inr y \<longleftrightarrow> b \<and> m = Inr y"
  by auto

lemma if_ok_Inr_iff:
  "(if b then m else Inr x) = Inr y \<longleftrightarrow> (if b then m = Inr y else x = y)"
  by auto

lemma ex_defined_iff:
  "(\<exists>x. (\<exists>y. P y \<and> x = f y) \<and> Q x) \<longleftrightarrow> (\<exists>y. P y \<and> Q (f y))"
  "(\<exists>x. (p \<and> x = a) \<and> Q x) \<longleftrightarrow> p \<and> Q a"
  by blast+

lemma ok_or_simps [simp]: "ok_or e None = fail e" "ok_or e (Some x) = Inr x"
  by (simp_all add: ok_or_def)

lemma ok_or_Inr_iff [result_simps]: "ok_or e v = Inr x \<longleftrightarrow> v = Some x"
  by (cases v) auto

lemma unwrap_or_simps [simp]: "unwrap_or None d = d" "unwrap_or (Some x) d = x"
  by (simp_all add: unwrap_or_def)

lemma is_ok_simps [simp]: "is_ok (Inr x)" "\<not> is_ok (Inl e)" "\<not> is_ok (fail c)"
  by (simp_all add: is_ok_def fail_def)

lemma is_ok_iff: "is_ok r \<longleftrightarrow> (\<exists>x. r = Inr x)"
  by (cases r) auto

lemma case_ok: "(case r of Inl _ \<Rightarrow> False | Inr x \<Rightarrow> P x) \<Longrightarrow> \<exists>x. r = Inr x \<and> P x"
  by (cases r) auto

section \<open>Rust integers\<close>

type_synonym u32 = "32 word"
type_synonym u64 = "64 word"

definition I128_MAX :: int where "I128_MAX = 170141183460469231731687303715884105727"
definition I128_MIN :: int where "I128_MIN = - 170141183460469231731687303715884105728"

definition in_i128 :: "int \<Rightarrow> bool" where
  [i128_defs]: "in_i128 x \<longleftrightarrow> I128_MIN \<le> x \<and> x \<le> I128_MAX"

definition wrap_i128 :: "int \<Rightarrow> int" where
  [i128_defs]: "wrap_i128 x = (x - I128_MIN) mod 340282366920938463463374607431768211456 + I128_MIN"

definition add_i128 :: "int \<Rightarrow> int \<Rightarrow> int" where "add_i128 a b = wrap_i128 (a + b)"
definition sub_i128 :: "int \<Rightarrow> int \<Rightarrow> int" where "sub_i128 a b = wrap_i128 (a - b)"
definition mul_i128 :: "int \<Rightarrow> int \<Rightarrow> int" where "mul_i128 a b = wrap_i128 (a * b)"

definition checked_add_i128 :: "int \<Rightarrow> int \<Rightarrow> int option" where
  "checked_add_i128 a b = (if in_i128 (a + b) then Some (a + b) else None)"

definition checked_mul_i128 :: "int \<Rightarrow> int \<Rightarrow> int option" where
  "checked_mul_i128 a b = (if in_i128 (a * b) then Some (a * b) else None)"

definition checked_div_i128 :: "int \<Rightarrow> int \<Rightarrow> int option" where
  "checked_div_i128 a b = (if b = 0 \<or> \<not> in_i128 (a sdiv b) then None else Some (a sdiv b))"

text \<open>The operator \<open>/\<close> on \<open>i128\<close>: it traps on a zero divisor and on \<open>MIN / -1\<close>, in every build.\<close>

definition div_i128 :: "int \<Rightarrow> int \<Rightarrow> ('e, int) result" where
  "div_i128 a b = (case checked_div_i128 a b of None \<Rightarrow> Inl Trapped | Some q \<Rightarrow> Inr q)"

lemma i128_modulus: "340282366920938463463374607431768211456 = I128_MAX - I128_MIN + 1"
  by (simp add: I128_MAX_def I128_MIN_def)

lemma I128_MAX_eq: "I128_MAX = 2 ^ 127 - 1" and I128_MIN_eq: "I128_MIN = - (2 ^ 127)"
  by (simp_all add: I128_MAX_def I128_MIN_def)

lemma wrap_i128_in [simp]: "in_i128 (wrap_i128 x)"
proof -
  have "0 \<le> (x - I128_MIN) mod 340282366920938463463374607431768211456"
    and "(x - I128_MIN) mod 340282366920938463463374607431768211456
           < 340282366920938463463374607431768211456"
    by simp_all
  then show ?thesis by (simp add: i128_defs I128_MAX_def I128_MIN_def)
qed

lemma wrap_i128_id [simp]: "in_i128 x \<Longrightarrow> wrap_i128 x = x"
  by (simp add: i128_defs I128_MAX_def I128_MIN_def)

lemma wrap_i128_cong: "wrap_i128 x = wrap_i128 y \<longleftrightarrow> x mod 2 ^ 128 = y mod 2 ^ 128"
proof -
  have "wrap_i128 x = wrap_i128 y \<longleftrightarrow> (x - I128_MIN) mod 2 ^ 128 = (y - I128_MIN) mod 2 ^ 128"
    by (simp add: wrap_i128_def)
  also have "\<dots> \<longleftrightarrow> x mod 2 ^ 128 = y mod 2 ^ 128"
    by (simp only: mod_eq_dvd_iff) simp
  finally show ?thesis .
qed

lemma wrap_i128_mod: "wrap_i128 x mod 2 ^ 128 = x mod 2 ^ 128"
  by (rule wrap_i128_cong [THEN iffD1]) simp

lemma in_i128_0 [simp]: "in_i128 0"
  by (simp add: i128_defs I128_MAX_def I128_MIN_def)

lemma in_i128_between: "in_i128 x \<Longrightarrow> in_i128 z \<Longrightarrow> x \<le> y \<Longrightarrow> y \<le> z \<Longrightarrow> in_i128 y"
  by (simp add: in_i128_def)

lemma in_i128_nonneg: "0 \<le> x \<Longrightarrow> in_i128 x \<longleftrightarrow> x \<le> I128_MAX"
  by (simp add: i128_defs I128_MIN_def)

lemma add_i128_in [simp]: "in_i128 (add_i128 a b)"
  and sub_i128_in [simp]: "in_i128 (sub_i128 a b)"
  and mul_i128_in [simp]: "in_i128 (mul_i128 a b)"
  by (simp_all add: add_i128_def sub_i128_def mul_i128_def)

lemma add_i128_exact: "in_i128 (a + b) \<Longrightarrow> add_i128 a b = a + b"
  and sub_i128_exact: "in_i128 (a - b) \<Longrightarrow> sub_i128 a b = a - b"
  and mul_i128_exact: "in_i128 (a * b) \<Longrightarrow> mul_i128 a b = a * b"
  by (simp_all add: add_i128_def sub_i128_def mul_i128_def)

lemma sub_i128_shrink:
  "0 \<le> b \<Longrightarrow> b \<le> a \<Longrightarrow> in_i128 a \<Longrightarrow> sub_i128 a b = a - b"
  by (rule sub_i128_exact, rule in_i128_between [where x = 0 and z = a]) auto

lemma checked_add_i128_Some_iff [result_simps]:
  "checked_add_i128 a b = Some c \<longleftrightarrow> in_i128 (a + b) \<and> c = a + b"
  by (auto simp: checked_add_i128_def)

lemma checked_mul_i128_Some_iff [result_simps]:
  "checked_mul_i128 a b = Some c \<longleftrightarrow> in_i128 (a * b) \<and> c = a * b"
  by (auto simp: checked_mul_i128_def)

lemma sdiv_int_nonneg: "0 \<le> (a::int) \<Longrightarrow> 0 \<le> b \<Longrightarrow> a sdiv b = a div b"
  by (cases "a = 0"; cases "b = 0") (simp_all add: signed_divide_int_def)

lemma div_int_le_self: "0 \<le> (a::int) \<Longrightarrow> 0 < b \<Longrightarrow> a div b \<le> a"
proof -
  assume "0 \<le> a" "0 < b"
  then have "a div b \<le> a div 1" by (intro zdiv_mono2) auto
  then show ?thesis by simp
qed

lemma div_round_down: "0 < c \<Longrightarrow> c * (n div c) \<le> (n::int)"
  using mult_div_mod_eq [of c n] pos_mod_sign [of c n] by linarith

lemma div_round_up: "0 < c \<Longrightarrow> (n::int) < c * (n div c + 1)"
  using mult_div_mod_eq [of c n] pos_mod_bound [of c n] unfolding distrib_left mult_1_right by linarith

lemma checked_div_i128_nonneg:
  assumes "0 \<le> a" "0 < b" "in_i128 a"
  shows "checked_div_i128 a b = Some (a div b)"
proof -
  have "0 \<le> a div b" and "a div b \<le> a"
    using assms by (simp_all add: pos_imp_zdiv_nonneg_iff div_int_le_self)
  then have "in_i128 (a div b)" using assms by (auto intro: in_i128_between [of 0 a])
  then show ?thesis using assms by (simp add: checked_div_i128_def sdiv_int_nonneg)
qed

lemma div_i128_nonneg:
  "0 \<le> a \<Longrightarrow> 0 < b \<Longrightarrow> in_i128 a \<Longrightarrow> div_i128 a b = Inr (a div b)"
  by (simp add: div_i128_def checked_div_i128_nonneg)

lemma div_i128_in: "div_i128 a b = Inr q \<Longrightarrow> in_i128 q"
  by (auto simp: div_i128_def checked_div_i128_def split: if_splits)

text \<open>The expression \<^verbatim>\<open>a * b / c\<close> on \<^verbatim>\<open>i128\<close>: the product wraps, the division traps on zero.\<close>

definition muldiv_i128 :: "int \<Rightarrow> int \<Rightarrow> int \<Rightarrow> ('e, int) result" where
  "muldiv_i128 a b c = div_i128 (mul_i128 a b) c"

lemma muldiv_i128_nonneg:
  assumes "0 \<le> a" "0 \<le> b" "0 < c" "a * b \<le> I128_MAX"
  shows "muldiv_i128 a b c = Inr (a * b div c)"
proof -
  have "in_i128 (a * b)" using assms by (simp add: in_i128_nonneg)
  then show ?thesis using assms by (simp add: muldiv_i128_def mul_i128_exact div_i128_nonneg)
qed

lemma wrap_i128_shift:
  "add_i128 (sub_i128 (wrap_i128 x) a) b = wrap_i128 (x - a + b)"
proof -
  have "(wrap_i128 (wrap_i128 x - a) + b) mod 2 ^ 128 = (wrap_i128 x - a + b) mod 2 ^ 128"
    by (rule mod_add_cong) (simp_all only: wrap_i128_mod)
  also have "\<dots> = (x - a + b) mod 2 ^ 128"
    by (intro mod_add_cong mod_diff_cong wrap_i128_mod refl)
  finally show ?thesis by (simp only: add_i128_def sub_i128_def wrap_i128_cong)
qed

lemma add_wrap_i128: "add_i128 (wrap_i128 x) b = wrap_i128 (x + b)"
  and add_wrap_i128_right: "add_i128 b (wrap_i128 x) = wrap_i128 (b + x)"
  and sub_wrap_i128: "sub_i128 (wrap_i128 x) b = wrap_i128 (x - b)"
  by (simp_all only: add_i128_def sub_i128_def wrap_i128_cong)
    (intro mod_add_cong mod_diff_cong wrap_i128_mod refl)+

text \<open>Saturating operators, and the addition of \<^verbatim>\<open>u64\<close> values that is checked for overflow.\<close>

definition sat_add_u64 :: "u64 \<Rightarrow> u64 \<Rightarrow> u64" where
  "sat_add_u64 a b = (if a + b < a then - 1 else a + b)"

definition sat_sub_u64 :: "u64 \<Rightarrow> u64 \<Rightarrow> u64" where
  "sat_sub_u64 a b = (if a < b then 0 else a - b)"

definition sat_add_u32 :: "u32 \<Rightarrow> u32 \<Rightarrow> u32" where
  "sat_add_u32 a b = (if a + b < a then - 1 else a + b)"

definition sat_i128 :: "int \<Rightarrow> int" where
  "sat_i128 x = (if x < I128_MIN then I128_MIN else if x > I128_MAX then I128_MAX else x)"

lemma sat_i128_id [simp]: "in_i128 x \<Longrightarrow> sat_i128 x = x"
  by (simp add: sat_i128_def in_i128_def)

lemma sat_i128_in [simp]: "in_i128 (sat_i128 x)"
  by (simp add: sat_i128_def in_i128_def I128_MIN_def I128_MAX_def)

lemma sat_add_u64_le: "a \<le> sat_add_u64 a b"
  by (simp add: sat_add_u64_def not_less)

lemma sat_add_u64_0 [simp]: "sat_add_u64 a 0 = a"
  by (simp add: sat_add_u64_def)

lemma sat_add_u64_less:
  assumes "0 < d" "a < - 1"
  shows "a < sat_add_u64 a d"
proof -
  have "a \<le> sat_add_u64 a d" by (rule sat_add_u64_le)
  moreover have "sat_add_u64 a d \<noteq> a" using assms by (auto simp: sat_add_u64_def)
  ultimately show ?thesis by simp
qed

lemma pos_sdiv_le:
  assumes "0 < a sdiv (c::int)" "0 < c"
  shows "a sdiv c \<le> a"
proof (cases "0 \<le> a")
  case True
  then show ?thesis using assms div_int_le_self [of a c] by (simp add: sdiv_int_nonneg)
next
  case False
  then have "a sdiv c = - (- a div c)" using assms(2) by (simp add: signed_divide_int_def)
  moreover have "0 \<le> - a div c" using False assms(2) by (simp add: pos_imp_zdiv_nonneg_iff)
  ultimately show ?thesis using assms(1) by linarith
qed

text \<open>The macro \<^verbatim>\<open>assert!\<close>.\<close>

definition rust_assert :: "bool \<Rightarrow> ('e, unit) result" where
  "rust_assert b = (if b then Inr () else Inl Trapped)"

lemma rust_assert_Inr_iff [result_simps]: "rust_assert b = Inr u \<longleftrightarrow> b"
  by (simp add: rust_assert_def)

lemma rust_assert_simps [simp]: "rust_assert True = Inr ()" "rust_assert False = Inl Trapped"
  by (simp_all add: rust_assert_def)

section \<open>Sums over the support of a function\<close>

text \<open>
  The accounts of a contract are a function that is zero almost everywhere; their sum is the
  quantity that the accounting invariants speak of.
\<close>

definition support :: "('k \<Rightarrow> int) \<Rightarrow> 'k set" where
  "support f = {k. f k \<noteq> 0}"

definition support_total :: "('k \<Rightarrow> int) \<Rightarrow> int" where
  "support_total f = (\<Sum>k\<in>support f. f k)"

lemma support_zero [simp]: "support (\<lambda>_. 0) = {}"
  by (simp add: support_def)

lemma support_total_zero [simp]: "support_total (\<lambda>_. 0) = 0"
  by (simp add: support_total_def)

lemma finite_support_upd [simp]: "finite (support f) \<Longrightarrow> finite (support (f(k := v)))"
  by (rule finite_subset [of _ "insert k (support f)"]) (auto simp: support_def)

lemma support_total_superset:
  "finite A \<Longrightarrow> support f \<subseteq> A \<Longrightarrow> support_total f = (\<Sum>k\<in>A. f k)"
  unfolding support_total_def by (rule sum.mono_neutral_left) (auto simp: support_def)

lemma support_total_upd:
  assumes "finite (support f)"
  shows "support_total (f(k := v)) = support_total f - f k + v"
proof -
  let ?A = "insert k (support f)"
  have "support_total (f(k := v)) = (\<Sum>x\<in>?A. (f(k := v)) x)"
    using assms by (intro support_total_superset) (auto simp: support_def)
  also have "\<dots> = v + (\<Sum>x\<in>?A - {k}. (f(k := v)) x)"
    using assms by (subst sum.remove [of _ k]) auto
  also have "(\<Sum>x\<in>?A - {k}. (f(k := v)) x) = (\<Sum>x\<in>?A - {k}. f x)"
    by (rule sum.cong) auto
  also have "\<dots> = (\<Sum>x\<in>?A. f x) - f k"
    using assms by (subst sum.remove [of ?A k]) auto
  also have "(\<Sum>x\<in>?A. f x) = support_total f"
    using assms by (intro support_total_superset [symmetric]) auto
  finally show ?thesis by linarith
qed

lemma support_total_nonneg: "(\<And>k. 0 \<le> f k) \<Longrightarrow> 0 \<le> support_total f"
  by (simp add: support_total_def sum_nonneg)

lemma support_total_ge:
  assumes "finite (support f)" "\<And>k. 0 \<le> f k"
  shows "f k \<le> support_total f"
proof -
  have "support_total (f(k := 0)) = support_total f - f k"
    using assms by (simp add: support_total_upd)
  moreover have "0 \<le> support_total (f(k := 0))"
    using assms by (intro support_total_nonneg) simp
  ultimately show ?thesis by simp
qed

end
