(* ===== verification/Host.thy ===== *)
theory Host
  imports Prelude
begin

text \<open>
  What the contracts see of the Soroban host and of the token contracts they call.

  The ledger header, the authorisations attached to the invocation and the time-to-live
  policy are arguments of every operation, gathered in the record \<open>env\<close>. Token contracts are
  separate programs: a transfer is a function argument \<open>transfer\<close> of the operations that move
  tokens, acting on a ledger of tokens of an arbitrary type, and what the contracts rely on of
  it is the locale \<open>sep41\<close>, the documented effect of a SEP-41 transfer. The host forbids a
  token contract from calling back into the contract that is running, so a transfer never
  changes the storage of its caller.
\<close>

section \<open>The environment of an invocation\<close>

type_synonym address = nat

type_synonym bytes32 = nat

type_synonym symbol = string

record env =
  sequence :: u32
  timestamp :: u64
  authorized :: "address \<Rightarrow> bool"
  contract_address :: address
  new_entry_live :: nat
  extend_policy :: "u32 \<Rightarrow> u32 \<Rightarrow> nat \<Rightarrow> nat"
  wasm_uploaded :: "bytes32 \<Rightarrow> bool"

definition require_auth :: "env \<Rightarrow> address \<Rightarrow> ('e, unit) result" where
  "require_auth e a = (if authorized e a then Inr () else Inl Unauthenticated)"

lemma require_auth_Inr_iff [result_simps]: "require_auth e a = Inr u \<longleftrightarrow> authorized e a"
  by (simp add: require_auth_def)

lemma require_auth_simps [simp]:
  "authorized e a \<Longrightarrow> require_auth e a = Inr ()"
  "\<not> authorized e a \<Longrightarrow> require_auth e a = Inl Unauthenticated"
  by (simp_all add: require_auth_def)

text \<open>
  \<^verbatim>\<open>extend_ttl(threshold, extend_to)\<close> is the host's: its effect on the ledger up to which an
  entry lives is \<open>extend_policy\<close>, and the documented behaviour used below is that afterwards
  the entry lives for at least \<open>threshold\<close> further ledgers.
\<close>

definition ttl_extends :: "env \<Rightarrow> bool" where
  "ttl_extends e \<longleftrightarrow>
     (\<forall>thr ext live. thr \<le> ext \<longrightarrow> unat (sequence e) + unat thr \<le> extend_policy e thr ext live)"

section \<open>Token contracts\<close>

type_synonym 'tk transfer_fn = "'tk \<Rightarrow> address \<Rightarrow> address \<Rightarrow> address \<Rightarrow> int \<Rightarrow> 'tk option"

definition call_transfer ::
  "'tk transfer_fn \<Rightarrow> 'tk \<Rightarrow> address \<Rightarrow> address \<Rightarrow> address \<Rightarrow> int \<Rightarrow> ('e, 'tk) result" where
  "call_transfer transfer tk t src dst n =
     (case transfer tk t src dst n of None \<Rightarrow> Inl CalleeFailed | Some tk' \<Rightarrow> Inr tk')"

lemma call_transfer_Inr_iff [result_simps]:
  "call_transfer transfer tk t src dst n = Inr tk' \<longleftrightarrow> transfer tk t src dst n = Some tk'"
  by (auto simp: call_transfer_def split: option.splits)

lemma call_transfer_Some [simp]:
  "transfer tk t src dst n = Some tk' \<Longrightarrow> call_transfer transfer tk t src dst n = Inr tk'"
  by (simp add: call_transfer_def)

lemma call_transfer_None [simp]:
  "transfer tk t src dst n = None \<Longrightarrow> call_transfer transfer tk t src dst n = Inl CalleeFailed"
  by (simp add: call_transfer_def)

text \<open>
  The contract of a SEP-41 token with its callers. \<open>holding tk t a\<close> is what \<open>a\<close> owns of token
  \<open>t\<close>, \<open>ledger_ok\<close> an invariant of the token ledger. A transfer between two distinct addresses
  debits the one, credits the other by the same amount and touches nothing else.
\<close>

locale sep41 =
  fixes transfer :: "'tk transfer_fn"
    and holding :: "'tk \<Rightarrow> address \<Rightarrow> address \<Rightarrow> int"
    and ledger_ok :: "'tk \<Rightarrow> bool"
  assumes transfer_ok:
      "ledger_ok tk \<Longrightarrow> transfer tk t src dst n = Some tk' \<Longrightarrow> src \<noteq> dst \<Longrightarrow> 0 \<le> n \<Longrightarrow> ledger_ok tk'"
    and transfer_debit:
      "ledger_ok tk \<Longrightarrow> transfer tk t src dst n = Some tk' \<Longrightarrow> src \<noteq> dst \<Longrightarrow> 0 \<le> n \<Longrightarrow>
       holding tk' t src = holding tk t src - n"
    and transfer_credit:
      "ledger_ok tk \<Longrightarrow> transfer tk t src dst n = Some tk' \<Longrightarrow> src \<noteq> dst \<Longrightarrow> 0 \<le> n \<Longrightarrow>
       holding tk' t dst = holding tk t dst + n"
    and transfer_frame:
      "ledger_ok tk \<Longrightarrow> transfer tk t src dst n = Some tk' \<Longrightarrow> src \<noteq> dst \<Longrightarrow> 0 \<le> n \<Longrightarrow>
       t' \<noteq> t \<or> a \<noteq> src \<and> a \<noteq> dst \<Longrightarrow> holding tk' t' a = holding tk t' a"
    and transfer_funded:
      "ledger_ok tk \<Longrightarrow> transfer tk t src dst n = Some tk' \<Longrightarrow> src \<noteq> dst \<Longrightarrow> 0 \<le> n \<Longrightarrow>
       n \<le> holding tk t src"
begin

lemma deposit_holding:
  assumes "ledger_ok tk" "transfer tk t src me n = Some tk'" "src \<noteq> me" "0 \<le> n"
  shows "holding tk' t' me = (if t' = t then holding tk t me + n else holding tk t' me)"
  using assms transfer_credit transfer_frame by auto

lemma payout_holding:
  assumes "ledger_ok tk" "transfer tk t me dst n = Some tk'" "dst \<noteq> me" "0 \<le> n"
  shows "holding tk' t' me = (if t' = t then holding tk t me - n else holding tk t' me)"
  using assms transfer_debit [of tk t me dst n tk'] transfer_frame [of tk t me dst n tk' t' me] by auto

end

text \<open>
  A token that in addition honours every funded transfer: no account is frozen and the caller
  may move what it owns. Payouts of a solvent contract then go through.
\<close>

locale sep41_live = sep41 +
  assumes transfer_pays:
    "ledger_ok tk \<Longrightarrow> src \<noteq> dst \<Longrightarrow> 0 \<le> n \<Longrightarrow> n \<le> holding tk t src \<Longrightarrow>
     \<exists>tk'. transfer tk t src dst n = Some tk'"

end
