(* ===== verification/Tipjar_State.thy ===== *)
theory Tipjar_State
  imports Host
begin

text \<open>
  The data model of \<^verbatim>\<open>src/contracts/tipjar/src/lib.rs\<close>: its constants, storage keys, errors,
  events and its storage as one record with a field for each storage key. An optional field is
  a key that may be absent; a map is a family of keys. The fields \<open>st_tokens\<close> and \<open>st_events\<close>
  are the token ledger the contract acts on and the events it has published, \<open>st_ttl\<close> and
  \<open>st_instance_live\<close> the ledgers up to which its entries live.
\<close>

section \<open>Constants\<close>

definition LEDGER_THRESHOLD :: u32 where "LEDGER_THRESHOLD = 100000"
definition LEDGER_BUMP :: u32 where "LEDGER_BUMP = 120960"
definition PAYOUT_DELAY_LEDGERS :: u32 where "PAYOUT_DELAY_LEDGERS = 17280"
definition ADMIN_TRANSFER_EXPIRY_LEDGERS :: u32 where "ADMIN_TRANSFER_EXPIRY_LEDGERS = 34560"
definition BPS_DENOMINATOR :: int where "BPS_DENOMINATOR = 10000"
definition MAX_FEE_BPS :: u32 where "MAX_FEE_BPS = 1000"
definition DATA_VERSION :: u32 where "DATA_VERSION = 2"
definition MAX_ALLOWED_TOKENS :: nat where "MAX_ALLOWED_TOKENS = 50"
definition DEFAULT_GUARDIAN_PAUSE_DURATION_LEDGERS :: u32 where
  "DEFAULT_GUARDIAN_PAUSE_DURATION_LEDGERS = 17280"
definition PAUSE_FLAG_TIPS :: u32 where "PAUSE_FLAG_TIPS = 1"
definition PAUSE_FLAG_WITHDRAWALS :: u32 where "PAUSE_FLAG_WITHDRAWALS = 2"
definition PAUSE_FLAG_ALL :: u32 where "PAUSE_FLAG_ALL = 3"

lemmas tipjar_constants =
  LEDGER_THRESHOLD_def LEDGER_BUMP_def PAYOUT_DELAY_LEDGERS_def ADMIN_TRANSFER_EXPIRY_LEDGERS_def
  BPS_DENOMINATOR_def MAX_FEE_BPS_def DATA_VERSION_def MAX_ALLOWED_TOKENS_def
  DEFAULT_GUARDIAN_PAUSE_DURATION_LEDGERS_def PAUSE_FLAG_TIPS_def PAUSE_FLAG_WITHDRAWALS_def
  PAUSE_FLAG_ALL_def

section \<open>Storage keys, pause state, events and errors\<close>

datatype data_key =
    Token
  | CreatorBalance address
  | CreatorTotal address
  | AllowedTokens
  | Balance address address
  | Total address address
  | PayoutAddress address
  | PendingPayoutChange address
  | Operator address address
  | Admin
  | PendingAdmin
  | UpgradeTimelockLedgers
  | PendingUpgrade
  | DataVersion
  | Guardian
  | Pause
  | GuardianPauseDuration
  | FeeBps
  | FeeCollector
  | PendingFeeCollector
  | FeeBalance
  | FeeBalanceToken address

record pause_state =
  admin_flags :: u32
  guardian_flags :: u32
  guardian_expiry :: u32
  pause_notes :: "string option"

datatype event =
    Tip address address address int
  | Withdraw address address int address
  | PayoutChangeProposed address address u32
  | PayoutChangeApplied address address
  | PayoutChangeCancelled address
  | OperatorAuthorized address address int u32
  | OperatorRevoked address address
  | AdminTransferProposed address address u32
  | AdminTransferAccepted address
  | AdminTransferCancelled address
  | UpgradeProposed bytes32 u32
  | UpgradeExecuted bytes32
  | UpgradeCancelled bytes32
  | Migrated u32 u32
  | Paused address u32
  | Unpaused address u32
  | GuardianUpdated address address
  | FeeCharged address int int int
  | FeeConfigured address u32
  | FeeWithdraw address int
  | FeeCollectorTransferProposed address address u32
  | FeeCollectorTransferAccepted address
  | FeeCollectorTransferCancelled address

datatype error =
    AlreadyInitialized
  | NotInitialized
  | InvalidAmount
  | NothingToWithdraw
  | InvalidOperator
  | OperatorExpired
  | InsufficientAllowance
  | PendingPayoutChangeActive
  | NoPendingPayoutChange
  | InvalidTarget
  | Unauthorized
  | NoPendingAdmin
  | InvalidTimelock
  | UpgradeAlreadyPending
  | NoPendingUpgrade
  | TimelockNotElapsed
  | TipsPaused
  | WithdrawalsPaused
  | InvalidDuration
  | InvalidFee
  | FeeOverflow
  | NotFeeCollector
  | TokenNotAllowed
  | TokenAlreadyExists
  | MaxTokensReached
  | NoPendingFeeCollector
  | AdminTransferExpired
  | FeeCollectorTransferExpired
  | AdminTransferAlreadyPending
  | FeeCollectorTransferAlreadyPending

section \<open>The storage of the contract\<close>

record 'tk jar =
  st_token :: "address option"
  st_creator_balance :: "address \<rightharpoonup> int"
  st_creator_total :: "address \<rightharpoonup> int"
  st_allowed_tokens :: "address list option"
  st_balance :: "address \<times> address \<rightharpoonup> int"
  st_total :: "address \<times> address \<rightharpoonup> int"
  st_payout_address :: "address \<rightharpoonup> address"
  st_pending_payout :: "address \<rightharpoonup> address \<times> u32"
  st_operator :: "address \<times> address \<rightharpoonup> int \<times> u32"
  st_admin :: "address option"
  st_pending_admin :: "(address \<times> u32) option"
  st_upgrade_timelock :: "u32 option"
  st_pending_upgrade :: "(bytes32 \<times> u32) option"
  st_data_version :: "u32 option"
  st_guardian :: "address option"
  st_pause :: "pause_state option"
  st_guardian_pause_duration :: "u32 option"
  st_fee_bps :: "u32 option"
  st_fee_collector :: "address option"
  st_pending_fee_collector :: "(address \<times> u32) option"
  st_fee_balance :: "int option"
  st_fee_balance_token :: "address \<rightharpoonup> int"
  st_wasm :: bytes32
  st_ttl :: "data_key \<rightharpoonup> nat"
  st_instance_live :: nat
  st_tokens :: 'tk
  st_events :: "event list"

type_synonym 'tk jar_result = "(error, 'tk jar) result"

text \<open>
  Writing a persistent key that is absent gives it the host's initial time-to-live, removing it
  forgets it, and \<open>extend_ttl\<close> extends a present one; the instance entry has one time-to-live of
  its own. Publishing appends to the event log.
\<close>

definition write_ttl :: "env \<Rightarrow> data_key \<Rightarrow> 'tk jar \<Rightarrow> 'tk jar" where
  [storage_defs]: "write_ttl e k s =
     s\<lparr>st_ttl := (st_ttl s)(k \<mapsto> unwrap_or (st_ttl s k) (new_entry_live e))\<rparr>"

definition remove_ttl :: "data_key \<Rightarrow> 'tk jar \<Rightarrow> 'tk jar" where
  [storage_defs]: "remove_ttl k s = s\<lparr>st_ttl := (st_ttl s)(k := None)\<rparr>"

definition extend_ttl :: "env \<Rightarrow> data_key \<Rightarrow> 'tk jar \<Rightarrow> 'tk jar" where
  [storage_defs]: "extend_ttl e k s =
     s\<lparr>st_ttl := (st_ttl s)(k := map_option (extend_policy e LEDGER_THRESHOLD LEDGER_BUMP) (st_ttl s k))\<rparr>"

definition extend_instance_ttl :: "env \<Rightarrow> 'tk jar \<Rightarrow> 'tk jar" where
  [storage_defs]: "extend_instance_ttl e s =
     s\<lparr>st_instance_live := extend_policy e LEDGER_THRESHOLD LEDGER_BUMP (st_instance_live s)\<rparr>"

definition publish :: "event \<Rightarrow> 'tk jar \<Rightarrow> 'tk jar" where
  [storage_defs]: "publish ev s = s\<lparr>st_events := st_events s @ [ev]\<rparr>"

definition set_balance :: "env \<Rightarrow> address \<Rightarrow> address \<Rightarrow> int \<Rightarrow> 'tk jar \<Rightarrow> 'tk jar" where
  [storage_defs]: "set_balance e c t v s =
     write_ttl e (Balance c t) (s\<lparr>st_balance := (st_balance s)((c, t) \<mapsto> v)\<rparr>)"

definition set_total :: "env \<Rightarrow> address \<Rightarrow> address \<Rightarrow> int \<Rightarrow> 'tk jar \<Rightarrow> 'tk jar" where
  [storage_defs]: "set_total e c t v s =
     write_ttl e (Total c t) (s\<lparr>st_total := (st_total s)((c, t) \<mapsto> v)\<rparr>)"

definition set_fee_balance_token :: "env \<Rightarrow> address \<Rightarrow> int \<Rightarrow> 'tk jar \<Rightarrow> 'tk jar" where
  [storage_defs]: "set_fee_balance_token e t v s =
     write_ttl e (FeeBalanceToken t) (s\<lparr>st_fee_balance_token := (st_fee_balance_token s)(t \<mapsto> v)\<rparr>)"

definition set_payout :: "env \<Rightarrow> address \<Rightarrow> address \<Rightarrow> 'tk jar \<Rightarrow> 'tk jar" where
  [storage_defs]: "set_payout e c p s =
     write_ttl e (PayoutAddress c) (s\<lparr>st_payout_address := (st_payout_address s)(c \<mapsto> p)\<rparr>)"

definition set_pending_payout :: "env \<Rightarrow> address \<Rightarrow> address \<times> u32 \<Rightarrow> 'tk jar \<Rightarrow> 'tk jar" where
  [storage_defs]: "set_pending_payout e c v s =
     write_ttl e (PendingPayoutChange c) (s\<lparr>st_pending_payout := (st_pending_payout s)(c \<mapsto> v)\<rparr>)"

definition remove_pending_payout :: "address \<Rightarrow> 'tk jar \<Rightarrow> 'tk jar" where
  [storage_defs]: "remove_pending_payout c s =
     remove_ttl (PendingPayoutChange c) (s\<lparr>st_pending_payout := (st_pending_payout s)(c := None)\<rparr>)"

definition set_operator :: "env \<Rightarrow> address \<Rightarrow> address \<Rightarrow> int \<times> u32 \<Rightarrow> 'tk jar \<Rightarrow> 'tk jar" where
  [storage_defs]: "set_operator e c a v s =
     write_ttl e (Operator c a) (s\<lparr>st_operator := (st_operator s)((c, a) \<mapsto> v)\<rparr>)"

definition remove_operator :: "address \<Rightarrow> address \<Rightarrow> 'tk jar \<Rightarrow> 'tk jar" where
  [storage_defs]: "remove_operator c a s =
     remove_ttl (Operator c a) (s\<lparr>st_operator := (st_operator s)((c, a) := None)\<rparr>)"

definition transfer_tokens ::
  "'tk transfer_fn \<Rightarrow> address \<Rightarrow> address \<Rightarrow> address \<Rightarrow> int \<Rightarrow> 'tk jar \<Rightarrow> 'tk jar_result" where
  "transfer_tokens transfer t src dst n s =
     and_then (call_transfer transfer (st_tokens s) t src dst n) (\<lambda>tk. Inr (s\<lparr>st_tokens := tk\<rparr>))"

lemma transfer_tokens_Inr_iff [result_simps]:
  "transfer_tokens transfer t src dst n s = Inr s' \<longleftrightarrow>
     (\<exists>tk. transfer (st_tokens s) t src dst n = Some tk \<and> s' = s\<lparr>st_tokens := tk\<rparr>)"
  by (auto simp: transfer_tokens_def result_simps)

section \<open>Shared checks\<close>

definition admin_address :: "'tk jar \<Rightarrow> (error, address) result" where
  "admin_address s = ok_or NotInitialized (st_admin s)"

definition guardian_address :: "'tk jar \<Rightarrow> address option" where
  "guardian_address s = st_guardian s"

definition require_admin :: "address \<Rightarrow> 'tk jar \<Rightarrow> (error, unit) result" where
  "require_admin caller s =
     and_then (admin_address s) (\<lambda>a. if caller \<noteq> a then fail Unauthorized else Inr ())"

definition ensure_initialized :: "'tk jar \<Rightarrow> (error, unit) result" where
  "ensure_initialized s = (if st_admin s = None then fail NotInitialized else Inr ())"

definition ensure_token_allowed :: "address \<Rightarrow> 'tk jar \<Rightarrow> (error, unit) result" where
  "ensure_token_allowed t s =
     (if t \<in> set (unwrap_or (st_allowed_tokens s) []) then Inr () else fail TokenNotAllowed)"

lemma require_admin_Inr_iff [result_simps]:
  "require_admin caller s = Inr u \<longleftrightarrow> st_admin s = Some caller"
  by (auto simp: require_admin_def admin_address_def result_simps)

lemma admin_address_Inr_iff [result_simps]: "admin_address s = Inr a \<longleftrightarrow> st_admin s = Some a"
  by (simp add: admin_address_def result_simps)

lemma ensure_initialized_Inr_iff [result_simps]:
  "ensure_initialized s = Inr u \<longleftrightarrow> (\<exists>a. st_admin s = Some a)"
  by (auto simp: ensure_initialized_def)

lemma ensure_token_allowed_Inr_iff [result_simps]:
  "ensure_token_allowed t s = Inr u \<longleftrightarrow> t \<in> set (unwrap_or (st_allowed_tokens s) [])"
  by (simp add: ensure_token_allowed_def)

end
