(* ===== verification/Tipjar_Pause.thy ===== *)
theory Tipjar_Pause
  imports Tipjar_State
begin

text \<open>
  The circuit breaker of the tip jar (\<^verbatim>\<open>src/contracts/tipjar/src/lib.rs\<close>, section "circuit
  breaker"): two bit masks, one set by the admin that lasts until the admin clears it, one set
  by the guardian that stops counting at a ledger of its own.
\<close>

unbundle bit_operations_syntax

section \<open>Operations\<close>

definition default_pause :: pause_state where
  "default_pause = \<lparr>admin_flags = 0, guardian_flags = 0, guardian_expiry = 0, pause_notes = None\<rparr>"

definition pause_state_of :: "'tk jar \<Rightarrow> pause_state" where
  "pause_state_of s = unwrap_or (st_pause s) default_pause"

definition effective_pause_flags :: "env \<Rightarrow> pause_state \<Rightarrow> u32" where
  "effective_pause_flags e p =
     (if guardian_flags p \<noteq> 0 \<and> sequence e < guardian_expiry p
      then admin_flags p OR guardian_flags p else admin_flags p)"

definition check_not_paused :: "env \<Rightarrow> u32 \<Rightarrow> 'tk jar \<Rightarrow> (error, unit) result" where
  "check_not_paused e flag s =
     (if effective_pause_flags e (pause_state_of s) AND flag \<noteq> 0
      then if flag = PAUSE_FLAG_TIPS then fail TipsPaused else fail WithdrawalsPaused
      else Inr ())"

definition guardian_pause_duration :: "'tk jar \<Rightarrow> u32" where
  "guardian_pause_duration s =
     unwrap_or (st_guardian_pause_duration s) DEFAULT_GUARDIAN_PAUSE_DURATION_LEDGERS"

definition set_guardian :: "env \<Rightarrow> address \<Rightarrow> address \<Rightarrow> 'tk jar \<Rightarrow> 'tk jar_result" where
  "set_guardian e adm g s =
     and_then (require_auth e adm) (\<lambda>_.
     and_then (require_admin adm s) (\<lambda>_.
     Inr (publish (GuardianUpdated adm g)
       (extend_instance_ttl e (s\<lparr>st_guardian := Some g\<rparr>)))))"

definition set_guardian_pause_duration :: "env \<Rightarrow> address \<Rightarrow> u32 \<Rightarrow> 'tk jar \<Rightarrow> 'tk jar_result" where
  "set_guardian_pause_duration e adm ledgers s =
     and_then (require_auth e adm) (\<lambda>_.
     and_then (require_admin adm s) (\<lambda>_.
     if ledgers = 0 then fail InvalidDuration
     else Inr (extend_instance_ttl e (s\<lparr>st_guardian_pause_duration := Some ledgers\<rparr>))))"

definition pause_internal :: "env \<Rightarrow> address \<Rightarrow> u32 \<Rightarrow> 'tk jar \<Rightarrow> 'tk jar_result" where
  "pause_internal e caller flag s =
     and_then (require_auth e caller) (\<lambda>_.
     and_then (admin_address s) (\<lambda>adm.
     let g = guardian_address s; st = pause_state_of s in
     and_then
       (if caller = adm then
          Inr (st\<lparr>admin_flags := admin_flags st OR flag,
                  guardian_flags := guardian_flags st AND NOT flag\<rparr>)
        else if g = Some caller then
          Inr (st\<lparr>guardian_flags := guardian_flags st OR flag,
                  guardian_expiry := sequence e + guardian_pause_duration s\<rparr>)
        else fail Unauthorized)
       (\<lambda>st'. Inr (publish (Paused caller flag)
                (extend_instance_ttl e (s\<lparr>st_pause := Some st'\<rparr>))))))"

definition unpause_internal :: "env \<Rightarrow> address \<Rightarrow> u32 \<Rightarrow> 'tk jar \<Rightarrow> 'tk jar_result" where
  "unpause_internal e caller flag s =
     and_then (require_auth e caller) (\<lambda>_.
     and_then (require_admin caller s) (\<lambda>_.
     let st = pause_state_of s;
         st' = st\<lparr>admin_flags := admin_flags st AND NOT flag,
                  guardian_flags := guardian_flags st AND NOT flag\<rparr>
     in Inr (publish (Unpaused caller flag)
          (extend_instance_ttl e (s\<lparr>st_pause := Some st'\<rparr>)))))"

definition pause_tips :: "env \<Rightarrow> address \<Rightarrow> 'tk jar \<Rightarrow> 'tk jar_result" where
  "pause_tips e caller s = pause_internal e caller PAUSE_FLAG_TIPS s"

definition pause_withdrawals :: "env \<Rightarrow> address \<Rightarrow> 'tk jar \<Rightarrow> 'tk jar_result" where
  "pause_withdrawals e caller s = pause_internal e caller PAUSE_FLAG_WITHDRAWALS s"

definition pause_all :: "env \<Rightarrow> address \<Rightarrow> 'tk jar \<Rightarrow> 'tk jar_result" where
  "pause_all e caller s = pause_internal e caller PAUSE_FLAG_ALL s"

definition unpause_tips :: "env \<Rightarrow> address \<Rightarrow> 'tk jar \<Rightarrow> 'tk jar_result" where
  "unpause_tips e caller s = unpause_internal e caller PAUSE_FLAG_TIPS s"

definition unpause_withdrawals :: "env \<Rightarrow> address \<Rightarrow> 'tk jar \<Rightarrow> 'tk jar_result" where
  "unpause_withdrawals e caller s = unpause_internal e caller PAUSE_FLAG_WITHDRAWALS s"

definition unpause_all :: "env \<Rightarrow> address \<Rightarrow> 'tk jar \<Rightarrow> 'tk jar_result" where
  "unpause_all e caller s = unpause_internal e caller PAUSE_FLAG_ALL s"

definition is_feature_paused :: "env \<Rightarrow> u32 \<Rightarrow> 'tk jar \<Rightarrow> bool" where
  "is_feature_paused e flag s \<longleftrightarrow>
     flag \<noteq> 0 \<and> effective_pause_flags e (pause_state_of s) AND flag = flag"

definition pause_flags :: "env \<Rightarrow> 'tk jar \<Rightarrow> u32" where
  "pause_flags e s = effective_pause_flags e (pause_state_of s)"

definition guardian_pause_expiry_ledger :: "'tk jar \<Rightarrow> u32" where
  "guardian_pause_expiry_ledger s = guardian_expiry (pause_state_of s)"

definition get_guardian :: "'tk jar \<Rightarrow> address option" where
  "get_guardian s = guardian_address s"

lemmas pause_entrypoint_defs =
  pause_tips_def pause_withdrawals_def pause_all_def
  unpause_tips_def unpause_withdrawals_def unpause_all_def

section \<open>Bit masks\<close>

lemma and_or_absorb: "((x::'a::len word) OR f) AND f = f"
  by (simp add: bit_eq_iff bit_simps)

lemma and_not_and: "((x::'a::len word) AND NOT f) AND f = 0"
  by (simp add: bit_eq_iff bit_simps)

lemma or_eq_0_iff: "(x::'a::len word) OR y = 0 \<longleftrightarrow> x = 0 \<and> y = 0"
  by (auto simp: bit_eq_iff bit_simps)

section \<open>Inversion\<close>

lemma check_not_paused_Inr_iff [result_simps]:
  "check_not_paused e flag s = Inr u \<longleftrightarrow> pause_flags e s AND flag = 0"
  by (simp add: check_not_paused_def pause_flags_def)

lemma pause_internal_Inr_iff [result_simps]:
  "pause_internal e caller flag s = Inr s' \<longleftrightarrow>
     authorized e caller \<and> st_admin s \<noteq> None \<and>
     (st_admin s = Some caller \<or> st_guardian s = Some caller) \<and>
     s' = publish (Paused caller flag) (extend_instance_ttl e (s\<lparr>st_pause := Some
       (if st_admin s = Some caller
        then (pause_state_of s)\<lparr>admin_flags := admin_flags (pause_state_of s) OR flag,
               guardian_flags := guardian_flags (pause_state_of s) AND NOT flag\<rparr>
        else (pause_state_of s)\<lparr>guardian_flags := guardian_flags (pause_state_of s) OR flag,
               guardian_expiry := sequence e + guardian_pause_duration s\<rparr>)\<rparr>))"
  by (auto simp: pause_internal_def Let_def guardian_address_def result_simps)

lemma unpause_internal_Inr_iff [result_simps]:
  "unpause_internal e caller flag s = Inr s' \<longleftrightarrow>
     authorized e caller \<and> st_admin s = Some caller \<and>
     s' = publish (Unpaused caller flag) (extend_instance_ttl e (s\<lparr>st_pause := Some
       ((pause_state_of s)\<lparr>admin_flags := admin_flags (pause_state_of s) AND NOT flag,
          guardian_flags := guardian_flags (pause_state_of s) AND NOT flag\<rparr>)\<rparr>))"
  by (auto simp: unpause_internal_def Let_def result_simps)

lemma pause_state_of_Some [simp]: "st_pause s = Some p \<Longrightarrow> pause_state_of s = p"
  by (simp add: pause_state_of_def)

lemma pause_flags_cong:
  "st_pause s' = st_pause s \<Longrightarrow> pause_flags e s' = pause_flags e s"
  by (simp add: pause_flags_def pause_state_of_def)

section \<open>Properties\<close>

text \<open>
  Once the admin has paused a mask, every feature of the mask is paused at every ledger,
  whatever the clock says, for as long as the pause entry is not written again.
\<close>

lemma admin_pause_persists:
  assumes "pause_internal e caller flag s = Inr s'" "st_admin s = Some caller"
    and "st_pause s2 = st_pause s'"
  shows "pause_flags e2 s2 AND flag = flag"
  using assms
  by (auto simp: result_simps storage_defs pause_flags_def pause_state_of_def
        effective_pause_flags_def bit_eq_iff bit_simps)

text \<open>A guardian's call leaves the admin's mask alone, so it never lifts an admin's pause.\<close>

lemma guardian_pause_keeps_admin_flags:
  assumes "pause_internal e caller flag s = Inr s'" "st_admin s \<noteq> Some caller"
  shows "admin_flags (pause_state_of s') = admin_flags (pause_state_of s)"
  using assms by (auto simp: result_simps storage_defs pause_state_of_def)

text \<open>From the expiry ledger on, only the admin's mask counts.\<close>

lemma guardian_pause_expires:
  assumes "guardian_expiry (pause_state_of s) \<le> sequence e"
  shows "pause_flags e s = admin_flags (pause_state_of s)"
  using assms by (auto simp: pause_flags_def effective_pause_flags_def)

lemma unpause_clears:
  assumes "unpause_internal e caller flag s = Inr s'" "st_pause s2 = st_pause s'"
  shows "pause_flags e2 s2 AND flag = 0"
proof -
  have "effective_pause_flags e2 (p\<lparr>admin_flags := a AND NOT flag, guardian_flags := g AND NOT flag\<rparr>) AND flag = 0"
    for p a g
    by (simp add: effective_pause_flags_def bit_eq_iff bit_simps)
  then show ?thesis
    using assms by (auto simp: result_simps storage_defs pause_flags_def pause_state_of_def)
qed

end
