(* ===== verification/Tipjar_Governance.thy ===== *)
theory Tipjar_Governance
  imports Tipjar_Pause
begin

text \<open>
  Initialisation, the two-step handovers of the admin and of the fee collector, the timelocked
  upgrade, the schema migration and the fee rate (\<^verbatim>\<open>src/contracts/tipjar/src/lib.rs\<close>). The two
  handovers follow one protocol, stated once as the locale \<open>handover\<close> and interpreted for both.
\<close>

section \<open>Initialisation\<close>

definition init :: "env \<Rightarrow> address \<Rightarrow> address \<Rightarrow> u32 \<Rightarrow> 'tk jar \<Rightarrow> 'tk jar_result" where
  "init e t adm upgrade_timelock_ledgers s =
     (if st_admin s \<noteq> None then fail AlreadyInitialized
      else if upgrade_timelock_ledgers = 0 then fail InvalidTimelock
      else and_then (require_auth e adm) (\<lambda>_.
        Inr (extend_instance_ttl e (s\<lparr>
          st_token := Some t,
          st_admin := Some adm,
          st_upgrade_timelock := Some upgrade_timelock_ledgers,
          st_data_version := Some DATA_VERSION,
          st_allowed_tokens := Some [t]\<rparr>))))"

section \<open>Admin handover\<close>

definition propose_admin :: "env \<Rightarrow> address \<Rightarrow> address \<Rightarrow> 'tk jar \<Rightarrow> 'tk jar_result" where
  "propose_admin e adm new_admin s =
     and_then (require_auth e adm) (\<lambda>_.
     and_then (require_admin adm s) (\<lambda>_.
     if st_pending_admin s \<noteq> None then fail AdminTransferAlreadyPending
     else let expiry_ledger = sequence e + ADMIN_TRANSFER_EXPIRY_LEDGERS in
       Inr (publish (AdminTransferProposed adm new_admin expiry_ledger)
         (extend_instance_ttl e (s\<lparr>st_pending_admin := Some (new_admin, expiry_ledger)\<rparr>)))))"

definition accept_admin :: "env \<Rightarrow> address \<Rightarrow> 'tk jar \<Rightarrow> 'tk jar_result" where
  "accept_admin e new_admin s =
     and_then (require_auth e new_admin) (\<lambda>_.
     and_then (ok_or NoPendingAdmin (st_pending_admin s)) (\<lambda>(pending, expiry_ledger).
     if pending \<noteq> new_admin then fail NoPendingAdmin
     else if sequence e > expiry_ledger then fail AdminTransferExpired
     else Inr (publish (AdminTransferAccepted new_admin)
       (extend_instance_ttl e (s\<lparr>st_admin := Some new_admin, st_pending_admin := None\<rparr>)))))"

definition cancel_admin_transfer :: "env \<Rightarrow> address \<Rightarrow> 'tk jar \<Rightarrow> 'tk jar_result" where
  "cancel_admin_transfer e adm s =
     and_then (require_auth e adm) (\<lambda>_.
     and_then (require_admin adm s) (\<lambda>_.
     if st_pending_admin s = None then fail NoPendingAdmin
     else Inr (publish (AdminTransferCancelled adm) (s\<lparr>st_pending_admin := None\<rparr>))))"

definition get_admin :: "'tk jar \<Rightarrow> (error, address) result" where
  "get_admin s = admin_address s"

definition get_pending_admin :: "'tk jar \<Rightarrow> address option" where
  "get_pending_admin s = map_option fst (st_pending_admin s)"

section \<open>Upgrades and schema migration\<close>

definition propose_upgrade :: "env \<Rightarrow> address \<Rightarrow> bytes32 \<Rightarrow> 'tk jar \<Rightarrow> 'tk jar_result" where
  "propose_upgrade e adm new_wasm_hash s =
     and_then (require_auth e adm) (\<lambda>_.
     and_then (require_admin adm s) (\<lambda>_.
     if st_pending_upgrade s \<noteq> None then fail UpgradeAlreadyPending
     else and_then (ok_or NotInitialized (st_upgrade_timelock s)) (\<lambda>timelock.
       let unlock_ledger = sequence e + timelock in
       Inr (publish (UpgradeProposed new_wasm_hash unlock_ledger)
         (extend_instance_ttl e (s\<lparr>st_pending_upgrade := Some (new_wasm_hash, unlock_ledger)\<rparr>))))))"

definition cancel_upgrade :: "env \<Rightarrow> address \<Rightarrow> 'tk jar \<Rightarrow> 'tk jar_result" where
  "cancel_upgrade e adm s =
     and_then (require_auth e adm) (\<lambda>_.
     and_then (require_admin adm s) (\<lambda>_.
     and_then (ok_or NoPendingUpgrade (st_pending_upgrade s)) (\<lambda>(hash, _).
     Inr (publish (UpgradeCancelled hash) (s\<lparr>st_pending_upgrade := None\<rparr>)))))"

text \<open>
  \<^verbatim>\<open>update_current_contract_wasm\<close> is the host's: it replaces the code of the contract, keeps
  its storage, and fails for a hash whose code was never uploaded.
\<close>

definition execute_upgrade :: "env \<Rightarrow> 'tk jar \<Rightarrow> 'tk jar_result" where
  "execute_upgrade e s =
     and_then (ok_or NoPendingUpgrade (st_pending_upgrade s)) (\<lambda>(hash, unlock_ledger).
     if sequence e < unlock_ledger then fail TimelockNotElapsed
     else if \<not> wasm_uploaded e hash then Inl CalleeFailed
     else Inr (publish (UpgradeExecuted hash)
       (s\<lparr>st_pending_upgrade := None, st_wasm := hash\<rparr>)))"

definition migrate :: "env \<Rightarrow> address \<Rightarrow> 'tk jar \<Rightarrow> 'tk jar_result" where
  "migrate e adm s =
     and_then (require_auth e adm) (\<lambda>_.
     and_then (require_admin adm s) (\<lambda>_.
     let current = unwrap_or (st_data_version s) 1 in
     if current \<ge> DATA_VERSION then Inr s
     else let s1 = (if current = 1
                    then s\<lparr>st_pause := map_option (\<lambda>p. p\<lparr>pause_notes := None\<rparr>) (st_pause s)\<rparr>
                    else s)
       in Inr (publish (Migrated current DATA_VERSION)
            (s1\<lparr>st_data_version := Some DATA_VERSION\<rparr>))))"

definition get_data_version :: "'tk jar \<Rightarrow> u32" where
  "get_data_version s = unwrap_or (st_data_version s) 1"

section \<open>Fee rate and fee collector\<close>

definition set_fee :: "env \<Rightarrow> address \<Rightarrow> u32 \<Rightarrow> 'tk jar \<Rightarrow> 'tk jar_result" where
  "set_fee e adm bps s =
     and_then (require_auth e adm) (\<lambda>_.
     and_then (require_admin adm s) (\<lambda>_.
     if bps > MAX_FEE_BPS then fail InvalidFee
     else Inr (publish (FeeConfigured adm bps)
       (extend_instance_ttl e (s\<lparr>st_fee_bps := Some bps\<rparr>)))))"

definition propose_fee_collector :: "env \<Rightarrow> address \<Rightarrow> address \<Rightarrow> 'tk jar \<Rightarrow> 'tk jar_result" where
  "propose_fee_collector e adm new_collector s =
     and_then (require_auth e adm) (\<lambda>_.
     and_then (require_admin adm s) (\<lambda>_.
     if st_fee_collector s = Some new_collector then fail InvalidTarget
     else if st_pending_fee_collector s \<noteq> None then fail FeeCollectorTransferAlreadyPending
     else let expiry_ledger = sequence e + ADMIN_TRANSFER_EXPIRY_LEDGERS in
       Inr (publish (FeeCollectorTransferProposed adm new_collector expiry_ledger)
         (extend_instance_ttl e
           (s\<lparr>st_pending_fee_collector := Some (new_collector, expiry_ledger)\<rparr>)))))"

definition accept_fee_collector :: "env \<Rightarrow> address \<Rightarrow> 'tk jar \<Rightarrow> 'tk jar_result" where
  "accept_fee_collector e new_collector s =
     and_then (require_auth e new_collector) (\<lambda>_.
     and_then (ok_or NoPendingFeeCollector (st_pending_fee_collector s)) (\<lambda>(pending, expiry_ledger).
     if pending \<noteq> new_collector then fail NoPendingFeeCollector
     else if sequence e > expiry_ledger then fail FeeCollectorTransferExpired
     else Inr (publish (FeeCollectorTransferAccepted new_collector)
       (extend_instance_ttl e
         (s\<lparr>st_fee_collector := Some new_collector, st_pending_fee_collector := None\<rparr>)))))"

definition cancel_fee_collector_transfer :: "env \<Rightarrow> address \<Rightarrow> 'tk jar \<Rightarrow> 'tk jar_result" where
  "cancel_fee_collector_transfer e adm s =
     and_then (require_auth e adm) (\<lambda>_.
     and_then (require_admin adm s) (\<lambda>_.
     if st_pending_fee_collector s = None then fail NoPendingFeeCollector
     else Inr (publish (FeeCollectorTransferCancelled adm)
       (s\<lparr>st_pending_fee_collector := None\<rparr>))))"

definition get_pending_fee_collector :: "'tk jar \<Rightarrow> address option" where
  "get_pending_fee_collector s = map_option fst (st_pending_fee_collector s)"

definition get_fee_bps :: "'tk jar \<Rightarrow> u32" where
  "get_fee_bps s = unwrap_or (st_fee_bps s) 0"

definition get_fee_collector :: "'tk jar \<Rightarrow> address option" where
  "get_fee_collector s = st_fee_collector s"

section \<open>Inversion\<close>

text \<open>Each governance call, when it returns, did so in exactly one way.\<close>

lemma init_Inr_iff [result_simps]:
  "init e t adm d s = Inr s' \<longleftrightarrow>
     st_admin s = None \<and> d \<noteq> 0 \<and> authorized e adm \<and>
     s' = extend_instance_ttl e (s\<lparr>st_token := Some t, st_admin := Some adm,
            st_upgrade_timelock := Some d, st_data_version := Some DATA_VERSION,
            st_allowed_tokens := Some [t]\<rparr>)"
  by (auto simp: init_def result_simps)

lemma propose_admin_Inr_iff [result_simps]:
  "propose_admin e adm n s = Inr s' \<longleftrightarrow>
     authorized e adm \<and> st_admin s = Some adm \<and> st_pending_admin s = None \<and>
     s' = publish (AdminTransferProposed adm n (sequence e + ADMIN_TRANSFER_EXPIRY_LEDGERS))
            (extend_instance_ttl e
              (s\<lparr>st_pending_admin := Some (n, sequence e + ADMIN_TRANSFER_EXPIRY_LEDGERS)\<rparr>))"
  by (auto simp: propose_admin_def Let_def result_simps simp del: not_None_eq)

lemma accept_admin_Inr_iff [result_simps]:
  "accept_admin e n s = Inr s' \<longleftrightarrow>
     authorized e n \<and> (\<exists>x. st_pending_admin s = Some (n, x) \<and> sequence e \<le> x) \<and>
     s' = publish (AdminTransferAccepted n)
            (extend_instance_ttl e (s\<lparr>st_admin := Some n, st_pending_admin := None\<rparr>))"
  by (auto simp: accept_admin_def result_simps not_less)

lemma cancel_admin_transfer_Inr_iff [result_simps]:
  "cancel_admin_transfer e adm s = Inr s' \<longleftrightarrow>
     authorized e adm \<and> st_admin s = Some adm \<and> st_pending_admin s \<noteq> None \<and>
     s' = publish (AdminTransferCancelled adm) (s\<lparr>st_pending_admin := None\<rparr>)"
  by (auto simp: cancel_admin_transfer_def result_simps)

lemma propose_upgrade_Inr_iff [result_simps]:
  "propose_upgrade e adm h s = Inr s' \<longleftrightarrow>
     authorized e adm \<and> st_admin s = Some adm \<and> st_pending_upgrade s = None \<and>
     (\<exists>d. st_upgrade_timelock s = Some d \<and>
       s' = publish (UpgradeProposed h (sequence e + d))
              (extend_instance_ttl e (s\<lparr>st_pending_upgrade := Some (h, sequence e + d)\<rparr>)))"
  by (auto simp: propose_upgrade_def Let_def result_simps simp del: not_None_eq)

lemma cancel_upgrade_Inr_iff [result_simps]:
  "cancel_upgrade e adm s = Inr s' \<longleftrightarrow>
     authorized e adm \<and> st_admin s = Some adm \<and>
     (\<exists>h u. st_pending_upgrade s = Some (h, u) \<and>
       s' = publish (UpgradeCancelled h) (s\<lparr>st_pending_upgrade := None\<rparr>))"
  by (auto simp: cancel_upgrade_def result_simps)

lemma execute_upgrade_Inr_iff [result_simps]:
  "execute_upgrade e s = Inr s' \<longleftrightarrow>
     (\<exists>h u. st_pending_upgrade s = Some (h, u) \<and> u \<le> sequence e \<and> wasm_uploaded e h \<and>
       s' = publish (UpgradeExecuted h) (s\<lparr>st_pending_upgrade := None, st_wasm := h\<rparr>))"
  by (auto simp: execute_upgrade_def result_simps not_less)

lemma set_fee_Inr_iff [result_simps]:
  "set_fee e adm b s = Inr s' \<longleftrightarrow>
     authorized e adm \<and> st_admin s = Some adm \<and> b \<le> MAX_FEE_BPS \<and>
     s' = publish (FeeConfigured adm b) (extend_instance_ttl e (s\<lparr>st_fee_bps := Some b\<rparr>))"
  by (auto simp: set_fee_def result_simps not_less)

lemma propose_fee_collector_Inr_iff [result_simps]:
  "propose_fee_collector e adm n s = Inr s' \<longleftrightarrow>
     authorized e adm \<and> st_admin s = Some adm \<and> st_fee_collector s \<noteq> Some n \<and>
     st_pending_fee_collector s = None \<and>
     s' = publish (FeeCollectorTransferProposed adm n (sequence e + ADMIN_TRANSFER_EXPIRY_LEDGERS))
            (extend_instance_ttl e
              (s\<lparr>st_pending_fee_collector := Some (n, sequence e + ADMIN_TRANSFER_EXPIRY_LEDGERS)\<rparr>))"
  by (auto simp: propose_fee_collector_def Let_def result_simps simp del: not_None_eq)

lemma accept_fee_collector_Inr_iff [result_simps]:
  "accept_fee_collector e n s = Inr s' \<longleftrightarrow>
     authorized e n \<and> (\<exists>x. st_pending_fee_collector s = Some (n, x) \<and> sequence e \<le> x) \<and>
     s' = publish (FeeCollectorTransferAccepted n)
            (extend_instance_ttl e (s\<lparr>st_fee_collector := Some n, st_pending_fee_collector := None\<rparr>))"
  by (auto simp: accept_fee_collector_def result_simps not_less)

lemma cancel_fee_collector_transfer_Inr_iff [result_simps]:
  "cancel_fee_collector_transfer e adm s = Inr s' \<longleftrightarrow>
     authorized e adm \<and> st_admin s = Some adm \<and> st_pending_fee_collector s \<noteq> None \<and>
     s' = publish (FeeCollectorTransferCancelled adm) (s\<lparr>st_pending_fee_collector := None\<rparr>)"
  by (auto simp: cancel_fee_collector_transfer_def result_simps)

lemma set_guardian_Inr_iff [result_simps]:
  "set_guardian e adm g s = Inr s' \<longleftrightarrow>
     authorized e adm \<and> st_admin s = Some adm \<and>
     s' = publish (GuardianUpdated adm g) (extend_instance_ttl e (s\<lparr>st_guardian := Some g\<rparr>))"
  by (auto simp: set_guardian_def result_simps)

lemma set_guardian_pause_duration_Inr_iff [result_simps]:
  "set_guardian_pause_duration e adm d s = Inr s' \<longleftrightarrow>
     authorized e adm \<and> st_admin s = Some adm \<and> d \<noteq> 0 \<and>
     s' = extend_instance_ttl e (s\<lparr>st_guardian_pause_duration := Some d\<rparr>)"
  by (auto simp: set_guardian_pause_duration_def result_simps)

section \<open>The handover protocol\<close>

text \<open>
  A role is handed over in two steps: the admin names a candidate, who becomes the holder only
  by accepting under its own authorisation before the proposal's last ledger; the admin may
  withdraw the proposal in between. \<open>holder\<close> and \<open>pending\<close> read the role from the state.
\<close>

locale handover =
  fixes holder :: "'s \<Rightarrow> address option"
    and pending :: "'s \<Rightarrow> (address \<times> u32) option"
    and admin_of :: "'s \<Rightarrow> address option"
    and propose :: "env \<Rightarrow> address \<Rightarrow> address \<Rightarrow> 's \<Rightarrow> ('e, 's) result"
    and accept :: "env \<Rightarrow> address \<Rightarrow> 's \<Rightarrow> ('e, 's) result"
    and cancel :: "env \<Rightarrow> address \<Rightarrow> 's \<Rightarrow> ('e, 's) result"
  assumes propose_needs:
      "propose e adm n s = Inr s' \<Longrightarrow> authorized e adm \<and> admin_of s = Some adm \<and> pending s = None"
    and propose_does:
      "propose e adm n s = Inr s' \<Longrightarrow>
       holder s' = holder s \<and> pending s' = Some (n, sequence e + ADMIN_TRANSFER_EXPIRY_LEDGERS)"
    and accept_iff:
      "is_ok (accept e n s) \<longleftrightarrow>
       authorized e n \<and> (\<exists>x. pending s = Some (n, x) \<and> sequence e \<le> x)"
    and accept_does: "accept e n s = Inr s' \<Longrightarrow> holder s' = Some n \<and> pending s' = None"
    and cancel_needs: "cancel e adm s = Inr s' \<Longrightarrow> authorized e adm \<and> admin_of s = Some adm"
    and cancel_does: "cancel e adm s = Inr s' \<Longrightarrow> holder s' = holder s \<and> pending s' = None"
begin

lemma accept_after_propose:
  assumes "propose e adm n s = Inr s1" "accept e2 m s1 = Inr s2"
  shows "m = n \<and> authorized e2 n \<and> sequence e2 \<le> sequence e + ADMIN_TRANSFER_EXPIRY_LEDGERS \<and>
         holder s2 = Some n"
  using accept_iff [of e2 m s1] accept_does [OF assms(2)] propose_does [OF assms(1)] assms(2) by auto

lemma accept_available:
  assumes "propose e adm n s = Inr s1" "authorized e2 n"
    and "sequence e2 \<le> sequence e + ADMIN_TRANSFER_EXPIRY_LEDGERS"
  shows "\<exists>s2. accept e2 n s1 = Inr s2 \<and> holder s2 = Some n \<and> pending s2 = None"
proof -
  have "is_ok (accept e2 n s1)"
    using accept_iff propose_does [OF assms(1)] assms(2,3) by auto
  then obtain s2 where s2: "accept e2 n s1 = Inr s2" by (auto simp: is_ok_iff)
  with accept_does [OF s2] show ?thesis by blast
qed

lemma expired_never_accepted:
  assumes "propose e adm n s = Inr s1"
    and "sequence e2 > sequence e + ADMIN_TRANSFER_EXPIRY_LEDGERS"
  shows "\<not> is_ok (accept e2 m s1)"
  using accept_iff propose_does [OF assms(1)] assms(2) by auto

lemma cancelled_never_accepted:
  assumes "cancel e adm s = Inr s1"
  shows "\<not> is_ok (accept e2 m s1)"
  using accept_iff cancel_does [OF assms] by auto

lemma no_overwrite: "pending s \<noteq> None \<Longrightarrow> \<not> is_ok (propose e adm n s)"
  using propose_needs by (auto simp: is_ok_iff)

end

interpretation admin_handover: handover st_admin st_pending_admin st_admin
  propose_admin accept_admin cancel_admin_transfer
  by unfold_locales (auto simp: result_simps storage_defs is_ok_iff)

interpretation collector_handover: handover st_fee_collector st_pending_fee_collector st_admin
  propose_fee_collector accept_fee_collector cancel_fee_collector_transfer
  by unfold_locales (auto simp: result_simps storage_defs is_ok_iff)

end
