(* ===== verification/Tipjar_Escrow.thy ===== *)
theory Tipjar_Escrow
  imports Tipjar_Governance
begin

unbundle bit_operations_syntax

text \<open>
  The escrow of the tip jar (\<^verbatim>\<open>src/contracts/tipjar/src/lib.rs\<close>): the fee schedule, tips,
  withdrawals by creators and operators, the token allowlist, payout addresses, operators,
  protocol fees, and the lazy migration of the entries of the first contract version.
\<close>

section \<open>Fee schedule\<close>

definition fee_for :: "int \<Rightarrow> u32 \<Rightarrow> (error, int) result" where
  "fee_for amount bps =
     (if bps = 0 then Inr 0
      else and_then (ok_or FeeOverflow (checked_mul_i128 amount (uint bps))) (\<lambda>product.
           ok_or FeeOverflow (checked_div_i128 product BPS_DENOMINATOR)))"

definition preview_fee :: "int \<Rightarrow> u32 \<Rightarrow> (error, int \<times> int) result" where
  "preview_fee amount bps = and_then (fee_for amount bps) (\<lambda>fee. Inr (fee, sub_i128 amount fee))"

section \<open>Lazy migration of legacy entries\<close>

definition maybe_migrate_creator_data :: "env \<Rightarrow> address \<Rightarrow> address \<Rightarrow> 'tk jar \<Rightarrow> 'tk jar" where
  "maybe_migrate_creator_data e creator t s =
     (case st_token s of
        None \<Rightarrow> s
      | Some legacy_token \<Rightarrow>
          if legacy_token \<noteq> t then s
          else let
            s1 = (case st_creator_balance s creator of
                    None \<Rightarrow> s
                  | Some v1_balance \<Rightarrow>
                      remove_ttl (CreatorBalance creator)
                        ((extend_ttl e (Balance creator t) (set_balance e creator t v1_balance s))
                           \<lparr>st_creator_balance := (st_creator_balance s)(creator := None)\<rparr>));
            s2 = (case st_creator_total s1 creator of
                    None \<Rightarrow> s1
                  | Some v1_total \<Rightarrow>
                      remove_ttl (CreatorTotal creator)
                        ((extend_ttl e (Total creator t) (set_total e creator t v1_total s1))
                           \<lparr>st_creator_total := (st_creator_total s1)(creator := None)\<rparr>))
          in s2)"

definition maybe_migrate_fee_balance :: "env \<Rightarrow> address \<Rightarrow> 'tk jar \<Rightarrow> 'tk jar_result" where
  "maybe_migrate_fee_balance e t s =
     (case st_fee_balance s of
        None \<Rightarrow> Inr s
      | Some legacy \<Rightarrow>
          (case st_token s of
             None \<Rightarrow> Inr s
           | Some primary \<Rightarrow>
               if t \<noteq> primary then Inr s
               else let current = unwrap_or (st_fee_balance_token s t) 0 in
                 and_then (ok_or FeeOverflow (checked_add_i128 current legacy)) (\<lambda>combined.
                   Inr (remove_ttl FeeBalance
                     ((extend_ttl e (FeeBalanceToken t) (set_fee_balance_token e t combined s))
                        \<lparr>st_fee_balance := None\<rparr>)))))"

section \<open>Tipping\<close>

text \<open>The block of \<open>tip\<close> that runs when a fee rate is configured.\<close>

definition accrue_fee ::
  "env \<Rightarrow> address \<Rightarrow> address \<Rightarrow> int \<Rightarrow> int \<Rightarrow> int \<Rightarrow> 'tk jar \<Rightarrow> 'tk jar_result" where
  "accrue_fee e creator t amount fee net_amount s =
     and_then (maybe_migrate_fee_balance e t s) (\<lambda>s1.
     let fee_balance = unwrap_or (st_fee_balance_token s1 t) 0 in
     and_then (ok_or FeeOverflow (checked_add_i128 fee_balance fee)) (\<lambda>new_fee_balance.
     Inr (publish (FeeCharged creator amount fee net_amount)
       (extend_ttl e (FeeBalanceToken t) (set_fee_balance_token e t new_fee_balance s1)))))"

definition tip ::
  "'tk transfer_fn \<Rightarrow> env \<Rightarrow> address \<Rightarrow> address \<Rightarrow> address \<Rightarrow> int \<Rightarrow> 'tk jar \<Rightarrow> 'tk jar_result" where
  "tip transfer e sender creator t amount s =
     and_then (require_auth e sender) (\<lambda>_.
     and_then (check_not_paused e PAUSE_FLAG_TIPS s) (\<lambda>_.
     if amount \<le> 0 then fail InvalidAmount else
     and_then (ensure_initialized s) (\<lambda>_.
     and_then (ensure_token_allowed t s) (\<lambda>_.
     let s1 = maybe_migrate_creator_data e creator t s;
         bps = unwrap_or (st_fee_bps s1) 0 in
     and_then (fee_for amount bps) (\<lambda>fee.
     let net_amount = sub_i128 amount fee in
     and_then (transfer_tokens transfer t sender (contract_address e) amount s1) (\<lambda>s2.
     let balance = unwrap_or (st_balance s2 (creator, t)) 0;
         total = unwrap_or (st_total s2 (creator, t)) 0 in
     and_then (ok_or InvalidAmount (checked_add_i128 balance net_amount)) (\<lambda>new_balance.
     and_then (ok_or InvalidAmount (checked_add_i128 total amount)) (\<lambda>new_total.
     let s3 = extend_ttl e (Total creator t) (extend_ttl e (Balance creator t)
                (set_total e creator t new_total (set_balance e creator t new_balance s2))) in
     and_then (if bps > 0 then accrue_fee e creator t amount fee net_amount s3 else Inr s3) (\<lambda>s4.
     Inr (publish (Tip creator t sender amount) (extend_instance_ttl e s4)))))))))))"

section \<open>Queries\<close>

text \<open>The queries may migrate legacy entries on the way, so they return the storage as well.\<close>

definition get_total_tips :: "env \<Rightarrow> address \<Rightarrow> address \<Rightarrow> 'tk jar \<Rightarrow> 'tk jar \<times> int" where
  "get_total_tips e creator t s =
     (let s1 = maybe_migrate_creator_data e creator t s
      in (s1, unwrap_or (st_total s1 (creator, t)) 0))"

definition get_balance :: "env \<Rightarrow> address \<Rightarrow> address \<Rightarrow> 'tk jar \<Rightarrow> 'tk jar \<times> int" where
  "get_balance e creator t s =
     (let s1 = maybe_migrate_creator_data e creator t s
      in (s1, unwrap_or (st_balance s1 (creator, t)) 0))"

definition get_tokens :: "'tk jar \<Rightarrow> (error, address list) result" where
  "get_tokens s =
     and_then (ensure_initialized s) (\<lambda>_. Inr (unwrap_or (st_allowed_tokens s) []))"

definition get_fee_balance :: "env \<Rightarrow> address \<Rightarrow> 'tk jar \<Rightarrow> (error, 'tk jar \<times> int) result" where
  "get_fee_balance e t s =
     and_then (maybe_migrate_fee_balance e t s) (\<lambda>s1.
     Inr (s1, unwrap_or (st_fee_balance_token s1 t) 0))"

section \<open>Withdrawals\<close>

text \<open>The block of \<open>withdraw\<close> that charges an operator's allowance.\<close>

definition charge_operator ::
  "env \<Rightarrow> address \<Rightarrow> address \<Rightarrow> int \<Rightarrow> 'tk jar \<Rightarrow> 'tk jar_result" where
  "charge_operator e caller creator n s =
     (if caller = creator then Inr s
      else case st_operator s (creator, caller) of
        None \<Rightarrow> fail InvalidOperator
      | Some (allowance, expiry_ledger) \<Rightarrow>
          if sequence e > expiry_ledger then fail OperatorExpired
          else if allowance < n then fail InsufficientAllowance
          else let new_allowance = sub_i128 allowance n in
            if new_allowance = 0 then Inr (remove_operator creator caller s)
            else Inr (extend_ttl e (Operator creator caller)
                   (set_operator e creator caller (new_allowance, expiry_ledger) s)))"

text \<open>The block of \<open>withdraw\<close> that applies a matured change of the payout address.\<close>

definition apply_matured_payout :: "env \<Rightarrow> address \<Rightarrow> 'tk jar \<Rightarrow> 'tk jar" where
  "apply_matured_payout e creator s =
     (case st_pending_payout s creator of
        None \<Rightarrow> s
      | Some (new_payout, effective_ledger) \<Rightarrow>
          if sequence e \<ge> effective_ledger
          then publish (PayoutChangeApplied creator new_payout)
                 (remove_pending_payout creator
                   (extend_ttl e (PayoutAddress creator) (set_payout e creator new_payout s)))
          else s)"

definition withdraw ::
  "'tk transfer_fn \<Rightarrow> env \<Rightarrow> address \<Rightarrow> address \<Rightarrow> address \<Rightarrow> address \<Rightarrow> int option \<Rightarrow>
   'tk jar \<Rightarrow> 'tk jar_result" where
  "withdraw transfer e caller creator t dst amount s =
     and_then (require_auth e caller) (\<lambda>_.
     and_then (check_not_paused e PAUSE_FLAG_WITHDRAWALS s) (\<lambda>_.
     and_then (ensure_initialized s) (\<lambda>_.
     let s1 = maybe_migrate_creator_data e creator t s;
         balance = unwrap_or (st_balance s1 (creator, t)) 0 in
     if balance = 0 then fail NothingToWithdraw else
     let n = unwrap_or amount balance in
     if n \<le> 0 \<or> n > balance then fail InvalidAmount else
     and_then (charge_operator e caller creator n s1) (\<lambda>s2.
     let s3 = apply_matured_payout e creator s2;
         payout = unwrap_or (st_payout_address s3 creator) creator;
         s4 = (if st_payout_address s3 creator \<noteq> None
               then extend_ttl e (PayoutAddress creator) s3 else s3) in
     if dst \<noteq> payout then fail InvalidTarget else
     and_then (transfer_tokens transfer t (contract_address e) payout n s4) (\<lambda>s5.
     let new_balance = sub_i128 balance n in
     Inr (publish (Withdraw creator t n payout) (extend_instance_ttl e
       (extend_ttl e (Balance creator t) (set_balance e creator t new_balance s5)))))))))"

section \<open>Token allowlist\<close>

definition add_token :: "env \<Rightarrow> address \<Rightarrow> address \<Rightarrow> 'tk jar \<Rightarrow> 'tk jar_result" where
  "add_token e adm t s =
     and_then (require_auth e adm) (\<lambda>_.
     and_then (require_admin adm s) (\<lambda>_.
     let allowed_tokens = unwrap_or (st_allowed_tokens s) [] in
     if length allowed_tokens \<ge> MAX_ALLOWED_TOKENS then fail MaxTokensReached
     else if t \<in> set allowed_tokens then fail TokenAlreadyExists
     else Inr (extend_instance_ttl e (s\<lparr>st_allowed_tokens := Some (allowed_tokens @ [t])\<rparr>))))"

definition remove_token :: "env \<Rightarrow> address \<Rightarrow> address \<Rightarrow> 'tk jar \<Rightarrow> 'tk jar_result" where
  "remove_token e adm t s =
     and_then (require_auth e adm) (\<lambda>_.
     and_then (require_admin adm s) (\<lambda>_.
     let allowed_tokens = unwrap_or (st_allowed_tokens s) [];
         new_tokens = filter (\<lambda>x. x \<noteq> t) allowed_tokens in
     if t \<notin> set allowed_tokens then fail TokenNotAllowed
     else Inr (extend_instance_ttl e (s\<lparr>st_allowed_tokens := Some new_tokens\<rparr>))))"

section \<open>Payout addresses and operators\<close>

definition set_payout_address :: "env \<Rightarrow> address \<Rightarrow> address \<Rightarrow> 'tk jar \<Rightarrow> 'tk jar_result" where
  "set_payout_address e creator payout s =
     and_then (require_auth e creator) (\<lambda>_.
     and_then (check_not_paused e PAUSE_FLAG_WITHDRAWALS s) (\<lambda>_.
     let effective_ledger = sequence e + PAYOUT_DELAY_LEDGERS in
     Inr (publish (PayoutChangeProposed creator payout effective_ledger) (extend_instance_ttl e
       (extend_ttl e (PendingPayoutChange creator)
         (set_pending_payout e creator (payout, effective_ledger) s))))))"

definition cancel_payout_address :: "env \<Rightarrow> address \<Rightarrow> 'tk jar \<Rightarrow> 'tk jar_result" where
  "cancel_payout_address e creator s =
     and_then (require_auth e creator) (\<lambda>_.
     and_then (check_not_paused e PAUSE_FLAG_WITHDRAWALS s) (\<lambda>_.
     if st_pending_payout s creator = None then fail NoPendingPayoutChange
     else Inr (publish (PayoutChangeCancelled creator) (remove_pending_payout creator s))))"

definition authorize_operator ::
  "env \<Rightarrow> address \<Rightarrow> address \<Rightarrow> int \<Rightarrow> u32 \<Rightarrow> 'tk jar \<Rightarrow> 'tk jar_result" where
  "authorize_operator e creator opr allowance expiry_ledger s =
     and_then (require_auth e creator) (\<lambda>_.
     and_then (check_not_paused e PAUSE_FLAG_WITHDRAWALS s) (\<lambda>_.
     Inr (publish (OperatorAuthorized creator opr allowance expiry_ledger) (extend_instance_ttl e
       (extend_ttl e (Operator creator opr)
         (set_operator e creator opr (allowance, expiry_ledger) s))))))"

definition revoke_operator :: "env \<Rightarrow> address \<Rightarrow> address \<Rightarrow> 'tk jar \<Rightarrow> 'tk jar_result" where
  "revoke_operator e creator opr s =
     and_then (require_auth e creator) (\<lambda>_.
     and_then (check_not_paused e PAUSE_FLAG_WITHDRAWALS s) (\<lambda>_.
     Inr (publish (OperatorRevoked creator opr) (remove_operator creator opr s))))"

section \<open>Protocol fees\<close>

definition withdraw_fees ::
  "'tk transfer_fn \<Rightarrow> env \<Rightarrow> address \<Rightarrow> address \<Rightarrow> int option \<Rightarrow> 'tk jar \<Rightarrow> 'tk jar_result" where
  "withdraw_fees transfer e caller t amount s =
     and_then (require_auth e caller) (\<lambda>_.
     and_then (ok_or NothingToWithdraw (st_fee_collector s)) (\<lambda>collector.
     if caller \<noteq> collector then fail NotFeeCollector else
     and_then (maybe_migrate_fee_balance e t s) (\<lambda>s1.
     let balance = unwrap_or (st_fee_balance_token s1 t) 0 in
     if balance = 0 then fail NothingToWithdraw else
     let n = unwrap_or amount balance in
     if n \<le> 0 \<or> n > balance then fail InvalidAmount else
     and_then (transfer_tokens transfer t (contract_address e) collector n s1) (\<lambda>s2.
     let new_balance = sub_i128 balance n in
     Inr (publish (FeeWithdraw collector n) (extend_instance_ttl e
       (extend_ttl e (FeeBalanceToken t) (set_fee_balance_token e t new_balance s2))))))))"

section \<open>The single-token interface of the first version\<close>

definition tip_legacy ::
  "'tk transfer_fn \<Rightarrow> env \<Rightarrow> address \<Rightarrow> address \<Rightarrow> int \<Rightarrow> 'tk jar \<Rightarrow> 'tk jar_result" where
  "tip_legacy transfer e sender creator amount s =
     and_then (get_tokens s) (\<lambda>tokens.
     case tokens of
       [] \<Rightarrow> fail NotInitialized
     | default_token # _ \<Rightarrow> tip transfer e sender creator default_token amount s)"

definition get_total_tips_legacy :: "env \<Rightarrow> address \<Rightarrow> 'tk jar \<Rightarrow> (error, 'tk jar \<times> int) result" where
  "get_total_tips_legacy e creator s =
     and_then (get_tokens s) (\<lambda>tokens.
     case tokens of
       [] \<Rightarrow> Inr (s, 0)
     | default_token # _ \<Rightarrow> Inr (get_total_tips e creator default_token s))"

definition withdraw_legacy ::
  "'tk transfer_fn \<Rightarrow> env \<Rightarrow> address \<Rightarrow> address \<Rightarrow> address \<Rightarrow> int option \<Rightarrow> 'tk jar \<Rightarrow> 'tk jar_result" where
  "withdraw_legacy transfer e caller creator dst amount s =
     and_then (get_tokens s) (\<lambda>tokens.
     case tokens of
       [] \<Rightarrow> fail NotInitialized
     | default_token # _ \<Rightarrow> withdraw transfer e caller creator default_token dst amount s)"

section \<open>Frames and inversion\<close>

lemma migrate_frame [simp]:
  "st_token (maybe_migrate_creator_data e c t s) = st_token s"
  "st_allowed_tokens (maybe_migrate_creator_data e c t s) = st_allowed_tokens s"
  "st_payout_address (maybe_migrate_creator_data e c t s) = st_payout_address s"
  "st_pending_payout (maybe_migrate_creator_data e c t s) = st_pending_payout s"
  "st_operator (maybe_migrate_creator_data e c t s) = st_operator s"
  "st_admin (maybe_migrate_creator_data e c t s) = st_admin s"
  "st_pending_admin (maybe_migrate_creator_data e c t s) = st_pending_admin s"
  "st_upgrade_timelock (maybe_migrate_creator_data e c t s) = st_upgrade_timelock s"
  "st_pending_upgrade (maybe_migrate_creator_data e c t s) = st_pending_upgrade s"
  "st_data_version (maybe_migrate_creator_data e c t s) = st_data_version s"
  "st_guardian (maybe_migrate_creator_data e c t s) = st_guardian s"
  "st_pause (maybe_migrate_creator_data e c t s) = st_pause s"
  "st_guardian_pause_duration (maybe_migrate_creator_data e c t s) = st_guardian_pause_duration s"
  "st_fee_bps (maybe_migrate_creator_data e c t s) = st_fee_bps s"
  "st_fee_collector (maybe_migrate_creator_data e c t s) = st_fee_collector s"
  "st_pending_fee_collector (maybe_migrate_creator_data e c t s) = st_pending_fee_collector s"
  "st_fee_balance (maybe_migrate_creator_data e c t s) = st_fee_balance s"
  "st_fee_balance_token (maybe_migrate_creator_data e c t s) = st_fee_balance_token s"
  "st_wasm (maybe_migrate_creator_data e c t s) = st_wasm s"
  "st_instance_live (maybe_migrate_creator_data e c t s) = st_instance_live s"
  "st_tokens (maybe_migrate_creator_data e c t s) = st_tokens s"
  "st_events (maybe_migrate_creator_data e c t s) = st_events s"
  by (simp_all add: maybe_migrate_creator_data_def Let_def storage_defs split: option.split)

lemma maybe_migrate_fee_balance_Inr_iff [result_simps]:
  "maybe_migrate_fee_balance e t s = Inr s' \<longleftrightarrow>
     (if \<exists>v. st_fee_balance s = Some v \<and> st_token s = Some t
      then in_i128 (unwrap_or (st_fee_balance_token s t) 0 + the (st_fee_balance s)) \<and>
           s' = remove_ttl FeeBalance ((extend_ttl e (FeeBalanceToken t) (set_fee_balance_token e t
                  (unwrap_or (st_fee_balance_token s t) 0 + the (st_fee_balance s)) s))
                  \<lparr>st_fee_balance := None\<rparr>)
      else s' = s)"
  by (auto simp: maybe_migrate_fee_balance_def Let_def result_simps split: option.splits)

lemma charge_operator_Inr_iff [result_simps]:
  "charge_operator e caller c n s = Inr s' \<longleftrightarrow>
     (if caller = c then s' = s
      else \<exists>a x. st_operator s (c, caller) = Some (a, x) \<and> sequence e \<le> x \<and> n \<le> a \<and>
        s' = (if sub_i128 a n = 0 then remove_operator c caller s
              else extend_ttl e (Operator c caller)
                     (set_operator e c caller (sub_i128 a n, x) s)))"
  by (auto simp: charge_operator_def Let_def not_less split: option.splits if_splits)

text \<open>The payout address a withdrawal at this moment pays to.\<close>

definition effective_payout :: "env \<Rightarrow> address \<Rightarrow> 'tk jar \<Rightarrow> address" where
  "effective_payout e c s =
     (case st_pending_payout s c of
        Some (p, eff) \<Rightarrow> if eff \<le> sequence e then p else unwrap_or (st_payout_address s c) c
      | None \<Rightarrow> unwrap_or (st_payout_address s c) c)"

lemma apply_matured_payout_frame [simp]:
  "st_token (apply_matured_payout e c s) = st_token s"
  "st_creator_balance (apply_matured_payout e c s) = st_creator_balance s"
  "st_creator_total (apply_matured_payout e c s) = st_creator_total s"
  "st_allowed_tokens (apply_matured_payout e c s) = st_allowed_tokens s"
  "st_balance (apply_matured_payout e c s) = st_balance s"
  "st_total (apply_matured_payout e c s) = st_total s"
  "st_operator (apply_matured_payout e c s) = st_operator s"
  "st_admin (apply_matured_payout e c s) = st_admin s"
  "st_pending_admin (apply_matured_payout e c s) = st_pending_admin s"
  "st_upgrade_timelock (apply_matured_payout e c s) = st_upgrade_timelock s"
  "st_pending_upgrade (apply_matured_payout e c s) = st_pending_upgrade s"
  "st_data_version (apply_matured_payout e c s) = st_data_version s"
  "st_guardian (apply_matured_payout e c s) = st_guardian s"
  "st_pause (apply_matured_payout e c s) = st_pause s"
  "st_guardian_pause_duration (apply_matured_payout e c s) = st_guardian_pause_duration s"
  "st_fee_bps (apply_matured_payout e c s) = st_fee_bps s"
  "st_fee_collector (apply_matured_payout e c s) = st_fee_collector s"
  "st_pending_fee_collector (apply_matured_payout e c s) = st_pending_fee_collector s"
  "st_fee_balance (apply_matured_payout e c s) = st_fee_balance s"
  "st_fee_balance_token (apply_matured_payout e c s) = st_fee_balance_token s"
  "st_wasm (apply_matured_payout e c s) = st_wasm s"
  "st_instance_live (apply_matured_payout e c s) = st_instance_live s"
  "st_tokens (apply_matured_payout e c s) = st_tokens s"
  by (simp_all add: apply_matured_payout_def storage_defs split: option.split prod.split)

lemma apply_matured_payout_address:
  "unwrap_or (st_payout_address (apply_matured_payout e c s) c) c = effective_payout e c s"
  by (simp add: apply_matured_payout_def effective_payout_def storage_defs split: option.split prod.split)

lemma tip_Inr_iff:
  "tip transfer e sender c t n s = Inr s' \<longleftrightarrow>
     authorized e sender \<and> pause_flags e s AND PAUSE_FLAG_TIPS = 0 \<and> \<not> n \<le> 0 \<and> (\<exists>a. st_admin s = Some a) \<and>
     t \<in> set (unwrap_or (st_allowed_tokens s) []) \<and>
     (\<exists>fee tk s4.
        fee_for n (unwrap_or (st_fee_bps s) 0) = Inr fee \<and>
        transfer (st_tokens s) t sender (contract_address e) n = Some tk \<and>
        in_i128 (snd (get_balance e c t s) + sub_i128 n fee) \<and>
        in_i128 (snd (get_total_tips e c t s) + n) \<and>
        (let s3 = extend_ttl e (Total c t) (extend_ttl e (Balance c t)
               (set_total e c t (snd (get_total_tips e c t s) + n)
                 (set_balance e c t (snd (get_balance e c t s) + sub_i128 n fee)
                   ((maybe_migrate_creator_data e c t s)\<lparr>st_tokens := tk\<rparr>)))) in
        if unwrap_or (st_fee_bps s) 0 > 0 then accrue_fee e c t n fee (sub_i128 n fee) s3 = Inr s4
         else s3 = s4) \<and>
        publish (Tip c t sender n) (extend_instance_ttl e s4) = s')"
  unfolding tip_def Let_def get_balance_def get_total_tips_def
  by (simp only: result_simps if_ok_Inr_iff ex_defined_iff migrate_frame snd_conv simp_thms
     ex_simps sum.inject jar.simps cong: if_cong)
    simp

lemma withdraw_Inr_iff:
  "withdraw transfer e caller c t dst amount s = Inr s' \<longleftrightarrow>
     authorized e caller \<and> pause_flags e s AND PAUSE_FLAG_WITHDRAWALS = 0 \<and> (\<exists>a. st_admin s = Some a) \<and>
     (let b = snd (get_balance e c t s); n = unwrap_or amount b in
      b \<noteq> 0 \<and> \<not> (n \<le> 0 \<or> b < n) \<and>
      (\<exists>s2. charge_operator e caller c n (maybe_migrate_creator_data e c t s) = Inr s2 \<and>
        (let s3 = apply_matured_payout e c s2;
             s4 = (if st_payout_address s3 c \<noteq> None then extend_ttl e (PayoutAddress c) s3 else s3) in
         \<not> dst \<noteq> unwrap_or (st_payout_address s3 c) c \<and>
         (\<exists>tk. transfer (st_tokens s4) t (contract_address e) (unwrap_or (st_payout_address s3 c) c) n = Some tk \<and>
           publish (Withdraw c t n (unwrap_or (st_payout_address s3 c) c)) (extend_instance_ttl e
               (extend_ttl e (Balance c t) (set_balance e c t (sub_i128 b n)
                 (s4\<lparr>st_tokens := tk\<rparr>)))) = s'))))"
  unfolding withdraw_def Let_def get_balance_def
  by (simp only: and_then_Inr_iff require_auth_Inr_iff check_not_paused_Inr_iff if_fail_Inr_iff
     ensure_initialized_Inr_iff ensure_token_allowed_Inr_iff transfer_tokens_Inr_iff ok_or_Inr_iff
      ex_defined_iff migrate_frame snd_conv simp_thms
     ex_simps sum.inject jar.simps)

lemma withdraw_fees_Inr_iff:
  "withdraw_fees transfer e caller t amount s = Inr s' \<longleftrightarrow>
     authorized e caller \<and> st_fee_collector s = Some caller \<and>
     (\<exists>s1. maybe_migrate_fee_balance e t s = Inr s1 \<and>
       (let b = unwrap_or (st_fee_balance_token s1 t) 0; n = unwrap_or amount b in
        b \<noteq> 0 \<and> \<not> (n \<le> 0 \<or> b < n) \<and>
        (\<exists>tk. transfer (st_tokens s1) t (contract_address e) caller n = Some tk \<and>
          publish (FeeWithdraw caller n) (extend_instance_ttl e
            (extend_ttl e (FeeBalanceToken t) (set_fee_balance_token e t (sub_i128 b n)
              (s1\<lparr>st_tokens := tk\<rparr>)))) = s')))"
proof -
  have "(\<exists>x. st_fee_collector s = Some x \<and> \<not> caller \<noteq> x \<and> Q x) \<longleftrightarrow> st_fee_collector s = Some caller \<and> Q caller"
    for Q by blast
  then show ?thesis
    unfolding withdraw_fees_def Let_def
    by (simp only: and_then_Inr_iff require_auth_Inr_iff if_fail_Inr_iff transfer_tokens_Inr_iff
        ok_or_Inr_iff ex_defined_iff simp_thms ex_simps sum.inject)
qed

lemma accrue_fee_Inr_iff:
  "accrue_fee e c t n fee net s = Inr s' \<longleftrightarrow>
     (\<exists>s1. maybe_migrate_fee_balance e t s = Inr s1 \<and>
       in_i128 (unwrap_or (st_fee_balance_token s1 t) 0 + fee) \<and>
       publish (FeeCharged c n fee net) (extend_ttl e (FeeBalanceToken t)
         (set_fee_balance_token e t (unwrap_or (st_fee_balance_token s1 t) 0 + fee) s1)) = s')"
  unfolding accrue_fee_def Let_def
  by (simp only: and_then_Inr_iff ok_or_Inr_iff checked_add_i128_Some_iff ex_defined_iff simp_thms
      ex_simps sum.inject)

lemma add_token_Inr_iff [result_simps]:
  "add_token e adm t s = Inr s' \<longleftrightarrow>
     authorized e adm \<and> st_admin s = Some adm \<and>
     length (unwrap_or (st_allowed_tokens s) []) < MAX_ALLOWED_TOKENS \<and>
     t \<notin> set (unwrap_or (st_allowed_tokens s) []) \<and>
     s' = extend_instance_ttl e
            (s\<lparr>st_allowed_tokens := Some (unwrap_or (st_allowed_tokens s) [] @ [t])\<rparr>)"
  by (auto simp: add_token_def Let_def result_simps not_le)

lemma remove_token_Inr_iff [result_simps]:
  "remove_token e adm t s = Inr s' \<longleftrightarrow>
     authorized e adm \<and> st_admin s = Some adm \<and> t \<in> set (unwrap_or (st_allowed_tokens s) []) \<and>
     s' = extend_instance_ttl e
            (s\<lparr>st_allowed_tokens := Some (filter (\<lambda>x. x \<noteq> t) (unwrap_or (st_allowed_tokens s) []))\<rparr>)"
  by (auto simp: remove_token_def Let_def result_simps)

lemma set_payout_address_Inr_iff [result_simps]:
  "set_payout_address e c p s = Inr s' \<longleftrightarrow>
     authorized e c \<and> pause_flags e s AND PAUSE_FLAG_WITHDRAWALS = 0 \<and>
     s' = publish (PayoutChangeProposed c p (sequence e + PAYOUT_DELAY_LEDGERS)) (extend_instance_ttl e
            (extend_ttl e (PendingPayoutChange c)
              (set_pending_payout e c (p, sequence e + PAYOUT_DELAY_LEDGERS) s)))"
  by (auto simp: set_payout_address_def Let_def result_simps)

lemma cancel_payout_address_Inr_iff [result_simps]:
  "cancel_payout_address e c s = Inr s' \<longleftrightarrow>
     authorized e c \<and> pause_flags e s AND PAUSE_FLAG_WITHDRAWALS = 0 \<and>
     st_pending_payout s c \<noteq> None \<and>
     s' = publish (PayoutChangeCancelled c) (remove_pending_payout c s)"
  by (auto simp: cancel_payout_address_def result_simps)

lemma authorize_operator_Inr_iff [result_simps]:
  "authorize_operator e c a v x s = Inr s' \<longleftrightarrow>
     authorized e c \<and> pause_flags e s AND PAUSE_FLAG_WITHDRAWALS = 0 \<and>
     s' = publish (OperatorAuthorized c a v x) (extend_instance_ttl e
            (extend_ttl e (Operator c a) (set_operator e c a (v, x) s)))"
  by (auto simp: authorize_operator_def result_simps)

lemma revoke_operator_Inr_iff [result_simps]:
  "revoke_operator e c a s = Inr s' \<longleftrightarrow>
     authorized e c \<and> pause_flags e s AND PAUSE_FLAG_WITHDRAWALS = 0 \<and>
     s' = publish (OperatorRevoked c a) (remove_operator c a s)"
  by (auto simp: revoke_operator_def result_simps)

lemma get_tokens_Inr_iff [result_simps]:
  "get_tokens s = Inr ts \<longleftrightarrow> (\<exists>a. st_admin s = Some a) \<and> ts = unwrap_or (st_allowed_tokens s) []"
  by (auto simp: get_tokens_def result_simps)

end
