(* ===== verification/Tipjar_Books.thy ===== *)
theory Tipjar_Books
  imports Tipjar_Escrow
begin

text \<open>
  The abstract specification of the escrow: books that record, for every creator and token, what
  the creator may withdraw and what it was ever tipped, and for every token the fees that were
  accrued. The function \<open>books_of\<close> reads the books from the storage of the contract, legacy
  entries included; tips, withdrawals and fee withdrawals act on the books as three simple
  bookkeeping operations, and the lazy migrations do not show on them.
\<close>

section \<open>The books and their operations\<close>

record books =
  bk_balance :: "address \<times> address \<Rightarrow> int"
  bk_total :: "address \<times> address \<Rightarrow> int"
  bk_fees :: "address \<Rightarrow> int"

definition book_tip :: "address \<Rightarrow> address \<Rightarrow> int \<Rightarrow> int \<Rightarrow> books \<Rightarrow> books" where
  "book_tip c t n fee b = \<lparr>
     bk_balance = (bk_balance b)((c, t) := bk_balance b (c, t) + (n - fee)),
     bk_total = (bk_total b)((c, t) := bk_total b (c, t) + n),
     bk_fees = (bk_fees b)(t := bk_fees b t + fee)\<rparr>"

definition book_withdraw :: "address \<Rightarrow> address \<Rightarrow> int \<Rightarrow> books \<Rightarrow> books" where
  "book_withdraw c t n b =
     b\<lparr>bk_balance := (bk_balance b)((c, t) := bk_balance b (c, t) - n)\<rparr>"

definition book_withdraw_fees :: "address \<Rightarrow> int \<Rightarrow> books \<Rightarrow> books" where
  "book_withdraw_fees t n b = b\<lparr>bk_fees := (bk_fees b)(t := bk_fees b t - n)\<rparr>"

definition liabilities :: "books \<Rightarrow> address \<Rightarrow> int" where
  "liabilities b t = support_total (\<lambda>c. bk_balance b (c, t)) + bk_fees b t"

definition books_ok :: "books \<Rightarrow> bool" where
  "books_ok b \<longleftrightarrow>
     (\<forall>c t. 0 \<le> bk_balance b (c, t) \<and> bk_balance b (c, t) \<le> bk_total b (c, t) \<and>
            bk_total b (c, t) \<le> I128_MAX) \<and>
     (\<forall>t. 0 \<le> bk_fees b t) \<and>
     (\<forall>t. finite (support (\<lambda>c. bk_balance b (c, t))))"

lemma fun_upd_pair: "(\<lambda>c. (f((c0, t0) := v)) (c, t)) = (if t = t0 then (\<lambda>c. f (c, t))(c0 := v) else (\<lambda>c. f (c, t)))"
  by (auto simp: fun_eq_iff)

lemma liabilities_tip:
  assumes "books_ok b"
  shows "liabilities (book_tip c t n fee b) t' = liabilities b t' + (if t' = t then n else 0)"
  using assms
  by (auto simp: liabilities_def book_tip_def books_ok_def fun_upd_pair support_total_upd
        simp del: fun_upd_apply) (simp_all add: fun_upd_def)

lemma liabilities_withdraw:
  assumes "books_ok b"
  shows "liabilities (book_withdraw c t n b) t' = liabilities b t' - (if t' = t then n else 0)"
  using assms
  by (auto simp: liabilities_def book_withdraw_def books_ok_def fun_upd_pair support_total_upd
        simp del: fun_upd_apply)

lemma liabilities_withdraw_fees:
  "liabilities (book_withdraw_fees t n b) t' = liabilities b t' - (if t' = t then n else 0)"
  by (simp add: liabilities_def book_withdraw_fees_def)

lemma books_okI:
  assumes "\<And>c t. 0 \<le> bk_balance b (c, t)" "\<And>c t. bk_balance b (c, t) \<le> bk_total b (c, t)"
    and "\<And>c t. bk_total b (c, t) \<le> I128_MAX" "\<And>t. 0 \<le> bk_fees b t"
    and "\<And>t. finite (support (\<lambda>c. bk_balance b (c, t)))"
  shows "books_ok b"
  using assms by (simp add: books_ok_def)

lemma books_okD:
  assumes "books_ok b"
  shows "0 \<le> bk_balance b (c, t)" "bk_balance b (c, t) \<le> bk_total b (c, t)"
    "bk_total b (c, t) \<le> I128_MAX" "0 \<le> bk_fees b t" "0 \<le> bk_total b (c, t)"
    "finite (support (\<lambda>c. bk_balance b (c, t)))"
proof -
  show "0 \<le> bk_balance b (c, t)" "bk_balance b (c, t) \<le> bk_total b (c, t)"
    using assms by (simp_all add: books_ok_def)
  then show "0 \<le> bk_total b (c, t)" by linarith
qed (use assms in \<open>simp_all add: books_ok_def\<close>)

lemma finite_support_account:
  "books_ok b \<Longrightarrow> finite (support (\<lambda>c'. ((bk_balance b)((c, t) := v)) (c', t')))"
  by (simp add: books_okD fun_upd_pair del: fun_upd_apply)

lemma books_ok_tip:
  assumes "books_ok b" "0 \<le> fee" "fee \<le> n" "bk_total b (c, t) + n \<le> I128_MAX"
  shows "books_ok (book_tip c t n fee b)"
  using assms books_okD [OF assms(1)] finite_support_account [OF assms(1)]
    add_mono [OF books_okD(2) [OF assms(1), of c t], of "n - fee" n]
  by (intro books_okI) (auto simp: book_tip_def)

lemma books_ok_withdraw:
  assumes "books_ok b" "0 \<le> n" "n \<le> bk_balance b (c, t)"
  shows "books_ok (book_withdraw c t n b)"
  using assms books_okD [OF assms(1)] finite_support_account [OF assms(1)]
    diff_mono [OF books_okD(2) [OF assms(1), of c t], of 0 n]
  by (intro books_okI) (auto simp: book_withdraw_def)

lemma books_ok_withdraw_fees:
  "books_ok b \<Longrightarrow> n \<le> bk_fees b t \<Longrightarrow> books_ok (book_withdraw_fees t n b)"
  by (simp add: books_ok_def book_withdraw_fees_def)

lemma liabilities_ge_balance:
  assumes "books_ok b"
  shows "bk_balance b (c, t) \<le> liabilities b t"
  using assms support_total_ge [of "\<lambda>c. bk_balance b (c, t)" c]
  by (auto simp: books_ok_def liabilities_def intro: add_increasing2)

lemma liabilities_ge_fees: "books_ok b \<Longrightarrow> bk_fees b t \<le> liabilities b t"
  using support_total_nonneg [of "\<lambda>c. bk_balance b (c, t)"]
  by (auto simp: books_ok_def liabilities_def)

section \<open>Reading the books from the storage\<close>

definition balance_of :: "'tk jar \<Rightarrow> address \<Rightarrow> address \<Rightarrow> int" where
  "balance_of s c t =
     (case if st_token s = Some t then st_creator_balance s c else None of
        Some v \<Rightarrow> v | None \<Rightarrow> unwrap_or (st_balance s (c, t)) 0)"

definition total_of :: "'tk jar \<Rightarrow> address \<Rightarrow> address \<Rightarrow> int" where
  "total_of s c t =
     (case if st_token s = Some t then st_creator_total s c else None of
        Some v \<Rightarrow> v | None \<Rightarrow> unwrap_or (st_total s (c, t)) 0)"

definition fees_of :: "'tk jar \<Rightarrow> address \<Rightarrow> int" where
  "fees_of s t =
     unwrap_or (st_fee_balance_token s t) 0 +
     (if st_token s = Some t then unwrap_or (st_fee_balance s) 0 else 0)"

definition books_of :: "'tk jar \<Rightarrow> books" where
  "books_of s = \<lparr>bk_balance = (\<lambda>(c, t). balance_of s c t), bk_total = (\<lambda>(c, t). total_of s c t),
                 bk_fees = fees_of s\<rparr>"

lemmas view_defs = balance_of_def total_of_def fees_of_def

lemma books_of_sel [simp]:
  "bk_balance (books_of s) (c, t) = balance_of s c t"
  "bk_total (books_of s) (c, t) = total_of s c t"
  "bk_fees (books_of s) t = fees_of s t"
  by (simp_all add: books_of_def)

lemma books_eqI:
  assumes "\<And>c t. bk_balance b (c, t) = bk_balance b' (c, t)"
    and "\<And>c t. bk_total b (c, t) = bk_total b' (c, t)"
    and "\<And>t. bk_fees b t = bk_fees b' t"
  shows "b = (b' :: books)"
  using assms by (cases b; cases b') (auto simp: fun_eq_iff)

text \<open>The books depend on the accounting entries and the configured legacy token only.\<close>

lemma books_of_cong:
  assumes "st_token s' = st_token s" "st_creator_balance s' = st_creator_balance s"
    "st_creator_total s' = st_creator_total s" "st_balance s' = st_balance s"
    "st_total s' = st_total s" "st_fee_balance s' = st_fee_balance s"
    "st_fee_balance_token s' = st_fee_balance_token s"
  shows "books_of s' = books_of s"
  by (rule books_eqI) (simp_all add: assms view_defs cong: option.case_cong)

text \<open>The migration of a creator's entries is the move of the balance followed by the move of the total.\<close>

definition move_balance :: "env \<Rightarrow> address \<Rightarrow> address \<Rightarrow> 'tk jar \<Rightarrow> 'tk jar" where
  "move_balance e c t s = (case st_creator_balance s c of
                    None \<Rightarrow> s
                  | Some v1_balance \<Rightarrow>
                      remove_ttl (CreatorBalance c)
                        ((extend_ttl e (Balance c t) (set_balance e c t v1_balance s))
                           \<lparr>st_creator_balance := (st_creator_balance s)(c := None)\<rparr>))"

definition move_total :: "env \<Rightarrow> address \<Rightarrow> address \<Rightarrow> 'tk jar \<Rightarrow> 'tk jar" where
  "move_total e c t s1 = (case st_creator_total s1 c of
                    None \<Rightarrow> s1
                  | Some v1_total \<Rightarrow>
                      remove_ttl (CreatorTotal c)
                        ((extend_ttl e (Total c t) (set_total e c t v1_total s1))
                           \<lparr>st_creator_total := (st_creator_total s1)(c := None)\<rparr>))"

lemma move_balance_views:
  "st_token s = Some t0 \<Longrightarrow> balance_of (move_balance e c0 t0 s) c t = balance_of s c t"
  "total_of (move_balance e c0 t0 s) c t = total_of s c t"
  "fees_of (move_balance e c0 t0 s) t = fees_of s t"
  "st_token (move_balance e c0 t0 s) = st_token s"
  by (simp_all add: move_balance_def view_defs storage_defs split: option.split cong: option.case_cong)

lemma move_total_views:
  "balance_of (move_total e c0 t0 s) c t = balance_of s c t"
  "st_token s = Some t0 \<Longrightarrow> total_of (move_total e c0 t0 s) c t = total_of s c t"
  "fees_of (move_total e c0 t0 s) t = fees_of s t"
  by (simp_all add: move_total_def view_defs storage_defs split: option.split cong: option.case_cong)

lemma migration_moves:
  "maybe_migrate_creator_data e c t s = (if st_token s = Some t then move_total e c t (move_balance e c t s) else s)"
  by (simp add: maybe_migrate_creator_data_def move_total_def move_balance_def Let_def split: option.split)

lemma migrate_views [simp]:
  "balance_of (maybe_migrate_creator_data e c0 t0 s) c t = balance_of s c t"
  "total_of (maybe_migrate_creator_data e c0 t0 s) c t = total_of s c t"
  "fees_of (maybe_migrate_creator_data e c0 t0 s) t = fees_of s t"
  by (simp_all add: migration_moves move_total_views move_balance_views)

lemma migrate_books [simp]: "books_of (maybe_migrate_creator_data e c t s) = books_of s"
  by (rule books_eqI) simp_all

lemma migrate_clears:
  assumes "st_token s = Some t"
  shows "st_creator_balance (maybe_migrate_creator_data e c t s) c = None"
    and "st_creator_total (maybe_migrate_creator_data e c t s) c = None"
  using assms by (auto simp: maybe_migrate_creator_data_def Let_def storage_defs split: option.splits)

lemma get_balance_view: "get_balance e c t s = (maybe_migrate_creator_data e c t s, balance_of s c t)"
proof -
  have "unwrap_or (st_balance (maybe_migrate_creator_data e c t s) (c, t)) 0 = balance_of s c t"
    using migrate_views(1) [of e c t s c t] migrate_clears(1) [of s t e c]
    by (auto simp: balance_of_def split: if_splits)
  then show ?thesis by (simp add: get_balance_def)
qed

lemma get_total_tips_view: "get_total_tips e c t s = (maybe_migrate_creator_data e c t s, total_of s c t)"
proof -
  have "unwrap_or (st_total (maybe_migrate_creator_data e c t s) (c, t)) 0 = total_of s c t"
    using migrate_views(2) [of e c t s c t] migrate_clears(2) [of s t e c]
    by (auto simp: total_of_def split: if_splits)
  then show ?thesis by (simp add: get_total_tips_def)
qed

lemma fee_migration_frame:
  assumes "maybe_migrate_fee_balance e t s = Inr s'"
  shows "st_tokens s' = st_tokens s" "st_token s' = st_token s" "st_admin s' = st_admin s"
    "st_fee_bps s' = st_fee_bps s" "st_fee_collector s' = st_fee_collector s"
    "st_pause s' = st_pause s" "st_operator s' = st_operator s"
    "st_allowed_tokens s' = st_allowed_tokens s"
    "st_payout_address s' = st_payout_address s" "st_pending_payout s' = st_pending_payout s"
    "st_pending_admin s' = st_pending_admin s" "st_guardian s' = st_guardian s"
    "st_pending_fee_collector s' = st_pending_fee_collector s"
    "st_pending_upgrade s' = st_pending_upgrade s" "st_upgrade_timelock s' = st_upgrade_timelock s"
    "st_data_version s' = st_data_version s" "st_wasm s' = st_wasm s" "st_events s' = st_events s"
    "st_guardian_pause_duration s' = st_guardian_pause_duration s"
    "st_balance s' = st_balance s" "st_total s' = st_total s"
    "st_creator_balance s' = st_creator_balance s" "st_creator_total s' = st_creator_total s"
  using assms by (simp_all add: result_simps storage_defs split: if_splits)

lemma fee_migration_books:
  assumes "maybe_migrate_fee_balance e t s = Inr s'"
  shows "books_of s' = books_of s"
proof (rule books_eqI)
  show "bk_fees (books_of s') t' = bk_fees (books_of s) t'" for t'
    using assms by (auto simp: result_simps fees_of_def storage_defs split: if_splits option.splits)
qed (simp_all add: view_defs fee_migration_frame [OF assms] cong: option.case_cong)

lemma fee_migration_clears:
  "maybe_migrate_fee_balance e t s = Inr s' \<Longrightarrow> unwrap_or (st_fee_balance_token s' t) 0 = fees_of s' t"
  by (cases "st_fee_balance s") (auto simp: result_simps view_defs storage_defs split: if_splits)


section \<open>The fee of a tip\<close>

definition fee_of :: "int \<Rightarrow> u32 \<Rightarrow> int" where
  "fee_of n bps = n * uint bps div 10000"

lemma fee_of_bounds:
  assumes "0 \<le> n" "bps \<le> MAX_FEE_BPS"
  shows "0 \<le> fee_of n bps" and "fee_of n bps \<le> n" and "10 * fee_of n bps \<le> n"
proof -
  have b: "uint bps \<le> 1000"
    using assms(2) by (simp add: word_le_def MAX_FEE_BPS_def)
  have "n * uint bps \<le> n * 1000" using assms(1) b by (rule mult_left_mono [rotated])
  then show "10 * fee_of n bps \<le> n"
    by (simp add: fee_of_def)
  show nonneg: "0 \<le> fee_of n bps"
    using assms(1) by (simp add: fee_of_def pos_imp_zdiv_nonneg_iff)
  from \<open>10 * fee_of n bps \<le> n\<close> nonneg show "fee_of n bps \<le> n" by linarith
qed

lemma fee_for_Inr_iff:
  assumes "0 \<le> n"
  shows "fee_for n bps = Inr fee \<longleftrightarrow> fee = fee_of n bps \<and> (bps = 0 \<or> in_i128 (n * uint bps))"
proof (cases "bps = 0")
  case False
  have "0 \<le> n * uint bps" using assms by simp
  then show ?thesis
    using False checked_div_i128_nonneg [of "n * uint bps" 10000]
    by (auto simp: fee_for_def result_simps fee_of_def BPS_DENOMINATOR_def)
qed (auto simp: fee_for_def fee_of_def)

lemma net_exact:
  assumes "0 \<le> n" "in_i128 n" "bps \<le> MAX_FEE_BPS"
  shows "sub_i128 n (fee_of n bps) = n - fee_of n bps"
  using assms fee_of_bounds by (intro sub_i128_shrink) auto


section \<open>The operations act on the books\<close>

lemma views_frame [simp]:
  "books_of (extend_ttl e k s) = books_of s"
  "books_of (write_ttl e k s) = books_of s"
  "books_of (remove_ttl k s) = books_of s"
  "books_of (extend_instance_ttl e s) = books_of s"
  "books_of (publish ev s) = books_of s"
  "books_of (s\<lparr>st_tokens := tk\<rparr>) = books_of s"
  "books_of (s\<lparr>st_pause := p\<rparr>) = books_of s"
  "books_of (s\<lparr>st_guardian := g\<rparr>) = books_of s"
  "books_of (s\<lparr>st_guardian_pause_duration := d\<rparr>) = books_of s"
  "books_of (s\<lparr>st_admin := a\<rparr>) = books_of s"
  "books_of (s\<lparr>st_pending_admin := pa\<rparr>) = books_of s"
  "books_of (s\<lparr>st_pending_upgrade := u\<rparr>) = books_of s"
  "books_of (s\<lparr>st_upgrade_timelock := d\<rparr>) = books_of s"
  "books_of (s\<lparr>st_wasm := h\<rparr>) = books_of s"
  "books_of (s\<lparr>st_data_version := v\<rparr>) = books_of s"
  "books_of (s\<lparr>st_fee_bps := v\<rparr>) = books_of s"
  "books_of (s\<lparr>st_fee_collector := a\<rparr>) = books_of s"
  "books_of (s\<lparr>st_pending_fee_collector := pa\<rparr>) = books_of s"
  "books_of (s\<lparr>st_allowed_tokens := ts\<rparr>) = books_of s"
  "books_of (set_payout e c x s) = books_of s"
  "books_of (set_pending_payout e c y s) = books_of s"
  "books_of (remove_pending_payout c s) = books_of s"
  "books_of (set_operator e c x z s) = books_of s"
  "books_of (remove_operator c x s) = books_of s"
  "books_of (apply_matured_payout e c s) = books_of s"
  by (rule books_of_cong; simp add: storage_defs)+

text \<open>Writing an account whose legacy entry is gone changes that account only.\<close>

lemma books_set_balance:
  assumes "st_token s = Some t \<Longrightarrow> st_creator_balance s c = None"
  shows "books_of (set_balance e c t v s) = (books_of s)\<lparr>bk_balance := (bk_balance (books_of s))((c, t) := v)\<rparr>"
proof (rule books_eqI)
  show "bk_balance (books_of (set_balance e c t v s)) (c', t') =
        bk_balance ((books_of s)\<lparr>bk_balance := (bk_balance (books_of s))((c, t) := v)\<rparr>) (c', t')" for c' t'
    using assms by (auto simp: balance_of_def storage_defs split: option.split)
qed (simp_all add: view_defs storage_defs cong: option.case_cong)

lemma books_set_total:
  assumes "st_token s = Some t \<Longrightarrow> st_creator_total s c = None"
  shows "books_of (set_total e c t v s) = (books_of s)\<lparr>bk_total := (bk_total (books_of s))((c, t) := v)\<rparr>"
proof (rule books_eqI)
  show "bk_total (books_of (set_total e c t v s)) (c', t') =
        bk_total ((books_of s)\<lparr>bk_total := (bk_total (books_of s))((c, t) := v)\<rparr>) (c', t')" for c' t'
    using assms by (auto simp: total_of_def storage_defs split: option.split)
qed (simp_all add: view_defs storage_defs cong: option.case_cong)

lemma books_set_fees:
  assumes "st_token s = Some t \<Longrightarrow> st_fee_balance s = None"
  shows "books_of (set_fee_balance_token e t v s) = (books_of s)\<lparr>bk_fees := (bk_fees (books_of s))(t := v)\<rparr>"
proof (rule books_eqI)
  show "bk_fees (books_of (set_fee_balance_token e t v s)) t' =
        bk_fees ((books_of s)\<lparr>bk_fees := (bk_fees (books_of s))(t := v)\<rparr>) t'" for t'
    using assms by (auto simp: fees_of_def storage_defs)
qed (simp_all add: view_defs storage_defs cong: option.case_cong)

lemma fee_migration_none:
  "maybe_migrate_fee_balance e t s = Inr s' \<Longrightarrow> st_token s' = Some t \<Longrightarrow> st_fee_balance s' = None"
  by (auto simp: result_simps storage_defs split: if_splits)

lemma accrue_fee_books:
  assumes "accrue_fee e c t n fee net s = Inr s'"
  shows "books_of s' = (books_of s)\<lparr>bk_fees := (bk_fees (books_of s))(t := fees_of s t + fee)\<rparr>"
proof -
  obtain s1 where m: "maybe_migrate_fee_balance e t s = Inr s1"
    and s': "s' = publish (FeeCharged c n fee net) (extend_ttl e (FeeBalanceToken t)
               (set_fee_balance_token e t (fees_of s1 t + fee) s1))"
    using assms fee_migration_clears unfolding accrue_fee_Inr_iff by metis
  have "fees_of s1 t = fees_of s t"
    using fee_migration_books [OF m] books_of_sel(3) by metis
  then show ?thesis
    using fee_migration_none [OF m] by (simp add: s' books_set_fees fee_migration_books [OF m])
qed

lemma tip_books:
  assumes "tip transfer e sender c t n s = Inr s'" "books_ok (books_of s)"
    and "unwrap_or (st_fee_bps s) 0 \<le> MAX_FEE_BPS"
  shows "books_of s' = book_tip c t n (fee_of n (unwrap_or (st_fee_bps s) 0)) (books_of s)"
proof -
  let ?bps = "unwrap_or (st_fee_bps s) 0"
  let ?fee = "fee_of n ?bps"
  obtain fee tk s4 where n: "0 < n" and f: "fee_for n ?bps = Inr fee" and tot: "in_i128 (total_of s c t + n)"
    and acc: "let s3 = extend_ttl e (Total c t) (extend_ttl e (Balance c t)
               (set_total e c t (total_of s c t + n)
                 (set_balance e c t (balance_of s c t + sub_i128 n fee)
                   ((maybe_migrate_creator_data e c t s)\<lparr>st_tokens := tk\<rparr>)))) in
        if ?bps > 0 then accrue_fee e c t n fee (sub_i128 n fee) s3 = Inr s4 else s3 = s4"
    and s': "s' = publish (Tip c t sender n) (extend_instance_ttl e s4)"
    using assms(1) by (auto simp: tip_Inr_iff get_balance_view get_total_tips_view)
  have fee: "fee = ?fee" using f n by (simp add: fee_for_Inr_iff)
  have "0 \<le> total_of s c t" using books_okD(5) [OF assms(2), of c t] by simp
  then have "in_i128 n" using tot n by (auto intro: in_i128_between [of 0 "total_of s c t + n"])
  then have net: "sub_i128 n fee = n - ?fee" using n assms(3) by (simp add: fee net_exact)
  define s3 where "s3 = extend_ttl e (Total c t) (extend_ttl e (Balance c t)
               (set_total e c t (total_of s c t + n)
                 (set_balance e c t (balance_of s c t + (n - ?fee))
                   ((maybe_migrate_creator_data e c t s)\<lparr>st_tokens := tk\<rparr>))))"
  have s3: "books_of s3 = (books_of s)\<lparr>bk_balance := (bk_balance (books_of s))((c, t) := balance_of s c t + (n - ?fee)),
      bk_total := (bk_total (books_of s))((c, t) := total_of s c t + n)\<rparr>"
  proof -
    let ?s2 = "(maybe_migrate_creator_data e c t s)\<lparr>st_tokens := tk\<rparr>"
    let ?sb = "set_balance e c t (balance_of s c t + (n - ?fee)) ?s2"
    have "books_of ?sb = (books_of ?s2)\<lparr>bk_balance := (bk_balance (books_of ?s2))((c, t) := balance_of s c t + (n - ?fee))\<rparr>"
      by (rule books_set_balance) (simp add: migrate_clears)
    moreover have "books_of (set_total e c t (total_of s c t + n) ?sb) =
        (books_of ?sb)\<lparr>bk_total := (bk_total (books_of ?sb))((c, t) := total_of s c t + n)\<rparr>"
      by (rule books_set_total) (simp add: storage_defs migrate_clears)
    ultimately show ?thesis by (simp add: s3_def)
  qed
  have fs3: "fees_of s3 t = fees_of s t"
    using arg_cong [OF s3, of "\<lambda>b. bk_fees b t"] by simp
  show ?thesis
  proof (cases "?bps > 0")
    case True
    then have "accrue_fee e c t n fee (n - ?fee) s3 = Inr s4"
      using acc by (simp add: net s3_def)
    then show ?thesis
      using accrue_fee_books [of e c t n fee "n - ?fee" s3 s4] by (simp add: s' fee fs3 s3 book_tip_def)
  next
    case False
    then have "?bps = 0" and "s4 = s3" using acc by (simp_all add: net s3_def word_gt_0)
    then have "?fee = 0" by (simp add: fee_of_def)
    note \<open>s4 = s3\<close> \<open>?fee = 0\<close>
    then show ?thesis
      by (simp add: s' s3 book_tip_def fun_upd_idem)
  qed
qed


lemma charge_operator_books:
  "charge_operator e caller c n s = Inr s' \<Longrightarrow> books_of s' = books_of s"
  by (auto simp: charge_operator_Inr_iff split: if_splits)

lemma charge_operator_shape:
  assumes "charge_operator e caller c n s = Inr s'"
  obtains f g where "s' = s\<lparr>st_operator := f, st_ttl := g\<rparr>"
proof -
  consider "s' = s" | "s' = remove_operator c caller s"
    | v where "s' = extend_ttl e (Operator c caller) (set_operator e c caller v s)"
    using assms by (auto simp: charge_operator_Inr_iff split: if_splits)
  then have "\<exists>f g. s' = s\<lparr>st_operator := f, st_ttl := g\<rparr>"
  proof cases
    case 1
    then have "s' = s\<lparr>st_operator := st_operator s, st_ttl := st_ttl s\<rparr>" by simp
    then show ?thesis by blast
  next
    case 2
    then show ?thesis unfolding storage_defs by simp blast
  next
    case 3
    then show ?thesis unfolding storage_defs by simp blast
  qed
  then show ?thesis using that by blast
qed

lemma charge_operator_frame:
  assumes "charge_operator e caller c n s = Inr s'"
  shows "st_token s' = st_token s" "st_tokens s' = st_tokens s" "st_creator_balance s' = st_creator_balance s"
    "st_payout_address s' = st_payout_address s" "st_pending_payout s' = st_pending_payout s"
    "st_admin s' = st_admin s" "st_pause s' = st_pause s" "st_allowed_tokens s' = st_allowed_tokens s"
  using assms by (auto elim!: charge_operator_shape)

text \<open>What a withdrawal that returns has checked, paid and recorded.\<close>

lemma withdraw_effect:
  assumes "withdraw transfer e caller c t dst amount s = Inr s'" "books_ok (books_of s)"
  defines "n \<equiv> unwrap_or amount (balance_of s c t)"
  shows "authorized e caller" "pause_flags e s AND PAUSE_FLAG_WITHDRAWALS = 0"
    "0 < n" "n \<le> balance_of s c t" "dst = effective_payout e c s"
    "transfer (st_tokens s) t (contract_address e) (effective_payout e c s) n = Some (st_tokens s')"
    "books_of s' = book_withdraw c t n (books_of s)"
proof -
  let ?b = "balance_of s c t"
  let ?s3 = "\<lambda>s2. apply_matured_payout e c s2"
  let ?s4 = "\<lambda>s2. if st_payout_address (?s3 s2) c \<noteq> None then extend_ttl e (PayoutAddress c) (?s3 s2) else ?s3 s2"
  obtain s2 tk where ok: "authorized e caller" "pause_flags e s AND PAUSE_FLAG_WITHDRAWALS = 0"
    and range: "\<not> (n \<le> 0 \<or> ?b < n)"
    and ch: "charge_operator e caller c n (maybe_migrate_creator_data e c t s) = Inr s2"
    and dst: "\<not> dst \<noteq> unwrap_or (st_payout_address (?s3 s2) c) c"
    and tr: "transfer (st_tokens (?s4 s2)) t (contract_address e) (unwrap_or (st_payout_address (?s3 s2) c) c) n = Some tk"
    and s': "publish (Withdraw c t n (unwrap_or (st_payout_address (?s3 s2) c) c)) (extend_instance_ttl e
               (extend_ttl e (Balance c t) (set_balance e c t (sub_i128 ?b n) ((?s4 s2)\<lparr>st_tokens := tk\<rparr>)))) = s'"
    using assms(1) unfolding withdraw_Inr_iff get_balance_view snd_conv Let_def n_def by blast
  define s4 where "s4 = ?s4 s2"
  have s4: "st_tokens s4 = st_tokens s2" "st_token s4 = st_token s2"
      "st_creator_balance s4 = st_creator_balance s2" "books_of s4 = books_of s2"
    by (simp_all add: s4_def) (simp_all add: storage_defs)
  have nb: "0 < n" "n \<le> ?b" using range by auto
  note f = charge_operator_frame [OF ch]
  have pay: "effective_payout e c s2 = effective_payout e c s"
    by (simp add: effective_payout_def f cong: option.case_cong if_cong)
  have b: "books_of (s4\<lparr>st_tokens := tk\<rparr>) = books_of s"
    using charge_operator_books [OF ch] s4 by simp
  have "in_i128 (balance_of s c t)"
    using books_okD(1,2,3) [OF assms(2), of c t] by (simp add: in_i128_nonneg)
  then have sub: "sub_i128 (balance_of s c t) n = balance_of s c t - n"
    using nb by (intro sub_i128_shrink) auto
  show dst_eff: "dst = effective_payout e c s"
    using dst by (simp add: apply_matured_payout_address pay)
  show "authorized e caller" "pause_flags e s AND PAUSE_FLAG_WITHDRAWALS = 0"
    "0 < n" "n \<le> balance_of s c t" by (fact ok nb)+
  show "transfer (st_tokens s) t (contract_address e) (effective_payout e c s) n = Some (st_tokens s')"
    using tr unfolding s4_def [symmetric] apply_matured_payout_address pay s' [symmetric]
    by (simp add: s4 f storage_defs)
  have "books_of (set_balance e c t (balance_of s c t - n) (s4\<lparr>st_tokens := tk\<rparr>)) =
      (books_of s)\<lparr>bk_balance := (bk_balance (books_of s))((c, t) := balance_of s c t - n)\<rparr>"
    using books_set_balance [of "s4\<lparr>st_tokens := tk\<rparr>" t c e "balance_of s c t - n"] migrate_clears(1) [of s t e c]
    unfolding b by (simp add: s4 f)
  then show "books_of s' = book_withdraw c t n (books_of s)"
    unfolding s' [symmetric] s4_def [symmetric] by (simp add: sub book_withdraw_def)
qed

lemma withdraw_fees_effect:
  assumes "withdraw_fees transfer e caller t amount s = Inr s'" "books_ok (books_of s)"
    and "\<And>v. st_fee_balance_token s t = Some v \<Longrightarrow> in_i128 v"
  defines "n \<equiv> unwrap_or amount (fees_of s t)"
  shows "authorized e caller" "st_fee_collector s = Some caller" "0 < n" "n \<le> fees_of s t"
    "transfer (st_tokens s) t (contract_address e) caller n = Some (st_tokens s')"
    "books_of s' = book_withdraw_fees t n (books_of s)"
proof -
  obtain s1 where m: "maybe_migrate_fee_balance e t s = Inr s1"
    using assms(1) by (auto simp: withdraw_fees_Inr_iff)
  have bk: "books_of s1 = books_of s" by (rule fee_migration_books [OF m])
  have fees: "unwrap_or (st_fee_balance_token s1 t) 0 = fees_of s t"
    using fee_migration_clears [OF m] bk books_of_sel(3) by metis
  obtain tk where ok: "authorized e caller" "st_fee_collector s = Some caller" "0 < n" "n \<le> fees_of s t"
    and tr: "transfer (st_tokens s1) t (contract_address e) caller n = Some tk"
    and s': "s' = publish (FeeWithdraw caller n) (extend_instance_ttl e
            (extend_ttl e (FeeBalanceToken t) (set_fee_balance_token e t (sub_i128 (fees_of s t) n)
              (s1\<lparr>st_tokens := tk\<rparr>))))"
    using assms(1) m unfolding withdraw_fees_Inr_iff Let_def n_def
    by (auto simp: fees)
  have "in_i128 (unwrap_or (st_fee_balance_token s1 t) 0)"
    using m assms(3) by (cases "st_fee_balance_token s t") (auto simp: result_simps storage_defs split: if_splits)
  then have sub: "sub_i128 (fees_of s t) n = fees_of s t - n"
    using ok by (intro sub_i128_shrink) (auto simp: fees)
  show "authorized e caller" "st_fee_collector s = Some caller" "0 < n" "n \<le> fees_of s t" by (fact ok)+
  show "transfer (st_tokens s) t (contract_address e) caller n = Some (st_tokens s')"
    using tr by (simp add: s' storage_defs fee_migration_frame [OF m])
  show "books_of s' = book_withdraw_fees t n (books_of s)"
    using books_set_fees [of "s1\<lparr>st_tokens := tk\<rparr>" t e "fees_of s t - n"] fee_migration_none [OF m]
    by (simp add: s' sub bk book_withdraw_fees_def)
qed

end
