(* ===== verification/Tipjar_Steps.thy ===== *)
theory Tipjar_Steps
  imports Tipjar_Books
begin

unbundle bit_operations_syntax

text \<open>
  The tip jar as a transition system: every entrypoint of
  \<^verbatim>\<open>src/contracts/tipjar/src/lib.rs\<close> that can change storage as one constructor of \<open>call\<close>,
  its dispatch \<open>exec\<close>, and the states that sequences of calls reach while other parties move
  tokens in between. The refinement lemma says which movement of money each call is; the
  invariant and the solvency of the contract follow from it.
\<close>

section \<open>Calls\<close>

datatype call =
    CInit address address u32
  | CTip address address address int
  | CGetTotalTips address address
  | CGetBalance address address
  | CWithdraw address address address address "int option"
  | CAddToken address address
  | CRemoveToken address address
  | CSetPayoutAddress address address
  | CCancelPayoutAddress address
  | CAuthorizeOperator address address int u32
  | CRevokeOperator address address
  | CProposeAdmin address address
  | CAcceptAdmin address
  | CCancelAdminTransfer address
  | CProposeUpgrade address bytes32
  | CCancelUpgrade address
  | CExecuteUpgrade
  | CMigrate address
  | CSetGuardian address address
  | CSetGuardianPauseDuration address u32
  | CPauseTips address
  | CPauseWithdrawals address
  | CPauseAll address
  | CUnpauseTips address
  | CUnpauseWithdrawals address
  | CUnpauseAll address
  | CSetFee address u32
  | CProposeFeeCollector address address
  | CAcceptFeeCollector address
  | CCancelFeeCollectorTransfer address
  | CWithdrawFees address address "int option"
  | CGetFeeBalance address
  | CTipLegacy address address int
  | CGetTotalTipsLegacy address
  | CWithdrawLegacy address address address "int option"

fun exec :: "'tk transfer_fn \<Rightarrow> env \<Rightarrow> call \<Rightarrow> 'tk jar \<Rightarrow> 'tk jar_result" where
  "exec tr e (CInit t a d) s = init e t a d s"
| "exec tr e (CTip f c t n) s = tip tr e f c t n s"
| "exec tr e (CGetTotalTips c t) s = Inr (fst (get_total_tips e c t s))"
| "exec tr e (CGetBalance c t) s = Inr (fst (get_balance e c t s))"
| "exec tr e (CWithdraw a c t d n) s = withdraw tr e a c t d n s"
| "exec tr e (CAddToken a t) s = add_token e a t s"
| "exec tr e (CRemoveToken a t) s = remove_token e a t s"
| "exec tr e (CSetPayoutAddress c p) s = set_payout_address e c p s"
| "exec tr e (CCancelPayoutAddress c) s = cancel_payout_address e c s"
| "exec tr e (CAuthorizeOperator c a v x) s = authorize_operator e c a v x s"
| "exec tr e (CRevokeOperator c a) s = revoke_operator e c a s"
| "exec tr e (CProposeAdmin a n) s = propose_admin e a n s"
| "exec tr e (CAcceptAdmin n) s = accept_admin e n s"
| "exec tr e (CCancelAdminTransfer a) s = cancel_admin_transfer e a s"
| "exec tr e (CProposeUpgrade a h) s = propose_upgrade e a h s"
| "exec tr e (CCancelUpgrade a) s = cancel_upgrade e a s"
| "exec tr e CExecuteUpgrade s = execute_upgrade e s"
| "exec tr e (CMigrate a) s = migrate e a s"
| "exec tr e (CSetGuardian a g) s = set_guardian e a g s"
| "exec tr e (CSetGuardianPauseDuration a d) s = set_guardian_pause_duration e a d s"
| "exec tr e (CPauseTips a) s = pause_tips e a s"
| "exec tr e (CPauseWithdrawals a) s = pause_withdrawals e a s"
| "exec tr e (CPauseAll a) s = pause_all e a s"
| "exec tr e (CUnpauseTips a) s = unpause_tips e a s"
| "exec tr e (CUnpauseWithdrawals a) s = unpause_withdrawals e a s"
| "exec tr e (CUnpauseAll a) s = unpause_all e a s"
| "exec tr e (CSetFee a b) s = set_fee e a b s"
| "exec tr e (CProposeFeeCollector a n) s = propose_fee_collector e a n s"
| "exec tr e (CAcceptFeeCollector n) s = accept_fee_collector e n s"
| "exec tr e (CCancelFeeCollectorTransfer a) s = cancel_fee_collector_transfer e a s"
| "exec tr e (CWithdrawFees a t n) s = withdraw_fees tr e a t n s"
| "exec tr e (CGetFeeBalance t) s = and_then (get_fee_balance e t s) (\<lambda>p. Inr (fst p))"
| "exec tr e (CTipLegacy f c n) s = tip_legacy tr e f c n s"
| "exec tr e (CGetTotalTipsLegacy c) s = and_then (get_total_tips_legacy e c s) (\<lambda>p. Inr (fst p))"
| "exec tr e (CWithdrawLegacy a c d n) s = withdraw_legacy tr e a c d n s"

section \<open>Movements of money\<close>

text \<open>
  What a call does to the books and to the token ledger: a tip is a deposit of the gross amount,
  of which the fee goes to the protocol; withdrawals pay out; every other call moves nothing.
\<close>

datatype movement =
    Deposit address address address int int
  | Payout address address address int
  | FeePayout address address int
  | Idle

definition deposit_of :: "'tk jar \<Rightarrow> address \<Rightarrow> address \<Rightarrow> address \<Rightarrow> int \<Rightarrow> movement" where
  "deposit_of s f c t n = Deposit f c t n (fee_of n (unwrap_or (st_fee_bps s) 0))"

definition default_token :: "'tk jar \<Rightarrow> address" where
  "default_token s = hd (unwrap_or (st_allowed_tokens s) [])"

fun movement_of :: "call \<Rightarrow> 'tk jar \<Rightarrow> movement" where
  "movement_of (CTip f c t n) s = deposit_of s f c t n"
| "movement_of (CTipLegacy f c n) s = deposit_of s f c (default_token s) n"
| "movement_of (CWithdraw a c t d n) s = Payout c t d (unwrap_or n (balance_of s c t))"
| "movement_of (CWithdrawLegacy a c d n) s =
     Payout c (default_token s) d (unwrap_or n (balance_of s c (default_token s)))"
| "movement_of (CWithdrawFees a t n) s = FeePayout a t (unwrap_or n (fees_of s t))"
| "movement_of _ s = Idle"

fun book_move :: "movement \<Rightarrow> books \<Rightarrow> books" where
  "book_move (Deposit f c t n fee) b = book_tip c t n fee b"
| "book_move (Payout c t d n) b = book_withdraw c t n b"
| "book_move (FeePayout a t n) b = book_withdraw_fees t n b"
| "book_move Idle b = b"

fun token_move :: "'tk transfer_fn \<Rightarrow> address \<Rightarrow> movement \<Rightarrow> 'tk \<Rightarrow> 'tk option" where
  "token_move tr me (Deposit f c t n fee) tk = tr tk t f me n"
| "token_move tr me (Payout c t d n) tk = tr tk t me d n"
| "token_move tr me (FeePayout a t n) tk = tr tk t me a n"
| "token_move tr me Idle tk = Some tk"

fun move_ok :: "movement \<Rightarrow> books \<Rightarrow> bool" where
  "move_ok (Deposit f c t n fee) b \<longleftrightarrow>
     0 < n \<and> 0 \<le> fee \<and> fee \<le> n \<and> bk_total b (c, t) + n \<le> I128_MAX"
| "move_ok (Payout c t d n) b \<longleftrightarrow> 0 < n \<and> n \<le> bk_balance b (c, t)"
| "move_ok (FeePayout a t n) b \<longleftrightarrow> 0 < n \<and> n \<le> bk_fees b t"
| "move_ok Idle b \<longleftrightarrow> True"

fun move_delta :: "movement \<Rightarrow> address \<Rightarrow> int" where
  "move_delta (Deposit f c t n fee) t' = (if t' = t then n else 0)"
| "move_delta (Payout c t d n) t' = (if t' = t then - n else 0)"
| "move_delta (FeePayout a t n) t' = (if t' = t then - n else 0)"
| "move_delta Idle t' = 0"

lemma books_ok_move: "books_ok b \<Longrightarrow> move_ok m b \<Longrightarrow> books_ok (book_move m b)"
  by (cases m) (simp_all add: books_ok_tip books_ok_withdraw books_ok_withdraw_fees)

lemma liabilities_move:
  "books_ok b \<Longrightarrow> liabilities (book_move m b) t = liabilities b t + move_delta m t"
  by (cases m) (simp_all add: liabilities_tip liabilities_withdraw liabilities_withdraw_fees)

section \<open>The invariant of the storage\<close>

definition allowlist :: "'tk jar \<Rightarrow> address list" where
  "allowlist s = unwrap_or (st_allowed_tokens s) []"

definition config_ok :: "'tk jar \<Rightarrow> bool" where
  "config_ok s \<longleftrightarrow>
     unwrap_or (st_fee_bps s) 0 \<le> MAX_FEE_BPS \<and>
     distinct (allowlist s) \<and> length (allowlist s) \<le> MAX_ALLOWED_TOKENS"

definition fees_typed :: "'tk jar \<Rightarrow> bool" where
  "fees_typed s \<longleftrightarrow> (\<forall>t v. st_fee_balance_token s t = Some v \<longrightarrow> in_i128 v)"

definition legacy_initialized :: "'tk jar \<Rightarrow> bool" where
  "legacy_initialized s \<longleftrightarrow>
     (st_admin s = None \<longrightarrow>
        st_creator_balance s = Map.empty \<and> st_creator_total s = Map.empty \<and> st_fee_balance s = None)"

definition jar_inv :: "'tk jar \<Rightarrow> bool" where
  "jar_inv s \<longleftrightarrow> books_ok (books_of s) \<and> config_ok s \<and> fees_typed s \<and> legacy_initialized s"

lemma jar_invD:
  assumes "jar_inv s"
  shows "books_ok (books_of s)" "config_ok s" "fees_typed s" "legacy_initialized s"
    "unwrap_or (st_fee_bps s) 0 \<le> MAX_FEE_BPS"
    "st_fee_balance_token s t = Some v \<Longrightarrow> in_i128 v"
  using assms by (auto simp: jar_inv_def config_ok_def fees_typed_def)

lemma migrate_Inr_iff [result_simps]:
  "migrate e adm s = Inr s' \<longleftrightarrow>
     authorized e adm \<and> st_admin s = Some adm \<and>
     s' = (if unwrap_or (st_data_version s) 1 \<ge> DATA_VERSION then s
           else publish (Migrated (unwrap_or (st_data_version s) 1) DATA_VERSION)
             ((if unwrap_or (st_data_version s) 1 = 1
               then s\<lparr>st_pause := map_option (\<lambda>p. p\<lparr>pause_notes := None\<rparr>) (st_pause s)\<rparr> else s)
              \<lparr>st_data_version := Some DATA_VERSION\<rparr>))"
  by (auto simp: migrate_def Let_def result_simps)

lemma legacy_wrapper_Inr_iff [result_simps]:
  "tip_legacy tr e f c n s = Inr s' \<longleftrightarrow>
     allowlist s \<noteq> [] \<and> tip tr e f c (default_token s) n s = Inr s'"
  "withdraw_legacy tr e a c d v s = Inr s' \<longleftrightarrow>
     allowlist s \<noteq> [] \<and> withdraw tr e a c (default_token s) d v s = Inr s'"
proof -
  show "tip_legacy tr e f c n s = Inr s' \<longleftrightarrow>
     allowlist s \<noteq> [] \<and> tip tr e f c (default_token s) n s = Inr s'"
    by (cases "allowlist s")
      (auto simp: tip_legacy_def and_then_Inr_iff get_tokens_Inr_iff allowlist_def default_token_def tip_Inr_iff)
  show "withdraw_legacy tr e a c d v s = Inr s' \<longleftrightarrow>
     allowlist s \<noteq> [] \<and> withdraw tr e a c (default_token s) d v s = Inr s'"
    by (cases "allowlist s")
      (auto simp: withdraw_legacy_def and_then_Inr_iff get_tokens_Inr_iff allowlist_def default_token_def withdraw_Inr_iff)
qed


section \<open>Frames of the calls that move money\<close>

lemma accrue_fee_frame:
  assumes "accrue_fee e c t n fee net s = Inr s'"
  shows "st_fee_bps s' = st_fee_bps s" "st_allowed_tokens s' = st_allowed_tokens s"
    "st_admin s' = st_admin s" "st_tokens s' = st_tokens s" "st_pause s' = st_pause s"
    "st_ttl s' k = (if k = FeeBalance \<or> k = FeeBalanceToken t then st_ttl s' k else st_ttl s k)"
    "fees_typed s \<Longrightarrow> fees_typed s'"
proof -
  obtain s1 where m: "maybe_migrate_fee_balance e t s = Inr s1"
    and r: "in_i128 (unwrap_or (st_fee_balance_token s1 t) 0 + fee)"
    and s': "s' = publish (FeeCharged c n fee net) (extend_ttl e (FeeBalanceToken t)
         (set_fee_balance_token e t (unwrap_or (st_fee_balance_token s1 t) 0 + fee) s1))"
    using assms unfolding accrue_fee_Inr_iff by blast
  show "st_fee_bps s' = st_fee_bps s" "st_allowed_tokens s' = st_allowed_tokens s"
    "st_admin s' = st_admin s" "st_tokens s' = st_tokens s" "st_pause s' = st_pause s"
    by (simp_all add: s' storage_defs fee_migration_frame [OF m])
  have "k \<noteq> FeeBalance \<Longrightarrow> k \<noteq> FeeBalanceToken t \<Longrightarrow> st_ttl s1 k = st_ttl s k"
    using m by (auto simp: result_simps storage_defs split: if_splits)
  then show "st_ttl s' k = (if k = FeeBalance \<or> k = FeeBalanceToken t then st_ttl s' k else st_ttl s k)"
    by (simp add: s' storage_defs)
  assume ty: "fees_typed s"
  have "fees_typed s1"
    using m ty by (auto simp: fees_typed_def result_simps storage_defs split: if_splits)
  then show "fees_typed s'"
    using r by (simp add: s' fees_typed_def storage_defs)
qed

lemma tip_frame:
  assumes "tip tr e f c t n s = Inr s'"
  shows "st_fee_bps s' = st_fee_bps s" "st_allowed_tokens s' = st_allowed_tokens s"
    "st_admin s' = st_admin s" "st_admin s \<noteq> None" "st_pause s' = st_pause s"
    "tr (st_tokens s) t f (contract_address e) n = Some (st_tokens s')"
    "fees_typed s \<Longrightarrow> fees_typed s'"
proof -
  let ?s3 = "\<lambda>fee tk. extend_ttl e (Total c t) (extend_ttl e (Balance c t)
               (set_total e c t (total_of s c t + n)
                 (set_balance e c t (balance_of s c t + sub_i128 n fee)
                   ((maybe_migrate_creator_data e c t s)\<lparr>st_tokens := tk\<rparr>))))"
  obtain fee tk s4 where adm: "\<exists>a. st_admin s = Some a"
    and tr: "tr (st_tokens s) t f (contract_address e) n = Some tk"
    and acc: "if unwrap_or (st_fee_bps s) 0 > 0 then accrue_fee e c t n fee (sub_i128 n fee) (?s3 fee tk) = Inr s4
              else ?s3 fee tk = s4"
    and s': "publish (Tip c t f n) (extend_instance_ttl e s4) = s'"
    using assms unfolding tip_Inr_iff get_balance_view get_total_tips_view Let_def snd_conv by blast
  have "st_fee_bps s4 = st_fee_bps s \<and> st_allowed_tokens s4 = st_allowed_tokens s \<and>
        st_admin s4 = st_admin s \<and> st_pause s4 = st_pause s \<and> st_tokens s4 = tk \<and>
        (fees_typed s \<longrightarrow> fees_typed s4)"
  proof (cases "unwrap_or (st_fee_bps s) 0 > 0")
    case True
    then have "accrue_fee e c t n fee (sub_i128 n fee) (?s3 fee tk) = Inr s4" using acc by simp
    from accrue_fee_frame(1-5,7) [OF this] show ?thesis
      by (simp add: storage_defs fees_typed_def)
  next
    case False
    then have "s4 = ?s3 fee tk" using acc by simp
    then show ?thesis by (simp add: storage_defs fees_typed_def)
  qed
  then show "st_fee_bps s' = st_fee_bps s" "st_allowed_tokens s' = st_allowed_tokens s"
    "st_admin s' = st_admin s" "st_admin s \<noteq> None" "st_pause s' = st_pause s"
    "tr (st_tokens s) t f (contract_address e) n = Some (st_tokens s')"
    "fees_typed s \<Longrightarrow> fees_typed s'"
    using adm tr s' [symmetric] by (auto simp: storage_defs fees_typed_def)
qed

lemma withdraw_frame:
  assumes "withdraw tr e a c t d v s = Inr s'"
  shows "st_fee_bps s' = st_fee_bps s" "st_allowed_tokens s' = st_allowed_tokens s"
    "st_admin s' = st_admin s" "st_admin s \<noteq> None" "st_fee_balance_token s' = st_fee_balance_token s"
proof -
  obtain s2 n b tk where adm: "\<exists>a. st_admin s = Some a"
    and ch: "charge_operator e a c n (maybe_migrate_creator_data e c t s) = Inr s2"
    and s': "publish (Withdraw c t n (unwrap_or (st_payout_address (apply_matured_payout e c s2) c) c))
               (extend_instance_ttl e (extend_ttl e (Balance c t) (set_balance e c t (sub_i128 b n)
                 ((if st_payout_address (apply_matured_payout e c s2) c \<noteq> None
                   then extend_ttl e (PayoutAddress c) (apply_matured_payout e c s2)
                   else apply_matured_payout e c s2)\<lparr>st_tokens := tk\<rparr>)))) = s'"
    using assms unfolding withdraw_Inr_iff Let_def by blast
  obtain f g where s2: "s2 = (maybe_migrate_creator_data e c t s)\<lparr>st_operator := f, st_ttl := g\<rparr>"
    by (rule charge_operator_shape [OF ch])
  show "st_fee_bps s' = st_fee_bps s" "st_allowed_tokens s' = st_allowed_tokens s"
    "st_admin s' = st_admin s" "st_fee_balance_token s' = st_fee_balance_token s"
    by (simp_all add: s' [symmetric] storage_defs) (simp_all add: s2)
  show "st_admin s \<noteq> None" using adm by simp
qed

lemma withdraw_fees_frame:
  assumes "withdraw_fees tr e a t v s = Inr s'"
  shows "st_fee_bps s' = st_fee_bps s" "st_allowed_tokens s' = st_allowed_tokens s"
    "st_admin s' = st_admin s" "fees_typed s \<Longrightarrow> fees_typed s'"
    "st_creator_balance s' = st_creator_balance s" "st_creator_total s' = st_creator_total s"
    "st_fee_balance s = None \<Longrightarrow> st_fee_balance s' = None"
proof -
  obtain s1 b n tk where m: "maybe_migrate_fee_balance e t s = Inr s1"
    and s': "publish (FeeWithdraw a n) (extend_instance_ttl e
            (extend_ttl e (FeeBalanceToken t) (set_fee_balance_token e t (sub_i128 b n)
              (s1\<lparr>st_tokens := tk\<rparr>)))) = s'"
    using assms unfolding withdraw_fees_Inr_iff Let_def by blast
  show "st_fee_bps s' = st_fee_bps s" "st_allowed_tokens s' = st_allowed_tokens s"
    "st_admin s' = st_admin s" "st_creator_balance s' = st_creator_balance s"
    "st_creator_total s' = st_creator_total s"
    by (simp_all add: s' [symmetric] storage_defs fee_migration_frame [OF m])
  show "st_fee_balance s = None \<Longrightarrow> st_fee_balance s' = None"
    using m by (simp add: s' [symmetric] storage_defs result_simps split: if_splits)
  assume "fees_typed s"
  then have "fees_typed s1"
    using m by (auto simp: fees_typed_def result_simps storage_defs split: if_splits)
  then show "fees_typed s'"
    by (simp add: s' [symmetric] fees_typed_def storage_defs)
qed

section \<open>Every call refines a movement of the books\<close>

lemma legacy_token_books:
  assumes "st_admin s = None" "legacy_initialized s"
  shows "books_of (s\<lparr>st_token := v\<rparr>) = books_of s"
  using assms by (intro books_eqI) (simp_all add: legacy_initialized_def view_defs)

lemma get_total_tips_legacy_Inr_iff [result_simps]:
  "get_total_tips_legacy e c s = Inr p \<longleftrightarrow>
     (\<exists>a. st_admin s = Some a) \<and>
     p = (if allowlist s = [] then (s, 0) else get_total_tips e c (default_token s) s)"
  by (cases "allowlist s")
    (auto simp: get_total_tips_legacy_def result_simps allowlist_def default_token_def)

lemma get_fee_balance_Inr_iff [result_simps]:
  "get_fee_balance e t s = Inr p \<longleftrightarrow>
     (\<exists>s1. maybe_migrate_fee_balance e t s = Inr s1 \<and> p = (s1, fees_of s1 t))"
  using fee_migration_clears by (auto simp: get_fee_balance_def and_then_Inr_iff)

lemma idle_books:
  assumes "exec tr e k s = Inr s'" "movement_of k s = Idle" "legacy_initialized s"
  shows "books_of s' = books_of s"
  using assms
  by (cases k)
    (auto simp: legacy_token_books fee_migration_books result_simps pause_entrypoint_defs deposit_of_def
       get_balance_view get_total_tips_view simp del: maybe_migrate_fee_balance_Inr_iff)

lemma exec_refines:
  assumes "exec tr e k s = Inr s'" "jar_inv s"
  shows "move_ok (movement_of k s) (books_of s)"
    and "books_of s' = book_move (movement_of k s) (books_of s)"
proof -
  note inv = jar_invD [OF assms(2)]
  have dep: "move_ok (deposit_of s f c t n) (books_of s) \<and>
             books_of s' = book_move (deposit_of s f c t n) (books_of s)"
    if "tip tr e f c t n s = Inr s'" for f c t n
  proof -
    have "0 < n" "in_i128 (total_of s c t + n)"
      using that unfolding tip_Inr_iff get_total_tips_view by auto
    then show ?thesis
      using tip_books [OF that inv(1,5)] fee_of_bounds [of n, OF _ inv(5)]
      by (simp add: deposit_of_def in_i128_def)
  qed
  have pay: "move_ok (Payout c t d (unwrap_or v (balance_of s c t))) (books_of s) \<and>
             books_of s' = book_move (Payout c t d (unwrap_or v (balance_of s c t))) (books_of s)"
    if "withdraw tr e a c t d v s = Inr s'" for a c t d v
    using withdraw_effect [OF that inv(1)] by simp
  have fees: "move_ok (FeePayout a t (unwrap_or v (fees_of s t))) (books_of s) \<and>
             books_of s' = book_move (FeePayout a t (unwrap_or v (fees_of s t))) (books_of s)"
    if "withdraw_fees tr e a t v s = Inr s'" for a t v
    using withdraw_fees_effect [OF that inv(1,6)] by simp
  have "move_ok (movement_of k s) (books_of s) \<and>
        books_of s' = book_move (movement_of k s) (books_of s)"
  proof (cases "movement_of k s = Idle")
    case True
    then show ?thesis using idle_books [OF assms(1) True inv(4)] by simp
  next
    case False
    then show ?thesis
      using assms(1) by (cases k) (auto simp: legacy_wrapper_Inr_iff dep pay fees simp del: move_ok.simps book_move.simps)
  qed
  then show "move_ok (movement_of k s) (books_of s)"
    "books_of s' = book_move (movement_of k s) (books_of s)" by auto
qed

lemma exec_tokens:
  assumes "exec tr e k s = Inr s'" "jar_inv s"
  shows "token_move tr (contract_address e) (movement_of k s) (st_tokens s) = Some (st_tokens s')"
proof -
  note inv = jar_invD [OF assms(2)]
  have pay: "tr (st_tokens s) t (contract_address e) d (unwrap_or v (balance_of s c t)) = Some (st_tokens s')"
    if "withdraw tr e a c t d v s = Inr s'" for a c t d v
    using withdraw_effect(5,6) [OF that inv(1)] by simp
  show ?thesis
  proof (cases "movement_of k s = Idle")
    case True
    then show ?thesis using assms(1)
      by (cases k) (auto simp: result_simps pause_entrypoint_defs deposit_of_def storage_defs
       get_balance_view get_total_tips_view split: if_splits)
  next
    case False
    then show ?thesis
      using assms(1)
      by (cases k) (auto simp: legacy_wrapper_Inr_iff deposit_of_def tip_frame(6) pay
            withdraw_fees_effect(5) [OF _ inv(1,6)])
  qed
qed


section \<open>The invariant is kept\<close>

lemma migrate_no_legacy:
  "st_creator_balance s = Map.empty \<Longrightarrow> st_creator_total s = Map.empty \<Longrightarrow>
   maybe_migrate_creator_data e c t s = s"
  by (simp add: maybe_migrate_creator_data_def split: option.split)

lemma idle_inv:
  assumes "exec tr e k s = Inr s'" "movement_of k s = Idle" "config_ok s" "fees_typed s"
    "legacy_initialized s"
  shows "config_ok s'" "fees_typed s'" "legacy_initialized s'"
proof -
  show "config_ok s'"
    using assms(1-3)
    by (cases k) (auto simp: config_ok_def allowlist_def MAX_ALLOWED_TOKENS_def result_simps pause_entrypoint_defs
          deposit_of_def storage_defs get_balance_view get_total_tips_view distinct_filter
          intro: order_trans [OF length_filter_le] split: if_splits)
  show "fees_typed s'"
    using assms(1,2,4)
    by (cases k) (auto simp: fees_typed_def result_simps pause_entrypoint_defs
          deposit_of_def storage_defs get_balance_view get_total_tips_view split: if_splits)
  show "legacy_initialized s'"
    using assms(1,2,5)
    by (cases k) (auto simp: legacy_initialized_def migrate_no_legacy result_simps pause_entrypoint_defs
          deposit_of_def storage_defs get_balance_view get_total_tips_view split: if_splits)
qed


lemma config_ok_cong:
  "st_fee_bps s' = st_fee_bps s \<Longrightarrow> st_allowed_tokens s' = st_allowed_tokens s \<Longrightarrow>
   config_ok s \<Longrightarrow> config_ok s'"
  by (simp add: config_ok_def allowlist_def)

lemma moving_inv:
  assumes "exec tr e k s = Inr s'" "movement_of k s \<noteq> Idle" "config_ok s" "fees_typed s"
    "legacy_initialized s"
  shows "config_ok s' \<and> fees_typed s' \<and> legacy_initialized s'"
proof -
  have 1: "config_ok s' \<and> fees_typed s' \<and> legacy_initialized s'" if "tip tr e f c t n s = Inr s'" for f c t n
    using tip_frame [OF that] assms(3,4) config_ok_cong [of s' s] by (auto simp: legacy_initialized_def)
  have 2: "config_ok s' \<and> fees_typed s' \<and> legacy_initialized s'" if "withdraw tr e a c t d v s = Inr s'" for a c t d v
    using withdraw_frame [OF that] assms(3,4) config_ok_cong [of s' s]
    by (auto simp: legacy_initialized_def fees_typed_def)
  have 3: "config_ok s' \<and> fees_typed s' \<and> legacy_initialized s'" if "withdraw_fees tr e a t v s = Inr s'" for a t v
    using withdraw_fees_frame [OF that] assms(3-5) config_ok_cong [of s' s]
    by (auto simp: legacy_initialized_def)
  show ?thesis
    using assms(1,2) by (cases k) (auto simp only: exec.simps movement_of.simps legacy_wrapper_Inr_iff dest: 1 2 3)
qed

lemma exec_inv:
  assumes "exec tr e k s = Inr s'" "jar_inv s"
  shows "jar_inv s'"
proof -
  have "books_ok (books_of s')"
    using exec_refines [OF assms] books_ok_move jar_invD(1) [OF assms(2)] by simp
  moreover have "config_ok s' \<and> fees_typed s' \<and> legacy_initialized s'"
    using idle_inv [OF assms(1)] moving_inv [OF assms(1)] jar_invD(2-4) [OF assms(2)]
    by (cases "movement_of k s = Idle") auto
  ultimately show ?thesis by (simp add: jar_inv_def)
qed

section \<open>Reachable states\<close>

text \<open>
  A run of the deployed contract at address \<open>me\<close>: calls under any ledger header and any set of
  authorisations in which the contract does not authorise anything itself (the host lets a
  contract authorise only the calls it makes, and it never calls itself), no withdrawal being
  addressed to the contract, and transfers of third parties between the calls. Failed calls
  are rolled back and leave no trace.
\<close>

fun pays_itself :: "address \<Rightarrow> call \<Rightarrow> bool" where
  "pays_itself me (CWithdraw a c t d v) \<longleftrightarrow> d = me"
| "pays_itself me (CWithdrawLegacy a c d v) \<longleftrightarrow> d = me"
| "pays_itself me _ \<longleftrightarrow> False"

inductive jar_step :: "'tk transfer_fn \<Rightarrow> address \<Rightarrow> 'tk jar \<Rightarrow> 'tk jar \<Rightarrow> bool"
  for tr :: "'tk transfer_fn" and me :: address where
  call: "exec tr e k s = Inr s' \<Longrightarrow> contract_address e = me \<Longrightarrow> \<not> authorized e me \<Longrightarrow>
         \<not> pays_itself me k \<Longrightarrow> jar_step tr me s s'"
| third_party: "tr (st_tokens s) t src dst n = Some tk \<Longrightarrow> src \<noteq> me \<Longrightarrow> src \<noteq> dst \<Longrightarrow> 0 \<le> n \<Longrightarrow>
         jar_step tr me s (s\<lparr>st_tokens := tk\<rparr>)"

inductive jar_reach :: "'tk transfer_fn \<Rightarrow> address \<Rightarrow> 'tk jar \<Rightarrow> 'tk jar \<Rightarrow> bool"
  for tr :: "'tk transfer_fn" and me :: address and s0 :: "'tk jar" where
  start: "jar_reach tr me s0 s0"
| step: "jar_reach tr me s0 s \<Longrightarrow> jar_step tr me s s' \<Longrightarrow> jar_reach tr me s0 s'"

inductive_cases jar_stepE: "jar_step tr me s s'"

definition solvent :: "('tk \<Rightarrow> address \<Rightarrow> address \<Rightarrow> int) \<Rightarrow> address \<Rightarrow> 'tk jar \<Rightarrow> bool" where
  "solvent holding me s \<longleftrightarrow> (\<forall>t. liabilities (books_of s) t \<le> holding (st_tokens s) t me)"

definition fresh_jar :: "'tk \<Rightarrow> bytes32 \<Rightarrow> 'tk jar" where
  "fresh_jar tk code = \<lparr>st_token = None, st_creator_balance = Map.empty, st_creator_total = Map.empty,
     st_allowed_tokens = None, st_balance = Map.empty, st_total = Map.empty,
     st_payout_address = Map.empty, st_pending_payout = Map.empty, st_operator = Map.empty,
     st_admin = None, st_pending_admin = None, st_upgrade_timelock = None, st_pending_upgrade = None,
     st_data_version = None, st_guardian = None, st_pause = None, st_guardian_pause_duration = None,
     st_fee_bps = None, st_fee_collector = None, st_pending_fee_collector = None,
     st_fee_balance = None, st_fee_balance_token = Map.empty, st_wasm = code, st_ttl = Map.empty,
     st_instance_live = 0, st_tokens = tk, st_events = []\<rparr>"

lemma fresh_books: "books_of (fresh_jar tk code) = \<lparr>bk_balance = (\<lambda>_. 0), bk_total = (\<lambda>_. 0), bk_fees = (\<lambda>_. 0)\<rparr>"
  by (rule books_eqI) (simp_all add: fresh_jar_def view_defs)

lemma fresh_inv: "jar_inv (fresh_jar tk code)"
  unfolding jar_inv_def fresh_books
  by (simp add: books_ok_def config_ok_def allowlist_def fees_typed_def legacy_initialized_def I128_MAX_def)
    (simp add: fresh_jar_def)

lemma step_inv:
  assumes "jar_step tr me s s'" "jar_inv s"
  shows "jar_inv s'"
  using assms
proof cases
  case (call e k)
  then show ?thesis using exec_inv assms(2) by blast
next
  case third_party
  then show ?thesis using assms(2)
    by (simp add: jar_inv_def config_ok_def allowlist_def fees_typed_def legacy_initialized_def)
qed

lemma reach_inv: "jar_reach tr me s0 s \<Longrightarrow> jar_inv s0 \<Longrightarrow> jar_inv s"
  by (induction rule: jar_reach.induct) (auto intro: step_inv)

end
