(* ===== verification/Token_Ledger.thy ===== *)
theory Token_Ledger
  imports Host
begin

text \<open>
  A token ledger that keeps the interface of SEP-41: balances of every token, none negative, a
  transfer that is refused when the amount is negative or not covered. It serves the interfaces
  \<open>sep41\<close> and \<open>sep41_live\<close>, so that what is proved from them is known to speak of something.
\<close>

text \<open>
  What the move of \<open>n\<close> units of a token adds to the holding of an account, and the law of a transfer in
  these terms: it changes every holding by exactly its move.
\<close>

definition moved :: "address \<Rightarrow> address \<Rightarrow> address \<Rightarrow> int \<Rightarrow> address \<Rightarrow> address \<Rightarrow> int" where
  "moved t src dst n t' a = (if t' = t then (if a = dst then n else 0) - (if a = src then n else 0) else 0)"

lemma moved_zero [simp]: "moved t src dst 0 t' a = 0"
  by (simp add: moved_def)

context sep41
begin

lemma transfer_moved:
  assumes "ledger_ok tk" "transfer tk t src dst n = Some tk'" "src \<noteq> dst" "0 \<le> n"
  shows "ledger_ok tk'" "holding tk' t' a = holding tk t' a + moved t src dst n t' a"
  using transfer_ok [OF assms] transfer_debit [OF assms] transfer_credit [OF assms] transfer_frame [OF assms, of t' a] assms(3)
  by (auto simp: moved_def)

end

type_synonym ledger = "address \<Rightarrow> address \<Rightarrow> int"

definition ledger_transfer :: "ledger transfer_fn" where
  "ledger_transfer tk t src dst n =
     (if n < 0 \<or> tk t src < n then None
      else let tk1 = tk(t := (tk t)(src := tk t src - n))
           in Some (tk1(t := (tk1 t)(dst := tk1 t dst + n))))"

definition ledger_holding :: "ledger \<Rightarrow> address \<Rightarrow> address \<Rightarrow> int" where
  "ledger_holding tk t a = tk t a"

definition ledger_nonneg :: "ledger \<Rightarrow> bool" where
  "ledger_nonneg tk \<longleftrightarrow> (\<forall>t a. 0 \<le> tk t a)"

interpretation ledger: sep41_live ledger_transfer ledger_holding ledger_nonneg
  by unfold_locales
    (auto simp: ledger_transfer_def ledger_holding_def ledger_nonneg_def Let_def add_nonneg_nonneg
       split: if_splits)

end
