(* ===== verification/Tipjar_Solvency.thy ===== *)
theory Tipjar_Solvency
  imports Tipjar_Steps Token_Ledger
begin

unbundle bit_operations_syntax

text \<open>
  The tip jar on a SEP-41 token: it owns at least what it owes on every reachable state, and a
  creator's withdrawal goes through whenever the token honours funded transfers. The facts are
  proved once in the context of the token interface and hold of every token that keeps it; the
  theory closes with a small deployment on the token ledger of \<^verbatim>\<open>Token_Ledger\<close>.
\<close>

section \<open>Solvency and liveness on a SEP-41 token\<close>

context sep41
begin

lemma step_ledger:
  assumes "jar_step transfer me s s'" "jar_inv s" "ledger_ok (st_tokens s)"
  shows "ledger_ok (st_tokens s')"
    and "liabilities (books_of s') t - liabilities (books_of s) t
           \<le> holding (st_tokens s') t me - holding (st_tokens s) t me"
proof -
  have "ledger_ok (st_tokens s') \<and>
        liabilities (books_of s') t - liabilities (books_of s) t
          \<le> holding (st_tokens s') t me - holding (st_tokens s) t me"
    using assms(1)
  proof cases
    case (call e k)
    note m = exec_refines [OF call(1) assms(2)] and tm = exec_tokens [OF call(1) assms(2)]
    have li: "liabilities (books_of s') t = liabilities (books_of s) t + move_delta (movement_of k s) t"
      using m(2) liabilities_move [OF jar_invD(1) [OF assms(2)]] by simp
    have "ledger_ok (st_tokens s') \<and>
          holding (st_tokens s') t me = holding (st_tokens s) t me + move_delta (movement_of k s) t"
    proof (cases "movement_of k s")
      case (Deposit f c t0 n fee)
      then have "f \<noteq> me"
        using call by (cases k) (auto simp: deposit_of_def legacy_wrapper_Inr_iff tip_Inr_iff)
      then show ?thesis
        using Deposit m(1) tm call(2) deposit_holding [OF assms(3)] transfer_ok [OF assms(3)] by auto
    next
      case (Payout c t0 d n)
      then have "d \<noteq> me" using call by (cases k) (auto simp: deposit_of_def)
      then show ?thesis
        using Payout m(1) tm call(2) payout_holding [OF assms(3)] transfer_ok [OF assms(3)] by auto
    next
      case (FeePayout a t0 n)
      then have "a \<noteq> me" using call by (cases k) (auto simp: deposit_of_def withdraw_fees_Inr_iff)
      then show ?thesis
        using FeePayout m(1) tm call(2) payout_holding [OF assms(3)] transfer_ok [OF assms(3)] by auto
    next
      case Idle
      then show ?thesis using tm assms(3) by simp
    qed
    then show ?thesis using li by simp
  next
    case (third_party t0 src dst n tk)
    have "holding (st_tokens s) t me \<le> holding tk t me"
      using transfer_credit [OF assms(3) third_party(2,4,5)] third_party(3,5)
        transfer_frame [OF assms(3) third_party(2,4,5), of t me] by (cases "t = t0 \<and> me = dst") auto
    then show ?thesis
      using third_party transfer_ok [OF assms(3)] by auto
  qed
  then show "ledger_ok (st_tokens s')"
    and "liabilities (books_of s') t - liabilities (books_of s) t
           \<le> holding (st_tokens s') t me - holding (st_tokens s) t me" by auto
qed

lemma step_solvent:
  assumes "jar_step transfer me s s'" "jar_inv s" "ledger_ok (st_tokens s)" "solvent holding me s"
  shows "solvent holding me s'"
  unfolding solvent_def
proof
  fix t
  have "liabilities (books_of s) t \<le> holding (st_tokens s) t me"
    using assms(4) by (simp add: solvent_def)
  then show "liabilities (books_of s') t \<le> holding (st_tokens s') t me"
    using step_ledger(2) [OF assms(1-3), of t] by linarith
qed

lemma reach_solvent:
  assumes "jar_reach transfer me s0 s" "jar_inv s0" "ledger_ok (st_tokens s0)" "solvent holding me s0"
  shows "ledger_ok (st_tokens s) \<and> solvent holding me s"
  using assms
proof (induction rule: jar_reach.induct)
  case (step s s')
  then show ?case
    using reach_inv [OF step(1)] step_ledger(1) step_solvent by blast
qed simp

end

context sep41_live
begin

text \<open>
  A withdrawal that the caller may make goes through, and so does one of the creator itself; the
  collector can always take out accrued fees.
\<close>

lemma charged_withdraw_goes_through:
  assumes "jar_inv s" "ledger_ok (st_tokens s)" "solvent holding (contract_address e) s"
    and "st_admin s \<noteq> None" "authorized e a" "pause_flags e s AND PAUSE_FLAG_WITHDRAWALS = 0"
    and "0 < unwrap_or v (balance_of s c t)" "unwrap_or v (balance_of s c t) \<le> balance_of s c t"
    and "effective_payout e c s \<noteq> contract_address e"
    and "charge_operator e a c (unwrap_or v (balance_of s c t)) (maybe_migrate_creator_data e c t s) = Inr s2"
  shows "\<exists>s'. withdraw transfer e a c t (effective_payout e c s) v s = Inr s'"
proof -
  let ?n = "unwrap_or v (balance_of s c t)"
  have "?n \<le> holding (st_tokens s) t (contract_address e)"
    using assms(3,8) liabilities_ge_balance [OF jar_invD(1) [OF assms(1)], of c t]
    by (auto simp: solvent_def intro: order_trans)
  then obtain tk where tk: "transfer (st_tokens s) t (contract_address e) (effective_payout e c s) ?n = Some tk"
    using transfer_pays [OF assms(2), of "contract_address e" "effective_payout e c s" ?n t] assms(7,9) by auto
  note f = charge_operator_frame [OF assms(10)]
  have pay: "effective_payout e c s2 = effective_payout e c s"
    by (simp add: effective_payout_def f cong: option.case_cong if_cong)
  have "st_tokens (if st_payout_address (apply_matured_payout e c s2) c \<noteq> None
      then extend_ttl e (PayoutAddress c) (apply_matured_payout e c s2)
      else apply_matured_payout e c s2) = st_tokens s"
    by (simp add: storage_defs f)
  then show ?thesis
    using assms(4-8,10) tk unfolding withdraw_Inr_iff get_balance_view snd_conv Let_def
    by (auto simp: apply_matured_payout_address pay)
qed

lemma withdraw_goes_through:
  assumes "jar_inv s" "ledger_ok (st_tokens s)" "solvent holding (contract_address e) s"
    and "st_admin s \<noteq> None" "authorized e c" "pause_flags e s AND PAUSE_FLAG_WITHDRAWALS = 0"
    and "0 < unwrap_or v (balance_of s c t)" "unwrap_or v (balance_of s c t) \<le> balance_of s c t"
    and "effective_payout e c s \<noteq> contract_address e"
  shows "\<exists>s'. withdraw transfer e c c t (effective_payout e c s) v s = Inr s'"
  by (rule charged_withdraw_goes_through [OF assms]) (simp add: charge_operator_def)

lemma withdraw_fees_goes_through:
  assumes "jar_inv s" "ledger_ok (st_tokens s)" "solvent holding (contract_address e) s"
    and "authorized e a" "st_fee_collector s = Some a" "a \<noteq> contract_address e"
    and "maybe_migrate_fee_balance e t s = Inr s1"
    and "0 < unwrap_or v (fees_of s t)" "unwrap_or v (fees_of s t) \<le> fees_of s t"
  shows "\<exists>s'. withdraw_fees transfer e a t v s = Inr s'"
proof -
  let ?n = "unwrap_or v (fees_of s t)"
  have "?n \<le> holding (st_tokens s) t (contract_address e)"
    using assms(3,9) liabilities_ge_fees [OF jar_invD(1) [OF assms(1)], of t]
    by (auto simp: solvent_def intro: order_trans)
  then obtain tk where "transfer (st_tokens s) t (contract_address e) a ?n = Some tk"
    using transfer_pays [OF assms(2), of "contract_address e" a ?n t] assms(6,8) by auto
  moreover have "unwrap_or (st_fee_balance_token s1 t) 0 = fees_of s t"
    using fee_migration_clears [OF assms(7)] fee_migration_books [OF assms(7)] books_of_sel(3) by metis
  ultimately show ?thesis
    using assms(4,5,7-9) fee_migration_frame(1) [OF assms(7)]
    unfolding withdraw_fees_Inr_iff Let_def by auto
qed

end

section \<open>Runs\<close>

fun run_calls :: "'tk transfer_fn \<Rightarrow> (env \<times> call) list \<Rightarrow> 'tk jar \<Rightarrow> 'tk jar_result" where
  "run_calls tr [] s = Inr s"
| "run_calls tr ((e, k) # r) s = and_then (exec tr e k s) (run_calls tr r)"

definition admissible :: "address \<Rightarrow> (env \<times> call) list \<Rightarrow> bool" where
  "admissible me r \<longleftrightarrow>
     list_all (\<lambda>(e, k). contract_address e = me \<and> \<not> authorized e me \<and> \<not> pays_itself me k) r"

lemma run_reach:
  "jar_reach tr me s0 s \<Longrightarrow> admissible me r \<Longrightarrow> run_calls tr r s = Inr s' \<Longrightarrow> jar_reach tr me s0 s'"
proof (induction r arbitrary: s)
  case (Cons p r)
  obtain e k where p: "p = (e, k)" by (cases p)
  obtain s1 where s1: "exec tr e k s = Inr s1" "run_calls tr r s1 = Inr s'"
    using Cons.prems(3) by (auto simp: p and_then_Inr_iff)
  have "jar_step tr me s s1"
    using Cons.prems(2) s1(1) by (auto simp: p admissible_def intro: jar_step.call)
  then have "jar_reach tr me s0 s1" using Cons.prems(1) by (rule jar_reach.step [rotated])
  then show ?case using Cons s1(2) by (auto simp: admissible_def)
qed simp

lemma run_inv: "run_calls tr r s = Inr s' \<Longrightarrow> jar_inv s \<Longrightarrow> jar_inv s'"
proof (induction r arbitrary: s)
  case (Cons p r)
  then show ?case using exec_inv by (cases p) (fastforce simp: and_then_Inr_iff)
qed simp

section \<open>A deployment\<close>

text \<open>
  The jar is contract 8, the admin account 2, creators 3 and 4, a tipper 5 that owns 1000 of
  token 10. The fee is one per cent.
\<close>

definition demo_env :: "u32 \<Rightarrow> env" where
  "demo_env sq = \<lparr>sequence = sq, timestamp = 0, authorized = (\<lambda>a. a \<noteq> 8), contract_address = 8,
     new_entry_live = 4096, extend_policy = (\<lambda>thr ext live. max live (unat sq + unat ext)),
     wasm_uploaded = (\<lambda>h. h = 7)\<rparr>"

definition demo_ledger :: ledger where
  "demo_ledger = (\<lambda>t a. if t = 10 \<and> a = 5 then 1000 else 0)"

definition demo_calls :: "(env \<times> call) list" where
  "demo_calls = [(demo_env 100, CInit 10 2 50), (demo_env 101, CSetFee 2 100),
     (demo_env 102, CTip 5 3 10 200), (demo_env 103, CTip 5 4 10 100)]"

definition demo_jar :: "ledger jar" where
  "demo_jar = projr (run_calls ledger_transfer demo_calls (fresh_jar demo_ledger 0))"

lemmas jar_eval =
  init_def set_fee_def tip_def withdraw_def charge_operator_def apply_matured_payout_def require_auth_def
  require_admin_def admin_address_def check_not_paused_def ensure_initialized_def ensure_token_allowed_def
  effective_pause_flags_def pause_state_of_def default_pause_def maybe_migrate_creator_data_def
  fee_for_def checked_mul_i128_def checked_div_i128_def checked_add_i128_def in_i128_def I128_MAX_def
  I128_MIN_def sub_i128_def wrap_i128_def transfer_tokens_def call_transfer_def accrue_fee_def
  maybe_migrate_fee_balance_def storage_defs tipjar_constants signed_divide_int_def

lemmas demo_eval = jar_eval demo_calls_def demo_env_def fresh_jar_def demo_ledger_def ledger_transfer_def Let_def

lemma demo_run_shape:
  "\<exists>tk ttl live evs. run_calls ledger_transfer demo_calls (fresh_jar demo_ledger 0) = Inr
     \<lparr>st_token = Some 10, st_creator_balance = Map.empty, st_creator_total = Map.empty,
     st_allowed_tokens = Some [10], st_balance = [(3, 10) \<mapsto> 198, (4, 10) \<mapsto> 99],
     st_total = [(3, 10) \<mapsto> 200, (4, 10) \<mapsto> 100],
     st_payout_address = Map.empty, st_pending_payout = Map.empty, st_operator = Map.empty,
     st_admin = Some 2, st_pending_admin = None, st_upgrade_timelock = Some 50, st_pending_upgrade = None,
     st_data_version = Some 2, st_guardian = None, st_pause = None, st_guardian_pause_duration = None,
     st_fee_bps = Some 100, st_fee_collector = None, st_pending_fee_collector = None,
     st_fee_balance = None, st_fee_balance_token = [10 \<mapsto> 3], st_wasm = 0, st_ttl = ttl,
     st_instance_live = live, st_tokens = tk, st_events = evs\<rparr> \<and>
     tk 10 8 = 300 \<and> tk 10 5 = 700"
  by (simp add: demo_eval)

lemma demo_run: "run_calls ledger_transfer demo_calls (fresh_jar demo_ledger 0) = Inr demo_jar"
  using demo_run_shape unfolding demo_jar_def by auto

lemma demo_reach: "jar_reach ledger_transfer 8 (fresh_jar demo_ledger 0) demo_jar"
  by (rule run_reach [OF jar_reach.start _ demo_run])
    (simp add: admissible_def demo_calls_def demo_env_def)

lemma demo_inv: "jar_inv demo_jar"
  by (rule run_inv [OF demo_run fresh_inv])

lemma demo_values:
  "balance_of demo_jar 3 10 = 198" "total_of demo_jar 3 10 = 200" "balance_of demo_jar 4 10 = 99"
  "total_of demo_jar 4 10 = 100" "fees_of demo_jar 10 = 3" "ledger_holding (st_tokens demo_jar) 10 8 = 300"
  "ledger_holding (st_tokens demo_jar) 10 5 = 700" "st_admin demo_jar = Some 2"
  "st_fee_bps demo_jar = Some 100" "st_pause demo_jar = None" "st_pending_payout demo_jar = Map.empty"
  "st_payout_address demo_jar = Map.empty" "st_allowed_tokens demo_jar = Some [10]"
  "st_fee_collector demo_jar = None" "st_token demo_jar = Some 10" "st_guardian demo_jar = None"
  "st_guardian_pause_duration demo_jar = None" "st_operator demo_jar = Map.empty"
  "st_pending_admin demo_jar = None" "st_pending_fee_collector demo_jar = None"
  "st_pending_upgrade demo_jar = None" "st_upgrade_timelock demo_jar = Some 50"
  "st_wasm demo_jar = 0" "st_data_version demo_jar = Some 2" "st_fee_balance demo_jar = None"
  "st_creator_balance demo_jar = Map.empty" "st_creator_total demo_jar = Map.empty"
proof -
  obtain tk ttl live evs where d: "demo_jar =
     \<lparr>st_token = Some 10, st_creator_balance = Map.empty, st_creator_total = Map.empty,
     st_allowed_tokens = Some [10], st_balance = [(3, 10) \<mapsto> 198, (4, 10) \<mapsto> 99],
     st_total = [(3, 10) \<mapsto> 200, (4, 10) \<mapsto> 100],
     st_payout_address = Map.empty, st_pending_payout = Map.empty, st_operator = Map.empty,
     st_admin = Some 2, st_pending_admin = None, st_upgrade_timelock = Some 50, st_pending_upgrade = None,
     st_data_version = Some 2, st_guardian = None, st_pause = None, st_guardian_pause_duration = None,
     st_fee_bps = Some 100, st_fee_collector = None, st_pending_fee_collector = None,
     st_fee_balance = None, st_fee_balance_token = [10 \<mapsto> 3], st_wasm = 0, st_ttl = ttl,
     st_instance_live = live, st_tokens = tk, st_events = evs\<rparr>" and tk: "tk 10 8 = 300" "tk 10 5 = 700"
    using demo_run_shape unfolding demo_run sum.inject by blast
  show
  "balance_of demo_jar 3 10 = 198" "total_of demo_jar 3 10 = 200" "balance_of demo_jar 4 10 = 99"
  "total_of demo_jar 4 10 = 100" "fees_of demo_jar 10 = 3" "ledger_holding (st_tokens demo_jar) 10 8 = 300"
  "ledger_holding (st_tokens demo_jar) 10 5 = 700" "st_admin demo_jar = Some 2"
  "st_fee_bps demo_jar = Some 100" "st_pause demo_jar = None" "st_pending_payout demo_jar = Map.empty"
  "st_payout_address demo_jar = Map.empty" "st_allowed_tokens demo_jar = Some [10]"
  "st_fee_collector demo_jar = None" "st_token demo_jar = Some 10" "st_guardian demo_jar = None"
  "st_guardian_pause_duration demo_jar = None" "st_operator demo_jar = Map.empty"
  "st_pending_admin demo_jar = None" "st_pending_fee_collector demo_jar = None"
  "st_pending_upgrade demo_jar = None" "st_upgrade_timelock demo_jar = Some 50"
  "st_wasm demo_jar = 0" "st_data_version demo_jar = Some 2" "st_fee_balance demo_jar = None"
  "st_creator_balance demo_jar = Map.empty" "st_creator_total demo_jar = Map.empty"
    using tk by (simp_all add: d view_defs ledger_holding_def)
qed

lemma demo_ledger_ok: "ledger_nonneg demo_ledger" "0 \<le> ledger_holding demo_ledger t 8"
  by (simp_all add: ledger_nonneg_def ledger_holding_def demo_ledger_def)


text \<open>The jar of the deployment after a fee collector and an operator were appointed.\<close>

definition demo_appointments :: "(env \<times> call) list" where
  "demo_appointments = [(demo_env 104, CProposeFeeCollector 2 6), (demo_env 105, CAcceptFeeCollector 6),
     (demo_env 106, CAuthorizeOperator 3 7 50 1000)]"

definition demo_jar2 :: "ledger jar" where
  "demo_jar2 = projr (run_calls ledger_transfer demo_appointments demo_jar)"

lemma demo_appointments_run:
  "\<exists>s. run_calls ledger_transfer demo_appointments demo_jar = Inr s \<and> st_fee_collector s = Some 6 \<and>
     st_operator s = [(3, 7) \<mapsto> (50, 1000)] \<and> books_of s = books_of demo_jar \<and> st_admin s = Some 2 \<and>
     st_tokens s = st_tokens demo_jar \<and> st_pause s = None \<and> st_payout_address s = Map.empty \<and>
     st_pending_payout s = Map.empty \<and> st_fee_balance s = None"
  by (simp add: demo_appointments_def and_then_Inr_iff result_simps demo_values demo_env_def
      pause_flags_def effective_pause_flags_def pause_state_of_def default_pause_def)
    (simp add: storage_defs demo_values tipjar_constants)

lemma demo_run2: "run_calls ledger_transfer demo_appointments demo_jar = Inr demo_jar2"
  using demo_appointments_run unfolding demo_jar2_def by auto

lemma demo_values2:
  "st_fee_collector demo_jar2 = Some 6" "st_operator demo_jar2 = [(3, 7) \<mapsto> (50, 1000)]"
  "books_of demo_jar2 = books_of demo_jar" "st_admin demo_jar2 = Some 2"
  "st_tokens demo_jar2 = st_tokens demo_jar" "st_pause demo_jar2 = None"
  "st_payout_address demo_jar2 = Map.empty" "st_pending_payout demo_jar2 = Map.empty"
  "st_fee_balance demo_jar2 = None"
  using demo_appointments_run unfolding demo_run2 sum.inject by blast+

lemma demo_accounts2:
  "balance_of demo_jar2 c t = balance_of demo_jar c t" "fees_of demo_jar2 t = fees_of demo_jar t"
  using arg_cong [OF demo_values2(3), of "\<lambda>b. bk_balance b (c, t)"]
    arg_cong [OF demo_values2(3), of "\<lambda>b. bk_fees b t"] by simp_all

lemma demo_reach2: "jar_reach ledger_transfer 8 (fresh_jar demo_ledger 0) demo_jar2"
  by (rule run_reach [OF demo_reach _ demo_run2])
    (simp add: admissible_def demo_appointments_def demo_env_def)

lemma demo_inv2: "jar_inv demo_jar2"
  by (rule run_inv [OF demo_run2 demo_inv])

lemma demo_solvent2: "ledger_nonneg (st_tokens demo_jar2)" "solvent ledger_holding 8 demo_jar2"
proof -
  have "solvent ledger_holding 8 (fresh_jar demo_ledger 0)"
    using demo_ledger_ok by (simp add: solvent_def fresh_books liabilities_def) (simp add: fresh_jar_def)
  then show "ledger_nonneg (st_tokens demo_jar2)" "solvent ledger_holding 8 demo_jar2"
    using ledger.reach_solvent [OF demo_reach2 fresh_inv] demo_ledger_ok by (simp_all add: fresh_jar_def)
qed

lemma demo_unpaused: "pause_flags e demo_jar2 = 0" "pause_flags e demo_jar = 0"
  by (simp_all add: demo_values2 demo_values pause_flags_def effective_pause_flags_def
      pause_state_of_def default_pause_def)

lemma demo_operator_withdraws:
  "\<exists>s'. withdraw ledger_transfer (demo_env 110) 7 3 10 3 (Some 20) demo_jar2 = Inr s'"
proof -
  have "\<exists>s2. charge_operator (demo_env 110) 7 3 20 (maybe_migrate_creator_data (demo_env 110) 3 10 demo_jar2) = Inr s2"
    unfolding charge_operator_def by (simp add: demo_values2 demo_env_def Let_def)
  moreover have "effective_payout (demo_env 110) 3 demo_jar2 = 3"
    by (simp add: effective_payout_def demo_values2)
  ultimately show ?thesis
    using ledger.charged_withdraw_goes_through [OF demo_inv2 demo_solvent2(1), of "demo_env 110" 7 "Some 20" 3 10]
      demo_solvent2(2)
    by (auto simp: demo_values2 demo_accounts2 demo_values demo_env_def demo_unpaused)
qed

lemma demo_collector_withdraws:
  "\<exists>s'. withdraw_fees ledger_transfer (demo_env 110) 6 10 None demo_jar2 = Inr s'"
proof -
  have "maybe_migrate_fee_balance (demo_env 110) 10 demo_jar2 = Inr demo_jar2"
    by (simp add: maybe_migrate_fee_balance_def demo_values2)
  then show ?thesis
    using ledger.withdraw_fees_goes_through [OF demo_inv2 demo_solvent2(1), of "demo_env 110" 6 10 demo_jar2 None]
      demo_solvent2(2)
    by (simp add: demo_values2 demo_accounts2 demo_values demo_env_def)
qed

end
