(* ===== verification/Tipjar_Properties.thy ===== *)
theory Tipjar_Properties
  imports Tipjar_Solvency
begin

unbundle bit_operations_syntax

text \<open>
  The properties of the tip jar that each concern the contract as a whole: authority over the
  admin, the fee collector, the installed code, the pause flags and the operators' allowances,
  and the exact effect of tips and withdrawals.
\<close>

section \<open>What the calls leave alone\<close>

definition governance where
  "governance s = (st_token s, st_allowed_tokens s, st_admin s, st_pending_admin s, st_upgrade_timelock s,
     st_pending_upgrade s, st_data_version s, st_guardian s, st_pause s, st_guardian_pause_duration s,
     st_fee_bps s, st_fee_collector s, st_pending_fee_collector s, st_wasm s)"

definition delegation where
  "delegation s = (st_payout_address s, st_pending_payout s, st_operator s)"

lemma frame_storage [simp]:
  "governance (extend_ttl e k s) = governance s" "delegation (extend_ttl e k s) = delegation s"
  "governance (extend_instance_ttl e s) = governance s" "delegation (extend_instance_ttl e s) = delegation s"
  "governance (publish ev s) = governance s" "delegation (publish ev s) = delegation s"
  "governance (set_balance e c t v s) = governance s" "delegation (set_balance e c t v s) = delegation s"
  "governance (set_total e c t v s) = governance s" "delegation (set_total e c t v s) = delegation s"
  "governance (set_fee_balance_token e t v s) = governance s"
  "delegation (set_fee_balance_token e t v s) = delegation s"
  "governance (s\<lparr>st_tokens := tk\<rparr>) = governance s" "delegation (s\<lparr>st_tokens := tk\<rparr>) = delegation s"
  "governance (maybe_migrate_creator_data e c t s) = governance s"
  "delegation (maybe_migrate_creator_data e c t s) = delegation s"
  "governance (apply_matured_payout e c s) = governance s"
  "governance (s\<lparr>st_operator := f, st_ttl := g\<rparr>) = governance s"
  by (simp_all add: governance_def delegation_def storage_defs)

lemma fee_migration_governance:
  assumes "maybe_migrate_fee_balance e t s = Inr s'"
  shows "governance s' = governance s" "delegation s' = delegation s"
  by (simp_all add: governance_def delegation_def fee_migration_frame [OF assms])

lemma tip_governance:
  assumes "tip tr e f c t n s = Inr s'"
  shows "governance s' = governance s" "delegation s' = delegation s"
    "st_events s' = st_events s @ (if unwrap_or (st_fee_bps s) 0 > 0
       then [FeeCharged c n (fee_of n (unwrap_or (st_fee_bps s) 0)) (sub_i128 n (fee_of n (unwrap_or (st_fee_bps s) 0)))]
       else []) @ [Tip c t f n]"
proof -
  let ?bps = "unwrap_or (st_fee_bps s) 0"
  let ?s3 = "\<lambda>fee tk. extend_ttl e (Total c t) (extend_ttl e (Balance c t)
               (set_total e c t (total_of s c t + n)
                 (set_balance e c t (balance_of s c t + sub_i128 n fee)
                   ((maybe_migrate_creator_data e c t s)\<lparr>st_tokens := tk\<rparr>))))"
  obtain fee tk s4 where n: "\<not> n \<le> 0" and f: "fee_for n ?bps = Inr fee"
    and acc: "if ?bps > 0 then accrue_fee e c t n fee (sub_i128 n fee) (?s3 fee tk) = Inr s4
              else ?s3 fee tk = s4"
    and s': "publish (Tip c t f n) (extend_instance_ttl e s4) = s'"
    using assms unfolding tip_Inr_iff get_balance_view get_total_tips_view Let_def snd_conv by blast
  have fee: "fee = fee_of n ?bps" using f n by (simp add: fee_for_Inr_iff)
  have "governance s4 = governance s \<and> delegation s4 = delegation s \<and>
        st_events s4 = st_events s @ (if ?bps > 0 then [FeeCharged c n fee (sub_i128 n fee)] else [])"
  proof (cases "?bps > 0")
    case True
    then obtain s5 where "maybe_migrate_fee_balance e t (?s3 fee tk) = Inr s5"
      and "s4 = publish (FeeCharged c n fee (sub_i128 n fee)) (extend_ttl e (FeeBalanceToken t)
             (set_fee_balance_token e t (unwrap_or (st_fee_balance_token s5 t) 0 + fee) s5))"
      using acc unfolding accrue_fee_Inr_iff by auto
    moreover note fee_migration_governance [OF this(1)] fee_migration_frame(18) [OF this(1)]
    ultimately show ?thesis using True by (simp) (simp add: storage_defs)
  next
    case False
    then have "s4 = ?s3 fee tk" using acc by simp
    then show ?thesis using False by (simp) (simp add: storage_defs)
  qed
  then show "governance s' = governance s" "delegation s' = delegation s"
    "st_events s' = st_events s @ (if ?bps > 0
       then [FeeCharged c n (fee_of n ?bps) (sub_i128 n (fee_of n ?bps))] else []) @ [Tip c t f n]"
    by (simp_all add: s' [symmetric]) (auto simp: storage_defs fee)
qed

lemma withdraw_governance:
  assumes "withdraw tr e a c t d v s = Inr s'"
  shows "governance s' = governance s"
proof -
  obtain s2 n b tk where ch: "charge_operator e a c n (maybe_migrate_creator_data e c t s) = Inr s2"
    and s': "publish (Withdraw c t n (unwrap_or (st_payout_address (apply_matured_payout e c s2) c) c))
               (extend_instance_ttl e (extend_ttl e (Balance c t) (set_balance e c t (sub_i128 b n)
                 ((if st_payout_address (apply_matured_payout e c s2) c \<noteq> None
                   then extend_ttl e (PayoutAddress c) (apply_matured_payout e c s2)
                   else apply_matured_payout e c s2)\<lparr>st_tokens := tk\<rparr>)))) = s'"
    using assms unfolding withdraw_Inr_iff Let_def by blast
  obtain f g where "s2 = (maybe_migrate_creator_data e c t s)\<lparr>st_operator := f, st_ttl := g\<rparr>"
    by (rule charge_operator_shape [OF ch])
  then show ?thesis by (simp add: s' [symmetric])
qed

lemma withdraw_fees_governance:
  assumes "withdraw_fees tr e a t v s = Inr s'"
  shows "governance s' = governance s" "delegation s' = delegation s"
proof -
  obtain s1 n b tk where m: "maybe_migrate_fee_balance e t s = Inr s1"
    and s': "publish (FeeWithdraw a n) (extend_instance_ttl e
            (extend_ttl e (FeeBalanceToken t) (set_fee_balance_token e t (sub_i128 b n)
              (s1\<lparr>st_tokens := tk\<rparr>)))) = s'"
    using assms unfolding withdraw_fees_Inr_iff Let_def by blast
  show "governance s' = governance s" "delegation s' = delegation s"
    by (simp_all add: s' [symmetric] fee_migration_governance [OF m])
qed

lemma moving_governance:
  assumes "exec tr e k s = Inr s'" "movement_of k s \<noteq> Idle"
  shows "governance s' = governance s"
  using assms
  by (cases k)
    (auto simp only: exec.simps movement_of.simps legacy_wrapper_Inr_iff
      dest: tip_governance withdraw_governance withdraw_fees_governance)


lemmas idle_call_simps = result_simps pause_entrypoint_defs deposit_of_def storage_defs
  get_balance_view get_total_tips_view

section \<open>Who governs\<close>

text \<open>
  C9. The admin changes in two ways only: the first initialisation sets it, under the
  authorisation of the new admin, and afterwards only the candidate of a pending proposal becomes
  admin, by its own authorised call no later than the proposal's expiry ledger. No other call,
  whoever makes it, changes the admin.
\<close>

theorem admin_changes_only_by_acceptance:
  assumes "exec tr e k s = Inr s'" "st_admin s' \<noteq> st_admin s"
  shows "(\<exists>t a d. k = CInit t a d \<and> st_admin s = None \<and> st_admin s' = Some a \<and> authorized e a) \<or>
         (\<exists>n x. k = CAcceptAdmin n \<and> st_pending_admin s = Some (n, x) \<and> sequence e \<le> x \<and>
            authorized e n \<and> st_admin s' = Some n \<and> st_pending_admin s' = None)"
proof (cases "movement_of k s = Idle")
  case True
  then show ?thesis using assms
    by (cases k) (auto simp: idle_call_simps split: if_splits)
next
  case False
  then show ?thesis using moving_governance [OF assms(1)] assms(2) by (simp add: governance_def)
qed

theorem admin_changes_only_by_acceptance_witness:
  "\<exists>s1 s2. exec ledger_transfer (demo_env 200) (CProposeAdmin 2 6) demo_jar = Inr s1 \<and>
     exec ledger_transfer (demo_env 300) (CAcceptAdmin 6) s1 = Inr s2 \<and> st_admin s2 = Some 6 \<and>
     authorized (demo_env 300) 6"
proof -
  have "\<exists>s1 s2. exec ledger_transfer (demo_env 200) (CProposeAdmin 2 6) demo_jar = Inr s1 \<and>
     exec ledger_transfer (demo_env 300) (CAcceptAdmin 6) s1 = Inr s2 \<and> st_admin s1 = Some 2 \<and> st_admin s2 \<noteq> Some 2"
    by (simp add: result_simps storage_defs demo_env_def demo_values tipjar_constants)
  then obtain s1 s2 where p: "exec ledger_transfer (demo_env 200) (CProposeAdmin 2 6) demo_jar = Inr s1"
    and a: "exec ledger_transfer (demo_env 300) (CAcceptAdmin 6) s1 = Inr s2" and "st_admin s2 \<noteq> st_admin s1"
    by auto
  from admin_changes_only_by_acceptance [OF a this(3)] p a show ?thesis by auto
qed

text \<open>
  The fee collector likewise changes only when the pending candidate accepts in time under
  its own authorisation, and a candidate is named only by the admin.
\<close>

theorem fee_collector_changes_only_by_acceptance:
  assumes "exec tr e k s = Inr s'"
  shows "(st_fee_collector s' = st_fee_collector s \<or>
          (\<exists>n x. k = CAcceptFeeCollector n \<and> st_pending_fee_collector s = Some (n, x) \<and> sequence e \<le> x \<and>
             authorized e n \<and> st_fee_collector s' = Some n)) \<and>
         (st_pending_fee_collector s' = st_pending_fee_collector s \<or> st_pending_fee_collector s' = None \<or>
          (\<exists>a n. k = CProposeFeeCollector a n \<and> st_admin s = Some a \<and> authorized e a \<and>
             st_pending_fee_collector s = None \<and>
             st_pending_fee_collector s' = Some (n, sequence e + ADMIN_TRANSFER_EXPIRY_LEDGERS)))"
proof (cases "movement_of k s = Idle")
  case True
  then show ?thesis using assms
    by (cases k) (auto simp: idle_call_simps split: if_splits)
next
  case False
  then show ?thesis using moving_governance [OF assms(1)] by (simp add: governance_def)
qed

theorem fee_collector_changes_only_by_acceptance_witness:
  "\<exists>s1. exec ledger_transfer (demo_env 200) (CProposeFeeCollector 2 6) demo_jar = Inr s1 \<and>
     st_fee_collector s1 = None \<and> st_admin demo_jar = Some 2"
proof -
  have "\<exists>s1. exec ledger_transfer (demo_env 200) (CProposeFeeCollector 2 6) demo_jar = Inr s1"
    by (simp add: result_simps demo_env_def demo_values)
  then obtain s1 where p: "exec ledger_transfer (demo_env 200) (CProposeFeeCollector 2 6) demo_jar = Inr s1" ..
  from fee_collector_changes_only_by_acceptance [OF p] p show ?thesis by (auto simp: demo_values)
qed

section \<open>Upgrades\<close>

lemma exec_pending_upgrade:
  assumes "exec tr e k s = Inr s'" "\<And>a h. k \<noteq> CProposeUpgrade a h"
  shows "st_pending_upgrade s' = st_pending_upgrade s \<or> st_pending_upgrade s' = None"
proof (cases "movement_of k s = Idle")
  case True
  then show ?thesis using assms by (cases k) (auto simp: idle_call_simps split: if_splits)
next
  case False
  then show ?thesis using moving_governance [OF assms(1)] by (simp add: governance_def)
qed

lemma exec_wasm:
  assumes "exec tr e k s = Inr s'" "k \<noteq> CExecuteUpgrade"
  shows "st_wasm s' = st_wasm s"
proof (cases "movement_of k s = Idle")
  case True
  then show ?thesis using assms by (cases k) (auto simp: idle_call_simps split: if_splits)
next
  case False
  then show ?thesis using moving_governance [OF assms(1)] by (simp add: governance_def)
qed

definition proposes :: "call \<Rightarrow> bool" where
  "proposes k \<longleftrightarrow> (case k of CProposeUpgrade a h \<Rightarrow> True | _ \<Rightarrow> False)"

lemma run_pending_upgrade:
  assumes "run_calls tr r s = Inr s'" "list_all (\<lambda>(e, k). \<not> proposes k) r"
  shows "st_pending_upgrade s' = st_pending_upgrade s \<or> st_pending_upgrade s' = None"
  using assms
proof (induction r arbitrary: s)
  case (Cons p r)
  obtain e k where p: "p = (e, k)" by (cases p)
  obtain s1 where s1: "exec tr e k s = Inr s1" "run_calls tr r s1 = Inr s'"
    using Cons.prems(1) by (auto simp: p and_then_Inr_iff)
  have "st_pending_upgrade s1 = st_pending_upgrade s \<or> st_pending_upgrade s1 = None"
    using Cons.prems(2) by (intro exec_pending_upgrade [OF s1(1)]) (auto simp: p proposes_def)
  then show ?case using Cons.IH [OF s1(2)] Cons.prems(2) by (auto simp: p)
qed simp

text \<open>
  C10. The installed code changes only by \<open>execute_upgrade\<close>. If an upgrade proposed at one ledger
  is executed at a later point of the run, after any calls other than a new proposal, then the
  code installed is the proposed one, the admin had authorised the proposal, and the full timelock
  has elapsed, provided the unlock ledger was computed without wrapping around.
\<close>

theorem upgrade_waits_for_timelock:
  assumes "propose_upgrade e0 a h s = Inr s1" "st_upgrade_timelock s = Some d"
    and "unat (sequence e0) + unat d < 2 ^ 32"
    and "run_calls tr r s1 = Inr s2" "list_all (\<lambda>(e, k). \<not> proposes k) r"
    and "exec tr e k s2 = Inr s3" "st_wasm s3 \<noteq> st_wasm s2"
  shows "k = CExecuteUpgrade \<and> st_wasm s3 = h \<and> st_admin s = Some a \<and> authorized e0 a \<and>
         unat (sequence e0) + unat d \<le> unat (sequence e)"
proof -
  have k: "k = CExecuteUpgrade" using exec_wasm [OF assms(6)] assms(7) by blast
  obtain h' u where x: "st_pending_upgrade s2 = Some (h', u)" "u \<le> sequence e" "st_wasm s3 = h'"
    using assms(6) by (auto simp: k execute_upgrade_Inr_iff storage_defs)
  have p: "st_pending_upgrade s1 = Some (h, sequence e0 + d)" "st_admin s = Some a" "authorized e0 a"
    using assms(1,2) by (auto simp: propose_upgrade_Inr_iff storage_defs)
  have "h' = h" "u = sequence e0 + d"
    using run_pending_upgrade [OF assms(4,5)] p(1) x(1) by auto
  moreover have "unat (sequence e0 + d) = unat (sequence e0) + unat d"
    using assms(3) by (simp add: unat_word_ariths)
  ultimately show ?thesis using k p x by (simp add: word_le_nat_alt)
qed

theorem upgrade_waits_for_timelock_witness:
  "\<exists>s1 s3. propose_upgrade (demo_env 200) 2 7 demo_jar = Inr s1 \<and>
     exec ledger_transfer (demo_env 250) CExecuteUpgrade s1 = Inr s3 \<and> st_wasm s3 = 7 \<and>
     unat (200::u32) + unat (50::u32) \<le> unat (250::u32)"
proof -
  have "\<exists>s1 s3. propose_upgrade (demo_env 200) 2 7 demo_jar = Inr s1 \<and>
     exec ledger_transfer (demo_env 250) CExecuteUpgrade s1 = Inr s3 \<and> st_wasm s3 \<noteq> st_wasm s1"
    by (simp add: result_simps storage_defs demo_env_def demo_values)
  then obtain s1 s3 where p: "propose_upgrade (demo_env 200) 2 7 demo_jar = Inr s1"
    and x: "exec ledger_transfer (demo_env 250) CExecuteUpgrade s1 = Inr s3" "st_wasm s3 \<noteq> st_wasm s1" by blast
  have "run_calls ledger_transfer [] s1 = Inr s1" by simp
  from upgrade_waits_for_timelock [OF p demo_values(22) _ this _ x] p x(1) show ?thesis
    by (auto simp: demo_env_def)
qed

text \<open>
  The timelock is not bounded at initialisation, and the unlock ledger is computed with
  32-bit wrap-around: a jar initialised with the largest timelock lets the admin install new code
  in the very ledger of the proposal.
\<close>

theorem timelock_wraps_around:
  "\<exists>s1 s2 s3. init (demo_env 100) 10 2 (- 1) (fresh_jar demo_ledger 0) = Inr s1 \<and>
     propose_upgrade (demo_env 100) 2 7 s1 = Inr s2 \<and>
     execute_upgrade (demo_env 100) s2 = Inr s3 \<and> st_wasm s3 = 7 \<and> st_wasm s1 = 0"
  by (simp add: result_simps storage_defs demo_env_def fresh_jar_def)


section \<open>The circuit breaker\<close>

text \<open>
  C13. While the pause of tips is in force every authorised tip is refused with
  \<open>TipsPaused\<close>, and while the pause of withdrawals is in force every authorised withdrawal and
  every authorised change of a payout address or an operator is refused with
  \<open>WithdrawalsPaused\<close>, whatever the arguments and the rest of the storage.
\<close>

theorem paused_calls_are_refused:
  assumes "authorized e a"
  shows "(pause_flags e s AND PAUSE_FLAG_TIPS \<noteq> 0 \<longrightarrow> tip tr e a c t n s = fail TipsPaused) \<and>
    (pause_flags e s AND PAUSE_FLAG_WITHDRAWALS \<noteq> 0 \<longrightarrow>
       withdraw tr e a c t d v s = fail WithdrawalsPaused \<and>
       set_payout_address e a p s = fail WithdrawalsPaused \<and>
       cancel_payout_address e a s = fail WithdrawalsPaused \<and>
       authorize_operator e a opr al x s = fail WithdrawalsPaused \<and>
       revoke_operator e a opr s = fail WithdrawalsPaused)"
  using assms
  by (simp add: tip_def withdraw_def set_payout_address_def cancel_payout_address_def
      authorize_operator_def revoke_operator_def check_not_paused_def pause_flags_def
      PAUSE_FLAG_TIPS_def PAUSE_FLAG_WITHDRAWALS_def)

theorem paused_calls_are_refused_witness:
  "\<exists>s1. pause_all (demo_env 200) 2 demo_jar = Inr s1 \<and>
     tip ledger_transfer (demo_env 201) 5 3 10 1 s1 = fail TipsPaused \<and>
     withdraw ledger_transfer (demo_env 201) 5 3 10 3 None s1 = fail WithdrawalsPaused"
proof -
  obtain s1 where s1: "pause_all (demo_env 200) 2 demo_jar = Inr s1" "pause_flags (demo_env 201) s1 = 3"
    by (simp add: pause_all_def pause_internal_Inr_iff storage_defs demo_env_def demo_values pause_flags_def
        effective_pause_flags_def pause_state_of_def default_pause_def tipjar_constants)
  have "authorized (demo_env 201) 5" by (simp add: demo_env_def)
  from paused_calls_are_refused [OF this, of s1] s1 show ?thesis by (simp add: tipjar_constants)
qed

text \<open>
  A feature the admin has paused stays paused, at every ledger, through every call except an
  authorised unpause by the admin itself: nobody else can lift it and it never expires.
\<close>

theorem admin_pause_lasts_until_admin_unpauses:
  assumes "exec tr e k s = Inr s'" "admin_flags (pause_state_of s) AND f = f"
  shows "admin_flags (pause_state_of s') AND f = f \<and> pause_flags e' s' AND f = f \<or>
         (\<exists>a. (k = CUnpauseTips a \<or> k = CUnpauseWithdrawals a \<or> k = CUnpauseAll a) \<and>
              st_admin s = Some a \<and> authorized e a)"
proof -
  have "admin_flags (pause_state_of s') AND f = f \<or>
         (\<exists>a. (k = CUnpauseTips a \<or> k = CUnpauseWithdrawals a \<or> k = CUnpauseAll a) \<and>
              st_admin s = Some a \<and> authorized e a)"
  proof (cases "movement_of k s = Idle")
    case True
    have or: "(x OR g) AND f = f" if "x AND f = f" for x g :: u32
      using that by (auto simp: bit_eq_iff bit_simps)
    show ?thesis
    proof (cases "st_pause s' = st_pause s")
      case False
      then show ?thesis using assms True
        by (cases k) (auto simp: idle_call_simps pause_state_of_def or unwrap_or_def split: if_splits option.splits)
    qed (use assms(2) in \<open>simp add: pause_state_of_def\<close>)
  next
    case False
    then show ?thesis using moving_governance [OF assms(1)] assms(2)
      by (simp add: governance_def pause_state_of_def)
  qed
  moreover have "pause_flags e' s' AND f = f" if "admin_flags (pause_state_of s') AND f = f"
    using that by (auto simp: pause_flags_def effective_pause_flags_def bit_eq_iff bit_simps)
  ultimately show ?thesis by blast
qed

theorem admin_pause_lasts_until_admin_unpauses_witness:
  "\<exists>s1 s2. pause_tips (demo_env 200) 2 demo_jar = Inr s1 \<and>
     exec ledger_transfer (demo_env 201) (CPauseWithdrawals 2) s1 = Inr s2 \<and>
     pause_flags (demo_env 90000) s2 AND 1 = 1"
proof -
  have "\<exists>s1 s2. pause_tips (demo_env 200) 2 demo_jar = Inr s1 \<and> admin_flags (pause_state_of s1) AND 1 = 1 \<and>
     exec ledger_transfer (demo_env 201) (CPauseWithdrawals 2) s1 = Inr s2"
    by (simp add: pause_entrypoint_defs pause_internal_Inr_iff storage_defs demo_env_def demo_values
        pause_state_of_def default_pause_def tipjar_constants)
  then obtain s1 s2 where p: "pause_tips (demo_env 200) 2 demo_jar = Inr s1"
    and f: "admin_flags (pause_state_of s1) AND 1 = 1"
    and x: "exec ledger_transfer (demo_env 201) (CPauseWithdrawals 2) s1 = Inr s2" by blast
  from admin_pause_lasts_until_admin_unpauses [OF x f, of "demo_env 90000"] p x show ?thesis by auto
qed

text \<open>
  C14. A pause by the guardian is temporary: as long as the pause entry is not written again, the
  paused features are blocked up to, and not including, the ledger that lies the configured
  duration ahead, and from that ledger on exactly the admin's own flags count, provided the
  expiry ledger was computed without wrapping around.
\<close>

theorem guardian_pause_is_temporary:
  assumes "pause_internal e g f s = Inr s'" "st_admin s \<noteq> Some g" "st_pause s2 = st_pause s'"
    and "unat (sequence e) + unat (guardian_pause_duration s) < 2 ^ 32"
  shows "(unat (sequence e2) < unat (sequence e) + unat (guardian_pause_duration s) \<longrightarrow>
            pause_flags e2 s2 AND f = f) \<and>
         (unat (sequence e) + unat (guardian_pause_duration s) \<le> unat (sequence e2) \<longrightarrow>
            pause_flags e2 s2 = admin_flags (pause_state_of s))"
proof -
  let ?x = "sequence e + guardian_pause_duration s"
  have x: "unat ?x = unat (sequence e) + unat (guardian_pause_duration s)"
    using assms(4) by (simp add: unat_word_ariths)
  have "pause_state_of s2 = (pause_state_of s)\<lparr>guardian_flags := guardian_flags (pause_state_of s) OR f,
               guardian_expiry := ?x\<rparr>"
    using assms(1-3) by (auto simp: pause_internal_Inr_iff storage_defs pause_state_of_def)
  then show ?thesis
    by (auto simp: pause_flags_def effective_pause_flags_def word_less_nat_alt x or_eq_0_iff
          bit_eq_iff bit_simps)
qed

theorem guardian_pause_is_temporary_witness:
  "\<exists>s1 s2. set_guardian (demo_env 100) 2 6 demo_jar = Inr s1 \<and>
     pause_internal (demo_env 200) 6 PAUSE_FLAG_TIPS s1 = Inr s2 \<and>
     pause_flags (demo_env 17479) s2 AND PAUSE_FLAG_TIPS = PAUSE_FLAG_TIPS \<and>
     pause_flags (demo_env 17480) s2 = 0"
proof -
  have "\<exists>s1 s2. set_guardian (demo_env 100) 2 6 demo_jar = Inr s1 \<and>
     pause_internal (demo_env 200) 6 PAUSE_FLAG_TIPS s1 = Inr s2 \<and> st_admin s1 = Some 2 \<and>
     guardian_pause_duration s1 = 17280 \<and> admin_flags (pause_state_of s1) = 0"
    by (simp add: result_simps storage_defs demo_env_def demo_values
        pause_state_of_def default_pause_def guardian_pause_duration_def tipjar_constants)
  then obtain s1 s2 where g: "set_guardian (demo_env 100) 2 6 demo_jar = Inr s1"
    and p: "pause_internal (demo_env 200) 6 PAUSE_FLAG_TIPS s1 = Inr s2"
    and d: "st_admin s1 = Some 2" "guardian_pause_duration s1 = 17280" "admin_flags (pause_state_of s1) = 0" by blast
  have r: "unat (sequence (demo_env 200)) + unat (guardian_pause_duration s1) < 2 ^ 32" "st_admin s1 \<noteq> Some 6"
    using d by (simp_all add: demo_env_def)
  note t = guardian_pause_is_temporary [OF p r(2) refl r(1)]
  show ?thesis using t [of "demo_env 17479"] t [of "demo_env 17480"] g p d by (auto simp: demo_env_def)
qed

text \<open>
  A guardian's pause revives what had expired: the flags of an earlier pause are kept, and
  the new expiry ledger applies to all of them. Here the guardian pauses tips, the pause expires
  and tips flow again; then it pauses withdrawals only, and tips are blocked once more.
\<close>

theorem guardian_pause_revives_expired_flags:
  "\<exists>s1 s2 s3. set_guardian (demo_env 100) 2 6 demo_jar = Inr s1 \<and>
     pause_tips (demo_env 200) 6 s1 = Inr s2 \<and> pause_flags (demo_env 20000) s2 = 0 \<and>
     pause_withdrawals (demo_env 20000) 6 s2 = Inr s3 \<and>
     tip ledger_transfer (demo_env 20001) 5 3 10 1 s3 = fail TipsPaused"
proof -
  let ?p1 = "default_pause\<lparr>guardian_flags := 1, guardian_expiry := 17480\<rparr>"
  let ?p2 = "?p1\<lparr>guardian_flags := 3, guardian_expiry := 37280\<rparr>"
  obtain s1 where s1: "set_guardian (demo_env 100) 2 6 demo_jar = Inr s1" "st_guardian s1 = Some 6"
    "st_admin s1 = Some 2" "st_pause s1 = None" "st_guardian_pause_duration s1 = None"
    by (simp add: set_guardian_Inr_iff demo_env_def demo_values storage_defs)
  obtain s2 where s2: "pause_tips (demo_env 200) 6 s1 = Inr s2" "st_guardian s2 = Some 6"
    "st_admin s2 = Some 2" "st_pause s2 = Some ?p1" "st_guardian_pause_duration s2 = None"
    using s1 by (simp add: pause_tips_def pause_internal_Inr_iff demo_env_def storage_defs
        pause_state_of_def guardian_pause_duration_def tipjar_constants default_pause_def)
  obtain s3 where s3: "pause_withdrawals (demo_env 20000) 6 s2 = Inr s3" "st_pause s3 = Some ?p2"
    using s2 by (simp add: pause_withdrawals_def pause_internal_Inr_iff demo_env_def storage_defs
        guardian_pause_duration_def tipjar_constants default_pause_def)
  have "pause_flags (demo_env 20000) s2 = 0"
    using s2(4) by (simp add: pause_flags_def effective_pause_flags_def default_pause_def demo_env_def)
  moreover have "tip ledger_transfer (demo_env 20001) 5 3 10 1 s3 = fail TipsPaused"
    using s3(2) by (simp add: tip_def check_not_paused_def effective_pause_flags_def default_pause_def
        demo_env_def tipjar_constants)
  ultimately show ?thesis using s1(1) s2(1) s3(1) by blast
qed

end
