(* ===== verification/Tipjar_Money.thy ===== *)
theory Tipjar_Money
  imports Tipjar_Properties
begin

unbundle bit_operations_syntax

text \<open>
  The properties of the tip jar that concern money: solvency, the bounds of the accounts, the
  effect of every call on the books, when tips and withdrawals go through, allowances of
  operators, payout addresses, fees and the migration of legacy entries.
\<close>

section \<open>Solvency and accounts\<close>

text \<open>
  C1. On every token that keeps the SEP-41 contract, a jar that starts empty owns, after any
  sequence of successful calls and of transfers by third parties, at least as much of every token
  as it owes to creators and to the fee collector together.
\<close>

theorem jar_stays_solvent:
  assumes "sep41 transfer holding ledger_ok" "ledger_ok tk" "\<forall>t. 0 \<le> holding tk t me"
    and "jar_reach transfer me (fresh_jar tk code) s"
  shows "liabilities (books_of s) t \<le> holding (st_tokens s) t me"
proof -
  have "liabilities (books_of (fresh_jar tk code)) t = 0" for t
    by (simp add: fresh_books liabilities_def)
  moreover have tok: "st_tokens (fresh_jar tk code) = tk" by (simp add: fresh_jar_def)
  ultimately have "solvent holding me (fresh_jar tk code)"
    using assms(3) by (simp add: solvent_def)
  then show ?thesis
    using sep41.reach_solvent [OF assms(1,4) fresh_inv] assms(2) tok by (simp add: solvent_def)
qed

theorem jar_stays_solvent_witness:
  "liabilities (books_of demo_jar) 10 \<le> ledger_holding (st_tokens demo_jar) 10 8 \<and>
   ledger_holding (st_tokens demo_jar) 10 8 = 300"
  using jar_stays_solvent [OF ledger.sep41_axioms demo_ledger_ok(1) _ demo_reach, of 10] demo_ledger_ok(2)
  by (simp add: demo_values)

text \<open>
  C2. Whatever the token contracts do, also when they break the SEP-41 contract, every reachable
  state has every creator's balance between zero and what the creator was ever tipped, no total
  above the largest 128-bit integer, no negative fee account, a fee rate of at most ten per cent
  and an allowlist without duplicates of at most fifty tokens.
\<close>

theorem accounts_stay_bounded:
  assumes "jar_reach transfer me (fresh_jar tk code) s"
  shows "0 \<le> balance_of s c t \<and> balance_of s c t \<le> total_of s c t \<and> total_of s c t \<le> I128_MAX \<and>
         0 \<le> fees_of s t \<and> unwrap_or (st_fee_bps s) 0 \<le> MAX_FEE_BPS \<and>
         distinct (allowlist s) \<and> length (allowlist s) \<le> MAX_ALLOWED_TOKENS"
proof -
  have i: "jar_inv s" using reach_inv [OF assms fresh_inv] .
  show ?thesis
    using books_okD(1-3) [OF jar_invD(1) [OF i], of c t] books_okD(4) [OF jar_invD(1) [OF i], of t]
      jar_invD(2) [OF i] by (simp add: config_ok_def)
qed

theorem accounts_stay_bounded_witness:
  "jar_reach ledger_transfer 8 (fresh_jar demo_ledger 0) demo_jar \<and>
   0 \<le> balance_of demo_jar 3 10 \<and> balance_of demo_jar 3 10 \<le> total_of demo_jar 3 10"
  using accounts_stay_bounded [OF demo_reach, of 3 10] demo_reach by simp

text \<open>
  C3. The storage of the contract refines the abstract books: every successful call is exactly
  the movement of money that its arguments name, a tip, a payout, a fee payout or nothing. The
  movement is covered by the books, the books change by it and by nothing else, and the token
  ledger changes by the one transfer that belongs to it.
\<close>

theorem calls_refine_book_movements:
  assumes "jar_inv s" "exec tr e k s = Inr s'"
  shows "move_ok (movement_of k s) (books_of s) \<and>
         books_of s' = book_move (movement_of k s) (books_of s) \<and>
         token_move tr (contract_address e) (movement_of k s) (st_tokens s) = Some (st_tokens s') \<and>
         jar_inv s'"
  using exec_refines [OF assms(2,1)] exec_tokens [OF assms(2,1)] exec_inv [OF assms(2,1)] by simp

lemma demo_withdraw:
  "\<exists>s'. exec ledger_transfer (demo_env 104) (CWithdraw 3 3 10 3 (Some 98)) demo_jar = Inr s'"
proof -
  have "effective_payout (demo_env 104) 3 demo_jar = 3"
    by (simp add: effective_payout_def demo_values)
  moreover have "ledger_nonneg (st_tokens demo_jar) \<and> solvent ledger_holding 8 demo_jar"
    using ledger.reach_solvent [OF demo_reach fresh_inv] demo_ledger_ok
    by (simp add: fresh_jar_def solvent_def liabilities_def view_defs books_of_def)
  ultimately show ?thesis
    using ledger.withdraw_goes_through [OF demo_inv, of "demo_env 104" 3 "Some 98" 10]
    by (simp add: demo_values demo_env_def pause_flags_def effective_pause_flags_def
        pause_state_of_def default_pause_def)
qed

theorem calls_refine_book_movements_witness:
  "\<exists>s'. exec ledger_transfer (demo_env 104) (CWithdraw 3 3 10 3 (Some 98)) demo_jar = Inr s' \<and>
        balance_of s' 3 10 = 100 \<and> total_of s' 3 10 = 200 \<and> balance_of s' 4 10 = 99"
proof -
  obtain s' where s': "exec ledger_transfer (demo_env 104) (CWithdraw 3 3 10 3 (Some 98)) demo_jar = Inr s'"
    using demo_withdraw by blast
  have b: "books_of s' = book_withdraw 3 10 98 (books_of demo_jar)"
    using calls_refine_book_movements [OF demo_inv s'] by simp
  have "bk_balance (books_of s') (3, 10) = 100" "bk_total (books_of s') (3, 10) = 200"
    "bk_balance (books_of s') (4, 10) = 99"
    by (simp_all add: b book_withdraw_def demo_values)
  then show ?thesis using s' by auto
qed

text \<open>
  What a creator was ever tipped never decreases: no call and no transfer of a third party
  lowers a total, whatever happens to the balance.
\<close>

theorem totals_never_decrease:
  assumes "jar_inv s" "jar_reach tr me s s'"
  shows "total_of s c t \<le> total_of s' c t"
  using assms(2)
proof (induction rule: jar_reach.induct)
  case (step s1 s2)
  have inv: "jar_inv s1" using reach_inv [OF step(1) assms(1)] .
  from step(2) have "total_of s1 c t \<le> total_of s2 c t"
  proof cases
    case (call e k)
    have "bk_total b (c, t) \<le> bk_total (book_move m b) (c, t)" if "move_ok m b" for m b
      using that by (cases m) (auto simp: book_tip_def book_withdraw_def book_withdraw_fees_def)
    then show ?thesis using exec_refines [OF call(1) inv] books_of_sel(2) by metis
  next
    case third_party
    then show ?thesis by (simp add: total_of_def cong: option.case_cong)
  qed
  then show ?case using step(3) by simp
qed simp

theorem totals_never_decrease_witness:
  "jar_inv (fresh_jar demo_ledger 0) \<and> total_of (fresh_jar demo_ledger 0) 3 10 \<le> total_of demo_jar 3 10"
  using totals_never_decrease [OF fresh_inv demo_reach, of 3 10] fresh_inv by simp


section \<open>Tips\<close>

lemma accrue_fee_ok_iff:
  assumes "0 \<le> fees_of s t" "0 \<le> fee"
  shows "is_ok (accrue_fee e c t n fee net s) \<longleftrightarrow> fees_of s t + fee \<le> I128_MAX"
proof
  assume "is_ok (accrue_fee e c t n fee net s)"
  then obtain s1 where m: "maybe_migrate_fee_balance e t s = Inr s1"
    and "in_i128 (unwrap_or (st_fee_balance_token s1 t) 0 + fee)"
    unfolding is_ok_iff accrue_fee_Inr_iff by blast
  moreover have "fees_of s1 t = fees_of s t"
    using fee_migration_books [OF m] books_of_sel(3) by metis
  ultimately show "fees_of s t + fee \<le> I128_MAX"
    using fee_migration_clears [OF m] by (simp add: in_i128_def)
next
  assume le: "fees_of s t + fee \<le> I128_MAX"
  have fits: "in_i128 (fees_of s t)" "in_i128 (fees_of s t + fee)"
    using le assms by (simp_all add: in_i128_nonneg)
  have "\<exists>s1. maybe_migrate_fee_balance e t s = Inr s1"
    using fits(1) by (auto simp: maybe_migrate_fee_balance_def checked_add_i128_def fees_of_def Let_def split: option.split)
  then obtain s1 where m: "maybe_migrate_fee_balance e t s = Inr s1" ..
  have "fees_of s1 t = fees_of s t"
    using fee_migration_books [OF m] books_of_sel(3) by metis
  then show "is_ok (accrue_fee e c t n fee net s)"
    using fits(2) fee_migration_clears [OF m] m unfolding is_ok_iff accrue_fee_Inr_iff by metis
qed

lemma tip_ok_iff:
  assumes "jar_inv s"
  shows "is_ok (tip tr e f c t n s) \<longleftrightarrow>
    authorized e f \<and> pause_flags e s AND PAUSE_FLAG_TIPS = 0 \<and> 0 < n \<and> st_admin s \<noteq> None \<and>
    t \<in> set (allowlist s) \<and> tr (st_tokens s) t f (contract_address e) n \<noteq> None \<and>
    total_of s c t + n \<le> I128_MAX \<and>
    (let bps = unwrap_or (st_fee_bps s) 0 in
     bps = 0 \<or> n * uint bps \<le> I128_MAX \<and> fees_of s t + n * uint bps div 10000 \<le> I128_MAX)"
    (is "?L \<longleftrightarrow> ?R")
proof -
  note inv = jar_invD [OF assms]
  let ?bps = "unwrap_or (st_fee_bps s) 0"
  let ?fee = "fee_of n ?bps"
  let ?s3 = "\<lambda>tk. extend_ttl e (Total c t) (extend_ttl e (Balance c t)
               (set_total e c t (total_of s c t + n)
                 (set_balance e c t (balance_of s c t + sub_i128 n ?fee)
                   ((maybe_migrate_creator_data e c t s)\<lparr>st_tokens := tk\<rparr>))))"
  have acc: "is_ok (accrue_fee e c t n ?fee net (?s3 tk)) \<longleftrightarrow> fees_of s t + ?fee \<le> I128_MAX"
    if "0 < n" for net tk
  proof -
    have "fees_of (?s3 tk) t = fees_of s t"
      using migrate_views(3) [of e c t s t] by (simp add: fees_of_def storage_defs)
    then show ?thesis
      using books_okD(4) [OF inv(1), of t] fee_of_bounds(1) [OF _ inv(5), of n] that
      by (subst accrue_fee_ok_iff) simp_all
  qed
  have bal: "in_i128 (balance_of s c t + sub_i128 n ?fee)" if "0 < n" "total_of s c t + n \<le> I128_MAX"
  proof -
    have b: "0 \<le> balance_of s c t" "balance_of s c t \<le> total_of s c t"
      using books_okD(1,2) [OF inv(1), of c t] by simp_all
    then have "in_i128 n" using that by (simp add: in_i128_nonneg)
    then show ?thesis
      using b that net_exact [OF _ _ inv(5)] fee_of_bounds(1,2) [OF _ inv(5), of n] by (simp add: in_i128_nonneg)
  qed
  have tot: "in_i128 (total_of s c t + n) \<longleftrightarrow> total_of s c t + n \<le> I128_MAX" if "0 < n"
    using books_okD(5) [OF inv(1), of c t] that by (simp add: in_i128_nonneg)
  have prod: "in_i128 (n * uint ?bps) \<longleftrightarrow> n * uint ?bps \<le> I128_MAX" if "0 < n"
    using that by (simp add: in_i128_nonneg)
  have "?L \<longleftrightarrow> authorized e f \<and> pause_flags e s AND PAUSE_FLAG_TIPS = 0 \<and> 0 < n \<and> st_admin s \<noteq> None \<and>
    t \<in> set (allowlist s) \<and>
    (\<exists>tk. (?bps = 0 \<or> in_i128 (n * uint ?bps)) \<and> tr (st_tokens s) t f (contract_address e) n = Some tk \<and>
      in_i128 (balance_of s c t + sub_i128 n ?fee) \<and> in_i128 (total_of s c t + n) \<and>
      (0 < ?bps \<longrightarrow> is_ok (accrue_fee e c t n ?fee (sub_i128 n ?fee) (?s3 tk))))"
    unfolding is_ok_iff tip_Inr_iff get_balance_view get_total_tips_view Let_def snd_conv allowlist_def
    by (cases "0 < ?bps") (auto simp: fee_for_Inr_iff not_le)
  also have "\<dots> \<longleftrightarrow> ?R"
    using acc bal tot prod by (auto simp: Let_def fee_of_def word_gt_0)
  finally show ?thesis .
qed

lemma demo_tips: "is_ok (tip ledger_transfer (demo_env 104) 5 3 10 250 demo_jar)"
proof -
  have "ledger_transfer (st_tokens demo_jar) 10 5 8 250 \<noteq> None"
    using demo_values(7) by (simp add: ledger_transfer_def ledger_holding_def Let_def)
  then show ?thesis
    unfolding tip_ok_iff [OF demo_inv]
    by (simp add: demo_unpaused demo_values allowlist_def I128_MAX_def) (simp add: demo_env_def)
qed

text \<open>
  C4. A tip that returns moves the gross amount from the sender to the jar, credits the creator
  with the amount less the fee, raises the creator's total by the gross amount and the fee
  account by the fee, the fee being the amount times the rate divided by ten thousand, rounded
  down. No other account, no operator, payout address or setting changes, and the last event is
  the tip.
\<close>

theorem tip_effect:
  assumes "jar_inv s" "tip tr e f c t n s = Inr s'"
  defines "fee \<equiv> n * uint (unwrap_or (st_fee_bps s) 0) div 10000"
  shows "tr (st_tokens s) t f (contract_address e) n = Some (st_tokens s') \<and>
    balance_of s' c t = balance_of s c t + n - fee \<and> total_of s' c t = total_of s c t + n \<and>
    fees_of s' t = fees_of s t + fee \<and> 0 \<le> fee \<and> 10 * fee \<le> n \<and>
    (\<forall>c' t'. (c', t') \<noteq> (c, t) \<longrightarrow> balance_of s' c' t' = balance_of s c' t' \<and> total_of s' c' t' = total_of s c' t') \<and>
    (\<forall>t'. t' \<noteq> t \<longrightarrow> fees_of s' t' = fees_of s t') \<and>
    governance s' = governance s \<and> delegation s' = delegation s \<and> last (st_events s') = Tip c t f n"
proof -
  note inv = jar_invD [OF assms(1)]
  have "0 < n" using assms(2) unfolding tip_Inr_iff by auto
  then have fee: "0 \<le> fee" "10 * fee \<le> n"
    using fee_of_bounds(1,3) [OF _ inv(5), of n] by (simp_all add: fee_def fee_of_def)
  have b: "books_of s' = book_tip c t n fee (books_of s)"
    using tip_books [OF assms(2) inv(1,5)] by (simp add: fee_def fee_of_def)
  have v: "balance_of s' c' t' = bk_balance (book_tip c t n fee (books_of s)) (c', t')"
    "total_of s' c' t' = bk_total (book_tip c t n fee (books_of s)) (c', t')"
    "fees_of s' t' = bk_fees (book_tip c t n fee (books_of s)) t'" for c' t'
    by (simp_all flip: b)
  show ?thesis
    using fee tip_frame(6) [OF assms(2)] tip_governance [OF assms(2)]
    by (auto simp: v book_tip_def)
qed

theorem tip_effect_witness:
  "\<exists>s'. tip ledger_transfer (demo_env 104) 5 3 10 250 demo_jar = Inr s' \<and>
        balance_of s' 3 10 = 446 \<and> total_of s' 3 10 = 450 \<and> fees_of s' 10 = 5"
proof -
  obtain s' where s': "tip ledger_transfer (demo_env 104) 5 3 10 250 demo_jar = Inr s'"
    using demo_tips by (auto simp: is_ok_iff)
  show ?thesis using tip_effect [OF demo_inv s'] s' by (simp add: demo_values)
qed

lemma tip_funded_iff:
  assumes "sep41_live tr holding ledger_ok" "ledger_ok tk" "src \<noteq> dst" "0 \<le> n"
  shows "tr tk t src dst n \<noteq> None \<longleftrightarrow> n \<le> holding tk t src"
proof -
  have s: "sep41 tr holding ledger_ok" using assms(1) by (simp add: sep41_live_def)
  show ?thesis
    using sep41.transfer_funded [OF s assms(2) _ assms(3,4)]
      sep41_live.transfer_pays [OF assms(1-4)] by auto
qed

text \<open>
  C5. When a tip returns. On a token that honours funded transfers, a tip returns exactly if the
  sender has authorised it, tips are not paused, the amount is positive, the contract is
  initialised, the token is on the allowlist, the sender owns the amount, and neither the
  creator's total, nor the product of amount and fee rate, nor the fee account leaves the 128-bit
  range (the balance cannot overflow before the total does).
\<close>

theorem tip_returns_iff:
  assumes "sep41_live tr holding ledger_ok" "ledger_ok (st_tokens s)" "jar_inv s" "f \<noteq> contract_address e"
  shows "is_ok (tip tr e f c t n s) \<longleftrightarrow>
    authorized e f \<and> pause_flags e s AND PAUSE_FLAG_TIPS = 0 \<and> 0 < n \<and> st_admin s \<noteq> None \<and>
    t \<in> set (allowlist s) \<and> n \<le> holding (st_tokens s) t f \<and> total_of s c t + n \<le> I128_MAX \<and>
    (let bps = unwrap_or (st_fee_bps s) 0 in
     bps = 0 \<or> n * uint bps \<le> I128_MAX \<and> fees_of s t + n * uint bps div 10000 \<le> I128_MAX)"
    (is "_ \<longleftrightarrow> ?R")
proof -
  have "0 < n \<Longrightarrow> tr (st_tokens s) t f (contract_address e) n \<noteq> None \<longleftrightarrow> n \<le> holding (st_tokens s) t f"
    using tip_funded_iff [OF assms(1,2,4), of n t] by simp
  then show ?thesis unfolding tip_ok_iff [OF assms(3)] by blast
qed

theorem tip_returns_iff_witness:
  "is_ok (tip ledger_transfer (demo_env 104) 5 3 10 700 demo_jar) \<and>
   \<not> is_ok (tip ledger_transfer (demo_env 104) 5 3 10 701 demo_jar)"
proof -
  have l: "ledger_nonneg (st_tokens demo_jar)"
    using ledger.reach_solvent [OF demo_reach fresh_inv] demo_ledger_ok
    by (simp add: fresh_jar_def solvent_def liabilities_def view_defs books_of_def)
  have "5 \<noteq> contract_address (demo_env 104)" by (simp add: demo_env_def)
  note r = tip_returns_iff [OF ledger.sep41_live_axioms l demo_inv this]
  show ?thesis
    unfolding r by (simp add: demo_values demo_env_def pause_flags_def effective_pause_flags_def
        pause_state_of_def default_pause_def allowlist_def I128_MAX_def)
qed


section \<open>Withdrawals and operators\<close>

definition op_typed :: "'tk jar \<Rightarrow> address \<Rightarrow> address \<Rightarrow> bool" where
  "op_typed s c a \<longleftrightarrow> (\<forall>al x. st_operator s (c, a) = Some (al, x) \<longrightarrow> in_i128 al)"

lemma withdraw_operator:
  assumes "withdraw tr e a c t d v s = Inr s'" "op_typed s c a"
  defines "n \<equiv> unwrap_or v (balance_of s c t)"
  shows "a = c \<and> st_operator s' = st_operator s \<or>
    (\<exists>al x. st_operator s (c, a) = Some (al, x) \<and> sequence e \<le> x \<and> 0 < n \<and> n \<le> al \<and>
       st_operator s' = (st_operator s)((c, a) := if al = n then None else Some (al - n, x)))"
proof -
  obtain s2 b tk where pos: "\<not> n \<le> 0"
    and ch: "charge_operator e a c n (maybe_migrate_creator_data e c t s) = Inr s2"
    and s': "publish (Withdraw c t n (unwrap_or (st_payout_address (apply_matured_payout e c s2) c) c))
               (extend_instance_ttl e (extend_ttl e (Balance c t) (set_balance e c t (sub_i128 b n)
                 ((if st_payout_address (apply_matured_payout e c s2) c \<noteq> None
                   then extend_ttl e (PayoutAddress c) (apply_matured_payout e c s2)
                   else apply_matured_payout e c s2)\<lparr>st_tokens := tk\<rparr>)))) = s'"
    using assms(1) unfolding withdraw_Inr_iff get_balance_view snd_conv Let_def n_def by blast
  have op: "st_operator s' = st_operator s2"
    by (simp add: s' [symmetric] storage_defs)
  show ?thesis
  proof (cases "a = c")
    case True
    then have "s2 = maybe_migrate_creator_data e c t s" using ch by (simp add: charge_operator_def)
    then show ?thesis using True op by simp
  next
    case False
    then obtain al x where st: "st_operator s (c, a) = Some (al, x)" "sequence e \<le> x" "n \<le> al"
      and s2: "s2 = (if sub_i128 al n = 0 then remove_operator c a (maybe_migrate_creator_data e c t s)
              else extend_ttl e (Operator c a)
                     (set_operator e c a (sub_i128 al n, x) (maybe_migrate_creator_data e c t s)))"
      using ch unfolding charge_operator_Inr_iff by auto
    have "sub_i128 al n = al - n"
      using st pos assms(2) by (intro sub_i128_shrink) (auto simp: op_typed_def)
    then have "st_operator s2 = (st_operator s)((c, a) := if al = n then None else Some (al - n, x))"
      by (simp add: s2 storage_defs)
    then show ?thesis using st pos op by auto
  qed
qed

text \<open>
  C6. A withdrawal that returns was authorised by its caller, who is the creator or one of the
  creator's operators with an unexpired allowance that covers the amount and is charged for it.
  The jar pays exactly that amount to the creator's payout address, the creator's balance falls
  by it, and no other account, no other allowance and no setting changes.
\<close>

theorem withdraw_pays_the_creator:
  assumes "jar_inv s" "op_typed s c a" "withdraw tr e a c t d v s = Inr s'"
  defines "n \<equiv> unwrap_or v (balance_of s c t)"
  shows "authorized e a \<and> 0 < n \<and> n \<le> balance_of s c t \<and> d = effective_payout e c s \<and>
    tr (st_tokens s) t (contract_address e) d n = Some (st_tokens s') \<and>
    balance_of s' c t = balance_of s c t - n \<and>
    (\<forall>c' t'. (c', t') \<noteq> (c, t) \<longrightarrow> balance_of s' c' t' = balance_of s c' t') \<and>
    (\<forall>c' t'. total_of s' c' t' = total_of s c' t') \<and> (\<forall>t'. fees_of s' t' = fees_of s t') \<and>
    (a = c \<and> st_operator s' = st_operator s \<or>
     (\<exists>al x. st_operator s (c, a) = Some (al, x) \<and> sequence e \<le> x \<and> n \<le> al \<and>
        st_operator s' = (st_operator s)((c, a) := if al = n then None else Some (al - n, x)))) \<and>
    governance s' = governance s"
proof -
  note w = withdraw_effect [OF assms(3) jar_invD(1) [OF assms(1)], folded n_def]
  have v: "balance_of s' c' t' = bk_balance (book_withdraw c t n (books_of s)) (c', t')"
    "total_of s' c' t' = bk_total (book_withdraw c t n (books_of s)) (c', t')"
    "fees_of s' t' = bk_fees (book_withdraw c t n (books_of s)) t'" for c' t'
    by (simp_all flip: w(7))
  have o: "a = c \<and> st_operator s' = st_operator s \<or>
     (\<exists>al x. st_operator s (c, a) = Some (al, x) \<and> sequence e \<le> x \<and> n \<le> al \<and>
        st_operator s' = (st_operator s)((c, a) := if al = n then None else Some (al - n, x)))"
    using withdraw_operator [OF assms(3,2)] unfolding n_def by blast
  show ?thesis
    using w(1,3,4,5,6) withdraw_governance [OF assms(3)] o by (simp add: v book_withdraw_def)
qed

theorem withdraw_pays_the_creator_witness:
  "\<exists>s'. withdraw ledger_transfer (demo_env 110) 7 3 10 3 (Some 20) demo_jar2 = Inr s' \<and>
        balance_of s' 3 10 = 178 \<and> balance_of s' 4 10 = 99 \<and> st_operator s' (3, 7) = Some (30, 1000)"
proof -
  obtain s' where s': "withdraw ledger_transfer (demo_env 110) 7 3 10 3 (Some 20) demo_jar2 = Inr s'"
    using demo_operator_withdraws by blast
  have "op_typed demo_jar2 3 7"
    by (simp add: op_typed_def demo_values2 in_i128_def I128_MAX_def I128_MIN_def)
  from withdraw_pays_the_creator [OF demo_inv2 this s'] s' show ?thesis
    by (auto simp: demo_values2 demo_accounts2 demo_values)
qed

text \<open>
  C7. A creator's money is never stuck: on a token that honours funded transfers, in every state
  that sequences of calls and third-party transfers reach from an empty jar, an initialised jar
  whose withdrawals are not paused pays a creator any part of its balance when the creator asks
  for it at its payout address.
\<close>

theorem withdraw_always_available:
  assumes "sep41_live tr holding ledger_ok" "ledger_ok tk" "\<forall>t. 0 \<le> holding tk t (contract_address e)"
    and "jar_reach tr (contract_address e) (fresh_jar tk code) s"
    and "st_admin s \<noteq> None" "authorized e c" "pause_flags e s AND PAUSE_FLAG_WITHDRAWALS = 0"
    and "0 < n" "n \<le> balance_of s c t" "effective_payout e c s \<noteq> contract_address e"
  shows "\<exists>s'. withdraw tr e c c t (effective_payout e c s) (Some n) s = Inr s'"
proof -
  have sep: "sep41 tr holding ledger_ok" using assms(1) by (simp add: sep41_live_def)
  have "solvent holding (contract_address e) (fresh_jar tk code)"
    using assms(3) by (simp add: solvent_def fresh_books liabilities_def) (simp add: fresh_jar_def)
  then have "ledger_ok (st_tokens s) \<and> solvent holding (contract_address e) s"
    using sep41.reach_solvent [OF sep assms(4) fresh_inv] assms(2) by (simp add: fresh_jar_def)
  then show ?thesis
    using sep41_live.withdraw_goes_through [OF assms(1) reach_inv [OF assms(4) fresh_inv] _ _ assms(5-7), of "Some n"] assms(8-10)
    by simp
qed

theorem withdraw_always_available_witness:
  "\<exists>s'. withdraw ledger_transfer (demo_env 110) 4 4 10 4 (Some 99) demo_jar2 = Inr s'"
proof -
  have e: "contract_address (demo_env 110) = 8" "authorized (demo_env 110) 4"
    "effective_payout (demo_env 110) 4 demo_jar2 = 4"
    by (simp_all add: demo_env_def effective_payout_def demo_values2)
  show ?thesis
    using withdraw_always_available [of ledger_transfer ledger_holding ledger_nonneg demo_ledger
        "demo_env 110" 0 demo_jar2 4 99 10] ledger.sep41_live_axioms demo_reach2 demo_ledger_ok
    by (simp add: e demo_values2 demo_accounts2 demo_values demo_unpaused)
qed

text \<open>
  What an operator draws from a creator's account along a run of successful calls.
\<close>

definition authorizes :: "address \<Rightarrow> address \<Rightarrow> call \<Rightarrow> bool" where
  "authorizes c a k \<longleftrightarrow> (case k of CAuthorizeOperator c' a' _ _ \<Rightarrow> c' = c \<and> a' = a | _ \<Rightarrow> False)"

definition allowance_of :: "'tk jar \<Rightarrow> address \<Rightarrow> address \<Rightarrow> int" where
  "allowance_of s c a = max 0 (case st_operator s (c, a) of None \<Rightarrow> 0 | Some (al, x) \<Rightarrow> al)"

fun drawn :: "address \<Rightarrow> address \<Rightarrow> call \<Rightarrow> 'tk jar \<Rightarrow> int" where
  "drawn c a (CWithdraw a' c' t d v) s =
     (if a' = a \<and> c' = c then unwrap_or v (balance_of s c t) else 0)"
| "drawn c a (CWithdrawLegacy a' c' d v) s =
     (if a' = a \<and> c' = c then unwrap_or v (balance_of s c (default_token s)) else 0)"
| "drawn c a k s = 0"

fun run_drawn :: "'tk transfer_fn \<Rightarrow> address \<Rightarrow> address \<Rightarrow> (env \<times> call) list \<Rightarrow> 'tk jar \<Rightarrow> int" where
  "run_drawn tr c a [] s = 0"
| "run_drawn tr c a ((e, k) # r) s =
     (case exec tr e k s of Inl _ \<Rightarrow> 0 | Inr s' \<Rightarrow> drawn c a k s + run_drawn tr c a r s')"


lemma idle_operator:
  assumes "exec tr e k s = Inr s'" "movement_of k s = Idle"
  shows "authorizes c a k \<or> st_operator s' (c, a) = st_operator s (c, a) \<or> st_operator s' (c, a) = None"
  using assms by (cases k) (auto simp: idle_call_simps authorizes_def split: if_splits)

lemma withdraw_op_typed:
  assumes "withdraw tr e a' c' t d v s = Inr s'" "op_typed s c' a'" "op_typed s c a"
  shows "op_typed s' c a"
proof (cases "st_operator s' (c, a) = st_operator s (c, a)")
  case True
  then show ?thesis using assms(3) by (simp add: op_typed_def)
next
  case False
  define n where "n = unwrap_or v (balance_of s c' t)"
  have "st_operator s' \<noteq> st_operator s" using False by auto
  with withdraw_operator [OF assms(1,2), folded n_def]
  obtain al x where w: "st_operator s (c', a') = Some (al, x)" "0 < n" "n \<le> al"
    "st_operator s' = (st_operator s)((c', a') := if al = n then None else Some (al - n, x))"
    by blast
  moreover have "(c, a) = (c', a')" using w(4) False by (auto split: if_splits)
  moreover have "in_i128 (al - n)"
    using assms(2) w by (auto simp: op_typed_def intro: in_i128_between [of 0 al])
  ultimately show ?thesis by (simp add: op_typed_def)
qed

lemma withdraw_drawn:
  assumes "withdraw tr e a' c' t d v s = Inr s'" "op_typed s c' a'" "a \<noteq> c"
  shows "(if a' = a \<and> c' = c then unwrap_or v (balance_of s c' t) else 0) + allowance_of s' c a \<le> allowance_of s c a"
proof -
  define n where "n = unwrap_or v (balance_of s c' t)"
  from withdraw_operator [OF assms(1,2), folded n_def]
  have "(if a' = a \<and> c' = c then n else 0) + allowance_of s' c a \<le> allowance_of s c a"
  proof (elim disjE exE conjE)
    assume "a' = c'" "st_operator s' = st_operator s"
    then show ?thesis using assms(3) by (auto simp: allowance_of_def)
  next
    fix al x
    assume w: "st_operator s (c', a') = Some (al, x)" "0 < n" "n \<le> al"
      "st_operator s' = (st_operator s)((c', a') := if al = n then None else Some (al - n, x))"
    show ?thesis
    proof (cases "a' = a \<and> c' = c")
      case True
      then show ?thesis using w by (simp add: allowance_of_def)
    next
      case False
      then have "st_operator s' (c, a) = st_operator s (c, a)" using w(4) by auto
      then show ?thesis using False by (auto simp: allowance_of_def)
    qed
  qed
  then show ?thesis by (simp only: n_def)
qed

lemma exec_drawn:
  assumes "exec tr e k s = Inr s'" "\<forall>c a. op_typed s c a" "a \<noteq> c" "\<not> authorizes c a k"
  shows "drawn c a k s + allowance_of s' c a \<le> allowance_of s c a"
proof (cases "movement_of k s = Idle")
  case True
  have "drawn c a k s = 0" using True by (cases k) (simp_all add: deposit_of_def)
  moreover have "st_operator s' (c, a) = st_operator s (c, a) \<or> st_operator s' (c, a) = None"
    using idle_operator [OF assms(1) True, of c a] assms(4) by simp
  ultimately show ?thesis by (auto simp: allowance_of_def)
next
  case False
  have same: ?thesis if "delegation s' = delegation s" "drawn c a k s = 0"
    using that by (simp add: allowance_of_def delegation_def)
  show ?thesis
  proof (cases k)
    case (CTip f c' t n)
    then show ?thesis using same tip_governance(2) [of tr e f c' t n s s'] assms(1) by simp
  next
    case (CTipLegacy f c' n)
    then show ?thesis using same tip_governance(2) [of tr e f c' "default_token s" n s s'] assms(1)
      by (simp add: legacy_wrapper_Inr_iff)
  next
    case (CWithdrawFees f t n)
    then show ?thesis using same withdraw_fees_governance(2) [of tr e f t n s s'] assms(1) by simp
  next
    case (CWithdraw a' c' t d v)
    then show ?thesis using withdraw_drawn [of tr e a' c' t d v s s' a c] assms by (auto split: if_splits)
  next
    case (CWithdrawLegacy a' c' d v)
    then show ?thesis using withdraw_drawn [of tr e a' c' "default_token s" d v s s' a c] assms
      by (auto simp: legacy_wrapper_Inr_iff split: if_splits)
  qed (use False in simp_all)
qed

definition args_typed :: "call \<Rightarrow> bool" where
  "args_typed k \<longleftrightarrow> (case k of CAuthorizeOperator c a al x \<Rightarrow> in_i128 al | _ \<Rightarrow> True)"

lemma exec_op_typed:
  assumes "exec tr e k s = Inr s'" "\<forall>c a. op_typed s c a" "args_typed k"
  shows "\<forall>c a. op_typed s' c a"
proof (cases "movement_of k s = Idle")
  case True
  have "authorizes c a k \<longrightarrow> (\<exists>al x. in_i128 al \<and> st_operator s' (c, a) = Some (al, x))" for c a
    using assms(1,3) by (auto simp: authorizes_def args_typed_def idle_call_simps split: call.splits)
  then show ?thesis
    using idle_operator [OF assms(1) True] assms(2) unfolding op_typed_def by (metis option.inject option.distinct(1) prod.inject)
next
  case False
  have same: ?thesis if "delegation s' = delegation s"
    using that assms(2) by (simp add: op_typed_def delegation_def)
  have wd: "op_typed s' c a" if "withdraw tr e a' c' t d v s = Inr s'" for a' c' t d v c a
    using withdraw_op_typed [OF that] assms(2) by blast
  show ?thesis
    using assms(1) False wd
    by (cases k) (auto simp only: exec.simps movement_of.simps legacy_wrapper_Inr_iff
        dest!: tip_governance(2) withdraw_fees_governance(2) same)
qed

text \<open>
  C8. An operator never draws more than it was allowed: along any run of successful calls in
  which the creator does not renew the operator's authorisation, what the operator has drawn from
  the creator's account, over all tokens, and what remains of its allowance stay within the
  allowance at the start.
\<close>

theorem operator_stays_within_allowance:
  assumes "run_calls tr r s = Inr s'" "\<forall>c a. op_typed s c a" "a \<noteq> c"
    and "list_all (\<lambda>(e, k). args_typed k \<and> \<not> authorizes c a k) r"
  shows "run_drawn tr c a r s + allowance_of s' c a \<le> allowance_of s c a"
  using assms
proof (induction r arbitrary: s)
  case (Cons p r)
  obtain e k where p: "p = (e, k)" by (cases p)
  obtain s1 where s1: "exec tr e k s = Inr s1" "run_calls tr r s1 = Inr s'"
    using Cons.prems(1) by (auto simp: p and_then_Inr_iff)
  have "run_drawn tr c a r s1 + allowance_of s' c a \<le> allowance_of s1 c a"
    using Cons.IH [OF s1(2)] exec_op_typed [OF s1(1) Cons.prems(2)] Cons.prems(3,4) by (auto simp: p)
  moreover have "drawn c a k s + allowance_of s1 c a \<le> allowance_of s c a"
    using exec_drawn [OF s1(1) Cons.prems(2,3)] Cons.prems(4) by (auto simp: p)
  ultimately show ?case by (simp add: p s1(1))
qed simp


theorem operator_stays_within_allowance_witness:
  "\<exists>s'. run_calls ledger_transfer [(demo_env 110, CWithdraw 7 3 10 3 (Some 20))] demo_jar2 = Inr s' \<and>
        20 + allowance_of s' 3 7 \<le> 50"
proof -
  let ?r = "[(demo_env 110, CWithdraw 7 3 10 3 (Some 20))]"
  obtain s' where w: "withdraw ledger_transfer (demo_env 110) 7 3 10 3 (Some 20) demo_jar2 = Inr s'"
    using demo_operator_withdraws by blast
  then have r: "run_calls ledger_transfer ?r demo_jar2 = Inr s'" by simp
  have "\<forall>c a. op_typed demo_jar2 c a"
    by (simp add: op_typed_def demo_values2 in_i128_def I128_MAX_def I128_MIN_def)
  from operator_stays_within_allowance [OF r this, of 7 3] r w show ?thesis
    by (simp add: args_typed_def authorizes_def allowance_of_def demo_values2)
qed

section \<open>Payout addresses\<close>

text \<open>
  A change of the payout address takes effect only after the delay: from the proposal on,
  withdrawals pay to the address on record until 17280 ledgers have passed and to the new address
  from then on, and only the creator's own authorisation can propose the change.
\<close>

theorem payout_change_is_delayed:
  assumes "set_payout_address e c p s = Inr s'" "unat (sequence e) + 17280 < 2 ^ 32"
  shows "authorized e c \<and>
    effective_payout e2 c s' =
      (if unat (sequence e) + 17280 \<le> unat (sequence e2) then p
       else unwrap_or (st_payout_address s c) c) \<and>
    (\<forall>c'. c' \<noteq> c \<longrightarrow> effective_payout e2 c' s' = effective_payout e2 c' s)"
proof -
  have x: "unat (sequence e + 17280) = unat (sequence e) + 17280"
    using assms(2) by (simp add: unat_word_ariths)
  have "authorized e c" "st_payout_address s' = st_payout_address s"
    "st_pending_payout s' = (st_pending_payout s)(c \<mapsto> (p, sequence e + 17280))"
    using assms(1) by (simp_all add: set_payout_address_Inr_iff storage_defs PAYOUT_DELAY_LEDGERS_def)
  then show ?thesis
    by (simp add: effective_payout_def word_le_nat_alt x cong: option.case_cong if_cong prod.case_cong)
qed

theorem payout_change_is_delayed_witness:
  "\<exists>s'. set_payout_address (demo_env 200) 3 6 demo_jar = Inr s' \<and>
        effective_payout (demo_env 17479) 3 s' = 3 \<and> effective_payout (demo_env 17480) 3 s' = 6"
proof -
  have "\<exists>s'. set_payout_address (demo_env 200) 3 6 demo_jar = Inr s'"
    by (simp add: set_payout_address_Inr_iff demo_env_def demo_values pause_flags_def effective_pause_flags_def
        pause_state_of_def default_pause_def)
  then obtain s' where s': "set_payout_address (demo_env 200) 3 6 demo_jar = Inr s'" ..
  have r: "unat (sequence (demo_env 200)) + 17280 < 2 ^ 32" by (simp add: demo_env_def)
  show ?thesis
    using payout_change_is_delayed [OF s' r, of "demo_env 17479"]
      payout_change_is_delayed [OF s' r, of "demo_env 17480"] s'
    by (simp add: demo_env_def demo_values)
qed

text \<open>
  A change that has matured but not yet been applied by a withdrawal is lost when the
  creator proposes another one: the address that withdrawals pay to goes back to the one before.
  Here creator 3 rotates to 6, the change matures, and the next proposal sends payouts to the old
  address again for the whole of the new delay.
\<close>

theorem matured_payout_change_is_lost:
  "\<exists>s1 s2. set_payout_address (demo_env 200) 3 6 demo_jar = Inr s1 \<and>
     effective_payout (demo_env 20000) 3 s1 = 6 \<and>
     set_payout_address (demo_env 20000) 3 7 s1 = Inr s2 \<and>
     effective_payout (demo_env 20000) 3 s2 = 3 \<and> effective_payout (demo_env 37279) 3 s2 = 3"
  by (simp add: set_payout_address_Inr_iff demo_env_def demo_values pause_flags_def effective_pause_flags_def
      pause_state_of_def default_pause_def storage_defs effective_payout_def tipjar_constants)

section \<open>Fees\<close>

text \<open>
  The quoted fee and net amount always add up to the amount, the fee is the rounded-down
  share, never negative and at most a tenth of the amount for every rate that can be configured,
  and \<open>tip\<close> charges exactly what \<open>preview_fee\<close> quotes.
\<close>

theorem preview_fee_is_what_tip_charges:
  assumes "0 \<le> n" "in_i128 n" "bps \<le> MAX_FEE_BPS" "preview_fee n bps = Inr (fee, net)"
  shows "fee + net = n \<and> fee = n * uint bps div 10000 \<and> 0 \<le> fee \<and> 10 * fee \<le> n \<and>
         (jar_inv s \<and> unwrap_or (st_fee_bps s) 0 = bps \<and> tip tr e f c t n s = Inr s' \<longrightarrow>
            fees_of s' t = fees_of s t + fee \<and> balance_of s' c t = balance_of s c t + net)"
proof -
  have f: "fee = fee_of n bps" "net = sub_i128 n fee"
    using assms(4,1) by (auto simp: preview_fee_def and_then_Inr_iff fee_for_Inr_iff)
  then have net: "net = n - fee" using net_exact [OF assms(1-3)] by simp
  show ?thesis
  proof (intro conjI impI)
    assume "jar_inv s \<and> unwrap_or (st_fee_bps s) 0 = bps \<and> tip tr e f c t n s = Inr s'"
    then have b: "books_of s' = book_tip c t n fee (books_of s)"
      using tip_books [of tr e f c t n s s'] assms(3) jar_invD(1) [of s] by (simp add: f)
    have "fees_of s' t = bk_fees (books_of s') t" "balance_of s' c t = bk_balance (books_of s') (c, t)"
      by simp_all
    then show "fees_of s' t = fees_of s t + fee" "balance_of s' c t = balance_of s c t + net"
      unfolding b by (simp_all add: book_tip_def net)
  qed (use fee_of_bounds [OF assms(1,3)] f net in \<open>simp_all add: fee_of_def\<close>)
qed

theorem preview_fee_is_what_tip_charges_witness:
  "preview_fee 199 100 = Inr (1, 198) \<and> (1::int) + 198 = 199 \<and> (10::int) * 1 \<le> 199"
proof -
  have p: "preview_fee 199 100 = Inr (1, 198)" by code_simp
  have "(0::int) \<le> 199" "in_i128 199" "(100::u32) \<le> MAX_FEE_BPS"
    by (simp_all add: in_i128_def I128_MAX_def I128_MIN_def MAX_FEE_BPS_def)
  from preview_fee_is_what_tip_charges [OF this p] p show ?thesis by simp
qed

text \<open>
  Fees leave the jar only to the configured collector, under its authorisation, and never
  more than was accrued in that token: the fee account falls by the amount paid, creators'
  accounts are untouched.
\<close>

theorem fees_go_to_the_collector:
  assumes "jar_inv s" "withdraw_fees tr e a t v s = Inr s'"
  defines "n \<equiv> unwrap_or v (fees_of s t)"
  shows "authorized e a \<and> st_fee_collector s = Some a \<and> 0 < n \<and> n \<le> fees_of s t \<and>
    tr (st_tokens s) t (contract_address e) a n = Some (st_tokens s') \<and>
    fees_of s' t = fees_of s t - n \<and> (\<forall>t'. t' \<noteq> t \<longrightarrow> fees_of s' t' = fees_of s t') \<and>
    (\<forall>c t'. balance_of s' c t' = balance_of s c t' \<and> total_of s' c t' = total_of s c t') \<and>
    governance s' = governance s \<and> delegation s' = delegation s"
proof -
  note w = withdraw_fees_effect [OF assms(2) jar_invD(1,6) [OF assms(1)], folded n_def]
  have v: "balance_of s' c' t' = bk_balance (book_withdraw_fees t n (books_of s)) (c', t')"
    "total_of s' c' t' = bk_total (book_withdraw_fees t n (books_of s)) (c', t')"
    "fees_of s' t' = bk_fees (book_withdraw_fees t n (books_of s)) t'" for c' t'
    by (simp_all flip: w(6))
  show ?thesis
    using w(1-5) withdraw_fees_governance [OF assms(2)] by (simp add: v book_withdraw_fees_def)
qed


theorem fees_go_to_the_collector_witness:
  "\<exists>s'. withdraw_fees ledger_transfer (demo_env 110) 6 10 None demo_jar2 = Inr s' \<and>
        fees_of s' 10 = 0 \<and> balance_of s' 3 10 = 198"
proof -
  obtain s' where s': "withdraw_fees ledger_transfer (demo_env 110) 6 10 None demo_jar2 = Inr s'"
    using demo_collector_withdraws by blast
  from fees_go_to_the_collector [OF demo_inv2 s'] s' show ?thesis
    by (simp add: demo_accounts2 demo_values)
qed


section \<open>Legacy entries, schema migration and lifetimes\<close>

text \<open>
  C15. Moving the entries of the first contract version is invisible: for every creator and
  token, the balance, the total and the fees that the contract reports are the same before and
  after any migration, in whatever order creators are migrated, and after the migration of a
  creator its old entries are gone, so that the queries agree with the accounts.
\<close>

theorem legacy_migration_is_invisible:
  assumes "maybe_migrate_fee_balance e2 t2 s = Inr s'"
  shows "books_of (maybe_migrate_creator_data e c t s) = books_of s \<and> books_of s' = books_of s \<and>
    snd (get_balance e c t s) = balance_of s c t \<and> snd (get_total_tips e c t s) = total_of s c t \<and>
    get_fee_balance e2 t2 s = Inr (s', fees_of s t2) \<and>
    (st_token s = Some t \<longrightarrow>
       st_creator_balance (maybe_migrate_creator_data e c t s) c = None \<and>
       st_creator_total (maybe_migrate_creator_data e c t s) c = None) \<and>
    maybe_migrate_creator_data e c t (maybe_migrate_creator_data e c t s) = maybe_migrate_creator_data e c t s"
proof -
  have "fees_of s' t2 = fees_of s t2"
    using fee_migration_books [OF assms] books_of_sel(3) by metis
  then have "get_fee_balance e2 t2 s = Inr (s', fees_of s t2)"
    using assms get_fee_balance_Inr_iff by metis
  moreover have "maybe_migrate_creator_data e c t (maybe_migrate_creator_data e c t s) = maybe_migrate_creator_data e c t s"
  proof (cases "st_token s = Some t")
    case True
    have "maybe_migrate_creator_data e c t s1 = s1"
      if "st_creator_balance s1 c = None" "st_creator_total s1 c = None" for s1 :: "'a jar"
      using that by (simp add: maybe_migrate_creator_data_def Let_def split: option.split)
    then show ?thesis using migrate_clears [OF True] by blast
  qed (auto simp: maybe_migrate_creator_data_def split: option.split)
  ultimately show ?thesis
    using fee_migration_books [OF assms] migrate_clears [of s t e c] by (simp add: get_balance_view get_total_tips_view)
qed

definition demo_legacy :: "ledger jar" where
  "demo_legacy = (fresh_jar demo_ledger 0)\<lparr>st_token := Some 10, st_admin := Some 2,
     st_creator_balance := [3 \<mapsto> 40], st_creator_total := [3 \<mapsto> 60], st_fee_balance := Some 5\<rparr>"

theorem legacy_migration_is_invisible_witness:
  "\<exists>s'. maybe_migrate_fee_balance (demo_env 100) 10 demo_legacy = Inr s' \<and>
     balance_of demo_legacy 3 10 = 40 \<and> snd (get_balance (demo_env 100) 3 10 demo_legacy) = 40 \<and>
     get_fee_balance (demo_env 100) 10 demo_legacy = Inr (s', 5)"
proof -
  have "\<exists>s'. maybe_migrate_fee_balance (demo_env 100) 10 demo_legacy = Inr s'"
    by (simp add: maybe_migrate_fee_balance_def demo_legacy_def fresh_jar_def Let_def checked_add_i128_def
        in_i128_def I128_MAX_def I128_MIN_def)
  then obtain s' where s': "maybe_migrate_fee_balance (demo_env 100) 10 demo_legacy = Inr s'" ..
  have "balance_of demo_legacy 3 10 = 40" "fees_of demo_legacy 10 = 5"
    by (simp_all add: demo_legacy_def fresh_jar_def view_defs)
  with legacy_migration_is_invisible [OF s', of "demo_env 100" 3 10] s' show ?thesis by simp
qed

text \<open>
  The single-token interface of the first version is the multi-token interface on the first
  token of the allowlist: on an initialised jar with a non-empty allowlist the three wrappers
  give the same result, state and errors included, and on an empty allowlist tips and withdrawals
  are refused and the total is zero.
\<close>

theorem legacy_interface_is_first_token:
  assumes "st_admin s \<noteq> None"
  shows "(\<forall>t ts. allowlist s = t # ts \<longrightarrow>
      tip_legacy tr e f c n s = tip tr e f c t n s \<and>
      withdraw_legacy tr e a c d v s = withdraw tr e a c t d v s \<and>
      get_total_tips_legacy e c s = Inr (maybe_migrate_creator_data e c t s, total_of s c t)) \<and>
    (allowlist s = [] \<longrightarrow>
      tip_legacy tr e f c n s = fail NotInitialized \<and> withdraw_legacy tr e a c d v s = fail NotInitialized \<and>
      get_total_tips_legacy e c s = Inr (s, 0))"
proof -
  have g: "get_tokens s = Inr (allowlist s)"
    using assms by (simp add: get_tokens_Inr_iff allowlist_def)
  show ?thesis
    by (simp add: tip_legacy_def withdraw_legacy_def get_total_tips_legacy_def g get_total_tips_view)
qed

theorem legacy_interface_is_first_token_witness:
  "tip_legacy ledger_transfer (demo_env 110) 5 3 7 demo_jar =
   tip ledger_transfer (demo_env 110) 5 3 10 7 demo_jar"
  using legacy_interface_is_first_token [of demo_jar ledger_transfer "demo_env 110" 5 3 7]
  by (simp add: allowlist_def demo_values)

text \<open>
  The schema migration runs once: a second call in a row changes nothing, the first brings
  the version to 2, no balance, total, fee account or pause flag changes, and only the admin can
  run it.
\<close>

theorem schema_migration_is_idempotent:
  assumes "migrate e a s = Inr s1" "authorized e2 a"
  shows "migrate e2 a s1 = Inr s1 \<and> get_data_version s1 \<ge> 2 \<and> st_admin s = Some a \<and> authorized e a \<and>
    books_of s1 = books_of s \<and> pause_flags e3 s1 = pause_flags e3 s \<and> st_tokens s1 = st_tokens s"
proof -
  have st: "st_admin s = Some a" "authorized e a" using assms(1) by (simp_all add: migrate_Inr_iff)
  show ?thesis
  proof (cases "unwrap_or (st_data_version s) 1 \<ge> DATA_VERSION")
    case True
    then have "s1 = s" using assms(1) by (simp add: migrate_Inr_iff)
    then show ?thesis using True st assms(2)
      by (simp add: migrate_Inr_iff get_data_version_def DATA_VERSION_def)
  next
    case False
    then have s1: "s1 = publish (Migrated (unwrap_or (st_data_version s) 1) DATA_VERSION)
             ((if unwrap_or (st_data_version s) 1 = 1
               then s\<lparr>st_pause := map_option (\<lambda>p. p\<lparr>pause_notes := None\<rparr>) (st_pause s)\<rparr> else s)
              \<lparr>st_data_version := Some DATA_VERSION\<rparr>)"
      using assms(1) by (simp add: migrate_Inr_iff)
    have "pause_flags e3 s1 = pause_flags e3 s"
      by (cases "st_pause s")
        (simp_all add: s1 storage_defs pause_flags_def effective_pause_flags_def pause_state_of_def)
    moreover have "st_data_version s1 = Some DATA_VERSION" "st_admin s1 = Some a" "st_tokens s1 = st_tokens s"
      using st by (simp_all add: s1 storage_defs)
    moreover have "books_of s1 = books_of s" by (simp add: s1)
    ultimately show ?thesis using st assms(2)
      by (simp add: migrate_Inr_iff get_data_version_def DATA_VERSION_def)
  qed
qed

theorem schema_migration_is_idempotent_witness:
  "\<exists>s1. migrate (demo_env 100) 2 (demo_jar\<lparr>st_data_version := Some 1\<rparr>) = Inr s1 \<and>
        migrate (demo_env 101) 2 s1 = Inr s1"
proof -
  have "\<exists>s1. migrate (demo_env 100) 2 (demo_jar\<lparr>st_data_version := Some 1\<rparr>) = Inr s1"
    by (simp add: migrate_Inr_iff demo_env_def demo_values)
  then obtain s1 where s1: "migrate (demo_env 100) 2 (demo_jar\<lparr>st_data_version := Some 1\<rparr>) = Inr s1" ..
  have "authorized (demo_env 101) 2" by (simp add: demo_env_def)
  from schema_migration_is_idempotent [OF s1 this] s1 show ?thesis by blast
qed


text \<open>
  After a tip the creator's balance entry, its total entry and the contract instance live
  for at least the threshold of 100000 further ledgers, whatever their lifetime was before,
  given the documented behaviour of the host's \<open>extend_ttl\<close>.
\<close>

theorem tipped_accounts_stay_alive:
  assumes "ttl_extends e" "tip tr e f c t n s = Inr s'"
  shows "(\<exists>l. st_ttl s' (Balance c t) = Some l \<and> unat (sequence e) + 100000 \<le> l) \<and>
         (\<exists>l. st_ttl s' (Total c t) = Some l \<and> unat (sequence e) + 100000 \<le> l) \<and>
         unat (sequence e) + 100000 \<le> st_instance_live s'"
proof -
  let ?pol = "extend_policy e LEDGER_THRESHOLD LEDGER_BUMP"
  have ext: "unat (sequence e) + 100000 \<le> ?pol l" for l
    using assms(1) by (auto simp: ttl_extends_def LEDGER_THRESHOLD_def LEDGER_BUMP_def dest: spec [of _ 100000])
  let ?s3 = "\<lambda>fee tk. extend_ttl e (Total c t) (extend_ttl e (Balance c t)
               (set_total e c t (total_of s c t + n)
                 (set_balance e c t (balance_of s c t + sub_i128 n fee)
                   ((maybe_migrate_creator_data e c t s)\<lparr>st_tokens := tk\<rparr>))))"
  obtain fee tk s4 where
      acc: "if unwrap_or (st_fee_bps s) 0 > 0 then accrue_fee e c t n fee (sub_i128 n fee) (?s3 fee tk) = Inr s4
              else ?s3 fee tk = s4"
    and s': "publish (Tip c t f n) (extend_instance_ttl e s4) = s'"
    using assms(2) unfolding tip_Inr_iff get_balance_view get_total_tips_view Let_def snd_conv by blast
  have keep: "st_ttl s4 k = st_ttl (?s3 fee tk) k" if "k = Balance c t \<or> k = Total c t" for k
  proof (cases "unwrap_or (st_fee_bps s) 0 > 0")
    case True
    then have "accrue_fee e c t n fee (sub_i128 n fee) (?s3 fee tk) = Inr s4" using acc by simp
    from accrue_fee_frame(6) [OF this, of k] that show ?thesis by auto
  next
    case False
    then show ?thesis using acc by simp
  qed
  have "\<exists>l. st_ttl s4 (Balance c t) = Some (?pol l)" "\<exists>l. st_ttl s4 (Total c t) = Some (?pol l)"
    by (auto simp: keep storage_defs)
  moreover have "st_ttl s' = st_ttl s4" "\<exists>l. st_instance_live s' = ?pol l"
    by (auto simp: s' [symmetric] storage_defs)
  ultimately show ?thesis using ext by force
qed

theorem tipped_accounts_stay_alive_witness:
  "\<exists>s' l. tip ledger_transfer (demo_env 104) 5 3 10 250 demo_jar = Inr s' \<and>
          st_ttl s' (Balance 3 10) = Some l \<and> 100104 \<le> l"
proof -
  have t: "ttl_extends (demo_env 104)"
    unfolding ttl_extends_def demo_env_def by (auto simp: word_le_nat_alt)
  obtain s' where s': "tip ledger_transfer (demo_env 104) 5 3 10 250 demo_jar = Inr s'"
    using demo_tips by (auto simp: is_ok_iff)
  from tipped_accounts_stay_alive [OF t s'] s' show ?thesis by (auto simp: demo_env_def)
qed

end
