(* ===== verification/Tipjar_V2.thy ===== *)
theory Tipjar_V2
  imports Tipjar_Solvency
begin

unbundle bit_operations_syntax

text \<open>
  The second contract version of the upgrade tests,
  \<^verbatim>\<open>src/contracts/tipjar-v2-fixture/src/lib.rs\<close>. It reads and writes the storage entries of the
  tip jar under the same names, so its operations act on the same record \<open>jar\<close>; its error codes
  are the tip jar's of the same name.
\<close>

definition v2_DATA_VERSION :: u32 where "v2_DATA_VERSION = 2"

definition v2_tip ::
  "'tk transfer_fn \<Rightarrow> env \<Rightarrow> address \<Rightarrow> address \<Rightarrow> address \<Rightarrow> int \<Rightarrow> 'tk jar \<Rightarrow> 'tk jar_result" where
  "v2_tip tr e sender creator t amount s =
     and_then (require_auth e sender) (\<lambda>_.
     if amount \<le> 0 then fail InvalidAmount else
     and_then (transfer_tokens tr t sender (contract_address e) amount s) (\<lambda>s1.
     let balance = unwrap_or (st_balance s1 (creator, t)) 0;
         total = unwrap_or (st_total s1 (creator, t)) 0 in
     and_then (ok_or InvalidAmount (checked_add_i128 balance amount)) (\<lambda>new_balance.
     and_then (ok_or InvalidAmount (checked_add_i128 total amount)) (\<lambda>new_total.
     Inr (extend_instance_ttl e (extend_ttl e (Total creator t) (extend_ttl e (Balance creator t)
       (set_total e creator t new_total (set_balance e creator t new_balance s1)))))))))"

definition v2_withdraw ::
  "'tk transfer_fn \<Rightarrow> env \<Rightarrow> address \<Rightarrow> address \<Rightarrow> int option \<Rightarrow> 'tk jar \<Rightarrow> 'tk jar_result" where
  "v2_withdraw tr e creator t amount s =
     and_then (require_auth e creator) (\<lambda>_.
     let balance = unwrap_or (st_balance s (creator, t)) 0 in
     if balance = 0 then fail NothingToWithdraw else
     let n = unwrap_or amount balance in
     if n \<le> 0 \<or> n > balance then fail InvalidAmount else
     and_then (transfer_tokens tr t (contract_address e) creator n s) (\<lambda>s1.
     let new_balance = sub_i128 balance n in
     Inr (extend_instance_ttl e (extend_ttl e (Balance creator t)
       (set_balance e creator t new_balance s1)))))"

definition v2_get_total_tips :: "address \<Rightarrow> address \<Rightarrow> 'tk jar \<Rightarrow> int" where
  "v2_get_total_tips creator t s = unwrap_or (st_total s (creator, t)) 0"

definition v2_get_data_version :: "'tk jar \<Rightarrow> u32" where
  "v2_get_data_version s = unwrap_or (st_data_version s) 1"

definition v2_migrate :: "env \<Rightarrow> address \<Rightarrow> 'tk jar \<Rightarrow> 'tk jar_result" where
  "v2_migrate e adm s =
     and_then (require_auth e adm) (\<lambda>_.
     and_then (ok_or NotInitialized (st_admin s)) (\<lambda>stored_admin.
     if adm \<noteq> stored_admin then fail Unauthorized else
     let current = unwrap_or (st_data_version s) 1 in
     if current \<ge> v2_DATA_VERSION then Inr s
     else Inr (publish (Migrated current v2_DATA_VERSION)
            (s\<lparr>st_data_version := Some v2_DATA_VERSION\<rparr>))))"

section \<open>Compatibility with the first version\<close>

definition no_legacy :: "'tk jar \<Rightarrow> bool" where
  "no_legacy s \<longleftrightarrow> st_creator_balance s = Map.empty \<and> st_creator_total s = Map.empty \<and> st_fee_balance s = None"

text \<open>
  Under an initialised jar without fee, pause or legacy entries, and for a token on the
  allowlist, the second version's tip does to the storage exactly what the first version's tip
  does, lifetimes included, and fails with the same error when it fails; the only difference is
  the event, which the second version does not publish.
\<close>

theorem v2_tip_agrees_with_v1:
  assumes "st_admin s \<noteq> None" "unwrap_or (st_fee_bps s) 0 = 0" "no_legacy s" "in_i128 n"
    and "pause_flags e s AND PAUSE_FLAG_TIPS = 0" "t \<in> set (allowlist s)"
  shows "tip tr e f c t n s =
    and_then (v2_tip tr e f c t n s) (\<lambda>s'. Inr (publish (Tip c t f n) s'))"
proof -
  have m: "maybe_migrate_creator_data e c t s = s"
    using assms(3) by (intro migrate_no_legacy) (auto simp: no_legacy_def)
  have p: "check_not_paused e PAUSE_FLAG_TIPS s = Inr ()" "ensure_initialized s = Inr ()"
      "ensure_token_allowed t s = Inr ()"
    using assms(1,5,6) by (simp_all add: check_not_paused_Inr_iff ensure_initialized_def
        ensure_token_allowed_def allowlist_def)
  have f: "fee_for n 0 = Inr 0" by (simp add: fee_for_def)
  have net: "sub_i128 n 0 = n" using assms(4) by (simp add: sub_i128_def)
  show ?thesis
    by (simp add: tip_def v2_tip_def p m f net assms(2) Let_def require_auth_def transfer_tokens_def
        call_transfer_def checked_add_i128_def split: option.split)
qed

theorem v2_tip_agrees_with_v1_witness:
  "tip ledger_transfer (demo_env 100) 5 3 10 9 (demo_jar\<lparr>st_fee_bps := None\<rparr>) =
   and_then (v2_tip ledger_transfer (demo_env 100) 5 3 10 9 (demo_jar\<lparr>st_fee_bps := None\<rparr>))
     (\<lambda>s'. Inr (publish (Tip 3 10 5 9) s'))"
  by (rule v2_tip_agrees_with_v1)
    (simp_all add: demo_values no_legacy_def allowlist_def in_i128_def I128_MAX_def I128_MIN_def
      pause_flags_def effective_pause_flags_def pause_state_of_def default_pause_def)

text \<open>
  The migration of the second version needs the admin, is run at most once to any effect, and
  leaves the accounts, totals and fees as they are; applied to a jar of the first version at data
  version 1 it brings the version to 2, and the totals it reports are those of the first version's
  accounts.
\<close>

theorem v2_migration_keeps_accounts:
  assumes "v2_migrate e adm s = Inr s'"
  shows "st_admin s = Some adm \<and> authorized e adm \<and> books_of s' = books_of s \<and> st_tokens s' = st_tokens s \<and>
    2 \<le> v2_get_data_version s' \<and> (authorized e2 adm \<longrightarrow> v2_migrate e2 adm s' = Inr s') \<and>
    (no_legacy s \<longrightarrow> v2_get_total_tips c t s' = total_of s c t)"
proof -
  have ok: "authorized e adm" "st_admin s = Some adm"
    using assms by (auto simp: v2_migrate_def Let_def result_simps)
  consider "s' = s" "2 \<le> unwrap_or (st_data_version s) 1"
    | "s' = publish (Migrated (unwrap_or (st_data_version s) 1) 2) (s\<lparr>st_data_version := Some 2\<rparr>)"
    using assms ok by (auto simp: v2_migrate_def v2_DATA_VERSION_def Let_def split: if_splits)
  then show ?thesis
  proof cases
    case 1
    then show ?thesis using ok
      by (simp add: v2_migrate_def v2_DATA_VERSION_def v2_get_data_version_def v2_get_total_tips_def
          no_legacy_def total_of_def)
  next
    case 2
    then show ?thesis using ok
      by (simp add: v2_migrate_def v2_DATA_VERSION_def v2_get_data_version_def v2_get_total_tips_def
          no_legacy_def total_of_def) (simp add: storage_defs v2_DATA_VERSION_def)
  qed
qed

theorem v2_migration_keeps_accounts_witness:
  "\<exists>s'. v2_migrate (demo_env 100) 2 (demo_jar\<lparr>st_data_version := Some 1\<rparr>) = Inr s' \<and>
        v2_get_total_tips 3 10 s' = 200 \<and> v2_migrate (demo_env 101) 2 s' = Inr s'"
proof -
  let ?s = "demo_jar\<lparr>st_data_version := Some 1\<rparr>"
  have "\<exists>s'. v2_migrate (demo_env 100) 2 ?s = Inr s'"
    by (simp add: v2_migrate_def demo_values demo_env_def v2_DATA_VERSION_def)
  then obtain s' where s': "v2_migrate (demo_env 100) 2 ?s = Inr s'" ..
  have "no_legacy ?s" "total_of ?s 3 10 = 200"
    using demo_values(2) by (simp_all add: no_legacy_def demo_values total_of_def cong: option.case_cong)
  with v2_migration_keeps_accounts [OF s', of "demo_env 101" 3 10] s' show ?thesis
    by (simp add: demo_env_def)
qed

end
