(* ===== verification/Registry.thy ===== *)
theory Registry
  imports Host
begin

text \<open>
  Numbered entries. The derivatives, limit-order and arbitrage contracts all keep their records
  under consecutive 64-bit numbers taken from a stored counter: a new record gets the counter plus
  one, is written under it, and the counter follows. The interface \<open>id_registry\<close> states this once;
  its clients are the three contracts.
\<close>

definition ids_wf :: "('s \<Rightarrow> u64 \<rightharpoonup> 'r) \<Rightarrow> ('s \<Rightarrow> u64) \<Rightarrow> ('r \<Rightarrow> u64) \<Rightarrow> 's \<Rightarrow> bool" where
  "ids_wf entries count key s \<longleftrightarrow>
     (\<forall>i. (entries s i \<noteq> None) = (0 < i \<and> i \<le> count s)) \<and>
     (\<forall>i r. entries s i = Some r \<longrightarrow> key r = i)"

lemma ids_wfD:
  assumes "ids_wf entries count key s"
  shows "entries s i = Some r \<Longrightarrow> 0 < i \<and> i \<le> count s \<and> key r = i"
    and "0 < i \<Longrightarrow> i \<le> count s \<Longrightarrow> \<exists>r. entries s i = Some r"
  using assms by (auto simp: ids_wf_def)

lemma ids_wf_cong:
  "ids_wf entries count key s \<Longrightarrow> entries s' = entries s \<Longrightarrow> count s' = count s \<Longrightarrow>
   ids_wf entries count key s'"
  by (simp add: ids_wf_def)

lemma ids_wf_update:
  assumes "ids_wf entries count key s" "entries s i = Some r" "key r' = i"
    and "entries s' = (entries s)(i \<mapsto> r')" "count s' = count s"
  shows "ids_wf entries count key s'"
proof -
  have "(entries s' j \<noteq> None) = (entries s j \<noteq> None)" for j
    using assms(2,4) by auto
  then show ?thesis using assms(1,3,4,5) by (auto simp: ids_wf_def)
qed

lemma word_le_Suc_iff:
  assumes "(c::'a::len word) \<noteq> - 1"
  shows "i \<le> c + 1 \<longleftrightarrow> i \<le> c \<or> i = c + 1" and "0 < c + 1" and "c < c + 1"
proof -
  have u: "unat (c + 1) = Suc (unat c)"
    using assms unatSuc [of c] by (simp add: add.commute eq_neg_iff_add_eq_0)
  show "i \<le> c + 1 \<longleftrightarrow> i \<le> c \<or> i = c + 1"
    by (metis word_le_nat_alt u le_Suc_eq word_unat_eq_iff)
  show "0 < c + 1" "c < c + 1" by (simp_all add: word_less_nat_alt u)
qed

locale id_registry =
  fixes entries :: "'s \<Rightarrow> u64 \<rightharpoonup> 'r"
    and count :: "'s \<Rightarrow> u64"
    and key :: "'r \<Rightarrow> u64"
    and add :: "(u64 \<Rightarrow> 'r) \<Rightarrow> 's \<Rightarrow> 's"
  assumes add_entries: "entries (add mk s) = (entries s)(count s + 1 \<mapsto> mk (count s + 1))"
    and add_count: "count (add mk s) = count s + 1"
begin

lemma add_wf:
  assumes "ids_wf entries count key s" "count s \<noteq> - 1" "\<And>i. key (mk i) = i"
  shows "ids_wf entries count key (add mk s)"
  using assms word_le_Suc_iff [OF assms(2)]
  by (auto simp: ids_wf_def add_entries add_count)

lemma add_fresh:
  assumes "ids_wf entries count key s" "count s \<noteq> - 1"
  shows "entries s (count s + 1) = None"
    and "entries (add mk s) (count s + 1) = Some (mk (count s + 1))"
    and "i \<noteq> count s + 1 \<Longrightarrow> entries (add mk s) i = entries s i"
proof -
  have "\<not> count s + 1 \<le> count s" using word_le_Suc_iff(3) [OF assms(2)] by simp
  then show "entries s (count s + 1) = None"
    using assms(1) by (auto simp: ids_wf_def)
qed (simp_all add: add_entries)

end


section \<open>Indexes over numbered entries\<close>

text \<open>
  A contract may also list the numbers of its records under a key of theirs (the token pair of a
  limit order, the executor of an arbitrage record) and answer queries by reading them back.
\<close>

fun lookup_all :: "(u64 \<rightharpoonup> 'r) \<Rightarrow> u64 list \<Rightarrow> 'r list" where
  "lookup_all f [] = []"
| "lookup_all f (i # is) = (case f i of Some r \<Rightarrow> r # lookup_all f is | None \<Rightarrow> lookup_all f is)"

definition index_ok ::
  "('s \<Rightarrow> u64 \<rightharpoonup> 'r) \<Rightarrow> ('s \<Rightarrow> 'x \<Rightarrow> u64 list) \<Rightarrow> ('r \<Rightarrow> 'x) \<Rightarrow> 's \<Rightarrow> bool" where
  "index_ok entries idx class_of s \<longleftrightarrow>
     (\<forall>x. distinct (idx s x) \<and> set (idx s x) = {i. \<exists>r. entries s i = Some r \<and> class_of r = x})"

lemma set_lookup_all: "set (lookup_all f is) = {r. \<exists>i\<in>set is. f i = Some r}"
  by (induction "is") (auto split: option.split)

lemma length_lookup_all: "(\<And>i. i \<in> set is \<Longrightarrow> f i \<noteq> None) \<Longrightarrow> length (lookup_all f is) = length is"
  by (induction "is") (auto split: option.split)

lemma index_ok_update:
  assumes "index_ok entries idx class_of s" "entries s i = Some r" "class_of r' = class_of r"
    and "entries s' = (entries s)(i \<mapsto> r')" "idx s' = idx s"
  shows "index_ok entries idx class_of s'"
proof -
  have "{j. \<exists>q. entries s' j = Some q \<and> class_of q = x} = {j. \<exists>q. entries s j = Some q \<and> class_of q = x}" for x
    using assms(2-4) by auto
  then show ?thesis using assms(1,5) by (simp add: index_ok_def)
qed

locale indexed_registry = id_registry entries count key add
  for entries :: "'s \<Rightarrow> u64 \<rightharpoonup> 'r" and count :: "'s \<Rightarrow> u64" and key :: "'r \<Rightarrow> u64"
    and add :: "(u64 \<Rightarrow> 'r) \<Rightarrow> 's \<Rightarrow> 's" +
  fixes idx :: "'s \<Rightarrow> 'x \<Rightarrow> u64 list"
    and class_of :: "'r \<Rightarrow> 'x"
  assumes add_idx:
    "idx (add mk s) x = (if class_of (mk (count s + 1)) = x then idx s x @ [count s + 1] else idx s x)"
begin

lemma add_index_ok:
  assumes "ids_wf entries count key s" "count s \<noteq> - 1" "index_ok entries idx class_of s"
  shows "index_ok entries idx class_of (add mk s)"
proof -
  note fresh = add_fresh [OF assms(1,2)]
  have "count s + 1 \<notin> set (idx s x)" for x
    using assms(3) fresh(1) by (simp add: index_ok_def)
  moreover have "{i. \<exists>r. entries (add mk s) i = Some r \<and> class_of r = x} =
      (if class_of (mk (count s + 1)) = x then {count s + 1} else {}) \<union>
      {i. \<exists>r. entries s i = Some r \<and> class_of r = x}" for x
    using fresh(1) by (auto simp: add_entries)
  ultimately show ?thesis
    using assms(3) by (auto simp: index_ok_def add_idx)
qed

lemma lookup_index:
  assumes "index_ok entries idx class_of s"
  shows "set (lookup_all (entries s) (idx s x)) = {r. \<exists>i. entries s i = Some r \<and> class_of r = x}"
    and "length (lookup_all (entries s) (idx s x)) = card {i. \<exists>r. entries s i = Some r \<and> class_of r = x}"
proof -
  have i: "distinct (idx s x)" "set (idx s x) = {i. \<exists>r. entries s i = Some r \<and> class_of r = x}"
    using assms by (auto simp: index_ok_def)
  show "set (lookup_all (entries s) (idx s x)) = {r. \<exists>i. entries s i = Some r \<and> class_of r = x}"
    by (auto simp: set_lookup_all i(2))
  have "length (lookup_all (entries s) (idx s x)) = length (idx s x)"
    by (rule length_lookup_all) (auto simp: i(2))
  then show "length (lookup_all (entries s) (idx s x)) = card {i. \<exists>r. entries s i = Some r \<and> class_of r = x}"
    using distinct_card [OF i(1)] i(2) by simp
qed

end

end
