(* ===== verification/Derivatives.thy ===== *)
theory Derivatives
  imports Registry Token_Ledger
begin

text \<open>
  The derivatives contract, \<^verbatim>\<open>src/contracts/derivatives/src/lib.rs\<close>: orders, their matching into
  positions, settlement and cancellation. Orders are numbered by a stored counter and never
  deleted; the flag \<open>settled\<close> marks an order that was matched, settled or cancelled.
\<close>

section \<open>State\<close>

record order =
  ord_id :: u64
  ord_owner :: address
  derivative_type :: symbol
  underlying :: address
  strike_price :: int
  expiry :: u64
  quantity :: int
  is_buy :: bool
  settled :: bool

record position =
  pos_owner :: address
  derivative_id :: u64
  pos_quantity :: int
  entry_price :: int

datatype deriv_error =
    DUnauthorized
  | DOrderNotFound
  | DAlreadySettled
  | DNotExpired
  | DInvalidAmount
  | DPositionNotFound

datatype deriv_event =
    DPlaced u64 address
  | DMatched u64 u64 int
  | DSettled u64 int

record 'tk deriv =
  dv_order :: "u64 \<rightharpoonup> order"
  dv_position :: "address \<times> u64 \<rightharpoonup> position"
  dv_order_count :: "u64 option"
  dv_order_ids :: "u64 list option"
  dv_tokens :: 'tk
  dv_events :: "deriv_event list"

type_synonym ('tk, 'a) deriv_result = "(deriv_error, 'a \<times> 'tk deriv) result"

definition dv_count :: "'tk deriv \<Rightarrow> u64" where
  "dv_count s = unwrap_or (dv_order_count s) 0"

section \<open>Operations\<close>

definition set_order :: "u64 \<Rightarrow> order \<Rightarrow> 'tk deriv \<Rightarrow> 'tk deriv" where
  "set_order i r s = s\<lparr>dv_order := (dv_order s)(i \<mapsto> r)\<rparr>"

text \<open>The part of \<open>place_order\<close> that stores the new order under the next number.\<close>

definition deriv_store_order :: "(u64 \<Rightarrow> order) \<Rightarrow> 'tk deriv \<Rightarrow> 'tk deriv" where
  "deriv_store_order mk s =
     (let order_id = dv_count s + 1 in
      s\<lparr>dv_order := (dv_order s)(order_id \<mapsto> mk order_id),
        dv_order_count := Some order_id,
        dv_order_ids := Some (unwrap_or (dv_order_ids s) [] @ [order_id])\<rparr>)"

definition deriv_place_order ::
  "env \<Rightarrow> address \<Rightarrow> symbol \<Rightarrow> address \<Rightarrow> int \<Rightarrow> u64 \<Rightarrow> int \<Rightarrow> bool \<Rightarrow> 'tk deriv \<Rightarrow> ('tk, u64) deriv_result" where
  "deriv_place_order e caller dt und strike x qty buy s =
     and_then (require_auth e caller) (\<lambda>_.
     if qty \<le> 0 \<or> strike \<le> 0 then fail DInvalidAmount
     else let order_id = dv_count s + 1;
              s1 = deriv_store_order (\<lambda>i. \<lparr>ord_id = i, ord_owner = caller, derivative_type = dt,
                     underlying = und, strike_price = strike, expiry = x, quantity = qty,
                     is_buy = buy, settled = False\<rparr>) s
       in Inr (order_id, s1\<lparr>dv_events := dv_events s1 @ [DPlaced order_id caller]\<rparr>))"

text \<open>The first loop of \<open>match_orders\<close>: the orders that are still open, in the order of placing.\<close>

fun open_orders :: "(u64 \<rightharpoonup> order) \<Rightarrow> u64 list \<Rightarrow> order list" where
  "open_orders f [] = []"
| "open_orders f (i # is) =
     (case f i of
        Some r \<Rightarrow> if settled r then open_orders f is else r # open_orders f is
      | None \<Rightarrow> open_orders f is)"

definition crosses :: "order \<Rightarrow> order \<Rightarrow> bool" where
  "crosses buy sell \<longleftrightarrow>
     \<not> is_buy sell \<and> derivative_type buy = derivative_type sell \<and>
     strike_price sell \<le> strike_price buy"

definition record_match :: "order \<Rightarrow> order \<Rightarrow> 'tk deriv \<Rightarrow> 'tk deriv" where
  "record_match buy sell s =
     (let match_price = strike_price sell;
          match_qty = (if quantity buy < quantity sell then quantity buy else quantity sell);
          buy_pos = \<lparr>pos_owner = ord_owner buy, derivative_id = ord_id buy,
                     pos_quantity = match_qty, entry_price = match_price\<rparr>;
          sell_pos = \<lparr>pos_owner = ord_owner sell, derivative_id = ord_id sell,
                     pos_quantity = match_qty, entry_price = match_price\<rparr>;
          s1 = s\<lparr>dv_position := (dv_position s)((ord_owner buy, ord_id buy) \<mapsto> buy_pos,
                                              (ord_owner sell, ord_id sell) \<mapsto> sell_pos),
                 dv_events := dv_events s @ [DMatched (ord_id buy) (ord_id sell) match_price]\<rparr>
      in set_order (ord_id sell) (sell\<lparr>settled := True\<rparr>)
           (set_order (ord_id buy) (buy\<lparr>settled := True\<rparr>) s1))"

text \<open>
  The nested loops. The inner one looks for the first order after the buy order that it crosses
  and stops there; the orders are read from the snapshot taken at the start.
\<close>

fun match_loop :: "order list \<Rightarrow> 'tk deriv \<Rightarrow> 'tk deriv" where
  "match_loop [] s = s"
| "match_loop (buy # rest) s =
     match_loop rest
       (if is_buy buy
        then (case find (crosses buy) rest of
                Some sell \<Rightarrow> record_match buy sell s
              | None \<Rightarrow> s)
        else s)"

definition match_orders :: "'tk deriv \<Rightarrow> 'tk deriv" where
  "match_orders s = match_loop (open_orders (dv_order s) (unwrap_or (dv_order_ids s) [])) s"

definition settle_order ::
  "'tk transfer_fn \<Rightarrow> env \<Rightarrow> address \<Rightarrow> u64 \<Rightarrow> 'tk deriv \<Rightarrow> ('tk, unit) deriv_result" where
  "settle_order tr e caller i s =
     and_then (require_auth e caller) (\<lambda>_.
     and_then (ok_or DOrderNotFound (dv_order s i)) (\<lambda>r.
     if settled r then fail DAlreadySettled
     else if timestamp e < expiry r then fail DNotExpired
     else let settlement_value = mul_i128 (quantity r) (strike_price r) in
     and_then (call_transfer tr (dv_tokens s) (underlying r) (contract_address e) (ord_owner r) settlement_value) (\<lambda>tk.
     let s1 = set_order i (r\<lparr>settled := True\<rparr>) (s\<lparr>dv_tokens := tk\<rparr>) in
     Inr ((), s1\<lparr>dv_events := dv_events s1 @ [DSettled i settlement_value]\<rparr>))))"

definition get_position :: "address \<Rightarrow> u64 \<Rightarrow> 'tk deriv \<Rightarrow> (deriv_error, position) result" where
  "get_position owner i s = ok_or DPositionNotFound (dv_position s (owner, i))"

definition deriv_cancel_order :: "env \<Rightarrow> address \<Rightarrow> u64 \<Rightarrow> 'tk deriv \<Rightarrow> ('tk, unit) deriv_result" where
  "deriv_cancel_order e caller i s =
     and_then (require_auth e caller) (\<lambda>_.
     and_then (ok_or DOrderNotFound (dv_order s i)) (\<lambda>r.
     if ord_owner r \<noteq> caller then fail DUnauthorized
     else if settled r then fail DAlreadySettled
     else Inr ((), set_order i (r\<lparr>settled := True\<rparr>) s)))"

interpretation deriv_ids: id_registry dv_order dv_count ord_id deriv_store_order
  by unfold_locales (simp_all add: deriv_store_order_def dv_count_def Let_def)


section \<open>Orders are immutable and settlement is final\<close>

inductive deriv_step :: "'tk transfer_fn \<Rightarrow> 'tk deriv \<Rightarrow> 'tk deriv \<Rightarrow> bool" for tr :: "'tk transfer_fn" where
  place: "deriv_place_order e c dt u k x q b s = Inr (i, s') \<Longrightarrow> dv_count s \<noteq> - 1 \<Longrightarrow> deriv_step tr s s'"
| match: "deriv_step tr s (match_orders s)"
| settle: "settle_order tr e c i s = Inr ((), s') \<Longrightarrow> deriv_step tr s s'"
| cancel: "deriv_cancel_order e c i s = Inr ((), s') \<Longrightarrow> deriv_step tr s s'"

abbreviation orders_wf :: "'tk deriv \<Rightarrow> bool" where
  "orders_wf \<equiv> ids_wf dv_order dv_count ord_id"

lemma deriv_place_order_Inr_iff [result_simps]:
  "deriv_place_order e c dt u k x q b s = Inr (i, s') \<longleftrightarrow>
     authorized e c \<and> 0 < q \<and> 0 < k \<and> i = dv_count s + 1 \<and>
     s' = (let s1 = deriv_store_order (\<lambda>i. \<lparr>ord_id = i, ord_owner = c, derivative_type = dt,
                     underlying = u, strike_price = k, expiry = x, quantity = q,
                     is_buy = b, settled = False\<rparr>) s
           in s1\<lparr>dv_events := dv_events s1 @ [DPlaced i c]\<rparr>)"
  by (auto simp: deriv_place_order_def Let_def result_simps not_le)

lemma settle_order_Inr_iff [result_simps]:
  "settle_order tr e c i s = Inr (u, s') \<longleftrightarrow>
     authorized e c \<and> (\<exists>r tk. dv_order s i = Some r \<and> \<not> settled r \<and> expiry r \<le> timestamp e \<and>
       tr (dv_tokens s) (underlying r) (contract_address e) (ord_owner r) (mul_i128 (quantity r) (strike_price r)) = Some tk \<and>
       s' = s\<lparr>dv_tokens := tk, dv_order := (dv_order s)(i \<mapsto> r\<lparr>settled := True\<rparr>),
              dv_events := dv_events s @ [DSettled i (mul_i128 (quantity r) (strike_price r))]\<rparr>)"
  by (auto simp: settle_order_def set_order_def Let_def result_simps not_less)

lemma deriv_cancel_order_Inr_iff [result_simps]:
  "deriv_cancel_order e c i s = Inr (u, s') \<longleftrightarrow>
     authorized e c \<and> (\<exists>r. dv_order s i = Some r \<and> ord_owner r = c \<and> \<not> settled r \<and>
       s' = set_order i (r\<lparr>settled := True\<rparr>) s)"
  by (auto simp: deriv_cancel_order_def result_simps)

lemma open_orders_sound:
  "r \<in> set (open_orders f is) \<Longrightarrow> \<exists>i\<in>set is. f i = Some r \<and> \<not> settled r"
  by (induction "is") (auto split: option.splits if_splits)

lemma record_match_orders:
  "dv_order (record_match b r s) = (dv_order s)(ord_id b \<mapsto> b\<lparr>settled := True\<rparr>, ord_id r \<mapsto> r\<lparr>settled := True\<rparr>)"
  "dv_order_count (record_match b r s) = dv_order_count s"
  "dv_events (record_match b r s) = dv_events s @ [DMatched (ord_id b) (ord_id r) (strike_price r)]"
  "dv_tokens (record_match b r s) = dv_tokens s"
  by (simp_all add: record_match_def set_order_def Let_def)

lemma find_crosses: "find (crosses b) rest = Some r \<Longrightarrow> r \<in> set rest \<and> crosses b r"
  by (auto simp: find_Some_iff)

lemma match_loop_order:
  "dv_order (match_loop os s) i = dv_order s i \<or>
   (\<exists>r\<in>set os. ord_id r = i \<and> dv_order (match_loop os s) i = Some (r\<lparr>settled := True\<rparr>))"
proof (induction os arbitrary: s)
  case (Cons b rest)
  show ?case
  proof (cases "if is_buy b then find (crosses b) rest else None")
    case None
    then have "match_loop (b # rest) s = match_loop rest s" by (auto split: if_splits)
    then show ?thesis using Cons [of s] by auto
  next
    case (Some r)
    then have m: "match_loop (b # rest) s = match_loop rest (record_match b r s)" and "r \<in> set rest"
      by (auto split: if_splits dest: find_crosses)
    have ih: "dv_order (match_loop (b # rest) s) i = dv_order (record_match b r s) i \<or>
        (\<exists>q\<in>set rest. ord_id q = i \<and> dv_order (match_loop (b # rest) s) i = Some (q\<lparr>settled := True\<rparr>))"
      unfolding m by (rule Cons)
    consider "i = ord_id r" | "i = ord_id b" "i \<noteq> ord_id r" | "i \<noteq> ord_id b" "i \<noteq> ord_id r" by blast
    then show ?thesis
      using ih \<open>r \<in> set rest\<close> by cases (auto simp: record_match_orders simp del: match_loop.simps)
  qed
qed simp

lemma match_orders_order:
  assumes "orders_wf s" "dv_order s i = Some r"
  shows "\<exists>b. dv_order (match_orders s) i = Some (r\<lparr>settled := b\<rparr>) \<and> (settled r \<longrightarrow> b)"
proof -
  let ?os = "open_orders (dv_order s) (unwrap_or (dv_order_ids s) [])"
  consider "dv_order (match_orders s) i = Some r"
    | q where "q \<in> set ?os" "ord_id q = i" "dv_order (match_orders s) i = Some (q\<lparr>settled := True\<rparr>)"
    using match_loop_order [of ?os s i] assms(2) by (auto simp: match_orders_def)
  then show ?thesis
  proof cases
    case 1
    then have "dv_order (match_orders s) i = Some (r\<lparr>settled := settled r\<rparr>)" by simp
    then show ?thesis by blast
  next
    case 2
    then obtain j where "dv_order s j = Some q" using open_orders_sound by blast
    then have "q = r" using ids_wfD(1) [OF assms(1)] 2 assms(2) by auto
    then show ?thesis using 2 by blast
  qed
qed

text \<open>
  The terms of a derivatives order never change, and once an order is marked settled, by a
  match, a settlement or a cancellation, it stays so: every step of the contract leaves each
  stored order as it is, except that an open one may become settled.
\<close>

theorem deriv_orders_are_immutable:
  assumes "orders_wf s" "deriv_step tr s s'" "dv_order s i = Some r"
  shows "\<exists>b. dv_order s' i = Some (r\<lparr>settled := b\<rparr>) \<and> (settled r \<longrightarrow> b)"
  using assms(2)
proof cases
  case (place e c dt u k x q b j)
  then have "i \<noteq> dv_count s + 1"
    using deriv_ids.add_fresh(1) [OF assms(1)] assms(3) by auto
  then have "dv_order s' i = Some (r\<lparr>settled := settled r\<rparr>)"
    using place assms(3) by (auto simp: deriv_place_order_Inr_iff deriv_store_order_def Let_def)
  then show ?thesis by blast
next
  case match
  then show ?thesis using match_orders_order [OF assms(1,3)] by simp
next
  case (settle e c j)
  then show ?thesis using assms(3)
    by (cases "i = j") (auto simp: settle_order_Inr_iff intro: exI [of _ "settled r"])
next
  case (cancel e c j)
  then show ?thesis using assms(3)
    by (cases "i = j") (auto simp: deriv_cancel_order_Inr_iff set_order_def intro: exI [of _ "settled r"])
qed

lemma match_orders_wf:
  assumes "orders_wf s"
  shows "orders_wf (match_orders s)"
proof -
  let ?os = "open_orders (dv_order s) (unwrap_or (dv_order_ids s) [])"
  have cnt: "dv_order_count (match_loop os s1) = dv_order_count s1" for os and s1 :: "'a deriv"
    by (induction os arbitrary: s1) (auto simp: record_match_orders split: option.split)
  have q: "dv_order s (ord_id r) = Some r" if "r \<in> set ?os" for r
    using open_orders_sound [OF that] ids_wfD(1) [OF assms] by auto
  have "(dv_order (match_orders s) i = None) = (dv_order s i = None) \<and>
        (\<forall>r. dv_order (match_orders s) i = Some r \<longrightarrow> ord_id r = i)" for i
    using match_loop_order [of ?os s i] q ids_wfD(1) [OF assms, of i]
    by (auto simp: match_orders_def)
  then show ?thesis
    using assms by (simp add: ids_wf_def dv_count_def cnt match_orders_def)
qed

lemma deriv_step_wf:
  assumes "deriv_step tr s s'" "orders_wf s"
  shows "orders_wf s'"
  using assms(1)
proof cases
  case (place e c dt u k x q b i)
  let ?mk = "\<lambda>i. \<lparr>ord_id = i, ord_owner = c, derivative_type = dt, underlying = u, strike_price = k,
               expiry = x, quantity = q, is_buy = b, settled = False\<rparr>"
  have "orders_wf (deriv_store_order ?mk s)"
    by (rule deriv_ids.add_wf [OF assms(2) place(2)]) simp
  then show ?thesis using place
    by (auto simp: deriv_place_order_Inr_iff ids_wf_def dv_count_def Let_def)
next
  case match
  then show ?thesis using match_orders_wf assms(2) by simp
next
  case (settle e c i)
  then obtain r where r: "dv_order s i = Some r" "dv_order s' = (dv_order s)(i \<mapsto> r\<lparr>settled := True\<rparr>)"
      "dv_count s' = dv_count s"
    by (auto simp: settle_order_Inr_iff dv_count_def)
  then show ?thesis
    using ids_wf_update [OF assms(2) r(1) _ r(2,3)] ids_wfD(1) [OF assms(2) r(1)] by simp
next
  case (cancel e c i)
  then obtain r where r: "dv_order s i = Some r" "dv_order s' = (dv_order s)(i \<mapsto> r\<lparr>settled := True\<rparr>)"
      "dv_count s' = dv_count s"
    by (auto simp: deriv_cancel_order_Inr_iff set_order_def dv_count_def)
  then show ?thesis
    using ids_wf_update [OF assms(2) r(1) _ r(2,3)] ids_wfD(1) [OF assms(2) r(1)] by simp
qed

section \<open>Matching\<close>

lemma match_loop_events:
  assumes "DMatched b a p \<in> set (dv_events (match_loop os s))" "DMatched b a p \<notin> set (dv_events s)"
  shows "\<exists>buy sell. buy \<in> set os \<and> sell \<in> set os \<and> ord_id buy = b \<and> ord_id sell = a \<and>
           is_buy buy \<and> crosses buy sell \<and> p = strike_price sell"
  using assms
proof (induction os arbitrary: s)
  case (Cons o1 rest)
  show ?case
  proof (cases "if is_buy o1 then find (crosses o1) rest else None")
    case None
    then have "match_loop (o1 # rest) s = match_loop rest s" by (auto split: if_splits)
    then show ?thesis using Cons.IH [of s] Cons.prems by auto
  next
    case (Some r)
    then have m: "match_loop (o1 # rest) s = match_loop rest (record_match o1 r s)"
      and r: "is_buy o1" "r \<in> set rest" "crosses o1 r"
      by (auto split: if_splits dest: find_crosses)
    show ?thesis
    proof (cases "DMatched b a p = DMatched (ord_id o1) (ord_id r) (strike_price r)")
      case True
      then show ?thesis using r by auto
    next
      case False
      then have "DMatched b a p \<notin> set (dv_events (record_match o1 r s))"
        using Cons.prems(2) by (simp add: record_match_orders)
      then show ?thesis using Cons.IH [of "record_match o1 r s"] Cons.prems(1) unfolding m by auto
    qed
  qed
qed simp

lemma match_loop_settles:
  assumes "DMatched b a p \<in> set (dv_events (match_loop os s))" "DMatched b a p \<notin> set (dv_events s)"
  shows "\<exists>r q. dv_order (match_loop os s) b = Some r \<and> settled r \<and> dv_order (match_loop os s) a = Some q \<and> settled q"
proof -
  have stay: "\<exists>r. dv_order (match_loop os s) i = Some r \<and> settled r"
    if "\<exists>r. dv_order s i = Some r \<and> settled r" for i os and s :: "'a deriv"
    using match_loop_order [of os s i] that by force
  show ?thesis using assms
  proof (induction os arbitrary: s)
    case (Cons o1 rest)
    show ?case
    proof (cases "if is_buy o1 then find (crosses o1) rest else None")
      case None
      then have "match_loop (o1 # rest) s = match_loop rest s" by (auto split: if_splits)
      then show ?thesis using Cons.IH [of s] Cons.prems by simp
    next
      case (Some r)
      then have m: "match_loop (o1 # rest) s = match_loop rest (record_match o1 r s)" by (auto split: if_splits)
      show ?thesis
      proof (cases "DMatched b a p = DMatched (ord_id o1) (ord_id r) (strike_price r)")
        case True
        then have "\<exists>q. dv_order (record_match o1 r s) b = Some q \<and> settled q"
          "\<exists>q. dv_order (record_match o1 r s) a = Some q \<and> settled q"
          by (auto simp: record_match_orders)
        from stay [OF this(1), of rest] stay [OF this(2), of rest] show ?thesis unfolding m by auto
      next
        case False
        then have "DMatched b a p \<notin> set (dv_events (record_match o1 r s))"
          using Cons.prems(2) by (simp add: record_match_orders)
        then show ?thesis using Cons.IH [of "record_match o1 r s"] Cons.prems(1) unfolding m by auto
      qed
    qed
  qed simp
qed

text \<open>
  Every match that \<open>match_orders\<close> reports is a fair one: it joins a buy and a sell order
  that were both open, of the same type, at the seller's strike price, which the buyer's strike
  price covers, and afterwards both orders are closed. Matching moves no tokens.
\<close>

theorem matches_are_fair:
  assumes "orders_wf s" "DMatched b a p \<in> set (dv_events (match_orders s))" "DMatched b a p \<notin> set (dv_events s)"
  shows "\<exists>buy sell. dv_order s b = Some buy \<and> dv_order s a = Some sell \<and> \<not> settled buy \<and> \<not> settled sell \<and>
    is_buy buy \<and> \<not> is_buy sell \<and> derivative_type buy = derivative_type sell \<and>
    p = strike_price sell \<and> strike_price sell \<le> strike_price buy \<and>
    dv_order (match_orders s) b = Some (buy\<lparr>settled := True\<rparr>) \<and>
    dv_order (match_orders s) a = Some (sell\<lparr>settled := True\<rparr>)"
proof -
  let ?os = "open_orders (dv_order s) (unwrap_or (dv_order_ids s) [])"
  have os: "dv_order s (ord_id r) = Some r \<and> \<not> settled r" if "r \<in> set ?os" for r
    using open_orders_sound [OF that] ids_wfD(1) [OF assms(1)] by auto
  obtain buy sell where m: "buy \<in> set ?os" "sell \<in> set ?os" "ord_id buy = b" "ord_id sell = a"
      "is_buy buy" "crosses buy sell" "p = strike_price sell"
    using match_loop_events [of b a p ?os s] assms(2,3) by (auto simp: match_orders_def)
  have "\<exists>r q. dv_order (match_orders s) b = Some r \<and> settled r \<and> dv_order (match_orders s) a = Some q \<and> settled q"
    using match_loop_settles [of b a p ?os s] assms(2,3) by (simp add: match_orders_def)
  then have "dv_order (match_orders s) b = Some (buy\<lparr>settled := True\<rparr>)"
    "dv_order (match_orders s) a = Some (sell\<lparr>settled := True\<rparr>)"
    using match_orders_order [OF assms(1), of b buy] match_orders_order [OF assms(1), of a sell]
      os [OF m(1)] os [OF m(2)] m(3,4) by auto
  then show ?thesis using m os [OF m(1)] os [OF m(2)] by (auto simp: crosses_def)
qed


section \<open>A concrete market\<close>

text \<open>
  Token 10, the contract at address 8 which holds 100 of it, traders 4 to 7. Three orders of one
  type: two buys of quantity 5 at price 10 and one sell of quantity 5 at price 9.
\<close>

definition dv_env :: "u64 \<Rightarrow> env" where
  "dv_env now = \<lparr>sequence = 0, timestamp = now, authorized = (\<lambda>a. a \<noteq> 8), contract_address = 8,
     new_entry_live = 0, extend_policy = (\<lambda>_ _ l. l), wasm_uploaded = (\<lambda>_. False)\<rparr>"

definition dv_ledger :: ledger where
  "dv_ledger = (\<lambda>t a. if t = 10 \<and> a = 8 then 100 else 0)"

definition dv_empty :: "ledger deriv" where
  "dv_empty = \<lparr>dv_order = Map.empty, dv_position = Map.empty, dv_order_count = None, dv_order_ids = None,
     dv_tokens = dv_ledger, dv_events = []\<rparr>"

definition dv_sample_order :: "u64 \<Rightarrow> address \<Rightarrow> int \<Rightarrow> bool \<Rightarrow> order" where
  "dv_sample_order i a k b = \<lparr>ord_id = i, ord_owner = a, derivative_type = ''opt'', underlying = 10,
     strike_price = k, expiry = 50, quantity = 5, is_buy = b, settled = False\<rparr>"

definition dv_market :: "ledger deriv" where
  "dv_market = dv_empty\<lparr>dv_order := [1 \<mapsto> dv_sample_order 1 5 10 True, 2 \<mapsto> dv_sample_order 2 6 10 True,
     3 \<mapsto> dv_sample_order 3 7 9 False], dv_order_count := Some 3, dv_order_ids := Some [1, 2, 3]\<rparr>"

lemma dv_market_wf: "orders_wf dv_market"
proof -
  have "0 < i \<and> i \<le> 3 \<longleftrightarrow> i = 1 \<or> i = 2 \<or> i = (3::u64)" for i
    using word_le_Suc_iff(1) [of 2 i] word_le_Suc_iff(1) [of 1 i] word_le_Suc_iff(1) [of 0 i]
    by (auto simp: word_gt_0)
  then show ?thesis
    by (auto simp: ids_wf_def dv_market_def dv_count_def dv_sample_order_def)
qed


theorem deriv_orders_are_immutable_witness:
  "\<exists>b. dv_order (match_orders dv_market) 3 = Some ((dv_sample_order 3 7 9 False)\<lparr>settled := b\<rparr>)"
proof -
  have "dv_order dv_market 3 = Some (dv_sample_order 3 7 9 False)" by (simp add: dv_market_def)
  from deriv_orders_are_immutable [OF dv_market_wf deriv_step.match this] show ?thesis by blast
qed

lemma dv_market_matched:
  "dv_events (match_orders dv_market) = [DMatched 1 3 9, DMatched 2 3 9]"
  "dv_position (match_orders dv_market) (7, 3) =
     Some \<lparr>pos_owner = 7, derivative_id = 3, pos_quantity = 5, entry_price = 9\<rparr>"
  "dv_position (match_orders dv_market) (5, 1) =
     Some \<lparr>pos_owner = 5, derivative_id = 1, pos_quantity = 5, entry_price = 9\<rparr>"
  "dv_position (match_orders dv_market) (6, 2) =
     Some \<lparr>pos_owner = 6, derivative_id = 2, pos_quantity = 5, entry_price = 9\<rparr>"
  by (simp_all add: match_orders_def dv_market_def dv_empty_def dv_sample_order_def crosses_def
      record_match_def set_order_def Let_def)

theorem matches_are_fair_witness:
  "DMatched 1 3 9 \<in> set (dv_events (match_orders dv_market)) \<and>
   (\<exists>buy sell. dv_order dv_market 1 = Some buy \<and> dv_order dv_market 3 = Some sell \<and>
      strike_price sell \<le> strike_price buy)"
proof -
  have "DMatched 1 3 9 \<in> set (dv_events (match_orders dv_market))" by (simp add: dv_market_matched)
  moreover have "DMatched 1 3 9 \<notin> set (dv_events dv_market)" by (simp add: dv_market_def dv_empty_def)
  ultimately show ?thesis using matches_are_fair [OF dv_market_wf] by blast
qed

text \<open>
  The quantities of matches need not balance: the loops read a snapshot of the open orders,
  so an order that was matched once is matched again. One sell order of quantity 5 gives two
  buyers a position of 5 each, ten bought against five sold.
\<close>

theorem one_sell_matches_two_buys:
  "orders_wf dv_market \<and>
   dv_events (match_orders dv_market) = [DMatched 1 3 9, DMatched 2 3 9] \<and>
   map_option pos_quantity (dv_position (match_orders dv_market) (5, 1)) = Some 5 \<and>
   map_option pos_quantity (dv_position (match_orders dv_market) (6, 2)) = Some 5 \<and>
   map_option pos_quantity (dv_position (match_orders dv_market) (7, 3)) = Some 5"
  by (simp add: dv_market_wf dv_market_matched)

text \<open>
  Settlement pays out money that was never paid in: placing an order deposits nothing, and an
  unmatched order past its expiry is paid its quantity times its strike price from whatever the
  contract holds. Here trader 4, who owns nothing, places an order that is already expired, settles
  it in the same ledger, and leaves with everything the contract held.
\<close>

theorem settlement_pays_unescrowed_money:
  "\<exists>s1 s2. deriv_place_order (dv_env 60) 4 ''opt'' 10 20 50 5 True dv_empty = Inr (1, s1) \<and>
     dv_tokens s1 = dv_tokens dv_empty \<and> ledger_holding (dv_tokens s1) 10 4 = 0 \<and>
     settle_order ledger_transfer (dv_env 60) 4 1 s1 = Inr ((), s2) \<and>
     ledger_holding (dv_tokens s2) 10 4 = 100 \<and> ledger_holding (dv_tokens s2) 10 8 = 0"
  by (simp add: deriv_place_order_Inr_iff settle_order_Inr_iff dv_env_def dv_empty_def dv_count_def
      deriv_store_order_def dv_ledger_def ledger_transfer_def ledger_holding_def Let_def mul_i128_def
      in_i128_def I128_MAX_def I128_MIN_def)

text \<open>
  Placing an order gives it a number no order had, keeps every other order and the numbering
  of the store, and stores the order as given, open; it is refused exactly when the caller did not
  authorise it or the quantity or the price is not positive.
\<close>

theorem deriv_place_order_adds_one:
  assumes "orders_wf s" "dv_count s \<noteq> - 1"
  shows "(case deriv_place_order e c dt u k x q b s of
      Inl f \<Rightarrow> \<not> authorized e c \<and> f = Unauthenticated \<or> (q \<le> 0 \<or> k \<le> 0) \<and> f = ContractError DInvalidAmount
    | Inr (i, s') \<Rightarrow> authorized e c \<and> 0 < q \<and> 0 < k \<and> dv_order s i = None \<and> orders_wf s' \<and>
        dv_order s' = (dv_order s)(i \<mapsto> \<lparr>ord_id = i, ord_owner = c, derivative_type = dt,
          underlying = u, strike_price = k, expiry = x, quantity = q, is_buy = b, settled = False\<rparr>) \<and>
        dv_tokens s' = dv_tokens s)"
proof (cases "deriv_place_order e c dt u k x q b s")
  case (Inl f)
  then show ?thesis
    by (auto simp: deriv_place_order_def require_auth_def Let_def split: if_splits)
next
  case (Inr p)
  obtain i s' where p: "p = (i, s')" by (cases p)
  note ok = Inr [unfolded p]
  have "deriv_step (\<lambda>_ _ _ _ _. None) s s'" using deriv_step.place [OF ok assms(2)] .
  then have "orders_wf s'" by (rule deriv_step_wf [OF _ assms(1)])
  moreover have "dv_order s i = None"
    using deriv_ids.add_fresh(1) [OF assms] ok by (simp add: deriv_place_order_Inr_iff)
  ultimately show ?thesis
    using ok [unfolded deriv_place_order_Inr_iff] unfolding ok
    by (simp add: deriv_store_order_def Let_def)
qed

theorem deriv_place_order_adds_one_witness:
  "case deriv_place_order (dv_env 0) 4 ''opt'' 10 7 50 2 False dv_market of
     Inl f \<Rightarrow> False | Inr (i, s') \<Rightarrow> i = 4 \<and> orders_wf s'"
proof -
  have "dv_count dv_market \<noteq> - 1" by (simp add: dv_count_def dv_market_def)
  from deriv_place_order_adds_one [OF dv_market_wf this, where e = "dv_env 0" and c = 4 and dt = "''opt''" and
      u = 10 and k = 7 and x = 50 and q = 2 and b = False]
  show ?thesis
    by (auto simp: deriv_place_order_def dv_env_def dv_count_def dv_market_def Let_def split: sum.splits)
qed

end
