(* ===== verification/Risk_Management.thy ===== *)
theory Risk_Management
  imports Host
begin

text \<open>
  The risk-management contract, \<^verbatim>\<open>src/contracts/risk-management/src/lib.rs\<close>: each participant has
  a profile with an exposure, an alert threshold and a score, and the contract keeps the sum of
  all exposures. Exposures are updated with the unchecked \<^verbatim>\<open>+=\<close>, so they wrap at 128 bits.
\<close>

section \<open>State\<close>

record risk_profile =
  rp_owner :: address
  exposure :: int
  risk_score :: u32
  alert_threshold :: int

record risk_metrics =
  total_exposure :: int
  high_risk_count :: u32
  last_updated :: u64

datatype risk_error =
    RUnauthorized
  | RNotRegistered
  | RExposureLimitExceeded
  | RAlreadyRegistered
  | RInvalidThreshold

datatype risk_event =
    ExposureUpdated address int u32
  | ExposureAlert address int int

record risk =
  rk_profile :: "address \<rightharpoonup> risk_profile"
  rk_metrics :: "risk_metrics option"
  rk_admin :: "address option"
  rk_events :: "risk_event list"

type_synonym risk_result = "(risk_error, risk) result"

section \<open>Operations\<close>

definition default_metrics :: risk_metrics where
  "default_metrics = \<lparr>total_exposure = 0, high_risk_count = 0, last_updated = 0\<rparr>"

definition get_risk_metrics :: "risk \<Rightarrow> risk_metrics" where
  "get_risk_metrics s = unwrap_or (rk_metrics s) default_metrics"

definition risk_init :: "env \<Rightarrow> address \<Rightarrow> risk \<Rightarrow> risk_result" where
  "risk_init e adm s =
     and_then (require_auth e adm) (\<lambda>_.
     Inr (s\<lparr>rk_admin := Some adm,
            rk_metrics := Some \<lparr>total_exposure = 0, high_risk_count = 0, last_updated = timestamp e\<rparr>\<rparr>))"

definition register_participant :: "env \<Rightarrow> address \<Rightarrow> int \<Rightarrow> risk \<Rightarrow> risk_result" where
  "register_participant e caller threshold s =
     and_then (require_auth e caller) (\<lambda>_.
     if threshold \<le> 0 then fail RInvalidThreshold
     else if rk_profile s caller \<noteq> None then fail RAlreadyRegistered
     else Inr (s\<lparr>rk_profile := (rk_profile s)(caller \<mapsto>
       \<lparr>rp_owner = caller, exposure = 0, risk_score = 0, alert_threshold = threshold\<rparr>)\<rparr>))"

text \<open>The score of an exposure: a percentage of the threshold, clamped to the range 0 to 100.\<close>

definition raw_score :: "int \<Rightarrow> int \<Rightarrow> (risk_error, int) result" where
  "raw_score x threshold =
     (if threshold > 0 then div_i128 (mul_i128 x 100) threshold else Inr 100)"

definition clamp_score :: "int \<Rightarrow> u32" where
  "clamp_score raw = (if raw > 100 then 100 else if raw < 0 then 0 else word_of_int raw)"

definition update_exposure :: "env \<Rightarrow> address \<Rightarrow> int \<Rightarrow> risk \<Rightarrow> risk_result" where
  "update_exposure e caller delta s =
     and_then (require_auth e caller) (\<lambda>_.
     and_then (ok_or RNotRegistered (rk_profile s caller)) (\<lambda>profile.
     let old_exposure = exposure profile;
         new_exposure = add_i128 old_exposure delta in
     and_then (raw_score new_exposure (alert_threshold profile)) (\<lambda>raw.
     let profile' = profile\<lparr>exposure := new_exposure, risk_score := clamp_score raw\<rparr>;
         metrics = get_risk_metrics s;
         metrics' = metrics\<lparr>total_exposure :=
             add_i128 (sub_i128 (total_exposure metrics) old_exposure) new_exposure,
           last_updated := timestamp e\<rparr>;
         updated = [ExposureUpdated caller new_exposure (clamp_score raw)];
         alert = (if new_exposure > alert_threshold profile
                  then [ExposureAlert caller new_exposure (alert_threshold profile)] else [])
     in Inr (s\<lparr>rk_profile := (rk_profile s)(caller \<mapsto> profile'),
               rk_metrics := Some metrics',
               rk_events := rk_events s @ updated @ alert\<rparr>))))"

definition check_exposure :: "address \<Rightarrow> risk \<Rightarrow> (risk_error, risk_profile) result" where
  "check_exposure owner s = ok_or RNotRegistered (rk_profile s owner)"

definition enforce_limit :: "env \<Rightarrow> address \<Rightarrow> risk \<Rightarrow> (risk_error, unit) result" where
  "enforce_limit e caller s =
     and_then (require_auth e caller) (\<lambda>_.
     and_then (ok_or RNotRegistered (rk_profile s caller)) (\<lambda>profile.
     if exposure profile > alert_threshold profile then fail RExposureLimitExceeded else Inr ()))"

definition reset_exposure :: "env \<Rightarrow> address \<Rightarrow> address \<Rightarrow> risk \<Rightarrow> risk_result" where
  "reset_exposure e adm owner s =
     and_then (require_auth e adm) (\<lambda>_.
     and_then (ok_or RUnauthorized (rk_admin s)) (\<lambda>stored_admin.
     if stored_admin \<noteq> adm then fail RUnauthorized
     else and_then (ok_or RNotRegistered (rk_profile s owner)) (\<lambda>profile.
     let metrics = get_risk_metrics s in
     Inr (s\<lparr>rk_profile := (rk_profile s)(owner \<mapsto> profile\<lparr>exposure := 0, risk_score := 0\<rparr>),
            rk_metrics := Some (metrics\<lparr>total_exposure := sub_i128 (total_exposure metrics) (exposure profile),
              last_updated := timestamp e\<rparr>)\<rparr>))))"

section \<open>Inversion\<close>

lemma register_participant_Inr_iff [result_simps]:
  "register_participant e c th s = Inr s' \<longleftrightarrow>
     authorized e c \<and> 0 < th \<and> rk_profile s c = None \<and>
     s' = s\<lparr>rk_profile := (rk_profile s)(c \<mapsto> \<lparr>rp_owner = c, exposure = 0, risk_score = 0, alert_threshold = th\<rparr>)\<rparr>"
  by (auto simp: register_participant_def result_simps not_le simp del: not_None_eq)

lemma update_exposure_Inr_iff [result_simps]:
  "update_exposure e c d s = Inr s' \<longleftrightarrow>
     authorized e c \<and> (\<exists>p raw. rk_profile s c = Some p \<and>
       raw_score (add_i128 (exposure p) d) (alert_threshold p) = Inr raw \<and>
       s' = s\<lparr>rk_profile := (rk_profile s)(c \<mapsto> p\<lparr>exposure := add_i128 (exposure p) d, risk_score := clamp_score raw\<rparr>),
           rk_metrics := Some ((get_risk_metrics s)\<lparr>total_exposure :=
             add_i128 (sub_i128 (total_exposure (get_risk_metrics s)) (exposure p)) (add_i128 (exposure p) d),
             last_updated := timestamp e\<rparr>),
           rk_events := rk_events s @ [ExposureUpdated c (add_i128 (exposure p) d) (clamp_score raw)] @
             (if add_i128 (exposure p) d > alert_threshold p
              then [ExposureAlert c (add_i128 (exposure p) d) (alert_threshold p)] else [])\<rparr>)"
  unfolding update_exposure_def Let_def
  by (simp only: and_then_Inr_iff require_auth_Inr_iff ok_or_Inr_iff sum.inject ex_simps simp_thms)
    (auto simp del: append.simps append_Cons)

lemma reset_exposure_Inr_iff [result_simps]:
  "reset_exposure e adm c s = Inr s' \<longleftrightarrow>
     authorized e adm \<and> rk_admin s = Some adm \<and> (\<exists>p. rk_profile s c = Some p \<and>
       s' = s\<lparr>rk_profile := (rk_profile s)(c \<mapsto> p\<lparr>exposure := 0, risk_score := 0\<rparr>),
            rk_metrics := Some ((get_risk_metrics s)\<lparr>total_exposure :=
              sub_i128 (total_exposure (get_risk_metrics s)) (exposure p), last_updated := timestamp e\<rparr>)\<rparr>)"
  by (auto simp: reset_exposure_def Let_def result_simps)

section \<open>Properties\<close>

definition exposure_of :: "risk \<Rightarrow> address \<Rightarrow> int" where
  "exposure_of s a = (case rk_profile s a of None \<Rightarrow> 0 | Some p \<Rightarrow> exposure p)"

definition risk_inv :: "risk \<Rightarrow> bool" where
  "risk_inv s \<longleftrightarrow>
     finite (dom (rk_profile s)) \<and>
     total_exposure (get_risk_metrics s) = wrap_i128 (support_total (exposure_of s)) \<and>
     (\<forall>a p. rk_profile s a = Some p \<longrightarrow>
        rp_owner p = a \<and> 0 < alert_threshold p \<and> risk_score p \<le> 100 \<and> in_i128 (exposure p))"

inductive risk_step :: "risk \<Rightarrow> risk \<Rightarrow> bool" where
  register: "register_participant e c th s = Inr s' \<Longrightarrow> risk_step s s'"
| update: "update_exposure e c d s = Inr s' \<Longrightarrow> risk_step s s'"
| reset: "reset_exposure e adm c s = Inr s' \<Longrightarrow> risk_step s s'"

lemma clamp_score_le: "clamp_score raw \<le> 100"
proof -
  have "word_of_int raw \<le> (100::u32)" if "0 \<le> raw" "raw \<le> 100"
  proof -
    have "raw mod 2 ^ 32 = raw" using that by (intro mod_pos_pos_trivial) auto
    then show ?thesis using that by (simp add: word_le_def uint_word_of_int take_bit_eq_mod)
  qed
  then show ?thesis by (auto simp: clamp_score_def not_less)
qed

lemma finite_exposures: "finite (dom (rk_profile s)) \<Longrightarrow> finite (support (exposure_of s))"
  by (rule finite_subset [of _ "dom (rk_profile s)"])
    (auto simp: support_def exposure_of_def split: option.splits)

lemma exposure_of_upd:
  "exposure_of (s\<lparr>rk_profile := (rk_profile s)(a \<mapsto> p), rk_metrics := m, rk_events := v\<rparr>) = (exposure_of s)(a := exposure p)"
  "exposure_of (s\<lparr>rk_profile := (rk_profile s)(a \<mapsto> p), rk_metrics := m\<rparr>) = (exposure_of s)(a := exposure p)"
  "exposure_of (s\<lparr>rk_profile := (rk_profile s)(a \<mapsto> p)\<rparr>) = (exposure_of s)(a := exposure p)"
  by (auto simp: exposure_of_def fun_eq_iff)

lemma risk_step_inv:
  assumes "risk_step s s'" "risk_inv s"
  shows "risk_inv s'"
proof -
  have fin: "finite (support (exposure_of s))"
    and tot: "total_exposure (get_risk_metrics s) = wrap_i128 (support_total (exposure_of s))"
    using assms(2) by (auto simp: risk_inv_def intro: finite_exposures)
  from assms(1) show ?thesis
  proof cases
    case (register e c th)
    then have "exposure_of s c = 0" by (simp add: register_participant_Inr_iff exposure_of_def)
    then show ?thesis
      using register assms(2) fin
      by (auto simp: register_participant_Inr_iff risk_inv_def exposure_of_upd support_total_upd get_risk_metrics_def)
  next
    case (update e c d)
    then obtain p raw where p: "rk_profile s c = Some p"
      and s': "s' = s\<lparr>rk_profile := (rk_profile s)(c \<mapsto> p\<lparr>exposure := add_i128 (exposure p) d, risk_score := clamp_score raw\<rparr>),
           rk_metrics := Some ((get_risk_metrics s)\<lparr>total_exposure :=
             add_i128 (sub_i128 (total_exposure (get_risk_metrics s)) (exposure p)) (add_i128 (exposure p) d),
             last_updated := timestamp e\<rparr>),
           rk_events := rk_events s @ [ExposureUpdated c (add_i128 (exposure p) d) (clamp_score raw)] @
             (if add_i128 (exposure p) d > alert_threshold p
              then [ExposureAlert c (add_i128 (exposure p) d) (alert_threshold p)] else [])\<rparr>"
      unfolding update_exposure_Inr_iff by blast
    have e: "exposure_of s c = exposure p" by (simp add: exposure_of_def p)
    have "total_exposure (get_risk_metrics s') = wrap_i128 (support_total (exposure_of s'))"
      unfolding s' exposure_of_upd
      by (simp add: get_risk_metrics_def [of "s\<lparr>rk_profile := f, rk_metrics := m, rk_events := v\<rparr>" for f m v]
          tot wrap_i128_shift support_total_upd [OF fin] e)
    then show ?thesis
      using assms(2) p by (auto simp: risk_inv_def s' clamp_score_le)
  next
    case (reset e adm c)
    then obtain p where p: "rk_profile s c = Some p"
      and s': "s' = s\<lparr>rk_profile := (rk_profile s)(c \<mapsto> p\<lparr>exposure := 0, risk_score := 0\<rparr>),
            rk_metrics := Some ((get_risk_metrics s)\<lparr>total_exposure :=
              sub_i128 (total_exposure (get_risk_metrics s)) (exposure p), last_updated := timestamp e\<rparr>)\<rparr>"
      unfolding reset_exposure_Inr_iff by blast
    have e: "exposure_of s c = exposure p" by (simp add: exposure_of_def p)
    have z: "sub_i128 (wrap_i128 x) a = wrap_i128 (x - a)" for x a
      using wrap_i128_shift [of x a 0] by (simp add: add_i128_def)
    have "total_exposure (get_risk_metrics s') = wrap_i128 (support_total (exposure_of s'))"
      unfolding s' exposure_of_upd
      by (simp add: get_risk_metrics_def [of "s\<lparr>rk_profile := f, rk_metrics := m\<rparr>" for f m]
          tot z support_total_upd [OF fin] e)
    then show ?thesis
      using assms(2) p by (auto simp: risk_inv_def s')
  qed
qed


lemma risk_reach_inv: "risk_step\<^sup>*\<^sup>* s s' \<Longrightarrow> risk_inv s \<Longrightarrow> risk_inv s'"
  by (induction rule: rtranclp_induct) (auto intro: risk_step_inv)

definition risk_empty :: risk where
  "risk_empty = \<lparr>rk_profile = Map.empty, rk_metrics = None, rk_admin = None, rk_events = []\<rparr>"

lemma risk_init_inv: "risk_init e adm risk_empty = Inr s \<Longrightarrow> risk_inv s"
proof -
  assume "risk_init e adm risk_empty = Inr s"
  then have "s = risk_empty\<lparr>rk_admin := Some adm,
      rk_metrics := Some \<lparr>total_exposure = 0, high_risk_count = 0, last_updated = timestamp e\<rparr>\<rparr>"
    by (simp add: risk_init_def and_then_Inr_iff require_auth_def split: if_splits)
  moreover have "exposure_of (risk_empty\<lparr>rk_admin := a, rk_metrics := m\<rparr>) = (\<lambda>_. 0)" for a m
    by (simp add: exposure_of_def risk_empty_def fun_eq_iff)
  ultimately show ?thesis by (simp add: risk_inv_def get_risk_metrics_def) (simp add: risk_empty_def)
qed

text \<open>
  C19. After initialisation, through any sequence of registrations, exposure updates and resets,
  the stored total exposure is the sum of all participants' exposures reduced to 128 bits, hence
  the sum itself as long as the sum fits, and every score lies between 0 and 100.
\<close>

theorem total_exposure_is_the_sum:
  assumes "risk_init e adm risk_empty = Inr s0" "risk_step\<^sup>*\<^sup>* s0 s"
  shows "total_exposure (get_risk_metrics s) = wrap_i128 (support_total (exposure_of s)) \<and>
    (in_i128 (support_total (exposure_of s)) \<longrightarrow>
       total_exposure (get_risk_metrics s) = support_total (exposure_of s)) \<and>
    (\<forall>a p. check_exposure a s = Inr p \<longrightarrow> rp_owner p = a \<and> risk_score p \<le> 100 \<and> 0 < alert_threshold p)"
  using risk_reach_inv [OF assms(2) risk_init_inv [OF assms(1)]]
  by (auto simp: risk_inv_def check_exposure_def ok_or_Inr_iff)

text \<open>
  An exposure update that stays in range sets the score to the percentage of the threshold
  the new exposure reaches, at most 100, and raises an alert exactly when the limit check of the
  same participant would now refuse.
\<close>

theorem update_scores_and_alerts:
  assumes "risk_inv s" "rk_profile s c = Some p" "authorized e c"
    and "0 \<le> exposure p + d" "(exposure p + d) * 100 \<le> I128_MAX"
  shows "\<exists>s'. update_exposure e c d s = Inr s' \<and>
    rk_profile s' c = Some (p\<lparr>exposure := exposure p + d,
      risk_score := word_of_int (min 100 ((exposure p + d) * 100 div alert_threshold p))\<rparr>) \<and>
    (\<forall>a. a \<noteq> c \<longrightarrow> rk_profile s' a = rk_profile s a) \<and>
    (ExposureAlert c (exposure p + d) (alert_threshold p) = last (rk_events s') \<longleftrightarrow>
       enforce_limit e c s' = fail RExposureLimitExceeded)"
proof -
  let ?x = "exposure p + d"
  have x: "in_i128 ?x" "in_i128 (?x * 100)"
    using assms(4,5) by (simp_all add: in_i128_nonneg)
  have th: "0 < alert_threshold p" using assms(1,2) by (auto simp: risk_inv_def)
  have e: "add_i128 (exposure p) d = ?x" using x(1) by (rule add_i128_exact)
  have raw: "raw_score ?x (alert_threshold p) = Inr (?x * 100 div alert_threshold p)"
    using th x assms(4) by (simp add: raw_score_def mul_i128_exact div_i128_nonneg)
  have nn: "0 \<le> ?x * 100 div alert_threshold p"
    using th assms(4) by (simp add: pos_imp_zdiv_nonneg_iff)
  then have cl: "clamp_score (?x * 100 div alert_threshold p) = word_of_int (min 100 (?x * 100 div alert_threshold p))"
    by (auto simp: clamp_score_def min_def)
  obtain s' where s': "update_exposure e c d s = Inr s'"
    and st: "rk_profile s' = (rk_profile s)(c \<mapsto> p\<lparr>exposure := ?x, risk_score := clamp_score (?x * 100 div alert_threshold p)\<rparr>)"
    and ev: "rk_events s' = rk_events s @ [ExposureUpdated c ?x (clamp_score (?x * 100 div alert_threshold p))] @
             (if ?x > alert_threshold p then [ExposureAlert c ?x (alert_threshold p)] else [])"
    using assms(2,3) raw by (simp add: update_exposure_Inr_iff e)
  have "ExposureAlert c ?x (alert_threshold p) = last (rk_events s') \<longleftrightarrow> ?x > alert_threshold p"
    by (simp add: ev)
  moreover have "enforce_limit e c s' = fail RExposureLimitExceeded \<longleftrightarrow> ?x > alert_threshold p"
    using assms(3) by (simp add: enforce_limit_def st)
  moreover have "rk_profile s' c = Some (p\<lparr>exposure := ?x,
      risk_score := word_of_int (min 100 (?x * 100 div alert_threshold p))\<rparr>)"
    by (simp only: st cl fun_upd_same)
  ultimately show ?thesis using s' st by auto
qed

definition rk_env :: env where
  "rk_env = \<lparr>sequence = 0, timestamp = 9, authorized = (\<lambda>_. True), contract_address = 8,
     new_entry_live = 0, extend_policy = (\<lambda>_ _ l. l), wasm_uploaded = (\<lambda>_. False)\<rparr>"

lemma rk_sample:
  "\<exists>s0 s1 s2. risk_init rk_env 2 risk_empty = Inr s0 \<and> register_participant rk_env 3 1000 s0 = Inr s1 \<and>
     update_exposure rk_env 3 250 s1 = Inr s2 \<and> total_exposure (get_risk_metrics s2) = 250 \<and>
     rk_profile s2 3 = Some \<lparr>rp_owner = 3, exposure = 250, risk_score = 25, alert_threshold = 1000\<rparr> \<and>
     rk_admin s2 = Some 2"
  by (simp add: risk_init_def register_participant_Inr_iff update_exposure_Inr_iff rk_env_def risk_empty_def
      raw_score_def mul_i128_def add_i128_def sub_i128_def in_i128_def I128_MAX_def I128_MIN_def div_i128_def
      checked_div_i128_def signed_divide_int_def clamp_score_def get_risk_metrics_def require_auth_def)

theorem total_exposure_is_the_sum_witness:
  "\<exists>s0 s. risk_init rk_env 2 risk_empty = Inr s0 \<and> risk_step\<^sup>*\<^sup>* s0 s \<and>
     total_exposure (get_risk_metrics s) = 250 \<and> wrap_i128 (support_total (exposure_of s)) = 250"
proof -
  obtain s0 s1 s2 where s: "risk_init rk_env 2 risk_empty = Inr s0" "register_participant rk_env 3 1000 s0 = Inr s1"
     "update_exposure rk_env 3 250 s1 = Inr s2" "total_exposure (get_risk_metrics s2) = 250"
    using rk_sample by blast
  have "risk_step\<^sup>*\<^sup>* s0 s2"
    using risk_step.register [OF s(2)] risk_step.update [OF s(3)] by (meson rtranclp.simps)
  from total_exposure_is_the_sum [OF s(1) this] this s show ?thesis by metis
qed

theorem update_scores_and_alerts_witness:
  "\<exists>s s'. risk_inv s \<and> update_exposure rk_env 3 900 s = Inr s' \<and> enforce_limit rk_env 3 s' = fail RExposureLimitExceeded"
proof -
  obtain s0 s1 s2 where s: "risk_init rk_env 2 risk_empty = Inr s0" "register_participant rk_env 3 1000 s0 = Inr s1"
     "update_exposure rk_env 3 250 s1 = Inr s2"
     "rk_profile s2 3 = Some \<lparr>rp_owner = 3, exposure = 250, risk_score = 25, alert_threshold = 1000\<rparr>"
    using rk_sample by blast
  have "risk_inv s2"
    using risk_step_inv [OF risk_step.update [OF s(3)] risk_step_inv [OF risk_step.register [OF s(2)] risk_init_inv [OF s(1)]]] .
  moreover have "\<exists>s'. update_exposure rk_env 3 900 s2 = Inr s' \<and>
      rk_profile s' 3 = Some \<lparr>rp_owner = 3, exposure = 1150, risk_score = 100, alert_threshold = 1000\<rparr>"
    using update_scores_and_alerts [OF \<open>risk_inv s2\<close> s(4), of rk_env 900]
    by (auto simp: rk_env_def I128_MAX_def)
  ultimately show ?thesis by (auto simp: enforce_limit_def rk_env_def)
qed

text \<open>
  Initialisation can be repeated by anyone: a second call replaces the admin and zeroes the
  total although the participants keep their exposures. Here account 6 takes the role of admin 2
  and the recorded total no longer matches.
\<close>

theorem risk_init_can_be_repeated:
  "\<exists>s0 s1 s2 s3. risk_init rk_env 2 risk_empty = Inr s0 \<and> register_participant rk_env 3 1000 s0 = Inr s1 \<and>
     update_exposure rk_env 3 250 s1 = Inr s2 \<and> risk_init rk_env 6 s2 = Inr s3 \<and>
     rk_admin s3 = Some 6 \<and> total_exposure (get_risk_metrics s3) = 0 \<and> exposure_of s3 3 = 250"
proof -
  obtain s0 s1 s2 where s: "risk_init rk_env 2 risk_empty = Inr s0" "register_participant rk_env 3 1000 s0 = Inr s1"
     "update_exposure rk_env 3 250 s1 = Inr s2"
     "rk_profile s2 3 = Some \<lparr>rp_owner = 3, exposure = 250, risk_score = 25, alert_threshold = 1000\<rparr>"
    using rk_sample by blast
  obtain s3 where s3: "risk_init rk_env 6 s2 = Inr s3" "rk_admin s3 = Some 6"
      "total_exposure (get_risk_metrics s3) = 0" "exposure_of s3 3 = 250"
    using s(4) by (simp add: risk_init_def rk_env_def require_auth_def get_risk_metrics_def exposure_of_def)
  show ?thesis using s(1-3) s3 by blast
qed

end
