(* ===== verification/Limit_Orders.thy ===== *)
theory Limit_Orders
  imports Registry Token_Ledger
begin

text \<open>
  The limit-order contract, \<^verbatim>\<open>src/contracts/limit-orders/src/lib.rs\<close>: an order locks an amount
  of one token in the contract, is filled at once and completely when someone reports a price at
  or below its limit, and can be cancelled for a refund of what is not filled.
\<close>

section \<open>State\<close>

record limit_order =
  lo_id :: u64
  lo_owner :: address
  token_in :: address
  token_out :: address
  amount_in :: int
  limit_price :: int
  filled :: int
  cancelled :: bool

datatype limit_error =
    LUnauthorized
  | LOrderNotFound
  | LAlreadyCancelled
  | LInvalidAmount
  | LAlreadyFilled
  | LPriceNotMet

datatype limit_event =
    LPlaced u64 address int
  | LFilled u64 int int
  | LCancelled u64

record 'tk limit_book =
  lo_order :: "u64 \<rightharpoonup> limit_order"
  lo_order_count :: "u64 option"
  lo_book :: "address \<times> address \<rightharpoonup> u64 list"
  lo_tokens :: 'tk
  lo_events :: "limit_event list"

type_synonym ('tk, 'a) limit_result = "(limit_error, 'a \<times> 'tk limit_book) result"

definition lo_count :: "'tk limit_book \<Rightarrow> u64" where
  "lo_count s = unwrap_or (lo_order_count s) 0"

definition lo_ids :: "'tk limit_book \<Rightarrow> address \<times> address \<Rightarrow> u64 list" where
  "lo_ids s k = unwrap_or (lo_book s k) []"

definition lo_pair :: "limit_order \<Rightarrow> address \<times> address" where
  "lo_pair r = (token_in r, token_out r)"

section \<open>Operations\<close>

text \<open>The part of \<open>place_order\<close> that stores the new order and lists it in the book of its pair.\<close>

definition limit_store_order :: "(u64 \<Rightarrow> limit_order) \<Rightarrow> 'tk limit_book \<Rightarrow> 'tk limit_book" where
  "limit_store_order mk s =
     (let order_id = lo_count s + 1; k = lo_pair (mk order_id) in
      s\<lparr>lo_order := (lo_order s)(order_id \<mapsto> mk order_id),
        lo_order_count := Some order_id,
        lo_book := (lo_book s)(k \<mapsto> lo_ids s k @ [order_id])\<rparr>)"

definition limit_place_order ::
  "'tk transfer_fn \<Rightarrow> env \<Rightarrow> address \<Rightarrow> address \<Rightarrow> address \<Rightarrow> int \<Rightarrow> int \<Rightarrow> 'tk limit_book \<Rightarrow>
   ('tk, u64) limit_result" where
  "limit_place_order tr e caller tin tout amount price s =
     and_then (require_auth e caller) (\<lambda>_.
     if amount \<le> 0 \<or> price \<le> 0 then fail LInvalidAmount
     else and_then (call_transfer tr (lo_tokens s) tin caller (contract_address e) amount) (\<lambda>tk.
       let order_id = lo_count s + 1;
           s1 = limit_store_order (\<lambda>i. \<lparr>lo_id = i, lo_owner = caller, token_in = tin, token_out = tout,
                  amount_in = amount, limit_price = price, filled = 0, cancelled = False\<rparr>)
                  (s\<lparr>lo_tokens := tk\<rparr>)
       in Inr (order_id, s1\<lparr>lo_events := lo_events s1 @ [LPlaced order_id caller price]\<rparr>)))"

definition match_order ::
  "'tk transfer_fn \<Rightarrow> env \<Rightarrow> u64 \<Rightarrow> int \<Rightarrow> 'tk limit_book \<Rightarrow> ('tk, unit) limit_result" where
  "match_order tr e i current_price s =
     and_then (ok_or LOrderNotFound (lo_order s i)) (\<lambda>r.
     if cancelled r then fail LAlreadyCancelled
     else if current_price > limit_price r then fail LPriceNotMet
     else let remaining = sub_i128 (amount_in r) (filled r) in
     if remaining \<le> 0 then fail LAlreadyFilled
     else and_then (div_i128 (mul_i128 remaining (limit_price r)) current_price) (\<lambda>amount_out.
       and_then (call_transfer tr (lo_tokens s) (token_out r) (contract_address e) (lo_owner r) amount_out) (\<lambda>tk.
       Inr ((), s\<lparr>lo_tokens := tk,
         lo_order := (lo_order s)(i \<mapsto> r\<lparr>filled := add_i128 (filled r) remaining\<rparr>),
         lo_events := lo_events s @ [LFilled i remaining current_price]\<rparr>))))"

definition limit_cancel_order ::
  "'tk transfer_fn \<Rightarrow> env \<Rightarrow> address \<Rightarrow> u64 \<Rightarrow> 'tk limit_book \<Rightarrow> ('tk, unit) limit_result" where
  "limit_cancel_order tr e caller i s =
     and_then (require_auth e caller) (\<lambda>_.
     and_then (ok_or LOrderNotFound (lo_order s i)) (\<lambda>r.
     if lo_owner r \<noteq> caller then fail LUnauthorized
     else if cancelled r then fail LAlreadyCancelled
     else let remaining = sub_i128 (amount_in r) (filled r) in
     and_then (if remaining > 0
               then call_transfer tr (lo_tokens s) (token_in r) (contract_address e) caller remaining
               else Inr (lo_tokens s)) (\<lambda>tk.
     Inr ((), s\<lparr>lo_tokens := tk,
       lo_order := (lo_order s)(i \<mapsto> r\<lparr>cancelled := True\<rparr>),
       lo_events := lo_events s @ [LCancelled i]\<rparr>))))"

definition get_order :: "u64 \<Rightarrow> 'tk limit_book \<Rightarrow> (limit_error, limit_order) result" where
  "get_order i s = ok_or LOrderNotFound (lo_order s i)"

definition get_order_book :: "address \<Rightarrow> address \<Rightarrow> 'tk limit_book \<Rightarrow> limit_order list" where
  "get_order_book tin tout s = lookup_all (lo_order s) (lo_ids s (tin, tout))"

interpretation limit_ids: indexed_registry lo_order lo_count lo_id limit_store_order lo_ids lo_pair
  by unfold_locales (simp_all add: limit_store_order_def lo_count_def lo_ids_def Let_def)

section \<open>Inversion\<close>

lemma limit_place_order_Inr_iff [result_simps]:
  "limit_place_order tr e c tin tout n k s = Inr (i, s') \<longleftrightarrow>
     authorized e c \<and> 0 < n \<and> 0 < k \<and> i = lo_count s + 1 \<and>
     (\<exists>tk. tr (lo_tokens s) tin c (contract_address e) n = Some tk \<and>
       s' = (let s1 = limit_store_order (\<lambda>i. \<lparr>lo_id = i, lo_owner = c, token_in = tin, token_out = tout,
                  amount_in = n, limit_price = k, filled = 0, cancelled = False\<rparr>) (s\<lparr>lo_tokens := tk\<rparr>)
             in s1\<lparr>lo_events := lo_events s1 @ [LPlaced i c k]\<rparr>))"
  by (auto simp: limit_place_order_def Let_def result_simps not_le)

lemma match_order_Inr_iff [result_simps]:
  "match_order tr e i p s = Inr (u, s') \<longleftrightarrow>
     (\<exists>r out tk. lo_order s i = Some r \<and> \<not> cancelled r \<and> p \<le> limit_price r \<and>
       0 < sub_i128 (amount_in r) (filled r) \<and>
       div_i128 (mul_i128 (sub_i128 (amount_in r) (filled r)) (limit_price r)) p = (Inr out :: (limit_error, int) result) \<and>
       tr (lo_tokens s) (token_out r) (contract_address e) (lo_owner r) out = Some tk \<and>
       s' = s\<lparr>lo_tokens := tk,
         lo_order := (lo_order s)(i \<mapsto> r\<lparr>filled := add_i128 (filled r) (sub_i128 (amount_in r) (filled r))\<rparr>),
         lo_events := lo_events s @ [LFilled i (sub_i128 (amount_in r) (filled r)) p]\<rparr>)"
  by (auto simp: match_order_def Let_def result_simps not_less not_le)

lemma limit_cancel_order_Inr_iff [result_simps]:
  "limit_cancel_order tr e c i s = Inr (u, s') \<longleftrightarrow>
     authorized e c \<and> (\<exists>r tk. lo_order s i = Some r \<and> lo_owner r = c \<and> \<not> cancelled r \<and>
       (if sub_i128 (amount_in r) (filled r) > 0
        then tr (lo_tokens s) (token_in r) (contract_address e) c (sub_i128 (amount_in r) (filled r)) = Some tk
        else tk = lo_tokens s) \<and>
       s' = s\<lparr>lo_tokens := tk, lo_order := (lo_order s)(i \<mapsto> r\<lparr>cancelled := True\<rparr>),
              lo_events := lo_events s @ [LCancelled i]\<rparr>)"
  by (auto simp: limit_cancel_order_def Let_def result_simps if_ok_Inr_iff split: if_splits)


section \<open>Steps and invariant\<close>

inductive escrow_step :: "'tk transfer_fn \<Rightarrow> address \<Rightarrow> 'tk limit_book \<Rightarrow> 'tk limit_book \<Rightarrow> bool"
  for tr :: "'tk transfer_fn" and me :: address where
  place: "limit_place_order tr e c tin tout n k s = Inr (i, s') \<Longrightarrow> contract_address e = me \<Longrightarrow>
          \<not> authorized e me \<Longrightarrow> in_i128 n \<Longrightarrow> lo_count s \<noteq> - 1 \<Longrightarrow> escrow_step tr me s s'"
| cancel: "limit_cancel_order tr e c i s = Inr ((), s') \<Longrightarrow> contract_address e = me \<Longrightarrow>
          \<not> authorized e me \<Longrightarrow> escrow_step tr me s s'"

inductive limit_step :: "'tk transfer_fn \<Rightarrow> address \<Rightarrow> 'tk limit_book \<Rightarrow> 'tk limit_book \<Rightarrow> bool"
  for tr :: "'tk transfer_fn" and me :: address where
  escrow: "escrow_step tr me s s' \<Longrightarrow> limit_step tr me s s'"
| fill: "match_order tr e i p s = Inr ((), s') \<Longrightarrow> contract_address e = me \<Longrightarrow> limit_step tr me s s'"

definition order_ok :: "limit_order \<Rightarrow> bool" where
  "order_ok r \<longleftrightarrow> 0 < amount_in r \<and> in_i128 (amount_in r) \<and> 0 < limit_price r \<and>
     (filled r = 0 \<or> filled r = amount_in r)"

definition limit_inv :: "'tk limit_book \<Rightarrow> bool" where
  "limit_inv s \<longleftrightarrow> ids_wf lo_order lo_count lo_id s \<and> index_ok lo_order lo_ids lo_pair s \<and>
     (\<forall>i r. lo_order s i = Some r \<longrightarrow> order_ok r)"

definition remaining_of :: "limit_order \<Rightarrow> int" where
  "remaining_of r = (if cancelled r then 0 else amount_in r - filled r)"

definition locked :: "'tk limit_book \<Rightarrow> address \<Rightarrow> u64 \<Rightarrow> int" where
  "locked s t i =
     (case lo_order s i of None \<Rightarrow> 0 | Some r \<Rightarrow> if token_in r = t then remaining_of r else 0)"

lemma finite_locked [simp]: "finite (support (locked s t))"
  by simp

lemma order_ok_remaining:
  assumes "order_ok r"
  shows "sub_i128 (amount_in r) (filled r) = amount_in r - filled r"
    "add_i128 (filled r) (amount_in r - filled r) = amount_in r"
    "0 < amount_in r - filled r \<longleftrightarrow> filled r = 0" "0 \<le> amount_in r - filled r"
  using assms by (auto simp: order_ok_def sub_i128_def add_i128_def)

lemma limit_inv_update:
  fixes s s' :: "'tk limit_book"
  assumes "limit_inv s" "lo_order s i = Some r" "order_ok r'" "lo_id r' = lo_id r" "lo_pair r' = lo_pair r"
    and "lo_order s' = (lo_order s)(i \<mapsto> r')" "lo_order_count s' = lo_order_count s" "lo_book s' = lo_book s"
  shows "limit_inv s'"
proof -
  have wf: "ids_wf lo_order lo_count lo_id s" and ix: "index_ok lo_order lo_ids lo_pair s"
    using assms(1) by (auto simp: limit_inv_def)
  have "lo_id r' = i" using ids_wfD(1) [OF wf assms(2)] assms(4) by simp
  then have "ids_wf lo_order lo_count lo_id s'"
    using ids_wf_update [of lo_order lo_count lo_id s i r r' s'] wf assms(2,6,7) by (simp add: lo_count_def)
  moreover have "index_ok lo_order lo_ids lo_pair s'"
    using index_ok_update [of lo_order lo_ids lo_pair s i r r' s'] ix assms(2,5,6,8)
    by (simp add: lo_ids_def fun_eq_iff)
  ultimately show ?thesis using assms(1,3,6) by (simp add: limit_inv_def)
qed

lemma limit_place_inv:
  assumes "limit_place_order tr e c tin tout n k s = Inr (i, s')" "in_i128 n" "lo_count s \<noteq> - 1" "limit_inv s"
  shows "limit_inv s'"
proof -
  let ?mk = "\<lambda>i. \<lparr>lo_id = i, lo_owner = c, token_in = tin, token_out = tout, amount_in = n,
               limit_price = k, filled = 0, cancelled = False\<rparr>"
  obtain tk where ok: "0 < n" "0 < k"
    and s': "s' = (let s1 = limit_store_order ?mk (s\<lparr>lo_tokens := tk\<rparr>)
             in s1\<lparr>lo_events := lo_events s1 @ [LPlaced i c k]\<rparr>)"
    using assms(1) unfolding limit_place_order_Inr_iff by blast
  have s0: "ids_wf lo_order lo_count lo_id (s\<lparr>lo_tokens := tk\<rparr>)" "lo_count (s\<lparr>lo_tokens := tk\<rparr>) \<noteq> - 1"
      "index_ok lo_order lo_ids lo_pair (s\<lparr>lo_tokens := tk\<rparr>)"
    using assms(3,4) by (simp_all add: limit_inv_def ids_wf_def index_ok_def lo_count_def lo_ids_def)
  have "ids_wf lo_order lo_count lo_id (limit_store_order ?mk (s\<lparr>lo_tokens := tk\<rparr>))"
    by (rule limit_ids.add_wf [OF s0(1,2)]) simp
  moreover have "index_ok lo_order lo_ids lo_pair (limit_store_order ?mk (s\<lparr>lo_tokens := tk\<rparr>))"
    by (rule limit_ids.add_index_ok [OF s0])
  moreover have "\<forall>i r. lo_order (limit_store_order ?mk (s\<lparr>lo_tokens := tk\<rparr>)) i = Some r \<longrightarrow> order_ok r"
    using assms(2,4) ok by (auto simp: limit_store_order_def Let_def limit_inv_def order_ok_def)
  ultimately show ?thesis
    by (simp add: s' Let_def limit_inv_def ids_wf_def index_ok_def lo_count_def lo_ids_def)
qed

lemma limit_step_inv:
  assumes "limit_step tr me s s'" "limit_inv s"
  shows "limit_inv s'"
  using assms(1)
proof cases
  case escrow
  from escrow(1) show ?thesis
  proof cases
    case (place e c tin tout n k i)
    then show ?thesis using limit_place_inv assms(2) by blast
  next
    case (cancel e c i)
    then obtain r tk where r: "lo_order s i = Some r"
      and s': "s' = s\<lparr>lo_tokens := tk, lo_order := (lo_order s)(i \<mapsto> r\<lparr>cancelled := True\<rparr>),
              lo_events := lo_events s @ [LCancelled i]\<rparr>"
      unfolding limit_cancel_order_Inr_iff by blast
    have "order_ok (r\<lparr>cancelled := True\<rparr>)"
      using assms(2) r by (auto simp: limit_inv_def order_ok_def)
    then show ?thesis
      by (rule limit_inv_update [OF assms(2) r]) (simp_all add: s' lo_pair_def)
  qed
next
  case (fill e i p)
  then obtain r tk where r: "lo_order s i = Some r"
    and s': "lo_order s' = (lo_order s)(i \<mapsto> r\<lparr>filled := add_i128 (filled r) (sub_i128 (amount_in r) (filled r))\<rparr>)"
      "lo_order_count s' = lo_order_count s" "lo_book s' = lo_book s"
    by (auto simp: match_order_Inr_iff)
  have ok: "order_ok r" using assms(2) r by (auto simp: limit_inv_def)
  then have "order_ok (r\<lparr>filled := add_i128 (filled r) (sub_i128 (amount_in r) (filled r))\<rparr>)"
    using order_ok_remaining [OF ok] by (simp add: order_ok_def)
  then show ?thesis
    by (rule limit_inv_update [OF assms(2) r]) (simp_all add: s' lo_pair_def)
qed

definition escrow_covers :: "('tk \<Rightarrow> address \<Rightarrow> address \<Rightarrow> int) \<Rightarrow> address \<Rightarrow> 'tk limit_book \<Rightarrow> bool" where
  "escrow_covers holding me s \<longleftrightarrow> (\<forall>t. support_total (locked s t) \<le> holding (lo_tokens s) t me)"

lemma locked_upd:
  assumes "lo_order s' = (lo_order s)(i \<mapsto> r)"
  shows "locked s' t = (locked s t)(i := if token_in r = t then remaining_of r else 0)"
  by (auto simp: locked_def assms fun_eq_iff)

context sep41
begin

lemma escrow_step_covers:
  assumes "escrow_step transfer me s s'" "limit_inv s" "ledger_ok (lo_tokens s)" "escrow_covers holding me s"
  shows "ledger_ok (lo_tokens s') \<and> escrow_covers holding me s'"
  using assms(1)
proof cases
  case (place e c tin tout n k i)
  then obtain tk where ok: "authorized e c" "0 < n" and tr: "transfer (lo_tokens s) tin c me n = Some tk"
    and i: "i = lo_count s + 1"
    and s': "lo_order s' = (lo_order s)(i \<mapsto> \<lparr>lo_id = i, lo_owner = c, token_in = tin, token_out = tout,
                  amount_in = n, limit_price = k, filled = 0, cancelled = False\<rparr>)" "lo_tokens s' = tk"
    by (auto simp: limit_place_order_Inr_iff limit_store_order_def lo_count_def Let_def)
  have "c \<noteq> me" using ok(1) place by auto
  note h = deposit_holding [OF assms(3) tr this] transfer_ok [OF assms(3) tr this]
  have "lo_order s i = None"
    using limit_ids.add_fresh(1) [of s] assms(2) place(5) i by (simp add: limit_inv_def)
  then have z: "locked s t i = 0" for t by (simp add: locked_def)
  have "support_total (locked s' t) = support_total (locked s t) + (if tin = t then n else 0)" for t
    by (simp add: locked_upd [OF s'(1)] support_total_upd z remaining_of_def)
  then show ?thesis using h ok assms(4) s'(2) by (auto simp: escrow_covers_def)
next
  case (cancel e c i)
  then obtain r tk where ok: "authorized e c" "lo_order s i = Some r" "lo_owner r = c" "\<not> cancelled r"
    and tr: "if sub_i128 (amount_in r) (filled r) > 0
        then transfer (lo_tokens s) (token_in r) me c (sub_i128 (amount_in r) (filled r)) = Some tk
        else tk = lo_tokens s"
    and eq: "s' = s\<lparr>lo_tokens := tk, lo_order := (lo_order s)(i \<mapsto> r\<lparr>cancelled := True\<rparr>),
              lo_events := lo_events s @ [LCancelled i]\<rparr>"
    unfolding limit_cancel_order_Inr_iff by blast
  have s': "lo_order s' = (lo_order s)(i \<mapsto> r\<lparr>cancelled := True\<rparr>)" "lo_tokens s' = tk" by (simp_all add: eq)
  have "c \<noteq> me" using ok(1) cancel by auto
  have "order_ok r" using assms(2) ok(2) by (auto simp: limit_inv_def)
  note rem = order_ok_remaining [OF this]
  have lk: "support_total (locked s' t) =
      support_total (locked s t) - (if token_in r = t then amount_in r - filled r else 0)" for t
    using ok(2,4) by (simp add: locked_upd [OF s'(1)] support_total_upd remaining_of_def) (simp add: locked_def remaining_of_def)
  show ?thesis
  proof (cases "0 < amount_in r - filled r")
    case True
    then have t: "transfer (lo_tokens s) (token_in r) me c (amount_in r - filled r) = Some tk"
      using tr rem(1) by simp
    note h = payout_holding [OF assms(3) t \<open>c \<noteq> me\<close>] transfer_ok [OF assms(3) t]
    show ?thesis using h True \<open>c \<noteq> me\<close> assms(4) s'(2) lk by (auto simp: escrow_covers_def)
  next
    case False
    then have "amount_in r - filled r = 0" "tk = lo_tokens s" using tr rem by simp_all
    then show ?thesis using assms(3,4) s'(2) lk by (simp add: escrow_covers_def)
  qed
qed

end


lemma escrow_reach:
  assumes "sep41 tr holding ledger_ok" "(escrow_step tr me)\<^sup>*\<^sup>* s s'" "limit_inv s" "ledger_ok (lo_tokens s)"
    "escrow_covers holding me s"
  shows "limit_inv s' \<and> ledger_ok (lo_tokens s') \<and> escrow_covers holding me s'"
  using assms(2)
proof (induction rule: rtranclp_induct)
  case (step y z)
  then show ?case
    using sep41.escrow_step_covers [OF assms(1)] limit_step_inv [OF limit_step.escrow] by blast
qed (use assms in simp)

definition limit_empty :: "'tk \<Rightarrow> 'tk limit_book" where
  "limit_empty tk = \<lparr>lo_order = Map.empty, lo_order_count = None, lo_book = Map.empty, lo_tokens = tk, lo_events = []\<rparr>"

lemma limit_empty_inv: "limit_inv (limit_empty tk)"
  by (auto simp: limit_inv_def limit_empty_def ids_wf_def index_ok_def lo_count_def lo_ids_def)

section \<open>Properties\<close>

text \<open>
  C16. As long as orders are only placed and cancelled, the limit-order contract holds, of every
  token, at least the amounts its open orders have locked, on every SEP-41 token: every cancellation
  finds its refund.
\<close>

theorem escrow_covers_open_orders:
  assumes "sep41 tr holding ledger_ok" "ledger_ok tk" "\<forall>t. 0 \<le> holding tk t me"
    and "(escrow_step tr me)\<^sup>*\<^sup>* (limit_empty tk) s"
  shows "support_total (locked s t) \<le> holding (lo_tokens s) t me \<and>
    (\<forall>i r. lo_order s i = Some r \<and> token_in r = t \<longrightarrow> remaining_of r \<le> holding (lo_tokens s) t me)"
proof -
  have "locked (limit_empty tk) t = (\<lambda>_. 0)" for t by (simp add: locked_def limit_empty_def fun_eq_iff)
  then have "escrow_covers holding me (limit_empty tk)"
    using assms(3) by (simp add: escrow_covers_def) (simp add: limit_empty_def)
  then have r: "limit_inv s" "escrow_covers holding me s"
    using escrow_reach [OF assms(1,4) limit_empty_inv] assms(2) by (simp_all add: limit_empty_def)
  have nn: "0 \<le> locked s t i" for i
  proof (cases "lo_order s i")
    case (Some q)
    then have "order_ok q" using r(1) by (simp add: limit_inv_def)
    then show ?thesis using Some order_ok_remaining(4) [of q] by (simp add: locked_def remaining_of_def)
  qed (simp add: locked_def)
  have tot: "support_total (locked s t) \<le> holding (lo_tokens s) t me"
    using r(2) by (simp add: escrow_covers_def)
  have "remaining_of q \<le> holding (lo_tokens s) t me" if "lo_order s i = Some q" "token_in q = t" for i q
  proof -
    have "remaining_of q = locked s t i" using that by (simp add: locked_def)
    also have "\<dots> \<le> support_total (locked s t)" by (rule support_total_ge [OF finite_locked nn])
    finally show ?thesis using tot by simp
  qed
  then show ?thesis using tot by blast
qed

text \<open>
  An order is filled at most once and completely: a fill that returns found the order open
  and unfilled, at a price at or below its limit; it pays the owner the rounded-down amount times
  limit over price if that product fits, and afterwards every further fill of the order is refused
  and its cancellation refunds nothing.
\<close>

theorem fills_are_complete_and_final:
  assumes "limit_inv s" "match_order tr e i p s = Inr ((), s')" "0 < p"
  shows "\<exists>r. lo_order s i = Some r \<and> \<not> cancelled r \<and> filled r = 0 \<and> p \<le> limit_price r \<and>
    lo_order s' = (lo_order s)(i \<mapsto> r\<lparr>filled := amount_in r\<rparr>) \<and>
    (amount_in r * limit_price r \<le> I128_MAX \<longrightarrow>
       tr (lo_tokens s) (token_out r) (contract_address e) (lo_owner r) (amount_in r * limit_price r div p)
         = Some (lo_tokens s')) \<and>
    (\<forall>e2 q. \<not> is_ok (match_order tr e2 i q s')) \<and>
    (\<forall>e2 c s2. limit_cancel_order tr e2 c i s' = Inr ((), s2) \<longrightarrow> lo_tokens s2 = lo_tokens s')"
proof -
  obtain r out tk where r: "lo_order s i = Some r" "\<not> cancelled r" "p \<le> limit_price r"
    and rem: "0 < sub_i128 (amount_in r) (filled r)"
    and out: "div_i128 (mul_i128 (sub_i128 (amount_in r) (filled r)) (limit_price r)) p = (Inr out :: (limit_error, int) result)"
    and t: "tr (lo_tokens s) (token_out r) (contract_address e) (lo_owner r) out = Some tk"
    and s': "s' = s\<lparr>lo_tokens := tk,
         lo_order := (lo_order s)(i \<mapsto> r\<lparr>filled := add_i128 (filled r) (sub_i128 (amount_in r) (filled r))\<rparr>),
         lo_events := lo_events s @ [LFilled i (sub_i128 (amount_in r) (filled r)) p]\<rparr>"
    using assms(2) unfolding match_order_Inr_iff by blast
  have ok: "order_ok r" using assms(1) r(1) by (auto simp: limit_inv_def)
  note m = order_ok_remaining [OF ok]
  have f0: "filled r = 0" using rem m by simp
  have n: "sub_i128 (amount_in r) (filled r) = amount_in r" "add_i128 (filled r) (amount_in r) = amount_in r"
    using m(1,2) f0 by simp_all
  have "out = amount_in r * limit_price r div p" if "amount_in r * limit_price r \<le> I128_MAX"
  proof -
    have "0 \<le> amount_in r * limit_price r" using ok by (simp add: order_ok_def)
    moreover from this have "in_i128 (amount_in r * limit_price r)" using that by (simp add: in_i128_nonneg)
    ultimately show ?thesis using out assms(3) by (simp add: n mul_i128_exact div_i128_nonneg)
  qed
  moreover have st: "lo_order s' = (lo_order s)(i \<mapsto> r\<lparr>filled := amount_in r\<rparr>)" "lo_tokens s' = tk"
    by (simp_all add: s' n)
  moreover have "sub_i128 (amount_in r) (amount_in r) = 0" by (simp add: sub_i128_def)
  then have "\<not> is_ok (match_order tr e2 i q s')"
    "limit_cancel_order tr e2 c i s' = Inr ((), s2) \<longrightarrow> lo_tokens s2 = lo_tokens s'" for e2 q c s2
    by (auto simp: is_ok_iff match_order_Inr_iff limit_cancel_order_Inr_iff st(1))
  ultimately show ?thesis using r f0 t by auto
qed

text \<open>
  The order book of a token pair lists exactly the orders of the pair, each once: after any
  sequence of placings, fills and cancellations the query returns as many orders as were placed on
  the pair, and every one of them.
\<close>

theorem order_book_is_complete:
  assumes "(limit_step tr me)\<^sup>*\<^sup>* (limit_empty tk) s"
  shows "set (get_order_book tin tout s) = {r. \<exists>i. lo_order s i = Some r \<and> token_in r = tin \<and> token_out r = tout} \<and>
    length (get_order_book tin tout s) = card {i. \<exists>r. lo_order s i = Some r \<and> token_in r = tin \<and> token_out r = tout}"
proof -
  have "limit_inv s" using assms
    by (induction rule: rtranclp_induct) (auto intro: limit_step_inv limit_empty_inv)
  then have "index_ok lo_order lo_ids lo_pair s" by (simp add: limit_inv_def)
  from limit_ids.lookup_index [OF this, of "(tin, tout)"] show ?thesis
    by (simp add: get_order_book_def lo_pair_def)
qed


section \<open>A concrete book\<close>

text \<open>
  The contract at address 8; account 3 owns 100 of token 10, account 4 owns 100 of token 20. Both
  lock their tokens for the other's.
\<close>

definition lo_env :: env where
  "lo_env = \<lparr>sequence = 0, timestamp = 0, authorized = (\<lambda>a. a \<noteq> 8), contract_address = 8,
     new_entry_live = 0, extend_policy = (\<lambda>_ _ l. l), wasm_uploaded = (\<lambda>_. False)\<rparr>"

definition lo_ledger :: ledger where
  "lo_ledger = (\<lambda>t a. if t = 10 \<and> a = 3 \<or> t = 20 \<and> a = 4 then 100 else 0)"

definition lo_market :: "ledger limit_book" where
  "lo_market = snd (projr (and_then (limit_place_order ledger_transfer lo_env 3 10 20 100 7 (limit_empty lo_ledger))
     (\<lambda>(_, s). limit_place_order ledger_transfer lo_env 4 20 10 100 1 s)))"

lemma lo_market_steps:
  "\<exists>s1. limit_place_order ledger_transfer lo_env 3 10 20 100 7 (limit_empty lo_ledger) = Inr (1, s1) \<and>
     limit_place_order ledger_transfer lo_env 4 20 10 100 1 s1 = Inr (2, lo_market) \<and> lo_count s1 = 1"
proof -
  have "\<exists>s1 s2. limit_place_order ledger_transfer lo_env 3 10 20 100 7 (limit_empty lo_ledger) = Inr (1, s1) \<and>
     limit_place_order ledger_transfer lo_env 4 20 10 100 1 s1 = Inr (2, s2) \<and> lo_count s1 = 1"
    by (simp add: limit_place_order_Inr_iff lo_env_def limit_empty_def lo_ledger_def ledger_transfer_def
        limit_store_order_def lo_count_def lo_ids_def lo_pair_def Let_def)
  then show ?thesis by (auto simp: lo_market_def)
qed

lemma lo_market_reach: "(escrow_step ledger_transfer 8)\<^sup>*\<^sup>* (limit_empty lo_ledger) lo_market"
proof -
  obtain s1 where s: "limit_place_order ledger_transfer lo_env 3 10 20 100 7 (limit_empty lo_ledger) = Inr (1, s1)"
     "limit_place_order ledger_transfer lo_env 4 20 10 100 1 s1 = Inr (2, lo_market)" "lo_count s1 = 1"
    using lo_market_steps by blast
  have e: "contract_address lo_env = 8" "\<not> authorized lo_env 8" "in_i128 100"
    by (simp_all add: lo_env_def in_i128_def I128_MAX_def I128_MIN_def)
  have "escrow_step ledger_transfer 8 (limit_empty lo_ledger) s1"
    by (rule escrow_step.place [OF s(1) e]) (simp add: lo_count_def limit_empty_def)
  moreover have "escrow_step ledger_transfer 8 s1 lo_market"
    by (rule escrow_step.place [OF s(2) e]) (simp add: s(3))
  ultimately show ?thesis by (rule rtranclp.rtrancl_into_rtrancl [OF r_into_rtranclp])
qed

lemma lo_market_values:
  "lo_order lo_market 1 = Some \<lparr>lo_id = 1, lo_owner = 3, token_in = 10, token_out = 20, amount_in = 100,
     limit_price = 7, filled = 0, cancelled = False\<rparr>"
  "lo_order lo_market 2 = Some \<lparr>lo_id = 2, lo_owner = 4, token_in = 20, token_out = 10, amount_in = 100,
     limit_price = 1, filled = 0, cancelled = False\<rparr>"
  "lo_tokens lo_market 10 8 = 100" "lo_tokens lo_market 20 8 = 100" "lo_tokens lo_market 10 4 = 0"
  by (simp_all add: lo_market_def limit_place_order_def require_auth_def call_transfer_def lo_env_def limit_empty_def
      lo_ledger_def ledger_transfer_def limit_store_order_def lo_count_def lo_ids_def lo_pair_def Let_def)

theorem escrow_covers_open_orders_witness:
  "support_total (locked lo_market 10) \<le> ledger_holding (lo_tokens lo_market) 10 8"
proof -
  have "ledger_nonneg lo_ledger" "\<forall>t. 0 \<le> ledger_holding lo_ledger t 8"
    by (simp_all add: ledger_nonneg_def ledger_holding_def lo_ledger_def)
  from escrow_covers_open_orders [OF ledger.sep41_axioms this lo_market_reach] show ?thesis by blast
qed

lemma lo_market_inv: "limit_inv lo_market"
proof -
  have "limit_inv s" if "(escrow_step ledger_transfer 8)\<^sup>*\<^sup>* (limit_empty lo_ledger) s" for s
    using that by (induction rule: rtranclp_induct) (auto intro: limit_step_inv limit_step.escrow limit_empty_inv)
  then show ?thesis using lo_market_reach by blast
qed

lemma lo_market_fill: "\<exists>s'. match_order ledger_transfer lo_env 2 1 lo_market = Inr ((), s') \<and>
    lo_tokens s' 10 8 = 0 \<and> lo_tokens s' 10 4 = 100"
  by (simp add: match_order_Inr_iff lo_market_values sub_i128_def mul_i128_def in_i128_def I128_MAX_def I128_MIN_def
      div_i128_def checked_div_i128_def signed_divide_int_def lo_env_def ledger_transfer_def Let_def)

theorem fills_are_complete_and_final_witness:
  "\<exists>s'. match_order ledger_transfer lo_env 2 1 lo_market = Inr ((), s') \<and>
        \<not> is_ok (match_order ledger_transfer lo_env 2 1 s')"
proof -
  obtain s' where s': "match_order ledger_transfer lo_env 2 1 lo_market = Inr ((), s')" using lo_market_fill by blast
  from fills_are_complete_and_final [OF lo_market_inv s'] s' show ?thesis by auto
qed

theorem order_book_is_complete_witness:
  "\<exists>r. r \<in> set (get_order_book 10 20 lo_market) \<and> lo_owner r = 3"
proof -
  have "(limit_step ledger_transfer 8)\<^sup>*\<^sup>* (limit_empty lo_ledger) lo_market"
    using lo_market_reach by (rule rtranclp_mono [THEN predicate2D, rotated]) (auto intro: limit_step.escrow)
  from order_book_is_complete [OF this, of 10 20] lo_market_values(1) show ?thesis by force
qed

text \<open>
  A fill pays with other people's money: the contract never receives the bought token for an
  order, so a fill takes it from whatever the contract holds, the escrow of other orders included.
  Here anyone reports the price 1 for account 4's order, account 4 receives the 100 of token 10
  that account 3 has locked, and account 3's order, still open, is no longer covered.
\<close>

theorem fill_spends_the_escrow_of_others:
  "\<exists>s'. match_order ledger_transfer lo_env 2 1 lo_market = Inr ((), s') \<and>
     lo_order s' 1 = lo_order lo_market 1 \<and> locked s' 10 1 = 100 \<and>
     ledger_holding (lo_tokens lo_market) 10 8 = 100 \<and> ledger_holding (lo_tokens s') 10 8 = 0 \<and>
     limit_cancel_order ledger_transfer lo_env 3 1 s' = Inl CalleeFailed"
proof -
  obtain s' where s': "match_order ledger_transfer lo_env 2 1 lo_market = Inr ((), s')" "lo_tokens s' 10 8 = 0"
    using lo_market_fill by blast
  have o1: "lo_order s' 1 = lo_order lo_market 1" using s'(1) by (auto simp: match_order_Inr_iff)
  then have "locked s' 10 1 = 100" by (simp add: locked_def lo_market_values remaining_of_def)
  moreover have "limit_cancel_order ledger_transfer lo_env 3 1 s' = Inl CalleeFailed"
    using o1 s'(2) by (simp add: limit_cancel_order_def lo_market_values sub_i128_def in_i128_def I128_MAX_def
        I128_MIN_def lo_env_def call_transfer_def ledger_transfer_def Let_def)
  ultimately show ?thesis using s' o1 by (auto simp: ledger_holding_def lo_market_values)
qed

end
