(* ===== verification/Arbitrage.thy ===== *)
theory Arbitrage
  imports Registry
begin

text \<open>
  The arbitrage contract, \<^verbatim>\<open>src/contracts/arbitrage/src/lib.rs\<close>: prices reported per market and
  token, the test for an opportunity between two markets, and a record of every executed trade,
  listed by executor. No tokens move. The unchecked products wrap at 128 bits.
\<close>

section \<open>State\<close>

definition MIN_PROFIT_THRESHOLD_BPS :: int where "MIN_PROFIT_THRESHOLD_BPS = 100"
definition BPS :: int where "BPS = 10000"

record market_price =
  mp_market_id :: symbol
  mp_token :: address
  price :: int
  updated_at :: u64

record arbitrage_record =
  ar_id :: u64
  executor :: address
  ar_token :: address
  buy_market :: symbol
  sell_market :: symbol
  profit :: int
  executed_at :: u64

datatype arbitrage_error =
    AUnauthorized
  | APriceNotFound
  | ANotProfitable
  | AInvalidAmount

datatype arbitrage_event =
    ADetected address symbol symbol int
  | AExecuted address address int

record arb =
  ab_price :: "symbol \<times> address \<rightharpoonup> market_price"
  ab_record :: "u64 \<rightharpoonup> arbitrage_record"
  ab_record_count :: "u64 option"
  ab_executor_records :: "address \<rightharpoonup> u64 list"
  ab_events :: "arbitrage_event list"

definition ab_count :: "arb \<Rightarrow> u64" where
  "ab_count s = unwrap_or (ab_record_count s) 0"

definition ab_ids :: "arb \<Rightarrow> address \<Rightarrow> u64 list" where
  "ab_ids s a = unwrap_or (ab_executor_records s a) []"

section \<open>Operations\<close>

definition update_price ::
  "env \<Rightarrow> address \<Rightarrow> symbol \<Rightarrow> address \<Rightarrow> int \<Rightarrow> arb \<Rightarrow> (arbitrage_error, arb) result" where
  "update_price e caller m t p s =
     and_then (require_auth e caller) (\<lambda>_.
     if p \<le> 0 then fail AInvalidAmount
     else Inr (s\<lparr>ab_price := (ab_price s)((m, t) \<mapsto>
       \<lparr>mp_market_id = m, mp_token = t, price = p, updated_at = timestamp e\<rparr>)\<rparr>))"

text \<open>The operator \<open>*\<close> followed by \<open>/\<close>, as the source computes a share of a price.\<close>

definition mul_div :: "int \<Rightarrow> int \<Rightarrow> int \<Rightarrow> (arbitrage_error, int) result" where
  "mul_div a b c = div_i128 (mul_i128 a b) c"

definition detect_opportunity ::
  "address \<Rightarrow> symbol \<Rightarrow> symbol \<Rightarrow> arb \<Rightarrow> (arbitrage_error, int \<times> bool) result" where
  "detect_opportunity t market_a market_b s =
     and_then (ok_or APriceNotFound (ab_price s (market_a, t))) (\<lambda>price_a.
     and_then (ok_or APriceNotFound (ab_price s (market_b, t))) (\<lambda>price_b.
     let price_diff = (if price price_b > price price_a then sub_i128 (price price_b) (price price_a)
                       else sub_i128 (price price_a) (price price_b));
         lower_price = (if price price_a < price price_b then price price_a else price price_b) in
     and_then (mul_div lower_price MIN_PROFIT_THRESHOLD_BPS BPS) (\<lambda>threshold.
     Inr (price_diff, price_diff > threshold))))"

text \<open>The part of \<open>execute_arbitrage\<close> that stores the record and lists it under its executor.\<close>

definition store_record :: "(u64 \<Rightarrow> arbitrage_record) \<Rightarrow> arb \<Rightarrow> arb" where
  "store_record mk s =
     (let record_id = ab_count s + 1; a = executor (mk record_id) in
      s\<lparr>ab_record := (ab_record s)(record_id \<mapsto> mk record_id),
        ab_record_count := Some record_id,
        ab_executor_records := (ab_executor_records s)(a \<mapsto> ab_ids s a @ [record_id])\<rparr>)"

definition execute_arbitrage ::
  "env \<Rightarrow> address \<Rightarrow> address \<Rightarrow> symbol \<Rightarrow> symbol \<Rightarrow> int \<Rightarrow> arb \<Rightarrow> (arbitrage_error, int \<times> arb) result" where
  "execute_arbitrage e caller t buy sell amount s =
     and_then (require_auth e caller) (\<lambda>_.
     if amount \<le> 0 then fail AInvalidAmount else
     and_then (ok_or APriceNotFound (ab_price s (buy, t))) (\<lambda>buy_price.
     and_then (ok_or APriceNotFound (ab_price s (sell, t))) (\<lambda>sell_price.
     if price sell_price \<le> price buy_price then fail ANotProfitable else
     let price_diff = sub_i128 (price sell_price) (price buy_price) in
     and_then (mul_div (price buy_price) MIN_PROFIT_THRESHOLD_BPS BPS) (\<lambda>threshold.
     if price_diff \<le> threshold then fail ANotProfitable else
     and_then (mul_div amount price_diff (price buy_price)) (\<lambda>gain.
     let s1 = store_record (\<lambda>i. \<lparr>ar_id = i, executor = caller, ar_token = t, buy_market = buy,
                sell_market = sell, profit = gain, executed_at = timestamp e\<rparr>) s
     in Inr (gain, s1\<lparr>ab_events := ab_events s1 @
               [ADetected t buy sell price_diff, AExecuted caller t gain]\<rparr>))))))"

definition get_performance :: "address \<Rightarrow> arb \<Rightarrow> arbitrage_record list" where
  "get_performance a s = lookup_all (ab_record s) (ab_ids s a)"

interpretation arb_ids: indexed_registry ab_record ab_count ar_id store_record ab_ids executor
  by unfold_locales (simp_all add: store_record_def ab_count_def ab_ids_def Let_def)

section \<open>Properties\<close>

definition arb_inv :: "arb \<Rightarrow> bool" where
  "arb_inv s \<longleftrightarrow> ids_wf ab_record ab_count ar_id s \<and> index_ok ab_record ab_ids executor s \<and>
     (\<forall>m t p. ab_price s (m, t) = Some p \<longrightarrow> 0 < price p \<and> price p \<le> I128_MAX)"

lemma update_price_Inr_iff [result_simps]:
  "update_price e c m t p s = Inr s' \<longleftrightarrow>
     authorized e c \<and> 0 < p \<and>
     s' = s\<lparr>ab_price := (ab_price s)((m, t) \<mapsto>
       \<lparr>mp_market_id = m, mp_token = t, price = p, updated_at = timestamp e\<rparr>)\<rparr>"
  by (auto simp: update_price_def result_simps not_le)

lemma execute_arbitrage_Inr_iff [result_simps]:
  "execute_arbitrage e c t b m n s = Inr (g, s') \<longleftrightarrow>
     authorized e c \<and> 0 < n \<and>
     (\<exists>pb ps th. ab_price s (b, t) = Some pb \<and> ab_price s (m, t) = Some ps \<and> price pb < price ps \<and>
       mul_div (price pb) 100 10000 = Inr th \<and> th < sub_i128 (price ps) (price pb) \<and>
       mul_div n (sub_i128 (price ps) (price pb)) (price pb) = Inr g \<and>
       s' = (let s1 = store_record (\<lambda>i. \<lparr>ar_id = i, executor = c, ar_token = t, buy_market = b,
                sell_market = m, profit = g, executed_at = timestamp e\<rparr>) s
             in s1\<lparr>ab_events := ab_events s1 @
               [ADetected t b m (sub_i128 (price ps) (price pb)), AExecuted c t g]\<rparr>))"
  unfolding execute_arbitrage_def Let_def MIN_PROFIT_THRESHOLD_BPS_def BPS_def
  by (simp only: and_then_Inr_iff require_auth_Inr_iff ok_or_Inr_iff if_fail_Inr_iff not_le sum.inject prod.inject)
    blast

lemma spread_exact:
  "0 < a \<Longrightarrow> a \<le> b \<Longrightarrow> b \<le> I128_MAX \<Longrightarrow> sub_i128 b a = b - a"
  by (rule sub_i128_shrink) (auto simp: in_i128_nonneg)

lemma mul_div_exact:
  "0 \<le> a \<Longrightarrow> 0 \<le> b \<Longrightarrow> 0 < c \<Longrightarrow> a * b \<le> I128_MAX \<Longrightarrow> mul_div a b c = Inr (a * b div c)"
  by (simp add: mul_div_def mul_i128_exact in_i128_nonneg div_i128_nonneg)

lemma execute_inv:
  assumes "execute_arbitrage e c t b m n s = Inr (g, s')" "ab_count s \<noteq> - 1" "arb_inv s"
  shows "arb_inv s'"
proof -
  let ?mk = "\<lambda>i. \<lparr>ar_id = i, executor = c, ar_token = t, buy_market = b, sell_market = m, profit = g,
               executed_at = timestamp e\<rparr>"
  have wf: "ids_wf ab_record ab_count ar_id s" and ix: "index_ok ab_record ab_ids executor s"
    using assms(3) by (auto simp: arb_inv_def)
  have s': "ab_record s' = ab_record (store_record ?mk s)" "ab_record_count s' = ab_record_count (store_record ?mk s)"
      "ab_executor_records s' = ab_executor_records (store_record ?mk s)" "ab_price s' = ab_price s"
    using assms(1) by (auto simp: execute_arbitrage_Inr_iff Let_def store_record_def)
  have "ids_wf ab_record ab_count ar_id (store_record ?mk s)"
    by (rule arb_ids.add_wf [OF wf assms(2)]) simp
  moreover have "index_ok ab_record ab_ids executor (store_record ?mk s)"
    by (rule arb_ids.add_index_ok [OF wf assms(2) ix])
  ultimately show ?thesis
    using assms(3) by (simp add: arb_inv_def ids_wf_def index_ok_def ab_count_def ab_ids_def s')
qed

text \<open>
  A trade that is recorded was an opportunity: the selling price exceeds the buying price by
  more than one per cent, \<open>detect_opportunity\<close> confirms it in either order of the two markets, the
  profit is the amount times the spread over the buying price, rounded down and not negative, and
  the record is stored under a fresh number and is the last in the executor's performance list.
  Prices and amounts are assumed small enough for the products to fit.
\<close>

theorem recorded_trades_are_opportunities:
  assumes "arb_inv s" "ab_count s \<noteq> - 1" "execute_arbitrage e c t b m n s = Inr (g, s')"
    and "ab_price s (b, t) = Some pb" "ab_price s (m, t) = Some ps"
    and "price pb * 100 \<le> I128_MAX" "n * price ps \<le> I128_MAX"
  shows "price pb * 100 div 10000 < price ps - price pb \<and>
    detect_opportunity t b m s = Inr (price ps - price pb, True) \<and>
    detect_opportunity t m b s = Inr (price ps - price pb, True) \<and>
    g = n * (price ps - price pb) div price pb \<and> 0 \<le> g \<and>
    (\<exists>r. ab_record s (ab_count s + 1) = None \<and> ab_record s' (ab_count s + 1) = Some r \<and> profit r = g \<and>
       executor r = c \<and> get_performance c s' = get_performance c s @ [r]) \<and> arb_inv s'"
proof -
  obtain th where ok: "authorized e c" "0 < n" "price pb < price ps"
      "mul_div (price pb) 100 10000 = Inr th" "th < sub_i128 (price ps) (price pb)"
      "mul_div n (sub_i128 (price ps) (price pb)) (price pb) = Inr g"
    and s': "ab_record s' = (ab_record s)(ab_count s + 1 \<mapsto> \<lparr>ar_id = ab_count s + 1, executor = c, ar_token = t,
          buy_market = b, sell_market = m, profit = g, executed_at = timestamp e\<rparr>)"
      "ab_ids s' c = ab_ids s c @ [ab_count s + 1]"
    using assms(3-5) by (auto simp: execute_arbitrage_Inr_iff store_record_def ab_ids_def Let_def)
  have pos: "0 < price pb" "price ps \<le> I128_MAX" using assms(1,4,5) by (auto simp: arb_inv_def)
  have sp: "sub_i128 (price ps) (price pb) = price ps - price pb"
    using pos ok(3) by (intro spread_exact) auto
  have th: "th = price pb * 100 div 10000"
    using ok(4) mul_div_exact [of "price pb" 100 10000] pos assms(6) by simp
  have "n * (price ps - price pb) \<le> n * price ps"
    using ok(2) pos by (intro mult_left_mono) auto
  then have "n * (price ps - price pb) \<le> I128_MAX" using assms(7) by (rule order_trans)
  then have g: "g = n * (price ps - price pb) div price pb"
    using ok(2,3,6) mul_div_exact [of n "price ps - price pb" "price pb"] pos by (simp add: sp)
  have "0 \<le> n * (price ps - price pb)" using ok(2,3) by simp
  then have g0: "0 \<le> g" using pos by (simp add: g pos_imp_zdiv_nonneg_iff)
  have det: "detect_opportunity t b m s = Inr (price ps - price pb, True)"
    "detect_opportunity t m b s = Inr (price ps - price pb, True)"
    using assms(4,5) ok(3-5) by (simp_all add: detect_opportunity_def MIN_PROFIT_THRESHOLD_BPS_def BPS_def sp Let_def)
  have wf: "ids_wf ab_record ab_count ar_id s" using assms(1) by (simp add: arb_inv_def)
  have fresh: "ab_record s (ab_count s + 1) = None"
    by (rule arb_ids.add_fresh(1) [OF wf assms(2)])
  have look: "lookup_all ((f :: u64 \<rightharpoonup> arbitrage_record)(j \<mapsto> r)) is = lookup_all f is" if "j \<notin> set is" for f j r "is"
    using that by (induction "is") (auto split: option.split)
  have app: "lookup_all f (xs @ ys) = lookup_all f xs @ lookup_all f ys" for f :: "u64 \<rightharpoonup> arbitrage_record" and xs ys
    by (induction xs) (auto split: option.split)
  have "ab_count s + 1 \<notin> set (ab_ids s c)"
    using assms(1) fresh by (simp add: arb_inv_def index_ok_def)
  then have perf: "get_performance c s' = get_performance c s @ [the (ab_record s' (ab_count s + 1))]"
    by (simp add: get_performance_def s' app look)
  show ?thesis
    using ok(5) sp th det g g0 fresh perf s'(1) execute_inv [OF assms(3,2,1)] by auto
qed


definition ab_env :: env where
  "ab_env = \<lparr>sequence = 0, timestamp = 5, authorized = (\<lambda>_. True), contract_address = 8,
     new_entry_live = 0, extend_policy = (\<lambda>_ _ l. l), wasm_uploaded = (\<lambda>_. False)\<rparr>"

definition ab_sample :: arb where
  "ab_sample = \<lparr>ab_price = [(''A'', 10) \<mapsto> \<lparr>mp_market_id = ''A'', mp_token = 10, price = 100, updated_at = 1\<rparr>,
       (''B'', 10) \<mapsto> \<lparr>mp_market_id = ''B'', mp_token = 10, price = 110, updated_at = 2\<rparr>],
     ab_record = Map.empty, ab_record_count = None, ab_executor_records = Map.empty, ab_events = []\<rparr>"

theorem recorded_trades_are_opportunities_witness:
  "\<exists>s'. execute_arbitrage ab_env 3 10 ''A'' ''B'' 1000 ab_sample = Inr (100, s') \<and>
        detect_opportunity 10 ''B'' ''A'' ab_sample = Inr (10, True) \<and>
        map profit (get_performance 3 s') = [100]"
proof -
  have "\<exists>s'. execute_arbitrage ab_env 3 10 ''A'' ''B'' 1000 ab_sample = Inr (100, s')"
    by (simp add: execute_arbitrage_Inr_iff ab_env_def ab_sample_def mul_div_def mul_i128_def sub_i128_def
        in_i128_def I128_MAX_def I128_MIN_def div_i128_def checked_div_i128_def signed_divide_int_def)
  then obtain s' where x: "execute_arbitrage ab_env 3 10 ''A'' ''B'' 1000 ab_sample = Inr (100, s')" ..
  have inv: "arb_inv ab_sample"
    by (auto simp: arb_inv_def ids_wf_def index_ok_def ab_count_def ab_ids_def ab_sample_def I128_MAX_def split: if_splits)
  have p: "ab_price ab_sample (''A'', 10) = Some \<lparr>mp_market_id = ''A'', mp_token = 10, price = 100, updated_at = 1\<rparr>"
    "ab_price ab_sample (''B'', 10) = Some \<lparr>mp_market_id = ''B'', mp_token = 10, price = 110, updated_at = 2\<rparr>"
    by (simp_all add: ab_sample_def)
  have c: "ab_count ab_sample \<noteq> - 1" "get_performance 3 ab_sample = []"
    by (simp_all add: ab_count_def get_performance_def ab_ids_def ab_sample_def)
  from recorded_trades_are_opportunities [OF inv c(1) x p] x show ?thesis
    by (auto simp: I128_MAX_def c(2))
qed

end
