(* ===== verification/Snapshot_Transform.thy ===== *)
theory Snapshot_Transform
  imports Prelude
begin

text \<open>
  The transform phase of the state migration toolkit, \<^verbatim>\<open>src/scripts/migrate/transform_state.rs\<close>
  on the snapshot of \<^verbatim>\<open>src/scripts/migrate/types.rs\<close>: a list of versioned rules that rewrite an
  exported snapshot and log what they changed. A hash map is an association list; its order is
  observed by the checksum only. The JSON text and the SHA-256 digest that the checksum is
  computed with come from third-party packages and are the arguments \<open>to_json\<close> and \<open>sha256_hex\<close>. Progress output is
  left out.
\<close>

section \<open>Snapshots\<close>

record tip_metadata =
  tm_sender :: string
  tm_amount :: int
  tm_message :: "string option"
  tm_timestamp :: u64

record leaderboard_entry =
  lb_address :: string
  lb_total_amount :: int
  lb_tip_count :: u32

datatype subscription_status = Active | Paused | Cancelled

record subscription =
  sub_subscriber :: string
  sub_creator :: string
  sub_token :: string
  sub_amount :: int
  interval_seconds :: u64
  last_payment :: u64
  next_payment :: u64
  sub_status :: subscription_status

record time_lock =
  lock_id :: u64
  tl_sender :: string
  tl_creator :: string
  tl_token :: string
  tl_amount :: int
  unlock_time :: u64
  tl_cancelled :: bool

record milestone =
  ms_id :: u64
  ms_creator :: string
  goal_amount :: int
  current_amount :: int
  ms_description :: string
  deadline :: "u64 option"
  completed :: bool

record matching_program =
  mt_id :: u64
  sponsor :: string
  mt_creator :: string
  mt_token :: string
  match_ratio :: u32
  max_match_amount :: int
  current_matched :: int
  mt_active :: bool

record tip_record =
  tr_id :: u64
  tr_sender :: string
  tr_creator :: string
  tr_token :: string
  tr_amount :: int
  tr_timestamp :: u64
  refunded :: bool
  refund_requested :: bool
  refund_approved :: bool

record locked_tip =
  lt_tip_id :: u64
  lt_sender :: string
  lt_creator :: string
  lt_token :: string
  lt_amount :: int
  unlock_timestamp :: u64

record state_snapshot =
  contract_id :: string
  schema_version :: u32
  exported_at :: u64
  ledger_sequence :: u32
  checksum :: string
  sn_admin :: string
  fee_basis_points :: u32
  refund_window_seconds :: u64
  paused :: bool
  pause_reason :: "string option"
  tip_counter :: u64
  matching_counter :: u64
  current_fee_bps :: u32
  whitelisted_tokens :: "string list"
  creator_balances :: "(string \<times> int) list"
  creator_totals :: "(string \<times> int) list"
  tip_history :: "(string \<times> tip_metadata list) list"
  tipper_aggregates :: "(string \<times> leaderboard_entry) list"
  creator_aggregates :: "(string \<times> leaderboard_entry) list"
  subscriptions :: "(string \<times> subscription) list"
  time_locks :: "time_lock list"
  milestones :: "(string \<times> milestone) list"
  matching_programs :: "matching_program list"
  tip_records :: "tip_record list"
  locked_tips :: "locked_tip list"
  user_roles :: "(string \<times> string) list"

definition total_records :: "state_snapshot \<Rightarrow> nat" where
  "total_records sn =
     length (creator_balances sn) + length (creator_totals sn) +
     sum_list (map (\<lambda>(_, v). length v) (tip_history sn)) +
     length (tipper_aggregates sn) + length (creator_aggregates sn) + length (subscriptions sn) +
     length (time_locks sn) + length (milestones sn) + length (matching_programs sn) +
     length (tip_records sn) + length (locked_tips sn) + length (user_roles sn)"

record transformation_log =
  rule_name :: string
  log_description :: string
  records_affected :: nat

section \<open>Rules\<close>

text \<open>Decimal digits, as \<^verbatim>\<open>format!\<close> prints an unsigned number.\<close>

fun show_nat :: "nat \<Rightarrow> string" where
  "show_nat n =
     (if n < 10 then [char_of (48 + n)] else show_nat (n div 10) @ [char_of (48 + n mod 10)])"

declare show_nat.simps [simp del]

definition log_entry :: "string \<Rightarrow> string \<Rightarrow> nat \<Rightarrow> transformation_log" where
  "log_entry r d n = \<lparr>rule_name = r, log_description = d, records_affected = n\<rparr>"

type_synonym rule_fn = "state_snapshot \<times> transformation_log list \<Rightarrow> state_snapshot \<times> transformation_log list"

definition rule_remove_zero_balances :: rule_fn where
  "rule_remove_zero_balances = (\<lambda>(sn, logs).
     let before = length (creator_balances sn);
         sn' = sn\<lparr>creator_balances := filter (\<lambda>(_, v). v \<noteq> 0) (creator_balances sn)\<rparr>;
         removed = before - length (creator_balances sn')
     in (sn', logs @ [log_entry ''v1_to_v2_normalise_balances''
           (''Removed '' @ show_nat removed @ '' zero-value balance entries.'') removed]))"

definition rule_remove_zero_totals :: rule_fn where
  "rule_remove_zero_totals = (\<lambda>(sn, logs).
     let before = length (creator_totals sn);
         sn' = sn\<lparr>creator_totals := filter (\<lambda>(_, v). v \<noteq> 0) (creator_totals sn)\<rparr>;
         removed = before - length (creator_totals sn')
     in (sn', logs @ [log_entry ''v1_to_v2_normalise_totals''
           (''Removed '' @ show_nat removed @ '' zero-value total entries.'') removed]))"

definition lock_expired :: "u64 \<Rightarrow> time_lock \<Rightarrow> bool" where
  "lock_expired now l \<longleftrightarrow> \<not> tl_cancelled l \<and> unlock_time l < now"

definition rule_mark_expired_locks_cancelled :: rule_fn where
  "rule_mark_expired_locks_cancelled = (\<lambda>(sn, logs).
     let now = exported_at sn;
         affected = length (filter (lock_expired now) (time_locks sn));
         sn' = sn\<lparr>time_locks := map (\<lambda>l. if lock_expired now l then l\<lparr>tl_cancelled := True\<rparr> else l) (time_locks sn)\<rparr>
     in (sn', logs @ [log_entry ''v1_to_v2_cancel_expired_locks''
           (''Marked '' @ show_nat affected @ '' expired time-lock(s) as cancelled (unlock_time < '' @
            show_nat (unat now) @ '').'') affected]))"

definition rule_dedup_subscriptions :: rule_fn where
  "rule_dedup_subscriptions = (\<lambda>(sn, logs).
     (sn, logs @ [log_entry ''v1_to_v2_dedup_subscriptions''
        ''No duplicate subscriptions found (HashMap keyed by subscriber:creator).'' 0]))"

definition rule_strip_cancelled_subscriptions :: rule_fn where
  "rule_strip_cancelled_subscriptions = (\<lambda>(sn, logs).
     let before = length (subscriptions sn);
         sn' = sn\<lparr>subscriptions := filter (\<lambda>(_, sb). sub_status sb \<noteq> Cancelled) (subscriptions sn)\<rparr>;
         removed = before - length (subscriptions sn')
     in (sn', logs @ [log_entry ''v1_to_v2_strip_cancelled_subscriptions''
           (''Removed '' @ show_nat removed @ '' cancelled subscription(s).'') removed]))"

definition MAX_HISTORY :: nat where "MAX_HISTORY = 1000"

definition cap_history :: "tip_metadata list \<Rightarrow> tip_metadata list" where
  "cap_history tips = (if length tips > MAX_HISTORY then drop (length tips - MAX_HISTORY) tips else tips)"

definition history_excess :: "tip_metadata list \<Rightarrow> nat" where
  "history_excess tips = (if length tips > MAX_HISTORY then length tips - MAX_HISTORY else 0)"

definition rule_cap_tip_history :: rule_fn where
  "rule_cap_tip_history = (\<lambda>(sn, logs).
     let total_removed = sum_list (map (\<lambda>(_, v). history_excess v) (tip_history sn));
         sn' = sn\<lparr>tip_history := map (\<lambda>(k, v). (k, cap_history v)) (tip_history sn)\<rparr>
     in (sn', logs @ [log_entry ''v1_to_v2_cap_tip_history''
           (''Trimmed '' @ show_nat total_removed @ '' old tip history record(s) to enforce '' @
            show_nat MAX_HISTORY @ '' entry cap per creator.'') total_removed]))"

definition rule_remove_refunded_tip_records :: rule_fn where
  "rule_remove_refunded_tip_records = (\<lambda>(sn, logs).
     let before = length (tip_records sn);
         sn' = sn\<lparr>tip_records := filter (\<lambda>r. \<not> refunded r) (tip_records sn)\<rparr>;
         removed = before - length (tip_records sn')
     in (sn', logs @ [log_entry ''v1_to_v2_remove_refunded_tip_records''
           (''Removed '' @ show_nat removed @ '' fully-refunded tip record(s).'') removed]))"

definition rule_bump_schema_version :: rule_fn where
  "rule_bump_schema_version = (\<lambda>(sn, logs).
     let old = schema_version sn;
         sn' = sn\<lparr>schema_version := old + 1\<rparr>
     in (sn', logs @ [log_entry ''v1_to_v2_bump_schema_version''
           (''Bumped schema_version from '' @ show_nat (unat old) @ '' to '' @
            show_nat (unat (schema_version sn')) @ ''.'') 1]))"

record transform_rule =
  from_version :: u32
  to_version :: u32
  rule_id :: string
  rule_description :: string
  apply_rule :: rule_fn

definition v1_rule :: "string \<Rightarrow> string \<Rightarrow> rule_fn \<Rightarrow> transform_rule" where
  "v1_rule i d f = \<lparr>from_version = 1, to_version = 1, rule_id = i, rule_description = d, apply_rule = f\<rparr>"

definition TRANSFORM_RULES :: "transform_rule list" where
  "TRANSFORM_RULES = [
     v1_rule ''v1_to_v2_normalise_balances''
       ''Remove zero-value creator balance entries to reduce storage footprint.''
       rule_remove_zero_balances,
     v1_rule ''v1_to_v2_normalise_totals''
       ''Remove zero-value creator total entries.''
       rule_remove_zero_totals,
     v1_rule ''v1_to_v2_cancel_expired_locks''
       ''Mark time-locked tips whose unlock_time is in the past as cancelled so they are not re-imported as active locks.''
       rule_mark_expired_locks_cancelled,
     v1_rule ''v1_to_v2_dedup_subscriptions''
       ''Remove duplicate subscription entries keeping the most recent one.''
       rule_dedup_subscriptions,
     v1_rule ''v1_to_v2_strip_cancelled_subscriptions''
       ''Remove subscriptions in Cancelled status to reduce import payload.''
       rule_strip_cancelled_subscriptions,
     v1_rule ''v1_to_v2_cap_tip_history''
       ''Cap per-creator tip history at 1 000 entries (newest first) to stay within Soroban storage limits.''
       rule_cap_tip_history,
     v1_rule ''v1_to_v2_remove_refunded_tip_records''
       ''Drop fully-refunded tip records to reduce import size.''
       rule_remove_refunded_tip_records,
     v1_rule ''v1_to_v2_bump_schema_version''
       ''Update the snapshot schema_version field to the target version.''
       rule_bump_schema_version]"

fun apply_rules :: "u32 \<Rightarrow> u32 \<Rightarrow> transform_rule list \<Rightarrow> rule_fn" where
  "apply_rules source target [] p = p"
| "apply_rules source target (r # rs) p =
     apply_rules source target rs
       (if from_version r \<le> source \<and> to_version r < target then apply_rule r p else p)"

section \<open>Checksum and transformation\<close>

definition compute_checksum ::
  "(state_snapshot \<Rightarrow> string + string) \<Rightarrow> (string \<Rightarrow> string) \<Rightarrow> state_snapshot \<Rightarrow> string + string" where
  "compute_checksum to_json sha256_hex sn =
     (case to_json (sn\<lparr>checksum := []\<rparr>) of
        Inl e \<Rightarrow> Inl (''Checksum serialisation error: '' @ e)
      | Inr canonical \<Rightarrow> Inr (sha256_hex canonical))"

definition verify_checksum ::
  "(state_snapshot \<Rightarrow> string + string) \<Rightarrow> (string \<Rightarrow> string) \<Rightarrow> state_snapshot \<Rightarrow> string + unit" where
  "verify_checksum to_json sha256_hex sn =
     (case compute_checksum to_json sha256_hex sn of
        Inl e \<Rightarrow> Inl e
      | Inr expected \<Rightarrow>
          if checksum sn \<noteq> expected
          then Inl (''Checksum mismatch: stored='' @ checksum sn @ '', computed='' @ expected)
          else Inr ())"

definition transform ::
  "(state_snapshot \<Rightarrow> string + string) \<Rightarrow> (string \<Rightarrow> string) \<Rightarrow> u32 \<Rightarrow> u32 \<Rightarrow> state_snapshot \<Rightarrow>
   string + state_snapshot \<times> transformation_log list" where
  "transform to_json sha256_hex source target sn =
     (if schema_version sn \<noteq> source
      then Inl (''Snapshot schema version '' @ show_nat (unat (schema_version sn)) @
                '' does not match expected source version '' @ show_nat (unat source))
      else case apply_rules source target TRANSFORM_RULES (sn, []) of (sn1, logs) \<Rightarrow>
        (case compute_checksum to_json sha256_hex sn1 of
           Inl err \<Rightarrow> Inl err
         | Inr digest \<Rightarrow> Inr (sn1\<lparr>checksum := digest\<rparr>, logs)))"

section \<open>Properties\<close>

text \<open>The snapshot that the rules of the first version make of one.\<close>

definition transformed :: "state_snapshot \<Rightarrow> state_snapshot" where
  "transformed sn = sn\<lparr>
     creator_balances := filter (\<lambda>(_, v). v \<noteq> 0) (creator_balances sn),
     creator_totals := filter (\<lambda>(_, v). v \<noteq> 0) (creator_totals sn),
     time_locks := map (\<lambda>l. if lock_expired (exported_at sn) l then l\<lparr>tl_cancelled := True\<rparr> else l) (time_locks sn),
     subscriptions := filter (\<lambda>(_, sb). sub_status sb \<noteq> Cancelled) (subscriptions sn),
     tip_history := map (\<lambda>(k, v). (k, cap_history v)) (tip_history sn),
     tip_records := filter (\<lambda>r. \<not> refunded r) (tip_records sn),
     schema_version := schema_version sn + 1\<rparr>"

lemmas rule_defs =
  rule_remove_zero_balances_def rule_remove_zero_totals_def rule_mark_expired_locks_cancelled_def
  rule_dedup_subscriptions_def rule_strip_cancelled_subscriptions_def rule_cap_tip_history_def
  rule_remove_refunded_tip_records_def rule_bump_schema_version_def log_entry_def

lemma apply_rules_v1:
  assumes "1 \<le> source" "1 < target"
  shows "fst (apply_rules source target TRANSFORM_RULES (sn, logs)) = transformed sn"
    and "map rule_name (snd (apply_rules source target TRANSFORM_RULES (sn, logs))) =
           map rule_name logs @ map rule_id TRANSFORM_RULES"
  using assms by (simp_all add: TRANSFORM_RULES_def v1_rule_def rule_defs transformed_def Let_def)

lemma lookup_nonzero:
  assumes "distinct (map fst xs)"
  shows "(case map_of (filter (\<lambda>(_, v). v \<noteq> 0) xs) k of None \<Rightarrow> 0 | Some v \<Rightarrow> v) =
         (case map_of xs k of None \<Rightarrow> (0::int) | Some v \<Rightarrow> v)"
  using assms
proof (induction xs)
  case (Cons p xs)
  then have "map_of xs (fst p) = None" by (simp add: map_of_eq_None_iff)
  moreover from this have "map_of (filter (\<lambda>(_, v). v \<noteq> 0) xs) (fst p) = None"
    by (auto simp: map_of_eq_None_iff)
  ultimately show ?case using Cons by (cases p) auto
qed simp

lemma cap_history_suffix:
  "length (cap_history v) = min MAX_HISTORY (length v)" "\<exists>old. v = old @ cap_history v"
proof -
  show "\<exists>old. v = old @ cap_history v"
    by (rule exI [of _ "take (length v - length (cap_history v)) v"])
      (auto simp: cap_history_def)
qed (auto simp: cap_history_def)

text \<open>
  C20. What transforming a snapshot of schema version 1 to version 2 changes, field by field. Every
  creator balance and total reads the same as before, an absent entry reading zero; the subscriptions
  that remain are exactly those not cancelled and the tip records exactly those not refunded; of every
  creator's history the newest thousand entries are kept, in order, and older ones are lost. Every time
  lock is kept with its parties, token, amount and unlock time, but the flag \<^verbatim>\<open>cancelled\<close> is set on every
  lock whose unlock time lies before the export: these are locks that have matured, whose amount the
  creator could withdraw before the migration and cannot withdraw after it. The version becomes 2, one
  log entry is written for each rule, in order, the new checksum verifies, and no other field changes.
\<close>

theorem transform_changes_exactly:
  assumes "transform to_json sha 1 2 sn = Inr (sn', logs)"
    and "distinct (map fst (creator_balances sn))" "distinct (map fst (creator_totals sn))"
  defines "read m k \<equiv> (case map_of m k of None \<Rightarrow> 0 | Some (v::int) \<Rightarrow> v)"
  shows "read (creator_balances sn') k = read (creator_balances sn) k \<and>
    read (creator_totals sn') k = read (creator_totals sn) k \<and>
    set (subscriptions sn') = {p \<in> set (subscriptions sn). sub_status (snd p) \<noteq> Cancelled} \<and>
    tip_records sn' = filter (\<lambda>r. \<not> refunded r) (tip_records sn) \<and>
    map fst (tip_history sn') = map fst (tip_history sn) \<and>
    list_all2 (\<lambda>p q. \<exists>old. snd p = old @ snd q \<and> length (snd q) = min 1000 (length (snd p)))
      (tip_history sn) (tip_history sn') \<and>
    list_all2 (\<lambda>l l'. l' = l\<lparr>tl_cancelled := (tl_cancelled l \<or> unlock_time l < exported_at sn)\<rparr>)
      (time_locks sn) (time_locks sn') \<and>
    schema_version sn' = 2 \<and> map rule_name logs = map rule_id TRANSFORM_RULES \<and>
    verify_checksum to_json sha sn' = Inr () \<and>
    sn' = sn\<lparr>creator_balances := creator_balances sn', creator_totals := creator_totals sn',
      subscriptions := subscriptions sn', tip_records := tip_records sn', tip_history := tip_history sn',
      time_locks := time_locks sn', schema_version := 2, checksum := checksum sn'\<rparr>"
proof -
  obtain d where v: "schema_version sn = 1" and d: "compute_checksum to_json sha (transformed sn) = Inr d"
    and sn': "sn' = (transformed sn)\<lparr>checksum := d\<rparr>"
    and logs: "map rule_name logs = map rule_id TRANSFORM_RULES"
    using assms(1) apply_rules_v1 [of 1 2 sn "[]"]
    by (auto simp: transform_def split: if_splits prod.splits sum.splits)
  have "verify_checksum to_json sha sn' = Inr ()"
    using d by (simp add: verify_checksum_def sn' compute_checksum_def)
  moreover have "list_all2 (\<lambda>p q. \<exists>old. snd p = old @ snd q \<and> length (snd q) = min 1000 (length (snd p)))
      (tip_history sn) (tip_history sn')"
    using cap_history_suffix
    by (auto simp: sn' transformed_def list_all2_conv_all_nth case_prod_beta MAX_HISTORY_def)
  moreover have "list_all2 (\<lambda>l l'. l' = l\<lparr>tl_cancelled := (tl_cancelled l \<or> unlock_time l < exported_at sn)\<rparr>)
      (time_locks sn) (time_locks sn')"
    by (simp add: sn' transformed_def list.rel_map lock_expired_def list.rel_refl)
  moreover have "sn' = sn\<lparr>creator_balances := creator_balances sn', creator_totals := creator_totals sn',
      subscriptions := subscriptions sn', tip_records := tip_records sn', tip_history := tip_history sn',
      time_locks := time_locks sn', schema_version := 2, checksum := checksum sn'\<rparr>"
    using v by (simp add: sn' transformed_def)
  moreover have "set (subscriptions sn') = {p \<in> set (subscriptions sn). sub_status (snd p) \<noteq> Cancelled}"
    "tip_records sn' = filter (\<lambda>r. \<not> refunded r) (tip_records sn)" "schema_version sn' = 2"
    "map fst (tip_history sn') = map fst (tip_history sn)"
    using v by (auto simp: sn' transformed_def case_prod_beta)
  moreover have "read (creator_balances sn') k = read (creator_balances sn) k"
    "read (creator_totals sn') k = read (creator_totals sn) k"
    using assms(2,3) by (simp_all add: sn' transformed_def read_def lookup_nonzero)
  ultimately show ?thesis using logs by blast
qed

text \<open>
  The rules are selected without an upper bound on the source version and the version is
  raised by one whatever the target: a transformation from 1 to 3 ends at version 2, and one from
  2 to 3 runs the rules for version 1 again.
\<close>

theorem transform_skips_versions:
  assumes "schema_version sn = 1" "to_json ((transformed sn)\<lparr>checksum := []\<rparr>) = Inr j"
  shows "\<exists>sn' logs. transform to_json sha 1 3 sn = Inr (sn', logs) \<and> schema_version sn' = 2 \<and>
    (\<forall>sn2 sn3 logs3. schema_version sn2 = 2 \<and> transform to_json sha 2 3 sn2 = Inr (sn3, logs3) \<longrightarrow>
       map rule_name logs3 = map rule_id TRANSFORM_RULES)"
proof -
  have c: "compute_checksum to_json sha (transformed sn) = Inr (sha j)"
    using assms(2) by (simp add: compute_checksum_def)
  have "\<exists>logs. transform to_json sha 1 3 sn = Inr ((transformed sn)\<lparr>checksum := sha j\<rparr>, logs)"
    using apply_rules_v1(1) [of 1 3 sn "[]"] assms(1) c
    by (cases "apply_rules 1 3 TRANSFORM_RULES (sn, [])") (simp add: transform_def)
  moreover have "schema_version ((transformed sn)\<lparr>checksum := sha j\<rparr>) = 2"
    using assms(1) by (simp add: transformed_def)
  moreover have "map rule_name logs3 = map rule_id TRANSFORM_RULES"
    if "transform to_json sha 2 3 sn2 = Inr (sn3, logs3)" for sn2 sn3 logs3
    using that apply_rules_v1(2) [of 2 3 sn2 "[]"]
    by (auto simp: transform_def split: if_splits prod.splits sum.splits)
  ultimately show ?thesis by blast
qed


definition sn_sample :: state_snapshot where
  "sn_sample = \<lparr>contract_id = ''C'', schema_version = 1, exported_at = 50, ledger_sequence = 9, checksum = [],
     sn_admin = ''A'', fee_basis_points = 100, refund_window_seconds = 0, paused = False, pause_reason = None,
     tip_counter = 1, matching_counter = 0, current_fee_bps = 100, whitelisted_tokens = [],
     creator_balances = [(''a:t'', 5), (''b:t'', 0)], creator_totals = [(''a:t'', 7)],
     tip_history = [(''a'', [\<lparr>tm_sender = ''s'', tm_amount = 7, tm_message = None, tm_timestamp = 1\<rparr>])],
     tipper_aggregates = [], creator_aggregates = [], subscriptions = [],
     time_locks = [\<lparr>lock_id = 0, tl_sender = ''s'', tl_creator = ''a'', tl_token = ''t'', tl_amount = 9, unlock_time = 20, tl_cancelled = False\<rparr>],
     milestones = [],
     matching_programs = [], tip_records = [], locked_tips = [], user_roles = []\<rparr>"

definition sn_json :: "state_snapshot \<Rightarrow> string + string" where
  "sn_json sn = Inr (show_nat (length (creator_balances sn)))"

lemma sn_sample_transforms: "\<exists>sn' logs. transform sn_json (\<lambda>x. x) 1 2 sn_sample = Inr (sn', logs)"
  using apply_rules_v1(1) [of 1 2 sn_sample "[]"]
  by (cases "apply_rules 1 2 TRANSFORM_RULES (sn_sample, [])")
    (simp add: transform_def compute_checksum_def sn_json_def sn_sample_def)

theorem transform_changes_exactly_witness:
  "\<exists>sn' logs. transform sn_json (\<lambda>x. x) 1 2 sn_sample = Inr (sn', logs) \<and> schema_version sn' = 2 \<and>
     length logs = 8 \<and> map_of (creator_balances sn') ''a:t'' = Some 5 \<and> map tl_cancelled (time_locks sn') = [True]"
proof -
  obtain sn' logs where t: "transform sn_json (\<lambda>x. x) 1 2 sn_sample = Inr (sn', logs)"
    using sn_sample_transforms by blast
  have d: "distinct (map fst (creator_balances sn_sample))" "distinct (map fst (creator_totals sn_sample))"
    by (simp_all add: sn_sample_def)
  note k = transform_changes_exactly [OF t d, of "''a:t''"]
  have "map rule_name logs = map rule_id TRANSFORM_RULES" using k by blast
  then have "length logs = length TRANSFORM_RULES" by (rule map_eq_imp_length_eq)
  then have "length logs = 8" by (simp add: TRANSFORM_RULES_def)
  moreover have "map_of (creator_balances sn') ''a:t'' = Some 5"
    using k by (auto simp: sn_sample_def split: option.splits)
  moreover have "map tl_cancelled (time_locks sn') = [True]"
    using k by (auto simp: sn_sample_def list_all2_Cons1)
  moreover have "schema_version sn' = 2" using k by (elim conjE)
  ultimately show ?thesis using t by (intro exI [of _ sn'] exI [of _ logs] conjI)
qed

theorem transform_skips_versions_witness:
  "\<exists>sn' logs. transform sn_json (\<lambda>x. x) 1 3 sn_sample = Inr (sn', logs) \<and> schema_version sn' = 2"
proof -
  have "schema_version sn_sample = 1" by (simp add: sn_sample_def)
  moreover have "sn_json ((transformed sn_sample)\<lparr>checksum := []\<rparr>) = Inr (show_nat 1)"
    by (simp add: sn_json_def transformed_def sn_sample_def)
  ultimately show ?thesis using transform_skips_versions [of sn_sample sn_json _ "\<lambda>x. x"] by blast
qed

end
