(* ===== verification/Security_Monitor.thy ===== *)
theory Security_Monitor
  imports Prelude
begin

text \<open>
  The off-chain security service, \<^verbatim>\<open>src/security/src\<close>: the sliding-window rate limiter, the
  circuit breaker and the monitor that runs a transaction past them. Time is the number of
  nanoseconds the clock reads, an argument of the operations that read it. The anomaly detector
  computes with floating-point numbers and is an argument of the monitor: a function from its own
  state, the sender and the amount to the new state and the verdict whether the score exceeds the
  threshold. Alerts are recorded, without the score and the text made of it; their delivery over
  the network is not modelled. One call of the service runs at a time.
\<close>

section \<open>Sliding windows\<close>

text \<open>Both services keep the times of past events and drop those outside the window.\<close>

definition secs :: "int \<Rightarrow> int" where "secs n = 1000000000 * n"

definition retain_recent :: "int \<Rightarrow> int \<Rightarrow> int list \<Rightarrow> int list" where
  "retain_recent window_secs now ts = (let cutoff = now - secs window_secs in filter (\<lambda>t. t > cutoff) ts)"

section \<open>Rate limiter\<close>

record rate_limiter =
  max_tx :: nat
  rl_window_secs :: int
  windows :: "string \<rightharpoonup> int list"
  blacklist :: "string list"
  whitelist :: "string list"

definition rate_limiter_new :: "nat \<Rightarrow> int \<Rightarrow> rate_limiter" where
  "rate_limiter_new m w = \<lparr>max_tx = m, rl_window_secs = w, windows = Map.empty, blacklist = [], whitelist = []\<rparr>"

definition is_blacklisted :: "string \<Rightarrow> rate_limiter \<Rightarrow> bool" where
  "is_blacklisted a rl \<longleftrightarrow> a \<in> set (blacklist rl)"

definition is_whitelisted :: "string \<Rightarrow> rate_limiter \<Rightarrow> bool" where
  "is_whitelisted a rl \<longleftrightarrow> a \<in> set (whitelist rl)"

definition check :: "int \<Rightarrow> string \<Rightarrow> rate_limiter \<Rightarrow> bool \<times> rate_limiter" where
  "check now a rl =
     (if is_blacklisted a rl then (False, rl)
      else if is_whitelisted a rl then (True, rl)
      else let timestamps = retain_recent (rl_window_secs rl) now (unwrap_or (windows rl a) []) in
        if length timestamps \<ge> max_tx rl
        then (False, rl\<lparr>windows := (windows rl)(a \<mapsto> timestamps)\<rparr>)
        else (True, rl\<lparr>windows := (windows rl)(a \<mapsto> timestamps @ [now])\<rparr>))"

definition add_to_blacklist :: "string \<Rightarrow> rate_limiter \<Rightarrow> rate_limiter" where
  "add_to_blacklist a rl = (if a \<in> set (blacklist rl) then rl else rl\<lparr>blacklist := blacklist rl @ [a]\<rparr>)"

definition remove_from_blacklist :: "string \<Rightarrow> rate_limiter \<Rightarrow> rate_limiter" where
  "remove_from_blacklist a rl = rl\<lparr>blacklist := filter (\<lambda>b. b \<noteq> a) (blacklist rl)\<rparr>"

definition add_to_whitelist :: "string \<Rightarrow> rate_limiter \<Rightarrow> rate_limiter" where
  "add_to_whitelist a rl = (if a \<in> set (whitelist rl) then rl else rl\<lparr>whitelist := whitelist rl @ [a]\<rparr>)"

section \<open>Circuit breaker\<close>

datatype circuit_state = Closed | Open

record circuit_breaker =
  threshold :: nat
  cb_window_secs :: int
  cb_state :: circuit_state
  cb_events :: "int list"

definition circuit_breaker_new :: "nat \<Rightarrow> int \<Rightarrow> circuit_breaker" where
  "circuit_breaker_new n w = \<lparr>threshold = n, cb_window_secs = w, cb_state = Closed, cb_events = []\<rparr>"

definition record_anomaly :: "int \<Rightarrow> circuit_breaker \<Rightarrow> bool \<times> circuit_breaker" where
  "record_anomaly now cb =
     (let events = retain_recent (cb_window_secs cb) now (cb_events cb) @ [now];
          cb1 = cb\<lparr>cb_events := events\<rparr> in
      if length events \<ge> threshold cb \<and> cb_state cb = Closed
      then (True, cb1\<lparr>cb_state := Open\<rparr>) else (False, cb1))"

definition is_open :: "circuit_breaker \<Rightarrow> bool" where
  "is_open cb \<longleftrightarrow> cb_state cb = Open"

definition reset :: "circuit_breaker \<Rightarrow> circuit_breaker" where
  "reset cb = cb\<lparr>cb_state := Closed, cb_events := []\<rparr>"

section \<open>Monitor\<close>

datatype security_check = Approved | RateLimited | Suspicious | Blocked | CircuitOpen

record transaction =
  hash :: string
  tx_sender :: string
  tx_creator :: string
  tx_amount :: int

datatype alert =
    AlertRateLimited string
  | AlertAnomalyDetected string string
  | AlertBlacklisted string
  | AlertCircuitBreakerTripped string

record 'd security_monitor =
  rate_limit :: rate_limiter
  detector :: 'd
  breaker :: circuit_breaker
  alerts :: "alert list"

definition send_alert :: "alert \<Rightarrow> 'd security_monitor \<Rightarrow> 'd security_monitor" where
  "send_alert al m = m\<lparr>alerts := alerts m @ [al]\<rparr>"

definition check_transaction ::
  "('d \<Rightarrow> string \<Rightarrow> int \<Rightarrow> 'd \<times> bool) \<Rightarrow> int \<Rightarrow> transaction \<Rightarrow> 'd security_monitor \<Rightarrow>
   security_check \<times> 'd security_monitor" where
  "check_transaction score now tx m =
     (if is_open (breaker m) then (CircuitOpen, m)
      else if is_blacklisted (tx_sender tx) (rate_limit m)
      then (Blocked, send_alert (AlertBlacklisted (tx_sender tx)) m)
      else let (allowed, rl) = check now (tx_sender tx) (rate_limit m); m1 = m\<lparr>rate_limit := rl\<rparr> in
        if \<not> allowed then (RateLimited, send_alert (AlertRateLimited (tx_sender tx)) m1)
        else let (d, anomalous) = score (detector m1) (tx_sender tx) (tx_amount tx); m2 = m1\<lparr>detector := d\<rparr> in
          if anomalous
          then let m3 = send_alert (AlertAnomalyDetected (hash tx) (tx_sender tx)) m2;
                   (tripped, cb) = record_anomaly now (breaker m3);
                   m4 = m3\<lparr>breaker := cb\<rparr>
               in (Suspicious, if tripped then send_alert (AlertCircuitBreakerTripped (hash tx)) m4 else m4)
          else (Approved, m2))"

definition monitor_blacklist :: "string \<Rightarrow> 'd security_monitor \<Rightarrow> 'd security_monitor" where
  "monitor_blacklist a m = m\<lparr>rate_limit := add_to_blacklist a (rate_limit m)\<rparr>"

definition monitor_unblacklist :: "string \<Rightarrow> 'd security_monitor \<Rightarrow> 'd security_monitor" where
  "monitor_unblacklist a m = m\<lparr>rate_limit := remove_from_blacklist a (rate_limit m)\<rparr>"

definition monitor_whitelist :: "string \<Rightarrow> 'd security_monitor \<Rightarrow> 'd security_monitor" where
  "monitor_whitelist a m = m\<lparr>rate_limit := add_to_whitelist a (rate_limit m)\<rparr>"

definition reset_circuit_breaker :: "'d security_monitor \<Rightarrow> 'd security_monitor" where
  "reset_circuit_breaker m = m\<lparr>breaker := reset (breaker m)\<rparr>"

section \<open>Rate limiting over runs\<close>

text \<open>A run of checks of one address at the given times; the result lists the times approved.\<close>

fun approvals :: "string \<Rightarrow> int list \<Rightarrow> rate_limiter \<Rightarrow> int list" where
  "approvals a [] rl = []"
| "approvals a (now # rest) rl =
     (case check now a rl of (ok, rl') \<Rightarrow> (if ok then [now] else []) @ approvals a rest rl')"

definition in_window :: "int \<Rightarrow> int \<Rightarrow> int list \<Rightarrow> nat" where
  "in_window w T ts = length (filter (\<lambda>t. T - secs w < t \<and> t \<le> T) ts)"

lemma in_window_retain_le: "in_window w T (retain_recent w now ts) \<le> in_window w T ts"
  by (induction ts) (auto simp: in_window_def retain_recent_def Let_def)

lemma in_window_append: "in_window w T (xs @ ys) = in_window w T xs + in_window w T ys"
  by (simp add: in_window_def)

lemma in_window_le_length: "in_window w T ts \<le> length ts"
  by (simp add: in_window_def)

lemma check_lists [simp]:
  "blacklist (snd (check now a rl)) = blacklist rl" "whitelist (snd (check now a rl)) = whitelist rl"
  "max_tx (snd (check now a rl)) = max_tx rl" "rl_window_secs (snd (check now a rl)) = rl_window_secs rl"
  by (simp_all add: check_def Let_def)

lemma approvals_subset: "set (approvals a ts rl) \<subseteq> set ts"
  by (induction ts arbitrary: rl) (auto split: prod.splits)

text \<open>Once an event at or after \<open>now\<close> is in the window, what was dropped at \<open>now\<close> no longer is.\<close>

lemma in_window_retain:
  assumes "\<forall>x\<in>set A. now \<le> x"
  shows "in_window w T (L @ A) \<le> max (in_window w T L) (in_window w T (retain_recent w now L @ A))"
proof (cases "in_window w T A = 0")
  case True
  then show ?thesis by (simp add: in_window_append)
next
  case False
  then obtain x where "x \<in> set A" "x \<le> T" by (auto simp: in_window_def filter_empty_conv)
  then have "now \<le> T" using assms by auto
  then have "in_window w T (retain_recent w now L) = in_window w T L"
    by (auto simp: in_window_def retain_recent_def Let_def intro!: arg_cong [of _ _ length] filter_cong)
  then show ?thesis by (simp add: in_window_append)
qed

lemma approvals_window:
  assumes "\<not> is_blacklisted a rl" "\<not> is_whitelisted a rl" "sorted ts"
    and "\<forall>T. in_window (rl_window_secs rl) T (unwrap_or (windows rl a) []) \<le> max_tx rl"
  shows "in_window (rl_window_secs rl) T (unwrap_or (windows rl a) [] @ approvals a ts rl) \<le> max_tx rl"
  using assms
proof (induction ts arbitrary: rl)
  case Nil
  then show ?case by simp
next
  case (Cons now rest)
  let ?w = "rl_window_secs rl"
  let ?L = "unwrap_or (windows rl a) []"
  let ?L1 = "retain_recent ?w now ?L"
  define rl' where "rl' = snd (check now a rl)"
  define A where "A = approvals a (now # rest) rl"
  have later: "\<forall>x\<in>set A. now \<le> x"
    using approvals_subset [of a "now # rest" rl] Cons.prems(3) by (auto simp: A_def)
  have rl': "\<not> is_blacklisted a rl'" "\<not> is_whitelisted a rl'" "rl_window_secs rl' = ?w" "max_tx rl' = max_tx rl"
    using Cons.prems(1,2) by (simp_all add: rl'_def is_blacklisted_def is_whitelisted_def)
  have "in_window ?w T (?L1 @ A) \<le> max_tx rl"
  proof (cases "length ?L1 \<ge> max_tx rl")
    case True
    then have c: "check now a rl = (False, rl')" and L: "unwrap_or (windows rl' a) [] = ?L1"
      using Cons.prems(1,2) by (simp_all add: rl'_def check_def Let_def)
    have sub: "in_window ?w T' ?L1 \<le> in_window ?w T' ?L" for T'
      by (rule in_window_retain_le)
    have "in_window ?w T (?L1 @ approvals a rest rl') \<le> max_tx rl"
      using Cons.IH [OF rl'(1,2)] Cons.prems(3,4) sub rl' L by (auto intro: order_trans)
    then show ?thesis by (simp add: A_def c)
  next
    case False
    then have c: "check now a rl = (True, rl')" and L: "unwrap_or (windows rl' a) [] = ?L1 @ [now]"
      using Cons.prems(1,2) by (simp_all add: rl'_def check_def Let_def)
    have "in_window ?w T' (?L1 @ [now]) \<le> max_tx rl" for T'
      using in_window_le_length [of ?w T' "?L1 @ [now]"] False by simp
    then have "in_window ?w T ((?L1 @ [now]) @ approvals a rest rl') \<le> max_tx rl"
      using Cons.IH [OF rl'(1,2)] Cons.prems(3) rl' L by auto
    then show ?thesis by (simp add: A_def c)
  qed
  moreover have "in_window ?w T ?L \<le> max_tx rl" using Cons.prems(4) by blast
  ultimately show ?case
    using in_window_retain [OF later, of ?w T ?L] by (simp add: A_def)
qed

text \<open>
  C21. The rate limiter never lets an address that is on neither list exceed its quota: whatever
  the times of its requests, as long as the clock does not run backwards, every window of the
  configured length contains at most the configured number of approved requests.
\<close>

theorem rate_limit_holds_in_every_window:
  assumes "sorted ts" "windows rl a = None" "\<not> is_blacklisted a rl" "\<not> is_whitelisted a rl"
  shows "in_window (rl_window_secs rl) T (approvals a ts rl) \<le> max_tx rl"
proof -
  have "\<forall>T. in_window (rl_window_secs rl) T (unwrap_or (windows rl a) []) \<le> max_tx rl"
    by (simp add: assms(2) in_window_def)
  from approvals_window [OF assms(3,4,1) this, of T] show ?thesis by (simp add: assms(2))
qed

theorem rate_limit_holds_in_every_window_witness:
  "in_window 60 30 (approvals ''a'' [10, 20, 30] (rate_limiter_new 2 60)) \<le> 2 \<and>
   approvals ''a'' [10, 20, 30] (rate_limiter_new 2 60) = [10, 20]"
proof -
  have "approvals ''a'' [10, 20, 30] (rate_limiter_new 2 60) = [10, 20]"
    by (simp add: rate_limiter_new_def check_def is_blacklisted_def is_whitelisted_def retain_recent_def secs_def Let_def)
  then show ?thesis
    using rate_limit_holds_in_every_window [of "[10, 20, 30]" "rate_limiter_new 2 60" "''a''" 30]
    by (simp add: rate_limiter_new_def is_blacklisted_def is_whitelisted_def)
qed

section \<open>The breaker stays open\<close>

fun run_monitor ::
  "('d \<Rightarrow> string \<Rightarrow> int \<Rightarrow> 'd \<times> bool) \<Rightarrow> (int \<times> transaction) list \<Rightarrow> 'd security_monitor \<Rightarrow> security_check list" where
  "run_monitor score [] m = []"
| "run_monitor score ((now, tx) # rest) m =
     (case check_transaction score now tx m of (v, m') \<Rightarrow> v # run_monitor score rest m')"

lemma run_open: "is_open (breaker m) \<Longrightarrow> run_monitor score txs m = replicate (length txs) CircuitOpen"
  by (induction txs) (auto simp: check_transaction_def)

text \<open>
  The monitor approves a transaction only if the breaker is closed, the sender is not
  blacklisted, the limiter admits it and the detector does not flag it. A flagged transaction is
  reported suspicious; when with it the flagged ones within the breaker's window reach the
  threshold, the breaker opens and every later transaction, from whomever, is refused until an
  operator resets it.
\<close>

theorem monitor_trips_and_blocks:
  assumes "check_transaction score now tx m = (v, m')"
  shows "(v = Approved \<longrightarrow> \<not> is_open (breaker m) \<and> \<not> is_blacklisted (tx_sender tx) (rate_limit m) \<and>
            fst (check now (tx_sender tx) (rate_limit m)) \<and>
            \<not> snd (score (detector m) (tx_sender tx) (tx_amount tx))) \<and>
    (v = Suspicious \<longrightarrow> snd (score (detector m) (tx_sender tx) (tx_amount tx)) \<and>
       (is_open (breaker m') \<longleftrightarrow>
          threshold (breaker m) \<le> Suc (length (retain_recent (cb_window_secs (breaker m)) now (cb_events (breaker m))))) \<and>
       (is_open (breaker m') \<longrightarrow> run_monitor score txs m' = replicate (length txs) CircuitOpen)) \<and>
    \<not> is_open (breaker (reset_circuit_breaker m'))"
proof -
  have "is_open (breaker m') \<longrightarrow> run_monitor score txs m' = replicate (length txs) CircuitOpen"
    by (simp add: run_open)
  moreover have "\<not> is_open (breaker (reset_circuit_breaker m'))"
    by (simp add: reset_circuit_breaker_def reset_def is_open_def)
  moreover have "v = Approved \<longrightarrow> \<not> is_open (breaker m) \<and> \<not> is_blacklisted (tx_sender tx) (rate_limit m) \<and>
            fst (check now (tx_sender tx) (rate_limit m)) \<and>
            \<not> snd (score (detector m) (tx_sender tx) (tx_amount tx))"
    using assms by (auto simp: check_transaction_def Let_def split: if_splits prod.splits)
  moreover have "v = Suspicious \<longrightarrow> snd (score (detector m) (tx_sender tx) (tx_amount tx)) \<and>
       (is_open (breaker m') \<longleftrightarrow>
          threshold (breaker m) \<le> Suc (length (retain_recent (cb_window_secs (breaker m)) now (cb_events (breaker m)))))"
  proof
    assume v: "v = Suspicious"
    have st: "cb_state (breaker m) = Closed"
      using assms v by (cases "cb_state (breaker m)") (auto simp: check_transaction_def is_open_def)
    have sc: "snd (score (detector m) (tx_sender tx) (tx_amount tx))" and
      "breaker m' = snd (record_anomaly now (breaker m))"
      using assms v by (auto simp: check_transaction_def send_alert_def Let_def split: if_splits prod.splits)
    then show "snd (score (detector m) (tx_sender tx) (tx_amount tx)) \<and>
       (is_open (breaker m') \<longleftrightarrow>
          threshold (breaker m) \<le> Suc (length (retain_recent (cb_window_secs (breaker m)) now (cb_events (breaker m)))))"
      using st by (simp add: record_anomaly_def is_open_def Let_def)
  qed
  ultimately show ?thesis by blast
qed

definition mon_sample :: "unit security_monitor" where
  "mon_sample = \<lparr>rate_limit = rate_limiter_new 5 60, detector = (), breaker = circuit_breaker_new 1 60, alerts = []\<rparr>"

theorem monitor_trips_and_blocks_witness:
  "\<exists>m'. check_transaction (\<lambda>d _ n. (d, n > 100)) 10 \<lparr>hash = ''h'', tx_sender = ''a'', tx_creator = ''c'', tx_amount = 500\<rparr>
          mon_sample = (Suspicious, m') \<and>
     run_monitor (\<lambda>d _ n. (d, n > 100)) [(11, \<lparr>hash = ''i'', tx_sender = ''b'', tx_creator = ''c'', tx_amount = 1\<rparr>)] m'
       = [CircuitOpen]"
proof -
  let ?sc = "\<lambda>d _ n. (d :: unit, n > (100::int))"
  let ?tx = "\<lparr>hash = ''h'', tx_sender = ''a'', tx_creator = ''c'', tx_amount = 500\<rparr>"
  have "\<exists>m'. check_transaction ?sc 10 ?tx mon_sample = (Suspicious, m') \<and> is_open (breaker m')"
    by (simp add: check_transaction_def mon_sample_def is_open_def circuit_breaker_new_def rate_limiter_new_def
        check_def is_blacklisted_def is_whitelisted_def retain_recent_def send_alert_def record_anomaly_def Let_def)
  then obtain m' where m': "check_transaction ?sc 10 ?tx mon_sample = (Suspicious, m')" "is_open (breaker m')" by blast
  show ?thesis
    using monitor_trips_and_blocks [OF m'(1), of "[(11, \<lparr>hash = ''i'', tx_sender = ''b'', tx_creator = ''c'', tx_amount = 1\<rparr>)]"] m'
    by auto
qed

end
