(* ===== verification/Migration_Rpc.thy ===== *)
theory Migration_Rpc
  imports Snapshot_Transform
begin

text \<open>
  The client of the migration toolkit that reads and writes a contract through the \<^verbatim>\<open>stellar\<close>
  command, \<^verbatim>\<open>src/scripts/migrate/rpc_client.rs\<close>. The command is the argument \<open>stellar\<close>, a function
  from its command line and the state of the world to its outcome and the new state of the world;
  environment variables are the argument \<open>env_var\<close>. The decoders and encoders of the JSON package are
  the fields of a record. The pause between two attempts is left out. Texts are ASCII.
\<close>

section \<open>Texts and numbers\<close>

definition is_whitespace :: "char \<Rightarrow> bool" where
  "is_whitespace c \<longleftrightarrow> (let n = (of_char c :: nat) in 9 \<le> n \<and> n \<le> 13 \<or> n = 32)"

definition trim_while :: "(char \<Rightarrow> bool) \<Rightarrow> string \<Rightarrow> string" where
  "trim_while p s = rev (dropWhile p (rev (dropWhile p s)))"

definition trim :: "string \<Rightarrow> string" where
  "trim = trim_while is_whitespace"

definition trim_quotes :: "string \<Rightarrow> string" where
  "trim_quotes = trim_while (\<lambda>c. c = CHR 0x22)"

definition is_digit :: "char \<Rightarrow> bool" where
  "is_digit c \<longleftrightarrow> (let n = (of_char c :: nat) in 48 \<le> n \<and> n \<le> 57)"

definition digits_value :: "string \<Rightarrow> nat" where
  "digits_value s = foldl (\<lambda>n c. 10 * n + (of_char c - 48)) 0 s"

definition parse_digits :: "string \<Rightarrow> nat option" where
  "parse_digits s = (if s \<noteq> [] \<and> list_all is_digit s then Some (digits_value s) else None)"

text \<open>\<open>parse\<close> of the unsigned and signed integer types: a sign, where allowed, and digits in range.\<close>

definition parse_unsigned :: "nat \<Rightarrow> string \<Rightarrow> nat option" where
  "parse_unsigned bound s =
     (case parse_digits (case s of c # cs \<Rightarrow> if c = CHR ''+'' then cs else s | [] \<Rightarrow> []) of
        Some n \<Rightarrow> if n < bound then Some n else None
      | None \<Rightarrow> None)"

definition parse_u32 :: "string \<Rightarrow> u32 option" where
  "parse_u32 s = map_option of_nat (parse_unsigned (2 ^ 32) s)"

definition parse_u64 :: "string \<Rightarrow> u64 option" where
  "parse_u64 s = map_option of_nat (parse_unsigned (2 ^ 64) s)"

definition parse_i128 :: "string \<Rightarrow> int option" where
  "parse_i128 s =
     (let (neg, ds) = (case s of c # cs \<Rightarrow> if c = CHR ''-'' then (True, cs)
                                     else if c = CHR ''+'' then (False, cs) else (False, s)
                              | [] \<Rightarrow> (False, [])) in
      case parse_digits ds of
        Some n \<Rightarrow> let v = (if neg then - int n else int n) in if in_i128 v then Some v else None
      | None \<Rightarrow> None)"

definition show_int :: "int \<Rightarrow> string" where
  "show_int i = (if i < 0 then CHR ''-'' # show_nat (nat (- i)) else show_nat (nat i))"

definition is_uppercase :: "char \<Rightarrow> bool" where
  "is_uppercase c \<longleftrightarrow> (let n = (of_char c :: nat) in 65 \<le> n \<and> n \<le> 90)"

definition to_lowercase :: "char \<Rightarrow> char" where
  "to_lowercase c = (if is_uppercase c then char_of ((of_char c :: nat) + 32) else c)"

definition to_snake :: "string \<Rightarrow> string" where
  "to_snake s =
     concat (map (\<lambda>(i, c). (if is_uppercase c \<and> i > 0 then [CHR ''_''] else []) @ [to_lowercase c])
       (enumerate 0 s))"

section \<open>Calls with retries\<close>

record cmd_output =
  success :: bool
  stdout :: string
  stderr :: string

type_synonym 'w stellar_cmd = "string list \<Rightarrow> 'w \<Rightarrow> (string + cmd_output) \<times> 'w"

record rpc_client =
  rpc_url :: string
  max_retries :: u32
  retry_delay_ms :: u64

text \<open>The loop that \<open>invoke_read\<close> and \<open>invoke_contract\<close> share up to the wording of their errors.\<close>

function retry_loop ::
  "'w stellar_cmd \<Rightarrow> string list \<Rightarrow> string \<Rightarrow> u32 \<Rightarrow> u32 \<Rightarrow> 'w \<Rightarrow> (string + string) \<times> 'w" where
  "retry_loop stellar args what retries attempt w =
     (case stellar args w of (outcome, w') \<Rightarrow>
       (case outcome of
          Inr out \<Rightarrow>
            if success out then (Inr (trim (stdout out)), w')
            else if attempt \<ge> retries then (Inl (what @ '' failed: '' @ stderr out), w')
            else retry_loop stellar args what retries (attempt + 1) w'
        | Inl err \<Rightarrow>
            if attempt \<ge> retries then (Inl (what @ '' error: '' @ err), w')
            else retry_loop stellar args what retries (attempt + 1) w'))"
  by pat_completeness auto

lemma attempt_measure:
  assumes "\<not> (retries :: u32) \<le> attempt"
  shows "unat retries - unat (attempt + 1) < unat retries - unat attempt"
proof -
  have "unat attempt < unat retries" "unat retries < 2 ^ 32"
    using assms unsigned_less [of retries] by (simp_all add: not_le word_less_nat_alt)
  then have "unat (attempt + 1) = unat attempt + 1" by (simp add: unat_word_ariths)
  then show ?thesis using assms by (simp add: not_le word_less_nat_alt)
qed

termination retry_loop
  by (relation "measure (\<lambda>(_, _, _, retries, attempt, _). unat retries - unat attempt)")
    (auto simp: attempt_measure)

declare retry_loop.simps [simp del]

definition call_args :: "string \<Rightarrow> (string \<times> string) list \<Rightarrow> string list" where
  "call_args fn args = fn # concat (map (\<lambda>(k, v). [''--'' @ k, v]) args)"

definition read_command :: "rpc_client \<Rightarrow> string \<Rightarrow> string \<Rightarrow> (string \<times> string) list \<Rightarrow> string list" where
  "read_command cl cid fn args =
     [''contract'', ''invoke'', ''--id'', cid, ''--rpc-url'', rpc_url cl, ''--''] @ call_args fn args"

definition write_command ::
  "rpc_client \<Rightarrow> string \<Rightarrow> string \<Rightarrow> string \<Rightarrow> (string \<times> string) list \<Rightarrow> string list" where
  "write_command cl secret cid fn args =
     [''contract'', ''invoke'', ''--id'', cid, ''--rpc-url'', rpc_url cl, ''--source'', secret, ''--''] @
     call_args fn args"

definition invoke_read ::
  "'w stellar_cmd \<Rightarrow> rpc_client \<Rightarrow> string \<Rightarrow> string \<Rightarrow> (string \<times> string) list \<Rightarrow> 'w \<Rightarrow> (string + string) \<times> 'w" where
  "invoke_read stellar cl cid fn args =
     retry_loop stellar (read_command cl cid fn args) (''RPC call '' @ cid @ ''::'' @ fn) (max_retries cl) 0"

definition invoke_contract ::
  "'w stellar_cmd \<Rightarrow> (string \<Rightarrow> string option) \<Rightarrow> rpc_client \<Rightarrow> string \<Rightarrow> string \<Rightarrow> (string \<times> string) list \<Rightarrow>
   'w \<Rightarrow> (string + string) \<times> 'w" where
  "invoke_contract stellar env_var cl cid fn args w =
     (case env_var ''MIGRATION_ADMIN_SECRET'' of
        None \<Rightarrow> (Inl ''MIGRATION_ADMIN_SECRET env var not set'', w)
      | Some secret \<Rightarrow>
          retry_loop stellar (write_command cl secret cid fn args) (''Write call '' @ cid @ ''::'' @ fn)
            (max_retries cl) 0 w)"

section \<open>Reads\<close>

text \<open>What the JSON package decodes and encodes; \<open>'j\<close> is its type of JSON values.\<close>

record 'j serde =
  dec_tip_metadata :: "string \<Rightarrow> string + tip_metadata"
  dec_leaderboard_entry :: "string \<Rightarrow> string + leaderboard_entry"
  dec_subscription :: "string \<Rightarrow> string + subscription"
  dec_milestone :: "string \<Rightarrow> string + milestone"
  dec_matching_program :: "string \<Rightarrow> string + matching_program"
  dec_tip_record :: "string \<Rightarrow> string + tip_record"
  dec_strings :: "string \<Rightarrow> string + string list"
  dec_storage :: "string \<Rightarrow> string + (string option \<times> string option) list"
  dec_value :: "string \<Rightarrow> string + 'j"
  insert_number :: "string \<Rightarrow> u64 \<Rightarrow> 'j \<Rightarrow> 'j"
  value_time_lock :: "'j \<Rightarrow> string + time_lock"
  value_locked_tip :: "'j \<Rightarrow> string + locked_tip"
  enc_tip_metadata :: "tip_metadata \<Rightarrow> string + string"
  enc_leaderboard_entry :: "leaderboard_entry \<Rightarrow> string + string"
  enc_subscription :: "subscription \<Rightarrow> string + string"
  enc_time_lock :: "time_lock \<Rightarrow> string + string"
  enc_milestone :: "milestone \<Rightarrow> string + string"
  enc_matching_program :: "matching_program \<Rightarrow> string + string"
  enc_tip_record :: "tip_record \<Rightarrow> string + string"
  enc_locked_tip :: "locked_tip \<Rightarrow> string + string"

text \<open>The result of a read followed by a parser that may refuse; a failed read is \<open>None\<close>.\<close>

definition read_parsed :: "(string \<Rightarrow> 'a option) \<Rightarrow> (string + string) \<times> 'w \<Rightarrow> 'a option \<times> 'w" where
  "read_parsed parse = apfst (\<lambda>r. case r of Inl _ \<Rightarrow> None | Inr s \<Rightarrow> parse s)"

definition get_instance_string ::
  "'w stellar_cmd \<Rightarrow> rpc_client \<Rightarrow> string \<Rightarrow> string \<Rightarrow> 'w \<Rightarrow> (string + string) \<times> 'w" where
  "get_instance_string st cl cid key = invoke_read st cl cid (''get_'' @ to_snake key) []"

definition get_instance_string_opt ::
  "'w stellar_cmd \<Rightarrow> rpc_client \<Rightarrow> string \<Rightarrow> string \<Rightarrow> 'w \<Rightarrow> string option \<times> 'w" where
  "get_instance_string_opt st cl cid key w =
     read_parsed Some (invoke_read st cl cid (''get_'' @ to_snake key) [] w)"

definition get_instance_u32 ::
  "'w stellar_cmd \<Rightarrow> rpc_client \<Rightarrow> string \<Rightarrow> string \<Rightarrow> 'w \<Rightarrow> u32 option \<times> 'w" where
  "get_instance_u32 st cl cid key w =
     read_parsed (\<lambda>s. parse_u32 (trim_quotes s)) (invoke_read st cl cid (''get_'' @ to_snake key) [] w)"

definition get_instance_u64 ::
  "'w stellar_cmd \<Rightarrow> rpc_client \<Rightarrow> string \<Rightarrow> string \<Rightarrow> 'w \<Rightarrow> u64 option \<times> 'w" where
  "get_instance_u64 st cl cid key w =
     read_parsed (\<lambda>s. parse_u64 (trim_quotes s)) (invoke_read st cl cid (''get_'' @ to_snake key) [] w)"

definition parse_bool :: "string \<Rightarrow> bool option" where
  "parse_bool s = (if s = ''true'' then Some True else if s = ''false'' then Some False else None)"

definition get_instance_bool ::
  "'w stellar_cmd \<Rightarrow> rpc_client \<Rightarrow> string \<Rightarrow> string \<Rightarrow> 'w \<Rightarrow> bool option \<times> 'w" where
  "get_instance_bool st cl cid key w =
     read_parsed (\<lambda>s. parse_bool (trim_quotes s)) (invoke_read st cl cid (''get_'' @ to_snake key) [] w)"

text \<open>
  \<open>get_latest_ledger_sequence\<close> takes the last word of the first line about a sequence that is a number.
\<close>

fun starts_with :: "string \<Rightarrow> string \<Rightarrow> bool" where
  "starts_with [] s = True"
| "starts_with (c # cs) [] = False"
| "starts_with (c # cs) (d # ds) = (c = d \<and> starts_with cs ds)"

fun contains_text :: "string \<Rightarrow> string \<Rightarrow> bool" where
  "contains_text t [] = (t = [])"
| "contains_text t (c # cs) = (starts_with t (c # cs) \<or> contains_text t cs)"

fun split_on :: "(char \<Rightarrow> bool) \<Rightarrow> string \<Rightarrow> string \<Rightarrow> string list" where
  "split_on p acc [] = [rev acc]"
| "split_on p acc (c # cs) = (if p c then rev acc # split_on p [] cs else split_on p (c # acc) cs)"

definition last_word :: "string \<Rightarrow> string option" where
  "last_word s = (case rev (filter (\<lambda>x. x \<noteq> []) (split_on is_whitespace [] s)) of [] \<Rightarrow> None | x # _ \<Rightarrow> Some x)"

fun first_sequence :: "string list \<Rightarrow> u32" where
  "first_sequence [] = 0"
| "first_sequence (l # ls) =
     (if contains_text ''sequence'' l
      then (case Option.bind (last_word l) parse_u32 of Some n \<Rightarrow> n | None \<Rightarrow> first_sequence ls)
      else first_sequence ls)"

definition get_latest_ledger_sequence ::
  "'w stellar_cmd \<Rightarrow> rpc_client \<Rightarrow> 'w \<Rightarrow> (string + u32) \<times> 'w" where
  "get_latest_ledger_sequence st cl w =
     apfst (\<lambda>r. case r of
         Inl err \<Rightarrow> Inl (''ledger latest error: '' @ err)
       | Inr out \<Rightarrow> Inr (first_sequence (split_on (\<lambda>c. c = CHR 10) [] (stdout out))))
       (st [''ledger'', ''latest'', ''--rpc-url'', rpc_url cl] w)"

text \<open>The scan runs once, ignores the exit status, and skips what does not decode.\<close>

definition scan_persistent_prefix ::
  "'w stellar_cmd \<Rightarrow> rpc_client \<Rightarrow> 'j serde \<Rightarrow> string \<Rightarrow> string \<Rightarrow> 'w \<Rightarrow> (string + (string \<times> string) list) \<times> 'w" where
  "scan_persistent_prefix st cl j cid prefix w =
     apfst (\<lambda>r. case r of
         Inl err \<Rightarrow> Inl (''storage scan error: '' @ err)
       | Inr out \<Rightarrow>
           Inr (concat (map (\<lambda>(k, v). case (k, v) of
                 (Some key, Some val) \<Rightarrow> if starts_with prefix key then [(key, val)] else []
               | _ \<Rightarrow> [])
             (case dec_storage j (stdout out) of Inl _ \<Rightarrow> [] | Inr es \<Rightarrow> es))))
       (st [''contract'', ''storage'', ''--id'', cid, ''--rpc-url'', rpc_url cl, ''--output'', ''json''] w)"

definition get_persistent_u64 ::
  "'w stellar_cmd \<Rightarrow> rpc_client \<Rightarrow> string \<Rightarrow> string \<Rightarrow> 'w \<Rightarrow> u64 option \<times> 'w" where
  "get_persistent_u64 st cl cid key w =
     read_parsed (\<lambda>s. parse_u64 (trim_quotes s)) (invoke_read st cl cid ''get_storage_u64'' [(''key'', key)] w)"

definition get_persistent_string ::
  "'w stellar_cmd \<Rightarrow> rpc_client \<Rightarrow> string \<Rightarrow> string \<Rightarrow> 'w \<Rightarrow> string option \<times> 'w" where
  "get_persistent_string st cl cid key w =
     read_parsed Some (invoke_read st cl cid ''get_storage_string'' [(''key'', key)] w)"

text \<open>
  The common body of the readers of JSON records: a failed read, \<^verbatim>\<open>null\<close> and the empty answer mean
  that the record is absent; an answer that does not decode is an error.
\<close>

definition get_json ::
  "'w stellar_cmd \<Rightarrow> rpc_client \<Rightarrow> (string \<Rightarrow> string + 'a) \<Rightarrow> string \<Rightarrow> string \<Rightarrow> 'w \<Rightarrow> (string + 'a option) \<times> 'w" where
  "get_json st cl decode cid key w =
     apfst (\<lambda>r. case r of
         Inl _ \<Rightarrow> Inr None
       | Inr raw \<Rightarrow>
           if raw = ''null'' \<or> raw = [] then Inr None
           else case decode raw of Inl err \<Rightarrow> Inl err | Inr a \<Rightarrow> Inr (Some a))
       (invoke_read st cl cid ''get_storage_json'' [(''key'', key)] w)"

definition decode_as :: "string \<Rightarrow> string \<Rightarrow> (string \<Rightarrow> string + 'a) \<Rightarrow> string \<Rightarrow> string + 'a" where
  "decode_as type key dec raw =
     (case dec raw of Inl err \<Rightarrow> Inl (type @ '' parse error for key '' @ key @ '': '' @ err) | Inr a \<Rightarrow> Inr a)"

definition get_persistent_tip_metadata where
  "get_persistent_tip_metadata st cl j cid key =
     get_json st cl (decode_as ''TipMetadata'' key (dec_tip_metadata j)) cid key"

definition get_persistent_leaderboard_entry where
  "get_persistent_leaderboard_entry st cl j cid key =
     get_json st cl (decode_as ''LeaderboardEntry'' key (dec_leaderboard_entry j)) cid key"

definition get_persistent_subscription where
  "get_persistent_subscription st cl j cid key =
     get_json st cl (decode_as ''Subscription'' key (dec_subscription j)) cid key"

definition get_persistent_milestone where
  "get_persistent_milestone st cl j cid key =
     get_json st cl (decode_as ''Milestone'' key (dec_milestone j)) cid key"

definition get_persistent_matching_program where
  "get_persistent_matching_program st cl j cid key =
     get_json st cl (decode_as ''MatchingProgram'' key (dec_matching_program j)) cid key"

definition get_persistent_tip_record where
  "get_persistent_tip_record st cl j cid key =
     get_json st cl (decode_as ''TipRecord'' key (dec_tip_record j)) cid key"

text \<open>The stored time locks and locked tips lack their number, which is inserted before decoding.\<close>

definition decode_numbered ::
  "string \<Rightarrow> string \<Rightarrow> 'j serde \<Rightarrow> string \<Rightarrow> u64 \<Rightarrow> ('j \<Rightarrow> string + 'a) \<Rightarrow> string \<Rightarrow> string + 'a" where
  "decode_numbered type key j field n dec raw =
     (case dec_value j raw of
        Inl err \<Rightarrow> Inl (type @ '' parse error for key '' @ key @ '': '' @ err)
      | Inr v \<Rightarrow>
          (case dec (insert_number j field n v) of
             Inl err \<Rightarrow> Inl (type @ '' deserialise error: '' @ err)
           | Inr a \<Rightarrow> Inr a))"

definition get_persistent_time_lock where
  "get_persistent_time_lock st cl j cid key n =
     get_json st cl (decode_numbered ''TimeLock'' key j ''lock_id'' n (value_time_lock j)) cid key"

definition get_persistent_locked_tip where
  "get_persistent_locked_tip st cl j cid key n =
     get_json st cl (decode_numbered ''LockedTip'' key j ''tip_id'' n (value_locked_tip j)) cid key"

definition get_persistent_address_vec ::
  "'w stellar_cmd \<Rightarrow> rpc_client \<Rightarrow> 'j serde \<Rightarrow> string \<Rightarrow> string \<Rightarrow> 'w \<Rightarrow> string list option \<times> 'w" where
  "get_persistent_address_vec st cl j cid key w =
     read_parsed (\<lambda>raw. case dec_strings j raw of Inl _ \<Rightarrow> None | Inr xs \<Rightarrow> Some xs)
       (invoke_read st cl cid ''get_storage_json'' [(''key'', key)] w)"

definition get_creator_balance ::
  "'w stellar_cmd \<Rightarrow> rpc_client \<Rightarrow> string \<Rightarrow> string \<Rightarrow> string \<Rightarrow> 'w \<Rightarrow> int option \<times> 'w" where
  "get_creator_balance st cl cid creator token w =
     read_parsed (\<lambda>s. parse_i128 (trim_quotes s))
       (invoke_read st cl cid ''get_withdrawable_balance'' [(''creator'', creator), (''token'', token)] w)"

definition get_creator_total ::
  "'w stellar_cmd \<Rightarrow> rpc_client \<Rightarrow> string \<Rightarrow> string \<Rightarrow> string \<Rightarrow> 'w \<Rightarrow> int option \<times> 'w" where
  "get_creator_total st cl cid creator token w =
     read_parsed (\<lambda>s. parse_i128 (trim_quotes s))
       (invoke_read st cl cid ''get_total_tips'' [(''creator'', creator), (''token'', token)] w)"

definition get_whitelisted_tokens ::
  "'w stellar_cmd \<Rightarrow> rpc_client \<Rightarrow> 'j serde \<Rightarrow> string \<Rightarrow> 'w \<Rightarrow> (string + string list) \<times> 'w" where
  "get_whitelisted_tokens st cl j cid w =
     apfst (\<lambda>r. case r of
         Inl err \<Rightarrow> Inl err
       | Inr raw \<Rightarrow> (case dec_strings j raw of
             Inl err \<Rightarrow> Inl (''Token list parse error: '' @ err) | Inr xs \<Rightarrow> Inr xs))
       (invoke_read st cl cid ''get_whitelisted_tokens'' [] w)"

section \<open>Writes\<close>

type_synonym 'w write_act = "'w \<Rightarrow> (string + unit) \<times> 'w"

definition write_call ::
  "'w stellar_cmd \<Rightarrow> (string \<Rightarrow> string option) \<Rightarrow> rpc_client \<Rightarrow> string \<Rightarrow> string \<Rightarrow> (string \<times> string) list \<Rightarrow> 'w write_act" where
  "write_call st ev cl cid fn args w =
     apfst (\<lambda>r. case r of Inl err \<Rightarrow> Inl err | Inr _ \<Rightarrow> Inr ()) (invoke_contract st ev cl cid fn args w)"

text \<open>A write whose argument is encoded as JSON first, and one that needs the admin's address.\<close>

definition with_json :: "string \<Rightarrow> string + string \<Rightarrow> (string \<Rightarrow> 'w write_act) \<Rightarrow> 'w write_act" where
  "with_json type encoded k w =
     (case encoded of Inl err \<Rightarrow> (Inl (type @ '' serialise error: '' @ err), w) | Inr json \<Rightarrow> k json w)"

definition with_admin :: "(string \<Rightarrow> string option) \<Rightarrow> (string \<Rightarrow> 'w write_act) \<Rightarrow> 'w write_act" where
  "with_admin ev k w =
     (case ev ''MIGRATION_ADMIN_ADDRESS'' of
        None \<Rightarrow> (Inl ''MIGRATION_ADMIN_ADDRESS env var not set'', w)
      | Some adm \<Rightarrow> k adm w)"

definition set_instance_value where
  "set_instance_value st ev cl cid key value =
     write_call st ev cl cid ''admin_set_instance'' [(''key'', key), (''value'', value)]"

definition whitelist_token where
  "whitelist_token st ev cl cid token =
     with_admin ev (\<lambda>adm. write_call st ev cl cid ''add_token'' [(''admin'', adm), (''token'', token)])"

definition set_creator_balance where
  "set_creator_balance st ev cl cid creator token balance =
     write_call st ev cl cid ''admin_set_creator_balance''
       [(''creator'', creator), (''token'', token), (''balance'', show_int balance)]"

definition set_creator_total where
  "set_creator_total st ev cl cid creator token amount =
     write_call st ev cl cid ''admin_set_creator_total''
       [(''creator'', creator), (''token'', token), (''total'', show_int amount)]"

definition set_tip_count where
  "set_tip_count st ev cl cid creator (count :: u64) =
     write_call st ev cl cid ''admin_set_tip_count''
       [(''creator'', creator), (''count'', show_nat (unat count))]"

definition set_tip_history_entry where
  "set_tip_history_entry st ev cl j cid creator (idx :: u64) meta =
     with_json ''TipMetadata'' (enc_tip_metadata j meta) (\<lambda>json.
       write_call st ev cl cid ''admin_set_tip_history''
         [(''creator'', creator), (''index'', show_nat (unat idx)), (''metadata'', json)])"

definition set_tipper_aggregate where
  "set_tipper_aggregate st ev cl j cid addr (bucket :: u32) entry =
     with_json ''LeaderboardEntry'' (enc_leaderboard_entry j entry) (\<lambda>json.
       write_call st ev cl cid ''admin_set_tipper_aggregate''
         [(''address'', addr), (''bucket'', show_nat (unat bucket)), (''entry'', json)])"

definition set_creator_aggregate where
  "set_creator_aggregate st ev cl j cid addr (bucket :: u32) entry =
     with_json ''LeaderboardEntry'' (enc_leaderboard_entry j entry) (\<lambda>json.
       write_call st ev cl cid ''admin_set_creator_aggregate''
         [(''address'', addr), (''bucket'', show_nat (unat bucket)), (''entry'', json)])"

definition set_subscription where
  "set_subscription st ev cl j cid sub =
     with_json ''Subscription'' (enc_subscription j sub) (\<lambda>json.
       write_call st ev cl cid ''admin_set_subscription'' [(''subscription'', json)])"

definition set_time_lock where
  "set_time_lock st ev cl j cid lock =
     with_json ''TimeLock'' (enc_time_lock j lock) (\<lambda>json.
       write_call st ev cl cid ''admin_set_time_lock'' [(''lock'', json)])"

definition set_milestone where
  "set_milestone st ev cl j cid creator ms =
     with_json ''Milestone'' (enc_milestone j ms) (\<lambda>json.
       write_call st ev cl cid ''admin_set_milestone'' [(''creator'', creator), (''milestone'', json)])"

definition set_matching_program where
  "set_matching_program st ev cl j cid prog =
     with_json ''MatchingProgram'' (enc_matching_program j prog) (\<lambda>json.
       write_call st ev cl cid ''admin_set_matching_program'' [(''program'', json)])"

definition set_tip_record where
  "set_tip_record st ev cl j cid rec =
     with_json ''TipRecord'' (enc_tip_record j rec) (\<lambda>json.
       write_call st ev cl cid ''admin_set_tip_record'' [(''record'', json)])"

definition set_locked_tip where
  "set_locked_tip st ev cl j cid lt =
     with_json ''LockedTip'' (enc_locked_tip j lt) (\<lambda>json.
       write_call st ev cl cid ''admin_set_locked_tip'' [(''locked_tip'', json)])"

definition set_user_role where
  "set_user_role st ev cl cid addr role =
     with_admin ev (\<lambda>adm. write_call st ev cl cid ''grant_role''
       [(''admin'', adm), (''user'', addr), (''role'', role)])"

section \<open>Attempts\<close>

text \<open>The world after the first attempts of a command, and whether the next attempt succeeds.\<close>

definition world_after :: "'w stellar_cmd \<Rightarrow> string list \<Rightarrow> nat \<Rightarrow> 'w \<Rightarrow> 'w" where
  "world_after st args n w = ((\<lambda>v. snd (st args v)) ^^ n) w"

definition attempt_ok :: "'w stellar_cmd \<Rightarrow> string list \<Rightarrow> nat \<Rightarrow> 'w \<Rightarrow> cmd_output option" where
  "attempt_ok st args n w =
     (case fst (st args (world_after st args n w)) of
        Inr out \<Rightarrow> if success out then Some out else None
      | Inl _ \<Rightarrow> None)"

lemma attempts_0 [simp]:
  "world_after st args 0 w = w"
  "attempt_ok st args 0 w = (case fst (st args w) of Inr out \<Rightarrow> if success out then Some out else None | Inl _ \<Rightarrow> None)"
  by (simp_all add: world_after_def attempt_ok_def)

lemma attempts_Suc:
  "world_after st args (Suc n) w = world_after st args n (snd (st args w))"
  "attempt_ok st args (Suc n) w = attempt_ok st args n (snd (st args w))"
  by (simp_all add: world_after_def attempt_ok_def funpow_Suc_right del: funpow.simps)

text \<open>Where the loop stops, counted from the current attempt.\<close>

definition stops_at :: "'w stellar_cmd \<Rightarrow> string list \<Rightarrow> nat \<Rightarrow> 'w \<Rightarrow> nat \<Rightarrow> string + string \<Rightarrow> bool" where
  "stops_at st args left w k r \<longleftrightarrow>
     k \<le> left \<and> (\<forall>i<k. attempt_ok st args i w = None) \<and>
     (case r of Inr s \<Rightarrow> \<exists>out. attempt_ok st args k w = Some out \<and> s = trim (stdout out)
              | Inl _ \<Rightarrow> k = left \<and> attempt_ok st args k w = None)"

lemma stops_at_Suc:
  assumes "attempt_ok st args 0 w = None" "stops_at st args left (snd (st args w)) k r"
  shows "stops_at st args (Suc left) w (Suc k) r"
proof -
  have "attempt_ok st args i w = None" if "i < Suc k" for i
    using assms that by (cases i) (simp_all add: stops_at_def attempts_Suc del: attempts_0)
  then show ?thesis using assms(2) by (auto simp: stops_at_def attempts_Suc split: sum.splits)
qed

lemma retry_loop_stops:
  "\<exists>k. stops_at st args (unat retries - unat attempt) w k (fst (retry_loop st args what retries attempt w)) \<and>
       snd (retry_loop st args what retries attempt w) = world_after st args (Suc k) w"
proof (induction st args what retries attempt w rule: retry_loop.induct)
  case (1 st args what retries attempt w)
  obtain outcome w' where st: "st args w = (outcome, w')" by (cases "st args w")
  show ?case
  proof (cases "attempt_ok st args 0 w \<noteq> None \<or> retries \<le> attempt")
    case True
    then show ?thesis
      by (intro exI [of _ 0], subst (1 2) retry_loop.simps)
        (auto simp: st stops_at_def attempts_Suc word_le_nat_alt split: sum.splits if_splits)
  next
    case False
    then have step: "retry_loop st args what retries attempt w = retry_loop st args what retries (attempt + 1) w'"
      by (subst retry_loop.simps) (auto simp: st split: sum.splits if_splits)
    have left: "unat retries - unat attempt = Suc (unat retries - unat (attempt + 1))"
    proof -
      have "unat attempt < unat retries" "unat retries < 2 ^ 32"
        using False unsigned_less [of retries] by (simp_all add: not_le word_less_nat_alt)
      then show ?thesis by (simp add: unat_word_ariths)
    qed
    obtain k where "stops_at st args (unat retries - unat (attempt + 1)) w' k
          (fst (retry_loop st args what retries (attempt + 1) w'))"
        "snd (retry_loop st args what retries (attempt + 1) w') = world_after st args (Suc k) w'"
      using 1 False st by (cases outcome) (auto split: if_splits)
    then show ?thesis
      using False by (intro exI [of _ "Suc k"]) (auto simp: step left st attempts_Suc intro!: stops_at_Suc)
  qed
qed

text \<open>
  C23. A call of the contract through the client, reading or writing, runs the command until it first
  succeeds, and at most once more than the configured number of retries: the world has moved by
  exactly the attempts made, the answer is the trimmed output of the successful attempt, and an
  error is reported only after every attempt has failed.
\<close>

theorem calls_stop_at_first_success:
  assumes "ev ''MIGRATION_ADMIN_SECRET'' = Some secret"
    and "c = read_command cl cid fn args \<and> (r, w') = invoke_read st cl cid fn args w \<or>
         c = write_command cl secret cid fn args \<and> (r, w') = invoke_contract st ev cl cid fn args w"
  shows "\<exists>k \<le> unat (max_retries cl). w' = world_after st c (Suc k) w \<and>
    (\<forall>i<k. attempt_ok st c i w = None) \<and>
    (case r of Inr s \<Rightarrow> \<exists>out. attempt_ok st c k w = Some out \<and> s = trim (stdout out)
             | Inl _ \<Rightarrow> k = unat (max_retries cl) \<and> attempt_ok st c k w = None)"
proof -
  obtain what where "retry_loop st c what (max_retries cl) 0 w = (r, w')"
    using assms by (auto simp: invoke_read_def invoke_contract_def)
  then have "\<exists>k. stops_at st c (unat (max_retries cl)) w k r \<and> w' = world_after st c (Suc k) w"
    using retry_loop_stops [of st c "max_retries cl" 0 w what] by simp
  then show ?thesis by (auto simp: stops_at_def)
qed

definition flaky :: "nat stellar_cmd" where
  "flaky args n = (if n < 1 then Inl ''timeout'' else Inr \<lparr>success = True, stdout = '' 7 '', stderr = []\<rparr>, n + 1)"

definition rpc_sample :: rpc_client where
  "rpc_sample = \<lparr>rpc_url = ''u'', max_retries = 2, retry_delay_ms = 0\<rparr>"

theorem calls_stop_at_first_success_witness:
  "fst (invoke_read flaky rpc_sample ''C'' ''f'' [] 0) = Inr ''7'' \<and>
   (\<exists>k \<le> unat (max_retries rpc_sample).
      snd (invoke_read flaky rpc_sample ''C'' ''f'' [] 0) = world_after flaky (read_command rpc_sample ''C'' ''f'' []) (Suc k) 0)"
proof
  show "fst (invoke_read flaky rpc_sample ''C'' ''f'' [] 0) = Inr ''7''"
    by (simp add: invoke_read_def retry_loop.simps flaky_def rpc_sample_def trim_def trim_while_def is_whitespace_def)
  obtain r w' where "(r, w') = invoke_read flaky rpc_sample ''C'' ''f'' [] 0" by (metis surj_pair)
  then show "\<exists>k \<le> unat (max_retries rpc_sample).
      snd (invoke_read flaky rpc_sample ''C'' ''f'' [] 0) = world_after flaky (read_command rpc_sample ''C'' ''f'' []) (Suc k) 0"
    using calls_stop_at_first_success [of "\<lambda>_. Some ''s''" "''s''" "read_command rpc_sample ''C'' ''f'' []"
        rpc_sample "''C''" "''f''" "[]" r w' flaky 0]
    by (metis snd_conv)
qed

section \<open>Numbers as text\<close>

text \<open>A number that the client prints into an argument is a number its parsers read back.\<close>

lemma show_nat_digits:
  "show_nat n \<noteq> [] \<and> list_all is_digit (show_nat n) \<and> digits_value (show_nat n) = n"
proof (induction n rule: show_nat.induct)
  case (1 n)
  have digit: "of_char (char_of (48 + m) :: char) = 48 + m" if "m < 10" for m :: nat
    using that by (simp add: of_char_of)
  show ?case
  proof (cases "n < 10")
    case True
    then show ?thesis
      by (subst (1 2 3) show_nat.simps) (simp add: digit is_digit_def digits_value_def Let_def)
  next
    case False
    with 1 have "show_nat (n div 10) \<noteq> []" "list_all is_digit (show_nat (n div 10))"
      "digits_value (show_nat (n div 10)) = n div 10" by auto
    moreover have "show_nat n = show_nat (n div 10) @ [char_of (48 + n mod 10)]"
      using False by (simp add: show_nat.simps [of n])
    moreover have "is_digit (char_of (48 + n mod 10))"
      using digit [of "n mod 10"] by (simp add: is_digit_def Let_def)
    ultimately show ?thesis
      using digit [of "n mod 10"] by (simp add: digits_value_def)
  qed
qed

lemma parse_digits_show [simp]: "parse_digits (show_nat n) = Some n"
  using show_nat_digits [of n] by (simp add: parse_digits_def)

lemma parse_unsigned_show [simp]:
  "parse_unsigned b (show_nat n) = (if n < b then Some n else None)"
proof -
  have "show_nat n \<noteq> []" "hd (show_nat n) \<noteq> CHR ''+''"
    using show_nat_digits [of n] by (cases "show_nat n"; auto simp: is_digit_def)+
  then show ?thesis
    using parse_digits_show [of n] by (cases "show_nat n") (simp_all add: parse_unsigned_def)
qed

lemma parse_i128_show: "in_i128 v \<Longrightarrow> parse_i128 (show_int v) = Some v"
proof (cases "v < 0")
  case False
  moreover have "show_nat (nat v) \<noteq> []" "hd (show_nat (nat v)) \<noteq> CHR ''+''" "hd (show_nat (nat v)) \<noteq> CHR ''-''"
    using show_nat_digits [of "nat v"] by (cases "show_nat (nat v)"; auto simp: is_digit_def)+
  moreover assume "in_i128 v"
  ultimately show ?thesis
    using parse_digits_show [of "nat v"]
    by (cases "show_nat (nat v)") (simp_all add: parse_i128_def show_int_def)
qed (simp add: parse_i128_def show_int_def)

end
