(* ===== verification/Migration_Verify.thy ===== *)
theory Migration_Verify
  imports Migration_Rpc
begin

text \<open>
  The verification phase of the migration toolkit, \<^verbatim>\<open>src/scripts/migrate/verify_migration.rs\<close>: every
  entry of a snapshot is read from the target contract and compared, and the differences are
  collected in a report. The state of a verification is the world that the reads run in, the
  findings so far and the number of records checked. The clock's text is the argument \<open>now\<close>.
  Progress output is left out.
\<close>

section \<open>Debug output\<close>

text \<open>The text \<^verbatim>\<open>{:?}\<close> prints for ASCII texts and for the records of a snapshot.\<close>

definition hex_digit :: "nat \<Rightarrow> char" where
  "hex_digit n = (if n < 10 then char_of (48 + n) else char_of (87 + n))"

definition debug_char :: "char \<Rightarrow> string" where
  "debug_char c =
     (let n = (of_char c :: nat); esc = (\<lambda>s. CHR 0x5C # s) in
      if n = 0 then esc ''0'' else if n = 9 then esc ''t'' else if n = 10 then esc ''n''
      else if n = 13 then esc ''r'' else if n = 34 \<or> n = 92 then esc [c]
      else if n < 16 then esc (''u{'' @ [hex_digit n] @ ''}'')
      else if n < 32 \<or> n = 127 then esc (''u{'' @ [hex_digit (n div 16), hex_digit (n mod 16)] @ ''}'')
      else [c])"

definition debug_string :: "string \<Rightarrow> string" where
  "debug_string s = [CHR 0x22] @ concat (map debug_char s) @ [CHR 0x22]"

definition debug_option :: "('a \<Rightarrow> string) \<Rightarrow> 'a option \<Rightarrow> string" where
  "debug_option f x = (case x of None \<Rightarrow> ''None'' | Some a \<Rightarrow> ''Some('' @ f a @ '')'')"

definition show_bool :: "bool \<Rightarrow> string" where
  "show_bool b = (if b then ''true'' else ''false'')"

definition show_u64 :: "u64 \<Rightarrow> string" where "show_u64 n = show_nat (unat n)"
definition show_u32 :: "u32 \<Rightarrow> string" where "show_u32 n = show_nat (unat n)"

fun comma_separated :: "string list \<Rightarrow> string" where
  "comma_separated [] = []"
| "comma_separated [s] = s"
| "comma_separated (s # ss) = s @ '', '' @ comma_separated ss"

definition debug_struct :: "string \<Rightarrow> (string \<times> string) list \<Rightarrow> string" where
  "debug_struct name fs =
     name @ '' { '' @ comma_separated (map (\<lambda>(k, v). k @ '': '' @ v) fs) @ '' }''"

definition debug_tip_metadata :: "tip_metadata \<Rightarrow> string" where
  "debug_tip_metadata m = debug_struct ''TipMetadata''
     [(''sender'', debug_string (tm_sender m)), (''amount'', show_int (tm_amount m)),
      (''message'', debug_option debug_string (tm_message m)), (''timestamp'', show_u64 (tm_timestamp m))]"

definition debug_leaderboard_entry :: "leaderboard_entry \<Rightarrow> string" where
  "debug_leaderboard_entry m = debug_struct ''LeaderboardEntry''
     [(''address'', debug_string (lb_address m)), (''total_amount'', show_int (lb_total_amount m)),
      (''tip_count'', show_u32 (lb_tip_count m))]"

definition debug_status :: "subscription_status \<Rightarrow> string" where
  "debug_status x = (case x of Active \<Rightarrow> ''Active'' | Paused \<Rightarrow> ''Paused'' | Cancelled \<Rightarrow> ''Cancelled'')"

definition debug_subscription :: "subscription \<Rightarrow> string" where
  "debug_subscription m = debug_struct ''Subscription''
     [(''subscriber'', debug_string (sub_subscriber m)), (''creator'', debug_string (sub_creator m)),
      (''token'', debug_string (sub_token m)), (''amount'', show_int (sub_amount m)),
      (''interval_seconds'', show_u64 (interval_seconds m)), (''last_payment'', show_u64 (last_payment m)),
      (''next_payment'', show_u64 (next_payment m)), (''status'', debug_status (sub_status m))]"

definition debug_time_lock :: "time_lock \<Rightarrow> string" where
  "debug_time_lock m = debug_struct ''TimeLock''
     [(''lock_id'', show_u64 (lock_id m)), (''sender'', debug_string (tl_sender m)),
      (''creator'', debug_string (tl_creator m)), (''token'', debug_string (tl_token m)),
      (''amount'', show_int (tl_amount m)), (''unlock_time'', show_u64 (unlock_time m)),
      (''cancelled'', show_bool (tl_cancelled m))]"

definition debug_milestone :: "milestone \<Rightarrow> string" where
  "debug_milestone m = debug_struct ''Milestone''
     [(''id'', show_u64 (ms_id m)), (''creator'', debug_string (ms_creator m)),
      (''goal_amount'', show_int (goal_amount m)), (''current_amount'', show_int (current_amount m)),
      (''description'', debug_string (ms_description m)), (''deadline'', debug_option show_u64 (deadline m)),
      (''completed'', show_bool (completed m))]"

definition debug_matching_program :: "matching_program \<Rightarrow> string" where
  "debug_matching_program m = debug_struct ''MatchingProgram''
     [(''id'', show_u64 (mt_id m)), (''sponsor'', debug_string (sponsor m)),
      (''creator'', debug_string (mt_creator m)), (''token'', debug_string (mt_token m)),
      (''match_ratio'', show_u32 (match_ratio m)), (''max_match_amount'', show_int (max_match_amount m)),
      (''current_matched'', show_int (current_matched m)), (''active'', show_bool (mt_active m))]"

definition debug_tip_record :: "tip_record \<Rightarrow> string" where
  "debug_tip_record m = debug_struct ''TipRecord''
     [(''id'', show_u64 (tr_id m)), (''sender'', debug_string (tr_sender m)),
      (''creator'', debug_string (tr_creator m)), (''token'', debug_string (tr_token m)),
      (''amount'', show_int (tr_amount m)), (''timestamp'', show_u64 (tr_timestamp m)),
      (''refunded'', show_bool (refunded m)), (''refund_requested'', show_bool (refund_requested m)),
      (''refund_approved'', show_bool (refund_approved m))]"

section \<open>Findings and checks\<close>

datatype finding_severity = Missing | Extra | Mismatch

record verification_finding =
  severity :: finding_severity
  field :: string
  expected :: string
  actual :: string

record verification_report =
  source_contract_id :: string
  target_contract_id :: string
  verified_at :: string
  records_checked :: nat
  passed :: bool
  findings :: "verification_finding list"

definition is_clean :: "verification_report \<Rightarrow> bool" where
  "is_clean r \<longleftrightarrow> findings r = []"

record 'w verifying =
  vs_world :: 'w
  vs_findings :: "verification_finding list"
  vs_checked :: nat

text \<open>One record is checked: the world after its read, and what was found, if anything.\<close>

definition checked_one :: "'w \<Rightarrow> verification_finding option \<Rightarrow> 'w verifying \<Rightarrow> 'w verifying" where
  "checked_one w fo vs = vs\<lparr>vs_world := w, vs_checked := vs_checked vs + 1,
     vs_findings := vs_findings vs @ (case fo of None \<Rightarrow> [] | Some f \<Rightarrow> [f])\<rparr>"

definition finding :: "finding_severity \<Rightarrow> string \<Rightarrow> string \<Rightarrow> string \<Rightarrow> verification_finding option" where
  "finding sev fld want got = Some \<lparr>severity = sev, field = fld, expected = want, actual = got\<rparr>"

definition value_or :: "'a \<Rightarrow> string + 'a \<Rightarrow> 'a" where
  "value_or d r = (case r of Inl _ \<Rightarrow> d | Inr a \<Rightarrow> a)"

definition check_instance_string where
  "check_instance_string st cl target key want vs =
     (let (r, w) = get_instance_string st cl target key (vs_world vs); got = value_or [] r in
      checked_one w
        (if got \<noteq> want
         then finding (if got = [] then Missing else Mismatch) (''instance.'' @ key) want
                (if got = [] then ''<absent>'' else got)
         else None) vs)"

definition check_instance_u32 where
  "check_instance_u32 st cl target key want vs =
     (let (r, w) = get_instance_u32 st cl target key (vs_world vs); got = unwrap_or r 0 in
      checked_one w
        (if got \<noteq> want then finding Mismatch (''instance.'' @ key) (show_u32 want) (show_u32 got) else None) vs)"

definition check_instance_u64 where
  "check_instance_u64 st cl target key want vs =
     (let (r, w) = get_instance_u64 st cl target key (vs_world vs); got = unwrap_or r 0 in
      checked_one w
        (if got \<noteq> want then finding Mismatch (''instance.'' @ key) (show_u64 want) (show_u64 got) else None) vs)"

definition check_instance_bool where
  "check_instance_bool st cl target key want vs =
     (let (r, w) = get_instance_bool st cl target key (vs_world vs); got = unwrap_or r False in
      checked_one w
        (if got \<noteq> want then finding Mismatch (''instance.'' @ key) (show_bool want) (show_bool got) else None) vs)"

text \<open>\<^verbatim>\<open>splitn(2, ':')\<close> with two parts: the text before the first colon and the text after it.\<close>

definition split_key :: "string \<Rightarrow> (string \<times> string) option" where
  "split_key k =
     (if CHR '':'' \<in> set k
      then Some (takeWhile (\<lambda>c. c \<noteq> CHR '':'') k, tl (dropWhile (\<lambda>c. c \<noteq> CHR '':'') k)) else None)"

text \<open>The loops over balances and totals; an entry whose key has no colon is skipped.\<close>

definition check_amount ::
  "(string \<Rightarrow> string \<Rightarrow> 'w \<Rightarrow> int option \<times> 'w) \<Rightarrow> string \<Rightarrow> string \<times> int \<Rightarrow> 'w verifying \<Rightarrow> 'w verifying" where
  "check_amount get prefix = (\<lambda>(key, want) vs.
     case split_key key of
       None \<Rightarrow> vs
     | Some (creator, token) \<Rightarrow>
         (let (r, w) = get creator token (vs_world vs); got = unwrap_or r 0 in
          checked_one w
            (if got \<noteq> want then finding Mismatch (prefix @ key) (show_int want) (show_int got) else None) vs))"

text \<open>
  The comparison of a stored record with the expected one, as all the loops over records do it: a
  read that fails or does not decode counts as absent.
\<close>

definition check_record ::
  "('w \<Rightarrow> (string + 'a option) \<times> 'w) \<Rightarrow> string \<Rightarrow> ('a \<Rightarrow> string) \<Rightarrow> ('a \<Rightarrow> 'a \<Rightarrow> bool) \<Rightarrow> ('a \<Rightarrow> string) \<Rightarrow>
   'a \<Rightarrow> 'w verifying \<Rightarrow> 'w verifying" where
  "check_record get fld debug same brief want vs =
     (let (r, w) = get (vs_world vs) in
      checked_one w
        (case value_or None r of
           None \<Rightarrow> finding Missing fld (debug want) ''<absent>''
         | Some got \<Rightarrow> if same got want then None else finding Mismatch fld (brief want) (brief got)) vs)"

section \<open>Verification\<close>

text \<open>The twelve blocks of \<open>verify_migration\<close>, in their order.\<close>

definition verify_instance where
  "verify_instance st cl target sn = fold (\<lambda>c. c)
     [check_instance_string st cl target ''Admin'' (sn_admin sn),
      check_instance_u32 st cl target ''FeeBasisPoints'' (fee_basis_points sn),
      check_instance_u64 st cl target ''RefundWindow'' (refund_window_seconds sn),
      check_instance_bool st cl target ''Paused'' (paused sn),
      check_instance_u64 st cl target ''TipCounter'' (tip_counter sn),
      check_instance_u64 st cl target ''MatchingCounter'' (matching_counter sn),
      check_instance_u32 st cl target ''ContractVersion'' (schema_version sn)]"

definition check_token :: "string list \<Rightarrow> string \<Rightarrow> 'w verifying \<Rightarrow> 'w verifying" where
  "check_token tokens token vs =
     checked_one (vs_world vs)
       (if token \<notin> set tokens then finding Missing (''whitelisted_tokens.'' @ token) ''true'' ''<absent>'' else None) vs"

definition verify_tokens where
  "verify_tokens st cl j target sn vs =
     (let (r, w) = get_whitelisted_tokens st cl j target (vs_world vs) in
      fold (check_token (value_or [] r)) (whitelisted_tokens sn) (vs\<lparr>vs_world := w\<rparr>))"

definition verify_balances where
  "verify_balances st cl target sn =
     fold (check_amount (get_creator_balance st cl target) ''creator_balances.'') (creator_balances sn)"

definition verify_totals where
  "verify_totals st cl target sn =
     fold (check_amount (get_creator_total st cl target) ''creator_totals.'') (creator_totals sn)"

definition check_tip_count where
  "check_tip_count st cl target creator tips vs =
     (let (r, w) = get_persistent_u64 st cl target (''TipCount:'' @ creator) (vs_world vs);
          got = unat (unwrap_or r 0) in
      checked_one w
        (if got \<noteq> length tips
         then finding Mismatch (''tip_history.'' @ creator @ ''.count'') (show_nat (length tips)) (show_nat got)
         else None) vs)"

definition check_tip_entry where
  "check_tip_entry st cl j target creator = (\<lambda>(idx, meta).
     check_record (get_persistent_tip_metadata st cl j target (''TipHistory:'' @ creator @ '':'' @ show_nat idx))
       (''tip_history.'' @ creator @ ''.'' @ show_nat idx) debug_tip_metadata (=) debug_tip_metadata meta)"

definition verify_history where
  "verify_history st cl j target sn =
     fold (\<lambda>(creator, tips) vs. fold (check_tip_entry st cl j target creator) (enumerate 0 tips)
       (check_tip_count st cl target creator tips vs)) (tip_history sn)"

definition check_aggregate where
  "check_aggregate st cl j target kind prefix = (\<lambda>(key, entry) vs.
     case split_key key of
       None \<Rightarrow> vs
     | Some (addr, rest) \<Rightarrow>
         let bucket = unwrap_or (parse_u32 rest) 0 in
         check_record (get_persistent_leaderboard_entry st cl j target (kind @ '':'' @ addr @ '':'' @ show_u32 bucket))
           (prefix @ key) debug_leaderboard_entry
           (\<lambda>a b. lb_total_amount a = lb_total_amount b \<and> lb_tip_count a = lb_tip_count b)
           (\<lambda>a. ''amount='' @ show_int (lb_total_amount a) @ '' count='' @ show_u32 (lb_tip_count a)) entry vs)"

definition verify_aggregates where
  "verify_aggregates st cl j target sn vs =
     fold (check_aggregate st cl j target ''CreatorAggregate'' ''creator_aggregates.'') (creator_aggregates sn)
       (fold (check_aggregate st cl j target ''TipperAggregate'' ''tipper_aggregates.'') (tipper_aggregates sn) vs)"

definition check_subscription where
  "check_subscription st cl j target = (\<lambda>(key, sub) vs.
     case split_key key of
       None \<Rightarrow> vs
     | Some (subscriber, creator) \<Rightarrow>
         check_record (get_persistent_subscription st cl j target (''Subscription:'' @ subscriber @ '':'' @ creator))
           (''subscriptions.'' @ key) debug_subscription
           (\<lambda>a b. sub_amount a = sub_amount b \<and> interval_seconds a = interval_seconds b)
           (\<lambda>a. ''amount='' @ show_int (sub_amount a) @ '' interval='' @ show_u64 (interval_seconds a)) sub vs)"

definition verify_subscriptions where
  "verify_subscriptions st cl j target sn = fold (check_subscription st cl j target) (subscriptions sn)"

definition check_time_lock where
  "check_time_lock st cl j target lock =
     check_record (get_persistent_time_lock st cl j target (''TimeLock:'' @ show_u64 (lock_id lock)) (lock_id lock))
       (''time_locks.'' @ show_u64 (lock_id lock)) debug_time_lock
       (\<lambda>a b. tl_amount a = tl_amount b \<and> tl_cancelled a = tl_cancelled b)
       (\<lambda>a. ''amount='' @ show_int (tl_amount a) @ '' cancelled='' @ show_bool (tl_cancelled a)) lock"

definition verify_time_locks where
  "verify_time_locks st cl j target sn = fold (check_time_lock st cl j target) (time_locks sn)"

definition check_milestone where
  "check_milestone st cl j target = (\<lambda>(key, ms) vs.
     case split_key key of
       None \<Rightarrow> vs
     | Some (creator, number) \<Rightarrow>
         check_record (get_persistent_milestone st cl j target (''Milestone:'' @ creator @ '':'' @ number))
           (''milestones.'' @ key) debug_milestone
           (\<lambda>a b. goal_amount a = goal_amount b \<and> current_amount a = current_amount b \<and> completed a = completed b)
           (\<lambda>a. ''goal='' @ show_int (goal_amount a) @ '' current='' @ show_int (current_amount a) @
                '' completed='' @ show_bool (completed a)) ms vs)"

definition verify_milestones where
  "verify_milestones st cl j target sn = fold (check_milestone st cl j target) (milestones sn)"

definition check_matching_program where
  "check_matching_program st cl j target prog =
     check_record (get_persistent_matching_program st cl j target (''MatchingProgram:'' @ show_u64 (mt_id prog)))
       (''matching_programs.'' @ show_u64 (mt_id prog)) debug_matching_program
       (\<lambda>a b. max_match_amount a = max_match_amount b \<and> current_matched a = current_matched b \<and> mt_active a = mt_active b)
       (\<lambda>a. ''max='' @ show_int (max_match_amount a) @ '' matched='' @ show_int (current_matched a) @
            '' active='' @ show_bool (mt_active a)) prog"

definition verify_matching_programs where
  "verify_matching_programs st cl j target sn = fold (check_matching_program st cl j target) (matching_programs sn)"

definition check_tip_record where
  "check_tip_record st cl j target rec =
     check_record (get_persistent_tip_record st cl j target (''TipRecord:'' @ show_u64 (tr_id rec)))
       (''tip_records.'' @ show_u64 (tr_id rec)) debug_tip_record
       (\<lambda>a b. tr_amount a = tr_amount b \<and> refunded a = refunded b)
       (\<lambda>a. ''amount='' @ show_int (tr_amount a) @ '' refunded='' @ show_bool (refunded a)) rec"

definition verify_tip_records where
  "verify_tip_records st cl j target sn = fold (check_tip_record st cl j target) (tip_records sn)"

definition check_user_role where
  "check_user_role st cl target = (\<lambda>(addr, want) vs.
     let (r, w) = get_persistent_string st cl target (''UserRole:'' @ addr) (vs_world vs); got = unwrap_or r [] in
     checked_one w
       (if got \<noteq> want
        then finding Mismatch (''user_roles.'' @ addr) want (if got = [] then ''<absent>'' else got)
        else None) vs)"

definition verify_user_roles where
  "verify_user_roles st cl target sn = fold (check_user_role st cl target) (user_roles sn)"

definition verify_migration ::
  "'w stellar_cmd \<Rightarrow> rpc_client \<Rightarrow> 'j serde \<Rightarrow> string \<Rightarrow> state_snapshot \<Rightarrow> string \<Rightarrow> 'w \<Rightarrow>
   (string + verification_report) \<times> 'w" where
  "verify_migration st cl j now sn target w =
     (let vs = fold (\<lambda>block. block)
        [verify_instance st cl target sn, verify_tokens st cl j target sn,
         verify_balances st cl target sn, verify_totals st cl target sn,
         verify_history st cl j target sn, verify_aggregates st cl j target sn,
         verify_subscriptions st cl j target sn, verify_time_locks st cl j target sn,
         verify_milestones st cl j target sn, verify_matching_programs st cl j target sn,
         verify_tip_records st cl j target sn, verify_user_roles st cl target sn]
        \<lparr>vs_world = w, vs_findings = [], vs_checked = 0\<rparr> in
      (Inr \<lparr>source_contract_id = contract_id sn, target_contract_id = target, verified_at = now,
            records_checked = vs_checked vs, passed = (vs_findings vs = []), findings = vs_findings vs\<rparr>,
       vs_world vs))"

section \<open>Checks on a steady target\<close>

text \<open>
  The target is steady in a world when reading from it, retries included, does not change the world;
  the import pauses the contract before it verifies. On a steady target the effect of a
  check does not depend on what was checked before: it adds a fixed number to the count, and it adds findings
  exactly if its condition is violated.
\<close>

definition steady :: "'w stellar_cmd \<Rightarrow> rpc_client \<Rightarrow> string \<Rightarrow> 'w \<Rightarrow> bool" where
  "steady st cl target w \<longleftrightarrow> (\<forall>fn args. snd (invoke_read st cl target fn args w) = w)"

definition check_effect :: "'w \<Rightarrow> bool \<Rightarrow> nat \<Rightarrow> ('w verifying \<Rightarrow> 'w verifying) \<Rightarrow> bool" where
  "check_effect w ok n F \<longleftrightarrow>
     (\<forall>vs. vs_world vs = w \<longrightarrow> vs_world (F vs) = w \<and> vs_checked (F vs) = vs_checked vs + n \<and>
        (vs_findings (F vs) = [] \<longleftrightarrow> vs_findings vs = [] \<and> ok))"

lemma check_effect_skip [intro, simp]: "check_effect w True 0 (\<lambda>vs. vs)"
  by (simp add: check_effect_def)

lemma check_effect_comp:
  "check_effect w a m F \<Longrightarrow> check_effect w b n G \<Longrightarrow> check_effect w (a \<and> b) (m + n) (\<lambda>vs. G (F vs))"
  by (auto simp: check_effect_def)

lemma check_effect_fold:
  assumes "\<And>x. x \<in> set xs \<Longrightarrow> check_effect w (ok x) (n x) (F x)"
  shows "check_effect w (\<forall>x\<in>set xs. ok x) (\<Sum>x\<leftarrow>xs. n x) (fold F xs)"
  using assms
proof (induction xs)
  case (Cons x xs)
  then have "check_effect w (ok x \<and> (\<forall>x\<in>set xs. ok x)) (n x + (\<Sum>x\<leftarrow>xs. n x)) (\<lambda>vs. fold F xs (F x vs))"
    by (intro check_effect_comp) auto
  then show ?case by (simp add: check_effect_def)
qed (simp add: check_effect_def)

lemma check_effect_blocks:
  "check_effect w True 0 (fold (\<lambda>c. c) [])"
  "check_effect w a m F \<Longrightarrow> check_effect w b n (fold (\<lambda>c. c) Fs) \<Longrightarrow>
     check_effect w (a \<and> b) (m + n) (fold (\<lambda>c. c) (F # Fs))"
  by (auto simp: check_effect_def)

lemma checked_one_effect:
  assumes "\<And>vs. vs_world vs = w \<Longrightarrow> F vs = checked_one w fo vs"
  shows "check_effect w (fo = None) 1 F"
  using assms by (auto simp: check_effect_def checked_one_def split: option.splits)

named_theorems read_defs \<open>the readers of the client\<close>

lemmas [read_defs] =
  get_instance_string_def get_instance_u32_def get_instance_u64_def get_instance_bool_def
  get_persistent_u64_def get_persistent_string_def get_json_def get_persistent_tip_metadata_def
  get_persistent_leaderboard_entry_def get_persistent_subscription_def get_persistent_milestone_def
  get_persistent_matching_program_def get_persistent_tip_record_def get_persistent_time_lock_def
  get_creator_balance_def get_creator_total_def get_whitelisted_tokens_def read_parsed_def

text \<open>What a reader returns on a steady target.\<close>

lemma steady_reads:
  assumes "steady st cl target w"
  shows "snd (get_instance_string st cl target key w) = w"
    "snd (get_instance_u32 st cl target key w) = w"
    "snd (get_instance_u64 st cl target key w) = w"
    "snd (get_instance_bool st cl target key w) = w"
    "snd (get_persistent_u64 st cl target key w) = w"
    "snd (get_persistent_string st cl target key w) = w"
    "snd (get_creator_balance st cl target c t w) = w"
    "snd (get_creator_total st cl target c t w) = w"
    "snd (get_whitelisted_tokens st cl j target w) = w"
    "snd (get_json st cl dec target key w) = w"
  using assms by (simp_all add: read_defs steady_def)

lemma finding_not_None [simp]: "finding sev fld want got \<noteq> None" "None \<noteq> finding sev fld want got"
  by (simp_all add: finding_def)

text \<open>A stored record that agrees with the expected one.\<close>

definition holds :: "string + 'a option \<Rightarrow> ('a \<Rightarrow> 'a \<Rightarrow> bool) \<Rightarrow> 'a \<Rightarrow> bool" where
  "holds r same want \<longleftrightarrow> (\<exists>got. r = Inr (Some got) \<and> same got want)"

lemma check_record_effect:
  assumes "snd (get w) = w"
  shows "check_effect w (holds (fst (get w)) same want) 1 (check_record get fld debug same brief want)"
proof -
  have "check_effect w ((case value_or None (fst (get w)) of None \<Rightarrow> finding Missing fld (debug want) ''<absent>''
         | Some got \<Rightarrow> if same got want then None else finding Mismatch fld (brief want) (brief got)) = None) 1
         (check_record get fld debug same brief want)"
    by (rule checked_one_effect) (simp add: check_record_def assms split_beta Let_def)
  then show ?thesis
    by (auto simp: holds_def value_or_def check_effect_def split: sum.splits option.splits if_splits)
qed

lemma check_effect_cond:
  "check_effect w a m F \<Longrightarrow> (a \<longleftrightarrow> b) \<Longrightarrow> m = n \<Longrightarrow> check_effect w b n F"
  by simp

text \<open>Entries whose key has no colon are skipped.\<close>

definition keyed :: "(string \<times> 'a) list \<Rightarrow> (string \<times> 'a) list" where
  "keyed xs = filter (\<lambda>(k, _). split_key k \<noteq> None) xs"

lemma check_effect_keyed:
  assumes "\<And>k v a b. (k, v) \<in> set xs \<Longrightarrow> split_key k = Some (a, b) \<Longrightarrow> check_effect w (ok k v a b) 1 (F (k, v))"
    and "\<And>k v vs. split_key k = None \<Longrightarrow> F (k, v) vs = vs"
  shows "check_effect w (\<forall>(k, v)\<in>set xs. \<forall>a b. split_key k = Some (a, b) \<longrightarrow> ok k v a b)
           (length (keyed xs)) (fold F xs)"
proof -
  let ?n = "\<lambda>(k, v). if split_key k \<noteq> None then 1 else 0 :: nat"
  have "check_effect w (case p of (k, v) \<Rightarrow> \<forall>a b. split_key k = Some (a, b) \<longrightarrow> ok k v a b) (?n p) (F p)"
    if "p \<in> set xs" for p
  proof (cases p)
    case (Pair k v)
    show ?thesis
    proof (cases "split_key k")
      case None
      then show ?thesis using assms(2) [of k v] Pair by (simp add: check_effect_def)
    next
      case (Some ab)
      then show ?thesis using assms(1) [of k v "fst ab" "snd ab"] that Pair by (cases ab) simp
    qed
  qed
  then have "check_effect w (\<forall>p\<in>set xs. case p of (k, v) \<Rightarrow> \<forall>a b. split_key k = Some (a, b) \<longrightarrow> ok k v a b)
      (\<Sum>p\<leftarrow>xs. ?n p) (fold F xs)"
    by (rule check_effect_fold)
  moreover have "(\<Sum>p\<leftarrow>xs. ?n p) = length (keyed xs)"
    by (induction xs) (auto simp: keyed_def)
  ultimately show ?thesis by simp
qed

section \<open>What a clean report means\<close>

text \<open>
  The target agrees with a snapshot. Of a failed read, a number counts as zero, a flag as
  false, a text as empty and a record as absent.
\<close>

definition instance_agrees where
  "instance_agrees st cl target w sn \<longleftrightarrow>
     value_or [] (fst (get_instance_string st cl target ''Admin'' w)) = sn_admin sn \<and>
     unwrap_or (fst (get_instance_u32 st cl target ''FeeBasisPoints'' w)) 0 = fee_basis_points sn \<and>
     unwrap_or (fst (get_instance_u64 st cl target ''RefundWindow'' w)) 0 = refund_window_seconds sn \<and>
     unwrap_or (fst (get_instance_bool st cl target ''Paused'' w)) False = paused sn \<and>
     unwrap_or (fst (get_instance_u64 st cl target ''TipCounter'' w)) 0 = tip_counter sn \<and>
     unwrap_or (fst (get_instance_u64 st cl target ''MatchingCounter'' w)) 0 = matching_counter sn \<and>
     unwrap_or (fst (get_instance_u32 st cl target ''ContractVersion'' w)) 0 = schema_version sn"

definition amounts_agree where
  "amounts_agree st cl target w sn \<longleftrightarrow>
     (\<forall>(k, v)\<in>set (creator_balances sn). \<forall>c t. split_key k = Some (c, t) \<longrightarrow>
        unwrap_or (fst (get_creator_balance st cl target c t w)) 0 = v) \<and>
     (\<forall>(k, v)\<in>set (creator_totals sn). \<forall>c t. split_key k = Some (c, t) \<longrightarrow>
        unwrap_or (fst (get_creator_total st cl target c t w)) 0 = v)"

definition history_agrees where
  "history_agrees st cl j target w sn \<longleftrightarrow>
     (\<forall>(c, tips)\<in>set (tip_history sn).
        unat (unwrap_or (fst (get_persistent_u64 st cl target (''TipCount:'' @ c) w)) 0) = length tips \<and>
        (\<forall>i<length tips. fst (get_persistent_tip_metadata st cl j target
           (''TipHistory:'' @ c @ '':'' @ show_nat i) w) = Inr (Some (tips ! i))))"

definition aggregate_agrees where
  "aggregate_agrees st cl j target w kind xs \<longleftrightarrow>
     (\<forall>(k, v)\<in>set xs. \<forall>a b. split_key k = Some (a, b) \<longrightarrow>
        holds (fst (get_persistent_leaderboard_entry st cl j target
            (kind @ '':'' @ a @ '':'' @ show_u32 (unwrap_or (parse_u32 b) 0)) w))
          (\<lambda>x y. lb_total_amount x = lb_total_amount y \<and> lb_tip_count x = lb_tip_count y) v)"

definition records_agree where
  "records_agree st cl j target w sn \<longleftrightarrow>
     (\<forall>(k, v)\<in>set (subscriptions sn). \<forall>a b. split_key k = Some (a, b) \<longrightarrow>
        holds (fst (get_persistent_subscription st cl j target (''Subscription:'' @ a @ '':'' @ b) w))
          (\<lambda>x y. sub_amount x = sub_amount y \<and> interval_seconds x = interval_seconds y) v) \<and>
     (\<forall>l\<in>set (time_locks sn).
        holds (fst (get_persistent_time_lock st cl j target (''TimeLock:'' @ show_u64 (lock_id l)) (lock_id l) w))
          (\<lambda>x y. tl_amount x = tl_amount y \<and> tl_cancelled x = tl_cancelled y) l) \<and>
     (\<forall>(k, v)\<in>set (milestones sn). \<forall>a b. split_key k = Some (a, b) \<longrightarrow>
        holds (fst (get_persistent_milestone st cl j target (''Milestone:'' @ a @ '':'' @ b) w))
          (\<lambda>x y. goal_amount x = goal_amount y \<and> current_amount x = current_amount y \<and> completed x = completed y) v) \<and>
     (\<forall>p\<in>set (matching_programs sn).
        holds (fst (get_persistent_matching_program st cl j target (''MatchingProgram:'' @ show_u64 (mt_id p)) w))
          (\<lambda>x y. max_match_amount x = max_match_amount y \<and> current_matched x = current_matched y \<and>
                 mt_active x = mt_active y) p) \<and>
     (\<forall>r\<in>set (tip_records sn).
        holds (fst (get_persistent_tip_record st cl j target (''TipRecord:'' @ show_u64 (tr_id r)) w))
          (\<lambda>x y. tr_amount x = tr_amount y \<and> refunded x = refunded y) r)"

definition target_agrees where
  "target_agrees st cl j target w sn \<longleftrightarrow>
     instance_agrees st cl target w sn \<and>
     set (whitelisted_tokens sn) \<subseteq> set (value_or [] (fst (get_whitelisted_tokens st cl j target w))) \<and>
     amounts_agree st cl target w sn \<and> history_agrees st cl j target w sn \<and>
     aggregate_agrees st cl j target w ''TipperAggregate'' (tipper_aggregates sn) \<and>
     aggregate_agrees st cl j target w ''CreatorAggregate'' (creator_aggregates sn) \<and>
     records_agree st cl j target w sn \<and>
     (\<forall>(a, role)\<in>set (user_roles sn).
        unwrap_or (fst (get_persistent_string st cl target (''UserRole:'' @ a) w)) [] = role)"

lemmas json_reader_defs =
  get_persistent_tip_metadata_def get_persistent_leaderboard_entry_def get_persistent_subscription_def
  get_persistent_milestone_def get_persistent_matching_program_def get_persistent_tip_record_def
  get_persistent_time_lock_def

lemma instance_effect:
  assumes "steady st cl target w"
  shows "check_effect w (instance_agrees st cl target w sn) 7 (verify_instance st cl target sn)"
proof -
  have "check_effect w (value_or [] (fst (get_instance_string st cl target k w)) = s) 1
          (check_instance_string st cl target k s)"
    "check_effect w (unwrap_or (fst (get_instance_u32 st cl target k w)) 0 = a) 1
          (check_instance_u32 st cl target k a)"
    "check_effect w (unwrap_or (fst (get_instance_u64 st cl target k w)) 0 = b) 1
          (check_instance_u64 st cl target k b)"
    "check_effect w (unwrap_or (fst (get_instance_bool st cl target k w)) False = c) 1
          (check_instance_bool st cl target k c)" for k s a b c
    by (rule check_effect_cond [OF checked_one_effect],
        simp add: check_instance_string_def check_instance_u32_def check_instance_u64_def
          check_instance_bool_def steady_reads [OF assms] split_beta Let_def, simp, simp)+
  note one = this
  show ?thesis
    unfolding verify_instance_def instance_agrees_def
    by (rule check_effect_cond, (rule check_effect_blocks one)+) simp_all
qed

lemma tokens_effect:
  assumes "steady st cl target w"
  shows "check_effect w
    (set (whitelisted_tokens sn) \<subseteq> set (value_or [] (fst (get_whitelisted_tokens st cl j target w))))
    (length (whitelisted_tokens sn)) (verify_tokens st cl j target sn)"
proof -
  let ?ts = "value_or [] (fst (get_whitelisted_tokens st cl j target w))"
  have "check_effect w (t \<in> set ?ts) 1 (check_token ?ts t)" for t
    by (rule check_effect_cond [OF checked_one_effect]) (simp add: check_token_def, simp_all)
  then have "check_effect w (\<forall>t\<in>set (whitelisted_tokens sn). t \<in> set ?ts) (\<Sum>t\<leftarrow>whitelisted_tokens sn. 1)
      (fold (check_token ?ts) (whitelisted_tokens sn))"
    by (intro check_effect_fold)
  then show ?thesis
    by (auto simp: check_effect_def verify_tokens_def steady_reads [OF assms] split_beta Let_def sum_list_triv subset_iff)
qed

lemma check_amount_effect:
  assumes "\<And>c t. snd (get c t w) = w"
  shows "check_effect w (\<forall>(k, v)\<in>set xs. \<forall>c t. split_key k = Some (c, t) \<longrightarrow> unwrap_or (fst (get c t w)) 0 = v)
    (length (keyed xs)) (fold (check_amount get prefix) xs)"
proof (rule check_effect_keyed)
  fix k v c t assume "split_key k = Some (c, t)"
  then show "check_effect w (unwrap_or (fst (get c t w)) 0 = v) 1 (check_amount get prefix (k, v))"
    using assms by (intro check_effect_cond [OF checked_one_effect [where fo =
        "if unwrap_or (fst (get c t w)) 0 \<noteq> v
         then finding Mismatch (prefix @ k) (show_int v) (show_int (unwrap_or (fst (get c t w)) 0)) else None"]])
      (simp_all add: check_amount_def split_beta Let_def)
qed (simp add: check_amount_def)

lemma history_effect:
  assumes "steady st cl target w"
  shows "check_effect w (history_agrees st cl j target w sn)
    (\<Sum>p\<leftarrow>tip_history sn. Suc (length (snd p))) (verify_history st cl j target sn)"
proof -
  have count: "check_effect w (unat (unwrap_or (fst (get_persistent_u64 st cl target (''TipCount:'' @ c) w)) 0) = length tips)
      1 (check_tip_count st cl target c tips)" for c tips
    by (rule check_effect_cond [OF checked_one_effect])
      (simp add: check_tip_count_def steady_reads [OF assms] split_beta Let_def, simp_all)
  let ?get = "\<lambda>c i. get_persistent_tip_metadata st cl j target (''TipHistory:'' @ c @ '':'' @ show_nat i)"
  have entry: "check_effect w (case p of (i, m) \<Rightarrow> holds (fst (?get c i w)) (=) m) 1 (check_tip_entry st cl j target c p)" for c p
    by (cases p, simp only: check_tip_entry_def prod.case, rule check_record_effect)
      (simp add: json_reader_defs steady_reads [OF assms])
  have one: "check_effect w (unat (unwrap_or (fst (get_persistent_u64 st cl target (''TipCount:'' @ c) w)) 0) = length tips \<and>
       (\<forall>i<length tips. fst (?get c i w) = Inr (Some (tips ! i)))) (Suc (length tips))
      (\<lambda>vs. fold (check_tip_entry st cl j target c) (enumerate 0 tips) (check_tip_count st cl target c tips vs))" for c tips
    by (rule check_effect_cond [OF check_effect_comp [OF count check_effect_fold [OF entry]]])
      (auto simp: in_set_enumerate_eq holds_def sum_list_triv)
  then show ?thesis
    unfolding history_agrees_def verify_history_def
    by (intro check_effect_cond [OF check_effect_fold [where n = "\<lambda>p. Suc (length (snd p))"]])
      (auto simp: split_beta)
qed

lemma aggregate_effect:
  assumes "steady st cl target w"
  shows "check_effect w (aggregate_agrees st cl j target w kind xs) (length (keyed xs))
    (fold (check_aggregate st cl j target kind prefix) xs)"
  unfolding aggregate_agrees_def
proof (rule check_effect_keyed)
  fix k v a b assume "split_key k = Some (a, b)"
  then have "check_aggregate st cl j target kind prefix (k, v) =
      check_record (get_persistent_leaderboard_entry st cl j target
          (kind @ '':'' @ a @ '':'' @ show_u32 (unwrap_or (parse_u32 b) 0)))
        (prefix @ k) debug_leaderboard_entry
        (\<lambda>a b. lb_total_amount a = lb_total_amount b \<and> lb_tip_count a = lb_tip_count b)
        (\<lambda>a. ''amount='' @ show_int (lb_total_amount a) @ '' count='' @ show_u32 (lb_tip_count a)) v"
    by (intro ext) (simp add: check_aggregate_def Let_def)
  then show "check_effect w (holds (fst (get_persistent_leaderboard_entry st cl j target
            (kind @ '':'' @ a @ '':'' @ show_u32 (unwrap_or (parse_u32 b) 0)) w))
          (\<lambda>x y. lb_total_amount x = lb_total_amount y \<and> lb_tip_count x = lb_tip_count y) v) 1
      (check_aggregate st cl j target kind prefix (k, v))"
    by (simp only:) (rule check_record_effect, simp add: json_reader_defs steady_reads [OF assms])
qed (simp add: check_aggregate_def)

lemma check_effect_list:
  assumes "\<And>x. check_effect w (ok x) 1 (F x)"
  shows "check_effect w (\<forall>x\<in>set xs. ok x) (length xs) (fold F xs)"
  using check_effect_fold [of xs w ok "\<lambda>_. 1" F] assms by (simp add: sum_list_triv)

lemma record_block_effects:
  assumes "steady st cl target w"
  shows "check_effect w (\<forall>(k, v)\<in>set (subscriptions sn). \<forall>a b. split_key k = Some (a, b) \<longrightarrow>
        holds (fst (get_persistent_subscription st cl j target (''Subscription:'' @ a @ '':'' @ b) w))
          (\<lambda>x y. sub_amount x = sub_amount y \<and> interval_seconds x = interval_seconds y) v)
      (length (keyed (subscriptions sn))) (verify_subscriptions st cl j target sn)" (is ?sub)
    and "check_effect w (\<forall>l\<in>set (time_locks sn).
        holds (fst (get_persistent_time_lock st cl j target (''TimeLock:'' @ show_u64 (lock_id l)) (lock_id l) w))
          (\<lambda>x y. tl_amount x = tl_amount y \<and> tl_cancelled x = tl_cancelled y) l)
      (length (time_locks sn)) (verify_time_locks st cl j target sn)" (is ?lock)
    and "check_effect w (\<forall>(k, v)\<in>set (milestones sn). \<forall>a b. split_key k = Some (a, b) \<longrightarrow>
        holds (fst (get_persistent_milestone st cl j target (''Milestone:'' @ a @ '':'' @ b) w))
          (\<lambda>x y. goal_amount x = goal_amount y \<and> current_amount x = current_amount y \<and> completed x = completed y) v)
      (length (keyed (milestones sn))) (verify_milestones st cl j target sn)" (is ?ms)
    and "check_effect w (\<forall>p\<in>set (matching_programs sn).
        holds (fst (get_persistent_matching_program st cl j target (''MatchingProgram:'' @ show_u64 (mt_id p)) w))
          (\<lambda>x y. max_match_amount x = max_match_amount y \<and> current_matched x = current_matched y \<and>
                 mt_active x = mt_active y) p)
      (length (matching_programs sn)) (verify_matching_programs st cl j target sn)" (is ?prog)
    and "check_effect w (\<forall>r\<in>set (tip_records sn).
        holds (fst (get_persistent_tip_record st cl j target (''TipRecord:'' @ show_u64 (tr_id r)) w))
          (\<lambda>x y. tr_amount x = tr_amount y \<and> refunded x = refunded y) r)
      (length (tip_records sn)) (verify_tip_records st cl j target sn)" (is ?rec)
proof -
  note read = json_reader_defs steady_reads [OF assms]
  show ?sub
    unfolding verify_subscriptions_def
    by (rule check_effect_keyed)
      (simp_all add: check_subscription_def check_record_effect [simplified] read)
  show ?ms
    unfolding verify_milestones_def
    by (rule check_effect_keyed)
      (simp_all add: check_milestone_def check_record_effect [simplified] read)
  show ?lock
    unfolding verify_time_locks_def check_time_lock_def
    by (rule check_effect_list, rule check_record_effect) (simp add: read)
  show ?prog
    unfolding verify_matching_programs_def check_matching_program_def
    by (rule check_effect_list, rule check_record_effect) (simp add: read)
  show ?rec
    unfolding verify_tip_records_def check_tip_record_def
    by (rule check_effect_list, rule check_record_effect) (simp add: read)
qed

lemma roles_effect:
  assumes "steady st cl target w"
  shows "check_effect w (\<forall>(a, role)\<in>set (user_roles sn).
        unwrap_or (fst (get_persistent_string st cl target (''UserRole:'' @ a) w)) [] = role)
      (length (user_roles sn)) (verify_user_roles st cl target sn)"
  unfolding verify_user_roles_def
proof (rule check_effect_list)
  fix p :: "string \<times> string"
  obtain a role where p: "p = (a, role)" by (cases p)
  let ?got = "unwrap_or (fst (get_persistent_string st cl target (''UserRole:'' @ a) w)) []"
  show "check_effect w (case p of (a, role) \<Rightarrow>
        unwrap_or (fst (get_persistent_string st cl target (''UserRole:'' @ a) w)) [] = role) 1
      (check_user_role st cl target p)"
    by (rule check_effect_cond [OF checked_one_effect [where fo =
          "if ?got \<noteq> role then finding Mismatch (''user_roles.'' @ a) role (if ?got = [] then ''<absent>'' else ?got)
           else None"]])
      (simp_all add: p check_user_role_def steady_reads [OF assms] split_beta Let_def)
qed

definition records_of :: "state_snapshot \<Rightarrow> nat" where
  "records_of sn = 7 + length (whitelisted_tokens sn) + length (keyed (creator_balances sn)) +
     length (keyed (creator_totals sn)) + (\<Sum>p\<leftarrow>tip_history sn. Suc (length (snd p))) +
     length (keyed (tipper_aggregates sn)) + length (keyed (creator_aggregates sn)) +
     length (keyed (subscriptions sn)) + length (time_locks sn) + length (keyed (milestones sn)) +
     length (matching_programs sn) + length (tip_records sn) + length (user_roles sn)"

definition all_checks :: "'w stellar_cmd \<Rightarrow> rpc_client \<Rightarrow> 'j serde \<Rightarrow> string \<Rightarrow> state_snapshot \<Rightarrow> 'w verifying \<Rightarrow> 'w verifying" where
  "all_checks st cl j target sn = fold (\<lambda>block. block)
        [verify_instance st cl target sn, verify_tokens st cl j target sn,
         verify_balances st cl target sn, verify_totals st cl target sn,
         verify_history st cl j target sn, verify_aggregates st cl j target sn,
         verify_subscriptions st cl j target sn, verify_time_locks st cl j target sn,
         verify_milestones st cl j target sn, verify_matching_programs st cl j target sn,
         verify_tip_records st cl j target sn, verify_user_roles st cl target sn]"

lemma amounts_effect:
  assumes "steady st cl target w"
  shows "check_effect w (\<forall>(k, v)\<in>set (creator_balances sn). \<forall>c t. split_key k = Some (c, t) \<longrightarrow>
        unwrap_or (fst (get_creator_balance st cl target c t w)) 0 = v)
      (length (keyed (creator_balances sn))) (verify_balances st cl target sn)"
    "check_effect w (\<forall>(k, v)\<in>set (creator_totals sn). \<forall>c t. split_key k = Some (c, t) \<longrightarrow>
        unwrap_or (fst (get_creator_total st cl target c t w)) 0 = v)
      (length (keyed (creator_totals sn))) (verify_totals st cl target sn)"
  unfolding verify_balances_def verify_totals_def
  by (rule check_amount_effect, simp add: steady_reads [OF assms])+

lemma aggregates_effect:
  assumes "steady st cl target w"
  shows "check_effect w (aggregate_agrees st cl j target w ''TipperAggregate'' (tipper_aggregates sn) \<and>
        aggregate_agrees st cl j target w ''CreatorAggregate'' (creator_aggregates sn))
      (length (keyed (tipper_aggregates sn)) + length (keyed (creator_aggregates sn)))
      (verify_aggregates st cl j target sn)"
  unfolding verify_aggregates_def [abs_def] by (intro check_effect_comp aggregate_effect assms)

lemma all_checks_effect:
  assumes "steady st cl target w"
  shows "check_effect w (target_agrees st cl j target w sn) (records_of sn) (all_checks st cl j target sn)"
proof -
  note blocks = instance_effect [OF assms] tokens_effect [OF assms] amounts_effect [OF assms] history_effect [OF assms]
    aggregates_effect [OF assms] record_block_effects [OF assms] roles_effect [OF assms]
  show ?thesis
    unfolding all_checks_def target_agrees_def amounts_agree_def records_agree_def records_of_def
    by (rule check_effect_cond, (rule check_effect_blocks(2) [OF blocks(1)] check_effect_blocks(2) [OF blocks(2)]
        check_effect_blocks(2) [OF blocks(3)] check_effect_blocks(2) [OF blocks(4)]
        check_effect_blocks(2) [OF blocks(5)] check_effect_blocks(2) [OF blocks(6)]
        check_effect_blocks(2) [OF blocks(7)] check_effect_blocks(2) [OF blocks(8)]
        check_effect_blocks(2) [OF blocks(9)] check_effect_blocks(2) [OF blocks(10)]
        check_effect_blocks(2) [OF blocks(11)] check_effect_blocks(2) [OF blocks(12)] check_effect_blocks(1))+,
        simp only: conj_assoc simp_thms) simp
qed

text \<open>
  C25. What a verification establishes. On a target that its reads do not disturb, the verification
  always returns a report and leaves the world as it is; the report passes, and then has no finding,
  exactly if the target agrees with the snapshot on every checked entry; the number of records
  checked is the number of entries of the snapshot with a well-formed key, without the locked tips;
  and after a passing report every creator balance of the snapshot that is not zero is what the
  target itself answers.
\<close>

theorem verification_passes_iff_target_agrees:
  assumes "steady st cl target w"
  shows "\<exists>r. verify_migration st cl j now sn target w = (Inr r, w) \<and>
    (passed r \<longleftrightarrow> target_agrees st cl j target w sn) \<and> (is_clean r \<longleftrightarrow> passed r) \<and>
    records_checked r = records_of sn \<and>
    (passed r \<longrightarrow> (\<forall>k v c t. (k, v) \<in> set (creator_balances sn) \<and> split_key k = Some (c, t) \<and> v \<noteq> 0 \<longrightarrow>
       fst (get_creator_balance st cl target c t w) = Some v))"
proof -
  let ?vs = "\<lparr>vs_world = w, vs_findings = [], vs_checked = 0\<rparr>"
  let ?F = "all_checks st cl j target sn"
  have "vs_world (?F ?vs) = w" "vs_checked (?F ?vs) = records_of sn"
    "vs_findings (?F ?vs) = [] \<longleftrightarrow> target_agrees st cl j target w sn"
    using all_checks_effect [OF assms, of j sn] by (auto simp: check_effect_def)
  moreover have "fst (get_creator_balance st cl target c t w) = Some v"
    if "target_agrees st cl j target w sn" "(k, v) \<in> set (creator_balances sn)" "split_key k = Some (c, t)" "v \<noteq> 0"
    for k v c t
    using that by (cases "fst (get_creator_balance st cl target c t w)")
      (auto simp: target_agrees_def amounts_agree_def)
  ultimately show ?thesis
    unfolding verify_migration_def all_checks_def [symmetric] Let_def by (auto simp: is_clean_def)
qed

section \<open>Concrete targets\<close>

lemma steadyI:
  assumes "\<And>args v. snd (st args v) = v"
  shows "steady st cl target w"
proof -
  have "world_after st args n v = v" for args n v
    by (induction n) (simp_all add: attempts_Suc assms)
  then show ?thesis
    using retry_loop_stops [of st _ "max_retries cl" 0 w] by (simp add: steady_def invoke_read_def)
qed

text \<open>A target that answers every read with the same text, and one that is not reachable.\<close>

definition echo_cmd :: "string \<Rightarrow> unit stellar_cmd" where
  "echo_cmd s args w = (Inr \<lparr>success = True, stdout = s, stderr = []\<rparr>, w)"

definition offline_cmd :: "unit stellar_cmd" where
  "offline_cmd args w = (Inl ''no route to host'', w)"

definition no_json :: "unit serde" where
  "no_json = \<lparr>dec_tip_metadata = (\<lambda>_. Inl []), dec_leaderboard_entry = (\<lambda>_. Inl []),
     dec_subscription = (\<lambda>_. Inl []), dec_milestone = (\<lambda>_. Inl []), dec_matching_program = (\<lambda>_. Inl []),
     dec_tip_record = (\<lambda>_. Inl []), dec_strings = (\<lambda>s. Inr [s]), dec_storage = (\<lambda>_. Inr []), dec_value = (\<lambda>_. Inl []),
     insert_number = (\<lambda>_ _ v. v), value_time_lock = (\<lambda>_. Inl []), value_locked_tip = (\<lambda>_. Inl []),
     enc_tip_metadata = (\<lambda>_. Inl []), enc_leaderboard_entry = (\<lambda>_. Inl []), enc_subscription = (\<lambda>_. Inl []),
     enc_time_lock = (\<lambda>_. Inl []), enc_milestone = (\<lambda>_. Inl []), enc_matching_program = (\<lambda>_. Inl []),
     enc_tip_record = (\<lambda>_. Inl []), enc_locked_tip = (\<lambda>_. Inl [])\<rparr>"

definition uniform_snapshot :: "u32 \<Rightarrow> u64 \<Rightarrow> string \<Rightarrow> int \<Rightarrow> state_snapshot" where
  "uniform_snapshot a b s v = \<lparr>contract_id = ''C'', schema_version = a, exported_at = 0, ledger_sequence = 0,
     checksum = [], sn_admin = s, fee_basis_points = a, refund_window_seconds = b, paused = False,
     pause_reason = None, tip_counter = b, matching_counter = b, current_fee_bps = 0,
     whitelisted_tokens = (if s = [] then [] else [s]), creator_balances = [(''c:t'', v)], creator_totals = [(''c:t'', v)],
     tip_history = [], tipper_aggregates = [], creator_aggregates = [], subscriptions = [],
     time_locks = [], milestones = [], matching_programs = [], tip_records = [],
     locked_tips = [\<lparr>lt_tip_id = 1, lt_sender = ''s'', lt_creator = ''c'', lt_token = ''t'', lt_amount = 100,
                      unlock_timestamp = 5\<rparr>],
     user_roles = []\<rparr>"

lemmas text_eval =
  trim_def trim_quotes_def trim_while_def is_whitespace_def parse_i128_def parse_u32_def parse_u64_def
  parse_unsigned_def parse_digits_def digits_value_def is_digit_def parse_bool_def in_i128_def I128_MAX_def
  I128_MIN_def split_key_def value_or_def

lemmas agree_eval =
  target_agrees_def instance_agrees_def amounts_agree_def history_agrees_def aggregate_agrees_def
  records_agree_def uniform_snapshot_def

lemma echo_agrees: "target_agrees (echo_cmd ''7'') rpc_sample no_json ''T'' () (uniform_snapshot 7 7 ''7'' 7)"
proof -
  have read: "invoke_read (echo_cmd ''7'') rpc_sample ''T'' fn args () = (Inr ''7'', ())" for fn args
    by (simp add: invoke_read_def retry_loop.simps echo_cmd_def text_eval)
  show ?thesis
    by (simp add: agree_eval read_defs read text_eval no_json_def)
qed

theorem verification_passes_iff_target_agrees_witness:
  "\<exists>r. verify_migration (echo_cmd ''7'') rpc_sample no_json ''now'' (uniform_snapshot 7 7 ''7'' 7) ''T'' () = (Inr r, ()) \<and>
     passed r \<and> records_checked r = 10 \<and>
     fst (get_creator_balance (echo_cmd ''7'') rpc_sample ''T'' ''c'' ''t'' ()) = Some 7"
proof -
  have "steady (echo_cmd ''7'') rpc_sample ''T'' ()"
    by (rule steadyI) (simp add: echo_cmd_def)
  then obtain r where "verify_migration (echo_cmd ''7'') rpc_sample no_json ''now'' (uniform_snapshot 7 7 ''7'' 7) ''T'' () = (Inr r, ())"
    "passed r" "records_checked r = records_of (uniform_snapshot 7 7 ''7'' 7)"
    "\<And>k v c t. (k, v) \<in> set (creator_balances (uniform_snapshot 7 7 ''7'' 7)) \<Longrightarrow> split_key k = Some (c, t) \<Longrightarrow> v \<noteq> 0 \<Longrightarrow>
       fst (get_creator_balance (echo_cmd ''7'') rpc_sample ''T'' c t ()) = Some v"
    using verification_passes_iff_target_agrees [of "echo_cmd ''7''" rpc_sample "''T''" "()" no_json "''now''"
        "uniform_snapshot 7 7 ''7'' 7"] echo_agrees by blast
  then show ?thesis
    by (intro exI [of _ r]) (simp add: uniform_snapshot_def records_of_def keyed_def split_key_def)
qed

text \<open>
  What a verification overlooks: the locked tips of the snapshot, the current fee rate and the
  pause reason can be anything without the report changing, and failed reads count as zeros: a
  target that cannot be reached passes the verification of a snapshot that expects zeros,
  although the snapshot holds a locked tip.
\<close>

theorem verification_overlooks_locked_tips:
  "verify_migration st cl j now (sn\<lparr>locked_tips := l, current_fee_bps := f, pause_reason := p\<rparr>) target w =
     verify_migration st cl j now sn target w \<and>
   (\<exists>r. verify_migration offline_cmd rpc_sample no_json now (uniform_snapshot 0 0 [] 0) target () = (Inr r, ()) \<and>
      passed r \<and> locked_tips (uniform_snapshot 0 0 [] 0) \<noteq> [])"
proof
  show "verify_migration st cl j now (sn\<lparr>locked_tips := l, current_fee_bps := f, pause_reason := p\<rparr>) target w =
     verify_migration st cl j now sn target w"
    by (simp add: verify_migration_def verify_instance_def verify_tokens_def verify_balances_def
        verify_totals_def verify_history_def verify_aggregates_def verify_subscriptions_def
        verify_time_locks_def verify_milestones_def verify_matching_programs_def verify_tip_records_def
        verify_user_roles_def)
  have read: "invoke_read offline_cmd rpc_sample target fn args () =
      (Inl (''RPC call '' @ target @ ''::'' @ fn @ '' error: no route to host''), ())" for fn args
    by (simp add: invoke_read_def retry_loop.simps offline_cmd_def rpc_sample_def)
  show "\<exists>r. verify_migration offline_cmd rpc_sample no_json now (uniform_snapshot 0 0 [] 0) target () = (Inr r, ()) \<and>
      passed r \<and> locked_tips (uniform_snapshot 0 0 [] 0) \<noteq> []"
    by (simp add: verify_migration_def verify_instance_def verify_tokens_def verify_balances_def
        verify_totals_def verify_history_def verify_aggregates_def verify_subscriptions_def
        verify_time_locks_def verify_milestones_def verify_matching_programs_def verify_tip_records_def
        verify_user_roles_def check_instance_string_def check_instance_u32_def check_instance_u64_def
        check_instance_bool_def check_amount_def checked_one_def uniform_snapshot_def read_defs read
        value_or_def split_key_def)
qed

end
