(* ===== verification/Migration_Export.thy ===== *)
theory Migration_Export
  imports Migration_Verify "HOL-Library.AList"
begin

text \<open>
  The export phase of the migration toolkit, \<^verbatim>\<open>src/scripts/migrate/export_state.rs\<close>: the whole state of a
  contract is read into a snapshot, sealed with a checksum and written to a file. An operation is a
  function from the world, that is the state of the chain as the \<^verbatim>\<open>stellar\<close> command sees it and the
  state of the file system, to its result and the new world; a failure is an error text or a panic.
  The file system calls are the fields of a record. A hash map is an association list in the order of its
  iteration; the order in which a hash set of creators is iterated is the argument \<open>ho\<close>. The
  wall clock is the argument \<open>clock\<close>. Progress output is left out, except for the division by the
  batch size that it needs, which panics at size zero.
\<close>

section \<open>Operations on the world\<close>

datatype mig_fault = Failed string | Panicked

record ('c, 'f) world =
  chain :: 'c
  disk :: 'f

type_synonym ('c, 'f, 'a) mig = "('c, 'f) world \<Rightarrow> (mig_fault + 'a) \<times> ('c, 'f) world"

definition mret :: "'a \<Rightarrow> ('c, 'f, 'a) mig" where
  "mret a w = (Inr a, w)"

definition mfail :: "mig_fault \<Rightarrow> ('c, 'f, 'a) mig" where
  "mfail e w = (Inl e, w)"

definition mbind :: "('c, 'f, 'a) mig \<Rightarrow> ('a \<Rightarrow> ('c, 'f, 'b) mig) \<Rightarrow> ('c, 'f, 'b) mig" where
  "mbind m k w = (case m w of (Inl e, w') \<Rightarrow> (Inl e, w') | (Inr a, w') \<Rightarrow> k a w')"

text \<open>A call of the client, whose error is passed on, and one that cannot fail.\<close>

definition on_chain :: "('c \<Rightarrow> (string + 'a) \<times> 'c) \<Rightarrow> ('c, 'f, 'a) mig" where
  "on_chain m w = (case m (chain w) of (r, c) \<Rightarrow>
     (case r of Inl e \<Rightarrow> Inl (Failed e) | Inr a \<Rightarrow> Inr a, w\<lparr>chain := c\<rparr>))"

definition on_chain_total :: "('c \<Rightarrow> 'a \<times> 'c) \<Rightarrow> ('c, 'f, 'a) mig" where
  "on_chain_total m w = (case m (chain w) of (a, c) \<Rightarrow> (Inr a, w\<lparr>chain := c\<rparr>))"

text \<open>A call of the file system, with the words put before its error.\<close>

definition on_disk :: "string \<Rightarrow> ('f \<Rightarrow> (string + 'a) \<times> 'f) \<Rightarrow> ('c, 'f, 'a) mig" where
  "on_disk what m w = (case m (disk w) of (r, f) \<Rightarrow>
     (case r of Inl e \<Rightarrow> Inl (Failed (what @ e)) | Inr a \<Rightarrow> Inr a, w\<lparr>disk := f\<rparr>))"

definition from_result :: "string + 'a \<Rightarrow> ('c, 'f, 'a) mig" where
  "from_result r = (case r of Inl e \<Rightarrow> mfail (Failed e) | Inr a \<Rightarrow> mret a)"

fun mfold :: "('x \<Rightarrow> 's \<Rightarrow> ('c, 'f, 's) mig) \<Rightarrow> 'x list \<Rightarrow> 's \<Rightarrow> ('c, 'f, 's) mig" where
  "mfold f [] s = mret s"
| "mfold f (x # xs) s = mbind (f x s) (mfold f xs)"

text \<open>The remainder \<^verbatim>\<open>n % batch\<close> that decides whether progress is printed.\<close>

definition progress :: "nat \<Rightarrow> ('c, 'f, unit) mig" where
  "progress batch = (if batch = 0 then mfail Panicked else mret ())"

record 'f fs =
  create_dir_all :: "string \<Rightarrow> 'f \<Rightarrow> (string + unit) \<times> 'f"
  read_to_string :: "string \<Rightarrow> 'f \<Rightarrow> (string + string) \<times> 'f"
  write_file :: "string \<Rightarrow> string \<Rightarrow> 'f \<Rightarrow> (string + unit) \<times> 'f"
  file_exists :: "string \<Rightarrow> 'f \<Rightarrow> bool \<times> 'f"
  join_path :: "string \<Rightarrow> string \<Rightarrow> string"
  parent_dir :: "string \<Rightarrow> string option"

section \<open>Configuration\<close>

record migration_section =
  label :: string
  cfg_source :: string
  cfg_target :: string
  network :: string
  cfg_rpc_url :: string
  network_passphrase :: string
  dry_run :: bool
  cfg_max_retries :: u32
  cfg_retry_delay_ms :: u64
  snapshot_dir :: string
  backup_filename :: string
  export_filename :: string
  transformed_filename :: string
  history_file :: string
  source_version :: u32
  target_version :: u32
  progress_batch_size :: nat
  abort_on_verify_failure :: bool

definition client_of :: "migration_section \<Rightarrow> rpc_client" where
  "client_of cfg = \<lparr>rpc_url = cfg_rpc_url cfg, max_retries = cfg_max_retries cfg, retry_delay_ms = cfg_retry_delay_ms cfg\<rparr>"

section \<open>Readers of the collections\<close>

text \<open>\<^verbatim>\<open>splitn(3, ':')\<close> with three parts.\<close>

definition split_key3 :: "string \<Rightarrow> (string \<times> string \<times> string) option" where
  "split_key3 k = (case split_key k of None \<Rightarrow> None | Some (a, r) \<Rightarrow>
     (case split_key r of None \<Rightarrow> None | Some (b, c) \<Rightarrow> Some (a, b, c)))"

definition insert_amount :: "nat \<Rightarrow> string \<times> string \<Rightarrow> (string \<times> int) list \<Rightarrow> ('c, 'f, (string \<times> int) list) mig" where
  "insert_amount batch = (\<lambda>(key, value) m. mbind (progress batch) (\<lambda>_. mret
     (case split_key3 key of None \<Rightarrow> m
      | Some (_, a, b) \<Rightarrow> AList.update (a @ '':'' @ b) (unwrap_or (parse_i128 value) 0) m)))"

definition export_creator_financials where
  "export_creator_financials st cl j batch cid =
     mbind (on_chain (scan_persistent_prefix st cl j cid ''CreatorBalance'')) (\<lambda>raw.
     mbind (mfold (insert_amount batch) raw []) (\<lambda>balances.
     mbind (on_chain (scan_persistent_prefix st cl j cid ''CreatorTotal'')) (\<lambda>raw_totals.
     mbind (mfold (insert_amount batch) raw_totals []) (\<lambda>totals.
     mret (balances, totals)))))"

definition creators_of :: "(string list \<Rightarrow> string list) \<Rightarrow> (string \<times> int) list \<Rightarrow> string list" where
  "creators_of ho balances = ho (remdups (map (\<lambda>(k, _). takeWhile (\<lambda>c. c \<noteq> CHR '':'') k) balances))"

text \<open>
  The loops over \<^verbatim>\<open>0..count\<close> that read the records with these numbers and keep those present.
\<close>

definition read_numbered ::
  "(nat \<Rightarrow> 'c \<Rightarrow> (string + 'a option) \<times> 'c) \<Rightarrow> nat \<Rightarrow> u64 \<Rightarrow> ('c, 'f, (nat \<times> 'a) list) mig" where
  "read_numbered get batch count =
     mfold (\<lambda>i acc. mbind (on_chain (get i)) (\<lambda>r. mbind (progress batch) (\<lambda>_.
       mret (case r of None \<Rightarrow> acc | Some a \<Rightarrow> acc @ [(i, a)])))) [0..<unat count] []"

definition export_tip_history where
  "export_tip_history st cl j batch ho cid balances =
     mfold (\<lambda>creator history.
       mbind (on_chain_total (get_persistent_u64 st cl cid (''TipCount:'' @ creator))) (\<lambda>count.
       mbind (read_numbered (\<lambda>i. get_persistent_tip_metadata st cl j cid (''TipHistory:'' @ creator @ '':'' @ show_nat i))
          batch (unwrap_or count 0)) (\<lambda>tips.
       mret (if tips = [] then history else AList.update creator (map snd tips) history))))
     (creators_of ho balances) []"

definition read_aggregates where
  "read_aggregates st cl j batch cid kind addrs =
     mfold (\<lambda>addr agg.
       mbind (on_chain (get_persistent_leaderboard_entry st cl j cid (kind @ '':'' @ addr @ '':0''))) (\<lambda>r.
       mbind (progress batch) (\<lambda>_.
       mret (case r of None \<Rightarrow> agg | Some entry \<Rightarrow> AList.update (addr @ '':0'') entry agg)))) addrs []"

definition export_leaderboard_aggregates where
  "export_leaderboard_aggregates st cl j batch cid =
     mbind (on_chain_total (get_persistent_address_vec st cl j cid ''TipperParticipants:0'')) (\<lambda>tippers.
     mbind (on_chain_total (get_persistent_address_vec st cl j cid ''CreatorParticipants:0'')) (\<lambda>creators.
     mbind (read_aggregates st cl j batch cid ''TipperAggregate'' (unwrap_or tippers [])) (\<lambda>tipper_agg.
     mbind (read_aggregates st cl j batch cid ''CreatorAggregate'' (unwrap_or creators [])) (\<lambda>creator_agg.
     mret (tipper_agg, creator_agg)))))"

definition export_subscriptions where
  "export_subscriptions st cl j batch cid =
     mbind (on_chain (scan_persistent_prefix st cl j cid ''Subscription'')) (\<lambda>raw.
     mfold (\<lambda>(key, _) subs.
       mbind (case split_key3 key of None \<Rightarrow> mret subs
              | Some (_, a, b) \<Rightarrow>
                  mbind (on_chain (get_persistent_subscription st cl j cid key)) (\<lambda>r.
                  mret (case r of None \<Rightarrow> subs | Some sub \<Rightarrow> AList.update (a @ '':'' @ b) sub subs))) (\<lambda>subs.
       mbind (progress batch) (\<lambda>_. mret subs))) raw [])"

definition export_time_locks where
  "export_time_locks st cl j batch cid =
     mbind (on_chain_total (get_persistent_u64 st cl cid ''NextLockId'')) (\<lambda>next.
     mbind (read_numbered (\<lambda>i. get_persistent_time_lock st cl j cid (''TimeLock:'' @ show_nat i) (of_nat i))
        batch (unwrap_or next 0)) (\<lambda>locks.
     mret (map snd locks)))"

definition export_milestones where
  "export_milestones st cl j batch ho cid balances =
     mfold (\<lambda>creator ms.
       mbind (on_chain_total (get_persistent_u64 st cl cid (''MilestoneCounter:'' @ creator))) (\<lambda>count.
       mbind (read_numbered (\<lambda>i. get_persistent_milestone st cl j cid (''Milestone:'' @ creator @ '':'' @ show_nat i))
          batch (unwrap_or count 0)) (\<lambda>found.
       mret (fold (\<lambda>(i, m). AList.update (creator @ '':'' @ show_nat i) m) found ms))))
     (creators_of ho balances) []"

definition export_matching_programs where
  "export_matching_programs st cl j batch cid counter =
     mbind (read_numbered (\<lambda>i. get_persistent_matching_program st cl j cid (''MatchingProgram:'' @ show_nat i))
        batch counter) (\<lambda>ps. mret (map snd ps))"

definition export_tip_records where
  "export_tip_records st cl j batch cid counter =
     mbind (read_numbered (\<lambda>i. get_persistent_tip_record st cl j cid (''TipRecord:'' @ show_nat i))
        batch counter) (\<lambda>rs. mret (map snd rs))"

definition export_locked_tips where
  "export_locked_tips st cl j batch ho cid balances =
     mfold (\<lambda>creator locked.
       mbind (on_chain_total (get_persistent_u64 st cl cid (''LockedTipCounter:'' @ creator))) (\<lambda>count.
       mbind (read_numbered (\<lambda>i. get_persistent_locked_tip st cl j cid (''LockedTip:'' @ creator @ '':'' @ show_nat i)
           (of_nat i)) batch (unwrap_or count 0)) (\<lambda>found.
       mret (locked @ map snd found))))
     (creators_of ho balances) []"

definition export_user_roles where
  "export_user_roles st cl j cid =
     mbind (on_chain (scan_persistent_prefix st cl j cid ''UserRole'')) (\<lambda>raw.
     mret (fold (\<lambda>(key, value) roles. case split_key key of None \<Rightarrow> roles
             | Some (_, addr) \<Rightarrow> AList.update addr value roles) raw []))"

section \<open>Export\<close>

text \<open>
  What the toolkit takes from outside: the command, the environment variables, the JSON package, the
  digest, the printed form of a snapshot and its reading, the file system and the hash order.
\<close>

record ('c, 'f, 'j) outside =
  o_stellar :: "'c stellar_cmd"
  o_env_var :: "string \<Rightarrow> string option"
  o_serde :: "'j serde"
  o_to_json :: "state_snapshot \<Rightarrow> string + string"
  o_to_json_pretty :: "state_snapshot \<Rightarrow> string + string"
  o_from_json :: "string \<Rightarrow> string + state_snapshot"
  o_report_json :: "verification_report \<Rightarrow> string + string"
  o_sha256_hex :: "string \<Rightarrow> string"
  o_fs :: "'f fs"
  o_hash_order :: "string list \<Rightarrow> string list"
  o_now :: string
  o_clock :: u64

definition with_prefix :: "string \<Rightarrow> string + 'a \<Rightarrow> string + 'a" where
  "with_prefix what r = (case r of Inl e \<Rightarrow> Inl (what @ e) | Inr a \<Rightarrow> Inr a)"

definition read_collections ::
  "('c, 'f, 'j) outside \<Rightarrow> migration_section \<Rightarrow> state_snapshot \<Rightarrow> ('c, 'f, state_snapshot) mig" where
  "read_collections ou cfg sn =
     (let st = o_stellar ou; cl = client_of cfg; j = o_serde ou; cid = cfg_source cfg;
          batch = progress_batch_size cfg; ho = o_hash_order ou in
      mbind (export_creator_financials st cl j batch cid) (\<lambda>(balances, totals).
      mbind (export_tip_history st cl j batch ho cid balances) (\<lambda>history.
      mbind (export_leaderboard_aggregates st cl j batch cid) (\<lambda>(tippers, creators).
      mbind (export_subscriptions st cl j batch cid) (\<lambda>subs.
      mbind (export_time_locks st cl j batch cid) (\<lambda>locks.
      mbind (export_milestones st cl j batch ho cid balances) (\<lambda>ms.
      mbind (export_matching_programs st cl j batch cid (matching_counter sn)) (\<lambda>progs.
      mbind (export_tip_records st cl j batch cid (tip_counter sn)) (\<lambda>recs.
      mbind (export_locked_tips st cl j batch ho cid balances) (\<lambda>locked.
      mbind (export_user_roles st cl j cid) (\<lambda>roles.
      mret (sn\<lparr>creator_balances := balances, creator_totals := totals, tip_history := history,
        tipper_aggregates := tippers, creator_aggregates := creators, subscriptions := subs,
        time_locks := locks, milestones := ms, matching_programs := progs, tip_records := recs,
        locked_tips := locked, user_roles := roles\<rparr>))))))))))))"

definition write_snapshot :: "('c, 'f, 'j) outside \<Rightarrow> migration_section \<Rightarrow> state_snapshot \<Rightarrow> ('c, 'f, unit) mig" where
  "write_snapshot ou cfg sn =
     mbind (on_disk ''Failed to create snapshot dir: '' (create_dir_all (o_fs ou) (snapshot_dir cfg))) (\<lambda>_.
     mbind (from_result (with_prefix ''Serialisation error: '' (o_to_json_pretty ou sn))) (\<lambda>json.
     on_disk ''Failed to write snapshot: ''
       (write_file (o_fs ou) (join_path (o_fs ou) (snapshot_dir cfg) (export_filename cfg)) json)))"

definition export_state :: "('c, 'f, 'j) outside \<Rightarrow> migration_section \<Rightarrow> ('c, 'f, state_snapshot) mig" where
  "export_state ou cfg =
     (let st = o_stellar ou; cl = client_of cfg; cid = cfg_source cfg in
      mbind (on_chain (get_instance_string st cl cid ''Admin'')) (\<lambda>adm.
      mbind (on_chain_total (get_instance_u32 st cl cid ''FeeBasisPoints'')) (\<lambda>fee.
      mbind (on_chain_total (get_instance_u64 st cl cid ''RefundWindow'')) (\<lambda>refund.
      mbind (on_chain_total (get_instance_bool st cl cid ''Paused'')) (\<lambda>pause.
      mbind (on_chain_total (get_instance_string_opt st cl cid ''PauseReason'')) (\<lambda>reason.
      mbind (on_chain_total (get_instance_u64 st cl cid ''TipCounter'')) (\<lambda>tips.
      mbind (on_chain_total (get_instance_u64 st cl cid ''MatchingCounter'')) (\<lambda>matches.
      mbind (on_chain_total (get_instance_u32 st cl cid ''CurrentFeeBps'')) (\<lambda>current_fee.
      mbind (on_chain_total (get_instance_u32 st cl cid ''ContractVersion'')) (\<lambda>version.
      mbind (on_chain (get_whitelisted_tokens st cl (o_serde ou) cid)) (\<lambda>tokens.
      mbind (read_collections ou cfg
        \<lparr>contract_id = cid, schema_version = unwrap_or version 0, exported_at = o_clock ou, ledger_sequence = 0,
         checksum = [], sn_admin = adm, fee_basis_points = unwrap_or fee 0,
         refund_window_seconds = unwrap_or refund 0, paused = unwrap_or pause False, pause_reason = reason,
         tip_counter = unwrap_or tips 0, matching_counter = unwrap_or matches 0,
         current_fee_bps = unwrap_or current_fee 100, whitelisted_tokens = tokens, creator_balances = [],
         creator_totals = [], tip_history = [], tipper_aggregates = [], creator_aggregates = [],
         subscriptions = [], time_locks = [], milestones = [], matching_programs = [], tip_records = [],
         locked_tips = [], user_roles = []\<rparr>) (\<lambda>sn.
      mbind (on_chain (get_latest_ledger_sequence st cl)) (\<lambda>sequence.
      let sn1 = sn\<lparr>ledger_sequence := sequence\<rparr> in
      mbind (from_result (compute_checksum (o_to_json ou) (o_sha256_hex ou) sn1)) (\<lambda>digest.
      let sn2 = sn1\<lparr>checksum := digest\<rparr> in
      mbind (if dry_run cfg then mret () else write_snapshot ou cfg sn2) (\<lambda>_.
      mret sn2)))))))))))))))"

end
