(* ===== verification/Migration_Import.thy ===== *)
theory Migration_Import
  imports Migration_Export
begin

text \<open>
  The import phase of the migration toolkit, \<^verbatim>\<open>src/scripts/migrate/import_state.rs\<close>, and the log of
  its runs, \<^verbatim>\<open>src/scripts/migrate/history.rs\<close>: the target is backed up and paused, every record of the
  snapshot is written, the result is verified, and the target is unpaused; if the writing or the
  verification fails, the backup is written back.
\<close>

section \<open>History\<close>

datatype migration_status = Success | RunFailed | RolledBack | DryRun

record migration_history_entry =
  started_at :: string
  finished_at :: string
  he_label :: string
  he_source :: string
  he_target :: string
  he_network :: string
  he_dry_run :: bool
  status :: migration_status
  records_exported :: nat
  records_imported :: nat
  he_error :: "string option"
  he_backup_path :: "string option"

text \<open>The JSON package on history files; a file that does not decode reads as an empty history.\<close>

record history_json =
  hist_decode :: "string \<Rightarrow> string + migration_history_entry list"
  hist_encode :: "migration_history_entry list \<Rightarrow> string + string"

definition append_history_entry ::
  "'f fs \<Rightarrow> history_json \<Rightarrow> string \<Rightarrow> migration_history_entry \<Rightarrow> ('c, 'f, unit) mig" where
  "append_history_entry fs hj path entry =
     mbind (on_disk [] (\<lambda>f. apfst Inr (file_exists fs path f))) (\<lambda>present.
     mbind (if present
            then mbind (on_disk (''Cannot read history file '' @ path @ '': '') (read_to_string fs path)) (\<lambda>json.
                   mret (case hist_decode hj json of Inl _ \<Rightarrow> [] | Inr runs \<Rightarrow> runs))
            else mret []) (\<lambda>runs.
     mbind (case parent_dir fs path of None \<Rightarrow> mret ()
            | Some d \<Rightarrow> on_disk ''Cannot create history dir: '' (create_dir_all fs d)) (\<lambda>_.
     mbind (from_result (with_prefix ''History serialisation error: '' (hist_encode hj (runs @ [entry])))) (\<lambda>json.
     on_disk (''Cannot write history file '' @ path @ '': '') (write_file fs path json)))))"

section \<open>Writing a snapshot\<close>

text \<open>Every loop counts the records written; some also print progress.\<close>

definition counted :: "('c \<Rightarrow> (string + unit) \<times> 'c) \<Rightarrow> nat \<Rightarrow> ('c, 'f, nat) mig" where
  "counted m n = mbind (on_chain m) (\<lambda>_. mret (n + 1))"

definition counted_progress :: "nat \<Rightarrow> ('c \<Rightarrow> (string + unit) \<times> 'c) \<Rightarrow> nat \<Rightarrow> ('c, 'f, nat) mig" where
  "counted_progress batch m n = mbind (counted m n) (\<lambda>n. mbind (progress batch) (\<lambda>_. mret n))"

definition with_key2 :: "string \<Rightarrow> (string \<Rightarrow> string \<Rightarrow> nat \<Rightarrow> ('c, 'f, nat) mig) \<Rightarrow> nat \<Rightarrow> ('c, 'f, nat) mig" where
  "with_key2 key k n = (case split_key key of None \<Rightarrow> mret n | Some (a, b) \<Rightarrow> k a b n)"

definition import_instance where
  "import_instance st ev cl target sn = mfold (\<lambda>(key, value) _. on_chain (set_instance_value st ev cl target key value))
     [(''Admin'', sn_admin sn), (''FeeBasisPoints'', show_u32 (fee_basis_points sn)),
      (''RefundWindow'', show_u64 (refund_window_seconds sn)), (''TipCounter'', show_u64 (tip_counter sn)),
      (''MatchingCounter'', show_u64 (matching_counter sn)), (''CurrentFeeBps'', show_u32 (current_fee_bps sn)),
      (''ContractVersion'', show_u32 (schema_version sn))] ()"

text \<open>One more than the largest number of a time lock, with the wrap-around of \<^verbatim>\<open>u64\<close>.\<close>

definition next_lock_id :: "time_lock list \<Rightarrow> u64" where
  "next_lock_id locks = fold (\<lambda>l m. if lock_id l \<ge> m then lock_id l + 1 else m) locks 0"

definition do_import ::
  "('c, 'f, 'j) outside \<Rightarrow> migration_section \<Rightarrow> state_snapshot \<Rightarrow> string \<Rightarrow> ('c, 'f, nat) mig" where
  "do_import ou cfg sn target =
     (let st = o_stellar ou; ev = o_env_var ou; cl = client_of cfg; j = o_serde ou; batch = progress_batch_size cfg in
      mbind (import_instance st ev cl target sn) (\<lambda>_.
      mbind (mfold (\<lambda>token. counted (whitelist_token st ev cl target token)) (whitelisted_tokens sn) 7) (\<lambda>n.
      mbind (mfold (\<lambda>(key, v). with_key2 key (\<lambda>a b. counted_progress batch (set_creator_balance st ev cl target a b v)))
        (creator_balances sn) n) (\<lambda>n.
      mbind (mfold (\<lambda>(key, v). with_key2 key (\<lambda>a b. counted_progress batch (set_creator_total st ev cl target a b v)))
        (creator_totals sn) n) (\<lambda>n.
      mbind (mfold (\<lambda>(creator, tips) n.
          mbind (on_chain (set_tip_count st ev cl target creator (of_nat (length tips)))) (\<lambda>_.
          mfold (\<lambda>(i, meta). counted_progress batch (set_tip_history_entry st ev cl j target creator (of_nat i) meta))
            (enumerate 0 tips) n)) (tip_history sn) n) (\<lambda>n.
      mbind (mfold (\<lambda>(key, v). with_key2 key (\<lambda>a b.
          counted (set_tipper_aggregate st ev cl j target a (unwrap_or (parse_u32 b) 0) v))) (tipper_aggregates sn) n) (\<lambda>n.
      mbind (mfold (\<lambda>(key, v). with_key2 key (\<lambda>a b.
          counted (set_creator_aggregate st ev cl j target a (unwrap_or (parse_u32 b) 0) v))) (creator_aggregates sn) n) (\<lambda>n.
      mbind (mfold (\<lambda>(_, sub). counted_progress batch (set_subscription st ev cl j target sub)) (subscriptions sn) n) (\<lambda>n.
      mbind (mfold (\<lambda>lock. counted (set_time_lock st ev cl j target lock)) (time_locks sn) n) (\<lambda>n.
      mbind (if time_locks sn = [] then mret ()
             else on_chain (set_instance_value st ev cl target ''NextLockId'' (show_u64 (next_lock_id (time_locks sn))))) (\<lambda>_.
      mbind (mfold (\<lambda>(key, ms). with_key2 key (\<lambda>a _. counted (set_milestone st ev cl j target a ms))) (milestones sn) n) (\<lambda>n.
      mbind (mfold (\<lambda>prog. counted (set_matching_program st ev cl j target prog)) (matching_programs sn) n) (\<lambda>n.
      mbind (mfold (\<lambda>rec. counted_progress batch (set_tip_record st ev cl j target rec)) (tip_records sn) n) (\<lambda>n.
      mbind (mfold (\<lambda>lt. counted (set_locked_tip st ev cl j target lt)) (locked_tips sn) n) (\<lambda>n.
      mfold (\<lambda>(addr, role). counted (set_user_role st ev cl target addr role)) (user_roles sn) n)))))))))))))))"

section \<open>Import, rollback and backup\<close>

definition verify_sum :: "('c, 'f, 'j) outside \<Rightarrow> state_snapshot \<Rightarrow> ('c, 'f, unit) mig" where
  "verify_sum ou sn = from_result (verify_checksum (o_to_json ou) (o_sha256_hex ou) sn)"

text \<open>A call of \<open>pause\<close> or \<open>unpause\<close>, with the words put before its error.\<close>

definition admin_call ::
  "('c, 'f, 'j) outside \<Rightarrow> migration_section \<Rightarrow> string \<Rightarrow> string \<Rightarrow> string \<Rightarrow> (string \<times> string) list \<Rightarrow> ('c, 'f, unit) mig" where
  "admin_call ou cfg what target fn args =
     on_chain (\<lambda>c. apfst (\<lambda>r. case r of Inl e \<Rightarrow> Inl (what @ e) | Inr _ \<Rightarrow> Inr ())
       (invoke_contract (o_stellar ou) (o_env_var ou) (client_of cfg) target fn args c))"

definition create_backup :: "('c, 'f, 'j) outside \<Rightarrow> migration_section \<Rightarrow> string \<Rightarrow> ('c, 'f, string) mig" where
  "create_backup ou cfg target =
     mbind (on_disk ''Failed to create snapshot dir: '' (create_dir_all (o_fs ou) (snapshot_dir cfg))) (\<lambda>_.
     mbind (export_state ou (cfg\<lparr>dry_run := False, cfg_source := target, export_filename := backup_filename cfg\<rparr>)) (\<lambda>_.
     mret (join_path (o_fs ou) (snapshot_dir cfg) (backup_filename cfg))))"

definition rollback :: "('c, 'f, 'j) outside \<Rightarrow> migration_section \<Rightarrow> string \<Rightarrow> string \<Rightarrow> ('c, 'f, unit) mig" where
  "rollback ou cfg backup_path target =
     mbind (on_disk (''Cannot read backup '' @ backup_path @ '': '') (read_to_string (o_fs ou) backup_path)) (\<lambda>json.
     mbind (from_result (with_prefix ''Backup parse error: '' (o_from_json ou json))) (\<lambda>backup.
     mbind (verify_sum ou backup) (\<lambda>_.
     mbind (do_import ou cfg backup target) (\<lambda>_.
     admin_call ou cfg ''Failed to unpause after rollback: '' target ''unpause'' [(''admin'', cfg_source cfg)]))))"

text \<open>A failure to write the history is only reported on the terminal.\<close>

definition record_history where
  "record_history ou hj cfg n_exported n_imported st err backup w =
     (Inr (), snd (append_history_entry (o_fs ou) hj (history_file cfg)
        \<lparr>started_at = o_now ou, finished_at = o_now ou, he_label = label cfg, he_source = cfg_source cfg,
         he_target = cfg_target cfg, he_network = network cfg, he_dry_run = dry_run cfg, status = st,
         records_exported = n_exported, records_imported = n_imported, he_error = err, he_backup_path = backup\<rparr> w))"

text \<open>
  The automatic rollback: it runs, the run is recorded as rolled back whether or not it succeeded, and
  its own error is reported before that of the import.
\<close>

definition roll_back_and_fail where
  "roll_back_and_fail ou hj cfg sn n_imported backup_path err msg =
     (\<lambda>w. case rollback ou cfg backup_path (cfg_target cfg) w of (r, w1) \<Rightarrow>
        if r = Inl Panicked then (Inl Panicked, w1)
        else mbind (record_history ou hj cfg (total_records sn) n_imported RolledBack (Some err) (Some backup_path)) (\<lambda>_.
             case r of Inl e \<Rightarrow> mfail e | Inr _ \<Rightarrow> mfail (Failed msg)) w1)"

definition finish_import where
  "finish_import ou hj cfg sn imported backup_path report =
     mbind (admin_call ou cfg ''Failed to unpause target contract: '' (cfg_target cfg) ''unpause''
       [(''admin'', cfg_source cfg)]) (\<lambda>_.
     mbind (from_result (with_prefix ''Report serialisation error: '' (o_report_json ou report))) (\<lambda>json.
     mbind (on_disk ''Failed to write report: ''
       (write_file (o_fs ou) (snapshot_dir cfg @ ''/verification-report.json'') json)) (\<lambda>_.
     mbind (record_history ou hj cfg (total_records sn) imported Success None (Some backup_path)) (\<lambda>_.
     mret imported))))"

definition import_state ::
  "('c, 'f, 'j) outside \<Rightarrow> history_json \<Rightarrow> migration_section \<Rightarrow> state_snapshot \<Rightarrow> ('c, 'f, nat) mig" where
  "import_state ou hj cfg sn =
     mbind (verify_sum ou sn) (\<lambda>_.
     if dry_run cfg
     then mbind (record_history ou hj cfg (total_records sn) 0 DryRun None None) (\<lambda>_. mret 0)
     else
       mbind (create_backup ou cfg (cfg_target cfg)) (\<lambda>backup_path.
       mbind (admin_call ou cfg ''Failed to pause target contract: '' (cfg_target cfg) ''pause''
         [(''admin'', cfg_source cfg), (''reason'', ''state-migration-in-progress'')]) (\<lambda>_.
       (\<lambda>w. case do_import ou cfg sn (cfg_target cfg) w of
           (Inl Panicked, w1) \<Rightarrow> (Inl Panicked, w1)
         | (Inl (Failed e), w1) \<Rightarrow>
             roll_back_and_fail ou hj cfg sn 0 backup_path e (''Import failed and was rolled back: '' @ e) w1
         | (Inr imported, w1) \<Rightarrow>
             mbind (on_chain (verify_migration (o_stellar ou) (client_of cfg) (o_serde ou) (o_now ou) sn (cfg_target cfg))) (\<lambda>report.
             if \<not> is_clean report
             then let err = ''Verification failed with '' @ show_nat (length (findings report)) @ '' finding(s). Rolling back.''
                  in roll_back_and_fail ou hj cfg sn imported backup_path err err
             else finish_import ou hj cfg sn imported backup_path report) w1))))"

section \<open>What an operation keeps of the chain\<close>

definition keeps :: "('c \<Rightarrow> bool) \<Rightarrow> ('c, 'f, 'a) mig \<Rightarrow> bool" where
  "keeps P m \<longleftrightarrow> (\<forall>w. P (chain w) \<longrightarrow> P (chain (snd (m w))))"

named_theorems keeps_intros \<open>operations that keep a property of the chain\<close>

lemma keeps_basic [keeps_intros]:
  "keeps P (mret a)" "keeps P (mfail e)" "keeps P (from_result r)" "keeps P (progress batch)" "keeps P (on_disk what d)"
  by (auto simp: keeps_def mret_def mfail_def from_result_def progress_def on_disk_def split: prod.splits sum.splits)

lemma keeps_mbind [keeps_intros]: "keeps P m \<Longrightarrow> (\<And>a. keeps P (k a)) \<Longrightarrow> keeps P (mbind m k)"
  by (simp add: keeps_def mbind_def split: prod.splits sum.splits) (metis snd_conv)

lemma keeps_mfold [keeps_intros]: "(\<And>x s. keeps P (f x s)) \<Longrightarrow> keeps P (mfold f xs s)"
  by (induction xs arbitrary: s) (auto intro: keeps_intros)

lemma keeps_on_chain: "(\<And>c. P c \<Longrightarrow> P (snd (m c))) \<Longrightarrow> keeps P (on_chain m)"
  by (simp add: keeps_def on_chain_def split_beta)

lemma keeps_case_prod [keeps_intros]: "(\<And>a b. keeps P (f a b s)) \<Longrightarrow> keeps P ((case p of (a, b) \<Rightarrow> f a b) s)"
  by (cases p) simp

lemma keeps_disk_only:
  assumes "\<And>c. keeps (\<lambda>x. x = c) m"
  shows "chain (snd (m w)) = chain w"
  using assms [of "chain w"] by (simp add: keeps_def)

section \<open>Theorems\<close>

lemma history_leaves_the_chain [simp]: "chain (snd (append_history_entry fs hj path entry w)) = chain w"
proof -
  have "keeps Q (append_history_entry fs hj path entry)" for Q :: "'a \<Rightarrow> bool"
    unfolding append_history_entry_def
    by (intro keeps_intros) (auto intro: keeps_intros split: option.splits)
  then show ?thesis by (rule keeps_disk_only)
qed

text \<open>
  A dry run of the import writes nothing to the chain: whatever the snapshot, the state of the chain
  is as before, and the run either returns zero records or reports a bad checksum.
\<close>

theorem dry_run_leaves_the_chain:
  assumes "dry_run cfg" "import_state ou hj cfg sn w = (r, w')"
  shows "chain w' = chain w \<and>
    (r = Inr 0 \<and> verify_checksum (o_to_json ou) (o_sha256_hex ou) sn = Inr () \<or>
     (\<exists>e. r = Inl (Failed e) \<and> verify_checksum (o_to_json ou) (o_sha256_hex ou) sn = Inl e))"
proof -
  show ?thesis
    using assms history_leaves_the_chain by (auto simp: import_state_def verify_sum_def record_history_def mbind_def from_result_def
        mret_def mfail_def split: sum.splits)
qed




text \<open>A contract that answers every call with a zero, on a chain that records the calls, and an environment around it.\<close>

definition called :: "string list \<Rightarrow> string" where
  "called args = (case drop 6 args of [] \<Rightarrow> []
     | x # r \<Rightarrow> (case (if x = ''--source'' then drop 2 r else r) of [] \<Rightarrow> [] | f # _ \<Rightarrow> f))"

definition signed :: "string list \<Rightarrow> bool" where
  "signed args \<longleftrightarrow> take 1 (drop 6 args) = [''--source'']"

definition zero_cmd :: "string list stellar_cmd" where
  "zero_cmd args fs =
     (Inr \<lparr>success = True, stdout = ''0'', stderr = []\<rparr>, if signed args then fs @ [called args] else fs)"

definition demo_outside :: "(string list, unit, unit) outside" where
  "demo_outside = \<lparr>o_stellar = zero_cmd, o_env_var = (\<lambda>_. Some ''s''),
     o_serde = no_json\<lparr>dec_strings := \<lambda>_. Inr []\<rparr>,
     o_to_json = (\<lambda>_. Inr ''j''), o_to_json_pretty = (\<lambda>_. Inr ''j''), o_from_json = (\<lambda>_. Inl ''bad''),
     o_report_json = (\<lambda>_. Inr ''r''), o_sha256_hex = (\<lambda>s. s),
     o_fs = \<lparr>create_dir_all = (\<lambda>_ f. (Inr (), f)), read_to_string = (\<lambda>_ f. (Inr ''j'', f)),
       write_file = (\<lambda>_ _ f. (Inr (), f)), file_exists = (\<lambda>_ f. (False, f)), join_path = (\<lambda>a b. a @ ''/'' @ b),
       parent_dir = (\<lambda>_. None)\<rparr>,
     o_hash_order = (\<lambda>xs. xs), o_now = ''now'', o_clock = 0\<rparr>"

definition demo_cfg :: "bool \<Rightarrow> migration_section" where
  "demo_cfg dry = \<lparr>label = ''l'', cfg_source = ''S'', cfg_target = ''T'', network = ''n'', cfg_rpc_url = ''u'',
     network_passphrase = ''p'', dry_run = dry, cfg_max_retries = 2, cfg_retry_delay_ms = 0, snapshot_dir = ''d'',
     backup_filename = ''b'', export_filename = ''e'', transformed_filename = ''t'', history_file = ''h'',
     source_version = 1, target_version = 2, progress_batch_size = 10, abort_on_verify_failure = True\<rparr>"

definition demo_hist :: history_json where
  "demo_hist = \<lparr>hist_decode = (\<lambda>_. Inr []), hist_encode = (\<lambda>_. Inr ''h'')\<rparr>"

definition demo_snapshot :: "string \<Rightarrow> state_snapshot" where
  "demo_snapshot admin = (uniform_snapshot 0 0 [] 0)\<lparr>checksum := ''j'', sn_admin := admin, creator_balances := [],
     creator_totals := [], locked_tips := []\<rparr>"

theorem dry_run_leaves_the_chain_witness:
  "\<exists>r w'. import_state demo_outside demo_hist (demo_cfg True) (demo_snapshot ''0'') \<lparr>chain = [], disk = ()\<rparr> = (r, w') \<and>
     dry_run (demo_cfg True) \<and> chain w' = []"
proof -
  obtain r w' where "import_state demo_outside demo_hist (demo_cfg True) (demo_snapshot ''0'') \<lparr>chain = [], disk = ()\<rparr> = (r, w')"
    by (metis surj_pair)
  moreover have "dry_run (demo_cfg True)" by (simp add: demo_cfg_def)
  ultimately show ?thesis
    using dry_run_leaves_the_chain [of "demo_cfg True" demo_outside demo_hist "demo_snapshot ''0''" "\<lparr>chain = [], disk = ()\<rparr>" r w']
    by simp
qed








end
