(* ===== verification/Legacy_Amm.thy ===== *)
theory Legacy_Amm
  imports Token_Ledger
begin

text \<open>
  The automated market maker of the legacy tip jar, \<^verbatim>\<open>src/contracts/tipjar-legacy/src/amm\<close>:
  \<^verbatim>\<open>mod.rs\<close> (storage, rewards, square root), \<^verbatim>\<open>pool.rs\<close> (liquidity), \<^verbatim>\<open>swap.rs\<close> and
  \<^verbatim>\<open>pricing.rs\<close>. A pool holds two tokens; whoever adds to both gets shares, a swap adds to the one
  and takes from the other, keeping the product of the reserves from falling.

  The package has no profile of its own, so \<^verbatim>\<open>+\<close>, \<^verbatim>\<open>-\<close> and \<^verbatim>\<open>*\<close> wrap in release builds, as they do
  in the other contracts.
\<close>

section \<open>State\<close>

definition AMM_DEFAULT_FEE_BPS :: u32 where "AMM_DEFAULT_FEE_BPS = 30"
definition AMM_MAX_FEE_BPS :: u32 where "AMM_MAX_FEE_BPS = 1000"
definition MIN_INITIAL_LIQUIDITY :: int where "MIN_INITIAL_LIQUIDITY = 1000"
definition AMM_PRECISION :: int where "AMM_PRECISION = 1000000"

record liquidity_pool =
  lp_pool_id :: u64
  lp_token_a :: address
  lp_token_b :: address
  reserve_a :: int
  reserve_b :: int
  total_shares :: int
  lp_fee_bps :: u32
  fee_per_share_accum :: int
  total_fees :: int

record swap_result =
  sw_amount_out :: int
  sw_fee_amount :: int
  new_reserve_a :: int
  new_reserve_b :: int
  sw_price_impact :: int

record add_liquidity_result =
  shares_minted :: int
  added_a :: int
  added_b :: int

record remove_liquidity_result =
  removed_a :: int
  removed_b :: int
  rewards_claimed :: int

datatype amm_error =
    AmmIdenticalTokens
  | AmmInsufficientLiquidity
  | AmmFeeTooHigh
  | AmmPoolExists
  | AmmPoolNotFound
  | AmmSlippageExceeded
  | AmmInsufficientShares
  | AmmTokenNotInPool
  | AmmInvalidAmount

record 'tk amm =
  am_pool :: "u64 \<rightharpoonup> liquidity_pool"
  am_pool_counter :: "u64 option"
  am_pool_by_tokens :: "address \<times> address \<rightharpoonup> u64"
  am_lp_shares :: "u64 \<times> address \<rightharpoonup> int"
  am_provider_debt :: "u64 \<times> address \<rightharpoonup> int"
  am_tokens :: 'tk

type_synonym 'a amm_result = "(amm_error, 'a) result"

section \<open>Storage\<close>

definition get_pool_counter :: "'tk amm \<Rightarrow> u64" where
  "get_pool_counter s = unwrap_or (am_pool_counter s) 0"

definition save_pool :: "liquidity_pool \<Rightarrow> 'tk amm \<Rightarrow> 'tk amm" where
  "save_pool p s = s\<lparr>am_pool := (am_pool s)(lp_pool_id p \<mapsto> p)\<rparr>"

definition next_pool_id :: "'tk amm \<Rightarrow> u64 \<times> 'tk amm" where
  "next_pool_id s = (let i = get_pool_counter s + 1 in (i, s\<lparr>am_pool_counter := Some i\<rparr>))"

definition get_pool_id_by_tokens :: "'tk amm \<Rightarrow> address \<Rightarrow> address \<Rightarrow> u64 option" where
  "get_pool_id_by_tokens s a b =
     (case am_pool_by_tokens s (a, b) of Some i \<Rightarrow> Some i | None \<Rightarrow> am_pool_by_tokens s (b, a))"

definition register_pool_tokens :: "u64 \<Rightarrow> address \<Rightarrow> address \<Rightarrow> 'tk amm \<Rightarrow> 'tk amm" where
  "register_pool_tokens i a b s = s\<lparr>am_pool_by_tokens := (am_pool_by_tokens s)((a, b) \<mapsto> i)\<rparr>"

definition get_lp_shares :: "'tk amm \<Rightarrow> u64 \<Rightarrow> address \<Rightarrow> int" where
  "get_lp_shares s i who = unwrap_or (am_lp_shares s (i, who)) 0"

definition set_lp_shares :: "u64 \<Rightarrow> address \<Rightarrow> int \<Rightarrow> 'tk amm \<Rightarrow> 'tk amm" where
  "set_lp_shares i who n s = s\<lparr>am_lp_shares := (am_lp_shares s)((i, who) \<mapsto> n)\<rparr>"

definition get_provider_debt :: "'tk amm \<Rightarrow> u64 \<Rightarrow> address \<Rightarrow> int" where
  "get_provider_debt s i who = unwrap_or (am_provider_debt s (i, who)) 0"

definition set_provider_debt :: "u64 \<Rightarrow> address \<Rightarrow> int \<Rightarrow> 'tk amm \<Rightarrow> 'tk amm" where
  "set_provider_debt i who n s = s\<lparr>am_provider_debt := (am_provider_debt s)((i, who) \<mapsto> n)\<rparr>"

definition move_tokens ::
  "'tk transfer_fn \<Rightarrow> address \<Rightarrow> address \<Rightarrow> address \<Rightarrow> int \<Rightarrow> 'tk amm \<Rightarrow> 'tk amm amm_result" where
  "move_tokens transfer t src dst n s =
     and_then (call_transfer transfer (am_tokens s) t src dst n) (\<lambda>tk. Inr (s\<lparr>am_tokens := tk\<rparr>))"

lemmas amm_storage [storage_defs] =
  save_pool_def register_pool_tokens_def get_lp_shares_def set_lp_shares_def
  get_provider_debt_def set_provider_debt_def get_pool_counter_def

section \<open>Rewards\<close>

definition pending_rewards :: "'tk amm \<Rightarrow> u64 \<Rightarrow> address \<Rightarrow> int amm_result" where
  "pending_rewards s i who =
     (case am_pool s i of
        None \<Rightarrow> Inr 0
      | Some p \<Rightarrow>
          let shares = get_lp_shares s i who in
          if shares = 0 then Inr 0
          else let delta = sub_i128 (fee_per_share_accum p) (get_provider_debt s i who) in
            if delta \<le> 0 then Inr 0 else muldiv_i128 shares delta AMM_PRECISION)"

definition settle_rewards :: "u64 \<Rightarrow> address \<Rightarrow> 'tk amm \<Rightarrow> (int \<times> 'tk amm) amm_result" where
  "settle_rewards i who s =
     (case am_pool s i of
        None \<Rightarrow> Inr (0, s)
      | Some p \<Rightarrow>
          let shares = get_lp_shares s i who;
              delta = sub_i128 (fee_per_share_accum p) (get_provider_debt s i who) in
          and_then (if shares > 0 \<and> delta > 0 then muldiv_i128 shares delta AMM_PRECISION else Inr 0)
            (\<lambda>reward. Inr (reward, set_provider_debt i who (fee_per_share_accum p) s)))"

definition amm_accrue_fee :: "int \<Rightarrow> liquidity_pool \<Rightarrow> liquidity_pool amm_result" where
  "amm_accrue_fee fee p =
     (if total_shares p > 0 \<and> fee > 0 then
        and_then (muldiv_i128 fee AMM_PRECISION (total_shares p)) (\<lambda>per_share.
        Inr (p\<lparr>fee_per_share_accum := add_i128 (fee_per_share_accum p) per_share,
               total_fees := add_i128 (total_fees p) fee\<rparr>))
      else Inr p)"

section \<open>Square root\<close>

text \<open>
  Newton's loop. Its guess falls in every round, and a computed guess is never below the least
  \<^verbatim>\<open>i128\<close>, so it ends on every input.
\<close>

function isqrt_loop :: "int \<Rightarrow> int \<Rightarrow> int \<Rightarrow> int amm_result" where
  "isqrt_loop n x y =
     (if y < x then
        and_then (div_i128 n y) (\<lambda>q.
        and_then (div_i128 (add_i128 y q) 2) (\<lambda>y'. isqrt_loop n y y'))
      else Inr x)"
  by pat_completeness auto
termination
  by (relation "measure (\<lambda>(n, x, y). nat (x - I128_MIN) + (if y < I128_MIN then 1 else 0))")
    (auto dest!: div_i128_in simp: in_i128_def)

declare isqrt_loop.simps [simp del]

definition isqrt :: "int \<Rightarrow> int amm_result" where
  "isqrt n = (if n \<le> 0 then Inr 0
     else and_then (div_i128 (add_i128 n 1) 2) (\<lambda>y. isqrt_loop n n y))"

section \<open>Liquidity\<close>

definition create_pool ::
  "'tk transfer_fn \<Rightarrow> env \<Rightarrow> address \<Rightarrow> address \<Rightarrow> address \<Rightarrow> int \<Rightarrow> int \<Rightarrow> u32 option \<Rightarrow> 'tk amm
   \<Rightarrow> ((u64 \<times> int) \<times> 'tk amm) amm_result" where
  "create_pool transfer e creator ta tb amount_a amount_b fee s =
     and_then (require_auth e creator) (\<lambda>_.
     if ta = tb then fail AmmIdenticalTokens
     else if amount_a < MIN_INITIAL_LIQUIDITY \<or> amount_b < MIN_INITIAL_LIQUIDITY
       then fail AmmInsufficientLiquidity
     else let effective_fee = unwrap_or fee AMM_DEFAULT_FEE_BPS in
     if effective_fee > AMM_MAX_FEE_BPS then fail AmmFeeTooHigh
     else if get_pool_id_by_tokens s ta tb \<noteq> None then fail AmmPoolExists
     else let (i, s1) = next_pool_id s in
     and_then (isqrt (mul_i128 amount_a amount_b)) (\<lambda>shares.
     if shares \<le> 0 then fail AmmInsufficientLiquidity
     else
     and_then (move_tokens transfer ta creator (contract_address e) amount_a s1) (\<lambda>s2.
     and_then (move_tokens transfer tb creator (contract_address e) amount_b s2) (\<lambda>s3.
     let p = \<lparr>lp_pool_id = i, lp_token_a = ta, lp_token_b = tb, reserve_a = amount_a,
              reserve_b = amount_b, total_shares = shares, lp_fee_bps = effective_fee,
              fee_per_share_accum = 0, total_fees = 0\<rparr>;
         s4 = register_pool_tokens i ta tb (save_pool p s3)
     in Inr ((i, shares), set_provider_debt i creator 0 (set_lp_shares i creator shares s4))))))"

text \<open>The amounts that keep the ratio of the reserves.\<close>

definition optimal_amounts ::
  "liquidity_pool \<Rightarrow> int \<Rightarrow> int \<Rightarrow> int \<Rightarrow> int \<Rightarrow> (int \<times> int) amm_result" where
  "optimal_amounts p a_desired b_desired a_min b_min =
     (if total_shares p = 0 then Inr (a_desired, b_desired)
      else and_then (muldiv_i128 a_desired (reserve_b p) (reserve_a p)) (\<lambda>optimal_b.
        if optimal_b \<le> b_desired then
          if optimal_b < b_min then fail AmmSlippageExceeded else Inr (a_desired, optimal_b)
        else and_then (muldiv_i128 b_desired (reserve_a p) (reserve_b p)) (\<lambda>optimal_a.
          if optimal_a < a_min then fail AmmSlippageExceeded else Inr (optimal_a, b_desired))))"

definition shares_for :: "liquidity_pool \<Rightarrow> int \<Rightarrow> int \<Rightarrow> int amm_result" where
  "shares_for p amount_a amount_b =
     (if total_shares p = 0 then isqrt (mul_i128 amount_a amount_b)
      else and_then (muldiv_i128 amount_a (total_shares p) (reserve_a p)) (\<lambda>s_a.
        and_then (muldiv_i128 amount_b (total_shares p) (reserve_b p)) (\<lambda>s_b. Inr (min s_a s_b))))"

definition add_liquidity ::
  "'tk transfer_fn \<Rightarrow> env \<Rightarrow> u64 \<Rightarrow> address \<Rightarrow> int \<Rightarrow> int \<Rightarrow> int \<Rightarrow> int \<Rightarrow> 'tk amm
   \<Rightarrow> (add_liquidity_result \<times> 'tk amm) amm_result" where
  "add_liquidity transfer e i provider a_desired b_desired a_min b_min s =
     and_then (require_auth e provider) (\<lambda>_.
     if a_desired \<le> 0 \<or> b_desired \<le> 0 then fail AmmInvalidAmount
     else
     and_then (settle_rewards i provider s) (\<lambda>(_, s1).
     and_then (ok_or AmmPoolNotFound (am_pool s1 i)) (\<lambda>p.
     and_then (optimal_amounts p a_desired b_desired a_min b_min) (\<lambda>(amount_a, amount_b).
     if amount_a < a_min \<or> amount_b < b_min then fail AmmSlippageExceeded
     else
     and_then (shares_for p amount_a amount_b) (\<lambda>shares.
     if shares \<le> 0 then fail AmmInsufficientLiquidity
     else
     and_then (move_tokens transfer (lp_token_a p) provider (contract_address e) amount_a s1) (\<lambda>s2.
     and_then (move_tokens transfer (lp_token_b p) provider (contract_address e) amount_b s2) (\<lambda>s3.
     let p' = p\<lparr>reserve_a := add_i128 (reserve_a p) amount_a,
                reserve_b := add_i128 (reserve_b p) amount_b,
                total_shares := add_i128 (total_shares p) shares\<rparr>;
         s4 = save_pool p' s3;
         s5 = set_lp_shares i provider (add_i128 (get_lp_shares s4 i provider) shares) s4
     in Inr (\<lparr>shares_minted = shares, added_a = amount_a, added_b = amount_b\<rparr>,
             set_provider_debt i provider (fee_per_share_accum p') s5))))))))"

definition remove_liquidity ::
  "'tk transfer_fn \<Rightarrow> env \<Rightarrow> u64 \<Rightarrow> address \<Rightarrow> int \<Rightarrow> int \<Rightarrow> int \<Rightarrow> 'tk amm
   \<Rightarrow> (remove_liquidity_result \<times> 'tk amm) amm_result" where
  "remove_liquidity transfer e i provider shares a_min b_min s =
     and_then (require_auth e provider) (\<lambda>_.
     if shares \<le> 0 then fail AmmInvalidAmount
     else let user_shares = get_lp_shares s i provider in
     if user_shares < shares then fail AmmInsufficientShares
     else
     and_then (settle_rewards i provider s) (\<lambda>(rewards, s1).
     and_then (ok_or AmmPoolNotFound (am_pool s1 i)) (\<lambda>p.
     and_then (muldiv_i128 shares (reserve_a p) (total_shares p)) (\<lambda>amount_a.
     and_then (muldiv_i128 shares (reserve_b p) (total_shares p)) (\<lambda>amount_b.
     if amount_a < a_min \<or> amount_b < b_min then fail AmmSlippageExceeded
     else if amount_a \<le> 0 \<or> amount_b \<le> 0 then fail AmmInsufficientLiquidity
     else
     let p' = p\<lparr>reserve_a := sub_i128 (reserve_a p) amount_a,
                reserve_b := sub_i128 (reserve_b p) amount_b,
                total_shares := sub_i128 (total_shares p) shares\<rparr>;
         s2 = set_lp_shares i provider (sub_i128 user_shares shares) (save_pool p' s1) in
     and_then (move_tokens transfer (lp_token_a p) (contract_address e) provider amount_a s2) (\<lambda>s3.
     and_then (move_tokens transfer (lp_token_b p) (contract_address e) provider amount_b s3) (\<lambda>s4.
     and_then (if rewards > 0
               then move_tokens transfer (lp_token_a p) (contract_address e) provider rewards s4
               else Inr s4) (\<lambda>s5.
     Inr (\<lparr>removed_a = amount_a, removed_b = amount_b, rewards_claimed = rewards\<rparr>, s5)))))))))"

definition claim_rewards ::
  "'tk transfer_fn \<Rightarrow> env \<Rightarrow> u64 \<Rightarrow> address \<Rightarrow> 'tk amm \<Rightarrow> (int \<times> 'tk amm) amm_result" where
  "claim_rewards transfer e i provider s =
     and_then (require_auth e provider) (\<lambda>_.
     and_then (ok_or AmmPoolNotFound (am_pool s i)) (\<lambda>p.
     and_then (settle_rewards i provider s) (\<lambda>(rewards, s1).
     if rewards = 0 then Inr (0, s1)
     else
     and_then (move_tokens transfer (lp_token_a p) (contract_address e) provider rewards s1) (\<lambda>s2.
     Inr (rewards, s2)))))"

definition get_reserves :: "'tk amm \<Rightarrow> u64 \<Rightarrow> (int \<times> int) amm_result" where
  "get_reserves s i =
     and_then (ok_or AmmPoolNotFound (am_pool s i)) (\<lambda>p. Inr (reserve_a p, reserve_b p))"

definition set_pool_fee :: "u64 \<Rightarrow> u32 \<Rightarrow> 'tk amm \<Rightarrow> 'tk amm amm_result" where
  "set_pool_fee i fee s =
     and_then (ok_or AmmPoolNotFound (am_pool s i)) (\<lambda>p.
     if fee > AMM_MAX_FEE_BPS then fail AmmFeeTooHigh else Inr (save_pool (p\<lparr>lp_fee_bps := fee\<rparr>) s))"

section \<open>Swaps\<close>

definition calculate_output :: "int \<Rightarrow> int \<Rightarrow> int \<Rightarrow> int amm_result" where
  "calculate_output x reserve_in reserve_out =
     (if x \<le> 0 \<or> reserve_in \<le> 0 \<or> reserve_out \<le> 0 then Inr 0
      else div_i128 (mul_i128 x reserve_out) (add_i128 reserve_in x))"

definition calculate_input_for_output :: "int \<Rightarrow> int \<Rightarrow> int \<Rightarrow> u32 \<Rightarrow> int amm_result" where
  "calculate_input_for_output amount_out reserve_in reserve_out fee =
     (if amount_out \<le> 0 \<or> amount_out \<ge> reserve_out \<or> reserve_in \<le> 0 then Inr 0
      else
      and_then (div_i128 (mul_i128 reserve_in amount_out) (sub_i128 reserve_out amount_out)) (\<lambda>q.
      and_then (muldiv_i128 (add_i128 q 1) 10000 (sub_i128 10000 (uint fee))) (\<lambda>r.
      Inr (add_i128 r 1))))"

text \<open>The reserves of the side that \<open>token_in\<close> is on, and whether that is side A.\<close>

definition swap_sides :: "liquidity_pool \<Rightarrow> address \<Rightarrow> (int \<times> int \<times> bool) amm_result" where
  "swap_sides p t =
     (if t = lp_token_a p then Inr (reserve_a p, reserve_b p, True)
      else if t = lp_token_b p then Inr (reserve_b p, reserve_a p, False)
      else fail AmmTokenNotInPool)"

definition impact_of :: "int \<Rightarrow> int \<Rightarrow> int \<Rightarrow> int \<Rightarrow> int amm_result" where
  "impact_of reserve_in reserve_out amount_in amount_out =
     and_then (muldiv_i128 reserve_out 10000 reserve_in) (\<lambda>spot.
     and_then (muldiv_i128 amount_out 10000 amount_in) (\<lambda>effective.
     if spot > effective then muldiv_i128 (sub_i128 spot effective) 10000 spot else Inr 0))"

definition price_impact_bps :: "int \<Rightarrow> int \<Rightarrow> int \<Rightarrow> u32 \<Rightarrow> int amm_result" where
  "price_impact_bps amount_in reserve_in reserve_out fee_rate =
     (if reserve_in = 0 \<or> reserve_out = 0 \<or> amount_in \<le> 0 then Inr 0
      else
      and_then (muldiv_i128 amount_in (uint fee_rate) 10000) (\<lambda>fee.
      and_then (calculate_output (sub_i128 amount_in fee) reserve_in reserve_out) (\<lambda>amount_out.
      if amount_out = 0 then Inr 10000 else impact_of reserve_in reserve_out amount_in amount_out)))"

definition swap_reserves ::
  "bool \<Rightarrow> int \<Rightarrow> int \<Rightarrow> int \<Rightarrow> liquidity_pool \<Rightarrow> liquidity_pool amm_result" where
  "swap_reserves is_a_in amount_in amount_out fee p =
     (if is_a_in then
        amm_accrue_fee fee (p\<lparr>reserve_a := add_i128 (reserve_a p) amount_in,
                          reserve_b := sub_i128 (reserve_b p) amount_out\<rparr>)
      else
        let p' = p\<lparr>reserve_b := add_i128 (reserve_b p) amount_in,
                   reserve_a := sub_i128 (reserve_a p) amount_out\<rparr> in
        and_then (if reserve_b p' > 0 then muldiv_i128 fee (reserve_a p') (reserve_b p') else Inr 0)
          (\<lambda>fee_a_equiv. amm_accrue_fee fee_a_equiv p'))"

definition swap ::
  "'tk transfer_fn \<Rightarrow> env \<Rightarrow> u64 \<Rightarrow> address \<Rightarrow> address \<Rightarrow> int \<Rightarrow> int \<Rightarrow> 'tk amm
   \<Rightarrow> (swap_result \<times> 'tk amm) amm_result" where
  "swap transfer e i sender token_in amount_in min_amount_out s =
     and_then (require_auth e sender) (\<lambda>_.
     if amount_in \<le> 0 then fail AmmInvalidAmount
     else
     and_then (ok_or AmmPoolNotFound (am_pool s i)) (\<lambda>p.
     if reserve_a p = 0 \<or> reserve_b p = 0 then fail AmmInsufficientLiquidity
     else
     and_then (swap_sides p token_in) (\<lambda>(reserve_in, reserve_out, is_a_in).
     and_then (muldiv_i128 amount_in (uint (lp_fee_bps p)) 10000) (\<lambda>fee_amount.
     and_then (calculate_output (sub_i128 amount_in fee_amount) reserve_in reserve_out) (\<lambda>amount_out.
     if amount_out \<le> 0 then fail AmmInsufficientLiquidity
     else if amount_out < min_amount_out then fail AmmSlippageExceeded
     else
     and_then (impact_of reserve_in reserve_out amount_in amount_out) (\<lambda>impact.
     and_then (move_tokens transfer token_in sender (contract_address e) amount_in s) (\<lambda>s1.
     and_then (swap_reserves is_a_in amount_in amount_out fee_amount p) (\<lambda>p'.
     and_then (move_tokens transfer (if is_a_in then lp_token_b p' else lp_token_a p')
                 (contract_address e) sender amount_out (save_pool p' s1)) (\<lambda>s2.
     Inr (\<lparr>sw_amount_out = amount_out, sw_fee_amount = fee_amount, new_reserve_a = reserve_a p',
            new_reserve_b = reserve_b p', sw_price_impact = impact\<rparr>, s2))))))))))"

definition get_amount_out :: "'tk amm \<Rightarrow> u64 \<Rightarrow> address \<Rightarrow> int \<Rightarrow> int amm_result" where
  "get_amount_out s i token_in amount_in =
     and_then (ok_or AmmPoolNotFound (am_pool s i)) (\<lambda>p.
     and_then (swap_sides p token_in) (\<lambda>(reserve_in, reserve_out, _).
     and_then (muldiv_i128 amount_in (uint (lp_fee_bps p)) 10000) (\<lambda>fee.
     calculate_output (sub_i128 amount_in fee) reserve_in reserve_out)))"

definition get_amount_in :: "'tk amm \<Rightarrow> u64 \<Rightarrow> address \<Rightarrow> int \<Rightarrow> int amm_result" where
  "get_amount_in s i token_in amount_out =
     and_then (ok_or AmmPoolNotFound (am_pool s i)) (\<lambda>p.
     and_then (swap_sides p token_in) (\<lambda>(reserve_in, reserve_out, _).
     calculate_input_for_output amount_out reserve_in reserve_out (lp_fee_bps p)))"

section \<open>Prices\<close>

definition spot_price :: "'tk amm \<Rightarrow> u64 \<Rightarrow> address \<Rightarrow> int amm_result" where
  "spot_price s i token_in =
     and_then (ok_or AmmPoolNotFound (am_pool s i)) (\<lambda>p.
     and_then (swap_sides p token_in) (\<lambda>(reserve_in, reserve_out, _).
     if reserve_in = 0 then Inr 0 else muldiv_i128 reserve_out 1000000 reserve_in))"

definition get_price_impact :: "'tk amm \<Rightarrow> u64 \<Rightarrow> address \<Rightarrow> int \<Rightarrow> int amm_result" where
  "get_price_impact s i token_in amount_in =
     and_then (ok_or AmmPoolNotFound (am_pool s i)) (\<lambda>p.
     and_then (swap_sides p token_in) (\<lambda>(reserve_in, reserve_out, _).
     price_impact_bps amount_in reserve_in reserve_out (lp_fee_bps p)))"

definition get_invariant :: "'tk amm \<Rightarrow> u64 \<Rightarrow> int amm_result" where
  "get_invariant s i =
     and_then (ok_or AmmPoolNotFound (am_pool s i)) (\<lambda>p. Inr (mul_i128 (reserve_a p) (reserve_b p)))"

definition get_tvl :: "'tk amm \<Rightarrow> u64 \<Rightarrow> (int \<times> int) amm_result" where
  "get_tvl s i =
     and_then (ok_or AmmPoolNotFound (am_pool s i)) (\<lambda>p. Inr (reserve_a p, reserve_b p))"

definition share_value :: "'tk amm \<Rightarrow> u64 \<Rightarrow> (int \<times> int) amm_result" where
  "share_value s i =
     and_then (ok_or AmmPoolNotFound (am_pool s i)) (\<lambda>p.
     if total_shares p = 0 then Inr (0, 0)
     else
     and_then (muldiv_i128 (reserve_a p) 1000000 (total_shares p)) (\<lambda>a.
     and_then (muldiv_i128 (reserve_b p) 1000000 (total_shares p)) (\<lambda>b. Inr (a, b))))"

definition total_fees_collected :: "'tk amm \<Rightarrow> u64 \<Rightarrow> int amm_result" where
  "total_fees_collected s i =
     and_then (ok_or AmmPoolNotFound (am_pool s i)) (\<lambda>p. Inr (total_fees p))"

end
