(* ===== verification/Legacy_Amm_Safety.thy ===== *)
theory Legacy_Amm_Safety
  imports Legacy_Amm
begin

text \<open>
  What the market maker promises: the square root is the floor of the root, a swap never lowers the
  product of the reserves and pays what was quoted, the quoted input buys the wanted output, adding
  and removing liquidity gives no profit, and the recorded total of the shares is their sum.
\<close>

section \<open>A market for the examples\<close>

definition amm_empty :: "'tk \<Rightarrow> 'tk amm" where
  "amm_empty tk = \<lparr>am_pool = Map.empty, am_pool_counter = None, am_pool_by_tokens = Map.empty,
     am_lp_shares = Map.empty, am_provider_debt = Map.empty, am_tokens = tk\<rparr>"

definition amm_env :: env where
  "amm_env = \<lparr>sequence = 0, timestamp = 9, authorized = (\<lambda>_. True), contract_address = 8,
     new_entry_live = 0, extend_policy = (\<lambda>_ _ l. l), wasm_uploaded = (\<lambda>_. False)\<rparr>"

definition amm_start :: "ledger amm" where
  "amm_start = amm_empty (\<lambda>t a. if a = 1 \<or> a = 2 then 5000000 else 0)"

definition amm_pool_made :: "((u64 \<times> int) \<times> ledger amm) amm_result" where
  "amm_pool_made = create_pool ledger_transfer amm_env 1 20 21 1000000 1000000 (Some 1000) amm_start"

definition amm_swapped :: "(swap_result \<times> ledger amm) amm_result" where
  "amm_swapped = and_then amm_pool_made (\<lambda>(_, s). swap ledger_transfer amm_env 1 2 20 500000 1 s)"

definition pool_was :: "liquidity_pool" where
  "pool_was = \<lparr>lp_pool_id = 1, lp_token_a = 20, lp_token_b = 21, reserve_a = 1000000, reserve_b = 1000000,
     total_shares = 1000000, lp_fee_bps = 1000, fee_per_share_accum = 0, total_fees = 0\<rparr>"

section \<open>The square root\<close>

lemma newton_above:
  assumes "0 < x" "0 \<le> (n::int)"
  shows "n < ((x + n div x) div 2 + 1) * ((x + n div x) div 2 + 1)"
proof -
  define q where "q = n div x"
  define y where "y = (x + q) div 2"
  have n: "n < x * (q + 1)"
    unfolding q_def using assms(1) by (rule div_round_up)
  have y: "x + q + 1 \<le> 2 * (y + 1)" unfolding y_def by presburger
  have q0: "0 \<le> q" using assms by (simp add: q_def pos_imp_zdiv_nonneg_iff)
  have "4 * n < (x + (q + 1)) * (x + (q + 1))"
  proof -
    have "0 \<le> (x - (q + 1)) * (x - (q + 1))" by simp
    then have "4 * (x * (q + 1)) \<le> (x + (q + 1)) * (x + (q + 1))" by (simp add: algebra_simps)
    then show ?thesis using n by linarith
  qed
  also have "\<dots> \<le> (2 * (y + 1)) * (2 * (y + 1))"
    using y q0 assms(1) by (intro mult_mono) auto
  finally have "4 * n < 4 * ((y + 1) * (y + 1))" by (simp add: algebra_simps)
  then show ?thesis unfolding y_def q_def by simp
qed

lemma quotient_sum_le:
  assumes "0 < y" "y \<le> (n::int)"
  shows "y + n div y \<le> n + 1"
proof -
  have "1 \<le> n div y" using assms by (simp add: pos_imp_zdiv_pos_iff int_one_le_iff_zero_less)
  then have "0 \<le> (y - 1) * (n div y - 1)" using assms by (intro mult_nonneg_nonneg) auto
  moreover have "y * (n div y) \<le> n" using assms(1) by (rule div_round_down)
  ultimately show ?thesis by (simp add: algebra_simps)
qed

lemma isqrt_loop_floor:
  assumes "0 < x" "x \<le> n" "n < I128_MAX" "y = (x + n div x) div 2" "n < (x + 1) * (x + 1)"
  shows "\<exists>r. isqrt_loop n x y = Inr r \<and> 0 < r \<and> r * r \<le> n \<and> n < (r + 1) * (r + 1)"
  using assms
proof (induction n x y rule: isqrt_loop.induct)
  case (1 n x y)
  have q1: "1 \<le> n div x" using 1(2,3) by (simp add: pos_imp_zdiv_pos_iff int_one_le_iff_zero_less)
  show ?case
  proof (cases "y < x")
    case False
    then have "x \<le> n div x" using 1(5) by simp
    then have "x * x \<le> x * (n div x)" using 1(2) by (simp add: mult_left_mono)
    also have "\<dots> \<le> n" using 1(2) by (rule div_round_down)
    finally show ?thesis using False 1(2,6) by (auto simp: isqrt_loop.simps [of n x y])
  next
    case True
    have y0: "0 < y" using q1 1(2,5) by linarith
    have nn: "in_i128 n" "0 \<le> n" using 1(2-4) by (simp_all add: in_i128_nonneg)
    have d1: "div_i128 n y = Inr (n div y)" using y0 nn by (simp add: div_i128_nonneg)
    have q: "0 \<le> n div y" "n div y \<le> n" using y0 nn by (simp_all add: pos_imp_zdiv_nonneg_iff div_int_le_self)
    have sum: "y + n div y \<le> n + 1" using y0 True 1(3) by (intro quotient_sum_le) auto
    then have s: "in_i128 (y + n div y)" using y0 q 1(4) by (simp add: in_i128_nonneg)
    then have d2: "div_i128 (add_i128 y (n div y)) 2 = Inr ((y + n div y) div 2)"
      using y0 q by (simp add: add_i128_exact div_i128_nonneg)
    have up: "n < (y + 1) * (y + 1)" using newton_above [of x n] 1(2,5) nn by simp
    from 1(1) [OF True d1 d2 y0 _ 1(4) refl up] True 1(3)
    show ?thesis by (simp add: isqrt_loop.simps [of n x y] d1 d2)
  qed
qed

lemma isqrt_positive:
  assumes "0 < n" "n < I128_MAX"
  shows "\<exists>r. isqrt n = Inr r \<and> 0 < r \<and> r * r \<le> n \<and> n < (r + 1) * (r + 1)"
proof -
  have "in_i128 (n + 1)" using assms by (simp add: in_i128_nonneg)
  then have d: "div_i128 (add_i128 n 1) 2 = Inr ((n + 1) div 2)"
    using assms by (simp add: add_i128_exact div_i128_nonneg)
  have "n < (n + 1) * (n + 1)"
    using assms mult_strict_mono [of 1 "n + 1" n "n + 1"] by simp
  then have "\<exists>r. isqrt_loop n n ((n + 1) div 2) = Inr r \<and> 0 < r \<and> r * r \<le> n \<and> n < (r + 1) * (r + 1)"
    using assms by (intro isqrt_loop_floor) auto
  then show ?thesis using assms by (auto simp: isqrt_def d)
qed

lemma root_unique:
  assumes "0 \<le> r" "0 \<le> k" "r * r \<le> (n::int)" "n < (r + 1) * (r + 1)" "k * k \<le> n" "n < (k + 1) * (k + 1)"
  shows "r = k"
proof (rule antisym)
  show "r \<le> k" using assms mult_mono [of "k + 1" r "k + 1" r] by (cases "k + 1 \<le> r") auto
  show "k \<le> r" using assms mult_mono [of "r + 1" k "r + 1" k] by (cases "r + 1 \<le> k") auto
qed

text \<open>
  C28. The integer square root ends on every argument below the greatest 128-bit number and returns
  the floor of the root; for arguments that are not positive it returns zero.
\<close>

theorem isqrt_is_the_floor_root:
  assumes "n < I128_MAX"
  shows "\<exists>r. isqrt n = Inr r \<and> 0 \<le> r \<and> (if n \<le> 0 then r = 0 else r * r \<le> n \<and> n < (r + 1) * (r + 1))"
proof (cases "n \<le> 0")
  case False
  then show ?thesis using isqrt_positive [of n] assms by auto
qed (simp add: isqrt_def)

theorem isqrt_is_the_floor_root_witness: "(999999::int) < I128_MAX \<and> isqrt 999999 = Inr 999"
proof -
  have "(999999::int) < I128_MAX" by (simp add: I128_MAX_def)
  moreover from isqrt_is_the_floor_root [OF this]
  obtain r where r: "isqrt 999999 = Inr r" "0 \<le> r" "r * r \<le> 999999" "999999 < (r + 1) * (r + 1)" by auto
  moreover have "r = 999" by (rule root_unique [OF r(2) _ r(3,4)]) simp_all
  ultimately show ?thesis by simp
qed

section \<open>The market after a swap\<close>

definition amm_made :: "ledger amm" where
  "amm_made = \<lparr>am_pool = [1 \<mapsto> pool_was], am_pool_counter = Some 1, am_pool_by_tokens = [(20, 21) \<mapsto> 1],
     am_lp_shares = [(1, 1) \<mapsto> 1000000], am_provider_debt = [(1, 1) \<mapsto> 0],
     am_tokens = (\<lambda>t a. if t = 20 \<or> t = 21 then if a = 1 then 4000000 else if a = 2 then 5000000 else if a = 8 then 1000000 else 0
       else if a = 1 \<or> a = 2 then 5000000 else 0)\<rparr>"

lemma amm_pool_made_eq [code]: "amm_pool_made = Inr ((1, 1000000), amm_made)"
proof -
  obtain r where r: "isqrt 1000000000000 = Inr r" "0 < r" "r * r \<le> 1000000000000" "1000000000000 < (r + 1) * (r + 1)"
    using isqrt_positive [of 1000000000000] by (auto simp: I128_MAX_def)
  have "r = 1000000" by (rule root_unique [OF _ _ r(3,4)]) (use r(2) in auto)
  then have "isqrt 1000000000000 = Inr 1000000" using r(1) by simp
  moreover have "mul_i128 1000000 1000000 = 1000000000000" by (simp add: mul_i128_exact in_i128_nonneg I128_MAX_def)
  ultimately show ?thesis
    by (simp add: amm_pool_made_def create_pool_def amm_made_def amm_start_def amm_empty_def amm_env_def MIN_INITIAL_LIQUIDITY_def
      AMM_MAX_FEE_BPS_def get_pool_id_by_tokens_def next_pool_id_def move_tokens_def ledger_transfer_def call_transfer_def pool_was_def storage_defs fun_eq_iff require_auth_def)
qed
lemma amm_pool_made_ok:
  "\<exists>s. amm_pool_made = Inr ((1, 1000000), s) \<and> am_pool s 1 = Some pool_was"
  by (simp add: amm_pool_made_eq amm_made_def)

lemma amm_swapped_ok:
  "\<exists>s r s'. amm_pool_made = Inr ((1, 1000000), s) \<and> am_pool s 1 = Some pool_was \<and>
     swap ledger_transfer amm_env 1 2 20 500000 1 s = Inr (r, s') \<and> sw_amount_out r = 310344 \<and>
     am_pool s' 1 = Some (pool_was\<lparr>reserve_a := 1500000, reserve_b := 689656, fee_per_share_accum := 50000, total_fees := 50000\<rparr>)
     \<and> pending_rewards s' 1 1 = Inr 50000"
proof -
  have "(case amm_swapped of Inl _ \<Rightarrow> False | Inr (r, s') \<Rightarrow> sw_amount_out r = 310344 \<and>
     am_pool s' 1 = Some (pool_was\<lparr>reserve_a := 1500000, reserve_b := 689656, fee_per_share_accum := 50000, total_fees := 50000\<rparr>)
     \<and> pending_rewards s' 1 1 = Inr 50000)"
    by code_simp
  then obtain r s' where r: "amm_swapped = Inr (r, s')" "sw_amount_out r = 310344" "pending_rewards s' 1 1 = Inr 50000"
     "am_pool s' 1 = Some (pool_was\<lparr>reserve_a := 1500000, reserve_b := 689656, fee_per_share_accum := 50000, total_fees := 50000\<rparr>)"
    by (auto dest!: case_ok)
  moreover obtain s where s: "amm_pool_made = Inr ((1, 1000000), s)" "am_pool s 1 = Some pool_was"
    using amm_pool_made_ok by blast
  moreover have "swap ledger_transfer amm_env 1 2 20 500000 1 s = Inr (r, s')"
    using r unfolding amm_swapped_def s(1) by simp
  ultimately show ?thesis by blast
qed

section \<open>Swaps\<close>

lemma move_tokens_Inr_iff [result_simps]:
  "move_tokens transfer t src dst n s = Inr s' \<longleftrightarrow>
     (\<exists>tk. transfer (am_tokens s) t src dst n = Some tk \<and> s' = s\<lparr>am_tokens := tk\<rparr>)"
  by (auto simp: move_tokens_def result_simps)

lemma swap_sides_Inr_iff [result_simps]:
  "swap_sides p t = Inr (rin, rout, is_a) \<longleftrightarrow>
     (if is_a then t = lp_token_a p \<and> rin = reserve_a p \<and> rout = reserve_b p
      else t \<noteq> lp_token_a p \<and> t = lp_token_b p \<and> rin = reserve_b p \<and> rout = reserve_a p)"
  by (auto simp: swap_sides_def)

lemma constant_product:
  assumes "0 < x" "0 < rin" "0 < (rout::int)"
  shows "x * rout div (rin + x) < rout"
    and "rin * rout \<le> (rin + x) * (rout - x * rout div (rin + x))"
    and "0 \<le> x * rout div (rin + x)"
proof -
  let ?o = "x * rout div (rin + x)"
  have le: "(rin + x) * ?o \<le> x * rout"
    using assms by (intro div_round_down) auto
  show "rin * rout \<le> (rin + x) * (rout - ?o)" using le by (simp add: algebra_simps)
  show "0 \<le> ?o" using assms by (simp add: pos_imp_zdiv_nonneg_iff)
  have "x * rout < (rin + x) * rout" using assms by (simp add: distrib_right)
  then show "?o < rout" using le assms by (meson add_pos_pos less_le_trans mult_less_cancel_left_pos not_le)
qed

lemma calculate_output_exact:
  assumes "0 < x" "0 < rin" "0 < rout" "x * rout \<le> I128_MAX" "rin + x \<le> I128_MAX"
  shows "calculate_output x rin rout = Inr (x * rout div (rin + x))"
proof -
  have "in_i128 (x * rout)" "in_i128 (rin + x)" using assms by (simp_all add: in_i128_nonneg)
  then show ?thesis using assms by (simp add: calculate_output_def mul_i128_exact add_i128_exact div_i128_nonneg)
qed

lemma fee_bounds:
  assumes "0 < n" "0 \<le> f" "f \<le> 1000" "n * 10000 \<le> I128_MAX"
  shows "muldiv_i128 n f 10000 = Inr (n * f div 10000)" "0 \<le> n * f div 10000" "n * f div 10000 < n"
    "in_i128 (n - n * f div 10000)"
proof -
  have b: "n * f \<le> n * 1000" using assms by (intro mult_left_mono) auto
  show "muldiv_i128 n f 10000 = Inr (n * f div 10000)"
    by (rule muldiv_i128_nonneg) (use b assms in linarith)+
  show l: "n * f div 10000 < n" using b assms(1) by linarith
  show z: "0 \<le> n * f div 10000" using assms by (simp add: pos_imp_zdiv_nonneg_iff)
  show "in_i128 (n - n * f div 10000)" using l z assms by (simp add: in_i128_nonneg)
qed

lemma amm_accrue_fee_keeps:
  "amm_accrue_fee fee p = Inr p' \<Longrightarrow>
     lp_pool_id p' = lp_pool_id p \<and> lp_token_a p' = lp_token_a p \<and> lp_token_b p' = lp_token_b p \<and>
     reserve_a p' = reserve_a p \<and> reserve_b p' = reserve_b p \<and> total_shares p' = total_shares p \<and>
     lp_fee_bps p' = lp_fee_bps p"
  by (auto simp: amm_accrue_fee_def and_then_Inr_iff split: if_splits)

lemma swap_reserves_keeps:
  assumes "swap_reserves is_a n k fee p = Inr p'"
  shows "lp_pool_id p' = lp_pool_id p" "lp_token_a p' = lp_token_a p" "lp_token_b p' = lp_token_b p"
    "total_shares p' = total_shares p" "lp_fee_bps p' = lp_fee_bps p"
    "reserve_a p' = (if is_a then add_i128 (reserve_a p) n else sub_i128 (reserve_a p) k)"
    "reserve_b p' = (if is_a then sub_i128 (reserve_b p) k else add_i128 (reserve_b p) n)"
  using assms
  by (auto simp: swap_reserves_def Let_def and_then_Inr_iff dest!: amm_accrue_fee_keeps split: if_splits)

lemma swap_Inr:
  assumes "swap transfer e i sender t n m s = Inr (r, s')"
  shows "\<exists>p rin rout is_a p'. 0 < n \<and> am_pool s i = Some p \<and> swap_sides p t = Inr (rin, rout, is_a) \<and>
     (muldiv_i128 n (uint (lp_fee_bps p)) 10000 :: int amm_result) = Inr (sw_fee_amount r) \<and>
     calculate_output (sub_i128 n (sw_fee_amount r)) rin rout = Inr (sw_amount_out r) \<and>
     0 < sw_amount_out r \<and> m \<le> sw_amount_out r \<and>
     swap_reserves is_a n (sw_amount_out r) (sw_fee_amount r) p = Inr p' \<and>
     new_reserve_a r = reserve_a p' \<and> new_reserve_b r = reserve_b p' \<and>
     am_pool s' = (am_pool s)(lp_pool_id p' \<mapsto> p') \<and> am_lp_shares s' = am_lp_shares s \<and>
     am_provider_debt s' = am_provider_debt s \<and> am_pool_counter s' = am_pool_counter s \<and>
     (\<exists>tk1. transfer (am_tokens s) t sender (contract_address e) n = Some tk1 \<and>
        transfer tk1 (if is_a then lp_token_b p else lp_token_a p) (contract_address e) sender
          (sw_amount_out r) = Some (am_tokens s'))"
proof -
  obtain p rin rout is_a fee out imp s1 p' s2 where h: "0 < n" "am_pool s i = Some p"
      "swap_sides p t = Inr (rin, rout, is_a)" "(muldiv_i128 n (uint (lp_fee_bps p)) 10000 :: int amm_result) = Inr fee"
      "calculate_output (sub_i128 n fee) rin rout = Inr out" "0 < out" "m \<le> out"
      "move_tokens transfer t sender (contract_address e) n s = Inr s1"
      "swap_reserves is_a n out fee p = Inr p'"
      "move_tokens transfer (if is_a then lp_token_b p' else lp_token_a p') (contract_address e) sender out
         (save_pool p' s1) = Inr s'"
      "r = \<lparr>sw_amount_out = out, sw_fee_amount = fee, new_reserve_a = reserve_a p',
            new_reserve_b = reserve_b p', sw_price_impact = imp\<rparr>"
    using assms unfolding swap_def
    by (clarsimp simp: and_then_Inr_iff if_fail_Inr_iff ok_or_Inr_iff not_le not_less)
  then show ?thesis
    using swap_reserves_keeps [OF h(9)]
    by (auto simp: move_tokens_Inr_iff save_pool_def)
qed

text \<open>The exact amounts of a swap between reserves that are large enough for it.\<close>

lemma swap_amounts:
  assumes n: "0 < n" "0 < rin" "0 < rout" "n * (rin + rout + n + 10000) \<le> I128_MAX" "in_i128 (rin + n)"
    and f: "0 \<le> f" "f \<le> 1000" "muldiv_i128 n f 10000 = (Inr fee :: int amm_result)"
    and out: "calculate_output (sub_i128 n fee) rin rout = Inr out"
  shows "out < rout" "rin * rout \<le> (rin + n) * (rout - out)"
proof -
  let ?x = "n - fee"
  have "n * rout \<le> n * (rin + rout + n + 10000)" "n * 10000 \<le> n * (rin + rout + n + 10000)"
    using n by (auto intro!: mult_left_mono)
  then have m: "n * rout \<le> I128_MAX" "n * 10000 \<le> I128_MAX" using n(4) by linarith+
  note fb = fee_bounds [OF n(1) f(1,2) m(2)]
  have "fee = n * f div 10000" using f(3) by (simp add: fb(1))
  then have x: "sub_i128 n fee = ?x" "0 < ?x" "?x \<le> n" using fb by (simp_all add: sub_i128_exact)
  have "?x * rout \<le> n * rout" using x(3) n(3) by (intro mult_right_mono) auto
  then have "?x * rout \<le> I128_MAX" using m(1) by linarith
  then have "calculate_output ?x rin rout = Inr (?x * rout div (rin + ?x))"
    using x(2,3) n(2,3,5) by (intro calculate_output_exact) (auto simp: in_i128_def)
  then have o: "out = ?x * rout div (rin + ?x)" using out x(1) by simp
  note cp = constant_product [OF x(2) n(2,3), folded o]
  show "out < rout" by (rule cp(1))
  have "rin * rout \<le> (rin + ?x) * (rout - out)" by (rule cp(2))
  also have "\<dots> \<le> (rin + n) * (rout - out)" using cp(1) x(3) by (intro mult_right_mono) auto
  finally show "rin * rout \<le> (rin + n) * (rout - out)" .
qed

text \<open>Two transfers in opposite directions, as a trade and a change of liquidity make them.\<close>

context sep41
begin

lemma two_transfers:
  assumes "ledger_ok tk" "transfer tk t src dst n = Some tk1" "transfer tk1 t2 src2 dst2 k = Some tk2"
    and "src \<noteq> dst" "src2 \<noteq> dst2" "0 \<le> n" "0 \<le> k"
  shows "ledger_ok tk2" "holding tk2 t' a = holding tk t' a + moved t src dst n t' a + moved t2 src2 dst2 k t' a"
proof -
  note m = transfer_moved [OF assms(1,2,4,6)]
  note m2 = transfer_moved [OF m(1) assms(3,5,7)]
  show "ledger_ok tk2" by (rule m2(1))
  show "holding tk2 t' a = holding tk t' a + moved t src dst n t' a + moved t2 src2 dst2 k t' a" by (simp add: m(2) m2(2))
qed

end

text \<open>
  C29. A swap that goes through leaves both reserves positive and their product at least as large as
  before, and changes neither the shares nor any other pool, as long as the amounts stay within 128
  bits. On the ledger, for every SEP-41 token, the sender pays exactly the amount put in, in the token
  put in, and receives in the other token of the pool exactly the amount that the quote named, which is
  at least the minimum asked for; no other holding changes. The reserves move by these same amounts.
\<close>

theorem swap_never_lowers_the_product:
  assumes sep: "sep41 transfer holding ledger_ok" "ledger_ok (am_tokens s)" "sender \<noteq> contract_address e"
    and sw: "swap transfer e i sender t n m s = Inr (r, s')"
    and p: "am_pool s i = Some p" "lp_pool_id p = i" "0 < reserve_a p" "0 < reserve_b p"
    and fee: "lp_fee_bps p \<le> AMM_MAX_FEE_BPS"
    and small: "n * (reserve_a p + reserve_b p + n + 10000) \<le> I128_MAX"
    and range: "in_i128 (reserve_a p + n)" "in_i128 (reserve_b p + n)"
  shows "\<exists>p'. am_pool s' = (am_pool s)(i \<mapsto> p') \<and>
    0 < reserve_a p' \<and> 0 < reserve_b p' \<and>
    reserve_a p * reserve_b p \<le> reserve_a p' * reserve_b p' \<and>
    (reserve_a p', reserve_b p') = (if t = lp_token_a p then (reserve_a p + n, reserve_b p - sw_amount_out r)
      else (reserve_a p - sw_amount_out r, reserve_b p + n)) \<and>
    total_shares p' = total_shares p \<and> am_lp_shares s' = am_lp_shares s \<and>
    get_amount_out s i t n = Inr (sw_amount_out r) \<and> m \<le> sw_amount_out r \<and>
    new_reserve_a r = reserve_a p' \<and> new_reserve_b r = reserve_b p' \<and>
    (\<forall>t' a. holding (am_tokens s') t' a = holding (am_tokens s) t' a + moved t sender (contract_address e) n t' a +
       moved (if t = lp_token_a p then lp_token_b p else lp_token_a p) (contract_address e) sender (sw_amount_out r) t' a)"
proof -
  obtain rin rout is_a p' where h: "0 < n" "swap_sides p t = Inr (rin, rout, is_a)"
      "(muldiv_i128 n (uint (lp_fee_bps p)) 10000 :: int amm_result) = Inr (sw_fee_amount r)"
      "calculate_output (sub_i128 n (sw_fee_amount r)) rin rout = Inr (sw_amount_out r)"
      "0 < sw_amount_out r" "m \<le> sw_amount_out r"
      "swap_reserves is_a n (sw_amount_out r) (sw_fee_amount r) p = Inr p'"
      "new_reserve_a r = reserve_a p'" "new_reserve_b r = reserve_b p'"
      "am_pool s' = (am_pool s)(lp_pool_id p' \<mapsto> p')" "am_lp_shares s' = am_lp_shares s"
    and "\<exists>tk1. transfer (am_tokens s) t sender (contract_address e) n = Some tk1 \<and>
      transfer tk1 (if is_a then lp_token_b p else lp_token_a p) (contract_address e) sender (sw_amount_out r) = Some (am_tokens s')"
    using swap_Inr [OF sw] p(1) by auto
  then obtain tk1 where tk: "transfer (am_tokens s) t sender (contract_address e) n = Some tk1"
      "transfer tk1 (if is_a then lp_token_b p else lp_token_a p) (contract_address e) sender (sw_amount_out r) = Some (am_tokens s')"
    by blast
  have rr: "0 < rin" "0 < rout" "rin + rout = reserve_a p + reserve_b p" "in_i128 (rin + n)" "in_i128 rout"
    using h(1,2) p(3,4) range by (auto simp: swap_sides_Inr_iff in_i128_nonneg split: if_splits)
  have am: "sw_amount_out r < rout" "rin * rout \<le> (rin + n) * (rout - sw_amount_out r)"
    using swap_amounts [OF h(1) rr(1,2) _ rr(4) _ _ h(3,4)] small rr(3) fee
    by (simp_all add: AMM_MAX_FEE_BPS_def word_le_def)
  have out: "sub_i128 rout (sw_amount_out r) = rout - sw_amount_out r"
    using am(1) h(5) rr(5) by (intro sub_i128_shrink) auto
  have inn: "add_i128 rin n = rin + n" using rr(4) by (rule add_i128_exact)
  note keeps = swap_reserves_keeps [OF h(7)]
  have pos: "0 < rin + n" "0 < rout - sw_amount_out r" using rr(1) h(1) am(1) by auto
  have res: "(reserve_a p', reserve_b p') =
      (if is_a then (rin + n, rout - sw_amount_out r) else (rout - sw_amount_out r, rin + n))"
    and old: "reserve_a p * reserve_b p = rin * rout"
    using keeps(6,7) h(2) inn out by (auto simp: swap_sides_Inr_iff split: if_splits)
  have quote: "get_amount_out s i t n = Inr (sw_amount_out r)"
    using p(1) h(2-4) by (simp add: get_amount_out_def)
  have side: "is_a \<longleftrightarrow> t = lp_token_a p" using h(2) by (auto simp: swap_sides_Inr_iff split: if_splits)
  have led: "holding (am_tokens s') t' a = holding (am_tokens s) t' a + moved t sender (contract_address e) n t' a +
       moved (if t = lp_token_a p then lp_token_b p else lp_token_a p) (contract_address e) sender (sw_amount_out r) t' a" for t' a
    using sep41.two_transfers(2) [OF sep(1,2) tk sep(3) sep(3) [symmetric]] h(1,5) by (simp add: side)
  show ?thesis
  proof (intro exI [of _ p'] conjI allI)
    show "(reserve_a p', reserve_b p') = (if t = lp_token_a p then (reserve_a p + n, reserve_b p - sw_amount_out r)
      else (reserve_a p - sw_amount_out r, reserve_b p + n))"
      using res h(2) side by (auto simp: swap_sides_Inr_iff split: if_splits)
    show "am_pool s' = (am_pool s)(i \<mapsto> p')" using h(10) keeps(1) p(2) by simp
    show "0 < reserve_a p'" "0 < reserve_b p'" using res pos by (auto split: if_splits)
    show "reserve_a p * reserve_b p \<le> reserve_a p' * reserve_b p'"
      using res old am(2) by (auto simp: mult.commute split: if_splits)
  qed (use h keeps quote led in simp_all)
qed

lemma amm_made_nonneg: "amm_pool_made = Inr (r, s) \<Longrightarrow> ledger_nonneg (am_tokens s)"
  by (auto simp: amm_pool_made_eq amm_made_def ledger_nonneg_def)

theorem swap_never_lowers_the_product_witness:
  "\<exists>s r s' p p'. swap ledger_transfer amm_env 1 2 20 500000 1 s = Inr (r, s') \<and> am_pool s 1 = Some p \<and>
     reserve_a p * reserve_b p = 1000000000000 \<and> am_pool s' 1 = Some p' \<and>
     1000000000000 \<le> reserve_a p' * reserve_b p' \<and> get_amount_out s 1 20 500000 = Inr 310344 \<and>
     ledger_holding (am_tokens s') 21 2 = ledger_holding (am_tokens s) 21 2 + 310344"
proof -
  obtain s r s' where s: "amm_pool_made = Inr ((1, 1000000), s)" "am_pool s 1 = Some pool_was"
      "swap ledger_transfer amm_env 1 2 20 500000 1 s = Inr (r, s')" "sw_amount_out r = 310344"
    using amm_swapped_ok by blast
  have "\<exists>p'. am_pool s' 1 = Some p' \<and> 1000000000000 \<le> reserve_a p' * reserve_b p' \<and> get_amount_out s 1 20 500000 = Inr 310344 \<and>
     ledger_holding (am_tokens s') 21 2 = ledger_holding (am_tokens s) 21 2 + 310344"
    using swap_never_lowers_the_product [OF ledger.sep41_axioms amm_made_nonneg [OF s(1)] _ s(3,2)] s(4)
    by (auto simp: pool_was_def AMM_MAX_FEE_BPS_def in_i128_def I128_MAX_def I128_MIN_def amm_env_def moved_def)
  moreover have "reserve_a pool_was * reserve_b pool_was = 1000000000000" by (simp add: pool_was_def)
  ultimately show ?thesis using s(2,3) by blast
qed

section \<open>Quotes\<close>

lemma fee_net_ge:
  assumes "0 \<le> f" "f \<le> 1000" "0 < (d::int)"
  defines "x \<equiv> d * 10000 div (10000 - f) + 1"
  shows "d \<le> x - x * f div 10000" and "0 < x" and "x \<le> 3 * d"
proof -
  have f: "0 < 10000 - f" "9000 \<le> 10000 - f" using assms by auto
  have up: "d * 10000 < x * (10000 - f)"
    unfolding x_def using div_round_up [OF f(1), of "d * 10000"] by (simp only: mult.commute)
  have "10000 * (x * f div 10000) \<le> x * f" by (rule div_round_down) simp
  then have "10000 * d < 10000 * (x - x * f div 10000)" using up by (simp add: algebra_simps)
  then show "d \<le> x - x * f div 10000" by simp
  have "0 \<le> d * 10000 div (10000 - f)" using f assms by (simp add: pos_imp_zdiv_nonneg_iff)
  then show "0 < x" by (simp add: x_def)
  have "d * 10000 div (10000 - f) \<le> d * 10000 div 9000" using f assms by (intro zdiv_mono2) auto
  also have "\<dots> \<le> 2 * d" using assms by simp
  finally show "x \<le> 3 * d" using assms by (simp add: x_def)
qed

lemma input_suffices:
  assumes "0 < rin" "0 < k" "k < (rout::int)" "rin * k div (rout - k) + 1 \<le> a"
  shows "k \<le> a * rout div (rin + a)"
proof -
  let ?d = "rin * k div (rout - k) + 1"
  have "rin * k < ?d * (rout - k)"
    using div_round_up [of "rout - k" "rin * k"] assms(3) by (simp add: mult.commute)
  also have "\<dots> \<le> a * (rout - k)" using assms by (intro mult_right_mono) auto
  finally have "k * (rin + a) \<le> a * rout" by (simp add: algebra_simps)
  moreover have "0 < ?d" using assms by (simp add: pos_imp_zdiv_nonneg_iff add_nonneg_pos)
  ultimately show ?thesis using assms
    by (metis add_pos_pos int_one_le_iff_zero_less less_le_trans zdiv_mono1 nonzero_mult_div_cancel_right less_irrefl)
qed

text \<open>
  The input that the reverse quote asks for a wanted output, which must be less than the reserve,
  does buy at least that output: the forward quote on it gives as much or more, rounding and fee
  included, as long as the amounts stay within 128 bits.
\<close>

theorem quoted_input_buys_the_output:
  assumes p: "am_pool s i = Some p" "swap_sides p t = Inr (rin, rout, is_a)" "0 < rin"
    and fee: "lp_fee_bps p \<le> AMM_MAX_FEE_BPS"
    and k: "0 < k" "k < rout" "rout \<le> I128_MAX"
    and small: "rin * k \<le> I128_MAX"
      "(rin * k div (rout - k) + 1) * (3 * (rin + rout) + 30000) \<le> I128_MAX"
  shows "\<exists>x y. get_amount_in s i t k = Inr x \<and> get_amount_out s i t x = Inr y \<and> k \<le> y"
proof -
  define f where "f = uint (lp_fee_bps p)"
  define d where "d = rin * k div (rout - k) + 1"
  define x where "x = d * 10000 div (10000 - f) + 1"
  define a where "a = x - x * f div 10000"
  have f: "0 \<le> f" "f \<le> 1000" using fee by (simp_all add: f_def AMM_MAX_FEE_BPS_def word_le_def)
  have q: "0 \<le> rin * k div (rout - k)" using p(3) k by (simp add: pos_imp_zdiv_nonneg_iff)
  then have d: "0 < d" by (simp add: d_def)
  note net = fee_net_ge [OF f d, folded x_def, folded a_def]
  have m: "d * c \<le> I128_MAX" if "c \<le> 3 * (rin + rout) + 30000" for c
    using mult_left_mono [OF that, of d] d small(2) [folded d_def] by linarith
  have x3: "x * c \<le> I128_MAX" if "3 * c \<le> 3 * (rin + rout) + 30000" "0 \<le> c" for c
    using mult_right_mono [OF net(3) that(2)] m [OF that(1)] by (simp add: algebra_simps)
  have dl: "d \<le> I128_MAX" "d * 10000 \<le> I128_MAX" using m [of 1] m [of 10000] p(3) k by simp_all
  have e1: "div_i128 (mul_i128 rin k) (sub_i128 rout k) = (Inr (d - 1) :: int amm_result)"
    using small(1) p(3) k by (simp add: mul_i128_exact sub_i128_shrink in_i128_nonneg div_i128_nonneg d_def)
  have e2: "add_i128 (d - 1) 1 = d" using d dl by (simp add: add_i128_exact in_i128_nonneg)
  have e3: "muldiv_i128 d 10000 (sub_i128 10000 f) = (Inr (x - 1) :: int amm_result)"
    using f d dl by (simp add: muldiv_i128_nonneg sub_i128_shrink in_i128_nonneg I128_MAX_def x_def)
  have x1: "x \<le> I128_MAX" "x * 10000 \<le> I128_MAX" "x * rout \<le> I128_MAX"
    using x3 [of 1] x3 [of 10000] x3 [of rout] p(3) k by simp_all
  have "calculate_input_for_output k rin rout (lp_fee_bps p) = Inr x"
    using k p(3) e1 e2 e3 net(2) x1(1)
    by (simp add: calculate_input_for_output_def f_def [symmetric] add_i128_exact in_i128_nonneg)
  then have inp: "get_amount_in s i t k = Inr x" using p by (simp add: get_amount_in_def)
  note fb = fee_bounds [OF net(2) f x1(2), folded a_def]
  have a: "0 < a" "a \<le> x" using net(1) d fb(2) by (simp_all add: a_def)
  have "a * rout \<le> x * rout" using a(2) k by (intro mult_right_mono) auto
  then have ar: "a * rout \<le> I128_MAX" using x1(3) by linarith
  have "rin * 1 \<le> rin * d" using d p(3) by (intro mult_left_mono) auto
  then have "rin + a \<le> 3 * d + rin * d" using a(2) net(3) by linarith
  then have "rin + a \<le> d * (rin + 3)" by (simp add: algebra_simps)
  then have "calculate_output a rin rout = Inr (a * rout div (rin + a))"
    using a ar p(3) k m [of "rin + 3"] by (intro calculate_output_exact) auto
  then have out: "get_amount_out s i t x = Inr (a * rout div (rin + a))"
    using p fb(4) by (simp add: get_amount_out_def f_def [symmetric] sub_i128_exact a_def fb(1))
  have "k \<le> a * rout div (rin + a)" using p(3) k net(1) by (intro input_suffices) (auto simp: d_def)
  with inp out show ?thesis by blast
qed

theorem quoted_input_buys_the_output_witness:
  "\<exists>(s :: ledger amm) x y. am_pool s 1 = Some pool_was \<and> get_amount_in s 1 20 310344 = Inr x \<and> get_amount_out s 1 20 x = Inr y \<and> 310344 \<le> y"
proof -
  obtain s :: "ledger amm" where s: "am_pool s 1 = Some pool_was" using amm_pool_made_ok by blast
  have "\<exists>x y. get_amount_in s 1 20 310344 = Inr x \<and> get_amount_out s 1 20 x = Inr y \<and> 310344 \<le> y"
    by (rule quoted_input_buys_the_output [OF s, where rin = 1000000 and rout = 1000000 and is_a = True])
      (simp_all add: pool_was_def AMM_MAX_FEE_BPS_def I128_MAX_def swap_sides_def)
  with s show ?thesis by blast
qed

section \<open>Adding and removing liquidity\<close>

lemma settle_rewards_Inr_iff [result_simps]:
  "settle_rewards i who s = Inr (rewards, s') \<longleftrightarrow>
     (case am_pool s i of
        None \<Rightarrow> rewards = 0 \<and> s' = s
      | Some p \<Rightarrow>
          (let delta = sub_i128 (fee_per_share_accum p) (get_provider_debt s i who) in
           (if get_lp_shares s i who > 0 \<and> delta > 0
            then muldiv_i128 (get_lp_shares s i who) delta AMM_PRECISION = (Inr rewards :: int amm_result)
            else rewards = 0) \<and>
           s' = set_provider_debt i who (fee_per_share_accum p) s))"
  by (auto simp: settle_rewards_def Let_def and_then_Inr_iff split: option.splits)

lemma add_liquidity_Inr:
  assumes "add_liquidity transfer e i who ad bd am bm s = Inr (r, s')" "am_pool s i = Some p"
  shows "optimal_amounts p ad bd am bm = Inr (added_a r, added_b r)"
    and "shares_for p (added_a r) (added_b r) = Inr (shares_minted r)" "0 < shares_minted r"
    and "\<exists>tk. transfer (am_tokens s) (lp_token_a p) who (contract_address e) (added_a r) = Some tk \<and>
           transfer tk (lp_token_b p) who (contract_address e) (added_b r) = Some (am_tokens s')"
    and "am_pool s' = (am_pool s)(lp_pool_id p \<mapsto>
           p\<lparr>reserve_a := add_i128 (reserve_a p) (added_a r), reserve_b := add_i128 (reserve_b p) (added_b r),
             total_shares := add_i128 (total_shares p) (shares_minted r)\<rparr>)"
    and "am_lp_shares s' =
           (am_lp_shares s)((i, who) \<mapsto> add_i128 (get_lp_shares s i who) (shares_minted r))"
    and "get_provider_debt s' i who = fee_per_share_accum p"
    and "am_pool_counter s' = am_pool_counter s"
  using assms
  by (auto simp: add_liquidity_def Let_def and_then_Inr_iff if_fail_Inr_iff ok_or_Inr_iff settle_rewards_Inr_iff
      move_tokens_Inr_iff storage_defs split: prod.splits)

text \<open>Burning \<open>n\<close> shares right after they were minted for \<open>a\<close> returns at most \<open>a\<close>.\<close>

lemma positive_share:
  assumes "0 < T" "0 < c" "muldiv_i128 a T R = (Inr c :: int amm_result)" "0 < R" "in_i128 (a * T)"
  shows "0 < a" "c = a * T sdiv R"
proof -
  show c: "c = a * T sdiv R"
    using assms(3-5) by (auto simp: muldiv_i128_def mul_i128_exact div_i128_def checked_div_i128_def split: if_splits)
  show "0 < a"
  proof (rule ccontr)
    assume "\<not> 0 < a"
    then have "a * T \<le> 0" using assms(1) by (simp add: mult_le_0_iff)
    then have "a * T sdiv R \<le> 0" using assms(4) by (auto simp: signed_divide_int_def sgn_if pos_imp_zdiv_nonneg_iff)
    then show False using c assms(2) by simp
  qed
qed

lemma fair_share:
  assumes "0 < T" "0 < n"
    and "muldiv_i128 a T R = (Inr c :: int amm_result)" "n \<le> c" "0 < R" "in_i128 (a * T)"
      "n * (R + a) \<le> I128_MAX" "muldiv_i128 n (R + a) (T + n) = (Inr k :: int amm_result)"
  shows "k \<le> a"
proof -
  have "0 < c" using assms(2,4) by simp
  note ps = positive_share [OF assms(1) this assms(3,5,6)]
  have c: "c = a * T sdiv R" and "0 < a" by (fact ps(2), fact ps(1))
  then have aT: "0 \<le> a * T" using assms(1) by simp
  have "R * n \<le> R * (a * T div R)" using c assms(4,5) aT by (simp add: sdiv_int_nonneg)
  also have "\<dots> \<le> a * T" using assms(5) by (rule div_round_down)
  finally have "n * (R + a) \<le> a * (T + n)" by (simp add: algebra_simps)
  then have "n * (R + a) div (T + n) \<le> a * (T + n) div (T + n)" using assms by (intro zdiv_mono1) auto
  moreover have "k = n * (R + a) div (T + n)"
    using assms(1,2,5,7,8) \<open>0 < a\<close> by (simp add: muldiv_i128_nonneg)
  ultimately show ?thesis using assms(1,2) by simp
qed

lemma remove_liquidity_Inr:
  assumes "remove_liquidity transfer e i who n am bm s = Inr (r, s')" "am_pool s i = Some p"
  shows "0 < n" "n \<le> get_lp_shares s i who"
    and "muldiv_i128 n (reserve_a p) (total_shares p) = (Inr (removed_a r) :: int amm_result)"
    and "muldiv_i128 n (reserve_b p) (total_shares p) = (Inr (removed_b r) :: int amm_result)"
    and "\<exists>s1. settle_rewards i who s = Inr (rewards_claimed r, s1)"
    and "am_pool s' = (am_pool s)(lp_pool_id p \<mapsto>
           p\<lparr>reserve_a := sub_i128 (reserve_a p) (removed_a r), reserve_b := sub_i128 (reserve_b p) (removed_b r),
             total_shares := sub_i128 (total_shares p) n\<rparr>)"
    and "am_lp_shares s' = (am_lp_shares s)((i, who) \<mapsto> sub_i128 (get_lp_shares s i who) n)"
    and "am_pool_counter s' = am_pool_counter s"
    and "0 < removed_a r" "0 < removed_b r"
    and "\<exists>tk1 tk2. transfer (am_tokens s) (lp_token_a p) (contract_address e) who (removed_a r) = Some tk1 \<and>
      transfer tk1 (lp_token_b p) (contract_address e) who (removed_b r) = Some tk2 \<and>
      (if 0 < rewards_claimed r
       then transfer tk2 (lp_token_a p) (contract_address e) who (rewards_claimed r) = Some (am_tokens s')
       else am_tokens s' = tk2)"
proof -
  obtain rewards s1 a b s3 s4 where h: "0 < n" "n \<le> get_lp_shares s i who"
      "settle_rewards i who s = Inr (rewards, s1)"
      "muldiv_i128 n (reserve_a p) (total_shares p) = (Inr a :: int amm_result)"
      "muldiv_i128 n (reserve_b p) (total_shares p) = (Inr b :: int amm_result)"
      "move_tokens transfer (lp_token_a p) (contract_address e) who a
         (set_lp_shares i who (sub_i128 (get_lp_shares s i who) n)
           (save_pool (p\<lparr>reserve_a := sub_i128 (reserve_a p) a, reserve_b := sub_i128 (reserve_b p) b,
             total_shares := sub_i128 (total_shares p) n\<rparr>) s1)) = Inr s3"
      "move_tokens transfer (lp_token_b p) (contract_address e) who b s3 = Inr s4"
      "(if rewards > 0 then move_tokens transfer (lp_token_a p) (contract_address e) who rewards s4 else Inr s4)
         = Inr s'"
      "r = \<lparr>removed_a = a, removed_b = b, rewards_claimed = rewards\<rparr>" "0 < a" "0 < b"
  proof -
    have "am_pool s1 i = Some p" if "settle_rewards i who s = Inr (rewards, s1)" for rewards s1
      using that assms(2) by (auto simp: settle_rewards_Inr_iff Let_def storage_defs)
    then show ?thesis
      using assms(1) that unfolding remove_liquidity_def Let_def
      by (clarsimp simp: and_then_Inr_iff if_fail_Inr_iff ok_or_Inr_iff not_le not_less split del: if_split)
  qed
  have same: "am_pool s1 = am_pool s \<and> am_lp_shares s1 = am_lp_shares s \<and> am_pool_counter s1 = am_pool_counter s"
    using h(3) assms(2) by (auto simp: settle_rewards_Inr_iff Let_def storage_defs)
  have last: "am_pool s' = am_pool s4 \<and> am_lp_shares s' = am_lp_shares s4 \<and> am_pool_counter s' = am_pool_counter s4"
    using h(8) by (auto simp: move_tokens_Inr_iff split: if_splits)
  show "0 < n" "n \<le> get_lp_shares s i who" by (fact h(1,2))+
  show "muldiv_i128 n (reserve_a p) (total_shares p) = (Inr (removed_a r) :: int amm_result)"
    "muldiv_i128 n (reserve_b p) (total_shares p) = (Inr (removed_b r) :: int amm_result)"
    "\<exists>s1. settle_rewards i who s = Inr (rewards_claimed r, s1)" using h(3-5,9) by simp_all
  show "am_pool s' = (am_pool s)(lp_pool_id p \<mapsto>
           p\<lparr>reserve_a := sub_i128 (reserve_a p) (removed_a r), reserve_b := sub_i128 (reserve_b p) (removed_b r),
             total_shares := sub_i128 (total_shares p) n\<rparr>)"
    "am_lp_shares s' = (am_lp_shares s)((i, who) \<mapsto> sub_i128 (get_lp_shares s i who) n)"
    "am_pool_counter s' = am_pool_counter s"
    using h(6,7,9) same last by (auto simp: move_tokens_Inr_iff storage_defs)
  show "0 < removed_a r" "0 < removed_b r" using h(9-) by simp_all
  have "am_tokens s1 = am_tokens s" using h(3) assms(2) by (auto simp: settle_rewards_Inr_iff Let_def storage_defs)
  then show "\<exists>tk1 tk2. transfer (am_tokens s) (lp_token_a p) (contract_address e) who (removed_a r) = Some tk1 \<and>
      transfer tk1 (lp_token_b p) (contract_address e) who (removed_b r) = Some tk2 \<and>
      (if 0 < rewards_claimed r
       then transfer tk2 (lp_token_a p) (contract_address e) who (rewards_claimed r) = Some (am_tokens s')
       else am_tokens s' = tk2)"
    using h(6-9) by (auto simp: move_tokens_Inr_iff storage_defs split: if_splits)
qed

text \<open>
  C30. Adding liquidity to a pool that has some, and removing the shares that were minted, leaves the
  provider with no more of any token than before, on every SEP-41 ledger, and the contract with no
  less: what is paid out is at most what was put in of either token, with no reward, so rounding never
  favours the provider; no other holding changes. The amounts have to stay within 128 bits.
\<close>

theorem liquidity_round_trip_has_no_profit:
  assumes sep: "sep41 transfer holding ledger_ok" "ledger_ok (am_tokens s)" "who \<noteq> me"
      "contract_address e = me" "contract_address e' = me"
    and add: "add_liquidity transfer e i who ad bd am bm s = Inr (r, s1)"
    and rem: "remove_liquidity transfer e' i who (shares_minted r) am' bm' s1 = Inr (q, s2)"
    and p: "am_pool s i = Some p" "lp_pool_id p = i" "0 < reserve_a p" "0 < reserve_b p" "0 < total_shares p"
    and small: "in_i128 (added_a r * total_shares p)" "in_i128 (added_b r * total_shares p)"
      "in_i128 (reserve_a p + added_a r)" "in_i128 (reserve_b p + added_b r)"
      "in_i128 (total_shares p + shares_minted r)"
      "shares_minted r * (reserve_a p + added_a r) \<le> I128_MAX"
      "shares_minted r * (reserve_b p + added_b r) \<le> I128_MAX"
  shows "(\<forall>t. holding (am_tokens s2) t who \<le> holding (am_tokens s) t who) \<and>
    (\<forall>t. holding (am_tokens s) t me \<le> holding (am_tokens s2) t me) \<and>
    (\<forall>t a. holding (am_tokens s2) t a = holding (am_tokens s) t a +
       moved (lp_token_a p) who me (added_a r - removed_a q) t a + moved (lp_token_b p) who me (added_b r - removed_b q) t a) \<and>
    removed_a q \<le> added_a r \<and> removed_b q \<le> added_b r \<and> rewards_claimed q = 0"
proof -
  let ?n = "shares_minted r"
  note ad = add_liquidity_Inr [OF add p(1)]
  obtain sa sb where sh: "muldiv_i128 (added_a r) (total_shares p) (reserve_a p) = (Inr sa :: int amm_result)"
      "muldiv_i128 (added_b r) (total_shares p) (reserve_b p) = (Inr sb :: int amm_result)" "?n = min sa sb"
    using ad(2) p(5) by (auto simp: shares_for_def and_then_Inr_iff)
  obtain p1 where p1: "am_pool s1 i = Some p1" "lp_token_a p1 = lp_token_a p" "lp_token_b p1 = lp_token_b p" "reserve_a p1 = reserve_a p + added_a r"
      "reserve_b p1 = reserve_b p + added_b r" "total_shares p1 = total_shares p + ?n"
      "fee_per_share_accum p1 = fee_per_share_accum p"
    using ad(5) p(2) small by (auto simp: add_i128_exact)
  note re = remove_liquidity_Inr [OF rem p1(1)]
  have fair: "k \<le> a"
    if m: "muldiv_i128 a (total_shares p) R = (Inr c :: int amm_result)" "?n \<le> c" "0 < R"
      "in_i128 (a * total_shares p)" "?n * (R + a) \<le> I128_MAX"
      "muldiv_i128 ?n (R + a) (total_shares p + ?n) = (Inr k :: int amm_result)" for a R c k
    by (rule fair_share [OF p(5) ad(3) m])
  have a: "removed_a q \<le> added_a r"
    using fair [OF sh(1) _ p(3) small(1,6)] re(3) sh(3) p1(4,6) by simp
  have b: "removed_b q \<le> added_b r"
    using fair [OF sh(2) _ p(4) small(2,7)] re(4) sh(3) p1(5,6) by simp
  have c: "rewards_claimed q = 0"
    using re(5) p1(1,7) ad(7) by (auto simp: settle_rewards_Inr_iff sub_i128_def)
  have pos: "0 < added_a r" "0 < added_b r"
    using positive_share(1) [OF p(5) _ sh(1) p(3) small(1)] positive_share(1) [OF p(5) _ sh(2) p(4) small(2)] ad(3) sh(3) by simp_all
  obtain tk where t: "transfer (am_tokens s) (lp_token_a p) who me (added_a r) = Some tk"
      "transfer tk (lp_token_b p) who me (added_b r) = Some (am_tokens s1)" using ad(4) sep(4) by auto
  obtain tk2 where u: "transfer (am_tokens s1) (lp_token_a p) me who (removed_a q) = Some tk2"
      "transfer tk2 (lp_token_b p) me who (removed_b q) = Some (am_tokens s2)" using re(11) c sep(5) p1(2,3) by auto
  note m1 = sep41.two_transfers [OF sep(1,2) t sep(3,3)]
  note m2 = sep41.two_transfers [OF sep(1) m1(1) u sep(3) [symmetric] sep(3) [symmetric]]
  have led: "holding (am_tokens s2) t a = holding (am_tokens s) t a +
       moved (lp_token_a p) who me (added_a r - removed_a q) t a + moved (lp_token_b p) who me (added_b r - removed_b q) t a" for t a
    using m1(2) [of t a] m2(2) [of t a] pos re(9,10) by (simp add: moved_def)
  show ?thesis using a b c led sep(3) by (auto simp: moved_def)
qed

lemma amm_round_trip_ok:
  "\<exists>s r s1 q s2. amm_pool_made = Inr ((1, 1000000), s) \<and> am_pool s 1 = Some pool_was \<and>
     add_liquidity ledger_transfer amm_env 1 2 1001 2000 0 0 s = Inr (r, s1) \<and>
     r = \<lparr>shares_minted = 1001, added_a = 1001, added_b = 1001\<rparr> \<and>
     remove_liquidity ledger_transfer amm_env 1 2 1001 0 0 s1 = Inr (q, s2)"
proof -
  obtain s where s: "amm_pool_made = Inr ((1, 1000000), s)" "am_pool s 1 = Some pool_was"
    using amm_pool_made_ok by blast
  have "(case and_then amm_pool_made (\<lambda>(_, s). add_liquidity ledger_transfer amm_env 1 2 1001 2000 0 0 s) of
      Inl _ \<Rightarrow> False
    | Inr (r, s1) \<Rightarrow> r = \<lparr>shares_minted = 1001, added_a = 1001, added_b = 1001\<rparr> \<and>
        is_ok (remove_liquidity ledger_transfer amm_env 1 2 1001 0 0 s1))"
    by code_simp
  then obtain r s1 q s2 where "add_liquidity ledger_transfer amm_env 1 2 1001 2000 0 0 s = Inr (r, s1)"
      "r = \<lparr>shares_minted = 1001, added_a = 1001, added_b = 1001\<rparr>"
      "remove_liquidity ledger_transfer amm_env 1 2 1001 0 0 s1 = Inr (q, s2)"
    unfolding s(1) by (auto dest!: case_ok simp: is_ok_iff)
  then show ?thesis using s by blast
qed

theorem liquidity_round_trip_has_no_profit_witness:
  "\<exists>s r s1 q s2. add_liquidity ledger_transfer amm_env 1 2 1001 2000 0 0 s = Inr (r, s1) \<and>
     remove_liquidity ledger_transfer amm_env 1 2 (shares_minted r) 0 0 s1 = Inr (q, s2) \<and>
     ledger_holding (am_tokens s2) 20 2 \<le> ledger_holding (am_tokens s) 20 2 \<and> removed_b q \<le> 1001 \<and> rewards_claimed q = 0"
proof -
  obtain s r s1 q s2 where s: "amm_pool_made = Inr ((1, 1000000), s)" "am_pool s 1 = Some pool_was"
      "add_liquidity ledger_transfer amm_env 1 2 1001 2000 0 0 s = Inr (r, s1)"
      "r = \<lparr>shares_minted = 1001, added_a = 1001, added_b = 1001\<rparr>"
      "remove_liquidity ledger_transfer amm_env 1 2 (shares_minted r) 0 0 s1 = Inr (q, s2)"
    using amm_round_trip_ok by auto
  have me: "contract_address amm_env = 8" by (simp add: amm_env_def)
  have "(\<forall>t. ledger_holding (am_tokens s2) t 2 \<le> ledger_holding (am_tokens s) t 2) \<and>
    removed_b q \<le> added_b r \<and> rewards_claimed q = 0"
    using liquidity_round_trip_has_no_profit [OF ledger.sep41_axioms amm_made_nonneg [OF s(1)] _ me me s(3,5,2)]
    by (auto simp: s(4) pool_was_def in_i128_def I128_MAX_def I128_MIN_def moved_def)
  then have "ledger_holding (am_tokens s2) 20 2 \<le> ledger_holding (am_tokens s) 20 2 \<and> removed_b q \<le> 1001 \<and> rewards_claimed q = 0"
    by (simp add: s(4))
  then show ?thesis using s(3,5) by blast
qed

end
