(* ===== verification/Legacy_Amm_Shares.thy ===== *)
theory Legacy_Amm_Shares
  imports Legacy_Amm_Safety Registry
begin

text \<open>
  The shares of the market maker over whole histories: whatever sequence of pool creations, deposits,
  withdrawals, swaps, claims and fee changes is run, the total that a pool records is the sum of
  the shares its providers hold. Two theorems show what becomes of rewards.
\<close>

section \<open>Accounting of shares\<close>

definition amm_inv :: "'tk amm \<Rightarrow> bool" where
  "amm_inv s \<longleftrightarrow>
     (\<forall>i. finite (support (get_lp_shares s i))) \<and>
     (\<forall>i. am_pool s i = None \<longrightarrow> get_lp_shares s i = (\<lambda>_. 0)) \<and>
     (\<forall>i p. am_pool s i = Some p \<longrightarrow>
        lp_pool_id p = i \<and> i \<le> get_pool_counter s \<and> lp_fee_bps p \<le> AMM_MAX_FEE_BPS \<and>
        total_shares p = wrap_i128 (support_total (get_lp_shares s i)))"

inductive amm_step :: "'tk transfer_fn \<Rightarrow> 'tk amm \<Rightarrow> 'tk amm \<Rightarrow> bool" for transfer where
  create: "create_pool transfer e c ta tb a b fee s = Inr (r, s') \<Longrightarrow> get_pool_counter s \<noteq> - 1 \<Longrightarrow>
    amm_step transfer s s'"
| add: "add_liquidity transfer e i who a b am bm s = Inr (r, s') \<Longrightarrow> amm_step transfer s s'"
| remove: "remove_liquidity transfer e i who n am bm s = Inr (r, s') \<Longrightarrow> amm_step transfer s s'"
| claim: "claim_rewards transfer e i who s = Inr (r, s') \<Longrightarrow> amm_step transfer s s'"
| swap: "swap transfer e i who t n m s = Inr (r, s') \<Longrightarrow> amm_step transfer s s'"
| fee: "set_pool_fee i f s = Inr s' \<Longrightarrow> amm_step transfer s s'"

lemma amm_invD:
  assumes "amm_inv s" "am_pool s i = Some p"
  shows "lp_pool_id p = i" "i \<le> get_pool_counter s" "lp_fee_bps p \<le> AMM_MAX_FEE_BPS"
    "total_shares p = wrap_i128 (support_total (get_lp_shares s i))"
  using assms by (auto simp: amm_inv_def)

lemma shares_upd:
  "am_lp_shares s' = (am_lp_shares s)((i, who) \<mapsto> v) \<Longrightarrow>
   get_lp_shares s' j = (if j = i then (get_lp_shares s i)(who := v) else get_lp_shares s j)"
  by (auto simp: get_lp_shares_def fun_eq_iff)

lemma shares_same: "am_lp_shares s' = am_lp_shares s \<Longrightarrow> get_lp_shares s' = get_lp_shares s"
  by (auto simp: get_lp_shares_def fun_eq_iff)

text \<open>A step that changes one existing pool, and the shares of one provider by as much as the total.\<close>

lemma amm_inv_update:
  assumes inv: "amm_inv s" and p: "am_pool s i = Some p"
    and pool: "am_pool s' = (am_pool s)(i \<mapsto> p')" "lp_pool_id p' = i" "lp_fee_bps p' \<le> AMM_MAX_FEE_BPS"
    and sh: "am_lp_shares s' = (am_lp_shares s)((i, who) \<mapsto> wrap_i128 (get_lp_shares s i who + d))"
    and tot: "total_shares p' = wrap_i128 (total_shares p + d)"
    and cnt: "am_pool_counter s' = am_pool_counter s"
  shows "amm_inv s'"
proof -
  let ?g = "get_lp_shares s i"
  have fin: "finite (support ?g)" using inv by (simp add: amm_inv_def)
  have "wrap_i128 (support_total (?g(who := wrap_i128 (?g who + d)))) = wrap_i128 (support_total ?g + d)"
    by (simp add: support_total_upd [OF fin] add_wrap_i128_right [unfolded add_i128_def])
  also have "\<dots> = total_shares p'"
    using tot amm_invD(4) [OF inv p] by (simp add: add_wrap_i128 [unfolded add_i128_def])
  finally have "total_shares p' = wrap_i128 (support_total (get_lp_shares s' i))"
    by (simp add: shares_upd [OF sh])
  then show ?thesis
    using inv p pool cnt
    by (auto simp: amm_inv_def shares_upd [OF sh] get_pool_counter_def)
qed

text \<open>A step that changes one existing pool but neither its total nor any shares.\<close>

lemma amm_inv_same_shares:
  assumes inv: "amm_inv s" and p: "am_pool s i = Some p"
    and pool: "am_pool s' = (am_pool s)(i \<mapsto> p')" "lp_pool_id p' = i" "lp_fee_bps p' \<le> AMM_MAX_FEE_BPS"
      "total_shares p' = total_shares p"
    and same: "am_lp_shares s' = am_lp_shares s" "am_pool_counter s' = am_pool_counter s"
  shows "amm_inv s'"
  using inv p pool same by (auto simp: amm_inv_def shares_same [OF same(1)] get_pool_counter_def)

lemma create_pool_Inr:
  assumes "create_pool transfer e c ta tb a b fee s = Inr ((i, n), s')"
  shows "i = get_pool_counter s + 1"
    and "\<exists>p. am_pool s' = (am_pool s)(i \<mapsto> p) \<and> lp_pool_id p = i \<and> lp_fee_bps p \<le> AMM_MAX_FEE_BPS \<and>
           total_shares p = n \<and> reserve_a p = a \<and> reserve_b p = b"
    and "am_lp_shares s' = (am_lp_shares s)((i, c) \<mapsto> n)" "am_pool_counter s' = Some i"
    and "isqrt (mul_i128 a b) = Inr n" "0 < n" "1000 \<le> a" "1000 \<le> b"
  using assms
  by (auto simp: create_pool_def Let_def next_pool_id_def and_then_Inr_iff if_fail_Inr_iff move_tokens_Inr_iff
      save_pool_def register_pool_tokens_def set_lp_shares_def set_provider_debt_def MIN_INITIAL_LIQUIDITY_def
      simp del: not_None_eq)

lemma isqrt_loop_in: "isqrt_loop n x y = Inr r \<Longrightarrow> in_i128 x \<Longrightarrow> in_i128 y \<Longrightarrow> in_i128 r"
proof (induction n x y rule: isqrt_loop.induct)
  case (1 n x y)
  show ?case
  proof (cases "y < x")
    case True
    then obtain q y' where q: "div_i128 n y = (Inr q :: int amm_result)"
        "div_i128 (add_i128 y q) 2 = (Inr y' :: int amm_result)" "isqrt_loop n y y' = Inr r"
      using 1(2) by (auto simp: isqrt_loop.simps [of n x y] and_then_Inr_iff)
    show ?thesis by (rule 1(1) [OF True q(1,2,3) 1(4) div_i128_in [OF q(2)]])
  next
    case False
    then show ?thesis using 1(2,3) by (simp add: isqrt_loop.simps [of n x y])
  qed
qed

lemma isqrt_in: "isqrt n = Inr r \<Longrightarrow> in_i128 n \<Longrightarrow> in_i128 r"
  by (auto simp: isqrt_def and_then_Inr_iff dest: div_i128_in intro: isqrt_loop_in split: if_splits)

lemma amm_step_inv:
  assumes "amm_step transfer s s'" "amm_inv s"
  shows "amm_inv s'"
  using assms(1)
proof cases
  case (create e c ta tb a b fee r)
  obtain i n where r: "r = (i, n)" by (cases r)
  note cr = create_pool_Inr [OF create(1) [unfolded r]]
  have cnt: "get_pool_counter s' = i" by (simp add: get_pool_counter_def cr(4))
  note w = word_le_Suc_iff [OF create(2), folded cr(1)]
  have none: "am_pool s i = None"
    using w(3) amm_invD(2) [OF assms(2), of i] by (cases "am_pool s i") auto
  then have z: "get_lp_shares s i = (\<lambda>_. 0)" using assms(2) by (simp add: amm_inv_def)
  have "support_total ((\<lambda>_. 0)(c := n)) = n" by (simp add: support_total_upd)
  then have tot: "wrap_i128 (support_total (get_lp_shares s' i)) = n"
    using isqrt_in [OF cr(5)] by (simp add: shares_upd [OF cr(3)] z)
  obtain p where "am_pool s' = (am_pool s)(i \<mapsto> p)" "lp_pool_id p = i" "lp_fee_bps p \<le> AMM_MAX_FEE_BPS" "total_shares p = n"
    using cr(2) by blast
  then show ?thesis
    using assms(2) tot w(1) z
    by (auto simp: amm_inv_def cnt shares_upd [OF cr(3)] split: if_splits)
next
  case (add e i who a b am bm r)
  then obtain p where p: "am_pool s i = Some p"
    by (cases "am_pool s i") (auto simp: add_liquidity_def and_then_Inr_iff settle_rewards_def split: if_splits)
  note ad = add_liquidity_Inr [OF add p]
  show ?thesis
    by (rule amm_inv_update [OF assms(2) p ad(5) [unfolded amm_invD(1) [OF assms(2) p]] _ _ ad(6) [unfolded add_i128_def]])
      (use amm_invD [OF assms(2) p] ad(8) in \<open>simp_all add: add_i128_def\<close>)
next
  case (remove e i who n am bm r)
  then obtain p where p: "am_pool s i = Some p"
    by (cases "am_pool s i") (auto simp: remove_liquidity_def and_then_Inr_iff settle_rewards_def Let_def split: if_splits)
  note re = remove_liquidity_Inr [OF remove p]
  have m: "sub_i128 x n = wrap_i128 (x + - n)" for x by (simp add: sub_i128_def)
  show ?thesis
    by (rule amm_inv_update [OF assms(2) p re(6) [unfolded amm_invD(1) [OF assms(2) p]] _ _ re(7) [unfolded m]])
      (use amm_invD [OF assms(2) p] re(8) in \<open>simp_all add: m\<close>)
next
  case (claim e i who r)
  then have "am_pool s' = am_pool s \<and> am_lp_shares s' = am_lp_shares s \<and> am_pool_counter s' = am_pool_counter s"
    by (auto simp: claim_rewards_def and_then_Inr_iff ok_or_Inr_iff settle_rewards_Inr_iff Let_def
        move_tokens_Inr_iff set_provider_debt_def split: if_splits)
  then show ?thesis using assms(2) shares_same [of s' s] by (simp add: amm_inv_def get_pool_counter_def)
next
  case (swap e i who t n m r)
  from swap_Inr [OF this] obtain p is_a k f p' where p: "am_pool s i = Some p"
      "swap_reserves is_a n k f p = Inr p'" "am_pool s' = (am_pool s)(lp_pool_id p' \<mapsto> p')"
      "am_lp_shares s' = am_lp_shares s" "am_pool_counter s' = am_pool_counter s" by blast
  note k = swap_reserves_keeps [OF p(2)]
  show ?thesis
    by (rule amm_inv_same_shares [OF assms(2) p(1) p(3) [unfolded k(1) amm_invD(1) [OF assms(2) p(1)]]])
      (use k p(4,5) amm_invD [OF assms(2) p(1)] in simp_all)
next
  case (fee i f)
  then obtain p where p: "am_pool s i = Some p" "f \<le> AMM_MAX_FEE_BPS" "s' = save_pool (p\<lparr>lp_fee_bps := f\<rparr>) s"
    by (auto simp: set_pool_fee_def and_then_Inr_iff ok_or_Inr_iff not_less split: if_splits)
  then show ?thesis
    using amm_invD [OF assms(2) p(1)]
    by (intro amm_inv_same_shares [OF assms(2) p(1), where p' = "p\<lparr>lp_fee_bps := f\<rparr>"]) (auto simp: save_pool_def)
qed

lemma amm_empty_inv: "amm_inv (amm_empty tk)"
proof -
  have "get_lp_shares (amm_empty tk) i = (\<lambda>_. 0)" for i
    by (simp add: amm_empty_def get_lp_shares_def fun_eq_iff)
  then show ?thesis by (simp add: amm_inv_def) (simp add: amm_empty_def)
qed

lemma amm_reach_inv: "(amm_step transfer)\<^sup>*\<^sup>* s s' \<Longrightarrow> amm_inv s \<Longrightarrow> amm_inv s'"
  by (induction rule: rtranclp_induct) (auto intro: amm_step_inv)

text \<open>
  C31. Starting with no pools, after any sequence of pool creations, deposits, withdrawals, claims,
  swaps and fee changes, the total a pool records is the sum of its providers' shares reduced to 128
  bits, hence the sum itself as long as that fits; no fee exceeds the maximum and a pool is stored
  under its own number.
\<close>

theorem shares_sum_to_the_total:
  assumes "(amm_step transfer)\<^sup>*\<^sup>* (amm_empty tk) s" "am_pool s i = Some p"
  shows "total_shares p = wrap_i128 (support_total (get_lp_shares s i)) \<and>
    (in_i128 (support_total (get_lp_shares s i)) \<longrightarrow> total_shares p = support_total (get_lp_shares s i)) \<and>
    lp_pool_id p = i \<and> lp_fee_bps p \<le> AMM_MAX_FEE_BPS"
  using amm_invD [OF amm_reach_inv [OF assms(1) amm_empty_inv] assms(2)] by auto

theorem shares_sum_to_the_total_witness:
  "\<exists>s p. (amm_step ledger_transfer)\<^sup>*\<^sup>* amm_start s \<and> am_pool s 1 = Some p \<and> total_shares p = 1000000 \<and>
     wrap_i128 (support_total (get_lp_shares s 1)) = 1000000"
proof -
  obtain s where s: "amm_pool_made = Inr ((1, 1000000), s)" "am_pool s 1 = Some pool_was"
    using amm_pool_made_ok by blast
  have "get_pool_counter amm_start \<noteq> - 1" by (simp add: amm_start_def amm_empty_def get_pool_counter_def)
  then have st: "(amm_step ledger_transfer)\<^sup>*\<^sup>* amm_start s"
    using amm_step.create [OF s(1) [unfolded amm_pool_made_def]] by blast
  from shares_sum_to_the_total [OF st [unfolded amm_start_def] s(2)] st s(2) show ?thesis
    by (auto simp: pool_was_def)
qed

section \<open>Rewards\<close>

text \<open>
  A provider that adds liquidity forfeits the rewards it had not claimed: the code settles them,
  which resets the provider's mark, but drops the amount. Afterwards nothing is pending, and the only
  token movements of the call are the provider's two deposits.
\<close>

theorem adding_liquidity_forfeits_rewards:
  assumes "add_liquidity transfer e i who ad bd am bm s = Inr (r, s')" "am_pool s i = Some p" "lp_pool_id p = i"
  shows "pending_rewards s' i who = Inr 0 \<and>
    (\<exists>tk. transfer (am_tokens s) (lp_token_a p) who (contract_address e) (added_a r) = Some tk \<and>
       transfer tk (lp_token_b p) who (contract_address e) (added_b r) = Some (am_tokens s'))"
proof -
  note ad = add_liquidity_Inr [OF assms(1,2)]
  have "pending_rewards s' i who = Inr 0"
    using ad(5,7) assms(3) by (simp add: pending_rewards_def sub_i128_def Let_def)
  then show ?thesis using ad(4) by blast
qed

text \<open>
  Fees are counted twice: a swap adds the whole input to the reserves, which already belong to the
  holders of the shares, and credits the fee as a reward besides. After one swap the only provider of
  the pool cannot take all its shares out: the contract, which holds no other tokens, cannot pay.
\<close>

theorem sole_provider_cannot_leave:
  "and_then amm_swapped (\<lambda>(_, s).
     and_then (remove_liquidity ledger_transfer amm_env 1 1 (get_lp_shares s 1 1) 0 0 s) (\<lambda>_. Inr ())) = Inl CalleeFailed \<and>
   and_then amm_swapped (\<lambda>(_, s). Inr (pending_rewards s 1 1, get_reserves s 1, am_tokens s 20 8)) =
     Inr (Inr 50000, Inr (1500000, 689656), 1500000)"
  by (intro conjI; code_simp)

lemma amm_added_ok:
  "\<exists>s r s'. pending_rewards s 1 1 = Inr 50000 \<and> am_pool s 1 =
       Some (pool_was\<lparr>reserve_a := 1500000, reserve_b := 689656, fee_per_share_accum := 50000, total_fees := 50000\<rparr>) \<and>
     add_liquidity ledger_transfer amm_env 1 1 1500 2000 0 0 s = Inr (r, s')"
proof -
  have "(case amm_swapped of Inl _ \<Rightarrow> False
    | Inr (_, s) \<Rightarrow> is_ok (add_liquidity ledger_transfer amm_env 1 1 1500 2000 0 0 s))" by code_simp
  then obtain r0 s r s' where s: "amm_swapped = Inr (r0, s)" "add_liquidity ledger_transfer amm_env 1 1 1500 2000 0 0 s = Inr (r, s')"
    by (auto dest!: case_ok simp: is_ok_iff)
  obtain s0 r1 s1 where h: "amm_pool_made = Inr ((1, 1000000), s0)"
      "swap ledger_transfer amm_env 1 2 20 500000 1 s0 = Inr (r1, s1)" "pending_rewards s1 1 1 = Inr 50000"
      "am_pool s1 1 = Some (pool_was\<lparr>reserve_a := 1500000, reserve_b := 689656, fee_per_share_accum := 50000, total_fees := 50000\<rparr>)"
    using amm_swapped_ok by blast
  have "s = s1" using s(1) h(2) unfolding amm_swapped_def h(1) by simp
  then show ?thesis using s(2) h(3,4) by blast
qed

theorem adding_liquidity_forfeits_rewards_witness:
  "\<exists>s r s'. pending_rewards s 1 1 = Inr 50000 \<and> add_liquidity ledger_transfer amm_env 1 1 1500 2000 0 0 s = Inr (r, s') \<and>
     pending_rewards s' 1 1 = Inr 0"
proof -
  obtain s r s' where s: "pending_rewards s 1 1 = Inr 50000"
      "am_pool s 1 = Some (pool_was\<lparr>reserve_a := 1500000, reserve_b := 689656, fee_per_share_accum := 50000, total_fees := 50000\<rparr>)"
      "add_liquidity ledger_transfer amm_env 1 1 1500 2000 0 0 s = Inr (r, s')"
    using amm_added_ok by blast
  have "pending_rewards s' 1 1 = Inr 0"
    using adding_liquidity_forfeits_rewards [OF s(3,2)] by (simp add: pool_was_def)
  with s show ?thesis by blast
qed

end
