(* ===== verification/Legacy_Base.thy ===== *)
theory Legacy_Base
  imports Token_Ledger
begin

text \<open>
  What the modules of the legacy tip jar (\<^verbatim>\<open>src/contracts/tipjar-legacy\<close>) share: the pause switch and
  the token allowlist in the contract's instance storage, and escrow in the contract's own account.
\<close>

section \<open>Pause switch and allowlist\<close>

record legacy_instance =
  lg_paused :: "bool option"
  lg_pause_reason :: "string option"
  lg_pause_until :: "u64 option"
  lg_token_whitelist :: "address \<rightharpoonup> bool"

text \<open>The check clears a pause whose time is over; the cleared storage stays when the call succeeds.\<close>

definition check_is_paused :: "env \<Rightarrow> legacy_instance \<Rightarrow> bool \<times> legacy_instance" where
  "check_is_paused e g =
     (if \<not> unwrap_or (lg_paused g) False then (False, g)
      else case lg_pause_until g of
        Some unpause_time \<Rightarrow>
          if timestamp e \<ge> unpause_time
          then (False, g\<lparr>lg_paused := Some False, lg_pause_reason := None, lg_pause_until := None\<rparr>)
          else (True, g)
      | None \<Rightarrow> (True, g))"

definition require_not_paused :: "'e \<Rightarrow> env \<Rightarrow> legacy_instance \<Rightarrow> ('e, legacy_instance) result" where
  "require_not_paused contract_paused e g =
     (let (paused, g') = check_is_paused e g in if paused then fail contract_paused else Inr g')"

definition legacy_whitelisted :: "legacy_instance \<Rightarrow> address \<Rightarrow> bool" where
  "legacy_whitelisted g t = unwrap_or (lg_token_whitelist g t) False"

section \<open>Escrow\<close>

text \<open>
  Payments into and out of the contract's account, in the order of the calls. A payment out is only
  made when its amount is positive.
\<close>

fun deposits :: "'tk transfer_fn \<Rightarrow> address \<Rightarrow> address \<Rightarrow> (address \<times> int) list \<Rightarrow> 'tk \<Rightarrow> 'tk option" where
  "deposits transfer me t [] tk = Some tk"
| "deposits transfer me t ((a, n) # ps) tk =
     (case transfer tk t a me n of None \<Rightarrow> None | Some tk1 \<Rightarrow> deposits transfer me t ps tk1)"

fun payouts :: "'tk transfer_fn \<Rightarrow> address \<Rightarrow> address \<Rightarrow> (address \<times> int) list \<Rightarrow> 'tk \<Rightarrow> 'tk option" where
  "payouts transfer me t [] tk = Some tk"
| "payouts transfer me t ((a, n) # ps) tk =
     (case (if n > 0 then transfer tk t me a n else Some tk) of
        None \<Rightarrow> None
      | Some tk1 \<Rightarrow> payouts transfer me t ps tk1)"

text \<open>A call of another contract that fails fails the caller.\<close>

definition callee :: "'a option \<Rightarrow> ('e, 'a) result" where
  "callee v = (case v of None \<Rightarrow> Inl CalleeFailed | Some x \<Rightarrow> Inr x)"

lemma callee_Inr_iff [result_simps]: "callee v = Inr x \<longleftrightarrow> v = Some x"
  by (auto simp: callee_def split: option.splits)

text \<open>The contract covers what it owes: of every token it holds at least the sum of the claims on it.\<close>

definition covers ::
  "('tk \<Rightarrow> address \<Rightarrow> address \<Rightarrow> int) \<Rightarrow> address \<Rightarrow> 'tk \<Rightarrow> (address \<Rightarrow> 'k \<Rightarrow> int) \<Rightarrow> bool" where
  "covers holding me tk owed \<longleftrightarrow> (\<forall>t. support_total (owed t) \<le> holding tk t me)"

lemma covers_update:
  assumes "covers holding me tk owed" "\<And>t. finite (support (owed t))"
    and "\<And>t. owed' t = (owed t)(k := v t)"
    and "\<And>t. holding tk t me + v t - owed t k \<le> holding tk' t me"
  shows "covers holding me tk' owed'"
  unfolding covers_def
proof
  fix t
  have "support_total (owed' t) = support_total (owed t) - owed t k + v t"
    using assms(2) by (simp add: assms(3) support_total_upd)
  moreover have "support_total (owed t) \<le> holding tk t me" using assms(1) by (simp add: covers_def)
  ultimately show "support_total (owed' t) \<le> holding tk' t me" using assms(4) [of t] by linarith
qed

context sep41
begin

lemma deposits_holding:
  assumes "deposits transfer me t ps tk = Some tk'" "ledger_ok tk"
    and "\<forall>(a, n)\<in>set ps. a \<noteq> me \<and> 0 \<le> n"
  shows "ledger_ok tk' \<and> holding tk' t' me = holding tk t' me + (if t' = t then sum_list (map snd ps) else 0)"
  using assms
proof (induction ps arbitrary: tk)
  case (Cons p ps)
  obtain a n where p: "p = (a, n)" by (cases p)
  from Cons.prems(1) obtain tk1 where tr: "transfer tk t a me n = Some tk1"
      and rest: "deposits transfer me t ps tk1 = Some tk'"
    by (auto simp: p split: option.splits)
  have "a \<noteq> me" "0 \<le> n" using Cons.prems(3) by (auto simp: p)
  then show ?case
    using deposit_holding [OF Cons.prems(2) tr] Cons.IH [OF rest transfer_ok [OF Cons.prems(2) tr]] Cons.prems(3)
    by (simp add: p)
qed simp

lemma payouts_holding:
  assumes "payouts transfer me t ps tk = Some tk'" "ledger_ok tk"
    and "\<forall>(a, n)\<in>set ps. a \<noteq> me \<and> 0 \<le> n"
  shows "ledger_ok tk' \<and> holding tk' t' me = holding tk t' me - (if t' = t then sum_list (map snd ps) else 0)"
  using assms
proof (induction ps arbitrary: tk)
  case (Cons p ps)
  obtain a n where p: "p = (a, n)" by (cases p)
  have an: "a \<noteq> me" "0 \<le> n" using Cons.prems(3) by (auto simp: p)
  from Cons.prems(1) obtain tk1 where
      tr: "if n > 0 then transfer tk t me a n = Some tk1 else tk1 = tk"
      and rest: "payouts transfer me t ps tk1 = Some tk'"
    by (auto simp: p split: option.splits if_splits)
  have "ledger_ok tk1 \<and> holding tk1 t' me = holding tk t' me - (if t' = t then n else 0)"
    using tr an Cons.prems(2) payout_holding [OF Cons.prems(2), of t me a n tk1 t'] transfer_ok [OF Cons.prems(2), of t me a n tk1]
    by (cases "n > 0") auto
  then show ?case using Cons.IH [OF rest] Cons.prems(3) by (simp add: p)
qed simp

end

end
