(* ===== verification/Channel_Protocol.thy ===== *)
theory Channel_Protocol
  imports Legacy_Base
begin

text \<open>
  Two-party channels in the abstract. The legacy tip jar has two kinds, payment channels
  (\<^verbatim>\<open>payment_channel.rs\<close>) and tip state channels (\<^verbatim>\<open>state_channel/mod.rs\<close>), which follow one protocol: the
  parties lock a sum, agree on how it is shared, and close together, or one of them claims a share and
  closes alone once a window has passed in which a claim with a higher number would have replaced it.
  The automaton is \<open>channel_step\<close>, whose steps are indexed by the host environment of the call: its
  clock decides whether a window has passed and its authorisations say which parties agreed. The locale \<open>channel_system\<close> states that every call of an
  implementation opens a channel or makes one step of one channel, with the payments that belong to it,
  and derives from it what both kinds of channel promise.
\<close>

section \<open>The automaton\<close>

datatype phase = Opened | Contested | Finished

record channel =
  ch_first :: address
  ch_second :: address
  ch_token :: address
  ch_total :: int
  ch_share :: int
  ch_nonce :: u64
  ch_phase :: phase
  ch_window :: u64
  ch_deadline :: u64

definition channel_ok :: "channel \<Rightarrow> bool" where
  "channel_ok c \<longleftrightarrow> 0 \<le> ch_share c \<and> ch_share c \<le> ch_total c \<and> in_i128 (ch_total c)"

text \<open>
  The step of a call in the environment \<open>e\<close>, with what it pays to the first and to the second party. Both
  parties have to sign an agreed state and a joint close; one of them is enough for a claim, for its
  replacement inside the window and for the payout after the window.
\<close>

definition both_sign :: "env \<Rightarrow> channel \<Rightarrow> bool" where
  "both_sign e c \<longleftrightarrow> authorized e (ch_first c) \<and> authorized e (ch_second c)"

definition one_signs :: "env \<Rightarrow> channel \<Rightarrow> bool" where
  "one_signs e c \<longleftrightarrow> authorized e (ch_first c) \<or> authorized e (ch_second c)"

inductive channel_step :: "env \<Rightarrow> channel \<Rightarrow> int \<Rightarrow> int \<Rightarrow> channel \<Rightarrow> bool" where
  agree: "both_sign e c \<Longrightarrow> ch_phase c = Opened \<Longrightarrow> ch_nonce c < n \<Longrightarrow> 0 \<le> x \<Longrightarrow> x \<le> ch_total c \<Longrightarrow>
    channel_step e c 0 0 (c\<lparr>ch_share := x, ch_nonce := n\<rparr>)"
| contest: "one_signs e c \<Longrightarrow> ch_phase c = Opened \<Longrightarrow> ch_nonce c \<le> n \<Longrightarrow> 0 \<le> x \<Longrightarrow> x \<le> ch_total c \<Longrightarrow>
    channel_step e c 0 0 (c\<lparr>ch_share := x, ch_nonce := n, ch_phase := Contested,
      ch_deadline := timestamp e + ch_window c\<rparr>)"
| answer: "one_signs e c \<Longrightarrow> ch_phase c = Contested \<Longrightarrow> timestamp e < ch_deadline c \<Longrightarrow> ch_nonce c < n \<Longrightarrow>
    0 \<le> x \<Longrightarrow> x \<le> ch_total c \<Longrightarrow> channel_step e c 0 0 (c\<lparr>ch_share := x, ch_nonce := n\<rparr>)"
| close: "both_sign e c \<Longrightarrow> ch_phase c = Opened \<Longrightarrow>
    channel_step e c (ch_share c) (ch_total c - ch_share c) (c\<lparr>ch_phase := Finished\<rparr>)"
| expire: "one_signs e c \<Longrightarrow> ch_phase c = Contested \<Longrightarrow> ch_deadline c \<le> timestamp e \<Longrightarrow>
    channel_step e c (ch_share c) (ch_total c - ch_share c) (c\<lparr>ch_phase := Finished\<rparr>)"

inductive_cases channel_stepE: "channel_step e c a b c'"

lemma channel_step_keeps:
  assumes "channel_step e c a b c'" "channel_ok c"
  shows "channel_ok c'" "ch_nonce c \<le> ch_nonce c'" "ch_phase c \<noteq> Finished"
    "ch_first c' = ch_first c" "ch_second c' = ch_second c" "ch_token c' = ch_token c" "ch_total c' = ch_total c"
    "0 \<le> a" "0 \<le> b" "if ch_phase c' = Finished then a + b = ch_total c else a = 0 \<and> b = 0"
  using assms by (auto elim!: channel_stepE simp: channel_ok_def)

section \<open>Systems of channels\<close>

definition channel_owed :: "('k \<rightharpoonup> channel) \<Rightarrow> address \<Rightarrow> 'k \<Rightarrow> int" where
  "channel_owed m t k =
     (case m k of None \<Rightarrow> 0 | Some c \<Rightarrow> if ch_token c = t \<and> ch_phase c \<noteq> Finished then ch_total c else 0)"

definition channels_ok :: "address \<Rightarrow> ('k \<rightharpoonup> channel) \<Rightarrow> bool" where
  "channels_ok me m \<longleftrightarrow> finite (dom m) \<and>
     (\<forall>k c. m k = Some c \<longrightarrow> channel_ok c \<and> ch_first c \<noteq> me \<and> ch_second c \<noteq> me)"

text \<open>
  A new channel with the deposits that fund it, each authorised by the party that makes it; a step of one
  channel with its payments. All other channels stay as they are.
\<close>

definition opens_channel ::
  "'tk transfer_fn \<Rightarrow> env \<Rightarrow> ('k \<rightharpoonup> channel) \<Rightarrow> 'tk \<Rightarrow> ('k \<rightharpoonup> channel) \<Rightarrow> 'tk \<Rightarrow> bool" where
  "opens_channel transfer e v tk v' tk' \<longleftrightarrow>
     (\<exists>k c ps. let me = contract_address e in
        v k = None \<and> v' = v(k \<mapsto> c) \<and> ch_phase c = Opened \<and> channel_ok c \<and>
        ch_first c \<noteq> me \<and> ch_second c \<noteq> me \<and> deposits transfer me (ch_token c) ps tk = Some tk' \<and>
        (\<forall>(a, n)\<in>set ps. a \<noteq> me \<and> 0 \<le> n \<and> authorized e a) \<and> sum_list (map snd ps) = ch_total c)"

definition moves_channel ::
  "'tk transfer_fn \<Rightarrow> env \<Rightarrow> ('k \<rightharpoonup> channel) \<Rightarrow> 'tk \<Rightarrow> ('k \<rightharpoonup> channel) \<Rightarrow> 'tk \<Rightarrow> bool" where
  "moves_channel transfer e v tk v' tk' \<longleftrightarrow>
     (\<exists>k c c' a b. v k = Some c \<and> v' = v(k \<mapsto> c') \<and> channel_step e c a b c' \<and>
        payouts transfer (contract_address e) (ch_token c) [(ch_first c, a), (ch_second c, b)] tk = Some tk')"

locale channel_system =
  fixes transfer :: "'tk transfer_fn"
    and me :: address
    and view :: "'s \<Rightarrow> 'k \<rightharpoonup> channel"
    and tokens :: "'s \<Rightarrow> 'tk"
    and step :: "env \<Rightarrow> 's \<Rightarrow> 's \<Rightarrow> bool"
  assumes step_here: "step e s s' \<Longrightarrow> contract_address e = me"
    and step_sound:
    "step e s s' \<Longrightarrow> channels_ok me (view s) \<Longrightarrow>
       opens_channel transfer e (view s) (tokens s) (view s') (tokens s') \<or>
       moves_channel transfer e (view s) (tokens s) (view s') (tokens s')"
begin

lemma step_ok:
  assumes "step e s s'" "channels_ok me (view s)"
  shows "channels_ok me (view s')"
  using step_sound [OF assms] unfolding opens_channel_def moves_channel_def Let_def step_here [OF assms(1)]
proof (elim disjE exE conjE)
  fix k c assume "view s k = None" "view s' = (view s)(k \<mapsto> c)" "channel_ok c" "ch_first c \<noteq> me" "ch_second c \<noteq> me"
  then show ?thesis using assms(2) by (auto simp: channels_ok_def)
next
  fix k c c' a b assume v: "view s k = Some c" "view s' = (view s)(k \<mapsto> c')" and st: "channel_step e c a b c'"
  have "channel_ok c" "ch_first c \<noteq> me" "ch_second c \<noteq> me" using assms(2) v(1) by (auto simp: channels_ok_def)
  then show ?thesis using assms(2) v(2) channel_step_keeps [OF st] by (auto simp: channels_ok_def)
qed

lemma reach_ok: "(\<lambda>x y. \<exists>e. step e x y)\<^sup>*\<^sup>* s s' \<Longrightarrow> channels_ok me (view s) \<Longrightarrow> channels_ok me (view s')"
  by (induction rule: rtranclp_induct) (auto intro: step_ok)

lemma step_nonce:
  assumes "step e s s'" "channels_ok me (view s)" "view s k = Some c"
  shows "\<exists>c'. view s' k = Some c' \<and> ch_nonce c \<le> ch_nonce c' \<and> ch_total c' = ch_total c \<and>
    (ch_phase c = Finished \<longrightarrow> c' = c)"
  using step_sound [OF assms(1,2)] unfolding opens_channel_def moves_channel_def Let_def step_here [OF assms(1)]
proof (elim disjE exE conjE)
  fix k' c0 assume "view s k' = None" "view s' = (view s)(k' \<mapsto> c0)"
  then show ?thesis using assms(3) by auto
next
  fix k' c0 c' a b
  assume v: "view s k' = Some c0" "view s' = (view s)(k' \<mapsto> c')" and st: "channel_step e c0 a b c'"
  have "channel_ok c0" using assms(2) v(1) by (auto simp: channels_ok_def)
  then show ?thesis using assms(3) v channel_step_keeps [OF st] by (cases "k = k'") auto
qed

text \<open>A claim is paid out only by a call that comes when its window is over.\<close>

lemma step_window:
  assumes "step e s s'" "channels_ok me (view s)" "view s k = Some c" "view s' k = Some c'"
    and "ch_phase c = Contested" "ch_phase c' = Finished"
  shows "ch_deadline c \<le> timestamp e"
  using step_sound [OF assms(1,2)] unfolding opens_channel_def moves_channel_def Let_def
proof (elim disjE exE conjE)
  fix k' c0 assume "view s k' = None" "view s' = (view s)(k' \<mapsto> c0)"
  then show ?thesis using assms(3-) by (auto split: if_splits)
next
  fix k' c0 c1 a b
  assume v: "view s k' = Some c0" "view s' = (view s)(k' \<mapsto> c1)" and st: "channel_step e c0 a b c1"
  show ?thesis
  proof (cases "k = k'")
    case True
    then have "channel_step e c a b c'" using st v assms(3,4) by simp
    then show ?thesis using assms(5,6) by cases simp_all
  qed (use v assms(3-) in simp)
qed

lemma reach_nonce:
  assumes "(\<lambda>x y. \<exists>e. step e x y)\<^sup>*\<^sup>* s s'" "channels_ok me (view s)" "view s k = Some c"
  shows "\<exists>c'. view s' k = Some c' \<and> ch_nonce c \<le> ch_nonce c' \<and> ch_total c' = ch_total c \<and>
    (ch_phase c = Finished \<longrightarrow> c' = c)"
  using assms
proof (induction rule: rtranclp_induct)
  case (step y z)
  then obtain c1 where c1: "view y k = Some c1" "ch_nonce c \<le> ch_nonce c1" "ch_total c1 = ch_total c"
      "ch_phase c = Finished \<longrightarrow> c1 = c" by blast
  obtain e where "step e y z" using step(2) by blast
  from step_nonce [OF this reach_ok [OF step(1,4)] c1(1)] c1 show ?case
    by (metis order.trans)
qed auto

lemma step_covers:
  assumes "sep41 transfer holding ledger_ok" "step e s s'" "channels_ok me (view s)"
    and "ledger_ok (tokens s)" "covers holding me (tokens s) (channel_owed (view s))"
  shows "ledger_ok (tokens s') \<and> covers holding me (tokens s') (channel_owed (view s'))"
proof -
  have fin: "finite (support (channel_owed (view s) t))" for t
    by (rule finite_subset [of _ "dom (view s)"])
      (use assms(3) in \<open>auto simp: support_def channel_owed_def channels_ok_def split: option.splits\<close>)
  have upd: "channel_owed (m(k \<mapsto> c)) t = (channel_owed m t)(k :=
      if ch_token c = t \<and> ch_phase c \<noteq> Finished then ch_total c else 0)" for m t k c
    by (auto simp: channel_owed_def fun_eq_iff)
  show ?thesis using step_sound [OF assms(2,3)] unfolding opens_channel_def moves_channel_def Let_def step_here [OF assms(2)]
  proof (elim disjE exE conjE)
    fix k c ps
    assume v: "view s k = None" "view s' = (view s)(k \<mapsto> c)" "ch_phase c = Opened"
      and d: "deposits transfer me (ch_token c) ps (tokens s) = Some (tokens s')"
        "\<forall>(a, n)\<in>set ps. a \<noteq> me \<and> 0 \<le> n \<and> authorized e a" "sum_list (map snd ps) = ch_total c"
    have "\<forall>(a, n)\<in>set ps. a \<noteq> me \<and> 0 \<le> n" using d(2) by auto
    note h = sep41.deposits_holding [OF assms(1) d(1) assms(4) this]
    have "covers holding me (tokens s') (channel_owed (view s'))"
      unfolding v(2) by (rule covers_update [OF assms(5) fin upd]) (use h d(3) v in \<open>simp add: channel_owed_def\<close>)
    then show ?thesis using h by blast
  next
    fix k c c' a b
    assume v: "view s k = Some c" "view s' = (view s)(k \<mapsto> c')" and st: "channel_step e c a b c'"
      and p: "payouts transfer me (ch_token c) [(ch_first c, a), (ch_second c, b)] (tokens s) = Some (tokens s')"
    have ok: "channel_ok c" "ch_first c \<noteq> me" "ch_second c \<noteq> me" using assms(3) v(1) by (auto simp: channels_ok_def)
    note k = channel_step_keeps [OF st ok(1)]
    have "\<forall>(a, n)\<in>set [(ch_first c, a), (ch_second c, b)]. a \<noteq> me \<and> 0 \<le> n" using ok k(8,9) by simp
    note h = sep41.payouts_holding [OF assms(1) p assms(4) this]
    have "covers holding me (tokens s') (channel_owed (view s'))"
      unfolding v(2) by (rule covers_update [OF assms(5) fin upd]) (use h k v(1) in \<open>auto simp: channel_owed_def\<close>)
    then show ?thesis using h by blast
  qed
qed

lemma reach_covers:
  assumes "sep41 transfer holding ledger_ok" "(\<lambda>x y. \<exists>e. step e x y)\<^sup>*\<^sup>* s s'" "channels_ok me (view s)"
    and "ledger_ok (tokens s)" "covers holding me (tokens s) (channel_owed (view s))"
  shows "ledger_ok (tokens s') \<and> covers holding me (tokens s') (channel_owed (view s'))"
  using assms(2)
proof (induction rule: rtranclp_induct)
  case (step y z)
  then obtain e where "step e y z" by blast
  then show ?case using step_covers [OF assms(1) _ reach_ok [OF step(1) assms(3)]] step(3) by blast
qed (use assms in simp)

end

lemma channel_owed_empty [simp]: "channel_owed Map.empty t = (\<lambda>_. 0)"
  by (simp add: channel_owed_def fun_eq_iff)

lemma covers_no_channels:
  "(\<forall>t. 0 \<le> holding tk t me) \<Longrightarrow> covers holding me tk (channel_owed Map.empty)"
  by (simp add: covers_def del: not_None_eq)

lemma channels_ok_empty: "channels_ok me Map.empty"
  by (simp add: channels_ok_def)

end
