(* ===== verification/Payment_Channel.thy ===== *)
theory Payment_Channel
  imports Channel_Protocol
begin

text \<open>
  The payment channels of the legacy tip jar: \<^verbatim>\<open>src/contracts/tipjar-legacy/src/payment_channel.rs\<close> and
  the entry points \<^verbatim>\<open>open_channel\<close>, \<^verbatim>\<open>update_channel_state\<close>, \<^verbatim>\<open>cooperative_close\<close>, \<^verbatim>\<open>dispute_close\<close> and
  \<^verbatim>\<open>get_channel\<close> of \<^verbatim>\<open>src/contracts/tipjar-legacy/src/lib.rs\<close>. A channel is stored under its two parties
  and its token.
\<close>

section \<open>State\<close>

datatype channel_status = CsOpen | CsDisputed | CsClosed

record payment_channel =
  party_a :: address
  party_b :: address
  pc_token :: address
  total_deposit :: int
  balance_a :: int
  pc_nonce :: u64
  pc_status :: channel_status
  opened_at :: u64
  dispute_started_at :: u64
  dispute_window :: u64
  disputer :: "address option"

text \<open>The errors of \<^verbatim>\<open>ChannelError\<close>, and the two of \<^verbatim>\<open>TipJarError\<close> that these calls raise.\<close>

datatype channel_error =
    ChannelNotFound
  | ChannelNotOpen
  | StaleNonce
  | NotChannelParty
  | ChannelNotDisputed
  | DisputeWindowActive
  | InvalidChannelBalance
  | InvalidDeposit
  | InvalidDisputeWindow
  | ChannelContractPaused
  | ChannelTokenNotWhitelisted

datatype channel_event =
    ChOpen address address address int
  | ChUpd address address address int u64
  | ChCoop address address address int int
  | ChDisp address address address address int u64
  | ChFin address address address int int

record 'tk pay_channels =
  pay_instance :: legacy_instance
  pay_channel :: "address \<times> address \<times> address \<rightharpoonup> payment_channel"
  pay_tokens :: 'tk
  pay_events :: "channel_event list"

type_synonym 'tk pay_result = "(channel_error, 'tk pay_channels) result"

section \<open>Operations\<close>

definition pc_open :: "env \<Rightarrow> address \<Rightarrow> address \<Rightarrow> address \<Rightarrow> int \<Rightarrow> int \<Rightarrow> u64 \<Rightarrow> payment_channel" where
  "pc_open e a b t deposit_a deposit_b window =
     \<lparr>party_a = a, party_b = b, pc_token = t, total_deposit = add_i128 deposit_a deposit_b,
      balance_a = deposit_a, pc_nonce = 0, pc_status = CsOpen, opened_at = timestamp e,
      dispute_started_at = 0, dispute_window = window, disputer = None\<rparr>"

definition balance_b :: "payment_channel \<Rightarrow> int" where
  "balance_b c = sub_i128 (total_deposit c) (balance_a c)"

definition open_channel ::
  "'tk transfer_fn \<Rightarrow> env \<Rightarrow> address \<Rightarrow> address \<Rightarrow> address \<Rightarrow> int \<Rightarrow> int \<Rightarrow> u64 \<Rightarrow> 'tk pay_channels \<Rightarrow> 'tk pay_result" where
  "open_channel transfer e a b t deposit_a deposit_b window s =
     and_then (require_not_paused ChannelContractPaused e (pay_instance s)) (\<lambda>g.
     and_then (require_auth e a) (\<lambda>_.
     and_then (require_auth e b) (\<lambda>_.
     if deposit_a \<le> 0 \<or> deposit_b \<le> 0 then fail InvalidDeposit
     else if window = 0 then fail InvalidDisputeWindow
     else if \<not> legacy_whitelisted g t then fail ChannelTokenNotWhitelisted
     else if pay_channel s (a, b, t) \<noteq> None then fail ChannelNotOpen
     else
     let c = pc_open e a b t deposit_a deposit_b window in
     and_then (callee (deposits transfer (contract_address e) t [(a, deposit_a), (b, deposit_b)] (pay_tokens s))) (\<lambda>tk.
     Inr (s\<lparr>pay_instance := g, pay_channel := (pay_channel s)((a, b, t) \<mapsto> c), pay_tokens := tk,
            pay_events := pay_events s @ [ChOpen a b t (add_i128 deposit_a deposit_b)]\<rparr>)))))"

definition update_channel_state ::
  "env \<Rightarrow> address \<Rightarrow> address \<Rightarrow> address \<Rightarrow> int \<Rightarrow> u64 \<Rightarrow> 'tk pay_channels \<Rightarrow> 'tk pay_result" where
  "update_channel_state e a b t new_balance_a nonce s =
     and_then (require_not_paused ChannelContractPaused e (pay_instance s)) (\<lambda>g.
     and_then (require_auth e a) (\<lambda>_.
     and_then (require_auth e b) (\<lambda>_.
     and_then (ok_or ChannelNotFound (pay_channel s (a, b, t))) (\<lambda>c.
     if pc_status c \<noteq> CsOpen then fail ChannelNotOpen
     else if nonce \<le> pc_nonce c then fail StaleNonce
     else if new_balance_a < 0 \<or> new_balance_a > total_deposit c then fail InvalidChannelBalance
     else
     let c' = c\<lparr>balance_a := new_balance_a, pc_nonce := nonce\<rparr> in
     Inr (s\<lparr>pay_instance := g, pay_channel := (pay_channel s)((a, b, t) \<mapsto> c'),
            pay_events := pay_events s @ [ChUpd a b t new_balance_a nonce]\<rparr>)))))"

text \<open>Both ways to close mark the channel first and then pay the two parties, in this order.\<close>

definition close_and_pay ::
  "'tk transfer_fn \<Rightarrow> env \<Rightarrow> address \<Rightarrow> address \<Rightarrow> address \<Rightarrow> payment_channel
   \<Rightarrow> (int \<Rightarrow> int \<Rightarrow> channel_event) \<Rightarrow> 'tk pay_channels \<Rightarrow> 'tk pay_result" where
  "close_and_pay transfer e a b t c ev s =
     (let bal_a = balance_a c; bal_b = balance_b c in
      and_then (callee (payouts transfer (contract_address e) t [(a, bal_a), (b, bal_b)] (pay_tokens s))) (\<lambda>tk.
      Inr (s\<lparr>pay_channel := (pay_channel s)((a, b, t) \<mapsto> c\<lparr>pc_status := CsClosed\<rparr>), pay_tokens := tk,
             pay_events := pay_events s @ [ev bal_a bal_b]\<rparr>)))"

definition cooperative_close ::
  "'tk transfer_fn \<Rightarrow> env \<Rightarrow> address \<Rightarrow> address \<Rightarrow> address \<Rightarrow> 'tk pay_channels \<Rightarrow> 'tk pay_result" where
  "cooperative_close transfer e a b t s =
     and_then (require_not_paused ChannelContractPaused e (pay_instance s)) (\<lambda>g.
     and_then (require_auth e a) (\<lambda>_.
     and_then (require_auth e b) (\<lambda>_.
     and_then (ok_or ChannelNotFound (pay_channel s (a, b, t))) (\<lambda>c.
     if pc_status c \<noteq> CsOpen then fail ChannelNotOpen
     else close_and_pay transfer e a b t c (ChCoop a b t) (s\<lparr>pay_instance := g\<rparr>)))))"

definition dispute_close ::
  "'tk transfer_fn \<Rightarrow> env \<Rightarrow> address \<Rightarrow> address \<Rightarrow> address \<Rightarrow> address \<Rightarrow> int \<Rightarrow> u64 \<Rightarrow> 'tk pay_channels \<Rightarrow> 'tk pay_result" where
  "dispute_close transfer e caller a b t claimed nonce s =
     and_then (require_not_paused ChannelContractPaused e (pay_instance s)) (\<lambda>g.
     and_then (require_auth e caller) (\<lambda>_.
     and_then (ok_or ChannelNotFound (pay_channel s (a, b, t))) (\<lambda>c.
     if caller \<noteq> party_a c \<and> caller \<noteq> party_b c then fail NotChannelParty
     else
     let now = timestamp e; s1 = s\<lparr>pay_instance := g\<rparr>;
         store = (\<lambda>c'. Inr (s1\<lparr>pay_channel := (pay_channel s)((a, b, t) \<mapsto> c'),
                   pay_events := pay_events s @ [ChDisp caller a b t claimed nonce]\<rparr>)) in
     (case pc_status c of
        CsOpen \<Rightarrow>
          if claimed < 0 \<or> claimed > total_deposit c then fail InvalidChannelBalance
          else if nonce < pc_nonce c then fail StaleNonce
          else store (c\<lparr>pc_status := CsDisputed, dispute_started_at := now, disputer := Some caller,
                        balance_a := claimed, pc_nonce := nonce\<rparr>)
      | CsDisputed \<Rightarrow>
          if now < dispute_started_at c + dispute_window c then
            if nonce \<le> pc_nonce c then fail StaleNonce
            else if claimed < 0 \<or> claimed > total_deposit c then fail InvalidChannelBalance
            else store (c\<lparr>balance_a := claimed, pc_nonce := nonce\<rparr>)
          else close_and_pay transfer e a b t c (ChFin a b t) s1
      | CsClosed \<Rightarrow> fail ChannelNotOpen))))"

definition get_channel :: "'tk pay_channels \<Rightarrow> address \<Rightarrow> address \<Rightarrow> address \<Rightarrow> payment_channel option" where
  "get_channel s a b t = pay_channel s (a, b, t)"

section \<open>The protocol\<close>

text \<open>A stored channel as one of the abstract protocol; the first party is \<open>party_a\<close>.\<close>

definition phase_of :: "channel_status \<Rightarrow> phase" where
  "phase_of x = (case x of CsOpen \<Rightarrow> Opened | CsDisputed \<Rightarrow> Contested | CsClosed \<Rightarrow> Finished)"

definition pay_abs :: "payment_channel \<Rightarrow> channel" where
  "pay_abs c = \<lparr>ch_first = party_a c, ch_second = party_b c, ch_token = pc_token c, ch_total = total_deposit c,
     ch_share = balance_a c, ch_nonce = pc_nonce c, ch_phase = phase_of (pc_status c),
     ch_window = dispute_window c, ch_deadline = dispute_started_at c + dispute_window c\<rparr>"

definition pay_keyed :: "'tk pay_channels \<Rightarrow> bool" where
  "pay_keyed s \<longleftrightarrow> (\<forall>a b t c. pay_channel s (a, b, t) = Some c \<longrightarrow> party_a c = a \<and> party_b c = b \<and> pc_token c = t)"

definition pay_view :: "'tk pay_channels \<Rightarrow> address \<times> address \<times> address \<rightharpoonup> channel" where
  "pay_view s = map_option pay_abs \<circ> pay_channel s"

text \<open>
  \<open>pay_exec tr e s s'\<close>: a call in the environment \<open>e\<close> succeeds and takes \<open>s\<close> to \<open>s'\<close>. The contract is not a
  party of its own channels, and the sum of the deposits of a channel fits an \<^verbatim>\<open>i128\<close>.
\<close>

inductive pay_exec :: "'tk transfer_fn \<Rightarrow> env \<Rightarrow> 'tk pay_channels \<Rightarrow> 'tk pay_channels \<Rightarrow> bool"
  for transfer e where
  open_it: "open_channel transfer e a b t da db w s = Inr s' \<Longrightarrow> a \<noteq> contract_address e \<Longrightarrow> b \<noteq> contract_address e \<Longrightarrow>
    in_i128 (da + db) \<Longrightarrow> pay_exec transfer e s s'"
| update_it: "update_channel_state e a b t x n s = Inr s' \<Longrightarrow> pay_exec transfer e s s'"
| close_it: "cooperative_close transfer e a b t s = Inr s' \<Longrightarrow> pay_exec transfer e s s'"
| dispute_it: "dispute_close transfer e who a b t x n s = Inr s' \<Longrightarrow> pay_exec transfer e s s'"

definition pay_call :: "'tk transfer_fn \<Rightarrow> address \<Rightarrow> 'tk pay_channels \<Rightarrow> 'tk pay_channels \<Rightarrow> bool" where
  "pay_call transfer me s s' \<longleftrightarrow> (\<exists>e. contract_address e = me \<and> pay_exec transfer e s s')"

definition pay_step :: "'tk transfer_fn \<Rightarrow> address \<Rightarrow> env \<Rightarrow> 'tk pay_channels \<Rightarrow> 'tk pay_channels \<Rightarrow> bool" where
  "pay_step transfer me e s s' \<longleftrightarrow> pay_keyed s \<and> contract_address e = me \<and> pay_exec transfer e s s'"

text \<open>What a successful call does to the stored channels and the tokens.\<close>

lemma open_channel_Inr:
  assumes "open_channel transfer e a b t da db w s = Inr s'"
  shows "0 < da" "0 < db" "pay_channel s (a, b, t) = None" "authorized e a" "authorized e b"
    "pay_channel s' = (pay_channel s)((a, b, t) \<mapsto> pc_open e a b t da db w)"
    "deposits transfer (contract_address e) t [(a, da), (b, db)] (pay_tokens s) = Some (pay_tokens s')"
  using assms by (auto simp: open_channel_def and_then_Inr_iff require_auth_Inr_iff if_fail_Inr_iff callee_Inr_iff Let_def
      simp del: deposits.simps)

lemma update_channel_Inr:
  assumes "update_channel_state e a b t x n s = Inr s'"
  shows "authorized e a \<and> authorized e b \<and> (\<exists>c. pay_channel s (a, b, t) = Some c \<and> pc_status c = CsOpen \<and> pc_nonce c < n \<and> 0 \<le> x \<and> x \<le> total_deposit c \<and>
     pay_channel s' = (pay_channel s)((a, b, t) \<mapsto> c\<lparr>balance_a := x, pc_nonce := n\<rparr>) \<and> pay_tokens s' = pay_tokens s)"
  using assms by (auto simp: update_channel_state_def and_then_Inr_iff require_auth_Inr_iff if_fail_Inr_iff ok_or_Inr_iff Let_def not_le not_less)

lemma close_and_pay_Inr_iff:
  "close_and_pay transfer e a b t c ev s = Inr s' \<longleftrightarrow>
     (\<exists>tk. payouts transfer (contract_address e) t [(a, balance_a c), (b, balance_b c)] (pay_tokens s) = Some tk \<and>
       s' = s\<lparr>pay_channel := (pay_channel s)((a, b, t) \<mapsto> c\<lparr>pc_status := CsClosed\<rparr>), pay_tokens := tk,
             pay_events := pay_events s @ [ev (balance_a c) (balance_b c)]\<rparr>)"
  by (auto simp: close_and_pay_def and_then_Inr_iff callee_Inr_iff Let_def simp del: payouts.simps)

lemma cooperative_close_Inr:
  assumes "cooperative_close transfer e a b t s = Inr s'"
  shows "authorized e a \<and> authorized e b \<and> (\<exists>c. pay_channel s (a, b, t) = Some c \<and> pc_status c = CsOpen \<and>
     pay_channel s' = (pay_channel s)((a, b, t) \<mapsto> c\<lparr>pc_status := CsClosed\<rparr>) \<and>
     payouts transfer (contract_address e) t [(a, balance_a c), (b, balance_b c)] (pay_tokens s) = Some (pay_tokens s'))"
  using assms by (auto simp: cooperative_close_def and_then_Inr_iff require_auth_Inr_iff if_fail_Inr_iff ok_or_Inr_iff close_and_pay_Inr_iff
      simp del: payouts.simps)

lemma dispute_close_Inr:
  assumes "dispute_close transfer e who a b t x n s = Inr s'"
  shows "\<exists>c. pay_channel s (a, b, t) = Some c \<and> (who = party_a c \<or> who = party_b c) \<and> authorized e who \<and>
     (pc_status c = CsOpen \<and> 0 \<le> x \<and> x \<le> total_deposit c \<and> pc_nonce c \<le> n \<and> pay_tokens s' = pay_tokens s \<and>
        pay_channel s' = (pay_channel s)((a, b, t) \<mapsto> c\<lparr>pc_status := CsDisputed, dispute_started_at := timestamp e,
          disputer := Some who, balance_a := x, pc_nonce := n\<rparr>) \<or>
      pc_status c = CsDisputed \<and> timestamp e < dispute_started_at c + dispute_window c \<and> 0 \<le> x \<and> x \<le> total_deposit c \<and>
        pc_nonce c < n \<and> pay_tokens s' = pay_tokens s \<and>
        pay_channel s' = (pay_channel s)((a, b, t) \<mapsto> c\<lparr>balance_a := x, pc_nonce := n\<rparr>) \<or>
      pc_status c = CsDisputed \<and> dispute_started_at c + dispute_window c \<le> timestamp e \<and>
        pay_channel s' = (pay_channel s)((a, b, t) \<mapsto> c\<lparr>pc_status := CsClosed\<rparr>) \<and>
        payouts transfer (contract_address e) t [(a, balance_a c), (b, balance_b c)] (pay_tokens s) = Some (pay_tokens s'))"
proof -
  obtain c where c: "pay_channel s (a, b, t) = Some c" "who = party_a c \<or> who = party_b c" "authorized e who"
    using assms by (auto simp: dispute_close_def and_then_Inr_iff require_auth_Inr_iff if_fail_Inr_iff ok_or_Inr_iff)
  show ?thesis
  proof (cases "pc_status c")
    case CsDisputed
    then show ?thesis
      using assms c by (cases "timestamp e < dispute_started_at c + dispute_window c")
        (auto simp: dispute_close_def and_then_Inr_iff Let_def not_le not_less close_and_pay_Inr_iff
          simp del: payouts.simps split: if_splits)
  qed (use assms c in \<open>auto simp: dispute_close_def and_then_Inr_iff Let_def not_le not_less split: if_splits\<close>)
qed

lemma pay_exec_keyed: "pay_exec transfer e s s' \<Longrightarrow> pay_keyed s \<Longrightarrow> pay_keyed s'"
  by (erule pay_exec.cases)
    (fastforce simp: pay_keyed_def pc_open_def dest!: open_channel_Inr(6) update_channel_Inr cooperative_close_Inr dispute_close_Inr)+

lemma pay_view_upd:
  "pay_channel s' = (pay_channel s)(k \<mapsto> c) \<Longrightarrow> pay_view s' = (pay_view s)(k \<mapsto> pay_abs c)"
  by (auto simp: pay_view_def fun_eq_iff)

lemma balance_b_exact: "channel_ok (pay_abs c) \<Longrightarrow> balance_b c = total_deposit c - balance_a c"
  by (simp add: balance_b_def channel_ok_def pay_abs_def sub_i128_shrink)

abbreviation pay_moves :: "'tk transfer_fn \<Rightarrow> env \<Rightarrow> 'tk pay_channels \<Rightarrow> 'tk pay_channels \<Rightarrow> bool" where
  "pay_moves transfer e s s' \<equiv> moves_channel transfer e (pay_view s) (pay_tokens s) (pay_view s') (pay_tokens s')"

lemma pay_movesI:
  assumes "pay_keyed s" "pay_channel s (a, b, t) = Some c" "pay_channel s' = (pay_channel s)((a, b, t) \<mapsto> c')"
    and "channel_step e (pay_abs c) x y (pay_abs c')"
    and "payouts transfer (contract_address e) t [(a, x), (b, y)] (pay_tokens s) = Some (pay_tokens s')"
  shows "pay_moves transfer e s s'"
proof -
  have "party_a c = a \<and> party_b c = b \<and> pc_token c = t" using assms(1,2) by (auto simp: pay_keyed_def)
  then show ?thesis
    unfolding moves_channel_def using assms(2-)
    by (intro exI [of _ "(a, b, t)"] exI [of _ "pay_abs c"] exI [of _ "pay_abs c'"] exI [of _ x] exI [of _ y] conjI)
      (simp_all add: pay_view_def [of s] pay_view_upd pay_abs_def)
qed

lemma pay_signs:
  assumes "pay_keyed s" "pay_channel s (a, b, t) = Some c"
  shows "both_sign e (pay_abs c) \<longleftrightarrow> authorized e a \<and> authorized e b"
    "(who = party_a c \<or> who = party_b c) \<Longrightarrow> authorized e who \<Longrightarrow> one_signs e (pay_abs c)"
  using assms by (auto simp: pay_keyed_def both_sign_def one_signs_def pay_abs_def)

lemma pay_finishI:
  assumes "pay_keyed s" "channels_ok (contract_address e) (pay_view s)" "pay_channel s (a, b, t) = Some c"
    and "pc_status c = CsOpen \<and> both_sign e (pay_abs c) \<or>
      pc_status c = CsDisputed \<and> one_signs e (pay_abs c) \<and> dispute_started_at c + dispute_window c \<le> timestamp e"
    and "pay_channel s' = (pay_channel s)((a, b, t) \<mapsto> c\<lparr>pc_status := CsClosed\<rparr>)"
    and "payouts transfer (contract_address e) t [(a, balance_a c), (b, balance_b c)] (pay_tokens s) = Some (pay_tokens s')"
  shows "pay_moves transfer e s s'"
proof -
  have "pay_view s (a, b, t) = Some (pay_abs c)" using assms(3) by (simp add: pay_view_def)
  then have "channel_ok (pay_abs c)" using assms(2) unfolding channels_ok_def by blast
  then have "balance_b c = total_deposit c - balance_a c" by (rule balance_b_exact)
  then have "channel_step e (pay_abs c) (balance_a c) (balance_b c) (pay_abs (c\<lparr>pc_status := CsClosed\<rparr>))"
    using assms(4) channel_step.close [of e "pay_abs c"] channel_step.expire [of e "pay_abs c"]
    by (auto simp: pay_abs_def phase_of_def)
  then show ?thesis by (rule pay_movesI [OF assms(1,3,5) _ assms(6)])
qed

lemma dispute_close_moves:
  assumes "dispute_close transfer e who a b t x n s = Inr s'" "pay_keyed s" "channels_ok (contract_address e) (pay_view s)"
  shows "pay_moves transfer e s s'"
proof -
  obtain c where c: "pay_channel s (a, b, t) = Some c" and who: "who = party_a c \<or> who = party_b c" "authorized e who"
    and cs: "(pc_status c = CsOpen \<and> 0 \<le> x \<and> x \<le> total_deposit c \<and> pc_nonce c \<le> n \<and> pay_tokens s' = pay_tokens s \<and>
        pay_channel s' = (pay_channel s)((a, b, t) \<mapsto> c\<lparr>pc_status := CsDisputed, dispute_started_at := timestamp e,
          disputer := Some who, balance_a := x, pc_nonce := n\<rparr>)) \<or>
      (pc_status c = CsDisputed \<and> timestamp e < dispute_started_at c + dispute_window c \<and> 0 \<le> x \<and> x \<le> total_deposit c \<and>
        pc_nonce c < n \<and> pay_tokens s' = pay_tokens s \<and>
        pay_channel s' = (pay_channel s)((a, b, t) \<mapsto> c\<lparr>balance_a := x, pc_nonce := n\<rparr>)) \<or>
      (pc_status c = CsDisputed \<and> dispute_started_at c + dispute_window c \<le> timestamp e \<and>
        pay_channel s' = (pay_channel s)((a, b, t) \<mapsto> c\<lparr>pc_status := CsClosed\<rparr>) \<and>
        payouts transfer (contract_address e) t [(a, balance_a c), (b, balance_b c)] (pay_tokens s) = Some (pay_tokens s'))"
    using dispute_close_Inr [OF assms(1)] by blast
  note sg = pay_signs(2) [OF assms(2) c who]
  from cs show ?thesis
  proof (elim disjE)
    assume h: "pc_status c = CsOpen \<and> 0 \<le> x \<and> x \<le> total_deposit c \<and> pc_nonce c \<le> n \<and> pay_tokens s' = pay_tokens s \<and>
        pay_channel s' = (pay_channel s)((a, b, t) \<mapsto> c\<lparr>pc_status := CsDisputed, dispute_started_at := timestamp e,
          disputer := Some who, balance_a := x, pc_nonce := n\<rparr>)"
    have "channel_step e (pay_abs c) 0 0 ((pay_abs c)\<lparr>ch_share := x, ch_nonce := n, ch_phase := Contested,
        ch_deadline := timestamp e + ch_window (pay_abs c)\<rparr>)"
      by (rule channel_step.contest [OF sg]) (use h in \<open>simp_all add: pay_abs_def phase_of_def\<close>)
    then show ?thesis using h by (intro pay_movesI [OF assms(2) c, where x = 0 and y = 0]) (auto simp: pay_abs_def phase_of_def)
  next
    assume h: "pc_status c = CsDisputed \<and> timestamp e < dispute_started_at c + dispute_window c \<and> 0 \<le> x \<and> x \<le> total_deposit c \<and>
        pc_nonce c < n \<and> pay_tokens s' = pay_tokens s \<and>
        pay_channel s' = (pay_channel s)((a, b, t) \<mapsto> c\<lparr>balance_a := x, pc_nonce := n\<rparr>)"
    have "channel_step e (pay_abs c) 0 0 ((pay_abs c)\<lparr>ch_share := x, ch_nonce := n\<rparr>)"
      by (rule channel_step.answer [OF sg]) (use h in \<open>simp_all add: pay_abs_def phase_of_def\<close>)
    then show ?thesis using h by (intro pay_movesI [OF assms(2) c, where x = 0 and y = 0]) (auto simp: pay_abs_def)
  qed (use sg pay_finishI [OF assms(2,3) c] in blast)
qed

lemma pay_step_sound:
  assumes "pay_step transfer me e s s'" "channels_ok me (pay_view s)"
  shows "opens_channel transfer e (pay_view s) (pay_tokens s) (pay_view s') (pay_tokens s') \<or> pay_moves transfer e s s'"
proof -
  from assms(1) have key: "pay_keyed s" and me: "me = contract_address e" and "pay_exec transfer e s s'"
    by (auto simp: pay_step_def)
  note ok = assms(2) [unfolded me]
  from \<open>pay_exec transfer e s s'\<close> show ?thesis
  proof cases
    case (open_it a b t da db w)
    note o = open_channel_Inr [OF open_it(1)]
    let ?c = "pay_abs (pc_open e a b t da db w)"
    have "channel_ok ?c" "ch_total ?c = da + db"
      using open_it(4) o(1,2) by (simp_all add: pay_abs_def pc_open_def channel_ok_def add_i128_exact)
    then have "opens_channel transfer e (pay_view s) (pay_tokens s) (pay_view s') (pay_tokens s')"
      unfolding opens_channel_def Let_def using o open_it
      by (intro exI [of _ "(a, b, t)"] exI [of _ ?c] exI [of _ "[(a, da), (b, db)]"])
        (auto simp: pay_view_upd pay_view_def [of s] simp del: deposits.simps, simp_all add: pay_abs_def pc_open_def phase_of_def)
    then show ?thesis ..
  next
    case (update_it a b t x n)
    then obtain c where c: "pay_channel s (a, b, t) = Some c" "pc_status c = CsOpen" "pc_nonce c < n" "0 \<le> x" "x \<le> total_deposit c"
        "pay_channel s' = (pay_channel s)((a, b, t) \<mapsto> c\<lparr>balance_a := x, pc_nonce := n\<rparr>)" "pay_tokens s' = pay_tokens s"
      and au: "authorized e a \<and> authorized e b"
      by (auto dest!: update_channel_Inr)
    have "channel_step e (pay_abs c) 0 0 ((pay_abs c)\<lparr>ch_share := x, ch_nonce := n\<rparr>)"
      by (rule channel_step.agree) (use c au pay_signs(1) [OF key c(1)] in \<open>simp_all add: pay_abs_def phase_of_def\<close>)
    then show ?thesis using c(6,7)
      by (intro disjI2 pay_movesI [OF key c(1), where x = 0 and y = 0]) (auto simp: pay_abs_def)
  next
    case (close_it a b t)
    then show ?thesis using cooperative_close_Inr [OF close_it] pay_finishI [OF key ok] pay_signs(1) [OF key] by blast
  next
    case (dispute_it who a b t x n)
    then show ?thesis using dispute_close_moves [OF dispute_it key ok] by blast
  qed
qed

interpretation pay: channel_system transfer me pay_view pay_tokens "pay_step transfer me" for transfer me
  by unfold_locales (simp add: pay_step_def, rule pay_step_sound)

lemma pay_calls_steps:
  "(pay_call transfer me)\<^sup>*\<^sup>* s s' \<Longrightarrow> pay_keyed s \<Longrightarrow>
     (\<lambda>x y. \<exists>e. pay_step transfer me e x y)\<^sup>*\<^sup>* s s' \<and> pay_keyed s'"
proof (induction rule: rtranclp_induct)
  case (step y z)
  then obtain e where e: "contract_address e = me" "pay_exec transfer e y z" by (auto simp: pay_call_def)
  then have "\<exists>e. pay_step transfer me e y z" using step by (auto simp: pay_step_def)
  then show ?case using step pay_exec_keyed [OF e(2)] by (auto intro: rtranclp.rtrancl_into_rtrancl)
qed simp

text \<open>What a call may do to a channel under dispute, in the stored records.\<close>

lemma pay_exec_disputed:
  assumes "pay_exec transfer e s s'" "pay_channel s k = Some c" "pay_channel s' k = Some c'" "pc_status c = CsDisputed"
  shows "if timestamp e < dispute_started_at c + dispute_window c
    then c' = c \<or> pc_status c' = CsDisputed \<and> pc_nonce c < pc_nonce c' \<and>
      dispute_started_at c' = dispute_started_at c \<and> dispute_window c' = dispute_window c
    else c' = c \<or> c' = c\<lparr>pc_status := CsClosed\<rparr>"
  using assms(1)
proof cases
  case (open_it a b t da db w)
  then show ?thesis using assms(2-) open_channel_Inr(3,6) [OF open_it(1)] by (auto split: if_splits)
next
  case (update_it a b t x n)
  then show ?thesis using assms(2-) by (auto dest!: update_channel_Inr split: if_splits)
next
  case (close_it a b t)
  then show ?thesis using assms(2-) by (auto dest!: cooperative_close_Inr split: if_splits)
next
  case (dispute_it who a b t x n)
  then show ?thesis using assms(2-) by (auto dest!: dispute_close_Inr simp: not_less split: if_splits)
qed

definition pay_start :: "legacy_instance \<Rightarrow> 'tk \<Rightarrow> 'tk pay_channels" where
  "pay_start g tk = \<lparr>pay_instance = g, pay_channel = Map.empty, pay_tokens = tk, pay_events = []\<rparr>"

lemma pay_start_ok: "pay_keyed (pay_start g tk)" "pay_view (pay_start g tk) = Map.empty"
  by (simp_all add: pay_keyed_def pay_view_def pay_start_def fun_eq_iff)

section \<open>Properties\<close>

text \<open>
  C37. Through any sequence of opening, updating, closing and disputing payment channels, on every
  SEP-41 token, the contract holds at least the deposits of all channels that are not closed, so every
  close is funded; the recorded balance of a channel lies between zero and its deposit.
\<close>

theorem payment_channels_are_funded:
  assumes "sep41 tr holding ledger_ok" "ledger_ok tk" "\<forall>t. 0 \<le> holding tk t me"
    and "(pay_call tr me)\<^sup>*\<^sup>* (pay_start g tk) s"
  shows "support_total (channel_owed (pay_view s) t) \<le> holding (pay_tokens s) t me \<and>
    (\<forall>a b t c. get_channel s a b t = Some c \<longrightarrow>
       party_a c = a \<and> party_b c = b \<and> pc_token c = t \<and> 0 \<le> balance_a c \<and> balance_a c \<le> total_deposit c)"
proof -
  note st = pay_calls_steps [OF assms(4) pay_start_ok(1)]
  have ok: "channels_ok me (pay_view s)"
    by (rule pay.reach_ok [OF conjunct1 [OF st]]) (simp add: pay_start_ok channels_ok_empty)
  have "covers holding me (pay_tokens s) (channel_owed (pay_view s))"
    using pay.reach_covers [OF assms(1) conjunct1 [OF st]] assms(2,3)
    by (simp add: pay_start_ok covers_no_channels channels_ok_empty) (simp add: pay_start_def covers_no_channels)
  moreover have "0 \<le> balance_a c \<and> balance_a c \<le> total_deposit c" if "get_channel s a b t = Some c" for a b t c
  proof -
    have "pay_view s (a, b, t) = Some (pay_abs c)" using that by (simp add: get_channel_def pay_view_def)
    then have "channel_ok (pay_abs c)" using ok unfolding channels_ok_def by blast
    then show ?thesis by (simp add: channel_ok_def pay_abs_def)
  qed
  ultimately show ?thesis using st by (auto simp: covers_def pay_keyed_def get_channel_def)
qed

text \<open>
  C38. Every successful call on payment channels implements the channel protocol at the time of the
  call and with its signatures: it opens one new channel with the deposits that fund it, or makes one
  step of one channel, with exactly the payments of that step, and touches no other channel. In
  particular both parties signed when an agreed state is stored or an undisputed channel is closed, a
  dispute sets its deadline one window after the time of the call, a claim is replaced only before that
  deadline and only by a higher number, and it is paid out only at or after the deadline.
\<close>

theorem payment_channels_refine_the_protocol:
  assumes "pay_exec tr e s s'" "pay_keyed s" "channels_ok (contract_address e) (pay_view s)"
  shows "pay_keyed s' \<and> channels_ok (contract_address e) (pay_view s') \<and>
    (opens_channel tr e (pay_view s) (pay_tokens s) (pay_view s') (pay_tokens s') \<or>
     moves_channel tr e (pay_view s) (pay_tokens s) (pay_view s') (pay_tokens s')) \<and>
    (\<forall>k c c'. pay_channel s k = Some c \<and> pay_channel s' k = Some c' \<and> pc_status c = CsDisputed \<longrightarrow>
       (if timestamp e < dispute_started_at c + dispute_window c
        then c' = c \<or> pc_status c' = CsDisputed \<and> pc_nonce c < pc_nonce c' \<and>
          dispute_started_at c' = dispute_started_at c \<and> dispute_window c' = dispute_window c
        else c' = c \<or> c' = c\<lparr>pc_status := CsClosed\<rparr>))"
proof -
  have st: "pay_step tr (contract_address e) e s s'" using assms(1,2) by (simp add: pay_step_def)
  have "if timestamp e < dispute_started_at c + dispute_window c
      then c' = c \<or> pc_status c' = CsDisputed \<and> pc_nonce c < pc_nonce c' \<and>
        dispute_started_at c' = dispute_started_at c \<and> dispute_window c' = dispute_window c
      else c' = c \<or> c' = c\<lparr>pc_status := CsClosed\<rparr>"
    if "pay_channel s k = Some c" "pay_channel s' k = Some c'" "pc_status c = CsDisputed" for k c c'
    by (rule pay_exec_disputed [OF assms(1) that])
  then show ?thesis
    using pay_exec_keyed [OF assms(1,2)] pay.step_ok [OF st assms(3)] pay.step_sound [OF st assms(3)] by blast
qed

text \<open>
  The number of a channel's state never falls, its deposit never changes, and a closed channel
  stays as it was closed whatever is called afterwards; in particular it cannot be opened again between
  the same parties for the same token.
\<close>

theorem closed_channel_is_final:
  assumes "(pay_call tr me)\<^sup>*\<^sup>* s s'" "pay_keyed s" "channels_ok me (pay_view s)"
    and "pay_view s (a, b, t) = Some c"
  shows "\<exists>c'. pay_view s' (a, b, t) = Some c' \<and> ch_nonce c \<le> ch_nonce c' \<and> ch_total c' = ch_total c \<and>
    (ch_phase c = Finished \<longrightarrow> c' = c) \<and> (\<forall>e da db w. \<not> is_ok (open_channel tr e a b t da db w s'))"
proof -
  have st: "(\<lambda>x y. \<exists>e. pay_step tr me e x y)\<^sup>*\<^sup>* s s'" using pay_calls_steps [OF assms(1,2)] by simp
  obtain c' where c': "pay_view s' (a, b, t) = Some c'" "ch_nonce c \<le> ch_nonce c'" "ch_total c' = ch_total c"
      "ch_phase c = Finished \<longrightarrow> c' = c"
    using pay.reach_nonce [OF st assms(3,4)] by blast
  have "pay_channel s' (a, b, t) \<noteq> None" using c'(1) by (auto simp: pay_view_def)
  then have "\<not> is_ok (open_channel tr e a b t da db w s')" for e da db w
    by (auto simp: is_ok_iff dest: open_channel_Inr(3))
  with c' show ?thesis by blast
qed

text \<open>
  A party that disputes first decides alone: nothing of the claim is checked against the other
  party. Claiming the whole deposit with the greatest number makes every further call on the channel
  fail until the window is over, and the state that is then paid out gives the other party nothing.
\<close>

theorem disputer_decides_alone:
  assumes c: "get_channel s a b t = Some c" "pc_status c = CsOpen" "party_a c = a" "0 \<le> total_deposit c"
    and e: "authorized e a" "lg_paused (pay_instance s) = None"
  shows "\<exists>s1 c1. dispute_close tr e a a b t (total_deposit c) (- 1) s = Inr s1 \<and>
    get_channel s1 a b t = Some c1 \<and> balance_a c1 = total_deposit c \<and> balance_b c1 = 0 \<and>
    (\<forall>e' who x n da db w. timestamp e' < timestamp e + dispute_window c \<longrightarrow>
       \<not> is_ok (dispute_close tr e' who a b t x n s1) \<and> \<not> is_ok (update_channel_state e' a b t x n s1) \<and>
       \<not> is_ok (cooperative_close tr e' a b t s1) \<and> \<not> is_ok (open_channel tr e' a b t da db w s1))"
proof -
  let ?c = "c\<lparr>pc_status := CsDisputed, dispute_started_at := timestamp e, disputer := Some a,
     balance_a := total_deposit c, pc_nonce := - 1\<rparr>"
  obtain s1 where s1: "dispute_close tr e a a b t (total_deposit c) (- 1) s = Inr s1" "pay_channel s1 (a, b, t) = Some ?c"
    using assms by (simp add: dispute_close_def require_not_paused_def check_is_paused_def get_channel_def Let_def)
  have top: "\<not> (- 1 :: u64) < n" for n by (simp add: not_less)
  have "\<not> is_ok (dispute_close tr e' who a b t x n s1)" if "timestamp e' < timestamp e + dispute_window c" for e' who x n
    using s1(2) that top by (auto simp: is_ok_iff dest!: dispute_close_Inr)
  moreover have "\<not> is_ok (update_channel_state e' a b t x n s1)" "\<not> is_ok (cooperative_close tr e' a b t s1)"
      "\<not> is_ok (open_channel tr e' a b t da db w s1)" for e' x n da db w
    using s1(2) by (auto simp: is_ok_iff dest!: update_channel_Inr cooperative_close_Inr open_channel_Inr(3))
  ultimately show ?thesis
    using s1 by (intro exI [of _ s1] exI [of _ ?c]) (simp add: get_channel_def balance_b_def sub_i128_def)
qed

section \<open>Examples\<close>

definition pay_env :: "u64 \<Rightarrow> env" where
  "pay_env now = \<lparr>sequence = 0, timestamp = now, authorized = (\<lambda>a. a \<noteq> 8), contract_address = 8,
     new_entry_live = 0, extend_policy = (\<lambda>_ _ l. l), wasm_uploaded = (\<lambda>_. False)\<rparr>"

definition pay_instance0 :: legacy_instance where
  "pay_instance0 = \<lparr>lg_paused = None, lg_pause_reason = None, lg_pause_until = None,
     lg_token_whitelist = [20 \<mapsto> True]\<rparr>"

definition pay_ledger :: ledger where
  "pay_ledger t a = (if a = 1 \<or> a = 2 then 1000 else 0)"

definition pay_opened :: "ledger pay_result" where
  "pay_opened = open_channel ledger_transfer (pay_env 5) 1 2 20 300 200 60 (pay_start pay_instance0 pay_ledger)"

lemma pay_opened_ok:
  "\<exists>s. pay_opened = Inr s \<and> pay_channel s (1, 2, 20) = Some (pc_open (pay_env 5) 1 2 20 300 200 60) \<and>
     pay_tokens s 20 8 = 500 \<and> lg_paused (pay_instance s) = None"
proof -
  have "(case pay_opened of Inl _ \<Rightarrow> False | Inr s \<Rightarrow>
     pay_channel s (1, 2, 20) = Some (pc_open (pay_env 5) 1 2 20 300 200 60) \<and> pay_tokens s 20 8 = 500 \<and>
     lg_paused (pay_instance s) = None)" by code_simp
  then show ?thesis by (rule case_ok)
qed

lemma pay_opened_exec:
  assumes "pay_opened = Inr s"
  shows "pay_exec ledger_transfer (pay_env 5) (pay_start pay_instance0 pay_ledger) s"
  using assms unfolding pay_opened_def
  by (rule pay_exec.open_it) (simp_all add: pay_env_def in_i128_def I128_MAX_def I128_MIN_def)

lemma pay_opened_call:
  assumes "pay_opened = Inr s"
  shows "pay_call ledger_transfer 8 (pay_start pay_instance0 pay_ledger) s"
  using pay_opened_exec [OF assms] unfolding pay_call_def by (intro exI [of _ "pay_env 5"]) (simp add: pay_env_def)

lemma pay_opened_inv:
  assumes "pay_opened = Inr s"
  shows "pay_keyed s" "channels_ok 8 (pay_view s)"
proof -
  note c = pay_opened_exec [OF assms] pay_start_ok(1) [of pay_instance0 pay_ledger]
  show "pay_keyed s" by (rule pay_exec_keyed [OF c])
  have "pay_step ledger_transfer 8 (pay_env 5) (pay_start pay_instance0 pay_ledger) s" using c by (simp add: pay_step_def pay_env_def)
  then show "channels_ok 8 (pay_view s)" by (rule pay.step_ok) (simp add: pay_start_ok channels_ok_empty)
qed

theorem payment_channels_are_funded_witness:
  "\<exists>s c. (pay_call ledger_transfer 8)\<^sup>*\<^sup>* (pay_start pay_instance0 pay_ledger) s \<and> get_channel s 1 2 20 = Some c \<and>
     0 \<le> balance_a c \<and> balance_a c \<le> total_deposit c \<and>
     support_total (channel_owed (pay_view s) 20) \<le> ledger_holding (pay_tokens s) 20 8"
proof -
  obtain s where s: "pay_opened = Inr s" "pay_channel s (1, 2, 20) = Some (pc_open (pay_env 5) 1 2 20 300 200 60)"
    using pay_opened_ok by blast
  have r: "(pay_call ledger_transfer 8)\<^sup>*\<^sup>* (pay_start pay_instance0 pay_ledger) s"
    using pay_opened_call [OF s(1)] by blast
  have "ledger_nonneg pay_ledger" "\<forall>t. 0 \<le> ledger_holding pay_ledger t 8"
    by (simp_all add: ledger_nonneg_def pay_ledger_def ledger_holding_def)
  from payment_channels_are_funded [OF ledger.sep41_axioms this r, of 20] s(2) r show ?thesis
    unfolding get_channel_def by blast
qed

text \<open>A dispute opened at time 7 with a window of 60, and its payout at time 70.\<close>

lemma pay_paid_ok:
  "\<exists>s s1 s2. pay_opened = Inr s \<and> dispute_close ledger_transfer (pay_env 7) 1 1 2 20 500 1 s = Inr s1 \<and>
     dispute_close ledger_transfer (pay_env 70) 1 1 2 20 0 0 s1 = Inr s2 \<and>
     (\<exists>c. pay_channel s1 (1, 2, 20) = Some c \<and> pc_status c = CsDisputed \<and> dispute_started_at c = 7 \<and> dispute_window c = 60)"
proof -
  have "(case pay_opened of Inl _ \<Rightarrow> False | Inr s \<Rightarrow>
     (case dispute_close ledger_transfer (pay_env 7) 1 1 2 20 500 1 s of Inl _ \<Rightarrow> False | Inr s1 \<Rightarrow>
       (case pay_channel s1 (1, 2, 20) of None \<Rightarrow> False
        | Some c \<Rightarrow> pc_status c = CsDisputed \<and> dispute_started_at c = 7 \<and> dispute_window c = 60) \<and>
       (case dispute_close ledger_transfer (pay_env 70) 1 1 2 20 0 0 s1 of Inl _ \<Rightarrow> False | Inr _ \<Rightarrow> True)))"
    by code_simp
  then show ?thesis by (auto split: sum.splits option.splits)
qed

theorem payment_channels_refine_the_protocol_witness:
  "\<exists>s1 s2. dispute_close ledger_transfer (pay_env 70) 1 1 2 20 0 0 s1 = Inr s2 \<and> pay_keyed s2 \<and>
     moves_channel ledger_transfer (pay_env 70) (pay_view s1) (pay_tokens s1) (pay_view s2) (pay_tokens s2)"
proof -
  obtain s s1 s2 where s: "pay_opened = Inr s" "dispute_close ledger_transfer (pay_env 7) 1 1 2 20 500 1 s = Inr s1"
      "dispute_close ledger_transfer (pay_env 70) 1 1 2 20 0 0 s1 = Inr s2" using pay_paid_ok by blast
  have me: "contract_address (pay_env n) = 8" for n by (simp add: pay_env_def)
  note inv = pay_opened_inv [OF s(1)]
  have "pay_exec ledger_transfer (pay_env 7) s s1" by (rule pay_exec.dispute_it [OF s(2)])
  from payment_channels_refine_the_protocol [OF this inv(1)] inv(2)
  have s1: "pay_keyed s1" "channels_ok (contract_address (pay_env 70)) (pay_view s1)" by (simp_all add: me)
  have "pay_exec ledger_transfer (pay_env 70) s1 s2" by (rule pay_exec.dispute_it [OF s(3)])
  note r = payment_channels_refine_the_protocol [OF this s1]
  have "\<not> opens_channel ledger_transfer (pay_env 70) (pay_view s1) (pay_tokens s1) (pay_view s2) (pay_tokens s2)"
  proof
    assume "opens_channel ledger_transfer (pay_env 70) (pay_view s1) (pay_tokens s1) (pay_view s2) (pay_tokens s2)"
    then obtain k c where k: "pay_view s1 k = None" "pay_view s2 = (pay_view s1)(k \<mapsto> c)" by (auto simp: opens_channel_def Let_def)
    obtain c1 c2 where "pay_channel s1 (1, 2, 20) = Some c1" "pay_channel s2 = (pay_channel s1)((1, 2, 20) \<mapsto> c2)"
      using dispute_close_Inr [OF s(3)] by blast
    then have "dom (pay_channel s2) = dom (pay_channel s1)" by auto
    moreover have "k \<notin> dom (pay_channel s1)" using k(1) by (simp add: pay_view_def domIff)
    ultimately have "k \<notin> dom (pay_channel s2)" by blast
    then have "pay_view s2 k = None" by (simp add: pay_view_def domIff)
    then show False using k(2) by simp
  qed
  then show ?thesis using r s(3) by blast
qed

theorem closed_channel_is_final_witness:
  "\<exists>s. pay_view s (1, 2, 20) \<noteq> None \<and> (\<forall>e da db w. \<not> is_ok (open_channel ledger_transfer e 1 2 20 da db w s))"
proof -
  obtain s where s: "pay_opened = Inr s" "pay_channel s (1, 2, 20) = Some (pc_open (pay_env 5) 1 2 20 300 200 60)"
    using pay_opened_ok by blast
  have "pay_view s (1, 2, 20) = Some (pay_abs (pc_open (pay_env 5) 1 2 20 300 200 60))" using s(2) by (simp add: pay_view_def)
  from closed_channel_is_final [OF rtranclp.rtrancl_refl pay_opened_inv [OF s(1)] this] this show ?thesis by blast
qed

theorem disputer_decides_alone_witness:
  "\<exists>s s1. pay_opened = Inr s \<and> dispute_close ledger_transfer (pay_env 7) 1 1 2 20 500 (- 1) s = Inr s1 \<and>
     \<not> is_ok (dispute_close ledger_transfer (pay_env 8) 2 1 2 20 300 1 s1)"
proof -
  obtain s where s: "pay_opened = Inr s" "pay_channel s (1, 2, 20) = Some (pc_open (pay_env 5) 1 2 20 300 200 60)"
      "lg_paused (pay_instance s) = None"
    using pay_opened_ok by blast
  have "total_deposit (pc_open (pay_env 5) 1 2 20 300 200 60) = 500"
    by (simp add: pc_open_def add_i128_exact in_i128_def I128_MAX_def I128_MIN_def)
  then obtain s1 where "dispute_close ledger_transfer (pay_env 7) 1 1 2 20 500 (- 1) s = Inr s1"
      "\<forall>e' who x n. timestamp e' < 7 + 60 \<longrightarrow> \<not> is_ok (dispute_close ledger_transfer e' who 1 2 20 x n s1)"
    using disputer_decides_alone [of s 1 2 20 _ "pay_env 7" ledger_transfer] s(2,3)
    by (auto simp: get_channel_def pc_open_def pay_env_def)
  moreover have "timestamp (pay_env 8) < 7 + 60" by (simp add: pay_env_def)
  ultimately show ?thesis using s(1) by blast
qed

end
