(* ===== verification/Tip_Channel.thy ===== *)
theory Tip_Channel
  imports Channel_Protocol
begin

text \<open>
  The tip state channels of the legacy tip jar: \<^verbatim>\<open>src/contracts/tipjar-legacy/src/state_channel/mod.rs\<close>
  and its entry points in \<^verbatim>\<open>src/contracts/tipjar-legacy/src/lib.rs\<close>. A tipper locks a deposit for one
  creator, the two record the cumulative tip, and the channel is settled or closed by dispute. The
  entry points check first, with the contract's errors, what the module then asserts; a failed
  assertion is a trap.
\<close>

section \<open>State\<close>

datatype tip_channel_status = TsOpen | TsDisputed | TsSettled

record channel_tip =
  ct_index :: u64
  ct_amount :: int
  ct_recorded_at :: u64

record tip_state_channel =
  tc_tipper :: address
  tc_creator :: address
  tc_token :: address
  tc_deposit :: int
  tipped_amount :: int
  tc_nonce :: u64
  tip_count :: u64
  tc_status :: tip_channel_status
  tc_opened_at :: u64
  tc_dispute_started_at :: u64
  tc_dispute_window :: u64
  tc_disputer :: "address option"

datatype tip_channel_error =
    TcChannelNotFound
  | TcChannelNotOpen
  | TcStaleNonce
  | TcNotChannelParty
  | TcInvalidDeposit
  | TcInvalidDisputeWindow
  | TippedAmountDecreased
  | TcExceedsDeposit
  | TcAlreadySettled
  | TcContractPaused
  | TcTokenNotWhitelisted

datatype tip_channel_event =
    TchOpen address address address int
  | TchTip address address address int u64
  | TchSetl address address address int int
  | TchDisp address address address address int u64
  | TchFin address address address int int

type_synonym channel_key = "address \<times> address \<times> address"

record 'tk tip_channels =
  tcs_instance :: legacy_instance
  tcs_channel :: "channel_key \<rightharpoonup> tip_state_channel"
  tcs_entry :: "channel_key \<times> u64 \<rightharpoonup> channel_tip"
  tcs_tokens :: 'tk
  tcs_events :: "tip_channel_event list"

type_synonym 'tk tc_result = "(tip_channel_error, 'tk tip_channels) result"

section \<open>The module\<close>

definition tc_key :: "tip_state_channel \<Rightarrow> channel_key" where
  "tc_key c = (tc_tipper c, tc_creator c, tc_token c)"

definition tc_load :: "'tk tip_channels \<Rightarrow> address \<Rightarrow> address \<Rightarrow> address \<Rightarrow> (tip_channel_error, tip_state_channel) result" where
  "tc_load s tipper creator t =
     (case tcs_channel s (tipper, creator, t) of None \<Rightarrow> Inl Trapped | Some c \<Rightarrow> Inr c)"

definition tc_save :: "tip_state_channel \<Rightarrow> 'tk tip_channels \<Rightarrow> 'tk tip_channels" where
  "tc_save c s = s\<lparr>tcs_channel := (tcs_channel s)(tc_key c \<mapsto> c)\<rparr>"

definition tc_emit :: "tip_channel_event \<Rightarrow> 'tk tip_channels \<Rightarrow> 'tk tip_channels" where
  "tc_emit ev s = s\<lparr>tcs_events := tcs_events s @ [ev]\<rparr>"

definition tc_open ::
  "'tk transfer_fn \<Rightarrow> env \<Rightarrow> address \<Rightarrow> address \<Rightarrow> address \<Rightarrow> int \<Rightarrow> u64 \<Rightarrow> 'tk tip_channels \<Rightarrow> 'tk tc_result" where
  "tc_open transfer e tipper creator t dep window s =
     (let c = \<lparr>tc_tipper = tipper, tc_creator = creator, tc_token = t, tc_deposit = dep,
               tipped_amount = 0, tc_nonce = 0, tip_count = 0, tc_status = TsOpen,
               tc_opened_at = timestamp e, tc_dispute_started_at = 0, tc_dispute_window = window,
               tc_disputer = None\<rparr>;
          s1 = tc_save c s in
      and_then (callee (deposits transfer (contract_address e) t [(tipper, dep)] (tcs_tokens s1))) (\<lambda>tk.
      Inr (tc_emit (TchOpen tipper creator t dep) (s1\<lparr>tcs_tokens := tk\<rparr>))))"

definition record_tip ::
  "env \<Rightarrow> address \<Rightarrow> address \<Rightarrow> address \<Rightarrow> int \<Rightarrow> u64 \<Rightarrow> 'tk tip_channels \<Rightarrow> 'tk tc_result" where
  "record_tip e tipper creator t new_tipped nonce s =
     and_then (tc_load s tipper creator t) (\<lambda>c.
     and_then (rust_assert (tc_status c = TsOpen)) (\<lambda>_.
     and_then (rust_assert (nonce > tc_nonce c)) (\<lambda>_.
     and_then (rust_assert (new_tipped \<ge> tipped_amount c)) (\<lambda>_.
     and_then (rust_assert (new_tipped \<le> tc_deposit c)) (\<lambda>_.
     let tip_index = tip_count c;
         tip_amount = sub_i128 new_tipped (tipped_amount c);
         c' = c\<lparr>tipped_amount := new_tipped, tc_nonce := nonce, tip_count := tip_count c + 1\<rparr>;
         entry = \<lparr>ct_index = tip_index, ct_amount = tip_amount, ct_recorded_at = timestamp e\<rparr>;
         s1 = s\<lparr>tcs_entry := (tcs_entry s)(((tipper, creator, t), tip_index) \<mapsto> entry)\<rparr>
     in Inr (tc_emit (TchTip tipper creator t tip_amount nonce) (tc_save c' s1)))))))"

text \<open>Settlement and the end of a dispute pay the creator first, then the tipper.\<close>

definition tc_finish ::
  "'tk transfer_fn \<Rightarrow> env \<Rightarrow> address \<Rightarrow> address \<Rightarrow> address \<Rightarrow> tip_state_channel
   \<Rightarrow> (int \<Rightarrow> int \<Rightarrow> tip_channel_event) \<Rightarrow> 'tk tip_channels \<Rightarrow> 'tk tc_result" where
  "tc_finish transfer e tipper creator t c ev s =
     (let to_creator = tipped_amount c;
          to_tipper = sub_i128 (tc_deposit c) to_creator;
          s1 = tc_save (c\<lparr>tc_status := TsSettled\<rparr>) s in
      and_then (callee (payouts transfer (contract_address e) t [(creator, to_creator), (tipper, to_tipper)] (tcs_tokens s1))) (\<lambda>tk.
      Inr (tc_emit (ev to_creator to_tipper) (s1\<lparr>tcs_tokens := tk\<rparr>))))"

definition tc_settle ::
  "'tk transfer_fn \<Rightarrow> env \<Rightarrow> address \<Rightarrow> address \<Rightarrow> address \<Rightarrow> 'tk tip_channels \<Rightarrow> 'tk tc_result" where
  "tc_settle transfer e tipper creator t s =
     and_then (tc_load s tipper creator t) (\<lambda>c.
     and_then (rust_assert (tc_status c = TsOpen)) (\<lambda>_.
     tc_finish transfer e tipper creator t c (TchSetl tipper creator t) s))"

definition tc_dispute ::
  "'tk transfer_fn \<Rightarrow> env \<Rightarrow> address \<Rightarrow> address \<Rightarrow> address \<Rightarrow> address \<Rightarrow> int \<Rightarrow> u64 \<Rightarrow> 'tk tip_channels \<Rightarrow> 'tk tc_result" where
  "tc_dispute transfer e caller tipper creator t claimed nonce s =
     and_then (tc_load s tipper creator t) (\<lambda>c.
     and_then (rust_assert (caller = tc_tipper c \<or> caller = tc_creator c)) (\<lambda>_.
     let now = timestamp e;
         disp = TchDisp caller tipper creator t claimed nonce in
     (case tc_status c of
        TsOpen \<Rightarrow>
          and_then (rust_assert (claimed \<ge> 0)) (\<lambda>_.
          and_then (rust_assert (claimed \<le> tc_deposit c)) (\<lambda>_.
          and_then (rust_assert (nonce \<ge> tc_nonce c)) (\<lambda>_.
          Inr (tc_emit disp (tc_save (c\<lparr>tc_status := TsDisputed, tc_dispute_started_at := now,
             tc_disputer := Some caller, tipped_amount := claimed, tc_nonce := nonce\<rparr>) s)))))
      | TsDisputed \<Rightarrow>
          if now < tc_dispute_started_at c + tc_dispute_window c then
            and_then (rust_assert (nonce > tc_nonce c)) (\<lambda>_.
            and_then (rust_assert (claimed \<ge> 0)) (\<lambda>_.
            and_then (rust_assert (claimed \<le> tc_deposit c)) (\<lambda>_.
            Inr (tc_emit disp (tc_save (c\<lparr>tipped_amount := claimed, tc_nonce := nonce\<rparr>) s)))))
          else tc_finish transfer e tipper creator t c (TchFin tipper creator t) s
      | TsSettled \<Rightarrow> Inl Trapped)))"

definition remaining_balance :: "tip_state_channel \<Rightarrow> int" where
  "remaining_balance c = sub_i128 (tc_deposit c) (tipped_amount c)"

text \<open>The entries \<^verbatim>\<open>0..tip_count\<close> in order; missing ones are skipped.\<close>

definition get_channel_tips ::
  "'tk tip_channels \<Rightarrow> address \<Rightarrow> address \<Rightarrow> address \<Rightarrow> (tip_channel_error, channel_tip list) result" where
  "get_channel_tips s tipper creator t =
     and_then (tc_load s tipper creator t) (\<lambda>c.
     Inr (List.map_filter (\<lambda>i. tcs_entry s ((tipper, creator, t), of_nat i)) [0..<unat (tip_count c)]))"

section \<open>Entry points\<close>

definition open_tip_channel ::
  "'tk transfer_fn \<Rightarrow> env \<Rightarrow> address \<Rightarrow> address \<Rightarrow> address \<Rightarrow> int \<Rightarrow> u64 \<Rightarrow> 'tk tip_channels \<Rightarrow> 'tk tc_result" where
  "open_tip_channel transfer e tipper creator t dep window s =
     and_then (require_not_paused TcContractPaused e (tcs_instance s)) (\<lambda>g.
     and_then (require_auth e tipper) (\<lambda>_.
     if dep \<le> 0 then fail TcInvalidDeposit
     else if window = 0 then fail TcInvalidDisputeWindow
     else if \<not> legacy_whitelisted g t then fail TcTokenNotWhitelisted
     else if tcs_channel s (tipper, creator, t) \<noteq> None then fail TcChannelNotOpen
     else tc_open transfer e tipper creator t dep window (s\<lparr>tcs_instance := g\<rparr>)))"

definition record_channel_tip ::
  "env \<Rightarrow> address \<Rightarrow> address \<Rightarrow> address \<Rightarrow> int \<Rightarrow> u64 \<Rightarrow> 'tk tip_channels \<Rightarrow> 'tk tc_result" where
  "record_channel_tip e tipper creator t new_tipped nonce s =
     and_then (require_not_paused TcContractPaused e (tcs_instance s)) (\<lambda>g.
     and_then (require_auth e tipper) (\<lambda>_.
     and_then (require_auth e creator) (\<lambda>_.
     if tcs_channel s (tipper, creator, t) = None then fail TcChannelNotFound
     else
     and_then (tc_load s tipper creator t) (\<lambda>c.
     if tc_status c \<noteq> TsOpen then fail TcChannelNotOpen
     else if nonce \<le> tc_nonce c then fail TcStaleNonce
     else if new_tipped < tipped_amount c then fail TippedAmountDecreased
     else if new_tipped > tc_deposit c then fail TcExceedsDeposit
     else record_tip e tipper creator t new_tipped nonce (s\<lparr>tcs_instance := g\<rparr>)))))"

definition settle_tip_channel ::
  "'tk transfer_fn \<Rightarrow> env \<Rightarrow> address \<Rightarrow> address \<Rightarrow> address \<Rightarrow> 'tk tip_channels \<Rightarrow> 'tk tc_result" where
  "settle_tip_channel transfer e tipper creator t s =
     and_then (require_not_paused TcContractPaused e (tcs_instance s)) (\<lambda>g.
     and_then (require_auth e tipper) (\<lambda>_.
     and_then (require_auth e creator) (\<lambda>_.
     if tcs_channel s (tipper, creator, t) = None then fail TcChannelNotFound
     else
     and_then (tc_load s tipper creator t) (\<lambda>c.
     if tc_status c \<noteq> TsOpen then fail TcChannelNotOpen
     else tc_settle transfer e tipper creator t (s\<lparr>tcs_instance := g\<rparr>)))))"

definition dispute_tip_channel ::
  "'tk transfer_fn \<Rightarrow> env \<Rightarrow> address \<Rightarrow> address \<Rightarrow> address \<Rightarrow> address \<Rightarrow> int \<Rightarrow> u64 \<Rightarrow> 'tk tip_channels \<Rightarrow> 'tk tc_result" where
  "dispute_tip_channel transfer e caller tipper creator t claimed nonce s =
     and_then (require_not_paused TcContractPaused e (tcs_instance s)) (\<lambda>g.
     and_then (require_auth e caller) (\<lambda>_.
     if tcs_channel s (tipper, creator, t) = None then fail TcChannelNotFound
     else
     and_then (tc_load s tipper creator t) (\<lambda>c.
     if caller \<noteq> tc_tipper c \<and> caller \<noteq> tc_creator c then fail TcNotChannelParty
     else if tc_status c = TsSettled then fail TcAlreadySettled
     else if claimed < 0 \<or> claimed > tc_deposit c then fail TcExceedsDeposit
     else tc_dispute transfer e caller tipper creator t claimed nonce (s\<lparr>tcs_instance := g\<rparr>))))"

section \<open>The protocol\<close>

text \<open>A tip channel as one of the abstract protocol; the first party is the creator.\<close>

definition tc_phase :: "tip_channel_status \<Rightarrow> phase" where
  "tc_phase x = (case x of TsOpen \<Rightarrow> Opened | TsDisputed \<Rightarrow> Contested | TsSettled \<Rightarrow> Finished)"

definition tc_abs :: "tip_state_channel \<Rightarrow> channel" where
  "tc_abs c = \<lparr>ch_first = tc_creator c, ch_second = tc_tipper c, ch_token = tc_token c, ch_total = tc_deposit c,
     ch_share = tipped_amount c, ch_nonce = tc_nonce c, ch_phase = tc_phase (tc_status c),
     ch_window = tc_dispute_window c, ch_deadline = tc_dispute_started_at c + tc_dispute_window c\<rparr>"

definition tc_keyed :: "'tk tip_channels \<Rightarrow> bool" where
  "tc_keyed s \<longleftrightarrow> (\<forall>k c. tcs_channel s k = Some c \<longrightarrow> tc_key c = k)"

definition tc_view :: "'tk tip_channels \<Rightarrow> channel_key \<rightharpoonup> channel" where
  "tc_view s = map_option tc_abs \<circ> tcs_channel s"

inductive tc_exec :: "'tk transfer_fn \<Rightarrow> env \<Rightarrow> 'tk tip_channels \<Rightarrow> 'tk tip_channels \<Rightarrow> bool"
  for transfer e where
  open_it: "open_tip_channel transfer e a b t n w s = Inr s' \<Longrightarrow> a \<noteq> contract_address e \<Longrightarrow> b \<noteq> contract_address e \<Longrightarrow>
    in_i128 n \<Longrightarrow> tc_exec transfer e s s'"
| record_it: "record_channel_tip e a b t x n s = Inr s' \<Longrightarrow>
    (\<And>c. tcs_channel s (a, b, t) = Some c \<Longrightarrow> tip_count c \<noteq> - 1) \<Longrightarrow> tc_exec transfer e s s'"
| settle_it: "settle_tip_channel transfer e a b t s = Inr s' \<Longrightarrow> tc_exec transfer e s s'"
| dispute_it: "dispute_tip_channel transfer e who a b t x n s = Inr s' \<Longrightarrow> tc_exec transfer e s s'"

definition tc_call :: "'tk transfer_fn \<Rightarrow> address \<Rightarrow> 'tk tip_channels \<Rightarrow> 'tk tip_channels \<Rightarrow> bool" where
  "tc_call transfer me s s' \<longleftrightarrow> (\<exists>e. contract_address e = me \<and> tc_exec transfer e s s')"

definition tc_step :: "'tk transfer_fn \<Rightarrow> address \<Rightarrow> env \<Rightarrow> 'tk tip_channels \<Rightarrow> 'tk tip_channels \<Rightarrow> bool" where
  "tc_step transfer me e s s' \<longleftrightarrow> tc_keyed s \<and> contract_address e = me \<and> tc_exec transfer e s s'"

lemmas tc_ops = tc_save_def tc_emit_def tc_load_def rust_assert_def

text \<open>What a successful call does to the stored channels, the entries and the tokens.\<close>

lemma tc_load_Inr_iff [result_simps]: "tc_load s a b t = Inr c \<longleftrightarrow> tcs_channel s (a, b, t) = Some c"
  by (auto simp: tc_load_def split: option.splits)

lemma open_tip_channel_Inr:
  assumes "open_tip_channel transfer e a b t n w s = Inr s'"
  shows "\<exists>c. 0 < n \<and> authorized e a \<and> tcs_channel s (a, b, t) = None \<and> tcs_channel s' = (tcs_channel s)((a, b, t) \<mapsto> c) \<and>
    tc_key c = (a, b, t) \<and> tc_status c = TsOpen \<and> tc_deposit c = n \<and> tipped_amount c = 0 \<and> tip_count c = 0 \<and>
    tcs_entry s' = tcs_entry s \<and>
    deposits transfer (contract_address e) t [(a, n)] (tcs_tokens s) = Some (tcs_tokens s')"
  using assms by (auto simp: open_tip_channel_def tc_open_def result_simps Let_def tc_save_def tc_emit_def tc_key_def
      simp del: deposits.simps)

lemma record_channel_tip_Inr:
  assumes "record_channel_tip e a b t x n s = Inr s'" "tc_keyed s"
  shows "\<exists>c. authorized e a \<and> authorized e b \<and> tcs_channel s (a, b, t) = Some c \<and> tc_status c = TsOpen \<and> tc_nonce c < n \<and> tipped_amount c \<le> x \<and> x \<le> tc_deposit c \<and>
    tcs_channel s' = (tcs_channel s)((a, b, t) \<mapsto> c\<lparr>tipped_amount := x, tc_nonce := n, tip_count := tip_count c + 1\<rparr>) \<and>
    tcs_entry s' = (tcs_entry s)(((a, b, t), tip_count c) \<mapsto>
      \<lparr>ct_index = tip_count c, ct_amount = sub_i128 x (tipped_amount c), ct_recorded_at = timestamp e\<rparr>) \<and>
    tcs_tokens s' = tcs_tokens s"
proof -
  have key: "(tc_tipper c, tc_creator c, tc_token c) = (a, b, t)" if "tcs_channel s (a, b, t) = Some c" for c
    using assms(2) that by (simp add: tc_keyed_def tc_key_def)
  show ?thesis
    using assms(1) by (auto simp: record_channel_tip_def record_tip_def result_simps Let_def tc_save_def tc_emit_def
        tc_key_def not_le not_less dest: key)
qed

lemma tc_finish_Inr:
  assumes "tc_finish transfer e a b t c ev s = Inr s'" "tc_key c = (a, b, t)"
  shows "tcs_channel s' = (tcs_channel s)((a, b, t) \<mapsto> c\<lparr>tc_status := TsSettled\<rparr>) \<and> tcs_entry s' = tcs_entry s \<and>
    payouts transfer (contract_address e) t [(b, tipped_amount c), (a, sub_i128 (tc_deposit c) (tipped_amount c))] (tcs_tokens s)
      = Some (tcs_tokens s')"
  using assms by (auto simp: tc_finish_def result_simps Let_def tc_save_def tc_emit_def tc_key_def simp del: payouts.simps)

lemma settle_tip_channel_Inr:
  assumes "settle_tip_channel transfer e a b t s = Inr s'" "tc_keyed s"
  shows "\<exists>c. authorized e a \<and> authorized e b \<and> tcs_channel s (a, b, t) = Some c \<and> tc_status c = TsOpen \<and>
    tcs_channel s' = (tcs_channel s)((a, b, t) \<mapsto> c\<lparr>tc_status := TsSettled\<rparr>) \<and> tcs_entry s' = tcs_entry s \<and>
    payouts transfer (contract_address e) t [(b, tipped_amount c), (a, sub_i128 (tc_deposit c) (tipped_amount c))] (tcs_tokens s)
      = Some (tcs_tokens s')"
proof -
  obtain g c where c: "tcs_channel s (a, b, t) = Some c" "tc_status c = TsOpen"
      "tc_finish transfer e a b t c (TchSetl a b t) (s\<lparr>tcs_instance := g\<rparr>) = Inr s'" "authorized e a" "authorized e b"
    using assms(1) by (auto simp: settle_tip_channel_def tc_settle_def result_simps)
  then show ?thesis using tc_finish_Inr [OF c(3)] assms(2) by (auto simp: tc_keyed_def)
qed

lemma dispute_tip_channel_Inr:
  assumes "dispute_tip_channel transfer e who a b t x n s = Inr s'" "tc_keyed s"
  shows "\<exists>c. tcs_channel s (a, b, t) = Some c \<and> (who = a \<or> who = b) \<and> authorized e who \<and> 0 \<le> x \<and> x \<le> tc_deposit c \<and> tcs_entry s' = tcs_entry s \<and>
     (tc_status c = TsOpen \<and> tc_nonce c \<le> n \<and> tcs_tokens s' = tcs_tokens s \<and>
        tcs_channel s' = (tcs_channel s)((a, b, t) \<mapsto> c\<lparr>tc_status := TsDisputed, tc_dispute_started_at := timestamp e,
          tc_disputer := Some who, tipped_amount := x, tc_nonce := n\<rparr>) \<or>
      tc_status c = TsDisputed \<and> timestamp e < tc_dispute_started_at c + tc_dispute_window c \<and>
        tc_nonce c < n \<and> tcs_tokens s' = tcs_tokens s \<and>
        tcs_channel s' = (tcs_channel s)((a, b, t) \<mapsto> c\<lparr>tipped_amount := x, tc_nonce := n\<rparr>) \<or>
      tc_status c = TsDisputed \<and> tc_dispute_started_at c + tc_dispute_window c \<le> timestamp e \<and>
        tcs_channel s' = (tcs_channel s)((a, b, t) \<mapsto> c\<lparr>tc_status := TsSettled\<rparr>) \<and>
        payouts transfer (contract_address e) t [(b, tipped_amount c), (a, sub_i128 (tc_deposit c) (tipped_amount c))] (tcs_tokens s)
          = Some (tcs_tokens s'))"
proof -
  obtain g c where c: "tcs_channel s (a, b, t) = Some c" "0 \<le> x" "x \<le> tc_deposit c"
      "tc_dispute transfer e who a b t x n (s\<lparr>tcs_instance := g\<rparr>) = Inr s'" and au: "authorized e who"
    using assms(1) by (auto simp: dispute_tip_channel_def result_simps not_less)
  then have key: "tc_key c = (a, b, t)" using assms(2) by (simp add: tc_keyed_def)
  have who: "who = a \<or> who = b" "authorized e who" using c(1,4) key au by (auto simp: tc_dispute_def result_simps tc_key_def)
  show ?thesis
  proof (cases "tc_status c")
    case TsDisputed
    then show ?thesis
      using c key who tc_finish_Inr [OF _ key, of transfer e "TchFin a b t" "s\<lparr>tcs_instance := g\<rparr>" s']
      by (cases "timestamp e < tc_dispute_started_at c + tc_dispute_window c")
        (auto simp: tc_dispute_def result_simps Let_def tc_save_def tc_emit_def tc_key_def not_less simp del: payouts.simps)
  qed (use c key who in \<open>auto simp: tc_dispute_def result_simps Let_def tc_save_def tc_emit_def tc_key_def\<close>)
qed

lemma tc_exec_keyed: "tc_exec transfer e s s' \<Longrightarrow> tc_keyed s \<Longrightarrow> tc_keyed s'"
  by (erule tc_exec.cases)
    (fastforce simp: tc_keyed_def tc_key_def dest!: open_tip_channel_Inr record_channel_tip_Inr settle_tip_channel_Inr
      dispute_tip_channel_Inr)+

lemma tc_view_upd:
  "tcs_channel s' = (tcs_channel s)(k \<mapsto> c) \<Longrightarrow> tc_view s' = (tc_view s)(k \<mapsto> tc_abs c)"
  by (auto simp: tc_view_def fun_eq_iff)

abbreviation tc_moves :: "'tk transfer_fn \<Rightarrow> env \<Rightarrow> 'tk tip_channels \<Rightarrow> 'tk tip_channels \<Rightarrow> bool" where
  "tc_moves transfer e s s' \<equiv> moves_channel transfer e (tc_view s) (tcs_tokens s) (tc_view s') (tcs_tokens s')"

lemma tc_movesI:
  assumes "tc_keyed s" "tcs_channel s (a, b, t) = Some c" "tcs_channel s' = (tcs_channel s)((a, b, t) \<mapsto> c')"
    and "channel_step e (tc_abs c) x y (tc_abs c')"
    and "payouts transfer (contract_address e) t [(b, x), (a, y)] (tcs_tokens s) = Some (tcs_tokens s')"
  shows "tc_moves transfer e s s'"
proof -
  have "tc_key c = (a, b, t)" using assms(1,2) by (simp add: tc_keyed_def)
  then show ?thesis
    unfolding moves_channel_def using assms(2-)
    by (intro exI [of _ "(a, b, t)"] exI [of _ "tc_abs c"] exI [of _ "tc_abs c'"] exI [of _ x] exI [of _ y] conjI)
      (simp_all add: tc_view_def [of s] tc_view_upd tc_abs_def tc_key_def)
qed

lemma tc_signs:
  assumes "tc_keyed s" "tcs_channel s (a, b, t) = Some c"
  shows "both_sign e (tc_abs c) \<longleftrightarrow> authorized e a \<and> authorized e b"
    "(who = a \<or> who = b) \<Longrightarrow> authorized e who \<Longrightarrow> one_signs e (tc_abs c)"
  using assms by (auto simp: tc_keyed_def tc_key_def both_sign_def one_signs_def tc_abs_def)

lemma tc_channel_ok:
  "channels_ok me (tc_view s) \<Longrightarrow> tcs_channel s k = Some c \<Longrightarrow> channel_ok (tc_abs c)"
  unfolding channels_ok_def by (metis tc_view_def comp_apply option.simps(9))

lemma tc_finishI:
  assumes "tc_keyed s" "channels_ok (contract_address e) (tc_view s)" "tcs_channel s (a, b, t) = Some c"
    and "tc_status c = TsOpen \<and> both_sign e (tc_abs c) \<or>
      tc_status c = TsDisputed \<and> one_signs e (tc_abs c) \<and> tc_dispute_started_at c + tc_dispute_window c \<le> timestamp e"
    and "tcs_channel s' = (tcs_channel s)((a, b, t) \<mapsto> c\<lparr>tc_status := TsSettled\<rparr>)"
    and "payouts transfer (contract_address e) t [(b, tipped_amount c), (a, sub_i128 (tc_deposit c) (tipped_amount c))] (tcs_tokens s) = Some (tcs_tokens s')"
  shows "tc_moves transfer e s s'"
proof -
  have "sub_i128 (tc_deposit c) (tipped_amount c) = tc_deposit c - tipped_amount c"
    using tc_channel_ok [OF assms(2,3)] by (simp add: channel_ok_def tc_abs_def sub_i128_shrink)
  then have "channel_step e (tc_abs c) (tipped_amount c) (sub_i128 (tc_deposit c) (tipped_amount c)) (tc_abs (c\<lparr>tc_status := TsSettled\<rparr>))"
    using assms(4) channel_step.close [of e "tc_abs c"] channel_step.expire [of e "tc_abs c"]
    by (auto simp: tc_abs_def tc_phase_def)
  then show ?thesis by (rule tc_movesI [OF assms(1,3,5) _ assms(6)])
qed

lemma dispute_tip_channel_moves:
  assumes "dispute_tip_channel transfer e who a b t x n s = Inr s'" "tc_keyed s" "channels_ok (contract_address e) (tc_view s)"
  shows "tc_moves transfer e s s'"
proof -
  from dispute_tip_channel_Inr [OF assms(1,2)] obtain c where c: "tcs_channel s (a, b, t) = Some c"
    and who: "who = a \<or> who = b" "authorized e who" by blast
  note sg = tc_signs(2) [OF assms(2) c who]
  have x: "0 \<le> x" "x \<le> tc_deposit c"
    and cs: "(tc_status c = TsOpen \<and> tc_nonce c \<le> n \<and> tcs_tokens s' = tcs_tokens s \<and>
        tcs_channel s' = (tcs_channel s)((a, b, t) \<mapsto> c\<lparr>tc_status := TsDisputed, tc_dispute_started_at := timestamp e,
          tc_disputer := Some who, tipped_amount := x, tc_nonce := n\<rparr>)) \<or>
      (tc_status c = TsDisputed \<and> timestamp e < tc_dispute_started_at c + tc_dispute_window c \<and>
        tc_nonce c < n \<and> tcs_tokens s' = tcs_tokens s \<and>
        tcs_channel s' = (tcs_channel s)((a, b, t) \<mapsto> c\<lparr>tipped_amount := x, tc_nonce := n\<rparr>)) \<or>
      tc_moves transfer e s s'"
    using dispute_tip_channel_Inr [OF assms(1,2)] tc_finishI [OF assms(2,3) c] sg c by auto
  from cs show ?thesis
  proof (elim disjE)
    assume h: "tc_status c = TsOpen \<and> tc_nonce c \<le> n \<and> tcs_tokens s' = tcs_tokens s \<and>
        tcs_channel s' = (tcs_channel s)((a, b, t) \<mapsto> c\<lparr>tc_status := TsDisputed, tc_dispute_started_at := timestamp e,
          tc_disputer := Some who, tipped_amount := x, tc_nonce := n\<rparr>)"
    have "channel_step e (tc_abs c) 0 0 ((tc_abs c)\<lparr>ch_share := x, ch_nonce := n, ch_phase := Contested,
        ch_deadline := timestamp e + ch_window (tc_abs c)\<rparr>)"
      by (rule channel_step.contest [OF sg]) (use h x in \<open>simp_all add: tc_abs_def tc_phase_def\<close>)
    then show ?thesis using h by (intro tc_movesI [OF assms(2) c, where x = 0 and y = 0]) (auto simp: tc_abs_def tc_phase_def)
  next
    assume h: "tc_status c = TsDisputed \<and> timestamp e < tc_dispute_started_at c + tc_dispute_window c \<and>
        tc_nonce c < n \<and> tcs_tokens s' = tcs_tokens s \<and>
        tcs_channel s' = (tcs_channel s)((a, b, t) \<mapsto> c\<lparr>tipped_amount := x, tc_nonce := n\<rparr>)"
    have "channel_step e (tc_abs c) 0 0 ((tc_abs c)\<lparr>ch_share := x, ch_nonce := n\<rparr>)"
      by (rule channel_step.answer [OF sg]) (use h x in \<open>simp_all add: tc_abs_def tc_phase_def\<close>)
    then show ?thesis using h by (intro tc_movesI [OF assms(2) c, where x = 0 and y = 0]) (auto simp: tc_abs_def)
  qed
qed

lemma tc_step_sound:
  assumes "tc_step transfer me e s s'" "channels_ok me (tc_view s)"
  shows "opens_channel transfer e (tc_view s) (tcs_tokens s) (tc_view s') (tcs_tokens s') \<or> tc_moves transfer e s s'"
proof -
  from assms(1) have key: "tc_keyed s" and me: "me = contract_address e" and "tc_exec transfer e s s'"
    by (auto simp: tc_step_def)
  note ok = assms(2) [unfolded me]
  from \<open>tc_exec transfer e s s'\<close> show ?thesis
  proof cases
    case (open_it a b t n w)
    from open_tip_channel_Inr [OF open_it(1)] obtain c where o: "0 < n" "tcs_channel s (a, b, t) = None"
      "tcs_channel s' = (tcs_channel s)((a, b, t) \<mapsto> c)" "tc_key c = (a, b, t)" "tc_status c = TsOpen" "tc_deposit c = n"
      "tipped_amount c = 0" "authorized e a" "deposits transfer (contract_address e) t [(a, n)] (tcs_tokens s) = Some (tcs_tokens s')"
      by blast
    have "opens_channel transfer e (tc_view s) (tcs_tokens s) (tc_view s') (tcs_tokens s')"
      unfolding opens_channel_def Let_def using o open_it
      by (intro exI [of _ "(a, b, t)"] exI [of _ "tc_abs c"] exI [of _ "[(a, n)]"])
        (auto simp: tc_view_upd tc_view_def [of s] simp del: deposits.simps,
         simp_all add: tc_abs_def tc_key_def tc_phase_def channel_ok_def)
    then show ?thesis ..
  next
    case (record_it a b t x n)
    from record_channel_tip_Inr [OF record_it(1) key] obtain c where c: "tcs_channel s (a, b, t) = Some c" "tc_status c = TsOpen"
        "tc_nonce c < n" "authorized e a \<and> authorized e b" "tipped_amount c \<le> x" "x \<le> tc_deposit c" "tcs_tokens s' = tcs_tokens s"
        "tcs_channel s' = (tcs_channel s)((a, b, t) \<mapsto> c\<lparr>tipped_amount := x, tc_nonce := n, tip_count := tip_count c + 1\<rparr>)"
      by blast
    have "channel_step e (tc_abs c) 0 0 ((tc_abs c)\<lparr>ch_share := x, ch_nonce := n\<rparr>)"
      using tc_channel_ok [OF assms(2) c(1)] c tc_signs(1) [OF key c(1)]
      by (intro channel_step.agree) (simp_all add: tc_abs_def tc_phase_def channel_ok_def)
    then show ?thesis using c(7,8)
      by (intro disjI2 tc_movesI [OF key c(1), where x = 0 and y = 0]) (auto simp: tc_abs_def)
  next
    case (settle_it a b t)
    then show ?thesis using settle_tip_channel_Inr [OF settle_it key] tc_finishI [OF key ok] tc_signs(1) [OF key] by blast
  next
    case (dispute_it who a b t x n)
    then show ?thesis using dispute_tip_channel_moves [OF dispute_it key ok] by blast
  qed
qed

interpretation tc: channel_system transfer me tc_view tcs_tokens "tc_step transfer me" for transfer me
  by unfold_locales (simp add: tc_step_def, rule tc_step_sound)

lemma tc_calls_steps:
  "(tc_call transfer me)\<^sup>*\<^sup>* s s' \<Longrightarrow> tc_keyed s \<Longrightarrow> (\<lambda>x y. \<exists>e. tc_step transfer me e x y)\<^sup>*\<^sup>* s s' \<and> tc_keyed s'"
proof (induction rule: rtranclp_induct)
  case (step y z)
  then obtain e where e: "contract_address e = me" "tc_exec transfer e y z" by (auto simp: tc_call_def)
  then have "\<exists>e. tc_step transfer me e y z" using step by (auto simp: tc_step_def)
  then show ?case using step tc_exec_keyed [OF e(2)] by (auto intro: rtranclp.rtrancl_into_rtrancl)
qed simp

definition tc_start :: "legacy_instance \<Rightarrow> 'tk \<Rightarrow> 'tk tip_channels" where
  "tc_start g tk = \<lparr>tcs_instance = g, tcs_channel = Map.empty, tcs_entry = Map.empty, tcs_tokens = tk, tcs_events = []\<rparr>"

lemma tc_start_ok: "tc_keyed (tc_start g tk)" "tc_view (tc_start g tk) = Map.empty"
  by (simp_all add: tc_keyed_def tc_view_def tc_start_def fun_eq_iff)

section \<open>The recorded tips\<close>

definition tips_of :: "'tk tip_channels \<Rightarrow> channel_key \<Rightarrow> nat \<Rightarrow> channel_tip option list" where
  "tips_of s k n = map (\<lambda>i. tcs_entry s (k, of_nat i)) [0..<n]"

definition history_ok :: "'tk tip_channels \<Rightarrow> bool" where
  "history_ok s \<longleftrightarrow> (\<forall>k c. tcs_channel s k = Some c \<and> tc_status c = TsOpen \<longrightarrow>
     (\<exists>ns. tips_of s k (unat (tip_count c)) = map Some ns \<and> sum_list (map ct_amount ns) = tipped_amount c))"

lemma tips_of_old:
  assumes "tcs_entry s' = (tcs_entry s)((k, m) \<mapsto> v)" "k' \<noteq> k \<or> n \<le> unat m"
  shows "tips_of s' k' n = tips_of s k' n"
proof -
  have "of_nat i \<noteq> m" if "i < n" "n \<le> unat m" for i
  proof
    assume eq: "of_nat i = m"
    have "unat m < 2 ^ LENGTH(64)" by (rule unsigned_less)
    then have "i < 2 ^ 64" using that by simp
    then have "unat (of_nat i :: u64) = i" by (simp add: unat_of_nat)
    then show False using that eq by simp
  qed
  then show ?thesis
    using assms unfolding tips_of_def by (intro map_cong refl) (metis atLeastLessThan_iff atLeast_upt fun_upd_other lessThan_iff prod.inject)
qed

lemma tc_exec_history:
  assumes "tc_exec transfer e s s'" "tc_keyed s" "channels_ok me (tc_view s)" "history_ok s"
  shows "history_ok s'"
  using assms(1)
proof cases
  case (open_it a b t n w)
  then show ?thesis using open_tip_channel_Inr [OF open_it(1)] assms(4) by (fastforce simp: history_ok_def tips_of_def)
next
  case (settle_it a b t)
  then show ?thesis using settle_tip_channel_Inr [OF settle_it assms(2)] assms(4)
    by (auto simp: history_ok_def tips_of_def simp del: payouts.simps split: if_splits)
next
  case (dispute_it who a b t x n)
  then show ?thesis using dispute_tip_channel_Inr [OF dispute_it assms(2)] assms(4)
    by (auto simp: history_ok_def tips_of_def simp del: payouts.simps split: if_splits)
next
  case (record_it a b t x n)
  let ?k = "(a, b, t)"
  from record_channel_tip_Inr [OF record_it(1) assms(2)] obtain c where c: "tcs_channel s ?k = Some c" "tc_status c = TsOpen"
      "tipped_amount c \<le> x" "x \<le> tc_deposit c"
      "tcs_channel s' = (tcs_channel s)(?k \<mapsto> c\<lparr>tipped_amount := x, tc_nonce := n, tip_count := tip_count c + 1\<rparr>)"
    and en: "tcs_entry s' = (tcs_entry s)((?k, tip_count c) \<mapsto>
      \<lparr>ct_index = tip_count c, ct_amount = sub_i128 x (tipped_amount c), ct_recorded_at = timestamp e\<rparr>)" by blast
  have "sub_i128 x (tipped_amount c) = x - tipped_amount c"
    using tc_channel_ok [OF assms(3) c(1)] c(3,4)
    by (intro sub_i128_exact) (auto simp: channel_ok_def tc_abs_def in_i128_def I128_MIN_def)
  moreover have "unat (tip_count c + 1) = Suc (unat (tip_count c))"
    using record_it(2) [OF c(1)] unatSuc [of "tip_count c"] by (simp add: add.commute eq_neg_iff_add_eq_0)
  moreover obtain ns where "tips_of s ?k (unat (tip_count c)) = map Some ns" "sum_list (map ct_amount ns) = tipped_amount c"
    using assms(4) c(1,2) unfolding history_ok_def by blast
  ultimately have "tips_of s' ?k (unat (tip_count c + 1)) =
        map Some (ns @ [\<lparr>ct_index = tip_count c, ct_amount = x - tipped_amount c, ct_recorded_at = timestamp e\<rparr>]) \<and>
      sum_list (map ct_amount (ns @ [\<lparr>ct_index = tip_count c, ct_amount = x - tipped_amount c, ct_recorded_at = timestamp e\<rparr>])) = x"
    using tips_of_old [OF en, of ?k "unat (tip_count c)"] by (simp add: tips_of_def en)
  then have new: "\<exists>ns. tips_of s' ?k (unat (tip_count c + 1)) = map Some ns \<and> sum_list (map ct_amount ns) = x" by blast
  show ?thesis
    unfolding history_ok_def
  proof (intro allI impI)
    fix k d assume "tcs_channel s' k = Some d \<and> tc_status d = TsOpen"
    then have d: "tcs_channel s' k = Some d" "tc_status d = TsOpen" by simp_all
    show "\<exists>ns. tips_of s' k (unat (tip_count d)) = map Some ns \<and> sum_list (map ct_amount ns) = tipped_amount d"
    proof (cases "k = ?k")
      case True
      then show ?thesis using new d(1) by (auto simp: c(5))
    next
      case False
      then have "tcs_channel s k = Some d" using d(1) by (simp add: c(5))
      then show ?thesis using False d(2) assms(4) tips_of_old [OF en, of k] unfolding history_ok_def by metis
    qed
  qed
qed

lemma tc_reach_history:
  assumes "(tc_call transfer me)\<^sup>*\<^sup>* (tc_start g tk) s"
  shows "tc_keyed s \<and> channels_ok me (tc_view s) \<and> history_ok s"
  using assms
proof (induction rule: rtranclp_induct)
  case base
  have "history_ok (tc_start g tk)" by (simp add: history_ok_def tc_start_def)
  then show ?case by (simp add: tc_start_ok channels_ok_empty)
next
  case (step y z)
  then obtain e where e: "contract_address e = me" "tc_exec transfer e y z" by (auto simp: tc_call_def)
  then have "tc_step transfer me e y z" using step by (simp add: tc_step_def)
  then show ?case using step e(2) tc_exec_keyed tc.step_ok tc_exec_history by metis
qed

section \<open>Properties\<close>

text \<open>
  Through any sequence of opening, tipping, settling and disputing tip channels, on every SEP-41
  token, the contract holds at least the deposits of all channels that are not settled, and the tipped
  amount of a channel lies between zero and its deposit.
\<close>

theorem tip_channels_are_funded:
  assumes "sep41 tr holding ledger_ok" "ledger_ok tk" "\<forall>t. 0 \<le> holding tk t me"
    and "(tc_call tr me)\<^sup>*\<^sup>* (tc_start g tk) s"
  shows "support_total (channel_owed (tc_view s) t) \<le> holding (tcs_tokens s) t me \<and>
    (\<forall>k c. tcs_channel s k = Some c \<longrightarrow> tc_key c = k \<and> 0 \<le> tipped_amount c \<and> remaining_balance c = tc_deposit c - tipped_amount c \<and> 0 \<le> remaining_balance c)"
proof -
  note st = tc_calls_steps [OF assms(4) tc_start_ok(1)]
  have "covers holding me (tcs_tokens s) (channel_owed (tc_view s))"
    using tc.reach_covers [OF assms(1) conjunct1 [OF st]] assms(2,3)
    by (simp add: tc_start_ok covers_no_channels channels_ok_empty) (simp add: tc_start_def covers_no_channels)
  moreover have "0 \<le> tipped_amount c \<and> remaining_balance c = tc_deposit c - tipped_amount c \<and> 0 \<le> remaining_balance c"
    if "tcs_channel s k = Some c" for k c
  proof -
    have "channel_ok (tc_abs c)" using tc_channel_ok [OF _ that] tc_reach_history [OF assms(4)] by blast
    then show ?thesis by (simp add: channel_ok_def tc_abs_def remaining_balance_def sub_i128_shrink)
  qed
  ultimately show ?thesis using st unfolding covers_def tc_keyed_def by blast
qed

text \<open>
  The recorded tips of an open channel add up: the query returns one entry for each tip, in
  order, and the amounts sum to the tipped amount of the channel.
\<close>

theorem tip_history_adds_up:
  assumes "(tc_call tr me)\<^sup>*\<^sup>* (tc_start g tk) s" "tcs_channel s (a, b, t) = Some c" "tc_status c = TsOpen"
  shows "\<exists>ns. get_channel_tips s a b t = Inr ns \<and> length ns = unat (tip_count c) \<and>
    sum_list (map ct_amount ns) = tipped_amount c"
proof -
  obtain ns where ns: "tips_of s (a, b, t) (unat (tip_count c)) = map Some ns" "sum_list (map ct_amount ns) = tipped_amount c"
    using tc_reach_history [OF assms(1)] assms(2,3) unfolding history_ok_def by blast
  have mf: "List.map_filter f xs = ys" if "map f xs = map Some ys" for f :: "nat \<Rightarrow> channel_tip option" and xs ys
    using that by (induction xs arbitrary: ys) (auto simp: List.map_filter_def map_eq_Cons_conv Cons_eq_map_conv)
  have "get_channel_tips s a b t = Inr ns"
    using assms(2) mf [OF ns(1) [unfolded tips_of_def]] by (simp add: get_channel_tips_def tc_load_def)
  moreover have "length ns = unat (tip_count c)" using arg_cong [OF ns(1), of length] by (simp add: tips_of_def)
  ultimately show ?thesis using ns(2) by blast
qed

section \<open>Examples\<close>

definition tc_env :: "u64 \<Rightarrow> env" where
  "tc_env now = \<lparr>sequence = 0, timestamp = now, authorized = (\<lambda>a. a \<noteq> 8), contract_address = 8,
     new_entry_live = 0, extend_policy = (\<lambda>_ _ l. l), wasm_uploaded = (\<lambda>_. False)\<rparr>"

definition tc_start0 :: "ledger tip_channels" where
  "tc_start0 = tc_start \<lparr>lg_paused = None, lg_pause_reason = None, lg_pause_until = None,
     lg_token_whitelist = [20 \<mapsto> True]\<rparr> (\<lambda>_ a. if a = 1 then 1000 else 0)"

definition tc_opened :: "ledger tc_result" where
  "tc_opened = open_tip_channel ledger_transfer (tc_env 5) 1 2 20 300 60 tc_start0"

lemma tc_tipped_ok:
  "\<exists>s s'. tc_opened = Inr s \<and> record_channel_tip (tc_env 6) 1 2 20 25 1 s = Inr s' \<and>
     (\<exists>c. tcs_channel s (1, 2, 20) = Some c \<and> tip_count c = 0) \<and>
     (\<exists>c. tcs_channel s' (1, 2, 20) = Some c \<and> tc_status c = TsOpen \<and> tip_count c = 1 \<and> tipped_amount c = 25)"
  by (simp add: tc_opened_def open_tip_channel_def tc_start0_def tc_start_def tc_env_def require_not_paused_def
      check_is_paused_def legacy_whitelisted_def tc_open_def tc_key_def Let_def ledger_transfer_def callee_def
      record_channel_tip_def record_tip_def tc_ops)

lemma tc_tipped_reach:
  assumes "tc_opened = Inr s" "record_channel_tip (tc_env 6) 1 2 20 25 1 s = Inr s'"
    "tcs_channel s (1, 2, 20) = Some c" "tip_count c = 0"
  shows "(tc_call ledger_transfer 8)\<^sup>*\<^sup>* tc_start0 s'"
proof -
  have me: "contract_address (tc_env n) = 8" for n by (simp add: tc_env_def)
  have "tc_exec ledger_transfer (tc_env 5) tc_start0 s"
    using assms(1) unfolding tc_opened_def
    by (rule tc_exec.open_it) (simp_all add: tc_env_def in_i128_def I128_MAX_def I128_MIN_def)
  then have o: "tc_call ledger_transfer 8 tc_start0 s" using me unfolding tc_call_def by blast
  have "tc_exec ledger_transfer (tc_env 6) s s'"
    using assms(2) by (rule tc_exec.record_it) (use assms(3,4) in simp_all)
  then have r: "tc_call ledger_transfer 8 s s'" using me unfolding tc_call_def by blast
  show ?thesis by (rule rtranclp.rtrancl_into_rtrancl [OF r_into_rtranclp [of "tc_call ledger_transfer 8", OF o] r])
qed

theorem tip_channels_are_funded_witness:
  "\<exists>s. (tc_call ledger_transfer 8)\<^sup>*\<^sup>* tc_start0 s \<and> tcs_channel s (1, 2, 20) \<noteq> None \<and>
     support_total (channel_owed (tc_view s) 20) \<le> ledger_holding (tcs_tokens s) 20 8"
proof -
  obtain s s' c where s: "tc_opened = Inr s" "record_channel_tip (tc_env 6) 1 2 20 25 1 s = Inr s'"
      "tcs_channel s (1, 2, 20) = Some c" "tip_count c = 0" "tcs_channel s' (1, 2, 20) \<noteq> None"
    using tc_tipped_ok by blast
  note r = tc_tipped_reach [OF s(1-4)]
  have "ledger_nonneg (\<lambda>_ a. if a = 1 then 1000 else 0)" "\<forall>t. 0 \<le> ledger_holding (\<lambda>_ a. if a = 1 then 1000 else 0) t 8"
    by (simp_all add: ledger_nonneg_def ledger_holding_def)
  from tip_channels_are_funded [OF ledger.sep41_axioms this r [unfolded tc_start0_def], of 20] r s(5) show ?thesis by blast
qed

theorem tip_history_adds_up_witness:
  "\<exists>s ns. (tc_call ledger_transfer 8)\<^sup>*\<^sup>* tc_start0 s \<and> get_channel_tips s 1 2 20 = Inr ns \<and> length ns = 1 \<and> sum_list (map ct_amount ns) = 25"
proof -
  obtain s s' c c' where s: "tc_opened = Inr s" "record_channel_tip (tc_env 6) 1 2 20 25 1 s = Inr s'"
      "tcs_channel s (1, 2, 20) = Some c" "tip_count c = 0"
      "tcs_channel s' (1, 2, 20) = Some c'" "tc_status c' = TsOpen" "tip_count c' = 1" "tipped_amount c' = 25"
    using tc_tipped_ok by blast
  note r = tc_tipped_reach [OF s(1-4)]
  from tip_history_adds_up [OF r [unfolded tc_start0_def] s(5,6)] r s(7,8) show ?thesis by auto
qed

end
