(* ===== verification/Bonding_Curve.thy ===== *)
theory Bonding_Curve
  imports Legacy_Base Registry
begin

text \<open>
  The bonding curves of the legacy tip jar, \<^verbatim>\<open>src/contracts/tipjar-legacy/src/bonding_curve.rs\<close>, with their
  entry points in \<^verbatim>\<open>src/contracts/tipjar-legacy/src/lib.rs\<close>. A curve sells and buys back a tip token
  against a reserve token; the price grows with the supply, and the cost of a trade is the integral of
  the price, computed with the trapezoidal rule in fixed-point arithmetic.
\<close>

section \<open>State\<close>

definition BC_PRECISION :: int where "BC_PRECISION = 10000000"
definition BC_MAX_FEE_BPS :: u32 where "BC_MAX_FEE_BPS = 1000"
definition BC_MIN_AMOUNT :: int where "BC_MIN_AMOUNT = 1"
definition INTEGRATION_STEPS :: u32 where "INTEGRATION_STEPS = 20"

datatype curve_type = Linear | Exponential | Sigmoid

record bonding_curve =
  bc_id :: u64
  bc_creator :: address
  tip_token :: address
  reserve_token :: address
  bc_type :: curve_type
  base_price :: int
  slope :: int
  k_param :: int
  midpoint :: int
  max_price :: int
  bc_supply :: int
  reserve :: int
  buy_fee_bps :: u32
  sell_fee_bps :: u32
  fees_collected :: int
  bc_active :: bool

record curve_params =
  cp_type :: curve_type
  cp_base_price :: int
  cp_slope :: int
  cp_k_param :: int
  cp_midpoint :: int
  cp_max_price :: int
  cp_buy_fee_bps :: u32
  cp_sell_fee_bps :: u32

record trade_result =
  tr_token_amount :: int
  collateral_amount :: int
  tr_fee_amount :: int
  tr_new_price :: int
  tr_new_supply :: int

record price_quote =
  q_spot_price :: int
  buy_cost :: int
  sell_return :: int
  q_buy_fee :: int
  q_sell_fee :: int

datatype curve_error =
    BcNotFound
  | BcInvalidParams
  | BcFeeTooHigh
  | BcInvalidAmount
  | BcInactive
  | BcPriceCalculationFailed
  | BcSlippageExceeded
  | BcInsufficientSupply
  | BcInsufficientReserve
  | BcUnauthorized
  | BcNoFeesToWithdraw
  | BcContractPaused

datatype curve_event =
    BcCreate u64 address address address
  | BcBuy address u64 int int int
  | BcSell address u64 int int int
  | BcFee u64 u32 u32
  | BcWfee u64 address int
  | BcDeact u64

record 'tk curves =
  bcs_instance :: legacy_instance
  bcs_curve :: "u64 \<rightharpoonup> bonding_curve"
  bcs_counter :: "u64 option"
  bcs_tokens :: 'tk
  bcs_events :: "curve_event list"

type_synonym 'a curve_result = "(curve_error, 'a) result"

section \<open>Prices\<close>

definition exp_approx :: "int \<Rightarrow> int curve_result" where
  "exp_approx x0 =
     (let x = min (max x0 (- 20 * BC_PRECISION)) (20 * BC_PRECISION) in
      and_then (div_i128 (mul_i128 x x) (2 * BC_PRECISION)) (\<lambda>term2.
      and_then (div_i128 (mul_i128 x x) BC_PRECISION) (\<lambda>x2.
      and_then (div_i128 (mul_i128 x2 x) (6 * BC_PRECISION)) (\<lambda>term3.
      and_then (div_i128 (mul_i128 x2 x) BC_PRECISION) (\<lambda>x3.
      and_then (div_i128 (mul_i128 x3 x) (24 * BC_PRECISION)) (\<lambda>term4.
      and_then (div_i128 (mul_i128 x3 x) BC_PRECISION) (\<lambda>x4.
      and_then (div_i128 (mul_i128 x4 x) (120 * BC_PRECISION)) (\<lambda>term5.
      let r = add_i128 (add_i128 (add_i128 (add_i128 (add_i128 BC_PRECISION x) term2) term3) term4) term5
      in Inr (max r 1)))))))))"

definition sigmoid_approx :: "int \<Rightarrow> int curve_result" where
  "sigmoid_approx x =
     and_then (exp_approx x) (\<lambda>ex. muldiv_i128 ex BC_PRECISION (add_i128 BC_PRECISION ex))"

definition bc_spot_price :: "bonding_curve \<Rightarrow> int \<Rightarrow> int curve_result" where
  "bc_spot_price c n =
     (case bc_type c of
        Linear \<Rightarrow>
          and_then (muldiv_i128 (slope c) n BC_PRECISION) (\<lambda>d. Inr (add_i128 (base_price c) d))
      | Exponential \<Rightarrow>
          and_then (muldiv_i128 (slope c) n BC_PRECISION) (\<lambda>x.
          and_then (exp_approx x) (\<lambda>ex. muldiv_i128 (base_price c) ex BC_PRECISION))
      | Sigmoid \<Rightarrow>
          and_then (muldiv_i128 (k_param c) (sub_i128 n (midpoint c)) BC_PRECISION) (\<lambda>z.
          and_then (sigmoid_approx z) (\<lambda>sg. muldiv_i128 (max_price c) sg BC_PRECISION)))"

text \<open>The loop \<^verbatim>\<open>for _ in 1..steps\<close>: the inner points of the trapezoidal rule.\<close>

fun integrate_loop :: "bonding_curve \<Rightarrow> int \<Rightarrow> nat \<Rightarrow> int \<Rightarrow> int \<Rightarrow> int curve_result" where
  "integrate_loop c delta 0 s acc = Inr acc"
| "integrate_loop c delta (Suc k) s acc =
     (let s' = add_i128 s delta in
      and_then (bc_spot_price c s') (\<lambda>p.
      integrate_loop c delta k s' (add_i128 acc (mul_i128 p delta))))"

definition integrate_price :: "bonding_curve \<Rightarrow> int \<Rightarrow> int \<Rightarrow> u32 \<Rightarrow> int curve_result" where
  "integrate_price c supply_start supply_end steps =
     (if supply_start \<ge> supply_end \<or> steps = 0 then Inr 0
      else
      and_then (div_i128 (sub_i128 supply_end supply_start) (uint steps)) (\<lambda>delta.
      if delta = 0 then
        and_then (bc_spot_price c supply_start) (\<lambda>p0.
        and_then (bc_spot_price c supply_end) (\<lambda>p1.
        div_i128 (mul_i128 (add_i128 p0 p1) (sub_i128 supply_end supply_start)) 2))
      else
        and_then (bc_spot_price c supply_start) (\<lambda>p_first.
        and_then (div_i128 (mul_i128 p_first delta) 2) (\<lambda>t0.
        and_then (integrate_loop c delta (unat steps - 1) supply_start (add_i128 0 t0)) (\<lambda>acc.
        and_then (bc_spot_price c supply_end) (\<lambda>p_last.
        and_then (div_i128 (mul_i128 p_last delta) 2) (\<lambda>t1.
        Inr (add_i128 acc t1))))))))"

definition cost_to_buy :: "bonding_curve \<Rightarrow> int \<Rightarrow> int curve_result" where
  "cost_to_buy c n =
     and_then (integrate_price c (bc_supply c) (add_i128 (bc_supply c) n) INTEGRATION_STEPS) (\<lambda>v.
     div_i128 v BC_PRECISION)"

definition return_on_sell :: "bonding_curve \<Rightarrow> int \<Rightarrow> int curve_result" where
  "return_on_sell c n =
     and_then (integrate_price c (sub_i128 (bc_supply c) n) (bc_supply c) INTEGRATION_STEPS) (\<lambda>v.
     div_i128 v BC_PRECISION)"

section \<open>Storage and validation\<close>

definition get_curve_or_panic :: "'tk curves \<Rightarrow> u64 \<Rightarrow> bonding_curve curve_result" where
  "get_curve_or_panic s i = ok_or BcNotFound (bcs_curve s i)"

definition set_curve :: "bonding_curve \<Rightarrow> 'tk curves \<Rightarrow> 'tk curves" where
  "set_curve c s = s\<lparr>bcs_curve := (bcs_curve s)(bc_id c \<mapsto> c)\<rparr>"

definition next_curve_id :: "'tk curves \<Rightarrow> u64 \<times> 'tk curves" where
  "next_curve_id s = (let i = unwrap_or (bcs_counter s) 0 + 1 in (i, s\<lparr>bcs_counter := Some i\<rparr>))"

definition bc_emit :: "curve_event \<Rightarrow> 'tk curves \<Rightarrow> 'tk curves" where
  "bc_emit ev s = s\<lparr>bcs_events := bcs_events s @ [ev]\<rparr>"

definition validate_params :: "curve_params \<Rightarrow> unit curve_result" where
  "validate_params p =
     (if cp_base_price p \<le> 0 then fail BcInvalidParams
      else if cp_buy_fee_bps p > BC_MAX_FEE_BPS \<or> cp_sell_fee_bps p > BC_MAX_FEE_BPS then fail BcFeeTooHigh
      else case cp_type p of
        Linear \<Rightarrow> if cp_slope p < 0 then fail BcInvalidParams else Inr ()
      | Exponential \<Rightarrow> if cp_slope p \<le> 0 then fail BcInvalidParams else Inr ()
      | Sigmoid \<Rightarrow>
          if cp_k_param p \<le> 0 \<or> cp_max_price p \<le> 0 \<or> cp_midpoint p < 0 then fail BcInvalidParams else Inr ())"

definition bc_move :: "'tk transfer_fn \<Rightarrow> address \<Rightarrow> address \<Rightarrow> address \<Rightarrow> int \<Rightarrow> 'tk curves \<Rightarrow> 'tk curves curve_result" where
  "bc_move transfer t src dst n s =
     and_then (call_transfer transfer (bcs_tokens s) t src dst n) (\<lambda>tk. Inr (s\<lparr>bcs_tokens := tk\<rparr>))"

section \<open>Operations\<close>

definition create_curve ::
  "'tk transfer_fn \<Rightarrow> env \<Rightarrow> address \<Rightarrow> address \<Rightarrow> address \<Rightarrow> curve_params \<Rightarrow> int \<Rightarrow> 'tk curves
   \<Rightarrow> (u64 \<times> 'tk curves) curve_result" where
  "create_curve transfer e creator tip res p initial_reserve s =
     and_then (require_auth e creator) (\<lambda>_.
     and_then (validate_params p) (\<lambda>_.
     if initial_reserve < 0 then fail BcInvalidAmount
     else
     and_then (if initial_reserve > 0 then bc_move transfer res creator (contract_address e) initial_reserve s
               else Inr s) (\<lambda>s1.
     let (i, s2) = next_curve_id s1;
         c = \<lparr>bc_id = i, bc_creator = creator, tip_token = tip, reserve_token = res, bc_type = cp_type p,
              base_price = cp_base_price p, slope = cp_slope p, k_param = cp_k_param p,
              midpoint = cp_midpoint p, max_price = cp_max_price p, bc_supply = 0, reserve = initial_reserve,
              buy_fee_bps = cp_buy_fee_bps p, sell_fee_bps = cp_sell_fee_bps p, fees_collected = 0,
              bc_active = True\<rparr>
     in Inr (i, bc_emit (BcCreate i creator tip res) (set_curve c s2)))))"

definition bc_buy_tokens ::
  "'tk transfer_fn \<Rightarrow> env \<Rightarrow> address \<Rightarrow> u64 \<Rightarrow> int \<Rightarrow> int \<Rightarrow> 'tk curves \<Rightarrow> (trade_result \<times> 'tk curves) curve_result" where
  "bc_buy_tokens transfer e buyer i n max_collateral s =
     and_then (require_auth e buyer) (\<lambda>_.
     if n < BC_MIN_AMOUNT then fail BcInvalidAmount
     else
     and_then (get_curve_or_panic s i) (\<lambda>c.
     if \<not> bc_active c then fail BcInactive
     else
     and_then (cost_to_buy c n) (\<lambda>base_cost.
     if base_cost \<le> 0 then fail BcPriceCalculationFailed
     else
     and_then (muldiv_i128 base_cost (uint (buy_fee_bps c)) 10000) (\<lambda>fee.
     let total_cost = add_i128 base_cost fee in
     if total_cost > max_collateral then fail BcSlippageExceeded
     else
     and_then (bc_move transfer (reserve_token c) buyer (contract_address e) total_cost s) (\<lambda>s1.
     and_then (bc_move transfer (tip_token c) (contract_address e) buyer n s1) (\<lambda>s2.
     let c' = c\<lparr>bc_supply := add_i128 (bc_supply c) n, reserve := add_i128 (reserve c) base_cost,
                fees_collected := add_i128 (fees_collected c) fee\<rparr> in
     and_then (bc_spot_price c' (bc_supply c')) (\<lambda>new_price.
     Inr (\<lparr>tr_token_amount = n, collateral_amount = total_cost, tr_fee_amount = fee,
            tr_new_price = new_price, tr_new_supply = bc_supply c'\<rparr>,
          bc_emit (BcBuy buyer i n total_cost new_price) (set_curve c' s2)))))))))"

definition bc_sell_tokens ::
  "'tk transfer_fn \<Rightarrow> env \<Rightarrow> address \<Rightarrow> u64 \<Rightarrow> int \<Rightarrow> int \<Rightarrow> 'tk curves \<Rightarrow> (trade_result \<times> 'tk curves) curve_result" where
  "bc_sell_tokens transfer e seller i n min_collateral s =
     and_then (require_auth e seller) (\<lambda>_.
     if n < BC_MIN_AMOUNT then fail BcInvalidAmount
     else
     and_then (get_curve_or_panic s i) (\<lambda>c.
     if \<not> bc_active c then fail BcInactive
     else if n > bc_supply c then fail BcInsufficientSupply
     else
     and_then (return_on_sell c n) (\<lambda>base_return.
     if base_return \<le> 0 then fail BcPriceCalculationFailed
     else
     and_then (muldiv_i128 base_return (uint (sell_fee_bps c)) 10000) (\<lambda>fee.
     let net_return = sub_i128 base_return fee in
     if net_return < min_collateral then fail BcSlippageExceeded
     else if base_return > reserve c then fail BcInsufficientReserve
     else
     and_then (bc_move transfer (tip_token c) seller (contract_address e) n s) (\<lambda>s1.
     and_then (bc_move transfer (reserve_token c) (contract_address e) seller net_return s1) (\<lambda>s2.
     let c' = c\<lparr>bc_supply := sub_i128 (bc_supply c) n, reserve := sub_i128 (reserve c) base_return,
                fees_collected := add_i128 (fees_collected c) fee\<rparr> in
     and_then (bc_spot_price c' (bc_supply c')) (\<lambda>new_price.
     Inr (\<lparr>tr_token_amount = n, collateral_amount = net_return, tr_fee_amount = fee,
            tr_new_price = new_price, tr_new_supply = bc_supply c'\<rparr>,
          bc_emit (BcSell seller i n net_return new_price) (set_curve c' s2)))))))))"

definition update_fees :: "env \<Rightarrow> address \<Rightarrow> u64 \<Rightarrow> u32 \<Rightarrow> u32 \<Rightarrow> 'tk curves \<Rightarrow> 'tk curves curve_result" where
  "update_fees e creator i bf sf s =
     and_then (require_auth e creator) (\<lambda>_.
     if bf > BC_MAX_FEE_BPS \<or> sf > BC_MAX_FEE_BPS then fail BcFeeTooHigh
     else
     and_then (get_curve_or_panic s i) (\<lambda>c.
     if bc_creator c \<noteq> creator then fail BcUnauthorized
     else Inr (bc_emit (BcFee i bf sf) (set_curve (c\<lparr>buy_fee_bps := bf, sell_fee_bps := sf\<rparr>) s))))"

definition curve_withdraw_fees :: "'tk transfer_fn \<Rightarrow> env \<Rightarrow> address \<Rightarrow> u64 \<Rightarrow> 'tk curves \<Rightarrow> (int \<times> 'tk curves) curve_result" where
  "curve_withdraw_fees transfer e creator i s =
     and_then (require_auth e creator) (\<lambda>_.
     and_then (get_curve_or_panic s i) (\<lambda>c.
     if bc_creator c \<noteq> creator then fail BcUnauthorized
     else let fees = fees_collected c in
     if fees \<le> 0 then fail BcNoFeesToWithdraw
     else
     and_then (bc_move transfer (reserve_token c) (contract_address e) creator fees s) (\<lambda>s1.
     Inr (fees, bc_emit (BcWfee i creator fees) (set_curve (c\<lparr>fees_collected := 0\<rparr>) s1)))))"

definition deactivate_curve :: "env \<Rightarrow> address \<Rightarrow> u64 \<Rightarrow> 'tk curves \<Rightarrow> 'tk curves curve_result" where
  "deactivate_curve e creator i s =
     and_then (require_auth e creator) (\<lambda>_.
     and_then (get_curve_or_panic s i) (\<lambda>c.
     if bc_creator c \<noteq> creator then fail BcUnauthorized
     else if \<not> bc_active c then fail BcInactive
     else Inr (bc_emit (BcDeact i) (set_curve (c\<lparr>bc_active := False\<rparr>) s))))"

definition get_quote :: "'tk curves \<Rightarrow> u64 \<Rightarrow> int \<Rightarrow> price_quote curve_result" where
  "get_quote s i n =
     (if n \<le> 0 then fail BcInvalidAmount
      else
      and_then (get_curve_or_panic s i) (\<lambda>c.
      and_then (bc_spot_price c (bc_supply c)) (\<lambda>current_spot.
      and_then (cost_to_buy c n) (\<lambda>buy_base.
      and_then (muldiv_i128 buy_base (uint (buy_fee_bps c)) 10000) (\<lambda>bfee.
      and_then (if n \<le> bc_supply c then return_on_sell c n else Inr 0) (\<lambda>sell_base.
      and_then (muldiv_i128 sell_base (uint (sell_fee_bps c)) 10000) (\<lambda>sfee.
      Inr \<lparr>q_spot_price = current_spot, buy_cost = add_i128 buy_base bfee,
           sell_return = max (sub_i128 sell_base sfee) 0, q_buy_fee = bfee, q_sell_fee = sfee\<rparr>)))))))"

definition get_spot_price :: "'tk curves \<Rightarrow> u64 \<Rightarrow> int curve_result" where
  "get_spot_price s i = and_then (get_curve_or_panic s i) (\<lambda>c. bc_spot_price c (bc_supply c))"

section \<open>Entry points\<close>

text \<open>Each entry point that changes state checks the pause switch and then runs the module's function.\<close>

definition unless_paused :: "env \<Rightarrow> ('tk curves \<Rightarrow> 'a curve_result) \<Rightarrow> 'tk curves \<Rightarrow> 'a curve_result" where
  "unless_paused e f s =
     and_then (require_not_paused BcContractPaused e (bcs_instance s)) (\<lambda>g. f (s\<lparr>bcs_instance := g\<rparr>))"

definition bc_create_curve where
  "bc_create_curve transfer e creator tip res p initial_reserve =
     unless_paused e (create_curve transfer e creator tip res p initial_reserve)"

definition bc_buy where
  "bc_buy transfer e buyer i n max_collateral = unless_paused e (bc_buy_tokens transfer e buyer i n max_collateral)"

definition bc_sell where
  "bc_sell transfer e seller i n min_collateral = unless_paused e (bc_sell_tokens transfer e seller i n min_collateral)"

definition bc_update_fees where
  "bc_update_fees e creator i bf sf = unless_paused e (update_fees e creator i bf sf)"

definition bc_withdraw_fees where
  "bc_withdraw_fees transfer e creator i = unless_paused e (curve_withdraw_fees transfer e creator i)"

definition bc_deactivate where
  "bc_deactivate e creator i = unless_paused e (deactivate_curve e creator i)"

end
