(* ===== verification/Bonding_Curve_Safety.thy ===== *)
theory Bonding_Curve_Safety
  imports Bonding_Curve
begin

text \<open>
  What the bonding curves promise and where they fail: the price approximation stays in range, selling
  what was just bought gives back the price without the fees, the contract's holdings cover all reserves
  and fees as long as no curve trades in the reserve token of another, and two flaws, a trade size that
  the integration undercharges and curves that sell the reserves of others.
\<close>

section \<open>Inversion\<close>

lemma bc_move_Inr_iff [result_simps]:
  "bc_move transfer t src dst n s = Inr s' \<longleftrightarrow>
     (\<exists>tk. transfer (bcs_tokens s) t src dst n = Some tk \<and> s' = s\<lparr>bcs_tokens := tk\<rparr>)"
  by (auto simp: bc_move_def result_simps)

lemma unless_paused_Inr_iff [result_simps]:
  "unless_paused e f s = Inr r \<longleftrightarrow>
     (\<exists>g. require_not_paused BcContractPaused e (bcs_instance s) = Inr g \<and> f (s\<lparr>bcs_instance := g\<rparr>) = Inr r)"
  by (simp add: unless_paused_def result_simps)

lemma bc_buy_tokens_Inr:
  assumes "bc_buy_tokens transfer e buyer i n mc s = Inr (r, s')"
  shows "\<exists>c cost tk1. bcs_curve s i = Some c \<and> bc_active c \<and> 0 < n \<and> cost_to_buy c n = Inr cost \<and> 0 < cost \<and>
     (muldiv_i128 cost (uint (buy_fee_bps c)) 10000 :: int curve_result) = Inr (tr_fee_amount r) \<and>
     collateral_amount r = add_i128 cost (tr_fee_amount r) \<and> collateral_amount r \<le> mc \<and>
     transfer (bcs_tokens s) (reserve_token c) buyer (contract_address e) (collateral_amount r) = Some tk1 \<and>
     transfer tk1 (tip_token c) (contract_address e) buyer n = Some (bcs_tokens s') \<and>
     bcs_curve s' = (bcs_curve s)(bc_id c \<mapsto> c\<lparr>bc_supply := add_i128 (bc_supply c) n,
       reserve := add_i128 (reserve c) cost, fees_collected := add_i128 (fees_collected c) (tr_fee_amount r)\<rparr>) \<and>
     bcs_counter s' = bcs_counter s"
  using assms
  by (auto simp: bc_buy_tokens_def Let_def result_simps get_curve_or_panic_def set_curve_def bc_emit_def BC_MIN_AMOUNT_def)

lemma bc_sell_tokens_Inr:
  assumes "bc_sell_tokens transfer e seller i n mc s = Inr (r, s')"
  shows "\<exists>c ret tk1. bcs_curve s i = Some c \<and> bc_active c \<and> 0 < n \<and> n \<le> bc_supply c \<and> return_on_sell c n = Inr ret \<and> 0 < ret \<and>
     (muldiv_i128 ret (uint (sell_fee_bps c)) 10000 :: int curve_result) = Inr (tr_fee_amount r) \<and>
     collateral_amount r = sub_i128 ret (tr_fee_amount r) \<and> mc \<le> collateral_amount r \<and> ret \<le> reserve c \<and>
     transfer (bcs_tokens s) (tip_token c) seller (contract_address e) n = Some tk1 \<and>
     transfer tk1 (reserve_token c) (contract_address e) seller (collateral_amount r) = Some (bcs_tokens s') \<and>
     bcs_curve s' = (bcs_curve s)(bc_id c \<mapsto> c\<lparr>bc_supply := sub_i128 (bc_supply c) n,
       reserve := sub_i128 (reserve c) ret, fees_collected := add_i128 (fees_collected c) (tr_fee_amount r)\<rparr>) \<and>
     bcs_counter s' = bcs_counter s"
  using assms
  by (auto simp: bc_sell_tokens_def Let_def result_simps get_curve_or_panic_def set_curve_def bc_emit_def BC_MIN_AMOUNT_def
      not_less)

section \<open>Buying and selling back\<close>

lemma spot_price_state: "bc_spot_price (c\<lparr>bc_supply := a, reserve := b, fees_collected := f\<rparr>) n = bc_spot_price c n"
  by (cases "bc_type c") (simp_all add: bc_spot_price_def)

lemma integrate_loop_state:
  "integrate_loop (c\<lparr>bc_supply := a, reserve := b, fees_collected := f\<rparr>) d k s acc = integrate_loop c d k s acc"
  by (induction k arbitrary: s acc) (simp_all add: spot_price_state cong: and_then_cong)

lemma integrate_price_state:
  "integrate_price (c\<lparr>bc_supply := a, reserve := b, fees_collected := f\<rparr>) x y k = integrate_price c x y k"
  unfolding integrate_price_def spot_price_state integrate_loop_state ..

lemma fee_range:
  assumes "0 < n" "f \<le> BC_MAX_FEE_BPS" "n * 10000 \<le> I128_MAX"
  shows "muldiv_i128 n (uint f) 10000 = Inr (n * uint f div 10000)" "0 \<le> n * uint f div 10000" "n * uint f div 10000 < n"
proof -
  have f: "0 \<le> uint f" "uint f \<le> 1000" using assms(2) by (simp_all add: BC_MAX_FEE_BPS_def word_le_def)
  have b: "n * uint f \<le> n * 1000" using f assms by (intro mult_left_mono) auto
  show "muldiv_i128 n (uint f) 10000 = Inr (n * uint f div 10000)"
    by (rule muldiv_i128_nonneg) (use b f assms in linarith)+
  show "n * uint f div 10000 < n" using b assms(1) by linarith
  show "0 \<le> n * uint f div 10000" using f assms(1) by (simp add: pos_imp_zdiv_nonneg_iff)
qed

text \<open>
  Selling at once what was just bought, from the same curve, pays back exactly the cost without
  the buy fee, less the sell fee: the trader never gains, and the supply and the reserve of the curve
  are what they were before; the reserve is always enough for it.
\<close>

theorem selling_back_returns_the_cost:
  assumes buy: "bc_buy_tokens transfer e buyer i n mc s = Inr (r, s1)"
    and sell: "bc_sell_tokens transfer e' seller i n mc' s1 = Inr (q, s2)"
    and c: "bcs_curve s i = Some c" "bc_id c = i" "0 \<le> bc_supply c" "0 \<le> reserve c"
      "buy_fee_bps c \<le> BC_MAX_FEE_BPS" "sell_fee_bps c \<le> BC_MAX_FEE_BPS"
    and small: "in_i128 (bc_supply c)" "in_i128 (bc_supply c + n)" "in_i128 (reserve c)"
      "\<And>cost. cost_to_buy c n = Inr cost \<Longrightarrow> in_i128 (reserve c + cost) \<and> cost * 10000 \<le> I128_MAX"
  shows "\<exists>cost c2. cost_to_buy c n = Inr cost \<and> collateral_amount r = cost + tr_fee_amount r \<and>
    collateral_amount q = cost - tr_fee_amount q \<and> collateral_amount q \<le> collateral_amount r \<and>
    bcs_curve s2 i = Some c2 \<and> bc_supply c2 = bc_supply c \<and> reserve c2 = reserve c"
proof -
  obtain cost where b: "0 < n" "cost_to_buy c n = Inr cost" "0 < cost"
      "(muldiv_i128 cost (uint (buy_fee_bps c)) 10000 :: int curve_result) = Inr (tr_fee_amount r)"
      "collateral_amount r = add_i128 cost (tr_fee_amount r)"
      "bcs_curve s1 i = Some (c\<lparr>bc_supply := add_i128 (bc_supply c) n,
       reserve := add_i128 (reserve c) cost, fees_collected := add_i128 (fees_collected c) (tr_fee_amount r)\<rparr>)"
    using bc_buy_tokens_Inr [OF buy] c(1,2) by auto
  let ?c1 = "c\<lparr>bc_supply := bc_supply c + n, reserve := reserve c + cost,
     fees_collected := add_i128 (fees_collected c) (tr_fee_amount r)\<rparr>"
  have c1: "bcs_curve s1 i = Some ?c1" using b(6) small(2) small(4) [OF b(2)] by (simp add: add_i128_exact)
  obtain ret where d: "return_on_sell ?c1 n = Inr ret"
      "(muldiv_i128 ret (uint (sell_fee_bps c)) 10000 :: int curve_result) = Inr (tr_fee_amount q)"
      "collateral_amount q = sub_i128 ret (tr_fee_amount q)"
      "bcs_curve s2 i = Some (?c1\<lparr>bc_supply := sub_i128 (bc_supply c + n) n, reserve := sub_i128 (reserve c + cost) ret,
         fees_collected := add_i128 (fees_collected ?c1) (tr_fee_amount q)\<rparr>)"
    using bc_sell_tokens_Inr [OF sell] c1 c(2) by auto
  have was: "sub_i128 (bc_supply c + n) n = bc_supply c" using small(1) by (simp add: sub_i128_exact)
  have "return_on_sell ?c1 n = cost_to_buy c n"
    using small(2) was by (simp add: return_on_sell_def cost_to_buy_def integrate_price_state add_i128_exact)
  then have ret: "ret = cost" using d(1) b(2) by simp
  have lim: "cost * 10000 \<le> I128_MAX" using small(4) [OF b(2)] by simp
  note bf = fee_range [OF b(3) c(5) lim] and sf = fee_range [OF b(3) c(6) lim]
  have fr: "tr_fee_amount r = cost * uint (buy_fee_bps c) div 10000" "tr_fee_amount q = cost * uint (sell_fee_bps c) div 10000"
    using b(4) d(2) ret by (simp_all add: bf(1) sf(1))
  have "in_i128 (cost + tr_fee_amount r)" "in_i128 (cost - tr_fee_amount q)"
    using fr bf sf b(3) lim by (simp_all add: in_i128_nonneg)
  moreover have "sub_i128 (reserve c + cost) cost = reserve c" using small(3) by (simp add: sub_i128_exact)
  ultimately show ?thesis
    using b d ret fr bf sf was by (auto simp: add_i128_exact sub_i128_exact)
qed

section \<open>The price approximations\<close>

lemma abs_sdiv_le:
  assumes "\<bar>a\<bar> \<le> (m::int)" "0 < d"
  shows "\<bar>a sdiv d\<bar> \<le> m div d"
proof -
  have "\<bar>a sdiv d\<bar> \<le> \<bar>a\<bar> div d"
    using assms(2) by (auto simp: signed_divide_int_def sgn_if abs_mult pos_imp_zdiv_nonneg_iff)
  also have "\<dots> \<le> m div d" using assms by (intro zdiv_mono1)
  finally show ?thesis .
qed

lemma div_mul_bounded:
  assumes "\<bar>a\<bar> \<le> A" "\<bar>x\<bar> \<le> X" "A * X \<le> I128_MAX" "1 < d"
  shows "div_i128 (mul_i128 a x) d = (Inr (a * x sdiv d) :: int curve_result)" "\<bar>a * x sdiv d\<bar> \<le> A * X div d"
proof -
  have "\<bar>a * x\<bar> \<le> A * X" unfolding abs_mult using assms by (intro mult_mono) auto
  then have b: "\<bar>a * x\<bar> \<le> A * X" "in_i128 (a * x)" using assms(3) by (auto simp: in_i128_def I128_MIN_def I128_MAX_def)
  show l: "\<bar>a * x sdiv d\<bar> \<le> A * X div d" using abs_sdiv_le [OF b(1), of d] assms(4) by simp
  have "A * X div d \<le> I128_MAX"
    using div_int_le_self [of "A * X" d] assms b(1) by linarith
  then have "in_i128 (a * x sdiv d)" using l by (auto simp: in_i128_def I128_MIN_def I128_MAX_def)
  then show "div_i128 (mul_i128 a x) d = (Inr (a * x sdiv d) :: int curve_result)"
    using b(2) assms(4) by (simp add: mul_i128_exact div_i128_def checked_div_i128_def)
qed

lemma div_mul_ex:
  assumes "\<bar>a\<bar> \<le> A" "\<bar>x\<bar> \<le> X" "A * X \<le> I128_MAX" "1 < d" "A * X div d \<le> B"
  shows "\<exists>q. div_i128 (mul_i128 a x) d = (Inr q :: int curve_result) \<and> \<bar>q\<bar> \<le> B"
  using div_mul_bounded [OF assms(1-4)] assms(5) by fastforce

lemma exp_approx_bounds: "\<exists>r. exp_approx x = Inr r \<and> 1 \<le> r \<and> r \<le> 350000000000"
proof -
  define y where "y = min (max x (- 20 * BC_PRECISION)) (20 * BC_PRECISION)"
  have y: "\<bar>y\<bar> \<le> 200000000" by (auto simp: y_def BC_PRECISION_def)
  have D: "\<exists>q. div_i128 (mul_i128 a y) d = (Inr q :: int curve_result) \<and> \<bar>q\<bar> \<le> B"
    if "\<bar>a\<bar> \<le> A" "A \<le> 1000000000000000" "1 < d" "A * 200000000 div d \<le> B" for a A d B
    using that(1,2) by (intro div_mul_ex [OF that(1) y _ that(3,4)]) (simp add: I128_MAX_def)
  obtain t2 where t2: "div_i128 (mul_i128 y y) 20000000 = (Inr t2 :: int curve_result)" "\<bar>t2\<bar> \<le> 2000000000"
    using D [OF y, of 20000000 2000000000] by auto
  obtain x2 where x2: "div_i128 (mul_i128 y y) 10000000 = (Inr x2 :: int curve_result)" "\<bar>x2\<bar> \<le> 4000000000"
    using D [OF y, of 10000000 4000000000] by auto
  obtain t3 where t3: "div_i128 (mul_i128 x2 y) 60000000 = (Inr t3 :: int curve_result)" "\<bar>t3\<bar> \<le> 13333333333"
    using D [OF x2(2), of 60000000 13333333333] by auto
  obtain x3 where x3: "div_i128 (mul_i128 x2 y) 10000000 = (Inr x3 :: int curve_result)" "\<bar>x3\<bar> \<le> 80000000000"
    using D [OF x2(2), of 10000000 80000000000] by auto
  obtain t4 where t4: "div_i128 (mul_i128 x3 y) 240000000 = (Inr t4 :: int curve_result)" "\<bar>t4\<bar> \<le> 66666666666"
    using D [OF x3(2), of 240000000 66666666666] by auto
  obtain x4 where x4: "div_i128 (mul_i128 x3 y) 10000000 = (Inr x4 :: int curve_result)" "\<bar>x4\<bar> \<le> 1600000000000"
    using D [OF x3(2), of 10000000 1600000000000] by auto
  obtain t5 where t5: "div_i128 (mul_i128 x4 y) 1200000000 = (Inr t5 :: int curve_result)" "\<bar>t5\<bar> \<le> 266666666666"
    using D [OF x4(2), of 1200000000 266666666666] by auto
  have a: "add_i128 u v = u + v" if "\<bar>u\<bar> \<le> 1000000000000" "\<bar>v\<bar> \<le> 1000000000000" for u v
    using that by (intro add_i128_exact) (auto simp: in_i128_def I128_MIN_def I128_MAX_def)
  have "exp_approx x = Inr (max (add_i128 (add_i128 (add_i128 (add_i128 (add_i128 BC_PRECISION y) t2) t3) t4) t5) 1)"
    unfolding exp_approx_def y_def [symmetric] Let_def
    by (simp add: BC_PRECISION_def t2(1) x2(1) t3(1) x3(1) t4(1) x4(1) t5(1))
  moreover have "add_i128 (add_i128 (add_i128 (add_i128 (add_i128 BC_PRECISION y) t2) t3) t4) t5 = 10000000 + y + t2 + t3 + t4 + t5"
    using y t2(2) t3(2) t4(2) t5(2) by (simp add: a BC_PRECISION_def)
  moreover have "10000000 + y + t2 + t3 + t4 + t5 \<le> 350000000000"
    using y t2(2) t3(2) t4(2) t5(2) by linarith
  ultimately show ?thesis by auto
qed

lemma sigmoid_approx_bounds: "\<exists>r. sigmoid_approx x = Inr r \<and> 0 \<le> r \<and> r < BC_PRECISION"
proof -
  obtain ex where ex: "exp_approx x = Inr ex" "1 \<le> ex" "ex \<le> 350000000000" using exp_approx_bounds by blast
  have "add_i128 BC_PRECISION ex = BC_PRECISION + ex"
    using ex by (intro add_i128_exact) (simp add: in_i128_def I128_MIN_def I128_MAX_def BC_PRECISION_def)
  then have s: "sigmoid_approx x = Inr (ex * BC_PRECISION div (BC_PRECISION + ex))"
    using ex by (simp add: sigmoid_approx_def muldiv_i128_nonneg BC_PRECISION_def I128_MAX_def)
  have pos: "0 < BC_PRECISION + ex" using ex by (simp add: BC_PRECISION_def)
  have "ex * BC_PRECISION < (BC_PRECISION + ex) * BC_PRECISION" by (simp add: BC_PRECISION_def)
  with div_round_down [OF pos, of "ex * BC_PRECISION"]
  have "(BC_PRECISION + ex) * (ex * BC_PRECISION div (BC_PRECISION + ex)) < (BC_PRECISION + ex) * BC_PRECISION" by linarith
  then have "ex * BC_PRECISION div (BC_PRECISION + ex) < BC_PRECISION" using pos by (simp add: mult_less_cancel_left_pos)
  then show ?thesis using s ex by (simp add: pos_imp_zdiv_nonneg_iff BC_PRECISION_def)
qed

text \<open>
  The price of a sigmoid curve is defined at every supply, is never negative and never exceeds the
  curve's maximum price, for parameters whose products stay within 128 bits.
\<close>

theorem sigmoid_price_is_capped:
  assumes "bc_type c = Sigmoid" "0 \<le> max_price c" "max_price c * BC_PRECISION \<le> I128_MAX"
  shows "\<exists>p. bc_spot_price c n = Inr p \<and> 0 \<le> p \<and> p \<le> max_price c"
proof -
  let ?z = "mul_i128 (k_param c) (sub_i128 n (midpoint c))"
  have "\<exists>q. div_i128 ?z BC_PRECISION = (Inr q :: int curve_result)"
  proof -
    have "in_i128 ?z" by simp
    then have "\<bar>?z\<bar> \<le> 2 ^ 127" by (auto simp: in_i128_def I128_MIN_def I128_MAX_def)
    from abs_sdiv_le [OF this, of BC_PRECISION] have "in_i128 (?z sdiv BC_PRECISION)"
      by (auto simp: in_i128_def I128_MIN_def I128_MAX_def BC_PRECISION_def)
    then show ?thesis by (simp add: div_i128_def checked_div_i128_def BC_PRECISION_def)
  qed
  then obtain z where z: "muldiv_i128 (k_param c) (sub_i128 n (midpoint c)) BC_PRECISION = (Inr z :: int curve_result)"
    by (auto simp: muldiv_i128_def)
  obtain g where g: "sigmoid_approx z = Inr g" "0 \<le> g" "g < BC_PRECISION" using sigmoid_approx_bounds by blast
  have le: "max_price c * g \<le> max_price c * BC_PRECISION" using g assms(2) by (intro mult_left_mono) auto
  then have "bc_spot_price c n = Inr (max_price c * g div BC_PRECISION)"
    using assms g z by (simp add: bc_spot_price_def muldiv_i128_nonneg BC_PRECISION_def)
  moreover have "max_price c * g div BC_PRECISION \<le> max_price c * BC_PRECISION div BC_PRECISION"
    using le by (intro zdiv_mono1) (auto simp: BC_PRECISION_def)
  ultimately show ?thesis using assms(2) g by (simp add: pos_imp_zdiv_nonneg_iff BC_PRECISION_def)
qed

section \<open>Large trades\<close>

lemma flat_spot_price:
  assumes "bc_type c = Linear" "slope c = 0" "in_i128 (base_price c)"
  shows "bc_spot_price c n = Inr (base_price c)"
  using assms by (simp add: bc_spot_price_def muldiv_i128_def mul_i128_def div_i128_def checked_div_i128_def
      signed_divide_int_def BC_PRECISION_def add_i128_exact)

lemma flat_loop:
  assumes "bc_type c = Linear" "slope c = 0" "in_i128 (base_price c)" "0 \<le> base_price c" "0 \<le> d" "0 \<le> acc"
    and "acc + int k * (base_price c * d) \<le> I128_MAX"
  shows "integrate_loop c d k s acc = Inr (acc + int k * (base_price c * d))"
  using assms(6,7)
proof (induction k arbitrary: s acc)
  case (Suc k)
  have nn: "0 \<le> base_price c * d" "0 \<le> int k * (base_price c * d)" using assms(4,5) by simp_all
  then have le: "base_price c * d \<le> I128_MAX" "acc + base_price c * d \<le> I128_MAX"
    using Suc.prems by (simp_all add: algebra_simps)
  have "mul_i128 (base_price c) d = base_price c * d" "add_i128 acc (base_price c * d) = acc + base_price c * d"
    using nn le Suc.prems(1) by (simp_all add: mul_i128_exact add_i128_exact in_i128_nonneg)
  then show ?case
    using Suc.IH [of "acc + base_price c * d"] Suc.prems nn flat_spot_price [OF assms(1-3)]
    by (simp add: algebra_simps)
qed simp

text \<open>
  A purchase of twenty tokens or more is undercharged: the integration splits the range into twenty
  steps of equal whole length and drops the remainder, so on a curve of constant price a purchase costs
  no more than the next lower multiple of twenty would.
\<close>

theorem bulk_purchase_skips_the_remainder:
  assumes flat: "bc_type c = Linear" "slope c = 0" "0 < base_price c"
    and n: "20 \<le> n" "0 \<le> bc_supply c" "bc_supply c + n \<le> I128_MAX" "base_price c * n \<le> I128_MAX"
  shows "\<exists>cost. cost_to_buy c n = Inr cost \<and> cost \<le> base_price c * (n - n mod 20) div BC_PRECISION"
proof -
  define d where "d = n div 20"
  define b where "b = base_price c * d"
  have d: "0 < d" "20 * d = n - n mod 20" "20 * d \<le> n" using n(1) by (auto simp: d_def) presburger+
  have le: "20 * b \<le> base_price c * n" unfolding b_def using d flat(3) mult_left_mono [OF d(3), of "base_price c"] by simp
  have bz: "0 \<le> b" using d(1) flat(3) by (simp add: b_def)
  then have b0: "0 \<le> b" "in_i128 b" using le n(4) by (simp_all add: in_i128_nonneg)
  have "base_price c * 1 \<le> base_price c * n" using flat(3) n(1) by (intro mult_left_mono) auto
  then have "base_price c \<le> I128_MAX" using n(4) by linarith
  then have bp: "in_i128 (base_price c)" using flat(3) by (simp add: in_i128_nonneg)
  have sp: "bc_spot_price c m = Inr (base_price c)" for m by (rule flat_spot_price [OF flat(1,2) bp])
  have step: "add_i128 (bc_supply c) n = bc_supply c + n" "sub_i128 (bc_supply c + n) (bc_supply c) = n"
    using n by (simp_all add: add_i128_exact sub_i128_exact in_i128_nonneg)
  have dv: "div_i128 n 20 = (Inr d :: int curve_result)" "div_i128 b 2 = (Inr (b div 2) :: int curve_result)"
    using n b0 by (simp_all add: d_def div_i128_nonneg in_i128_nonneg)
  have mb: "mul_i128 (base_price c) d = b" using b0 by (simp add: b_def mul_i128_exact)
  have h: "0 \<le> b div 2" "b div 2 + 19 * b \<le> I128_MAX" "b div 2 + 19 * b + b div 2 \<le> 20 * b"
    using b0(1) le n(4) by linarith+
  have lp: "integrate_loop c d 19 (bc_supply c) (b div 2) = Inr (b div 2 + 19 * b)"
    using flat_loop [OF flat(1,2) bp _ _ h(1), of d 19] flat(3) d(1) h(2) by (simp add: b_def)
  have "add_i128 0 (b div 2) = b div 2" "add_i128 (b div 2 + 19 * b) (b div 2) = b div 2 + 19 * b + b div 2"
    using h b0 le n(4) by (simp_all add: add_i128_exact in_i128_nonneg)
  then have int: "integrate_price c (bc_supply c) (bc_supply c + n) INTEGRATION_STEPS = Inr (b div 2 + 19 * b + b div 2)"
    using n(1) d(1) sp step(2) dv mb lp by (simp add: integrate_price_def INTEGRATION_STEPS_def)
  have "20 * b = base_price c * (n - n mod 20)" unfolding d(2) [symmetric] b_def by simp
  then have "b div 2 + 19 * b + b div 2 \<le> base_price c * (n - n mod 20)" using h(3) by simp
  then have "(b div 2 + 19 * b + b div 2) div BC_PRECISION \<le> base_price c * (n - n mod 20) div BC_PRECISION"
    by (intro zdiv_mono1) (simp_all add: BC_PRECISION_def)
  moreover have "cost_to_buy c n = Inr ((b div 2 + 19 * b + b div 2) div BC_PRECISION)"
    using int step(1) h(1,3) b0 le n(4) by (simp add: cost_to_buy_def div_i128_nonneg in_i128_nonneg BC_PRECISION_def)
  ultimately show ?thesis by blast
qed

section \<open>Examples\<close>

definition bc_env :: env where
  "bc_env = \<lparr>sequence = 0, timestamp = 9, authorized = (\<lambda>a. a \<noteq> 8), contract_address = 8,
     new_entry_live = 0, extend_policy = (\<lambda>_ _ l. l), wasm_uploaded = (\<lambda>_. False)\<rparr>"

definition flat_params :: "int \<Rightarrow> curve_params" where
  "flat_params price = \<lparr>cp_type = Linear, cp_base_price = price, cp_slope = 0, cp_k_param = 0, cp_midpoint = 0,
     cp_max_price = 0, cp_buy_fee_bps = 0, cp_sell_fee_bps = 0\<rparr>"

text \<open>
  Creator 1 seeds a curve with a reserve of 100; the contract, account 8, holds tip tokens (30) to sell.
  Account 2 trades.
\<close>

definition bc_start :: "ledger curves" where
  "bc_start = \<lparr>bcs_instance = \<lparr>lg_paused = None, lg_pause_reason = None, lg_pause_until = None, lg_token_whitelist = Map.empty\<rparr>,
     bcs_curve = Map.empty, bcs_counter = None,
     bcs_tokens = (\<lambda>t a. if t = 30 \<and> a = 8 then 1000 else if t = 40 \<and> (a = 1 \<or> a = 2) then 100 else 0), bcs_events = []\<rparr>"

definition bc_seeded :: "(u64 \<times> ledger curves) curve_result" where
  "bc_seeded = bc_create_curve ledger_transfer bc_env 1 30 40 (flat_params 10000000) 100 bc_start"

definition bc_bought :: "(trade_result \<times> ledger curves) curve_result" where
  "bc_bought = and_then bc_seeded (\<lambda>(i, s). bc_buy ledger_transfer bc_env 2 i 39 100 s)"

lemma bc_profit:
  "and_then bc_bought (\<lambda>(_, s).
     and_then (bc_sell ledger_transfer bc_env 2 1 20 0 s) (\<lambda>(_, s).
     and_then (bc_sell ledger_transfer bc_env 2 1 19 0 s) (\<lambda>(_, s).
     Inr (bcs_tokens s 40 2, bcs_tokens s 30 2, map_option reserve (bcs_curve s 1))))) = Inr (119, 0, Some 81)"
  by code_simp

text \<open>
  At price 1 account 2 buys 39 tokens for 20 and sells them in two parts for 39: it ends with 119 of the
  reserve token where it had 100, and the creator's reserve of 100 is down to 81.
\<close>

theorem bulk_purchase_skips_the_remainder_witness:
  "\<exists>c cost. bc_type c = Linear \<and> base_price c = BC_PRECISION \<and> cost_to_buy c 39 = Inr cost \<and> cost \<le> 20 \<and>
     and_then bc_bought (\<lambda>(_, s).
       and_then (bc_sell ledger_transfer bc_env 2 1 20 0 s) (\<lambda>(_, s).
       and_then (bc_sell ledger_transfer bc_env 2 1 19 0 s) (\<lambda>(_, s).
       Inr (bcs_tokens s 40 2, bcs_tokens s 30 2, map_option reserve (bcs_curve s 1))))) = Inr (119, 0, Some 81)"
proof -
  let ?c = "\<lparr>bc_id = 1, bc_creator = 1, tip_token = 30, reserve_token = 40, bc_type = Linear, base_price = BC_PRECISION,
     slope = 0, k_param = 0, midpoint = 0, max_price = 0, bc_supply = 0, reserve = 100, buy_fee_bps = 0, sell_fee_bps = 0,
     fees_collected = 0, bc_active = True\<rparr>"
  have "\<exists>cost. cost_to_buy ?c 39 = Inr cost \<and> cost \<le> base_price ?c * (39 - 39 mod 20) div BC_PRECISION"
    by (rule bulk_purchase_skips_the_remainder) (simp_all add: BC_PRECISION_def I128_MAX_def)
  then obtain cost where "cost_to_buy ?c 39 = Inr cost" "cost \<le> 20" by (auto simp: BC_PRECISION_def)
  then show ?thesis using bc_profit by (intro exI [of _ ?c] exI [of _ cost]) simp
qed

text \<open>
  The curves do not separate the tokens they hold: anyone can create a curve whose tip token is the
  reserve token of another curve and buy that reserve at a price of its own making. Here account 2 empties
  the reserve of 100 of the first curve for 10 units of a token it chose.
\<close>

theorem curve_can_sell_a_foreign_reserve:
  "and_then bc_seeded (\<lambda>(_, s).
     and_then (bc_create_curve ledger_transfer bc_env 2 40 50 (flat_params 1000000) 0
       (s\<lparr>bcs_tokens := (bcs_tokens s)(50 := (\<lambda>a. if a = 2 then 10 else 0))\<rparr>)) (\<lambda>(i, s).
     and_then (bc_buy ledger_transfer bc_env 2 i 100 10 s) (\<lambda>(r, s).
     Inr (collateral_amount r, bcs_tokens s 40 2, bcs_tokens s 40 8, map_option reserve (bcs_curve s 1))))) =
   Inr (10, 200, 0, Some 100)"
  by code_simp

theorem sigmoid_price_is_capped_witness:
  "\<exists>c p. bc_type c = Sigmoid \<and> max_price c = 5 * BC_PRECISION \<and> bc_spot_price c 1000 = Inr p \<and> p \<le> 5 * BC_PRECISION"
proof -
  let ?c = "\<lparr>bc_id = 1, bc_creator = 1, tip_token = 30, reserve_token = 40, bc_type = Sigmoid, base_price = 1,
     slope = 0, k_param = BC_PRECISION, midpoint = 500, max_price = 5 * BC_PRECISION, bc_supply = 0, reserve = 0,
     buy_fee_bps = 0, sell_fee_bps = 0, fees_collected = 0, bc_active = True\<rparr>"
  have "\<exists>p. bc_spot_price ?c 1000 = Inr p \<and> 0 \<le> p \<and> p \<le> max_price ?c"
    by (rule sigmoid_price_is_capped) (simp_all add: BC_PRECISION_def I128_MAX_def)
  then show ?thesis by (intro exI [of _ ?c]) auto
qed

lemma bc_seeded_ok:
  "\<exists>s c. bc_seeded = Inr (1, s) \<and> bcs_curve s 1 = Some c \<and> bc_id c = 1 \<and> bc_supply c = 0 \<and> reserve c = 100 \<and>
     buy_fee_bps c = 0 \<and> sell_fee_bps c = 0 \<and> cost_to_buy c 40 = Inr 40"
proof -
  have "(case bc_seeded of Inl _ \<Rightarrow> False | Inr (i, s) \<Rightarrow> i = 1 \<and>
     (case bcs_curve s 1 of None \<Rightarrow> False | Some c \<Rightarrow> bc_id c = 1 \<and> bc_supply c = 0 \<and> reserve c = 100 \<and>
       buy_fee_bps c = 0 \<and> sell_fee_bps c = 0 \<and> cost_to_buy c 40 = Inr 40))" by code_simp
  then show ?thesis by (auto dest!: case_ok split: option.splits)
qed

lemma bc_traded_ok:
  "(case bc_seeded of Inl _ \<Rightarrow> False | Inr (i, s) \<Rightarrow>
     (case bc_buy_tokens ledger_transfer bc_env 2 1 40 100 s of Inl _ \<Rightarrow> False | Inr (r, s1) \<Rightarrow>
       is_ok (bc_sell_tokens ledger_transfer bc_env 2 1 40 0 s1)))"
  by code_simp

theorem selling_back_returns_the_cost_witness:
  "\<exists>s r s1 q s2. bc_seeded = Inr (1, s) \<and> bc_buy_tokens ledger_transfer bc_env 2 1 40 100 s = Inr (r, s1) \<and>
     bc_sell_tokens ledger_transfer bc_env 2 1 40 0 s1 = Inr (q, s2) \<and> collateral_amount q \<le> collateral_amount r"
proof -
  obtain s c where s: "bc_seeded = Inr (1, s)" "bcs_curve s 1 = Some c" "bc_id c = 1" "bc_supply c = 0" "reserve c = 100"
      "buy_fee_bps c = 0" "sell_fee_bps c = 0" "cost_to_buy c 40 = Inr 40"
    using bc_seeded_ok by blast
  obtain r s1 q s2 where t: "bc_buy_tokens ledger_transfer bc_env 2 1 40 100 s = Inr (r, s1)"
      "bc_sell_tokens ledger_transfer bc_env 2 1 40 0 s1 = Inr (q, s2)"
    using bc_traded_ok unfolding s(1) by (auto dest!: case_ok simp: is_ok_iff)
  have "collateral_amount q \<le> collateral_amount r"
    using selling_back_returns_the_cost [OF t s(2,3)] s(4-8)
    by (auto simp: in_i128_def I128_MAX_def I128_MIN_def)
  then show ?thesis using s(1) t by blast
qed

end
