(* ===== verification/Legacy_Guards.thy ===== *)
theory Legacy_Guards
  imports Legacy_Base
begin

text \<open>
  The guards that the operations of the legacy tip jar run before they move money
  (\<^verbatim>\<open>src/contracts/tipjar-legacy/src/lib.rs\<close>): the pause of a single feature and the circuit breaker on
  amounts and volume. The errors they raise belong to the error enumerations of their callers and are
  arguments.
\<close>

section \<open>Feature pauses\<close>

datatype pause_scope = Tipping | Withdrawals | Subscriptions

definition require_feature_not_paused ::
  "'e \<Rightarrow> 'e \<Rightarrow> env \<Rightarrow> (pause_scope \<rightharpoonup> bool) \<Rightarrow> pause_scope \<Rightarrow> legacy_instance \<Rightarrow> ('e, legacy_instance) result" where
  "require_feature_not_paused contract_paused feature_paused e paused scope g =
     and_then (require_not_paused contract_paused e g) (\<lambda>g'.
     if unwrap_or (paused scope) False then fail feature_paused else Inr g')"

section \<open>Circuit breaker\<close>

record breaker_config =
  max_single_tip :: int
  max_volume_window :: int
  window_seconds :: u64
  cooldown_seconds :: u64
  cb_enabled :: bool

record breaker_state =
  window_start :: u64
  current_volume :: int
  halted_until :: u64
  trigger_count :: u32

datatype breaker_event = CbTrig string u64 u32 | CbReset address

record breaker =
  cb_cfg :: "breaker_config option"
  cb_state :: "breaker_state option"
  cb_events :: "breaker_event list"

definition breaker_state_of :: "env \<Rightarrow> breaker \<Rightarrow> breaker_state" where
  "breaker_state_of e b = unwrap_or (cb_state b)
     \<lparr>window_start = timestamp e, current_volume = 0, halted_until = 0, trigger_count = 0\<rparr>"

definition update_breaker_state :: "breaker_state \<Rightarrow> breaker \<Rightarrow> breaker" where
  "update_breaker_state st b = b\<lparr>cb_state := Some st\<rparr>"

definition trigger_breaker :: "env \<Rightarrow> breaker_state \<Rightarrow> breaker_config \<Rightarrow> string \<Rightarrow> breaker \<Rightarrow> breaker" where
  "trigger_breaker e st cfg reason b =
     (let st' = st\<lparr>halted_until := sat_add_u64 (timestamp e) (cooldown_seconds cfg), trigger_count := sat_add_u32 (trigger_count st) 1\<rparr> in
      b\<lparr>cb_state := Some st', cb_events := cb_events b @ [CbTrig reason (halted_until st') (trigger_count st')]\<rparr>)"

text \<open>
  The check as the contract runs it: the storage and the events it has written when it ends, and the error
  it panics with, if it does. Where it trips, it first writes the halt and then panics.
\<close>

definition breaker_check :: "'e \<Rightarrow> env \<Rightarrow> int \<Rightarrow> breaker \<Rightarrow> breaker \<times> 'e option" where
  "breaker_check tripped e amount b =
     (case cb_cfg b of
        None \<Rightarrow> (b, None)
      | Some cfg \<Rightarrow>
          if \<not> cb_enabled cfg then (b, None)
          else
          let st = breaker_state_of e b; now = timestamp e in
          if now < halted_until st then (b, Some tripped)
          else if amount > max_single_tip cfg then (trigger_breaker e st cfg ''spike'' b, Some tripped)
          else if now \<ge> sat_add_u64 (window_start st) (window_seconds cfg)
          then (update_breaker_state (st\<lparr>window_start := now, current_volume := amount\<rparr>) b, None)
          else
          let st1 = st\<lparr>current_volume := sat_i128 (current_volume st + amount)\<rparr> in
          if current_volume st1 > max_volume_window cfg
          then (trigger_breaker e st1 cfg ''volume'' b, Some tripped)
          else (update_breaker_state st1 b, None))"

text \<open>
  The host commits what a call has written when the call returns, and discards all of it when the call
  panics: \<open>committed b r\<close> is the breaker after the call that started on \<open>b\<close> and ended with \<open>r\<close>. Inside an
  operation the check hands on what it wrote, or ends the operation with its error.
\<close>

definition committed :: "'s \<Rightarrow> 's \<times> 'e option \<Rightarrow> 's" where
  "committed s r = (case snd r of None \<Rightarrow> fst r | Some _ \<Rightarrow> s)"

definition check_circuit_breaker :: "'e \<Rightarrow> env \<Rightarrow> int \<Rightarrow> breaker \<Rightarrow> ('e, breaker) result" where
  "check_circuit_breaker tripped e amount b =
     (case breaker_check tripped e amount b of (b', None) \<Rightarrow> Inr b' | (_, Some err) \<Rightarrow> fail err)"

text \<open>Writes that the panic that follows them takes back.\<close>

definition drop_and_fail :: "'a \<Rightarrow> 'e \<Rightarrow> ('e, 'b) result" where
  "drop_and_fail s err = fail err"

definition breaker_admin :: "'e \<Rightarrow> env \<Rightarrow> address option \<Rightarrow> address \<Rightarrow> ('e, unit) result" where
  "breaker_admin unauthorized e stored admin =
     and_then (require_auth e admin) (\<lambda>_.
     (case stored of
        None \<Rightarrow> Inl Trapped
      | Some a \<Rightarrow> if admin \<noteq> a then fail unauthorized else Inr ()))"

definition set_circuit_breaker_config ::
  "'e \<Rightarrow> env \<Rightarrow> address option \<Rightarrow> address \<Rightarrow> breaker_config \<Rightarrow> breaker \<Rightarrow> ('e, breaker) result" where
  "set_circuit_breaker_config unauthorized e stored admin cfg b =
     and_then (breaker_admin unauthorized e stored admin) (\<lambda>_. Inr (b\<lparr>cb_cfg := Some cfg\<rparr>))"

definition trigger_circuit_breaker ::
  "'e \<Rightarrow> 'e \<Rightarrow> env \<Rightarrow> address option \<Rightarrow> address \<Rightarrow> string \<Rightarrow> breaker \<Rightarrow> ('e, breaker) result" where
  "trigger_circuit_breaker unauthorized not_configured e stored admin reason b =
     and_then (breaker_admin unauthorized e stored admin) (\<lambda>_.
     and_then (ok_or not_configured (cb_cfg b)) (\<lambda>cfg.
     Inr (trigger_breaker e (breaker_state_of e b) cfg reason b)))"

definition legacy_reset_circuit_breaker ::
  "'e \<Rightarrow> env \<Rightarrow> address option \<Rightarrow> address \<Rightarrow> breaker \<Rightarrow> ('e, breaker) result" where
  "legacy_reset_circuit_breaker unauthorized e stored admin b =
     and_then (breaker_admin unauthorized e stored admin) (\<lambda>_.
     (case cb_state b of
        None \<Rightarrow> Inr b
      | Some st \<Rightarrow>
          let b1 = update_breaker_state (st\<lparr>halted_until := 0, current_volume := 0, window_start := timestamp e\<rparr>) b in
          Inr (b1\<lparr>cb_events := cb_events b1 @ [CbReset admin]\<rparr>)))"

section \<open>What the breaker guarantees\<close>

lemma check_circuit_breaker_cases:
  assumes "check_circuit_breaker tripped e n b = Inr b'"
  shows "cb_cfg b' = cb_cfg b" "cb_events b' = cb_events b"
    and "\<And>cfg. cb_cfg b = Some cfg \<Longrightarrow> cb_enabled cfg \<Longrightarrow>
      n \<le> max_single_tip cfg \<and> halted_until (breaker_state_of e b) \<le> timestamp e \<and>
      (\<exists>st'. cb_state b' = Some st' \<and> halted_until st' = halted_until (breaker_state_of e b) \<and>
        trigger_count st' = trigger_count (breaker_state_of e b) \<and>
        (if timestamp e \<ge> sat_add_u64 (window_start (breaker_state_of e b)) (window_seconds cfg)
         then window_start st' = timestamp e \<and> current_volume st' = n
         else window_start st' = window_start (breaker_state_of e b) \<and>
           current_volume st' = sat_i128 (current_volume (breaker_state_of e b) + n) \<and>
           current_volume st' \<le> max_volume_window cfg))"
  using assms
  by (auto simp: check_circuit_breaker_def breaker_check_def update_breaker_state_def Let_def not_less not_le
      split: option.splits if_splits)

lemma check_is_committed:
  "check_circuit_breaker tripped e n b = Inr b' \<Longrightarrow>
     committed b (breaker_check tripped e n b) = b' \<and> snd (breaker_check tripped e n b) = None"
  "\<not> is_ok (check_circuit_breaker tripped e n b) \<Longrightarrow>
     committed b (breaker_check tripped e n b) = b \<and> snd (breaker_check tripped e n b) \<noteq> None"
  by (auto simp: check_circuit_breaker_def committed_def split: prod.splits option.splits)

text \<open>
  A sequence of attempted amounts, each in the environment of its call: every attempt runs the check on
  the breaker that the attempts before it left in the ledger, whether they were accepted or refused. The
  second component collects the accepted ones.
\<close>

definition breaker_attempt :: "'e \<Rightarrow> breaker \<times> (env \<times> int) list \<Rightarrow> env \<times> int \<Rightarrow> breaker \<times> (env \<times> int) list" where
  "breaker_attempt tripped s x =
     (let r = breaker_check tripped (fst x) (snd x) (fst s)
      in (committed (fst s) r, if snd r = None then snd s @ [x] else snd s))"

definition breaker_run :: "'e \<Rightarrow> (env \<times> int) list \<Rightarrow> breaker \<Rightarrow> breaker \<times> (env \<times> int) list" where
  "breaker_run tripped xs b = foldl (breaker_attempt tripped) (b, []) xs"

lemma breaker_run_snoc: "breaker_run tripped (xs @ [x]) b = breaker_attempt tripped (breaker_run tripped xs b) x"
  by (simp add: breaker_run_def)

definition window_volume :: "u64 \<Rightarrow> (env \<times> int) list \<Rightarrow> int" where
  "window_volume start xs = sum_list (map snd (filter (\<lambda>(e, _). start \<le> timestamp e) xs))"

lemma window_volume_snoc:
  "window_volume w (xs @ [(e, n)]) = window_volume w xs + (if w \<le> timestamp e then n else 0)"
  by (simp add: window_volume_def)

lemma window_volume_fresh:
  assumes "\<And>x. x \<in> set xs \<Longrightarrow> timestamp (fst x) < w"
  shows "window_volume w xs = 0"
proof -
  have "filter (\<lambda>(e, _). w \<le> timestamp e) xs = []"
    using assms by (auto simp: filter_empty_conv not_le split_beta)
  then show ?thesis by (simp add: window_volume_def)
qed

lemma window_volume_le: "\<forall>x\<in>set xs. 0 < snd x \<Longrightarrow> 0 \<le> window_volume w xs \<and> window_volume w xs \<le> sum_list (map snd xs)"
  by (induction xs) (auto simp: window_volume_def split_beta)

definition breaker_tracks :: "breaker_config \<Rightarrow> (env \<times> int) list \<Rightarrow> breaker_state \<Rightarrow> bool" where
  "breaker_tracks cfg xs st \<longleftrightarrow> halted_until st = 0 \<and> trigger_count st = 0 \<and>
     current_volume st = window_volume (window_start st) xs \<and>
     current_volume st \<le> max (max_single_tip cfg) (max_volume_window cfg) \<and>
     (\<exists>x\<in>set xs. timestamp (fst x) = window_start st) \<and>
     (\<forall>x\<in>set xs. snd x \<le> max_single_tip cfg \<and> timestamp (fst x) < sat_add_u64 (window_start st) (window_seconds cfg))"

lemma breaker_tracks_first:
  assumes "check_circuit_breaker tripped e n b = Inr b'" "cb_cfg b = Some cfg" "cb_enabled cfg" "cb_state b = None"
    and "0 < window_seconds cfg" "timestamp e < - 1" "0 < n" "n \<le> I128_MAX"
  shows "\<exists>st. cb_state b' = Some st \<and> breaker_tracks cfg [(e, n)] st"
proof -
  have "timestamp e < sat_add_u64 (timestamp e) (window_seconds cfg)" by (rule sat_add_u64_less [OF assms(5,6)])
  moreover have "sat_i128 n = n" using assms(7,8) by (simp add: in_i128_nonneg)
  moreover have "breaker_state_of e b = \<lparr>window_start = timestamp e, current_volume = 0, halted_until = 0, trigger_count = 0\<rparr>"
    by (simp add: breaker_state_of_def assms(4))
  ultimately show ?thesis
    using check_circuit_breaker_cases(3) [OF assms(1-3)]
    by (auto simp: breaker_tracks_def window_volume_def not_le)
qed

lemma breaker_tracks_next:
  assumes chk: "check_circuit_breaker tripped e n b = Inr b'" "cb_cfg b = Some cfg" "cb_enabled cfg" "cb_state b = Some st"
    and tr: "breaker_tracks cfg xs st" "0 < window_seconds cfg" "timestamp e < - 1"
    and pos: "0 < n" "\<forall>x\<in>set xs. 0 < snd x" "sum_list (map snd xs) + n \<le> I128_MAX"
    and time: "\<forall>x\<in>set xs. timestamp (fst x) \<le> timestamp e"
  shows "\<exists>st. cb_state b' = Some st \<and> breaker_tracks cfg (xs @ [(e, n)]) st"
proof -
  have st: "breaker_state_of e b = st" by (simp add: breaker_state_of_def chk(4))
  let ?stop = "sat_add_u64 (window_start st) (window_seconds cfg)"
  obtain st' where n: "n \<le> max_single_tip cfg" and st': "cb_state b' = Some st'" "halted_until st' = 0" "trigger_count st' = 0"
      and w: "if timestamp e \<ge> ?stop then window_start st' = timestamp e \<and> current_volume st' = n
        else window_start st' = window_start st \<and> current_volume st' = sat_i128 (current_volume st + n) \<and>
          current_volume st' \<le> max_volume_window cfg"
    using check_circuit_breaker_cases(3) [OF chk(1-3), unfolded st] tr(1) unfolding breaker_tracks_def by metis
  have "breaker_tracks cfg (xs @ [(e, n)]) st'"
  proof (cases "timestamp e \<ge> ?stop")
    case True
    then have "window_volume (timestamp e) xs = 0"
      using tr(1) by (intro window_volume_fresh) (auto simp: breaker_tracks_def intro: less_le_trans)
    moreover have "timestamp e < sat_add_u64 (timestamp e) (window_seconds cfg)" by (rule sat_add_u64_less [OF tr(2,3)])
    ultimately show ?thesis
      using True w st' n tr(1) time by (auto simp: breaker_tracks_def window_volume_snoc intro: le_less_trans)
  next
    case False
    have v: "0 \<le> window_volume (window_start st) xs \<and> window_volume (window_start st) xs \<le> sum_list (map snd xs)"
      by (rule window_volume_le [OF pos(2)])
    then have "in_i128 (current_volume st + n)" using tr(1) pos(1,3) by (simp add: breaker_tracks_def in_i128_nonneg)
    then have "window_start st' = window_start st" "current_volume st' = current_volume st + n"
      "current_volume st' \<le> max_volume_window cfg"
      using w False by simp_all
    moreover have "window_start st \<le> timestamp e" using tr(1) time by (auto simp: breaker_tracks_def)
    ultimately show ?thesis
      using False st' n tr(1) by (auto simp: breaker_tracks_def window_volume_snoc not_le)
  qed
  then show ?thesis using st' by blast
qed

definition breaker_inv :: "breaker_config \<Rightarrow> breaker \<Rightarrow> breaker \<times> (env \<times> int) list \<Rightarrow> bool" where
  "breaker_inv cfg b0 r \<longleftrightarrow> cb_cfg (fst r) = Some cfg \<and> cb_events (fst r) = cb_events b0 \<and>
     (case cb_state (fst r) of None \<Rightarrow> snd r = [] | Some st \<Rightarrow> breaker_tracks cfg (snd r) st)"

lemma breaker_inv_accepted:
  assumes "breaker_inv cfg b0 (b, acc)" "cb_enabled cfg" "0 < window_seconds cfg" "check_circuit_breaker tripped e n b = Inr b'"
    and "timestamp e < - 1" "0 < n" "\<forall>x\<in>set acc. 0 < snd x" "sum_list (map snd acc) + n \<le> I128_MAX"
    and "\<forall>x\<in>set acc. timestamp (fst x) \<le> timestamp e"
  shows "breaker_inv cfg b0 (b', acc @ [(e, n)])"
proof -
  have b: "cb_cfg b = Some cfg" "cb_events b = cb_events b0" using assms(1) by (simp_all add: breaker_inv_def)
  have "\<exists>st. cb_state b' = Some st \<and> breaker_tracks cfg (acc @ [(e, n)]) st"
  proof (cases "cb_state b")
    case None
    then have "acc = []" using assms(1) by (simp add: breaker_inv_def)
    then show ?thesis
      using breaker_tracks_first [OF assms(4) b(1) assms(2) None assms(3,5,6)] assms(8) by simp
  next
    case (Some st)
    then have "breaker_tracks cfg acc st" using assms(1) by (simp add: breaker_inv_def)
    then show ?thesis
      using breaker_tracks_next [OF assms(4) b(1) assms(2) Some _ assms(3,5,6)] assms(7-9) by blast
  qed
  then show ?thesis using check_circuit_breaker_cases(1,2) [OF assms(4)] b by (auto simp: breaker_inv_def)
qed

lemma breaker_run_inv:
  assumes "cb_cfg b0 = Some cfg" "cb_enabled cfg" "cb_state b0 = None" "0 < window_seconds cfg"
    and "sorted_wrt (\<lambda>x y. timestamp (fst x) \<le> timestamp (fst y)) xs"
    and "\<forall>x\<in>set xs. 0 < snd x \<and> timestamp (fst x) < - 1" "sum_list (map snd xs) \<le> I128_MAX"
  shows "breaker_inv cfg b0 (breaker_run tripped xs b0) \<and> set (snd (breaker_run tripped xs b0)) \<subseteq> set xs \<and>
    sum_list (map snd (snd (breaker_run tripped xs b0))) \<le> sum_list (map snd xs)"
  using assms(5-)
proof (induction xs rule: rev_induct)
  case Nil
  then show ?case using assms(1,3) by (simp add: breaker_run_def breaker_inv_def)
next
  case (snoc x xs)
  obtain b acc where r: "breaker_run tripped xs b0 = (b, acc)" by fastforce
  have s: "sorted_wrt (\<lambda>x y. timestamp (fst x) \<le> timestamp (fst y)) xs" "\<forall>y\<in>set xs. timestamp (fst y) \<le> timestamp (fst x)"
    and p: "\<forall>x\<in>set xs. 0 < snd x \<and> timestamp (fst x) < - 1" "sum_list (map snd xs) + snd x \<le> I128_MAX"
    and x: "0 < snd x" "timestamp (fst x) < - 1"
    using snoc.prems by (auto simp: sorted_wrt_append)
  have IH: "breaker_inv cfg b0 (b, acc)" "set acc \<subseteq> set xs" "sum_list (map snd acc) \<le> sum_list (map snd xs)"
    using snoc.IH [OF s(1) p(1)] p(2) x(1) by (simp_all add: r)
  show ?case
  proof (cases "check_circuit_breaker tripped (fst x) (snd x) b")
    case (Inr b')
    have "breaker_inv cfg b0 (b', acc @ [(fst x, snd x)])"
      using IH s(2) p x by (intro breaker_inv_accepted [OF IH(1) assms(2,4) Inr x(2,1)]) auto
    then show ?thesis
      using IH check_is_committed(1) [OF Inr] by (auto simp: breaker_run_snoc r breaker_attempt_def Let_def)
  next
    case (Inl err)
    then have "committed b (breaker_check tripped (fst x) (snd x) b) = b" "snd (breaker_check tripped (fst x) (snd x) b) \<noteq> None"
      using check_is_committed(2) [of tripped "fst x" "snd x" b] by simp_all
    then show ?thesis using IH x(1) by (auto simp: breaker_run_snoc r breaker_attempt_def Let_def)
  qed
qed

text \<open>With no halt in force, an amount is refused only for its own size or for the volume of the window.\<close>

lemma breaker_accepts_iff:
  assumes "breaker_inv cfg b0 (b, acc)" "cb_enabled cfg" "0 < window_seconds cfg" "timestamp e < - 1"
    and "0 < n" "\<forall>x\<in>set acc. 0 < snd x" "sum_list (map snd acc) + n \<le> I128_MAX"
  shows "is_ok (check_circuit_breaker tripped e n b) \<longleftrightarrow> n \<le> max_single_tip cfg \<and>
    (case cb_state b of None \<Rightarrow> n \<le> max_volume_window cfg
     | Some st \<Rightarrow> sat_add_u64 (window_start st) (window_seconds cfg) \<le> timestamp e \<or>
         current_volume st + n \<le> max_volume_window cfg)"
proof (cases "cb_state b")
  case None
  have "acc = []" using assms(1) None by (simp add: breaker_inv_def)
  then have "sat_i128 n = n" using assms(5,7) by (simp add: in_i128_nonneg)
  moreover have "\<not> sat_add_u64 (timestamp e) (window_seconds cfg) \<le> timestamp e"
    using sat_add_u64_less [OF assms(3,4)] by (simp add: not_le)
  moreover have "breaker_state_of e b = \<lparr>window_start = timestamp e, current_volume = 0, halted_until = 0, trigger_count = 0\<rparr>"
    by (simp add: breaker_state_of_def None)
  ultimately show ?thesis
    using assms(1,2) None by (simp add: breaker_inv_def check_circuit_breaker_def breaker_check_def Let_def)
next
  case (Some st)
  have st: "breaker_state_of e b = st" by (simp add: breaker_state_of_def Some)
  have tr: "breaker_tracks cfg acc st" using assms(1) Some by (simp add: breaker_inv_def)
  then have "halted_until st = 0" by (simp add: breaker_tracks_def)
  moreover have "sat_i128 (current_volume st + n) = current_volume st + n"
    using window_volume_le [OF assms(6), of "window_start st"] tr assms(5,7)
    by (simp add: breaker_tracks_def in_i128_nonneg)
  ultimately show ?thesis
    using assms(1,2) Some by (simp add: breaker_inv_def check_circuit_breaker_def breaker_check_def st Let_def)
qed

lemma breaker_writes_the_halt:
  assumes "cb_cfg b = Some cfg" "cb_enabled cfg" "halted_until (breaker_state_of e b) \<le> timestamp e" "max_single_tip cfg < n"
  shows "snd (breaker_check tripped e n b) = Some tripped \<and> committed b (breaker_check tripped e n b) = b \<and>
    (\<exists>st. cb_state (fst (breaker_check tripped e n b)) = Some st \<and>
      halted_until st = sat_add_u64 (timestamp e) (cooldown_seconds cfg))"
  using assms leD [OF assms(3)] by (simp add: breaker_check_def committed_def trigger_breaker_def Let_def)

text \<open>
  C18. The volume limit holds and the halt does not, over any sequence of attempts, accepted or refused,
  that follow one another in time, on a breaker that starts with no recorded state. Every accepted amount
  is within the single-tip limit; the amounts accepted since the start of the current window add up to
  the recorded volume, which is within the larger of the two limits. But however many attempts were
  refused, no halt is in force, no trip is counted and no event was published: a check that refuses a
  spike does write the halt, then panics, and the host discards what the failed call wrote. So the next
  attempt is refused only for its own size or for the volume of the window, never for a cooldown.
\<close>

theorem breaker_limits_volume_but_never_trips:
  assumes "breaker_run tripped xs b0 = (b, accepted)"
    and "cb_cfg b0 = Some cfg" "cb_enabled cfg" "cb_state b0 = None" "0 < window_seconds cfg"
    and "sorted_wrt (\<lambda>x y. timestamp (fst x) \<le> timestamp (fst y)) (xs @ [(e, n)])"
    and "\<forall>x\<in>set (xs @ [(e, n)]). 0 < snd x \<and> timestamp (fst x) < - 1" "sum_list (map snd (xs @ [(e, n)])) \<le> I128_MAX"
  shows "set accepted \<subseteq> set xs \<and> (\<forall>x\<in>set accepted. snd x \<le> max_single_tip cfg) \<and> cb_events b = cb_events b0 \<and>
    (case cb_state b of
       None \<Rightarrow> accepted = []
     | Some st \<Rightarrow> halted_until st = 0 \<and> trigger_count st = 0 \<and> current_volume st = window_volume (window_start st) accepted \<and>
         current_volume st \<le> max (max_single_tip cfg) (max_volume_window cfg)) \<and>
    (is_ok (check_circuit_breaker tripped e n b) \<longleftrightarrow> n \<le> max_single_tip cfg \<and>
       (case cb_state b of None \<Rightarrow> n \<le> max_volume_window cfg
        | Some st \<Rightarrow> sat_add_u64 (window_start st) (window_seconds cfg) \<le> timestamp e \<or>
            current_volume st + n \<le> max_volume_window cfg)) \<and>
    (max_single_tip cfg < n \<longrightarrow> snd (breaker_check tripped e n b) = Some tripped \<and>
       (\<exists>st. cb_state (fst (breaker_check tripped e n b)) = Some st \<and>
          halted_until st = sat_add_u64 (timestamp e) (cooldown_seconds cfg)) \<and>
       committed b (breaker_check tripped e n b) = b)"
proof -
  have p: "sorted_wrt (\<lambda>x y. timestamp (fst x) \<le> timestamp (fst y)) xs" "\<forall>x\<in>set xs. 0 < snd x \<and> timestamp (fst x) < - 1"
    and n: "0 < n" "timestamp e < - 1" "sum_list (map snd xs) + n \<le> I128_MAX"
    using assms(6-8) by (auto simp: sorted_wrt_append)
  have I: "breaker_inv cfg b0 (b, accepted)" "set accepted \<subseteq> set xs" "sum_list (map snd accepted) + n \<le> I128_MAX"
    using breaker_run_inv [OF assms(2-5) p, of tripped] n by (auto simp: assms(1))
  have pos: "\<forall>x\<in>set accepted. 0 < snd x" using I(2) p(2) by auto
  have b: "cb_cfg b = Some cfg" "halted_until (breaker_state_of e b) \<le> timestamp e"
    using I(1) by (auto simp: breaker_inv_def breaker_state_of_def breaker_tracks_def split: option.splits)
  have "(\<forall>x\<in>set accepted. snd x \<le> max_single_tip cfg) \<and> cb_events b = cb_events b0 \<and>
    (case cb_state b of None \<Rightarrow> accepted = []
     | Some st \<Rightarrow> halted_until st = 0 \<and> trigger_count st = 0 \<and> current_volume st = window_volume (window_start st) accepted \<and>
         current_volume st \<le> max (max_single_tip cfg) (max_volume_window cfg))"
    using I(1) by (auto simp: breaker_inv_def breaker_tracks_def split: option.splits)
  moreover have "snd (breaker_check tripped e n b) = Some tripped \<and>
      (\<exists>st. cb_state (fst (breaker_check tripped e n b)) = Some st \<and>
        halted_until st = sat_add_u64 (timestamp e) (cooldown_seconds cfg)) \<and>
      committed b (breaker_check tripped e n b) = b" if "max_single_tip cfg < n"
    using breaker_writes_the_halt [OF b(1) assms(3) b(2) that, of tripped] by simp
  ultimately show ?thesis
    using I(2) breaker_accepts_iff [OF I(1) assms(3,5) n(2,1) pos I(3), of tripped] by (intro conjI impI) simp_all
qed

definition cb_env :: "u64 \<Rightarrow> env" where
  "cb_env now = \<lparr>sequence = 0, timestamp = now, authorized = (\<lambda>_. True), contract_address = 8,
     new_entry_live = 0, extend_policy = (\<lambda>_ _ l. l), wasm_uploaded = (\<lambda>_. False)\<rparr>"

definition cb_sample :: breaker where
  "cb_sample = \<lparr>cb_cfg = Some \<lparr>max_single_tip = 100, max_volume_window = 150, window_seconds = 60, cooldown_seconds = 600, cb_enabled = True\<rparr>,
     cb_state = None, cb_events = []\<rparr>"

text \<open>Two tips, a refused spike, a tip over the volume of the window, and a tip in the next window.\<close>

definition cb_attempts :: "(env \<times> int) list" where
  "cb_attempts = [(cb_env 5, 80), (cb_env 20, 70), (cb_env 30, 500), (cb_env 40, 60), (cb_env 70, 90)]"

lemma cb_sample_run:
  "breaker_run () cb_attempts cb_sample =
     (cb_sample\<lparr>cb_state := Some \<lparr>window_start = 70, current_volume = 90, halted_until = 0, trigger_count = 0\<rparr>\<rparr>,
      [(cb_env 5, 80), (cb_env 20, 70), (cb_env 70, 90)])"
  by (simp add: cb_attempts_def breaker_run_def breaker_attempt_def committed_def cb_sample_def cb_env_def
      breaker_check_def breaker_state_of_def update_breaker_state_def trigger_breaker_def
      sat_add_u64_def sat_i128_def I128_MIN_def I128_MAX_def Let_def)

theorem breaker_limits_volume_but_never_trips_witness:
  "\<exists>b st. fst (breaker_run () cb_attempts cb_sample) = b \<and> cb_state b = Some st \<and> current_volume st = 90 \<and>
     halted_until st = 0 \<and> is_ok (check_circuit_breaker () (cb_env 75) 60 b)"
proof -
  let ?b = "cb_sample\<lparr>cb_state := Some \<lparr>window_start = 70, current_volume = 90, halted_until = 0, trigger_count = 0\<rparr>\<rparr>"
  have "is_ok (check_circuit_breaker () (cb_env 75) 60 ?b)"
    using breaker_limits_volume_but_never_trips [OF cb_sample_run, of _ "cb_env 75" 60]
    by (simp add: cb_sample_def cb_attempts_def cb_env_def I128_MAX_def)
  then show ?thesis using cb_sample_run by (intro exI [of _ ?b]) auto
qed

end
