(* ===== verification/Legacy_Locks.thy ===== *)
theory Legacy_Locks
  imports Legacy_Guards Registry
begin

text \<open>
  The time-locked tips of the legacy tip jar (\<^verbatim>\<open>src/contracts/tipjar-legacy/src/lib.rs\<close>, from
  \<^verbatim>\<open>tip_time_locked\<close> to \<^verbatim>\<open>refund_time_lock\<close>): a tip goes into escrow under a number, the creator takes it out
  after its unlock time, the sender may cancel it, and locks whose refund window is over are refunded.
\<close>

section \<open>State\<close>

record tlock =
  tl_sender :: address
  tl_creator :: address
  tl_token :: address
  tl_amount :: int
  tl_unlock_time :: u64
  tl_created_at :: u64
  tl_expires_at :: u64
  tl_cancelled :: bool

record tip_with_expiry =
  we_tipper :: address
  we_creator :: address
  we_amount :: int
  we_created_at :: u64
  we_expires_at :: u64
  we_claimed :: bool

record locked_tip_view =
  lv_sender :: address
  lv_creator :: address
  lv_token :: address
  lv_amount :: int
  lv_unlock_timestamp :: u64

text \<open>The errors of \<^verbatim>\<open>TipJarError\<close> and \<^verbatim>\<open>FeatureError\<close> that these calls raise.\<close>

datatype lock_error =
    LockContractPaused
  | LockBreakerTripped
  | LockUnauthorized
  | LockInvalidAmount
  | InvalidUnlockTime
  | LockNotFound
  | LockCancelled
  | NotUnlocked

datatype lock_event =
    EvLock address address int u64 u64
  | EvUnlock address int u64
  | EvLkCncl address int u64
  | EvTipExp address address int u64 u64
  | EvRefWind u64

record 'tk lock_jar =
  lk_instance :: legacy_instance
  lk_breaker :: breaker
  lk_admin :: "address option"
  lk_refund_window :: "u64 option"
  lk_next :: "u64 option"
  lk_locks :: "u64 \<rightharpoonup> tlock"
  lk_creator_locks :: "address \<rightharpoonup> u64 list"
  lk_active :: "u64 list option"
  lk_tokens :: 'tk
  lk_events :: "lock_event list"

type_synonym 'a lock_result = "(lock_error, 'a) result"

definition lk_emit :: "lock_event \<Rightarrow> 'tk lock_jar \<Rightarrow> 'tk lock_jar" where
  "lk_emit ev s = s\<lparr>lk_events := lk_events s @ [ev]\<rparr>"

definition lk_pay ::
  "'tk transfer_fn \<Rightarrow> address \<Rightarrow> address \<Rightarrow> address \<Rightarrow> int \<Rightarrow> 'tk lock_jar \<Rightarrow> 'tk lock_jar lock_result" where
  "lk_pay transfer t src dst n s =
     and_then (call_transfer transfer (lk_tokens s) t src dst n) (\<lambda>tk. Inr (s\<lparr>lk_tokens := tk\<rparr>))"

section \<open>The list of active locks\<close>

definition add_active_time_lock :: "u64 \<Rightarrow> 'tk lock_jar \<Rightarrow> 'tk lock_jar" where
  "add_active_time_lock i s =
     (let active = unwrap_or (lk_active s) [];
          active' = (if i \<notin> set active then active @ [i] else active) in
      s\<lparr>lk_active := Some active'\<rparr>)"

definition remove_active_time_lock :: "u64 \<Rightarrow> 'tk lock_jar \<Rightarrow> 'tk lock_jar" where
  "remove_active_time_lock i s =
     (let active = unwrap_or (lk_active s) [] in
      s\<lparr>lk_active := Some (filter (\<lambda>j. j \<noteq> i) active)\<rparr>)"

section \<open>Operations\<close>

definition tip_time_locked ::
  "'tk transfer_fn \<Rightarrow> env \<Rightarrow> address \<Rightarrow> address \<Rightarrow> address \<Rightarrow> int \<Rightarrow> u64 \<Rightarrow> 'tk lock_jar \<Rightarrow> (u64 \<times> 'tk lock_jar) lock_result" where
  "tip_time_locked transfer e sender creator t amount unlock_time s =
     and_then (require_not_paused LockContractPaused e (lk_instance s)) (\<lambda>g.
     and_then (check_circuit_breaker LockBreakerTripped e amount (lk_breaker s)) (\<lambda>b.
     and_then (require_auth e sender) (\<lambda>_.
     if amount \<le> 0 then fail LockInvalidAmount
     else if unlock_time \<le> timestamp e then fail InvalidUnlockTime
     else
     let lock_id = unwrap_or (lk_next s) 0;
         created_at = timestamp e;
         refund_window = unwrap_or (lk_refund_window s) 0;
         time_lock = \<lparr>tl_sender = sender, tl_creator = creator, tl_token = t, tl_amount = amount,
           tl_unlock_time = unlock_time, tl_created_at = created_at,
           tl_expires_at = sat_add_u64 created_at refund_window, tl_cancelled = False\<rparr>;
         s1 = s\<lparr>lk_instance := g, lk_breaker := b, lk_locks := (lk_locks s)(lock_id \<mapsto> time_lock), lk_next := Some (lock_id + 1),
           lk_creator_locks := (lk_creator_locks s)(creator \<mapsto> unwrap_or (lk_creator_locks s creator) [] @ [lock_id])\<rparr>;
         s2 = add_active_time_lock lock_id s1 in
     and_then (lk_pay transfer t sender (contract_address e) amount s2) (\<lambda>s3.
     Inr (lock_id, lk_emit (EvLock creator sender amount unlock_time lock_id) s3)))))"

definition tip_locked ::
  "'tk transfer_fn \<Rightarrow> env \<Rightarrow> address \<Rightarrow> address \<Rightarrow> address \<Rightarrow> int \<Rightarrow> u64 \<Rightarrow> 'tk lock_jar \<Rightarrow> (u64 \<times> 'tk lock_jar) lock_result" where
  "tip_locked transfer e sender creator t amount unlock_time s =
     tip_time_locked transfer e sender creator t amount unlock_time s"

definition withdraw_time_locked ::
  "'tk transfer_fn \<Rightarrow> env \<Rightarrow> address \<Rightarrow> address \<Rightarrow> u64 \<Rightarrow> 'tk lock_jar \<Rightarrow> 'tk lock_jar lock_result" where
  "withdraw_time_locked transfer e creator t lock_id s =
     and_then (require_not_paused LockContractPaused e (lk_instance s)) (\<lambda>g.
     and_then (require_auth e creator) (\<lambda>_.
     and_then (ok_or LockNotFound (lk_locks s lock_id)) (\<lambda>time_lock.
     if tl_creator time_lock \<noteq> creator then fail LockUnauthorized
     else if tl_cancelled time_lock then fail LockCancelled
     else if timestamp e < tl_unlock_time time_lock then fail NotUnlocked
     else
     let s1 = remove_active_time_lock lock_id (s\<lparr>lk_instance := g, lk_locks := (lk_locks s)(lock_id := None)\<rparr>) in
     and_then (lk_pay transfer t (contract_address e) creator (tl_amount time_lock) s1) (\<lambda>s2.
     Inr (lk_emit (EvUnlock creator (tl_amount time_lock) lock_id) s2)))))"

definition cancel_time_lock ::
  "'tk transfer_fn \<Rightarrow> env \<Rightarrow> address \<Rightarrow> address \<Rightarrow> u64 \<Rightarrow> 'tk lock_jar \<Rightarrow> 'tk lock_jar lock_result" where
  "cancel_time_lock transfer e sender t lock_id s =
     and_then (require_not_paused LockContractPaused e (lk_instance s)) (\<lambda>g.
     and_then (require_auth e sender) (\<lambda>_.
     and_then (ok_or LockNotFound (lk_locks s lock_id)) (\<lambda>time_lock.
     if tl_sender time_lock \<noteq> sender then fail LockUnauthorized
     else if tl_cancelled time_lock then fail LockCancelled
     else
     let s1 = remove_active_time_lock lock_id
           (s\<lparr>lk_instance := g, lk_locks := (lk_locks s)(lock_id \<mapsto> time_lock\<lparr>tl_cancelled := True\<rparr>)\<rparr>) in
     and_then (lk_pay transfer t (contract_address e) sender (tl_amount time_lock) s1) (\<lambda>s2.
     Inr (lk_emit (EvLkCncl sender (tl_amount time_lock) lock_id) s2)))))"

definition get_time_locks :: "address \<Rightarrow> 'tk lock_jar \<Rightarrow> tlock list" where
  "get_time_locks creator s = List.map_filter (lk_locks s) (unwrap_or (lk_creator_locks s creator) [])"

definition get_locked_tip :: "address \<Rightarrow> u64 \<Rightarrow> 'tk lock_jar \<Rightarrow> locked_tip_view lock_result" where
  "get_locked_tip creator lock_id s =
     and_then (ok_or LockNotFound (lk_locks s lock_id)) (\<lambda>l.
     if tl_creator l \<noteq> creator then fail LockUnauthorized
     else Inr \<lparr>lv_sender = tl_sender l, lv_creator = tl_creator l, lv_token = tl_token l, lv_amount = tl_amount l,
               lv_unlock_timestamp = tl_unlock_time l\<rparr>)"

definition set_refund_window :: "env \<Rightarrow> address \<Rightarrow> u64 \<Rightarrow> 'tk lock_jar \<Rightarrow> 'tk lock_jar lock_result" where
  "set_refund_window e admin seconds s =
     and_then (breaker_admin LockUnauthorized e (lk_admin s) admin) (\<lambda>_.
     Inr (lk_emit (EvRefWind seconds) (s\<lparr>lk_refund_window := Some seconds\<rparr>)))"

definition get_expired_time_lock_ids :: "u64 \<Rightarrow> 'tk lock_jar \<Rightarrow> u64 list" where
  "get_expired_time_lock_ids now s =
     filter (\<lambda>i. case lk_locks s i of Some l \<Rightarrow> \<not> tl_cancelled l \<and> tl_expires_at l \<le> now | None \<Rightarrow> False)
       (unwrap_or (lk_active s) [])"

definition get_expired_time_locks :: "env \<Rightarrow> 'tk lock_jar \<Rightarrow> tip_with_expiry list" where
  "get_expired_time_locks e s =
     List.map_filter (\<lambda>i. map_option (\<lambda>l. \<lparr>we_tipper = tl_sender l, we_creator = tl_creator l, we_amount = tl_amount l,
         we_created_at = tl_created_at l, we_expires_at = tl_expires_at l, we_claimed = False\<rparr>) (lk_locks s i))
       (get_expired_time_lock_ids (timestamp e) s)"

definition refund_time_lock :: "'tk transfer_fn \<Rightarrow> env \<Rightarrow> u64 \<Rightarrow> tlock \<Rightarrow> 'tk lock_jar \<Rightarrow> 'tk lock_jar lock_result" where
  "refund_time_lock transfer e lock_id l s =
     (let s1 = remove_active_time_lock lock_id (s\<lparr>lk_locks := (lk_locks s)(lock_id := None)\<rparr>) in
      and_then (lk_pay transfer (tl_token l) (contract_address e) (tl_sender l) (tl_amount l) s1) (\<lambda>s2.
      Inr (lk_emit (EvTipExp (tl_creator l) (tl_sender l) (tl_amount l) (tl_expires_at l) lock_id) s2)))"

fun refund_loop :: "'tk transfer_fn \<Rightarrow> env \<Rightarrow> u64 list \<Rightarrow> u32 \<Rightarrow> 'tk lock_jar \<Rightarrow> (u32 \<times> 'tk lock_jar) lock_result" where
  "refund_loop transfer e [] count s = Inr (count, s)"
| "refund_loop transfer e (i # is) count s =
     (case lk_locks s i of
        Some l \<Rightarrow>
          if \<not> tl_cancelled l
          then and_then (refund_time_lock transfer e i l s) (refund_loop transfer e is (count + 1))
          else refund_loop transfer e is count s
      | None \<Rightarrow> refund_loop transfer e is count s)"

definition process_expired_tips :: "'tk transfer_fn \<Rightarrow> env \<Rightarrow> 'tk lock_jar \<Rightarrow> (u32 \<times> 'tk lock_jar) lock_result" where
  "process_expired_tips transfer e s = refund_loop transfer e (get_expired_time_lock_ids (timestamp e) s) 0 s"

section \<open>Escrow\<close>

text \<open>What the contract owes for a lock, and the invariant of the stored locks.\<close>

definition lock_owed :: "'tk lock_jar \<Rightarrow> address \<Rightarrow> u64 \<Rightarrow> int" where
  "lock_owed s t i = (case lk_locks s i of Some l \<Rightarrow> if tl_token l = t \<and> \<not> tl_cancelled l then tl_amount l else 0 | None \<Rightarrow> 0)"

definition locks_ok :: "address \<Rightarrow> 'tk lock_jar \<Rightarrow> bool" where
  "locks_ok me s \<longleftrightarrow> finite (dom (lk_locks s)) \<and>
     (\<forall>i l. lk_locks s i = Some l \<longrightarrow> i < unwrap_or (lk_next s) 0 \<and> 0 < tl_amount l \<and> tl_sender l \<noteq> me)"

lemma lk_pay_Inr_iff [result_simps]:
  "lk_pay transfer t src dst n s = Inr s' \<longleftrightarrow>
     (\<exists>tk. transfer (lk_tokens s) t src dst n = Some tk \<and> s' = s\<lparr>lk_tokens := tk\<rparr>)"
  by (auto simp: lk_pay_def result_simps)

text \<open>The effect of the operations on the locks, the counter and the tokens.\<close>

lemmas lock_state_defs = lk_emit_def add_active_time_lock_def remove_active_time_lock_def Let_def

lemma tip_time_locked_Inr:
  assumes "tip_time_locked transfer e sender creator t n u s = Inr (i, s')"
  shows "0 < n \<and> timestamp e < u \<and> authorized e sender \<and> i = unwrap_or (lk_next s) 0 \<and> lk_next s' = Some (i + 1) \<and>
    lk_locks s' = (lk_locks s)(i \<mapsto> \<lparr>tl_sender = sender, tl_creator = creator, tl_token = t, tl_amount = n,
      tl_unlock_time = u, tl_created_at = timestamp e,
      tl_expires_at = sat_add_u64 (timestamp e) (unwrap_or (lk_refund_window s) 0), tl_cancelled = False\<rparr>) \<and>
    set (unwrap_or (lk_active s') []) = insert i (set (unwrap_or (lk_active s) [])) \<and>
    transfer (lk_tokens s) t sender (contract_address e) n = Some (lk_tokens s')"
  using assms by (clarsimp simp: tip_time_locked_def result_simps lock_state_defs not_le not_less) auto

lemma withdraw_time_locked_Inr:
  assumes "withdraw_time_locked transfer e creator t i s = Inr s'"
  shows "\<exists>l. lk_locks s i = Some l \<and> tl_creator l = creator \<and> \<not> tl_cancelled l \<and> tl_unlock_time l \<le> timestamp e \<and>
    authorized e creator \<and> lk_next s' = lk_next s \<and> lk_locks s' = (lk_locks s)(i := None) \<and>
    transfer (lk_tokens s) t (contract_address e) creator (tl_amount l) = Some (lk_tokens s')"
  using assms by (clarsimp simp: withdraw_time_locked_def result_simps lock_state_defs not_less)

lemma cancel_time_lock_Inr:
  assumes "cancel_time_lock transfer e sender t i s = Inr s'"
  shows "\<exists>l. lk_locks s i = Some l \<and> tl_sender l = sender \<and> \<not> tl_cancelled l \<and> authorized e sender \<and>
    lk_next s' = lk_next s \<and> lk_locks s' = (lk_locks s)(i \<mapsto> l\<lparr>tl_cancelled := True\<rparr>) \<and>
    transfer (lk_tokens s) t (contract_address e) sender (tl_amount l) = Some (lk_tokens s')"
  using assms by (clarsimp simp: cancel_time_lock_def result_simps lock_state_defs)

lemma refund_time_lock_Inr:
  assumes "refund_time_lock transfer e i l s = Inr s'"
  shows "lk_next s' = lk_next s \<and> lk_locks s' = (lk_locks s)(i := None) \<and>
    transfer (lk_tokens s) (tl_token l) (contract_address e) (tl_sender l) (tl_amount l) = Some (lk_tokens s')"
  using assms by (clarsimp simp: refund_time_lock_def result_simps lock_state_defs)

lemma finite_lock_owed: "finite (dom (lk_locks s)) \<Longrightarrow> finite (support (lock_owed s t))"
  by (rule finite_subset [of _ "dom (lk_locks s)"]) (auto simp: support_def lock_owed_def split: option.splits if_splits)

text \<open>
  A call of a client. Withdrawals and cancellations are meant to name the token of the lock; \<open>in_kind\<close>
  says that they do.
\<close>

inductive lock_step :: "'tk transfer_fn \<Rightarrow> address \<Rightarrow> 'tk lock_jar \<Rightarrow> 'tk lock_jar \<Rightarrow> bool" for transfer me where
  lock: "tip_time_locked transfer e sender creator t n u s = Inr (i, s') \<Longrightarrow> contract_address e = me \<Longrightarrow> \<not> authorized e me \<Longrightarrow>
    unwrap_or (lk_next s) 0 \<noteq> - 1 \<Longrightarrow> lock_step transfer me s s'"
| withdraw: "withdraw_time_locked transfer e creator t i s = Inr s' \<Longrightarrow> contract_address e = me \<Longrightarrow> \<not> authorized e me \<Longrightarrow>
    map_option tl_token (lk_locks s i) = Some t \<Longrightarrow> lock_step transfer me s s'"
| cancel: "cancel_time_lock transfer e sender t i s = Inr s' \<Longrightarrow> contract_address e = me \<Longrightarrow> \<not> authorized e me \<Longrightarrow>
    map_option tl_token (lk_locks s i) = Some t \<Longrightarrow> lock_step transfer me s s'"
| expire: "process_expired_tips transfer e s = Inr (k, s') \<Longrightarrow> contract_address e = me \<Longrightarrow> lock_step transfer me s s'"
| window: "set_refund_window e admin w s = Inr s' \<Longrightarrow> lock_step transfer me s s'"

definition locks_funded ::
  "('tk \<Rightarrow> address \<Rightarrow> address \<Rightarrow> int) \<Rightarrow> ('tk \<Rightarrow> bool) \<Rightarrow> address \<Rightarrow> 'tk lock_jar \<Rightarrow> bool" where
  "locks_funded holding ledger_ok me s \<longleftrightarrow>
     locks_ok me s \<and> ledger_ok (lk_tokens s) \<and> covers holding me (lk_tokens s) (lock_owed s)"

context sep41
begin

text \<open>One lock changes and the contract's holding of its token with it.\<close>

lemma locks_funded_update:
  assumes "locks_funded holding ledger_ok me s" "ledger_ok (lk_tokens s')" "locks_ok me s'"
    and "lk_locks s' = (lk_locks s)(i := v)"
    and "\<And>t. holding (lk_tokens s) t me + lock_owed s' t i - lock_owed s t i \<le> holding (lk_tokens s') t me"
  shows "locks_funded holding ledger_ok me s'"
proof -
  have "covers holding me (lk_tokens s') (lock_owed s')"
  proof (rule covers_update [of holding me "lk_tokens s" "lock_owed s" _ i "\<lambda>t. lock_owed s' t i"])
    show "lock_owed s' t = (lock_owed s t)(i := lock_owed s' t i)" for t
      using assms(4) by (auto simp: lock_owed_def)
  qed (use assms finite_lock_owed in \<open>auto simp: locks_funded_def locks_ok_def\<close>)
  then show ?thesis using assms by (simp add: locks_funded_def)
qed

lemma release_funded:
  assumes s: "locks_funded holding ledger_ok me s" and l: "lk_locks s i = Some l" "\<not> tl_cancelled l" "dst \<noteq> me"
    and s': "lk_next s' = lk_next s" "lk_locks s' = (lk_locks s)(i := v)" "v = None \<or> v = Some (l\<lparr>tl_cancelled := True\<rparr>)"
    and tr: "transfer (lk_tokens s) (tl_token l) me dst (tl_amount l) = Some (lk_tokens s')"
  shows "locks_funded holding ledger_ok me s'"
proof -
  have ok: "ledger_ok (lk_tokens s)" "0 < tl_amount l" using s l(1) by (auto simp: locks_funded_def locks_ok_def)
  show ?thesis
  proof (rule locks_funded_update [OF s _ _ s'(2)])
    show "ledger_ok (lk_tokens s')" using transfer_ok [OF ok(1) tr] l(3) ok(2) by simp
    show "locks_ok me s'"
    proof -
      have ok: "finite (dom (lk_locks s))" "\<And>j l. lk_locks s j = Some l \<Longrightarrow> j < unwrap_or (lk_next s) 0 \<and> 0 < tl_amount l \<and> tl_sender l \<noteq> me"
        using s by (auto simp: locks_funded_def locks_ok_def)
      show ?thesis
        using ok(1) ok(2) [OF l(1)] ok(2) s' by (auto simp: locks_ok_def split: if_splits)
    qed
    fix t
    show "holding (lk_tokens s) t me + lock_owed s' t i - lock_owed s t i \<le> holding (lk_tokens s') t me"
      using payout_holding [OF ok(1) tr l(3), of t] ok(2) l(1,2) s'(2,3) by (auto simp: lock_owed_def)
  qed
qed

lemma refund_loop_funded:
  assumes "refund_loop transfer e is k s = Inr (k', s')" "locks_funded holding ledger_ok (contract_address e) s"
  shows "locks_funded holding ledger_ok (contract_address e) s'"
  using assms
proof (induction "is" arbitrary: k s)
  case (Cons i "is")
  show ?case
  proof (cases "lk_locks s i")
    case None
    then show ?thesis using Cons by simp
  next
    case (Some l)
    show ?thesis
    proof (cases "tl_cancelled l")
      case True
      then show ?thesis using Some Cons by simp
    next
      case False
      then obtain s1 where r: "refund_time_lock transfer e i l s = Inr s1" "refund_loop transfer e is (k + 1) s1 = Inr (k', s')"
        using Some Cons.prems(1) by (auto simp: and_then_Inr_iff)
      have "tl_sender l \<noteq> contract_address e" using Cons.prems(2) Some by (auto simp: locks_funded_def locks_ok_def)
      then have "locks_funded holding ledger_ok (contract_address e) s1"
        using release_funded [OF Cons.prems(2) Some False] refund_time_lock_Inr [OF r(1)] by blast
      then show ?thesis using Cons.IH r(2) by blast
    qed
  qed
qed simp

lemma locks_funded_cong:
  assumes "lk_locks s' = lk_locks s" "lk_next s' = lk_next s" "lk_tokens s' = lk_tokens s" "locks_funded holding ledger_ok me s"
  shows "locks_funded holding ledger_ok me s'"
proof -
  have "lock_owed s' = lock_owed s" using assms(1) by (intro ext) (simp add: lock_owed_def)
  then show ?thesis using assms by (simp add: locks_funded_def locks_ok_def)
qed

lemma lock_step_funded:
  assumes "lock_step transfer me s s'" "locks_funded holding ledger_ok me s"
  shows "locks_funded holding ledger_ok me s'"
  using assms(1)
proof cases
  case (lock e sender creator t n u i)
  note h = tip_time_locked_Inr [OF lock(1)]
  have ok: "ledger_ok (lk_tokens s)" "sender \<noteq> me" "0 < n" using assms(2) lock(2,3) h by (auto simp: locks_funded_def)
  have tr: "transfer (lk_tokens s) t sender me n = Some (lk_tokens s')" using h lock(2) by simp
  have i: "i = unwrap_or (lk_next s) 0" "i < i + 1" using h lock(4) by (auto intro: word_le_Suc_iff(3))
  then have fresh: "lk_locks s i = None"
    using assms(2) by (cases "lk_locks s i") (auto simp: locks_funded_def locks_ok_def)
  show ?thesis
  proof (rule locks_funded_update [OF assms(2)])
    show "ledger_ok (lk_tokens s')" using transfer_ok [OF ok(1) tr] ok(2,3) by simp
    show "locks_ok me s'" using assms(2) h ok i by (auto simp: locks_funded_def locks_ok_def intro: less_trans)
    show "lk_locks s' = (lk_locks s)(i := lk_locks s' i)" using h by simp
    show "holding (lk_tokens s) t' me + lock_owed s' t' i - lock_owed s t' i \<le> holding (lk_tokens s') t' me" for t'
      using deposit_holding [OF ok(1) tr ok(2), of t'] ok(3) h fresh by (auto simp: lock_owed_def)
  qed
next
  case (withdraw e creator t i)
  obtain l where h: "lk_locks s i = Some l" "\<not> tl_cancelled l" "authorized e creator" "lk_next s' = lk_next s"
      "lk_locks s' = (lk_locks s)(i := None)" "transfer (lk_tokens s) (tl_token l) me creator (tl_amount l) = Some (lk_tokens s')"
    using withdraw_time_locked_Inr [OF withdraw(1)] withdraw(2,4) by auto
  then have "creator \<noteq> me" using withdraw(3) by auto
  then show ?thesis by (rule release_funded [OF assms(2) h(1,2) _ h(4,5) _ h(6)]) simp
next
  case (cancel e sender t i)
  obtain l where h: "lk_locks s i = Some l" "\<not> tl_cancelled l" "authorized e sender" "lk_next s' = lk_next s"
      "lk_locks s' = (lk_locks s)(i \<mapsto> l\<lparr>tl_cancelled := True\<rparr>)"
      "transfer (lk_tokens s) (tl_token l) me sender (tl_amount l) = Some (lk_tokens s')"
    using cancel_time_lock_Inr [OF cancel(1)] cancel(2,4) by auto
  then have "sender \<noteq> me" using cancel(3) by auto
  then show ?thesis by (rule release_funded [OF assms(2) h(1,2) _ h(4,5) _ h(6)]) simp
next
  case (expire e k)
  then show ?thesis using refund_loop_funded assms(2) unfolding process_expired_tips_def by blast
next
  case (window e admin w)
  then have "lk_locks s' = lk_locks s" "lk_next s' = lk_next s" "lk_tokens s' = lk_tokens s"
    by (auto simp: set_refund_window_def result_simps lk_emit_def)
  then show ?thesis using assms(2) by (rule locks_funded_cong)
qed

lemma lock_steps_funded: "(lock_step transfer me)\<^sup>*\<^sup>* s s' \<Longrightarrow> locks_funded holding ledger_ok me s \<Longrightarrow> locks_funded holding ledger_ok me s'"
  by (induction rule: rtranclp_induct) (auto intro: lock_step_funded)

end

section \<open>Properties\<close>

text \<open>
  C32. Time-locked tips are safe as long as payouts name the token of the lock: after any sequence of such
  calls the contract holds, of every token, at least the sum of the live locks in it, and a creator whose
  lock has reached its unlock time can withdraw it from a jar that is not paused and receives exactly its amount.
\<close>

theorem unlocked_tips_can_be_withdrawn:
  assumes tk: "sep41_live transfer holding ledger_ok"
    and run: "(lock_step transfer (contract_address e))\<^sup>*\<^sup>* s0 s" "locks_funded holding ledger_ok (contract_address e) s0"
    and l: "lk_locks s i = Some l" "\<not> tl_cancelled l" "tl_unlock_time l \<le> timestamp e"
    and c: "authorized e (tl_creator l)" "tl_creator l \<noteq> contract_address e" "\<not> fst (check_is_paused e (lk_instance s))"
  shows "(\<forall>t. support_total (lock_owed s t) \<le> holding (lk_tokens s) t (contract_address e)) \<and>
    (\<exists>s'. withdraw_time_locked transfer e (tl_creator l) (tl_token l) i s = Inr s' \<and> lk_locks s' i = None \<and>
       holding (lk_tokens s') (tl_token l) (tl_creator l) = holding (lk_tokens s) (tl_token l) (tl_creator l) + tl_amount l)"
proof -
  let ?me = "contract_address e"
  have sep: "sep41 transfer holding ledger_ok" using tk by (simp add: sep41_live_def)
  have f: "locks_ok ?me s" "ledger_ok (lk_tokens s)" "covers holding ?me (lk_tokens s) (lock_owed s)"
    using sep41.lock_steps_funded [OF sep run] by (auto simp: locks_funded_def)
  have pos: "0 < tl_amount l" and fin: "finite (support (lock_owed s (tl_token l)))"
    using f(1) l(1) finite_lock_owed by (auto simp: locks_ok_def)
  have nonneg: "0 \<le> lock_owed s t j" for t j
    using f(1) by (auto simp: lock_owed_def locks_ok_def split: option.split intro: less_imp_le)
  have "tl_amount l = lock_owed s (tl_token l) i" using l by (simp add: lock_owed_def)
  also have "\<dots> \<le> support_total (lock_owed s (tl_token l))" using fin nonneg by (rule support_total_ge)
  also have "\<dots> \<le> holding (lk_tokens s) (tl_token l) ?me" using f(3) by (simp add: covers_def)
  finally have "tl_amount l \<le> holding (lk_tokens s) (tl_token l) ?me" .
  then obtain tk' where tr: "transfer (lk_tokens s) (tl_token l) ?me (tl_creator l) (tl_amount l) = Some tk'"
    using sep41_live.transfer_pays [OF tk f(2)] c(2) pos by (metis less_imp_le)
  have "holding tk' (tl_token l) (tl_creator l) = holding (lk_tokens s) (tl_token l) (tl_creator l) + tl_amount l"
    using sep41.transfer_credit [OF sep f(2) tr] c(2) pos by simp
  then show ?thesis
    using f(3) l c(1,3) tr
    by (auto simp: covers_def withdraw_time_locked_def require_not_paused_def lk_pay_def lock_state_defs split_beta)
qed

lemma refund_loop_locks:
  assumes "refund_loop transfer e is k s = Inr (k', s')"
  shows "lk_locks s' j = (case lk_locks s j of Some l \<Rightarrow> if j \<in> set is \<and> \<not> tl_cancelled l then None else Some l | None \<Rightarrow> None)"
  using assms
proof (induction "is" arbitrary: k s)
  case (Cons i "is")
  consider "lk_locks s i = None" | l where "lk_locks s i = Some l" "tl_cancelled l"
    | l s1 where "lk_locks s i = Some l" "\<not> tl_cancelled l" "refund_time_lock transfer e i l s = Inr s1"
        "refund_loop transfer e is (k + 1) s1 = Inr (k', s')"
    using Cons.prems by (auto simp: and_then_Inr_iff split: option.splits if_splits)
  then show ?case
  proof cases
    case (3 l s1)
    then show ?thesis using Cons.IH [OF 3(4)] refund_time_lock_Inr [OF 3(3)] by (auto split: option.splits)
  qed (use Cons in \<open>auto split: option.splits\<close>)
qed (auto split: option.splits)

text \<open>
  Without a refund window, which is how the jar starts, a time-locked tip can be undone by anybody at any
  time, also after its unlock time: whoever next processes the expired tips returns it to its sender, and the creator
  finds no lock any more.
\<close>

theorem default_window_voids_locks:
  assumes "tip_time_locked transfer e sender creator t n u s = Inr (i, s1)" "unwrap_or (lk_refund_window s) 0 = 0"
    and "timestamp e \<le> timestamp e2" "process_expired_tips transfer e2 s1 = Inr (k, s2)"
    and "authorized e3 creator" "\<not> fst (check_is_paused e3 (lk_instance s2))"
  shows "lk_locks s2 i = None \<and> withdraw_time_locked transfer e3 creator t' i s2 = fail LockNotFound"
proof -
  note h = tip_time_locked_Inr [OF assms(1)]
  have "i \<in> set (get_expired_time_lock_ids (timestamp e2) s1)"
    using h assms(2,3) by (simp add: get_expired_time_lock_ids_def)
  then have "lk_locks s2 i = None"
    using refund_loop_locks [OF assms(4) [unfolded process_expired_tips_def], of i] h by simp
  then show ?thesis
    using assms(5,6) by (simp add: withdraw_time_locked_def require_not_paused_def split_beta)
qed

section \<open>Examples\<close>

definition lk_env :: "u64 \<Rightarrow> env" where
  "lk_env now = \<lparr>sequence = 0, timestamp = now, authorized = (\<lambda>a. a \<noteq> 8), contract_address = 8,
     new_entry_live = 0, extend_policy = (\<lambda>_ _ l. l), wasm_uploaded = (\<lambda>_. False)\<rparr>"

text \<open>Account 1 owns 100 of token 40, account 2 owns 100 of token 50; the contract is account 8.\<close>

definition lk_start :: "ledger lock_jar" where
  "lk_start = \<lparr>lk_instance = \<lparr>lg_paused = None, lg_pause_reason = None, lg_pause_until = None, lg_token_whitelist = Map.empty\<rparr>,
     lk_breaker = \<lparr>cb_cfg = None, cb_state = None, cb_events = []\<rparr>, lk_admin = Some 9, lk_refund_window = Some 0,
     lk_next = None, lk_locks = Map.empty, lk_creator_locks = Map.empty, lk_active = None,
     lk_tokens = (\<lambda>t a. if t = 40 \<and> a = 1 \<or> t = 50 \<and> a = 2 then 100 else 0), lk_events = []\<rparr>"

definition lk_locked :: "(u64 \<times> ledger lock_jar) lock_result" where
  "lk_locked = tip_time_locked ledger_transfer (lk_env 5) 1 3 40 100 10 lk_start"

definition lk_locked_good :: "u64 \<Rightarrow> ledger lock_jar \<Rightarrow> bool" where
  "lk_locked_good i s \<longleftrightarrow> i = 0 \<and> \<not> fst (check_is_paused (lk_env 10) (lk_instance s)) \<and> lk_tokens s 40 3 = 0 \<and>
     (case lk_locks s 0 of None \<Rightarrow> False
      | Some l \<Rightarrow> tl_creator l = 3 \<and> tl_token l = 40 \<and> tl_amount l = 100 \<and> tl_unlock_time l = 10 \<and> \<not> tl_cancelled l) \<and>
     (case process_expired_tips ledger_transfer (lk_env 6) s of Inl _ \<Rightarrow> False
      | Inr (k, s2) \<Rightarrow> \<not> fst (check_is_paused (lk_env 10) (lk_instance s2)))"

lemma lk_locked_ok: "\<exists>s. lk_locked = Inr (0, s) \<and> lk_locked_good 0 s"
proof -
  have "case lk_locked of Inl _ \<Rightarrow> False | Inr (i, s) \<Rightarrow> lk_locked_good i s" by code_simp
  then obtain i s where s: "lk_locked = Inr (i, s)" "lk_locked_good i s" by (auto split: sum.splits)
  then have "i = 0" unfolding lk_locked_good_def by (elim conjE)
  then show ?thesis using s by blast
qed

lemma lk_start_funded: "locks_funded ledger_holding ledger_nonneg 8 lk_start"
  by (simp add: locks_funded_def locks_ok_def lk_start_def ledger_nonneg_def covers_def lock_owed_def [abs_def]
      ledger_holding_def)

theorem unlocked_tips_can_be_withdrawn_witness:
  "\<exists>s s'. lk_locked = Inr (0, s) \<and> withdraw_time_locked ledger_transfer (lk_env 10) 3 40 0 s = Inr s' \<and>
     ledger_holding (lk_tokens s') 40 3 = 100"
proof -
  obtain s l where s: "lk_locked = Inr (0, s)" "lk_locks s 0 = Some l" "tl_creator l = 3" "tl_token l = 40"
      "tl_amount l = 100" "tl_unlock_time l = 10" "\<not> tl_cancelled l" "\<not> fst (check_is_paused (lk_env 10) (lk_instance s))"
      "lk_tokens s 40 3 = 0"
    using lk_locked_ok by (auto simp: lk_locked_good_def split: option.splits)
  have e: "contract_address (lk_env n) = 8" "timestamp (lk_env n) = n" "authorized (lk_env n) a = (a \<noteq> 8)" for n a
    by (simp_all add: lk_env_def)
  have "lock_step ledger_transfer 8 lk_start s"
    using s(1) unfolding lk_locked_def by (rule lock_step.lock) (simp_all add: e lk_start_def)
  then have run: "(lock_step ledger_transfer (contract_address (lk_env 10)))\<^sup>*\<^sup>* lk_start s" by (simp add: e)
  have "\<exists>s'. withdraw_time_locked ledger_transfer (lk_env 10) 3 40 0 s = Inr s' \<and> ledger_holding (lk_tokens s') 40 3 = ledger_holding (lk_tokens s) 40 3 + 100"
    using conjunct2 [OF unlocked_tips_can_be_withdrawn [OF ledger.sep41_live_axioms run _ s(2,7)]] s lk_start_funded by (auto simp: e)
  then show ?thesis using s(1,9) by (auto simp: ledger_holding_def)
qed

theorem default_window_voids_locks_witness:
  "\<exists>s1 k s2. lk_locked = Inr (0, s1) \<and> process_expired_tips ledger_transfer (lk_env 6) s1 = Inr (k, s2) \<and>
     lk_locks s2 0 = None"
proof -
  obtain s where l: "lk_locked = Inr (0, s)" and g: "lk_locked_good 0 s" using lk_locked_ok by blast
  obtain k s2 where p: "process_expired_tips ledger_transfer (lk_env 6) s = Inr (k, s2)"
      "\<not> fst (check_is_paused (lk_env 10) (lk_instance s2))"
    using g unfolding lk_locked_good_def by (cases "process_expired_tips ledger_transfer (lk_env 6) s") auto
  note s = l p
  have "lk_locks s2 0 = None"
    using default_window_voids_locks [OF s(1) [unfolded lk_locked_def] _ _ s(2) _ s(3)] by (simp add: lk_env_def lk_start_def)
  then show ?thesis using s(1,2) by blast
qed

text \<open>
  Payouts are made in whatever token the caller names. A sender locks 100 units of a token of its own and
  cancels the lock in another token: it receives the 100 units of that token which another sender has
  locked for a creator, and the creator's withdrawal fails.
\<close>

theorem locks_pay_out_in_any_token:
  "and_then lk_locked (\<lambda>(i, s).
     and_then (tip_time_locked ledger_transfer (lk_env 5) 2 3 50 100 10 s) (\<lambda>(j, s).
     and_then (cancel_time_lock ledger_transfer (lk_env 5) 2 40 j s) (\<lambda>s.
     Inr (lk_tokens s 40 2, lk_tokens s 40 8, is_ok (withdraw_time_locked ledger_transfer (lk_env 10) 3 40 i s))))) =
   Inr (100, 0, False)"
  by code_simp

end
