(* ===== verification/Legacy_Access.thy ===== *)
theory Legacy_Access
  imports Token_Ledger
begin

text \<open>
  The access lists of the legacy tip jar, \<^verbatim>\<open>src/contracts/tipjar-legacy/src/access_lists/mod.rs\<close>: for the
  whole contract and for each creator a blacklist with expiring entries, a whitelist, and a switch that
  admits only whitelisted senders. The administrator's address, which the contract keeps elsewhere, is an
  argument.
\<close>

section \<open>State\<close>

datatype list_scope = GlobalScope | CreatorScope address

record block_entry =
  bl_subject :: address
  bl_reason :: string
  bl_created_at :: u64
  bl_expires_at :: u64

datatype access_list_key =
    GlobalBlacklist address
  | GlobalWhitelist address
  | GlobalWhitelistMode
  | GlobalBlacklistMembers
  | GlobalWhitelistMembers
  | CreatorBlacklist address address
  | CreatorWhitelist address address
  | CreatorWhitelistMode address
  | CreatorBlacklistMembers address
  | CreatorWhitelistMembers address

datatype access_list_error =
    AlUnauthorized
  | AlNoAdmin
  | AlBlacklisted
  | AlNotWhitelisted
  | AlInvalidDuration
  | AlEntryNotFound

datatype access_event =
    AlBlock string address u64 string
  | AlUnblk string address
  | AlAllow string address
  | AlUnallw string address
  | AlMode string bool

text \<open>The storage, by the type of the stored values.\<close>

record access_lists =
  al_entries :: "access_list_key \<rightharpoonup> block_entry"
  al_flags :: "access_list_key \<rightharpoonup> bool"
  al_members :: "access_list_key \<rightharpoonup> address list"
  al_events :: "access_event list"

type_synonym access_result = "(access_list_error, access_lists) result"

section \<open>Keys\<close>

definition authorize_scope :: "env \<Rightarrow> address option \<Rightarrow> address \<Rightarrow> list_scope \<Rightarrow> (access_list_error, unit) result" where
  "authorize_scope e adm caller scope =
     and_then (require_auth e caller) (\<lambda>_.
     (case scope of
        GlobalScope \<Rightarrow> and_then (ok_or AlNoAdmin adm) (\<lambda>a. if a \<noteq> caller then fail AlUnauthorized else Inr ())
      | CreatorScope creator \<Rightarrow> if creator \<noteq> caller then fail AlUnauthorized else Inr ()))"

fun blacklist_key :: "list_scope \<Rightarrow> address \<Rightarrow> access_list_key" where
  "blacklist_key GlobalScope a = GlobalBlacklist a"
| "blacklist_key (CreatorScope c) a = CreatorBlacklist c a"

fun whitelist_key :: "list_scope \<Rightarrow> address \<Rightarrow> access_list_key" where
  "whitelist_key GlobalScope a = GlobalWhitelist a"
| "whitelist_key (CreatorScope c) a = CreatorWhitelist c a"

fun whitelist_mode_key :: "list_scope \<Rightarrow> access_list_key" where
  "whitelist_mode_key GlobalScope = GlobalWhitelistMode"
| "whitelist_mode_key (CreatorScope c) = CreatorWhitelistMode c"

fun blacklist_members_key :: "list_scope \<Rightarrow> access_list_key" where
  "blacklist_members_key GlobalScope = GlobalBlacklistMembers"
| "blacklist_members_key (CreatorScope c) = CreatorBlacklistMembers c"

fun whitelist_members_key :: "list_scope \<Rightarrow> access_list_key" where
  "whitelist_members_key GlobalScope = GlobalWhitelistMembers"
| "whitelist_members_key (CreatorScope c) = CreatorWhitelistMembers c"

fun scope_tag :: "list_scope \<Rightarrow> string" where
  "scope_tag GlobalScope = ''global''"
| "scope_tag (CreatorScope c) = ''creator''"

section \<open>Lists\<close>

definition add_member :: "access_list_key \<Rightarrow> address \<Rightarrow> access_lists \<Rightarrow> access_lists" where
  "add_member k a s =
     (let members = unwrap_or (al_members s k) [] in
      if a \<notin> set members then s\<lparr>al_members := (al_members s)(k \<mapsto> members @ [a])\<rparr> else s)"

definition remove_member :: "access_list_key \<Rightarrow> address \<Rightarrow> access_lists \<Rightarrow> access_lists" where
  "remove_member k a s =
     (let members = unwrap_or (al_members s k) [] in
      s\<lparr>al_members := (al_members s)(k \<mapsto> filter (\<lambda>b. b \<noteq> a) members)\<rparr>)"

definition al_publish :: "access_event \<Rightarrow> access_lists \<Rightarrow> access_lists" where
  "al_publish ev s = s\<lparr>al_events := al_events s @ [ev]\<rparr>"

definition al_add_to_blacklist ::
  "env \<Rightarrow> address option \<Rightarrow> address \<Rightarrow> list_scope \<Rightarrow> address \<Rightarrow> string \<Rightarrow> u64 \<Rightarrow> access_lists \<Rightarrow> access_result" where
  "al_add_to_blacklist e adm caller scope subject reason duration s =
     and_then (authorize_scope e adm caller scope) (\<lambda>_.
     let now = timestamp e in
     and_then (if duration = 0 then Inr 0
       else if now + duration < now then fail AlInvalidDuration else Inr (now + duration)) (\<lambda>expires_at.
     let entry = \<lparr>bl_subject = subject, bl_reason = reason, bl_created_at = now, bl_expires_at = expires_at\<rparr>;
         s1 = s\<lparr>al_entries := (al_entries s)(blacklist_key scope subject \<mapsto> entry)\<rparr>;
         s2 = add_member (blacklist_members_key scope) subject s1 in
     Inr (al_publish (AlBlock (scope_tag scope) subject expires_at reason) s2)))"

definition al_remove_from_blacklist ::
  "env \<Rightarrow> address option \<Rightarrow> address \<Rightarrow> list_scope \<Rightarrow> address \<Rightarrow> access_lists \<Rightarrow> access_result" where
  "al_remove_from_blacklist e adm caller scope subject s =
     and_then (authorize_scope e adm caller scope) (\<lambda>_.
     let k = blacklist_key scope subject in
     if al_entries s k = None then fail AlEntryNotFound
     else
     let s1 = s\<lparr>al_entries := (al_entries s)(k := None)\<rparr>;
         s2 = remove_member (blacklist_members_key scope) subject s1 in
     Inr (al_publish (AlUnblk (scope_tag scope) subject) s2))"

definition al_add_to_whitelist ::
  "env \<Rightarrow> address option \<Rightarrow> address \<Rightarrow> list_scope \<Rightarrow> address \<Rightarrow> access_lists \<Rightarrow> access_result" where
  "al_add_to_whitelist e adm caller scope subject s =
     and_then (authorize_scope e adm caller scope) (\<lambda>_.
     let s1 = s\<lparr>al_flags := (al_flags s)(whitelist_key scope subject \<mapsto> True)\<rparr>;
         s2 = add_member (whitelist_members_key scope) subject s1 in
     Inr (al_publish (AlAllow (scope_tag scope) subject) s2))"

definition al_remove_from_whitelist ::
  "env \<Rightarrow> address option \<Rightarrow> address \<Rightarrow> list_scope \<Rightarrow> address \<Rightarrow> access_lists \<Rightarrow> access_result" where
  "al_remove_from_whitelist e adm caller scope subject s =
     and_then (authorize_scope e adm caller scope) (\<lambda>_.
     let s1 = s\<lparr>al_flags := (al_flags s)(whitelist_key scope subject := None)\<rparr>;
         s2 = remove_member (whitelist_members_key scope) subject s1 in
     Inr (al_publish (AlUnallw (scope_tag scope) subject) s2))"

definition al_set_whitelist_mode ::
  "env \<Rightarrow> address option \<Rightarrow> address \<Rightarrow> list_scope \<Rightarrow> bool \<Rightarrow> access_lists \<Rightarrow> access_result" where
  "al_set_whitelist_mode e adm caller scope enabled s =
     and_then (authorize_scope e adm caller scope) (\<lambda>_.
     Inr (al_publish (AlMode (scope_tag scope) enabled)
       (s\<lparr>al_flags := (al_flags s)(whitelist_mode_key scope \<mapsto> enabled)\<rparr>)))"

section \<open>Queries and enforcement\<close>

definition al_get_block_entry :: "list_scope \<Rightarrow> address \<Rightarrow> access_lists \<Rightarrow> block_entry option" where
  "al_get_block_entry scope a s = al_entries s (blacklist_key scope a)"

definition al_is_blacklisted :: "env \<Rightarrow> list_scope \<Rightarrow> address \<Rightarrow> access_lists \<Rightarrow> bool" where
  "al_is_blacklisted e scope a s =
     (case al_get_block_entry scope a s of
        Some entry \<Rightarrow> bl_expires_at entry = 0 \<or> timestamp e < bl_expires_at entry
      | None \<Rightarrow> False)"

definition al_is_whitelisted :: "list_scope \<Rightarrow> address \<Rightarrow> access_lists \<Rightarrow> bool" where
  "al_is_whitelisted scope a s = unwrap_or (al_flags s (whitelist_key scope a)) False"

definition al_is_whitelist_mode :: "list_scope \<Rightarrow> access_lists \<Rightarrow> bool" where
  "al_is_whitelist_mode scope s = unwrap_or (al_flags s (whitelist_mode_key scope)) False"

definition al_get_blacklist :: "list_scope \<Rightarrow> access_lists \<Rightarrow> address list" where
  "al_get_blacklist scope s = unwrap_or (al_members s (blacklist_members_key scope)) []"

definition al_get_whitelist :: "list_scope \<Rightarrow> access_lists \<Rightarrow> address list" where
  "al_get_whitelist scope s = unwrap_or (al_members s (whitelist_members_key scope)) []"

definition check_allowed :: "env \<Rightarrow> address \<Rightarrow> address \<Rightarrow> access_lists \<Rightarrow> (access_list_error, unit) result" where
  "check_allowed e creator subject s =
     (let creator_scope = CreatorScope creator in
      if al_is_blacklisted e GlobalScope subject s \<or> al_is_blacklisted e creator_scope subject s
      then fail AlBlacklisted
      else if al_is_whitelist_mode GlobalScope s \<and> \<not> al_is_whitelisted GlobalScope subject s
      then fail AlNotWhitelisted
      else if al_is_whitelist_mode creator_scope s \<and> \<not> al_is_whitelisted creator_scope subject s
      then fail AlNotWhitelisted
      else Inr ())"

definition al_is_allowed :: "env \<Rightarrow> address \<Rightarrow> address \<Rightarrow> access_lists \<Rightarrow> bool" where
  "al_is_allowed e creator subject s =
     (let creator_scope = CreatorScope creator in
      if al_is_blacklisted e GlobalScope subject s \<or> al_is_blacklisted e creator_scope subject s then False
      else if al_is_whitelist_mode GlobalScope s \<and> \<not> al_is_whitelisted GlobalScope subject s then False
      else if al_is_whitelist_mode creator_scope s \<and> \<not> al_is_whitelisted creator_scope subject s then False
      else True)"

section \<open>Consistency\<close>

text \<open>The calls that change the lists, and the answers that the lists of one scope give.\<close>

datatype access_call =
    CallBlacklist address list_scope address string u64
  | CallUnblacklist address list_scope address
  | CallWhitelist address list_scope address
  | CallUnwhitelist address list_scope address
  | CallWhitelistMode address list_scope bool

fun access_exec :: "env \<Rightarrow> address option \<Rightarrow> access_call \<Rightarrow> access_lists \<Rightarrow> access_result" where
  "access_exec e adm (CallBlacklist c sc a r d) s = al_add_to_blacklist e adm c sc a r d s"
| "access_exec e adm (CallUnblacklist c sc a) s = al_remove_from_blacklist e adm c sc a s"
| "access_exec e adm (CallWhitelist c sc a) s = al_add_to_whitelist e adm c sc a s"
| "access_exec e adm (CallUnwhitelist c sc a) s = al_remove_from_whitelist e adm c sc a s"
| "access_exec e adm (CallWhitelistMode c sc b) s = al_set_whitelist_mode e adm c sc b s"

fun call_scope :: "access_call \<Rightarrow> list_scope" where
  "call_scope (CallBlacklist c sc a r d) = sc"
| "call_scope (CallUnblacklist c sc a) = sc"
| "call_scope (CallWhitelist c sc a) = sc"
| "call_scope (CallUnwhitelist c sc a) = sc"
| "call_scope (CallWhitelistMode c sc b) = sc"

definition scope_owner :: "address option \<Rightarrow> list_scope \<Rightarrow> address option" where
  "scope_owner adm scope = (case scope of GlobalScope \<Rightarrow> adm | CreatorScope c \<Rightarrow> Some c)"

definition lists_agree :: "access_lists \<Rightarrow> bool" where
  "lists_agree s \<longleftrightarrow> (\<forall>scope.
     distinct (al_get_blacklist scope s) \<and>
     set (al_get_blacklist scope s) = {a. al_get_block_entry scope a s \<noteq> None} \<and>
     distinct (al_get_whitelist scope s) \<and>
     set (al_get_whitelist scope s) = {a. al_is_whitelisted scope a s})"

inductive access_reach :: "access_lists \<Rightarrow> access_lists \<Rightarrow> bool" where
  start: "access_reach s s"
| call: "access_reach s0 s \<Longrightarrow> access_exec e adm c s = Inr s' \<Longrightarrow> access_reach s0 s'"

lemma authorize_scope_Inr_iff [result_simps]:
  "authorize_scope e adm caller scope = Inr u \<longleftrightarrow> authorized e caller \<and> scope_owner adm scope = Some caller"
  by (auto simp: authorize_scope_def scope_owner_def result_simps split: list_scope.splits)

lemma key_eq_iff [simp]:
  "blacklist_key sc a = blacklist_key sc' a' \<longleftrightarrow> sc = sc' \<and> a = a'"
  "whitelist_key sc a = whitelist_key sc' a' \<longleftrightarrow> sc = sc' \<and> a = a'"
  "whitelist_mode_key sc = whitelist_mode_key sc' \<longleftrightarrow> sc = sc'"
  "blacklist_members_key sc = blacklist_members_key sc' \<longleftrightarrow> sc = sc'"
  "whitelist_members_key sc = whitelist_members_key sc' \<longleftrightarrow> sc = sc'"
  "whitelist_key sc a \<noteq> whitelist_mode_key sc'" "whitelist_mode_key sc' \<noteq> whitelist_key sc a"
  "blacklist_members_key sc \<noteq> whitelist_members_key sc'" "whitelist_members_key sc' \<noteq> blacklist_members_key sc"
  by (cases sc; cases sc'; simp)+

lemmas access_defs = al_add_to_blacklist_def al_remove_from_blacklist_def al_add_to_whitelist_def
  al_remove_from_whitelist_def al_set_whitelist_mode_def add_member_def remove_member_def al_publish_def Let_def

lemmas access_views = al_get_blacklist_def al_get_block_entry_def al_get_whitelist_def al_is_whitelisted_def
  al_is_whitelist_mode_def

lemma access_exec_agrees:
  assumes "lists_agree s" "access_exec e adm c s = Inr s'"
  shows "lists_agree s'"
proof -
  have a: "distinct (unwrap_or (al_members s (blacklist_members_key scope)) [])"
    "set (unwrap_or (al_members s (blacklist_members_key scope)) []) = {a. al_entries s (blacklist_key scope a) \<noteq> None}"
    "distinct (unwrap_or (al_members s (whitelist_members_key scope)) [])"
    "set (unwrap_or (al_members s (whitelist_members_key scope)) []) = {a. unwrap_or (al_flags s (whitelist_key scope a)) False}"
    for scope
    using assms(1) by (simp_all add: lists_agree_def access_views)
  show ?thesis
    using assms(2) by (cases c) (auto simp: access_defs lists_agree_def access_views a result_simps split: if_splits)
qed

lemma access_reach_agrees: "access_reach s0 s \<Longrightarrow> lists_agree s0 \<Longrightarrow> lists_agree s"
  by (induction rule: access_reach.induct) (auto intro: access_exec_agrees)

definition no_lists :: access_lists where
  "no_lists = \<lparr>al_entries = Map.empty, al_flags = Map.empty, al_members = Map.empty, al_events = []\<rparr>"

lemma no_lists_agree: "lists_agree no_lists"
  by (simp add: lists_agree_def no_lists_def access_views)

text \<open>
  A list belongs to its owner: a call that changes the lists has the authorisation of the contract's
  administrator for the global lists and of the creator for a creator's, and changes no entry, member list
  or mode of any other scope. After any sequence of calls the published member lists name, each once,
  exactly the addresses with a blacklist entry and exactly the whitelisted ones.
\<close>

theorem lists_belong_to_their_owner:
  assumes "access_reach no_lists s" "access_exec e adm c s = Inr s'"
  shows "(\<exists>owner. scope_owner adm (call_scope c) = Some owner \<and> authorized e owner) \<and>
    (\<forall>scope. scope \<noteq> call_scope c \<longrightarrow>
       (\<forall>a. al_get_block_entry scope a s' = al_get_block_entry scope a s \<and>
            al_is_whitelisted scope a s' = al_is_whitelisted scope a s) \<and>
       al_is_whitelist_mode scope s' = al_is_whitelist_mode scope s \<and>
       al_get_blacklist scope s' = al_get_blacklist scope s \<and>
       al_get_whitelist scope s' = al_get_whitelist scope s) \<and>
    lists_agree s'"
proof -
  have "lists_agree s'" using access_exec_agrees [OF access_reach_agrees] no_lists_agree assms by blast
  moreover have "\<exists>owner. scope_owner adm (call_scope c) = Some owner \<and> authorized e owner"
    using assms(2) by (cases c) (auto simp: access_defs result_simps)
  moreover have "\<forall>scope. scope \<noteq> call_scope c \<longrightarrow>
       (\<forall>a. al_get_block_entry scope a s' = al_get_block_entry scope a s \<and>
            al_is_whitelisted scope a s' = al_is_whitelisted scope a s) \<and>
       al_is_whitelist_mode scope s' = al_is_whitelist_mode scope s \<and>
       al_get_blacklist scope s' = al_get_blacklist scope s \<and>
       al_get_whitelist scope s' = al_get_whitelist scope s"
    using assms(2) by (cases c) (auto simp: access_defs access_views result_simps split: if_splits)
  ultimately show ?thesis by blast
qed

text \<open>
  The check that guards a tip and the query that predicts it agree; a block works until its expiry and
  no longer, a block without expiry for ever, and no whitelist overrides it.
\<close>

theorem check_agrees_with_query:
  "is_ok (check_allowed e creator subject s) = al_is_allowed e creator subject s \<and>
   (al_entries s (blacklist_key GlobalScope subject) = Some b \<and>
      (bl_expires_at b = 0 \<or> timestamp e < bl_expires_at b) \<longrightarrow>
    check_allowed e creator subject s = fail AlBlacklisted) \<and>
   (\<not> al_is_whitelist_mode GlobalScope s \<and> \<not> al_is_whitelist_mode (CreatorScope creator) s \<and>
    (\<forall>scope\<in>{GlobalScope, CreatorScope creator}. \<forall>b. al_get_block_entry scope subject s = Some b \<longrightarrow>
       bl_expires_at b \<noteq> 0 \<and> bl_expires_at b \<le> timestamp e) \<longrightarrow>
    check_allowed e creator subject s = Inr ())"
proof (intro conjI)
  show "is_ok (check_allowed e creator subject s) = al_is_allowed e creator subject s"
    by (simp add: check_allowed_def al_is_allowed_def Let_def)
qed (auto simp: check_allowed_def al_is_blacklisted_def al_get_block_entry_def Let_def split: option.splits)

section \<open>Examples\<close>

definition al_env :: "u64 \<Rightarrow> env" where
  "al_env now = \<lparr>sequence = 0, timestamp = now, authorized = (\<lambda>a. a = 1), contract_address = 8,
     new_entry_live = 0, extend_policy = (\<lambda>_ _ l. l), wasm_uploaded = (\<lambda>_. False)\<rparr>"

theorem lists_belong_to_their_owner_witness:
  "\<exists>s'. access_exec (al_env 5) (Some 1) (CallBlacklist 1 GlobalScope 7 ''spam'' 10) no_lists = Inr s' \<and>
     al_get_blacklist GlobalScope s' = [7] \<and> al_get_blacklist (CreatorScope 1) s' = [] \<and> lists_agree s'"
proof -
  have x: "access_exec (al_env 5) (Some 1) (CallBlacklist 1 GlobalScope 7 ''spam'' 10) no_lists =
      Inr \<lparr>al_entries = [GlobalBlacklist 7 \<mapsto> \<lparr>bl_subject = 7, bl_reason = ''spam'', bl_created_at = 5, bl_expires_at = 15\<rparr>],
           al_flags = Map.empty, al_members = [GlobalBlacklistMembers \<mapsto> [7]],
           al_events = [AlBlock ''global'' 7 15 ''spam'']\<rparr>"
    by (simp add: access_defs no_lists_def authorize_scope_def al_env_def require_auth_def)
  show ?thesis
    using lists_belong_to_their_owner [OF access_reach.start x] x by (simp add: al_get_blacklist_def)
qed

theorem check_agrees_with_query_witness:
  "\<exists>s. al_is_allowed (al_env 14) 2 7 s = False \<and> check_allowed (al_env 15) 2 7 s = Inr () \<and>
     al_entries s (GlobalBlacklist 7) = Some \<lparr>bl_subject = 7, bl_reason = [], bl_created_at = 5, bl_expires_at = 15\<rparr>"
proof -
  let ?b = "\<lparr>bl_subject = 7, bl_reason = [], bl_created_at = 5, bl_expires_at = 15\<rparr>"
  let ?s = "no_lists\<lparr>al_entries := [GlobalBlacklist 7 \<mapsto> ?b]\<rparr>"
  note q = check_agrees_with_query [of _ 2 7 ?s ?b]
  have "check_allowed (al_env 14) 2 7 ?s = fail AlBlacklisted"
    using conjunct1 [OF conjunct2 [OF q [of "al_env 14"]]] by (simp add: al_env_def)
  then have "\<not> al_is_allowed (al_env 14) 2 7 ?s" using conjunct1 [OF q [of "al_env 14"]] by simp
  moreover have "check_allowed (al_env 15) 2 7 ?s = Inr ()"
    using conjunct2 [OF conjunct2 [OF q [of "al_env 15"]]]
    by (simp add: al_env_def no_lists_def al_is_whitelist_mode_def al_get_block_entry_def)
  ultimately show ?thesis by (intro exI [of _ ?s]) simp
qed

end
