(* ===== verification/Legacy_Reputation.thy ===== *)
theory Legacy_Reputation
  imports Token_Ledger
begin

text \<open>
  The reputation scores of the legacy tip jar, \<^verbatim>\<open>src/contracts/tipjar-legacy/src/reputation/mod.rs\<close>:
  scores that grow with tips sent and received, halve with every half-life, and earn a bonus for streaks.
\<close>

section \<open>State\<close>

definition TIPPER_SCORE_PER_UNIT :: int where "TIPPER_SCORE_PER_UNIT = 1000"
definition CREATOR_SCORE_PER_UNIT :: int where "CREATOR_SCORE_PER_UNIT = 500"
definition HALF_LIFE_SECS :: u64 where "HALF_LIFE_SECS = 30 * 24 * 3600"
definition STREAK_BONUS_BPS_PER_DAY :: u32 where "STREAK_BONUS_BPS_PER_DAY = 100"
definition MAX_STREAK_DAYS :: u32 where "MAX_STREAK_DAYS = 30"
definition STREAK_WINDOW_SECS :: u64 where "STREAK_WINDOW_SECS = 49 * 3600"
definition REP_HISTORY_SIZE :: nat where "REP_HISTORY_SIZE = 20"
definition MIN_SCORE :: int where "MIN_SCORE = 0"

record reputation_score =
  rs_account :: address
  rs_score :: int
  rs_last_updated :: u64
  rs_streak_days :: u32
  rs_last_tip_at :: u64
  rs_tips_sent :: u64
  rs_tips_received :: u64
  rs_total_tipped :: int
  rs_total_received :: int

datatype rep_reason = RepTipSent | RepTipReceived | RepStreakBonus | RepDecay

record rep_history_entry =
  rh_delta :: int
  rh_score_after :: int
  rh_reason :: rep_reason
  rh_timestamp :: u64

record reputation =
  rep_scores :: "address \<rightharpoonup> reputation_score"
  rep_history :: "address \<rightharpoonup> rep_history_entry list"

section \<open>Storage\<close>

definition get_score :: "env \<Rightarrow> address \<Rightarrow> reputation \<Rightarrow> reputation_score" where
  "get_score e a s = unwrap_or (rep_scores s a)
     \<lparr>rs_account = a, rs_score = 0, rs_last_updated = timestamp e, rs_streak_days = 0, rs_last_tip_at = 0,
      rs_tips_sent = 0, rs_tips_received = 0, rs_total_tipped = 0, rs_total_received = 0\<rparr>"

definition save_score :: "reputation_score \<Rightarrow> reputation \<Rightarrow> reputation" where
  "save_score r s = s\<lparr>rep_scores := (rep_scores s)(rs_account r \<mapsto> r)\<rparr>"

definition get_history :: "address \<Rightarrow> reputation \<Rightarrow> rep_history_entry list" where
  "get_history a s = unwrap_or (rep_history s a) []"

definition push_history :: "address \<Rightarrow> rep_history_entry \<Rightarrow> reputation \<Rightarrow> reputation" where
  "push_history a entry s =
     (let hist = get_history a s;
          hist = (if REP_HISTORY_SIZE \<le> length hist then tl hist else hist) in
      s\<lparr>rep_history := (rep_history s)(a \<mapsto> hist @ [entry])\<rparr>)"

section \<open>Decay and streaks\<close>

text \<open>The loop over whole half-lives; it ends because the remaining time shrinks.\<close>

function decay_loop :: "int \<Rightarrow> u64 \<Rightarrow> int \<times> u64" where
  "decay_loop s remaining =
     (if HALF_LIFE_SECS \<le> remaining \<and> 0 < s then decay_loop (s div 2) (remaining - HALF_LIFE_SECS)
      else (s, remaining))"
  by pat_completeness auto

termination decay_loop
proof (relation "measure (\<lambda>(_, r). unat r)", simp)
  fix s :: int and r :: u64
  assume "HALF_LIFE_SECS \<le> r \<and> 0 < s"
  then have "HALF_LIFE_SECS \<le> r" by simp
  moreover have "0 < unat HALF_LIFE_SECS" by (simp add: HALF_LIFE_SECS_def)
  ultimately have "unat (r - HALF_LIFE_SECS) < unat r"
    by (simp add: unat_sub word_le_nat_alt)
  then show "((s div 2, r - HALF_LIFE_SECS), s, r) \<in> measure (\<lambda>(_, r). unat r)" by simp
qed

declare decay_loop.simps [simp del]

definition apply_decay :: "int \<Rightarrow> u64 \<Rightarrow> int" where
  "apply_decay score elapsed =
     (if score \<le> 0 \<or> elapsed = 0 then max score MIN_SCORE
      else
      let (s, remaining) = decay_loop score elapsed;
          s = (if remaining > 0 \<and> s > 0
               then let decay_frac = mul_i128 s (uint remaining) sdiv mul_i128 2 (uint HALF_LIFE_SECS) in
                    max (sub_i128 s decay_frac) 0
               else s) in
      max s MIN_SCORE)"

definition streak_bonus_bps :: "u32 \<Rightarrow> u32" where
  "streak_bonus_bps streak_days = (let days = min streak_days MAX_STREAK_DAYS in 10000 + days * STREAK_BONUS_BPS_PER_DAY)"

definition update_streak :: "reputation_score \<Rightarrow> u64 \<Rightarrow> bool \<times> reputation_score" where
  "update_streak r now =
     (if rs_last_tip_at r = 0 then (True, r\<lparr>rs_streak_days := 1, rs_last_tip_at := now\<rparr>)
      else let elapsed = sat_sub_u64 now (rs_last_tip_at r) in
        if elapsed \<le> STREAK_WINDOW_SECS
        then (True, r\<lparr>rs_streak_days := min (rs_streak_days r + 1) MAX_STREAK_DAYS, rs_last_tip_at := now\<rparr>)
        else (False, r\<lparr>rs_streak_days := 1, rs_last_tip_at := now\<rparr>))"

section \<open>Operations\<close>

definition record_tip_sent :: "env \<Rightarrow> address \<Rightarrow> int \<Rightarrow> reputation \<Rightarrow> reputation" where
  "record_tip_sent e a amount s =
     (let now = timestamp e;
          r = get_score e a s;
          elapsed = sat_sub_u64 now (rs_last_updated r);
          r = r\<lparr>rs_score := apply_decay (rs_score r) elapsed\<rparr>;
          base_gain = amount sdiv TIPPER_SCORE_PER_UNIT;
          (streak_updated, r) = update_streak r now;
          bonus_bps = uint (streak_bonus_bps (rs_streak_days r));
          gain = mul_i128 base_gain bonus_bps sdiv 10000;
          r = r\<lparr>rs_score := add_i128 (rs_score r) gain, rs_tips_sent := rs_tips_sent r + 1,
                rs_total_tipped := add_i128 (rs_total_tipped r) amount, rs_last_updated := now\<rparr>;
          s1 = push_history a \<lparr>rh_delta = gain, rh_score_after = rs_score r, rh_reason = RepTipSent, rh_timestamp = now\<rparr> s;
          s2 = (if streak_updated
                then push_history a \<lparr>rh_delta = 0, rh_score_after = rs_score r, rh_reason = RepStreakBonus, rh_timestamp = now\<rparr> s1
                else s1) in
      save_score r s2)"

definition record_tip_received :: "env \<Rightarrow> address \<Rightarrow> int \<Rightarrow> reputation \<Rightarrow> reputation" where
  "record_tip_received e a amount s =
     (let now = timestamp e;
          r = get_score e a s;
          elapsed = sat_sub_u64 now (rs_last_updated r);
          r = r\<lparr>rs_score := apply_decay (rs_score r) elapsed\<rparr>;
          gain = amount sdiv CREATOR_SCORE_PER_UNIT;
          r = r\<lparr>rs_score := add_i128 (rs_score r) gain, rs_tips_received := rs_tips_received r + 1,
                rs_total_received := add_i128 (rs_total_received r) amount, rs_last_updated := now\<rparr>;
          s1 = push_history a \<lparr>rh_delta = gain, rh_score_after = rs_score r, rh_reason = RepTipReceived, rh_timestamp = now\<rparr> s in
      save_score r s1)"

definition trigger_decay :: "env \<Rightarrow> address \<Rightarrow> reputation \<Rightarrow> reputation" where
  "trigger_decay e a s =
     (let now = timestamp e;
          r = get_score e a s;
          elapsed = sat_sub_u64 now (rs_last_updated r) in
      if elapsed = 0 then s
      else
      let old_score = rs_score r;
          r = r\<lparr>rs_score := apply_decay (rs_score r) elapsed, rs_last_updated := now\<rparr>;
          delta = sub_i128 (rs_score r) old_score;
          s1 = push_history a \<lparr>rh_delta = delta, rh_score_after = rs_score r, rh_reason = RepDecay, rh_timestamp = now\<rparr> s in
      save_score r s1)"

definition get_reputation_history :: "address \<Rightarrow> reputation \<Rightarrow> rep_history_entry list" where
  "get_reputation_history a s = get_history a s"

section \<open>Decay is exponential\<close>

lemma half_life_pos: "0 < unat HALF_LIFE_SECS" "uint HALF_LIFE_SECS = 2592000" "unat HALF_LIFE_SECS = 2592000"
  by (simp_all add: HALF_LIFE_SECS_def)

lemma decay_loop_closed:
  "0 \<le> s \<Longrightarrow> fst (decay_loop s r) = s div 2 ^ (unat r div 2592000) \<and>
     (0 < fst (decay_loop s r) \<longrightarrow> unat (snd (decay_loop s r)) = unat r mod 2592000)"
proof (induction s r rule: decay_loop.induct)
  case (1 s r)
  show ?case
  proof (cases "HALF_LIFE_SECS \<le> r \<and> 0 < s")
    case True
    then have le: "2592000 \<le> unat r" using half_life_pos by (simp add: word_le_nat_alt)
    then have r: "unat (r - HALF_LIFE_SECS) = unat r - 2592000"
      using True half_life_pos by (simp add: unat_sub)
    have d: "unat r div 2592000 = Suc ((unat r - 2592000) div 2592000)" "unat r mod 2592000 = (unat r - 2592000) mod 2592000"
      using le by (simp_all add: le_div_geq le_mod_geq)
    have "s div 2 div 2 ^ k = s div 2 ^ Suc k" for k
      using zdiv_zmult2_eq [of "2 ^ k" s 2] by simp
    then show ?thesis
      using 1 True by (subst (1 2 3) decay_loop.simps) (simp add: r d)
  next
    case False
    then have "unat r < 2592000 \<or> s = 0" using 1(2) half_life_pos by (auto simp: not_le word_less_nat_alt)
    then show ?thesis using False by (subst (1 2 3) decay_loop.simps) auto
  qed
qed

text \<open>The reference: halve once per whole half-life, then interpolate linearly towards the next half.\<close>

definition decayed :: "int \<Rightarrow> nat \<Rightarrow> int" where
  "decayed score t =
     (let s = score div 2 ^ (t div 2592000) in s - s * int (t mod 2592000) div (2 * 2592000))"

lemma half_bound:
  assumes "0 \<le> (s::int)" "r < (2592000::nat)"
  shows "0 \<le> s * int r div 5184000" "s * int r div 5184000 \<le> s div 2"
proof -
  show "0 \<le> s * int r div 5184000" using assms by (simp add: pos_imp_zdiv_nonneg_iff)
  have "s * int r \<le> s * 2592000" using assms by (intro mult_left_mono) auto
  then have "s * int r div 5184000 \<le> s * 2592000 div 5184000" by (rule zdiv_mono1) simp
  also have "s * 2592000 div 5184000 = s div 2"
    using div_mult_mult2 [of "2592000::int" s 2] by simp
  finally show "s * int r div 5184000 \<le> s div 2" .
qed

lemma decayed_bounds:
  assumes "0 \<le> s"
  shows "0 \<le> decayed s t" "decayed s t \<le> s div 2 ^ (t div 2592000)"
    "s div 2 ^ Suc (t div 2592000) \<le> decayed s t"
proof -
  let ?s = "s div 2 ^ (t div 2592000)"
  have s: "0 \<le> ?s" using assms by (simp add: pos_imp_zdiv_nonneg_iff)
  note h = half_bound [OF s, of "t mod 2592000"]
  have half: "s div 2 ^ Suc (t div 2592000) = ?s div 2"
    using zdiv_zmult2_eq [of 2 s "2 ^ (t div 2592000)"] by (simp add: mult.commute)
  show "0 \<le> decayed s t" "decayed s t \<le> ?s" "s div 2 ^ Suc (t div 2592000) \<le> decayed s t"
    using s h unfolding half decayed_def Let_def by simp_all linarith+
qed

lemma decayed_antimono:
  assumes "0 \<le> s" "t \<le> t'"
  shows "decayed s t' \<le> decayed s t"
proof (cases "t div 2592000 = t' div 2592000")
  case True
  then have "t mod 2592000 \<le> t' mod 2592000" using assms(2)
    by (metis add_le_cancel_left mult_div_mod_eq)
  then have "s div 2 ^ (t div 2592000) * int (t mod 2592000) \<le> s div 2 ^ (t div 2592000) * int (t' mod 2592000)"
    using assms(1) by (intro mult_left_mono) (simp_all add: pos_imp_zdiv_nonneg_iff)
  then show ?thesis
    unfolding decayed_def Let_def True [symmetric] by (simp add: zdiv_mono1)
next
  case False
  then have k: "Suc (t div 2592000) \<le> t' div 2592000"
    using div_le_mono [OF assms(2), of 2592000] by simp
  have "decayed s t' \<le> s div 2 ^ (t' div 2592000)" by (rule decayed_bounds(2) [OF assms(1)])
  also have "\<dots> \<le> s div 2 ^ Suc (t div 2592000)"
    using assms(1) k by (intro zdiv_mono2 power_increasing) auto
  also have "\<dots> \<le> decayed s t" by (rule decayed_bounds(3) [OF assms(1)])
  finally show ?thesis .
qed

lemma apply_decay_closed:
  assumes "0 \<le> score" "score * 2592000 \<le> I128_MAX"
  shows "apply_decay score t = decayed score (unat t)"
proof (cases "score \<le> 0 \<or> t = 0")
  case True
  then show ?thesis using assms by (auto simp: apply_decay_def decayed_def MIN_SCORE_def)
next
  case False
  obtain s r where l: "decay_loop score t = (s, r)" by fastforce
  have s: "s = score div 2 ^ (unat t div 2592000)" "0 < s \<longrightarrow> unat r = unat t mod 2592000"
    using decay_loop_closed [OF assms(1), of t] by (simp_all add: l)
  have nn: "0 \<le> s" using assms(1) by (simp add: s(1) pos_imp_zdiv_nonneg_iff)
  show ?thesis
  proof (cases "s = 0")
    case True
    then show ?thesis using False l s(1) by (simp add: apply_decay_def decayed_def MIN_SCORE_def)
  next
    case pos: False
    have r: "unat r = unat t mod 2592000" "uint r = int (unat t mod 2592000)"
      using s(2) nn pos by (simp_all add: uint_nat)
    have "s \<le> score" unfolding s(1) using assms(1) by (intro div_int_le_self) auto
    have "s * uint r \<le> score * 2592000" using \<open>s \<le> score\<close> nn assms(1) r(2) by (intro mult_mono) auto
    then have "in_i128 (s * uint r)" using nn assms(2) by (simp add: in_i128_nonneg)
    then have q: "mul_i128 s (uint r) sdiv mul_i128 2 (uint HALF_LIFE_SECS) = s * int (unat t mod 2592000) div 5184000"
      using nn by (simp add: mul_i128_exact half_life_pos sdiv_int_nonneg r(2) in_i128_nonneg I128_MAX_def)
    note h = half_bound [OF nn, of "unat t mod 2592000"]
    have "s * 1 \<le> score * 2592000" using \<open>s \<le> score\<close> nn by linarith
    then have "in_i128 s" using nn assms(2) by (simp add: in_i128_nonneg)
    then have "sub_i128 s (s * int (unat t mod 2592000) div 5184000) = s - s * int (unat t mod 2592000) div 5184000"
      using h nn by (intro sub_i128_shrink) auto
    then have "apply_decay score t = s - s * int (unat t mod 2592000) div 5184000"
      using False l q h nn pos r(1)
      by (cases "r = 0") (auto simp: apply_decay_def MIN_SCORE_def Let_def word_neq_0_conv max_def unat_eq_0)
    then show ?thesis by (simp add: decayed_def s(1) Let_def)
  qed
qed

text \<open>
  A score decays exponentially: in a time of \<open>k\<close> half-lives and a rest it is halved \<open>k\<close> times and then
  reduced linearly towards the next half; it never becomes negative or grows, and never grows back as
  more time passes. The loop over the half-lives ends for every score and every time.
\<close>

theorem score_halves_every_half_life:
  assumes "0 \<le> score" "score * uint HALF_LIFE_SECS \<le> I128_MAX"
  shows "apply_decay score t = decayed score (unat t) \<and> 0 \<le> apply_decay score t \<and> apply_decay score t \<le> score \<and>
    (\<forall>t'. t \<le> t' \<longrightarrow> apply_decay score t' \<le> apply_decay score t)"
proof -
  have c: "apply_decay score u = decayed score (unat u)" for u
    using assms by (intro apply_decay_closed) (simp_all add: half_life_pos)
  have "decayed score (unat t) \<le> score div 2 ^ (unat t div 2592000)" by (rule decayed_bounds(2) [OF assms(1)])
  also have "\<dots> \<le> score" using assms(1) by (intro div_int_le_self) auto
  finally show ?thesis
    using decayed_bounds(1) [OF assms(1), of "unat t"] decayed_antimono [OF assms(1)]
    by (simp add: c word_le_nat_alt)
qed

theorem score_halves_every_half_life_witness:
  "apply_decay 1000 (2 * HALF_LIFE_SECS) = 250 \<and> apply_decay 1000 (HALF_LIFE_SECS + 1296000) = 375"
proof -
  have "apply_decay 1000 t = decayed 1000 (unat t)" for t
    using score_halves_every_half_life [of 1000 t] by (simp add: half_life_pos I128_MAX_def)
  then show ?thesis by (simp add: decayed_def HALF_LIFE_SECS_def)
qed

section \<open>Well-formed scores\<close>

definition rep_ok :: "reputation \<Rightarrow> bool" where
  "rep_ok s \<longleftrightarrow> (\<forall>a. length (get_history a s) \<le> REP_HISTORY_SIZE) \<and>
     (\<forall>a r. rep_scores s a = Some r \<longrightarrow> rs_account r = a \<and> rs_streak_days r \<le> MAX_STREAK_DAYS)"

inductive rep_step :: "reputation \<Rightarrow> reputation \<Rightarrow> bool" where
  sent: "rep_step s (record_tip_sent e a n s)"
| received: "rep_step s (record_tip_received e a n s)"
| decay: "rep_step s (trigger_decay e a s)"

lemma push_history_ok:
  assumes "rep_ok s"
  shows "rep_ok (push_history a h s)"
proof -
  have "length (get_history a s) \<le> 20" using assms by (simp add: rep_ok_def REP_HISTORY_SIZE_def)
  then have "length (get_history a s) - Suc 0 \<le> 19" by linarith
  then show ?thesis
    using assms by (auto simp: rep_ok_def push_history_def get_history_def REP_HISTORY_SIZE_def Let_def)
qed

lemma save_score_ok: "rep_ok s \<Longrightarrow> rs_streak_days r \<le> MAX_STREAK_DAYS \<Longrightarrow> rep_ok (save_score r s)"
  by (auto simp: rep_ok_def save_score_def get_history_def)

lemma get_score_ok:
  assumes "rep_ok s"
  shows "rs_account (get_score e a s) = a" "rs_streak_days (get_score e a s) \<le> MAX_STREAK_DAYS"
  using assms by (cases "rep_scores s a"; simp add: rep_ok_def get_score_def MAX_STREAK_DAYS_def)+

lemma update_streak_ok:
  "rs_streak_days (snd (update_streak r now)) \<le> MAX_STREAK_DAYS"
  by (simp add: update_streak_def Let_def MAX_STREAK_DAYS_def)

lemma rep_step_ok:
  assumes "rep_step s s'" "rep_ok s"
  shows "rep_ok s'"
  using assms(1)
proof cases
  case (sent e a n)
  then show ?thesis
    using assms(2) update_streak_ok
    by (auto simp: record_tip_sent_def Let_def split_beta intro!: save_score_ok push_history_ok)
next
  case (received e a n)
  then show ?thesis
    using assms(2) get_score_ok [OF assms(2)]
    by (auto simp: record_tip_received_def Let_def intro!: save_score_ok push_history_ok)
next
  case (decay e a)
  then show ?thesis
    using assms(2) get_score_ok [OF assms(2)]
    by (auto simp: trigger_decay_def Let_def intro!: save_score_ok push_history_ok)
qed

text \<open>
  After any sequence of recorded tips and decays every account has at most twenty history entries and a
  streak of at most thirty days, and the bonus of a streak is at most 30 per cent.
\<close>

theorem reputation_stays_bounded:
  assumes "rep_step\<^sup>*\<^sup>* \<lparr>rep_scores = Map.empty, rep_history = Map.empty\<rparr> s"
  shows "length (get_reputation_history a s) \<le> 20 \<and> rs_streak_days (get_score e a s) \<le> 30 \<and>
    streak_bonus_bps (rs_streak_days (get_score e a s)) \<le> 13000"
proof -
  have "rep_ok s"
    using assms
  proof (induction rule: rtranclp_induct)
    case base
    show ?case by (simp add: rep_ok_def get_history_def)
  qed (rule rep_step_ok)
  then have h: "length (get_reputation_history a s) \<le> 20" "rs_streak_days (get_score e a s) \<le> 30"
    using get_score_ok(2) [of s e a] by (simp_all add: rep_ok_def get_reputation_history_def REP_HISTORY_SIZE_def MAX_STREAK_DAYS_def)
  moreover have "streak_bonus_bps d \<le> 13000" if "d \<le> 30" for d
  proof -
    have "unat d \<le> 30" using that by (simp add: word_le_nat_alt)
    then have "unat (10000 + d * 100 :: u32) \<le> 13000" by (simp add: unat_word_ariths)
    then show ?thesis
      using that by (simp add: streak_bonus_bps_def STREAK_BONUS_BPS_PER_DAY_def MAX_STREAK_DAYS_def word_le_nat_alt Let_def)
  qed
  ultimately show ?thesis by blast
qed

definition rep_env :: env where
  "rep_env = \<lparr>sequence = 0, timestamp = 9, authorized = (\<lambda>_. True), contract_address = 8,
     new_entry_live = 0, extend_policy = (\<lambda>_ _ l. l), wasm_uploaded = (\<lambda>_. False)\<rparr>"

theorem reputation_stays_bounded_witness:
  "\<exists>s. s = record_tip_sent rep_env 1 500000 \<lparr>rep_scores = Map.empty, rep_history = Map.empty\<rparr> \<and>
     rs_score (get_score rep_env 1 s) = 505 \<and> length (get_reputation_history 1 s) \<le> 20"
proof -
  let ?s0 = "\<lparr>rep_scores = Map.empty, rep_history = Map.empty\<rparr>"
  have "rs_score (get_score rep_env 1 (record_tip_sent rep_env 1 500000 ?s0)) = 505" by code_simp
  then show ?thesis
    using reputation_stays_bounded [OF r_into_rtranclp [of rep_step, OF rep_step.sent [of ?s0 rep_env 1 500000]], of 1] by blast
qed

end
