(* ===== verification/Legacy_Royalty.thy ===== *)
theory Legacy_Royalty
  imports Token_Ledger "HOL-Library.Multiset"
begin

text \<open>
  The programmable royalties of the legacy tip jar,
  \<^verbatim>\<open>src/contracts/tipjar-legacy/src/programmable_royalty/mod.rs\<close>: rules with conditions and recipients, the
  choice of the first rule that applies, and the nested distribution of a tip among the recipients.
\<close>

section \<open>State\<close>

definition MAX_RULES :: nat where "MAX_RULES = 10"
definition MAX_RECIPIENTS :: nat where "MAX_RECIPIENTS = 20"
definition BPS_DENOM :: int where "BPS_DENOM = 10000"
definition MAX_NEST_DEPTH :: u32 where "MAX_NEST_DEPTH = 5"

datatype royalty_condition =
    CondAlways
  | MinAmount int
  | MaxAmount int
  | FromSender address
  | FromList "address list"
  | TimeAfter u64
  | TimeBefore u64
  | MinTipperCount u32
  | MinTotalTips int

record dynamic_recipient =
  dr_recipient :: address
  base_bps :: u32
  bonus_bps :: u32

record royalty_rule =
  rule_id :: u64
  rule_conditions :: "royalty_condition list"
  rule_recipients :: "dynamic_recipient list"
  rule_owner :: address
  rule_enabled :: bool
  rule_priority :: u32

record royalty_payment =
  rp_recipient :: address
  rp_amount :: int
  rp_timestamp :: u64
  rp_rule_id :: u64
  rp_source_amount :: int

datatype royalty_event =
    ProgRul address u64
  | ProgUpd address u64
  | ProgDst address int
  | ProgWdw address int

record royalties =
  pr_rule :: "u64 \<rightharpoonup> royalty_rule"
  pr_creator_rule :: "address \<times> u64 \<rightharpoonup> u64"
  pr_counter :: "u64 option"
  pr_payment :: "address \<times> u64 \<rightharpoonup> royalty_payment"
  pr_payment_count :: "address \<rightharpoonup> u64"
  pr_tipper_count :: "address \<rightharpoonup> u32"
  pr_total_tips :: "address \<rightharpoonup> int"
  pr_balance :: "address \<rightharpoonup> int"
  pr_events :: "royalty_event list"

section \<open>Rules\<close>

definition load_rule :: "u64 \<Rightarrow> royalties \<Rightarrow> royalty_rule option" where
  "load_rule i s = pr_rule s i"

definition save_rule :: "royalty_rule \<Rightarrow> royalties \<Rightarrow> royalties" where
  "save_rule r s = s\<lparr>pr_rule := (pr_rule s)(rule_id r \<mapsto> r)\<rparr>"

definition get_creator_rule_id :: "address \<Rightarrow> nat \<Rightarrow> royalties \<Rightarrow> u64 option" where
  "get_creator_rule_id creator index s = pr_creator_rule s (creator, of_nat index)"

definition register_creator_rule :: "address \<Rightarrow> nat \<Rightarrow> u64 \<Rightarrow> royalties \<Rightarrow> royalties" where
  "register_creator_rule creator index i s = s\<lparr>pr_creator_rule := (pr_creator_rule s)((creator, of_nat index) \<mapsto> i)\<rparr>"

definition get_next_rule_id :: "royalties \<Rightarrow> u64 \<times> royalties" where
  "get_next_rule_id s = (let i = unwrap_or (pr_counter s) 0 in (i + 1, s\<lparr>pr_counter := Some (i + 1)\<rparr>))"

definition record_payment :: "address \<Rightarrow> royalty_payment \<Rightarrow> royalties \<Rightarrow> royalties" where
  "record_payment creator p s =
     (let count = unwrap_or (pr_payment_count s creator) 0 in
      s\<lparr>pr_payment := (pr_payment s)((creator, count) \<mapsto> p),
        pr_payment_count := (pr_payment_count s)(creator \<mapsto> count + 1)\<rparr>)"

text \<open>The rules of a creator in the order of their slots, and the exchange sort by priority.\<close>

definition unsorted_rules :: "address \<Rightarrow> royalties \<Rightarrow> royalty_rule list" where
  "unsorted_rules creator s =
     List.map_filter (\<lambda>i. Option.bind (get_creator_rule_id creator i s) (\<lambda>r. load_rule r s)) [0..<MAX_RULES]"

definition exchange :: "nat \<Rightarrow> nat \<Rightarrow> royalty_rule list \<Rightarrow> royalty_rule list" where
  "exchange i j rules =
     (if rule_priority (rules ! i) < rule_priority (rules ! j)
      then rules[i := rules ! j, j := rules ! i] else rules)"

definition load_rules :: "address \<Rightarrow> royalties \<Rightarrow> royalty_rule list" where
  "load_rules creator s =
     (let rules = unsorted_rules creator s; n = length rules in
      fold (\<lambda>i rs. fold (exchange i) [i + 1..<n] rs) [0..<n] rules)"

section \<open>Conditions and shares\<close>

fun evaluate_condition :: "env \<Rightarrow> royalty_condition \<Rightarrow> int \<Rightarrow> address \<Rightarrow> address \<Rightarrow> royalties \<Rightarrow> bool" where
  "evaluate_condition e CondAlways n sender creator s = True"
| "evaluate_condition e (MinAmount threshold) n sender creator s = (n \<ge> threshold)"
| "evaluate_condition e (MaxAmount threshold) n sender creator s = (n \<le> threshold)"
| "evaluate_condition e (FromSender a) n sender creator s = (a = sender)"
| "evaluate_condition e (FromList senders) n sender creator s = (sender \<in> set senders)"
| "evaluate_condition e (TimeAfter start_ts) n sender creator s = (timestamp e \<ge> start_ts)"
| "evaluate_condition e (TimeBefore end_ts) n sender creator s = (timestamp e \<le> end_ts)"
| "evaluate_condition e (MinTipperCount threshold) n sender creator s = (unwrap_or (pr_tipper_count s creator) 0 \<ge> threshold)"
| "evaluate_condition e (MinTotalTips threshold) n sender creator s = (unwrap_or (pr_total_tips s creator) 0 \<ge> threshold)"

definition all_conditions_met :: "env \<Rightarrow> royalty_condition list \<Rightarrow> int \<Rightarrow> address \<Rightarrow> address \<Rightarrow> royalties \<Rightarrow> bool" where
  "all_conditions_met e cs n sender creator s = list_all (\<lambda>c. evaluate_condition e c n sender creator s) cs"

definition calculate_recipient_share :: "dynamic_recipient \<Rightarrow> bool \<Rightarrow> u32" where
  "calculate_recipient_share r bonus = (if bonus then base_bps r + bonus_bps r else base_bps r)"

definition normalize_shares :: "dynamic_recipient list \<Rightarrow> bool \<Rightarrow> u32 list" where
  "normalize_shares recipients bonus =
     (let shares = map (\<lambda>r. calculate_recipient_share r bonus) recipients;
          total_share = sum_list (map ucast shares) :: u64 in
      if total_share = 0 then shares
      else map (\<lambda>share. ucast (ucast share * 10000 div total_share :: u64)) shares)"

section \<open>Operations\<close>

definition create_rule ::
  "env \<Rightarrow> address \<Rightarrow> address \<Rightarrow> royalty_condition list \<Rightarrow> dynamic_recipient list \<Rightarrow> u32 \<Rightarrow> royalties
   \<Rightarrow> (unit, u64 \<times> royalties) result" where
  "create_rule e creator owner conditions recipients priority s =
     and_then (require_auth e owner) (\<lambda>_.
     and_then (rust_assert (conditions \<noteq> [])) (\<lambda>_.
     and_then (rust_assert (recipients \<noteq> [])) (\<lambda>_.
     and_then (rust_assert (length recipients \<le> MAX_RECIPIENTS)) (\<lambda>_.
     let (i, s1) = get_next_rule_id s;
         rule = \<lparr>rule_id = i, rule_conditions = conditions, rule_recipients = recipients, rule_owner = owner,
                 rule_enabled = True, rule_priority = priority\<rparr>;
         s2 = save_rule rule s1;
         s3 = (case find (\<lambda>slot. get_creator_rule_id creator slot s2 = None) [0..<MAX_RULES] of
                 Some slot \<Rightarrow> register_creator_rule creator slot i s2
               | None \<Rightarrow> s2) in
     Inr (i, s3\<lparr>pr_events := pr_events s3 @ [ProgRul creator i]\<rparr>)))))"

definition update_rule ::
  "env \<Rightarrow> address \<Rightarrow> u64 \<Rightarrow> address \<Rightarrow> royalty_condition list \<Rightarrow> dynamic_recipient list \<Rightarrow> u32 \<Rightarrow> royalties
   \<Rightarrow> (unit, royalties) result" where
  "update_rule e creator i owner conditions recipients priority s =
     and_then (require_auth e owner) (\<lambda>_.
     (case load_rule i s of
        None \<Rightarrow> Inl Trapped
      | Some rule \<Rightarrow>
          and_then (rust_assert (rule_owner rule = owner)) (\<lambda>_.
          let s1 = save_rule (rule\<lparr>rule_conditions := conditions, rule_recipients := recipients, rule_priority := priority\<rparr>) s in
          Inr (s1\<lparr>pr_events := pr_events s1 @ [ProgUpd creator i]\<rparr>))))"

definition toggle_rule :: "env \<Rightarrow> u64 \<Rightarrow> address \<Rightarrow> bool \<Rightarrow> royalties \<Rightarrow> (unit, royalties) result" where
  "toggle_rule e i owner enabled s =
     and_then (require_auth e owner) (\<lambda>_.
     (case load_rule i s of
        None \<Rightarrow> Inl Trapped
      | Some rule \<Rightarrow>
          and_then (rust_assert (rule_owner rule = owner)) (\<lambda>_.
          Inr (save_rule (rule\<lparr>rule_enabled := enabled\<rparr>) s))))"

text \<open>The statistics that the distribution updates before it looks at the rules.\<close>

definition count_tip :: "address \<Rightarrow> int \<Rightarrow> royalties \<Rightarrow> royalties" where
  "count_tip creator n s =
     (let prev = unwrap_or (pr_total_tips s creator) 0;
          s1 = (if prev = 0
                then s\<lparr>pr_tipper_count := (pr_tipper_count s)(creator \<mapsto> unwrap_or (pr_tipper_count s creator) 0 + 1)\<rparr>
                else s);
          total_before = unwrap_or (pr_total_tips s1 creator) 0 in
      s1\<lparr>pr_total_tips := (pr_total_tips s1)(creator \<mapsto> add_i128 total_before n)\<rparr>)"

text \<open>
  The distribution and, for the rule that applies, the loop over its recipients with their shares. The
  loop carries the amount distributed so far.
\<close>

function distribute_programmable_inner :: "env \<Rightarrow> address \<Rightarrow> int \<Rightarrow> address \<Rightarrow> u32 \<Rightarrow> royalties \<Rightarrow> int \<times> royalties"
  and distribute_recipients ::
    "env \<Rightarrow> address \<Rightarrow> int \<Rightarrow> address \<Rightarrow> u32 \<Rightarrow> u64 \<Rightarrow> int \<Rightarrow> (dynamic_recipient \<times> u32) list \<Rightarrow> int \<Rightarrow> royalties \<Rightarrow> int \<times> royalties"
  where
  "distribute_programmable_inner e creator tip_amount sender depth s =
     (if tip_amount \<le> 0 \<or> depth \<ge> MAX_NEST_DEPTH then (tip_amount, s)
      else
      let s1 = count_tip creator tip_amount s;
          chosen = find (\<lambda>rule. rule_enabled rule \<and> all_conditions_met e (rule_conditions rule) tip_amount sender creator s1)
            (load_rules creator s1);
          (distributed, s2) = (case chosen of
             None \<Rightarrow> (0, s1)
           | Some rule \<Rightarrow> distribute_recipients e creator tip_amount sender depth (rule_id rule) tip_amount
               (zip (rule_recipients rule) (normalize_shares (rule_recipients rule) True)) 0 s1);
          s3 = (if depth = 0 then s2\<lparr>pr_events := pr_events s2 @ [ProgDst creator distributed]\<rparr> else s2) in
      (sub_i128 tip_amount distributed, s3))"
| "distribute_recipients e creator tip_amount sender depth i remaining [] distributed s = (distributed, s)"
| "distribute_recipients e creator tip_amount sender depth i remaining ((r, share_bps) # rest) distributed s =
     (let amount_to_distribute = mul_i128 remaining (uint share_bps) sdiv BPS_DENOM in
      if amount_to_distribute \<le> 0
      then distribute_recipients e creator tip_amount sender depth i remaining rest distributed s
      else
      let s1 = record_payment creator \<lparr>rp_recipient = dr_recipient r, rp_amount = amount_to_distribute,
            rp_timestamp = timestamp e, rp_rule_id = i, rp_source_amount = tip_amount\<rparr> s in
      if depth < MAX_NEST_DEPTH then
        let (nested_remaining, s2) =
              distribute_programmable_inner e (dr_recipient r) amount_to_distribute sender (depth + 1) s1 in
        distribute_recipients e creator tip_amount sender depth i remaining rest
          (add_i128 distributed (sub_i128 amount_to_distribute nested_remaining)) s2
      else
        let bal = unwrap_or (pr_balance s1 (dr_recipient r)) 0;
            s2 = s1\<lparr>pr_balance := (pr_balance s1)(dr_recipient r \<mapsto> add_i128 bal amount_to_distribute)\<rparr> in
        distribute_recipients e creator tip_amount sender depth i remaining rest
          (add_i128 distributed amount_to_distribute) s2)"
  by pat_completeness auto

termination distribute_programmable_inner
proof (relation "inv_image (less_than <*lex*> less_than <*lex*> less_than) (\<lambda>x. case x of
      Inl (e, creator, n, sender, depth, s) \<Rightarrow> (5 - unat (depth :: u32), 1, 0)
    | Inr (e, creator, n, sender, depth, i, remaining, rs, distributed, s) \<Rightarrow> (5 - unat (depth :: u32), 0, length rs))")
  have "unat (depth + 1) = unat depth + 1" if "depth < MAX_NEST_DEPTH" for depth :: u32
  proof -
    have "unat depth < 5" using that by (simp add: MAX_NEST_DEPTH_def word_less_nat_alt)
    then show ?thesis by (simp add: unat_word_ariths)
  qed
  then show "((Inl (e, dr_recipient r, x, sender, depth + 1, s1)),
       (Inr (e, creator, n, sender, depth, i, remaining, (r, share) # rest, distributed, s)))
      \<in> inv_image (less_than <*lex*> less_than <*lex*> less_than) (\<lambda>x. case x of
      Inl (e, creator, n, sender, depth, s) \<Rightarrow> (5 - unat (depth :: u32), 1, 0)
    | Inr (e, creator, n, sender, depth, i, remaining, rs, distributed, s) \<Rightarrow> (5 - unat (depth :: u32), 0, length rs))"
    if "depth < MAX_NEST_DEPTH" for e creator n sender depth i remaining r share rest distributed s x s1
    using that by (simp add: MAX_NEST_DEPTH_def word_less_nat_alt)
qed auto

declare distribute_programmable_inner.simps [simp del] distribute_recipients.simps [simp del]

definition distribute_programmable_royalties :: "env \<Rightarrow> address \<Rightarrow> int \<Rightarrow> address \<Rightarrow> royalties \<Rightarrow> int \<times> royalties" where
  "distribute_programmable_royalties e creator tip_amount sender s =
     distribute_programmable_inner e creator tip_amount sender 0 s"

definition withdraw_programmable_royalties :: "env \<Rightarrow> address \<Rightarrow> royalties \<Rightarrow> (unit, int \<times> royalties) result" where
  "withdraw_programmable_royalties e recipient s =
     and_then (require_auth e recipient) (\<lambda>_.
     let amount = unwrap_or (pr_balance s recipient) 0 in
     if amount > 0
     then Inr (amount, s\<lparr>pr_balance := (pr_balance s)(recipient := None), pr_events := pr_events s @ [ProgWdw recipient amount]\<rparr>)
     else Inr (amount, s))"

definition get_creator_rules :: "address \<Rightarrow> royalties \<Rightarrow> royalty_rule list" where
  "get_creator_rules creator s = load_rules creator s"

definition get_payment_count :: "address \<Rightarrow> royalties \<Rightarrow> u64" where
  "get_payment_count creator s = unwrap_or (pr_payment_count s creator) 0"

definition get_programmable_balance :: "address \<Rightarrow> royalties \<Rightarrow> int" where
  "get_programmable_balance recipient s = unwrap_or (pr_balance s recipient) 0"

section \<open>The order of the rules\<close>

definition sorted_to :: "nat \<Rightarrow> royalty_rule list \<Rightarrow> bool" where
  "sorted_to i rs \<longleftrightarrow> (\<forall>p q. p < i \<longrightarrow> p < q \<longrightarrow> q < length rs \<longrightarrow> rule_priority (rs ! q) \<le> rule_priority (rs ! p))"

lemma exchange_keeps:
  assumes "i < j" "j < length rs" "sorted_to i rs"
  shows "sorted_to i (exchange i j rs)" "mset (exchange i j rs) = mset rs" "length (exchange i j rs) = length rs"
proof -
  show "length (exchange i j rs) = length rs" by (simp add: exchange_def)
  show "mset (exchange i j rs) = mset rs"
    using assms mset_swap [of j rs i] by (simp add: exchange_def)
  show "sorted_to i (exchange i j rs)"
    using assms by (auto simp: sorted_to_def exchange_def nth_list_update)
qed

lemma exchange_row:
  assumes "m \<le> length rs" "sorted_to i rs"
  defines "rs' \<equiv> fold (exchange i) [i + 1..<m] rs"
  shows "sorted_to i rs' \<and> mset rs' = mset rs \<and> length rs' = length rs \<and>
    (\<forall>k. i < k \<longrightarrow> k < m \<longrightarrow> rule_priority (rs' ! k) \<le> rule_priority (rs' ! i))"
  unfolding rs'_def using assms(1)
proof (induction m)
  case 0
  then show ?case using assms(2) by simp
next
  case (Suc m)
  let ?r = "fold (exchange i) [i + 1..<m] rs"
  show ?case
  proof (cases "i < m")
    case True
    have ih: "sorted_to i ?r" "mset ?r = mset rs" "length ?r = length rs"
        "\<And>k. i < k \<Longrightarrow> k < m \<Longrightarrow> rule_priority (?r ! k) \<le> rule_priority (?r ! i)"
      using Suc by auto
    have m: "m < length ?r" using Suc.prems ih(3) by simp
    have "rule_priority (exchange i m ?r ! k) \<le> rule_priority (exchange i m ?r ! i)" if "i < k" "k < Suc m" for k
      using that ih(4) [of k] m True by (cases "k = m") (auto simp: exchange_def nth_list_update)
    then show ?thesis
      using exchange_keeps [OF True m ih(1)] ih True by simp
  next
    case False
    then show ?thesis using assms(2) by simp
  qed
qed

lemma exchange_sort:
  assumes "m \<le> length rs"
  defines "rs' \<equiv> fold (\<lambda>i r. fold (exchange i) [i + 1..<length rs] r) [0..<m] rs"
  shows "sorted_to m rs' \<and> mset rs' = mset rs \<and> length rs' = length rs"
  unfolding rs'_def using assms(1)
proof (induction m)
  case 0
  then show ?case by (simp add: sorted_to_def)
next
  case (Suc m)
  let ?r = "fold (\<lambda>i r. fold (exchange i) [i + 1..<length rs] r) [0..<m] rs"
  have ih: "sorted_to m ?r" "mset ?r = mset rs" "length ?r = length rs" using Suc by auto
  let ?q = "fold (exchange m) [m + 1..<length rs] ?r"
  have q: "sorted_to m ?q" "mset ?q = mset rs" "length ?q = length rs"
      "\<And>k. m < k \<Longrightarrow> k < length rs \<Longrightarrow> rule_priority (?q ! k) \<le> rule_priority (?q ! m)"
    using exchange_row [of "length rs" ?r m] ih by auto
  have "sorted_to (Suc m) ?q"
    unfolding sorted_to_def using q(1,3,4) by (auto simp: sorted_to_def less_Suc_eq)
  then show ?case using q by simp
qed

text \<open>
  The rules of a creator are tried in the order of their priority, the highest first: reading them
  returns exactly the stored rules, each once, sorted by descending priority.
\<close>

theorem rules_are_tried_by_priority:
  "mset (get_creator_rules creator s) = mset (unsorted_rules creator s) \<and>
   sorted_wrt (\<lambda>r r'. rule_priority r' \<le> rule_priority r) (get_creator_rules creator s)"
proof -
  let ?rs = "unsorted_rules creator s"
  have "sorted_to (length ?rs) (load_rules creator s) \<and> mset (load_rules creator s) = mset ?rs \<and>
      length (load_rules creator s) = length ?rs"
    using exchange_sort [of "length ?rs" ?rs] by (simp add: load_rules_def Let_def)
  then show ?thesis
    by (auto simp: get_creator_rules_def sorted_to_def sorted_wrt_iff_nth_less)
qed

section \<open>Nothing is distributed\<close>

lemma distribute_nothing:
  "in_i128 n \<Longrightarrow> fst (distribute_programmable_inner e creator n sender depth s) = n \<and>
     pr_balance (snd (distribute_programmable_inner e creator n sender depth s)) = pr_balance s"
  "depth < MAX_NEST_DEPTH \<Longrightarrow> in_i128 distributed \<Longrightarrow>
     fst (distribute_recipients e creator n sender depth i remaining rs distributed s) = distributed \<and>
     pr_balance (snd (distribute_recipients e creator n sender depth i remaining rs distributed s)) = pr_balance s"
proof (induction e creator n sender depth s and e creator n sender depth i remaining rs distributed s
    rule: distribute_programmable_inner_distribute_recipients.induct)
  case (1 e creator n sender depth s)
  let ?s1 = "count_tip creator n s"
  let ?c = "find (\<lambda>rule. rule_enabled rule \<and> all_conditions_met e (rule_conditions rule) n sender creator ?s1) (load_rules creator ?s1)"
  have b: "pr_balance ?s1 = pr_balance s" by (simp add: count_tip_def Let_def)
  show ?case
  proof (cases "n \<le> 0 \<or> depth \<ge> MAX_NEST_DEPTH")
    case True
    then show ?thesis by (subst (1 2) distribute_programmable_inner.simps) simp
  next
    case False
    define d where "d = (case ?c of None \<Rightarrow> (0, ?s1)
       | Some rule \<Rightarrow> distribute_recipients e creator n sender depth (rule_id rule) n
           (zip (rule_recipients rule) (normalize_shares (rule_recipients rule) True)) 0 ?s1)"
    have "fst d = 0 \<and> pr_balance (snd d) = pr_balance s"
      using 1(1) [OF False refl refl] False b by (auto simp: d_def split: option.split)
    then show ?thesis
      using False 1(2)
      by (subst (1 2) distribute_programmable_inner.simps)
        (simp add: Let_def d_def [symmetric] split_beta sub_i128_def)
  qed
next
  case (2 e creator n sender depth i remaining distributed s)
  then show ?case by (simp add: distribute_recipients.simps)
next
  case (3 e creator n sender depth i remaining r share rest distributed s)
  let ?n = "mul_i128 remaining (uint share) sdiv BPS_DENOM"
  let ?s1 = "record_payment creator \<lparr>rp_recipient = dr_recipient r, rp_amount = ?n, rp_timestamp = timestamp e,
      rp_rule_id = i, rp_source_amount = n\<rparr> s"
  have b: "pr_balance ?s1 = pr_balance s" by (simp add: record_payment_def Let_def)
  show ?case
  proof (cases "?n \<le> 0")
    case True
    then show ?thesis using 3(1) 3(5,6) by (simp add: distribute_recipients.simps Let_def)
  next
    case False
    have "in_i128 ?n"
    proof -
      have "?n \<le> mul_i128 remaining (uint share)"
        using False by (intro pos_sdiv_le) (simp_all add: BPS_DENOM_def)
      then show ?thesis using False mul_i128_in [of remaining "uint share"] by (simp add: in_i128_def I128_MIN_def)
    qed
    then have ih: "fst (distribute_programmable_inner e (dr_recipient r) ?n sender (depth + 1) ?s1) = ?n"
        "pr_balance (snd (distribute_programmable_inner e (dr_recipient r) ?n sender (depth + 1) ?s1)) = pr_balance s"
      using 3(2) [OF refl False refl 3(5)] b by auto
    obtain s2 where s2: "distribute_programmable_inner e (dr_recipient r) ?n sender (depth + 1) ?s1 = (?n, s2)"
        "pr_balance s2 = pr_balance s"
      using ih by (metis prod.collapse)
    have "add_i128 distributed (sub_i128 ?n ?n) = distributed" using 3(6) by (simp add: add_i128_def sub_i128_def)
    then show ?thesis
      using 3(3) [OF refl False refl 3(5) s2(1) [symmetric] refl] 3(5,6) False s2
      by (simp add: distribute_recipients.simps Let_def)
  qed
qed

text \<open>
  The programmable royalties never reach anybody: a distribution returns the whole tip as
  undistributed and credits no recipient, whatever the rules, because the branch that credits is reached
  only at a depth at which the function has already returned. What a recipient can withdraw stays as it was.
\<close>

theorem royalties_are_never_credited:
  assumes "in_i128 n" "distribute_programmable_royalties e creator n sender s = (rest, s')"
  shows "rest = n \<and> pr_balance s' = pr_balance s \<and> get_programmable_balance a s' = get_programmable_balance a s"
  using distribute_nothing(1) [OF assms(1), of e creator sender 0 s] assms(2)
  by (simp add: distribute_programmable_royalties_def get_programmable_balance_def)

definition pr_env :: env where
  "pr_env = \<lparr>sequence = 0, timestamp = 9, authorized = (\<lambda>_. True), contract_address = 8,
     new_entry_live = 0, extend_policy = (\<lambda>_ _ l. l), wasm_uploaded = (\<lambda>_. False)\<rparr>"

definition no_royalties :: royalties where
  "no_royalties = \<lparr>pr_rule = Map.empty, pr_creator_rule = Map.empty, pr_counter = None, pr_payment = Map.empty,
     pr_payment_count = Map.empty, pr_tipper_count = Map.empty, pr_total_tips = Map.empty, pr_balance = Map.empty, pr_events = []\<rparr>"

definition one_rule :: "(unit, u64 \<times> royalties) result" where
  "one_rule = create_rule pr_env 1 1 [CondAlways] [\<lparr>dr_recipient = 2, base_bps = 5000, bonus_bps = 0\<rparr>,
     \<lparr>dr_recipient = 3, base_bps = 5000, bonus_bps = 0\<rparr>] 1 no_royalties"

lemma one_rule_pays:
  "(case one_rule of Inl _ \<Rightarrow> False
    | Inr (i, s) \<Rightarrow> get_payment_count 1 (snd (distribute_programmable_royalties pr_env 1 1000 7 s)) = 2)"
  by code_simp

theorem royalties_are_never_credited_witness:
  "\<exists>i s rest s'. one_rule = Inr (i, s) \<and> distribute_programmable_royalties pr_env 1 1000 7 s = (rest, s') \<and>
     get_payment_count 1 s' = 2 \<and> rest = 1000 \<and> get_programmable_balance 2 s' = get_programmable_balance 2 s"
proof -
  obtain i s where s: "one_rule = Inr (i, s)" "get_payment_count 1 (snd (distribute_programmable_royalties pr_env 1 1000 7 s)) = 2"
    using case_ok [OF one_rule_pays] by auto
  obtain rest s' where d: "distribute_programmable_royalties pr_env 1 1000 7 s = (rest, s')" by fastforce
  have "in_i128 1000" by (simp add: in_i128_def I128_MIN_def I128_MAX_def)
  then show ?thesis using royalties_are_never_credited [OF _ d] s d by auto
qed

end
