(* ===== verification/Legacy_Core.thy ===== *)
theory Legacy_Core
  imports Legacy_Guards Legacy_Access Legacy_Reputation Legacy_Royalty
begin

text \<open>
  The state of the superseded tip jar that its tips, withdrawals, credits and insurance share
  (\<^verbatim>\<open>src/contracts/tipjar-legacy/src/lib.rs\<close>), with the helpers all of them call: the accounts of the
  creators and of the platform, the leaderboards, the milestones, and the administration of the
  contract. The extension of the lifetime of storage entries is left out.
\<close>

section \<open>Data\<close>

record credit_config =
  cc_max_credit_ratio_bps :: u32
  cc_interest_rate_bps :: u32
  cc_min_total_tips :: int
  cc_repayment_share_bps :: u32
  cc_enabled :: bool

record credit_account =
  ca_principal :: int
  ca_interest_accrued :: int
  ca_last_update :: u64
  ca_total_borrowed :: int
  ca_total_repaid :: int

record credit_record =
  cd_id :: u64
  cd_amount :: int
  cd_interest_portion :: int
  cd_timestamp :: u64
  cd_is_repayment :: bool

record board_entry =
  be_address :: address
  be_total_amount :: int
  be_tip_count :: u32

datatype participant_kind = TipperKind | CreatorKind

record goal =
  gl_id :: u64
  gl_creator :: address
  gl_goal_amount :: int
  gl_current_amount :: int
  gl_description :: string
  gl_deadline :: "u64 option"
  gl_completed :: bool

record insurance_config =
  ic_min_contribution :: int
  ic_max_contribution :: int
  ic_premium_rate_bps :: u32
  ic_payout_ratio_bps :: u32
  ic_claim_cooldown :: u64
  ic_admin_fee_bps :: u32
  ic_tip_premium_bps :: u32

record insurance_pool =
  ip_token :: address
  ip_total_reserves :: int
  ip_total_contributions :: int
  ip_total_claims_paid :: int
  ip_active_claims :: u32
  ip_total_claims :: u32
  ip_last_payout_time :: u64

datatype claim_status = ClaimPending | ClaimApproved | ClaimRejected | ClaimPaid

record insurance_claim =
  cl_claim_id :: u64
  cl_creator :: address
  cl_token :: address
  cl_amount :: int
  cl_tx_hash :: bytes32
  cl_status :: claim_status
  cl_created_at :: u64
  cl_updated_at :: u64
  cl_last_claim_at :: u64

record withdrawal_limits =
  wl_daily_limit :: int
  wl_cooldown_seconds :: u64
  wl_last_withdrawal :: u64
  wl_withdrawn_today :: int
  wl_day_start :: u64

record delegation_record =
  dg_creator :: address
  dg_delegate :: address
  dg_max_amount :: int
  dg_used_amount :: int
  dg_expires_at :: u64
  dg_active :: bool

record multisig_withdrawal =
  mw_request_id :: u64
  mw_creator :: address
  mw_token :: address
  mw_amount :: int
  mw_approvals :: "address list"
  mw_required_approvals :: u32
  mw_expires_at :: u64
  mw_executed :: bool
  mw_cancelled :: bool

record multisig_config =
  mc_threshold :: int
  mc_required_approvals :: u32
  mc_expiry_seconds :: u64
  mc_signers :: "address list"

record tip_meta =
  tm_sender :: address
  tm_amount :: int
  tm_message :: "string option"
  tm_timestamp :: u64

record batch_stats =
  bs_total_batches :: u64
  bs_total_tips :: u64
  bs_total_amount :: int
  bs_total_skipped :: u64

text \<open>The errors of the enumerations of \<^verbatim>\<open>lib.rs\<close> that these calls raise.\<close>

datatype tipjar_error =
    AlreadyInitialized | TokenNotWhitelisted | InvalidAmount | NothingToWithdraw | MessageTooLong | InvalidGoalAmount
  | Unauthorized | InsufficientBalance | AmountTooSmall | CircuitBreakerTripped | BatchSizeExceeded | BatchTooLarge
  | ContractPaused | FeaturePaused | FeeBpsTooHigh | NoFeesToWithdraw | BelowMinimumTip | BalanceOverflow

datatype feature_error =
    FeeExceedsMaximum | WithdrawalCooldown | DailyLimitExceeded | MsigReqNotFound | MultiSigReqExpired | MultiSigReqClosed
  | NotASigner | AlreadyApproved | MultiSigNotConfigured | DelegationNotFound | DelegationExpired | DelegationInactive
  | DelegationLimitExceeded | InvalidDuration | InvalidPercentage | InvalidPercentageSum | InvalidRecipientCount

datatype other_error =
  CreditDisabled | IneligibleForCredit | CreditLimitExceeded | InsufficientLendingLiquidity | NoActiveCredit

datatype insurance_error =
    InsPoolNotCfg | ContributionTooLow | ContributionTooHigh | NoCoverage | ClaimNotApproved | InsufficientReserves
  | ClaimCooldownActive | TooManyActiveClaims | ClaimNotFound | InsuranceDisabled | PayoutExceedsReserves
  | InvalidClaimAmount | AdmAppReq

datatype core_error =
    TipJarError tipjar_error
  | FeatureError feature_error
  | OtherError other_error
  | InsuranceError insurance_error
  | AccessError access_list_error

text \<open>The events, by the group of calls that emits them.\<close>

datatype admin_event =
    EvMinTip int
  | EvPlatFee u32
  | EvFeeWdrw address int
  | EvPaused address string
  | EvUnpaused address
  | EvFtPaused address pause_scope string
  | EvFtUnpaus address pause_scope
  | EvMsCrt address int

datatype tip_event =
    EvTip u64 u64 address address int address
  | EvFee address address int u32 u64
  | EvMilestone address int int
  | EvCondTip address address address int
  | EvDynFee address int u32
  | EvTipMsg address address int "string option"
  | EvTipSplt address address int u32
  | EvBatchTip address u32 int
  | EvBtpOp address address address int u32
  | EvBtchTip2 address u32 int
  | EvBtpMop address address address int u32
  | EvBtpMulti address u32 u32 int

datatype credit_event =
    EvBorrow address int address
  | EvRepay address int address
  | EvRepayAu address int address

datatype payout_event =
    EvWithdraw address int address u64
  | EvBtchWdr address address int u32
  | EvBatchWdr address u32
  | EvWlSet address int u64
  | EvWlDef int u64
  | EvWlEmrg address int
  | EvDelegate address address int u64
  | EvDelWdr address address int address
  | EvDelRev address address
  | EvMsCfg int u32 u64
  | EvMsReq address u64 int u64
  | EvMsApr address u64
  | EvMsExe address u64 int
  | EvMsCncl address u64

datatype insurance_event =
    EvInsCfg int int u32 u32 u32
  | EvInsEn bool
  | EvInsMax u32
  | EvInsAdm address
  | EvInsCon address address int int
  | EvClmSub u64 address address int
  | EvClmApp u64 address
  | EvClmRej u64 address
  | EvClmPaid u64 int address
  | EvPolWit address int
  | EvClmPro u32 u32

datatype core_event =
    AdminEv admin_event
  | TipEv tip_event
  | CreditEv credit_event
  | PayoutEv payout_event
  | InsuranceEv insurance_event

section \<open>State\<close>

text \<open>
  The accounts. The entries of creators and of the platform that the contract reads in its instance
  storage and under the old fee keys, and never moves, are kept apart.
\<close>

record books =
  bk_balance :: "address \<times> address \<rightharpoonup> int"
  bk_old_balance :: "address \<times> address \<rightharpoonup> int"
  bk_total :: "address \<times> address \<rightharpoonup> int"
  bk_old_total :: "address \<times> address \<rightharpoonup> int"
  bk_fee :: "address \<rightharpoonup> int"
  bk_old_fee :: "address \<rightharpoonup> int"

record credit_book =
  cr_cfg :: "credit_config option"
  cr_acc :: "address \<times> address \<rightharpoonup> credit_account"
  cr_ctr :: "u64 option"
  cr_hst :: "address \<times> address \<rightharpoonup> credit_record list"

record boards =
  bd_tipper_agg :: "address \<times> u32 \<rightharpoonup> board_entry"
  bd_creator_agg :: "address \<times> u32 \<rightharpoonup> board_entry"
  bd_tipper_parts :: "u32 \<rightharpoonup> address list"
  bd_creator_parts :: "u32 \<rightharpoonup> address list"

record goal_book =
  gb_record :: "address \<times> u64 \<rightharpoonup> goal"
  gb_active :: "address \<rightharpoonup> u64 list"
  gb_counter :: "address \<rightharpoonup> u64"

record insurance =
  in_enabled :: "bool option"
  in_cfg :: "insurance_config option"
  in_max :: "u32 option"
  in_admin :: "address option"
  in_pool :: "address \<rightharpoonup> insurance_pool"
  in_contrib :: "address \<times> address \<rightharpoonup> int"
  in_claim :: "u64 \<rightharpoonup> insurance_claim"
  in_ctr :: "u64 option"
  in_claims :: "address \<times> address \<rightharpoonup> u64 list"
  in_active :: "address \<times> address \<rightharpoonup> u32"
  in_total :: "address \<times> address \<rightharpoonup> u32"
  in_last :: "address \<times> address \<rightharpoonup> u64"

record payout_rules =
  po_limits :: "address \<rightharpoonup> withdrawal_limits"
  po_default :: "withdrawal_limits option"
  po_delegation :: "address \<times> address \<rightharpoonup> delegation_record"
  po_delegates :: "address \<rightharpoonup> address list"
  po_delegation_history :: "address \<rightharpoonup> delegation_record list"
  po_msig_cfg :: "multisig_config option"
  po_msig_ctr :: "u64 option"
  po_msig :: "u64 \<rightharpoonup> multisig_withdrawal"

record 'tk core_jar =
  lj_instance :: legacy_instance
  lj_breaker :: breaker
  lj_feature_paused :: "pause_scope \<rightharpoonup> bool"
  lj_admin :: "address option"
  lj_refund_window :: "u64 option"
  lj_version :: "string option"
  lj_deployed_at :: "u64 option"
  lj_min_tip :: "int option"
  lj_fee_bps :: "u32 option"
  lj_old_fee_bps :: "u32 option"
  lj_current_fee_bps :: "u32 option"
  lj_dynamic_fee :: "u32 option"
  lj_access :: access_lists
  lj_reputation :: reputation
  lj_royalties :: royalties
  lj_offchain :: "bytes32 \<rightharpoonup> bool"
  lj_books :: books
  lj_credit :: credit_book
  lj_boards :: boards
  lj_goals :: goal_book
  lj_insurance :: insurance
  lj_payout :: payout_rules
  lj_creator_tokens :: "address \<rightharpoonup> address list"
  lj_tip_ctr :: "u64 option"
  lj_tip_count :: "address \<rightharpoonup> u64"
  lj_tip_history :: "address \<times> u64 \<rightharpoonup> tip_meta"
  lj_batch_stats :: "batch_stats option"
  lj_tokens :: 'tk
  lj_events :: "core_event list"

type_synonym 'a core_result = "(core_error, 'a) result"

section \<open>Accounts\<close>

definition balance_of :: "address \<Rightarrow> address \<Rightarrow> 'tk core_jar \<Rightarrow> int" where
  "balance_of c t s = unwrap_or (bk_balance (lj_books s) (c, t)) 0"

definition total_of :: "address \<Rightarrow> address \<Rightarrow> 'tk core_jar \<Rightarrow> int" where
  "total_of c t s = unwrap_or (bk_total (lj_books s) (c, t)) 0"

definition fee_of :: "address \<Rightarrow> 'tk core_jar \<Rightarrow> int" where
  "fee_of t s = unwrap_or (bk_fee (lj_books s) t) 0"

definition get_withdrawable_balance :: "address \<Rightarrow> address \<Rightarrow> 'tk core_jar \<Rightarrow> int" where
  "get_withdrawable_balance c t s =
     unwrap_or (bk_balance (lj_books s) (c, t)) (unwrap_or (bk_old_balance (lj_books s) (c, t)) 0)"

definition lg_get_total_tips :: "address \<Rightarrow> address \<Rightarrow> 'tk core_jar \<Rightarrow> int" where
  "lg_get_total_tips c t s =
     unwrap_or (bk_total (lj_books s) (c, t)) (unwrap_or (bk_old_total (lj_books s) (c, t)) 0)"

definition set_balance :: "address \<Rightarrow> address \<Rightarrow> int \<Rightarrow> 'tk core_jar \<Rightarrow> 'tk core_jar" where
  "set_balance c t v s = s\<lparr>lj_books := (lj_books s)\<lparr>bk_balance := (bk_balance (lj_books s))((c, t) \<mapsto> v)\<rparr>\<rparr>"

definition set_total :: "address \<Rightarrow> address \<Rightarrow> int \<Rightarrow> 'tk core_jar \<Rightarrow> 'tk core_jar" where
  "set_total c t v s = s\<lparr>lj_books := (lj_books s)\<lparr>bk_total := (bk_total (lj_books s))((c, t) \<mapsto> v)\<rparr>\<rparr>"

definition set_fee_balance :: "address \<Rightarrow> int \<Rightarrow> 'tk core_jar \<Rightarrow> 'tk core_jar" where
  "set_fee_balance t v s = s\<lparr>lj_books := (lj_books s)\<lparr>bk_fee := (bk_fee (lj_books s))(t \<mapsto> v)\<rparr>\<rparr>"

definition bps_of :: "int \<Rightarrow> u32 \<Rightarrow> int" where
  "bps_of amount bps = mul_i128 amount (uint bps) sdiv 10000"

text \<open>A share in basis points is exact as long as the product is in range.\<close>

lemma bps_exact:
  assumes "0 \<le> n" "n * 10000 \<le> I128_MAX" "uint b \<le> 10000"
  shows "bps_of n b = n * uint b div 10000" "0 \<le> bps_of n b" "bps_of n b \<le> n"
proof -
  have b: "0 \<le> n * uint b" "n * uint b \<le> n * 10000" using assms by (auto intro: mult_left_mono)
  then show eq: "bps_of n b = n * uint b div 10000"
    using assms(2) by (simp add: bps_of_def mul_i128_def in_i128_nonneg sdiv_int_nonneg)
  then show "0 \<le> bps_of n b" using b(1) by (simp add: pos_imp_zdiv_nonneg_iff)
  show "bps_of n b \<le> n" using zdiv_mono1 [OF b(2), of 10000] eq by simp
qed

lemma bps_le:
  assumes "0 \<le> n" "n * 10000 \<le> I128_MAX" "uint b \<le> k" "k \<le> 10000"
  shows "10000 * bps_of n b \<le> n * k"
proof -
  have "n * uint b \<le> n * k" using assms by (auto intro: mult_left_mono)
  then show ?thesis using bps_exact(1) [of n b] assms div_round_down [of 10000 "n * uint b"] by simp
qed

definition lj_emit :: "core_event \<Rightarrow> 'tk core_jar \<Rightarrow> 'tk core_jar" where
  "lj_emit ev s = s\<lparr>lj_events := lj_events s @ [ev]\<rparr>"

definition lj_transfer ::
  "'tk transfer_fn \<Rightarrow> address \<Rightarrow> address \<Rightarrow> address \<Rightarrow> int \<Rightarrow> 'tk core_jar \<Rightarrow> 'tk core_jar core_result" where
  "lj_transfer transfer t src dst n s =
     and_then (call_transfer transfer (lj_tokens s) t src dst n) (\<lambda>tk. Inr (s\<lparr>lj_tokens := tk\<rparr>))"

definition admin_only :: "env \<Rightarrow> address \<Rightarrow> 'tk core_jar \<Rightarrow> unit core_result" where
  "admin_only e admin s = breaker_admin (TipJarError Unauthorized) e (lj_admin s) admin"

definition not_paused :: "env \<Rightarrow> 'tk core_jar \<Rightarrow> 'tk core_jar core_result" where
  "not_paused e s = and_then (require_not_paused (TipJarError ContractPaused) e (lj_instance s)) (\<lambda>g. Inr (s\<lparr>lj_instance := g\<rparr>))"

definition feature_not_paused :: "env \<Rightarrow> pause_scope \<Rightarrow> 'tk core_jar \<Rightarrow> 'tk core_jar core_result" where
  "feature_not_paused e scope s =
     and_then (require_feature_not_paused (TipJarError ContractPaused) (TipJarError FeaturePaused) e (lj_feature_paused s) scope (lj_instance s))
       (\<lambda>g. Inr (s\<lparr>lj_instance := g\<rparr>))"

definition breaker_allows :: "env \<Rightarrow> int \<Rightarrow> 'tk core_jar \<Rightarrow> 'tk core_jar core_result" where
  "breaker_allows e n s = and_then (check_circuit_breaker (TipJarError CircuitBreakerTripped) e n (lj_breaker s)) (\<lambda>b. Inr (s\<lparr>lj_breaker := b\<rparr>))"

definition access_allows :: "env \<Rightarrow> address \<Rightarrow> address \<Rightarrow> 'tk core_jar \<Rightarrow> unit core_result" where
  "access_allows e creator sender s =
     (case check_allowed e creator sender (lj_access s) of
        Inl (ContractError x) \<Rightarrow> fail (AccessError x)
      | Inl Unauthenticated \<Rightarrow> Inl Unauthenticated
      | Inl CalleeFailed \<Rightarrow> Inl CalleeFailed
      | Inl Trapped \<Rightarrow> Inl Trapped
      | Inr u \<Rightarrow> Inr u)"

lemmas core_state_defs = balance_of_def total_of_def fee_of_def set_balance_def set_total_def set_fee_balance_def
  lj_emit_def lj_transfer_def

section \<open>Leaderboards\<close>

definition update_aggregate :: "address \<Rightarrow> int \<Rightarrow> u32 \<Rightarrow> participant_kind \<Rightarrow> boards \<Rightarrow> boards" where
  "update_aggregate a amount bucket kind bd =
     (let agg = (case kind of TipperKind \<Rightarrow> bd_tipper_agg bd | CreatorKind \<Rightarrow> bd_creator_agg bd);
          entry = unwrap_or (agg (a, bucket)) \<lparr>be_address = a, be_total_amount = 0, be_tip_count = 0\<rparr>;
          entry = entry\<lparr>be_total_amount := add_i128 (be_total_amount entry) amount, be_tip_count := be_tip_count entry + 1\<rparr>;
          agg' = agg((a, bucket) \<mapsto> entry);
          parts = (case kind of TipperKind \<Rightarrow> bd_tipper_parts bd | CreatorKind \<Rightarrow> bd_creator_parts bd);
          members = unwrap_or (parts bucket) [];
          parts' = (if a \<in> set members then parts else parts(bucket \<mapsto> members @ [a])) in
      case kind of
        TipperKind \<Rightarrow> bd\<lparr>bd_tipper_agg := agg', bd_tipper_parts := parts'\<rparr>
      | CreatorKind \<Rightarrow> bd\<lparr>bd_creator_agg := agg', bd_creator_parts := parts'\<rparr>)"

definition update_leaderboard_stats :: "address \<Rightarrow> address \<Rightarrow> int \<Rightarrow> 'tk core_jar \<Rightarrow> 'tk core_jar" where
  "update_leaderboard_stats tipper creator amount s =
     s\<lparr>lj_boards := update_aggregate creator amount 0 CreatorKind (update_aggregate tipper amount 0 TipperKind (lj_boards s))\<rparr>"

text \<open>
  The leaderboard is built by repeated scans for the best entry not yet taken. An entry below zero is
  never taken; a scan that takes nothing leaves the rest of the loop to take nothing.
\<close>

fun best_index :: "board_entry list \<Rightarrow> nat list \<Rightarrow> nat \<Rightarrow> nat option \<Rightarrow> int \<Rightarrow> nat option" where
  "best_index [] used i best amt = best"
| "best_index (x # xs) used i best amt =
     (if i \<in> set used then best_index xs used (i + 1) best amt
      else if be_total_amount x > amt then best_index xs used (i + 1) (Some i) (be_total_amount x)
      else best_index xs used (i + 1) best amt)"

fun top_loop :: "nat \<Rightarrow> board_entry list \<Rightarrow> nat list \<Rightarrow> board_entry list \<Rightarrow> board_entry list" where
  "top_loop 0 entries used result = result"
| "top_loop (Suc k) entries used result =
     (if length used = length entries then result
      else case best_index entries used 0 None (- 1) of
        None \<Rightarrow> top_loop k entries used result
      | Some i \<Rightarrow> top_loop k entries (used @ [i]) (result @ [entries ! i]))"

definition get_leaderboard :: "participant_kind \<Rightarrow> u32 \<Rightarrow> 'tk core_jar \<Rightarrow> board_entry list" where
  "get_leaderboard kind limit s =
     (let bd = lj_boards s;
          parts = (case kind of TipperKind \<Rightarrow> bd_tipper_parts bd | CreatorKind \<Rightarrow> bd_creator_parts bd);
          agg = (case kind of TipperKind \<Rightarrow> bd_tipper_agg bd | CreatorKind \<Rightarrow> bd_creator_agg bd);
          participants = unwrap_or (parts 0) [];
          cap = (if limit > 100 then 100 else limit);
          entries = List.map_filter (\<lambda>a. agg (a, 0)) participants in
      top_loop (unat cap) entries [] [])"

section \<open>Tokens and milestones of a creator\<close>

definition track_creator_token :: "address \<Rightarrow> address \<Rightarrow> 'tk core_jar \<Rightarrow> 'tk core_jar" where
  "track_creator_token creator t s =
     (let tokens = unwrap_or (lj_creator_tokens s creator) [] in
      if t \<in> set tokens then s else s\<lparr>lj_creator_tokens := (lj_creator_tokens s)(creator \<mapsto> tokens @ [t])\<rparr>)"

definition get_creator_milestones :: "address \<Rightarrow> 'tk core_jar \<Rightarrow> goal list" where
  "get_creator_milestones creator s =
     List.map_filter (\<lambda>i. gb_record (lj_goals s) (creator, i)) (unwrap_or (gb_active (lj_goals s) creator) [])"

text \<open>The rewards are credited under the position of the milestone in the list.\<close>

fun award_loop :: "address \<Rightarrow> address \<Rightarrow> int \<Rightarrow> u64 \<Rightarrow> goal list \<Rightarrow> 'tk core_jar \<Rightarrow> 'tk core_jar core_result" where
  "award_loop creator t new_total idx [] s = Inr s"
| "award_loop creator t new_total idx (m # ms) s =
     (if \<not> gl_completed m \<and> new_total \<ge> gl_goal_amount m then
        let reward = mul_i128 (gl_goal_amount m) 5 sdiv 100 in
        (case checked_add_i128 (balance_of creator t s) reward of
           None \<Rightarrow> Inl Trapped
         | Some new_bal \<Rightarrow>
             let s1 = set_balance creator t new_bal s;
                 s2 = s1\<lparr>lj_goals := (lj_goals s1)\<lparr>gb_record :=
                        (gb_record (lj_goals s1))((creator, idx) \<mapsto> m\<lparr>gl_completed := True\<rparr>)\<rparr>\<rparr> in
             award_loop creator t new_total (idx + 1) ms (lj_emit (TipEv (EvMilestone creator (gl_goal_amount m) reward)) s2))
      else award_loop creator t new_total (idx + 1) ms s)"

definition check_and_award_milestones :: "address \<Rightarrow> address \<Rightarrow> int \<Rightarrow> 'tk core_jar \<Rightarrow> 'tk core_jar core_result" where
  "check_and_award_milestones creator t new_total s =
     award_loop creator t new_total 0 (get_creator_milestones creator s) s"

definition create_milestone :: "env \<Rightarrow> address \<Rightarrow> address \<Rightarrow> int \<Rightarrow> string \<Rightarrow> 'tk core_jar \<Rightarrow> (u64 \<times> 'tk core_jar) core_result" where
  "create_milestone e admin creator goal_amount description s =
     and_then (admin_only e admin s) (\<lambda>_.
     if goal_amount \<le> 0 then fail (TipJarError InvalidGoalAmount)
     else
     let gb = lj_goals s;
         i = unwrap_or (gb_counter gb creator) 0;
         m = \<lparr>gl_id = i, gl_creator = creator, gl_goal_amount = goal_amount, gl_current_amount = 0,
              gl_description = description, gl_deadline = None, gl_completed = False\<rparr>;
         gb' = gb\<lparr>gb_record := (gb_record gb)((creator, i) \<mapsto> m), gb_counter := (gb_counter gb)(creator \<mapsto> i + 1),
              gb_active := (gb_active gb)(creator \<mapsto> unwrap_or (gb_active gb creator) [] @ [i])\<rparr> in
     Inr (i, lj_emit (AdminEv (EvMsCrt creator goal_amount)) (s\<lparr>lj_goals := gb'\<rparr>)))"

section \<open>Administration\<close>

definition MAX_PLATFORM_FEE_BPS :: u32 where "MAX_PLATFORM_FEE_BPS = 1000"

definition CONTRACT_VERSION :: string where "CONTRACT_VERSION = ''0.1.0''"

definition lg_init :: "env \<Rightarrow> address \<Rightarrow> 'tk core_jar \<Rightarrow> 'tk core_jar core_result" where
  "lg_init e admin s =
     (if lj_admin s \<noteq> None then fail (TipJarError AlreadyInitialized)
      else Inr (s\<lparr>lj_admin := Some admin, lj_fee_bps := Some 0, lj_refund_window := Some 0, lj_min_tip := Some 10000,
        lj_version := Some CONTRACT_VERSION, lj_deployed_at := Some (timestamp e)\<rparr>))"

definition lg_add_token :: "env \<Rightarrow> address \<Rightarrow> address \<Rightarrow> 'tk core_jar \<Rightarrow> 'tk core_jar core_result" where
  "lg_add_token e admin t s = and_then (admin_only e admin s) (\<lambda>_.
     Inr (s\<lparr>lj_instance := (lj_instance s)\<lparr>lg_token_whitelist := (lg_token_whitelist (lj_instance s))(t \<mapsto> True)\<rparr>\<rparr>))"

definition lg_remove_token :: "env \<Rightarrow> address \<Rightarrow> address \<Rightarrow> 'tk core_jar \<Rightarrow> 'tk core_jar core_result" where
  "lg_remove_token e admin t s = and_then (admin_only e admin s) (\<lambda>_.
     Inr (s\<lparr>lj_instance := (lj_instance s)\<lparr>lg_token_whitelist := (lg_token_whitelist (lj_instance s))(t \<mapsto> False)\<rparr>\<rparr>))"

definition set_min_tip :: "env \<Rightarrow> address \<Rightarrow> int \<Rightarrow> 'tk core_jar \<Rightarrow> 'tk core_jar core_result" where
  "set_min_tip e admin amount s = and_then (admin_only e admin s) (\<lambda>_.
     if amount \<le> 0 then fail (TipJarError InvalidAmount)
     else Inr (lj_emit (AdminEv (EvMinTip amount)) (s\<lparr>lj_min_tip := Some amount\<rparr>)))"

definition set_fee_bps :: "env \<Rightarrow> address \<Rightarrow> u32 \<Rightarrow> 'tk core_jar \<Rightarrow> 'tk core_jar core_result" where
  "set_fee_bps e admin fee_bps s = and_then (admin_only e admin s) (\<lambda>_.
     if fee_bps > MAX_PLATFORM_FEE_BPS then fail (TipJarError FeeBpsTooHigh)
     else Inr (lj_emit (AdminEv (EvPlatFee fee_bps)) (s\<lparr>lj_fee_bps := Some fee_bps\<rparr>)))"

definition lg_withdraw_fees ::
  "'tk transfer_fn \<Rightarrow> env \<Rightarrow> address \<Rightarrow> address \<Rightarrow> 'tk core_jar \<Rightarrow> (int \<times> 'tk core_jar) core_result" where
  "lg_withdraw_fees transfer e admin t s = and_then (admin_only e admin s) (\<lambda>_.
     let amount = fee_of t s in
     if amount \<le> 0 then fail (TipJarError NoFeesToWithdraw)
     else
     and_then (lj_transfer transfer t (contract_address e) admin amount (set_fee_balance t 0 s)) (\<lambda>s1.
     Inr (amount, lj_emit (AdminEv (EvFeeWdrw t amount)) s1)))"

definition lg_pause :: "env \<Rightarrow> address \<Rightarrow> string \<Rightarrow> 'tk core_jar \<Rightarrow> 'tk core_jar core_result" where
  "lg_pause e admin reason s = and_then (admin_only e admin s) (\<lambda>_.
     Inr (lj_emit (AdminEv (EvPaused admin reason))
       (s\<lparr>lj_instance := (lj_instance s)\<lparr>lg_paused := Some True, lg_pause_reason := Some reason\<rparr>\<rparr>)))"

definition lg_unpause :: "env \<Rightarrow> address \<Rightarrow> 'tk core_jar \<Rightarrow> 'tk core_jar core_result" where
  "lg_unpause e admin s = and_then (admin_only e admin s) (\<lambda>_.
     Inr (lj_emit (AdminEv (EvUnpaused admin))
       (s\<lparr>lj_instance := (lj_instance s)\<lparr>lg_paused := Some False, lg_pause_reason := None\<rparr>\<rparr>)))"

definition pause_feature :: "env \<Rightarrow> address \<Rightarrow> pause_scope \<Rightarrow> string \<Rightarrow> 'tk core_jar \<Rightarrow> 'tk core_jar core_result" where
  "pause_feature e admin scope reason s = and_then (admin_only e admin s) (\<lambda>_.
     Inr (lj_emit (AdminEv (EvFtPaused admin scope reason)) (s\<lparr>lj_feature_paused := (lj_feature_paused s)(scope \<mapsto> True)\<rparr>)))"

definition unpause_feature :: "env \<Rightarrow> address \<Rightarrow> pause_scope \<Rightarrow> 'tk core_jar \<Rightarrow> 'tk core_jar core_result" where
  "unpause_feature e admin scope s = and_then (admin_only e admin s) (\<lambda>_.
     Inr (lj_emit (AdminEv (EvFtUnpaus admin scope)) (s\<lparr>lj_feature_paused := (lj_feature_paused s)(scope := None)\<rparr>)))"

end
