(* ===== verification/Legacy_Credit.thy ===== *)
theory Legacy_Credit
  imports Legacy_Core
begin

text \<open>
  The credit facility of the superseded tip jar (\<^verbatim>\<open>accrue_interest\<close> to \<^verbatim>\<open>record_credit_event\<close> and
  \<^verbatim>\<open>set_credit_config\<close> to \<^verbatim>\<open>get_credit_history\<close> of \<^verbatim>\<open>src/contracts/tipjar-legacy/src/lib.rs\<close>): a creator
  borrows from the platform fees against its past tips, and a share of every later tip repays the debt,
  interest first.
\<close>

section \<open>Operations\<close>

definition accrue_interest :: "env \<Rightarrow> credit_config \<Rightarrow> credit_account \<Rightarrow> credit_account" where
  "accrue_interest e cfg acc =
     (let now = timestamp e;
          elapsed = sat_sub_u64 now (ca_last_update acc) in
      if elapsed = 0 \<or> ca_principal acc = 0 then acc
      else
      let interest = mul_i128 (mul_i128 (ca_principal acc) (uint (cc_interest_rate_bps cfg))) (uint elapsed)
                       sdiv (10000 * 30 * 24 * 3600) in
      acc\<lparr>ca_interest_accrued := sat_i128 (ca_interest_accrued acc + interest), ca_last_update := now\<rparr>)"

definition record_credit_event :: "env \<Rightarrow> address \<Rightarrow> address \<Rightarrow> int \<Rightarrow> int \<Rightarrow> bool \<Rightarrow> credit_book \<Rightarrow> credit_book" where
  "record_credit_event e creator t amount interest_portion is_repayment cb =
     (let i = unwrap_or (cr_ctr cb) 0;
          r = \<lparr>cd_id = i, cd_amount = amount, cd_interest_portion = interest_portion, cd_timestamp = timestamp e,
               cd_is_repayment = is_repayment\<rparr>;
          history = unwrap_or (cr_hst cb (creator, t)) [];
          history = (if length history \<ge> 50 then tl history else history) in
      cb\<lparr>cr_ctr := Some (i + 1), cr_hst := (cr_hst cb)((creator, t) \<mapsto> history @ [r])\<rparr>)"

definition debt :: "credit_account \<Rightarrow> int" where
  "debt acc = add_i128 (ca_principal acc) (ca_interest_accrued acc)"

text \<open>A payment goes to the interest first. The result is the part that paid interest, and the account.\<close>

definition pay_debt :: "env \<Rightarrow> int \<Rightarrow> credit_account \<Rightarrow> int \<times> credit_account" where
  "pay_debt e n acc =
     (let (interest_paid, acc1) =
        (if n \<le> ca_interest_accrued acc
         then (n, acc\<lparr>ca_interest_accrued := sub_i128 (ca_interest_accrued acc) n\<rparr>)
         else let interest_paid = ca_interest_accrued acc;
                  principal_paid = sub_i128 n interest_paid in
              (interest_paid, acc\<lparr>ca_interest_accrued := 0, ca_principal := sub_i128 (ca_principal acc) principal_paid\<rparr>)) in
      (interest_paid, acc1\<lparr>ca_total_repaid := add_i128 (ca_total_repaid acc1) n, ca_last_update := timestamp e\<rparr>))"

definition put_account :: "address \<Rightarrow> address \<Rightarrow> credit_account \<Rightarrow> 'tk core_jar \<Rightarrow> 'tk core_jar" where
  "put_account creator t acc s =
     s\<lparr>lj_credit := (lj_credit s)\<lparr>cr_acc := (cr_acc (lj_credit s))((creator, t) \<mapsto> acc)\<rparr>\<rparr>"

definition log_credit :: "env \<Rightarrow> address \<Rightarrow> address \<Rightarrow> int \<Rightarrow> int \<Rightarrow> bool \<Rightarrow> 'tk core_jar \<Rightarrow> 'tk core_jar" where
  "log_credit e creator t amount interest_portion is_repayment s =
     s\<lparr>lj_credit := record_credit_event e creator t amount interest_portion is_repayment (lj_credit s)\<rparr>"

definition process_repayment :: "env \<Rightarrow> address \<Rightarrow> address \<Rightarrow> int \<Rightarrow> 'tk core_jar \<Rightarrow> int \<times> 'tk core_jar" where
  "process_repayment e creator t amount_to_credit s =
     (case cr_cfg (lj_credit s) of
        None \<Rightarrow> (amount_to_credit, s)
      | Some cfg \<Rightarrow>
          if \<not> cc_enabled cfg then (amount_to_credit, s)
          else case cr_acc (lj_credit s) (creator, t) of
            None \<Rightarrow> (amount_to_credit, s)
          | Some acc0 \<Rightarrow>
              if ca_principal acc0 = 0 \<and> ca_interest_accrued acc0 = 0 then (amount_to_credit, s)
              else
              let acc = accrue_interest e cfg acc0;
                  repayment_share = bps_of amount_to_credit (cc_repayment_share_bps cfg);
                  total_debt = debt acc;
                  actual_repayment = (if repayment_share > total_debt then total_debt else repayment_share) in
              if actual_repayment = 0 then (amount_to_credit, s)
              else
              let (interest_paid, acc1) = pay_debt e actual_repayment acc;
                  s1 = put_account creator t acc1 s;
                  s2 = set_fee_balance t (add_i128 (fee_of t s1) actual_repayment) s1;
                  s3 = log_credit e creator t actual_repayment interest_paid True s2;
                  s4 = lj_emit (CreditEv (EvRepayAu creator actual_repayment t)) s3 in
              (sub_i128 amount_to_credit actual_repayment, s4))"

definition set_credit_config :: "env \<Rightarrow> address \<Rightarrow> credit_config \<Rightarrow> 'tk core_jar \<Rightarrow> 'tk core_jar core_result" where
  "set_credit_config e admin cfg s = and_then (admin_only e admin s) (\<lambda>_.
     Inr (s\<lparr>lj_credit := (lj_credit s)\<lparr>cr_cfg := Some cfg\<rparr>\<rparr>))"

definition get_credit_limit :: "address \<Rightarrow> address \<Rightarrow> 'tk core_jar \<Rightarrow> int" where
  "get_credit_limit creator t s =
     (case cr_cfg (lj_credit s) of
        None \<Rightarrow> 0
      | Some cfg \<Rightarrow>
          if \<not> cc_enabled cfg then 0
          else if total_of creator t s < cc_min_total_tips cfg then 0
          else bps_of (total_of creator t s) (cc_max_credit_ratio_bps cfg))"

definition borrow :: "env \<Rightarrow> address \<Rightarrow> address \<Rightarrow> int \<Rightarrow> 'tk core_jar \<Rightarrow> 'tk core_jar core_result" where
  "borrow e creator t amount s0 =
     and_then (not_paused e s0) (\<lambda>s.
     and_then (require_auth e creator) (\<lambda>_.
     and_then (ok_or (OtherError CreditDisabled) (cr_cfg (lj_credit s))) (\<lambda>cfg.
     if \<not> cc_enabled cfg then fail (OtherError CreditDisabled)
     else if amount \<le> 0 then fail (TipJarError InvalidAmount)
     else if total_of creator t s < cc_min_total_tips cfg then fail (OtherError IneligibleForCredit)
     else
     let limit = bps_of (total_of creator t s) (cc_max_credit_ratio_bps cfg);
         acc0 = unwrap_or (cr_acc (lj_credit s) (creator, t))
                  \<lparr>ca_principal = 0, ca_interest_accrued = 0, ca_last_update = timestamp e, ca_total_borrowed = 0,
                   ca_total_repaid = 0\<rparr>;
         acc = accrue_interest e cfg acc0 in
     if add_i128 (debt acc) amount > limit then fail (OtherError CreditLimitExceeded)
     else if fee_of t s < amount then fail (OtherError InsufficientLendingLiquidity)
     else
     let s1 = set_fee_balance t (sub_i128 (fee_of t s) amount) s;
         s2 = set_balance creator t (add_i128 (balance_of creator t s1) amount) s1;
         acc1 = acc\<lparr>ca_principal := add_i128 (ca_principal acc) amount, ca_total_borrowed := add_i128 (ca_total_borrowed acc) amount,
                  ca_last_update := timestamp e\<rparr>;
         s3 = log_credit e creator t amount 0 False (put_account creator t acc1 s2) in
     Inr (lj_emit (CreditEv (EvBorrow creator amount t)) s3))))"

definition repay_credit :: "env \<Rightarrow> address \<Rightarrow> address \<Rightarrow> int \<Rightarrow> 'tk core_jar \<Rightarrow> 'tk core_jar core_result" where
  "repay_credit e creator t amount s0 =
     and_then (not_paused e s0) (\<lambda>s.
     and_then (require_auth e creator) (\<lambda>_.
     if amount \<le> 0 then fail (TipJarError InvalidAmount)
     else
     and_then (ok_or (OtherError NoActiveCredit) (cr_acc (lj_credit s) (creator, t))) (\<lambda>acc0.
     case cr_cfg (lj_credit s) of
       None \<Rightarrow> Inl Trapped
     | Some cfg \<Rightarrow>
         let acc = accrue_interest e cfg acc0; bal = balance_of creator t s in
         if bal < amount then fail (TipJarError InsufficientBalance)
         else
         let total_debt = debt acc;
             actual_repayment = (if amount > total_debt then total_debt else amount) in
         if actual_repayment = 0 then Inr s
         else
         let s1 = set_balance creator t (sub_i128 bal actual_repayment) s;
             (interest_paid, acc1) = pay_debt e actual_repayment acc;
             s2 = put_account creator t acc1 s1;
             s3 = set_fee_balance t (add_i128 (fee_of t s2) actual_repayment) s2;
             s4 = log_credit e creator t actual_repayment interest_paid True s3 in
         Inr (lj_emit (CreditEv (EvRepay creator actual_repayment t)) s4))))"

definition get_credit_history :: "address \<Rightarrow> address \<Rightarrow> 'tk core_jar \<Rightarrow> credit_record list" where
  "get_credit_history creator t s = unwrap_or (cr_hst (lj_credit s) (creator, t)) []"

section \<open>Accounts in range\<close>

text \<open>
  The interest is computed with products that wrap around. They are exact for principals up to
  \<open>2^73\<close> units, rates up to 10000 basis points in 30 days and a clock below \<open>2^40\<close> seconds: the interest
  of an account is then at most what its largest principal would have borne since the beginning of time.
\<close>

definition PRINCIPAL_CAP :: int where "PRINCIPAL_CAP = 2 ^ 73"

definition account_ok :: "u64 \<Rightarrow> credit_account \<Rightarrow> bool" where
  "account_ok now acc \<longleftrightarrow> 0 \<le> ca_principal acc \<and> ca_principal acc \<le> PRINCIPAL_CAP \<and> 0 \<le> ca_interest_accrued acc \<and>
     ca_interest_accrued acc * 2592000 \<le> PRINCIPAL_CAP * uint (ca_last_update acc) \<and> ca_last_update acc \<le> now"

definition credit_config_ok :: "credit_config \<Rightarrow> bool" where
  "credit_config_ok cfg \<longleftrightarrow> uint (cc_interest_rate_bps cfg) \<le> 10000 \<and> uint (cc_repayment_share_bps cfg) \<le> 10000"

definition credit_ok :: "u64 \<Rightarrow> 'tk core_jar \<Rightarrow> bool" where
  "credit_ok now s \<longleftrightarrow> (\<forall>k acc. cr_acc (lj_credit s) k = Some acc \<longrightarrow> account_ok now acc) \<and>
     (\<forall>cfg. cr_cfg (lj_credit s) = Some cfg \<longrightarrow> credit_config_ok cfg)"

definition clock_ok :: "env \<Rightarrow> bool" where
  "clock_ok e \<longleftrightarrow> uint (timestamp e) < 2 ^ 40"

lemma interest_bound:
  assumes "0 \<le> p" "p \<le> P" "0 \<le> r" "r \<le> 10000" "0 \<le> (d::int)"
  shows "(p * r * d) div 25920000000 * 2592000 \<le> P * d"
proof -
  have "p * r * d \<le> P * 10000 * d" using assms by (intro mult_mono) auto
  moreover have "25920000000 * ((p * r * d) div 25920000000) \<le> p * r * d" by (rule div_round_down) simp
  ultimately show ?thesis by (simp add: algebra_simps)
qed

lemma interest_exact:
  assumes "0 \<le> p" "p \<le> PRINCIPAL_CAP" "0 \<le> r" "r \<le> 10000" "0 \<le> d" "d < 2 ^ 40"
  shows "mul_i128 (mul_i128 p r) d = p * r * d"
proof -
  have a: "0 \<le> p * r" "p * r \<le> 2 ^ 73 * 10000"
    using assms mult_mono [of p "2 ^ 73" r 10000] by (simp_all add: PRINCIPAL_CAP_def)
  have b: "0 \<le> p * r * d" "p * r * d \<le> (2 ^ 73 * 10000) * 2 ^ 40"
    using assms(5,6) a mult_mono [of "p * r" "2 ^ 73 * 10000" d "2 ^ 40"] by simp_all
  have "in_i128 (p * r)" using a by (simp add: in_i128_def I128_MAX_def I128_MIN_def)
  moreover have "in_i128 (p * r * d)" using b by (simp add: in_i128_def I128_MAX_def I128_MIN_def)
  ultimately show ?thesis by (simp add: mul_i128_def)
qed

lemma interest_small:
  assumes "account_ok now acc" "uint now < 2 ^ 40"
  shows "ca_interest_accrued acc \<le> 2 ^ 100"
proof -
  have "uint (ca_last_update acc) < 2 ^ 40" using assms by (auto simp: account_ok_def word_le_def)
  then have "PRINCIPAL_CAP * uint (ca_last_update acc) \<le> 2 ^ 73 * 2 ^ 40" by (auto simp: PRINCIPAL_CAP_def intro: mult_mono)
  then show ?thesis using assms(1) by (simp add: account_ok_def)
qed

lemma accrue_interest_ok:
  assumes ok: "account_ok now acc" and t: "now \<le> timestamp e" "clock_ok e" and r: "credit_config_ok cfg"
  shows "account_ok (timestamp e) (accrue_interest e cfg acc)" "ca_principal (accrue_interest e cfg acc) = ca_principal acc"
    and "ca_interest_accrued acc \<le> ca_interest_accrued (accrue_interest e cfg acc)"
proof -
  let ?p = "ca_principal acc" and ?r = "uint (cc_interest_rate_bps cfg)" and ?l = "ca_last_update acc"
  let ?d = "uint (timestamp e) - uint ?l" and ?i = "ca_interest_accrued acc"
  have l: "uint ?l \<le> uint now" "uint now \<le> uint (timestamp e)" using ok t(1) by (auto simp: account_ok_def word_le_def)
  have d: "uint (sat_sub_u64 (timestamp e) ?l) = ?d"
    using l by (simp add: sat_sub_u64_def word_le_def not_less uint_sub_if' word_less_def)
  have in_range: "0 \<le> ?d" "?d < 2 ^ 40" using l t(2) by (auto simp: clock_ok_def intro: le_less_trans [of _ "uint (timestamp e)"])
  have r': "0 \<le> ?r" "?r \<le> 10000" using r by (auto simp: credit_config_ok_def)
  have p: "0 \<le> ?p" "?p \<le> PRINCIPAL_CAP" using ok by (auto simp: account_ok_def)
  let ?q = "(?p * ?r * ?d) div 25920000000"
  have q: "mul_i128 (mul_i128 ?p ?r) ?d sdiv 25920000000 = ?q" "0 \<le> ?q"
    using interest_exact [OF p r' in_range] p(1) r'(1) in_range(1)
    by (simp_all add: sdiv_int_nonneg pos_imp_zdiv_nonneg_iff)
  have b: "?q * 2592000 \<le> PRINCIPAL_CAP * ?d" by (rule interest_bound [OF p r' in_range(1)])
  then have tot: "(?i + ?q) * 2592000 \<le> PRINCIPAL_CAP * uint (timestamp e)" using ok by (simp add: account_ok_def algebra_simps)
  have "?i + ?q \<le> 2 ^ 100"
  proof -
    have "PRINCIPAL_CAP * uint (timestamp e) \<le> 2 ^ 73 * 2 ^ 40"
      using t(2) by (auto simp: PRINCIPAL_CAP_def clock_ok_def intro: mult_mono)
    then show ?thesis using tot by simp
  qed
  then have s: "sat_i128 (?i + ?q) = ?i + ?q"
    using ok q(2) by (simp add: account_ok_def in_i128_def I128_MAX_def I128_MIN_def)
  show "account_ok (timestamp e) (accrue_interest e cfg acc)" "ca_principal (accrue_interest e cfg acc) = ca_principal acc"
      "ca_interest_accrued acc \<le> ca_interest_accrued (accrue_interest e cfg acc)"
    using ok t(1) q s tot d by (auto simp: accrue_interest_def account_ok_def Let_def)
qed

lemma debt_exact:
  assumes "account_ok now acc" "uint now < 2 ^ 40"
  shows "debt acc = ca_principal acc + ca_interest_accrued acc" "0 \<le> debt acc"
proof -
  have "in_i128 (ca_principal acc + ca_interest_accrued acc)"
    using interest_small [OF assms] assms(1)
    by (simp add: account_ok_def PRINCIPAL_CAP_def in_i128_def I128_MAX_def I128_MIN_def)
  then show "debt acc = ca_principal acc + ca_interest_accrued acc" "0 \<le> debt acc"
    using assms(1) by (simp_all add: debt_def add_i128_exact account_ok_def)
qed

lemma pay_debt_ok:
  assumes "account_ok (timestamp e) acc" "clock_ok e" "0 \<le> n" "n \<le> debt acc" "pay_debt e n acc = (i, acc')"
  shows "account_ok (timestamp e) acc'" "debt acc' = debt acc - n" "0 \<le> i" "i \<le> n"
proof -
  have c: "uint (timestamp e) < 2 ^ 40" using assms(2) by (simp add: clock_ok_def)
  note d = debt_exact [OF assms(1) c]
  have b: "0 \<le> ca_principal acc" "0 \<le> ca_interest_accrued acc" "ca_principal acc \<le> PRINCIPAL_CAP"
      "ca_last_update acc \<le> timestamp e" "ca_interest_accrued acc * 2592000 \<le> PRINCIPAL_CAP * uint (ca_last_update acc)"
    using assms(1) by (auto simp: account_ok_def)
  have later: "PRINCIPAL_CAP * uint (ca_last_update acc) \<le> PRINCIPAL_CAP * uint (timestamp e)"
    using b(4) by (auto simp: PRINCIPAL_CAP_def word_le_def)
  have n: "n \<le> ca_principal acc + ca_interest_accrued acc" using assms(4) d(1) by simp
  have ex: "sub_i128 x y = x - y" if "0 \<le> x - y" "x \<le> 2 ^ 110" "0 \<le> y" for x y
    using that by (simp add: sub_i128_def in_i128_def I128_MAX_def I128_MIN_def)
  have small: "ca_interest_accrued acc \<le> 2 ^ 100" "ca_principal acc \<le> 2 ^ 100" "n \<le> 2 ^ 110"
    using interest_small [OF assms(1) c] b(3) n by (simp_all add: PRINCIPAL_CAP_def)
  have acc': "ca_last_update acc' = timestamp e \<and> 0 \<le> i \<and> i \<le> n \<and>
      0 \<le> ca_interest_accrued acc' \<and> ca_interest_accrued acc' \<le> ca_interest_accrued acc \<and>
      0 \<le> ca_principal acc' \<and> ca_principal acc' \<le> ca_principal acc \<and>
      ca_principal acc' + ca_interest_accrued acc' = ca_principal acc + ca_interest_accrued acc - n"
  proof (cases "n \<le> ca_interest_accrued acc")
    case True
    then show ?thesis using assms(3,5) b ex [of "ca_interest_accrued acc" n] small by (auto simp: pay_debt_def)
  next
    case False
    have "sub_i128 n (ca_interest_accrued acc) = n - ca_interest_accrued acc" using False b small by (intro ex) auto
    then show ?thesis
      using False assms(3,5) b small n ex [of "ca_principal acc" "n - ca_interest_accrued acc"] by (auto simp: pay_debt_def Let_def)
  qed
  show ok: "account_ok (timestamp e) acc'" using acc' b later by (auto simp: account_ok_def)
  show "debt acc' = debt acc - n" using debt_exact(1) [OF ok c] d acc' by simp
  show "0 \<le> i" "i \<le> n" using acc' by auto
qed

lemma credit_ok_mono: "credit_ok now s \<Longrightarrow> now \<le> now' \<Longrightarrow> credit_ok now' s"
  by (fastforce simp: credit_ok_def account_ok_def)

lemma credit_ok_cong: "lj_credit s' = lj_credit s \<Longrightarrow> credit_ok now s' = credit_ok now s"
  by (simp add: credit_ok_def)

lemma credit_ok_put:
  assumes "credit_ok now s" "account_ok now acc" "cr_acc cb = (cr_acc (lj_credit s))(k \<mapsto> acc)" "cr_cfg cb = cr_cfg (lj_credit s)"
    and "lj_credit s' = cb"
  shows "credit_ok now s'"
  using assms by (auto simp: credit_ok_def)

lemma record_credit_event_frame [simp]:
  "cr_acc (record_credit_event e c t n i b cb) = cr_acc cb" "cr_cfg (record_credit_event e c t n i b cb) = cr_cfg cb"
  by (simp_all add: record_credit_event_def Let_def)

text \<open>
  The states that a repayment can lead to: only the fee account of the token, the credit book and the
  events differ.
\<close>

definition repaid_state :: "address \<Rightarrow> int \<Rightarrow> 'tk core_jar \<Rightarrow> 'tk core_jar \<Rightarrow> bool" where
  "repaid_state t r s s' \<longleftrightarrow> (\<exists>bf cb ev. s' = s\<lparr>lj_books := (lj_books s)\<lparr>bk_fee := bf\<rparr>, lj_credit := cb, lj_events := ev\<rparr> \<and>
     unwrap_or (bf t) 0 = fee_of t s + r \<and> (\<forall>t'. t' \<noteq> t \<longrightarrow> bf t' = bk_fee (lj_books s) t'))"

lemma repaid_stateI:
  "s' = s\<lparr>lj_books := (lj_books s)\<lparr>bk_fee := bf\<rparr>, lj_credit := cb, lj_events := ev\<rparr> \<Longrightarrow>
   unwrap_or (bf t) 0 = fee_of t s + r \<Longrightarrow> (\<And>t'. t' \<noteq> t \<Longrightarrow> bf t' = bk_fee (lj_books s) t') \<Longrightarrow> repaid_state t r s s'"
  unfolding repaid_state_def by blast

lemma repaid_state_refl [simp]: "repaid_state t 0 s s"
  unfolding repaid_state_def
  by (intro exI [of _ "bk_fee (lj_books s)"] exI [of _ "lj_credit s"] exI [of _ "lj_events s"]) (simp add: fee_of_def)

lemma process_repayment_spec:
  assumes ok: "credit_ok now s" "now \<le> timestamp e" "clock_ok e"
    and n: "0 \<le> n" "n * 10000 \<le> I128_MAX" "0 \<le> fee_of t s" "fee_of t s + n \<le> I128_MAX"
    and run: "process_repayment e c t n s = (net, s')"
  shows "\<exists>r. 0 \<le> r \<and> r \<le> n \<and> net = n - r \<and> repaid_state t r s s'" "credit_ok (timestamp e) s'"
proof -
  have ok': "credit_ok (timestamp e) s" using credit_ok_mono [OF ok(1,2)] .
  have c: "uint (timestamp e) < 2 ^ 40" using ok(3) by (simp add: clock_ok_def)
  consider (id) "net = n" "s' = s"
    | (paid) cfg acc0 where "cr_cfg (lj_credit s) = Some cfg" "cr_acc (lj_credit s) (c, t) = Some acc0"
  proof (cases "cr_cfg (lj_credit s)"; cases "cr_acc (lj_credit s) (c, t)")
  qed (use run in \<open>auto simp: process_repayment_def split: if_splits\<close>)
  then have "(\<exists>r. 0 \<le> r \<and> r \<le> n \<and> net = n - r \<and> repaid_state t r s s') \<and> credit_ok (timestamp e) s'"
  proof cases
    case id
    then show ?thesis using ok' n(1) by (auto intro: exI [of _ 0])
  next
    case (paid cfg acc0)
    define acc where "acc = accrue_interest e cfg acc0"
    have cfg: "credit_config_ok cfg" and acc0: "account_ok now acc0" using ok(1) paid by (auto simp: credit_ok_def)
    have acc: "account_ok (timestamp e) acc" unfolding acc_def by (rule accrue_interest_ok(1) [OF acc0 ok(2,3) cfg])
    let ?share = "bps_of n (cc_repayment_share_bps cfg)"
    have share: "0 \<le> ?share" "?share \<le> n" using bps_exact [OF n(1,2)] cfg by (auto simp: credit_config_ok_def)
    define r where "r = (if ?share > debt acc then debt acc else ?share)"
    have r: "0 \<le> r" "r \<le> n" "r \<le> debt acc" using share debt_exact(2) [OF acc c] by (auto simp: r_def)
    obtain i acc1 where pd: "pay_debt e r acc = (i, acc1)" by fastforce
    note p = pay_debt_ok [OF acc ok(3) r(1,3) pd]
    have ex: "add_i128 (fee_of t s) r = fee_of t s + r" "sub_i128 n r = n - r"
      using n r by (auto simp: add_i128_exact in_i128_nonneg sub_i128_def)
    consider "net = n" "s' = s" | "net = n - r" "s' = lj_emit (CreditEv (EvRepayAu c r t)) (log_credit e c t r i True
        (set_fee_balance t (fee_of t s + r) (put_account c t acc1 s)))"
      using run paid pd ex
      by (auto simp: process_repayment_def acc_def [symmetric] r_def [symmetric] Let_def put_account_def fee_of_def split: if_splits)
    then show ?thesis
    proof cases
      case 1
      then show ?thesis using ok' n(1) by (auto intro: exI [of _ 0])
    next
      case 2
      have "repaid_state t r s s'"
        by (rule repaid_stateI [where bf = "(bk_fee (lj_books s))(t \<mapsto> fee_of t s + r)" and cb = "lj_credit s'" and ev = "lj_events s'"])
          (simp_all add: 2(2) lj_emit_def log_credit_def set_fee_balance_def put_account_def)
      moreover have "credit_ok (timestamp e) s'"
        by (rule credit_ok_put [OF ok' p(1), of _ "(c, t)"]) (auto simp: 2(2) lj_emit_def log_credit_def set_fee_balance_def put_account_def)
      ultimately show ?thesis using r 2(1) by blast
    qed
  qed
  then show "\<exists>r. 0 \<le> r \<and> r \<le> n \<and> net = n - r \<and> repaid_state t r s s'" "credit_ok (timestamp e) s'" by blast+
qed

end
