(* ===== verification/Legacy_Tips.thy ===== *)
theory Legacy_Tips
  imports Legacy_Credit
begin

text \<open>
  The tips of the superseded tip jar (\<^verbatim>\<open>src/contracts/tipjar-legacy/src/lib.rs\<close>, with the modules
  \<^verbatim>\<open>fees\<close> and \<^verbatim>\<open>conditions\<close>): the plain tip with its fee, insurance premium, automatic repayment,
  reputation, royalties and milestones; tips with a dynamic fee, with a message, split among recipients,
  in batches and under conditions.
\<close>

section \<open>Fees and premiums\<close>

definition checked_sub_i128 :: "int \<Rightarrow> int \<Rightarrow> int option" where
  "checked_sub_i128 a b = (if in_i128 (a - b) then Some (a - b) else None)"

definition tip_premium :: "int \<Rightarrow> 'tk core_jar \<Rightarrow> int" where
  "tip_premium amount s =
     (if unwrap_or (in_enabled (lj_insurance s)) True
      then case in_cfg (lj_insurance s) of None \<Rightarrow> 0 | Some cfg \<Rightarrow> bps_of amount (ic_tip_premium_bps cfg)
      else 0)"

text \<open>\<^verbatim>\<open>amount.checked_sub(fee).and_then(|a| a.checked_sub(ins_premium)).unwrap_or(0)\<close>.\<close>

definition net_of :: "int \<Rightarrow> int \<Rightarrow> int \<Rightarrow> int" where
  "net_of amount fee premium =
     (case checked_sub_i128 amount fee of
        None \<Rightarrow> 0
      | Some a \<Rightarrow> unwrap_or (checked_sub_i128 a premium) 0)"

definition new_pool :: "env \<Rightarrow> address \<Rightarrow> insurance_pool" where
  "new_pool e t = \<lparr>ip_token = t, ip_total_reserves = 0, ip_total_contributions = 0, ip_total_claims_paid = 0,
     ip_active_claims = 0, ip_total_claims = 0, ip_last_payout_time = timestamp e\<rparr>"

definition put_pool :: "address \<Rightarrow> insurance_pool \<Rightarrow> 'tk core_jar \<Rightarrow> 'tk core_jar" where
  "put_pool t pool s = s\<lparr>lj_insurance := (lj_insurance s)\<lparr>in_pool := (in_pool (lj_insurance s))(t \<mapsto> pool)\<rparr>\<rparr>"

definition add_premium :: "env \<Rightarrow> address \<Rightarrow> int \<Rightarrow> 'tk core_jar \<Rightarrow> 'tk core_jar" where
  "add_premium e t premium s =
     (if premium > 0
      then let pool = unwrap_or (in_pool (lj_insurance s) t) (new_pool e t) in
           put_pool t (pool\<lparr>ip_total_reserves := add_i128 (ip_total_reserves pool) premium\<rparr>) s
      else s)"

definition BASE_FEE_BPS :: u32 where "BASE_FEE_BPS = 100"
definition MIN_FEE_BPS :: u32 where "MIN_FEE_BPS = 10"
definition DYN_MAX_FEE_BPS :: u32 where "DYN_MAX_FEE_BPS = 500"

datatype congestion_level = Low | Normal | High

fun raw_fee_bps :: "congestion_level \<Rightarrow> u32" where
  "raw_fee_bps Low = BASE_FEE_BPS div 2"
| "raw_fee_bps Normal = BASE_FEE_BPS"
| "raw_fee_bps High = BASE_FEE_BPS * 3 div 2"

definition adjusted_fee_bps :: "congestion_level \<Rightarrow> 'tk core_jar \<Rightarrow> u32 \<times> 'tk core_jar" where
  "adjusted_fee_bps congestion s =
     (let clamped = min (max (raw_fee_bps congestion) MIN_FEE_BPS) DYN_MAX_FEE_BPS in
      (clamped, s\<lparr>lj_current_fee_bps := Some clamped\<rparr>))"

definition compute_fee :: "int \<Rightarrow> congestion_level \<Rightarrow> 'tk core_jar \<Rightarrow> (int \<times> u32) \<times> 'tk core_jar" where
  "compute_fee amount congestion s =
     (let (fee_bps, s1) = adjusted_fee_bps congestion s in ((bps_of amount fee_bps, fee_bps), s1))"

definition get_current_fee_bps :: "'tk core_jar \<Rightarrow> u32" where
  "get_current_fee_bps s = unwrap_or (lj_dynamic_fee s) BASE_FEE_BPS"

section \<open>The plain tip\<close>

text \<open>The book entries of a tip, before the token is moved.\<close>

definition credit_creator :: "env \<Rightarrow> address \<Rightarrow> address \<Rightarrow> int \<Rightarrow> 'tk core_jar \<Rightarrow> (int \<times> 'tk core_jar) core_result" where
  "credit_creator e creator t creator_amount s =
     (let existing_bal = balance_of creator t s;
          (net_amount, s1) = process_repayment e creator t creator_amount s in
      and_then (ok_or (TipJarError BalanceOverflow) (checked_add_i128 existing_bal net_amount)) (\<lambda>new_bal.
      let s2 = set_balance creator t new_bal s1 in
      and_then (ok_or (TipJarError BalanceOverflow) (checked_add_i128 (total_of creator t s2) creator_amount)) (\<lambda>new_tot.
      Inr (new_tot, set_total creator t new_tot s2))))"

definition record_standing :: "env \<Rightarrow> address \<Rightarrow> address \<Rightarrow> int \<Rightarrow> int \<Rightarrow> 'tk core_jar \<Rightarrow> 'tk core_jar" where
  "record_standing e sender creator amount creator_amount s =
     (let s1 = update_leaderboard_stats sender creator creator_amount s;
          s2 = s1\<lparr>lj_reputation := record_tip_received e creator creator_amount
                    (record_tip_sent e sender amount (lj_reputation s1))\<rparr> in
      s2\<lparr>lj_royalties := snd (distribute_programmable_royalties e creator creator_amount sender (lj_royalties s2))\<rparr>)"

definition book_fee :: "address \<Rightarrow> int \<Rightarrow> 'tk core_jar \<Rightarrow> 'tk core_jar core_result" where
  "book_fee t fee s =
     (if fee > 0
      then and_then (ok_or (TipJarError BalanceOverflow) (checked_add_i128 (fee_of t s) fee)) (\<lambda>v. Inr (set_fee_balance t v s))
      else Inr s)"

text \<open>All entries of a tip: its number, and the new state.\<close>

definition tip_books ::
  "env \<Rightarrow> address \<Rightarrow> address \<Rightarrow> address \<Rightarrow> int \<Rightarrow> int \<Rightarrow> int \<Rightarrow> 'tk core_jar \<Rightarrow> (u64 \<times> 'tk core_jar) core_result" where
  "tip_books e sender creator t amount fee ins_premium s =
     (let creator_amount = net_of amount fee ins_premium in
      and_then (book_fee t fee s) (\<lambda>s1.
      and_then (credit_creator e creator t creator_amount (add_premium e t ins_premium s1)) (\<lambda>(new_tot, s2).
      let tip_id = unwrap_or (lj_tip_ctr s2) 0;
          s3 = s2\<lparr>lj_tip_ctr := Some (tip_id + 1)\<rparr>;
          s4 = track_creator_token creator t (record_standing e sender creator amount creator_amount s3) in
      and_then (check_and_award_milestones creator t new_tot s4) (\<lambda>s5. Inr (tip_id, s5)))))"

definition lg_tip ::
  "'tk transfer_fn \<Rightarrow> env \<Rightarrow> address \<Rightarrow> address \<Rightarrow> address \<Rightarrow> int \<Rightarrow> 'tk core_jar \<Rightarrow> (u64 \<times> 'tk core_jar) core_result" where
  "lg_tip transfer e sender creator t amount s0 =
     and_then (not_paused e s0) (\<lambda>s1.
     and_then (feature_not_paused e Tipping s1) (\<lambda>s2.
     and_then (breaker_allows e amount s2) (\<lambda>s.
     and_then (require_auth e sender) (\<lambda>_.
     if amount \<le> 0 then fail (TipJarError InvalidAmount)
     else if amount < unwrap_or (lj_min_tip s) 10000 then fail (TipJarError BelowMinimumTip)
     else
     and_then (access_allows e creator sender s) (\<lambda>_.
     if \<not> legacy_whitelisted (lj_instance s) t then fail (TipJarError TokenNotWhitelisted)
     else
     let fee_bp = unwrap_or (lj_fee_bps s) 0;
         fee = bps_of amount fee_bp;
         ins_premium = tip_premium amount s in
     and_then (tip_books e sender creator t amount fee ins_premium s) (\<lambda>(tip_id, s3).
     and_then (lj_transfer transfer t sender (contract_address e) amount s3) (\<lambda>s4.
     let s5 = lj_emit (TipEv (EvTip tip_id (timestamp e) sender creator (net_of amount fee ins_premium) t)) s4 in
     Inr (tip_id, if fee > 0 then lj_emit (TipEv (EvFee creator t fee fee_bp (timestamp e))) s5 else s5))))))))"

section \<open>Tips with a dynamic fee and with a message\<close>

definition fee_books :: "env \<Rightarrow> address \<Rightarrow> address \<Rightarrow> int \<Rightarrow> int \<Rightarrow> 'tk core_jar \<Rightarrow> 'tk core_jar core_result" where
  "fee_books e creator t net ins_premium s =
     (let s1 = add_premium e t ins_premium s;
          current_bal = balance_of creator t s1;
          (net_amount, s2) = process_repayment e creator t net s1 in
      case checked_add_i128 current_bal net_amount of
        None \<Rightarrow> Inl Trapped
      | Some new_bal \<Rightarrow>
          let s3 = set_balance creator t new_bal s2 in
          (case checked_add_i128 (total_of creator t s3) net of
             None \<Rightarrow> Inl Trapped
           | Some new_tot \<Rightarrow> Inr (set_total creator t new_tot s3)))"

definition tip_with_fee ::
  "'tk transfer_fn \<Rightarrow> env \<Rightarrow> address \<Rightarrow> address \<Rightarrow> address \<Rightarrow> int \<Rightarrow> u32 \<Rightarrow> 'tk core_jar \<Rightarrow> 'tk core_jar core_result" where
  "tip_with_fee transfer e sender creator t amount congestion s0 =
     and_then (not_paused e s0) (\<lambda>s1.
     and_then (breaker_allows e amount s1) (\<lambda>s.
     and_then (require_auth e sender) (\<lambda>_.
     if amount \<le> 0 then fail (TipJarError InvalidAmount)
     else if \<not> legacy_whitelisted (lj_instance s) t then fail (TipJarError TokenNotWhitelisted)
     else
     let level = (if congestion = 0 then Low else if congestion = 2 then High else Normal);
         ((fee, fee_bps), s2) = compute_fee amount level s;
         ins_premium = tip_premium amount s2;
         net = net_of amount fee ins_premium in
     and_then (lj_transfer transfer t sender (contract_address e) amount s2) (\<lambda>s3.
     and_then (fee_books e creator t net ins_premium s3) (\<lambda>s4.
     let tip_id = unwrap_or (lj_tip_ctr s4) 0 in
     Inr (lj_emit (TipEv (EvDynFee creator fee fee_bps))
       (lj_emit (TipEv (EvTip tip_id (timestamp e) sender creator net t)) s4)))))))"

definition message_books ::
  "env \<Rightarrow> address \<Rightarrow> address \<Rightarrow> address \<Rightarrow> int \<Rightarrow> string option \<Rightarrow> 'tk core_jar \<Rightarrow> u64 \<times> 'tk core_jar" where
  "message_books e sender creator t amount message s =
     (let fee = bps_of amount (unwrap_or (lj_fee_bps s) 0);
          ins_premium = tip_premium amount s;
          creator_amount = net_of amount fee ins_premium;
          s1 = (if fee > 0 then set_fee_balance t (add_i128 (fee_of t s) fee) s else s);
          s2 = add_premium e t ins_premium s1;
          existing_bal = get_withdrawable_balance creator t s2;
          (net_amount, s3) = process_repayment e creator t creator_amount s2;
          s4 = set_balance creator t (add_i128 existing_bal net_amount) s3;
          s5 = set_total creator t (add_i128 (lg_get_total_tips creator t s4) amount) s4;
          s6 = update_leaderboard_stats sender creator amount s5;
          tip_index = unwrap_or (lj_tip_count s6 creator) 0;
          s7 = s6\<lparr>lj_tip_history := (lj_tip_history s6)((creator, tip_index) \<mapsto>
                     \<lparr>tm_sender = sender, tm_amount = amount, tm_message = message, tm_timestamp = timestamp e\<rparr>),
                   lj_tip_count := (lj_tip_count s6)(creator \<mapsto> tip_index + 1)\<rparr> in
      (tip_index, lj_emit (TipEv (EvTipMsg creator sender amount message)) s7))"

definition tip_with_message ::
  "'tk transfer_fn \<Rightarrow> env \<Rightarrow> address \<Rightarrow> address \<Rightarrow> address \<Rightarrow> int \<Rightarrow> string option \<Rightarrow> 'tk core_jar \<Rightarrow> (u64 \<times> 'tk core_jar) core_result" where
  "tip_with_message transfer e sender creator t amount message s0 =
     and_then (not_paused e s0) (\<lambda>s1.
     and_then (breaker_allows e amount s1) (\<lambda>s.
     and_then (require_auth e sender) (\<lambda>_.
     if (case message of None \<Rightarrow> False | Some msg \<Rightarrow> length msg > 200) then fail (TipJarError MessageTooLong)
     else if amount \<le> 0 then fail (TipJarError InvalidAmount)
     else if \<not> legacy_whitelisted (lj_instance s) t then fail (TipJarError TokenNotWhitelisted)
     else
     and_then (lj_transfer transfer t sender (contract_address e) amount s) (\<lambda>s2.
     Inr (message_books e sender creator t amount message s2)))))"

text \<open>The most recent messages, newest first; the loop runs down from the last index.\<close>

fun history_loop :: "(u64 \<Rightarrow> tip_meta option) \<Rightarrow> nat \<Rightarrow> nat \<Rightarrow> tip_meta list" where
  "history_loop h 0 room = []"
| "history_loop h (Suc i) 0 = []"
| "history_loop h (Suc i) (Suc room) =
     (case h (of_nat i) of
        None \<Rightarrow> history_loop h i (Suc room)
      | Some meta \<Rightarrow> meta # history_loop h i room)"

definition get_tip_history :: "address \<Rightarrow> u32 \<Rightarrow> 'tk core_jar \<Rightarrow> tip_meta list" where
  "get_tip_history creator limit s =
     (let total_count = unwrap_or (lj_tip_count s creator) 0;
          cap = (if limit > 100 then 100 else limit) in
      history_loop (\<lambda>i. lj_tip_history s (creator, i)) (unat total_count) (unat cap))"

section \<open>Split tips\<close>

record tip_recipient =
  tr_creator :: address
  tr_percentage :: u32

fun split_loop :: "env \<Rightarrow> address \<Rightarrow> address \<Rightarrow> int \<Rightarrow> tip_recipient list \<Rightarrow> int \<Rightarrow> 'tk core_jar \<Rightarrow> 'tk core_jar" where
  "split_loop e sender t amount [] distributed s = s"
| "split_loop e sender t amount (r # rs) distributed s =
     (let share = (if rs = [] then sub_i128 amount distributed else bps_of amount (tr_percentage r));
          bal = balance_of (tr_creator r) t s;
          (net_amount, s1) = process_repayment e (tr_creator r) t share s;
          s2 = set_balance (tr_creator r) t (add_i128 bal net_amount) s1;
          s3 = set_total (tr_creator r) t (add_i128 (total_of (tr_creator r) t s2) share) s2 in
      split_loop e sender t amount rs (add_i128 distributed share)
        (lj_emit (TipEv (EvTipSplt (tr_creator r) sender share (tr_percentage r))) s3))"

definition tip_split ::
  "'tk transfer_fn \<Rightarrow> env \<Rightarrow> address \<Rightarrow> address \<Rightarrow> tip_recipient list \<Rightarrow> int \<Rightarrow> 'tk core_jar \<Rightarrow> 'tk core_jar core_result" where
  "tip_split transfer e sender t recipients amount s0 =
     and_then (not_paused e s0) (\<lambda>s1.
     and_then (feature_not_paused e Tipping s1) (\<lambda>s2.
     and_then (breaker_allows e amount s2) (\<lambda>s.
     and_then (require_auth e sender) (\<lambda>_.
     if amount \<le> 0 then fail (TipJarError InvalidAmount)
     else if \<not> (2 \<le> length recipients \<and> length recipients \<le> 10) then fail (FeatureError InvalidRecipientCount)
     else if \<exists>r \<in> set recipients. tr_percentage r = 0 then fail (FeatureError InvalidPercentage)
     else if sum_list (map tr_percentage recipients) \<noteq> 10000 then fail (FeatureError InvalidPercentageSum)
     else if \<not> legacy_whitelisted (lj_instance s) t then fail (TipJarError TokenNotWhitelisted)
     else
     and_then (lj_transfer transfer t sender (contract_address e) amount s) (\<lambda>s3.
     Inr (split_loop e sender t amount recipients 0 s3))))))"

end
