(* ===== verification/Legacy_Batch.thy ===== *)
theory Legacy_Batch
  imports Legacy_Tips
begin

text \<open>
  Several tips in one call, and tips under conditions (\<^verbatim>\<open>batch_tip\<close>, \<^verbatim>\<open>batch_tip_v2\<close>,
  \<^verbatim>\<open>batch_tip_multi\<close> and \<^verbatim>\<open>execute_conditional_tip\<close> of \<^verbatim>\<open>src/contracts/tipjar-legacy/src/lib.rs\<close>, with
  the module \<^verbatim>\<open>conditions\<close>).
\<close>

section \<open>Batches\<close>

record tip_operation =
  op_creator :: address
  op_token :: address
  op_amount :: int

text \<open>The result of one operation: whether it was carried out, and its index.\<close>

record batch_result =
  br_success :: bool
  br_index :: u32

definition credit_checked :: "address \<Rightarrow> address \<Rightarrow> int \<Rightarrow> 'tk core_jar \<Rightarrow> 'tk core_jar core_result" where
  "credit_checked creator t n s =
     (case checked_add_i128 (balance_of creator t s) n of None \<Rightarrow> Inl Trapped | Some v \<Rightarrow> Inr (set_balance creator t v s))"

definition total_checked :: "address \<Rightarrow> address \<Rightarrow> int \<Rightarrow> 'tk core_jar \<Rightarrow> 'tk core_jar core_result" where
  "total_checked creator t n s =
     (case checked_add_i128 (total_of creator t s) n of None \<Rightarrow> Inl Trapped | Some v \<Rightarrow> Inr (set_total creator t v s))"

fun batch_total :: "tip_operation list \<Rightarrow> int \<Rightarrow> int core_result" where
  "batch_total [] acc = Inr acc"
| "batch_total (x # xs) acc =
     (if op_amount x \<le> 0 then fail (TipJarError InvalidAmount)
      else case checked_add_i128 acc (op_amount x) of None \<Rightarrow> Inl Trapped | Some v \<Rightarrow> batch_total xs v)"

definition batch_one :: "env \<Rightarrow> address \<Rightarrow> address \<Rightarrow> u32 \<Rightarrow> tip_operation \<Rightarrow> 'tk core_jar \<Rightarrow> 'tk core_jar core_result" where
  "batch_one e tipper t fee_bp x s =
     (let fee = bps_of (op_amount x) fee_bp;
          creator_amount = sub_i128 (op_amount x) fee in
      and_then (if fee > 0
                then case checked_add_i128 (fee_of t s) fee of None \<Rightarrow> Inl Trapped | Some v \<Rightarrow> Inr (set_fee_balance t v s)
                else Inr s) (\<lambda>s1.
      let (net_amount, s2) = process_repayment e (op_creator x) t creator_amount s1 in
      and_then (credit_checked (op_creator x) t net_amount s2) (\<lambda>s3.
      and_then (total_checked (op_creator x) t creator_amount s3) (\<lambda>s4.
      Inr (update_leaderboard_stats tipper (op_creator x) creator_amount s4)))))"

fun batch_loop :: "env \<Rightarrow> address \<Rightarrow> address \<Rightarrow> u32 \<Rightarrow> tip_operation list \<Rightarrow> u32 \<Rightarrow> 'tk core_jar \<Rightarrow> (u32 \<times> 'tk core_jar) core_result" where
  "batch_loop e tipper t fee_bp [] k s = Inr (k, s)"
| "batch_loop e tipper t fee_bp (x # xs) k s =
     and_then (batch_one e tipper t fee_bp x s) (\<lambda>s1. batch_loop e tipper t fee_bp xs (k + 1) s1)"

definition batch_tip ::
  "'tk transfer_fn \<Rightarrow> env \<Rightarrow> address \<Rightarrow> address \<Rightarrow> tip_operation list \<Rightarrow> 'tk core_jar \<Rightarrow> (u32 \<times> 'tk core_jar) core_result" where
  "batch_tip transfer e tipper t tips s0 =
     and_then (not_paused e s0) (\<lambda>s.
     and_then (require_auth e tipper) (\<lambda>_.
     if tips = [] \<or> length tips > 100 then fail (TipJarError BatchTooLarge)
     else if \<not> legacy_whitelisted (lj_instance s) t then fail (TipJarError TokenNotWhitelisted)
     else
     and_then (batch_total tips 0) (\<lambda>total_amount.
     and_then (breaker_allows e total_amount s) (\<lambda>s1.
     and_then (lj_transfer transfer t tipper (contract_address e) total_amount s1) (\<lambda>s2.
     and_then (batch_loop e tipper t (unwrap_or (lj_fee_bps s2) 0) tips 0 s2) (\<lambda>(k, s3).
     Inr (k, lj_emit (TipEv (EvBatchTip tipper k total_amount)) s3)))))))"

text \<open>
  The second version collects the totals by token in a map, whose keys it visits in their order. It
  reads the fee rate and credits the fees under the old keys.
\<close>

fun add_token_total :: "address \<Rightarrow> int \<Rightarrow> (address \<times> int) list \<Rightarrow> (address \<times> int) list option" where
  "add_token_total t n [] = Some [(t, n)]"
| "add_token_total t n ((t', m) # r) =
     (if t = t' then map_option (\<lambda>v. (t, v) # r) (checked_add_i128 m n)
      else if t < t' then Some ((t, n) # (t', m) # r)
      else map_option (\<lambda>r'. (t', m) # r') (add_token_total t n r))"

fun token_totals :: "legacy_instance \<Rightarrow> tip_operation list \<Rightarrow> (address \<times> int) list \<Rightarrow> (address \<times> int) list core_result" where
  "token_totals g [] m = Inr m"
| "token_totals g (x # xs) m =
     (if op_amount x \<le> 0 then fail (TipJarError InvalidAmount)
      else if \<not> legacy_whitelisted g (op_token x) then fail (TipJarError TokenNotWhitelisted)
      else case add_token_total (op_token x) (op_amount x) m of None \<Rightarrow> Inl Trapped | Some m' \<Rightarrow> token_totals g xs m')"

fun transfer_totals :: "'tk transfer_fn \<Rightarrow> env \<Rightarrow> address \<Rightarrow> (address \<times> int) list \<Rightarrow> 'tk core_jar \<Rightarrow> 'tk core_jar core_result" where
  "transfer_totals transfer e tipper [] s = Inr s"
| "transfer_totals transfer e tipper ((t, n) # r) s =
     and_then (lj_transfer transfer t tipper (contract_address e) n s) (transfer_totals transfer e tipper r)"

definition set_old_fee :: "address \<Rightarrow> int \<Rightarrow> 'tk core_jar \<Rightarrow> 'tk core_jar" where
  "set_old_fee t v s = s\<lparr>lj_books := (lj_books s)\<lparr>bk_old_fee := (bk_old_fee (lj_books s))(t \<mapsto> v)\<rparr>\<rparr>"

definition v2_one :: "address \<Rightarrow> u32 \<Rightarrow> u32 \<Rightarrow> tip_operation \<Rightarrow> 'tk core_jar \<Rightarrow> 'tk core_jar core_result" where
  "v2_one tipper fee_bp idx x s =
     (let t = op_token x;
          fee = bps_of (op_amount x) fee_bp;
          creator_amount = sub_i128 (op_amount x) fee in
      and_then (if fee > 0
                then case checked_add_i128 (unwrap_or (bk_old_fee (lj_books s) t) 0) fee of
                       None \<Rightarrow> Inl Trapped | Some v \<Rightarrow> Inr (set_old_fee t v s)
                else Inr s) (\<lambda>s1.
      and_then (credit_checked (op_creator x) t creator_amount s1) (\<lambda>s2.
      and_then (total_checked (op_creator x) t creator_amount s2) (\<lambda>s3.
      Inr (lj_emit (TipEv (EvBtpOp tipper (op_creator x) t creator_amount idx))
        (update_leaderboard_stats tipper (op_creator x) creator_amount s3))))))"

fun v2_loop ::
  "address \<Rightarrow> u32 \<Rightarrow> u32 \<Rightarrow> tip_operation list \<Rightarrow> int \<Rightarrow> 'tk core_jar \<Rightarrow> ((int \<times> batch_result list) \<times> 'tk core_jar) core_result" where
  "v2_loop tipper fee_bp idx [] grand s = Inr ((grand, []), s)"
| "v2_loop tipper fee_bp idx (x # xs) grand s =
     and_then (v2_one tipper fee_bp idx x s) (\<lambda>s1.
     case checked_add_i128 grand (op_amount x) of
       None \<Rightarrow> Inl Trapped
     | Some g \<Rightarrow>
         and_then (v2_loop tipper fee_bp (idx + 1) xs g s1) (\<lambda>((g', rs), s2).
         Inr ((g', \<lparr>br_success = True, br_index = idx\<rparr> # rs), s2)))"

definition batch_tip_v2 ::
  "'tk transfer_fn \<Rightarrow> env \<Rightarrow> address \<Rightarrow> tip_operation list \<Rightarrow> 'tk core_jar \<Rightarrow> (batch_result list \<times> 'tk core_jar) core_result" where
  "batch_tip_v2 transfer e tipper operations s0 =
     and_then (not_paused e s0) (\<lambda>s.
     and_then (require_auth e tipper) (\<lambda>_.
     if operations = [] \<or> length operations > 20 then fail (TipJarError BatchSizeExceeded)
     else
     and_then (token_totals (lj_instance s) operations []) (\<lambda>totals.
     and_then (transfer_totals transfer e tipper totals s) (\<lambda>s1.
     and_then (v2_loop tipper (unwrap_or (lj_old_fee_bps s1) 0) 0 operations 0 s1) (\<lambda>((grand, rs), s2).
     Inr (rs, lj_emit (TipEv (EvBtchTip2 tipper (of_nat (length operations)) grand)) s2))))))"

text \<open>The third version skips what it cannot carry out. The loop carries its counts and the running total.\<close>

record multi_acc =
  ma_success :: u64
  ma_skipped :: u64
  ma_grand :: int
  ma_results :: "batch_result list"

definition multi_one :: "'tk transfer_fn \<Rightarrow> env \<Rightarrow> address \<Rightarrow> u32 \<Rightarrow> u32 \<Rightarrow> tip_operation \<Rightarrow> 'tk core_jar \<Rightarrow> 'tk core_jar core_result" where
  "multi_one transfer e tipper fee_bp idx x s =
     (let t = op_token x in
      and_then (lj_transfer transfer t tipper (contract_address e) (op_amount x) s) (\<lambda>s1.
      let fee = bps_of (op_amount x) fee_bp;
          creator_amount = sub_i128 (op_amount x) fee;
          s2 = (if fee > 0 then set_old_fee t (sat_i128 (unwrap_or (bk_old_fee (lj_books s1) t) 0 + fee)) s1 else s1);
          s3 = set_balance (op_creator x) t (sat_i128 (balance_of (op_creator x) t s2 + creator_amount)) s2;
          s4 = set_total (op_creator x) t (sat_i128 (total_of (op_creator x) t s3 + creator_amount)) s3 in
      Inr (lj_emit (TipEv (EvBtpMop tipper (op_creator x) t creator_amount idx))
        (update_leaderboard_stats tipper (op_creator x) creator_amount s4))))"

fun multi_loop ::
  "'tk transfer_fn \<Rightarrow> env \<Rightarrow> address \<Rightarrow> u32 \<Rightarrow> u32 \<Rightarrow> tip_operation list \<Rightarrow> multi_acc \<Rightarrow> 'tk core_jar \<Rightarrow> (multi_acc \<times> 'tk core_jar) core_result" where
  "multi_loop transfer e tipper fee_bp idx [] m s = Inr (m, s)"
| "multi_loop transfer e tipper fee_bp idx (x # xs) m s =
     (if op_amount x \<le> 0 \<or> \<not> legacy_whitelisted (lj_instance s) (op_token x)
      then multi_loop transfer e tipper fee_bp (idx + 1) xs
        (m\<lparr>ma_skipped := ma_skipped m + 1, ma_results := ma_results m @ [\<lparr>br_success = False, br_index = idx\<rparr>]\<rparr>) s
      else
      and_then (multi_one transfer e tipper fee_bp idx x s) (\<lambda>s1.
      multi_loop transfer e tipper fee_bp (idx + 1) xs
        (m\<lparr>ma_success := ma_success m + 1, ma_grand := sat_i128 (ma_grand m + op_amount x),
           ma_results := ma_results m @ [\<lparr>br_success = True, br_index = idx\<rparr>]\<rparr>) s1))"

definition get_batch_stats :: "'tk core_jar \<Rightarrow> batch_stats" where
  "get_batch_stats s = unwrap_or (lj_batch_stats s)
     \<lparr>bs_total_batches = 0, bs_total_tips = 0, bs_total_amount = 0, bs_total_skipped = 0\<rparr>"

definition batch_tip_multi ::
  "'tk transfer_fn \<Rightarrow> env \<Rightarrow> address \<Rightarrow> tip_operation list \<Rightarrow> 'tk core_jar \<Rightarrow> (batch_result list \<times> 'tk core_jar) core_result" where
  "batch_tip_multi transfer e tipper operations s0 =
     and_then (not_paused e s0) (\<lambda>s.
     and_then (require_auth e tipper) (\<lambda>_.
     if operations = [] \<or> length operations > 20 then fail (TipJarError BatchSizeExceeded)
     else
     and_then (multi_loop transfer e tipper (unwrap_or (lj_old_fee_bps s) 0) 0 operations
         \<lparr>ma_success = 0, ma_skipped = 0, ma_grand = 0, ma_results = []\<rparr> s) (\<lambda>(m, s1).
     let st = get_batch_stats s1;
         st' = st\<lparr>bs_total_batches := bs_total_batches st + 1, bs_total_tips := bs_total_tips st + ma_success m,
                 bs_total_amount := sat_i128 (bs_total_amount st + ma_grand m),
                 bs_total_skipped := bs_total_skipped st + ma_skipped m\<rparr> in
     Inr (ma_results m, lj_emit (TipEv (EvBtpMulti tipper (ucast (ma_success m)) (ucast (ma_skipped m)) (ma_grand m)))
       (s1\<lparr>lj_batch_stats := Some st'\<rparr>)))))"

section \<open>Conditional tips\<close>

datatype tip_condition =
    Always
  | MinLedger u32
  | MaxLedger u32
  | TimeAfter u64
  | TimeBefore u64
  | TokenBalanceAtLeast address address int
  | OffchainApproved bytes32

text \<open>The balance that a token reports is a parameter.\<close>

fun evaluate_one :: "('tk \<Rightarrow> address \<Rightarrow> address \<Rightarrow> int) \<Rightarrow> env \<Rightarrow> 'tk core_jar \<Rightarrow> tip_condition \<Rightarrow> bool" where
  "evaluate_one token_balance e s Always = True"
| "evaluate_one token_balance e s (MinLedger n) = (sequence e \<ge> n)"
| "evaluate_one token_balance e s (MaxLedger n) = (sequence e \<le> n)"
| "evaluate_one token_balance e s (TimeAfter n) = (timestamp e \<ge> n)"
| "evaluate_one token_balance e s (TimeBefore n) = (timestamp e \<le> n)"
| "evaluate_one token_balance e s (TokenBalanceAtLeast a t n) = (token_balance (lj_tokens s) t a \<ge> n)"
| "evaluate_one token_balance e s (OffchainApproved i) = unwrap_or (lj_offchain s i) False"

definition evaluate_all :: "('tk \<Rightarrow> address \<Rightarrow> address \<Rightarrow> int) \<Rightarrow> env \<Rightarrow> tip_condition list \<Rightarrow> 'tk core_jar \<Rightarrow> bool" where
  "evaluate_all token_balance e cs s = list_all (evaluate_one token_balance e s) cs"

definition set_offchain_approval :: "bytes32 \<Rightarrow> bool \<Rightarrow> 'tk core_jar \<Rightarrow> 'tk core_jar" where
  "set_offchain_approval i approved s = s\<lparr>lj_offchain := (lj_offchain s)(i \<mapsto> approved)\<rparr>"

definition set_offchain_condition :: "env \<Rightarrow> address \<Rightarrow> bytes32 \<Rightarrow> bool \<Rightarrow> 'tk core_jar \<Rightarrow> 'tk core_jar core_result" where
  "set_offchain_condition e oracle i approved s =
     and_then (require_auth e oracle) (\<lambda>_. Inr (set_offchain_approval i approved s))"

definition execute_conditional_tip ::
  "'tk transfer_fn \<Rightarrow> ('tk \<Rightarrow> address \<Rightarrow> address \<Rightarrow> int) \<Rightarrow> env \<Rightarrow> address \<Rightarrow> address \<Rightarrow> address \<Rightarrow> int \<Rightarrow> tip_condition list \<Rightarrow>
   'tk core_jar \<Rightarrow> (bool \<times> 'tk core_jar) core_result" where
  "execute_conditional_tip transfer token_balance e sender creator t amount conditions s0 =
     and_then (not_paused e s0) (\<lambda>s1.
     and_then (breaker_allows e amount s1) (\<lambda>s.
     and_then (require_auth e sender) (\<lambda>_.
     if amount \<le> 0 then fail (TipJarError InvalidAmount)
     else if \<not> evaluate_all token_balance e conditions s then Inr (False, s)
     else
     let (net_amount, s2) = process_repayment e creator t amount s in
     and_then (lj_transfer transfer t sender creator net_amount s2) (\<lambda>s3.
     Inr (True, lj_emit (TipEv (EvCondTip sender creator t amount)) s3)))))"

end
