(* ===== verification/Legacy_Payouts.thy ===== *)
theory Legacy_Payouts
  imports Legacy_Batch
begin

text \<open>
  The ways money leaves a creator's account of the superseded tip jar
  (\<^verbatim>\<open>src/contracts/tipjar-legacy/src/lib.rs\<close>): withdrawals under daily limits and a cooldown, by delegates
  with an allowance, by a number of signers, in batches, and the emergency withdrawal of the admin.
\<close>

section \<open>Withdrawal limits\<close>

definition DAY_SECS :: u64 where "DAY_SECS = 86400"

definition no_limits :: withdrawal_limits where
  "no_limits = \<lparr>wl_daily_limit = 0, wl_cooldown_seconds = 0, wl_last_withdrawal = 0, wl_withdrawn_today = 0, wl_day_start = 0\<rparr>"

definition get_withdrawal_limits :: "address \<Rightarrow> 'tk core_jar \<Rightarrow> withdrawal_limits" where
  "get_withdrawal_limits creator s =
     (case po_limits (lj_payout s) creator of
        Some l \<Rightarrow> l
      | None \<Rightarrow> unwrap_or (po_default (lj_payout s)) no_limits)"

definition set_limits :: "address \<Rightarrow> withdrawal_limits \<Rightarrow> 'tk core_jar \<Rightarrow> 'tk core_jar" where
  "set_limits creator l s = s\<lparr>lj_payout := (lj_payout s)\<lparr>po_limits := (po_limits (lj_payout s))(creator \<mapsto> l)\<rparr>\<rparr>"

definition check_and_update_withdrawal_limits :: "env \<Rightarrow> address \<Rightarrow> int \<Rightarrow> 'tk core_jar \<Rightarrow> 'tk core_jar core_result" where
  "check_and_update_withdrawal_limits e creator amount s =
     (let l = get_withdrawal_limits creator s; now = timestamp e in
      if wl_cooldown_seconds l > 0 \<and> wl_last_withdrawal l > 0 \<and> now < wl_last_withdrawal l + wl_cooldown_seconds l
      then fail (FeatureError WithdrawalCooldown)
      else
      let l1 = (if now \<ge> wl_day_start l + DAY_SECS then l\<lparr>wl_withdrawn_today := 0, wl_day_start := now\<rparr> else l) in
      if wl_daily_limit l1 > 0 \<and> add_i128 (wl_withdrawn_today l1) amount > wl_daily_limit l1
      then fail (FeatureError DailyLimitExceeded)
      else Inr (set_limits creator
        (l1\<lparr>wl_withdrawn_today := add_i128 (wl_withdrawn_today l1) amount, wl_last_withdrawal := now\<rparr>) s))"

definition set_withdrawal_limits :: "env \<Rightarrow> address \<Rightarrow> address \<Rightarrow> int \<Rightarrow> u64 \<Rightarrow> 'tk core_jar \<Rightarrow> 'tk core_jar core_result" where
  "set_withdrawal_limits e admin creator daily_limit cooldown s = and_then (admin_only e admin s) (\<lambda>_.
     let existing = unwrap_or (po_limits (lj_payout s) creator) no_limits in
     Inr (lj_emit (PayoutEv (EvWlSet creator daily_limit cooldown))
       (set_limits creator (existing\<lparr>wl_daily_limit := daily_limit, wl_cooldown_seconds := cooldown\<rparr>) s)))"

definition set_default_withdrawal_limits :: "env \<Rightarrow> address \<Rightarrow> int \<Rightarrow> u64 \<Rightarrow> 'tk core_jar \<Rightarrow> 'tk core_jar core_result" where
  "set_default_withdrawal_limits e admin daily_limit cooldown s = and_then (admin_only e admin s) (\<lambda>_.
     Inr (lj_emit (PayoutEv (EvWlDef daily_limit cooldown))
       (s\<lparr>lj_payout := (lj_payout s)\<lparr>po_default :=
          Some (no_limits\<lparr>wl_daily_limit := daily_limit, wl_cooldown_seconds := cooldown\<rparr>)\<rparr>\<rparr>)))"

section \<open>Withdrawals\<close>

text \<open>A payout: the account is debited, then the contract pays.\<close>

definition debit_and_pay ::
  "'tk transfer_fn \<Rightarrow> env \<Rightarrow> address \<Rightarrow> address \<Rightarrow> address \<Rightarrow> int \<Rightarrow> int \<Rightarrow> 'tk core_jar \<Rightarrow> 'tk core_jar core_result" where
  "debit_and_pay transfer e creator t dst balance n s =
     lj_transfer transfer t (contract_address e) dst n (set_balance creator t (sub_i128 balance n) s)"

definition lg_withdraw ::
  "'tk transfer_fn \<Rightarrow> env \<Rightarrow> address \<Rightarrow> address \<Rightarrow> int option \<Rightarrow> 'tk core_jar \<Rightarrow> 'tk core_jar core_result" where
  "lg_withdraw transfer e creator t amount s0 =
     and_then (not_paused e s0) (\<lambda>s1.
     and_then (feature_not_paused e Withdrawals s1) (\<lambda>s.
     and_then (require_auth e creator) (\<lambda>_.
     let balance = get_withdrawable_balance creator t s in
     and_then (case amount of
                 Some n \<Rightarrow> if n \<le> 0 then fail (TipJarError InvalidAmount)
                           else if n > balance then fail (TipJarError InsufficientBalance) else Inr n
               | None \<Rightarrow> if balance \<le> 0 then fail (TipJarError NothingToWithdraw) else Inr balance) (\<lambda>n.
     and_then (check_and_update_withdrawal_limits e creator n s) (\<lambda>s2.
     and_then (debit_and_pay transfer e creator t creator balance n s2) (\<lambda>s3.
     Inr (lj_emit (PayoutEv (EvWithdraw creator n t (timestamp e))) s3)))))))"

definition MIN_WITHDRAWAL :: int where "MIN_WITHDRAWAL = 10000000"

definition withdraw_amount ::
  "'tk transfer_fn \<Rightarrow> env \<Rightarrow> address \<Rightarrow> address \<Rightarrow> int \<Rightarrow> 'tk core_jar \<Rightarrow> 'tk core_jar core_result" where
  "withdraw_amount transfer e creator t amount s0 =
     and_then (not_paused e s0) (\<lambda>s.
     and_then (require_auth e creator) (\<lambda>_.
     if amount < MIN_WITHDRAWAL then fail (TipJarError AmountTooSmall)
     else
     let balance = get_withdrawable_balance creator t s in
     if amount > balance then fail (TipJarError InsufficientBalance)
     else
     and_then (check_and_update_withdrawal_limits e creator amount s) (\<lambda>s2.
     and_then (debit_and_pay transfer e creator t creator balance amount s2) (\<lambda>s3.
     Inr (lj_emit (PayoutEv (EvWithdraw creator amount t (timestamp e))) s3)))))"

definition emergency_withdraw ::
  "'tk transfer_fn \<Rightarrow> env \<Rightarrow> address \<Rightarrow> address \<Rightarrow> address \<Rightarrow> 'tk core_jar \<Rightarrow> 'tk core_jar core_result" where
  "emergency_withdraw transfer e admin creator t s = and_then (admin_only e admin s) (\<lambda>_.
     let amount = balance_of creator t s in
     if amount = 0 then fail (TipJarError NothingToWithdraw)
     else
     and_then (lj_transfer transfer t (contract_address e) creator amount (set_balance creator t 0 s)) (\<lambda>s1.
     Inr (lj_emit (PayoutEv (EvWlEmrg creator amount)) s1)))"

section \<open>Batches\<close>

record withdraw_operation =
  wo_token :: address
  wo_amount :: int

fun batch_validate :: "address \<Rightarrow> withdraw_operation list \<Rightarrow> 'tk core_jar \<Rightarrow> unit core_result" where
  "batch_validate creator [] s = Inr ()"
| "batch_validate creator (x # xs) s =
     (if wo_amount x \<le> 0 then fail (TipJarError InvalidAmount)
      else if wo_amount x > get_withdrawable_balance creator (wo_token x) s then fail (TipJarError InsufficientBalance)
      else batch_validate creator xs s)"

fun batch_debit :: "address \<Rightarrow> withdraw_operation list \<Rightarrow> 'tk core_jar \<Rightarrow> 'tk core_jar" where
  "batch_debit creator [] s = s"
| "batch_debit creator (x # xs) s =
     batch_debit creator xs
       (set_balance creator (wo_token x) (sub_i128 (get_withdrawable_balance creator (wo_token x) s) (wo_amount x)) s)"

fun batch_pay ::
  "'tk transfer_fn \<Rightarrow> env \<Rightarrow> address \<Rightarrow> u32 \<Rightarrow> withdraw_operation list \<Rightarrow> 'tk core_jar \<Rightarrow> (batch_result list \<times> 'tk core_jar) core_result" where
  "batch_pay transfer e creator idx [] s = Inr ([], s)"
| "batch_pay transfer e creator idx (x # xs) s =
     and_then (lj_transfer transfer (wo_token x) (contract_address e) creator (wo_amount x) s) (\<lambda>s1.
     and_then (batch_pay transfer e creator (idx + 1) xs
         (lj_emit (PayoutEv (EvBtchWdr creator (wo_token x) (wo_amount x) idx)) s1)) (\<lambda>(rs, s2).
     Inr (\<lparr>br_success = True, br_index = idx\<rparr> # rs, s2)))"

definition batch_withdraw ::
  "'tk transfer_fn \<Rightarrow> env \<Rightarrow> address \<Rightarrow> withdraw_operation list \<Rightarrow> 'tk core_jar \<Rightarrow> (batch_result list \<times> 'tk core_jar) core_result" where
  "batch_withdraw transfer e creator operations s0 =
     and_then (not_paused e s0) (\<lambda>s.
     and_then (require_auth e creator) (\<lambda>_.
     if operations = [] \<or> length operations > 20 then fail (TipJarError BatchSizeExceeded)
     else
     and_then (batch_validate creator operations s) (\<lambda>_.
     and_then (batch_pay transfer e creator 0 operations (batch_debit creator operations s)) (\<lambda>(rs, s1).
     Inr (rs, lj_emit (PayoutEv (EvBatchWdr creator (of_nat (length operations)))) s1)))))"

section \<open>Delegates\<close>

definition add_delegate :: "address \<Rightarrow> address \<Rightarrow> payout_rules \<Rightarrow> payout_rules" where
  "add_delegate creator d p =
     (let ds = unwrap_or (po_delegates p creator) [] in
      if d \<in> set ds then p else p\<lparr>po_delegates := (po_delegates p)(creator \<mapsto> ds @ [d])\<rparr>)"

definition remove_delegate :: "address \<Rightarrow> address \<Rightarrow> payout_rules \<Rightarrow> payout_rules" where
  "remove_delegate creator d p =
     p\<lparr>po_delegates := (po_delegates p)(creator \<mapsto> filter (\<lambda>x. x \<noteq> d) (unwrap_or (po_delegates p creator) []))\<rparr>"

definition append_delegation_history :: "address \<Rightarrow> delegation_record \<Rightarrow> payout_rules \<Rightarrow> payout_rules" where
  "append_delegation_history creator dg p =
     p\<lparr>po_delegation_history := (po_delegation_history p)(creator \<mapsto> unwrap_or (po_delegation_history p creator) [] @ [dg])\<rparr>"

definition put_delegation :: "address \<Rightarrow> address \<Rightarrow> delegation_record \<Rightarrow> payout_rules \<Rightarrow> payout_rules" where
  "put_delegation creator d dg p = p\<lparr>po_delegation := (po_delegation p)((creator, d) \<mapsto> dg)\<rparr>"

definition delegate_withdrawal ::
  "env \<Rightarrow> address \<Rightarrow> address \<Rightarrow> int \<Rightarrow> u64 \<Rightarrow> 'tk core_jar \<Rightarrow> 'tk core_jar core_result" where
  "delegate_withdrawal e creator d max_amount duration s0 =
     and_then (not_paused e s0) (\<lambda>s.
     and_then (require_auth e creator) (\<lambda>_.
     if max_amount \<le> 0 then fail (TipJarError InvalidAmount)
     else if duration = 0 then fail (FeatureError InvalidDuration)
     else
     let expires_at = sat_add_u64 (timestamp e) duration;
         dg = \<lparr>dg_creator = creator, dg_delegate = d, dg_max_amount = max_amount, dg_used_amount = 0,
               dg_expires_at = expires_at, dg_active = True\<rparr>;
         p = append_delegation_history creator dg (add_delegate creator d (put_delegation creator d dg (lj_payout s))) in
     Inr (lj_emit (PayoutEv (EvDelegate creator d max_amount expires_at)) (s\<lparr>lj_payout := p\<rparr>))))"

text \<open>The bookkeeping of a delegate's withdrawal: a delegation used up is closed.\<close>

definition spend_delegation :: "address \<Rightarrow> address \<Rightarrow> delegation_record \<Rightarrow> int \<Rightarrow> payout_rules \<Rightarrow> payout_rules" where
  "spend_delegation creator d dg amount p =
     (let dg1 = dg\<lparr>dg_used_amount := add_i128 (dg_used_amount dg) amount\<rparr>;
          spent = dg_used_amount dg1 \<ge> dg_max_amount dg1;
          dg2 = (if spent then dg1\<lparr>dg_active := False\<rparr> else dg1);
          p1 = (if spent then remove_delegate creator d p else p) in
      append_delegation_history creator dg2 (put_delegation creator d dg2 p1))"

text \<open>An expired delegation is closed and the call panics, which undoes the closing.\<close>

definition withdraw_as_delegate ::
  "'tk transfer_fn \<Rightarrow> env \<Rightarrow> address \<Rightarrow> address \<Rightarrow> address \<Rightarrow> int \<Rightarrow> 'tk core_jar \<Rightarrow> 'tk core_jar core_result" where
  "withdraw_as_delegate transfer e d creator t amount s0 =
     and_then (not_paused e s0) (\<lambda>s.
     and_then (require_auth e d) (\<lambda>_.
     if amount \<le> 0 then fail (TipJarError InvalidAmount)
     else
     and_then (ok_or (FeatureError DelegationNotFound) (po_delegation (lj_payout s) (creator, d))) (\<lambda>dg.
     if \<not> dg_active dg then fail (FeatureError DelegationInactive)
     else if timestamp e > dg_expires_at dg
     then drop_and_fail
       (append_delegation_history creator (dg\<lparr>dg_active := False\<rparr>) (remove_delegate creator d
         (put_delegation creator d (dg\<lparr>dg_active := False\<rparr>) (lj_payout s)))) (FeatureError DelegationExpired)
     else if unwrap_or (checked_add_i128 (dg_used_amount dg) amount) I128_MAX > dg_max_amount dg
     then fail (FeatureError DelegationLimitExceeded)
     else
     let balance = balance_of creator t s in
     if amount > balance \<or> balance = 0 then fail (TipJarError NothingToWithdraw)
     else
     and_then (check_and_update_withdrawal_limits e creator amount s) (\<lambda>s1.
     let s2 = set_balance creator t (sub_i128 balance amount) s1;
         s3 = s2\<lparr>lj_payout := spend_delegation creator d dg amount (lj_payout s2)\<rparr> in
     and_then (lj_transfer transfer t (contract_address e) d amount s3) (\<lambda>s4.
     Inr (lj_emit (PayoutEv (EvDelWdr creator d amount t)) s4))))))"

definition revoke_delegation :: "env \<Rightarrow> address \<Rightarrow> address \<Rightarrow> 'tk core_jar \<Rightarrow> 'tk core_jar core_result" where
  "revoke_delegation e creator d s0 =
     and_then (not_paused e s0) (\<lambda>s.
     and_then (require_auth e creator) (\<lambda>_.
     and_then (ok_or (FeatureError DelegationNotFound) (po_delegation (lj_payout s) (creator, d))) (\<lambda>dg.
     if \<not> dg_active dg then fail (FeatureError DelegationInactive)
     else
     let dg' = dg\<lparr>dg_active := False\<rparr>;
         p = append_delegation_history creator dg' (remove_delegate creator d (put_delegation creator d dg' (lj_payout s))) in
     Inr (lj_emit (PayoutEv (EvDelRev creator d)) (s\<lparr>lj_payout := p\<rparr>)))))"

definition get_delegates :: "address \<Rightarrow> 'tk core_jar \<Rightarrow> address list" where
  "get_delegates creator s = unwrap_or (po_delegates (lj_payout s) creator) []"

section \<open>Several signers\<close>

definition put_request :: "u64 \<Rightarrow> multisig_withdrawal \<Rightarrow> 'tk core_jar \<Rightarrow> 'tk core_jar" where
  "put_request i r s = s\<lparr>lj_payout := (lj_payout s)\<lparr>po_msig := (po_msig (lj_payout s))(i \<mapsto> r)\<rparr>\<rparr>"

definition set_multisig_config ::
  "env \<Rightarrow> address \<Rightarrow> int \<Rightarrow> u32 \<Rightarrow> u64 \<Rightarrow> address list \<Rightarrow> 'tk core_jar \<Rightarrow> 'tk core_jar core_result" where
  "set_multisig_config e admin threshold required expiry signers s = and_then (admin_only e admin s) (\<lambda>_.
     if required = 0 \<or> required > of_nat (length signers) then fail (TipJarError Unauthorized)
     else Inr (lj_emit (PayoutEv (EvMsCfg threshold required expiry))
       (s\<lparr>lj_payout := (lj_payout s)\<lparr>po_msig_cfg := Some \<lparr>mc_threshold = threshold, mc_required_approvals = required,
          mc_expiry_seconds = expiry, mc_signers = signers\<rparr>\<rparr>\<rparr>)))"

definition request_multisig_withdrawal ::
  "'tk transfer_fn \<Rightarrow> env \<Rightarrow> address \<Rightarrow> address \<Rightarrow> int \<Rightarrow> 'tk core_jar \<Rightarrow> (u64 \<times> 'tk core_jar) core_result" where
  "request_multisig_withdrawal transfer e creator t amount s0 =
     and_then (not_paused e s0) (\<lambda>s.
     and_then (require_auth e creator) (\<lambda>_.
     let balance = balance_of creator t s in
     if balance = 0 \<or> amount \<le> 0 \<or> amount > balance then fail (TipJarError NothingToWithdraw)
     else
     and_then (ok_or (FeatureError MultiSigNotConfigured) (po_msig_cfg (lj_payout s))) (\<lambda>cfg.
     if mc_threshold cfg > 0 \<and> amount \<le> mc_threshold cfg
     then
       and_then (check_and_update_withdrawal_limits e creator amount s) (\<lambda>s1.
       and_then (debit_and_pay transfer e creator t creator balance amount s1) (\<lambda>s2.
       Inr (0, lj_emit (PayoutEv (EvWithdraw creator amount t (timestamp e))) s2)))
     else
     let i = unwrap_or (po_msig_ctr (lj_payout s)) 0;
         s1 = s\<lparr>lj_payout := (lj_payout s)\<lparr>po_msig_ctr := Some (i + 1)\<rparr>\<rparr>;
         expires_at = timestamp e + mc_expiry_seconds cfg;
         r = \<lparr>mw_request_id = i, mw_creator = creator, mw_token = t, mw_amount = amount, mw_approvals = [],
              mw_required_approvals = mc_required_approvals cfg, mw_expires_at = expires_at, mw_executed = False,
              mw_cancelled = False\<rparr> in
     Inr (i, lj_emit (PayoutEv (EvMsReq creator i amount expires_at)) (put_request i r s1)))))"

definition approve_withdrawal ::
  "'tk transfer_fn \<Rightarrow> env \<Rightarrow> address \<Rightarrow> u64 \<Rightarrow> 'tk core_jar \<Rightarrow> 'tk core_jar core_result" where
  "approve_withdrawal transfer e approver i s0 =
     and_then (not_paused e s0) (\<lambda>s.
     and_then (require_auth e approver) (\<lambda>_.
     and_then (ok_or (FeatureError MultiSigNotConfigured) (po_msig_cfg (lj_payout s))) (\<lambda>cfg.
     if approver \<notin> set (mc_signers cfg) then fail (FeatureError NotASigner)
     else
     and_then (ok_or (FeatureError MsigReqNotFound) (po_msig (lj_payout s) i)) (\<lambda>r.
     if mw_executed r \<or> mw_cancelled r then fail (FeatureError MultiSigReqClosed)
     else if timestamp e > mw_expires_at r then fail (FeatureError MultiSigReqExpired)
     else if approver \<in> set (mw_approvals r) then fail (FeatureError AlreadyApproved)
     else
     let r1 = r\<lparr>mw_approvals := mw_approvals r @ [approver]\<rparr>;
         s1 = lj_emit (PayoutEv (EvMsApr approver i)) s in
     if of_nat (length (mw_approvals r1)) \<ge> mw_required_approvals r1
     then
       let balance = balance_of (mw_creator r1) (mw_token r1) s1 in
       if balance < mw_amount r1 then fail (TipJarError InsufficientBalance)
       else
       let s2 = set_balance (mw_creator r1) (mw_token r1) (sub_i128 balance (mw_amount r1)) s1;
           s3 = put_request i (r1\<lparr>mw_executed := True\<rparr>) s2 in
       and_then (lj_transfer transfer (mw_token r1) (contract_address e) (mw_creator r1) (mw_amount r1) s3) (\<lambda>s4.
       Inr (lj_emit (PayoutEv (EvMsExe (mw_creator r1) i (mw_amount r1))) s4))
     else Inr (put_request i r1 s1)))))"

definition cancel_multisig_withdrawal :: "env \<Rightarrow> address \<Rightarrow> u64 \<Rightarrow> 'tk core_jar \<Rightarrow> 'tk core_jar core_result" where
  "cancel_multisig_withdrawal e caller i s =
     and_then (require_auth e caller) (\<lambda>_.
     and_then (ok_or (FeatureError MsigReqNotFound) (po_msig (lj_payout s) i)) (\<lambda>r.
     if mw_executed r \<or> mw_cancelled r then fail (FeatureError MultiSigReqClosed)
     else case lj_admin s of
       None \<Rightarrow> Inl Trapped
     | Some a \<Rightarrow>
         if caller \<noteq> mw_creator r \<and> caller \<noteq> a then fail (TipJarError Unauthorized)
         else Inr (lj_emit (PayoutEv (EvMsCncl (mw_creator r) i)) (put_request i (r\<lparr>mw_cancelled := True\<rparr>) s))))"

end
