(* ===== verification/Legacy_Insurance.thy ===== *)
theory Legacy_Insurance
  imports Legacy_Payouts
begin

text \<open>
  The insurance pools of the superseded tip jar (\<^verbatim>\<open>insurance_set_config\<close> to
  \<^verbatim>\<open>insurance_process_claims_batch\<close> of \<^verbatim>\<open>src/contracts/tipjar-legacy/src/lib.rs\<close>): creators contribute, submit
  claims, an administrator approves and pays them. Where the source writes the unchanged claim back after it
  has changed a copy, so does the model.
\<close>

section \<open>Administration\<close>

definition upd_insurance :: "(insurance \<Rightarrow> insurance) \<Rightarrow> 'tk core_jar \<Rightarrow> 'tk core_jar" where
  "upd_insurance f s = s\<lparr>lj_insurance := f (lj_insurance s)\<rparr>"

definition insurance_set_config :: "env \<Rightarrow> address \<Rightarrow> insurance_config \<Rightarrow> 'tk core_jar \<Rightarrow> 'tk core_jar core_result" where
  "insurance_set_config e admin cfg s = and_then (admin_only e admin s) (\<lambda>_.
     if ic_min_contribution cfg < 0 \<or> ic_max_contribution cfg \<le> ic_min_contribution cfg then fail (TipJarError InvalidAmount)
     else if ic_premium_rate_bps cfg > 500 then fail (FeatureError FeeExceedsMaximum)
     else if ic_payout_ratio_bps cfg > 10000 then fail (TipJarError InvalidAmount)
     else if ic_tip_premium_bps cfg > 1000 then fail (FeatureError FeeExceedsMaximum)
     else Inr (lj_emit (InsuranceEv (EvInsCfg (ic_min_contribution cfg) (ic_max_contribution cfg) (ic_premium_rate_bps cfg)
         (ic_payout_ratio_bps cfg) (ic_tip_premium_bps cfg))) (upd_insurance (in_cfg_update (\<lambda>_. Some cfg)) s)))"

definition insurance_set_enabled :: "env \<Rightarrow> address \<Rightarrow> bool \<Rightarrow> 'tk core_jar \<Rightarrow> 'tk core_jar core_result" where
  "insurance_set_enabled e admin enabled s = and_then (admin_only e admin s) (\<lambda>_.
     Inr (lj_emit (InsuranceEv (EvInsEn enabled)) (upd_insurance (in_enabled_update (\<lambda>_. Some enabled)) s)))"

definition insurance_set_max_active_claims :: "env \<Rightarrow> address \<Rightarrow> u32 \<Rightarrow> 'tk core_jar \<Rightarrow> 'tk core_jar core_result" where
  "insurance_set_max_active_claims e admin max_claims s = and_then (admin_only e admin s) (\<lambda>_.
     if max_claims = 0 then fail (TipJarError InvalidAmount)
     else Inr (lj_emit (InsuranceEv (EvInsMax max_claims)) (upd_insurance (in_max_update (\<lambda>_. Some max_claims)) s)))"

definition insurance_set_admin :: "env \<Rightarrow> address \<Rightarrow> address \<Rightarrow> 'tk core_jar \<Rightarrow> 'tk core_jar core_result" where
  "insurance_set_admin e admin insurance_admin s = and_then (admin_only e admin s) (\<lambda>_.
     Inr (lj_emit (InsuranceEv (EvInsAdm insurance_admin)) (upd_insurance (in_admin_update (\<lambda>_. Some insurance_admin)) s)))"

definition insurance_is_enabled :: "'tk core_jar \<Rightarrow> bool" where
  "insurance_is_enabled s = unwrap_or (in_enabled (lj_insurance s)) True"

text \<open>The admin of the contract or the insurance admin, who is the admin unless another is named.\<close>

definition insurance_officer :: "env \<Rightarrow> address \<Rightarrow> 'tk core_jar \<Rightarrow> unit core_result" where
  "insurance_officer e caller s =
     and_then (require_auth e caller) (\<lambda>_.
     case lj_admin s of
       None \<Rightarrow> Inl Trapped
     | Some a \<Rightarrow>
         if caller \<noteq> a \<and> caller \<noteq> unwrap_or (in_admin (lj_insurance s)) a then fail (InsuranceError AdmAppReq) else Inr ())"

section \<open>Contributions\<close>

definition insurance_contribute ::
  "'tk transfer_fn \<Rightarrow> env \<Rightarrow> address \<Rightarrow> address \<Rightarrow> int \<Rightarrow> 'tk core_jar \<Rightarrow> 'tk core_jar core_result" where
  "insurance_contribute transfer e creator t amount s0 =
     and_then (not_paused e s0) (\<lambda>s.
     and_then (require_auth e creator) (\<lambda>_.
     if \<not> insurance_is_enabled s then fail (InsuranceError InsuranceDisabled)
     else
     and_then (ok_or (InsuranceError InsPoolNotCfg) (in_cfg (lj_insurance s))) (\<lambda>cfg.
     if amount < ic_min_contribution cfg then fail (InsuranceError ContributionTooLow)
     else if amount > ic_max_contribution cfg then fail (InsuranceError ContributionTooHigh)
     else if \<not> legacy_whitelisted (lj_instance s) t then fail (TipJarError TokenNotWhitelisted)
     else
     and_then (lj_transfer transfer t creator (contract_address e) amount s) (\<lambda>s1.
     let premium_amount = bps_of amount (ic_premium_rate_bps cfg);
         pool = unwrap_or (in_pool (lj_insurance s1) t) (new_pool e t);
         pool1 = pool\<lparr>ip_total_reserves := add_i128 (ip_total_reserves pool) (sub_i128 amount premium_amount),
                    ip_total_contributions := add_i128 (ip_total_contributions pool) amount\<rparr>;
         s2 = put_pool t pool1 s1;
         s3 = upd_insurance (\<lambda>ins. ins\<lparr>in_contrib := (in_contrib ins)((creator, t) \<mapsto>
                add_i128 (unwrap_or (in_contrib ins (creator, t)) 0) amount)\<rparr>) s2;
         s4 = track_creator_token creator t s3;
         s5 = (if premium_amount > 0 then set_fee_balance t (add_i128 (fee_of t s4) premium_amount) s4 else s4) in
     Inr (lj_emit (InsuranceEv (EvInsCon creator t amount (ip_total_reserves pool1))) s5)))))"

definition insurance_get_coverage :: "address \<Rightarrow> address \<Rightarrow> 'tk core_jar \<Rightarrow> int core_result" where
  "insurance_get_coverage creator t s =
     and_then (ok_or (InsuranceError InsPoolNotCfg) (in_cfg (lj_insurance s))) (\<lambda>cfg.
     let contrib = unwrap_or (in_contrib (lj_insurance s) (creator, t)) 0;
         premium_earned = bps_of (total_of creator t s) (ic_tip_premium_bps cfg) in
     Inr (bps_of (add_i128 contrib premium_earned) (ic_payout_ratio_bps cfg)))"

section \<open>Claims\<close>

definition active_claims_of :: "address \<Rightarrow> address \<Rightarrow> u32 \<Rightarrow> 'tk core_jar \<Rightarrow> u32" where
  "active_claims_of creator t d s = unwrap_or (in_active (lj_insurance s) (creator, t)) d"

definition insurance_submit_claim ::
  "env \<Rightarrow> address \<Rightarrow> address \<Rightarrow> int \<Rightarrow> bytes32 \<Rightarrow> 'tk core_jar \<Rightarrow> (u64 \<times> 'tk core_jar) core_result" where
  "insurance_submit_claim e creator t amount tx_hash s0 =
     and_then (not_paused e s0) (\<lambda>s.
     and_then (require_auth e creator) (\<lambda>_.
     if amount \<le> 0 then fail (InsuranceError InvalidClaimAmount)
     else if \<not> insurance_is_enabled s then fail (InsuranceError InsuranceDisabled)
     else
     and_then (ok_or (InsuranceError InsPoolNotCfg) (in_cfg (lj_insurance s))) (\<lambda>cfg.
     and_then (insurance_get_coverage creator t s) (\<lambda>max_payout.
     if max_payout \<le> 0 then fail (InsuranceError NoCoverage)
     else
     let ins = lj_insurance s;
         active = active_claims_of creator t 0 s;
         last_claim = unwrap_or (in_last ins (creator, t)) 0;
         now = timestamp e in
     if active \<ge> unwrap_or (in_max ins) 3 then fail (InsuranceError TooManyActiveClaims)
     else if last_claim > 0 \<and> now < last_claim + ic_claim_cooldown cfg then fail (InsuranceError ClaimCooldownActive)
     else
     and_then (ok_or (InsuranceError InsufficientReserves) (in_pool ins t)) (\<lambda>pool.
     if amount > max_payout then fail (InsuranceError PayoutExceedsReserves)
     else if amount > ip_total_reserves pool then fail (InsuranceError InsufficientReserves)
     else
     let i = unwrap_or (in_ctr ins) 0;
         claim = \<lparr>cl_claim_id = i, cl_creator = creator, cl_token = t, cl_amount = amount, cl_tx_hash = tx_hash,
                  cl_status = ClaimPending, cl_created_at = now, cl_updated_at = now, cl_last_claim_at = last_claim\<rparr>;
         pool1 = pool\<lparr>ip_active_claims := ip_active_claims pool + 1, ip_total_claims := ip_total_claims pool + 1\<rparr>;
         ins1 = ins\<lparr>in_ctr := Some (i + 1), in_claim := (in_claim ins)(i \<mapsto> claim),
                  in_claims := (in_claims ins)((creator, t) \<mapsto> unwrap_or (in_claims ins (creator, t)) [] @ [i]),
                  in_active := (in_active ins)((creator, t) \<mapsto> active + 1),
                  in_total := (in_total ins)((creator, t) \<mapsto> unwrap_or (in_total ins (creator, t)) 0 + 1),
                  in_pool := (in_pool ins)(t \<mapsto> pool1)\<rparr> in
     Inr (i, lj_emit (InsuranceEv (EvClmSub i creator t amount)) (s\<lparr>lj_insurance := ins1\<rparr>)))))))"

text \<open>
  The changes of an approval: the pool and the creator lose an active claim. The record of the claim is
  written back as it was read.
\<close>

definition set_claim :: "u64 \<Rightarrow> insurance_claim \<Rightarrow> 'tk core_jar \<Rightarrow> 'tk core_jar" where
  "set_claim i claim = upd_insurance (\<lambda>ins. ins\<lparr>in_claim := (in_claim ins)(i \<mapsto> claim)\<rparr>)"

definition drop_active :: "address \<Rightarrow> address \<Rightarrow> 'tk core_jar \<Rightarrow> 'tk core_jar" where
  "drop_active creator t s =
     upd_insurance (\<lambda>ins. ins\<lparr>in_active := (in_active ins)((creator, t) \<mapsto> active_claims_of creator t 1 s - 1)\<rparr>) s"

definition close_active :: "u64 \<Rightarrow> insurance_claim \<Rightarrow> 'tk core_jar \<Rightarrow> 'tk core_jar core_result" where
  "close_active i claim s =
     (case in_pool (lj_insurance s) (cl_token claim) of
        None \<Rightarrow> Inl Trapped
      | Some pool \<Rightarrow>
          Inr (drop_active (cl_creator claim) (cl_token claim)
            (put_pool (cl_token claim) (pool\<lparr>ip_active_claims := ip_active_claims pool - 1\<rparr>) s)))"

definition insurance_approve_claim :: "env \<Rightarrow> address \<Rightarrow> u64 \<Rightarrow> 'tk core_jar \<Rightarrow> 'tk core_jar core_result" where
  "insurance_approve_claim e approver i s =
     and_then (insurance_officer e approver s) (\<lambda>_.
     and_then (ok_or (InsuranceError ClaimNotFound) (in_claim (lj_insurance s) i)) (\<lambda>claim.
     if cl_status claim \<noteq> ClaimPending then fail (InsuranceError ClaimNotApproved)
     else
     let updated_claim = claim\<lparr>cl_status := ClaimApproved, cl_updated_at := timestamp e\<rparr> in
     and_then (close_active i claim (set_claim i claim s)) (\<lambda>s1.
     Inr (lj_emit (InsuranceEv (EvClmApp i approver)) s1))))"

definition insurance_reject_claim :: "env \<Rightarrow> address \<Rightarrow> u64 \<Rightarrow> 'tk core_jar \<Rightarrow> 'tk core_jar core_result" where
  "insurance_reject_claim e rejector i s =
     and_then (insurance_officer e rejector s) (\<lambda>_.
     and_then (ok_or (InsuranceError ClaimNotFound) (in_claim (lj_insurance s) i)) (\<lambda>claim.
     if cl_status claim \<noteq> ClaimPending \<and> cl_status claim \<noteq> ClaimApproved then fail (InsuranceError ClaimNotApproved)
     else
     let updated_claim = claim\<lparr>cl_status := ClaimRejected, cl_updated_at := timestamp e\<rparr>;
         s1 = set_claim i claim s in
     and_then (if cl_status claim = ClaimApproved then close_active i claim s1 else Inr s1) (\<lambda>s2.
     Inr (lj_emit (InsuranceEv (EvClmRej i rejector)) s2))))"

text \<open>The changes of a payment of a claim out of a pool.\<close>

definition settle_pool :: "env \<Rightarrow> insurance_claim \<Rightarrow> insurance_pool \<Rightarrow> insurance_pool" where
  "settle_pool e claim pool =
     pool\<lparr>ip_total_reserves := sub_i128 (ip_total_reserves pool) (cl_amount claim),
       ip_total_claims_paid := add_i128 (ip_total_claims_paid pool) (cl_amount claim),
       ip_active_claims := ip_active_claims pool - 1, ip_last_payout_time := timestamp e\<rparr>"

definition note_payment :: "env \<Rightarrow> u64 \<Rightarrow> insurance_claim \<Rightarrow> 'tk core_jar \<Rightarrow> 'tk core_jar" where
  "note_payment e i claim s =
     drop_active (cl_creator claim) (cl_token claim)
       (upd_insurance (\<lambda>ins. ins\<lparr>in_last := (in_last ins)((cl_creator claim, cl_token claim) \<mapsto> timestamp e)\<rparr>) (set_claim i claim s))"

definition insurance_pay_claim ::
  "'tk transfer_fn \<Rightarrow> env \<Rightarrow> address \<Rightarrow> u64 \<Rightarrow> 'tk core_jar \<Rightarrow> 'tk core_jar core_result" where
  "insurance_pay_claim transfer e caller i s =
     and_then (insurance_officer e caller s) (\<lambda>_.
     and_then (ok_or (InsuranceError ClaimNotFound) (in_claim (lj_insurance s) i)) (\<lambda>claim.
     if cl_status claim \<noteq> ClaimApproved then fail (InsuranceError ClaimNotApproved)
     else
     and_then (ok_or (InsuranceError InsufficientReserves) (in_pool (lj_insurance s) (cl_token claim))) (\<lambda>pool.
     if cl_amount claim > ip_total_reserves pool then fail (InsuranceError InsufficientReserves)
     else
     let k = (cl_creator claim, cl_token claim);
         new_contrib = sub_i128 (unwrap_or (in_contrib (lj_insurance s) k) 0) (cl_amount claim);
         s1 = upd_insurance (\<lambda>ins. ins\<lparr>in_contrib := (in_contrib ins)(k \<mapsto> max new_contrib 0)\<rparr>) s;
         s2 = put_pool (cl_token claim) (settle_pool e claim pool) s1;
         updated_claim = claim\<lparr>cl_status := ClaimPaid, cl_updated_at := timestamp e\<rparr>;
         s3 = note_payment e i claim s2 in
     and_then (lj_transfer transfer (cl_token claim) (contract_address e) (cl_creator claim) (cl_amount claim) s3) (\<lambda>s4.
     Inr (lj_emit (InsuranceEv (EvClmPaid i (cl_amount claim) (cl_creator claim))) s4)))))"

definition insurance_withdraw_excess ::
  "'tk transfer_fn \<Rightarrow> env \<Rightarrow> address \<Rightarrow> address \<Rightarrow> int \<Rightarrow> 'tk core_jar \<Rightarrow> 'tk core_jar core_result" where
  "insurance_withdraw_excess transfer e admin t amount s = and_then (admin_only e admin s) (\<lambda>_.
     if amount \<le> 0 then fail (TipJarError InvalidAmount)
     else
     and_then (ok_or (InsuranceError InsufficientReserves) (in_pool (lj_insurance s) t)) (\<lambda>pool.
     let min_reserve = ip_total_contributions pool sdiv 10 in
     if sub_i128 (ip_total_reserves pool) amount < min_reserve then fail (InsuranceError InsufficientReserves)
     else
     let s1 = put_pool t (pool\<lparr>ip_total_reserves := sub_i128 (ip_total_reserves pool) amount\<rparr>) s in
     and_then (lj_transfer transfer t (contract_address e) admin amount s1) (\<lambda>s2.
     Inr (lj_emit (InsuranceEv (EvPolWit t amount)) s2))))"

fun claims_loop ::
  "'tk transfer_fn \<Rightarrow> env \<Rightarrow> string \<Rightarrow> u64 list \<Rightarrow> u32 \<Rightarrow> u32 \<Rightarrow> 'tk core_jar \<Rightarrow> ((u32 \<times> u32) \<times> 'tk core_jar) core_result" where
  "claims_loop transfer e action [] approved paid s = Inr ((approved, paid), s)"
| "claims_loop transfer e action (i # is) approved paid s =
     and_then (ok_or (InsuranceError ClaimNotFound) (in_claim (lj_insurance s) i)) (\<lambda>claim.
     if action = ''approve''
     then
       if cl_status claim = ClaimPending
       then
         let updated_claim = claim\<lparr>cl_status := ClaimApproved, cl_updated_at := timestamp e\<rparr> in
         and_then (close_active i claim (set_claim i claim s)) (\<lambda>s1.
         claims_loop transfer e action is (approved + 1) paid s1)
       else claims_loop transfer e action is approved paid s
     else if action = ''pay'' \<and> cl_status claim = ClaimApproved
     then
       case in_pool (lj_insurance s) (cl_token claim) of
         None \<Rightarrow> Inl Trapped
       | Some pool \<Rightarrow>
           if cl_amount claim \<le> ip_total_reserves pool
           then
             let s1 = put_pool (cl_token claim) (settle_pool e claim pool) s;
                 updated_claim = claim\<lparr>cl_status := ClaimPaid, cl_updated_at := timestamp e\<rparr>;
                 s2 = note_payment e i claim s1 in
             and_then (lj_transfer transfer (cl_token claim) (contract_address e) (cl_creator claim) (cl_amount claim) s2) (\<lambda>s3.
             claims_loop transfer e action is approved (paid + 1) s3)
           else claims_loop transfer e action is approved paid s
     else claims_loop transfer e action is approved paid s)"

definition insurance_process_claims_batch ::
  "'tk transfer_fn \<Rightarrow> env \<Rightarrow> address \<Rightarrow> u64 list \<Rightarrow> string \<Rightarrow> 'tk core_jar \<Rightarrow> 'tk core_jar core_result" where
  "insurance_process_claims_batch transfer e admin claim_ids action s = and_then (admin_only e admin s) (\<lambda>_.
     and_then (claims_loop transfer e action claim_ids 0 0 s) (\<lambda>((approved, paid), s1).
     Inr (lj_emit (InsuranceEv (EvClmPro approved paid)) s1)))"

end
