(* ===== verification/Legacy_Money.thy ===== *)
theory Legacy_Money
  imports Legacy_Insurance
begin

text \<open>
  What the superseded tip jar owes in a token: the balances of the creators, the platform's fees under
  both of their keys and the reserves of the insurance. Every call moves these accounts; the lemmas here
  say by how much.
\<close>

section \<open>The sum of the accounts\<close>

definition old_fee_of :: "address \<Rightarrow> 'tk core_jar \<Rightarrow> int" where
  "old_fee_of t s = unwrap_or (bk_old_fee (lj_books s) t) 0"

definition reserve_of :: "address \<Rightarrow> 'tk core_jar \<Rightarrow> int" where
  "reserve_of t s = (case in_pool (lj_insurance s) t of None \<Rightarrow> 0 | Some p \<Rightarrow> ip_total_reserves p)"

definition owed :: "address \<Rightarrow> 'tk core_jar \<Rightarrow> int" where
  "owed t s = support_total (\<lambda>c. balance_of c t s) + fee_of t s + old_fee_of t s + reserve_of t s"

definition accounts_ok :: "'tk core_jar \<Rightarrow> bool" where
  "accounts_ok s \<longleftrightarrow> finite (dom (bk_balance (lj_books s))) \<and> (\<forall>c t. 0 \<le> balance_of c t s) \<and>
     (\<forall>t. 0 \<le> fee_of t s \<and> 0 \<le> old_fee_of t s \<and> 0 \<le> reserve_of t s) \<and> bk_old_balance (lj_books s) = Map.empty"

lemma finite_balances: "finite (dom (bk_balance (lj_books s))) \<Longrightarrow> finite (support (\<lambda>c. balance_of c t s))"
proof (rule finite_subset)
  show "support (\<lambda>c. balance_of c t s) \<subseteq> fst ` dom (bk_balance (lj_books s))"
    by (force simp: support_def balance_of_def unwrap_or_def dom_def image_iff split: option.splits)
qed simp

lemma account_le_owed:
  assumes "accounts_ok s"
  shows "balance_of c t s \<le> owed t s" "fee_of t s \<le> owed t s" "old_fee_of t s \<le> owed t s" "reserve_of t s \<le> owed t s"
    "0 \<le> balance_of c t s" "0 \<le> fee_of t s" "0 \<le> old_fee_of t s" "0 \<le> reserve_of t s"
    "balance_of c t s + fee_of t s \<le> owed t s"
proof -
  have nonneg: "0 \<le> balance_of c t s" "0 \<le> fee_of t s" "0 \<le> old_fee_of t s" "0 \<le> reserve_of t s" for c
    using assms by (auto simp: accounts_ok_def)
  moreover have "balance_of c t s \<le> support_total (\<lambda>c. balance_of c t s)"
    using assms nonneg finite_balances by (intro support_total_ge) (auto simp: accounts_ok_def)
  moreover have "0 \<le> support_total (\<lambda>c. balance_of c t s)" using nonneg by (intro support_total_nonneg)
  ultimately show "balance_of c t s \<le> owed t s" "fee_of t s \<le> owed t s" "old_fee_of t s \<le> owed t s" "reserve_of t s \<le> owed t s"
    "0 \<le> balance_of c t s" "0 \<le> fee_of t s" "0 \<le> old_fee_of t s" "0 \<le> reserve_of t s"
    "balance_of c t s + fee_of t s \<le> owed t s"
    by (auto simp: owed_def)
qed

section \<open>Movements\<close>

text \<open>
  The settings that bound fees and premiums, and the milestones. \<open>books_move t d\<close> is a change of the books
  by \<open>d\<close> in token \<open>t\<close> that keeps the accounts in order and the token ledger, the settings and the rest of the
  payout rules as they are.
\<close>

definition settings :: "'tk core_jar \<Rightarrow> u32 option \<times> u32 option \<times> insurance_config option \<times> (address \<rightharpoonup> u64 list)" where
  "settings s = (lj_fee_bps s, lj_old_fee_bps s, in_cfg (lj_insurance s), gb_active (lj_goals s))"

definition books_move :: "address \<Rightarrow> int \<Rightarrow> 'tk core_jar \<Rightarrow> 'tk core_jar \<Rightarrow> bool" where
  "books_move t d s s' \<longleftrightarrow> accounts_ok s' \<and> (\<forall>t'. owed t' s' = owed t' s + (if t' = t then d else 0)) \<and>
     lj_tokens s' = lj_tokens s \<and> settings s' = settings s \<and> lj_payout s' = lj_payout s"

lemma books_move_trans:
  "books_move t d s s1 \<Longrightarrow> books_move t d' s1 s2 \<Longrightarrow> books_move t (d + d') s s2"
  by (auto simp: books_move_def)

lemma books_move_ok: "books_move t d s s' \<Longrightarrow> accounts_ok s'"
  by (simp add: books_move_def)

text \<open>Calls that leave the accounts alone.\<close>

definition same_accounts :: "'tk core_jar \<Rightarrow> 'tk core_jar \<Rightarrow> bool" where
  "same_accounts s s' \<longleftrightarrow> bk_balance (lj_books s') = bk_balance (lj_books s) \<and> bk_old_balance (lj_books s') = bk_old_balance (lj_books s) \<and>
     bk_fee (lj_books s') = bk_fee (lj_books s) \<and> bk_old_fee (lj_books s') = bk_old_fee (lj_books s) \<and>
     (\<forall>t. reserve_of t s' = reserve_of t s)"

lemma same_accounts_of:
  assumes "same_accounts s s'"
  shows "balance_of c t s' = balance_of c t s" "fee_of t s' = fee_of t s" "old_fee_of t s' = old_fee_of t s"
    "reserve_of t s' = reserve_of t s" "owed t s' = owed t s" "accounts_ok s' = accounts_ok s"
proof -
  have r: "reserve_of t s' = reserve_of t s" for t using assms by (simp add: same_accounts_def)
  moreover have b: "balance_of c t s' = balance_of c t s" "fee_of t s' = fee_of t s" "old_fee_of t s' = old_fee_of t s" for c t
    using assms by (auto simp: same_accounts_def balance_of_def fee_of_def old_fee_of_def)
  ultimately show "owed t s' = owed t s" "accounts_ok s' = accounts_ok s"
    using assms by (auto simp: owed_def accounts_ok_def same_accounts_def)
  show "balance_of c t s' = balance_of c t s" "fee_of t s' = fee_of t s" "old_fee_of t s' = old_fee_of t s"
    "reserve_of t s' = reserve_of t s" by (rule b r)+
qed

lemma same_accounts_refl [simp]: "same_accounts s s"
  by (simp add: same_accounts_def)

lemma same_accounts_trans: "same_accounts s s1 \<Longrightarrow> same_accounts s1 s2 \<Longrightarrow> same_accounts s s2"
  by (simp add: same_accounts_def)

lemma books_move_same:
  "accounts_ok s \<Longrightarrow> same_accounts s s' \<Longrightarrow> lj_tokens s' = lj_tokens s \<Longrightarrow> settings s' = settings s \<Longrightarrow>
   lj_payout s' = lj_payout s \<Longrightarrow> books_move t 0 s s'"
  by (simp add: books_move_def same_accounts_of)

lemma books_move_balance:
  assumes "accounts_ok s" "0 \<le> v"
  shows "books_move t (v - balance_of c t s) s (set_balance c t v s)"
proof -
  let ?s = "set_balance c t v s"
  have b: "balance_of c' t' ?s = (if c' = c \<and> t' = t then v else balance_of c' t' s)" for c' t'
    by (simp add: balance_of_def set_balance_def)
  have "(\<lambda>c'. balance_of c' t ?s) = (\<lambda>c'. balance_of c' t s)(c := v)" by (auto simp: b)
  moreover have "t' \<noteq> t \<Longrightarrow> (\<lambda>c'. balance_of c' t' ?s) = (\<lambda>c'. balance_of c' t' s)" for t' by (auto simp: b)
  moreover have "finite (support (\<lambda>c. balance_of c t s))" using assms(1) finite_balances by (auto simp: accounts_ok_def)
  ultimately have "owed t' ?s = owed t' s + (if t' = t then v - balance_of c t s else 0)" for t'
    by (simp add: owed_def support_total_upd fee_of_def old_fee_of_def reserve_of_def set_balance_def)
  moreover have "accounts_ok ?s"
    using assms by (auto simp: accounts_ok_def balance_of_def fee_of_def old_fee_of_def reserve_of_def set_balance_def)
  ultimately show ?thesis by (simp add: books_move_def settings_def set_balance_def)
qed

lemma books_move_fee:
  assumes "accounts_ok s" "0 \<le> v"
  shows "books_move t (v - fee_of t s) s (set_fee_balance t v s)"
proof -
  let ?s = "set_fee_balance t v s"
  have b: "fee_of t' ?s = (if t' = t then v else fee_of t' s)" for t' by (simp add: fee_of_def set_fee_balance_def)
  then have "owed t' ?s = owed t' s + (if t' = t then v - fee_of t s else 0)" for t'
    by (simp add: owed_def balance_of_def old_fee_of_def reserve_of_def set_fee_balance_def)
  moreover have "accounts_ok ?s"
    using assms b by (auto simp: accounts_ok_def balance_of_def old_fee_of_def reserve_of_def set_fee_balance_def)
  ultimately show ?thesis by (simp add: books_move_def settings_def set_fee_balance_def)
qed

lemma books_move_old_fee:
  assumes "accounts_ok s" "0 \<le> v"
  shows "books_move t (v - old_fee_of t s) s (set_old_fee t v s)"
proof -
  let ?s = "set_old_fee t v s"
  have b: "old_fee_of t' ?s = (if t' = t then v else old_fee_of t' s)" for t' by (simp add: old_fee_of_def set_old_fee_def)
  then have "owed t' ?s = owed t' s + (if t' = t then v - old_fee_of t s else 0)" for t'
    by (simp add: owed_def balance_of_def fee_of_def reserve_of_def set_old_fee_def)
  moreover have "accounts_ok ?s"
    using assms b by (auto simp: accounts_ok_def balance_of_def fee_of_def reserve_of_def set_old_fee_def)
  ultimately show ?thesis by (simp add: books_move_def settings_def set_old_fee_def)
qed

lemma books_move_pool:
  assumes "accounts_ok s" "0 \<le> ip_total_reserves p"
  shows "books_move t (ip_total_reserves p - reserve_of t s) s (put_pool t p s)"
proof -
  let ?s = "put_pool t p s"
  have b: "reserve_of t' ?s = (if t' = t then ip_total_reserves p else reserve_of t' s)" for t'
    by (simp add: reserve_of_def put_pool_def)
  then have "owed t' ?s = owed t' s + (if t' = t then ip_total_reserves p - reserve_of t s else 0)" for t'
    by (simp add: owed_def balance_of_def fee_of_def old_fee_of_def put_pool_def)
  moreover have "accounts_ok ?s"
    using assms b by (auto simp: accounts_ok_def balance_of_def fee_of_def old_fee_of_def put_pool_def)
  ultimately show ?thesis by (simp add: books_move_def settings_def put_pool_def)
qed

lemma books_move_repaid:
  assumes "accounts_ok s" "repaid_state t r s s'" "0 \<le> r"
  shows "books_move t r s s'" "balance_of c t s' = balance_of c t s" "total_of c t s' = total_of c t s"
    "get_withdrawable_balance c t s' = get_withdrawable_balance c t s"
proof -
  obtain bf cb ev where s': "s' = s\<lparr>lj_books := (lj_books s)\<lparr>bk_fee := bf\<rparr>, lj_credit := cb, lj_events := ev\<rparr>"
      and bf: "unwrap_or (bf t) 0 = fee_of t s + r" "\<And>t'. t' \<noteq> t \<Longrightarrow> bf t' = bk_fee (lj_books s) t'"
    using assms(2) by (auto simp: repaid_state_def)
  have b: "fee_of t' s' = (if t' = t then fee_of t s + r else fee_of t' s)" for t'
    using bf by (simp add: fee_of_def s')
  then have "owed t' s' = owed t' s + (if t' = t then r else 0)" for t'
    by (simp add: owed_def balance_of_def old_fee_of_def reserve_of_def s')
  moreover have "accounts_ok s'"
    using assms b by (auto simp: accounts_ok_def balance_of_def old_fee_of_def reserve_of_def s')
  ultimately show "books_move t r s s'" by (simp add: books_move_def settings_def s')
  show "balance_of c t s' = balance_of c t s" "total_of c t s' = total_of c t s"
    "get_withdrawable_balance c t s' = get_withdrawable_balance c t s"
    by (simp_all add: s' balance_of_def total_of_def get_withdrawable_balance_def)
qed

text \<open>The helpers that touch none of it.\<close>

lemma frame_total [simp]:
  "same_accounts s (set_total c t v s)" "lj_tokens (set_total c t v s) = lj_tokens s" "settings (set_total c t v s) = settings s"
  "lj_payout (set_total c t v s) = lj_payout s" "lj_credit (set_total c t v s) = lj_credit s"
  by (simp_all add: same_accounts_def reserve_of_def settings_def set_total_def)

lemma frame_emit [simp]:
  "same_accounts s (lj_emit ev s)" "lj_tokens (lj_emit ev s) = lj_tokens s" "settings (lj_emit ev s) = settings s"
  "lj_payout (lj_emit ev s) = lj_payout s" "lj_credit (lj_emit ev s) = lj_credit s"
  by (simp_all add: same_accounts_def reserve_of_def settings_def lj_emit_def)

lemma frame_leaderboard [simp]:
  "same_accounts s (update_leaderboard_stats a c n s)" "lj_tokens (update_leaderboard_stats a c n s) = lj_tokens s"
  "settings (update_leaderboard_stats a c n s) = settings s" "lj_payout (update_leaderboard_stats a c n s) = lj_payout s"
  "lj_credit (update_leaderboard_stats a c n s) = lj_credit s"
  by (simp_all add: same_accounts_def reserve_of_def settings_def update_leaderboard_stats_def)

lemma frame_track [simp]:
  "same_accounts s (track_creator_token c t s)" "lj_tokens (track_creator_token c t s) = lj_tokens s"
  "settings (track_creator_token c t s) = settings s" "lj_payout (track_creator_token c t s) = lj_payout s"
  "lj_credit (track_creator_token c t s) = lj_credit s"
  by (simp_all add: same_accounts_def reserve_of_def settings_def track_creator_token_def Let_def)

lemma frame_standing [simp]:
  "same_accounts s (record_standing e a c n m s)" "lj_tokens (record_standing e a c n m s) = lj_tokens s"
  "settings (record_standing e a c n m s) = settings s" "lj_payout (record_standing e a c n m s) = lj_payout s"
  "lj_credit (record_standing e a c n m s) = lj_credit s"
  by (simp_all add: same_accounts_def reserve_of_def settings_def record_standing_def update_leaderboard_stats_def Let_def)

lemma frame_guards:
  "not_paused e s = Inr s' \<Longrightarrow> \<exists>g. s' = s\<lparr>lj_instance := g\<rparr>"
  "feature_not_paused e scope s = Inr s' \<Longrightarrow> \<exists>g. s' = s\<lparr>lj_instance := g\<rparr>"
  "breaker_allows e n s = Inr s' \<Longrightarrow> \<exists>b. s' = s\<lparr>lj_breaker := b\<rparr>"
  by (auto simp: not_paused_def feature_not_paused_def breaker_allows_def result_simps)

end
