(* ===== verification/Claim_Book.thy ===== *)
theory Claim_Book
  imports Host
begin

text \<open>
  Books of records that claim amounts of tokens: streams, schedules, auctions and market makers are kept in such books, and the contract
  has to hold what their records claim together.
\<close>

definition only :: "address \<Rightarrow> int \<Rightarrow> address \<Rightarrow> int" where
  "only t d t' = (if t' = t then d else 0)"

lemma only_simps [simp]: "only t d t = d" "t' \<noteq> t \<Longrightarrow> only t d t' = 0" "only t 0 t' = 0"
  by (simp_all add: only_def)

text \<open>
  What the records of a book claim of a token: \<open>tok\<close> is the token of a record and \<open>amt\<close> what is still held for it. The
  locale has what is needed of a book whose good records claim nothing negative.
\<close>

definition claim_at :: "('r \<Rightarrow> address) \<Rightarrow> ('r \<Rightarrow> int) \<Rightarrow> ('k \<rightharpoonup> 'r) \<Rightarrow> address \<Rightarrow> 'k \<Rightarrow> int" where
  "claim_at tok amt m t k = (case m k of None \<Rightarrow> 0 | Some r \<Rightarrow> only (tok r) (amt r) t)"

definition claims :: "('r \<Rightarrow> address) \<Rightarrow> ('r \<Rightarrow> int) \<Rightarrow> ('k \<rightharpoonup> 'r) \<Rightarrow> address \<Rightarrow> int" where
  "claims tok amt m t = support_total (claim_at tok amt m t)"

definition book_ok :: "('r \<Rightarrow> bool) \<Rightarrow> ('k \<rightharpoonup> 'r) \<Rightarrow> bool" where
  "book_ok good m \<longleftrightarrow> finite (dom m) \<and> (\<forall>k r. m k = Some r \<longrightarrow> good r)"

lemma book_ok_upd: "book_ok good m \<Longrightarrow> good r \<Longrightarrow> book_ok good (m(k \<mapsto> r))"
  by (auto simp: book_ok_def)

lemma book_ok_empty [simp]: "book_ok good Map.empty"
  by (simp add: book_ok_def)

lemma book_ok_get: "book_ok good m \<Longrightarrow> m k = Some r \<Longrightarrow> good r"
  by (auto simp: book_ok_def)

lemma claims_empty [simp]: "claims tok amt Map.empty t = 0"
  by (simp add: claims_def claim_at_def support_total_def support_def)

lemma claims_upd:
  assumes "finite (dom m)"
  shows "claims tok amt (m(k \<mapsto> r)) t = claims tok amt m t - claim_at tok amt m t k + only (tok r) (amt r) t"
proof -
  have "finite (support (claim_at tok amt m t))"
    by (rule finite_subset [OF _ assms]) (auto simp: support_def claim_at_def split: option.splits)
  moreover have "claim_at tok amt (m(k \<mapsto> r)) t = (claim_at tok amt m t)(k := only (tok r) (amt r) t)"
    by (auto simp: claim_at_def fun_eq_iff)
  ultimately show ?thesis by (simp add: claims_def support_total_upd)
qed

locale claim_book =
  fixes tok :: "'r \<Rightarrow> address" and amt :: "'r \<Rightarrow> int" and good :: "'r \<Rightarrow> bool"
  assumes amt_nonneg: "good r \<Longrightarrow> 0 \<le> amt r"
begin

lemma claim_nonneg: "book_ok good m \<Longrightarrow> 0 \<le> claim_at tok amt m t k"
  by (auto simp: claim_at_def only_def book_ok_def intro: amt_nonneg split: option.splits)

lemma claims_nonneg: "book_ok good m \<Longrightarrow> 0 \<le> claims tok amt m t"
  unfolding claims_def by (rule support_total_nonneg) (rule claim_nonneg)

lemma claim_le: "book_ok good m \<Longrightarrow> m k = Some r \<Longrightarrow> amt r \<le> claims tok amt m (tok r)"
proof -
  assume b: "book_ok good m" and k: "m k = Some r"
  have "finite (support (claim_at tok amt m (tok r)))"
    by (rule finite_subset [of _ "dom m"]) (use b in \<open>auto simp: support_def claim_at_def book_ok_def split: option.splits\<close>)
  moreover have "claim_at tok amt m (tok r) k = amt r" by (simp add: claim_at_def k)
  ultimately show ?thesis using support_total_ge [of "claim_at tok amt m (tok r)" k] claim_nonneg [OF b] by (simp add: claims_def)
qed

lemma claims_new: "book_ok good m \<Longrightarrow> claims tok amt (m(k \<mapsto> r)) t \<le> claims tok amt m t + only (tok r) (amt r) t"
  using claims_upd [of m tok amt k r t] claim_nonneg [of m t k] by (simp add: book_ok_def)

lemma claims_change:
  assumes "book_ok good m" "m k = Some r" "tok r' = tok r"
  shows "claims tok amt (m(k \<mapsto> r')) t = claims tok amt m t + only (tok r) (amt r' - amt r) t"
  using claims_upd [of m tok amt k r' t] assms by (simp add: book_ok_def claim_at_def only_def)

end

end
