(* ===== verification/Legacy_Solvency.thy ===== *)
theory Legacy_Solvency
  imports Legacy_Money Claim_Book
begin

text \<open>
  The superseded tip jar owns what it owes, on tokens whose supply is capped as that of every Stellar asset
  is: every call of its tips, withdrawals, credits and insurance changes what the contract holds at least by
  as much as what it owes. Left out are the calls that do not: milestones, conditional tips, and batches of
  withdrawals that name a token twice.
\<close>

section \<open>Changes of the state\<close>

definition settings_ok :: "'tk core_jar \<Rightarrow> bool" where
  "settings_ok s \<longleftrightarrow> uint (unwrap_or (lj_fee_bps s) 0) \<le> 1000 \<and> uint (unwrap_or (lj_old_fee_bps s) 0) \<le> 10000 \<and>
     (\<forall>cfg. in_cfg (lj_insurance s) = Some cfg \<longrightarrow> uint (ic_tip_premium_bps cfg) \<le> 1000 \<and> uint (ic_premium_rate_bps cfg) \<le> 500 \<and>
       0 \<le> ic_min_contribution cfg) \<and> gb_active (lj_goals s) = Map.empty"

lemma settings_ok_cong: "settings s' = settings s \<Longrightarrow> settings_ok s' = settings_ok s"
  by (simp add: settings_def settings_ok_def)

definition requests_ok :: "address \<Rightarrow> 'tk core_jar \<Rightarrow> bool" where
  "requests_ok me s \<longleftrightarrow> (\<forall>i r. po_msig (lj_payout s) i = Some r \<longrightarrow> mw_creator r \<noteq> me \<and> 0 < mw_amount r)"

text \<open>
  \<open>jar_move D H\<close>: what is owed grows by \<open>D\<close> and what is held by \<open>H\<close>, token by token.
\<close>

definition jar_move ::
  "('tk \<Rightarrow> address \<Rightarrow> address \<Rightarrow> int) \<Rightarrow> ('tk \<Rightarrow> bool) \<Rightarrow> address \<Rightarrow> (address \<Rightarrow> int) \<Rightarrow> (address \<Rightarrow> int) \<Rightarrow> 'tk core_jar \<Rightarrow> 'tk core_jar \<Rightarrow> bool" where
  "jar_move holding ledger_ok me D H s s' \<longleftrightarrow>
     accounts_ok s' \<and> (\<forall>t. owed t s' = owed t s + D t) \<and> ledger_ok (lj_tokens s') \<and>
     (\<forall>t. holding (lj_tokens s') t me = holding (lj_tokens s) t me + H t) \<and>
     settings s' = settings s \<and> po_msig (lj_payout s') = po_msig (lj_payout s)"

definition jar_solvent ::
  "('tk \<Rightarrow> address \<Rightarrow> address \<Rightarrow> int) \<Rightarrow> ('tk \<Rightarrow> bool) \<Rightarrow> (address \<Rightarrow> int) \<Rightarrow> address \<Rightarrow> u64 \<Rightarrow> 'tk core_jar \<Rightarrow> bool" where
  "jar_solvent holding ledger_ok rest me now s \<longleftrightarrow>
     accounts_ok s \<and> settings_ok s \<and> credit_ok now s \<and> requests_ok me s \<and> ledger_ok (lj_tokens s) \<and>
     (\<forall>t. owed t s + rest t \<le> holding (lj_tokens s) t me)"

lemma jar_move_trans:
  assumes "jar_move holding ok me D H s s1" "jar_move holding ok me D' H' s1 s2"
  shows "jar_move holding ok me (\<lambda>t. D t + D' t) (\<lambda>t. H t + H' t) s s2"
  using assms by (simp add: jar_move_def)

lemma jar_move_books:
  assumes "books_move t d s s'" "ok (lj_tokens s)"
  shows "jar_move holding ok me (only t d) (only t 0) s s'"
  using assms by (auto simp: jar_move_def books_move_def only_def)

lemma jar_move_same:
  assumes "accounts_ok s" "ok (lj_tokens s)" "same_accounts s s'" "lj_tokens s' = lj_tokens s" "settings s' = settings s"
    "po_msig (lj_payout s') = po_msig (lj_payout s)"
  shows "jar_move holding ok me (only t 0) (only t 0) s s'"
  using assms by (auto simp: jar_move_def same_accounts_of)

lemma jar_move_solvent:
  assumes "jar_solvent holding ok rest me now s" "jar_move holding ok me D H s s'" "\<And>t. D t \<le> H t" "credit_ok now' s'"
  shows "jar_solvent holding ok rest me now' s'"
proof -
  have "owed t s' + rest t \<le> holding (lj_tokens s') t me" for t
    using assms(1,2) assms(3) [of t] by (auto simp: jar_solvent_def jar_move_def) (smt (verit))
  then show ?thesis
    using assms settings_ok_cong [of s' s] by (auto simp: jar_solvent_def jar_move_def requests_ok_def)
qed

lemma jar_move_only_solvent:
  assumes "jar_solvent holding ok rest me now s" "jar_move holding ok me (only t d) (only t h) s s'" "d \<le> h" "credit_ok now' s'"
  shows "jar_solvent holding ok rest me now' s'"
  by (rule jar_move_solvent [OF assms(1,2) _ assms(4)]) (use assms(3) in \<open>auto simp: only_def\<close>)

lemma jar_move_only_trans:
  assumes "jar_move holding ok me (only t d) (only t h) s s1" "jar_move holding ok me (only t d') (only t h') s1 s2"
  shows "jar_move holding ok me (only t (d + d')) (only t (h + h')) s s2"
  using assms by (auto simp: jar_move_def only_def)

lemma jar_move_parts:
  assumes "jar_move holding ok me D H s s'"
  shows "accounts_ok s'" "ok (lj_tokens s')" "settings s' = settings s" "owed t s' = owed t s + D t"
  using assms by (simp_all add: jar_move_def)

section \<open>Tokens with a capped supply\<close>

locale sep41_capped = sep41 +
  fixes cap :: int
  assumes holding_cap: "ledger_ok tk \<Longrightarrow> holding tk t a \<le> cap"
    and cap_small: "cap * 20000 \<le> I128_MAX"
begin

lemma transfer_small:
  assumes "ledger_ok tk" "transfer tk t src dst n = Some tk'" "src \<noteq> dst" "0 \<le> n"
  shows "n \<le> cap" "n * 10000 \<le> I128_MAX"
proof -
  show n: "n \<le> cap" using transfer_funded [OF assms] holding_cap [OF assms(1), of t src] by linarith
  then show "n * 10000 \<le> I128_MAX" using cap_small assms(4) by linarith
qed

lemma owed_cap:
  assumes "jar_solvent holding ledger_ok rest me now s" "\<And>t. 0 \<le> rest t"
  shows "owed t s \<le> cap"
  using assms(1) assms(2) [of t] holding_cap [of "lj_tokens s" t me] by (auto simp: jar_solvent_def) (smt (verit))

lemma deposit_move:
  assumes "lj_transfer transfer t src me n s = Inr s'" "accounts_ok s" "ledger_ok (lj_tokens s)" "src \<noteq> me" "0 \<le> n"
  shows "jar_move holding ledger_ok me (only t 0) (only t n) s s'" "lj_credit s' = lj_credit s" "n \<le> cap"
proof -
  obtain tk where tk: "transfer (lj_tokens s) t src me n = Some tk" "s' = s\<lparr>lj_tokens := tk\<rparr>"
    using assms(1) by (auto simp: lj_transfer_def result_simps)
  have same: "same_accounts s s'" by (simp add: tk(2) same_accounts_def reserve_of_def)
  show "jar_move holding ledger_ok me (only t 0) (only t n) s s'"
    using deposit_holding [OF assms(3) tk(1) assms(4,5)] transfer_ok [OF assms(3) tk(1) assms(4,5)] same_accounts_of [OF same] assms(2)
    by (auto simp: jar_move_def tk(2) settings_def only_def)
  show "lj_credit s' = lj_credit s" by (simp add: tk(2))
  show "n \<le> cap" by (rule transfer_small(1) [OF assms(3) tk(1) assms(4,5)])
qed

lemma payout_move:
  assumes "lj_transfer transfer t me dst n s = Inr s'" "accounts_ok s" "ledger_ok (lj_tokens s)" "dst \<noteq> me" "0 \<le> n"
  shows "jar_move holding ledger_ok me (only t 0) (only t (- n)) s s'" "lj_credit s' = lj_credit s"
proof -
  obtain tk where tk: "transfer (lj_tokens s) t me dst n = Some tk" "s' = s\<lparr>lj_tokens := tk\<rparr>"
    using assms(1) by (auto simp: lj_transfer_def result_simps)
  have same: "same_accounts s s'" by (simp add: tk(2) same_accounts_def reserve_of_def)
  show "jar_move holding ledger_ok me (only t 0) (only t (- n)) s s'"
    using payout_holding [OF assms(3) tk(1) assms(4,5)] transfer_ok [OF assms(3) tk(1)] same_accounts_of [OF same] assms(2,4,5)
    by (auto simp: jar_move_def tk(2) settings_def only_def)
  show "lj_credit s' = lj_credit s" by (simp add: tk(2))
qed

end

section \<open>Crediting a creator\<close>

lemma credit_move:
  assumes ok: "accounts_ok s" "credit_ok now s" "now \<le> timestamp e" "clock_ok e"
    and n: "0 \<le> n" "n * 10000 \<le> I128_MAX" "owed t s + n \<le> I128_MAX"
    and run: "process_repayment e c t n s = (net, s1)"
  shows "books_move t n s (set_balance c t (balance_of c t s + net) s1)"
    and "credit_ok (timestamp e) (set_balance c t (balance_of c t s + net) s1)"
    and "0 \<le> net" "net \<le> n" "in_i128 (balance_of c t s + net)"
    and "total_of c t s1 = total_of c t s" "get_withdrawable_balance c t s1 = get_withdrawable_balance c t s"
    and "balance_of c t s1 = balance_of c t s" "lj_tip_ctr s1 = lj_tip_ctr s"
proof -
  note a = account_le_owed [OF ok(1)]
  have f: "0 \<le> fee_of t s" "fee_of t s + n \<le> I128_MAX" using a(2,6) [of t] n(3) by auto
  note p = process_repayment_spec [OF ok(2-4) n(1,2) f run]
  obtain r where r: "0 \<le> r" "r \<le> n" "net = n - r" "repaid_state t r s s1" using p(1) by blast
  note b = books_move_repaid [OF ok(1) r(4,1)]
  show net: "0 \<le> net" "net \<le> n" using r by auto
  show "in_i128 (balance_of c t s + net)" using a(1,5) [where c = c and t = t] n(3) net by (auto simp: in_i128_nonneg)
  have "books_move t (balance_of c t s + net - balance_of c t s1) s1 (set_balance c t (balance_of c t s + net) s1)"
    using books_move_ok [OF b(1)] a(5) [where c = c and t = t] net(1) by (intro books_move_balance) auto
  from books_move_trans [OF b(1) this] show "books_move t n s (set_balance c t (balance_of c t s + net) s1)"
    using r(3) by (simp add: b(2))
  show "credit_ok (timestamp e) (set_balance c t (balance_of c t s + net) s1)"
    using p(2) by (simp add: credit_ok_def set_balance_def)
  show "total_of c t s1 = total_of c t s" "get_withdrawable_balance c t s1 = get_withdrawable_balance c t s"
    "balance_of c t s1 = balance_of c t s" using b(2-4) by simp_all
  show "lj_tip_ctr s1 = lj_tip_ctr s" using r(4) by (auto simp: repaid_state_def)
qed

lemma jar_solvent_guard [simp]:
  "jar_solvent holding ok rest me now (s\<lparr>lj_instance := g\<rparr>) = jar_solvent holding ok rest me now s"
  "jar_solvent holding ok rest me now (s\<lparr>lj_breaker := b\<rparr>) = jar_solvent holding ok rest me now s"
  by (simp_all add: jar_solvent_def accounts_ok_def settings_ok_def credit_ok_def requests_ok_def owed_def balance_of_def fee_of_def
      old_fee_of_def reserve_of_def)

lemma guards_solvent:
  "not_paused e s = Inr s' \<Longrightarrow> jar_solvent holding ok rest me now s' = jar_solvent holding ok rest me now s"
  "feature_not_paused e scope s = Inr s' \<Longrightarrow> jar_solvent holding ok rest me now s' = jar_solvent holding ok rest me now s"
  "breaker_allows e n s = Inr s' \<Longrightarrow> jar_solvent holding ok rest me now s' = jar_solvent holding ok rest me now s"
  by (auto dest!: frame_guards)

lemma premium_move:
  assumes "accounts_ok s" "0 \<le> p" "owed t s + p \<le> I128_MAX"
  shows "books_move t p s (add_premium e t p s)" "lj_credit (add_premium e t p s) = lj_credit s"
    "lj_tip_ctr (add_premium e t p s) = lj_tip_ctr s"
proof -
  let ?pool = "unwrap_or (in_pool (lj_insurance s) t) (new_pool e t)"
  have r: "ip_total_reserves ?pool = reserve_of t s" by (simp add: reserve_of_def new_pool_def split: option.split)
  have "0 \<le> reserve_of t s" "reserve_of t s + p \<le> I128_MAX" using account_le_owed(4,8) [OF assms(1), of t] assms(3) by auto
  then have ex: "add_i128 (reserve_of t s) p = reserve_of t s + p" using assms(2) by (simp add: add_i128_exact in_i128_nonneg)
  show "books_move t p s (add_premium e t p s)"
  proof (cases "p > 0")
    case True
    then show ?thesis
      using books_move_pool [OF assms(1), of "?pool\<lparr>ip_total_reserves := reserve_of t s + p\<rparr>" t] \<open>0 \<le> reserve_of t s\<close>
      by (simp add: add_premium_def r ex)
  next
    case False
    then show ?thesis using assms by (simp add: add_premium_def books_move_same)
  qed
  show "lj_credit (add_premium e t p s) = lj_credit s" "lj_tip_ctr (add_premium e t p s) = lj_tip_ctr s"
    by (simp_all add: add_premium_def put_pool_def Let_def)
qed

lemma fee_move:
  assumes "accounts_ok s" "0 \<le> f"
  shows "books_move t f s (if f > 0 then set_fee_balance t (fee_of t s + f) s else s)"
  using assms books_move_fee [OF assms(1), of "fee_of t s + f" t] account_le_owed(6) [OF assms(1), of t] books_move_same [OF assms(1), of s t]
  by auto

lemma tip_shares:
  assumes "settings_ok s" "0 \<le> n" "n * 10000 \<le> I128_MAX"
  shows "0 \<le> bps_of n (unwrap_or (lj_fee_bps s) 0)" "0 \<le> tip_premium n s"
    "10 * bps_of n (unwrap_or (lj_fee_bps s) 0) \<le> n" "10 * tip_premium n s \<le> n"
proof -
  have f: "uint (unwrap_or (lj_fee_bps s) 0) \<le> 1000" using assms(1) by (simp add: settings_ok_def)
  then show "0 \<le> bps_of n (unwrap_or (lj_fee_bps s) 0)" using bps_exact(2) [OF assms(2,3)] by simp
  show "10 * bps_of n (unwrap_or (lj_fee_bps s) 0) \<le> n" using bps_le [OF assms(2,3) f] by simp
  have p: "uint (ic_tip_premium_bps cfg) \<le> 1000" if "in_cfg (lj_insurance s) = Some cfg" for cfg
    using assms(1) that by (simp add: settings_ok_def)
  show "0 \<le> tip_premium n s" "10 * tip_premium n s \<le> n"
    using p bps_exact(2) [OF assms(2,3)] bps_le [OF assms(2,3) p] assms(2)
    by (force simp: tip_premium_def split: option.split)+
qed

lemma net_of_exact:
  assumes "0 \<le> f" "0 \<le> p" "f + p \<le> n" "n \<le> I128_MAX"
  shows "net_of n f p = n - f - p"
  using assms by (simp add: net_of_def checked_sub_i128_def in_i128_nonneg unwrap_or_def)

lemma no_milestones: "settings_ok s \<Longrightarrow> check_and_award_milestones c t n s = Inr s"
  by (simp add: settings_ok_def check_and_award_milestones_def get_creator_milestones_def List.map_filter_def)

lemma credit_creator_move:
  assumes run: "credit_creator e c t n s = Inr (tot, s')"
    and ok: "accounts_ok s" "credit_ok now s" "now \<le> timestamp e" "clock_ok e"
    and n: "0 \<le> n" "n * 10000 \<le> I128_MAX" "owed t s + n \<le> I128_MAX"
  shows "books_move t n s s'" "credit_ok (timestamp e) s'"
proof -
  obtain net s1 where p: "process_repayment e c t n s = (net, s1)" by fastforce
  note m = credit_move [OF ok n p]
  have s': "s' = set_total c t tot (set_balance c t (balance_of c t s + net) s1)"
    using run p by (auto simp: credit_creator_def Let_def result_simps)
  show "books_move t n s s'" unfolding s'
    using books_move_trans [OF m(1) books_move_same [OF books_move_ok [OF m(1)]]] by simp
  show "credit_ok (timestamp e) s'" unfolding s' using m(2) by (simp add: credit_ok_def)
qed

section \<open>Tips\<close>

lemma solvent_parts:
  assumes "jar_solvent holding ok rest me now s"
  shows "accounts_ok s" "settings_ok s" "credit_ok now s" "ok (lj_tokens s)" "requests_ok me s"
  using assms by (simp_all add: jar_solvent_def)

text \<open>
  A state that differs in things that no account depends on.
\<close>

definition quiet :: "'tk core_jar \<Rightarrow> 'tk core_jar \<Rightarrow> bool" where
  "quiet s s' \<longleftrightarrow> same_accounts s s' \<and> lj_tokens s' = lj_tokens s \<and> settings s' = settings s \<and> lj_payout s' = lj_payout s \<and>
     lj_credit s' = lj_credit s"

lemma quiet_refl [simp]: "quiet s s"
  by (simp add: quiet_def)

lemma quiet_trans: "quiet s s1 \<Longrightarrow> quiet s1 s2 \<Longrightarrow> quiet s s2"
  by (auto simp: quiet_def intro: same_accounts_trans)

lemma quiet_emit [simp]: "quiet s (lj_emit ev s1) = quiet s s1"
  by (simp add: quiet_def lj_emit_def same_accounts_def reserve_of_def settings_def)

lemma quiet_total [simp]: "quiet s (set_total c t v s1) = quiet s s1"
  by (simp add: quiet_def set_total_def same_accounts_def reserve_of_def settings_def)

lemma quiet_leaderboard [simp]: "quiet s (update_leaderboard_stats a c n s1) = quiet s s1"
  by (simp add: quiet_def update_leaderboard_stats_def same_accounts_def reserve_of_def settings_def)

lemma quiet_track [simp]: "quiet s (track_creator_token c t s1) = quiet s s1"
  by (simp add: quiet_def track_creator_token_def Let_def same_accounts_def reserve_of_def settings_def)

lemma quiet_standing [simp]: "quiet s (record_standing e a c n m s1) = quiet s s1"
  by (simp add: quiet_def record_standing_def update_leaderboard_stats_def Let_def same_accounts_def reserve_of_def settings_def)

lemma quiet_counters [simp]:
  "quiet s (s1\<lparr>lj_tip_ctr := k\<rparr>) = quiet s s1" "quiet s (s1\<lparr>lj_current_fee_bps := f\<rparr>) = quiet s s1"
  "quiet s (s1\<lparr>lj_batch_stats := bs\<rparr>) = quiet s s1" "quiet s (s1\<lparr>lj_tip_history := h, lj_tip_count := k'\<rparr>) = quiet s s1"
  by (simp_all add: quiet_def same_accounts_def reserve_of_def settings_def)

lemma quiet_books: "accounts_ok s \<Longrightarrow> quiet s s' \<Longrightarrow> books_move t 0 s s'"
  by (simp add: quiet_def books_move_same)

lemma quiet_credit: "quiet s s' \<Longrightarrow> credit_ok now s' = credit_ok now s"
  by (simp add: quiet_def credit_ok_def)

lemma books_then_quiet: "books_move t d s s1 \<Longrightarrow> quiet s1 s2 \<Longrightarrow> books_move t d s s2"
  using books_move_trans [of t d s s1 0 s2] quiet_books [of s1 s2 t] books_move_ok by fastforce

lemma quiet_solvent: "jar_solvent holding ok rest me now s \<Longrightarrow> quiet s s' \<Longrightarrow> jar_solvent holding ok rest me now s'"
  using same_accounts_of(5,6) [of s s'] settings_ok_cong [of s' s]
  by (simp add: jar_solvent_def quiet_def credit_ok_def requests_ok_def)

lemma process_repayment_tokens: "process_repayment e c t n s = (net, s') \<Longrightarrow> lj_tokens s' = lj_tokens s"
  by (auto simp: process_repayment_def put_account_def set_fee_balance_def log_credit_def lj_emit_def Let_def
      split: option.splits if_splits prod.splits)

lemma credit_creator_tokens: "credit_creator e c t n s = Inr (tot, s') \<Longrightarrow> lj_tokens s' = lj_tokens s"
  by (auto simp: credit_creator_def Let_def result_simps set_total_def set_balance_def process_repayment_tokens split: prod.splits)

lemma award_loop_tokens: "award_loop c t n i ms s = Inr s' \<Longrightarrow> lj_tokens s' = lj_tokens s"
  by (induction c t n i ms s rule: award_loop.induct)
    (auto simp: Let_def set_balance_def lj_emit_def split: if_splits option.splits)

lemma tip_books_tokens:
  assumes "tip_books e sender c t n f p s = Inr (i, s')"
  shows "lj_tokens s' = lj_tokens s"
proof -
  obtain s1 tot s2 where "book_fee t f s = Inr s1" "credit_creator e c t (net_of n f p) (add_premium e t p s1) = Inr (tot, s2)"
      "check_and_award_milestones c t tot (track_creator_token c t (record_standing e sender c n (net_of n f p)
        (s2\<lparr>lj_tip_ctr := Some (unwrap_or (lj_tip_ctr s2) 0 + 1)\<rparr>))) = Inr s'"
    using assms by (auto simp: tip_books_def result_simps Let_def)
  moreover have "lj_tokens (add_premium e t p s1) = lj_tokens s1" by (simp add: add_premium_def put_pool_def Let_def)
  moreover have "lj_tokens s1 = lj_tokens s"
    using calculation(1) by (auto simp: book_fee_def result_simps set_fee_balance_def split: if_splits)
  ultimately show ?thesis
    using credit_creator_tokens award_loop_tokens unfolding check_and_award_milestones_def by fastforce
qed

lemma tip_books_move:
  assumes run: "tip_books e sender c t n f p s = Inr (i, s')"
    and ok: "accounts_ok s" "credit_ok now s" "now \<le> timestamp e" "clock_ok e" "settings_ok s"
    and n: "0 \<le> f" "0 \<le> p" "f + p \<le> n" "n * 10000 \<le> I128_MAX" "owed t s + n \<le> I128_MAX"
  shows "books_move t n s s'" "credit_ok (timestamp e) s'"
proof -
  have small: "0 \<le> n" "n \<le> I128_MAX" using n by linarith+
  note net = net_of_exact [OF n(1-3) small(2)]
  obtain s1 tot s2 s4 where s1: "book_fee t f s = Inr s1" and s2: "credit_creator e c t (n - f - p) (add_premium e t p s1) = Inr (tot, s2)"
    and s4: "s4 = track_creator_token c t (record_standing e sender c n (n - f - p) (s2\<lparr>lj_tip_ctr := Some (unwrap_or (lj_tip_ctr s2) 0 + 1)\<rparr>))"
    and s5: "check_and_award_milestones c t tot s4 = Inr s'"
    using run unfolding tip_books_def net by (auto simp: result_simps Let_def)
  have "s1 = (if f > 0 then set_fee_balance t (fee_of t s + f) s else s)"
    using s1 by (auto simp: book_fee_def result_simps split: if_splits)
  then have m1: "books_move t f s s1" and c1: "lj_credit s1 = lj_credit s"
    using fee_move [OF ok(1) n(1)] by (simp_all add: set_fee_balance_def)
  have "owed t s1 = owed t s + f" using m1 by (simp add: books_move_def)
  then have m2: "books_move t p s1 (add_premium e t p s1)" "lj_credit (add_premium e t p s1) = lj_credit s"
    using premium_move [OF books_move_ok [OF m1] n(2), of t e] n c1 by auto
  have o2: "owed t (add_premium e t p s1) = owed t s + f + p" using m2(1) \<open>owed t s1 = owed t s + f\<close> by (simp add: books_move_def)
  have c2: "credit_ok now (add_premium e t p s1)" using ok(2) m2(2) by (simp add: credit_ok_def)
  have k: "0 \<le> n - f - p" "(n - f - p) * 10000 \<le> I128_MAX" "owed t (add_premium e t p s1) + (n - f - p) \<le> I128_MAX"
    using n o2 by auto
  note m = credit_creator_move [OF s2 books_move_ok [OF m2(1)] c2 ok(3,4) k]
  have m3: "books_move t n s s2" and c3: "credit_ok (timestamp e) s2"
    using books_move_trans [OF books_move_trans [OF m1 m2(1)] m(1)] m(2) by simp_all
  have q: "quiet s2 s4" by (simp add: s4)
  have "settings s4 = settings s" using m3 q by (simp add: books_move_def quiet_def)
  then have "settings_ok s4" using ok(5) settings_ok_cong by blast
  then have "s' = s4" using s5 no_milestones [of s4] by simp
  then show "books_move t n s s'" "credit_ok (timestamp e) s'"
    using books_then_quiet [OF m3 q] c3 quiet_credit [OF q] by simp_all
qed

context sep41_capped
begin

lemma tip_solvent:
  assumes run: "lg_tip transfer e sender creator t n s0 = Inr (i, s')"
    and solv: "jar_solvent holding ledger_ok rest me now s0" and rest: "\<And>t. 0 \<le> rest t"
    and me: "contract_address e = me" "sender \<noteq> me" and time: "now \<le> timestamp e" "clock_ok e"
  shows "jar_solvent holding ledger_ok rest me (timestamp e) s'"
proof -
  obtain s1 s2 s s3 s4 where g: "not_paused e s0 = Inr s1" "feature_not_paused e Tipping s1 = Inr s2" "breaker_allows e n s2 = Inr s"
    and n: "0 < n" and s3: "tip_books e sender creator t n (bps_of n (unwrap_or (lj_fee_bps s) 0)) (tip_premium n s) s = Inr (i, s3)"
    and s4: "lj_transfer transfer t sender me n s3 = Inr s4" and s': "quiet s4 s'"
    using run unfolding lg_tip_def me(1) by (auto simp: result_simps Let_def)
  have S: "jar_solvent holding ledger_ok rest me now s" using solv guards_solvent g by metis
  note P = solvent_parts [OF S]
  have tok: "ledger_ok (lj_tokens s3)" using tip_books_tokens [OF s3] P(4) by simp
  have small: "n \<le> cap" "n * 10000 \<le> I128_MAX"
    using s4 transfer_small [OF tok] me(2) n by (auto simp: lj_transfer_def result_simps)
  note sh = tip_shares [OF P(2) less_imp_le [OF n] small(2)]
  have b: "books_move t n s s3" "credit_ok (timestamp e) s3"
    using tip_books_move [OF s3 P(1,3) time P(2) sh(1,2) _ small(2)] sh n owed_cap [OF S rest, of t] small(1) cap_small by auto
  have d: "jar_move holding ledger_ok me (only t 0) (only t n) s3 s4" "lj_credit s4 = lj_credit s3"
    using deposit_move [OF s4 books_move_ok [OF b(1)] tok me(2)] n by auto
  have "jar_solvent holding ledger_ok rest me (timestamp e) s4"
    by (rule jar_move_only_solvent [OF S jar_move_only_trans [OF jar_move_books [where ok = ledger_ok, OF b(1) P(4)] d(1)]])
      (use b(2) d(2) in \<open>simp_all add: credit_ok_def\<close>)
  then show ?thesis using s' by (rule quiet_solvent)
qed

end

text \<open>The entries of the other tips.\<close>

lemma fee_books_move:
  assumes run: "fee_books e c t n p s = Inr s'"
    and ok: "accounts_ok s" "credit_ok now s" "now \<le> timestamp e" "clock_ok e"
    and n: "0 \<le> n" "0 \<le> p" "n * 10000 \<le> I128_MAX" "owed t s + n + p \<le> I128_MAX"
  shows "books_move t (p + n) s s'" "credit_ok (timestamp e) s'"
proof -
  let ?s1 = "add_premium e t p s"
  have m1: "books_move t p s ?s1" "lj_credit ?s1 = lj_credit s" using premium_move [OF ok(1) n(2)] n by auto
  obtain net s2 where pr: "process_repayment e c t n ?s1 = (net, s2)" by fastforce
  have c1: "credit_ok now ?s1" and o1: "owed t ?s1 + n \<le> I128_MAX" using ok(2) m1 n(4) by (auto simp: credit_ok_def books_move_def)
  note m = credit_move [OF books_move_ok [OF m1(1)] c1 ok(3,4) n(1,3) o1 pr]
  obtain tot where s': "s' = set_total c t tot (set_balance c t (balance_of c t ?s1 + net) s2)"
    using run pr by (auto simp: fee_books_def Let_def result_simps split: option.splits)
  then show "books_move t (p + n) s s'" using books_then_quiet [OF books_move_trans [OF m1(1) m(1)]] by simp
  show "credit_ok (timestamp e) s'" using m(2) by (simp add: s' credit_ok_def)
qed

lemma message_books_move:
  assumes run: "message_books e sender c t n msg s = (i, s')"
    and ok: "accounts_ok s" "credit_ok now s" "now \<le> timestamp e" "clock_ok e" "settings_ok s"
    and n: "0 \<le> n" "n * 10000 \<le> I128_MAX" "owed t s + n \<le> I128_MAX"
  shows "books_move t n s s'" "credit_ok (timestamp e) s'"
proof -
  let ?f = "bps_of n (unwrap_or (lj_fee_bps s) 0)" and ?p = "tip_premium n s"
  note sh = tip_shares [OF ok(5) n(1,2)]
  have le: "?f + ?p \<le> n" "n \<le> I128_MAX" using sh n by linarith+
  note net = net_of_exact [OF sh(1,2) le]
  have a: "add_i128 (fee_of t s) ?f = fee_of t s + ?f"
    using account_le_owed(2,6) [OF ok(1), of t] sh(1,3) n by (simp add: add_i128_exact in_i128_nonneg)
  let ?s1 = "if ?f > 0 then set_fee_balance t (fee_of t s + ?f) s else s"
  have m1: "books_move t ?f s ?s1" "lj_credit ?s1 = lj_credit s" using fee_move [OF ok(1) sh(1)] by (auto simp: set_fee_balance_def)
  let ?s2 = "add_premium e t ?p ?s1"
  have o1: "owed t ?s1 = owed t s + ?f" using m1(1) by (simp add: books_move_def)
  then have m2: "books_move t ?p ?s1 ?s2" "lj_credit ?s2 = lj_credit s"
    using premium_move [OF books_move_ok [OF m1(1)] sh(2), of t e] n le m1(2) by auto
  obtain net s3 where pr: "process_repayment e c t (n - ?f - ?p) ?s2 = (net, s3)" by fastforce
  have c2: "credit_ok now ?s2" and o2: "owed t ?s2 + (n - ?f - ?p) \<le> I128_MAX" and k: "0 \<le> n - ?f - ?p" "(n - ?f - ?p) * 10000 \<le> I128_MAX"
    using ok(2) m2 o1 n le sh by (auto simp: credit_ok_def books_move_def)
  note m = credit_move [OF books_move_ok [OF m2(1)] c2 ok(3,4) k o2 pr]
  have old: "bk_old_balance (lj_books ?s2) = Map.empty" using books_move_ok [OF m2(1)] by (simp add: accounts_ok_def)
  then have "get_withdrawable_balance c t ?s2 = balance_of c t ?s2" by (simp add: get_withdrawable_balance_def balance_of_def)
  then have q: "quiet (set_balance c t (balance_of c t ?s2 + net) s3) s'"
    using run pr m(5) unfolding message_books_def Let_def net a by (auto simp: add_i128_exact)
  show "books_move t n s s'"
    using books_then_quiet [OF books_move_trans [OF books_move_trans [OF m1(1) m2(1)] m(1)] q] by simp
  show "credit_ok (timestamp e) s'" using m(2) quiet_credit [OF q] by simp
qed

lemma split_loop_move:
  assumes "accounts_ok s" "credit_ok now s" "now \<le> timestamp e" "clock_ok e" "rs \<noteq> []"
    and "0 \<le> n" "n * 10000 \<le> I128_MAX" "0 \<le> d" "10000 * d + n * sum_list (map (\<lambda>r. uint (tr_percentage r)) rs) \<le> n * 10000"
    and "owed t s + (n - d) \<le> I128_MAX"
  shows "books_move t (n - d) s (split_loop e sender t n rs d s) \<and> credit_ok (timestamp e) (split_loop e sender t n rs d s)"
  using assms
proof (induction rs arbitrary: d s now)
  case (Cons r rs)
  let ?c = "tr_creator r" and ?u = "uint (tr_percentage r)"
  define q where "q = (if rs = [] then n - d else bps_of n (tr_percentage r))"
  have tail: "0 \<le> n * sum_list (map (\<lambda>r. uint (tr_percentage r)) rs)" using Cons.prems(6) by (auto intro!: mult_nonneg_nonneg sum_list_nonneg)
  have "n * (?u + sum_list (map (\<lambda>r. uint (tr_percentage r)) rs)) \<le> n * 10000" using Cons.prems(8,9) by simp
  then have u: "n * ?u + n * sum_list (map (\<lambda>r. uint (tr_percentage r)) rs) \<le> n * 10000 - 10000 * d"
    using Cons.prems(9) by (auto simp: algebra_simps)
  have d: "d \<le> n" using u tail Cons.prems(6) by (smt (verit) mult_nonneg_nonneg uint_ge_0)
  have q: "0 \<le> q" "q \<le> n - d" "rs \<noteq> [] \<Longrightarrow> 10000 * q \<le> n * ?u" "rs = [] \<Longrightarrow> q = n - d"
  proof -
    have nu: "0 \<le> n * ?u" "n * ?u \<le> n * 10000" using u tail Cons.prems(6,8) by auto
    then have b: "bps_of n (tr_percentage r) = n * ?u div 10000"
      using Cons.prems(7) by (simp add: bps_of_def mul_i128_def in_i128_nonneg sdiv_int_nonneg)
    then have "0 \<le> bps_of n (tr_percentage r)" "10000 * bps_of n (tr_percentage r) \<le> n * ?u"
      using nu(1) div_round_down [of 10000 "n * ?u"] by (simp_all add: pos_imp_zdiv_nonneg_iff)
    then show "0 \<le> q" "q \<le> n - d" "rs \<noteq> [] \<Longrightarrow> 10000 * q \<le> n * ?u" "rs = [] \<Longrightarrow> q = n - d"
      using d u tail by (auto simp: q_def)
  qed
  have nmax: "n \<le> I128_MAX" using Cons.prems(6,7) by linarith
  have ex: "sub_i128 n d = n - d" "add_i128 d q = d + q"
    using d Cons.prems(6,8) q(1,2) nmax by (auto simp: sub_i128_def add_i128_def in_i128_nonneg)
  obtain net s1 where pr: "process_repayment e ?c t q s = (net, s1)" by fastforce
  have k: "q * 10000 \<le> I128_MAX" "owed t s + q \<le> I128_MAX" using q(1,2) Cons.prems(7,8,10) by auto
  note m = credit_move [OF Cons.prems(1-4) q(1) k pr]
  have share: "(if rs = [] then sub_i128 n d else bps_of n (tr_percentage r)) = q" by (simp add: ex q_def)
  define x where "x = set_balance ?c t (balance_of ?c t s + net) s1"
  define s2 where "s2 = lj_emit (TipEv (EvTipSplt ?c sender q (tr_percentage r))) (set_total ?c t (add_i128 (total_of ?c t x) q) x)"
  have s2: "quiet (set_balance ?c t (balance_of ?c t s + net) s1) s2"
      "split_loop e sender t n (r # rs) d s = split_loop e sender t n rs (d + q) s2"
    by (simp add: s2_def x_def)
      (simp only: split_loop.simps share Let_def pr ex(2) prod.case add_i128_exact [OF m(5)] s2_def x_def)
  have m2: "books_move t q s s2" "credit_ok (timestamp e) s2" using books_then_quiet [OF m(1) s2(1)] m(2) quiet_credit [OF s2(1)] by simp_all
  show ?case
  proof (cases "rs = []")
    case True
    then show ?thesis unfolding s2(2) using m2 q(4) by simp
  next
    case False
    have o: "owed t s2 = owed t s + q" using m2(1) by (simp add: books_move_def)
    have "books_move t (n - (d + q)) s2 (split_loop e sender t n rs (d + q) s2) \<and> credit_ok (timestamp e) (split_loop e sender t n rs (d + q) s2)"
      by (rule Cons.IH [OF books_move_ok [OF m2(1)] m2(2) order_refl Cons.prems(4) False Cons.prems(6,7)])
        (use q(1) q(3) [OF False] Cons.prems(8,10) o u in auto)
    then show ?thesis unfolding s2(2) using books_move_trans [OF m2(1)] by fastforce
  qed
qed simp

text \<open>The operations of a batch in one token.\<close>

lemma batch_total_sum:
  assumes "batch_total xs acc = Inr v" "0 \<le> acc"
  shows "v = acc + sum_list (map op_amount xs)" "\<forall>x \<in> set xs. 0 < op_amount x" "0 \<le> v"
  using assms by (induction xs arbitrary: acc) (fastforce simp: result_simps not_le split: if_splits option.splits)+

lemma amounts_nonneg: "\<forall>x \<in> set xs. 0 < op_amount x \<Longrightarrow> 0 \<le> sum_list (map op_amount xs)"
  by (induction xs) auto

lemma batch_one_move:
  assumes run: "batch_one e tipper t bp x s = Inr s'"
    and ok: "accounts_ok s" "credit_ok now s" "now \<le> timestamp e" "clock_ok e" "uint bp \<le> 10000"
    and n: "0 < op_amount x" "op_amount x * 10000 \<le> I128_MAX" "owed t s + op_amount x \<le> I128_MAX"
  shows "books_move t (op_amount x) s s'" "credit_ok (timestamp e) s'"
proof -
  let ?n = "op_amount x" and ?c = "op_creator x" and ?f = "bps_of (op_amount x) bp"
  have f: "0 \<le> ?f" "?f \<le> ?n" using bps_exact [OF less_imp_le [OF n(1)] n(2) ok(5)] by auto
  have sub: "sub_i128 ?n ?f = ?n - ?f" using f n by (simp add: sub_i128_def in_i128_nonneg)
  define s1 where "s1 = (if ?f > 0 then set_fee_balance t (fee_of t s + ?f) s else s)"
  obtain net s2 s3 s4 where pr: "process_repayment e ?c t (?n - ?f) s1 = (net, s2)" and s3: "credit_checked ?c t net s2 = Inr s3"
      and s4: "total_checked ?c t (?n - ?f) s3 = Inr s4" "s' = update_leaderboard_stats tipper ?c (?n - ?f) s4"
    using run unfolding batch_one_def Let_def sub s1_def
    by (cases "?f > 0") (auto simp: result_simps split: option.splits prod.splits)
  have m1: "books_move t ?f s s1" "lj_credit s1 = lj_credit s" using fee_move [OF ok(1) f(1)] by (auto simp: s1_def set_fee_balance_def)
  have c1: "credit_ok now s1" and o1: "owed t s1 + (?n - ?f) \<le> I128_MAX" and k: "0 \<le> ?n - ?f" "(?n - ?f) * 10000 \<le> I128_MAX"
    using ok(2) m1 n f by (auto simp: credit_ok_def books_move_def)
  note m = credit_move [OF books_move_ok [OF m1(1)] c1 ok(3,4) k o1 pr]
  have "s3 = set_balance ?c t (balance_of ?c t s1 + net) s2"
    using s3 m(8) by (auto simp: credit_checked_def result_simps split: option.splits)
  moreover have "quiet s3 s'" using s4 by (auto simp: total_checked_def split: option.splits)
  ultimately have q: "quiet (set_balance ?c t (balance_of ?c t s1 + net) s2) s'" by simp
  show "books_move t ?n s s'" using books_then_quiet [OF books_move_trans [OF m1(1) m(1)] q] by simp
  show "credit_ok (timestamp e) s'" using m(2) quiet_credit [OF q] by simp
qed

lemma batch_loop_move:
  assumes "batch_loop e tipper t bp xs k s = Inr (k', s')"
    and "accounts_ok s" "credit_ok now s" "now \<le> timestamp e" "clock_ok e" "uint bp \<le> 10000"
    and "\<forall>x \<in> set xs. 0 < op_amount x" "\<forall>x \<in> set xs. op_amount x * 10000 \<le> I128_MAX"
    and "owed t s + sum_list (map op_amount xs) \<le> I128_MAX"
  shows "books_move t (sum_list (map op_amount xs)) s s' \<and> credit_ok (timestamp e) s'"
  using assms
proof (induction xs arbitrary: k s now)
  case Nil
  then show ?case using books_move_same [of s s t] credit_ok_mono by auto
next
  case (Cons x xs)
  obtain s1 where s1: "batch_one e tipper t bp x s = Inr s1" "batch_loop e tipper t bp xs (k + 1) s1 = Inr (k', s')"
    using Cons.prems(1) by (auto simp: result_simps)
  have tail: "0 \<le> sum_list (map op_amount xs)" using Cons.prems(7) by (intro amounts_nonneg) simp
  then have o: "owed t s + op_amount x \<le> I128_MAX" using Cons.prems(9) by simp
  note m = batch_one_move [OF s1(1) Cons.prems(2-6) _ _ o]
  have m1: "books_move t (op_amount x) s s1" "credit_ok (timestamp e) s1" using m Cons.prems(7,8) by auto
  have "books_move t (sum_list (map op_amount xs)) s1 s' \<and> credit_ok (timestamp e) s'"
    by (rule Cons.IH [OF s1(2) books_move_ok [OF m1(1)] m1(2) order_refl Cons.prems(5,6)])
      (use Cons.prems(7-9) m1(1) in \<open>auto simp: books_move_def\<close>)
  then show ?case using books_move_trans [OF m1(1)] by auto
qed

text \<open>Batches over several tokens.\<close>

definition amount_at :: "address \<Rightarrow> tip_operation list \<Rightarrow> int" where
  "amount_at t xs = sum_list (map (\<lambda>x. only (op_token x) (op_amount x) t) xs)"

lemma amount_at_simps [simp]: "amount_at t [] = 0" "amount_at t (x # xs) = only (op_token x) (op_amount x) t + amount_at t xs"
  by (simp_all add: amount_at_def)

lemma amount_at_nonneg: "\<forall>x \<in> set xs. 0 < op_amount x \<Longrightarrow> 0 \<le> amount_at t xs"
  by (induction xs) (auto simp: only_def)

lemma amount_le_at: "\<forall>x \<in> set xs. 0 < op_amount x \<Longrightarrow> x \<in> set xs \<Longrightarrow> op_amount x \<le> amount_at (op_token x) xs"
proof (induction xs)
  case (Cons y xs)
  then show ?case using amount_at_nonneg [of xs "op_token x"] by (auto simp: only_def)
qed simp

definition total_at :: "address \<Rightarrow> (address \<times> int) list \<Rightarrow> int" where
  "total_at t m = sum_list (map (\<lambda>(t', n). only t' n t) m)"

lemma total_at_simps [simp]: "total_at t [] = 0" "total_at t ((t', n) # m) = only t' n t + total_at t m"
  by (simp_all add: total_at_def)

lemma add_token_total_at:
  "add_token_total t n m = Some m' \<Longrightarrow> total_at t' m' = total_at t' m + only t n t'"
  by (induction t n m arbitrary: m' rule: add_token_total.induct) (auto simp: result_simps only_def split: if_splits)

lemma add_token_total_nonneg:
  "add_token_total t n m = Some m' \<Longrightarrow> 0 \<le> n \<Longrightarrow> list_all (\<lambda>p. 0 \<le> snd p) m \<Longrightarrow> list_all (\<lambda>p. 0 \<le> snd p) m'"
  by (induction t n m arbitrary: m' rule: add_token_total.induct) (auto simp: result_simps split: if_splits)

lemma token_totals_sum:
  assumes "token_totals g xs m = Inr m'" "list_all (\<lambda>p. 0 \<le> snd p) m"
  shows "total_at t m' = total_at t m + amount_at t xs \<and> (\<forall>x \<in> set xs. 0 < op_amount x) \<and> list_all (\<lambda>p. 0 \<le> snd p) m'"
  using assms
proof (induction xs arbitrary: m)
  case (Cons x xs)
  obtain m1 where m1: "0 < op_amount x" "add_token_total (op_token x) (op_amount x) m = Some m1" "token_totals g xs m1 = Inr m'"
    using Cons.prems(1) by (auto split: if_splits option.splits)
  have "list_all (\<lambda>p. 0 \<le> snd p) m1" using add_token_total_nonneg [OF m1(2)] m1(1) Cons.prems(2) by simp
  from Cons.IH [OF m1(3) this] show ?case using add_token_total_at [OF m1(2), of t] m1(1) by simp
qed simp

lemma v2_one_move:
  assumes run: "v2_one tipper bp i x s = Inr s'" and ok: "accounts_ok s" "uint bp \<le> 10000"
    and n: "0 < op_amount x" "op_amount x * 10000 \<le> I128_MAX"
  shows "books_move (op_token x) (op_amount x) s s'" "lj_credit s' = lj_credit s"
proof -
  let ?n = "op_amount x" and ?c = "op_creator x" and ?t = "op_token x" and ?f = "bps_of (op_amount x) bp"
  have f: "0 \<le> ?f" "?f \<le> ?n" using bps_exact [OF less_imp_le [OF n(1)] n(2) ok(2)] by auto
  have sub: "sub_i128 ?n ?f = ?n - ?f" using f n by (simp add: sub_i128_def in_i128_nonneg)
  define s1 where "s1 = (if ?f > 0 then set_old_fee ?t (old_fee_of ?t s + ?f) s else s)"
  obtain s2 s3 where s2: "credit_checked ?c ?t (?n - ?f) s1 = Inr s2" and s3: "total_checked ?c ?t (?n - ?f) s2 = Inr s3" "quiet s3 s'"
    using run unfolding v2_one_def Let_def sub s1_def old_fee_of_def
    by (cases "?f > 0") (auto simp: result_simps split: option.splits)
  have m1: "books_move ?t ?f s s1" "lj_credit s1 = lj_credit s"
    using books_move_old_fee [OF ok(1), of "old_fee_of ?t s + ?f" ?t] account_le_owed(7) [OF ok(1), of ?t] f(1) books_move_same [OF ok(1), of s ?t]
    by (auto simp: s1_def set_old_fee_def)
  have s2': "s2 = set_balance ?c ?t (balance_of ?c ?t s1 + (?n - ?f)) s1"
    using s2 by (auto simp: credit_checked_def result_simps split: option.splits)
  have m2: "books_move ?t (?n - ?f) s1 s2"
    using books_move_balance [OF books_move_ok [OF m1(1)], of "balance_of ?c ?t s1 + (?n - ?f)" ?t ?c]
      account_le_owed(5) [OF books_move_ok [OF m1(1)], of ?c ?t] f(2) by (simp add: s2')
  have q: "quiet s2 s'" using s3 by (auto simp: total_checked_def split: option.splits intro: quiet_trans [of _ s3])
  show "books_move ?t ?n s s'" using books_then_quiet [OF books_move_trans [OF m1(1) m2] q] by simp
  show "lj_credit s' = lj_credit s" using q m1(2) by (simp add: quiet_def s2' set_balance_def)
qed

lemma v2_loop_move:
  assumes "v2_loop tipper bp i xs g s = Inr (r, s')" "accounts_ok s" "ok (lj_tokens s)" "uint bp \<le> 10000"
    and "\<forall>x \<in> set xs. 0 < op_amount x \<and> op_amount x * 10000 \<le> I128_MAX"
  shows "jar_move holding ok me (\<lambda>t. amount_at t xs) (\<lambda>t. 0) s s' \<and> lj_credit s' = lj_credit s"
  using assms
proof (induction xs arbitrary: i g r s)
  case Nil
  then show ?case by (auto simp: jar_move_def)
next
  case (Cons x xs)
  obtain s1 g' r' where s1: "v2_one tipper bp i x s = Inr s1" "v2_loop tipper bp (i + 1) xs g' s1 = Inr (r', s')"
    using Cons.prems(1) by (auto simp: result_simps split: option.splits)
  have m: "books_move (op_token x) (op_amount x) s s1" "lj_credit s1 = lj_credit s"
    using v2_one_move [OF s1(1) Cons.prems(2,4)] Cons.prems(5) by auto
  have j: "jar_move holding ok me (only (op_token x) (op_amount x)) (only (op_token x) 0) s s1"
    by (rule jar_move_books [where ok = ok, OF m(1) Cons.prems(3)])
  have "jar_move holding ok me (\<lambda>t. amount_at t xs) (\<lambda>t. 0) s1 s' \<and> lj_credit s' = lj_credit s1"
    using Cons.IH [OF s1(2) jar_move_parts(1,2) [OF j] Cons.prems(4)] Cons.prems(5) by auto
  then show ?case using jar_move_trans [OF j] m(2) by (auto simp: only_def [abs_def])
qed

end
