(* ===== verification/Legacy_Runs.thy ===== *)
theory Legacy_Runs
  imports Legacy_Solvency
begin

text \<open>
  Each way of tipping through the superseded tip jar keeps it solvent.
\<close>

section \<open>Deposits first, entries afterwards\<close>

context sep41_capped
begin

lemma deposited:
  assumes S: "jar_solvent holding ledger_ok rest me now s" and rest: "\<And>t. 0 \<le> rest t"
    and tr: "lj_transfer transfer t src me n s = Inr s1" and n: "src \<noteq> me" "0 \<le> n"
  shows "jar_move holding ledger_ok me (only t 0) (only t n) s s1" "accounts_ok s1" "settings_ok s1" "credit_ok now s1"
    "n * 10000 \<le> I128_MAX" "owed t s1 + n \<le> I128_MAX" "ledger_ok (lj_tokens s1)"
proof -
  note P = solvent_parts [OF S]
  note d = deposit_move [OF tr P(1,4) n]
  show d1: "jar_move holding ledger_ok me (only t 0) (only t n) s s1" by (rule d(1))
  note J = jar_move_parts [OF d1]
  show "accounts_ok s1" "ledger_ok (lj_tokens s1)" using J(1,2) by simp_all
  show "settings_ok s1" using J(3) P(2) settings_ok_cong by blast
  show "credit_ok now s1" using d(2) P(3) by (simp add: credit_ok_def)
  show "n * 10000 \<le> I128_MAX" using d(3) n(2) cap_small by linarith
  show "owed t s1 + n \<le> I128_MAX" using J(4) [of t] owed_cap [OF S rest, of t] d(3) cap_small n(2) by simp
qed

lemma deposit_then_books:
  assumes S: "jar_solvent holding ledger_ok rest me now s" and d: "jar_move holding ledger_ok me (only t 0) (only t n) s s1"
    and b: "books_move t k s1 s2" "k \<le> n" "credit_ok now' s2"
  shows "jar_solvent holding ledger_ok rest me now' s2"
proof -
  have "jar_move holding ledger_ok me (only t (0 + k)) (only t (n + 0)) s s2"
    by (rule jar_move_only_trans [OF d jar_move_books [where ok = ledger_ok, OF b(1) jar_move_parts(2) [OF d]]])
  then show ?thesis using b(2,3) by (intro jar_move_only_solvent [OF S]) auto
qed

lemma tip_with_fee_solvent:
  assumes run: "tip_with_fee transfer e sender creator t n congestion s0 = Inr s'"
    and solv: "jar_solvent holding ledger_ok rest me now s0" and rest: "\<And>t. 0 \<le> rest t"
    and me: "contract_address e = me" "sender \<noteq> me" and time: "now \<le> timestamp e" "clock_ok e"
  shows "jar_solvent holding ledger_ok rest me (timestamp e) s'"
proof -
  let ?level = "if congestion = 0 then Low else if congestion = 2 then High else Normal"
  obtain s1 s where g: "not_paused e s0 = Inr s1" "breaker_allows e n s1 = Inr s"
    using run unfolding tip_with_fee_def by (auto simp: result_simps)
  obtain fee bps s2 where c: "compute_fee n ?level s = ((fee, bps), s2)" by (metis surj_pair)
  obtain s3 s4 where n: "0 < n" and s3: "lj_transfer transfer t sender me n s2 = Inr s3"
    and s4: "fee_books e creator t (net_of n fee (tip_premium n s2)) (tip_premium n s2) s3 = Inr s4" "quiet s4 s'"
    using run g unfolding tip_with_fee_def me(1) by (auto simp: result_simps Let_def c)
  have fee: "fee = bps_of n bps" "uint bps \<le> 1000" "quiet s s2"
    using c by (auto simp: compute_fee_def adjusted_fee_bps_def Let_def BASE_FEE_BPS_def MIN_FEE_BPS_def DYN_MAX_FEE_BPS_def
        min_def max_def split: if_splits)
  have S: "jar_solvent holding ledger_ok rest me now s2"
    by (rule quiet_solvent [OF _ fee(3)]) (use solv guards_solvent g in metis)
  note D = deposited [OF S rest s3 me(2) less_imp_le [OF n]]
  note sh = tip_shares(2,4) [OF solvent_parts(2) [OF S] less_imp_le [OF n] D(5)]
  have f: "0 \<le> fee" "10 * fee \<le> n"
    using fee(1,2) bps_exact(2) [OF less_imp_le [OF n] D(5)] bps_le [OF less_imp_le [OF n] D(5) fee(2)] by auto
  let ?p = "tip_premium n s2"
  have net: "net_of n fee ?p = n - fee - ?p" using f sh n D(5) by (intro net_of_exact) auto
  have k: "0 \<le> n - fee - ?p" "0 \<le> ?p" "(n - fee - ?p) * 10000 \<le> I128_MAX" "owed t s3 + (n - fee - ?p) + ?p \<le> I128_MAX"
    using f sh n D(5,6) by auto
  note b = fee_books_move [OF s4(1) [unfolded net] D(2,4) time k]
  have "jar_solvent holding ledger_ok rest me (timestamp e) s4"
    by (rule deposit_then_books [OF S D(1) b(1) _ b(2)]) (use f in simp)
  then show ?thesis using s4(2) by (rule quiet_solvent)
qed

lemma tip_with_message_solvent:
  assumes run: "tip_with_message transfer e sender creator t n msg s0 = Inr (i, s')"
    and solv: "jar_solvent holding ledger_ok rest me now s0" and rest: "\<And>t. 0 \<le> rest t"
    and me: "contract_address e = me" "sender \<noteq> me" and time: "now \<le> timestamp e" "clock_ok e"
  shows "jar_solvent holding ledger_ok rest me (timestamp e) s'"
proof -
  obtain s1 s s2 where g: "not_paused e s0 = Inr s1" "breaker_allows e n s1 = Inr s" and n: "0 < n"
    and s2: "lj_transfer transfer t sender me n s = Inr s2" and m: "message_books e sender creator t n msg s2 = (i, s')"
    using run unfolding tip_with_message_def me(1) by (auto simp: result_simps)
  have S: "jar_solvent holding ledger_ok rest me now s" using solv guards_solvent g by metis
  note D = deposited [OF S rest s2 me(2) less_imp_le [OF n]]
  note b = message_books_move [OF m D(2,4) time D(3) less_imp_le [OF n] D(5,6)]
  show ?thesis by (rule deposit_then_books [OF S D(1) b(1) order_refl b(2)])
qed

lemma tip_split_solvent:
  assumes run: "tip_split transfer e sender t rs n s0 = Inr s'" and pct: "sum_list (map (\<lambda>r. uint (tr_percentage r)) rs) = 10000"
    and solv: "jar_solvent holding ledger_ok rest me now s0" and rest: "\<And>t. 0 \<le> rest t"
    and me: "contract_address e = me" "sender \<noteq> me" and time: "now \<le> timestamp e" "clock_ok e"
  shows "jar_solvent holding ledger_ok rest me (timestamp e) s'"
proof -
  obtain s1 s2 s s3 where g: "not_paused e s0 = Inr s1" "feature_not_paused e Tipping s1 = Inr s2" "breaker_allows e n s2 = Inr s"
    and n: "0 < n" and s3: "lj_transfer transfer t sender me n s = Inr s3" and s': "s' = split_loop e sender t n rs 0 s3"
    using run unfolding tip_split_def me(1) by (auto simp: result_simps)
  have rs: "rs \<noteq> []" using pct by auto
  have S: "jar_solvent holding ledger_ok rest me now s" using solv guards_solvent g by metis
  note D = deposited [OF S rest s3 me(2) less_imp_le [OF n]]
  have "books_move t (n - 0) s3 s' \<and> credit_ok (timestamp e) s'"
    unfolding s' by (rule split_loop_move [OF D(2,4) time rs less_imp_le [OF n] D(5)]) (use D(6) pct in auto)
  then show ?thesis using deposit_then_books [OF S D(1)] by auto
qed

lemma batch_tip_solvent:
  assumes run: "batch_tip transfer e tipper t xs s0 = Inr (k, s')"
    and solv: "jar_solvent holding ledger_ok rest me now s0" and rest: "\<And>t. 0 \<le> rest t"
    and me: "contract_address e = me" "tipper \<noteq> me" and time: "now \<le> timestamp e" "clock_ok e"
  shows "jar_solvent holding ledger_ok rest me (timestamp e) s'"
proof -
  obtain s v s1 s2 s3 where g: "not_paused e s0 = Inr s" "breaker_allows e v s = Inr s1" and v: "batch_total xs 0 = Inr v"
    and s2: "lj_transfer transfer t tipper me v s1 = Inr s2" and s3: "batch_loop e tipper t (unwrap_or (lj_fee_bps s2) 0) xs 0 s2 = Inr (k, s3)"
    and s': "quiet s3 s'"
    using run unfolding batch_tip_def me(1) by (auto simp: result_simps)
  have S: "jar_solvent holding ledger_ok rest me now s1" using solv guards_solvent g by metis
  note V = batch_total_sum [OF v order_refl]
  note D = deposited [OF S rest s2 me(2) V(3)]
  have bp: "uint (unwrap_or (lj_fee_bps s2) 0) \<le> 10000" using D(3) by (auto simp: settings_ok_def)
  have each: "\<forall>x \<in> set xs. op_amount x * 10000 \<le> I128_MAX"
  proof
    fix x assume "x \<in> set xs"
    then have "op_amount x \<le> sum_list (map op_amount xs)"
      using V(2) by (intro member_le_sum_list) (auto intro: less_imp_le)
    then show "op_amount x * 10000 \<le> I128_MAX" using D(5) V(1) by simp
  qed
  have "books_move t v s2 s3 \<and> credit_ok (timestamp e) s3"
    using batch_loop_move [OF s3 D(2,4) time bp V(2) each] D(6) V(1) by simp
  then have "jar_solvent holding ledger_ok rest me (timestamp e) s3" using deposit_then_books [OF S D(1)] by auto
  then show ?thesis using s' by (rule quiet_solvent)
qed

lemma transfer_totals_move:
  assumes "transfer_totals transfer e tipper m s = Inr s'" "contract_address e = me" "tipper \<noteq> me" "list_all (\<lambda>p. 0 \<le> snd p) m"
    and "accounts_ok s" "ledger_ok (lj_tokens s)"
  shows "jar_move holding ledger_ok me (\<lambda>t. 0) (\<lambda>t. total_at t m) s s' \<and> lj_credit s' = lj_credit s"
  using assms
proof (induction m arbitrary: s)
  case Nil
  then show ?case by (auto simp: jar_move_def)
next
  case (Cons p m)
  obtain t n where p: "p = (t, n)" by fastforce
  obtain s1 where s1: "lj_transfer transfer t tipper me n s = Inr s1" "transfer_totals transfer e tipper m s1 = Inr s'"
    using Cons.prems(1,2) by (auto simp: p result_simps)
  have d: "jar_move holding ledger_ok me (only t 0) (only t n) s s1" "lj_credit s1 = lj_credit s"
    using deposit_move [OF s1(1) Cons.prems(5,6,3)] Cons.prems(4) by (simp_all add: p)
  have "jar_move holding ledger_ok me (\<lambda>t. 0) (\<lambda>t. total_at t m) s1 s' \<and> lj_credit s' = lj_credit s1"
    using Cons.IH [OF s1(2) Cons.prems(2,3) _ jar_move_parts(1,2) [OF d(1)]] Cons.prems(4) by simp
  then show ?case using jar_move_trans [OF d(1)] d(2) by (auto simp: p)
qed

lemma batch_tip_v2_solvent:
  assumes run: "batch_tip_v2 transfer e tipper xs s0 = Inr (r, s')"
    and solv: "jar_solvent holding ledger_ok rest me now s0" and rest: "\<And>t. 0 \<le> rest t"
    and me: "contract_address e = me" "tipper \<noteq> me" and time: "now \<le> timestamp e"
  shows "jar_solvent holding ledger_ok rest me (timestamp e) s'"
proof -
  obtain s m s1 g s2 where g: "not_paused e s0 = Inr s" and m: "token_totals (lj_instance s) xs [] = Inr m"
    and s1: "transfer_totals transfer e tipper m s = Inr s1"
    and s2: "v2_loop tipper (unwrap_or (lj_old_fee_bps s1) 0) 0 xs 0 s1 = Inr (g, s2)" "quiet s2 s'"
    using run unfolding batch_tip_v2_def by (auto simp: result_simps)
  have S: "jar_solvent holding ledger_ok rest me now s" using solv guards_solvent g by metis
  note P = solvent_parts [OF S]
  have tot: "total_at t m = amount_at t xs \<and> (\<forall>x \<in> set xs. 0 < op_amount x) \<and> list_all (\<lambda>p. 0 \<le> snd p) m" for t
    using token_totals_sum [OF m, of t] by simp
  have d: "jar_move holding ledger_ok me (\<lambda>t. 0) (\<lambda>t. amount_at t xs) s s1" "lj_credit s1 = lj_credit s"
    using transfer_totals_move [OF s1 me _ P(1,4)] tot by auto
  note J = jar_move_parts [OF d(1)]
  have bp: "uint (unwrap_or (lj_old_fee_bps s1) 0) \<le> 10000" using P(2) J(3) by (simp add: settings_def settings_ok_def)
  have "amount_at t xs \<le> cap" for t
  proof -
    have "holding (lj_tokens s1) t me = holding (lj_tokens s) t me + amount_at t xs" using d(1) by (simp add: jar_move_def)
    moreover have "0 \<le> holding (lj_tokens s) t me"
      using S rest [of t] account_le_owed(2,6) [OF P(1), of t] by (auto simp: jar_solvent_def) (smt (verit))
    ultimately show ?thesis using holding_cap [OF J(2), of t me] by linarith
  qed
  moreover have "op_amount x \<le> amount_at (op_token x) xs" if "x \<in> set xs" for x using amount_le_at that tot by blast
  ultimately have "\<forall>x \<in> set xs. 0 < op_amount x \<and> op_amount x * 10000 \<le> I128_MAX" using tot cap_small by (smt (verit))
  then have v: "jar_move holding ledger_ok me (\<lambda>t. amount_at t xs) (\<lambda>t. 0) s1 s2 \<and> lj_credit s2 = lj_credit s1"
    using v2_loop_move [OF s2(1) J(1), of ledger_ok] J(2) bp by blast
  note j = jar_move_trans [OF d(1) conjunct1 [OF v]]
  have c: "credit_ok (timestamp e) s2" using credit_ok_mono [OF P(3) time] v d(2) by (simp add: credit_ok_def)
  have "jar_solvent holding ledger_ok rest me (timestamp e) s2"
    by (rule jar_move_solvent [OF S j _ c]) simp
  then show ?thesis using s2(2) by (rule quiet_solvent)
qed

lemma multi_one_solvent:
  assumes run: "multi_one transfer e tipper bp i x s = Inr s'" and n: "0 < op_amount x" and bp: "uint bp \<le> 10000"
    and S: "jar_solvent holding ledger_ok rest me now s" and rest: "\<And>t. 0 \<le> rest t"
    and me: "contract_address e = me" "tipper \<noteq> me"
  shows "jar_solvent holding ledger_ok rest me now s'"
proof -
  let ?n = "op_amount x" and ?c = "op_creator x" and ?t = "op_token x" and ?f = "bps_of (op_amount x) bp"
  obtain s1 where s1: "lj_transfer transfer ?t tipper me ?n s = Inr s1"
    using run unfolding multi_one_def Let_def me(1) by (auto simp: result_simps)
  note D = deposited [OF S rest s1 me(2) less_imp_le [OF n]]
  have f: "0 \<le> ?f" "?f \<le> ?n" using bps_exact [OF less_imp_le [OF n] D(5) bp] by auto
  have sub: "sub_i128 ?n ?f = ?n - ?f" using f n D(5) by (simp add: sub_i128_def in_i128_nonneg)
  note a = account_le_owed [OF D(2), where t = ?t]
  define s2 where "s2 = (if ?f > 0 then set_old_fee ?t (old_fee_of ?t s1 + ?f) s1 else s1)"
  have m2: "books_move ?t ?f s1 s2" "lj_credit s2 = lj_credit s1"
    using books_move_old_fee [OF D(2), of "old_fee_of ?t s1 + ?f" ?t] a(7) f(1) books_move_same [OF D(2), of s1 ?t]
    by (auto simp: s2_def set_old_fee_def)
  define s3 where "s3 = set_balance ?c ?t (balance_of ?c ?t s2 + (?n - ?f)) s2"
  have b2: "balance_of ?c ?t s2 = balance_of ?c ?t s1" by (simp add: s2_def set_old_fee_def balance_of_def)
  have m3: "books_move ?t (?n - ?f) s2 s3"
    using books_move_balance [OF books_move_ok [OF m2(1)], of "balance_of ?c ?t s2 + (?n - ?f)" ?t ?c] a(5) [of ?c] f(2) b2 by (simp add: s3_def)
  have sat: "sat_i128 (old_fee_of ?t s1 + ?f) = old_fee_of ?t s1 + ?f"
      "sat_i128 (balance_of ?c ?t s2 + (?n - ?f)) = balance_of ?c ?t s2 + (?n - ?f)"
    using a(3,7) a(1,5) [of ?c] f n D(6) b2 by (simp_all add: in_i128_nonneg)
  have e2: "(if ?f > 0 then set_old_fee ?t (sat_i128 (unwrap_or (bk_old_fee (lj_books s1) ?t) 0 + ?f)) s1 else s1) = s2"
    using sat(1) by (simp add: s2_def old_fee_of_def)
  have q: "quiet s3 s'" using run unfolding multi_one_def Let_def me(1) s1 and_then_simps sub e2 sat(2) s3_def by auto
  have b: "books_move ?t ?n s1 s'" using books_then_quiet [OF books_move_trans [OF m2(1) m3] q] by simp
  have "credit_ok now s'" using D(4) m2(2) q by (simp add: credit_ok_def quiet_def s3_def set_balance_def)
  then show ?thesis by (rule deposit_then_books [OF S D(1) b order_refl])
qed

lemma multi_loop_solvent:
  assumes "multi_loop transfer e tipper bp i xs m s = Inr (m', s')" "uint bp \<le> 10000"
    and "jar_solvent holding ledger_ok rest me now s" and rest: "\<And>t. 0 \<le> rest t"
    and me: "contract_address e = me" "tipper \<noteq> me"
  shows "jar_solvent holding ledger_ok rest me now s'"
  using assms(1-3)
proof (induction xs arbitrary: i m s)
  case (Cons x xs)
  show ?case
  proof (cases "op_amount x \<le> 0 \<or> \<not> legacy_whitelisted (lj_instance s) (op_token x)")
    case True
    then show ?thesis using Cons by (auto split: if_splits)
  next
    case False
    then obtain s1 m1 where "multi_one transfer e tipper bp i x s = Inr s1" "multi_loop transfer e tipper bp (i + 1) xs m1 s1 = Inr (m', s')"
      using Cons.prems(1) by (auto simp: result_simps split: if_splits)
    then show ?thesis using Cons.IH multi_one_solvent [OF _ _ Cons.prems(2,3) rest me] False Cons.prems(2) by force
  qed
qed simp

lemma batch_tip_multi_solvent:
  assumes run: "batch_tip_multi transfer e tipper xs s0 = Inr (r, s')"
    and solv: "jar_solvent holding ledger_ok rest me now s0" and rest: "\<And>t. 0 \<le> rest t"
    and me: "contract_address e = me" "tipper \<noteq> me"
  shows "jar_solvent holding ledger_ok rest me now s'"
proof -
  obtain s m s1 where g: "not_paused e s0 = Inr s"
    and s1: "multi_loop transfer e tipper (unwrap_or (lj_old_fee_bps s) 0) 0 xs \<lparr>ma_success = 0, ma_skipped = 0, ma_grand = 0, ma_results = []\<rparr> s = Inr (m, s1)"
    and q: "quiet s1 s'"
    using run unfolding batch_tip_multi_def Let_def by (auto simp: result_simps)
  have S: "jar_solvent holding ledger_ok rest me now s" using solv guards_solvent g by metis
  have "uint (unwrap_or (lj_old_fee_bps s) 0) \<le> 10000" using solvent_parts(2) [OF S] by (simp add: settings_ok_def)
  then show ?thesis using quiet_solvent [OF multi_loop_solvent [OF s1 _ S rest me] q] by blast
qed

end

end
