(* ===== verification/Legacy_Outflow.thy ===== *)
theory Legacy_Outflow
  imports Legacy_Runs
begin

text \<open>
  The calls of the superseded tip jar that pay out, lend, insure or administer keep it solvent.
\<close>

section \<open>Payouts\<close>

lemma same_accounts_payout: "same_accounts s (s\<lparr>lj_payout := p\<rparr>)" "same_accounts s (s\<lparr>lj_tokens := tk\<rparr>)"
  by (simp_all add: same_accounts_def reserve_of_def)

lemma payout_solvent:
  "jar_solvent holding ok rest me now s \<Longrightarrow> requests_ok me (s\<lparr>lj_payout := p\<rparr>) \<Longrightarrow>
   jar_solvent holding ok rest me now (s\<lparr>lj_payout := p\<rparr>)"
  using same_accounts_of(5,6) [OF same_accounts_payout(1) [of s p]]
  by (simp add: jar_solvent_def settings_ok_def credit_ok_def)

lemma requests_ok_cong: "po_msig p = po_msig (lj_payout s) \<Longrightarrow> requests_ok me s \<Longrightarrow> requests_ok me (s\<lparr>lj_payout := p\<rparr>)"
  by (simp add: requests_ok_def)

lemma limits_solvent:
  assumes "check_and_update_withdrawal_limits e c n s = Inr s'" "jar_solvent holding ok rest me now s"
  shows "jar_solvent holding ok rest me now s'" "balance_of c' t s' = balance_of c' t s" "lj_payout s' = lj_payout s\<lparr>po_limits := po_limits (lj_payout s')\<rparr>"
    "s' = s\<lparr>lj_payout := lj_payout s'\<rparr>"
proof -
  obtain l where s': "s' = set_limits c l s"
    using assms(1) unfolding check_and_update_withdrawal_limits_def Let_def by (auto simp: result_simps)
  then show "jar_solvent holding ok rest me now s'" "balance_of c' t s' = balance_of c' t s"
      "lj_payout s' = lj_payout s\<lparr>po_limits := po_limits (lj_payout s')\<rparr>" "s' = s\<lparr>lj_payout := lj_payout s'\<rparr>"
    using payout_solvent [OF assms(2) requests_ok_cong] solvent_parts(5) [OF assms(2)]
    by (simp_all add: set_limits_def balance_of_def)
qed

lemma withdrawable_is_balance: "accounts_ok s \<Longrightarrow> get_withdrawable_balance c t s = balance_of c t s"
  by (simp add: accounts_ok_def get_withdrawable_balance_def balance_of_def)

lemma debit_move:
  assumes "accounts_ok s" "0 \<le> n" "n \<le> balance_of c t s" "owed t s \<le> I128_MAX"
  shows "books_move t (- n) s (set_balance c t (sub_i128 (balance_of c t s) n) s)"
proof -
  have "sub_i128 (balance_of c t s) n = balance_of c t s - n"
    using assms account_le_owed(1) [OF assms(1), of c t] by (simp add: sub_i128_def in_i128_nonneg)
  then show ?thesis using books_move_balance [OF assms(1), of "balance_of c t s - n" t c] assms(3) by simp
qed

lemma delegate_frames:
  "po_msig (remove_delegate c d p) = po_msig p" "po_msig (append_delegation_history c dg p) = po_msig p"
  "po_msig (put_delegation c d dg p) = po_msig p" "po_msig (add_delegate c d p) = po_msig p"
  by (simp_all add: remove_delegate_def append_delegation_history_def put_delegation_def add_delegate_def Let_def)

lemma spend_delegation_frame: "po_msig (spend_delegation c d dg n p) = po_msig p"
  by (simp add: spend_delegation_def delegate_frames Let_def)

context sep41_capped
begin

lemma paid_out:
  assumes S: "jar_solvent holding ledger_ok rest me now s" and b: "books_move t (- n) s s1" "lj_credit s1 = lj_credit s"
    and r: "requests_ok me (s1\<lparr>lj_payout := p\<rparr>)" and tr: "lj_transfer transfer t me dst n (s1\<lparr>lj_payout := p\<rparr>) = Inr s'"
    and n: "dst \<noteq> me" "0 \<le> n"
  shows "jar_solvent holding ledger_ok rest me now s'"
proof -
  note P = solvent_parts [OF S]
  have tok: "lj_tokens s1 = lj_tokens s" "settings s1 = settings s" using b(1) by (auto simp: books_move_def)
  have eq: "owed t' (s1\<lparr>lj_payout := p\<rparr>) = owed t' s1" "accounts_ok (s1\<lparr>lj_payout := p\<rparr>)" for t'
    using same_accounts_of(5,6) [OF same_accounts_payout(1) [of s1 p]] books_move_ok [OF b(1)] by simp_all
  have m: "jar_move holding ledger_ok me (only t 0) (only t (- n)) (s1\<lparr>lj_payout := p\<rparr>) s'" "lj_credit s' = lj_credit s1"
    using payout_move [OF tr eq(2) _ n] P(4) tok(1) by simp_all
  note J = jar_move_parts [OF m(1)]
  have "owed t' s' + rest t' \<le> holding (lj_tokens s') t' me" for t'
  proof -
    have "owed t' s' = owed t' s + only t (- n) t'" using J(4) [of t'] b(1) eq(1) by (simp add: books_move_def only_def)
    moreover have "holding (lj_tokens s') t' me = holding (lj_tokens s) t' me + only t (- n) t'"
      using m(1) tok(1) by (simp add: jar_move_def)
    ultimately show ?thesis using S by (simp add: jar_solvent_def)
  qed
  moreover have "settings s' = settings s" using J(3) tok(2) by (simp add: settings_def)
  then have "settings_ok s'" using P(2) settings_ok_cong by blast
  moreover have "requests_ok me s'" using m(1) r by (simp add: jar_move_def requests_ok_def)
  ultimately show ?thesis using J(1,2) P(3) m(2) b(2) by (simp add: jar_solvent_def credit_ok_def)
qed

lemma debit_and_pay_solvent:
  assumes S: "jar_solvent holding ledger_ok rest me now s" and rest: "\<And>t. 0 \<le> rest t"
    and run: "debit_and_pay transfer e c t dst (balance_of c t s) n s = Inr s'"
    and n: "0 \<le> n" "n \<le> balance_of c t s" "dst \<noteq> me" "contract_address e = me"
  shows "jar_solvent holding ledger_ok rest me now s'"
proof -
  let ?s1 = "set_balance c t (sub_i128 (balance_of c t s) n) s"
  have "owed t s \<le> I128_MAX"
    using owed_cap [OF S rest, of t] cap_small n(1,2) account_le_owed(1,5) [OF solvent_parts(1) [OF S], of c t] by linarith
  then have b: "books_move t (- n) s ?s1" using debit_move [OF solvent_parts(1) [OF S] n(1,2)] by blast
  show ?thesis
    using run paid_out [OF S b, of "lj_payout ?s1" dst s'] n solvent_parts(5) [OF S]
    by (simp add: debit_and_pay_def set_balance_def requests_ok_def)
qed

lemma withdraw_solvent:
  assumes run: "lg_withdraw transfer e c t amount s0 = Inr s'"
    and solv: "jar_solvent holding ledger_ok rest me now s0" and rest: "\<And>t. 0 \<le> rest t"
    and me: "contract_address e = me" "\<not> authorized e me"
  shows "jar_solvent holding ledger_ok rest me now s'"
proof -
  obtain s1 s n s2 s3 where g: "not_paused e s0 = Inr s1" "feature_not_paused e Withdrawals s1 = Inr s" and auth: "authorized e c"
    and n: "0 < n" "n \<le> get_withdrawable_balance c t s" and s2: "check_and_update_withdrawal_limits e c n s = Inr s2"
    and s3: "debit_and_pay transfer e c t c (get_withdrawable_balance c t s) n s2 = Inr s3" "quiet s3 s'"
    using run unfolding lg_withdraw_def Let_def
    by (cases amount) (auto simp: result_simps linorder_not_le linorder_not_less split: if_splits intro: that)
  have S: "jar_solvent holding ledger_ok rest me now s" using solv guards_solvent g by metis
  note L = limits_solvent [OF s2 S]
  have w: "get_withdrawable_balance c t s = balance_of c t s2" using withdrawable_is_balance [OF solvent_parts(1) [OF S]] L(2) by simp
  have "c \<noteq> me" using auth me(2) by auto
  then show ?thesis
    using quiet_solvent [OF debit_and_pay_solvent [OF L(1) rest s3(1) [unfolded w] _ _ _ me(1)] s3(2)] n unfolding w by simp
qed

lemma withdraw_amount_solvent:
  assumes run: "withdraw_amount transfer e c t n s0 = Inr s'"
    and solv: "jar_solvent holding ledger_ok rest me now s0" and rest: "\<And>t. 0 \<le> rest t"
    and me: "contract_address e = me" "\<not> authorized e me"
  shows "jar_solvent holding ledger_ok rest me now s'"
proof -
  obtain s s2 s3 where g: "not_paused e s0 = Inr s" and auth: "authorized e c"
    and n: "MIN_WITHDRAWAL \<le> n" "n \<le> get_withdrawable_balance c t s" and s2: "check_and_update_withdrawal_limits e c n s = Inr s2"
    and s3: "debit_and_pay transfer e c t c (get_withdrawable_balance c t s) n s2 = Inr s3" "quiet s3 s'"
    using run unfolding withdraw_amount_def Let_def
    by (auto simp: result_simps linorder_not_less split: if_splits intro: that)
  have S: "jar_solvent holding ledger_ok rest me now s" using solv guards_solvent g by metis
  note L = limits_solvent [OF s2 S]
  have w: "get_withdrawable_balance c t s = balance_of c t s2" using withdrawable_is_balance [OF solvent_parts(1) [OF S]] L(2) by simp
  have "c \<noteq> me" using auth me(2) by auto
  then show ?thesis
    using quiet_solvent [OF debit_and_pay_solvent [OF L(1) rest s3(1) [unfolded w] _ _ _ me(1)] s3(2)] n unfolding w
    by (simp add: MIN_WITHDRAWAL_def)
qed

lemma emergency_solvent:
  assumes run: "emergency_withdraw transfer e admin c t s = Inr s'"
    and S: "jar_solvent holding ledger_ok rest me now s" and rest: "\<And>t. 0 \<le> rest t"
    and me: "contract_address e = me" "c \<noteq> me"
  shows "jar_solvent holding ledger_ok rest me now s'"
proof -
  obtain s1 where s1: "lj_transfer transfer t me c (balance_of c t s) (set_balance c t 0 s) = Inr s1" "quiet s1 s'"
    using run unfolding emergency_withdraw_def Let_def me(1) by (auto simp: result_simps split: if_splits intro: that)
  have b: "books_move t (- balance_of c t s) s (set_balance c t 0 s)"
    using books_move_balance [OF solvent_parts(1) [OF S], of 0 t c] by simp
  have "jar_solvent holding ledger_ok rest me now s1"
    using paid_out [OF S b, of "lj_payout s" c s1] s1(1) me(2) solvent_parts(5) [OF S] account_le_owed(5) [OF solvent_parts(1) [OF S]]
    by (simp add: set_balance_def requests_ok_def)
  then show ?thesis using s1(2) by (rule quiet_solvent)
qed

lemma withdraw_as_delegate_solvent:
  assumes run: "withdraw_as_delegate transfer e d c t n s0 = Inr s'"
    and solv: "jar_solvent holding ledger_ok rest me now s0" and rest: "\<And>t. 0 \<le> rest t"
    and me: "contract_address e = me" "\<not> authorized e me"
  shows "jar_solvent holding ledger_ok rest me now s'"
proof -
  obtain s dg s1 s3 where g: "not_paused e s0 = Inr s" and auth: "authorized e d" and n: "0 < n" "n \<le> balance_of c t s"
    and s1: "check_and_update_withdrawal_limits e c n s = Inr s1"
    and s3: "lj_transfer transfer t me d n ((set_balance c t (sub_i128 (balance_of c t s) n) s1)\<lparr>lj_payout :=
        spend_delegation c d dg n (lj_payout (set_balance c t (sub_i128 (balance_of c t s) n) s1))\<rparr>) = Inr s3" "quiet s3 s'"
    using run unfolding withdraw_as_delegate_def Let_def me(1)
    by (auto simp: result_simps drop_and_fail_def linorder_not_less linorder_not_le split: if_splits intro: that)
  have S: "jar_solvent holding ledger_ok rest me now s" using solv guards_solvent g by metis
  note L = limits_solvent [OF s1 S]
  have w: "balance_of c t s = balance_of c t s1" using L(2) by simp
  have "owed t s1 \<le> I128_MAX"
    using owed_cap [OF L(1) rest, of t] cap_small account_le_owed(1,5) [OF solvent_parts(1) [OF L(1)], of c t] by linarith
  then have b: "books_move t (- n) s1 (set_balance c t (sub_i128 (balance_of c t s1) n) s1)"
    using debit_move [OF solvent_parts(1) [OF L(1)]] n w by simp
  have "d \<noteq> me" using auth me(2) by auto
  have "jar_solvent holding ledger_ok rest me now s3"
    by (rule paid_out [OF L(1) b _ _ s3(1) [unfolded w] \<open>d \<noteq> me\<close>])
      (use n solvent_parts(5) [OF L(1)] in \<open>simp_all add: set_balance_def requests_ok_def spend_delegation_frame\<close>)
  then show ?thesis using s3(2) by (rule quiet_solvent)
qed

lemma request_multisig_solvent:
  assumes run: "request_multisig_withdrawal transfer e c t n s0 = Inr (i, s')"
    and solv: "jar_solvent holding ledger_ok rest me now s0" and rest: "\<And>t. 0 \<le> rest t"
    and me: "contract_address e = me" "\<not> authorized e me"
  shows "jar_solvent holding ledger_ok rest me now s'"
proof -
  obtain s cfg where g: "not_paused e s0 = Inr s" and auth: "authorized e c" and n: "0 < n" "n \<le> balance_of c t s"
    and cfg: "po_msig_cfg (lj_payout s) = Some cfg"
    using run unfolding request_multisig_withdrawal_def Let_def
    by (auto simp: result_simps linorder_not_less linorder_not_le split: if_splits intro: that)
  have S: "jar_solvent holding ledger_ok rest me now s" using solv guards_solvent g by metis
  have c: "c \<noteq> me" using auth me(2) by auto
  show ?thesis
  proof (cases "mc_threshold cfg > 0 \<and> n \<le> mc_threshold cfg")
    case True
    then obtain s1 s2 where s1: "check_and_update_withdrawal_limits e c n s = Inr s1"
      and s2: "debit_and_pay transfer e c t c (balance_of c t s) n s1 = Inr s2" "quiet s2 s'"
      using run g auth n cfg unfolding request_multisig_withdrawal_def Let_def by (auto simp: result_simps)
    note L = limits_solvent [OF s1 S]
    have w: "balance_of c t s = balance_of c t s1" using L(2) by simp
    show ?thesis
      using quiet_solvent [OF debit_and_pay_solvent [OF L(1) rest s2(1) [unfolded w] _ _ c me(1)] s2(2)] n unfolding w by simp
  next
    case False
    define k where "k = unwrap_or (po_msig_ctr (lj_payout s)) 0"
    define r where "r = \<lparr>mw_request_id = k, mw_creator = c, mw_token = t, mw_amount = n, mw_approvals = [],
      mw_required_approvals = mc_required_approvals cfg, mw_expires_at = timestamp e + mc_expiry_seconds cfg,
      mw_executed = False, mw_cancelled = False\<rparr>"
    define p where "p = (lj_payout s)\<lparr>po_msig_ctr := Some (k + 1), po_msig := (po_msig (lj_payout s))(k \<mapsto> r)\<rparr>"
    have p: "quiet (s\<lparr>lj_payout := p\<rparr>) s'"
      using run g auth n cfg False unfolding request_multisig_withdrawal_def Let_def put_request_def p_def r_def k_def by (auto simp: result_simps)
    have q: "\<forall>i r. po_msig p i = Some r \<longrightarrow> po_msig (lj_payout s) i = Some r \<or> mw_creator r = c \<and> mw_amount r = n"
      by (simp add: p_def r_def)
    have "requests_ok me (s\<lparr>lj_payout := p\<rparr>)" using q solvent_parts(5) [OF S] c n(1) by (auto simp: requests_ok_def)
    then show ?thesis using quiet_solvent [OF payout_solvent [OF S] p] by blast
  qed
qed

lemma approve_withdrawal_solvent:
  assumes run: "approve_withdrawal transfer e a i s0 = Inr s'"
    and solv: "jar_solvent holding ledger_ok rest me now s0" and rest: "\<And>t. 0 \<le> rest t" and me: "contract_address e = me"
  shows "jar_solvent holding ledger_ok rest me now s'"
proof -
  obtain s r where g: "not_paused e s0 = Inr s" and r: "po_msig (lj_payout s) i = Some r"
    using run unfolding approve_withdrawal_def Let_def by (auto simp: result_simps split: if_splits intro: that)
  have S: "jar_solvent holding ledger_ok rest me now s" using solv guards_solvent g by metis
  note R = solvent_parts(5) [OF S]
  let ?c = "mw_creator r" and ?t = "mw_token r" and ?n = "mw_amount r"
  have rc: "?c \<noteq> me" "0 < ?n" using R r by (auto simp: requests_ok_def)
  have put: "requests_ok me (s1\<lparr>lj_payout := (lj_payout s)\<lparr>po_msig := (po_msig (lj_payout s))(i \<mapsto> r')\<rparr>\<rparr>)"
    if "mw_creator r' = ?c" "mw_amount r' = ?n" for s1 :: "'a core_jar" and r'
    using that R rc by (auto simp: requests_ok_def)
  consider (wait) p r' where "quiet (s\<lparr>lj_payout := p\<rparr>) s'" "p = (lj_payout s)\<lparr>po_msig := (po_msig (lj_payout s))(i \<mapsto> r')\<rparr>"
      "mw_creator r' = ?c" "mw_amount r' = ?n"
    | (pay) s1 s4 r' where "quiet s s1" "?n \<le> balance_of ?c ?t s1" "mw_creator r' = ?c" "mw_amount r' = ?n"
      "lj_transfer transfer ?t me ?c ?n (put_request i r' (set_balance ?c ?t (sub_i128 (balance_of ?c ?t s1) ?n) s1)) = Inr s4" "quiet s4 s'"
  proof (cases "of_nat (length (mw_approvals r @ [a])) \<ge> mw_required_approvals r")
    case True
    have "\<exists>s4. ?n \<le> balance_of ?c ?t (lj_emit (PayoutEv (EvMsApr a i)) s) \<and>
      lj_transfer transfer ?t me ?c ?n (put_request i (r\<lparr>mw_approvals := mw_approvals r @ [a], mw_executed := True\<rparr>)
        (set_balance ?c ?t (sub_i128 (balance_of ?c ?t (lj_emit (PayoutEv (EvMsApr a i)) s)) ?n) (lj_emit (PayoutEv (EvMsApr a i)) s))) = Inr s4 \<and> quiet s4 s'"
      using run g r True unfolding approve_withdrawal_def Let_def me by (auto simp: result_simps split: if_splits)
    then obtain s4 where "?n \<le> balance_of ?c ?t (lj_emit (PayoutEv (EvMsApr a i)) s)"
      "lj_transfer transfer ?t me ?c ?n (put_request i (r\<lparr>mw_approvals := mw_approvals r @ [a], mw_executed := True\<rparr>)
        (set_balance ?c ?t (sub_i128 (balance_of ?c ?t (lj_emit (PayoutEv (EvMsApr a i)) s)) ?n) (lj_emit (PayoutEv (EvMsApr a i)) s))) = Inr s4" "quiet s4 s'"
      by blast
    then show thesis by (intro pay [of "lj_emit (PayoutEv (EvMsApr a i)) s" _ s4]) simp_all
  next
    case False
    then have "s' = put_request i (r\<lparr>mw_approvals := mw_approvals r @ [a]\<rparr>) (lj_emit (PayoutEv (EvMsApr a i)) s)"
      using run g r unfolding approve_withdrawal_def Let_def me by (auto simp: result_simps split: if_splits)
    then show thesis
      by (intro wait [OF _ refl, of "r\<lparr>mw_approvals := mw_approvals r @ [a]\<rparr>"])
        (simp_all add: put_request_def lj_emit_def quiet_def same_accounts_def reserve_of_def settings_def)
  qed
  then show ?thesis
  proof cases
    case wait
    show ?thesis using quiet_solvent [OF payout_solvent [OF S put [OF wait(3,4), of s]]] wait(1) unfolding wait(2) by blast
  next
    case pay
    have S1: "jar_solvent holding ledger_ok rest me now s1" using quiet_solvent [OF S pay(1)] .
    have "owed ?t s1 \<le> I128_MAX"
      using owed_cap [OF S1 rest, of ?t] cap_small account_le_owed(1,5) [OF solvent_parts(1) [OF S1], of ?c ?t] by linarith
    then have b: "books_move ?t (- ?n) s1 (set_balance ?c ?t (sub_i128 (balance_of ?c ?t s1) ?n) s1)"
      using debit_move [OF solvent_parts(1) [OF S1]] rc(2) pay(2) by simp
    have p: "lj_payout s1 = lj_payout s" using pay(1) by (simp add: quiet_def)
    have "jar_solvent holding ledger_ok rest me now s4"
      by (rule paid_out [OF S1 b _ _ pay(5) [unfolded put_request_def] rc(1)])
        (use rc put [OF pay(3,4)] p in \<open>simp_all add: set_balance_def\<close>)
    then show ?thesis using pay(6) by (rule quiet_solvent)
  qed
qed

lemma withdraw_fees_solvent:
  assumes run: "lg_withdraw_fees transfer e admin t s = Inr (n, s')"
    and S: "jar_solvent holding ledger_ok rest me now s" and me: "contract_address e = me" "\<not> authorized e me"
  shows "jar_solvent holding ledger_ok rest me now s'"
proof -
  obtain s1 where s1: "lj_transfer transfer t me admin (fee_of t s) (set_fee_balance t 0 s) = Inr s1" "quiet s1 s'" and auth: "authorized e admin"
    and n: "0 < fee_of t s"
    using run unfolding lg_withdraw_fees_def Let_def me(1) admin_only_def breaker_admin_def
    by (auto simp: result_simps linorder_not_le split: if_splits option.splits intro: that)
  have b: "books_move t (- fee_of t s) s (set_fee_balance t 0 s)"
    using books_move_fee [OF solvent_parts(1) [OF S], of 0 t] by simp
  have "jar_solvent holding ledger_ok rest me now s1"
    using paid_out [OF S b, of "lj_payout s" admin s1] s1(1) me(2) auth solvent_parts(5) [OF S] n
    by (auto simp: set_fee_balance_def requests_ok_def)
  then show ?thesis using s1(2) by (rule quiet_solvent)
qed

end

end
