(* ===== verification/Legacy_History.thy ===== *)
theory Legacy_History
  imports Legacy_Outflow
begin

text \<open>
  Loans, insurance and administration of the superseded tip jar, and the run of all its calls.
\<close>

section \<open>Loans\<close>

lemma account_ok_later: "account_ok now acc \<Longrightarrow> ca_last_update acc \<le> now' \<Longrightarrow>
    ca_interest_accrued acc * 2592000 \<le> PRINCIPAL_CAP * uint now'"
proof -
  assume a: "account_ok now acc" "ca_last_update acc \<le> now'"
  have "PRINCIPAL_CAP * uint (ca_last_update acc) \<le> PRINCIPAL_CAP * uint now'"
    using a(2) by (auto simp: PRINCIPAL_CAP_def word_le_def)
  then show ?thesis using a(1) by (simp add: account_ok_def)
qed

lemma loan_ok:
  assumes "account_ok (timestamp e) acc" "clock_ok e" "0 < n" "add_i128 (debt acc) n \<le> PRINCIPAL_CAP" "n \<le> 2 ^ 120"
  shows "account_ok (timestamp e) (acc\<lparr>ca_principal := add_i128 (ca_principal acc) n,
    ca_total_borrowed := add_i128 (ca_total_borrowed acc) n, ca_last_update := timestamp e\<rparr>)"
proof -
  have c: "uint (timestamp e) < 2 ^ 40" using assms(2) by (simp add: clock_ok_def)
  note d = debt_exact [OF assms(1) c]
  have i: "ca_interest_accrued acc \<le> 2 ^ 100" "0 \<le> ca_interest_accrued acc" "0 \<le> ca_principal acc" "ca_principal acc \<le> 2 ^ 73"
    using interest_small [OF assms(1) c] assms(1) by (auto simp: account_ok_def PRINCIPAL_CAP_def)
  have s: "add_i128 (debt acc) n = debt acc + n" "add_i128 (ca_principal acc) n = ca_principal acc + n"
    using d i assms(3,5) by (simp_all add: add_i128_exact in_i128_def I128_MAX_def I128_MIN_def)
  then show ?thesis using assms d i account_ok_later [OF assms(1)] by (auto simp: account_ok_def)
qed

context sep41_capped
begin

lemma borrow_solvent:
  assumes run: "borrow e c t n s0 = Inr s'" and solv: "jar_solvent holding ledger_ok rest me now s0" and rest: "\<And>t. 0 \<le> rest t"
    and time: "now \<le> timestamp e" "clock_ok e" and lim: "get_credit_limit c t s0 \<le> PRINCIPAL_CAP"
  shows "jar_solvent holding ledger_ok rest me (timestamp e) s'"
proof -
  obtain s cfg acc where g: "not_paused e s0 = Inr s" and cfg: "cr_cfg (lj_credit s) = Some cfg" "cc_enabled cfg"
      "cc_min_total_tips cfg \<le> total_of c t s" and n: "0 < n" "n \<le> fee_of t s"
    and acc: "acc = accrue_interest e cfg (unwrap_or (cr_acc (lj_credit s) (c, t))
        \<lparr>ca_principal = 0, ca_interest_accrued = 0, ca_last_update = timestamp e, ca_total_borrowed = 0, ca_total_repaid = 0\<rparr>)"
      "add_i128 (debt acc) n \<le> bps_of (total_of c t s) (cc_max_credit_ratio_bps cfg)"
    and s': "s' = lj_emit (CreditEv (EvBorrow c n t)) (log_credit e c t n 0 False (put_account c t
        (acc\<lparr>ca_principal := add_i128 (ca_principal acc) n, ca_total_borrowed := add_i128 (ca_total_borrowed acc) n, ca_last_update := timestamp e\<rparr>)
        (set_balance c t (add_i128 (balance_of c t (set_fee_balance t (sub_i128 (fee_of t s) n) s)) n) (set_fee_balance t (sub_i128 (fee_of t s) n) s))))"
    using run unfolding borrow_def Let_def
    by (auto simp: result_simps linorder_not_le linorder_not_less split: if_splits intro: that)
  have S: "jar_solvent holding ledger_ok rest me now s" using solv guards_solvent g by metis
  note P = solvent_parts [OF S]
  obtain g' where s: "s = s0\<lparr>lj_instance := g'\<rparr>" using frame_guards(1) [OF g] by blast
  have lim': "add_i128 (debt acc) n \<le> PRINCIPAL_CAP" using lim acc(2) cfg by (simp add: s get_credit_limit_def total_of_def)
  have cok: "credit_config_ok cfg" using P(3) cfg(1) by (simp add: credit_ok_def)
  have a0: "account_ok (timestamp e) (unwrap_or (cr_acc (lj_credit s) (c, t))
        \<lparr>ca_principal = 0, ca_interest_accrued = 0, ca_last_update = timestamp e, ca_total_borrowed = 0, ca_total_repaid = 0\<rparr>)"
    using credit_ok_mono [OF P(3) time(1)]
    by (cases "cr_acc (lj_credit s) (c, t)") (auto simp: credit_ok_def account_ok_def PRINCIPAL_CAP_def)
  have aok: "account_ok (timestamp e) acc" unfolding acc(1) by (rule accrue_interest_ok(1) [OF a0 order_refl time(2) cok])
  note A = account_le_owed [OF P(1), where t = t]
  have le: "balance_of c t s + n \<le> I128_MAX" "fee_of t s \<le> cap" using A(9) [of c] A(2,5,6) n owed_cap [OF S rest, of t] cap_small by force+
  have small: "n \<le> 2 ^ 120" using le(2) n cap_small by (simp add: I128_MAX_def)
  define s1 where "s1 = set_fee_balance t (fee_of t s - n) s"
  have b1: "books_move t (- n) s s1" using books_move_fee [OF P(1), of "fee_of t s - n" t] n by (simp add: s1_def)
  have bal: "balance_of c t s1 = balance_of c t s" by (simp add: s1_def balance_of_def set_fee_balance_def)
  define s2 where "s2 = set_balance c t (balance_of c t s1 + n) s1"
  have b2: "books_move t n s1 s2" using books_move_balance [OF books_move_ok [OF b1], of "balance_of c t s1 + n" t c] A(5) [of c] n bal by (simp add: s2_def)
  have ex: "sub_i128 (fee_of t s) n = fee_of t s - n" "add_i128 (balance_of c t s1) n = balance_of c t s1 + n"
    using n le A(5) [of c] A(6) cap_small bal by (auto simp: sub_i128_def add_i128_exact in_i128_nonneg)
  let ?a = "acc\<lparr>ca_principal := add_i128 (ca_principal acc) n, ca_total_borrowed := add_i128 (ca_total_borrowed acc) n, ca_last_update := timestamp e\<rparr>"
  have s'': "s' = lj_emit (CreditEv (EvBorrow c n t)) (log_credit e c t n 0 False (put_account c t ?a s2))"
    using s' ex(2) unfolding ex(1) s2_def s1_def by simp
  have b: "books_move t 0 s s'"
    using books_move_trans [OF b1 b2] same_accounts_of(5,6) [of s2 s'] unfolding s'' books_move_def
    by (auto simp: same_accounts_def lj_emit_def log_credit_def put_account_def settings_def reserve_of_def)
  have "credit_ok (timestamp e) s'"
    by (rule credit_ok_put [OF credit_ok_mono [OF P(3) time(1)] loan_ok [OF aok time(2) n(1) lim' small], of _ "(c, t)"])
      (auto simp: s'' s2_def s1_def lj_emit_def log_credit_def set_fee_balance_def set_balance_def put_account_def)
  then show ?thesis using jar_move_only_solvent [OF S jar_move_books [where ok = ledger_ok, OF b P(4)]] by simp
qed

lemma repay_credit_solvent:
  assumes run: "repay_credit e c t n s0 = Inr s'" and solv: "jar_solvent holding ledger_ok rest me now s0" and rest: "\<And>t. 0 \<le> rest t"
    and time: "now \<le> timestamp e" "clock_ok e"
  shows "jar_solvent holding ledger_ok rest me (timestamp e) s'"
proof -
  obtain s acc0 cfg where g: "not_paused e s0 = Inr s" and n: "0 < n" "n \<le> balance_of c t s"
    and cfg: "cr_cfg (lj_credit s) = Some cfg" "cr_acc (lj_credit s) (c, t) = Some acc0"
    using run unfolding repay_credit_def Let_def
    by (auto simp: result_simps linorder_not_le linorder_not_less split: if_splits option.splits intro: that)
  have S: "jar_solvent holding ledger_ok rest me now s" using solv guards_solvent g by metis
  note P = solvent_parts [OF S]
  have c: "uint (timestamp e) < 2 ^ 40" using time(2) by (simp add: clock_ok_def)
  define acc where "acc = accrue_interest e cfg acc0"
  have acc: "account_ok (timestamp e) acc"
    unfolding acc_def using P(3) cfg by (intro accrue_interest_ok(1) [OF _ time]) (auto simp: credit_ok_def)
  define r where "r = (if n > debt acc then debt acc else n)"
  have r: "0 \<le> r" "r \<le> n" "r \<le> debt acc" using n debt_exact(2) [OF acc c] by (auto simp: r_def)
  obtain i acc1 where pd: "pay_debt e r acc = (i, acc1)" by fastforce
  note p = pay_debt_ok [OF acc time(2) r(1,3) pd]
  have C: "credit_ok (timestamp e) s" using credit_ok_mono [OF P(3) time(1)] .
  show ?thesis
  proof (cases "r = 0")
    case True
    then have "s' = s"
      using run g n cfg unfolding repay_credit_def Let_def acc_def [symmetric] by (auto simp: result_simps r_def acc_def split: if_splits)
    then show ?thesis using S C by (simp add: jar_solvent_def)
  next
    case False
    note A = account_le_owed [OF P(1), where t = t]
    have le: "balance_of c t s + fee_of t s \<le> I128_MAX"
      using A(9) [of c] A(5) [of c] A(6) owed_cap [OF S rest, of t] cap_small by linarith
    define s1 where "s1 = set_balance c t (balance_of c t s - r) s"
    define s2 where "s2 = set_fee_balance t (fee_of t s + r) s1"
    have f: "fee_of t s1 = fee_of t s" "fee_of t (put_account c t acc1 s1) = fee_of t s"
      by (simp_all add: s1_def fee_of_def set_balance_def put_account_def)
    have ex: "sub_i128 (balance_of c t s) r = balance_of c t s - r" "add_i128 (fee_of t s) r = fee_of t s + r"
      using le r n A(5) [of c] A(6) by (auto simp: sub_i128_def add_i128_exact in_i128_nonneg)
    have b1: "books_move t (- r) s s1" using books_move_balance [OF P(1), of "balance_of c t s - r" t c] r n by (simp add: s1_def)
    have b2: "books_move t r s1 s2" using books_move_fee [OF books_move_ok [OF b1], of "fee_of t s + r" t] A(6) r f(1) by (simp add: s2_def)
    have s': "s' = lj_emit (CreditEv (EvRepay c r t)) (log_credit e c t r i True (set_fee_balance t (fee_of t s + r) (put_account c t acc1 s1)))"
      using run g n cfg pd False unfolding repay_credit_def Let_def s1_def
      by (auto simp: result_simps acc_def [symmetric] r_def [symmetric] ex f [unfolded s1_def] cong: if_cong)
    have b: "books_move t 0 s s'"
      using books_move_trans [OF b1 b2] same_accounts_of(5,6) [of s2 s'] unfolding s' books_move_def
      by (auto simp: same_accounts_def lj_emit_def log_credit_def put_account_def settings_def reserve_of_def s2_def set_fee_balance_def)
    have "credit_ok (timestamp e) s'"
      by (rule credit_ok_put [OF C p(1), of _ "(c, t)"])
        (auto simp: s' s1_def lj_emit_def log_credit_def set_fee_balance_def set_balance_def put_account_def)
    then show ?thesis using jar_move_only_solvent [OF S jar_move_books [where ok = ledger_ok, OF b P(4)]] by simp
  qed
qed

end

section \<open>Administration\<close>

text \<open>A call that changes no account, no token holding, no open request and no setting the accounts depend on.\<close>

definition calm :: "'tk core_jar \<Rightarrow> 'tk core_jar \<Rightarrow> bool" where
  "calm s s' \<longleftrightarrow> same_accounts s s' \<and> lj_tokens s' = lj_tokens s \<and> settings s' = settings s \<and> lj_credit s' = lj_credit s \<and>
     po_msig (lj_payout s') = po_msig (lj_payout s)"

lemma calm_solvent: "jar_solvent holding ok rest me now s \<Longrightarrow> calm s s' \<Longrightarrow> jar_solvent holding ok rest me now s'"
  using same_accounts_of(5,6) [of s s'] settings_ok_cong [of s' s]
  by (auto simp: calm_def jar_solvent_def credit_ok_def requests_ok_def)

lemmas calm_defs = calm_def same_accounts_def settings_def reserve_of_def lj_emit_def

lemma admin_calm:
  "lg_add_token e a t s = Inr s' \<Longrightarrow> calm s s'"
  "lg_remove_token e a t s = Inr s' \<Longrightarrow> calm s s'"
  "set_min_tip e a n s = Inr s' \<Longrightarrow> calm s s'"
  "lg_pause e a reason s = Inr s' \<Longrightarrow> calm s s'"
  "lg_unpause e a s = Inr s' \<Longrightarrow> calm s s'"
  "pause_feature e a scope reason s = Inr s' \<Longrightarrow> calm s s'"
  "unpause_feature e a scope s = Inr s' \<Longrightarrow> calm s s'"
  by (auto simp: lg_add_token_def lg_remove_token_def set_min_tip_def lg_pause_def lg_unpause_def pause_feature_def
      unpause_feature_def result_simps calm_defs split: if_splits)

lemma payout_admin_calm:
  "set_withdrawal_limits e a c n d s = Inr s' \<Longrightarrow> calm s s'"
  "set_default_withdrawal_limits e a n d s = Inr s' \<Longrightarrow> calm s s'"
  "set_multisig_config e a n k d ss s = Inr s' \<Longrightarrow> calm s s'"
  by (auto simp: set_withdrawal_limits_def set_default_withdrawal_limits_def set_multisig_config_def set_limits_def
      result_simps calm_defs Let_def split: if_splits)

lemma insurance_admin_calm:
  "insurance_set_enabled e a b s = Inr s' \<Longrightarrow> calm s s'"
  "insurance_set_max_active_claims e a k s = Inr s' \<Longrightarrow> calm s s'"
  "insurance_set_admin e a a' s = Inr s' \<Longrightarrow> calm s s'"
  by (auto simp: insurance_set_enabled_def insurance_set_max_active_claims_def insurance_set_admin_def upd_insurance_def
      result_simps calm_defs split: if_splits)

lemma delegation_calm:
  assumes "delegate_withdrawal e c d n k s = Inr s' \<or> revoke_delegation e c d s = Inr s'"
  shows "calm s s'"
proof -
  obtain s1 p where s1: "not_paused e s = Inr s1" "po_msig p = po_msig (lj_payout s1)" "calm (s1\<lparr>lj_payout := p\<rparr>) s'"
    using assms
  proof
    assume "delegate_withdrawal e c d n k s = Inr s'"
    then obtain s1 dg where "not_paused e s = Inr s1"
        "calm (s1\<lparr>lj_payout := append_delegation_history c dg (add_delegate c d (put_delegation c d dg (lj_payout s1)))\<rparr>) s'"
      unfolding delegate_withdrawal_def Let_def by (auto simp: result_simps calm_defs split: if_splits)
    from this(1) _ this(2) show thesis by (rule that) (simp add: delegate_frames)
  next
    assume "revoke_delegation e c d s = Inr s'"
    then obtain s1 dg where "not_paused e s = Inr s1"
        "calm (s1\<lparr>lj_payout := append_delegation_history c dg (remove_delegate c d (put_delegation c d dg (lj_payout s1)))\<rparr>) s'"
      unfolding revoke_delegation_def Let_def by (auto simp: result_simps calm_defs split: if_splits)
    from this(1) _ this(2) show thesis by (rule that) (simp add: delegate_frames)
  qed
  then show ?thesis using frame_guards(1) [OF s1(1)] by (auto simp: calm_defs)
qed

lemma cancel_multisig_solvent:
  assumes "cancel_multisig_withdrawal e a i s = Inr s'" "jar_solvent holding ok rest me now s"
  shows "jar_solvent holding ok rest me now s'"
proof -
  obtain r where r: "po_msig (lj_payout s) i = Some r" "quiet (put_request i (r\<lparr>mw_cancelled := True\<rparr>) s) s'"
    using assms(1) unfolding cancel_multisig_withdrawal_def by (auto simp: result_simps split: if_splits option.splits)
  have "requests_ok me (put_request i (r\<lparr>mw_cancelled := True\<rparr>) s)"
    using solvent_parts(5) [OF assms(2)] r(1) by (auto simp: requests_ok_def put_request_def)
  then show ?thesis using quiet_solvent [OF payout_solvent [OF assms(2)]] r(2) unfolding put_request_def by blast
qed

lemma create_milestone_goals: "create_milestone e a c n d s = Inr (i, s') \<Longrightarrow> gb_active (lj_goals s') c \<noteq> None"
  by (auto simp: create_milestone_def result_simps Let_def lj_emit_def split: if_splits)

lemma set_fee_bps_solvent:
  assumes "set_fee_bps e a bp s = Inr s'" "jar_solvent holding ok rest me now s"
  shows "jar_solvent holding ok rest me now s'"
proof -
  have s': "s' = lj_emit (AdminEv (EvPlatFee bp)) (s\<lparr>lj_fee_bps := Some bp\<rparr>)" "uint bp \<le> 1000"
    using assms(1) by (auto simp: set_fee_bps_def result_simps MAX_PLATFORM_FEE_BPS_def word_le_def linorder_not_less split: if_splits)
  have "same_accounts s s'" by (simp add: s' same_accounts_def reserve_of_def lj_emit_def)
  then show ?thesis
    using assms(2) same_accounts_of(5,6) [of s s'] s'(2)
    by (auto simp: jar_solvent_def s'(1) settings_ok_def credit_ok_def requests_ok_def lj_emit_def)
qed

lemma set_credit_config_solvent:
  assumes "set_credit_config e a cfg s = Inr s'" "jar_solvent holding ok rest me now s" "credit_config_ok cfg"
  shows "jar_solvent holding ok rest me now s'"
proof -
  have s': "s' = s\<lparr>lj_credit := (lj_credit s)\<lparr>cr_cfg := Some cfg\<rparr>\<rparr>" using assms(1) by (auto simp: set_credit_config_def result_simps)
  have "same_accounts s s'" by (simp add: s' same_accounts_def reserve_of_def)
  then show ?thesis
    using assms(2,3) same_accounts_of(5,6) [of s s']
    by (auto simp: jar_solvent_def s' settings_ok_def credit_ok_def requests_ok_def)
qed

lemma insurance_set_config_solvent:
  assumes "insurance_set_config e a cfg s = Inr s'" "jar_solvent holding ok rest me now s"
  shows "jar_solvent holding ok rest me now s'"
proof -
  have s': "s' = lj_emit (InsuranceEv (EvInsCfg (ic_min_contribution cfg) (ic_max_contribution cfg) (ic_premium_rate_bps cfg)
         (ic_payout_ratio_bps cfg) (ic_tip_premium_bps cfg))) (s\<lparr>lj_insurance := (lj_insurance s)\<lparr>in_cfg := Some cfg\<rparr>\<rparr>)"
      "uint (ic_tip_premium_bps cfg) \<le> 1000" "uint (ic_premium_rate_bps cfg) \<le> 500" "0 \<le> ic_min_contribution cfg"
    using assms(1) by (auto simp: insurance_set_config_def upd_insurance_def result_simps word_le_def linorder_not_less split: if_splits)
  have "same_accounts s s'" by (simp add: s'(1) same_accounts_def reserve_of_def lj_emit_def)
  then show ?thesis
    using assms(2) same_accounts_of(5,6) [of s s'] s'(2-)
    by (auto simp: jar_solvent_def s'(1) settings_ok_def credit_ok_def requests_ok_def lj_emit_def)
qed

section \<open>Insurance\<close>

text \<open>
  The claims on the pools are all pending: approval, rejection and payment write the claim back as it
  was read.
\<close>

definition all_pending :: "'tk core_jar \<Rightarrow> bool" where
  "all_pending s \<longleftrightarrow> (\<forall>i c. in_claim (lj_insurance s) i = Some c \<longrightarrow> cl_status c = ClaimPending)"

lemma close_active_calm:
  assumes "close_active i c s = Inr s'"
  shows "calm s s'" "in_claim (lj_insurance s') = in_claim (lj_insurance s)"
  using assms
  by (auto simp: close_active_def drop_active_def upd_insurance_def put_pool_def calm_defs split: option.splits if_splits)

lemma set_claim_calm: "in_claim (lj_insurance s) i = Some c \<Longrightarrow> set_claim i c s = s"
  by (simp add: set_claim_def upd_insurance_def fun_upd_idem_iff)

lemma submit_claim_calm:
  assumes "insurance_submit_claim e c t n h s0 = Inr (i, s')"
  shows "calm s0 s'" "all_pending s0 \<Longrightarrow> all_pending s'"
proof -
  obtain s pool where s: "not_paused e s0 = Inr s" "in_pool (lj_insurance s) t = Some pool"
    using assms unfolding insurance_submit_claim_def Let_def by (auto simp: result_simps split: if_splits)
  obtain g where g: "s = s0\<lparr>lj_instance := g\<rparr>" using frame_guards(1) [OF s(1)] by blast
  show "calm s0 s'"
    using assms s unfolding insurance_submit_claim_def Let_def by (auto simp: result_simps calm_defs g split: if_splits)
  show "all_pending s0 \<Longrightarrow> all_pending s'"
    using assms s unfolding insurance_submit_claim_def Let_def
    by (auto simp: result_simps all_pending_def lj_emit_def g split: if_splits)
qed

lemma approve_claim_calm:
  assumes "insurance_approve_claim e a i s = Inr s'"
  shows "calm s s'" "in_claim (lj_insurance s') = in_claim (lj_insurance s)"
proof -
  obtain c s1 where c: "in_claim (lj_insurance s) i = Some c" "close_active i c s = Inr s1" "s' = lj_emit (InsuranceEv (EvClmApp i a)) s1"
    using assms unfolding insurance_approve_claim_def by (auto simp: result_simps set_claim_calm Let_def split: if_splits)
  then show "calm s s'" "in_claim (lj_insurance s') = in_claim (lj_insurance s)"
    using close_active_calm [OF c(2)] by (auto simp: calm_defs)
qed

lemma reject_claim_calm:
  assumes "insurance_reject_claim e a i s = Inr s'"
  shows "calm s s'" "in_claim (lj_insurance s') = in_claim (lj_insurance s)"
proof -
  obtain c s1 where c: "in_claim (lj_insurance s) i = Some c" "close_active i c s = Inr s1 \<or> s1 = s" "s' = lj_emit (InsuranceEv (EvClmRej i a)) s1"
    using assms unfolding insurance_reject_claim_def Let_def by (auto simp: result_simps set_claim_calm split: if_splits)
  then show "calm s s'" "in_claim (lj_insurance s') = in_claim (lj_insurance s)"
    using close_active_calm [of i c s s1] by (auto simp: calm_defs)
qed

lemma pay_claim_never: "all_pending s \<Longrightarrow> insurance_pay_claim transfer e a i s \<noteq> Inr s'"
  by (auto simp: insurance_pay_claim_def result_simps all_pending_def)

lemma claims_loop_calm:
  assumes "claims_loop transfer e act is k m s = Inr (r, s')" "all_pending s"
  shows "calm s s' \<and> in_claim (lj_insurance s') = in_claim (lj_insurance s)"
  using assms
proof (induction "is" arbitrary: k m s)
  case Nil
  then show ?case by (auto simp: calm_def)
next
  case (Cons i "is")
  obtain c where c: "in_claim (lj_insurance s) i = Some c" "cl_status c = ClaimPending"
    using Cons.prems by (auto simp: result_simps all_pending_def)
  show ?case
  proof (cases "act = ''approve''")
    case True
    then obtain s1 where s1: "close_active i c s = Inr s1" "claims_loop transfer e act is (k + 1) m s1 = Inr (r, s')"
      using Cons.prems(1) c by (auto simp: result_simps set_claim_calm)
    note ca = close_active_calm [OF s1(1)]
    have "all_pending s1" using Cons.prems(2) ca(2) by (simp add: all_pending_def)
    from Cons.IH [OF s1(2) this] show ?thesis using ca by (auto simp: calm_def same_accounts_trans)
  next
    case False
    then show ?thesis using Cons.IH Cons.prems c by (auto simp: result_simps)
  qed
qed

lemma claims_batch_calm:
  assumes "insurance_process_claims_batch transfer e a is act s = Inr s'" "all_pending s"
  shows "calm s s'" "in_claim (lj_insurance s') = in_claim (lj_insurance s)"
proof -
  obtain k m s1 where s1: "claims_loop transfer e act is 0 0 s = Inr ((k, m), s1)" "s' = lj_emit (InsuranceEv (EvClmPro k m)) s1"
    using assms(1) unfolding insurance_process_claims_batch_def by (auto simp: result_simps)
  then show "calm s s'" "in_claim (lj_insurance s') = in_claim (lj_insurance s)"
    using claims_loop_calm [OF s1(1) assms(2)] by (auto simp: calm_defs)
qed

context sep41_capped
begin

lemma contribute_solvent:
  assumes run: "insurance_contribute transfer e c t n s0 = Inr s'"
    and solv: "jar_solvent holding ledger_ok rest me now s0" and rest: "\<And>t. 0 \<le> rest t"
    and me: "contract_address e = me" "\<not> authorized e me"
  shows "jar_solvent holding ledger_ok rest me now s'" "in_claim (lj_insurance s') = in_claim (lj_insurance s0)"
proof -
  obtain s cfg s1 where g: "not_paused e s0 = Inr s" and auth: "authorized e c" and cfg: "in_cfg (lj_insurance s) = Some cfg"
    and n: "ic_min_contribution cfg \<le> n" and s1: "lj_transfer transfer t c me n s = Inr s1"
    using run unfolding insurance_contribute_def Let_def me(1)
    by (auto simp: result_simps linorder_not_less split: if_splits intro: that)
  have S: "jar_solvent holding ledger_ok rest me now s" using solv guards_solvent g by metis
  have cfg': "0 \<le> ic_min_contribution cfg" "uint (ic_premium_rate_bps cfg) \<le> 500"
    using solvent_parts(2) [OF S] cfg by (auto simp: settings_ok_def)
  then have n0: "0 \<le> n" and "c \<noteq> me" using n auth me(2) by auto
  note D = deposited [OF S rest s1 \<open>c \<noteq> me\<close> n0]
  let ?p = "bps_of n (ic_premium_rate_bps cfg)"
  have p: "0 \<le> ?p" "?p \<le> n" using bps_exact [OF n0 D(5), of "ic_premium_rate_bps cfg"] cfg'(2) by auto
  note A = account_le_owed [OF D(2), where t = t]
  let ?pool = "unwrap_or (in_pool (lj_insurance s1) t) (new_pool e t)"
  have r: "ip_total_reserves ?pool = reserve_of t s1" by (simp add: reserve_of_def new_pool_def split: option.split)
  have ex: "sub_i128 n ?p = n - ?p" "add_i128 (reserve_of t s1) (n - ?p) = reserve_of t s1 + (n - ?p)"
      "add_i128 (fee_of t s1) ?p = fee_of t s1 + ?p"
    using p n0 A(2,4,6,8) D(5,6) by (auto simp: sub_i128_def add_i128_exact in_i128_nonneg)
  define pool1 where "pool1 = ?pool\<lparr>ip_total_reserves := reserve_of t s1 + (n - ?p),
    ip_total_contributions := add_i128 (ip_total_contributions ?pool) n\<rparr>"
  define s2 where "s2 = put_pool t pool1 s1"
  have b2: "books_move t (n - ?p) s1 s2" using books_move_pool [OF D(2), of pool1 t] A(8) p by (simp add: s2_def pool1_def)
  define s4 where "s4 = track_creator_token c t (upd_insurance (\<lambda>ins. ins\<lparr>in_contrib := (in_contrib ins)((c, t) \<mapsto>
    add_i128 (unwrap_or (in_contrib ins (c, t)) 0) n)\<rparr>) s2)"
  have q: "quiet s2 s4" by (simp add: s4_def) (simp add: quiet_def same_accounts_def settings_def reserve_of_def upd_insurance_def)
  have b4: "books_move t (n - ?p) s1 s4" by (rule books_then_quiet [OF b2 q])
  have f: "fee_of t s4 = fee_of t s1"
    by (simp add: s4_def s2_def fee_of_def put_pool_def upd_insurance_def track_creator_token_def Let_def)
  have b5: "books_move t ?p s4 (if ?p > 0 then set_fee_balance t (fee_of t s4 + ?p) s4 else s4)"
    by (rule fee_move [OF books_move_ok [OF b4] p(1)])
  have s': "quiet (if ?p > 0 then set_fee_balance t (fee_of t s4 + ?p) s4 else s4) s'"
    using run g cfg s1 unfolding insurance_contribute_def Let_def me(1)
    by (auto simp: result_simps r ex pool1_def [symmetric] s2_def [symmetric] s4_def [symmetric] f split: if_splits)
  have b: "books_move t n s1 s'" using books_then_quiet [OF books_move_trans [OF b4 b5] s'] by simp
  have "lj_credit s' = lj_credit s1" using s' q by (simp add: quiet_def s2_def put_pool_def set_fee_balance_def split: if_splits)
  then have "credit_ok now s'" using D(4) by (simp add: credit_ok_def)
  then show "jar_solvent holding ledger_ok rest me now s'" by (rule deposit_then_books [OF S D(1) b order_refl])
  show "in_claim (lj_insurance s') = in_claim (lj_insurance s0)"
    using run frame_guards(1) [OF g] g s1 unfolding insurance_contribute_def Let_def me(1)
    by (auto simp: result_simps lj_emit_def set_fee_balance_def track_creator_token_def upd_insurance_def put_pool_def lj_transfer_def Let_def
        split: if_splits)
qed

lemma withdraw_excess_solvent:
  assumes run: "insurance_withdraw_excess transfer e a t n s = Inr s'" and S: "jar_solvent holding ledger_ok rest me now s" and rest: "\<And>t. 0 \<le> rest t"
    and me: "contract_address e = me" "\<not> authorized e me" and pos: "\<And>p. in_pool (lj_insurance s) t = Some p \<Longrightarrow> 0 \<le> ip_total_contributions p"
  shows "jar_solvent holding ledger_ok rest me now s'"
proof -
  obtain pool s1 where pool: "in_pool (lj_insurance s) t = Some pool" and n: "0 < n" "ip_total_contributions pool sdiv 10 \<le> sub_i128 (ip_total_reserves pool) n"
    and s1: "lj_transfer transfer t me a n (put_pool t (pool\<lparr>ip_total_reserves := sub_i128 (ip_total_reserves pool) n\<rparr>) s) = Inr s1" "quiet s1 s'"
    and auth: "authorized e a"
    using run unfolding insurance_withdraw_excess_def Let_def me(1) admin_only_def breaker_admin_def
    by (auto simp: result_simps linorder_not_le linorder_not_less split: if_splits option.splits intro: that)
  note A = account_le_owed [OF solvent_parts(1) [OF S], where t = t]
  have r: "ip_total_reserves pool = reserve_of t s" using pool by (simp add: reserve_of_def)
  have small: "reserve_of t s \<le> I128_MAX" using A(4,8) owed_cap [OF S rest, of t] cap_small by linarith
  obtain tk where "transfer (lj_tokens s) t me a n = Some tk" using s1(1) by (auto simp: lj_transfer_def result_simps put_pool_def)
  then have "n \<le> cap" using transfer_small(1) [OF solvent_parts(4) [OF S]] auth me(2) n(1) by fastforce
  then have "sub_i128 (reserve_of t s) n = reserve_of t s - n"
    using A(8) n(1) small cap_small by (simp add: sub_i128_def in_i128_def I128_MIN_def I128_MAX_def)
  moreover have "0 \<le> ip_total_contributions pool sdiv 10" using pos [OF pool] by (simp add: sdiv_int_nonneg pos_imp_zdiv_nonneg_iff)
  ultimately have v: "sub_i128 (ip_total_reserves pool) n = reserve_of t s - n" "0 \<le> reserve_of t s - n" using n(2) r by auto
  let ?s = "put_pool t (pool\<lparr>ip_total_reserves := reserve_of t s - n\<rparr>) s"
  have b: "books_move t (- n) s ?s"
    using books_move_pool [OF solvent_parts(1) [OF S], of "pool\<lparr>ip_total_reserves := reserve_of t s - n\<rparr>" t] v(2) by simp
  have "jar_solvent holding ledger_ok rest me now s1"
    using paid_out [OF S b, of "lj_payout s" a s1] s1(1) me(2) auth solvent_parts(5) [OF S] n
    by (auto simp: put_pool_def requests_ok_def v(1))
  then show ?thesis using s1(2) by (rule quiet_solvent)
qed

end

end
