(* ===== verification/Token_Supply.thy ===== *)
theory Token_Supply
  imports Token_Ledger
begin

text \<open>
  The assets of the Stellar network. A Stellar asset has less than \<open>2^63\<close> units in all; the locale \<open>sep41_bounded\<close> is a token
  nobody owns more of. On the ledger of \<open>Token_Ledger\<close> the bound is an invariant of the transfers, which keep the supply of
  every token.
\<close>

definition SUPPLY_CAP :: int where "SUPPLY_CAP = 2 ^ 63 - 1"

locale sep41_bounded = sep41 +
  assumes holding_bounded: "ledger_ok tk \<Longrightarrow> holding tk t a \<le> SUPPLY_CAP"

definition ledger_capped :: "ledger \<Rightarrow> bool" where
  "ledger_capped tk \<longleftrightarrow> (\<forall>t. (\<forall>a. 0 \<le> tk t a) \<and> finite (support (tk t)) \<and> support_total (tk t) \<le> SUPPLY_CAP)"

lemma ledger_capped_transfer:
  assumes "ledger_capped tk" "ledger_transfer tk t src dst n = Some tk'" "src \<noteq> dst" "0 \<le> n"
  shows "ledger_capped tk'"
proof -
  have n: "n \<le> tk t src" and tk': "tk' = tk(t := (tk t)(src := tk t src - n, dst := tk t dst + n))"
    using assms(2,3) by (auto simp: ledger_transfer_def Let_def split: if_splits)
  have t: "\<forall>a. 0 \<le> tk t a" "finite (support (tk t))" "support_total (tk t) \<le> SUPPLY_CAP" using assms(1) by (auto simp: ledger_capped_def)
  let ?f = "(tk t)(src := tk t src - n)"
  have f: "finite (support ?f)" using t(2) by (rule finite_support_upd)
  have "support_total (?f(dst := tk t dst + n)) = support_total (tk t)"
    using support_total_upd [OF f, of dst "tk t dst + n"] support_total_upd [OF t(2), of src "tk t src - n"] assms(3) by simp
  then show ?thesis
    using assms(1,4) n t finite_support_upd [OF f, of dst "tk t dst + n"] by (auto simp: ledger_capped_def tk')
qed

interpretation bounded: sep41_bounded ledger_transfer ledger_holding ledger_capped
proof unfold_locales
  fix tk t a assume ok: "ledger_capped tk"
  then show "ledger_holding tk t a \<le> SUPPLY_CAP"
    using support_total_ge [of "tk t" a] by (auto simp: ledger_capped_def ledger_holding_def intro: order_trans)
next
  fix tk t src dst n tk'
  assume a: "ledger_capped tk" "ledger_transfer tk t src dst n = Some tk'" "src \<noteq> dst" "0 \<le> (n::int)"
  show "ledger_capped tk'" by (rule ledger_capped_transfer [OF a])
qed (auto simp: ledger_transfer_def ledger_holding_def Let_def split: if_splits)

interpretation bounded_live: sep41_live ledger_transfer ledger_holding ledger_capped
  by unfold_locales (auto simp: ledger_transfer_def ledger_holding_def Let_def)

end
