(* ===== verification/Legacy_Calls.thy ===== *)
theory Legacy_Calls
  imports Legacy_History Token_Supply
begin

text \<open>
  The calls of the superseded tip jar as one step relation, and the solvency of all its runs.
\<close>

section \<open>Withdrawals in batches\<close>

definition withdraw_at :: "address \<Rightarrow> withdraw_operation list \<Rightarrow> int" where
  "withdraw_at t xs = sum_list (map (\<lambda>x. only (wo_token x) (wo_amount x) t) xs)"

lemma withdraw_at_simps [simp]: "withdraw_at t [] = 0" "withdraw_at t (x # xs) = only (wo_token x) (wo_amount x) t + withdraw_at t xs"
  by (simp_all add: withdraw_at_def)

lemma batch_validate_iff:
  "batch_validate c xs s = Inr u \<longleftrightarrow> (\<forall>x \<in> set xs. 0 < wo_amount x \<and> wo_amount x \<le> get_withdrawable_balance c (wo_token x) s)"
  by (induction xs) (auto simp: fail_def)

lemma batch_debit_move:
  assumes "accounts_ok s" "ok (lj_tokens s)" "distinct (map wo_token xs)" "\<And>t. owed t s \<le> I128_MAX"
    and "\<forall>x \<in> set xs. 0 < wo_amount x \<and> wo_amount x \<le> balance_of c (wo_token x) s"
  shows "jar_move holding ok me (\<lambda>t. - withdraw_at t xs) (\<lambda>t. 0) s (batch_debit c xs s) \<and> lj_credit (batch_debit c xs s) = lj_credit s"
  using assms
proof (induction xs arbitrary: s)
  case Nil
  then show ?case by (simp add: jar_move_def)
next
  case (Cons x xs)
  let ?t = "wo_token x" and ?n = "wo_amount x"
  let ?s = "set_balance c ?t (sub_i128 (balance_of c ?t s) ?n) s"
  have b: "books_move ?t (- ?n) s ?s" using debit_move [OF Cons.prems(1)] Cons.prems(4,5) by simp
  have j: "jar_move holding ok me (only ?t (- ?n)) (only ?t 0) s ?s" by (rule jar_move_books [where ok = ok, OF b Cons.prems(2)])
  note J = jar_move_parts [OF j]
  have "owed t ?s \<le> I128_MAX" for t
    using J(4) [of t] Cons.prems(4) [of t] Cons.prems(5) by (auto simp: only_def split: if_splits)
  moreover have "balance_of c (wo_token y) ?s = balance_of c (wo_token y) s" if "y \<in> set xs" for y
  proof -
    have "wo_token y \<noteq> ?t" using Cons.prems(3) imageI [OF that, of wo_token] by auto
    then show ?thesis by (simp add: balance_of_def set_balance_def)
  qed
  ultimately have "jar_move holding ok me (\<lambda>t. - withdraw_at t xs) (\<lambda>t. 0) ?s (batch_debit c xs ?s) \<and> lj_credit (batch_debit c xs ?s) = lj_credit ?s"
    using Cons.IH [OF J(1,2)] Cons.prems(3,5) by simp
  moreover have "(\<lambda>t. only ?t (- ?n) t - withdraw_at t xs) = (\<lambda>t. - withdraw_at t (x # xs))" by (auto simp: only_def)
  ultimately show ?case
    using jar_move_trans [OF j] withdrawable_is_balance [OF Cons.prems(1)] by (fastforce simp: set_balance_def)
qed

context sep41_capped
begin

lemma batch_pay_move:
  assumes "batch_pay transfer e c i xs s = Inr (rs, s')" "contract_address e = me" "c \<noteq> me" "\<forall>x \<in> set xs. 0 < wo_amount x"
    and "accounts_ok s" "ledger_ok (lj_tokens s)"
  shows "jar_move holding ledger_ok me (\<lambda>t. 0) (\<lambda>t. - withdraw_at t xs) s s' \<and> lj_credit s' = lj_credit s"
  using assms(1,4-)
proof (induction xs arbitrary: i rs s)
  case Nil
  then show ?case by (simp add: jar_move_def)
next
  case (Cons x xs)
  let ?t = "wo_token x" and ?n = "wo_amount x"
  obtain s1 rs' where s1: "lj_transfer transfer ?t me c ?n s = Inr s1"
      and s2: "batch_pay transfer e c (i + 1) xs (lj_emit (PayoutEv (EvBtchWdr c ?t ?n i)) s1) = Inr (rs', s')"
    using Cons.prems(1) assms(2) by (auto simp: result_simps)
  have m: "jar_move holding ledger_ok me (only ?t 0) (only ?t (- ?n)) s s1" "lj_credit s1 = lj_credit s"
    using payout_move [OF s1 Cons.prems(3,4) assms(3)] Cons.prems(2) by simp_all
  define s1' where "s1' = lj_emit (PayoutEv (EvBtchWdr c ?t ?n i)) s1"
  have m1: "jar_move holding ledger_ok me (only ?t 0) (only ?t (- ?n)) s s1'" "lj_credit s1' = lj_credit s"
    using m same_accounts_of(5,6) [of s1 s1'] by (auto simp: jar_move_def s1'_def)
  have "jar_move holding ledger_ok me (\<lambda>t. 0) (\<lambda>t. - withdraw_at t xs) s1' s' \<and> lj_credit s' = lj_credit s1'"
    using Cons.IH [OF s2 [folded s1'_def] _ jar_move_parts(1,2) [OF m1(1)]] Cons.prems(2) by simp
  moreover have "(\<lambda>t. only ?t (- ?n) t - withdraw_at t xs) = (\<lambda>t. - withdraw_at t (x # xs))" by (auto simp: only_def)
  ultimately show ?case using jar_move_trans [OF m1(1)] m1(2) by fastforce
qed

lemma batch_withdraw_solvent:
  assumes run: "batch_withdraw transfer e c xs s0 = Inr (rs, s')" and d: "distinct (map wo_token xs)"
    and solv: "jar_solvent holding ledger_ok rest me now s0" and rest: "\<And>t. 0 \<le> rest t"
    and me: "contract_address e = me" "\<not> authorized e me"
  shows "jar_solvent holding ledger_ok rest me now s'"
proof -
  obtain s s1 where g: "not_paused e s0 = Inr s" and auth: "authorized e c" and v: "batch_validate c xs s = Inr ()"
    and s1: "batch_pay transfer e c 0 xs (batch_debit c xs s) = Inr (rs, s1)" "quiet s1 s'"
    using run unfolding batch_withdraw_def by (auto simp: result_simps split: if_splits intro: that)
  have S: "jar_solvent holding ledger_ok rest me now s" using solv guards_solvent g by metis
  note P = solvent_parts [OF S]
  have c: "c \<noteq> me" using auth me(2) by auto
  have v': "\<forall>x \<in> set xs. 0 < wo_amount x \<and> wo_amount x \<le> balance_of c (wo_token x) s"
    using v by (simp add: batch_validate_iff withdrawable_is_balance [OF P(1)])
  have "owed t s \<le> I128_MAX" for t
    using owed_cap [OF S rest, of t] cap_small account_le_owed(2,6) [OF P(1), of t] by linarith
  then have m: "jar_move holding ledger_ok me (\<lambda>t. - withdraw_at t xs) (\<lambda>t. 0) s (batch_debit c xs s)"
      "lj_credit (batch_debit c xs s) = lj_credit s"
    using batch_debit_move [where ok = ledger_ok, OF P(1,4) d _ v'] by auto
  have m': "jar_move holding ledger_ok me (\<lambda>t. 0) (\<lambda>t. - withdraw_at t xs) (batch_debit c xs s) s1 \<and> lj_credit s1 = lj_credit (batch_debit c xs s)"
    using batch_pay_move [OF s1(1) me(1) c _ jar_move_parts(1,2) [OF m(1)]] v' by simp
  have "credit_ok now s1" using P(3) m(2) m' by (simp add: credit_ok_def)
  then have "jar_solvent holding ledger_ok rest me now s1"
    using jar_move_solvent [OF S jar_move_trans [OF m(1) conjunct1 [OF m']]] by simp
  then show ?thesis using s1(2) by (rule quiet_solvent)
qed

end

section \<open>Steps\<close>

text \<open>
  A call of the contract \<open>me\<close>: the clock of the ledger does not run backwards and stays below \<open>2^40\<close>
  seconds, and the contract authorizes nobody to act in its own name.
\<close>

definition call_ok :: "address \<Rightarrow> u64 \<Rightarrow> env \<Rightarrow> bool" where
  "call_ok me now e \<longleftrightarrow> contract_address e = me \<and> \<not> authorized e me \<and> now \<le> timestamp e \<and> clock_ok e"

text \<open>
  The calls whose runs are considered: tips that go into the accounts of the jar (plain, with the dynamic fee, with a
  message, split, and the three kinds of batches), every withdrawal, the payout of the platform fees, loans, insurance and the
  administration of all these. Not in the list are \<open>execute_conditional_tip\<close>, which books fees without taking tokens for
  them (\<open>conditional_tips_book_unpaid_fees\<close>), \<open>create_milestone\<close>, whose reward a later tip
  credits and nobody pays (\<open>milestone_rewards_are_unfunded\<close>), and the payment and batch processing of insurance claims, of
  which the first never succeeds and the second moves no money. The settings
  under which the other calls keep the jar solvent are the side conditions: percentages that add up without
  wrapping around, each token at most once in a batch of withdrawals, bounds on credit and contributions, and no
  emergency withdrawal from the account of the contract itself.
\<close>

inductive core_call :: "'tk transfer_fn \<Rightarrow> env \<Rightarrow> 'tk core_jar \<Rightarrow> 'tk core_jar \<Rightarrow> bool" for transfer e where
  tip: "lg_tip transfer e sender c t n s = Inr (i, s') \<Longrightarrow> core_call transfer e s s'"
| with_fee: "tip_with_fee transfer e sender c t n k s = Inr s' \<Longrightarrow> core_call transfer e s s'"
| with_message: "tip_with_message transfer e sender c t n m s = Inr (i, s') \<Longrightarrow> core_call transfer e s s'"
| split: "tip_split transfer e sender t rs n s = Inr s' \<Longrightarrow> sum_list (map (\<lambda>r. uint (tr_percentage r)) rs) = 10000 \<Longrightarrow>
    core_call transfer e s s'"
| batch: "batch_tip transfer e sender t xs s = Inr (k, s') \<Longrightarrow> core_call transfer e s s'"
| batch_v2: "batch_tip_v2 transfer e sender xs s = Inr (r, s') \<Longrightarrow> core_call transfer e s s'"
| batch_multi: "batch_tip_multi transfer e sender xs s = Inr (r, s') \<Longrightarrow> core_call transfer e s s'"
| withdraw: "lg_withdraw transfer e c t amount s = Inr s' \<Longrightarrow> core_call transfer e s s'"
| withdraw_amount: "withdraw_amount transfer e c t n s = Inr s' \<Longrightarrow> core_call transfer e s s'"
| emergency: "emergency_withdraw transfer e a c t s = Inr s' \<Longrightarrow> c \<noteq> contract_address e \<Longrightarrow> core_call transfer e s s'"
| batch_withdraw: "batch_withdraw transfer e c ws s = Inr (rs', s') \<Longrightarrow> distinct (map wo_token ws) \<Longrightarrow> core_call transfer e s s'"
| delegated: "withdraw_as_delegate transfer e d c t n s = Inr s' \<Longrightarrow> core_call transfer e s s'"
| delegation: "delegate_withdrawal e c d n u s = Inr s' \<or> revoke_delegation e c d s = Inr s' \<Longrightarrow> core_call transfer e s s'"
| request: "request_multisig_withdrawal transfer e c t n s = Inr (i, s') \<Longrightarrow> core_call transfer e s s'"
| approve: "approve_withdrawal transfer e a i s = Inr s' \<Longrightarrow> core_call transfer e s s'"
| cancel: "cancel_multisig_withdrawal e a i s = Inr s' \<Longrightarrow> core_call transfer e s s'"
| fees: "lg_withdraw_fees transfer e a t s = Inr (n, s') \<Longrightarrow> core_call transfer e s s'"
| borrow: "borrow e c t n s = Inr s' \<Longrightarrow> get_credit_limit c t s \<le> PRINCIPAL_CAP \<Longrightarrow> core_call transfer e s s'"
| repay: "repay_credit e c t n s = Inr s' \<Longrightarrow> core_call transfer e s s'"
| credit_config: "set_credit_config e a cc s = Inr s' \<Longrightarrow> credit_config_ok cc \<Longrightarrow> core_call transfer e s s'"
| contribute: "insurance_contribute transfer e c t n s = Inr s' \<Longrightarrow> core_call transfer e s s'"
| excess: "insurance_withdraw_excess transfer e a t n s = Inr s' \<Longrightarrow>
    (\<And>p. in_pool (lj_insurance s) t = Some p \<Longrightarrow> 0 \<le> ip_total_contributions p) \<Longrightarrow> core_call transfer e s s'"
| insurance_config: "insurance_set_config e a ic s = Inr s' \<Longrightarrow> core_call transfer e s s'"
| insurance_admin: "insurance_set_enabled e a b s = Inr s' \<or> insurance_set_max_active_claims e a k s = Inr s' \<or>
    insurance_set_admin e a c s = Inr s' \<Longrightarrow> core_call transfer e s s'"
| claim: "insurance_submit_claim e c t n h s = Inr (i, s') \<or> insurance_approve_claim e a i s = Inr s' \<or>
    insurance_reject_claim e a i s = Inr s' \<Longrightarrow> core_call transfer e s s'"
| fee_rate: "set_fee_bps e a bp s = Inr s' \<Longrightarrow> core_call transfer e s s'"
| tokens: "lg_add_token e a t s = Inr s' \<or> lg_remove_token e a t s = Inr s' \<or> set_min_tip e a n s = Inr s' \<Longrightarrow> core_call transfer e s s'"
| pauses: "lg_pause e a reason s = Inr s' \<or> lg_unpause e a s = Inr s' \<or> pause_feature e a scope reason s = Inr s' \<or>
    unpause_feature e a scope s = Inr s' \<Longrightarrow> core_call transfer e s s'"
| payout_admin: "set_withdrawal_limits e a c n d s = Inr s' \<or> set_default_withdrawal_limits e a n d s = Inr s' \<or>
    set_multisig_config e a n k d ss s = Inr s' \<Longrightarrow> core_call transfer e s s'"

inductive core_run :: "'tk transfer_fn \<Rightarrow> address \<Rightarrow> u64 \<times> 'tk core_jar \<Rightarrow> u64 \<times> 'tk core_jar \<Rightarrow> bool" for transfer me where
  start: "core_run transfer me st st"
| step: "core_run transfer me st (now, s) \<Longrightarrow> core_call transfer e s s' \<Longrightarrow> call_ok me now e \<Longrightarrow>
    core_run transfer me st (timestamp e, s')"

lemma tips_authorized:
  "lg_tip transfer e a c t n s = Inr (i, s') \<Longrightarrow> authorized e a"
  "tip_with_fee transfer e a c t n k s = Inr s' \<Longrightarrow> authorized e a"
  "tip_with_message transfer e a c t n m s = Inr (i, s') \<Longrightarrow> authorized e a"
  "tip_split transfer e a t rs n s = Inr s' \<Longrightarrow> authorized e a"
  "batch_tip transfer e a t xs s = Inr (j, s') \<Longrightarrow> authorized e a"
  "batch_tip_v2 transfer e a xs s = Inr (r, s') \<Longrightarrow> authorized e a"
  "batch_tip_multi transfer e a xs s = Inr (r, s') \<Longrightarrow> authorized e a"
  unfolding lg_tip_def tip_with_fee_def tip_with_message_def tip_split_def batch_tip_def batch_tip_v2_def batch_tip_multi_def
  by (auto simp: result_simps)

lemma solvent_later:
  "jar_solvent holding ok rest me now s \<Longrightarrow> now \<le> now' \<Longrightarrow> jar_solvent holding ok rest me now' s"
  using credit_ok_mono by (auto simp: jar_solvent_def)

context sep41_capped
begin

lemma call_solvent:
  assumes "core_call transfer e s s'" "call_ok me now e" "jar_solvent holding ledger_ok rest me now s" "\<And>t. 0 \<le> rest t"
  shows "jar_solvent holding ledger_ok rest me (timestamp e) s'"
proof -
  have e: "contract_address e = me" "\<not> authorized e me" "now \<le> timestamp e" "clock_ok e"
    using assms(2) by (simp_all add: call_ok_def)
  note S = assms(3) and R = assms(4)
  have later: "jar_solvent holding ledger_ok rest me now s' \<Longrightarrow> jar_solvent holding ledger_ok rest me (timestamp e) s'"
    using solvent_later e(3) by blast
  have other: "authorized e a \<Longrightarrow> a \<noteq> me" for a using e(2) by auto
  from assms(1) show ?thesis
  proof cases
    case (tip sender c t n i)
    then show ?thesis using tip_solvent [OF _ S R e(1) other e(3,4)] tips_authorized(1) by blast
  next
    case (with_fee sender c t n k)
    then show ?thesis using tip_with_fee_solvent [OF _ S R e(1) other e(3,4)] tips_authorized(2) by blast
  next
    case (with_message sender c t n m i)
    then show ?thesis using tip_with_message_solvent [OF _ S R e(1) other e(3,4)] tips_authorized(3) by blast
  next
    case (split sender t rs n)
    then show ?thesis using tip_split_solvent [OF _ _ S R e(1) other e(3,4)] tips_authorized(4) by blast
  next
    case (batch sender t xs k)
    then show ?thesis using batch_tip_solvent [OF _ S R e(1) other e(3,4)] tips_authorized(5) by blast
  next
    case (batch_v2 sender xs r)
    then show ?thesis using batch_tip_v2_solvent [OF _ S R e(1) other e(3)] tips_authorized(6) by blast
  next
    case (batch_multi sender xs r)
    then show ?thesis using batch_tip_multi_solvent [OF _ S R e(1) other] tips_authorized(7) later by blast
  next
    case (withdraw c t amount)
    then show ?thesis using withdraw_solvent [OF _ S R e(1,2)] later by blast
  next
    case (withdraw_amount c t n)
    then show ?thesis using withdraw_amount_solvent [OF _ S R e(1,2)] later by blast
  next
    case (emergency a c t)
    then show ?thesis using emergency_solvent [OF _ S R e(1)] e(1) later by blast
  next
    case (batch_withdraw c ws rs')
    then show ?thesis using batch_withdraw_solvent [OF _ _ S R e(1,2)] later by blast
  next
    case (delegated d c t n)
    then show ?thesis using withdraw_as_delegate_solvent [OF _ S R e(1,2)] later by blast
  next
    case (delegation c d n u)
    then show ?thesis using calm_solvent [OF S] delegation_calm later by blast
  next
    case (request c t n i)
    then show ?thesis using request_multisig_solvent [OF _ S R e(1,2)] later by blast
  next
    case (approve a i)
    then show ?thesis using approve_withdrawal_solvent [OF _ S R e(1)] later by blast
  next
    case (cancel a i)
    then show ?thesis using cancel_multisig_solvent [OF _ S] later by blast
  next
    case (fees a t n)
    then show ?thesis using withdraw_fees_solvent [OF _ S e(1,2)] later by blast
  next
    case (borrow c t n)
    then show ?thesis using borrow_solvent [OF _ S R e(3,4)] by blast
  next
    case (repay c t n)
    then show ?thesis using repay_credit_solvent [OF _ S R e(3,4)] by blast
  next
    case (credit_config a cc)
    then show ?thesis using set_credit_config_solvent [OF _ S] later by blast
  next
    case (contribute c t n)
    then show ?thesis using contribute_solvent(1) [OF _ S R e(1,2)] later by blast
  next
    case (excess a t n)
    then show ?thesis using withdraw_excess_solvent [OF _ S R e(1,2)] later by blast
  next
    case (insurance_config a ic)
    then show ?thesis using insurance_set_config_solvent [OF _ S] later by blast
  next
    case (insurance_admin a b k c)
    then show ?thesis using calm_solvent [OF S] insurance_admin_calm later by blast
  next
    case (claim c t n h i a)
    then show ?thesis using calm_solvent [OF S] submit_claim_calm(1) approve_claim_calm(1) reject_claim_calm(1) later by blast
  next
    case (fee_rate a bp)
    then show ?thesis using set_fee_bps_solvent [OF _ S] later by blast
  next
    case (tokens a t n)
    then have "calm s s'" by (auto dest: admin_calm)
    then show ?thesis using calm_solvent [OF S] later by blast
  next
    case (pauses a reason scope)
    then have "calm s s'" by (auto dest: admin_calm)
    then show ?thesis using calm_solvent [OF S] later by blast
  next
    case (payout_admin a c n d k ss)
    then have "calm s s'" by (auto dest: payout_admin_calm)
    then show ?thesis using calm_solvent [OF S] later by blast
  qed
qed

lemma run_solvent:
  assumes "core_run transfer me st st'" "jar_solvent holding ledger_ok rest me (fst st) (snd st)" "\<And>t. 0 \<le> rest t"
  shows "jar_solvent holding ledger_ok rest me (fst st') (snd st')"
  using assms(1,2)
proof induction
  case (step now s e s')
  then show ?case using call_solvent [OF step.hyps(2,3) _ assms(3)] by simp
qed simp

end

section \<open>The assets of the Stellar network\<close>

interpretation capped: sep41_capped ledger_transfer ledger_holding ledger_capped SUPPLY_CAP
  by unfold_locales (erule bounded.holding_bounded, simp add: SUPPLY_CAP_def I128_MAX_def)

end
