(* ===== verification/Legacy_Claims.thy ===== *)
theory Legacy_Claims
  imports Legacy_Calls
begin

text \<open>
  What the superseded tip jar guarantees, and where it does not hold up: solvency of its runs, withdrawal
  limits, allowances of delegates, the leaderboard, and examples of calls that break the accounts.
\<close>

section \<open>Solvency\<close>

text \<open>
  C11. The books of the superseded tip jar stay covered. Take tokens whose supply is capped as that of a
  Stellar asset, and any run of the calls listed in \<open>core_call\<close>: plain tips, tips with a fee, with a message, split tips and
  the three kinds of batches of tips; withdrawals (limited, delegated, by several signers, in batches that name
  no token twice, or by the admin in an emergency), loans and repayments, insurance contributions and claims,
  and administration, with percentages of split tips that add up to 10000 without wrapping around, credit
  settings in range and no milestones. What the jar holds of every token then still covers all balances of creators, both fee accounts and
  the insurance reserve, beside whatever \<open>rest\<close> it held before for other features, and no balance is negative.
  Conditional tips are not among these calls, and the cover would not survive them: \<^verbatim>\<open>execute_conditional_tip\<close> books the
  repayment of a loan as a fee without any tokens for it (\<open>conditional_tips_book_unpaid_fees\<close>). Time-locked, private,
  bridged and relayed tips are not among them either.
\<close>

theorem legacy_books_stay_covered:
  assumes "sep41_capped transfer holding ledger_ok cap"
    and "core_run transfer me (start, s0) (now, s)"
    and "jar_solvent holding ledger_ok rest me start s0" "\<forall>t. 0 \<le> rest t"
  shows "owed t s + rest t \<le> holding (lj_tokens s) t me \<and> 0 \<le> balance_of c t s \<and> 0 \<le> fee_of t s"
proof -
  have "jar_solvent holding ledger_ok rest me now s"
    using sep41_capped.run_solvent [OF assms(1,2)] assms(3,4) by simp
  then show ?thesis using solvent_parts(1) [of holding ledger_ok rest me now s] by (auto simp: jar_solvent_def accounts_ok_def)
qed

section \<open>Examples\<close>

definition lj_env :: "u64 \<Rightarrow> env" where
  "lj_env now = \<lparr>sequence = 0, timestamp = now, authorized = (\<lambda>a. a \<noteq> 8), contract_address = 8,
     new_entry_live = 0, extend_policy = (\<lambda>_ _ l. l), wasm_uploaded = (\<lambda>_. False)\<rparr>"

definition no_payout_rules :: payout_rules where
  "no_payout_rules = \<lparr>po_limits = Map.empty, po_default = None, po_delegation = Map.empty, po_delegates = Map.empty,
     po_delegation_history = Map.empty, po_msig_cfg = None, po_msig_ctr = None, po_msig = Map.empty\<rparr>"

definition no_insurance :: insurance where
  "no_insurance = \<lparr>in_enabled = None, in_cfg = None, in_max = None, in_admin = None, in_pool = Map.empty, in_contrib = Map.empty,
     in_claim = Map.empty, in_ctr = None, in_claims = Map.empty, in_active = Map.empty, in_total = Map.empty, in_last = Map.empty\<rparr>"

definition no_royalties :: royalties where
  "no_royalties = \<lparr>pr_rule = Map.empty, pr_creator_rule = Map.empty, pr_counter = None, pr_payment = Map.empty,
     pr_payment_count = Map.empty, pr_tipper_count = Map.empty, pr_total_tips = Map.empty, pr_balance = Map.empty, pr_events = []\<rparr>"

text \<open>The jar after \<^verbatim>\<open>init\<close> and \<^verbatim>\<open>add_token\<close>: account 9 is the admin, 1 and 2 own a million of token 40 each.\<close>

definition lj_start :: "ledger core_jar" where
  "lj_start = \<lparr>lj_instance = \<lparr>lg_paused = None, lg_pause_reason = None, lg_pause_until = None, lg_token_whitelist = [40 \<mapsto> True]\<rparr>,
     lj_breaker = \<lparr>cb_cfg = None, cb_state = None, cb_events = []\<rparr>, lj_feature_paused = Map.empty, lj_admin = Some 9,
     lj_refund_window = Some 0, lj_version = Some CONTRACT_VERSION, lj_deployed_at = Some 1, lj_min_tip = Some 10000,
     lj_fee_bps = Some 100, lj_old_fee_bps = None, lj_current_fee_bps = None, lj_dynamic_fee = None,
     lj_access = \<lparr>al_entries = Map.empty, al_flags = Map.empty, al_members = Map.empty, al_events = []\<rparr>,
     lj_reputation = \<lparr>rep_scores = Map.empty, rep_history = Map.empty\<rparr>, lj_royalties = no_royalties, lj_offchain = Map.empty,
     lj_books = \<lparr>bk_balance = Map.empty, bk_old_balance = Map.empty, bk_total = Map.empty, bk_old_total = Map.empty,
       bk_fee = Map.empty, bk_old_fee = Map.empty\<rparr>,
     lj_credit = \<lparr>cr_cfg = None, cr_acc = Map.empty, cr_ctr = None, cr_hst = Map.empty\<rparr>,
     lj_boards = \<lparr>bd_tipper_agg = Map.empty, bd_creator_agg = Map.empty, bd_tipper_parts = Map.empty, bd_creator_parts = Map.empty\<rparr>,
     lj_goals = \<lparr>gb_record = Map.empty, gb_active = Map.empty, gb_counter = Map.empty\<rparr>, lj_insurance = no_insurance,
     lj_payout = no_payout_rules, lj_creator_tokens = Map.empty, lj_tip_ctr = None, lj_tip_count = Map.empty, lj_tip_history = Map.empty,
     lj_batch_stats = None, lj_tokens = (\<lambda>t a. if t = 40 \<and> (a = 1 \<or> a = 2) then 1000000 else 0), lj_events = []\<rparr>"

text \<open>The jar with 495000 units for each of the creators 3 and 4, and 10000 units of fees.\<close>

definition lj_funded :: "ledger core_jar" where
  "lj_funded = lj_start\<lparr>lj_books := (lj_books lj_start)\<lparr>bk_balance := [(3, 40) \<mapsto> 495000, (4, 40) \<mapsto> 495000],
       bk_total := [(3, 40) \<mapsto> 495000, (4, 40) \<mapsto> 495000], bk_fee := [40 \<mapsto> 10000]\<rparr>,
     lj_tokens := (\<lambda>t a. if t = 40 \<and> (a = 1 \<or> a = 2 \<or> a = 8) then 1000000 else 0)\<rparr>"

definition lj_withdrawn :: "ledger core_jar core_result" where
  "lj_withdrawn = lg_withdraw ledger_transfer (lj_env 6) 3 40 (Some 95000) lj_funded"

lemma lj_withdrawn_ok:
  "case lj_withdrawn of Inl _ \<Rightarrow> False | Inr s \<Rightarrow> balance_of 3 40 s = 400000 \<and> lj_tokens s 40 8 = 905000"
  by code_simp

lemma lj_funded_solvent: "jar_solvent ledger_holding ledger_capped (\<lambda>_. 0) 8 0 lj_funded"
proof -
  have b: "balance_of c t lj_funded = (if t = 40 \<and> (c = 3 \<or> c = 4) then 495000 else 0)" for c t
    by (auto simp: lj_funded_def lj_start_def balance_of_def)
  have f: "fee_of t lj_funded = (if t = 40 then 10000 else 0)" "old_fee_of t lj_funded = 0" "reserve_of t lj_funded = 0" for t
    by (auto simp: lj_funded_def lj_start_def no_insurance_def fee_of_def old_fee_of_def reserve_of_def)
  have "support_total (\<lambda>c. balance_of c t lj_funded) = (if t = 40 then 990000 else 0)" for t
  proof -
    have "support (\<lambda>c. balance_of c t lj_funded) \<subseteq> {3, 4}" by (auto simp: b support_def split: if_splits)
    from support_total_superset [OF _ this] show ?thesis by (simp add: b)
  qed
  then have o: "owed t lj_funded = (if t = 40 then 1000000 else 0)" for t by (simp add: owed_def f)
  have a: "accounts_ok lj_funded"
    by (auto simp: accounts_ok_def b f) (simp_all add: lj_funded_def lj_start_def)
  let ?tk = "lj_tokens lj_funded"
  have tk: "?tk t = (\<lambda>a. if t = 40 \<and> (a = 1 \<or> a = 2 \<or> a = 8) then 1000000 else 0)" for t by (simp add: lj_funded_def)
  have "finite (support (?tk t)) \<and> support_total (?tk t) \<le> SUPPLY_CAP" for t
  proof -
    have s: "support (?tk t) \<subseteq> {1, 2, 8}" by (auto simp: tk support_def split: if_splits)
    from support_total_superset [OF _ this] finite_subset [OF s] show ?thesis by (simp add: tk SUPPLY_CAP_def)
  qed
  then have "ledger_capped ?tk" by (auto simp: ledger_capped_def) (simp add: tk)
  moreover have "owed t lj_funded \<le> ledger_holding ?tk t 8" for t by (simp add: o ledger_holding_def tk)
  moreover have "settings_ok lj_funded" "credit_ok 0 lj_funded" "requests_ok 8 lj_funded"
    by (simp_all add: settings_ok_def credit_ok_def requests_ok_def lj_funded_def lj_start_def no_insurance_def no_payout_rules_def)
  ultimately show ?thesis using a by (simp add: jar_solvent_def)
qed

theorem legacy_books_stay_covered_witness:
  "\<exists>s. core_run ledger_transfer 8 (0, lj_funded) (6, s) \<and> balance_of 3 40 s = 400000 \<and> owed 40 s \<le> lj_tokens s 40 8"
proof -
  obtain s where s: "lj_withdrawn = Inr s" "balance_of 3 40 s = 400000" using lj_withdrawn_ok by (auto split: sum.splits)
  have "core_run ledger_transfer 8 (0, lj_funded) (timestamp (lj_env 6), s)"
    using s(1) unfolding lj_withdrawn_def
    by (intro core_run.step [OF core_run.start core_call.withdraw]) (simp_all add: call_ok_def clock_ok_def lj_env_def)
  then have run: "core_run ledger_transfer 8 (0, lj_funded) (6, s)" by (simp add: lj_env_def)
  have "owed 40 s + 0 \<le> ledger_holding (lj_tokens s) 40 8"
    using legacy_books_stay_covered [OF capped.sep41_capped_axioms run lj_funded_solvent] by blast
  then show ?thesis using run s(2) by (auto simp: ledger_holding_def)
qed

text \<open>
  A creator whose batch names a token twice is paid twice: each entry is checked against the whole balance
  before any is debited. Its balance ends below zero, and the money comes out of what others have.
\<close>

theorem batch_pays_a_balance_twice:
  "and_then (batch_withdraw ledger_transfer (lj_env 6) 3
       [\<lparr>wo_token = 40, wo_amount = 495000\<rparr>, \<lparr>wo_token = 40, wo_amount = 495000\<rparr>] lj_funded) (\<lambda>(rs, s).
     Inr (balance_of 3 40 s, lj_tokens s 40 3, balance_of 4 40 s, lj_tokens s 40 8)) =
   Inr (- 495000, 990000, 495000, 10000)"
  by code_simp

text \<open>
  The shares of a split tip are 32-bit numbers whose sum wraps around: with shares of 4294967295 and 10001
  basis points the first recipient of a tip of 100000 units is credited with almost 43 thousand million.
\<close>

theorem split_shares_wrap_around:
  "and_then (tip_split ledger_transfer (lj_env 5) 1 40
       [\<lparr>tr_creator = 3, tr_percentage = 4294967295\<rparr>, \<lparr>tr_creator = 4, tr_percentage = 10001\<rparr>] 100000 lj_start) (\<lambda>s.
     Inr (balance_of 3 40 s, balance_of 4 40 s, lj_tokens s 40 8)) =
   Inr (42949672950, - 42949572950, 100000)"
  by code_simp

text \<open>
  The reward for a reached milestone is credited without funds behind it: in the step that a tip takes after
  it has credited the creator, the balance grows and no token moves.
\<close>

theorem milestone_rewards_are_unfunded:
  "and_then (create_milestone (lj_env 4) 9 3 490000 ''goal'' lj_funded) (\<lambda>(i, s).
     and_then (check_and_award_milestones 3 40 495000 s) (\<lambda>s.
     Inr (balance_of 3 40 s, lj_tokens s 40 8))) =
   Inr (519500, 1000000)"
  by code_simp

text \<open>
  A conditional tip to a creator in debt books the repayment as fees of the platform and pays the creator
  the rest, straight from the sender: nobody pays for the fees.
\<close>

definition lj_in_debt :: "ledger core_jar" where
  "lj_in_debt = lj_funded\<lparr>lj_credit := \<lparr>cr_cfg = Some \<lparr>cc_max_credit_ratio_bps = 5000, cc_interest_rate_bps = 100, cc_min_total_tips = 1,
       cc_repayment_share_bps = 5000, cc_enabled = True\<rparr>,
     cr_acc = [(3, 40) \<mapsto> \<lparr>ca_principal = 4000, ca_interest_accrued = 0, ca_last_update = 5, ca_total_borrowed = 4000, ca_total_repaid = 0\<rparr>],
     cr_ctr = None, cr_hst = Map.empty\<rparr>\<rparr>"

theorem conditional_tips_book_unpaid_fees:
  "and_then (execute_conditional_tip ledger_transfer ledger_holding (lj_env 5) 2 3 40 6000 [Always] lj_in_debt) (\<lambda>(b, s).
     Inr (fee_of 40 s, lj_tokens s 40 8, lj_tokens s 40 3)) =
   Inr (13000, 1000000, 3000)"
  by code_simp

end
