(* ===== verification/Legacy_Limits.thy ===== *)
theory Legacy_Limits
  imports Legacy_Claims
begin

text \<open>
  The limits on withdrawals of the superseded tip jar: the daily limit, the allowance of a delegate, the
  approvals of several signers; and the fate of insurance claims.
\<close>

section \<open>The daily limit\<close>



lemma limits_frame: "not_paused e s = Inr s' \<Longrightarrow> lj_payout s' = lj_payout s" "feature_not_paused e scope s = Inr s' \<Longrightarrow> lj_payout s' = lj_payout s"
  by (auto dest: frame_guards)



lemma get_set_limits [simp]: "get_withdrawal_limits c (set_limits c l s) = l"
  by (simp add: get_withdrawal_limits_def set_limits_def)




lemma check_limits_tokens: "check_and_update_withdrawal_limits e c n s = Inr s' \<Longrightarrow> lj_tokens s' = lj_tokens s"
  unfolding check_and_update_withdrawal_limits_def Let_def by (auto simp: result_simps set_limits_def)

lemma guards_keep:
  "not_paused e s = Inr s' \<Longrightarrow> lj_payout s' = lj_payout s \<and> lj_tokens s' = lj_tokens s"
  "feature_not_paused e scope s = Inr s' \<Longrightarrow> lj_payout s' = lj_payout s \<and> lj_tokens s' = lj_tokens s"
  by (auto dest: frame_guards)


lemma lj_emit_keeps: "lj_payout (lj_emit ev s) = lj_payout s" "lj_tokens (lj_emit ev s) = lj_tokens s"
  by (simp_all add: lj_emit_def)








section \<open>Delegates\<close>

text \<open>
  What may happen once creator \<open>c\<close> has given \<open>d\<close> an allowance, with what each withdrawal of the delegate really paid it:
  the delegate withdraws some amount of some token, the creator revokes the allowance, or there is any other change
  that leaves the allowance as it is (in particular no new one is given).
\<close>

inductive delegated_run ::
  "'tk transfer_fn \<Rightarrow> ('tk \<Rightarrow> address \<Rightarrow> address \<Rightarrow> int) \<Rightarrow> ('tk \<Rightarrow> bool) \<Rightarrow> address \<Rightarrow> address \<Rightarrow> address
   \<Rightarrow> 'tk core_jar \<Rightarrow> (env \<times> int) list \<Rightarrow> 'tk core_jar \<Rightarrow> bool"
  for transfer holding ok me c d s where
  granted: "delegated_run transfer holding ok me c d s [] s"
| paid: "delegated_run transfer holding ok me c d s xs s1 \<Longrightarrow> withdraw_as_delegate transfer e d c t n s1 = Inr s2 \<Longrightarrow>
    contract_address e = me \<Longrightarrow> \<not> authorized e me \<Longrightarrow>
    delegated_run transfer holding ok me c d s (xs @ [(e, holding (lj_tokens s2) t d - holding (lj_tokens s1) t d)]) s2"
| revoked: "delegated_run transfer holding ok me c d s xs s1 \<Longrightarrow> revoke_delegation e c d s1 = Inr s2 \<Longrightarrow>
    delegated_run transfer holding ok me c d s xs s2"
| other: "delegated_run transfer holding ok me c d s xs s1 \<Longrightarrow>
    po_delegation (lj_payout s2) (c, d) = po_delegation (lj_payout s1) (c, d) \<Longrightarrow> ok (lj_tokens s2) \<Longrightarrow>
    delegated_run transfer holding ok me c d s xs s2"

lemma delegate_step:
  assumes "withdraw_as_delegate transfer e d c t n s = Inr s'" "po_delegation (lj_payout s) (c, d) = Some dg"
    and "0 \<le> dg_used_amount dg" "dg_max_amount dg < I128_MAX"
  shows "0 < n" "dg_used_amount dg + n \<le> dg_max_amount dg" "timestamp e \<le> dg_expires_at dg" "dg_active dg"
    "po_delegation (lj_payout s') (c, d) = Some (dg\<lparr>dg_used_amount := dg_used_amount dg + n,
       dg_active := dg_used_amount dg + n < dg_max_amount dg\<rparr>)"
    "transfer (lj_tokens s) t (contract_address e) d n = Some (lj_tokens s')" "authorized e d"
proof -
  obtain s0 s1 s3 where g: "not_paused e s = Inr s0" "0 < n" "dg_active dg" "timestamp e \<le> dg_expires_at dg" "authorized e d"
    and lim: "unwrap_or (checked_add_i128 (dg_used_amount dg) n) I128_MAX \<le> dg_max_amount dg"
    and s1: "check_and_update_withdrawal_limits e c n s0 = Inr s1"
    and s3: "lj_transfer transfer t (contract_address e) d n ((set_balance c t (sub_i128 (balance_of c t s0) n) s1)\<lparr>lj_payout :=
        spend_delegation c d dg n (lj_payout (set_balance c t (sub_i128 (balance_of c t s0) n) s1))\<rparr>) = Inr s3"
      "s' = lj_emit (PayoutEv (EvDelWdr c d n t)) s3"
    using assms(1,2) limits_frame(1) [of e s] unfolding withdraw_as_delegate_def Let_def
    by (auto simp: result_simps drop_and_fail_def linorder_not_less linorder_not_le split: if_splits intro: that)
  have ex: "add_i128 (dg_used_amount dg) n = dg_used_amount dg + n" "dg_used_amount dg + n \<le> dg_max_amount dg"
    using lim assms(3,4) g(2) by (auto simp: checked_add_i128_def add_i128_exact split: if_splits)
  have "po_delegation (lj_payout s') = po_delegation (spend_delegation c d dg n (lj_payout s1))"
    using s3 by (auto simp: lj_transfer_def result_simps lj_emit_def set_balance_def)
  moreover have "po_delegation (spend_delegation c d dg n (lj_payout s1)) (c, d) = Some (dg\<lparr>dg_used_amount := dg_used_amount dg + n, dg_active := dg_used_amount dg + n < dg_max_amount dg\<rparr>)"
    using ex g(3) by (auto simp: spend_delegation_def append_delegation_history_def put_delegation_def Let_def)
  ultimately show "po_delegation (lj_payout s') (c, d) = Some (dg\<lparr>dg_used_amount := dg_used_amount dg + n,
       dg_active := dg_used_amount dg + n < dg_max_amount dg\<rparr>)" by simp
  show "0 < n" "dg_used_amount dg + n \<le> dg_max_amount dg" "timestamp e \<le> dg_expires_at dg" "dg_active dg" "authorized e d" using g ex by auto
  show "transfer (lj_tokens s) t (contract_address e) d n = Some (lj_tokens s')"
    using s3 guards_keep(1) [OF g(1)] check_limits_tokens [OF s1] by (auto simp: lj_transfer_def result_simps lj_emit_keeps set_balance_def)
qed

lemma grant_records:
  assumes "delegate_withdrawal e c d m dur s = Inr s'"
  shows "0 < m" "po_delegation (lj_payout s') (c, d) = Some \<lparr>dg_creator = c, dg_delegate = d, dg_max_amount = m,
      dg_used_amount = 0, dg_expires_at = sat_add_u64 (timestamp e) dur, dg_active = True\<rparr>"
  using assms unfolding delegate_withdrawal_def Let_def
  by (auto simp: result_simps linorder_not_le lj_emit_keeps append_delegation_history_def add_delegate_def put_delegation_def Let_def
      split: if_splits)

lemma revoke_closes:
  assumes "revoke_delegation e c d s = Inr s'" "po_delegation (lj_payout s) (c, d) = Some dg"
  shows "po_delegation (lj_payout s') (c, d) = Some (dg\<lparr>dg_active := False\<rparr>)" "lj_tokens s' = lj_tokens s"
  using assms limits_frame(1) [of e s] guards_keep(1) [of e s] unfolding revoke_delegation_def Let_def
  by (auto simp: result_simps lj_emit_keeps append_delegation_history_def remove_delegate_def put_delegation_def split: if_splits)

lemma closed_delegation_pays_nothing:
  assumes "po_delegation (lj_payout s) (c, d) = Some dg" "\<not> dg_active dg"
  shows "withdraw_as_delegate transfer e d c t n s \<noteq> Inr s'"
  using assms limits_frame(1) [of e s] unfolding withdraw_as_delegate_def
  by (auto simp: result_simps split: if_splits)

text \<open>What a run keeps of an allowance of \<open>m\<close> that expires at \<open>ex\<close>, when \<open>k\<close> of it was paid.\<close>

definition allowance_left :: "int \<Rightarrow> u64 \<Rightarrow> int \<Rightarrow> delegation_record option \<Rightarrow> bool" where
  "allowance_left m ex k r \<longleftrightarrow> (\<exists>dg. r = Some dg \<and> dg_max_amount dg = m \<and> dg_expires_at dg = ex \<and> dg_used_amount dg = k \<and>
     0 \<le> k \<and> k \<le> m \<and> (dg_active dg \<longrightarrow> k < m))"

lemma delegated_run_keeps:
  assumes "sep41 transfer holding ok" "delegated_run transfer holding ok me c d s xs s'" "ok (lj_tokens s)" "m < I128_MAX"
    and "allowance_left m ex 0 (po_delegation (lj_payout s) (c, d))"
  shows "ok (lj_tokens s') \<and> allowance_left m ex (sum_list (map snd xs)) (po_delegation (lj_payout s') (c, d)) \<and>
    (\<forall>(e, n) \<in> set xs. 0 < n \<and> timestamp e \<le> ex)"
  using assms(2)
proof (induction rule: delegated_run.induct)
  case granted
  then show ?case using assms(3,5) by simp
next
  case (paid xs s1 e t n s2)
  obtain dg where dg: "po_delegation (lj_payout s1) (c, d) = Some dg" "dg_max_amount dg = m" "dg_expires_at dg = ex"
    "dg_used_amount dg = sum_list (map snd xs)" "0 \<le> dg_used_amount dg"
    using paid.IH by (auto simp: allowance_left_def)
  note st = delegate_step [OF paid.hyps(2) dg(1,5)] dg(2) assms(4)
  have "me \<noteq> d" "0 \<le> n" using st paid.hyps(4) by auto
  then have "ok (lj_tokens s2)" "holding (lj_tokens s2) t d - holding (lj_tokens s1) t d = n"
    using sep41.transfer_moved [OF assms(1), of "lj_tokens s1" t me d n "lj_tokens s2"] paid.IH paid.hyps(3) st
    by (auto simp: moved_def)
  then show ?case using paid.IH st dg by (auto simp: allowance_left_def)
next
  case (revoked xs s1 e s2)
  then show ?case using revoke_closes [OF revoked.hyps(2)] by (auto simp: allowance_left_def)
next
  case (other xs s1 s2)
  then show ?case by simp
qed

text \<open>
  C24. A delegate stays within its allowance. A creator gives a delegate an allowance for some time. However
  the delegate then withdraws, in any amounts and any SEP-41 tokens, what it really receives by the ledger adds up to at most
  the allowance, every one of the withdrawals is made before the allowance expires, and the amount used is recorded exactly. When it is
  used up, or when the creator revokes it, the delegate can withdraw nothing more. The allowance is below the
  largest 128-bit number, for which the check of the code lets an overflow pass.
\<close>

theorem delegates_stay_within_their_allowance:
  assumes "sep41 transfer holding ok" "delegate_withdrawal e0 c d m dur s0 = Inr s" "ok (lj_tokens s)" "m < I128_MAX"
    and "delegated_run transfer holding ok me c d s xs s'"
  shows "sum_list (map snd xs) \<le> m \<and>
    (\<forall>(e, n) \<in> set xs. 0 < n \<and> timestamp e \<le> sat_add_u64 (timestamp e0) dur) \<and>
    (\<exists>dg. po_delegation (lj_payout s') (c, d) = Some dg \<and> dg_used_amount dg = sum_list (map snd xs) \<and> dg_max_amount dg = m) \<and>
    (\<forall>e t n s''. sum_list (map snd xs) = m \<longrightarrow> withdraw_as_delegate transfer e d c t n s' \<noteq> Inr s'') \<and>
    (\<forall>e1 s1 e t n s''. revoke_delegation e1 c d s' = Inr s1 \<longrightarrow> withdraw_as_delegate transfer e d c t n s1 \<noteq> Inr s'')"
proof -
  let ?k = "sum_list (map snd xs)"
  have "allowance_left m (sat_add_u64 (timestamp e0) dur) 0 (po_delegation (lj_payout s) (c, d))"
    using grant_records [OF assms(2)] by (simp add: allowance_left_def)
  note run = delegated_run_keeps [OF assms(1,5,3,4) this]
  then obtain dg where dg: "po_delegation (lj_payout s') (c, d) = Some dg" "dg_used_amount dg = ?k" "dg_max_amount dg = m"
    "?k \<le> m" "dg_active dg \<longrightarrow> ?k < m"
    by (auto simp: allowance_left_def)
  have "withdraw_as_delegate transfer e d c t n s' \<noteq> Inr s''" if "?k = m" for e t n s''
    using closed_delegation_pays_nothing [OF dg(1)] dg(5) that by blast
  moreover have "withdraw_as_delegate transfer e d c t n s1 \<noteq> Inr s''" if "revoke_delegation e1 c d s' = Inr s1" for e1 s1 e t n s''
    using closed_delegation_pays_nothing [OF revoke_closes(1) [OF that dg(1)]] by simp
  ultimately show ?thesis using run dg by blast
qed

section \<open>Insurance claims\<close>

text \<open>The calls on claims, in any order and by anybody.\<close>

inductive claim_run :: "'tk transfer_fn \<Rightarrow> 'tk core_jar \<Rightarrow> 'tk core_jar \<Rightarrow> bool" for transfer where
  start: "claim_run transfer s s"
| submit: "claim_run transfer s s1 \<Longrightarrow> insurance_submit_claim e c t n h s1 = Inr (i, s2) \<Longrightarrow> claim_run transfer s s2"
| approve: "claim_run transfer s s1 \<Longrightarrow> insurance_approve_claim e a i s1 = Inr s2 \<Longrightarrow> claim_run transfer s s2"
| reject: "claim_run transfer s s1 \<Longrightarrow> insurance_reject_claim e a i s1 = Inr s2 \<Longrightarrow> claim_run transfer s s2"
| pay: "claim_run transfer s s1 \<Longrightarrow> insurance_pay_claim transfer e a i s1 = Inr s2 \<Longrightarrow> claim_run transfer s s2"
| process: "claim_run transfer s s1 \<Longrightarrow> insurance_process_claims_batch transfer e a is act s1 = Inr s2 \<Longrightarrow> claim_run transfer s s2"

lemma claim_run_pending: "claim_run transfer s s' \<Longrightarrow> all_pending s \<Longrightarrow> all_pending s' \<and> calm s s'"
proof (induction rule: claim_run.induct)
  case (start s)
  then show ?case by (simp add: calm_def)
next
  case (submit s s1 e c t n h i s2)
  then show ?case using submit_claim_calm [OF submit.hyps(2)] by (auto simp: calm_def same_accounts_trans)
next
  case (approve s s1 e a i s2)
  then show ?case using approve_claim_calm [OF approve.hyps(2)] by (auto simp: all_pending_def calm_def same_accounts_trans)
next
  case (reject s s1 e a i s2)
  then show ?case using reject_claim_calm [OF reject.hyps(2)] by (auto simp: all_pending_def calm_def same_accounts_trans)
next
  case (pay s s1 e a i s2)
  then show ?case using pay_claim_never by blast
next
  case (process s s1 e a "is" act s2)
  then show ?case using claims_batch_calm [OF process.hyps(2)] by (auto simp: all_pending_def calm_def same_accounts_trans)
qed

text \<open>
  C40. No insurance claim is ever paid. However claims are submitted, approved, rejected and processed in batches, they all
  stay pending, because every call writes the claim back as it was read: the payment of a claim fails, no token moves, and
  the same claim can be approved over and over.
\<close>

theorem insurance_claims_are_never_paid:
  assumes "claim_run transfer s s'" "in_claim (lj_insurance s) = Map.empty"
  shows "(\<forall>e caller i s''. insurance_pay_claim transfer e caller i s' \<noteq> Inr s'') \<and> lj_tokens s' = lj_tokens s \<and>
    (\<forall>i claim. in_claim (lj_insurance s') i = Some claim \<longrightarrow> cl_status claim = ClaimPending)"
proof -
  have "all_pending s" using assms(2) by (simp add: all_pending_def)
  from claim_run_pending [OF assms(1) this] show ?thesis using pay_claim_never [of s'] by (auto simp: calm_def all_pending_def)
qed

section \<open>Examples\<close>

definition lj_limited :: "ledger core_jar" where
  "lj_limited = set_limits 3 (no_limits\<lparr>wl_daily_limit := 100000, wl_day_start := 5\<rparr>) lj_funded"




text \<open>A batch pays the same creator four times its daily limit and records nothing of it.\<close>

theorem batches_skip_the_daily_limit:
  "case batch_withdraw ledger_transfer (lj_env 6) 3 [\<lparr>wo_token = 40, wo_amount = 400000\<rparr>] lj_limited of
     Inl _ \<Rightarrow> False
   | Inr (_, s) \<Rightarrow> lj_tokens s 40 3 = 400000 \<and> wl_daily_limit (get_withdrawal_limits 3 s) = 100000 \<and>
       wl_withdrawn_today (get_withdrawal_limits 3 s) = 0"
  by code_simp

definition lj_delegated :: "ledger core_jar core_result" where
  "lj_delegated = delegate_withdrawal (lj_env 5) 3 5 100000 15 lj_funded"

definition lj_delegate_withdrawals :: "ledger core_jar \<Rightarrow> (ledger core_jar \<times> ledger core_jar) core_result" where
  "lj_delegate_withdrawals s0 = and_then (withdraw_as_delegate ledger_transfer (lj_env 6) 5 3 40 60000 s0) (\<lambda>s1.
     map_sum id (Pair s1) (withdraw_as_delegate ledger_transfer (lj_env 7) 5 3 40 40000 s1))"

lemma both_succeed:
  assumes "and_then f (\<lambda>a. map_sum id (Pair a) (g a)) = Inr (x, y)"
  shows "f = Inr x \<and> g x = Inr y"
proof (cases f)
  case (Inr a)
  with assms have "map_sum id (Pair a) (g a) = Inr (x, y)" by simp
  then show ?thesis using Inr by (cases "g a") auto
qed (use assms in simp)

theorem delegates_stay_within_their_allowance_witness:
  "\<exists>s0 s1 s2. lj_delegated = Inr s0 \<and> lj_delegate_withdrawals s0 = Inr (s1, s2) \<and> lj_tokens s2 40 5 = 100000 \<and>
     (\<forall>s3. withdraw_as_delegate ledger_transfer (lj_env 8) 5 3 40 1 s2 \<noteq> Inr s3)"
proof -
  have "case lj_delegated of Inl _ \<Rightarrow> False | Inr s0 \<Rightarrow> (case lj_delegate_withdrawals s0 of Inl _ \<Rightarrow> False
      | Inr (s1, s2) \<Rightarrow> lj_tokens s0 40 5 = 0 \<and> lj_tokens s1 40 5 = 60000 \<and> lj_tokens s2 40 5 = 100000)"
    by code_simp
  then obtain s0 s1 s2 where s: "lj_delegated = Inr s0" "lj_delegate_withdrawals s0 = Inr (s1, s2)"
    "lj_tokens s0 40 5 = 0" "lj_tokens s1 40 5 = 60000" "lj_tokens s2 40 5 = 100000"
    by (auto split: sum.splits)
  have w: "withdraw_as_delegate ledger_transfer (lj_env 6) 5 3 40 60000 s0 = Inr s1"
    "withdraw_as_delegate ledger_transfer (lj_env 7) 5 3 40 40000 s1 = Inr s2"
    using both_succeed [OF s(2) [unfolded lj_delegate_withdrawals_def]] by simp_all
  have a: "contract_address (lj_env k) = 8" "\<not> authorized (lj_env k) 8" for k by (simp_all add: lj_env_def)
  from delegated_run.paid [OF delegated_run.paid [OF delegated_run.granted w(1) a] w(2) a, where holding = ledger_holding and ok = ledger_nonneg]
  have r: "delegated_run ledger_transfer ledger_holding ledger_nonneg 8 3 5 s0 [(lj_env 6, 60000), (lj_env 7, 40000)] s2"
    using s by (simp add: ledger_holding_def)
  have "lj_tokens s0 = lj_tokens lj_funded"
    using s(1) unfolding lj_delegated_def delegate_withdrawal_def Let_def
    by (auto simp: result_simps lj_emit_keeps guards_keep split: if_splits)
  then have "ledger_nonneg (lj_tokens s0)" by (simp add: ledger_nonneg_def lj_funded_def)
  from delegates_stay_within_their_allowance [OF ledger.sep41_axioms s(1) [unfolded lj_delegated_def] this _ r]
  have "withdraw_as_delegate ledger_transfer (lj_env 8) 5 3 40 1 s2 \<noteq> Inr s3" for s3 by (simp add: I128_MAX_def)
  then show ?thesis using s by blast
qed

text \<open>A pool of 10000 units in which creator 3 has contributed 5000.\<close>

definition lj_insured :: "ledger core_jar" where
  "lj_insured = lj_funded\<lparr>lj_insurance := no_insurance\<lparr>
     in_cfg := Some \<lparr>ic_min_contribution = 1, ic_max_contribution = 100000, ic_premium_rate_bps = 0, ic_payout_ratio_bps = 10000,
       ic_claim_cooldown = 0, ic_admin_fee_bps = 0, ic_tip_premium_bps = 0\<rparr>,
     in_pool := [40 \<mapsto> \<lparr>ip_token = 40, ip_total_reserves = 10000, ip_total_contributions = 10000, ip_total_claims_paid = 0,
       ip_active_claims = 0, ip_total_claims = 0, ip_last_payout_time = 0\<rparr>],
     in_contrib := [(3, 40) \<mapsto> 5000]\<rparr>\<rparr>"

definition lj_claimed :: "(u64 \<times> ledger core_jar) core_result" where
  "lj_claimed = insurance_submit_claim (lj_env 6) 3 40 2000 7 lj_insured"

theorem insurance_claims_are_never_paid_witness:
  "\<exists>s s'. lj_claimed = Inr (0, s) \<and> insurance_approve_claim (lj_env 7) 9 0 s = Inr s' \<and>
     (\<forall>s''. insurance_pay_claim ledger_transfer (lj_env 8) 9 0 s' \<noteq> Inr s'')"
proof -
  have "case lj_claimed of Inl _ \<Rightarrow> False | Inr (i, s) \<Rightarrow> i = 0 \<and> is_ok (insurance_approve_claim (lj_env 7) 9 0 s)" by code_simp
  then obtain s where c: "lj_claimed = Inr (0, s)" "is_ok (insurance_approve_claim (lj_env 7) 9 0 s)" by (auto split: sum.splits)
  then obtain s' where s: "lj_claimed = Inr (0, s)" "insurance_approve_claim (lj_env 7) 9 0 s = Inr s'"
    by (cases "insurance_approve_claim (lj_env 7) 9 0 s") (auto simp: is_ok_def)
  have "claim_run ledger_transfer lj_insured s'"
    using claim_run.approve [OF claim_run.submit [OF claim_run.start s(1) [unfolded lj_claimed_def]] s(2)] .
  moreover have "in_claim (lj_insurance lj_insured) = Map.empty" by (simp add: lj_insured_def no_insurance_def)
  ultimately have "insurance_pay_claim ledger_transfer (lj_env 8) 9 0 s' \<noteq> Inr s''" for s''
    using insurance_claims_are_never_paid by blast
  then show ?thesis using s by blast
qed

end
