(* ===== verification/Legacy_Boards.thy ===== *)
theory Legacy_Boards
  imports Legacy_Core
begin

text \<open>
  The leaderboards of the superseded tip jar (\<^verbatim>\<open>get_leaderboard\<close> of
  \<^verbatim>\<open>src/contracts/tipjar-legacy/src/lib.rs\<close>): the repeated scans for the best entry not yet taken give the
  first entries of the sorted list.
\<close>

section \<open>One scan\<close>

text \<open>The positions that are not taken and not below zero, and the order of the board.\<close>

definition left_over :: "board_entry list \<Rightarrow> nat list \<Rightarrow> nat list" where
  "left_over xs used = filter (\<lambda>i. i \<notin> set used \<and> 0 \<le> be_total_amount (xs ! i)) [0..<length xs]"

definition rank :: "board_entry list \<Rightarrow> nat \<Rightarrow> int" where
  "rank xs i = - be_total_amount (xs ! i)"

text \<open>A scan from position \<open>i\<close> on finds the first of the largest amounts above the bound, if there is one.\<close>

lemma best_index_cases:
  assumes "i \<le> length xs"
  shows "best_index (drop i xs) used i best amt = best \<and> (\<forall>k. i \<le> k \<longrightarrow> k < length xs \<longrightarrow> k \<notin> set used \<longrightarrow> be_total_amount (xs ! k) \<le> amt) \<or>
    (\<exists>j. best_index (drop i xs) used i best amt = Some j \<and> i \<le> j \<and> j < length xs \<and> j \<notin> set used \<and> amt < be_total_amount (xs ! j) \<and>
      (\<forall>k. i \<le> k \<longrightarrow> k < length xs \<longrightarrow> k \<notin> set used \<longrightarrow>
         be_total_amount (xs ! k) \<le> be_total_amount (xs ! j) \<and> (k < j \<longrightarrow> be_total_amount (xs ! k) < be_total_amount (xs ! j))))"
  using assms
proof (induction "length xs - i" arbitrary: i best amt)
  case 0
  then show ?case by simp
next
  case (Suc m)
  then have i: "i < length xs" "m = length xs - (i + 1)" "i + 1 \<le> length xs" by auto
  let ?v = "be_total_amount (xs ! i)"
  have d: "drop i xs = xs ! i # drop (i + 1) xs" using i(1) by (simp add: Cons_nth_drop_Suc)
  have from_i: "(\<forall>k. i \<le> k \<longrightarrow> k < length xs \<longrightarrow> P k) \<longleftrightarrow> P i \<and> (\<forall>k. i + 1 \<le> k \<longrightarrow> k < length xs \<longrightarrow> P k)" for P
  proof -
    have "i \<le> k \<longleftrightarrow> k = i \<or> i + 1 \<le> k" for k by auto
    then show ?thesis using i(1) by auto
  qed
  consider (skip) "i \<in> set used \<or> ?v \<le> amt" | (take) "i \<notin> set used" "amt < ?v" by fastforce
  then show ?case
  proof cases
    case skip
    then have e: "best_index (drop i xs) used i best amt = best_index (drop (i + 1) xs) used (i + 1) best amt" by (auto simp: d)
    from Suc.hyps(1) [OF i(2,3), of best amt] show ?thesis
    proof
      assume "best_index (drop (i + 1) xs) used (i + 1) best amt = best \<and> (\<forall>k. i + 1 \<le> k \<longrightarrow> k < length xs \<longrightarrow> k \<notin> set used \<longrightarrow> be_total_amount (xs ! k) \<le> amt)"
      then show ?thesis using skip unfolding e from_i by auto
    next
      assume "\<exists>j. best_index (drop (i + 1) xs) used (i + 1) best amt = Some j \<and> i + 1 \<le> j \<and> j < length xs \<and> j \<notin> set used \<and> amt < be_total_amount (xs ! j) \<and>
        (\<forall>k. i + 1 \<le> k \<longrightarrow> k < length xs \<longrightarrow> k \<notin> set used \<longrightarrow>
           be_total_amount (xs ! k) \<le> be_total_amount (xs ! j) \<and> (k < j \<longrightarrow> be_total_amount (xs ! k) < be_total_amount (xs ! j)))"
      then show ?thesis using skip unfolding e from_i by fastforce
    qed
  next
    case take
    then have e: "best_index (drop i xs) used i best amt = best_index (drop (i + 1) xs) used (i + 1) (Some i) ?v" by (simp add: d)
    from Suc.hyps(1) [OF i(2,3), of "Some i" ?v] show ?thesis
    proof
      assume a: "best_index (drop (i + 1) xs) used (i + 1) (Some i) ?v = Some i \<and> (\<forall>k. i + 1 \<le> k \<longrightarrow> k < length xs \<longrightarrow> k \<notin> set used \<longrightarrow> be_total_amount (xs ! k) \<le> ?v)"
      then show ?thesis using take i(1) unfolding e from_i by (intro disjI2 exI [of _ i]) auto
    next
      assume "\<exists>j. best_index (drop (i + 1) xs) used (i + 1) (Some i) ?v = Some j \<and> i + 1 \<le> j \<and> j < length xs \<and> j \<notin> set used \<and> ?v < be_total_amount (xs ! j) \<and>
        (\<forall>k. i + 1 \<le> k \<longrightarrow> k < length xs \<longrightarrow> k \<notin> set used \<longrightarrow>
           be_total_amount (xs ! k) \<le> be_total_amount (xs ! j) \<and> (k < j \<longrightarrow> be_total_amount (xs ! k) < be_total_amount (xs ! j)))"
      then show ?thesis using take unfolding e from_i by fastforce
    qed
  qed
qed

section \<open>Selection is sorting\<close>

lemma sort_key_first_least:
  assumes "\<forall>a \<in> set as. f x < f a" "\<forall>b \<in> set bs. f x \<le> f b"
  shows "sort_key f (as @ x # bs) = x # sort_key f (as @ bs)"
  using assms(1)
proof (induction as)
  case Nil
  then show ?case using assms(2) by (simp add: insort_is_Cons)
qed auto

lemma map_insort_key: "map g (insort_key (\<lambda>y. f (g y)) x xs) = insort_key f (g x) (map g xs)"
  by (induction xs) auto

lemma map_sort_key: "map g (sort_key (\<lambda>y. f (g y)) xs) = sort_key f (map g xs)"
  by (induction xs) (auto simp: map_insort_key)

lemma left_over_take:
  assumes "best_index xs used 0 None (- 1) = Some j"
  shows "sort_key (rank xs) (left_over xs used) = j # sort_key (rank xs) (left_over xs (used @ [j]))" "j < length xs" "j \<notin> set used"
proof -
  have j: "j < length xs" "j \<notin> set used" "- 1 < be_total_amount (xs ! j)"
    "\<And>k. k < length xs \<Longrightarrow> k \<notin> set used \<Longrightarrow>
       be_total_amount (xs ! k) \<le> be_total_amount (xs ! j) \<and> (k < j \<longrightarrow> be_total_amount (xs ! k) < be_total_amount (xs ! j))"
    using best_index_cases [of 0 xs used None "- 1"] assms by auto
  show "j < length xs" "j \<notin> set used" by (rule j)+
  let ?ok = "\<lambda>i. i \<notin> set used \<and> 0 \<le> be_total_amount (xs ! i)"
  have "[0..<length xs] = [0..<j] @ j # [Suc j..<length xs]"
    using j(1) upt_add_eq_append [of 0 j "length xs - j"] by (simp add: upt_conv_Cons)
  then have L: "left_over xs used = filter ?ok [0..<j] @ j # filter ?ok [Suc j..<length xs]"
      "left_over xs (used @ [j]) = filter ?ok [0..<j] @ filter ?ok [Suc j..<length xs]"
    using j(2,3) by (auto simp: left_over_def intro!: arg_cong2 [where f = append] filter_cong)
  show "sort_key (rank xs) (left_over xs used) = j # sort_key (rank xs) (left_over xs (used @ [j]))"
    unfolding L using j(1,4) by (intro sort_key_first_least) (auto simp: rank_def)
qed

lemma left_over_none:
  assumes "best_index xs used 0 None (- 1) = None"
  shows "left_over xs used = []"
  using best_index_cases [of 0 xs used None "- 1"] assms by (force simp: left_over_def filter_empty_conv)

lemma top_loop_sorts:
  assumes "distinct used" "set used \<subseteq> {..<length xs}"
  shows "top_loop k xs used result = result @ take k (map (nth xs) (sort_key (rank xs) (left_over xs used)))"
  using assms
proof (induction k arbitrary: used result)
  case (Suc k)
  show ?case
  proof (cases "length used = length xs")
    case True
    then have "set used = {..<length xs}" using Suc.prems by (intro card_subset_eq) (auto simp: distinct_card)
    then have "left_over xs used = []" by (auto simp: left_over_def filter_empty_conv)
    then show ?thesis using True by simp
  next
    case False
    show ?thesis
    proof (cases "best_index xs used 0 None (- 1)")
      case None
      then show ?thesis using False Suc left_over_none [OF None] by simp
    next
      case (Some j)
      then show ?thesis using False Suc.prems Suc.IH [of "used @ [j]"] left_over_take [OF Some] by simp
    qed
  qed
qed simp

text \<open>
  C26. A leaderboard is the top of the sorted list. What \<^verbatim>\<open>get_leaderboard\<close> computes by repeated scans for the best
  entry is exactly the first entries, as many as asked for and at most 100, of the participants' entries in descending order of their
  amounts, with participants of equal amount in the order in which they joined, and entries below zero left out.
\<close>

theorem leaderboard_is_the_sorted_top:
  "get_leaderboard kind limit s =
   (let bd = lj_boards s;
        parts = (case kind of TipperKind \<Rightarrow> bd_tipper_parts bd | CreatorKind \<Rightarrow> bd_creator_parts bd);
        agg = (case kind of TipperKind \<Rightarrow> bd_tipper_agg bd | CreatorKind \<Rightarrow> bd_creator_agg bd);
        entries = List.map_filter (\<lambda>a. agg (a, 0)) (unwrap_or (parts 0) []) in
    take (unat (min limit 100)) (sort_key (\<lambda>x. - be_total_amount x) (filter (\<lambda>x. 0 \<le> be_total_amount x) entries)))"
proof -
  have all: "map (nth xs) (sort_key (rank xs) (left_over xs [])) =
      sort_key (\<lambda>x. - be_total_amount x) (filter (\<lambda>x. 0 \<le> be_total_amount x) xs)" for xs
  proof -
    have "rank xs = (\<lambda>i. - be_total_amount (xs ! i))" by (auto simp: rank_def)
    moreover have "map (nth xs) (left_over xs []) = filter (\<lambda>x. 0 \<le> be_total_amount x) (map (nth xs) [0..<length xs])"
      by (simp add: left_over_def filter_map comp_def)
    ultimately show ?thesis using map_sort_key [of "nth xs" "\<lambda>x. - be_total_amount x"] by (simp add: map_nth)
  qed
  have "(if limit > 100 then 100 else limit) = min limit 100" by (auto simp: min_def)
  then show ?thesis by (simp add: get_leaderboard_def Let_def top_loop_sorts all)
qed

end
