(* ===== verification/Breaker_Engine.thy ===== *)
theory Breaker_Engine
  imports Host
begin

text \<open>
  The enhanced circuit breaker of the superseded tip jar
  (\<^verbatim>\<open>src/contracts/tipjar-legacy/src/circuit_breaker.rs\<close>), part one: configuration, state, and the modules that
  compute on them without storage (\<^verbatim>\<open>trigger_engine\<close> to \<^verbatim>\<open>error_handler\<close> and \<^verbatim>\<open>estimation\<close>). A function that can panic
  returns a result; the others are total.
\<close>

section \<open>Saturating products\<close>

definition sat_mul_u64 :: "u64 \<Rightarrow> u64 \<Rightarrow> u64" where
  "sat_mul_u64 a b = (if uint a * uint b > 18446744073709551615 then - 1 else a * b)"

definition sat_mul_u32 :: "u32 \<Rightarrow> u32 \<Rightarrow> u32" where
  "sat_mul_u32 a b = (if uint a * uint b > 4294967295 then - 1 else a * b)"

text \<open>The operator \<open>/\<close> on unsigned numbers traps on a zero divisor.\<close>

definition div_word :: "'a::len word \<Rightarrow> 'a word \<Rightarrow> ('e, 'a word) result" where
  "div_word a b = (if b = 0 then Inl Trapped else Inr (a div b))"

lemma div_word_Inr_iff [result_simps]: "div_word a b = Inr c \<longleftrightarrow> b \<noteq> 0 \<and> c = a div b"
  by (auto simp: div_word_def)

section \<open>Configuration\<close>

record enhanced_config =
  ec_max_single_tip :: int
  ec_one_minute_threshold :: int
  ec_five_minute_threshold :: int
  ec_one_hour_threshold :: int
  ec_twenty_four_hour_threshold :: int
  ec_max_tips_per_minute :: u32
  ec_max_tips_per_creator_per_min :: u32
  ec_anomaly_detection_enabled :: bool
  ec_anomaly_confidence_threshold :: u32
  ec_pattern_analysis_enabled :: bool
  ec_base_cooldown_seconds :: u64
  ec_max_cooldown_seconds :: u64
  ec_exponential_backoff_enabled :: bool
  ec_backoff_multiplier :: u32
  ec_enabled :: bool
  ec_emergency_mode :: bool
  ec_maintenance_mode :: bool

record volume_thresholds =
  vt_one_minute_threshold :: int
  vt_five_minute_threshold :: int
  vt_one_hour_threshold :: int
  vt_twenty_four_hour_threshold :: int
  vt_percentage_based_enabled :: bool
  vt_historical_multiplier :: u32

record cooldown_config =
  cd_base_cooldown_seconds :: u64
  cd_max_cooldown_seconds :: u64
  cd_exponential_backoff_enabled :: bool
  cd_backoff_multiplier :: u32

datatype circuit_breaker_error =
    InvalidConfiguration
  | InvalidSingleTipThreshold
  | InvalidVolumeThreshold
  | InvalidCooldownDuration
  | InvalidRateLimit
  | InvalidConfidenceThreshold
  | InvalidBackoffMultiplier

definition validate_config :: "enhanced_config \<Rightarrow> circuit_breaker_error + unit" where
  "validate_config c =
     (if ec_max_single_tip c \<le> 0 then Inl InvalidSingleTipThreshold
      else if ec_one_minute_threshold c \<le> 0 then Inl InvalidVolumeThreshold
      else if ec_five_minute_threshold c \<le> 0 then Inl InvalidVolumeThreshold
      else if ec_one_hour_threshold c \<le> 0 then Inl InvalidVolumeThreshold
      else if ec_twenty_four_hour_threshold c \<le> 0 then Inl InvalidVolumeThreshold
      else if ec_five_minute_threshold c < ec_one_minute_threshold c then Inl InvalidVolumeThreshold
      else if ec_one_hour_threshold c < ec_five_minute_threshold c then Inl InvalidVolumeThreshold
      else if ec_twenty_four_hour_threshold c < ec_one_hour_threshold c then Inl InvalidVolumeThreshold
      else if ec_max_tips_per_minute c = 0 then Inl InvalidRateLimit
      else if ec_max_tips_per_creator_per_min c = 0 then Inl InvalidRateLimit
      else if ec_anomaly_confidence_threshold c > 10000 then Inl InvalidConfidenceThreshold
      else if ec_base_cooldown_seconds c = 0 then Inl InvalidCooldownDuration
      else if ec_max_cooldown_seconds c = 0 then Inl InvalidCooldownDuration
      else if ec_max_cooldown_seconds c < ec_base_cooldown_seconds c then Inl InvalidCooldownDuration
      else if ec_exponential_backoff_enabled c \<and> ec_backoff_multiplier c \<le> 10000 then Inl InvalidBackoffMultiplier
      else Inr ())"

definition default_enhanced_config :: enhanced_config where
  "default_enhanced_config =
     \<lparr>ec_max_single_tip = 1000000000, ec_one_minute_threshold = 10000000000, ec_five_minute_threshold = 40000000000,
      ec_one_hour_threshold = 200000000000, ec_twenty_four_hour_threshold = 2000000000000, ec_max_tips_per_minute = 1000,
      ec_max_tips_per_creator_per_min = 100, ec_anomaly_detection_enabled = True, ec_anomaly_confidence_threshold = 7500,
      ec_pattern_analysis_enabled = True, ec_base_cooldown_seconds = 300, ec_max_cooldown_seconds = 86400,
      ec_exponential_backoff_enabled = True, ec_backoff_multiplier = 15000, ec_enabled = True, ec_emergency_mode = False,
      ec_maintenance_mode = False\<rparr>"

definition validate_volume_thresholds :: "volume_thresholds \<Rightarrow> circuit_breaker_error + unit" where
  "validate_volume_thresholds v =
     (if vt_one_minute_threshold v \<le> 0 then Inl InvalidVolumeThreshold
      else if vt_five_minute_threshold v \<le> 0 then Inl InvalidVolumeThreshold
      else if vt_one_hour_threshold v \<le> 0 then Inl InvalidVolumeThreshold
      else if vt_twenty_four_hour_threshold v \<le> 0 then Inl InvalidVolumeThreshold
      else if vt_five_minute_threshold v < vt_one_minute_threshold v then Inl InvalidVolumeThreshold
      else if vt_one_hour_threshold v < vt_five_minute_threshold v then Inl InvalidVolumeThreshold
      else if vt_twenty_four_hour_threshold v < vt_one_hour_threshold v then Inl InvalidVolumeThreshold
      else Inr ())"

definition default_volume_thresholds :: volume_thresholds where
  "default_volume_thresholds =
     \<lparr>vt_one_minute_threshold = 10000000000, vt_five_minute_threshold = 40000000000, vt_one_hour_threshold = 200000000000,
      vt_twenty_four_hour_threshold = 2000000000000, vt_percentage_based_enabled = True, vt_historical_multiplier = 20000\<rparr>"

definition validate_cooldown :: "cooldown_config \<Rightarrow> circuit_breaker_error + unit" where
  "validate_cooldown c =
     (if cd_base_cooldown_seconds c = 0 then Inl InvalidCooldownDuration
      else if cd_max_cooldown_seconds c = 0 then Inl InvalidCooldownDuration
      else if cd_max_cooldown_seconds c < cd_base_cooldown_seconds c then Inl InvalidCooldownDuration
      else if cd_exponential_backoff_enabled c \<and> cd_backoff_multiplier c \<le> 10000 then Inl InvalidBackoffMultiplier
      else Inr ())"

definition default_cooldown :: cooldown_config where
  "default_cooldown = \<lparr>cd_base_cooldown_seconds = 300, cd_max_cooldown_seconds = 86400, cd_exponential_backoff_enabled = True,
     cd_backoff_multiplier = 15000\<rparr>"

section \<open>State\<close>

datatype time_window = OneMinute | FiveMinutes | OneHour | TwentyFourHours

record volume_window =
  vw_start :: u64
  vw_volume :: int
  vw_tip_count :: u32
  vw_unique_senders :: u32
  vw_max_single_tip :: int

record rate_limit_state =
  rl_minute_start :: u64
  rl_tips :: u32

record historical_stats =
  hs_average :: int
  hs_deviation :: int
  hs_tips_per_minute :: u32
  hs_senders_per_hour :: u32
  hs_last_update :: u64
  hs_samples :: u32

record anomaly_detection_state =
  ad_stats :: historical_stats
  ad_clustering :: u32
  ad_velocity :: u32
  ad_deviation :: u32
  ad_confidence :: u32
  ad_last_analysis :: u64

datatype trigger_type =
    NoTrigger
  | SingleTipSpike
  | VolumeSpike time_window
  | RateLimit
  | AnomalyDetection
  | PatternAnalysis
  | PriceVolatility
  | ManualTrigger

datatype trigger_severity = NoSeverity | LowSeverity | MediumSeverity | HighSeverity | CriticalSeverity

record enhanced_state =
  es_halted_until :: u64
  es_halt_reason :: trigger_type
  es_halt_severity :: trigger_severity
  es_one_minute :: volume_window
  es_five_minute :: volume_window
  es_one_hour :: volume_window
  es_day :: volume_window
  es_rate :: rate_limit_state
  es_trigger_count :: u32
  es_last_trigger :: u64
  es_anomaly :: "anomaly_detection_state option"
  es_total_halts :: u32
  es_total_halt_duration :: u64

definition empty_window :: "u64 \<Rightarrow> volume_window" where
  "empty_window now = \<lparr>vw_start = now, vw_volume = 0, vw_tip_count = 0, vw_unique_senders = 0, vw_max_single_tip = 0\<rparr>"

definition new_enhanced_state :: "u64 \<Rightarrow> enhanced_state" where
  "new_enhanced_state now =
     \<lparr>es_halted_until = 0, es_halt_reason = NoTrigger, es_halt_severity = NoSeverity, es_one_minute = empty_window now,
      es_five_minute = empty_window now, es_one_hour = empty_window now, es_day = empty_window now,
      es_rate = \<lparr>rl_minute_start = now, rl_tips = 0\<rparr>, es_trigger_count = 0, es_last_trigger = 0, es_anomaly = None,
      es_total_halts = 0, es_total_halt_duration = 0\<rparr>"

definition is_halted :: "enhanced_state \<Rightarrow> u64 \<Rightarrow> bool" where
  "is_halted s now \<longleftrightarrow> es_halted_until s > now"

definition remaining_cooldown :: "enhanced_state \<Rightarrow> u64 \<Rightarrow> u64" where
  "remaining_cooldown s now = sat_sub_u64 (es_halted_until s) now"

section \<open>Trigger engine\<close>

definition check_single_tip_spike :: "enhanced_config \<Rightarrow> int \<Rightarrow> trigger_severity option" where
  "check_single_tip_spike c amount =
     (if \<not> ec_enabled c then None else if amount > ec_max_single_tip c then Some HighSeverity else None)"

definition check_specific_limit :: "int \<Rightarrow> int option \<Rightarrow> trigger_severity option" where
  "check_specific_limit amount limit =
     (case limit of Some l \<Rightarrow> if amount > l then Some MediumSeverity else None | None \<Rightarrow> None)"

definition severity_cooldown :: "enhanced_config \<Rightarrow> trigger_severity \<Rightarrow> u64" where
  "severity_cooldown c severity =
     (case severity of
        NoSeverity \<Rightarrow> ec_base_cooldown_seconds c div 2
      | LowSeverity \<Rightarrow> ec_base_cooldown_seconds c div 2
      | MediumSeverity \<Rightarrow> ec_base_cooldown_seconds c
      | HighSeverity \<Rightarrow> ec_base_cooldown_seconds c * 2
      | CriticalSeverity \<Rightarrow> ec_base_cooldown_seconds c * 4)"

primrec backoff_loop :: "nat \<Rightarrow> u64 \<Rightarrow> u64 \<Rightarrow> u64" where
  "backoff_loop 0 multiplier adjusted = adjusted"
| "backoff_loop (Suc k) multiplier adjusted = backoff_loop k multiplier (sat_mul_u64 adjusted multiplier div 10000)"

definition calculate_cooldown :: "enhanced_config \<Rightarrow> trigger_severity \<Rightarrow> u32 \<Rightarrow> u64" where
  "calculate_cooldown c severity trigger_count =
     (let base = severity_cooldown c severity;
          cooldown = (if ec_exponential_backoff_enabled c \<and> trigger_count > 0
                      then backoff_loop (unat (min trigger_count 5)) (ucast (ec_backoff_multiplier c)) base else base) in
      max (min cooldown (ec_max_cooldown_seconds c)) (ec_base_cooldown_seconds c))"

definition activate_halt :: "enhanced_config \<Rightarrow> trigger_type \<Rightarrow> trigger_severity \<Rightarrow> u64 \<Rightarrow> enhanced_state \<Rightarrow> enhanced_state" where
  "activate_halt c trigger severity now s =
     (let cooldown = calculate_cooldown c severity (es_trigger_count s) in
      s\<lparr>es_halted_until := sat_add_u64 now cooldown, es_halt_reason := trigger, es_halt_severity := severity,
        es_trigger_count := sat_add_u32 (es_trigger_count s) 1, es_last_trigger := now,
        es_total_halts := sat_add_u32 (es_total_halts s) 1,
        es_total_halt_duration := sat_add_u64 (es_total_halt_duration s) cooldown\<rparr>)"

definition trigger_immediate_halt ::
  "enhanced_state \<Rightarrow> enhanced_config \<Rightarrow> trigger_type \<Rightarrow> trigger_severity \<Rightarrow> u64 \<Rightarrow> enhanced_state" where
  "trigger_immediate_halt s c trigger severity now =
     (let cooldown = calculate_cooldown c severity (es_trigger_count s) in
      s\<lparr>es_halted_until := sat_add_u64 now cooldown, es_halt_reason := trigger, es_halt_severity := severity,
        es_trigger_count := sat_add_u32 (es_trigger_count s) 1, es_last_trigger := now,
        es_total_halts := sat_add_u32 (es_total_halts s) 1,
        es_total_halt_duration := sat_add_u64 (es_total_halt_duration s) cooldown\<rparr>)"

section \<open>Volume windows\<close>

definition update_volume_window :: "int \<Rightarrow> u64 \<Rightarrow> u64 \<Rightarrow> volume_window \<Rightarrow> volume_window" where
  "update_volume_window amount now duration w =
     (if now \<ge> sat_add_u64 (vw_start w) duration
      then \<lparr>vw_start = now, vw_volume = amount, vw_tip_count = 1, vw_unique_senders = 1, vw_max_single_tip = amount\<rparr>
      else w\<lparr>vw_volume := sat_i128 (vw_volume w + amount), vw_tip_count := sat_add_u32 (vw_tip_count w) 1,
             vw_max_single_tip := (if amount > vw_max_single_tip w then amount else vw_max_single_tip w)\<rparr>)"

definition check_volume_threshold :: "volume_window \<Rightarrow> int \<Rightarrow> u64 \<Rightarrow> u64 \<Rightarrow> bool" where
  "check_volume_threshold w threshold now duration =
     (if now < sat_add_u64 (vw_start w) duration then vw_volume w > threshold else False)"

definition update_all_windows :: "int \<Rightarrow> u64 \<Rightarrow> enhanced_state \<Rightarrow> enhanced_state" where
  "update_all_windows amount now s =
     s\<lparr>es_one_minute := update_volume_window amount now 60 (es_one_minute s),
       es_five_minute := update_volume_window amount now 300 (es_five_minute s),
       es_one_hour := update_volume_window amount now 3600 (es_one_hour s),
       es_day := update_volume_window amount now 86400 (es_day s)\<rparr>"

definition check_all_volume_thresholds ::
  "enhanced_state \<Rightarrow> enhanced_config \<Rightarrow> u64 \<Rightarrow> (trigger_type \<times> trigger_severity) option" where
  "check_all_volume_thresholds s c now =
     (if check_volume_threshold (es_one_minute s) (ec_one_minute_threshold c) now 60
      then Some (VolumeSpike OneMinute, CriticalSeverity)
      else if check_volume_threshold (es_five_minute s) (ec_five_minute_threshold c) now 300
      then Some (VolumeSpike FiveMinutes, HighSeverity)
      else if check_volume_threshold (es_one_hour s) (ec_one_hour_threshold c) now 3600
      then Some (VolumeSpike OneHour, MediumSeverity)
      else if check_volume_threshold (es_day s) (ec_twenty_four_hour_threshold c) now 86400
      then Some (VolumeSpike TwentyFourHours, LowSeverity)
      else None)"

definition calculate_percentage_threshold :: "int \<Rightarrow> u32 \<Rightarrow> int" where
  "calculate_percentage_threshold average multiplier_bps = sat_i128 (average * uint multiplier_bps) sdiv 10000"

definition reset_volume_counters :: "u64 \<Rightarrow> enhanced_state \<Rightarrow> enhanced_state" where
  "reset_volume_counters now s =
     s\<lparr>es_one_minute := empty_window now, es_five_minute := empty_window now, es_one_hour := empty_window now,
       es_day := empty_window now\<rparr>"

section \<open>Rate limit\<close>

definition update_rate_limit_state :: "u64 \<Rightarrow> rate_limit_state \<Rightarrow> rate_limit_state" where
  "update_rate_limit_state now r =
     (if now \<ge> sat_add_u64 (rl_minute_start r) 60 then \<lparr>rl_minute_start = now, rl_tips = 1\<rparr>
      else r\<lparr>rl_tips := sat_add_u32 (rl_tips r) 1\<rparr>)"

definition check_global_rate_limit :: "rate_limit_state \<Rightarrow> enhanced_config \<Rightarrow> u64 \<Rightarrow> bool" where
  "check_global_rate_limit r c now =
     (if now < sat_add_u64 (rl_minute_start r) 60 then rl_tips r > ec_max_tips_per_minute c else False)"

definition check_rate_limit_trigger ::
  "enhanced_config \<Rightarrow> u64 \<Rightarrow> enhanced_state \<Rightarrow> (trigger_type \<times> trigger_severity) option \<times> enhanced_state" where
  "check_rate_limit_trigger c now s =
     (let s1 = s\<lparr>es_rate := update_rate_limit_state now (es_rate s)\<rparr> in
      (if check_global_rate_limit (es_rate s1) c now then Some (RateLimit, MediumSeverity) else None, s1))"

definition reset_rate_limit_state :: "u64 \<Rightarrow> enhanced_state \<Rightarrow> enhanced_state" where
  "reset_rate_limit_state now s = s\<lparr>es_rate := \<lparr>rl_minute_start = now, rl_tips = 0\<rparr>\<rparr>"

section \<open>Anomalies\<close>

text \<open>The number of distinct senders: every one that no earlier position has.\<close>

definition count_unique :: "address list \<Rightarrow> nat" where
  "count_unique xs = length (filter (\<lambda>i. xs ! i \<notin> set (take i xs)) [0..<length xs])"

definition calculate_sender_clustering_score :: "address list \<Rightarrow> u32 \<Rightarrow> u32" where
  "calculate_sender_clustering_score senders unique_threshold =
     (if senders = [] then 0
      else
      let unique_count = of_nat (count_unique senders) :: u32 in
      if unique_count < unique_threshold
      then min ((unique_threshold - unique_count) * 10000 div unique_threshold) 10000
      else 0)"

definition calculate_velocity_anomaly_score :: "u32 \<Rightarrow> u32 \<Rightarrow> u32 \<Rightarrow> ('e, u32) result" where
  "calculate_velocity_anomaly_score current_rate average deviation_threshold =
     (if average = 0 then Inr 0
      else if current_rate > average
      then
        let ratio = (current_rate - average) * 10000 div average in
        if ratio > deviation_threshold
        then and_then (div_word ((ratio - deviation_threshold) * 10000) deviation_threshold) (\<lambda>q. Inr (min q 10000))
        else Inr 0
      else Inr 0)"

definition calculate_amount_deviation_score :: "int \<Rightarrow> int \<Rightarrow> int \<Rightarrow> ('e, u32) result" where
  "calculate_amount_deviation_score amount average standard_deviation =
     (if standard_deviation = 0 \<or> average = 0 then Inr 0
      else
      let deviation = (if amount > average then sub_i128 amount average else sub_i128 average amount) in
      and_then (div_i128 (mul_i128 deviation 100) standard_deviation) (\<lambda>z_score.
      if z_score > 300 then Inr 10000
      else if z_score > 200 then Inr (word_of_int (min (mul_i128 (sub_i128 z_score 200) 10000 sdiv 100) 10000))
      else Inr 0))"

definition update_anomaly_state ::
  "int \<Rightarrow> u64 \<Rightarrow> anomaly_detection_state option \<Rightarrow> ('e, anomaly_detection_state option) result" where
  "update_anomaly_state amount now state =
     (case state of
        None \<Rightarrow> Inr None
      | Some a \<Rightarrow>
          let stats = ad_stats a;
              new_count = sat_add_u32 (hs_samples stats) 1;
              total = sat_i128 (hs_average stats * uint (hs_samples stats));
              stats = stats\<lparr>hs_average := sat_i128 (total + amount) sdiv uint new_count, hs_samples := new_count,
                            hs_last_update := now\<rparr> in
          and_then (calculate_amount_deviation_score amount (hs_average stats) (hs_deviation stats)) (\<lambda>score.
          Inr (Some (a\<lparr>ad_stats := stats, ad_deviation := score, ad_last_analysis := now\<rparr>))))"

definition calculate_overall_confidence :: "u32 \<Rightarrow> u32 \<Rightarrow> u32 \<Rightarrow> u32" where
  "calculate_overall_confidence clustering velocity deviation =
     sat_add_u32 (sat_add_u32 (sat_mul_u32 clustering 40) (sat_mul_u32 velocity 30)) (sat_mul_u32 deviation 30) div 100"

definition check_anomaly_trigger ::
  "anomaly_detection_state option \<Rightarrow> enhanced_config \<Rightarrow> (trigger_type \<times> trigger_severity) option" where
  "check_anomaly_trigger state c =
     (if \<not> ec_anomaly_detection_enabled c then None
      else case state of
        None \<Rightarrow> None
      | Some a \<Rightarrow>
          if ad_confidence a > ec_anomaly_confidence_threshold c
          then Some (AnomalyDetection,
            if ad_confidence a > 9000 then CriticalSeverity
            else if ad_confidence a > 8000 then HighSeverity else MediumSeverity)
          else None)"

definition initialize_anomaly_state :: "u64 \<Rightarrow> anomaly_detection_state" where
  "initialize_anomaly_state now =
     \<lparr>ad_stats = \<lparr>hs_average = 0, hs_deviation = 0, hs_tips_per_minute = 0, hs_senders_per_hour = 0, hs_last_update = now,
        hs_samples = 0\<rparr>,
      ad_clustering = 0, ad_velocity = 0, ad_deviation = 0, ad_confidence = 0, ad_last_analysis = now\<rparr>"

section \<open>Statistics\<close>

primrec sqrt_loop :: "nat \<Rightarrow> int \<Rightarrow> int \<Rightarrow> int \<Rightarrow> int" where
  "sqrt_loop 0 n x y = x"
| "sqrt_loop (Suc k) n x y = (if y \<ge> x then x else sqrt_loop k n y (add_i128 y (n sdiv y) sdiv 2))"

definition sqrt_approx :: "int \<Rightarrow> int" where
  "sqrt_approx n = (if n \<le> 0 then 0 else sqrt_loop 10 n n (add_i128 n 1 sdiv 2))"

definition update_rolling_statistics :: "int \<Rightarrow> u64 \<Rightarrow> historical_stats \<Rightarrow> historical_stats" where
  "update_rolling_statistics amount now st =
     (let old_count = hs_samples st;
          new_count = sat_add_u32 old_count 1;
          old_avg = hs_average st;
          delta = sub_i128 amount old_avg;
          avg = add_i128 old_avg (delta sdiv uint new_count);
          dev = (if old_count > 0
                 then let delta2 = sub_i128 amount avg;
                          variance_sum = sat_i128 (sat_i128 (hs_deviation st * hs_deviation st) * uint old_count);
                          new_variance_sum = sat_i128 (variance_sum + sat_i128 (delta * delta2)) in
                      sqrt_approx (new_variance_sum sdiv uint new_count)
                 else hs_deviation st) in
      st\<lparr>hs_average := avg, hs_deviation := dev, hs_samples := new_count, hs_last_update := now\<rparr>)"

definition update_frequency_stats :: "u32 \<Rightarrow> u32 \<Rightarrow> historical_stats \<Rightarrow> historical_stats" where
  "update_frequency_stats tips minutes st =
     (if minutes = 0 then st
      else
      let rate = tips div minutes in
      st\<lparr>hs_tips_per_minute := (if hs_tips_per_minute st = 0 then rate else (hs_tips_per_minute st * 4 + rate) div 5)\<rparr>)"

definition update_sender_stats :: "u32 \<Rightarrow> historical_stats \<Rightarrow> historical_stats" where
  "update_sender_stats unique st =
     st\<lparr>hs_senders_per_hour := (if hs_senders_per_hour st = 0 then unique else (hs_senders_per_hour st * 4 + unique) div 5)\<rparr>"

definition calculate_pattern_confidence :: "u32 \<Rightarrow> u32 \<Rightarrow> u32 \<Rightarrow> ('e, u32) result" where
  "calculate_pattern_confidence current average deviation_threshold =
     (if average = 0 then Inr 0
      else
      let ratio = (if current > average then (current - average) * 10000 div average else 0) in
      if ratio > deviation_threshold
      then and_then (div_word ((ratio - deviation_threshold) * 10000) deviation_threshold) (\<lambda>q. Inr (min q 10000))
      else Inr 0)"

definition reset_statistics :: "u64 \<Rightarrow> historical_stats" where
  "reset_statistics now = \<lparr>hs_average = 0, hs_deviation = 0, hs_tips_per_minute = 0, hs_senders_per_hour = 0,
     hs_last_update = now, hs_samples = 0\<rparr>"

section \<open>Patterns\<close>

definition analyze_creator_velocity :: "u32 \<Rightarrow> u64 \<Rightarrow> u32 \<Rightarrow> ('e, u32) result" where
  "analyze_creator_velocity tip_count seconds historical_rate =
     (if seconds = 0 then Inr 0
      else and_then (div_word (tip_count * 60) (ucast seconds)) (\<lambda>current_rate.
      if historical_rate = 0 then Inr (if current_rate > 100 then min ((current_rate - 100) * 100) 10000 else 0)
      else Inr (if current_rate > historical_rate * 3
                then min (current_rate * 10000 div historical_rate - 30000) 10000 else 0)))"

definition detect_sequential_pattern :: "address list \<Rightarrow> u64 list \<Rightarrow> u64 \<Rightarrow> bool" where
  "detect_sequential_pattern senders stamps max_gap =
     (if length senders < 3 \<or> length stamps < 3 then False
      else length (filter (\<lambda>i. stamps ! i - stamps ! (i - 1) < max_gap) [1..<min (length stamps) 10]) > 5)"

definition calculate_pattern_score :: "u32 \<Rightarrow> bool \<Rightarrow> u32 \<Rightarrow> u32" where
  "calculate_pattern_score velocity sequential clustering =
     (let total = (if sequential then sat_add_u32 velocity 3000 else velocity) in
      min (sat_add_u32 total (clustering div 2)) 10000)"

definition check_pattern_trigger :: "enhanced_config \<Rightarrow> u32 \<Rightarrow> (trigger_type \<times> trigger_severity) option" where
  "check_pattern_trigger c score =
     (if \<not> ec_pattern_analysis_enabled c then None
      else if score > 7500 then Some (PatternAnalysis, HighSeverity)
      else if score > 5000 then Some (PatternAnalysis, MediumSeverity)
      else None)"

section \<open>Halts\<close>

definition check_automatic_recovery :: "enhanced_state \<Rightarrow> u64 \<Rightarrow> bool" where
  "check_automatic_recovery s now \<longleftrightarrow> es_halted_until s > 0 \<and> now \<ge> es_halted_until s"

definition perform_automatic_recovery :: "u64 \<Rightarrow> enhanced_state \<Rightarrow> enhanced_state" where
  "perform_automatic_recovery now s =
     reset_rate_limit_state now (reset_volume_counters now
       (s\<lparr>es_halted_until := 0, es_halt_reason := NoTrigger, es_halt_severity := NoSeverity\<rparr>))"

definition should_block_operations :: "enhanced_state \<Rightarrow> enhanced_config \<Rightarrow> u64 \<Rightarrow> bool" where
  "should_block_operations s c now =
     (if \<not> ec_enabled c then False else if ec_maintenance_mode c then True else is_halted s now)"

definition halt_status :: "enhanced_state \<Rightarrow> u64 \<Rightarrow> bool \<times> trigger_type \<times> trigger_severity \<times> u64" where
  "halt_status s now = (is_halted s now, es_halt_reason s, es_halt_severity s, remaining_cooldown s now)"

definition extend_halt :: "u64 \<Rightarrow> u64 \<Rightarrow> enhanced_state \<Rightarrow> circuit_breaker_error + enhanced_state" where
  "extend_halt seconds now s =
     (if \<not> is_halted s now then Inl InvalidConfiguration
      else Inr (s\<lparr>es_halted_until := sat_add_u64 (es_halted_until s) seconds,
                  es_total_halt_duration := sat_add_u64 (es_total_halt_duration s) seconds\<rparr>))"

section \<open>Cooldowns\<close>

definition apply_exponential_backoff :: "u64 \<Rightarrow> u32 \<Rightarrow> u32 \<Rightarrow> u64 \<Rightarrow> u64 \<Rightarrow> u64" where
  "apply_exponential_backoff base trigger_count multiplier_bps last_trigger now =
     (if sat_sub_u64 now last_trigger > 3600 then base
      else backoff_loop (unat (min trigger_count 5)) (ucast multiplier_bps) base)"

definition enforce_cooldown_bounds :: "u64 \<Rightarrow> enhanced_config \<Rightarrow> u64" where
  "enforce_cooldown_bounds cooldown c = min (max cooldown (ec_base_cooldown_seconds c)) (ec_max_cooldown_seconds c)"

definition calculate_cooldown_period :: "enhanced_config \<Rightarrow> trigger_severity \<Rightarrow> u32 \<Rightarrow> u64 \<Rightarrow> u64 \<Rightarrow> u64" where
  "calculate_cooldown_period c severity trigger_count last_trigger now =
     (let base = severity_cooldown c severity;
          cooldown = (if ec_exponential_backoff_enabled c \<and> trigger_count > 0
                      then apply_exponential_backoff base trigger_count (ec_backoff_multiplier c) last_trigger now else base) in
      enforce_cooldown_bounds cooldown c)"

definition calculate_creator_cooldown :: "u64 \<Rightarrow> u32 option \<Rightarrow> u64" where
  "calculate_creator_cooldown base multiplier =
     (case multiplier of Some m \<Rightarrow> sat_mul_u64 base (ucast m) div 10000 | None \<Rightarrow> base)"

definition select_longest_cooldown :: "u64 list \<Rightarrow> u64" where
  "select_longest_cooldown xs = fold max xs 0"

definition calculate_graduated_recovery :: "u64 \<Rightarrow> u64 \<Rightarrow> u32 \<Rightarrow> ('e, u32) result" where
  "calculate_graduated_recovery total_cooldown elapsed_time stages =
     (if stages = 0 \<or> total_cooldown = 0 then Inr 0
      else and_then (div_word elapsed_time (total_cooldown div ucast stages)) (\<lambda>stage. Inr (ucast (min stage (ucast stages)))))"

section \<open>Errors\<close>

datatype halt_error_code =
    HaltSingleTipSpike | HaltVolumeSpike1Min | HaltVolumeSpike5Min | HaltVolumeSpike1Hour | HaltVolumeSpike24Hour
  | HaltRateLimitExceeded | HaltAnomalyDetected | HaltSuspiciousPattern | HaltPriceVolatility | HaltManual
  | HaltEmergencyMode | HaltMaintenanceMode

definition get_halt_error_code :: "enhanced_state \<Rightarrow> enhanced_config \<Rightarrow> halt_error_code" where
  "get_halt_error_code s c =
     (if ec_maintenance_mode c then HaltMaintenanceMode
      else if ec_emergency_mode c then HaltEmergencyMode
      else case es_halt_reason s of
        NoTrigger \<Rightarrow> HaltManual
      | SingleTipSpike \<Rightarrow> HaltSingleTipSpike
      | VolumeSpike w \<Rightarrow>
          (case w of OneMinute \<Rightarrow> HaltVolumeSpike1Min | FiveMinutes \<Rightarrow> HaltVolumeSpike5Min
           | OneHour \<Rightarrow> HaltVolumeSpike1Hour | TwentyFourHours \<Rightarrow> HaltVolumeSpike24Hour)
      | RateLimit \<Rightarrow> HaltRateLimitExceeded
      | AnomalyDetection \<Rightarrow> HaltAnomalyDetected
      | PatternAnalysis \<Rightarrow> HaltSuspiciousPattern
      | PriceVolatility \<Rightarrow> HaltPriceVolatility
      | ManualTrigger \<Rightarrow> HaltManual)"

definition validate_state_integrity :: "enhanced_state \<Rightarrow> circuit_breaker_error + unit" where
  "validate_state_integrity s =
     (if es_halted_until s > 0 \<and> es_halt_reason s = NoTrigger then Inl InvalidConfiguration
      else if vw_volume (es_one_minute s) < 0 then Inl InvalidConfiguration
      else if es_trigger_count s > 1000000 then Inl InvalidConfiguration
      else Inr ())"

definition handle_corrupted_state :: "enhanced_state \<Rightarrow> u64 \<Rightarrow> enhanced_state" where
  "handle_corrupted_state s now = (case validate_state_integrity s of Inr _ \<Rightarrow> s | Inl _ \<Rightarrow> new_enhanced_state now)"

section \<open>Estimates\<close>

definition estimate_recovery_time :: "env \<Rightarrow> enhanced_state \<Rightarrow> u64" where
  "estimate_recovery_time e s =
     (if \<not> is_halted s (timestamp e) then 0 else sat_sub_u64 (es_halted_until s) (timestamp e))"

definition estimate_check_gas_cost :: "enhanced_config \<Rightarrow> u64" where
  "estimate_check_gas_cost c =
     1000 + 500 + 300 + (if ec_anomaly_detection_enabled c then 2000 else 0) + (if ec_pattern_analysis_enabled c then 1500 else 0)"

definition estimate_next_trigger_risk :: "enhanced_state \<Rightarrow> enhanced_config \<Rightarrow> u32" where
  "estimate_next_trigger_risk s c =
     (let one_min_ratio = (if ec_one_minute_threshold c > 0
                           then mul_i128 (vw_volume (es_one_minute s)) 100 sdiv ec_one_minute_threshold c else 0);
          r1 = (if one_min_ratio > 80 then 5000 else if one_min_ratio > 60 then 3000 else 0);
          rate_ratio = (if ec_max_tips_per_minute c > 0 then rl_tips (es_rate s) * 100 div ec_max_tips_per_minute c else 0);
          r2 = (if rate_ratio > 80 then r1 + 3000 else r1);
          r3 = (case es_anomaly s of Some a \<Rightarrow> if ad_confidence a > 5000 then r2 + 2000 else r2 | None \<Rightarrow> r2) in
      min r3 10000)"

datatype status_code = StNormal | StWarning | StHalted | StEmergency | StMaintenance

definition get_system_status_code :: "enhanced_config \<Rightarrow> status_code" where
  "get_system_status_code c =
     (if ec_maintenance_mode c then StMaintenance else if ec_emergency_mode c then StEmergency
      else if \<not> ec_enabled c then StNormal else StNormal)"

definition get_halt_status_code :: "enhanced_state \<Rightarrow> enhanced_config \<Rightarrow> u64 \<Rightarrow> status_code" where
  "get_halt_status_code s c now =
     (if ec_maintenance_mode c then StMaintenance
      else if ec_emergency_mode c then StEmergency
      else if is_halted s now then StHalted
      else if estimate_next_trigger_risk s c > 7000 then StWarning else StNormal)"

definition validate_gas_estimates :: "u64 \<Rightarrow> u64 \<Rightarrow> u32 \<Rightarrow> bool" where
  "validate_gas_estimates estimated actual tolerance_percent =
     ((if actual < estimated then estimated - actual else actual - estimated) \<le> estimated * ucast tolerance_percent div 100)"

definition calibrate_estimates :: "u64 \<Rightarrow> u64 \<Rightarrow> u32 \<Rightarrow> u64" where
  "calibrate_estimates current actual alpha =
     sat_add_u64 (sat_mul_u64 actual (ucast alpha) div 10000) (sat_mul_u64 current (10000 - ucast alpha) div 10000)"

definition get_optimization_recommendations :: "enhanced_config \<Rightarrow> string list" where
  "get_optimization_recommendations c =
     (if ec_anomaly_detection_enabled c \<and> \<not> ec_pattern_analysis_enabled c then [''dis_anom''] else []) @
     (if ec_one_minute_threshold c < 1000 then [''inc_thrs''] else [])"

end
