(* ===== verification/Breaker_Guard.thy ===== *)
theory Breaker_Guard
  imports Breaker_Engine
begin

text \<open>
  The enhanced circuit breaker of the superseded tip jar, part two: its storage and the modules that read and write it
  (\<^verbatim>\<open>admin\<close>, \<^verbatim>\<open>manual_override\<close>, \<^verbatim>\<open>emergency_mode\<close>, \<^verbatim>\<open>query\<close>, \<^verbatim>\<open>batch_query\<close>, \<^verbatim>\<open>events\<close>, \<^verbatim>\<open>audit\<close>,
  \<^verbatim>\<open>periodic_status\<close>, \<^verbatim>\<open>cache\<close>, \<^verbatim>\<open>optimization\<close>, \<^verbatim>\<open>guard\<close>) and the two entry points of \<^verbatim>\<open>lib.rs\<close> that configure
  it. The guard returns its verdict together with the storage, because a refusal keeps what was written before it.
\<close>

section \<open>Storage and events\<close>

record volume_stats_result =
  vs_one_minute :: int
  vs_five_minute :: int
  vs_one_hour :: int
  vs_day :: int
  vs_one_minute_tips :: u32
  vs_five_minute_tips :: u32

datatype recovery_type = RecoverAutomatic | RecoverManualReset | RecoverManualForce | RecoverEmergencyOverride

datatype enhanced_event =
    TriggerEvent u64 trigger_type trigger_severity u64 "volume_stats_result option"
  | RecoveryEvent u64 recovery_type "address option" u64
  | ConfigEvent address enhanced_config
  | StatusEvent u64 trigger_type trigger_severity u64
  | AuditEvent symbol "address option" symbol u64
  | CreatorLimitEvent address int
  | CreatorLimitRemoved address
  | TokenLimitEvent address int
  | ManualTriggerEvent address string trigger_severity u64
  | ManualResetEvent address bool u64
  | HaltExtendedEvent address u64 u64
  | ModeEvent symbol address string
  | LibEvent symbol address

record audit_entry =
  ae_entry_id :: u64
  ae_timestamp :: u64
  ae_action :: symbol
  ae_admin :: "address option"
  ae_details :: symbol

record breaker_store =
  bs_config :: "enhanced_config option"
  bs_creator_limits :: "address \<rightharpoonup> int"
  bs_token_limits :: "address \<rightharpoonup> int"
  bs_cache_config :: "enhanced_config option"
  bs_cache_state :: "enhanced_state option"
  bs_cache_valid :: "bool option"
  bs_audit_counter :: "u64 option"
  bs_audit :: "u64 \<rightharpoonup> audit_entry"
  bs_last_status :: "u64 option"
  bs_admin :: "address option"
  bs_lib_config :: "enhanced_config option"
  bs_events :: "enhanced_event list"

definition publish_breaker :: "enhanced_event \<Rightarrow> breaker_store \<Rightarrow> breaker_store" where
  "publish_breaker ev st = st\<lparr>bs_events := bs_events st @ [ev]\<rparr>"

section \<open>Administration\<close>

definition set_enhanced_config ::
  "env \<Rightarrow> address \<Rightarrow> enhanced_config \<Rightarrow> breaker_store \<Rightarrow> (circuit_breaker_error, breaker_store) result" where
  "set_enhanced_config e admin c st =
     and_then (require_auth e admin) (\<lambda>_.
     case validate_config c of
       Inl err \<Rightarrow> fail err
     | Inr _ \<Rightarrow> Inr (publish_breaker (ConfigEvent admin c) (st\<lparr>bs_config := Some c\<rparr>)))"

definition set_creator_limit ::
  "env \<Rightarrow> address \<Rightarrow> address \<Rightarrow> int \<Rightarrow> breaker_store \<Rightarrow> (circuit_breaker_error, breaker_store) result" where
  "set_creator_limit e admin creator limit st =
     and_then (require_auth e admin) (\<lambda>_.
     if limit \<le> 0 then fail InvalidSingleTipThreshold
     else Inr (publish_breaker (CreatorLimitEvent creator limit)
       (st\<lparr>bs_creator_limits := (bs_creator_limits st)(creator \<mapsto> limit)\<rparr>)))"

definition remove_creator_limit ::
  "env \<Rightarrow> address \<Rightarrow> address \<Rightarrow> breaker_store \<Rightarrow> (circuit_breaker_error, breaker_store) result" where
  "remove_creator_limit e admin creator st =
     and_then (require_auth e admin) (\<lambda>_.
     Inr (publish_breaker (CreatorLimitRemoved creator)
       (st\<lparr>bs_creator_limits := (bs_creator_limits st)(creator := None)\<rparr>)))"

definition get_creator_limit :: "address \<Rightarrow> breaker_store \<Rightarrow> int option" where
  "get_creator_limit creator st = bs_creator_limits st creator"

definition set_token_limit ::
  "env \<Rightarrow> address \<Rightarrow> address \<Rightarrow> int \<Rightarrow> breaker_store \<Rightarrow> (circuit_breaker_error, breaker_store) result" where
  "set_token_limit e admin token limit st =
     and_then (require_auth e admin) (\<lambda>_.
     if limit \<le> 0 then fail InvalidSingleTipThreshold
     else Inr (publish_breaker (TokenLimitEvent token limit)
       (st\<lparr>bs_token_limits := (bs_token_limits st)(token \<mapsto> limit)\<rparr>)))"

definition get_token_limit :: "address \<Rightarrow> breaker_store \<Rightarrow> int option" where
  "get_token_limit token st = bs_token_limits st token"

section \<open>Manual overrides\<close>

text \<open>These work on a state the caller holds; storing it is the caller's business.\<close>

definition manual_trigger ::
  "env \<Rightarrow> address \<Rightarrow> enhanced_state \<Rightarrow> enhanced_config \<Rightarrow> string \<Rightarrow> trigger_severity \<Rightarrow> breaker_store \<Rightarrow>
   (circuit_breaker_error, enhanced_state \<times> breaker_store) result" where
  "manual_trigger e admin s c reason severity st =
     and_then (require_auth e admin) (\<lambda>_.
     let s' = activate_halt c ManualTrigger severity (timestamp e) s in
     Inr (s', publish_breaker (ManualTriggerEvent admin reason severity (es_halted_until s')) st))"

definition manual_reset ::
  "env \<Rightarrow> address \<Rightarrow> enhanced_state \<Rightarrow> bool \<Rightarrow> breaker_store \<Rightarrow>
   (circuit_breaker_error, enhanced_state \<times> breaker_store) result" where
  "manual_reset e admin s force st =
     and_then (require_auth e admin) (\<lambda>_.
     let now = timestamp e;
         min_elapsed = calculate_cooldown_period default_enhanced_config (es_halt_severity s) 0 0 0 div 2 in
     if \<not> force \<and> sat_sub_u64 now (es_last_trigger s) < min_elapsed then fail InvalidConfiguration
     else Inr (perform_automatic_recovery now s, publish_breaker (ManualResetEvent admin force now) st))"

definition manual_extend_halt ::
  "env \<Rightarrow> address \<Rightarrow> enhanced_state \<Rightarrow> u64 \<Rightarrow> breaker_store \<Rightarrow>
   (circuit_breaker_error, enhanced_state \<times> breaker_store) result" where
  "manual_extend_halt e admin s additional st =
     and_then (require_auth e admin) (\<lambda>_.
     case extend_halt additional (timestamp e) s of
       Inl err \<Rightarrow> fail err
     | Inr s' \<Rightarrow> Inr (s', publish_breaker (HaltExtendedEvent admin additional (es_halted_until s')) st))"

section \<open>Emergency and maintenance\<close>

definition set_mode ::
  "env \<Rightarrow> address \<Rightarrow> enhanced_config \<Rightarrow> symbol \<Rightarrow> string \<Rightarrow> breaker_store \<Rightarrow>
   (circuit_breaker_error, enhanced_config \<times> breaker_store) result" where
  "set_mode e admin c topic reason st =
     and_then (require_auth e admin) (\<lambda>_.
     Inr (c, publish_breaker (ModeEvent topic admin reason) (st\<lparr>bs_config := Some c\<rparr>)))"

definition enable_emergency_mode where
  "enable_emergency_mode e admin c reason = set_mode e admin (c\<lparr>ec_emergency_mode := True\<rparr>) ''cb_emerg'' reason"

definition disable_emergency_mode where
  "disable_emergency_mode e admin c = set_mode e admin (c\<lparr>ec_emergency_mode := False\<rparr>) ''cb_emoff'' []"

definition enable_maintenance_mode where
  "enable_maintenance_mode e admin c = set_mode e admin (c\<lparr>ec_maintenance_mode := True\<rparr>) ''cb_maint'' []"

definition disable_maintenance_mode where
  "disable_maintenance_mode e admin c = set_mode e admin (c\<lparr>ec_maintenance_mode := False\<rparr>) ''cb_mtoff'' []"

definition is_system_locked :: "enhanced_config \<Rightarrow> bool" where
  "is_system_locked c \<longleftrightarrow> ec_emergency_mode c \<or> ec_maintenance_mode c"

section \<open>Queries\<close>

record halt_status_result =
  hr_is_halted :: bool
  hr_halt_reason :: trigger_type
  hr_halt_severity :: trigger_severity
  hr_remaining_cooldown :: u64
  hr_halted_until :: u64

definition get_halt_status :: "env \<Rightarrow> enhanced_state \<Rightarrow> halt_status_result" where
  "get_halt_status e s =
     (case halt_status s (timestamp e) of (halted, reason, severity, remaining) \<Rightarrow>
      \<lparr>hr_is_halted = halted, hr_halt_reason = reason, hr_halt_severity = severity, hr_remaining_cooldown = remaining,
       hr_halted_until = es_halted_until s\<rparr>)"

definition get_volume_stats :: "enhanced_state \<Rightarrow> volume_stats_result" where
  "get_volume_stats s =
     \<lparr>vs_one_minute = vw_volume (es_one_minute s), vs_five_minute = vw_volume (es_five_minute s),
      vs_one_hour = vw_volume (es_one_hour s), vs_day = vw_volume (es_day s),
      vs_one_minute_tips = vw_tip_count (es_one_minute s), vs_five_minute_tips = vw_tip_count (es_five_minute s)\<rparr>"

definition get_anomaly_scores :: "enhanced_state \<Rightarrow> (u32 \<times> u32 \<times> u32 \<times> u32) option" where
  "get_anomaly_scores s =
     (case es_anomaly s of Some a \<Rightarrow> Some (ad_clustering a, ad_velocity a, ad_deviation a, ad_confidence a) | None \<Rightarrow> None)"

definition get_trigger_stats :: "enhanced_state \<Rightarrow> u32 \<times> u64 \<times> u32 \<times> u64" where
  "get_trigger_stats s = (es_trigger_count s, es_last_trigger s, es_total_halts s, es_total_halt_duration s)"

record entity_status =
  en_entity :: address
  en_has_limit :: bool
  en_limit :: "int option"
  en_status_code :: status_code

definition get_creator_status_batch :: "address list \<Rightarrow> enhanced_config \<Rightarrow> breaker_store \<Rightarrow> (address \<rightharpoonup> entity_status)" where
  "get_creator_status_batch creators c st =
     fold (\<lambda>creator results. results(creator \<mapsto>
       \<lparr>en_entity = creator, en_has_limit = get_creator_limit creator st \<noteq> None, en_limit = get_creator_limit creator st,
        en_status_code = get_system_status_code c\<rparr>)) creators Map.empty"

definition get_token_status_batch :: "address list \<Rightarrow> enhanced_config \<Rightarrow> breaker_store \<Rightarrow> (address \<rightharpoonup> entity_status)" where
  "get_token_status_batch tokens c st =
     fold (\<lambda>token results. results(token \<mapsto>
       \<lparr>en_entity = token, en_has_limit = get_token_limit token st \<noteq> None, en_limit = get_token_limit token st,
        en_status_code = get_system_status_code c\<rparr>)) tokens Map.empty"

section \<open>Audit trail\<close>

definition get_current_audit_id :: "breaker_store \<Rightarrow> u64" where
  "get_current_audit_id st = unwrap_or (bs_audit_counter st) 0"

definition get_next_audit_id :: "breaker_store \<Rightarrow> u64 \<times> breaker_store" where
  "get_next_audit_id st =
     (let next = sat_add_u64 (unwrap_or (bs_audit_counter st) 0) 1 in (next, st\<lparr>bs_audit_counter := Some next\<rparr>))"

definition record_audit_entry ::
  "env \<Rightarrow> symbol \<Rightarrow> address option \<Rightarrow> symbol \<Rightarrow> breaker_store \<Rightarrow> u64 \<times> breaker_store" where
  "record_audit_entry e action admin details st =
     (case get_next_audit_id st of (entry_id, st1) \<Rightarrow>
      (entry_id,
       publish_breaker (AuditEvent action admin details (timestamp e))
         (st1\<lparr>bs_audit := (bs_audit st1)(entry_id \<mapsto>
           \<lparr>ae_entry_id = entry_id, ae_timestamp = timestamp e, ae_action = action, ae_admin = admin,
            ae_details = details\<rparr>)\<rparr>)))"

definition get_recent_audit_entries :: "u32 \<Rightarrow> breaker_store \<Rightarrow> audit_entry list" where
  "get_recent_audit_entries limit st =
     (let current_id = get_current_audit_id st; start_id = sat_sub_u64 current_id (ucast limit) in
      List.map_filter (\<lambda>i. bs_audit st (of_nat i)) [unat start_id..<Suc (unat current_id)])"

definition validate_audit_integrity :: "breaker_store \<Rightarrow> bool" where
  "validate_audit_integrity st \<longleftrightarrow> get_current_audit_id st < 1000000"

section \<open>Periodic status\<close>

definition should_emit_status :: "env \<Rightarrow> enhanced_state \<Rightarrow> u64 \<Rightarrow> u64 \<Rightarrow> bool" where
  "should_emit_status e s last_status_time interval =
     (if \<not> is_halted s (timestamp e) then False else timestamp e \<ge> sat_add_u64 last_status_time interval)"

definition emit_periodic_status :: "env \<Rightarrow> enhanced_state \<Rightarrow> breaker_store \<Rightarrow> u64 \<times> breaker_store" where
  "emit_periodic_status e s st =
     (timestamp e,
      publish_breaker (StatusEvent (timestamp e) (es_halt_reason s) (es_halt_severity s) (remaining_cooldown s (timestamp e))) st)"

definition check_and_emit_status :: "env \<Rightarrow> enhanced_state \<Rightarrow> u64 option \<Rightarrow> breaker_store \<Rightarrow> breaker_store" where
  "check_and_emit_status e s interval st =
     (if should_emit_status e s (unwrap_or (bs_last_status st) 0) (unwrap_or interval 300)
      then case emit_periodic_status e s st of (new_time, st1) \<Rightarrow> st1\<lparr>bs_last_status := Some new_time\<rparr>
      else st)"

section \<open>Cache\<close>

definition is_cache_valid :: "breaker_store \<Rightarrow> bool" where
  "is_cache_valid st \<longleftrightarrow> unwrap_or (bs_cache_valid st) False"

definition update_config_cache :: "enhanced_config \<Rightarrow> breaker_store \<Rightarrow> breaker_store" where
  "update_config_cache c st = st\<lparr>bs_cache_config := Some c, bs_cache_valid := Some True\<rparr>"

definition invalidate_cache :: "breaker_store \<Rightarrow> breaker_store" where
  "invalidate_cache st = st\<lparr>bs_cache_valid := Some False\<rparr>"

definition get_cached_config :: "breaker_store \<Rightarrow> enhanced_config option \<times> breaker_store" where
  "get_cached_config st =
     (if is_cache_valid st \<and> bs_cache_config st \<noteq> None then (bs_cache_config st, st)
      else case bs_config st of
        Some c \<Rightarrow> (Some c, update_config_cache c st)
      | None \<Rightarrow> (None, st))"

definition update_state_cache :: "enhanced_state \<Rightarrow> breaker_store \<Rightarrow> breaker_store" where
  "update_state_cache s st = st\<lparr>bs_cache_state := Some s\<rparr>"

definition batch_update_volumes :: "env \<Rightarrow> enhanced_state \<Rightarrow> int \<Rightarrow> breaker_store \<Rightarrow> enhanced_state \<times> breaker_store" where
  "batch_update_volumes e s amount st =
     (let s' = update_all_windows amount (timestamp e) s in (s', update_state_cache s' st))"

section \<open>Checks\<close>

definition flush_batch :: "bool \<Rightarrow> enhanced_state \<Rightarrow> breaker_store \<Rightarrow> bool \<times> breaker_store" where
  "flush_batch pending s st = (if pending then (False, update_state_cache s st) else (pending, st))"

definition lazy_anomaly_check ::
  "env \<Rightarrow> enhanced_config \<Rightarrow> int \<Rightarrow> enhanced_state \<Rightarrow>
   ('e, (trigger_type \<times> trigger_severity) option \<times> enhanced_state) result" where
  "lazy_anomaly_check e c amount s =
     (if \<not> ec_anomaly_detection_enabled c then Inr (None, s)
      else and_then (update_anomaly_state amount (timestamp e) (es_anomaly s)) (\<lambda>a.
      Inr (check_anomaly_trigger a c, s\<lparr>es_anomaly := a\<rparr>)))"

definition optimized_check_sequence ::
  "env \<Rightarrow> enhanced_config \<Rightarrow> int \<Rightarrow> enhanced_state \<Rightarrow>
   ('e, (trigger_type \<times> trigger_severity) option \<times> enhanced_state) result" where
  "optimized_check_sequence e c amount s =
     (let now = timestamp e in
      if is_halted s now then Inr (Some (es_halt_reason s, es_halt_severity s), s)
      else if \<not> ec_enabled c then Inr (None, s)
      else case check_single_tip_spike c amount of
        Some severity \<Rightarrow> Inr (Some (SingleTipSpike, severity), s)
      | None \<Rightarrow>
          (case check_rate_limit_trigger c now s of (rate, s1) \<Rightarrow>
           case rate of
             Some trigger \<Rightarrow> Inr (Some trigger, s1)
           | None \<Rightarrow>
               (case check_all_volume_thresholds s1 c now of
                  Some trigger \<Rightarrow> Inr (Some trigger, s1)
                | None \<Rightarrow> lazy_anomaly_check e c amount s1)))"

definition batch_state_updates :: "env \<Rightarrow> enhanced_state \<Rightarrow> int \<Rightarrow> breaker_store \<Rightarrow> enhanced_state \<times> breaker_store" where
  "batch_state_updates e s amount st =
     (let s1 = update_all_windows amount (timestamp e) s;
          s2 = s1\<lparr>es_rate := update_rate_limit_state (timestamp e) (es_rate s1)\<rparr> in
      (s2, update_state_cache s2 st))"

section \<open>The guard\<close>

definition recover_if_due :: "env \<Rightarrow> enhanced_state \<times> breaker_store \<Rightarrow> enhanced_state \<times> breaker_store" where
  "recover_if_due e = (\<lambda>(s, st).
     if check_automatic_recovery s (timestamp e)
     then let s' = perform_automatic_recovery (timestamp e) s in
          (s', publish_breaker (RecoveryEvent (get_current_audit_id st) RecoverAutomatic None (es_total_halt_duration s')) st)
     else (s, st))"

definition record_trigger ::
  "env \<Rightarrow> enhanced_config \<Rightarrow> trigger_type \<Rightarrow> trigger_severity \<Rightarrow> enhanced_state \<Rightarrow> breaker_store \<Rightarrow> breaker_store" where
  "record_trigger e c trigger severity s st =
     (let s' = activate_halt c trigger severity (timestamp e) s;
          st1 = publish_breaker (TriggerEvent (ucast (es_trigger_count s')) trigger severity
                  (es_halted_until s' - timestamp e) (Some (get_volume_stats s'))) st in
      update_state_cache s' (snd (record_audit_entry e ''trigger'' None ''auto'' st1)))"

definition guard_check ::
  "env \<Rightarrow> int \<Rightarrow> breaker_store \<Rightarrow> (circuit_breaker_error, (circuit_breaker_error + unit) \<times> breaker_store) result" where
  "guard_check e amount st =
     (case get_cached_config st of
        (None, st0) \<Rightarrow> Inr (Inr (), st0)
      | (Some c, st0) \<Rightarrow>
          if \<not> ec_enabled c then Inr (Inr (), st0)
          else
          (case recover_if_due e (unwrap_or (bs_cache_state st0) (new_enhanced_state (timestamp e)), st0) of (s, st1) \<Rightarrow>
          if should_block_operations s c (timestamp e)
          then Inr (Inl InvalidConfiguration, check_and_emit_status e s None st1)
          else
          and_then (optimized_check_sequence e c amount s) (\<lambda>(found, s1).
          case found of
            Some (trigger, severity) \<Rightarrow> Inr (Inl InvalidConfiguration, record_trigger e c trigger severity s1 st1)
          | None \<Rightarrow> Inr (Inr (), snd (batch_state_updates e s1 amount st1)))))"

definition initialize_circuit_breaker :: "env \<Rightarrow> address \<Rightarrow> breaker_store \<Rightarrow> (circuit_breaker_error, breaker_store) result" where
  "initialize_circuit_breaker e admin st =
     and_then (require_auth e admin) (\<lambda>_.
     Inr (publish_breaker (ConfigEvent admin default_enhanced_config)
       (update_state_cache (new_enhanced_state (timestamp e)) (update_config_cache default_enhanced_config st))))"

definition breaker_get_status :: "env \<Rightarrow> breaker_store \<Rightarrow> halt_status_result" where
  "breaker_get_status e st = get_halt_status e (unwrap_or (bs_cache_state st) (new_enhanced_state (timestamp e)))"

section \<open>Entry points of the contract\<close>

datatype lib_breaker_error = BreakerUnauthorized | EnhancedCircuitBreakerError

definition lib_admin_check :: "env \<Rightarrow> address \<Rightarrow> breaker_store \<Rightarrow> (lib_breaker_error, unit) result" where
  "lib_admin_check e admin st =
     and_then (require_auth e admin) (\<lambda>_.
     case bs_admin st of
       None \<Rightarrow> Inl Trapped
     | Some stored \<Rightarrow> if admin \<noteq> stored then fail BreakerUnauthorized else Inr ())"

definition set_enhanced_cb_config ::
  "env \<Rightarrow> address \<Rightarrow> enhanced_config \<Rightarrow> breaker_store \<Rightarrow> (lib_breaker_error, breaker_store) result" where
  "set_enhanced_cb_config e admin c st =
     and_then (lib_admin_check e admin st) (\<lambda>_.
     case validate_config c of
       Inl _ \<Rightarrow> fail EnhancedCircuitBreakerError
     | Inr _ \<Rightarrow> Inr (publish_breaker (LibEvent ''cb_cfg'' admin) (st\<lparr>bs_lib_config := Some c\<rparr>)))"

definition init_enhanced_cb :: "env \<Rightarrow> address \<Rightarrow> breaker_store \<Rightarrow> (lib_breaker_error, breaker_store) result" where
  "init_enhanced_cb e admin st =
     and_then (lib_admin_check e admin st) (\<lambda>_.
     if bs_lib_config st \<noteq> None then Inr st
     else Inr (publish_breaker (LibEvent ''cb_init'' admin) (st\<lparr>bs_lib_config := Some default_enhanced_config\<rparr>)))"

end
