(* ===== verification/Breaker_Safety.thy ===== *)
theory Breaker_Safety
  imports Breaker_Guard
begin

text \<open>
  What the enhanced circuit breaker of the superseded tip jar guarantees: the length of a halt and what it refuses, the
  recovery after it, and the bound on the volume of every window over arbitrary sequences of calls.
\<close>

section \<open>Cooldowns\<close>

lemma validate_config_Inr_iff:
  "validate_config c = Inr u \<longleftrightarrow>
     0 < ec_max_single_tip c \<and> 0 < ec_one_minute_threshold c \<and> ec_one_minute_threshold c \<le> ec_five_minute_threshold c \<and>
     ec_five_minute_threshold c \<le> ec_one_hour_threshold c \<and> ec_one_hour_threshold c \<le> ec_twenty_four_hour_threshold c \<and>
     ec_max_tips_per_minute c \<noteq> 0 \<and> ec_max_tips_per_creator_per_min c \<noteq> 0 \<and> ec_anomaly_confidence_threshold c \<le> 10000 \<and>
     ec_base_cooldown_seconds c \<noteq> 0 \<and> ec_base_cooldown_seconds c \<le> ec_max_cooldown_seconds c \<and>
     (ec_exponential_backoff_enabled c \<longrightarrow> 10000 < ec_backoff_multiplier c)"
  by (auto simp: validate_config_def not_le not_less split: if_splits)

lemma calculate_cooldown_bounds:
  assumes "ec_base_cooldown_seconds c \<le> ec_max_cooldown_seconds c"
  shows "ec_base_cooldown_seconds c \<le> calculate_cooldown c severity n" "calculate_cooldown c severity n \<le> ec_max_cooldown_seconds c"
  using assms by (simp_all add: calculate_cooldown_def Let_def)

lemma trigger_immediate_is_activate: "trigger_immediate_halt s c trigger severity now = activate_halt c trigger severity now s"
  by (simp add: trigger_immediate_halt_def activate_halt_def)

lemma activate_halt_simps [simp]:
  "es_halted_until (activate_halt c trigger severity now s) = sat_add_u64 now (calculate_cooldown c severity (es_trigger_count s))"
  "es_anomaly (activate_halt c trigger severity now s) = es_anomaly s"
  "es_one_minute (activate_halt c trigger severity now s) = es_one_minute s"
  "es_five_minute (activate_halt c trigger severity now s) = es_five_minute s"
  "es_one_hour (activate_halt c trigger severity now s) = es_one_hour s"
  "es_day (activate_halt c trigger severity now s) = es_day s"
  by (simp_all add: activate_halt_def Let_def)

section \<open>What the guard leaves alone\<close>

lemma publish_breaker_simps [simp]:
  "bs_config (publish_breaker ev st) = bs_config st"
  "bs_cache_config (publish_breaker ev st) = bs_cache_config st"
  "bs_cache_valid (publish_breaker ev st) = bs_cache_valid st"
  "bs_cache_state (publish_breaker ev st) = bs_cache_state st"
  by (simp_all add: publish_breaker_def)

lemma check_and_emit_status_simps [simp]:
  "bs_cache_config (check_and_emit_status e s i st) = bs_cache_config st"
  "bs_cache_valid (check_and_emit_status e s i st) = bs_cache_valid st"
  "bs_cache_state (check_and_emit_status e s i st) = bs_cache_state st"
  by (simp_all add: check_and_emit_status_def emit_periodic_status_def)

lemma record_trigger_simps [simp]:
  "bs_cache_config (record_trigger e c trigger severity s st) = bs_cache_config st"
  "bs_cache_valid (record_trigger e c trigger severity s st) = bs_cache_valid st"
  "bs_cache_state (record_trigger e c trigger severity s st) = Some (activate_halt c trigger severity (timestamp e) s)"
  by (simp_all add: record_trigger_def Let_def update_state_cache_def record_audit_entry_def get_next_audit_id_def)

lemma recover_if_due_store [simp]:
  "bs_cache_config (snd (recover_if_due e (s, st))) = bs_cache_config st"
  "bs_cache_valid (snd (recover_if_due e (s, st))) = bs_cache_valid st"
  "bs_cache_state (snd (recover_if_due e (s, st))) = bs_cache_state st"
  by (simp_all add: recover_if_due_def Let_def)

lemma fst_recover_if_due:
  "fst (recover_if_due e (s, st)) =
     (if check_automatic_recovery s (timestamp e) then perform_automatic_recovery (timestamp e) s else s)"
  by (simp add: recover_if_due_def Let_def)

lemma batch_state_updates_store [simp]:
  "bs_cache_config (snd (batch_state_updates e s amount st)) = bs_cache_config st"
  "bs_cache_valid (snd (batch_state_updates e s amount st)) = bs_cache_valid st"
  "bs_cache_state (snd (batch_state_updates e s amount st)) =
     Some ((update_all_windows amount (timestamp e) s)\<lparr>es_rate := update_rate_limit_state (timestamp e) (es_rate s)\<rparr>)"
  by (simp_all add: batch_state_updates_def Let_def update_state_cache_def update_all_windows_def)

section \<open>One call of the guard\<close>

text \<open>The configuration \<open>c\<close> is the one the cache serves, and \<open>s\<close> the state it holds.\<close>

definition serves :: "enhanced_config \<Rightarrow> breaker_store \<Rightarrow> bool" where
  "serves c st \<longleftrightarrow> is_cache_valid st \<and> bs_cache_config st = Some c"

lemma serves_cong: "bs_cache_config st' = bs_cache_config st \<Longrightarrow> bs_cache_valid st' = bs_cache_valid st \<Longrightarrow> serves c st' = serves c st"
  by (simp add: serves_def is_cache_valid_def)

lemma get_cached_config_serves [simp]: "serves c st \<Longrightarrow> get_cached_config st = (Some c, st)"
  by (simp add: serves_def get_cached_config_def)

text \<open>Without the statistics that nothing creates, the check sequence cannot abort.\<close>

lemma optimized_check_sequence_plain:
  assumes "es_anomaly s = None" "\<not> is_halted s (timestamp e)" "ec_enabled c"
  shows "optimized_check_sequence e c amount s =
    (if amount > ec_max_single_tip c then Inr (Some (SingleTipSpike, HighSeverity), s)
     else
     let s1 = s\<lparr>es_rate := update_rate_limit_state (timestamp e) (es_rate s)\<rparr> in
     if check_global_rate_limit (es_rate s1) c (timestamp e) then Inr (Some (RateLimit, MediumSeverity), s1)
     else Inr (check_all_volume_thresholds s c (timestamp e), s1))"
  using assms
  by (simp add: optimized_check_sequence_def check_single_tip_spike_def check_rate_limit_trigger_def Let_def
      lazy_anomaly_check_def update_anomaly_state_def check_anomaly_trigger_def check_all_volume_thresholds_def)

text \<open>The state a call starts from, after the automatic recovery.\<close>

definition guard_state :: "env \<Rightarrow> breaker_store \<Rightarrow> enhanced_state" where
  "guard_state e st =
     (let s = unwrap_or (bs_cache_state st) (new_enhanced_state (timestamp e)) in
      if check_automatic_recovery s (timestamp e) then perform_automatic_recovery (timestamp e) s else s)"

lemma guard_check_enabled:
  assumes "serves c st" "ec_enabled c"
  obtains st1 where
    "bs_cache_config st1 = bs_cache_config st" "bs_cache_valid st1 = bs_cache_valid st" "bs_cache_state st1 = bs_cache_state st"
    "guard_check e amount st =
       (if should_block_operations (guard_state e st) c (timestamp e)
        then Inr (Inl InvalidConfiguration, check_and_emit_status e (guard_state e st) None st1)
        else and_then (optimized_check_sequence e c amount (guard_state e st)) (\<lambda>(found, s1).
          case found of
            Some (trigger, severity) \<Rightarrow> Inr (Inl InvalidConfiguration, record_trigger e c trigger severity s1 st1)
          | None \<Rightarrow> Inr (Inr (), snd (batch_state_updates e s1 amount st1))))"
proof -
  let ?p = "recover_if_due e (unwrap_or (bs_cache_state st) (new_enhanced_state (timestamp e)), st)"
  obtain s1 st1 where p: "?p = (s1, st1)" by (cases ?p)
  have s1: "s1 = guard_state e st"
    using arg_cong [OF p, of fst] by (simp add: fst_recover_if_due guard_state_def Let_def)
  have kept: "bs_cache_config st1 = bs_cache_config st" "bs_cache_valid st1 = bs_cache_valid st" "bs_cache_state st1 = bs_cache_state st"
    using recover_if_due_store [where e = e and st = st and s = "unwrap_or (bs_cache_state st) (new_enhanced_state (timestamp e))"]
    by (simp_all add: p)
  show ?thesis
    by (rule that [OF kept]) (use assms in \<open>simp add: guard_check_def p flip: s1\<close>)
qed


section \<open>A halt\<close>

text \<open>A state without statistics whose windows respect the configuration up to one tip.\<close>

definition window_within :: "int \<Rightarrow> int \<Rightarrow> volume_window \<Rightarrow> bool" where
  "window_within threshold tip w \<longleftrightarrow> 0 \<le> vw_volume w \<and> vw_volume w \<le> threshold + tip"

definition state_within :: "enhanced_config \<Rightarrow> enhanced_state \<Rightarrow> bool" where
  "state_within c s \<longleftrightarrow>
     window_within (ec_one_minute_threshold c) (ec_max_single_tip c) (es_one_minute s) \<and>
     window_within (ec_five_minute_threshold c) (ec_max_single_tip c) (es_five_minute s) \<and>
     window_within (ec_one_hour_threshold c) (ec_max_single_tip c) (es_one_hour s) \<and>
     window_within (ec_twenty_four_hour_threshold c) (ec_max_single_tip c) (es_day s)"

definition plain_state :: "breaker_store \<Rightarrow> bool" where
  "plain_state st \<longleftrightarrow> (case bs_cache_state st of None \<Rightarrow> True | Some s \<Rightarrow> es_anomaly s = None)"

lemma perform_automatic_recovery_simps [simp]:
  "es_halted_until (perform_automatic_recovery now s) = 0"
  "es_anomaly (perform_automatic_recovery now s) = es_anomaly s"
  "es_one_minute (perform_automatic_recovery now s) = empty_window now"
  "es_five_minute (perform_automatic_recovery now s) = empty_window now"
  "es_one_hour (perform_automatic_recovery now s) = empty_window now"
  "es_day (perform_automatic_recovery now s) = empty_window now"
  "es_rate (perform_automatic_recovery now s) = \<lparr>rl_minute_start = now, rl_tips = 0\<rparr>"
  by (simp_all add: perform_automatic_recovery_def reset_rate_limit_state_def reset_volume_counters_def)

lemma guard_state_plain: "plain_state st \<Longrightarrow> es_anomaly (guard_state e st) = None"
  by (cases "bs_cache_state st") (simp_all add: guard_state_def plain_state_def Let_def new_enhanced_state_def)

text \<open>A call on a breaker that is not halted either records the tip or halts for a bounded time.\<close>

lemma guard_check_open:
  assumes "serves c st" "ec_enabled c" "\<not> ec_maintenance_mode c" "plain_state st" "\<not> is_halted (guard_state e st) (timestamp e)"
  obtains (accepted) st1 where
      "guard_check e amount st = Inr (Inr (), st1)"
      "amount \<le> ec_max_single_tip c" "check_all_volume_thresholds (guard_state e st) c (timestamp e) = None"
      "bs_cache_config st1 = bs_cache_config st" "bs_cache_valid st1 = bs_cache_valid st"
      "bs_cache_state st1 = Some ((update_all_windows amount (timestamp e) (guard_state e st))\<lparr>es_rate :=
         update_rate_limit_state (timestamp e) (update_rate_limit_state (timestamp e) (es_rate (guard_state e st)))\<rparr>)"
  | (halted) st1 trigger severity s1 where
      "guard_check e amount st = Inr (Inl InvalidConfiguration, st1)"
      "ec_max_single_tip c < amount \<or> check_all_volume_thresholds (guard_state e st) c (timestamp e) \<noteq> None \<or>
       check_global_rate_limit (update_rate_limit_state (timestamp e) (es_rate (guard_state e st))) c (timestamp e)"
      "bs_cache_config st1 = bs_cache_config st" "bs_cache_valid st1 = bs_cache_valid st"
      "bs_cache_state st1 = Some (activate_halt c trigger severity (timestamp e) s1)"
      "\<exists>r. s1 = (guard_state e st)\<lparr>es_rate := r\<rparr>"
proof -
  let ?s = "guard_state e st" and ?now = "timestamp e"
  obtain st0 where st0: "bs_cache_config st0 = bs_cache_config st" "bs_cache_valid st0 = bs_cache_valid st"
    "bs_cache_state st0 = bs_cache_state st"
    and run: "guard_check e amount st =
       (if should_block_operations ?s c ?now
        then Inr (Inl InvalidConfiguration, check_and_emit_status e ?s None st0)
        else and_then (optimized_check_sequence e c amount ?s) (\<lambda>(found, s1).
          case found of
            Some (trigger, severity) \<Rightarrow> Inr (Inl InvalidConfiguration, record_trigger e c trigger severity s1 st0)
          | None \<Rightarrow> Inr (Inr (), snd (batch_state_updates e s1 amount st0))))"
    by (rule guard_check_enabled [OF assms(1,2)])
  have "\<not> should_block_operations ?s c ?now" using assms by (simp add: should_block_operations_def)
  note run' = run [unfolded if_not_P [OF this] optimized_check_sequence_plain [OF guard_state_plain [OF assms(4)] assms(5,2)]]
  let ?s1 = "?s\<lparr>es_rate := update_rate_limit_state ?now (es_rate ?s)\<rparr>"
  consider (spike) "ec_max_single_tip c < amount"
    | (rate) "\<not> ec_max_single_tip c < amount" "check_global_rate_limit (es_rate ?s1) c ?now"
    | (volume) "\<not> ec_max_single_tip c < amount" "\<not> check_global_rate_limit (es_rate ?s1) c ?now"
        "check_all_volume_thresholds ?s c ?now \<noteq> None"
    | (fine) "\<not> ec_max_single_tip c < amount" "\<not> check_global_rate_limit (es_rate ?s1) c ?now"
        "check_all_volume_thresholds ?s c ?now = None"
    by blast
  then show ?thesis
  proof cases
    case spike
    show ?thesis
    proof (rule halted [of "record_trigger e c SingleTipSpike HighSeverity ?s st0"])
      show "guard_check e amount st = Inr (Inl InvalidConfiguration, record_trigger e c SingleTipSpike HighSeverity ?s st0)"
        using run' spike by simp
      show "\<exists>r. ?s = ?s\<lparr>es_rate := r\<rparr>" by (rule exI [of _ "es_rate ?s"]) simp
    qed (use spike st0 in simp_all)
  next
    case rate
    show ?thesis
      by (rule halted [of "record_trigger e c RateLimit MediumSeverity ?s1 st0"]) (use run' rate st0 in \<open>auto simp: Let_def\<close>)
  next
    case volume
    then obtain trigger severity where t: "check_all_volume_thresholds ?s c ?now = Some (trigger, severity)" by auto
    show ?thesis
      by (rule halted [of "record_trigger e c trigger severity ?s1 st0"]) (use run' volume st0 t in \<open>auto simp: Let_def\<close>)
  next
    case fine
    show ?thesis
      by (rule accepted [of "snd (batch_state_updates e ?s1 amount st0)"])
        (use run' fine st0 in \<open>simp_all add: Let_def update_all_windows_def\<close>)
  qed
qed


section \<open>Refusal while halted, recovery afterwards\<close>

primrec guard_run ::
  "(env \<times> int) list \<Rightarrow> breaker_store \<Rightarrow> (circuit_breaker_error, (circuit_breaker_error + unit) list \<times> breaker_store) result"
where
  "guard_run [] st = Inr ([], st)"
| "guard_run (call # calls) st =
     and_then (guard_check (fst call) (snd call) st) (\<lambda>(verdict, st1).
     and_then (guard_run calls st1) (\<lambda>(verdicts, st2). Inr (verdict # verdicts, st2)))"

lemma guard_refuses_while_halted:
  assumes "serves c st" "ec_enabled c" "bs_cache_state st = Some s" "timestamp e < es_halted_until s"
  obtains st1 where "guard_check e amount st = Inr (Inl InvalidConfiguration, st1)" "serves c st1"
    "bs_cache_state st1 = Some s"
proof -
  have s: "guard_state e st = s"
    using assms by (auto simp: guard_state_def check_automatic_recovery_def Let_def)
  have blocked: "should_block_operations s c (timestamp e)"
    using assms by (simp add: should_block_operations_def is_halted_def)
  obtain st1 where st1: "bs_cache_config st1 = bs_cache_config st" "bs_cache_valid st1 = bs_cache_valid st"
      "bs_cache_state st1 = bs_cache_state st"
    and run: "guard_check e amount st =
       (if should_block_operations (guard_state e st) c (timestamp e)
        then Inr (Inl InvalidConfiguration, check_and_emit_status e (guard_state e st) None st1)
        else and_then (optimized_check_sequence e c amount (guard_state e st)) (\<lambda>(found, s1).
          case found of
            Some (trigger, severity) \<Rightarrow> Inr (Inl InvalidConfiguration, record_trigger e c trigger severity s1 st1)
          | None \<Rightarrow> Inr (Inr (), snd (batch_state_updates e s1 amount st1))))"
    by (rule guard_check_enabled [OF assms(1,2)])
  show ?thesis
    by (rule that [of "check_and_emit_status e s None st1"])
      (use run s blocked st1 assms in \<open>simp_all add: serves_def is_cache_valid_def\<close>)
qed

lemma guard_run_refuses_while_halted:
  assumes "ec_enabled c" "\<forall>call \<in> set calls. timestamp (fst call) < es_halted_until s"
    and "serves c st" "bs_cache_state st = Some s"
  shows "\<exists>st1. guard_run calls st = Inr (replicate (length calls) (Inl InvalidConfiguration), st1) \<and> serves c st1 \<and>
    bs_cache_state st1 = Some s"
  using assms(2-4)
proof (induction calls arbitrary: st)
  case (Cons call calls)
  obtain st1 where one: "guard_check (fst call) (snd call) st = Inr (Inl InvalidConfiguration, st1)" "serves c st1"
    "bs_cache_state st1 = Some s"
    by (rule guard_refuses_while_halted [OF Cons.prems(2) assms(1) Cons.prems(3)]) (use Cons.prems(1) in auto)
  then show ?case using Cons.IH [OF _ one(2,3)] Cons.prems(1) by auto
qed simp

lemma empty_window_volume [simp]: "vw_volume (empty_window now) = 0" "vw_start (empty_window now) = now"
  by (simp_all add: empty_window_def)

lemma check_volume_threshold_empty [simp]: "0 \<le> threshold \<Longrightarrow> \<not> check_volume_threshold (empty_window now) threshold now' d"
  by (simp add: check_volume_threshold_def)

lemma update_volume_window_fresh:
  "in_i128 amount \<Longrightarrow> vw_volume (update_volume_window amount now d (empty_window now)) = amount"
  by (simp add: update_volume_window_def)

text \<open>The first call after the halt is over restarts every counter and, if its own tip is not too large, is let through.\<close>

lemma guard_recovers:
  assumes "serves c st" "ec_enabled c" "\<not> ec_maintenance_mode c" "validate_config c = Inr ()"
    and "bs_cache_state st = Some s" "es_anomaly s = None" "0 < es_halted_until s" "es_halted_until s \<le> timestamp e"
    and "amount \<le> ec_max_single_tip c" "in_i128 amount"
  obtains st1 s1 where "guard_check e amount st = Inr (Inr (), st1)" "bs_cache_state st1 = Some s1"
    "es_halted_until s1 = 0" "get_volume_stats s1 = \<lparr>vs_one_minute = amount, vs_five_minute = amount, vs_one_hour = amount,
       vs_day = amount, vs_one_minute_tips = 1, vs_five_minute_tips = 1\<rparr>"
proof -
  note ok = assms(4) [unfolded validate_config_Inr_iff]
  have g: "guard_state e st = perform_automatic_recovery (timestamp e) s"
    using assms by (simp add: guard_state_def check_automatic_recovery_def)
  have plain: "plain_state st" using assms by (simp add: plain_state_def)
  have calm: "\<not> is_halted (guard_state e st) (timestamp e)" by (simp add: g is_halted_def)
  have volumes: "check_all_volume_thresholds (guard_state e st) c (timestamp e) = None"
    using ok by (simp add: g check_all_volume_thresholds_def)
  have rate: "\<not> check_global_rate_limit (update_rate_limit_state (timestamp e) (es_rate (guard_state e st))) c (timestamp e)"
  proof -
    have "\<not> ec_max_tips_per_minute c < 1" using ok by (simp add: word_less_1)
    then show ?thesis
      by (auto simp: g check_global_rate_limit_def update_rate_limit_state_def sat_add_u32_def)
  qed
  show ?thesis
  proof (cases rule: guard_check_open [OF assms(1-3) plain calm, of amount])
    case accepted: (1 st1)
    have tips: "vw_tip_count (update_volume_window amount (timestamp e) d (empty_window (timestamp e))) = 1" for d
      by (simp add: update_volume_window_def empty_window_def sat_add_u32_def)
    show ?thesis
      by (rule that [OF accepted(1) accepted(6)])
        (use assms(10) tips in \<open>simp_all add: g update_all_windows_def get_volume_stats_def update_volume_window_fresh\<close>)
  next
    case halted: (2 st1 trigger severity s1)
    then show ?thesis using volumes rate assms(9) by simp
  qed
qed


section \<open>Every call on the store\<close>

text \<open>
  The operations of the breaker that write its storage. An operation that aborts or returns an error changes nothing; the
  guard keeps what it wrote. The overrides of \<^verbatim>\<open>manual_override\<close> and \<^verbatim>\<open>batch_update_volumes\<close> work on a state the
  caller supplies and are not among them.
\<close>

datatype breaker_call =
    CheckTip env int
  | SetConfig env address enhanced_config
  | SetCreatorLimit env address address int
  | RemoveCreatorLimit env address address
  | SetTokenLimit env address address int
  | EnableEmergency env address enhanced_config string
  | DisableEmergency env address enhanced_config
  | EnableMaintenance env address enhanced_config
  | DisableMaintenance env address enhanced_config
  | RecordAudit env symbol "address option" symbol
  | Initialize env address
  | LibSetConfig env address enhanced_config
  | LibInit env address

definition after_call :: "'a \<Rightarrow> ('b + 'a) \<Rightarrow> 'a" where
  "after_call st r = (case r of Inl _ \<Rightarrow> st | Inr st' \<Rightarrow> st')"

fun enhanced_step :: "breaker_call \<Rightarrow> breaker_store \<Rightarrow> breaker_store" where
  "enhanced_step (CheckTip e amount) st = (case guard_check e amount st of Inl _ \<Rightarrow> st | Inr (_, st') \<Rightarrow> st')"
| "enhanced_step (SetConfig e admin c) st = after_call st (set_enhanced_config e admin c st)"
| "enhanced_step (SetCreatorLimit e admin creator limit) st = after_call st (set_creator_limit e admin creator limit st)"
| "enhanced_step (RemoveCreatorLimit e admin creator) st = after_call st (remove_creator_limit e admin creator st)"
| "enhanced_step (SetTokenLimit e admin token limit) st = after_call st (set_token_limit e admin token limit st)"
| "enhanced_step (EnableEmergency e admin c reason) st =
     (case enable_emergency_mode e admin c reason st of Inl _ \<Rightarrow> st | Inr (_, st') \<Rightarrow> st')"
| "enhanced_step (DisableEmergency e admin c) st =
     (case disable_emergency_mode e admin c st of Inl _ \<Rightarrow> st | Inr (_, st') \<Rightarrow> st')"
| "enhanced_step (EnableMaintenance e admin c) st =
     (case enable_maintenance_mode e admin c st of Inl _ \<Rightarrow> st | Inr (_, st') \<Rightarrow> st')"
| "enhanced_step (DisableMaintenance e admin c) st =
     (case disable_maintenance_mode e admin c st of Inl _ \<Rightarrow> st | Inr (_, st') \<Rightarrow> st')"
| "enhanced_step (RecordAudit e action admin details) st = snd (record_audit_entry e action admin details st)"
| "enhanced_step (Initialize e admin) st = after_call st (initialize_circuit_breaker e admin st)"
| "enhanced_step (LibSetConfig e admin c) st = after_call st (set_enhanced_cb_config e admin c st)"
| "enhanced_step (LibInit e admin) st = after_call st (init_enhanced_cb e admin st)"

definition enhanced_run :: "breaker_call list \<Rightarrow> breaker_store \<Rightarrow> breaker_store" where
  "enhanced_run calls st = fold enhanced_step calls st"

definition tips_in_range :: "breaker_call \<Rightarrow> bool" where
  "tips_in_range call = (case call of CheckTip e amount \<Rightarrow> 0 \<le> amount | _ \<Rightarrow> True)"

text \<open>Only the guard and the initialisation touch the cache.\<close>

definition same_cache :: "breaker_store \<Rightarrow> breaker_store \<Rightarrow> bool" where
  "same_cache st st' \<longleftrightarrow> bs_cache_config st' = bs_cache_config st \<and> bs_cache_valid st' = bs_cache_valid st \<and>
     bs_cache_state st' = bs_cache_state st"

lemmas breaker_admin_defs = set_enhanced_config_def set_creator_limit_def remove_creator_limit_def set_token_limit_def
  enable_emergency_mode_def disable_emergency_mode_def enable_maintenance_mode_def disable_maintenance_mode_def set_mode_def
  set_enhanced_cb_config_def init_enhanced_cb_def record_audit_entry_def get_next_audit_id_def Let_def

lemma other_calls_same_cache:
  assumes "\<And>e amount. call \<noteq> CheckTip e amount" "\<And>e admin. call \<noteq> Initialize e admin"
  shows "same_cache st (enhanced_step call st)"
  using assms
  by (cases call)
    (auto simp: breaker_admin_defs lib_admin_check_def after_call_def and_then_def require_auth_def same_cache_def fail_def
      split: sum.splits option.splits)

section \<open>Window bounds\<close>

lemma window_within_empty [simp]: "0 \<le> threshold \<Longrightarrow> 0 \<le> tip \<Longrightarrow> window_within threshold tip (empty_window now)"
  by (simp add: window_within_def)

lemma window_within_update:
  assumes "window_within threshold tip w" "\<not> check_volume_threshold w threshold now d" "0 \<le> amount" "amount \<le> tip" "0 \<le> threshold"
  shows "window_within threshold tip (update_volume_window amount now d w)"
  using assms
  by (auto simp: window_within_def check_volume_threshold_def update_volume_window_def sat_i128_def I128_MIN_def I128_MAX_def
      not_le split: if_splits)

lemma check_all_volume_thresholds_None_iff:
  "check_all_volume_thresholds s c now = None \<longleftrightarrow>
     \<not> check_volume_threshold (es_one_minute s) (ec_one_minute_threshold c) now 60 \<and>
     \<not> check_volume_threshold (es_five_minute s) (ec_five_minute_threshold c) now 300 \<and>
     \<not> check_volume_threshold (es_one_hour s) (ec_one_hour_threshold c) now 3600 \<and>
     \<not> check_volume_threshold (es_day s) (ec_twenty_four_hour_threshold c) now 86400"
  by (simp add: check_all_volume_thresholds_def)

definition governed :: "enhanced_config \<Rightarrow> breaker_store \<Rightarrow> bool" where
  "governed c st \<longleftrightarrow> serves c st \<and> (case bs_cache_state st of None \<Rightarrow> True | Some s \<Rightarrow> state_within c s \<and> es_anomaly s = None)"

lemma governed_same_cache: "same_cache st st' \<Longrightarrow> governed c st' = governed c st"
  by (simp add: same_cache_def governed_def serves_def is_cache_valid_def)

lemma guard_state_within:
  assumes "governed c st" "validate_config c = Inr ()"
  shows "state_within c (guard_state e st)"
  using assms
  by (auto simp: governed_def guard_state_def state_within_def validate_config_Inr_iff new_enhanced_state_def Let_def
      split: option.splits)

lemma governed_check:
  assumes gov: "governed c st" and cfg: "validate_config c = Inr ()" "ec_enabled c" "\<not> ec_maintenance_mode c" and "0 \<le> amount"
  obtains v st1 where "guard_check e amount st = Inr (v, st1)" "governed c st1"
proof (cases "is_halted (guard_state e st) (timestamp e)")
  case True
  have "\<not> is_halted (perform_automatic_recovery (timestamp e) s) (timestamp e)" for s by (simp add: is_halted_def)
  moreover have "\<not> is_halted (new_enhanced_state (timestamp e)) (timestamp e)" by (simp add: is_halted_def new_enhanced_state_def)
  ultimately obtain s where s: "bs_cache_state st = Some s" "is_halted s (timestamp e)"
    using True by (cases "bs_cache_state st") (auto simp: guard_state_def Let_def split: if_splits)
  obtain st1 where "guard_check e amount st = Inr (Inl InvalidConfiguration, st1)" "serves c st1"
    "bs_cache_state st1 = Some s"
    by (rule guard_refuses_while_halted [OF _ cfg(2) s(1)]) (use gov s in \<open>auto simp: governed_def is_halted_def\<close>)
  then show ?thesis using that gov s by (simp add: governed_def)
next
  case False
  have serves: "serves c st" and plain: "plain_state st"
    using gov by (auto simp: governed_def plain_state_def split: option.splits)
  note within = guard_state_within [OF gov cfg(1), of e] and none = guard_state_plain [OF plain, of e]
  note ok = cfg(1) [unfolded validate_config_Inr_iff]
  show ?thesis
  proof (cases rule: guard_check_open [OF serves cfg(2,3) plain False, of amount])
    case (1 st1)
    have "state_within c (update_all_windows amount (timestamp e) (guard_state e st))"
      using within 1(2,3) ok \<open>0 \<le> amount\<close>
      by (simp add: state_within_def update_all_windows_def check_all_volume_thresholds_None_iff window_within_update)
    then show ?thesis
      using that [OF 1(1)] serves 1(4-6) none
      by (simp add: governed_def serves_def is_cache_valid_def state_within_def update_all_windows_def)
  next
    case (2 st1 trigger severity s1)
    then show ?thesis
      using that [OF 2(1)] serves within none
      by (auto simp: governed_def serves_def is_cache_valid_def state_within_def)
  qed
qed

lemma governed_step:
  assumes "governed default_enhanced_config st" "tips_in_range call"
  shows "governed default_enhanced_config (enhanced_step call st)"
proof (cases call)
  case (CheckTip e amount)
  obtain v st1 where "guard_check e amount st = Inr (v, st1)" "governed default_enhanced_config st1"
    by (rule governed_check [OF assms(1)])
      (use assms(2) CheckTip in \<open>simp_all add: tips_in_range_def validate_config_def default_enhanced_config_def\<close>)
  then show ?thesis using CheckTip by simp
next
  case (Initialize e admin)
  then show ?thesis
    using assms
    by (auto simp: initialize_circuit_breaker_def after_call_def governed_def serves_def is_cache_valid_def update_config_cache_def
        update_state_cache_def require_auth_def state_within_def new_enhanced_state_def default_enhanced_config_def)
qed (use assms(1) other_calls_same_cache [of call st] in \<open>auto simp: governed_same_cache simp del: enhanced_step.simps\<close>)


lemma governed_run:
  assumes "governed default_enhanced_config st" "\<forall>call \<in> set calls. tips_in_range call"
  shows "governed default_enhanced_config (enhanced_run calls st)"
  using assms by (induction calls arbitrary: st) (simp_all add: enhanced_run_def governed_step)

lemma initialize_governed:
  assumes "initialize_circuit_breaker e admin st = Inr st1"
  shows "governed default_enhanced_config st1" "bs_cache_state st1 = Some (new_enhanced_state (timestamp e))"
  using assms
  by (auto simp: initialize_circuit_breaker_def governed_def serves_def is_cache_valid_def update_config_cache_def result_simps
      update_state_cache_def state_within_def new_enhanced_state_def default_enhanced_config_def)

section \<open>What the counters and the cache do\<close>

text \<open>An accepted tip is counted once by the rate check and once more by the update, so a minute admits half of its limit.\<close>

lemma accepted_tip_counts_twice:
  assumes "timestamp e < sat_add_u64 (rl_minute_start r) 60"
  shows "rl_tips (update_rate_limit_state (timestamp e) (update_rate_limit_state (timestamp e) r)) =
    sat_add_u32 (sat_add_u32 (rl_tips r) 1) 1"
  using assms by (auto simp: update_rate_limit_state_def)

text \<open>Once the cache is filled no later configuration reaches the guard: nothing invalidates it.\<close>

lemma check_keeps_config:
  assumes "serves c st" "guard_check e amount st = Inr (v, st1)"
  shows "serves c st1"
proof (cases "ec_enabled c")
  case False
  then show ?thesis using assms by (simp add: guard_check_def)
next
  case True
  obtain st0 where st0: "bs_cache_config st0 = bs_cache_config st" "bs_cache_valid st0 = bs_cache_valid st"
      "bs_cache_state st0 = bs_cache_state st"
    and run: "guard_check e amount st =
       (if should_block_operations (guard_state e st) c (timestamp e)
        then Inr (Inl InvalidConfiguration, check_and_emit_status e (guard_state e st) None st0)
        else and_then (optimized_check_sequence e c amount (guard_state e st)) (\<lambda>(found, s1).
          case found of
            Some (trigger, severity) \<Rightarrow> Inr (Inl InvalidConfiguration, record_trigger e c trigger severity s1 st0)
          | None \<Rightarrow> Inr (Inr (), snd (batch_state_updates e s1 amount st0))))"
    by (rule guard_check_enabled [OF assms(1) True])
  have "bs_cache_config st1 = bs_cache_config st \<and> bs_cache_valid st1 = bs_cache_valid st"
    using assms(2) st0 unfolding run by (auto simp: result_simps split: if_splits option.splits)
  then show ?thesis using assms(1) by (simp add: serves_def is_cache_valid_def)
qed

lemma later_configurations_are_ignored:
  assumes "serves c st" "\<And>e admin. call \<noteq> Initialize e admin"
  shows "serves c (enhanced_step call st)"
proof (cases "\<exists>e amount. call = CheckTip e amount")
  case True
  then show ?thesis using assms(1) check_keeps_config by (auto split: sum.splits)
next
  case False
  then have "same_cache st (enhanced_step call st)" using assms(2) by (intro other_calls_same_cache) auto
  then show ?thesis using assms(1) by (simp add: same_cache_def serves_def is_cache_valid_def)
qed

section \<open>Properties\<close>

text \<open>
  C17. Once the breaker has tripped under a validated, enabled configuration, the halt lasts at least the base and at most the
  maximum cooldown; every check before its end is refused and leaves the halt as it is; and the first check at or after
  its end recovers by itself, restarts every volume window and lets through a tip that is within the single-tip limit.
\<close>

theorem halts_hold_and_lift:
  assumes "serves c st" "validate_config c = Inr ()" "ec_enabled c" "\<not> ec_maintenance_mode c" "plain_state st"
    and "\<not> is_halted (guard_state e st) (timestamp e)"
    and "guard_check e amount st = Inr (Inl err, st1)"
  shows "\<exists>s1 cooldown. bs_cache_state st1 = Some s1 \<and> es_halted_until s1 = sat_add_u64 (timestamp e) cooldown \<and>
      ec_base_cooldown_seconds c \<le> cooldown \<and> cooldown \<le> ec_max_cooldown_seconds c \<and>
      (\<forall>calls. (\<forall>call \<in> set calls. timestamp (fst call) < es_halted_until s1) \<longrightarrow>
         (\<exists>st2. guard_run calls st1 = Inr (replicate (length calls) (Inl InvalidConfiguration), st2) \<and>
            bs_cache_state st2 = Some s1 \<and>
            (\<forall>e' amount'. es_halted_until s1 \<le> timestamp e' \<and> amount' \<le> ec_max_single_tip c \<and> in_i128 amount' \<longrightarrow>
               (\<exists>st3 s3. guard_check e' amount' st2 = Inr (Inr (), st3) \<and> bs_cache_state st3 = Some s3 \<and>
                  es_halted_until s3 = 0 \<and> vs_one_minute (get_volume_stats s3) = amount' \<and>
                  vs_day (get_volume_stats s3) = amount'))))"
proof -
  note ok = assms(2) [unfolded validate_config_Inr_iff]
  from guard_check_open [OF assms(1,3-6), of amount]
  obtain trigger severity s0 where st1: "bs_cache_config st1 = bs_cache_config st" "bs_cache_valid st1 = bs_cache_valid st"
      "bs_cache_state st1 = Some (activate_halt c trigger severity (timestamp e) s0)"
    and s0: "\<exists>r. s0 = (guard_state e st)\<lparr>es_rate := r\<rparr>"
    using assms(7) by (metis Inl_Inr_False Inr_inject prod.inject)
  let ?s1 = "activate_halt c trigger severity (timestamp e) s0"
  let ?cd = "calculate_cooldown c severity (es_trigger_count s0)"
  have cd: "ec_base_cooldown_seconds c \<le> ?cd" "?cd \<le> ec_max_cooldown_seconds c"
    using ok by (simp_all add: calculate_cooldown_bounds)
  have "?cd \<noteq> 0" using cd(1) ok by auto
  then have pos: "0 < es_halted_until ?s1"
    by (auto simp: sat_add_u64_def word_gt_0 not_less)
  have none: "es_anomaly ?s1 = None" using s0 guard_state_plain [OF assms(5)] by auto
  have serves: "serves c st1" using assms(1) st1 by (simp add: serves_def is_cache_valid_def)
  have later: "\<exists>st2. guard_run calls st1 = Inr (replicate (length calls) (Inl InvalidConfiguration), st2) \<and>
      bs_cache_state st2 = Some ?s1 \<and>
      (\<forall>e' amount'. es_halted_until ?s1 \<le> timestamp e' \<and> amount' \<le> ec_max_single_tip c \<and> in_i128 amount' \<longrightarrow>
         (\<exists>st3 s3. guard_check e' amount' st2 = Inr (Inr (), st3) \<and> bs_cache_state st3 = Some s3 \<and>
            es_halted_until s3 = 0 \<and> vs_one_minute (get_volume_stats s3) = amount' \<and> vs_day (get_volume_stats s3) = amount'))"
    if before: "\<forall>call \<in> set calls. timestamp (fst call) < es_halted_until ?s1" for calls
  proof -
    obtain st2 where st2: "guard_run calls st1 = Inr (replicate (length calls) (Inl InvalidConfiguration), st2)" "serves c st2"
      "bs_cache_state st2 = Some ?s1"
      using guard_run_refuses_while_halted [OF assms(3) before serves st1(3)] by blast
    have "\<exists>st3 s3. guard_check e' amount' st2 = Inr (Inr (), st3) \<and> bs_cache_state st3 = Some s3 \<and>
        es_halted_until s3 = 0 \<and> vs_one_minute (get_volume_stats s3) = amount' \<and> vs_day (get_volume_stats s3) = amount'"
      if "es_halted_until ?s1 \<le> timestamp e'" "amount' \<le> ec_max_single_tip c" "in_i128 amount'" for e' amount'
      by (rule guard_recovers [OF st2(2) assms(3,4,2) st2(3) none pos that]) auto
    then show ?thesis using st2 by blast
  qed
  show ?thesis
    by (rule exI [of _ ?s1], rule exI [of _ ?cd], intro conjI allI impI st1(3) activate_halt_simps(1) cd later, assumption)
qed

text \<open>
  C22. From its initialisation on, over any sequence of checks and administrative calls, the breaker's four windows hold at most
  their threshold plus one maximal tip, and no check aborts. The thresholds are those of the configuration the breaker was
  initialised with.
\<close>

theorem breaker_windows_stay_bounded:
  assumes "initialize_circuit_breaker e admin st0 = Inr st1" "\<forall>call \<in> set calls. tips_in_range call" "0 \<le> amount"
  shows "(\<exists>v st2. guard_check e' amount (enhanced_run calls st1) = Inr (v, st2)) \<and>
    (case bs_cache_state (enhanced_run calls st1) of None \<Rightarrow> True | Some s \<Rightarrow>
       0 \<le> vw_volume (es_one_minute s) \<and> vw_volume (es_one_minute s) \<le> 11000000000 \<and>
       0 \<le> vw_volume (es_five_minute s) \<and> vw_volume (es_five_minute s) \<le> 41000000000 \<and>
       0 \<le> vw_volume (es_one_hour s) \<and> vw_volume (es_one_hour s) \<le> 201000000000 \<and>
       0 \<le> vw_volume (es_day s) \<and> vw_volume (es_day s) \<le> 2001000000000)"
proof -
  have gov: "governed default_enhanced_config (enhanced_run calls st1)"
    by (rule governed_run [OF initialize_governed(1) [OF assms(1)] assms(2)])
  obtain v st2 where "guard_check e' amount (enhanced_run calls st1) = Inr (v, st2)"
    by (rule governed_check [OF gov _ _ _ assms(3)]) (simp_all add: validate_config_def default_enhanced_config_def)
  then show ?thesis
    using gov by (auto simp: governed_def state_within_def window_within_def default_enhanced_config_def split: option.splits)
qed

section \<open>Witnesses\<close>

definition breaker_env :: "u64 \<Rightarrow> env" where
  "breaker_env now = \<lparr>sequence = 1, timestamp = now, authorized = (\<lambda>a. a = 1), contract_address = 100, new_entry_live = 0,
     extend_policy = (\<lambda>thr ext live. live), wasm_uploaded = (\<lambda>h. True)\<rparr>"

definition blank_breaker :: breaker_store where
  "blank_breaker = \<lparr>bs_config = None, bs_creator_limits = Map.empty, bs_token_limits = Map.empty, bs_cache_config = None,
     bs_cache_state = None, bs_cache_valid = None, bs_audit_counter = None, bs_audit = Map.empty, bs_last_status = None,
     bs_admin = Some 1, bs_lib_config = None, bs_events = []\<rparr>"

definition ready_breaker :: breaker_store where
  "ready_breaker = after_call blank_breaker (initialize_circuit_breaker (breaker_env 1000) 1 blank_breaker)"

lemma ready_breaker_eq: "initialize_circuit_breaker (breaker_env 1000) 1 blank_breaker = Inr ready_breaker"
  by (simp add: ready_breaker_def initialize_circuit_breaker_def after_call_def breaker_env_def)

lemma ready_simps:
  "serves default_enhanced_config ready_breaker" "plain_state ready_breaker"
  "guard_state (breaker_env now) ready_breaker = new_enhanced_state 1000"
  by (simp_all add: ready_breaker_def initialize_circuit_breaker_def after_call_def breaker_env_def serves_def is_cache_valid_def
      update_config_cache_def update_state_cache_def plain_state_def guard_state_def check_automatic_recovery_def
      new_enhanced_state_def)

theorem halts_hold_and_lift_witness:
  "\<exists>st1 s1 cooldown. guard_check (breaker_env 1500) 2000000000 ready_breaker = Inr (Inl InvalidConfiguration, st1) \<and>
     bs_cache_state st1 = Some s1 \<and> es_halted_until s1 = sat_add_u64 1500 cooldown \<and> 300 \<le> cooldown \<and> cooldown \<le> 86400 \<and>
     (\<exists>st2. guard_run [(breaker_env 1600, 5), (breaker_env 1700, 7)] st1 =
        Inr ([Inl InvalidConfiguration, Inl InvalidConfiguration], st2))"
proof -
  have hyps: "serves default_enhanced_config ready_breaker" "validate_config default_enhanced_config = Inr ()"
    "ec_enabled default_enhanced_config" "\<not> ec_maintenance_mode default_enhanced_config" "plain_state ready_breaker"
    "\<not> is_halted (guard_state (breaker_env 1500) ready_breaker) (timestamp (breaker_env 1500))"
    by (simp_all add: ready_simps is_halted_def new_enhanced_state_def)
      (simp_all add: default_enhanced_config_def validate_config_def)
  obtain st1 where run: "guard_check (breaker_env 1500) 2000000000 ready_breaker = Inr (Inl InvalidConfiguration, st1)"
  proof (cases rule: guard_check_open [OF hyps(1,3-6), of 2000000000])
    case 1
    then show ?thesis by (simp add: default_enhanced_config_def)
  qed (rule that)
  have *: "ec_base_cooldown_seconds default_enhanced_config = 300" "ec_max_cooldown_seconds default_enhanced_config = 86400"
    "timestamp (breaker_env n) = n" for n
    by (simp_all add: default_enhanced_config_def breaker_env_def)
  obtain s1 cooldown where s1: "bs_cache_state st1 = Some s1" "es_halted_until s1 = sat_add_u64 1500 cooldown"
      "300 \<le> cooldown" "cooldown \<le> 86400"
    and later: "\<And>calls. \<forall>call \<in> set calls. timestamp (fst call) < es_halted_until s1 \<Longrightarrow>
      \<exists>st2. guard_run calls st1 = Inr (replicate (length calls) (Inl InvalidConfiguration), st2)"
    using halts_hold_and_lift [OF hyps run] unfolding * by blast
  have until: "1700 < es_halted_until s1"
    using s1(2-4) by (simp add: sat_add_u64_def word_less_nat_alt word_le_nat_alt unat_plus_if_size word_size split: if_splits)
  then have until': "1600 < es_halted_until s1" by (rule less_trans [rotated]) simp
  have "\<exists>st2. guard_run [(breaker_env 1600, 5), (breaker_env 1700, 7)] st1 =
      Inr (replicate (length [(breaker_env 1600, 5), (breaker_env 1700, 7 :: int)]) (Inl InvalidConfiguration), st2)"
    by (rule later) (simp add: * until until')
  then show ?thesis using run s1 by (auto simp: numeral_2_eq_2)
qed

theorem breaker_windows_stay_bounded_witness:
  "\<exists>v st2. guard_check (breaker_env 1002) 900000000
     (enhanced_run [CheckTip (breaker_env 1000) 1000000000, LibSetConfig (breaker_env 1001) 1 default_enhanced_config]
       ready_breaker) = Inr (v, st2)"
  using breaker_windows_stay_bounded [OF ready_breaker_eq, of
      "[CheckTip (breaker_env 1000) 1000000000, LibSetConfig (breaker_env 1001) 1 default_enhanced_config]" 900000000
      "breaker_env 1002"]
  by (simp add: tips_in_range_def)

end
