(* ===== verification/Legacy_Features.thy ===== *)
theory Legacy_Features
  imports Legacy_Calls
begin

text \<open>
  Streams, vesting schedules, auctions and subscriptions of the superseded tip jar
  (\<^verbatim>\<open>src/contracts/tipjar-legacy/src/lib.rs\<close>): their data and the state in which they stand beside the core of the
  jar. The contract holds the money of streams, schedules and auctions in the account it also pays the creators
  from.
\<close>

section \<open>Data\<close>

datatype stream_status = StreamActive | StreamPaused | StreamCancelled | StreamCompleted

record stream =
  sr_stream_id :: u64
  sr_sender :: address
  sr_creator :: address
  sr_token :: address
  sr_amount_per_second :: int
  sr_start_time :: u64
  sr_end_time :: u64
  sr_withdrawn :: int
  sr_status :: stream_status
  sr_created_at :: u64
  sr_updated_at :: u64

record vesting_schedule =
  vs_id :: u64
  vs_creator :: address
  vs_tipper :: address
  vs_token :: address
  vs_total_amount :: int
  vs_start_time :: u64
  vs_cliff_duration :: u64
  vs_vesting_duration :: u64
  vs_withdrawn :: int
  vs_created_at :: u64

record auction =
  au_auction_id :: u64
  au_creator :: address
  au_token :: address
  au_reserve_price :: int
  au_highest_bid :: int
  au_highest_bidder :: "address option"
  au_ends_at :: u64
  au_created_at :: u64
  au_settled :: bool

datatype sub_standing = SubActive | SubPaused | SubCancelled

datatype sub_tier = TierNone | TierBronze | TierSilver | TierGold

record tier_config =
  tc_price :: int
  tc_benefits :: string

record tip_subscription =
  sb_subscriber :: address
  sb_creator :: address
  sb_token :: address
  sb_amount :: int
  sb_interval_seconds :: u64
  sb_last_payment :: u64
  sb_next_payment :: u64
  sb_status :: sub_standing
  sb_tier :: sub_tier
  sb_pending_tier :: sub_tier

section \<open>Errors and events\<close>

datatype stream_error =
    InvalidStreamRate | StrmRateMax | StreamNotFound | StreamAlreadyCancelled | StreamAlreadyCompleted | StreamNotStarted
  | NoStreamedAmount

datatype auction_error =
    InvalidReservePrice | InvalidAuctionDuration | AuctionNotFound | AuctionAlreadySettled | AuctionHasEnded | AuctionBidTooLow
  | AuctionReserveNotMet | AuctionUnauthorized | AuctionNotEnded

datatype vesting_error =
  InvalidVestingDuration | CliffExceedsVesting | InvalidVestingId | VestingScheduleNotFound | NoVestedAmount

datatype subscription_error = InvalidInterval | TierNotConfigured | SubscriptionNotFound | SubscriptionNotActive | PaymentNotDue

datatype escrow_error =
    CoreFault core_error
  | StreamError stream_error
  | AuctionError auction_error
  | VestingError vesting_error
  | SubscriptionError subscription_error

datatype escrow_event =
    EvStrmCre u64 address address int u64
  | EvStrmSta u64
  | EvStrmSto u64 int
  | EvStrmWit u64 int address
  | EvStrmCan u64 int
  | EvVestNew address address int u64 u64 u64
  | EvVestWdr address u64 int address
  | EvAucCrt u64 address address int u64
  | EvAucBid u64 address int
  | EvAucFail u64 "address option" int
  | EvAucSett u64 address int address
  | EvTierSet sub_tier int
  | EvSub symbol address address int u64

section \<open>State\<close>

record stream_book =
  sk_record :: "u64 \<rightharpoonup> stream"
  sk_creator_streams :: "address \<rightharpoonup> u64 list"
  sk_sender_streams :: "address \<rightharpoonup> u64 list"
  sk_ctr :: "u64 option"

record vesting_book =
  vk_schedule :: "u64 \<rightharpoonup> vesting_schedule"
  vk_creator_list :: "address \<rightharpoonup> u64 list"
  vk_ctr :: "u64 option"

record auction_book =
  ak_record :: "u64 \<rightharpoonup> auction"
  ak_creator_list :: "address \<rightharpoonup> u64 list"
  ak_ctr :: "u64 option"

record 'tk feature_jar =
  fj_core :: "'tk core_jar"
  fj_streams :: stream_book
  fj_vesting :: vesting_book
  fj_auctions :: auction_book
  fj_tiers :: "sub_tier \<rightharpoonup> tier_config"
  fj_subs :: "address \<times> address \<rightharpoonup> tip_subscription"
  fj_events :: "escrow_event list"

type_synonym 'a feature_result = "(escrow_error, 'a) result"

definition fj_emit :: "escrow_event \<Rightarrow> 'tk feature_jar \<Rightarrow> 'tk feature_jar" where
  "fj_emit ev f = f\<lparr>fj_events := fj_events f @ [ev]\<rparr>"

text \<open>An operation of the core inside one of the features.\<close>

fun lift_fault :: "core_error fault \<Rightarrow> escrow_error fault" where
  "lift_fault (ContractError x) = ContractError (CoreFault x)"
| "lift_fault Unauthenticated = Unauthenticated"
| "lift_fault CalleeFailed = CalleeFailed"
| "lift_fault Trapped = Trapped"

definition core_do :: "'a core_result \<Rightarrow> 'a feature_result" where
  "core_do r = (case r of Inl x \<Rightarrow> Inl (lift_fault x) | Inr v \<Rightarrow> Inr v)"

lemma core_do_Inr_iff [result_simps]: "core_do r = Inr v \<longleftrightarrow> r = Inr v"
  by (auto simp: core_do_def split: sum.splits)

definition fail_core :: "tipjar_error \<Rightarrow> 'a feature_result" where
  "fail_core x = fail (CoreFault (TipJarError x))"

lemma fail_core_Inr [simp]: "fail_core x \<noteq> Inr v" "Inr v \<noteq> fail_core x"
  by (simp_all add: fail_core_def)

lemma if_fail_core_Inr_iff [result_simps]: "(if b then fail_core x else m) = Inr y \<longleftrightarrow> \<not> b \<and> m = Inr y"
  by auto

definition the_core :: "('tk core_jar \<Rightarrow> 'tk core_jar core_result) \<Rightarrow> 'tk feature_jar \<Rightarrow> 'tk feature_jar feature_result" where
  "the_core f j = and_then (core_do (f (fj_core j))) (\<lambda>s. Inr (j\<lparr>fj_core := s\<rparr>))"

lemma the_core_Inr_iff [result_simps]: "the_core f j = Inr j' \<longleftrightarrow> (\<exists>s. f (fj_core j) = Inr s \<and> j' = j\<lparr>fj_core := s\<rparr>)"
  by (auto simp: the_core_def result_simps)

definition fj_whitelisted :: "address \<Rightarrow> 'tk feature_jar \<Rightarrow> bool" where
  "fj_whitelisted t f = legacy_whitelisted (lj_instance (fj_core f)) t"

section \<open>The core and the claims on it\<close>

text \<open>A change of the core together with a change of the claims on it.\<close>

lemma jar_move_claims:
  assumes "jar_solvent holding ok rest me now s" "jar_move holding ok me D H s s'" "credit_ok now' s'"
    and "\<And>t. D t + rest' t \<le> H t + rest t"
  shows "jar_solvent holding ok rest' me now' s'"
proof -
  have "owed t s' + rest' t \<le> holding (lj_tokens s') t me" for t
    using assms(1,2) assms(4) [of t] by (auto simp: jar_solvent_def jar_move_def) (smt (verit))
  then show ?thesis
    using assms(1-3) settings_ok_cong [of s' s] by (auto simp: jar_solvent_def jar_move_def requests_ok_def)
qed


lemma claims_weaken:
  assumes "jar_solvent holding ok rest me now s" "\<And>t. rest' t \<le> rest t" "now \<le> now'"
  shows "jar_solvent holding ok rest' me now' s"
proof -
  have "owed t s + rest' t \<le> holding (lj_tokens s) t me" for t
    using assms(1) assms(2) [of t] by (auto simp: jar_solvent_def) (smt (verit))
  then have "jar_solvent holding ok rest' me now s" using assms(1) by (simp add: jar_solvent_def)
  then show ?thesis using assms(3) by (rule solvent_later)
qed

lemma not_paused_solvent:
  assumes "the_core (not_paused e) f0 = Inr f" "jar_solvent holding ok rest me now (fj_core f0)"
  shows "jar_solvent holding ok rest me now (fj_core f)" "f = f0\<lparr>fj_core := fj_core f\<rparr>"
  using assms guards_solvent(1) [of e "fj_core f0"] by (auto simp: the_core_Inr_iff)

lemma breaker_solvent:
  assumes "the_core (breaker_allows e n) f0 = Inr f" "jar_solvent holding ok rest me now (fj_core f0)"
  shows "jar_solvent holding ok rest me now (fj_core f)" "f = f0\<lparr>fj_core := fj_core f\<rparr>"
  using assms guards_solvent(3) [of e n "fj_core f0"] by (auto simp: the_core_Inr_iff)

context sep41_capped
begin

lemma deposit_claims:
  assumes "lj_transfer transfer t src me n s = Inr s'" "jar_solvent holding ledger_ok rest me now s" "src \<noteq> me" "0 \<le> n" "now \<le> now'"
    and "\<And>t'. rest' t' \<le> rest t' + only t n t'"
  shows "jar_solvent holding ledger_ok rest' me now' s'"
proof -
  note p = solvent_parts [OF assms(2)]
  note m = deposit_move [OF assms(1) p(1,4) assms(3,4)]
  have c: "credit_ok now s'" using p(3) m(2) by (simp add: credit_ok_def)
  have "jar_solvent holding ledger_ok rest' me now s'"
    by (rule jar_move_claims [OF assms(2) m(1) c]) (use assms(6) in \<open>simp add: only_def add.commute\<close>)
  then show ?thesis using assms(5) by (rule solvent_later)
qed

lemma deposit_cap:
  assumes "lj_transfer transfer t src me n s = Inr s'" "jar_solvent holding ledger_ok rest me now s" "src \<noteq> me" "0 \<le> n"
  shows "n \<le> cap"
  using deposit_move(3) [OF assms(1) solvent_parts(1,4) [OF assms(2)] assms(3,4)] .

lemma payout_claims:
  assumes "lj_transfer transfer t me dst n s = Inr s'" "jar_solvent holding ledger_ok rest me now s" "dst \<noteq> me" "0 \<le> n" "now \<le> now'"
    and "\<And>t'. rest' t' + only t n t' \<le> rest t'"
  shows "jar_solvent holding ledger_ok rest' me now' s'"
proof -
  note p = solvent_parts [OF assms(2)]
  note m = payout_move [OF assms(1) p(1,4) assms(3,4)]
  have c: "credit_ok now s'" using p(3) m(2) by (simp add: credit_ok_def)
  have "rest' t' \<le> only t (- n) t' + rest t'" for t' using assms(6) [of t'] by (simp add: only_def split: if_splits)
  then have "jar_solvent holding ledger_ok rest' me now s'"
    by (intro jar_move_claims [OF assms(2) m(1) c]) simp
  then show ?thesis using assms(5) by (rule solvent_later)
qed

end

end
