(* ===== verification/Legacy_Streams.thy ===== *)
theory Legacy_Streams
  imports Legacy_Features
begin

text \<open>
  The tip streams of the superseded tip jar (\<^verbatim>\<open>create_stream\<close> to \<^verbatim>\<open>get_available_to_withdraw\<close> of
  \<^verbatim>\<open>src/contracts/tipjar-legacy/src/lib.rs\<close>): a sender locks a sum that flows to a creator second by second; the sender may
  stop, resume and cancel the stream, the creator withdraws what has flowed.
\<close>

section \<open>Operations\<close>

definition put_stream :: "u64 \<Rightarrow> stream \<Rightarrow> 'tk feature_jar \<Rightarrow> 'tk feature_jar" where
  "put_stream i r f = f\<lparr>fj_streams := (fj_streams f)\<lparr>sk_record := (sk_record (fj_streams f))(i \<mapsto> r)\<rparr>\<rparr>"

definition list_stream :: "u64 \<Rightarrow> address \<Rightarrow> address \<Rightarrow> 'tk feature_jar \<Rightarrow> 'tk feature_jar" where
  "list_stream i sender creator f =
     (let b = fj_streams f in
      f\<lparr>fj_streams := b\<lparr>sk_ctr := Some (i + 1),
        sk_sender_streams := (sk_sender_streams b)(sender \<mapsto> unwrap_or (sk_sender_streams b sender) [] @ [i]),
        sk_creator_streams := (sk_creator_streams b)(creator \<mapsto> unwrap_or (sk_creator_streams b creator) [] @ [i])\<rparr>\<rparr>)"

definition create_stream ::
  "'tk transfer_fn \<Rightarrow> env \<Rightarrow> address \<Rightarrow> address \<Rightarrow> address \<Rightarrow> int \<Rightarrow> u64 \<Rightarrow> 'tk feature_jar \<Rightarrow> (u64 \<times> 'tk feature_jar) feature_result"
where
  "create_stream transfer e sender creator t amount_per_second duration f0 =
     and_then (the_core (not_paused e) f0) (\<lambda>f.
     and_then (require_auth e sender) (\<lambda>_.
     if amount_per_second \<le> 0 then fail (StreamError InvalidStreamRate)
     else if amount_per_second > 1000 then fail (StreamError StrmRateMax)
     else if duration = 0 then fail_core InvalidAmount
     else if \<not> fj_whitelisted t f then fail_core TokenNotWhitelisted
     else
     let stream_id = unwrap_or (sk_ctr (fj_streams f)) 0;
         now = timestamp e;
         total_amount = mul_i128 amount_per_second (uint duration);
         r = \<lparr>sr_stream_id = stream_id, sr_sender = sender, sr_creator = creator, sr_token = t,
              sr_amount_per_second = amount_per_second, sr_start_time = now, sr_end_time = now + duration, sr_withdrawn = 0,
              sr_status = StreamActive, sr_created_at = now, sr_updated_at = now\<rparr>;
         f1 = list_stream stream_id sender creator (put_stream stream_id r f) in
     and_then (the_core (lj_transfer transfer t sender (contract_address e) total_amount) f1) (\<lambda>f2.
     Inr (stream_id, fj_emit (EvStrmCre stream_id sender creator amount_per_second duration) f2))))"

definition calculate_streamed_amount :: "env \<Rightarrow> stream \<Rightarrow> int" where
  "calculate_streamed_amount e r =
     (if sr_status r \<noteq> StreamActive \<and> sr_status r \<noteq> StreamPaused then sr_withdrawn r
      else
      let now = timestamp e;
          elapsed = (if now < sr_start_time r then 0
                     else if now > sr_end_time r then sr_end_time r - sr_start_time r
                     else now - sr_start_time r) in
      min (mul_i128 (sr_amount_per_second r) (uint elapsed))
          (mul_i128 (sr_amount_per_second r) (uint (sr_end_time r - sr_start_time r))))"

definition find_stream :: "u64 \<Rightarrow> 'tk feature_jar \<Rightarrow> stream feature_result" where
  "find_stream i f = ok_or (StreamError StreamNotFound) (sk_record (fj_streams f) i)"

definition start_stream :: "env \<Rightarrow> address \<Rightarrow> u64 \<Rightarrow> 'tk feature_jar \<Rightarrow> 'tk feature_jar feature_result" where
  "start_stream e sender i f0 =
     and_then (the_core (not_paused e) f0) (\<lambda>f.
     and_then (require_auth e sender) (\<lambda>_.
     and_then (find_stream i f) (\<lambda>r.
     if sr_sender r \<noteq> sender then fail_core Unauthorized
     else if sr_status r = StreamCancelled then fail (StreamError StreamAlreadyCancelled)
     else if sr_status r = StreamCompleted then fail (StreamError StreamAlreadyCompleted)
     else
     let now = timestamp e;
         pause_duration = now - sr_updated_at r;
         r1 = (if sr_status r = StreamPaused
               then r\<lparr>sr_start_time := sr_start_time r + pause_duration, sr_end_time := sr_end_time r + pause_duration\<rparr> else r);
         r2 = r1\<lparr>sr_status := StreamActive, sr_updated_at := now\<rparr> in
     Inr (fj_emit (EvStrmSta i) (put_stream i r2 f)))))"

definition stop_stream :: "env \<Rightarrow> address \<Rightarrow> u64 \<Rightarrow> 'tk feature_jar \<Rightarrow> 'tk feature_jar feature_result" where
  "stop_stream e sender i f0 =
     and_then (the_core (not_paused e) f0) (\<lambda>f.
     and_then (require_auth e sender) (\<lambda>_.
     and_then (find_stream i f) (\<lambda>r.
     if sr_sender r \<noteq> sender then fail_core Unauthorized
     else if sr_status r \<noteq> StreamActive then fail (StreamError StreamNotStarted)
     else if sr_status r = StreamCancelled then fail (StreamError StreamAlreadyCancelled)
     else
     let streamed_amount = calculate_streamed_amount e r;
         r1 = r\<lparr>sr_status := StreamPaused, sr_withdrawn := streamed_amount, sr_updated_at := timestamp e\<rparr> in
     Inr (fj_emit (EvStrmSto i streamed_amount) (put_stream i r1 f)))))"

definition withdraw_streamed ::
  "'tk transfer_fn \<Rightarrow> env \<Rightarrow> address \<Rightarrow> u64 \<Rightarrow> 'tk feature_jar \<Rightarrow> 'tk feature_jar feature_result" where
  "withdraw_streamed transfer e creator i f0 =
     and_then (the_core (not_paused e) f0) (\<lambda>f.
     and_then (require_auth e creator) (\<lambda>_.
     and_then (find_stream i f) (\<lambda>r.
     if sr_creator r \<noteq> creator then fail_core Unauthorized
     else if sr_status r = StreamCancelled then fail (StreamError StreamAlreadyCancelled)
     else
     let now = timestamp e in
     if now < sr_start_time r then fail (StreamError StreamNotStarted)
     else
     let streamed_amount = calculate_streamed_amount e r;
         available = sub_i128 streamed_amount (sr_withdrawn r) in
     if available \<le> 0 then fail (StreamError NoStreamedAmount)
     else
     let r1 = r\<lparr>sr_withdrawn := streamed_amount\<rparr>;
         r2 = (if now \<ge> sr_end_time r1 then r1\<lparr>sr_status := StreamCompleted\<rparr> else r1);
         r3 = r2\<lparr>sr_updated_at := now\<rparr> in
     and_then (the_core (lj_transfer transfer (sr_token r3) (contract_address e) creator available) (put_stream i r3 f)) (\<lambda>f1.
     Inr (fj_emit (EvStrmWit i available creator) f1)))))"

definition cancel_stream ::
  "'tk transfer_fn \<Rightarrow> env \<Rightarrow> address \<Rightarrow> u64 \<Rightarrow> 'tk feature_jar \<Rightarrow> 'tk feature_jar feature_result" where
  "cancel_stream transfer e sender i f0 =
     and_then (the_core (not_paused e) f0) (\<lambda>f.
     and_then (require_auth e sender) (\<lambda>_.
     and_then (find_stream i f) (\<lambda>r.
     if sr_sender r \<noteq> sender then fail_core Unauthorized
     else if sr_status r = StreamCancelled then fail (StreamError StreamAlreadyCancelled)
     else if sr_status r = StreamCompleted then fail (StreamError StreamAlreadyCompleted)
     else
     let streamed_amount = calculate_streamed_amount e r;
         total_amount = mul_i128 (sr_amount_per_second r) (uint (sr_end_time r - sr_start_time r));
         remaining_amount = sub_i128 total_amount streamed_amount;
         f1 = put_stream i (r\<lparr>sr_status := StreamCancelled, sr_updated_at := timestamp e\<rparr>) f in
     and_then (if remaining_amount > 0
               then the_core (lj_transfer transfer (sr_token r) (contract_address e) sender remaining_amount) f1
               else Inr f1) (\<lambda>f2.
     Inr (fj_emit (EvStrmCan i remaining_amount) f2)))))"

definition get_streamed_amount :: "env \<Rightarrow> u64 \<Rightarrow> 'tk feature_jar \<Rightarrow> int feature_result" where
  "get_streamed_amount e i f = and_then (find_stream i f) (\<lambda>r. Inr (calculate_streamed_amount e r))"

definition get_available_to_withdraw :: "env \<Rightarrow> u64 \<Rightarrow> 'tk feature_jar \<Rightarrow> int feature_result" where
  "get_available_to_withdraw e i f =
     and_then (find_stream i f) (\<lambda>r.
     if sr_status r = StreamCancelled \<or> sr_status r = StreamCompleted then Inr 0
     else if timestamp e < sr_start_time r then Inr 0
     else Inr (sub_i128 (calculate_streamed_amount e r) (sr_withdrawn r)))"

section \<open>What a stream holds\<close>

definition stream_duration :: "stream \<Rightarrow> u64" where
  "stream_duration r = sr_end_time r - sr_start_time r"

definition stream_total :: "stream \<Rightarrow> int" where
  "stream_total r = sr_amount_per_second r * uint (stream_duration r)"

definition stream_live :: "stream \<Rightarrow> bool" where
  "stream_live r \<longleftrightarrow> sr_status r = StreamActive \<or> sr_status r = StreamPaused"

lemma stream_live_iff: "stream_live r \<longleftrightarrow> sr_status r \<noteq> StreamCancelled \<and> sr_status r \<noteq> StreamCompleted"
  by (cases "sr_status r") (simp_all add: stream_live_def)

definition stream_owed :: "stream \<Rightarrow> int" where
  "stream_owed r = (if stream_live r then stream_total r - sr_withdrawn r else 0)"

text \<open>The seconds that have flowed at a time not before the start; an end that wraps around lies in the past.\<close>

definition flowed :: "stream \<Rightarrow> u64 \<Rightarrow> int" where
  "flowed r now =
     (if uint (sr_start_time r) + uint (stream_duration r) < 2 ^ 64
      then min (uint now - uint (sr_start_time r)) (uint (stream_duration r))
      else uint (stream_duration r))"

lemma stream_frame [simp]:
  "stream_duration (r\<lparr>sr_withdrawn := w\<rparr>) = stream_duration r" "stream_duration (r\<lparr>sr_status := st\<rparr>) = stream_duration r"
  "stream_duration (r\<lparr>sr_updated_at := u\<rparr>) = stream_duration r"
  "stream_total (r\<lparr>sr_withdrawn := w\<rparr>) = stream_total r" "stream_total (r\<lparr>sr_status := st\<rparr>) = stream_total r"
  "stream_total (r\<lparr>sr_updated_at := u\<rparr>) = stream_total r"
  "flowed (r\<lparr>sr_withdrawn := w\<rparr>) n = flowed r n" "flowed (r\<lparr>sr_status := st\<rparr>) n = flowed r n"
  "flowed (r\<lparr>sr_updated_at := u\<rparr>) n = flowed r n"
  by (simp_all add: stream_duration_def stream_total_def flowed_def)

definition stream_ok :: "address \<Rightarrow> u64 \<Rightarrow> stream \<Rightarrow> bool" where
  "stream_ok me now r \<longleftrightarrow> sr_sender r \<noteq> me \<and> 0 < sr_amount_per_second r \<and> sr_amount_per_second r \<le> 1000 \<and>
     0 \<le> sr_withdrawn r \<and> sr_withdrawn r \<le> stream_total r \<and>
     (stream_live r \<longrightarrow> sr_start_time r \<le> sr_updated_at r \<and> sr_updated_at r \<le> now \<and>
        sr_withdrawn r \<le> sr_amount_per_second r * flowed r (sr_updated_at r))"

lemma stream_mult_exact:
  assumes "0 < rate" "rate \<le> 1000"
  shows "mul_i128 rate (uint (d :: u64)) = rate * uint d"
proof -
  have "uint d < 2 ^ 64" using uint_lt2p [of d] by simp
  then have "rate * uint d \<le> 1000 * 2 ^ 64" using assms by (intro mult_mono) auto
  then show ?thesis using assms by (simp add: mul_i128_def in_i128_nonneg I128_MAX_def)
qed

lemma stream_total_range:
  assumes "stream_ok me now r"
  shows "0 \<le> stream_total r" "stream_total r \<le> 1000 * 2 ^ 64"
proof -
  have "uint (stream_duration r) \<le> 2 ^ 64" using uint_lt2p [of "stream_duration r"] by simp
  moreover have r: "0 < sr_amount_per_second r" "sr_amount_per_second r \<le> 1000" using assms by (auto simp: stream_ok_def)
  ultimately show "stream_total r \<le> 1000 * 2 ^ 64" unfolding stream_total_def by (intro mult_mono) auto
  show "0 \<le> stream_total r" using r by (simp add: stream_total_def)
qed

lemma end_time_uint:
  "uint (sr_end_time r) = (let d = uint (sr_start_time r) + uint (stream_duration r) in if d < 2 ^ 64 then d else d - 2 ^ 64)"
proof -
  have "sr_end_time r = sr_start_time r + stream_duration r" by (simp add: stream_duration_def)
  then show ?thesis by (simp add: uint_plus_if_size word_size Let_def)
qed

lemma streamed_flowed:
  assumes "stream_live r" "0 < sr_amount_per_second r" "sr_amount_per_second r \<le> 1000" "sr_start_time r \<le> timestamp e"
  shows "calculate_streamed_amount e r = sr_amount_per_second r * flowed r (timestamp e)"
proof -
  let ?d = "uint (stream_duration r)" and ?s = "uint (sr_start_time r)" and ?n = "uint (timestamp e)"
  have range: "0 \<le> ?d" "?d < 2 ^ 64" "?n < 2 ^ 64" using uint_lt2p [of "stream_duration r"] uint_lt2p [of "timestamp e"] by auto
  have le: "?s \<le> ?n" using assms(4) by (simp add: word_le_def)
  have sub: "uint (timestamp e - sr_start_time r) = ?n - ?s"
    using assms(4) by (simp add: uint_minus_simple_alt)
  let ?el = "if timestamp e > sr_end_time r then stream_duration r else timestamp e - sr_start_time r"
  have el: "uint ?el = flowed r (timestamp e)" "uint ?el \<le> ?d"
    using le range sub end_time_uint [of r] by (auto simp: flowed_def word_less_def Let_def split: if_splits)
  have "calculate_streamed_amount e r = min (mul_i128 (sr_amount_per_second r) (uint ?el)) (mul_i128 (sr_amount_per_second r) ?d)"
    using assms(1,4) by (auto simp: calculate_streamed_amount_def stream_live_def stream_duration_def Let_def not_less)
  also have "\<dots> = sr_amount_per_second r * uint ?el"
    using el(2) assms(2) unfolding stream_mult_exact [OF assms(2,3)] by (intro min_absorb1 mult_left_mono) auto
  finally show ?thesis unfolding el(1) .
qed

lemma flowed_mono: "now \<le> now' \<Longrightarrow> flowed r now \<le> flowed r now'"
  by (auto simp: flowed_def word_le_def)

lemma flowed_le: "flowed r now \<le> uint (stream_duration r)"
  by (simp add: flowed_def)

lemma stream_ok_mono: "stream_ok me now r \<Longrightarrow> now \<le> now' \<Longrightarrow> stream_ok me now' r"
  by (auto simp: stream_ok_def)

text \<open>At any later time at least what was withdrawn has flowed, and at most the total.\<close>

lemma streamed_bounds:
  assumes "stream_ok me now r" "stream_live r" "now \<le> timestamp e"
  shows "sr_withdrawn r \<le> calculate_streamed_amount e r" "calculate_streamed_amount e r \<le> stream_total r"
    "sr_start_time r \<le> timestamp e"
proof -
  have r: "0 < sr_amount_per_second r" "sr_amount_per_second r \<le> 1000" "sr_start_time r \<le> sr_updated_at r"
    "sr_updated_at r \<le> timestamp e" "sr_withdrawn r \<le> sr_amount_per_second r * flowed r (sr_updated_at r)"
    using assms by (auto simp: stream_ok_def)
  show le: "sr_start_time r \<le> timestamp e" using r(3,4) by simp
  note s = streamed_flowed [OF assms(2) r(1,2) le]
  show "sr_withdrawn r \<le> calculate_streamed_amount e r"
    using r(5) mult_left_mono [OF flowed_mono [OF r(4), of r], of "sr_amount_per_second r"] r(1) unfolding s by linarith
  show "calculate_streamed_amount e r \<le> stream_total r"
    using r(1) flowed_le [of r "timestamp e"] by (simp add: s stream_total_def)
qed

interpretation streams: claim_book sr_token stream_owed "stream_ok me now" for me now
  by unfold_locales (auto simp: stream_owed_def stream_ok_def)


section \<open>Streams and the money of the jar\<close>

definition stream_claims :: "'tk feature_jar \<Rightarrow> address \<Rightarrow> int" where
  "stream_claims f = claims sr_token stream_owed (sk_record (fj_streams f))"

text \<open>A call on streams: the books that do not belong to it stay.\<close>

definition same_others :: "'tk feature_jar \<Rightarrow> 'tk feature_jar \<Rightarrow> bool" where
  "same_others f f' \<longleftrightarrow> fj_vesting f' = fj_vesting f \<and> fj_auctions f' = fj_auctions f \<and> fj_tiers f' = fj_tiers f \<and>
     fj_subs f' = fj_subs f"

lemma stream_ok_paid:
  assumes "stream_ok me now r" "stream_live r" "now \<le> timestamp e" "st = StreamActive \<or> st = StreamPaused \<or> st = StreamCompleted"
  shows "stream_ok me (timestamp e) (r\<lparr>sr_withdrawn := calculate_streamed_amount e r, sr_status := st, sr_updated_at := timestamp e\<rparr>)"
proof -
  note b = streamed_bounds [OF assms(1-3)]
  have r: "0 < sr_amount_per_second r" "sr_amount_per_second r \<le> 1000" "0 \<le> sr_withdrawn r" "sr_sender r \<noteq> me"
    using assms(1) by (auto simp: stream_ok_def)
  show ?thesis
    using b r streamed_flowed [OF assms(2) r(1,2) b(3)] by (auto simp: stream_ok_def)
qed

lemma stream_ok_resumed:
  assumes "stream_ok me now r" "stream_live r" "now \<le> timestamp e" "clock_ok e"
    and r': "r' = (if sr_status r = StreamPaused
      then r\<lparr>sr_start_time := sr_start_time r + (timestamp e - sr_updated_at r), sr_end_time := sr_end_time r + (timestamp e - sr_updated_at r)\<rparr>
      else r)\<lparr>sr_status := StreamActive, sr_updated_at := timestamp e\<rparr>"
  shows "stream_ok me (timestamp e) r'" "stream_owed r' = stream_owed r" "sr_token r' = sr_token r"
proof -
  let ?p = "timestamp e - sr_updated_at r"
  have r: "0 < sr_amount_per_second r" "sr_amount_per_second r \<le> 1000" "sr_start_time r \<le> sr_updated_at r"
    "sr_updated_at r \<le> timestamp e" "sr_withdrawn r \<le> sr_amount_per_second r * flowed r (sr_updated_at r)"
    using assms(1-3) by (auto simp: stream_ok_def)
  have d: "stream_duration r' = stream_duration r" by (auto simp: r' stream_duration_def)
  then have total: "stream_total r' = stream_total r" by (auto simp: stream_total_def r')
  then show "stream_owed r' = stream_owed r" using assms(2) by (auto simp: stream_owed_def stream_live_def r')
  show "sr_token r' = sr_token r" by (auto simp: r')
  have up: "uint ?p = uint (timestamp e) - uint (sr_updated_at r)" using r(4) by (simp add: uint_minus_simple_alt)
  have c: "uint (timestamp e) < 2 ^ 40" using assms(4) by (simp add: clock_ok_def)
  have ord: "uint (sr_start_time r) \<le> uint (sr_updated_at r)" "uint (sr_updated_at r) \<le> uint (timestamp e)"
    using r(3,4) by (simp_all add: word_le_def)
  have sp: "uint (sr_start_time r + ?p) = uint (sr_start_time r) + uint ?p"
    using ord up c by (simp add: uint_plus_if_size word_size)
  have start: "sr_start_time r' \<le> timestamp e"
    using r(3,4) sp ord up by (auto simp: r' word_le_def)
  have "flowed r (sr_updated_at r) \<le> flowed r' (timestamp e)"
    using ord sp up by (auto simp: flowed_def d) (auto simp: r' split: if_splits)
  then have "sr_withdrawn r \<le> sr_amount_per_second r * flowed r' (timestamp e)"
    using r(5) mult_left_mono [of "flowed r (sr_updated_at r)" "flowed r' (timestamp e)" "sr_amount_per_second r"] r(1) by linarith
  then show "stream_ok me (timestamp e) r'"
    using assms(1) start total by (auto simp: stream_ok_def r')
qed


definition streams_solvent ::
  "('tk \<Rightarrow> address \<Rightarrow> address \<Rightarrow> int) \<Rightarrow> ('tk \<Rightarrow> bool) \<Rightarrow> (address \<Rightarrow> int) \<Rightarrow> address \<Rightarrow> u64 \<Rightarrow> 'tk feature_jar \<Rightarrow> bool" where
  "streams_solvent holding ok other me now f \<longleftrightarrow>
     jar_solvent holding ok (\<lambda>t. stream_claims f t + other t) me now (fj_core f) \<and>
     book_ok (stream_ok me now) (sk_record (fj_streams f))"

lemma stream_book_mono: "book_ok (stream_ok me now) m \<Longrightarrow> now \<le> now' \<Longrightarrow> book_ok (stream_ok me now') m"
  by (auto simp: book_ok_def intro: stream_ok_mono)

lemma streams_solvent_guard:
  assumes "the_core (not_paused e) f0 = Inr f" "streams_solvent holding ok other me now f0"
  shows "streams_solvent holding ok other me now f" "same_others f0 f"
proof -
  obtain s where f: "f = f0\<lparr>fj_core := s\<rparr>" using assms(1) by (auto simp: the_core_Inr_iff)
  show "streams_solvent holding ok other me now f"
    using assms(2) not_paused_solvent(1) [OF assms(1)] by (simp add: streams_solvent_def stream_claims_def f)
  show "same_others f0 f" by (simp add: f same_others_def)
qed

lemma stream_put_simps [simp]:
  "fj_core (put_stream i r f) = fj_core f" "sk_record (fj_streams (put_stream i r f)) = (sk_record (fj_streams f))(i \<mapsto> r)"
  "fj_core (list_stream i a b f) = fj_core f" "sk_record (fj_streams (list_stream i a b f)) = sk_record (fj_streams f)"
  "fj_core (fj_emit ev f) = fj_core f" "fj_streams (fj_emit ev f) = fj_streams f"
  "same_others f0 (put_stream i r f) = same_others f0 f" "same_others f0 (list_stream i a b f) = same_others f0 f"
  "same_others f0 (fj_emit ev f) = same_others f0 f" "same_others f0 (f\<lparr>fj_core := s\<rparr>) = same_others f0 f"
  by (simp_all add: put_stream_def list_stream_def fj_emit_def same_others_def Let_def)

text \<open>A record that changes while the contract pays nothing.\<close>

lemma stream_silent:
  assumes "streams_solvent holding ok other me now f" "now \<le> now'" "sk_record (fj_streams f) i = Some r"
    and "stream_ok me now' r'" "sr_token r' = sr_token r" "stream_owed r' \<le> stream_owed r"
  shows "streams_solvent holding ok other me now' (fj_emit ev (put_stream i r' f))"
proof -
  have b: "book_ok (stream_ok me now) (sk_record (fj_streams f))"
    and j: "jar_solvent holding ok (\<lambda>t. stream_claims f t + other t) me now (fj_core f)"
    using assms(1) by (simp_all add: streams_solvent_def)
  have "jar_solvent holding ok (\<lambda>t. claims sr_token stream_owed ((sk_record (fj_streams f))(i \<mapsto> r')) t + other t) me now' (fj_core f)"
    by (rule claims_weaken [OF j _ assms(2)])
      (use streams.claims_change [OF b assms(3,5)] assms(6) in \<open>auto simp: stream_claims_def only_def\<close>)
  then show ?thesis
    using book_ok_upd [OF stream_book_mono [OF b assms(2)] assms(4)] by (simp add: streams_solvent_def stream_claims_def)
qed

context sep41_capped
begin

lemma create_stream_solvent:
  assumes run: "create_stream transfer e sender c t rate duration f0 = Inr (i, f')"
    and solv: "streams_solvent holding ledger_ok other me now f0" and ok: "call_ok me now e"
  shows "streams_solvent holding ledger_ok other me (timestamp e) f'" "same_others f0 f'"
proof -
  let ?r = "\<lambda>i. \<lparr>sr_stream_id = i, sr_sender = sender, sr_creator = c, sr_token = t,
      sr_amount_per_second = rate, sr_start_time = timestamp e, sr_end_time = timestamp e + duration, sr_withdrawn = 0,
      sr_status = StreamActive, sr_created_at = timestamp e, sr_updated_at = timestamp e\<rparr>"
  obtain f s ev where g: "the_core (not_paused e) f0 = Inr f" and rate: "0 < rate" "rate \<le> 1000" and auth: "authorized e sender"
    and tr: "lj_transfer transfer t sender me (mul_i128 rate (uint duration)) (fj_core f) = Inr s"
    and f': "f' = fj_emit ev ((list_stream i sender c (put_stream i (?r i) f))\<lparr>fj_core := s\<rparr>)"
    using run ok unfolding create_stream_def call_ok_def
    by (auto simp: result_simps Let_def linorder_not_le linorder_not_less split: if_splits intro: that)
  note S = streams_solvent_guard [OF g solv]
  have b: "book_ok (stream_ok me now) (sk_record (fj_streams f))"
    and j: "jar_solvent holding ledger_ok (\<lambda>t. stream_claims f t + other t) me now (fj_core f)"
    using S(1) by (simp_all add: streams_solvent_def)
  have le: "now \<le> timestamp e" using ok by (simp add: call_ok_def)
  have me: "sender \<noteq> me" using auth ok by (auto simp: call_ok_def)
  have total: "mul_i128 rate (uint duration) = rate * uint duration" by (rule stream_mult_exact [OF rate])
  have owed: "stream_owed (?r i) = rate * uint duration"
    by (simp add: stream_owed_def stream_live_def stream_total_def stream_duration_def)
  have good: "stream_ok me (timestamp e) (?r i)"
    using me rate by (simp add: stream_ok_def stream_total_def flowed_def stream_duration_def)
  have "jar_solvent holding ledger_ok (\<lambda>t'. claims sr_token stream_owed ((sk_record (fj_streams f))(i \<mapsto> ?r i)) t' + other t') me
      (timestamp e) s"
    by (rule deposit_claims [OF tr j me _ le])
      (use streams.claims_new [OF b, of i "?r i"] owed total rate in \<open>simp_all add: stream_claims_def\<close>)
  then show "streams_solvent holding ledger_ok other me (timestamp e) f'"
    using book_ok_upd [OF stream_book_mono [OF b le] good] unfolding f' by (simp add: streams_solvent_def stream_claims_def)
  show "same_others f0 f'" using S(2) unfolding f' by simp
qed


lemma stop_stream_solvent:
  assumes run: "stop_stream e sender i f0 = Inr f'"
    and solv: "streams_solvent holding ledger_ok other me now f0" and ok: "call_ok me now e"
  shows "streams_solvent holding ledger_ok other me (timestamp e) f'" "same_others f0 f'"
proof -
  obtain f r ev where g: "the_core (not_paused e) f0 = Inr f" and r: "sk_record (fj_streams f) i = Some r" "sr_status r = StreamActive"
    and f': "f' = fj_emit ev (put_stream i (r\<lparr>sr_status := StreamPaused, sr_withdrawn := calculate_streamed_amount e r,
      sr_updated_at := timestamp e\<rparr>) f)"
    using run unfolding stop_stream_def find_stream_def by (auto simp: result_simps Let_def split: if_splits intro: that)
  note S = streams_solvent_guard [OF g solv]
  have le: "now \<le> timestamp e" using ok by (simp add: call_ok_def)
  have good: "stream_ok me now r" using S(1) r(1) by (auto simp: streams_solvent_def intro: book_ok_get)
  have live: "stream_live r" using r(2) by (simp add: stream_live_def)
  let ?r = "r\<lparr>sr_withdrawn := calculate_streamed_amount e r, sr_status := StreamPaused, sr_updated_at := timestamp e\<rparr>"
  have "streams_solvent holding ledger_ok other me (timestamp e) (fj_emit ev (put_stream i ?r f))"
    by (rule stream_silent [OF S(1) le r(1) stream_ok_paid [OF good live le]])
      (use streamed_bounds(1) [OF good live le] in \<open>simp_all add: stream_owed_def stream_live_def r(2)\<close>)
  moreover have eq: "r\<lparr>sr_status := StreamPaused, sr_withdrawn := calculate_streamed_amount e r, sr_updated_at := timestamp e\<rparr> = ?r"
    by simp
  ultimately show "streams_solvent holding ledger_ok other me (timestamp e) f'" unfolding f' eq by blast
  show "same_others f0 f'" using S(2) unfolding f' by simp
qed

lemma start_stream_solvent:
  assumes run: "start_stream e sender i f0 = Inr f'"
    and solv: "streams_solvent holding ledger_ok other me now f0" and ok: "call_ok me now e"
  shows "streams_solvent holding ledger_ok other me (timestamp e) f'" "same_others f0 f'"
proof -
  let ?r = "\<lambda>r. (if sr_status r = StreamPaused
      then r\<lparr>sr_start_time := sr_start_time r + (timestamp e - sr_updated_at r), sr_end_time := sr_end_time r + (timestamp e - sr_updated_at r)\<rparr>
      else r)\<lparr>sr_status := StreamActive, sr_updated_at := timestamp e\<rparr>"
  obtain f r ev where g: "the_core (not_paused e) f0 = Inr f" and r: "sk_record (fj_streams f) i = Some r" "stream_live r"
    and f': "f' = fj_emit ev (put_stream i (?r r) f)"
    using run unfolding start_stream_def find_stream_def stream_live_iff
    by (auto simp: result_simps Let_def intro: that split del: if_split)
  note S = streams_solvent_guard [OF g solv]
  have le: "now \<le> timestamp e" "clock_ok e" using ok by (simp_all add: call_ok_def)
  have good: "stream_ok me now r" using S(1) r(1) by (auto simp: streams_solvent_def intro: book_ok_get)
  note R = stream_ok_resumed [OF good r(2) le refl]
  show "streams_solvent holding ledger_ok other me (timestamp e) f'"
    unfolding f' by (rule stream_silent [OF S(1) le(1) r(1) R(1,3)]) (simp only: R(2) order_refl)
  show "same_others f0 f'" using S(2) unfolding f' by simp
qed

text \<open>A record that changes while the contract pays the difference of the claims or less.\<close>

lemma stream_payout:
  assumes "streams_solvent holding ledger_ok other me now f" "now \<le> now'" "sk_record (fj_streams f) i = Some r"
    and "stream_ok me now' r'" "sr_token r' = sr_token r" "stream_owed r' + n \<le> stream_owed r"
    and "lj_transfer transfer (sr_token r) me dst n (fj_core f) = Inr s" "dst \<noteq> me" "0 \<le> n"
  shows "streams_solvent holding ledger_ok other me now' (fj_emit ev ((put_stream i r' f)\<lparr>fj_core := s\<rparr>))"
proof -
  have b: "book_ok (stream_ok me now) (sk_record (fj_streams f))"
    and j: "jar_solvent holding ledger_ok (\<lambda>t. stream_claims f t + other t) me now (fj_core f)"
    using assms(1) by (simp_all add: streams_solvent_def)
  have "jar_solvent holding ledger_ok (\<lambda>t. claims sr_token stream_owed ((sk_record (fj_streams f))(i \<mapsto> r')) t + other t) me now' s"
    by (rule payout_claims [OF assms(7) j assms(8,9,2)])
      (use streams.claims_change [OF b assms(3,5)] assms(6) in \<open>auto simp: stream_claims_def only_def\<close>)
  then show ?thesis
    using book_ok_upd [OF stream_book_mono [OF b assms(2)] assms(4)] by (simp add: streams_solvent_def stream_claims_def)
qed

lemma streamed_difference:
  assumes "stream_ok me now r" "stream_live r" "now \<le> timestamp e"
  shows "sub_i128 (calculate_streamed_amount e r) (sr_withdrawn r) = calculate_streamed_amount e r - sr_withdrawn r"
    "sub_i128 (mul_i128 (sr_amount_per_second r) (uint (sr_end_time r - sr_start_time r))) (calculate_streamed_amount e r) =
     stream_total r - calculate_streamed_amount e r"
proof -
  have r: "0 < sr_amount_per_second r" "sr_amount_per_second r \<le> 1000" "0 \<le> sr_withdrawn r" using assms(1) by (auto simp: stream_ok_def)
  note b = streamed_bounds [OF assms] and t = stream_total_range [OF assms(1)]
  have "in_i128 (stream_total r)" using t by (simp add: in_i128_nonneg I128_MAX_def)
  moreover have "in_i128 (calculate_streamed_amount e r)" using t b r(3) by (simp add: in_i128_nonneg I128_MAX_def)
  moreover have "mul_i128 (sr_amount_per_second r) (uint (sr_end_time r - sr_start_time r)) = stream_total r"
    using stream_mult_exact [OF r(1,2)] by (simp add: stream_total_def stream_duration_def)
  ultimately show "sub_i128 (calculate_streamed_amount e r) (sr_withdrawn r) = calculate_streamed_amount e r - sr_withdrawn r"
    "sub_i128 (mul_i128 (sr_amount_per_second r) (uint (sr_end_time r - sr_start_time r))) (calculate_streamed_amount e r) =
     stream_total r - calculate_streamed_amount e r"
    using b r(3) by (simp_all add: sub_i128_shrink)
qed

lemma withdraw_streamed_solvent:
  assumes run: "withdraw_streamed transfer e c i f0 = Inr f'"
    and solv: "streams_solvent holding ledger_ok other me now f0" and ok: "call_ok me now e"
  shows "streams_solvent holding ledger_ok other me (timestamp e) f'" "same_others f0 f'"
proof -
  let ?r = "\<lambda>r. (if timestamp e \<ge> sr_end_time r
      then r\<lparr>sr_withdrawn := calculate_streamed_amount e r, sr_status := StreamCompleted\<rparr>
      else r\<lparr>sr_withdrawn := calculate_streamed_amount e r\<rparr>)\<lparr>sr_updated_at := timestamp e\<rparr>"
  obtain f r s ev where g: "the_core (not_paused e) f0 = Inr f" and r: "sk_record (fj_streams f) i = Some r"
      "sr_status r \<noteq> StreamCancelled" "0 < sub_i128 (calculate_streamed_amount e r) (sr_withdrawn r)"
    and tr0: "lj_transfer transfer (sr_token (?r r)) me c (sub_i128 (calculate_streamed_amount e r) (sr_withdrawn r)) (fj_core f) = Inr s"
    and auth: "authorized e c" and f': "f' = fj_emit ev ((put_stream i (?r r) f)\<lparr>fj_core := s\<rparr>)"
    using run ok unfolding withdraw_streamed_def find_stream_def call_ok_def
    by (auto simp: result_simps Let_def linorder_not_le split del: if_split intro: that)
  have "sr_token (?r r) = sr_token r" by simp
  then have tr: "lj_transfer transfer (sr_token r) me c (sub_i128 (calculate_streamed_amount e r) (sr_withdrawn r)) (fj_core f) = Inr s"
    using tr0 by metis
  note S = streams_solvent_guard [OF g solv]
  have le: "now \<le> timestamp e" using ok by (simp add: call_ok_def)
  have good: "stream_ok me now r" using S(1) r(1) by (auto simp: streams_solvent_def intro: book_ok_get)
  have live: "stream_live r"
  proof (rule ccontr)
    assume "\<not> stream_live r"
    then have "calculate_streamed_amount e r = sr_withdrawn r" by (simp add: calculate_streamed_amount_def stream_live_def)
    then show False using r(3) by (simp add: sub_i128_def)
  qed
  have n: "sub_i128 (calculate_streamed_amount e r) (sr_withdrawn r) = calculate_streamed_amount e r - sr_withdrawn r"
    by (rule streamed_difference(1) [OF good live le])
  have me: "c \<noteq> me" using auth ok by (auto simp: call_ok_def)
  have st: "sr_status r = StreamActive \<or> sr_status r = StreamPaused" using live by (simp add: stream_live_def)
  have good': "stream_ok me (timestamp e) (?r r)"
    using stream_ok_paid [OF good live le, of StreamCompleted] stream_ok_paid [OF good live le, of "sr_status r"] st by auto
  have owed: "stream_owed (?r r) + (calculate_streamed_amount e r - sr_withdrawn r) \<le> stream_owed r"
    using live streamed_bounds(2) [OF good live le] by (auto simp: stream_owed_def stream_live_def)
  show "streams_solvent holding ledger_ok other me (timestamp e) f'"
    unfolding f' by (rule stream_payout [OF S(1) le r(1) good' _ owed tr [unfolded n] me]) (use r(3) n in simp_all)
  show "same_others f0 f'" using S(2) unfolding f' by simp
qed

lemma cancel_stream_solvent:
  assumes run: "cancel_stream transfer e sender i f0 = Inr f'"
    and solv: "streams_solvent holding ledger_ok other me now f0" and ok: "call_ok me now e"
  shows "streams_solvent holding ledger_ok other me (timestamp e) f'" "same_others f0 f'"
proof -
  let ?r = "\<lambda>r. r\<lparr>sr_status := StreamCancelled, sr_updated_at := timestamp e\<rparr>"
  let ?n = "\<lambda>r. sub_i128 (mul_i128 (sr_amount_per_second r) (uint (sr_end_time r - sr_start_time r))) (calculate_streamed_amount e r)"
  obtain f r f1 ev where g: "the_core (not_paused e) f0 = Inr f" and r: "sk_record (fj_streams f) i = Some r" "stream_live r"
    and auth: "authorized e sender" and f': "f' = fj_emit ev f1"
    and tr: "(if 0 < ?n r then the_core (lj_transfer transfer (sr_token r) me sender (?n r)) (put_stream i (?r r) f)
        else Inr (put_stream i (?r r) f)) = Inr f1"
    using run ok unfolding cancel_stream_def find_stream_def call_ok_def stream_live_iff
    by (auto simp: and_then_Inr_iff if_fail_Inr_iff ok_or_Inr_iff require_auth_Inr_iff if_fail_core_Inr_iff Let_def
        intro: that split del: if_split)
  note S = streams_solvent_guard [OF g solv]
  have le: "now \<le> timestamp e" using ok by (simp add: call_ok_def)
  have good: "stream_ok me now r" using S(1) r(1) by (auto simp: streams_solvent_def intro: book_ok_get)
  have n: "?n r = stream_total r - calculate_streamed_amount e r" by (rule streamed_difference(2) [OF good r(2) le])
  have me: "sender \<noteq> me" using auth ok by (auto simp: call_ok_def)
  have good': "stream_ok me (timestamp e) (?r r)" using good by (auto simp: stream_ok_def stream_live_def)
  have owed: "stream_owed (?r r) = 0" by (simp add: stream_owed_def stream_live_def)
  have b: "stream_owed r = stream_total r - sr_withdrawn r" "sr_withdrawn r \<le> calculate_streamed_amount e r"
      "sr_withdrawn r \<le> stream_total r"
    using r(2) streamed_bounds(1) [OF good r(2) le] good by (auto simp: stream_owed_def stream_ok_def)
  show "streams_solvent holding ledger_ok other me (timestamp e) f'"
  proof (cases "0 < ?n r")
    case True
    then obtain s where s: "lj_transfer transfer (sr_token r) me sender (?n r) (fj_core f) = Inr s"
      "f1 = (put_stream i (?r r) f)\<lparr>fj_core := s\<rparr>" using tr by (auto simp: the_core_Inr_iff)
    show ?thesis
      unfolding f' s(2) by (rule stream_payout [OF S(1) le r(1) good' _ _ s(1) me]) (use True n owed b in simp_all)
  next
    case False
    then have "f1 = put_stream i (?r r) f" using tr by simp
    then show ?thesis unfolding f' using stream_silent [OF S(1) le r(1) good'] owed b by simp
  qed
  show "same_others f0 f'" using S(2) tr unfolding f' by (auto simp: the_core_Inr_iff split: if_splits)
qed

end

end
