(* ===== verification/Legacy_Vesting.thy ===== *)
theory Legacy_Vesting
  imports Legacy_Features
begin

text \<open>
  The vesting schedules of the superseded tip jar (\<^verbatim>\<open>create_vesting_schedule\<close> to \<^verbatim>\<open>get_vesting_schedule\<close> of
  \<^verbatim>\<open>src/contracts/tipjar-legacy/src/lib.rs\<close>): a tip that the creator can withdraw little by little after a cliff. What
  the creator owes the platform is deducted from every withdrawal.
\<close>

section \<open>Operations\<close>

definition create_vesting_schedule ::
  "'tk transfer_fn \<Rightarrow> env \<Rightarrow> address \<Rightarrow> address \<Rightarrow> address \<Rightarrow> int \<Rightarrow> u64 \<Rightarrow> u64 \<Rightarrow> 'tk feature_jar \<Rightarrow>
   (u64 \<times> 'tk feature_jar) feature_result" where
  "create_vesting_schedule transfer e tipper creator t amount cliff_duration vesting_duration f0 =
     and_then (the_core (not_paused e) f0) (\<lambda>f1.
     and_then (the_core (breaker_allows e amount) f1) (\<lambda>f.
     and_then (require_auth e tipper) (\<lambda>_.
     if amount \<le> 0 then fail_core InvalidAmount
     else if vesting_duration = 0 then fail (VestingError InvalidVestingDuration)
     else if cliff_duration > vesting_duration then fail (VestingError CliffExceedsVesting)
     else if \<not> fj_whitelisted t f then fail_core TokenNotWhitelisted
     else
     let now = timestamp e;
         b = fj_vesting f;
         schedule_id = unwrap_or (vk_ctr b) 0;
         v = \<lparr>vs_id = schedule_id, vs_creator = creator, vs_tipper = tipper, vs_token = t, vs_total_amount = amount,
              vs_start_time = now, vs_cliff_duration = cliff_duration, vs_vesting_duration = vesting_duration, vs_withdrawn = 0,
              vs_created_at = now\<rparr>;
         f2 = f\<lparr>fj_vesting := b\<lparr>vk_schedule := (vk_schedule b)(schedule_id \<mapsto> v),
                vk_creator_list := (vk_creator_list b)(creator \<mapsto> unwrap_or (vk_creator_list b creator) [] @ [schedule_id]),
                vk_ctr := Some (schedule_id + 1)\<rparr>\<rparr> in
     and_then (the_core (lj_transfer transfer t tipper (contract_address e) amount) f2) (\<lambda>f3.
     Inr (schedule_id, fj_emit (EvVestNew creator tipper amount now vesting_duration cliff_duration) f3)))))"

definition calculate_vested_amount :: "env \<Rightarrow> vesting_schedule \<Rightarrow> int" where
  "calculate_vested_amount e v =
     (let now = timestamp e in
      if now < vs_start_time v + vs_cliff_duration v then 0
      else
      let elapsed = now - vs_start_time v in
      if elapsed \<ge> vs_vesting_duration v then vs_total_amount v
      else mul_i128 (vs_total_amount v) (uint elapsed) sdiv uint (vs_vesting_duration v))"

definition find_schedule :: "u64 \<Rightarrow> 'tk feature_jar \<Rightarrow> vesting_schedule feature_result" where
  "find_schedule i f =
     (if i = 0 then fail (VestingError InvalidVestingId)
      else ok_or (VestingError VestingScheduleNotFound) (vk_schedule (fj_vesting f) i))"

definition get_vested_amount :: "env \<Rightarrow> u64 \<Rightarrow> 'tk feature_jar \<Rightarrow> int feature_result" where
  "get_vested_amount e i f = and_then (find_schedule i f) (\<lambda>v. Inr (calculate_vested_amount e v))"

definition available_vested :: "env \<Rightarrow> vesting_schedule \<Rightarrow> int" where
  "available_vested e v = sat_i128 (calculate_vested_amount e v - vs_withdrawn v)"

definition get_available_vested_amount :: "env \<Rightarrow> u64 \<Rightarrow> 'tk feature_jar \<Rightarrow> int feature_result" where
  "get_available_vested_amount e i f = and_then (find_schedule i f) (\<lambda>v. Inr (available_vested e v))"

definition withdraw_vested ::
  "'tk transfer_fn \<Rightarrow> env \<Rightarrow> address \<Rightarrow> u64 \<Rightarrow> 'tk feature_jar \<Rightarrow> (int \<times> 'tk feature_jar) feature_result" where
  "withdraw_vested transfer e creator i f0 =
     and_then (the_core (not_paused e) f0) (\<lambda>f.
     and_then (require_auth e creator) (\<lambda>_.
     and_then (find_schedule i f) (\<lambda>v.
     if vs_creator v \<noteq> creator then fail_core Unauthorized
     else
     let available = available_vested e v in
     if available \<le> 0 then fail (VestingError NoVestedAmount)
     else
     (case checked_add_i128 (vs_withdrawn v) available of
        None \<Rightarrow> Inl Trapped
      | Some withdrawn \<Rightarrow>
          let b = fj_vesting f;
              f1 = f\<lparr>fj_vesting := b\<lparr>vk_schedule := (vk_schedule b)(i \<mapsto> v\<lparr>vs_withdrawn := withdrawn\<rparr>)\<rparr>\<rparr>;
              (net_amount, s) = process_repayment e creator (vs_token v) available (fj_core f1) in
          and_then (the_core (lj_transfer transfer (vs_token v) (contract_address e) creator net_amount) (f1\<lparr>fj_core := s\<rparr>)) (\<lambda>f2.
          Inr (available, fj_emit (EvVestWdr creator i available (vs_token v)) f2))))))"

definition get_vesting_schedule :: "u64 \<Rightarrow> 'tk feature_jar \<Rightarrow> vesting_schedule option" where
  "get_vesting_schedule i f = (if i = 0 then None else vk_schedule (fj_vesting f) i)"

section \<open>What a schedule holds\<close>

definition vesting_owed :: "vesting_schedule \<Rightarrow> int" where
  "vesting_owed v = vs_total_amount v - vs_withdrawn v"

definition vesting_ok :: "vesting_schedule \<Rightarrow> bool" where
  "vesting_ok v \<longleftrightarrow> 0 < vs_vesting_duration v \<and> 0 < vs_total_amount v \<and> in_i128 (vs_total_amount v) \<and>
     0 \<le> vs_withdrawn v \<and> vs_withdrawn v \<le> vs_total_amount v"

text \<open>
  The product of amount and time may wrap around; the quotient still never exceeds the total, because a product that is out of
  range is larger than the quotient of the range.
\<close>

lemma vested_le_total:
  assumes "vesting_ok v"
  shows "calculate_vested_amount e v \<le> vs_total_amount v"
proof -
  let ?n = "vs_total_amount v" and ?d = "uint (vs_vesting_duration v)" and ?x = "uint (timestamp e - vs_start_time v)"
  have v: "0 < ?n" "0 < ?d" using assms by (auto simp: vesting_ok_def word_less_def)
  have "mul_i128 ?n ?x sdiv ?d \<le> ?n" if lt: "?x < ?d"
  proof (cases "0 \<le> mul_i128 ?n ?x")
    case True
    have "mul_i128 ?n ?x \<le> ?n * ?d"
    proof (cases "in_i128 (?n * ?x)")
      case True
      then show ?thesis using v lt by (simp add: mul_i128_def mult_left_mono)
    next
      case False
      have "0 \<le> ?n * ?x" using v(1) by simp
      then have "I128_MAX < ?n * ?x" using False by (simp add: in_i128_nonneg)
      moreover have "mul_i128 ?n ?x \<le> I128_MAX" using mul_i128_in [of ?n ?x] by (simp add: in_i128_def)
      moreover have "?n * ?x \<le> ?n * ?d" using v(1) lt by (intro mult_left_mono) auto
      ultimately show ?thesis by linarith
    qed
    then have "mul_i128 ?n ?x div ?d \<le> ?n * ?d div ?d" using v(2) by (intro zdiv_mono1)
    then show ?thesis using True v(2) by (simp add: sdiv_int_nonneg)
  next
    case False
    then have "mul_i128 ?n ?x sdiv ?d \<le> 0" using v(2) by (simp add: signed_divide_int_def sgn_if pos_imp_zdiv_nonneg_iff)
    then show ?thesis using v(1) by linarith
  qed
  then show ?thesis using v(1) by (auto simp: calculate_vested_amount_def Let_def word_less_def not_le word_le_def)
qed

interpretation vesting: claim_book vs_token vesting_owed vesting_ok
  by unfold_locales (simp add: vesting_owed_def vesting_ok_def)

definition vesting_claims :: "'tk feature_jar \<Rightarrow> address \<Rightarrow> int" where
  "vesting_claims f = claims vs_token vesting_owed (vk_schedule (fj_vesting f))"

definition vesting_solvent ::
  "('tk \<Rightarrow> address \<Rightarrow> address \<Rightarrow> int) \<Rightarrow> ('tk \<Rightarrow> bool) \<Rightarrow> (address \<Rightarrow> int) \<Rightarrow> address \<Rightarrow> u64 \<Rightarrow> 'tk feature_jar \<Rightarrow> bool" where
  "vesting_solvent holding ok other me now f \<longleftrightarrow>
     jar_solvent holding ok (\<lambda>t. vesting_claims f t + other t) me now (fj_core f) \<and>
     book_ok vesting_ok (vk_schedule (fj_vesting f))"


definition vesting_frame :: "'tk feature_jar \<Rightarrow> 'tk feature_jar \<Rightarrow> bool" where
  "vesting_frame f f' \<longleftrightarrow> fj_streams f' = fj_streams f \<and> fj_auctions f' = fj_auctions f \<and> fj_tiers f' = fj_tiers f \<and>
     fj_subs f' = fj_subs f"

context sep41_capped
begin

lemma create_vesting_solvent:
  assumes run: "create_vesting_schedule transfer e tipper c t amount cliff duration f0 = Inr (i, f')"
    and solv: "vesting_solvent holding ledger_ok other me now f0" and ok: "call_ok me now e" and other: "\<And>t. 0 \<le> other t"
  shows "vesting_solvent holding ledger_ok other me (timestamp e) f'" "vesting_frame f0 f'"
proof -
  let ?v = "\<lambda>i. \<lparr>vs_id = i, vs_creator = c, vs_tipper = tipper, vs_token = t, vs_total_amount = amount,
      vs_start_time = timestamp e, vs_cliff_duration = cliff, vs_vesting_duration = duration, vs_withdrawn = 0, vs_created_at = timestamp e\<rparr>"
  obtain f1 f s ev b where g: "the_core (not_paused e) f0 = Inr f1" "the_core (breaker_allows e amount) f1 = Inr f"
    and n: "0 < amount" "duration \<noteq> 0" and auth: "authorized e tipper"
    and tr: "lj_transfer transfer t tipper me amount (fj_core f) = Inr s"
    and b: "vk_schedule b = (vk_schedule (fj_vesting f))(i \<mapsto> ?v i)" and f': "f' = fj_emit ev (f\<lparr>fj_vesting := b, fj_core := s\<rparr>)"
    using run ok unfolding create_vesting_schedule_def call_ok_def
    by (auto simp: result_simps Let_def linorder_not_le split: if_splits intro!: that)
  have f: "fj_vesting f = fj_vesting f0" "vesting_frame f0 f"
    using g by (auto simp: the_core_Inr_iff vesting_frame_def)
  have j: "jar_solvent holding ledger_ok (\<lambda>t. vesting_claims f0 t + other t) me now (fj_core f)"
    using solv breaker_solvent(1) [OF g(2) not_paused_solvent(1) [OF g(1)]] by (simp add: vesting_solvent_def)
  have bk: "book_ok vesting_ok (vk_schedule (fj_vesting f0))" using solv by (simp add: vesting_solvent_def)
  have le: "now \<le> timestamp e" using ok by (simp add: call_ok_def)
  have me: "tipper \<noteq> me" using auth ok by (auto simp: call_ok_def)
  have "jar_solvent holding ledger_ok
      (\<lambda>t'. claims vs_token vesting_owed ((vk_schedule (fj_vesting f0))(i \<mapsto> ?v i)) t' + other t') me (timestamp e) s"
    by (rule deposit_claims [OF tr j me _ le])
      (use vesting.claims_new [OF bk, of i "?v i"] n(1) in \<open>simp_all add: vesting_claims_def vesting_owed_def\<close>)
  moreover have "in_i128 amount" using deposit_cap [OF tr j me] cap_small n(1) by (simp add: in_i128_nonneg)
  then have "vesting_ok (?v i)" using n by (simp add: vesting_ok_def word_gt_0)
  ultimately show "vesting_solvent holding ledger_ok other me (timestamp e) f'"
    using book_ok_upd [OF bk] b unfolding f' by (simp add: vesting_solvent_def vesting_claims_def fj_emit_def f)
  show "vesting_frame f0 f'" using f(2) unfolding f' by (simp add: vesting_frame_def fj_emit_def)
qed

lemma withdraw_vested_solvent:
  assumes run: "withdraw_vested transfer e c i f0 = Inr (n, f')"
    and solv: "vesting_solvent holding ledger_ok other me now f0" and ok: "call_ok me now e" and other: "\<And>t. 0 \<le> other t"
  shows "vesting_solvent holding ledger_ok other me (timestamp e) f'" "vesting_frame f0 f'"
proof -
  obtain f v net s s1 ev b where g: "the_core (not_paused e) f0 = Inr f" and auth: "authorized e c"
    and v: "vk_schedule (fj_vesting f) i = Some v" and n: "n = available_vested e v" "0 < n" and nn: "in_i128 (vs_withdrawn v + n)"
    and p: "process_repayment e c (vs_token v) n (fj_core f) = (net, s)"
    and tr: "lj_transfer transfer (vs_token v) me c net s = Inr s1"
    and b: "vk_schedule b = (vk_schedule (fj_vesting f))(i \<mapsto> v\<lparr>vs_withdrawn := vs_withdrawn v + n\<rparr>)"
    and f': "f' = fj_emit ev (f\<lparr>fj_vesting := b, fj_core := s1\<rparr>)"
    using run ok unfolding withdraw_vested_def find_schedule_def call_ok_def
    by (auto simp: result_simps Let_def linorder_not_le split: if_splits option.splits prod.splits intro!: that)
  have f: "fj_vesting f = fj_vesting f0" "vesting_frame f0 f" using g by (auto simp: the_core_Inr_iff vesting_frame_def)
  let ?t = "vs_token v" and ?v = "v\<lparr>vs_withdrawn := vs_withdrawn v + n\<rparr>"
  have j: "jar_solvent holding ledger_ok (\<lambda>t. vesting_claims f0 t + other t) me now (fj_core f)"
    using solv not_paused_solvent(1) [OF g] by (simp add: vesting_solvent_def)
  have bk: "book_ok vesting_ok (vk_schedule (fj_vesting f0))" using solv by (simp add: vesting_solvent_def)
  have vok: "vesting_ok v" using book_ok_get [OF bk] v f(1) by simp
  have e: "now \<le> timestamp e" "clock_ok e" "c \<noteq> me" using ok auth by (auto simp: call_ok_def)
  have le: "n \<le> vesting_owed v"
    using vested_le_total [OF vok, of e] vok n(2) unfolding n(1)
    by (auto simp: available_vested_def vesting_owed_def vesting_ok_def sat_i128_def in_i128_def I128_MIN_def split: if_splits)
  note P = solvent_parts [OF j]
  have rest: "0 \<le> vesting_claims f0 t + other t" for t
    using vesting.claims_nonneg [OF bk, of t] other [of t] by (simp add: vesting_claims_def)
  have "vesting_owed v \<le> vesting_claims f0 ?t" using vesting.claim_le [OF bk] v f(1) by (simp add: vesting_claims_def)
  then have cap: "owed ?t (fj_core f) + n \<le> cap"
    using j le other [of ?t] holding_cap [OF P(4), of ?t me] by (auto simp: jar_solvent_def) (smt (verit))
  note a = account_le_owed [OF P(1)]
  have small: "n * 10000 \<le> I128_MAX" "fee_of ?t (fj_core f) + n \<le> I128_MAX"
    using cap cap_small a(2,6) [of ?t] n(2) by linarith+
  note sp = process_repayment_spec [OF P(3) e(1,2) less_imp_le [OF n(2)] small(1) a(6) small(2) p]
  obtain r where r: "0 \<le> r" "r \<le> n" "net = n - r" "repaid_state ?t r (fj_core f) s" using sp(1) by blast
  have m: "jar_move holding ledger_ok me (only ?t r) (only ?t 0) (fj_core f) s"
    by (rule jar_move_books [where ok = ledger_ok, OF books_move_repaid(1) [OF P(1) r(4,1)] P(4)])
  note M = jar_move_parts [OF m]
  have m': "jar_move holding ledger_ok me (only ?t (r + 0)) (only ?t (0 + - net)) (fj_core f) s1" "lj_credit s1 = lj_credit s"
    using jar_move_only_trans [OF m payout_move(1) [OF tr M(1,2) e(3)]] payout_move(2) [OF tr M(1,2) e(3)] r(2,3) by simp_all
  have tk: "vs_token ?v = ?t" "vesting_owed ?v - vesting_owed v = - n" by (simp_all add: vesting_owed_def)
  have "jar_solvent holding ledger_ok (\<lambda>t'. claims vs_token vesting_owed ((vk_schedule (fj_vesting f0))(i \<mapsto> ?v)) t' + other t') me
      (timestamp e) s1"
    by (rule jar_move_claims [OF j m'(1)])
      (use sp(2) m'(2) r(3) vesting.claims_change [OF bk v [unfolded f(1)] tk(1)] tk(2) in \<open>auto simp: credit_ok_def only_def vesting_claims_def\<close>)
  moreover have "vesting_ok ?v" using vok le n(2) by (simp add: vesting_ok_def vesting_owed_def)
  ultimately show "vesting_solvent holding ledger_ok other me (timestamp e) f'"
    using book_ok_upd [OF bk] b unfolding f' by (simp add: vesting_solvent_def vesting_claims_def fj_emit_def f)
  show "vesting_frame f0 f'" using f(2) unfolding f' by (simp add: vesting_frame_def fj_emit_def)
qed

end

end
