(* ===== verification/Legacy_Auctions.thy ===== *)
theory Legacy_Auctions
  imports Legacy_Features
begin

text \<open>
  The auctions of the superseded tip jar (\<^verbatim>\<open>create_auction\<close> to \<^verbatim>\<open>get_creator_auctions\<close> of
  \<^verbatim>\<open>src/contracts/tipjar-legacy/src/lib.rs\<close>): the contract holds the highest bid of every open auction; the settlement credits
  it to the creator like a tip, with the fee, the insurance premium and the automatic repayment taken off.
\<close>

section \<open>Operations\<close>

definition put_auction :: "u64 \<Rightarrow> auction \<Rightarrow> 'tk feature_jar \<Rightarrow> 'tk feature_jar" where
  "put_auction i a f = f\<lparr>fj_auctions := (fj_auctions f)\<lparr>ak_record := (ak_record (fj_auctions f))(i \<mapsto> a)\<rparr>\<rparr>"

definition add_creator_auction :: "address \<Rightarrow> u64 \<Rightarrow> 'tk feature_jar \<Rightarrow> 'tk feature_jar" where
  "add_creator_auction creator i f =
     f\<lparr>fj_auctions := (fj_auctions f)\<lparr>ak_creator_list :=
       (ak_creator_list (fj_auctions f))(creator \<mapsto> unwrap_or (ak_creator_list (fj_auctions f) creator) [] @ [i])\<rparr>\<rparr>"

definition create_auction ::
  "env \<Rightarrow> address \<Rightarrow> address \<Rightarrow> int \<Rightarrow> u64 \<Rightarrow> 'tk feature_jar \<Rightarrow> (u64 \<times> 'tk feature_jar) feature_result" where
  "create_auction e creator t reserve_price duration_seconds f0 =
     and_then (the_core (not_paused e) f0) (\<lambda>f.
     and_then (require_auth e creator) (\<lambda>_.
     if reserve_price < 0 then fail (AuctionError InvalidReservePrice)
     else if duration_seconds = 0 then fail (AuctionError InvalidAuctionDuration)
     else if \<not> fj_whitelisted t f then fail_core TokenNotWhitelisted
     else
     let auction_id = unwrap_or (ak_ctr (fj_auctions f)) 0;
         f1 = f\<lparr>fj_auctions := (fj_auctions f)\<lparr>ak_ctr := Some (auction_id + 1)\<rparr>\<rparr>;
         now = timestamp e;
         ends_at = sat_add_u64 now duration_seconds;
         a = \<lparr>au_auction_id = auction_id, au_creator = creator, au_token = t, au_reserve_price = reserve_price, au_highest_bid = 0,
              au_highest_bidder = None, au_ends_at = ends_at, au_created_at = now, au_settled = False\<rparr> in
     Inr (auction_id, fj_emit (EvAucCrt auction_id creator t reserve_price ends_at)
       (add_creator_auction creator auction_id (put_auction auction_id a f1)))))"

definition find_auction :: "u64 \<Rightarrow> 'tk feature_jar \<Rightarrow> auction feature_result" where
  "find_auction i f = ok_or (AuctionError AuctionNotFound) (ak_record (fj_auctions f) i)"

definition place_bid ::
  "'tk transfer_fn \<Rightarrow> env \<Rightarrow> address \<Rightarrow> u64 \<Rightarrow> int \<Rightarrow> 'tk feature_jar \<Rightarrow> 'tk feature_jar feature_result" where
  "place_bid transfer e bidder i amount f0 =
     and_then (the_core (not_paused e) f0) (\<lambda>f1.
     and_then (the_core (breaker_allows e amount) f1) (\<lambda>f.
     and_then (require_auth e bidder) (\<lambda>_.
     if amount \<le> 0 then fail_core InvalidAmount
     else
     and_then (find_auction i f) (\<lambda>a.
     if au_settled a then fail (AuctionError AuctionAlreadySettled)
     else if timestamp e \<ge> au_ends_at a then fail (AuctionError AuctionHasEnded)
     else if amount \<le> au_highest_bid a then fail (AuctionError AuctionBidTooLow)
     else if au_highest_bid a = 0 \<and> amount < au_reserve_price a then fail (AuctionError AuctionReserveNotMet)
     else
     let f2 = put_auction i (a\<lparr>au_highest_bid := amount, au_highest_bidder := Some bidder\<rparr>) f in
     and_then (the_core (lj_transfer transfer (au_token a) bidder (contract_address e) amount) f2) (\<lambda>f3.
     and_then (case au_highest_bidder a of
         Some previous \<Rightarrow> the_core (lj_transfer transfer (au_token a) (contract_address e) previous (au_highest_bid a)) f3
       | None \<Rightarrow> Inr f3) (\<lambda>f4.
     Inr (fj_emit (EvAucBid i bidder amount) f4)))))))"

text \<open>The entries of a successful settlement; each of the \<^verbatim>\<open>expect\<close>s of the source traps.\<close>

definition settle_fee :: "address \<Rightarrow> int \<Rightarrow> 'tk core_jar \<Rightarrow> 'tk core_jar core_result" where
  "settle_fee t fee s =
     (if fee > 0
      then case checked_add_i128 (fee_of t s) fee of None \<Rightarrow> Inl Trapped | Some v \<Rightarrow> Inr (set_fee_balance t v s)
      else Inr s)"

definition settle_premium :: "env \<Rightarrow> address \<Rightarrow> int \<Rightarrow> 'tk core_jar \<Rightarrow> 'tk core_jar core_result" where
  "settle_premium e t premium s =
     (if premium > 0
      then let pool = unwrap_or (in_pool (lj_insurance s) t) (new_pool e t) in
           case checked_add_i128 (ip_total_reserves pool) premium of
             None \<Rightarrow> Inl Trapped
           | Some v \<Rightarrow> Inr (put_pool t (pool\<lparr>ip_total_reserves := v\<rparr>) s)
      else Inr s)"

definition settle_credit :: "env \<Rightarrow> address \<Rightarrow> auction \<Rightarrow> int \<Rightarrow> 'tk core_jar \<Rightarrow> 'tk core_jar core_result" where
  "settle_credit e creator a creator_amount s =
     (let t = au_token a;
          existing_bal = balance_of creator t s;
          (net_amount, s1) = process_repayment e creator t creator_amount s in
      case checked_add_i128 existing_bal net_amount of
        None \<Rightarrow> Inl Trapped
      | Some new_bal \<Rightarrow>
          let s2 = set_balance creator t new_bal s1 in
          (case checked_add_i128 (total_of creator t s2) creator_amount of
             None \<Rightarrow> Inl Trapped
           | Some new_tot \<Rightarrow>
               let s3 = set_total creator t new_tot s2;
                   s4 = (case au_highest_bidder a of
                           Some winner \<Rightarrow> update_leaderboard_stats winner creator creator_amount s3
                         | None \<Rightarrow> s3) in
               check_and_award_milestones creator t new_tot (track_creator_token creator t s4)))"

definition settle_books :: "env \<Rightarrow> address \<Rightarrow> auction \<Rightarrow> 'tk core_jar \<Rightarrow> 'tk core_jar core_result" where
  "settle_books e creator a s =
     (let bid = au_highest_bid a;
          fee = bps_of bid (unwrap_or (lj_fee_bps s) 0);
          ins_premium = tip_premium bid s;
          creator_amount = net_of bid fee ins_premium in
      and_then (settle_fee (au_token a) fee s) (\<lambda>s1.
      and_then (settle_premium e (au_token a) ins_premium s1) (\<lambda>s2.
      if creator_amount > 0 then settle_credit e creator a creator_amount s2 else Inr s2)))"

definition settle_auction ::
  "'tk transfer_fn \<Rightarrow> env \<Rightarrow> address \<Rightarrow> u64 \<Rightarrow> 'tk feature_jar \<Rightarrow> 'tk feature_jar feature_result" where
  "settle_auction transfer e creator i f0 =
     and_then (the_core (not_paused e) f0) (\<lambda>f.
     and_then (require_auth e creator) (\<lambda>_.
     and_then (find_auction i f) (\<lambda>a.
     if au_creator a \<noteq> creator then fail (AuctionError AuctionUnauthorized)
     else if au_settled a then fail (AuctionError AuctionAlreadySettled)
     else if timestamp e < au_ends_at a then fail (AuctionError AuctionNotEnded)
     else
     let f1 = put_auction i (a\<lparr>au_settled := True\<rparr>) f in
     if au_highest_bid a = 0 \<or> au_highest_bid a < au_reserve_price a
     then
       and_then (case au_highest_bidder a of
           Some winner \<Rightarrow> the_core (lj_transfer transfer (au_token a) (contract_address e) winner (au_highest_bid a)) f1
         | None \<Rightarrow> Inr f1) (\<lambda>f2.
       Inr (fj_emit (EvAucFail i (au_highest_bidder a) (au_highest_bid a)) f2))
     else
       and_then (the_core (settle_books e creator a) f1) (\<lambda>f2.
       Inr (fj_emit (EvAucSett i creator (au_highest_bid a) (au_token a)) f2)))))"

section \<open>What an auction holds\<close>

definition auction_owed :: "auction \<Rightarrow> int" where
  "auction_owed a = (if au_settled a then 0 else au_highest_bid a)"

definition auction_ok :: "address \<Rightarrow> auction \<Rightarrow> bool" where
  "auction_ok me a \<longleftrightarrow> 0 \<le> au_highest_bid a \<and> au_highest_bidder a \<noteq> Some me \<and> (au_highest_bidder a = None \<longrightarrow> au_highest_bid a = 0)"

interpretation auctions: claim_book au_token auction_owed "auction_ok me" for me
  by unfold_locales (simp add: auction_owed_def auction_ok_def)

definition auction_claims :: "'tk feature_jar \<Rightarrow> address \<Rightarrow> int" where
  "auction_claims f = claims au_token auction_owed (ak_record (fj_auctions f))"

definition auctions_solvent ::
  "('tk \<Rightarrow> address \<Rightarrow> address \<Rightarrow> int) \<Rightarrow> ('tk \<Rightarrow> bool) \<Rightarrow> (address \<Rightarrow> int) \<Rightarrow> address \<Rightarrow> u64 \<Rightarrow> 'tk feature_jar \<Rightarrow> bool" where
  "auctions_solvent holding ok other me now f \<longleftrightarrow>
     jar_solvent holding ok (\<lambda>t. auction_claims f t + other t) me now (fj_core f) \<and>
     book_ok (auction_ok me) (ak_record (fj_auctions f))"

definition auction_frame :: "'tk feature_jar \<Rightarrow> 'tk feature_jar \<Rightarrow> bool" where
  "auction_frame f f' \<longleftrightarrow> fj_streams f' = fj_streams f \<and> fj_vesting f' = fj_vesting f \<and> fj_tiers f' = fj_tiers f \<and>
     fj_subs f' = fj_subs f"

lemma auction_put_simps [simp]:
  "fj_core (put_auction i a f) = fj_core f" "ak_record (fj_auctions (put_auction i a f)) = (ak_record (fj_auctions f))(i \<mapsto> a)"
  "fj_core (add_creator_auction c i f) = fj_core f" "ak_record (fj_auctions (add_creator_auction c i f)) = ak_record (fj_auctions f)"
  "auction_frame f0 (put_auction i a f) = auction_frame f0 f" "auction_frame f0 (add_creator_auction c i f) = auction_frame f0 f"
  "auction_frame f0 (fj_emit ev f) = auction_frame f0 f" "auction_frame f0 (f\<lparr>fj_core := s\<rparr>) = auction_frame f0 f"
  "fj_core (fj_emit ev f) = fj_core f" "fj_auctions (fj_emit ev f) = fj_auctions f"
  by (simp_all add: put_auction_def add_creator_auction_def fj_emit_def auction_frame_def)

lemma auctions_guard:
  assumes "the_core (not_paused e) f0 = Inr f" "auctions_solvent holding ok other me now f0"
  shows "auctions_solvent holding ok other me now f" "auction_frame f0 f"
proof -
  obtain s where f: "f = f0\<lparr>fj_core := s\<rparr>" using assms(1) by (auto simp: the_core_Inr_iff)
  show "auctions_solvent holding ok other me now f"
    using assms(2) not_paused_solvent(1) [OF assms(1)] by (simp add: auctions_solvent_def auction_claims_def f)
  show "auction_frame f0 f" by (simp add: f auction_frame_def)
qed

lemma auctions_breaker:
  assumes "the_core (breaker_allows e n) f0 = Inr f" "auctions_solvent holding ok other me now f0"
  shows "auctions_solvent holding ok other me now f" "auction_frame f0 f"
proof -
  obtain s where f: "f = f0\<lparr>fj_core := s\<rparr>" using assms(1) by (auto simp: the_core_Inr_iff)
  show "auctions_solvent holding ok other me now f"
    using assms(2) breaker_solvent(1) [OF assms(1)] by (simp add: auctions_solvent_def auction_claims_def f)
  show "auction_frame f0 f" by (simp add: f auction_frame_def)
qed


section \<open>The entries of a settlement\<close>

lemma settle_fee_move:
  assumes "settle_fee t f s = Inr s'" "accounts_ok s" "0 \<le> f"
  shows "books_move t f s s'" "lj_credit s' = lj_credit s" "in_cfg (lj_insurance s') = in_cfg (lj_insurance s)"
proof -
  have "s' = (if f > 0 then set_fee_balance t (fee_of t s + f) s else s)"
    using assms(1) by (auto simp: settle_fee_def result_simps split: if_splits option.splits)
  then show "books_move t f s s'" "lj_credit s' = lj_credit s" "in_cfg (lj_insurance s') = in_cfg (lj_insurance s)"
    using fee_move [OF assms(2,3)] by (simp_all add: set_fee_balance_def)
qed

lemma settle_premium_move:
  assumes "settle_premium e t p s = Inr s'" "accounts_ok s" "0 \<le> p" "owed t s + p \<le> I128_MAX"
  shows "books_move t p s s'" "lj_credit s' = lj_credit s"
proof -
  have "s' = add_premium e t p s"
    using assms(1) by (auto simp: settle_premium_def add_premium_def Let_def result_simps add_i128_def split: if_splits option.splits)
  then show "books_move t p s s'" "lj_credit s' = lj_credit s" using premium_move [OF assms(2-4)] by simp_all
qed

lemma settle_credit_move:
  assumes run: "settle_credit e c a n s = Inr s'"
    and ok: "accounts_ok s" "credit_ok now s" "now \<le> timestamp e" "clock_ok e" "settings_ok s"
    and n: "0 \<le> n" "n * 10000 \<le> I128_MAX" "owed (au_token a) s + n \<le> I128_MAX"
  shows "books_move (au_token a) n s s'" "credit_ok (timestamp e) s'"
proof -
  let ?t = "au_token a"
  obtain net s1 where p: "process_repayment e c ?t n s = (net, s1)" by fastforce
  note m = credit_move [OF ok(1-4) n p]
  obtain tot s4 where q: "quiet (set_balance c ?t (balance_of c ?t s + net) s1) s4"
    and s4: "check_and_award_milestones c ?t tot s4 = Inr s'"
    using run p by (auto simp: settle_credit_def Let_def result_simps split: option.splits intro!: that)
  have m3: "books_move ?t n s s4" by (rule books_then_quiet [OF m(1) q])
  have "settings s4 = settings s" using m3 by (simp add: books_move_def)
  then have "settings_ok s4" using ok(5) settings_ok_cong by blast
  then have "s' = s4" using s4 no_milestones [of s4] by simp
  then show "books_move ?t n s s'" "credit_ok (timestamp e) s'" using m3 m(2) quiet_credit [OF q] by simp_all
qed

lemma settle_books_move:
  assumes run: "settle_books e c a s = Inr s'"
    and ok: "accounts_ok s" "credit_ok now s" "now \<le> timestamp e" "clock_ok e" "settings_ok s"
    and n: "0 \<le> au_highest_bid a" "au_highest_bid a * 10000 \<le> I128_MAX" "owed (au_token a) s + au_highest_bid a \<le> I128_MAX"
  shows "books_move (au_token a) (au_highest_bid a) s s'" "credit_ok (timestamp e) s'"
proof -
  let ?t = "au_token a" and ?n = "au_highest_bid a"
  let ?f = "bps_of ?n (unwrap_or (lj_fee_bps s) 0)" and ?p = "tip_premium ?n s"
  note sh = tip_shares [OF ok(5) n(1,2)]
  have small: "?f + ?p \<le> ?n" "?n \<le> I128_MAX" using sh n by linarith+
  note net = net_of_exact [OF sh(1,2) small]
  obtain s1 s2 where s1: "settle_fee ?t ?f s = Inr s1" and s2: "settle_premium e ?t ?p s1 = Inr s2"
    and s': "if 0 < ?n - ?f - ?p then settle_credit e c a (?n - ?f - ?p) s2 = Inr s' else s' = s2"
    using run unfolding settle_books_def net Let_def by (auto simp: result_simps split: if_splits)
  note m1 = settle_fee_move [OF s1 ok(1) sh(1)]
  have o1: "owed ?t s1 = owed ?t s + ?f" using m1(1) by (simp add: books_move_def)
  have "owed ?t s1 + ?p \<le> I128_MAX" using o1 n(3) small by linarith
  note m2 = settle_premium_move [OF s2 books_move_ok [OF m1(1)] sh(2) this]
  have m12: "books_move ?t (?f + ?p) s s2" by (rule books_move_trans [OF m1(1) m2(1)])
  have o2: "owed ?t s2 = owed ?t s + ?f + ?p" using m12 by (simp add: books_move_def)
  have c2: "credit_ok now s2" using ok(2) m1(2) m2(2) by (simp add: credit_ok_def)
  have "settings s2 = settings s" using m12 by (simp add: books_move_def)
  then have set2: "settings_ok s2" using ok(5) settings_ok_cong by blast
  show "books_move ?t ?n s s'" "credit_ok (timestamp e) s'"
  proof -
    have "books_move ?t ?n s s' \<and> credit_ok (timestamp e) s'"
    proof (cases "0 < ?n - ?f - ?p")
      case True
      have k: "0 \<le> ?n - ?f - ?p" "(?n - ?f - ?p) * 10000 \<le> I128_MAX" "owed ?t s2 + (?n - ?f - ?p) \<le> I128_MAX"
        using True n sh o2 by auto
      note m3 = settle_credit_move [OF _ books_move_ok [OF m12] c2 ok(3,4) set2 k]
      show ?thesis using m3 books_move_trans [OF m12 m3(1)] s' True by simp
    next
      case False
      then have "?n = ?f + ?p" using small(1) by linarith
      then show ?thesis using m12 s' False c2 credit_ok_mono [OF _ ok(3)] by simp
    qed
    then show "books_move ?t ?n s s'" "credit_ok (timestamp e) s'" by simp_all
  qed
qed


section \<open>Solvency\<close>

lemma auction_silent:
  assumes "auctions_solvent holding ok other me now f" "now \<le> now'" "ak_record (fj_auctions f) i = Some a"
    and "auction_ok me a'" "au_token a' = au_token a" "auction_owed a' \<le> auction_owed a"
  shows "auctions_solvent holding ok other me now' (fj_emit ev (put_auction i a' f))"
proof -
  have b: "book_ok (auction_ok me) (ak_record (fj_auctions f))"
    and j: "jar_solvent holding ok (\<lambda>t. auction_claims f t + other t) me now (fj_core f)"
    using assms(1) by (simp_all add: auctions_solvent_def)
  have "jar_solvent holding ok (\<lambda>t. claims au_token auction_owed ((ak_record (fj_auctions f))(i \<mapsto> a')) t + other t) me now' (fj_core f)"
    by (rule claims_weaken [OF j _ assms(2)])
      (use auctions.claims_change [OF b assms(3,5)] assms(6) in \<open>auto simp: auction_claims_def only_def\<close>)
  then show ?thesis using book_ok_upd [OF b assms(4)] by (simp add: auctions_solvent_def auction_claims_def)
qed

lemma create_auction_solvent:
  assumes run: "create_auction e c t reserve duration f0 = Inr (i, f')"
    and solv: "auctions_solvent holding ok other me now f0" and le: "now \<le> timestamp e"
  shows "auctions_solvent holding ok other me (timestamp e) f'" "auction_frame f0 f'"
proof -
  obtain f a where g: "the_core (not_paused e) f0 = Inr f"
    and f': "fj_core f' = fj_core f" "ak_record (fj_auctions f') = (ak_record (fj_auctions f))(i \<mapsto> a)" "auction_frame f f'"
    and a: "au_highest_bid a = 0" "au_highest_bidder a = None"
    using run unfolding create_auction_def
    by (auto simp: result_simps Let_def auction_frame_def fj_emit_def add_creator_auction_def put_auction_def)
  note S = auctions_guard [OF g solv]
  have b: "book_ok (auction_ok me) (ak_record (fj_auctions f))"
    and j: "jar_solvent holding ok (\<lambda>t. auction_claims f t + other t) me now (fj_core f)"
    using S(1) by (simp_all add: auctions_solvent_def)
  have "auction_owed a = 0" using a by (simp add: auction_owed_def)
  then have "jar_solvent holding ok (\<lambda>t. auction_claims f' t + other t) me (timestamp e) (fj_core f')"
    unfolding f'(1) by (intro claims_weaken [OF j _ le])
      (use auctions.claims_new [OF b, of i a] in \<open>simp add: auction_claims_def f'(2)\<close>)
  then show "auctions_solvent holding ok other me (timestamp e) f'"
    using book_ok_upd [OF b, of a i] a by (simp add: auctions_solvent_def f'(2) auction_ok_def)
  show "auction_frame f0 f'" using S(2) f'(3) by (simp add: auction_frame_def)
qed

context sep41_capped
begin

lemma auction_refund:
  assumes "(case au_highest_bidder a of Some w \<Rightarrow> the_core (lj_transfer transfer (au_token a) me w (au_highest_bid a)) f | None \<Rightarrow> Inr f) = Inr f'"
    and "auction_ok me a" "jar_solvent holding ledger_ok rest me now (fj_core f)"
    and "\<And>t. rest' t + only (au_token a) (au_highest_bid a) t \<le> rest t"
  shows "jar_solvent holding ledger_ok rest' me now (fj_core f')" "\<exists>s. f' = f\<lparr>fj_core := s\<rparr>"
proof -
  have "jar_solvent holding ledger_ok rest' me now (fj_core f') \<and> (\<exists>s. f' = f\<lparr>fj_core := s\<rparr>)"
  proof (cases "au_highest_bidder a")
    case None
    then have "au_highest_bid a = 0" using assms(2) by (simp add: auction_ok_def)
    then show ?thesis using assms(1,4) None claims_weaken [OF assms(3), of rest' now] by (auto intro: exI [of _ "fj_core f"])
  next
    case (Some w)
    then obtain s where s: "lj_transfer transfer (au_token a) me w (au_highest_bid a) (fj_core f) = Inr s" "f' = f\<lparr>fj_core := s\<rparr>"
      using assms(1) by (auto simp: the_core_Inr_iff)
    have "w \<noteq> me" "0 \<le> au_highest_bid a" using assms(2) Some by (auto simp: auction_ok_def)
    then show ?thesis using payout_claims [OF s(1) assms(3) _ _ order_refl assms(4)] s(2) by auto
  qed
  then show "jar_solvent holding ledger_ok rest' me now (fj_core f')" "\<exists>s. f' = f\<lparr>fj_core := s\<rparr>" by simp_all
qed

lemma place_bid_solvent:
  assumes run: "place_bid transfer e bidder i n f0 = Inr f'"
    and solv: "auctions_solvent holding ledger_ok other me now f0" and ok: "call_ok me now e"
  shows "auctions_solvent holding ledger_ok other me (timestamp e) f'" "auction_frame f0 f'"
proof -
  let ?a = "\<lambda>a. a\<lparr>au_highest_bid := n, au_highest_bidder := Some bidder\<rparr>"
  obtain f1 f a f3 f4 ev where g: "the_core (not_paused e) f0 = Inr f1" "the_core (breaker_allows e n) f1 = Inr f"
    and auth: "authorized e bidder" and n: "0 < n" and a: "ak_record (fj_auctions f) i = Some a" "\<not> au_settled a"
    and f3: "the_core (lj_transfer transfer (au_token a) bidder me n) (put_auction i (?a a) f) = Inr f3"
    and f4: "(case au_highest_bidder a of
        Some w \<Rightarrow> the_core (lj_transfer transfer (au_token a) me w (au_highest_bid a)) f3
      | None \<Rightarrow> Inr f3) = Inr f4"
    and f': "f' = fj_emit ev f4"
    using run ok unfolding place_bid_def find_auction_def call_ok_def
    by (auto simp: and_then_Inr_iff if_fail_Inr_iff if_fail_core_Inr_iff ok_or_Inr_iff require_auth_Inr_iff Let_def linorder_not_le intro!: that)
  obtain s where s: "lj_transfer transfer (au_token a) bidder me n (fj_core f) = Inr s" and f3': "f3 = (put_auction i (?a a) f)\<lparr>fj_core := s\<rparr>"
    using f3 by (auto simp: the_core_Inr_iff)
  note S1 = auctions_guard [OF g(1) solv] and S = auctions_breaker [OF g(2)]
  have b: "book_ok (auction_ok me) (ak_record (fj_auctions f))"
    and j: "jar_solvent holding ledger_ok (\<lambda>t. auction_claims f t + other t) me now (fj_core f)"
    using S(1) [OF S1(1)] by (simp_all add: auctions_solvent_def)
  have me: "bidder \<noteq> me" and le: "now \<le> timestamp e" using auth ok by (auto simp: call_ok_def)
  have aok: "auction_ok me a" using book_ok_get [OF b a(1)] .
  have "jar_solvent holding ledger_ok (\<lambda>t. auction_claims f t + other t + only (au_token a) n t) me (timestamp e) s"
    by (rule deposit_claims [OF s j me _ le]) (use n in simp_all)
  then have mid: "jar_solvent holding ledger_ok (\<lambda>t. auction_claims f t + other t + only (au_token a) n t) me (timestamp e)
      (fj_core ((put_auction i (?a a) f)\<lparr>fj_core := s\<rparr>))" by simp
  have ch: "claims au_token auction_owed ((ak_record (fj_auctions f))(i \<mapsto> ?a a)) t =
      auction_claims f t + only (au_token a) (n - au_highest_bid a) t" for t
    using auctions.claims_change [OF b a(1), of "?a a" t] a(2) by (simp add: auction_claims_def auction_owed_def)
  have fin: "jar_solvent holding ledger_ok (\<lambda>t. claims au_token auction_owed ((ak_record (fj_auctions f))(i \<mapsto> ?a a)) t + other t) me
      (timestamp e) (fj_core f4)" "\<exists>s. f4 = (put_auction i (?a a) f)\<lparr>fj_core := s\<rparr>"
    using auction_refund [OF f4 [unfolded f3'] aok mid, of "\<lambda>t. claims au_token auction_owed ((ak_record (fj_auctions f))(i \<mapsto> ?a a)) t + other t"]
    by (auto simp: ch only_def)
  then obtain s4 where f4': "f4 = (put_auction i (?a a) f)\<lparr>fj_core := s4\<rparr>" by blast
  have "auction_ok me (?a a)" using n me by (simp add: auction_ok_def)
  then show "auctions_solvent holding ledger_ok other me (timestamp e) f'"
    using fin(1) book_ok_upd [OF b] unfolding f' by (simp add: auctions_solvent_def auction_claims_def f4')
  show "auction_frame f0 f'" using S1(2) S(2) [OF S1(1)] unfolding f' f4' by (simp add: auction_frame_def put_auction_def fj_emit_def)
qed

lemma settle_auction_solvent:
  assumes run: "settle_auction transfer e c i f0 = Inr f'"
    and solv: "auctions_solvent holding ledger_ok other me now f0" and ok: "call_ok me now e" and other: "\<And>t. 0 \<le> other t"
  shows "auctions_solvent holding ledger_ok other me (timestamp e) f'" "auction_frame f0 f'"
proof -
  let ?a = "\<lambda>a. a\<lparr>au_settled := True\<rparr>"
  obtain f a f2 ev where g: "the_core (not_paused e) f0 = Inr f"
    and a: "ak_record (fj_auctions f) i = Some a" "\<not> au_settled a"
    and f2: "(case au_highest_bidder a of
        Some w \<Rightarrow> the_core (lj_transfer transfer (au_token a) me w (au_highest_bid a)) (put_auction i (?a a) f)
      | None \<Rightarrow> Inr (put_auction i (?a a) f)) = Inr f2 \<or>
      the_core (settle_books e c a) (put_auction i (?a a) f) = Inr f2"
    and f': "f' = fj_emit ev f2"
    using run ok unfolding settle_auction_def find_auction_def call_ok_def
    by (auto simp: and_then_Inr_iff if_fail_Inr_iff ok_or_Inr_iff require_auth_Inr_iff Let_def split: if_splits intro!: that)
  note S = auctions_guard [OF g solv]
  have b: "book_ok (auction_ok me) (ak_record (fj_auctions f))"
    and j: "jar_solvent holding ledger_ok (\<lambda>t. auction_claims f t + other t) me now (fj_core f)"
    using S(1) by (simp_all add: auctions_solvent_def)
  have le: "now \<le> timestamp e" "clock_ok e" using ok by (auto simp: call_ok_def)
  have aok: "auction_ok me a" using book_ok_get [OF b a(1)] .
  then have pos: "0 \<le> au_highest_bid a" by (simp add: auction_ok_def)
  let ?rest = "\<lambda>t. claims au_token auction_owed ((ak_record (fj_auctions f))(i \<mapsto> ?a a)) t + other t"
  have ch: "?rest t = auction_claims f t + other t + only (au_token a) (- au_highest_bid a) t" for t
    using auctions.claims_change [OF b a(1), of "?a a" t] a(2) by (simp add: auction_claims_def auction_owed_def)
  have res: "jar_solvent holding ledger_ok ?rest me (timestamp e) (fj_core f2) \<and> (\<exists>s. f2 = (put_auction i (?a a) f)\<lparr>fj_core := s\<rparr>)"
    using f2
  proof
    assume r: "(case au_highest_bidder a of
        Some w \<Rightarrow> the_core (lj_transfer transfer (au_token a) me w (au_highest_bid a)) (put_auction i (?a a) f)
      | None \<Rightarrow> Inr (put_auction i (?a a) f)) = Inr f2"
    have "jar_solvent holding ledger_ok (\<lambda>t. auction_claims f t + other t) me (timestamp e) (fj_core (put_auction i (?a a) f))"
      using solvent_later [OF j le(1)] by simp
    from auction_refund [OF r aok this, of ?rest] show ?thesis by (auto simp: ch only_def)
  next
    assume "the_core (settle_books e c a) (put_auction i (?a a) f) = Inr f2"
    then obtain s where s: "settle_books e c a (fj_core f) = Inr s" "f2 = (put_auction i (?a a) f)\<lparr>fj_core := s\<rparr>"
      by (auto simp: the_core_Inr_iff)
    note P = solvent_parts [OF j]
    have "auction_owed a \<le> auction_claims f (au_token a)" using auctions.claim_le [OF b a(1)] by (simp add: auction_claims_def)
    then have cap: "owed (au_token a) (fj_core f) + au_highest_bid a \<le> cap"
      using j other [of "au_token a"] holding_cap [OF P(4), of "au_token a" me] a(2)
      by (auto simp: jar_solvent_def auction_owed_def) (smt (verit))
    have small: "au_highest_bid a * 10000 \<le> I128_MAX" "owed (au_token a) (fj_core f) + au_highest_bid a \<le> I128_MAX"
      using cap cap_small account_le_owed(2,6) [OF P(1), of "au_token a"] pos by linarith+
    note m = settle_books_move [OF s(1) P(1,3) le P(2) pos small]
    have "jar_solvent holding ledger_ok ?rest me (timestamp e) s"
      by (rule jar_move_claims [OF j jar_move_books [where ok = ledger_ok, OF m(1) P(4)] m(2)]) (simp add: ch only_def)
    then show ?thesis using s(2) by auto
  qed
  then obtain s where s: "f2 = (put_auction i (?a a) f)\<lparr>fj_core := s\<rparr>" by blast
  have "auction_ok me (?a a)" using aok by (simp add: auction_ok_def)
  then show "auctions_solvent holding ledger_ok other me (timestamp e) f'"
    using res book_ok_upd [OF b] unfolding f' by (simp add: auctions_solvent_def auction_claims_def s)
  show "auction_frame f0 f'" using S(2) unfolding f' s by simp
qed

end

end
