(* ===== verification/Legacy_Subscriptions.thy ===== *)
theory Legacy_Subscriptions
  imports Legacy_Features
begin

text \<open>
  The subscriptions of the superseded tip jar (\<^verbatim>\<open>set_tier_config\<close> to \<^verbatim>\<open>get_subscription\<close> of
  \<^verbatim>\<open>src/contracts/tipjar-legacy/src/lib.rs\<close>): recurring tips, with tiers whose prices the admin sets. A payment moves the money
  of the subscriber into the contract and credits the creator.
\<close>

section \<open>Operations\<close>

definition MIN_INTERVAL :: u64 where "MIN_INTERVAL = 86400"

definition set_tier_config :: "env \<Rightarrow> address \<Rightarrow> sub_tier \<Rightarrow> int \<Rightarrow> string \<Rightarrow> 'tk feature_jar \<Rightarrow> 'tk feature_jar feature_result" where
  "set_tier_config e admin tier price benefits f =
     and_then (core_do (admin_only e admin (fj_core f))) (\<lambda>_.
     if price \<le> 0 then fail_core InvalidAmount
     else Inr (fj_emit (EvTierSet tier price)
       (f\<lparr>fj_tiers := (fj_tiers f)(tier \<mapsto> \<lparr>tc_price = price, tc_benefits = benefits\<rparr>)\<rparr>)))"

definition get_tier_benefits :: "sub_tier \<Rightarrow> 'tk feature_jar \<Rightarrow> string option" where
  "get_tier_benefits tier f = map_option tc_benefits (fj_tiers f tier)"

definition put_sub :: "tip_subscription \<Rightarrow> 'tk feature_jar \<Rightarrow> 'tk feature_jar" where
  "put_sub sub f = f\<lparr>fj_subs := (fj_subs f)((sb_subscriber sub, sb_creator sub) \<mapsto> sub)\<rparr>"

definition new_sub :: "env \<Rightarrow> address \<Rightarrow> address \<Rightarrow> address \<Rightarrow> int \<Rightarrow> u64 \<Rightarrow> sub_tier \<Rightarrow> tip_subscription" where
  "new_sub e subscriber creator t amount interval tier =
     \<lparr>sb_subscriber = subscriber, sb_creator = creator, sb_token = t, sb_amount = amount, sb_interval_seconds = interval,
      sb_last_payment = 0, sb_next_payment = timestamp e, sb_status = SubActive, sb_tier = tier, sb_pending_tier = TierNone\<rparr>"

definition create_subscription ::
  "env \<Rightarrow> address \<Rightarrow> address \<Rightarrow> address \<Rightarrow> int \<Rightarrow> u64 \<Rightarrow> 'tk feature_jar \<Rightarrow> 'tk feature_jar feature_result" where
  "create_subscription e subscriber creator t amount interval f0 =
     and_then (the_core (not_paused e) f0) (\<lambda>f1.
     and_then (the_core (feature_not_paused e Subscriptions) f1) (\<lambda>f2.
     and_then (the_core (breaker_allows e amount) f2) (\<lambda>f.
     and_then (require_auth e subscriber) (\<lambda>_.
     if amount \<le> 0 then fail_core InvalidAmount
     else if interval < MIN_INTERVAL then fail (SubscriptionError InvalidInterval)
     else Inr (fj_emit (EvSub ''sub_new'' creator subscriber amount interval)
       (put_sub (new_sub e subscriber creator t amount interval TierBronze) f))))))"

definition create_tiered_subscription ::
  "env \<Rightarrow> address \<Rightarrow> address \<Rightarrow> address \<Rightarrow> sub_tier \<Rightarrow> u64 \<Rightarrow> 'tk feature_jar \<Rightarrow> 'tk feature_jar feature_result" where
  "create_tiered_subscription e subscriber creator t tier interval f0 =
     and_then (the_core (not_paused e) f0) (\<lambda>f1.
     and_then (require_auth e subscriber) (\<lambda>_.
     and_then (ok_or (SubscriptionError TierNotConfigured) (fj_tiers f1 tier)) (\<lambda>config.
     and_then (the_core (breaker_allows e (tc_price config)) f1) (\<lambda>f.
     if interval < MIN_INTERVAL then fail (SubscriptionError InvalidInterval)
     else Inr (fj_emit (EvSub ''sub_new'' creator subscriber (tc_price config) interval)
       (put_sub (new_sub e subscriber creator t (tc_price config) interval tier) f))))))"

definition find_sub :: "address \<Rightarrow> address \<Rightarrow> 'tk feature_jar \<Rightarrow> tip_subscription feature_result" where
  "find_sub subscriber creator f = ok_or (SubscriptionError SubscriptionNotFound) (fj_subs f (subscriber, creator))"

text \<open>The money of a payment and its entries, with the wrapping additions of the source.\<close>

definition charge_sub ::
  "'tk transfer_fn \<Rightarrow> env \<Rightarrow> address \<Rightarrow> address \<Rightarrow> address \<Rightarrow> int \<Rightarrow> 'tk core_jar \<Rightarrow> 'tk core_jar core_result" where
  "charge_sub transfer e subscriber creator t amount s0 =
     and_then (lj_transfer transfer t subscriber (contract_address e) amount s0) (\<lambda>s.
     let bal = balance_of creator t s;
         (net_amount, s1) = process_repayment e creator t amount s;
         s2 = set_balance creator t (add_i128 bal net_amount) s1 in
     Inr (set_total creator t (add_i128 (total_of creator t s2) amount) s2))"

definition upgrade_subscription ::
  "'tk transfer_fn \<Rightarrow> env \<Rightarrow> address \<Rightarrow> address \<Rightarrow> sub_tier \<Rightarrow> 'tk feature_jar \<Rightarrow> 'tk feature_jar feature_result" where
  "upgrade_subscription transfer e subscriber creator new_tier f0 =
     and_then (the_core (not_paused e) f0) (\<lambda>f1.
     and_then (require_auth e subscriber) (\<lambda>_.
     and_then (find_sub subscriber creator f1) (\<lambda>sub.
     if sb_status sub \<noteq> SubActive then fail (SubscriptionError SubscriptionNotActive)
     else
     and_then (ok_or (SubscriptionError TierNotConfigured) (fj_tiers f1 new_tier)) (\<lambda>config.
     and_then (the_core (breaker_allows e (tc_price config)) f1) (\<lambda>f2.
     and_then (the_core (charge_sub transfer e subscriber creator (sb_token sub) (tc_price config)) f2) (\<lambda>f.
     let now = timestamp e;
         sub' = sub\<lparr>sb_tier := new_tier, sb_amount := tc_price config, sb_last_payment := now,
                    sb_next_payment := now + sb_interval_seconds sub, sb_pending_tier := TierNone\<rparr> in
     Inr (fj_emit (EvSub ''sub_upgr'' creator subscriber (tc_price config) 0)
       (f\<lparr>fj_subs := (fj_subs f)((subscriber, creator) \<mapsto> sub')\<rparr>))))))))"

definition downgrade_subscription ::
  "env \<Rightarrow> address \<Rightarrow> address \<Rightarrow> sub_tier \<Rightarrow> 'tk feature_jar \<Rightarrow> 'tk feature_jar feature_result" where
  "downgrade_subscription e subscriber creator new_tier f0 =
     and_then (the_core (not_paused e) f0) (\<lambda>f.
     and_then (require_auth e subscriber) (\<lambda>_.
     and_then (find_sub subscriber creator f) (\<lambda>sub.
     if sb_status sub \<noteq> SubActive then fail (SubscriptionError SubscriptionNotActive)
     else
     and_then (ok_or (SubscriptionError TierNotConfigured) (fj_tiers f new_tier)) (\<lambda>config.
     Inr (fj_emit (EvSub ''sub_dngr'' creator subscriber (tc_price config) 0)
       (f\<lparr>fj_subs := (fj_subs f)((subscriber, creator) \<mapsto> sub\<lparr>sb_pending_tier := new_tier\<rparr>)\<rparr>))))))"

definition apply_pending_tier :: "(sub_tier \<rightharpoonup> tier_config) \<Rightarrow> tip_subscription \<Rightarrow> tip_subscription" where
  "apply_pending_tier tiers sub =
     (if sb_pending_tier sub \<noteq> TierNone
      then (case tiers (sb_pending_tier sub) of
              Some config \<Rightarrow> sub\<lparr>sb_tier := sb_pending_tier sub, sb_amount := tc_price config\<rparr>
            | None \<Rightarrow> sub)\<lparr>sb_pending_tier := TierNone\<rparr>
      else sub)"

definition execute_subscription_payment ::
  "'tk transfer_fn \<Rightarrow> env \<Rightarrow> address \<Rightarrow> address \<Rightarrow> 'tk feature_jar \<Rightarrow> 'tk feature_jar feature_result" where
  "execute_subscription_payment transfer e subscriber creator f0 =
     and_then (the_core (not_paused e) f0) (\<lambda>f1.
     and_then (find_sub subscriber creator f1) (\<lambda>sub0.
     if sb_status sub0 \<noteq> SubActive then fail (SubscriptionError SubscriptionNotActive)
     else
     let now = timestamp e in
     if now < sb_next_payment sub0 then fail (SubscriptionError PaymentNotDue)
     else
     and_then (the_core (breaker_allows e (sb_amount sub0)) f1) (\<lambda>f2.
     let sub = apply_pending_tier (fj_tiers f2) sub0 in
     and_then (the_core (charge_sub transfer e subscriber creator (sb_token sub) (sb_amount sub)) f2) (\<lambda>f.
     let sub' = sub\<lparr>sb_last_payment := now, sb_next_payment := now + sb_interval_seconds sub\<rparr> in
     Inr (fj_emit (EvSub ''sub_pay'' creator subscriber (sb_amount sub) 0)
       (f\<lparr>fj_subs := (fj_subs f)((subscriber, creator) \<mapsto> sub')\<rparr>))))))"

definition pause_subscription :: "env \<Rightarrow> address \<Rightarrow> address \<Rightarrow> 'tk feature_jar \<Rightarrow> 'tk feature_jar feature_result" where
  "pause_subscription e subscriber creator f0 =
     and_then (the_core (not_paused e) f0) (\<lambda>f.
     and_then (require_auth e subscriber) (\<lambda>_.
     and_then (find_sub subscriber creator f) (\<lambda>sub.
     if sb_status sub \<noteq> SubActive then fail (SubscriptionError SubscriptionNotActive)
     else Inr (fj_emit (EvSub ''sub_paus'' creator subscriber 0 0)
       (f\<lparr>fj_subs := (fj_subs f)((subscriber, creator) \<mapsto> sub\<lparr>sb_status := SubPaused\<rparr>)\<rparr>)))))"

definition resume_subscription :: "env \<Rightarrow> address \<Rightarrow> address \<Rightarrow> 'tk feature_jar \<Rightarrow> 'tk feature_jar feature_result" where
  "resume_subscription e subscriber creator f0 =
     and_then (the_core (not_paused e) f0) (\<lambda>f.
     and_then (require_auth e subscriber) (\<lambda>_.
     and_then (find_sub subscriber creator f) (\<lambda>sub.
     if sb_status sub \<noteq> SubPaused then fail (SubscriptionError SubscriptionNotActive)
     else Inr (fj_emit (EvSub ''sub_res'' creator subscriber 0 0)
       (f\<lparr>fj_subs := (fj_subs f)((subscriber, creator) \<mapsto> sub\<lparr>sb_status := SubActive, sb_next_payment := timestamp e\<rparr>)\<rparr>)))))"

definition cancel_subscription :: "env \<Rightarrow> address \<Rightarrow> address \<Rightarrow> 'tk feature_jar \<Rightarrow> 'tk feature_jar feature_result" where
  "cancel_subscription e subscriber creator f0 =
     and_then (the_core (not_paused e) f0) (\<lambda>f.
     and_then (require_auth e subscriber) (\<lambda>_.
     and_then (find_sub subscriber creator f) (\<lambda>sub.
     Inr (fj_emit (EvSub ''sub_cncl'' creator subscriber 0 0)
       (f\<lparr>fj_subs := (fj_subs f)((subscriber, creator) \<mapsto> sub\<lparr>sb_status := SubCancelled\<rparr>)\<rparr>)))))"

section \<open>Solvency\<close>

definition tiers_ok :: "(sub_tier \<rightharpoonup> tier_config) \<Rightarrow> bool" where
  "tiers_ok tiers \<longleftrightarrow> (\<forall>tier config. tiers tier = Some config \<longrightarrow> 0 < tc_price config)"

definition subs_ok :: "address \<Rightarrow> 'tk feature_jar \<Rightarrow> bool" where
  "subs_ok me f \<longleftrightarrow> tiers_ok (fj_tiers f) \<and> (\<forall>a c sub. fj_subs f (a, c) = Some sub \<longrightarrow> a \<noteq> me \<and> 0 < sb_amount sub)"

text \<open>A change of the subscriptions or of the tiers that keeps the amounts positive and the other books as they are.\<close>

definition sub_frame :: "'tk feature_jar \<Rightarrow> 'tk feature_jar \<Rightarrow> bool" where
  "sub_frame f f' \<longleftrightarrow> fj_streams f' = fj_streams f \<and> fj_vesting f' = fj_vesting f \<and> fj_auctions f' = fj_auctions f"

context sep41_capped
begin

lemma charge_sub_solvent:
  assumes run: "charge_sub transfer e a c t n s0 = Inr s'"
    and solv: "jar_solvent holding ledger_ok rest me now s0" and rest: "\<And>t. 0 \<le> rest t"
    and ok: "call_ok me now e" "a \<noteq> me" "0 < n"
  shows "jar_solvent holding ledger_ok rest me (timestamp e) s'"
proof -
  have e: "contract_address e = me" "now \<le> timestamp e" "clock_ok e" using ok(1) by (auto simp: call_ok_def)
  obtain s where s: "lj_transfer transfer t a me n s0 = Inr s"
    using run e(1) by (auto simp: charge_sub_def and_then_Inr_iff)
  obtain net s1 where p: "process_repayment e c t n s = (net, s1)" by fastforce
  have s': "quiet (set_balance c t (add_i128 (balance_of c t s) net) s1) s'"
    using run e(1) s p by (auto simp: charge_sub_def Let_def)
  note P = solvent_parts [OF solv]
  have d: "jar_move holding ledger_ok me (only t 0) (only t n) s0 s" "lj_credit s = lj_credit s0" "n \<le> cap"
    using deposit_move [OF s P(1,4) ok(2)] ok(3) by simp_all
  note M = jar_move_parts [OF d(1)]
  have o: "owed t s = owed t s0" using M(4) [of t] by simp
  have small: "n * 10000 \<le> I128_MAX" "owed t s + n \<le> I128_MAX"
    using d(3) cap_small owed_cap [OF solv rest, of t] o ok(3) by linarith+
  have c: "credit_ok now s" using P(3) d(2) by (simp add: credit_ok_def)
  note m = credit_move [OF M(1) c e(2,3) less_imp_le [OF ok(3)] small p]
  have m1: "jar_move holding ledger_ok me (only t n) (only t 0) s (set_balance c t (balance_of c t s + net) s1)"
    by (rule jar_move_books [where ok = ledger_ok, OF m(1) M(2)])
  have "jar_solvent holding ledger_ok rest me (timestamp e) (set_balance c t (balance_of c t s + net) s1)"
    by (rule jar_move_only_solvent [OF solv jar_move_only_trans [OF d(1) m1] _ m(2)]) simp
  then show ?thesis using s' m(5) by (auto simp: add_i128_exact intro: quiet_solvent)
qed


lemma create_subscription_solvent:
  assumes run: "create_subscription e a c t n d f0 = Inr f'"
    and solv: "jar_solvent holding ledger_ok rest me now (fj_core f0)" "subs_ok me f0" and ok: "call_ok me now e"
  shows "jar_solvent holding ledger_ok rest me (timestamp e) (fj_core f')" "subs_ok me f'" "sub_frame f0 f'"
proof -
  obtain s1 s2 s where g: "not_paused e (fj_core f0) = Inr s1" "feature_not_paused e Subscriptions s1 = Inr s2" "breaker_allows e n s2 = Inr s"
    and n: "0 < n" and auth: "authorized e a" and f': "fj_core f' = s" "fj_tiers f' = fj_tiers f0"
      "fj_subs f' = (fj_subs f0)((a, c) \<mapsto> new_sub e a c t n d TierBronze)" "sub_frame f0 f'"
    using run unfolding create_subscription_def
    by (auto simp: result_simps linorder_not_le fj_emit_def put_sub_def sub_frame_def new_sub_def)
  have "jar_solvent holding ledger_ok rest me now s" using solv(1) guards_solvent g by metis
  then show "jar_solvent holding ledger_ok rest me (timestamp e) (fj_core f')"
    using solvent_later ok unfolding f'(1) call_ok_def by blast
  show "subs_ok me f'" using solv(2) n auth ok by (auto simp: subs_ok_def f'(2,3) new_sub_def call_ok_def)
  show "sub_frame f0 f'" by (rule f'(4))
qed

lemma create_tiered_solvent:
  assumes run: "create_tiered_subscription e a c t tier d f0 = Inr f'"
    and solv: "jar_solvent holding ledger_ok rest me now (fj_core f0)" "subs_ok me f0" and ok: "call_ok me now e"
  shows "jar_solvent holding ledger_ok rest me (timestamp e) (fj_core f')" "subs_ok me f'" "sub_frame f0 f'"
proof -
  obtain s1 s config where g: "not_paused e (fj_core f0) = Inr s1" "breaker_allows e (tc_price config) s1 = Inr s"
    and config: "fj_tiers f0 tier = Some config" and auth: "authorized e a" and f': "fj_core f' = s" "fj_tiers f' = fj_tiers f0"
      "fj_subs f' = (fj_subs f0)((a, c) \<mapsto> new_sub e a c t (tc_price config) d tier)" "sub_frame f0 f'"
    using run unfolding create_tiered_subscription_def
    by (auto simp: result_simps linorder_not_le fj_emit_def put_sub_def sub_frame_def new_sub_def)
  have "jar_solvent holding ledger_ok rest me now s" using solv(1) guards_solvent g by metis
  then show "jar_solvent holding ledger_ok rest me (timestamp e) (fj_core f')"
    using solvent_later ok unfolding f'(1) call_ok_def by blast
  show "subs_ok me f'" using solv(2) config auth ok by (auto simp: subs_ok_def tiers_ok_def f'(2,3) new_sub_def call_ok_def)
  show "sub_frame f0 f'" by (rule f'(4))
qed

lemma upgrade_solvent:
  assumes run: "upgrade_subscription transfer e a c tier f0 = Inr f'"
    and solv: "jar_solvent holding ledger_ok rest me now (fj_core f0)" "subs_ok me f0" and rest: "\<And>t. 0 \<le> rest t" and ok: "call_ok me now e"
  shows "jar_solvent holding ledger_ok rest me (timestamp e) (fj_core f')" "subs_ok me f'" "sub_frame f0 f'"
proof -
  let ?sub = "\<lambda>sub config. sub\<lparr>sb_tier := tier, sb_amount := tc_price config, sb_last_payment := timestamp e,
      sb_next_payment := timestamp e + sb_interval_seconds sub, sb_pending_tier := TierNone\<rparr>"
  obtain s1 s2 s sub config where g: "not_paused e (fj_core f0) = Inr s1" "breaker_allows e (tc_price config) s1 = Inr s2"
    and config: "fj_tiers f0 tier = Some config" and sub: "fj_subs f0 (a, c) = Some sub"
    and s: "charge_sub transfer e a c (sb_token sub) (tc_price config) s2 = Inr s"
    and f': "fj_core f' = s" "fj_tiers f' = fj_tiers f0" "fj_subs f' = (fj_subs f0)((a, c) \<mapsto> ?sub sub config)" "sub_frame f0 f'"
    using run unfolding upgrade_subscription_def find_sub_def
    by (auto simp: result_simps Let_def fj_emit_def sub_frame_def)
  have S: "jar_solvent holding ledger_ok rest me now s2" using solv(1) guards_solvent g by metis
  have a: "a \<noteq> me" "0 < tc_price config" using solv(2) sub config by (auto simp: subs_ok_def tiers_ok_def)
  show "jar_solvent holding ledger_ok rest me (timestamp e) (fj_core f')"
    unfolding f'(1) by (rule charge_sub_solvent [OF s S rest ok a])
  show "subs_ok me f'" using solv(2) a by (auto simp: subs_ok_def f'(2,3))
  show "sub_frame f0 f'" by (rule f'(4))
qed

lemma payment_solvent:
  assumes run: "execute_subscription_payment transfer e a c f0 = Inr f'"
    and solv: "jar_solvent holding ledger_ok rest me now (fj_core f0)" "subs_ok me f0" and rest: "\<And>t. 0 \<le> rest t" and ok: "call_ok me now e"
  shows "jar_solvent holding ledger_ok rest me (timestamp e) (fj_core f')" "subs_ok me f'" "sub_frame f0 f'"
proof -
  let ?sub = "\<lambda>sub. sub\<lparr>sb_last_payment := timestamp e, sb_next_payment := timestamp e + sb_interval_seconds sub\<rparr>"
  obtain s1 s2 s sub0 sub where g: "not_paused e (fj_core f0) = Inr s1" "breaker_allows e (sb_amount sub0) s1 = Inr s2"
    and sub: "fj_subs f0 (a, c) = Some sub0" "sub = apply_pending_tier (fj_tiers f0) sub0"
    and s: "charge_sub transfer e a c (sb_token sub) (sb_amount sub) s2 = Inr s"
    and f': "fj_core f' = s" "fj_tiers f' = fj_tiers f0" "fj_subs f' = (fj_subs f0)((a, c) \<mapsto> ?sub sub)" "sub_frame f0 f'"
    using run unfolding execute_subscription_payment_def find_sub_def
    by (auto simp: result_simps Let_def fj_emit_def sub_frame_def)
  have S: "jar_solvent holding ledger_ok rest me now s2" using solv(1) guards_solvent g by metis
  have a: "a \<noteq> me" "0 < sb_amount sub"
    using solv(2) sub by (auto simp: subs_ok_def tiers_ok_def apply_pending_tier_def split: option.splits)
  show "jar_solvent holding ledger_ok rest me (timestamp e) (fj_core f')"
    unfolding f'(1) by (rule charge_sub_solvent [OF s S rest ok a])
  show "subs_ok me f'" using solv(2) a by (auto simp: subs_ok_def f'(2,3))
  show "sub_frame f0 f'" by (rule f'(4))
qed

lemma sub_status_solvent:
  assumes run: "downgrade_subscription e a c tier f0 = Inr f' \<or> pause_subscription e a c f0 = Inr f' \<or>
      resume_subscription e a c f0 = Inr f' \<or> cancel_subscription e a c f0 = Inr f' \<or> set_tier_config e a tier n b f0 = Inr f'"
    and solv: "jar_solvent holding ledger_ok rest me now (fj_core f0)" "subs_ok me f0" and ok: "call_ok me now e"
  shows "jar_solvent holding ledger_ok rest me (timestamp e) (fj_core f')" "subs_ok me f'" "sub_frame f0 f'"
proof -
  have core: "not_paused e (fj_core f0) = Inr (fj_core f') \<or> fj_core f' = fj_core f0"
    using run
    by (auto simp: downgrade_subscription_def pause_subscription_def resume_subscription_def cancel_subscription_def set_tier_config_def
        find_sub_def result_simps fj_emit_def)
  then have "jar_solvent holding ledger_ok rest me now (fj_core f')"
    using solv(1) guards_solvent(1) [of e "fj_core f0" "fj_core f'"] by auto
  then show "jar_solvent holding ledger_ok rest me (timestamp e) (fj_core f')" using solvent_later ok unfolding call_ok_def by blast
  show "subs_ok me f'"
    using run solv(2) unfolding subs_ok_def
    by (elim disjE)
      ((auto simp: downgrade_subscription_def pause_subscription_def resume_subscription_def cancel_subscription_def set_tier_config_def
        find_sub_def result_simps fj_emit_def tiers_ok_def split: if_splits; metis)+)
  show "sub_frame f0 f'"
    using run
    by (auto simp: downgrade_subscription_def pause_subscription_def resume_subscription_def cancel_subscription_def set_tier_config_def
        find_sub_def result_simps fj_emit_def sub_frame_def)
qed

end

end
