(* ===== verification/Legacy_Escrow.thy ===== *)
theory Legacy_Escrow
  imports Legacy_Streams Legacy_Vesting Legacy_Auctions Legacy_Subscriptions Legacy_Claims
begin

text \<open>
  The core of the superseded tip jar together with its streams, vesting schedules, auctions and subscriptions: any
  interleaving of their calls, and what it guarantees.
\<close>

section \<open>Steps\<close>

inductive feature_call :: "'tk transfer_fn \<Rightarrow> env \<Rightarrow> 'tk feature_jar \<Rightarrow> 'tk feature_jar \<Rightarrow> bool" for transfer e where
  core: "core_call transfer e (fj_core f) s \<Longrightarrow> feature_call transfer e f (f\<lparr>fj_core := s\<rparr>)"
| open_stream: "create_stream transfer e a c t rate d f = Inr (i, f') \<Longrightarrow> feature_call transfer e f f'"
| switch_stream: "start_stream e a i f = Inr f' \<or> stop_stream e a i f = Inr f' \<Longrightarrow> feature_call transfer e f f'"
| pay_stream: "withdraw_streamed transfer e c i f = Inr f' \<Longrightarrow> feature_call transfer e f f'"
| end_stream: "cancel_stream transfer e a i f = Inr f' \<Longrightarrow> feature_call transfer e f f'"
| open_vesting: "create_vesting_schedule transfer e a c t n cliff d f = Inr (i, f') \<Longrightarrow> feature_call transfer e f f'"
| pay_vesting: "withdraw_vested transfer e c i f = Inr (n, f') \<Longrightarrow> feature_call transfer e f f'"
| open_auction: "create_auction e c t reserve d f = Inr (i, f') \<Longrightarrow> feature_call transfer e f f'"
| bid: "place_bid transfer e a i n f = Inr f' \<Longrightarrow> feature_call transfer e f f'"
| settle: "settle_auction transfer e c i f = Inr f' \<Longrightarrow> feature_call transfer e f f'"
| subscribe: "create_subscription e a c t n d f = Inr f' \<or> create_tiered_subscription e a c t tier d f = Inr f' \<Longrightarrow>
    feature_call transfer e f f'"
| upgrade: "upgrade_subscription transfer e a c tier f = Inr f' \<Longrightarrow> feature_call transfer e f f'"
| payment: "execute_subscription_payment transfer e a c f = Inr f' \<Longrightarrow> feature_call transfer e f f'"
| sub_change: "downgrade_subscription e a c tier f = Inr f' \<or> pause_subscription e a c f = Inr f' \<or>
    resume_subscription e a c f = Inr f' \<or> cancel_subscription e a c f = Inr f' \<or> set_tier_config e a tier n b f = Inr f' \<Longrightarrow>
    feature_call transfer e f f'"

inductive feature_run :: "'tk transfer_fn \<Rightarrow> address \<Rightarrow> u64 \<times> 'tk feature_jar \<Rightarrow> u64 \<times> 'tk feature_jar \<Rightarrow> bool" for transfer me where
  start: "feature_run transfer me st st"
| step: "feature_run transfer me st (now, f) \<Longrightarrow> feature_call transfer e f f' \<Longrightarrow> call_ok me now e \<Longrightarrow>
    feature_run transfer me st (timestamp e, f')"

section \<open>Solvency\<close>

text \<open>What the contract holds for streams, schedules and auctions.\<close>

definition escrow_claims :: "'tk feature_jar \<Rightarrow> address \<Rightarrow> int" where
  "escrow_claims f t = stream_claims f t + vesting_claims f t + auction_claims f t"

definition escrow_solvent ::
  "('tk \<Rightarrow> address \<Rightarrow> address \<Rightarrow> int) \<Rightarrow> ('tk \<Rightarrow> bool) \<Rightarrow> (address \<Rightarrow> int) \<Rightarrow> address \<Rightarrow> u64 \<Rightarrow> 'tk feature_jar \<Rightarrow> bool" where
  "escrow_solvent holding ok rest me now f \<longleftrightarrow>
     jar_solvent holding ok (\<lambda>t. escrow_claims f t + rest t) me now (fj_core f) \<and>
     book_ok (stream_ok me now) (sk_record (fj_streams f)) \<and> book_ok vesting_ok (vk_schedule (fj_vesting f)) \<and>
     book_ok (auction_ok me) (ak_record (fj_auctions f)) \<and> subs_ok me f"

lemma escrow_parts:
  assumes "escrow_solvent holding ok rest me now f"
  shows "streams_solvent holding ok (\<lambda>t. vesting_claims f t + auction_claims f t + rest t) me now f"
    "vesting_solvent holding ok (\<lambda>t. stream_claims f t + auction_claims f t + rest t) me now f"
    "auctions_solvent holding ok (\<lambda>t. stream_claims f t + vesting_claims f t + rest t) me now f"
    "jar_solvent holding ok (\<lambda>t. escrow_claims f t + rest t) me now (fj_core f)" "subs_ok me f"
    "0 \<le> stream_claims f t" "0 \<le> vesting_claims f t" "0 \<le> auction_claims f t"
proof -
  have e: "(\<lambda>t. stream_claims f t + (vesting_claims f t + auction_claims f t + rest t)) = (\<lambda>t. escrow_claims f t + rest t)"
    "(\<lambda>t. vesting_claims f t + (stream_claims f t + auction_claims f t + rest t)) = (\<lambda>t. escrow_claims f t + rest t)"
    "(\<lambda>t. auction_claims f t + (stream_claims f t + vesting_claims f t + rest t)) = (\<lambda>t. escrow_claims f t + rest t)"
    by (auto simp: escrow_claims_def)
  note a = assms [unfolded escrow_solvent_def]
  show "streams_solvent holding ok (\<lambda>t. vesting_claims f t + auction_claims f t + rest t) me now f"
    "vesting_solvent holding ok (\<lambda>t. stream_claims f t + auction_claims f t + rest t) me now f"
    "auctions_solvent holding ok (\<lambda>t. stream_claims f t + vesting_claims f t + rest t) me now f"
    unfolding streams_solvent_def vesting_solvent_def auctions_solvent_def e using a by simp_all
  show "jar_solvent holding ok (\<lambda>t. escrow_claims f t + rest t) me now (fj_core f)" "subs_ok me f" using a by simp_all
  show "0 \<le> stream_claims f t" "0 \<le> vesting_claims f t" "0 \<le> auction_claims f t"
    using a streams.claims_nonneg vesting.claims_nonneg auctions.claims_nonneg
    by (auto simp: stream_claims_def vesting_claims_def auction_claims_def)
qed

text \<open>Each feature keeps the solvency of the whole, because it leaves the books of the others alone.\<close>

lemma escrow_from_streams:
  assumes "escrow_solvent holding ok rest me now f" "now \<le> now'" "same_others f f'"
    and "streams_solvent holding ok (\<lambda>t. vesting_claims f t + auction_claims f t + rest t) me now' f'"
  shows "escrow_solvent holding ok rest me now' f'"
proof -
  have "(\<lambda>t. stream_claims f' t + (vesting_claims f t + auction_claims f t + rest t)) = (\<lambda>t. escrow_claims f' t + rest t)"
    using assms(3) by (auto simp: escrow_claims_def same_others_def vesting_claims_def auction_claims_def)
  then show ?thesis
    using assms by (auto simp: escrow_solvent_def streams_solvent_def same_others_def subs_ok_def)
qed

lemma escrow_from_vesting:
  assumes "escrow_solvent holding ok rest me now f" "now \<le> now'" "vesting_frame f f'"
    and "vesting_solvent holding ok (\<lambda>t. stream_claims f t + auction_claims f t + rest t) me now' f'"
  shows "escrow_solvent holding ok rest me now' f'"
proof -
  have "(\<lambda>t. vesting_claims f' t + (stream_claims f t + auction_claims f t + rest t)) = (\<lambda>t. escrow_claims f' t + rest t)"
    using assms(3) by (auto simp: escrow_claims_def vesting_frame_def stream_claims_def auction_claims_def)
  then show ?thesis
    using assms by (auto simp: escrow_solvent_def vesting_solvent_def vesting_frame_def subs_ok_def intro: stream_book_mono)
qed

lemma escrow_from_auctions:
  assumes "escrow_solvent holding ok rest me now f" "now \<le> now'" "auction_frame f f'"
    and "auctions_solvent holding ok (\<lambda>t. stream_claims f t + vesting_claims f t + rest t) me now' f'"
  shows "escrow_solvent holding ok rest me now' f'"
proof -
  have "(\<lambda>t. auction_claims f' t + (stream_claims f t + vesting_claims f t + rest t)) = (\<lambda>t. escrow_claims f' t + rest t)"
    using assms(3) by (auto simp: escrow_claims_def auction_frame_def stream_claims_def vesting_claims_def)
  then show ?thesis
    using assms by (auto simp: escrow_solvent_def auctions_solvent_def auction_frame_def subs_ok_def intro: stream_book_mono)
qed

lemma escrow_from_core:
  assumes "escrow_solvent holding ok rest me now f" "now \<le> now'" "sub_frame f f'" "subs_ok me f'"
    and "jar_solvent holding ok (\<lambda>t. escrow_claims f t + rest t) me now' (fj_core f')"
  shows "escrow_solvent holding ok rest me now' f'"
proof -
  have "escrow_claims f' = escrow_claims f"
    using assms(3) by (auto simp: fun_eq_iff escrow_claims_def sub_frame_def stream_claims_def vesting_claims_def auction_claims_def)
  then show ?thesis using assms by (auto simp: escrow_solvent_def sub_frame_def intro: stream_book_mono)
qed

context sep41_capped
begin

lemma feature_call_solvent:
  assumes "feature_call transfer e f f'" "call_ok me now e" "escrow_solvent holding ledger_ok rest me now f" "\<And>t. 0 \<le> rest t"
  shows "escrow_solvent holding ledger_ok rest me (timestamp e) f'"
proof -
  note P = escrow_parts [OF assms(3)] and ok = assms(2)
  have le: "now \<le> timestamp e" using ok by (simp add: call_ok_def)
  have R: "0 \<le> escrow_claims f t + rest t" "0 \<le> stream_claims f t + auction_claims f t + rest t"
    "0 \<le> stream_claims f t + vesting_claims f t + rest t" for t
    using P(6-8) [of t] assms(4) [of t] by (simp_all add: escrow_claims_def)
  note S = escrow_from_streams [OF assms(3) le] and V = escrow_from_vesting [OF assms(3) le]
    and A = escrow_from_auctions [OF assms(3) le] and C = escrow_from_core [OF assms(3) le]
  from assms(1) show ?thesis
  proof cases
    case (core s)
    have "jar_solvent holding ledger_ok (\<lambda>t. escrow_claims f t + rest t) me (timestamp e) s"
      by (rule call_solvent [OF core(2) ok P(4) R(1)])
    then show ?thesis using C [of f'] P(5) core(1) by (simp add: sub_frame_def subs_ok_def)
  next
    case (open_stream a c t rate d i)
    then show ?thesis using S create_stream_solvent [OF _ P(1) ok] by blast
  next
    case (switch_stream a i)
    then show ?thesis using S start_stream_solvent [OF _ P(1) ok] stop_stream_solvent [OF _ P(1) ok] by blast
  next
    case (pay_stream c i)
    then show ?thesis using S withdraw_streamed_solvent [OF _ P(1) ok] by blast
  next
    case (end_stream a i)
    then show ?thesis using S cancel_stream_solvent [OF _ P(1) ok] by blast
  next
    case (open_vesting a c t n cliff d i)
    then show ?thesis using V create_vesting_solvent [OF _ P(2) ok R(2)] by blast
  next
    case (pay_vesting c i n)
    then show ?thesis using V withdraw_vested_solvent [OF _ P(2) ok R(2)] by blast
  next
    case (open_auction c t reserve d i)
    then show ?thesis using A create_auction_solvent [OF _ P(3) le] by blast
  next
    case (bid a i n)
    then show ?thesis using A place_bid_solvent [OF _ P(3) ok] by blast
  next
    case (settle c i)
    then show ?thesis using A settle_auction_solvent [OF _ P(3) ok R(3)] by blast
  next
    case (subscribe a c t n d tier)
    then show ?thesis
    proof
      assume run: "create_subscription e a c t n d f = Inr f'"
      show ?thesis using create_subscription_solvent [OF run P(4,5) ok] by (intro C)
    next
      assume run: "create_tiered_subscription e a c t tier d f = Inr f'"
      show ?thesis using create_tiered_solvent [OF run P(4,5) ok] by (intro C)
    qed
  next
    case (upgrade a c tier)
    show ?thesis using upgrade_solvent [OF upgrade P(4,5) R(1) ok] by (intro C)
  next
    case (payment a c)
    show ?thesis using payment_solvent [OF payment P(4,5) R(1) ok] by (intro C)
  next
    case (sub_change a c tier n b)
    show ?thesis using sub_status_solvent [OF sub_change P(4,5) ok] by (intro C)
  qed
qed

lemma feature_run_solvent:
  assumes "feature_run transfer me st st'" "escrow_solvent holding ledger_ok rest me (fst st) (snd st)" "\<And>t. 0 \<le> rest t"
  shows "escrow_solvent holding ledger_ok rest me (fst st') (snd st')"
  using assms(1,2)
proof induction
  case (step now f e f')
  then show ?case using feature_call_solvent [OF step.hyps(2,3) _ assms(3)] by simp
qed simp

end


section \<open>Properties\<close>

text \<open>
  C12. The money that the superseded tip jar holds for its features is never spent by another. On tokens with a capped
  supply, through any interleaving of streams, vesting schedules, auctions and subscriptions with the calls of the core
  that \<open>core_call\<close> lists (within the settings stated there; conditional tips, which book fees without tokens, and
  time-locked, private, bridged and relayed tips are not among them), the contract holds of every token at least what it owes its creators, the platform and the
  insurance, plus the unspent part of every live stream and vesting schedule and the highest bid of every open auction. No stream
  or schedule has paid out more than was locked in it.
\<close>

theorem features_stay_funded:
  assumes "sep41_capped transfer holding ledger_ok cap"
    and "feature_run transfer me (start, f0) (now, f)"
    and "escrow_solvent holding ledger_ok rest me start f0" "\<forall>t. 0 \<le> rest t"
  shows "owed t (fj_core f) + stream_claims f t + vesting_claims f t + auction_claims f t + rest t \<le> holding (lj_tokens (fj_core f)) t me \<and>
    0 \<le> stream_claims f t \<and> 0 \<le> vesting_claims f t \<and> 0 \<le> auction_claims f t \<and>
    (\<forall>i r. sk_record (fj_streams f) i = Some r \<longrightarrow> 0 \<le> sr_withdrawn r \<and> sr_withdrawn r \<le> stream_total r) \<and>
    (\<forall>i v. vk_schedule (fj_vesting f) i = Some v \<longrightarrow> 0 \<le> vs_withdrawn v \<and> vs_withdrawn v \<le> vs_total_amount v)"
proof -
  have S: "escrow_solvent holding ledger_ok rest me now f"
    using sep41_capped.feature_run_solvent [OF assms(1,2)] assms(3,4) by simp
  note P = escrow_parts [OF S]
  have "owed t (fj_core f) + (escrow_claims f t + rest t) \<le> holding (lj_tokens (fj_core f)) t me"
    using P(4) by (simp add: jar_solvent_def)
  then show ?thesis
    using P(6-8) [of t] S by (auto simp: escrow_claims_def escrow_solvent_def book_ok_def stream_ok_def vesting_ok_def)
qed

section \<open>Examples\<close>

definition fj_start :: "ledger feature_jar" where
  "fj_start = \<lparr>fj_core = lj_funded, fj_streams = \<lparr>sk_record = Map.empty, sk_creator_streams = Map.empty,
       sk_sender_streams = Map.empty, sk_ctr = None\<rparr>,
     fj_vesting = \<lparr>vk_schedule = Map.empty, vk_creator_list = Map.empty, vk_ctr = None\<rparr>,
     fj_auctions = \<lparr>ak_record = Map.empty, ak_creator_list = Map.empty, ak_ctr = None\<rparr>,
     fj_tiers = Map.empty, fj_subs = Map.empty, fj_events = []\<rparr>"

lemma fj_start_solvent: "escrow_solvent ledger_holding ledger_capped (\<lambda>_. 0) 8 0 fj_start"
  using lj_funded_solvent
  by (simp add: escrow_solvent_def fj_start_def escrow_claims_def stream_claims_def vesting_claims_def auction_claims_def
      subs_ok_def tiers_ok_def)

lemma feature_step_at:
  "feature_call ledger_transfer (lj_env t) f f' \<Longrightarrow> now \<le> t \<Longrightarrow> uint t < 2 ^ 40 \<Longrightarrow> feature_run ledger_transfer 8 st (now, f) \<Longrightarrow>
   feature_run ledger_transfer 8 st (t, f')"
  using feature_run.step [of ledger_transfer 8 st now f "lj_env t" f'] by (simp add: call_ok_def clock_ok_def lj_env_def)

text \<open>Account 1 streams 10 units a second for 100 seconds to creator 3; the contract then holds the total of 1000 for it.\<close>

definition fj_streaming :: "(u64 \<times> ledger feature_jar) feature_result" where
  "fj_streaming = create_stream ledger_transfer (lj_env 1000) 1 3 40 10 100 fj_start"

lemma fj_streaming_ok:
  "case fj_streaming of Inl _ \<Rightarrow> False | Inr (i, f) \<Rightarrow> i = 0 \<and> lj_tokens (fj_core f) 40 8 = 1001000 \<and> sk_record (fj_streams f) 0 \<noteq> None"
  by code_simp

theorem features_stay_funded_witness:
  "\<exists>f r. feature_run ledger_transfer 8 (0, fj_start) (1000, f) \<and> sk_record (fj_streams f) 0 = Some r \<and>
     sr_withdrawn r \<le> stream_total r \<and> owed 40 (fj_core f) + stream_claims f 40 \<le> lj_tokens (fj_core f) 40 8"
proof -
  obtain i f r where f: "fj_streaming = Inr (i, f)" "sk_record (fj_streams f) 0 = Some r"
    using fj_streaming_ok by (auto split: sum.splits)
  have "feature_call ledger_transfer (lj_env 1000) fj_start f"
    using f(1) unfolding fj_streaming_def by (rule feature_call.open_stream)
  then have run: "feature_run ledger_transfer 8 (0, fj_start) (1000, f)"
    using feature_step_at [OF _ _ _ feature_run.start] by simp
  note F = features_stay_funded [OF capped.sep41_capped_axioms run fj_start_solvent, of 40]
  have "owed 40 (fj_core f) + stream_claims f 40 \<le> ledger_holding (lj_tokens (fj_core f)) 40 8" using F by auto
  then show ?thesis using run f(2) F by (auto simp: ledger_holding_def)
qed

text \<open>
  A stream that is stopped and resumed pays less than it holds: stopping books what has flowed as withdrawn without paying it. Here
  a creator who withdraws only at the end receives 500 of 1000; the other 500 stay in the contract for ever.
\<close>

theorem stopping_a_stream_forfeits_what_flowed:
  "and_then fj_streaming (\<lambda>(i, f1).
   and_then (stop_stream (lj_env 1050) 1 i f1) (\<lambda>f2.
   and_then (start_stream (lj_env 1060) 1 i f2) (\<lambda>f3.
   and_then (withdraw_streamed ledger_transfer (lj_env 2000) 3 i f3) (\<lambda>f4.
   Inr (lj_tokens (fj_core f4) 40 3, map_option sr_withdrawn (sk_record (fj_streams f4) i),
     map_option sr_status (sk_record (fj_streams f4) i), lj_tokens (fj_core f4) 40 8))))) =
   Inr (500, Some 1000, Some StreamCompleted, 1000500)"
  by code_simp

text \<open>
  The first vesting schedule has the number 0, which every call refuses as invalid: its money can never be withdrawn.
\<close>

theorem first_schedule_is_locked_for_ever:
  "withdraw_vested transfer e c 0 f \<noteq> Inr v \<and>
   (vk_ctr (fj_vesting f) = None \<longrightarrow> create_vesting_schedule transfer e a c t n cliff d f = Inr (i, f') \<longrightarrow>
      i = 0 \<and> get_vesting_schedule i f' = None)"
proof -
  have "vk_ctr (fj_vesting f) = None \<Longrightarrow> create_vesting_schedule transfer e a c t n cliff d f = Inr (i, f') \<Longrightarrow> i = 0"
    by (auto simp: create_vesting_schedule_def result_simps Let_def)
  then show ?thesis by (auto simp: withdraw_vested_def find_schedule_def result_simps get_vesting_schedule_def)
qed

end
