(* ===== verification/Prediction_Market.thy ===== *)
theory Prediction_Market
  imports Legacy_Base
begin

text \<open>
  The prediction markets of the superseded tip jar (\<^verbatim>\<open>src/contracts/tipjar-legacy/src/prediction_market\<close> and the entry points
  \<^verbatim>\<open>set_pred_market_fee\<close> to \<^verbatim>\<open>get_active_pred_markets\<close> of \<^verbatim>\<open>lib.rs\<close> there): bets on the two outcomes of a market go into two
  pools, a resolver names the winner, and the winning side divides both pools in proportion to its stakes.
\<close>

section \<open>Data\<close>

definition PRED_BPS_DENOM :: int where "PRED_BPS_DENOM = 10000"
definition PRED_DEFAULT_FEE_BPS :: u32 where "PRED_DEFAULT_FEE_BPS = 200"
definition MIN_BET_AMOUNT :: int where "MIN_BET_AMOUNT = 1000"
definition ODDS_PRECISION :: int where "ODDS_PRECISION = 1000000"

datatype outcome = OutcomeNone | OutcomeYes | OutcomeNo

datatype market_status = MarketOpen | MarketClosed | MarketResolved | MarketCancelled

record prediction_market =
  pm_market_id :: u64
  pm_creator :: address
  pm_resolver :: address
  pm_question :: string
  pm_token :: address
  yes_pool :: int
  no_pool :: int
  closes_at :: u64
  resolves_at :: u64
  pm_status :: market_status
  winning_outcome :: outcome
  pm_fee_bps :: u32
  pm_created_at :: u64

record bettor_position =
  bp_bettor :: address
  bp_market_id :: u64
  yes_amount :: int
  no_amount :: int
  bp_settled :: bool

datatype pred_error =
  PredPaused | PredUnauthorized | PredFeeExceedsMaximum | PredInvalidTime | PredTokenNotWhitelisted | PredBetTooSmall
| PredMarketNotFound | PredMarketNotOpen | PredMarketClosed | PredMarketAlreadySettled | PredMarketNotResolver
| PredMarketNotSettled | PredNoPosition | PredAlreadyClaimed

datatype pred_event =
  EvPmFee u32
| EvPmCreate u64 address address address u64 u64
| EvPmBet u64 address outcome int
| EvPmClose u64
| EvPmRes u64 outcome
| EvPmCancel u64
| EvPmClaim u64 address int

record 'tk pred_jar =
  pj_instance :: legacy_instance
  pj_admin :: "address option"
  pj_market :: "u64 \<rightharpoonup> prediction_market"
  pj_counter :: "u64 option"
  pj_position :: "u64 \<times> address \<rightharpoonup> bettor_position"
  pj_active :: "u64 list option"
  pj_creator_markets :: "address \<rightharpoonup> u64 list"
  pj_bettor_markets :: "address \<rightharpoonup> u64 list"
  pj_fee_bps :: "u32 option"
  pj_tokens :: 'tk
  pj_events :: "pred_event list"

type_synonym 'a pred_result = "(pred_error, 'a) result"

section \<open>Storage\<close>

definition get_market :: "'tk pred_jar \<Rightarrow> u64 \<Rightarrow> prediction_market option" where
  "get_market s i = pj_market s i"

definition save_market :: "prediction_market \<Rightarrow> 'tk pred_jar \<Rightarrow> 'tk pred_jar" where
  "save_market m s = s\<lparr>pj_market := (pj_market s)(pm_market_id m \<mapsto> m)\<rparr>"

definition get_market_counter :: "'tk pred_jar \<Rightarrow> u64" where
  "get_market_counter s = unwrap_or (pj_counter s) 0"

definition increment_market_counter :: "'tk pred_jar \<Rightarrow> u64 \<times> 'tk pred_jar" where
  "increment_market_counter s = (let i = get_market_counter s + 1 in (i, s\<lparr>pj_counter := Some i\<rparr>))"

definition get_bettor_position :: "'tk pred_jar \<Rightarrow> u64 \<Rightarrow> address \<Rightarrow> bettor_position" where
  "get_bettor_position s i b = unwrap_or (pj_position s (i, b))
     \<lparr>bp_bettor = b, bp_market_id = i, yes_amount = 0, no_amount = 0, bp_settled = False\<rparr>"

definition save_bettor_position :: "bettor_position \<Rightarrow> 'tk pred_jar \<Rightarrow> 'tk pred_jar" where
  "save_bettor_position p s = s\<lparr>pj_position := (pj_position s)((bp_market_id p, bp_bettor p) \<mapsto> p)\<rparr>"

definition get_active_markets :: "'tk pred_jar \<Rightarrow> u64 list" where
  "get_active_markets s = unwrap_or (pj_active s) []"

definition add_active_market :: "u64 \<Rightarrow> 'tk pred_jar \<Rightarrow> 'tk pred_jar" where
  "add_active_market i s =
     (let xs = get_active_markets s in if i \<in> set xs then s else s\<lparr>pj_active := Some (xs @ [i])\<rparr>)"

definition remove_active_market :: "u64 \<Rightarrow> 'tk pred_jar \<Rightarrow> 'tk pred_jar" where
  "remove_active_market i s = s\<lparr>pj_active := Some (filter (\<lambda>j. j \<noteq> i) (get_active_markets s))\<rparr>"

definition get_creator_markets :: "'tk pred_jar \<Rightarrow> address \<Rightarrow> u64 list" where
  "get_creator_markets s c = unwrap_or (pj_creator_markets s c) []"

definition add_creator_market :: "address \<Rightarrow> u64 \<Rightarrow> 'tk pred_jar \<Rightarrow> 'tk pred_jar" where
  "add_creator_market c i s =
     (let xs = get_creator_markets s c in
      if i \<in> set xs then s else s\<lparr>pj_creator_markets := (pj_creator_markets s)(c \<mapsto> xs @ [i])\<rparr>)"

definition get_bettor_markets :: "'tk pred_jar \<Rightarrow> address \<Rightarrow> u64 list" where
  "get_bettor_markets s b = unwrap_or (pj_bettor_markets s b) []"

definition add_bettor_market :: "address \<Rightarrow> u64 \<Rightarrow> 'tk pred_jar \<Rightarrow> 'tk pred_jar" where
  "add_bettor_market b i s =
     (let xs = get_bettor_markets s b in
      if i \<in> set xs then s else s\<lparr>pj_bettor_markets := (pj_bettor_markets s)(b \<mapsto> xs @ [i])\<rparr>)"

definition pred_get_fee_bps :: "'tk pred_jar \<Rightarrow> u32" where
  "pred_get_fee_bps s = unwrap_or (pj_fee_bps s) PRED_DEFAULT_FEE_BPS"

definition pred_set_fee_bps :: "u32 \<Rightarrow> 'tk pred_jar \<Rightarrow> 'tk pred_jar" where
  "pred_set_fee_bps fee s = s\<lparr>pj_fee_bps := Some fee\<rparr>"

definition pj_emit :: "pred_event \<Rightarrow> 'tk pred_jar \<Rightarrow> 'tk pred_jar" where
  "pj_emit ev s = s\<lparr>pj_events := pj_events s @ [ev]\<rparr>"

definition pj_transfer ::
  "'tk transfer_fn \<Rightarrow> address \<Rightarrow> address \<Rightarrow> address \<Rightarrow> int \<Rightarrow> 'tk pred_jar \<Rightarrow> 'tk pred_jar pred_result" where
  "pj_transfer transfer t src dst n s =
     and_then (call_transfer transfer (pj_tokens s) t src dst n) (\<lambda>tk. Inr (s\<lparr>pj_tokens := tk\<rparr>))"

definition unwrap :: "'a option \<Rightarrow> 'a pred_result" where
  "unwrap v = (case v of None \<Rightarrow> Inl Trapped | Some x \<Rightarrow> Inr x)"

lemma unwrap_Inr_iff [result_simps]: "unwrap v = Inr x \<longleftrightarrow> v = Some x"
  by (auto simp: unwrap_def split: option.splits)

section \<open>Odds\<close>

definition implied_probability :: "prediction_market \<Rightarrow> outcome \<Rightarrow> int pred_result" where
  "implied_probability m out =
     (let total = add_i128 (yes_pool m) (no_pool m) in
      if total = 0 then Inr (ODDS_PRECISION div 2)
      else case out of
        OutcomeNone \<Rightarrow> Inr (ODDS_PRECISION div 2)
      | OutcomeYes \<Rightarrow> muldiv_i128 (yes_pool m) ODDS_PRECISION total
      | OutcomeNo \<Rightarrow> muldiv_i128 (no_pool m) ODDS_PRECISION total)"

definition payout_multiplier :: "prediction_market \<Rightarrow> outcome \<Rightarrow> int pred_result" where
  "payout_multiplier m out =
     (let total = add_i128 (yes_pool m) (no_pool m) in
      case out of
        OutcomeNone \<Rightarrow> Inr (100 * ODDS_PRECISION)
      | OutcomeYes \<Rightarrow> if yes_pool m = 0 then Inr (100 * ODDS_PRECISION) else muldiv_i128 total ODDS_PRECISION (yes_pool m)
      | OutcomeNo \<Rightarrow> if no_pool m = 0 then Inr (100 * ODDS_PRECISION) else muldiv_i128 total ODDS_PRECISION (no_pool m))"

definition market_odds :: "prediction_market \<Rightarrow> (int \<times> int) pred_result" where
  "market_odds m =
     and_then (implied_probability m OutcomeYes) (\<lambda>y.
     and_then (implied_probability m OutcomeNo) (\<lambda>n. Inr (y, n)))"

section \<open>Settlement\<close>

fun stake_on :: "outcome \<Rightarrow> bettor_position \<Rightarrow> int" where
  "stake_on OutcomeYes p = yes_amount p"
| "stake_on OutcomeNo p = no_amount p"
| "stake_on OutcomeNone p = 0"

fun pool_of :: "outcome \<Rightarrow> prediction_market \<Rightarrow> int" where
  "pool_of OutcomeYes m = yes_pool m"
| "pool_of OutcomeNo m = no_pool m"
| "pool_of OutcomeNone m = 0"

definition calculate_payout :: "prediction_market \<Rightarrow> bettor_position \<Rightarrow> int pred_result" where
  "calculate_payout m p =
     (let winning = winning_outcome m; bettor_stake = stake_on winning p; winning_pool = pool_of winning m in
      if winning = OutcomeNone then Inr 0
      else if bettor_stake = 0 then Inr 0
      else if winning_pool = 0 then Inr 0
      else
      let total_pool = add_i128 (yes_pool m) (no_pool m) in
      and_then (muldiv_i128 bettor_stake total_pool winning_pool) (\<lambda>gross.
      and_then (muldiv_i128 gross (uint (pm_fee_bps m)) PRED_BPS_DENOM) (\<lambda>fee.
      Inr (sub_i128 gross fee))))"

definition total_fee :: "prediction_market \<Rightarrow> int pred_result" where
  "total_fee m = muldiv_i128 (add_i128 (yes_pool m) (no_pool m)) (uint (pm_fee_bps m)) PRED_BPS_DENOM"

section \<open>The module\<close>

definition create_market ::
  "env \<Rightarrow> address \<Rightarrow> address \<Rightarrow> string \<Rightarrow> address \<Rightarrow> u64 \<Rightarrow> u64 \<Rightarrow> 'tk pred_jar \<Rightarrow> u64 \<times> 'tk pred_jar" where
  "create_market e creator resolver question t closes resolves s =
     (let (i, s1) = increment_market_counter s;
          m = \<lparr>pm_market_id = i, pm_creator = creator, pm_resolver = resolver, pm_question = question, pm_token = t,
               yes_pool = 0, no_pool = 0, closes_at = closes, resolves_at = resolves, pm_status = MarketOpen,
               winning_outcome = OutcomeNone, pm_fee_bps = pred_get_fee_bps s1, pm_created_at = timestamp e\<rparr>
      in (i, add_creator_market creator i (add_active_market i (save_market m s1))))"

definition add_to_pool :: "outcome \<Rightarrow> int \<Rightarrow> prediction_market \<Rightarrow> prediction_market pred_result" where
  "add_to_pool out n m =
     (case out of
        OutcomeNone \<Rightarrow> Inl Trapped
      | OutcomeYes \<Rightarrow> Inr (m\<lparr>yes_pool := add_i128 (yes_pool m) n\<rparr>)
      | OutcomeNo \<Rightarrow> Inr (m\<lparr>no_pool := add_i128 (no_pool m) n\<rparr>))"

definition add_to_position :: "outcome \<Rightarrow> int \<Rightarrow> bettor_position \<Rightarrow> bettor_position pred_result" where
  "add_to_position out n p =
     (case out of
        OutcomeNone \<Rightarrow> Inl Trapped
      | OutcomeYes \<Rightarrow> Inr (p\<lparr>yes_amount := add_i128 (yes_amount p) n\<rparr>)
      | OutcomeNo \<Rightarrow> Inr (p\<lparr>no_amount := add_i128 (no_amount p) n\<rparr>))"

definition place_bet ::
  "'tk transfer_fn \<Rightarrow> env \<Rightarrow> address \<Rightarrow> u64 \<Rightarrow> outcome \<Rightarrow> int \<Rightarrow> 'tk pred_jar \<Rightarrow> 'tk pred_jar pred_result" where
  "place_bet transfer e bettor i out amount s =
     and_then (unwrap (get_market s i)) (\<lambda>m.
     and_then (rust_assert (pm_status m = MarketOpen)) (\<lambda>_.
     and_then (rust_assert (timestamp e < closes_at m)) (\<lambda>_.
     and_then (rust_assert (amount \<ge> MIN_BET_AMOUNT)) (\<lambda>_.
     and_then (pj_transfer transfer (pm_token m) bettor (contract_address e) amount s) (\<lambda>s1.
     and_then (add_to_pool out amount m) (\<lambda>m'.
     let s2 = save_market m' s1 in
     and_then (add_to_position out amount (get_bettor_position s2 i bettor)) (\<lambda>p.
     Inr (add_bettor_market bettor i (save_bettor_position p s2)))))))))"

definition close_market :: "env \<Rightarrow> address \<Rightarrow> u64 \<Rightarrow> 'tk pred_jar \<Rightarrow> 'tk pred_jar pred_result" where
  "close_market e caller i s =
     and_then (unwrap (get_market s i)) (\<lambda>m.
     and_then (rust_assert (pm_status m = MarketOpen)) (\<lambda>_.
     and_then (rust_assert (caller = pm_resolver m \<or> timestamp e \<ge> closes_at m)) (\<lambda>_.
     Inr (save_market (m\<lparr>pm_status := MarketClosed\<rparr>) s))))"

definition resolve_market :: "address \<Rightarrow> u64 \<Rightarrow> outcome \<Rightarrow> 'tk pred_jar \<Rightarrow> 'tk pred_jar pred_result" where
  "resolve_market resolver i winning s =
     and_then (unwrap (get_market s i)) (\<lambda>m.
     and_then (rust_assert (pm_status m = MarketOpen \<or> pm_status m = MarketClosed)) (\<lambda>_.
     and_then (rust_assert (resolver = pm_resolver m)) (\<lambda>_.
     Inr (remove_active_market i (save_market (m\<lparr>pm_status := MarketResolved, winning_outcome := winning\<rparr>) s)))))"

definition cancel_market :: "address \<Rightarrow> u64 \<Rightarrow> address \<Rightarrow> 'tk pred_jar \<Rightarrow> 'tk pred_jar pred_result" where
  "cancel_market caller i admin s =
     and_then (unwrap (get_market s i)) (\<lambda>m.
     and_then (rust_assert (pm_status m = MarketOpen \<or> pm_status m = MarketClosed)) (\<lambda>_.
     and_then (rust_assert (caller = pm_resolver m \<or> caller = admin)) (\<lambda>_.
     Inr (remove_active_market i (save_market (m\<lparr>pm_status := MarketCancelled\<rparr>) s)))))"

definition claim_winnings ::
  "'tk transfer_fn \<Rightarrow> env \<Rightarrow> address \<Rightarrow> u64 \<Rightarrow> 'tk pred_jar \<Rightarrow> (int \<times> 'tk pred_jar) pred_result" where
  "claim_winnings transfer e bettor i s =
     and_then (unwrap (get_market s i)) (\<lambda>m.
     and_then (rust_assert (pm_status m = MarketResolved \<or> pm_status m = MarketCancelled)) (\<lambda>_.
     let p = get_bettor_position s i bettor in
     and_then (rust_assert (\<not> bp_settled p)) (\<lambda>_.
     and_then (if pm_status m = MarketCancelled then Inr (add_i128 (yes_amount p) (no_amount p)) else calculate_payout m p) (\<lambda>payout.
     and_then (if payout > 0 then pj_transfer transfer (pm_token m) (contract_address e) bettor payout s else Inr s) (\<lambda>s1.
     Inr (payout, save_bettor_position (p\<lparr>bp_settled := True\<rparr>) s1))))))"

section \<open>The entry points of the contract\<close>

definition pj_not_paused :: "env \<Rightarrow> 'tk pred_jar \<Rightarrow> 'tk pred_jar pred_result" where
  "pj_not_paused e s =
     and_then (require_not_paused PredPaused e (pj_instance s)) (\<lambda>g. Inr (s\<lparr>pj_instance := g\<rparr>))"

definition set_pred_market_fee :: "env \<Rightarrow> address \<Rightarrow> u32 \<Rightarrow> 'tk pred_jar \<Rightarrow> 'tk pred_jar pred_result" where
  "set_pred_market_fee e admin fee s =
     and_then (require_auth e admin) (\<lambda>_.
     and_then (unwrap (pj_admin s)) (\<lambda>stored_admin.
     if admin \<noteq> stored_admin then fail PredUnauthorized
     else if fee > 1000 then fail PredFeeExceedsMaximum
     else Inr (pj_emit (EvPmFee fee) (pred_set_fee_bps fee s))))"

definition create_pred_market ::
  "env \<Rightarrow> address \<Rightarrow> address \<Rightarrow> string \<Rightarrow> address \<Rightarrow> u64 \<Rightarrow> u64 \<Rightarrow> 'tk pred_jar \<Rightarrow> (u64 \<times> 'tk pred_jar) pred_result" where
  "create_pred_market e creator resolver question t closes resolves s0 =
     and_then (pj_not_paused e s0) (\<lambda>s.
     and_then (require_auth e creator) (\<lambda>_.
     if closes \<le> timestamp e then fail PredInvalidTime
     else if resolves < closes then fail PredInvalidTime
     else if \<not> legacy_whitelisted (pj_instance s) t then fail PredTokenNotWhitelisted
     else let (i, s1) = create_market e creator resolver question t closes resolves s in
     Inr (i, pj_emit (EvPmCreate i creator resolver t closes resolves) s1)))"

definition place_pred_bet ::
  "'tk transfer_fn \<Rightarrow> env \<Rightarrow> address \<Rightarrow> u64 \<Rightarrow> outcome \<Rightarrow> int \<Rightarrow> 'tk pred_jar \<Rightarrow> 'tk pred_jar pred_result" where
  "place_pred_bet transfer e bettor i out amount s0 =
     and_then (pj_not_paused e s0) (\<lambda>s.
     and_then (require_auth e bettor) (\<lambda>_.
     if amount < MIN_BET_AMOUNT then fail PredBetTooSmall
     else
     and_then (ok_or PredMarketNotFound (get_market s i)) (\<lambda>m.
     if pm_status m \<noteq> MarketOpen then fail PredMarketNotOpen
     else if timestamp e \<ge> closes_at m then fail PredMarketClosed
     else
     and_then (place_bet transfer e bettor i out amount s) (\<lambda>s1.
     Inr (pj_emit (EvPmBet i bettor out amount) s1)))))"

definition close_pred_market :: "env \<Rightarrow> address \<Rightarrow> u64 \<Rightarrow> 'tk pred_jar \<Rightarrow> 'tk pred_jar pred_result" where
  "close_pred_market e caller i s =
     and_then (require_auth e caller) (\<lambda>_.
     and_then (ok_or PredMarketNotFound (get_market s i)) (\<lambda>m.
     if pm_status m \<noteq> MarketOpen then fail PredMarketNotOpen
     else and_then (close_market e caller i s) (\<lambda>s1. Inr (pj_emit (EvPmClose i) s1))))"

definition resolve_pred_market :: "env \<Rightarrow> address \<Rightarrow> u64 \<Rightarrow> outcome \<Rightarrow> 'tk pred_jar \<Rightarrow> 'tk pred_jar pred_result" where
  "resolve_pred_market e resolver i winning s =
     and_then (require_auth e resolver) (\<lambda>_.
     and_then (ok_or PredMarketNotFound (get_market s i)) (\<lambda>m.
     if pm_status m = MarketResolved \<or> pm_status m = MarketCancelled then fail PredMarketAlreadySettled
     else if resolver \<noteq> pm_resolver m then fail PredMarketNotResolver
     else and_then (resolve_market resolver i winning s) (\<lambda>s1. Inr (pj_emit (EvPmRes i winning) s1))))"

definition cancel_pred_market :: "env \<Rightarrow> address \<Rightarrow> u64 \<Rightarrow> 'tk pred_jar \<Rightarrow> 'tk pred_jar pred_result" where
  "cancel_pred_market e caller i s =
     and_then (require_auth e caller) (\<lambda>_.
     and_then (ok_or PredMarketNotFound (get_market s i)) (\<lambda>m.
     if pm_status m = MarketResolved \<or> pm_status m = MarketCancelled then fail PredMarketAlreadySettled
     else
     and_then (unwrap (pj_admin s)) (\<lambda>admin.
     and_then (cancel_market caller i admin s) (\<lambda>s1. Inr (pj_emit (EvPmCancel i) s1)))))"

definition claim_pred_winnings ::
  "'tk transfer_fn \<Rightarrow> env \<Rightarrow> address \<Rightarrow> u64 \<Rightarrow> 'tk pred_jar \<Rightarrow> (int \<times> 'tk pred_jar) pred_result" where
  "claim_pred_winnings transfer e bettor i s =
     and_then (require_auth e bettor) (\<lambda>_.
     and_then (ok_or PredMarketNotFound (get_market s i)) (\<lambda>m.
     if pm_status m \<noteq> MarketResolved \<and> pm_status m \<noteq> MarketCancelled then fail PredMarketNotSettled
     else
     let p = get_bettor_position s i bettor in
     if yes_amount p = 0 \<and> no_amount p = 0 then fail PredNoPosition
     else if bp_settled p then fail PredAlreadyClaimed
     else
     and_then (claim_winnings transfer e bettor i s) (\<lambda>(payout, s1).
     Inr (payout, pj_emit (EvPmClaim i bettor payout) s1))))"

definition get_pred_market_odds :: "'tk pred_jar \<Rightarrow> u64 \<Rightarrow> (int \<times> int) pred_result" where
  "get_pred_market_odds s i = and_then (ok_or PredMarketNotFound (get_market s i)) market_odds"

definition get_pred_market_multiplier :: "'tk pred_jar \<Rightarrow> u64 \<Rightarrow> outcome \<Rightarrow> int pred_result" where
  "get_pred_market_multiplier s i out = and_then (ok_or PredMarketNotFound (get_market s i)) (\<lambda>m. payout_multiplier m out)"

end
