(* ===== verification/Prediction_Claims.thy ===== *)
theory Prediction_Claims
  imports Prediction_Market Token_Supply
begin

text \<open>
  What the prediction markets owe to the bettors, the sums behind their pools, and that settling a market never creates a
  claim: the payouts of the winners together stay within the two pools.
\<close>

section \<open>Sums over rows\<close>

lemma support_total_mono:
  assumes "finite A" "support f \<subseteq> A" "support g \<subseteq> A" "\<And>k. f k \<le> g k"
  shows "support_total f \<le> support_total g"
  using assms by (simp add: support_total_superset [of A] sum_mono)

lemma support_total_row:
  assumes "finite (support f)"
  shows "support_total f = support_total (\<lambda>b. f (i, b)) + (\<Sum>k\<in>{k\<in>support f. fst k \<noteq> i}. f k)"
proof -
  let ?R = "{k\<in>support f. fst k = i}" and ?N = "{k\<in>support f. fst k \<noteq> i}"
  have "support_total f = (\<Sum>k\<in>?R \<union> ?N. f k)" unfolding support_total_def by (rule sum.cong) auto
  also have "\<dots> = (\<Sum>k\<in>?R. f k) + (\<Sum>k\<in>?N. f k)" by (rule sum.union_disjoint) (use assms in auto)
  also have "(\<Sum>k\<in>?R. f k) = (\<Sum>b\<in>support (\<lambda>b. f (i, b)). f (i, b))"
    by (rule sum.reindex_bij_witness [of _ "\<lambda>b. (i, b)" snd]) (auto simp: support_def)
  finally show ?thesis by (simp add: support_total_def)
qed

lemma support_row: "finite (support f) \<Longrightarrow> finite (support (\<lambda>b. f (i, b)))"
  by (rule finite_subset [of _ "snd ` support f"]) (auto simp: support_def image_iff)

lemma support_total_row_le:
  assumes "finite (support f)" "finite (support g)" "\<And>k. fst k \<noteq> i \<Longrightarrow> g k = f k"
    and "support_total (\<lambda>b. g (i, b)) \<le> support_total (\<lambda>b. f (i, b))"
  shows "support_total g \<le> support_total f"
proof -
  have "{k\<in>support g. fst k \<noteq> i} = {k\<in>support f. fst k \<noteq> i}" using assms(3) by (auto simp: support_def)
  then have "(\<Sum>k\<in>{k\<in>support g. fst k \<noteq> i}. g k) = (\<Sum>k\<in>{k\<in>support f. fst k \<noteq> i}. f k)"
    using assms(3) by (auto intro: sum.cong)
  then show ?thesis using assms by (simp add: support_total_row [of f i] support_total_row [of g i])
qed

section \<open>Shares of a pool\<close>

text \<open>Rounding every share of a pool down leaves the sum of the shares within the pool.\<close>

lemma shares_within_pool:
  assumes "finite A" "\<And>b. b \<in> A \<Longrightarrow> 0 \<le> w b" "sum w A = (W::int)" "0 < W" "0 \<le> T"
  shows "(\<Sum>b\<in>A. w b * T div W) \<le> T"
proof -
  have "W * (\<Sum>b\<in>A. w b * T div W) \<le> (\<Sum>b\<in>A. w b * T)"
    unfolding sum_distrib_left by (rule sum_mono) (rule div_round_down [OF assms(4)])
  also have "\<dots> = W * T" by (simp add: assms(3) flip: sum_distrib_right)
  finally show ?thesis using assms(4) by simp
qed

text \<open>What a winning stake earns, computed without overflow.\<close>

definition payout :: "prediction_market \<Rightarrow> bettor_position \<Rightarrow> int" where
  "payout m p =
     (let w = winning_outcome m; gross = stake_on w p * (yes_pool m + no_pool m) div pool_of w m in
      if stake_on w p = 0 \<or> pool_of w m = 0 then 0 else gross - gross * uint (pm_fee_bps m) div PRED_BPS_DENOM)"

text \<open>Pools in which no product overflows, and a fee of at most a tenth.\<close>

definition market_ok :: "prediction_market \<Rightarrow> bool" where
  "market_ok m \<longleftrightarrow> 0 \<le> yes_pool m \<and> 0 \<le> no_pool m \<and> yes_pool m + no_pool m \<le> SUPPLY_CAP \<and> uint (pm_fee_bps m) \<le> 1000"

definition stake_ok :: "prediction_market \<Rightarrow> bettor_position \<Rightarrow> bool" where
  "stake_ok m p \<longleftrightarrow> 0 \<le> yes_amount p \<and> 0 \<le> no_amount p \<and> yes_amount p \<le> yes_pool m \<and> no_amount p \<le> no_pool m"

lemma pool_sides:
  assumes "market_ok m"
  shows "0 \<le> pool_of w m" "pool_of w m \<le> yes_pool m + no_pool m"
  using assms by (cases w; simp add: market_ok_def)+

lemma stake_sides:
  assumes "stake_ok m p"
  shows "0 \<le> stake_on w p" "stake_on w p \<le> pool_of w m"
  using assms by (cases w; simp add: stake_ok_def)+

lemma gross_bounds:
  assumes "market_ok m" "stake_ok m p" "stake_on w p \<noteq> 0"
  shows "0 \<le> stake_on w p * (yes_pool m + no_pool m) div pool_of w m"
    "stake_on w p * (yes_pool m + no_pool m) div pool_of w m \<le> yes_pool m + no_pool m"
    "stake_on w p * (yes_pool m + no_pool m) \<le> SUPPLY_CAP * SUPPLY_CAP"
proof -
  let ?T = "yes_pool m + no_pool m"
  note P = pool_sides [OF assms(1), of w] and S = stake_sides [OF assms(2), of w]
  have w0: "0 < pool_of w m" and T: "0 \<le> ?T" "?T \<le> SUPPLY_CAP" using S assms(1,3) by (auto simp: market_ok_def)
  show "0 \<le> stake_on w p * ?T div pool_of w m" using S T w0 by (simp add: pos_imp_zdiv_nonneg_iff)
  have "stake_on w p * ?T div pool_of w m \<le> pool_of w m * ?T div pool_of w m"
    using S T w0 by (intro zdiv_mono1 mult_right_mono) auto
  then show "stake_on w p * ?T div pool_of w m \<le> ?T" using w0 by simp
  have "stake_on w p \<le> SUPPLY_CAP" using S(2) P(2) T(2) by linarith
  then show "stake_on w p * ?T \<le> SUPPLY_CAP * SUPPLY_CAP" using S(1) T by (intro mult_mono) auto
qed

lemma payout_nonneg:
  assumes "market_ok m" "stake_ok m p"
  shows "0 \<le> payout m p"
proof (cases "stake_on (winning_outcome m) p = 0")
  case False
  define g where "g = stake_on (winning_outcome m) p * (yes_pool m + no_pool m) div pool_of (winning_outcome m) m"
  have "0 \<le> g" using gross_bounds(1) [OF assms False] by (simp add: g_def)
  then have "g * uint (pm_fee_bps m) div PRED_BPS_DENOM \<le> g * 10000 div PRED_BPS_DENOM"
    using assms(1) by (intro zdiv_mono1 mult_left_mono) (simp_all add: market_ok_def PRED_BPS_DENOM_def)
  then show ?thesis by (simp add: payout_def Let_def PRED_BPS_DENOM_def flip: g_def)
qed (simp add: payout_def)

lemma calculate_payout_exact:
  assumes "market_ok m" "stake_ok m p"
  shows "calculate_payout m p = Inr (payout m p)"
proof (cases "stake_on (winning_outcome m) p = 0")
  case False
  let ?w = "winning_outcome m" and ?T = "yes_pool m + no_pool m"
  define g where "g = stake_on ?w p * ?T div pool_of ?w m"
  note G = gross_bounds [OF assms False]
  have T: "0 \<le> ?T" "?T \<le> SUPPLY_CAP" using assms(1) by (auto simp: market_ok_def)
  have W: "0 < pool_of ?w m" "0 \<le> stake_on ?w p" using stake_sides [OF assms(2), of ?w] False by auto
  have small: "stake_on ?w p * ?T \<le> I128_MAX" using G(3) by (simp add: I128_MAX_def SUPPLY_CAP_def)
  have a: "add_i128 (yes_pool m) (no_pool m) = ?T"
    using T by (intro add_i128_exact) (simp add: in_i128_nonneg I128_MAX_def SUPPLY_CAP_def)
  have m1: "muldiv_i128 (stake_on ?w p) ?T (pool_of ?w m) = Inr g"
    unfolding g_def by (rule muldiv_i128_nonneg) (use W T small in auto)
  have g: "0 \<le> g" "g \<le> SUPPLY_CAP" using G(1,2) T by (auto simp: g_def)
  have f: "0 \<le> uint (pm_fee_bps m)" "uint (pm_fee_bps m) \<le> 1000" using assms(1) by (auto simp: market_ok_def)
  have "g * uint (pm_fee_bps m) \<le> SUPPLY_CAP * 1000" using g f by (intro mult_mono) auto
  then have m2: "muldiv_i128 g (uint (pm_fee_bps m)) PRED_BPS_DENOM = Inr (g * uint (pm_fee_bps m) div PRED_BPS_DENOM)"
    using g f by (intro muldiv_i128_nonneg) (auto simp: PRED_BPS_DENOM_def I128_MAX_def SUPPLY_CAP_def)
  have pay: "payout m p = g - g * uint (pm_fee_bps m) div PRED_BPS_DENOM"
    using False W by (simp add: payout_def g_def Let_def)
  have "0 \<le> g - g * uint (pm_fee_bps m) div PRED_BPS_DENOM" "g - g * uint (pm_fee_bps m) div PRED_BPS_DENOM \<le> g"
    using payout_nonneg [OF assms] g f pay by (simp_all add: PRED_BPS_DENOM_def pos_imp_zdiv_nonneg_iff)
  then have "sub_i128 g (g * uint (pm_fee_bps m) div PRED_BPS_DENOM) = payout m p"
    using g pay by (intro trans [OF sub_i128_exact]) (simp_all add: in_i128_nonneg I128_MAX_def SUPPLY_CAP_def)
  moreover have "?w \<noteq> OutcomeNone" using False by (cases ?w) auto
  ultimately show ?thesis using False W by (simp add: calculate_payout_def Let_def a m1 m2)
qed (simp add: calculate_payout_def payout_def Let_def)

text \<open>The payouts of a market together stay within its pools.\<close>

lemma payouts_within_pools:
  assumes "market_ok m" "finite B" "\<And>b. b \<in> B \<Longrightarrow> stake_ok m (P b)"
    and "(\<Sum>b\<in>B. stake_on (winning_outcome m) (P b)) = pool_of (winning_outcome m) m"
  shows "(\<Sum>b\<in>B. payout m (P b)) \<le> yes_pool m + no_pool m"
proof (cases "pool_of (winning_outcome m) m = 0")
  case True
  then show ?thesis using assms(1) by (simp add: payout_def market_ok_def)
next
  case False
  let ?w = "winning_outcome m" and ?T = "yes_pool m + no_pool m"
  have W: "0 < pool_of ?w m" using False pool_sides(1) [OF assms(1), of ?w] by simp
  have T: "0 \<le> ?T" using assms(1) by (simp add: market_ok_def)
  have le: "payout m (P b) \<le> stake_on ?w (P b) * ?T div pool_of ?w m" if "b \<in> B" for b
  proof (cases "stake_on ?w (P b) = 0")
    case False
    then show ?thesis
      using gross_bounds(1) [OF assms(1) assms(3) [OF that] False] W
      by (simp add: payout_def Let_def PRED_BPS_DENOM_def pos_imp_zdiv_nonneg_iff)
  qed (simp add: payout_def)
  have "(\<Sum>b\<in>B. payout m (P b)) \<le> (\<Sum>b\<in>B. stake_on ?w (P b) * ?T div pool_of ?w m)" using le by (rule sum_mono)
  also have "\<dots> \<le> ?T"
    by (rule shares_within_pool [OF assms(2) _ assms(4) W T]) (rule stake_sides(1) [OF assms(3)])
  finally show ?thesis .
qed

end
