(* ===== verification/Prediction_Solvency.thy ===== *)
theory Prediction_Solvency
  imports Prediction_Claims Registry
begin

text \<open>
  The prediction markets stay funded: the invariant of the markets and positions, its preservation by every call, and the
  theorems on payouts.
\<close>

section \<open>Invariant\<close>

type_synonym markets = "u64 \<rightharpoonup> prediction_market"
type_synonym positions = "u64 \<times> address \<rightharpoonup> bettor_position"

definition stake_at :: "positions \<Rightarrow> outcome \<Rightarrow> u64 \<Rightarrow> address \<Rightarrow> int" where
  "stake_at P w i b = (case P (i, b) of None \<Rightarrow> 0 | Some p \<Rightarrow> stake_on w p)"

definition undecided :: "prediction_market \<Rightarrow> bool" where
  "undecided m \<longleftrightarrow> pm_status m = MarketOpen \<or> pm_status m = MarketClosed"

definition market_inv :: "positions \<Rightarrow> u64 \<Rightarrow> prediction_market \<Rightarrow> bool" where
  "market_inv P i m \<longleftrightarrow> pm_market_id m = i \<and> market_ok m \<and> yes_pool m = support_total (stake_at P OutcomeYes i) \<and>
     no_pool m = support_total (stake_at P OutcomeNo i)"

definition position_inv :: "markets \<Rightarrow> u64 \<Rightarrow> address \<Rightarrow> bettor_position \<Rightarrow> bool" where
  "position_inv M i b p \<longleftrightarrow> bp_bettor p = b \<and> bp_market_id p = i \<and> 0 \<le> yes_amount p \<and> 0 \<le> no_amount p \<and>
     (\<exists>m. M i = Some m \<and> (undecided m \<longrightarrow> \<not> bp_settled p))"

definition pred_inv :: "markets \<Rightarrow> positions \<Rightarrow> u64 \<Rightarrow> bool" where
  "pred_inv M P c \<longleftrightarrow> finite (dom P) \<and> (\<forall>i m. M i = Some m \<longrightarrow> i \<le> c \<and> market_inv P i m) \<and>
     (\<forall>i b p. P (i, b) = Some p \<longrightarrow> position_inv M i b p)"

text \<open>What a position is worth: nothing once it is settled, its payout in a resolved market, its stakes otherwise.\<close>

definition position_owed :: "prediction_market \<Rightarrow> bettor_position \<Rightarrow> int" where
  "position_owed m p =
     (if bp_settled p then 0 else if pm_status m = MarketResolved then payout m p else yes_amount p + no_amount p)"

definition pred_owed :: "markets \<Rightarrow> positions \<Rightarrow> address \<Rightarrow> u64 \<times> address \<Rightarrow> int" where
  "pred_owed M P t k =
     (case P k of None \<Rightarrow> 0
      | Some p \<Rightarrow> (case M (fst k) of None \<Rightarrow> 0 | Some m \<Rightarrow> if pm_token m = t then position_owed m p else 0))"

lemma pred_invD:
  assumes "pred_inv M P c"
  shows "finite (dom P)" "M i = Some m \<Longrightarrow> i \<le> c" "M i = Some m \<Longrightarrow> market_inv P i m"
    "P (i, b) = Some p \<Longrightarrow> position_inv M i b p"
  using assms by (auto simp: pred_inv_def)

lemma stake_support:
  assumes "finite (dom P)"
  shows "finite (support (stake_at P w i))" "finite {b. (i, b) \<in> dom P}" "support (stake_at P w i) \<subseteq> {b. (i, b) \<in> dom P}"
proof -
  show f: "finite {b. (i, b) \<in> dom P}"
    by (rule finite_subset [of _ "snd ` dom P"]) (use assms in \<open>force simp: image_iff\<close>)+
  show s: "support (stake_at P w i) \<subseteq> {b. (i, b) \<in> dom P}"
    by (auto simp: support_def stake_at_def split: option.splits)
  show "finite (support (stake_at P w i))" by (rule finite_subset [OF s f])
qed

lemma owed_support:
  assumes "finite (dom P)"
  shows "finite (support (pred_owed M P t))" "support (pred_owed M P t) \<subseteq> dom P"
proof -
  show s: "support (pred_owed M P t) \<subseteq> dom P" by (auto simp: support_def pred_owed_def split: option.splits)
  show "finite (support (pred_owed M P t))" by (rule finite_subset [OF s assms])
qed

lemma stake_nonneg: "pred_inv M P c \<Longrightarrow> 0 \<le> stake_at P w i b"
  using pred_invD(4) [of M P c i b] by (cases w) (auto simp: stake_at_def position_inv_def split: option.splits)

lemma position_stake:
  assumes "pred_inv M P c" "M i = Some m" "P (i, b) = Some p"
  shows "stake_ok m p"
proof -
  note m = pred_invD(3) [OF assms(1,2)] and p = pred_invD(4) [OF assms(1,3)]
  have "stake_at P w i b \<le> support_total (stake_at P w i)" for w
    by (rule support_total_ge) (use stake_support [OF pred_invD(1) [OF assms(1)]] stake_nonneg [OF assms(1)] in auto)
  from this [of OutcomeYes] this [of OutcomeNo] show ?thesis
    using m p assms(3) by (simp add: stake_ok_def market_inv_def position_inv_def stake_at_def)
qed

lemma owed_nonneg:
  assumes "pred_inv M P c"
  shows "0 \<le> pred_owed M P t k"
proof (cases k)
  case (Pair i b)
  show ?thesis
  proof (cases "P (i, b)")
    case (Some p)
    then obtain m where m: "M i = Some m" using pred_invD(4) [OF assms Some] by (auto simp: position_inv_def)
    have "0 \<le> position_owed m p"
      using payout_nonneg [of m p] position_stake [OF assms m Some] pred_invD(3) [OF assms m]
      by (auto simp: position_owed_def market_inv_def stake_ok_def)
    then show ?thesis by (simp add: pred_owed_def Pair Some m)
  qed (simp add: pred_owed_def Pair)
qed

text \<open>The claims of one market, and that those of an undecided market are its two pools.\<close>

lemma owed_row:
  assumes "finite (dom P)" "N i = Some n"
  shows "support_total (\<lambda>b. pred_owed N P t (i, b)) =
    (\<Sum>b | (i, b) \<in> dom P. if pm_token n = t then position_owed n (the (P (i, b))) else 0)"
proof -
  have sup: "support (\<lambda>b. pred_owed N P t (i, b)) \<subseteq> {b. (i, b) \<in> dom P}"
    by (auto simp: support_def pred_owed_def split: option.splits)
  show ?thesis
    unfolding support_total_superset [OF stake_support(2) [OF assms(1)] sup] by (rule sum.cong) (auto simp: pred_owed_def assms(2))
qed

lemma stakes_sum:
  assumes "pred_inv M P c" "M i = Some m"
  shows "(\<Sum>b | (i, b) \<in> dom P. stake_on x (the (P (i, b)))) = pool_of x m"
proof -
  note B = stake_support [OF pred_invD(1) [OF assms(1)]]
  have s: "(\<Sum>b | (i, b) \<in> dom P. stake_on x (the (P (i, b)))) = support_total (stake_at P x i)"
    unfolding support_total_superset [OF B(2,3)] by (rule sum.cong) (auto simp: stake_at_def)
  show ?thesis by (cases x) (use s pred_invD(3) [OF assms] in \<open>simp_all add: market_inv_def\<close>)
qed

lemma undecided_stakes:
  assumes "pred_inv M P c" "M i = Some m" "undecided m"
  shows "(\<Sum>b | (i, b) \<in> dom P. position_owed m (the (P (i, b)))) = yes_pool m + no_pool m"
proof -
  have ns: "\<not> bp_settled p" if "P (i, b) = Some p" for b p
    using pred_invD(4) [OF assms(1) that] assms(2,3) by (auto simp: position_inv_def)
  have "(\<Sum>b | (i, b) \<in> dom P. position_owed m (the (P (i, b)))) =
      (\<Sum>b | (i, b) \<in> dom P. stake_on OutcomeYes (the (P (i, b))) + stake_on OutcomeNo (the (P (i, b))))"
    by (rule sum.cong) (use ns assms(3) in \<open>auto simp: position_owed_def undecided_def\<close>)
  then show ?thesis using stakes_sum [OF assms(1,2), of OutcomeYes] stakes_sum [OF assms(1,2), of OutcomeNo] by (simp add: sum.distrib)
qed

lemma pools_claimed:
  assumes "pred_inv M P c" "M i = Some m" "undecided m"
  shows "yes_pool m + no_pool m \<le> support_total (pred_owed M P (pm_token m))"
proof -
  note f = owed_support(1) [OF pred_invD(1) [OF assms(1)], of M "pm_token m"]
  have "support_total (\<lambda>b. pred_owed M P (pm_token m) (i, b)) = yes_pool m + no_pool m"
    using owed_row [where N = M and n = m and t = "pm_token m", OF pred_invD(1) [OF assms(1)] assms(2)] undecided_stakes [OF assms] by simp
  moreover have "0 \<le> (\<Sum>k\<in>{k\<in>support (pred_owed M P (pm_token m)). fst k \<noteq> i}. pred_owed M P (pm_token m) k)"
    by (rule sum_nonneg) (rule owed_nonneg [OF assms(1)])
  ultimately show ?thesis using support_total_row [OF f, of i] by simp
qed

section \<open>Changes\<close>

text \<open>A new market has no positions.\<close>

lemma inv_create:
  assumes "pred_inv M P c" "c \<noteq> - 1" "pm_market_id m = c + 1" "yes_pool m = 0" "no_pool m = 0" "uint (pm_fee_bps m) \<le> 1000"
  shows "pred_inv (M(c + 1 \<mapsto> m)) P (c + 1)" "pred_owed (M(c + 1 \<mapsto> m)) P t = pred_owed M P t"
proof -
  have c: "c < c + 1" using assms(2) by (rule word_le_Suc_iff)
  have new: "M (c + 1) = None" using pred_invD(2) [OF assms(1), of "c + 1"] c by (cases "M (c + 1)") auto
  have none: "P (c + 1, b) = None" for b
    using pred_invD(4) [OF assms(1), of "c + 1" b] new by (cases "P (c + 1, b)") (auto simp: position_inv_def)
  then have z: "stake_at P w (c + 1) = (\<lambda>_. 0)" for w by (simp add: stake_at_def fun_eq_iff)
  have "market_inv P (c + 1) m" using assms(3-6) by (simp add: market_inv_def market_ok_def SUPPLY_CAP_def z)
  moreover have "i \<le> c + 1" if "M i = Some m'" for i m' using pred_invD(2) [OF assms(1) that] c by simp
  moreover have "position_inv (M(c + 1 \<mapsto> m)) i b p" if "P (i, b) = Some p" for i b p
    using pred_invD(4) [OF assms(1) that] that none by (auto simp: position_inv_def)
  ultimately show "pred_inv (M(c + 1 \<mapsto> m)) P (c + 1)"
    using pred_invD(1,3) [OF assms(1)] by (auto simp: pred_inv_def)
  show "pred_owed (M(c + 1 \<mapsto> m)) P t = pred_owed M P t"
    using none by (auto simp: pred_owed_def fun_eq_iff split: option.splits)
qed

text \<open>A status change of an undecided market.\<close>

lemma inv_decide:
  assumes "pred_inv M P c" "M i = Some m" "undecided m" "m' = m\<lparr>pm_status := st, winning_outcome := w\<rparr>"
  shows "pred_inv (M(i \<mapsto> m')) P c" "support_total (pred_owed (M(i \<mapsto> m')) P t) \<le> support_total (pred_owed M P t)"
proof -
  note I = pred_invD [OF assms(1)]
  have m: "market_inv P i m" "market_ok m" using I(3) [OF assms(2)] by (simp_all add: market_inv_def)
  have m': "market_inv P i m'" "market_ok m'" using m by (simp_all add: market_inv_def market_ok_def assms(4))
  have ns: "\<not> bp_settled p" if "P (i, b) = Some p" for b p
    using I(4) [OF that] assms(2,3) by (auto simp: position_inv_def)
  have "position_inv (M(i \<mapsto> m')) j b p" if "P (j, b) = Some p" for j b p
    using I(4) [OF that] ns that by (auto simp: position_inv_def)
  then show inv: "pred_inv (M(i \<mapsto> m')) P c" using I(1-3) m'(1) assms(2) by (auto simp: pred_inv_def)
  let ?B = "{b. (i, b) \<in> dom P}" and ?p = "\<lambda>b. the (P (i, b))"
  note B = stake_support(2) [OF I(1), of i] and row = owed_row [OF I(1)]
  note sums = stakes_sum [OF assms(1,2)] and old = undecided_stakes [OF assms(1-3)]
  have new: "(\<Sum>b\<in>?B. position_owed m' (?p b)) \<le> yes_pool m + no_pool m"
  proof (cases "st = MarketResolved")
    case True
    have pools: "pool_of x m' = pool_of x m" for x by (cases x) (simp_all add: assms(4))
    have "(\<Sum>b\<in>?B. payout m' (?p b)) \<le> yes_pool m' + no_pool m'"
      by (rule payouts_within_pools [OF m'(2) B]) (use position_stake [OF inv, of i m'] sums pools in auto)
    moreover have "(\<Sum>b\<in>?B. position_owed m' (?p b)) = (\<Sum>b\<in>?B. payout m' (?p b))"
      by (rule sum.cong) (use ns True in \<open>auto simp: position_owed_def assms(4)\<close>)
    ultimately show ?thesis by (simp add: assms(4))
  next
    case False
    have "(\<Sum>b\<in>?B. position_owed m' (?p b)) = (\<Sum>b\<in>?B. position_owed m (?p b))"
      by (rule sum.cong) (use ns False assms(3) in \<open>auto simp: position_owed_def assms(4) undecided_def\<close>)
    then show ?thesis using old by simp
  qed
  have tok: "pm_token m' = pm_token m" by (simp add: assms(4))
  have le: "support_total (\<lambda>b. pred_owed (M(i \<mapsto> m')) P t (i, b)) \<le> support_total (\<lambda>b. pred_owed M P t (i, b))"
    using old new tok unfolding row [of M i m, OF assms(2)] row [of "M(i \<mapsto> m')" i m', OF fun_upd_same]
    by (cases "pm_token m = t") auto
  show "support_total (pred_owed (M(i \<mapsto> m')) P t) \<le> support_total (pred_owed M P t)"
    by (rule support_total_row_le [OF owed_support(1) owed_support(1) _ le])
      (use I(1) in \<open>auto simp: pred_owed_def split: option.splits\<close>)
qed

text \<open>A settled position claims nothing.\<close>

lemma inv_claim:
  assumes "pred_inv M P c" "M i = Some m" "\<not> undecided m" "P (i, b) = Some p"
  shows "pred_inv M (P((i, b) \<mapsto> p\<lparr>bp_settled := True\<rparr>)) c"
    "pred_owed M (P((i, b) \<mapsto> p\<lparr>bp_settled := True\<rparr>)) t = (pred_owed M P t)((i, b) := 0)"
proof -
  note I = pred_invD [OF assms(1)]
  have s: "stake_at (P((i, b) \<mapsto> p\<lparr>bp_settled := True\<rparr>)) w j = stake_at P w j" for w j
    using assms(4) by (cases w) (auto simp: stake_at_def fun_eq_iff)
  have "position_inv M j b' p'" if "(P((i, b) \<mapsto> p\<lparr>bp_settled := True\<rparr>)) (j, b') = Some p'" for j b' p'
    using that I(4) [OF assms(4)] I(4) [of j b' p'] assms(2,3) by (auto simp: position_inv_def split: if_splits)
  then show "pred_inv M (P((i, b) \<mapsto> p\<lparr>bp_settled := True\<rparr>)) c"
    using I(1-3) by (auto simp: pred_inv_def market_inv_def s)
  show "pred_owed M (P((i, b) \<mapsto> p\<lparr>bp_settled := True\<rparr>)) t = (pred_owed M P t)((i, b) := 0)"
    by (auto simp: pred_owed_def fun_eq_iff position_owed_def assms(2) split: option.splits)
qed

text \<open>A bet adds the same amount to a pool of an open market and to a position in it.\<close>

lemma inv_bet:
  fixes P :: positions and b i
  defines "p \<equiv> unwrap_or (P (i, b)) \<lparr>bp_bettor = b, bp_market_id = i, yes_amount = 0, no_amount = 0, bp_settled = False\<rparr>"
  assumes "pred_inv M P c" "M i = Some m" "undecided m" "0 \<le> n" "yes_pool m + no_pool m + n \<le> SUPPLY_CAP"
    and "add_to_pool out n m = Inr m'" "add_to_position out n p = Inr p'"
  shows "pred_inv (M(i \<mapsto> m')) (P((i, b) \<mapsto> p')) c" "pm_token m' = pm_token m"
    "pred_owed (M(i \<mapsto> m')) (P((i, b) \<mapsto> p')) t =
      (pred_owed M P t)((i, b) := pred_owed M P t (i, b) + (if pm_token m = t then n else 0))"
proof -
  note I = pred_invD [OF assms(2)]
  have m: "market_inv P i m" "market_ok m" using I(3) [OF assms(3)] by (simp_all add: market_inv_def)
  have pos: "bp_bettor p = b" "bp_market_id p = i" "\<not> bp_settled p" "0 \<le> yes_amount p" "0 \<le> no_amount p"
      "yes_amount p \<le> yes_pool m" "no_amount p \<le> no_pool m"
    using I(4) [of i b] position_stake [OF assms(2,3), of b] assms(3,4) m(2)
    by (cases "P (i, b)"; auto simp: p_def position_inv_def stake_ok_def market_ok_def)+
  have fits: "add_i128 x n = x + n" if "0 \<le> x" "x \<le> yes_pool m + no_pool m" for x
    using that assms(5,6) by (intro add_i128_exact) (simp add: in_i128_nonneg I128_MAX_def SUPPLY_CAP_def)
  have ex: "add_i128 (yes_pool m) n = yes_pool m + n" "add_i128 (no_pool m) n = no_pool m + n"
      "add_i128 (yes_amount p) n = yes_amount p + n" "add_i128 (no_amount p) n = no_amount p + n"
    using m(2) pos by (auto intro!: fits simp: market_ok_def)
  have p': "bp_bettor p' = b" "bp_market_id p' = i" "\<not> bp_settled p'" "0 \<le> yes_amount p'" "0 \<le> no_amount p'"
    using assms(5,8) pos by (auto simp: add_to_position_def ex split: outcome.splits)
  have sat: "stake_at P w i b = stake_on w p" for w
    by (cases w) (auto simp: stake_at_def p_def split: option.splits)
  have other: "stake_at (P((i, b) \<mapsto> p')) w j = stake_at P w j" if "j \<noteq> i" for w j
    using that by (auto simp: stake_at_def fun_eq_iff)
  have row: "stake_at (P((i, b) \<mapsto> p')) w i = (stake_at P w i)(b := stake_on w p')" for w
    by (auto simp: stake_at_def fun_eq_iff)
  have tot: "support_total (stake_at (P((i, b) \<mapsto> p')) w i) = support_total (stake_at P w i) - stake_on w p + stake_on w p'" for w
    unfolding row using stake_support(1) [OF I(1)] by (simp add: support_total_upd sat)
  have "m' = m\<lparr>yes_pool := yes_pool m + n\<rparr> \<and> p' = p\<lparr>yes_amount := yes_amount p + n\<rparr> \<or>
      m' = m\<lparr>no_pool := no_pool m + n\<rparr> \<and> p' = p\<lparr>no_amount := no_amount p + n\<rparr>"
    using assms(7,8) by (auto simp: add_to_position_def add_to_pool_def ex split: outcome.splits)
  moreover have "support_total (stake_at P OutcomeYes i) = yes_pool m" "support_total (stake_at P OutcomeNo i) = no_pool m"
      "pm_market_id m = i" "0 \<le> yes_pool m" "0 \<le> no_pool m" "uint (pm_fee_bps m) \<le> 1000"
    using m by (simp_all add: market_inv_def market_ok_def)
  ultimately have m': "market_inv (P((i, b) \<mapsto> p')) i m'"
    using assms(5,6) unfolding market_inv_def market_ok_def tot by (elim disjE conjE) simp_all
  have keep: "pm_token m' = pm_token m" "pm_status m' = pm_status m"
    using assms(7) by (auto simp: add_to_pool_def split: outcome.splits)
  then have und: "undecided m'" using assms(4) by (simp add: undecided_def)
  have mi: "j \<le> c \<and> market_inv (P((i, b) \<mapsto> p')) j n'" if "(M(i \<mapsto> m')) j = Some n'" for j n'
    using that m' I(2,3) [of j] I(2) [OF assms(3)] other [of j] by (cases "j = i") (auto simp: market_inv_def)
  have pi: "position_inv (M(i \<mapsto> m')) j a q" if "(P((i, b) \<mapsto> p')) (j, a) = Some q" for j a q
  proof (cases "j = i \<and> a = b")
    case True
    then show ?thesis using that p' by (simp add: position_inv_def)
  next
    case False
    then have q: "P (j, a) = Some q" using that by (auto split: if_splits)
    show ?thesis using I(4) [OF q] assms(3,4) by (cases "j = i") (auto simp: position_inv_def)
  qed
  show "pred_inv (M(i \<mapsto> m')) (P((i, b) \<mapsto> p')) c" using I(1) mi pi by (auto simp: pred_inv_def)
  show "pm_token m' = pm_token m" by (rule keep)
  have new: "position_owed m' p' = yes_amount p + no_amount p + n"
    using p'(3) und keep assms(4,8) by (auto simp: position_owed_def undecided_def add_to_position_def ex split: outcome.splits)
  have "pred_owed M P t (i, b) = (if pm_token m = t then yes_amount p + no_amount p else 0)"
    using assms(3,4) pos(3) by (auto simp: pred_owed_def position_owed_def undecided_def p_def split: option.splits)
  moreover have "position_owed m' q = position_owed m q" if "P (i, a) = Some q" for a q
    using keep assms(4) by (auto simp: position_owed_def undecided_def)
  ultimately show "pred_owed (M(i \<mapsto> m')) (P((i, b) \<mapsto> p')) t =
      (pred_owed M P t)((i, b) := pred_owed M P t (i, b) + (if pm_token m = t then n else 0))"
    using new keep(1) assms(3) by (auto simp: pred_owed_def fun_eq_iff split: option.splits)
qed

end
