(* ===== verification/Prediction_Payouts.thy ===== *)
theory Prediction_Payouts
  imports Prediction_Solvency
begin

text \<open>
  Runs of calls on the prediction markets: they stay funded, and every unsettled position of a decided market is paid.
\<close>

section \<open>What the calls do to markets, positions and tokens\<close>

text \<open>What each storage operation does to the parts that money depends on.\<close>

lemma pred_frame [simp]:
  "pj_market (save_market m s) = (pj_market s)(pm_market_id m \<mapsto> m)" "pj_position (save_market m s) = pj_position s" "get_market_counter (save_market m s) = get_market_counter s"
  "pred_get_fee_bps (save_market m s) = pred_get_fee_bps s" "pj_tokens (save_market m s) = pj_tokens s"
  "pj_market (add_active_market i s) = pj_market s" "pj_position (add_active_market i s) = pj_position s" "get_market_counter (add_active_market i s) = get_market_counter s"
  "pred_get_fee_bps (add_active_market i s) = pred_get_fee_bps s" "pj_tokens (add_active_market i s) = pj_tokens s"
  "pj_market (remove_active_market i s) = pj_market s" "pj_position (remove_active_market i s) = pj_position s" "get_market_counter (remove_active_market i s) = get_market_counter s"
  "pred_get_fee_bps (remove_active_market i s) = pred_get_fee_bps s" "pj_tokens (remove_active_market i s) = pj_tokens s"
  "pj_market (add_creator_market c i s) = pj_market s" "pj_position (add_creator_market c i s) = pj_position s" "get_market_counter (add_creator_market c i s) = get_market_counter s"
  "pred_get_fee_bps (add_creator_market c i s) = pred_get_fee_bps s" "pj_tokens (add_creator_market c i s) = pj_tokens s"
  "pj_market (add_bettor_market b i s) = pj_market s" "pj_position (add_bettor_market b i s) = pj_position s" "get_market_counter (add_bettor_market b i s) = get_market_counter s"
  "pred_get_fee_bps (add_bettor_market b i s) = pred_get_fee_bps s" "pj_tokens (add_bettor_market b i s) = pj_tokens s"
  "pj_market (save_bettor_position p s) = pj_market s" "pj_position (save_bettor_position p s) = (pj_position s)((bp_market_id p, bp_bettor p) \<mapsto> p)" "get_market_counter (save_bettor_position p s) = get_market_counter s"
  "pred_get_fee_bps (save_bettor_position p s) = pred_get_fee_bps s" "pj_tokens (save_bettor_position p s) = pj_tokens s"
  "pj_market (pj_emit ev s) = pj_market s" "pj_position (pj_emit ev s) = pj_position s" "get_market_counter (pj_emit ev s) = get_market_counter s"
  "pred_get_fee_bps (pj_emit ev s) = pred_get_fee_bps s" "pj_tokens (pj_emit ev s) = pj_tokens s"
  "pj_market (pred_set_fee_bps f s) = pj_market s" "pj_position (pred_set_fee_bps f s) = pj_position s" "get_market_counter (pred_set_fee_bps f s) = get_market_counter s"
  "pred_get_fee_bps (pred_set_fee_bps f s) = f" "pj_tokens (pred_set_fee_bps f s) = pj_tokens s"
  "pj_market (s\<lparr>pj_instance := g\<rparr>) = pj_market s" "pj_position (s\<lparr>pj_instance := g\<rparr>) = pj_position s" "get_market_counter (s\<lparr>pj_instance := g\<rparr>) = get_market_counter s"
  "pred_get_fee_bps (s\<lparr>pj_instance := g\<rparr>) = pred_get_fee_bps s" "pj_tokens (s\<lparr>pj_instance := g\<rparr>) = pj_tokens s"
  "pj_market (s\<lparr>pj_tokens := tk\<rparr>) = pj_market s" "pj_position (s\<lparr>pj_tokens := tk\<rparr>) = pj_position s" "get_market_counter (s\<lparr>pj_tokens := tk\<rparr>) = get_market_counter s"
  "pred_get_fee_bps (s\<lparr>pj_tokens := tk\<rparr>) = pred_get_fee_bps s" "pj_tokens (s\<lparr>pj_tokens := tk\<rparr>) = tk"
  "pj_market (s\<lparr>pj_counter := Some i\<rparr>) = pj_market s" "pj_position (s\<lparr>pj_counter := Some i\<rparr>) = pj_position s" "get_market_counter (s\<lparr>pj_counter := Some i\<rparr>) = i"
  "pred_get_fee_bps (s\<lparr>pj_counter := Some i\<rparr>) = pred_get_fee_bps s" "pj_tokens (s\<lparr>pj_counter := Some i\<rparr>) = pj_tokens s"
  by (auto simp: get_market_def save_market_def get_market_counter_def save_bettor_position_def add_active_market_def
    remove_active_market_def add_creator_market_def add_bettor_market_def pj_emit_def pred_get_fee_bps_def pred_set_fee_bps_def Let_def)

lemma pj_not_paused_Inr:
  "pj_not_paused e s = Inr s' \<Longrightarrow> \<exists>g. s' = s\<lparr>pj_instance := g\<rparr>"
  by (auto simp: pj_not_paused_def result_simps)

lemma pj_transfer_Inr_iff [result_simps]:
  "pj_transfer transfer t a b n s = Inr s' \<longleftrightarrow> (\<exists>tk. transfer (pj_tokens s) t a b n = Some tk \<and> s' = s\<lparr>pj_tokens := tk\<rparr>)"
  by (auto simp: pj_transfer_def result_simps)

lemma position_frame [simp]:
  "get_bettor_position (save_market m s) i b = get_bettor_position s i b"
  "get_bettor_position (s\<lparr>pj_tokens := tk\<rparr>) i b = get_bettor_position s i b"
  "get_bettor_position (s\<lparr>pj_instance := g\<rparr>) i b = get_bettor_position s i b"
  by (simp_all add: get_bettor_position_def save_market_def)

lemma create_effect:
  assumes "create_pred_market e cr r q t cl rs s = Inr (i, s')"
  shows "\<exists>m. i = get_market_counter s + 1 \<and> pm_market_id m = i \<and> yes_pool m = 0 \<and> no_pool m = 0 \<and> pm_fee_bps m = pred_get_fee_bps s \<and>
    pj_market s' = (pj_market s)(i \<mapsto> m) \<and> pj_position s' = pj_position s \<and> get_market_counter s' = i \<and>
    pred_get_fee_bps s' = pred_get_fee_bps s \<and> pj_tokens s' = pj_tokens s"
  using assms
  by (force simp: create_pred_market_def create_market_def increment_market_counter_def Let_def result_simps dest!: pj_not_paused_Inr)

lemma bet_effect:
  assumes "place_pred_bet transfer e b i out n s = Inr s'"
  shows "\<exists>m m' p' tk. pj_market s i = Some m \<and> undecided m \<and> authorized e b \<and> 0 \<le> n \<and>
    transfer (pj_tokens s) (pm_token m) b (contract_address e) n = Some tk \<and> add_to_pool out n m = Inr m' \<and>
    add_to_position out n (get_bettor_position s i b) = Inr p' \<and> pj_tokens s' = tk \<and>
    pj_market s' = (pj_market s)(pm_market_id m' \<mapsto> m') \<and> pj_position s' = (pj_position s)((bp_market_id p', bp_bettor p') \<mapsto> p') \<and>
    get_market_counter s' = get_market_counter s \<and> pred_get_fee_bps s' = pred_get_fee_bps s"
  using assms
  by (auto simp: place_pred_bet_def place_bet_def get_market_def undecided_def MIN_BET_AMOUNT_def result_simps Let_def dest!: pj_not_paused_Inr)

text \<open>Closing, resolving and cancelling change the status of an undecided market, and perhaps its winner.\<close>

definition decides :: "u64 \<Rightarrow> 'tk pred_jar \<Rightarrow> 'tk pred_jar \<Rightarrow> bool" where
  "decides i s s' \<longleftrightarrow> (\<exists>m st w. pj_market s i = Some m \<and> undecided m \<and>
     pj_market s' = (pj_market s)(pm_market_id m \<mapsto> m\<lparr>pm_status := st, winning_outcome := w\<rparr>) \<and> pj_position s' = pj_position s \<and>
     get_market_counter s' = get_market_counter s \<and> pred_get_fee_bps s' = pred_get_fee_bps s \<and> pj_tokens s' = pj_tokens s)"

lemma decidesI:
  assumes "pj_market s i = Some m" "undecided m" "s' = pj_emit ev x"
    and "x = save_market (m\<lparr>pm_status := st, winning_outcome := w\<rparr>) s \<or>
      x = remove_active_market j (save_market (m\<lparr>pm_status := st, winning_outcome := w\<rparr>) s)"
  shows "decides i s s'"
  unfolding decides_def by (rule exI [of _ m], rule exI [of _ st], rule exI [of _ w]) (use assms in auto)

lemma decide_effect:
  "close_pred_market e a i s = Inr s' \<Longrightarrow> decides i s s'"
  "resolve_pred_market e a i w s = Inr s' \<Longrightarrow> decides i s s'"
  "cancel_pred_market e a i s = Inr s' \<Longrightarrow> decides i s s'"
proof -
  assume "close_pred_market e a i s = Inr s'"
  then obtain m where m: "pj_market s i = Some m" "undecided m" "s' = pj_emit (EvPmClose i) (save_market (m\<lparr>pm_status := MarketClosed\<rparr>) s)"
    by (auto simp: close_pred_market_def close_market_def get_market_def undecided_def result_simps)
  then show "decides i s s'"
    by (intro decidesI [OF m, where st = MarketClosed and w = "winning_outcome m"]) simp
next
  assume "resolve_pred_market e a i w s = Inr s'"
  then obtain m where m: "pj_market s i = Some m" "undecided m"
      "s' = pj_emit (EvPmRes i w) (remove_active_market i (save_market (m\<lparr>pm_status := MarketResolved, winning_outcome := w\<rparr>) s))"
    by (auto simp: resolve_pred_market_def resolve_market_def get_market_def undecided_def result_simps)
  then show "decides i s s'" by (intro decidesI [OF m]) blast
next
  assume "cancel_pred_market e a i s = Inr s'"
  then obtain m where m: "pj_market s i = Some m" "undecided m"
      "s' = pj_emit (EvPmCancel i) (remove_active_market i (save_market (m\<lparr>pm_status := MarketCancelled\<rparr>) s))"
    by (auto simp: cancel_pred_market_def cancel_market_def get_market_def undecided_def result_simps)
  then show "decides i s s'"
    by (intro decidesI [OF m, where st = MarketCancelled and w = "winning_outcome m" and j = i]) simp
qed

text \<open>A claim pays what the position is worth and settles it.\<close>

lemma claim_amount:
  assumes "pred_inv (pj_market s) (pj_position s) c" "pj_market s i = Some m" "pj_position s (i, b) = Some p" "\<not> undecided m"
    "\<not> bp_settled p"
  shows "(if pm_status m = MarketCancelled then Inr (add_i128 (yes_amount p) (no_amount p)) else calculate_payout m p) = Inr (position_owed m p)"
proof -
  have ok: "market_ok m" "stake_ok m p" using pred_invD(3) [OF assms(1,2)] position_stake [OF assms(1-3)] by (simp_all add: market_inv_def)
  have "0 \<le> yes_amount p + no_amount p" "yes_amount p + no_amount p \<le> SUPPLY_CAP"
    using ok by (simp_all add: market_ok_def stake_ok_def)
  then have "add_i128 (yes_amount p) (no_amount p) = yes_amount p + no_amount p"
    by (intro add_i128_exact) (simp add: in_i128_nonneg I128_MAX_def SUPPLY_CAP_def)
  then show ?thesis
    using assms(4,5) calculate_payout_exact [OF ok] by (cases "pm_status m") (simp_all add: position_owed_def undecided_def)
qed

lemma claim_effect:
  assumes "claim_pred_winnings transfer e b i s = Inr (n, s')" "pred_inv (pj_market s) (pj_position s) c"
  shows "\<exists>m p tk. pj_market s i = Some m \<and> \<not> undecided m \<and> pj_position s (i, b) = Some p \<and> authorized e b \<and> n = position_owed m p \<and>
    (if n > 0 then transfer (pj_tokens s) (pm_token m) (contract_address e) b n = Some tk else tk = pj_tokens s) \<and>
    pj_tokens s' = tk \<and> pj_market s' = pj_market s \<and> pj_position s' = (pj_position s)((i, b) \<mapsto> p\<lparr>bp_settled := True\<rparr>) \<and>
    get_market_counter s' = get_market_counter s \<and> pred_get_fee_bps s' = pred_get_fee_bps s"
proof -
  obtain m s1 where m: "pj_market s i = Some m" "\<not> undecided m" "authorized e b"
      and nz: "\<not> (yes_amount (get_bettor_position s i b) = 0 \<and> no_amount (get_bettor_position s i b) = 0)"
      and ns: "\<not> bp_settled (get_bettor_position s i b)"
      and c: "claim_winnings transfer e b i s = Inr (n, s1)" and s': "s' = pj_emit (EvPmClaim i b n) s1"
    using assms(1) by (auto simp: claim_pred_winnings_def get_market_def undecided_def Let_def result_simps split: if_splits)
  obtain p where p: "pj_position s (i, b) = Some p" using nz by (cases "pj_position s (i, b)") (auto simp: get_bettor_position_def)
  then have gp: "get_bettor_position s i b = p" by (simp add: get_bettor_position_def)
  note amt = claim_amount [OF assms(2) m(1) p m(2) ns [unfolded gp]]
  have keys: "bp_bettor p = b" "bp_market_id p = i" using pred_invD(4) [OF assms(2) p] by (simp_all add: position_inv_def)
  obtain s2 where s2: "(if position_owed m p > 0 then pj_transfer transfer (pm_token m) (contract_address e) b (position_owed m p) s else Inr s) = Inr s2"
      and n: "n = position_owed m p" and s1: "s1 = save_bettor_position (p\<lparr>bp_settled := True\<rparr>) s2"
    using c unfolding claim_winnings_def Let_def gp by (simp add: get_market_def m amt and_then_Inr_iff unwrap_Inr_iff rust_assert_Inr_iff) blast
  have "\<exists>tk. (if n > 0 then transfer (pj_tokens s) (pm_token m) (contract_address e) b n = Some tk else tk = pj_tokens s) \<and> s2 = s\<lparr>pj_tokens := tk\<rparr>"
    using s2 n by (cases "position_owed m p > 0") (auto simp: pj_transfer_Inr_iff)
  then obtain tk where tk: "if n > 0 then transfer (pj_tokens s) (pm_token m) (contract_address e) b n = Some tk else tk = pj_tokens s"
      "s2 = s\<lparr>pj_tokens := tk\<rparr>" by blast
  show ?thesis
    by (intro exI [of _ m] exI [of _ p] exI [of _ tk] conjI) (use m p n tk(1) in \<open>simp_all add: s' s1 tk(2) keys\<close>)
qed

lemma claim_returns:
  assumes "pred_inv (pj_market s) (pj_position s) c" "pj_market s i = Some m" "\<not> undecided m"
    and "pj_position s (i, b) = Some p" "\<not> bp_settled p" "yes_amount p \<noteq> 0 \<or> no_amount p \<noteq> 0" "authorized e b"
    and "if position_owed m p > 0 then transfer (pj_tokens s) (pm_token m) (contract_address e) b (position_owed m p) = Some tk
      else tk = pj_tokens s"
  shows "\<exists>s'. claim_pred_winnings transfer e b i s = Inr (position_owed m p, s') \<and> pj_tokens s' = tk \<and>
    pj_position s' (i, b) = Some (p\<lparr>bp_settled := True\<rparr>)"
proof -
  have gp: "get_bettor_position s i b = p" using assms(4) by (simp add: get_bettor_position_def)
  have keys: "bp_bettor p = b" "bp_market_id p = i" using pred_invD(4) [OF assms(1,4)] by (simp_all add: position_inv_def)
  have st: "pm_status m = MarketResolved \<or> pm_status m = MarketCancelled" using assms(3) by (cases "pm_status m") (auto simp: undecided_def)
  have pay: "(if position_owed m p > 0 then pj_transfer transfer (pm_token m) (contract_address e) b (position_owed m p) s else Inr s)
      = Inr (s\<lparr>pj_tokens := tk\<rparr>)"
    using assms(8) by (cases "position_owed m p > 0") (auto simp: pj_transfer_def)
  have "claim_winnings transfer e b i s = Inr (position_owed m p, save_bettor_position (p\<lparr>bp_settled := True\<rparr>) (s\<lparr>pj_tokens := tk\<rparr>))"
    using assms(2,5) st claim_amount [OF assms(1,2,4,3,5)] unfolding claim_winnings_def Let_def gp
    by (simp add: get_market_def unwrap_def pay)
  then have "claim_pred_winnings transfer e b i s = Inr (position_owed m p, pj_emit (EvPmClaim i b (position_owed m p))
      (save_bettor_position (p\<lparr>bp_settled := True\<rparr>) (s\<lparr>pj_tokens := tk\<rparr>)))"
    using assms(2,5-7) st unfolding claim_pred_winnings_def Let_def gp by (auto simp: get_market_def)
  then show ?thesis using keys by simp
qed

lemma settled_claim_refused:
  "pj_position s (i, b) = Some p \<Longrightarrow> bp_settled p \<Longrightarrow> \<not> is_ok (claim_pred_winnings transfer e b i s)"
  by (auto simp: is_ok_iff claim_pred_winnings_def get_bettor_position_def Let_def result_simps split: if_splits)

section \<open>Runs\<close>

inductive pred_call :: "'tk transfer_fn \<Rightarrow> address \<Rightarrow> 'tk pred_jar \<Rightarrow> 'tk pred_jar \<Rightarrow> bool" for transfer me where
  fee: "set_pred_market_fee e a fee s = Inr s' \<Longrightarrow> pred_call transfer me s s'"
| create: "create_pred_market e cr r q t cl rs s = Inr (i, s') \<Longrightarrow> get_market_counter s \<noteq> - 1 \<Longrightarrow> pred_call transfer me s s'"
| bet: "place_pred_bet transfer e b i out n s = Inr s' \<Longrightarrow> contract_address e = me \<Longrightarrow> \<not> authorized e me \<Longrightarrow> pred_call transfer me s s'"
| decide: "close_pred_market e a i s = Inr s' \<or> resolve_pred_market e a i w s = Inr s' \<or> cancel_pred_market e a i s = Inr s' \<Longrightarrow>
    pred_call transfer me s s'"
| claim: "claim_pred_winnings transfer e b i s = Inr (n, s') \<Longrightarrow> contract_address e = me \<Longrightarrow> \<not> authorized e me \<Longrightarrow>
    pred_call transfer me s s'"

definition pred_start :: "legacy_instance \<Rightarrow> address option \<Rightarrow> 'tk \<Rightarrow> 'tk pred_jar" where
  "pred_start g admin tk = \<lparr>pj_instance = g, pj_admin = admin, pj_market = Map.empty, pj_counter = None, pj_position = Map.empty,
     pj_active = None, pj_creator_markets = Map.empty, pj_bettor_markets = Map.empty, pj_fee_bps = None, pj_tokens = tk, pj_events = []\<rparr>"

definition pred_solvent :: "('tk \<Rightarrow> address \<Rightarrow> address \<Rightarrow> int) \<Rightarrow> ('tk \<Rightarrow> bool) \<Rightarrow> address \<Rightarrow> 'tk pred_jar \<Rightarrow> bool" where
  "pred_solvent holding ok me s \<longleftrightarrow> pred_inv (pj_market s) (pj_position s) (get_market_counter s) \<and>
     uint (pred_get_fee_bps s) \<le> 1000 \<and> ok (pj_tokens s) \<and>
     covers holding me (pj_tokens s) (pred_owed (pj_market s) (pj_position s))"

lemma pred_solvent_parts:
  assumes "pred_solvent holding ok me s"
  shows "pred_inv (pj_market s) (pj_position s) (get_market_counter s)" "uint (pred_get_fee_bps s) \<le> 1000" "ok (pj_tokens s)"
    "covers holding me (pj_tokens s) (pred_owed (pj_market s) (pj_position s))"
  using assms by (simp_all add: pred_solvent_def)

lemma pred_start_solvent:
  assumes "ok tk" "\<forall>t. 0 \<le> holding tk t me"
  shows "pred_solvent holding ok me (pred_start g admin tk)"
proof -
  have "pred_owed Map.empty Map.empty t = (\<lambda>_. 0)" for t by (simp add: pred_owed_def fun_eq_iff)
  then show ?thesis
    using assms by (simp add: pred_solvent_def pred_start_def pred_inv_def pred_get_fee_bps_def PRED_DEFAULT_FEE_BPS_def covers_def)
qed

lemma position_funded:
  assumes "pred_solvent holding ok me s" "pj_market s i = Some m" "pj_position s (i, b) = Some p"
  shows "0 \<le> position_owed m p" "position_owed m p \<le> holding (pj_tokens s) (pm_token m) me"
proof -
  note P = pred_solvent_parts [OF assms(1)]
  let ?f = "pred_owed (pj_market s) (pj_position s) (pm_token m)"
  have own: "?f (i, b) = position_owed m p" using assms(2,3) by (simp add: pred_owed_def)
  show "0 \<le> position_owed m p" using owed_nonneg [OF P(1), of "pm_token m" "(i, b)"] own by simp
  have "?f (i, b) \<le> support_total ?f"
    by (rule support_total_ge) (use owed_support(1) [OF pred_invD(1) [OF P(1)]] owed_nonneg [OF P(1)] in auto)
  then show "position_owed m p \<le> holding (pj_tokens s) (pm_token m) me"
    using P(4) own by (auto simp: covers_def intro: order_trans)
qed

lemma decides_solvent:
  assumes "decides i s s'" "pred_solvent holding ok me s"
  shows "pred_solvent holding ok me s'"
proof -
  note p = pred_solvent_parts [OF assms(2)]
  obtain m st w where m: "pj_market s i = Some m" "undecided m"
      "pj_market s' = (pj_market s)(pm_market_id m \<mapsto> m\<lparr>pm_status := st, winning_outcome := w\<rparr>)" "pj_position s' = pj_position s"
      "get_market_counter s' = get_market_counter s" "pred_get_fee_bps s' = pred_get_fee_bps s" "pj_tokens s' = pj_tokens s"
    using assms(1) by (auto simp: decides_def)
  have i: "pm_market_id m = i" using pred_invD(3) [OF p(1) m(1)] by (simp add: market_inv_def)
  note d = inv_decide [OF p(1) m(1,2) refl, where st = st and w = w]
  have "covers holding me (pj_tokens s') (pred_owed (pj_market s') (pj_position s'))"
    using p(4) d(2) unfolding covers_def m(3,4,7) i by (meson order_trans)
  then show ?thesis using p d(1) m i by (simp add: pred_solvent_def)
qed

context sep41_bounded
begin

lemma bet_solvent:
  assumes "place_pred_bet transfer e b i out n s = Inr s'" "contract_address e = me" "\<not> authorized e me"
    and "pred_solvent holding ledger_ok me s"
  shows "pred_solvent holding ledger_ok me s'"
proof -
  note p = pred_solvent_parts [OF assms(4)]
  obtain m m' p' tk where m: "pj_market s i = Some m" "undecided m" "authorized e b" "0 \<le> n"
      "transfer (pj_tokens s) (pm_token m) b me n = Some tk" "add_to_pool out n m = Inr m'"
      "add_to_position out n (get_bettor_position s i b) = Inr p'" "pj_tokens s' = tk"
      "pj_market s' = (pj_market s)(pm_market_id m' \<mapsto> m')" "pj_position s' = (pj_position s)((bp_market_id p', bp_bettor p') \<mapsto> p')"
      "get_market_counter s' = get_market_counter s" "pred_get_fee_bps s' = pred_get_fee_bps s"
    using bet_effect [OF assms(1)] assms(2) by auto
  have b: "b \<noteq> me" using m(3) assms(3) by auto
  note h = deposit_holding [OF p(3) m(5) b m(4)] and ok = transfer_ok [OF p(3) m(5) b m(4)]
  have "yes_pool m + no_pool m \<le> holding (pj_tokens s) (pm_token m) me"
    using pools_claimed [OF p(1) m(1,2)] p(4) by (auto simp: covers_def intro: order_trans)
  then have small: "yes_pool m + no_pool m + n \<le> SUPPLY_CAP"
    using h [of "pm_token m"] holding_bounded [OF ok, of "pm_token m" me] by simp
  note v = inv_bet [OF p(1) m(1,2,4) small m(6) m(7) [unfolded get_bettor_position_def]]
  have "pm_market_id m' = i"
    using m(6) pred_invD(3) [OF p(1) m(1)] by (auto simp: add_to_pool_def market_inv_def split: outcome.splits)
  moreover have "bp_market_id (get_bettor_position s i b) = i" "bp_bettor (get_bettor_position s i b) = b"
    using pred_invD(4) [OF p(1), of i b] by (cases "pj_position s (i, b)"; auto simp: get_bettor_position_def position_inv_def)+
  then have "bp_market_id p' = i" "bp_bettor p' = b"
    using m(7) by (auto simp: add_to_position_def split: outcome.splits)
  ultimately have up: "pj_market s' = (pj_market s)(i \<mapsto> m')" "pj_position s' = (pj_position s)((i, b) \<mapsto> p')" using m(9,10) by simp_all
  have "covers holding me (pj_tokens s') (pred_owed (pj_market s') (pj_position s'))"
    by (rule covers_update [OF p(4) owed_support(1) [OF pred_invD(1) [OF p(1)]]])
      (use v(3) h in \<open>auto simp: up m(8)\<close>)
  then show ?thesis using v(1) ok p(2) m(8,11,12) by (simp add: pred_solvent_def up)
qed

lemma claim_solvent:
  assumes "claim_pred_winnings transfer e b i s = Inr (n, s')" "contract_address e = me" "\<not> authorized e me"
    and "pred_solvent holding ledger_ok me s"
  shows "pred_solvent holding ledger_ok me s'"
proof -
  note p = pred_solvent_parts [OF assms(4)]
  obtain m q tk where m: "pj_market s i = Some m" "\<not> undecided m" "pj_position s (i, b) = Some q" "authorized e b" "n = position_owed m q"
      "if n > 0 then transfer (pj_tokens s) (pm_token m) me b n = Some tk else tk = pj_tokens s" "pj_tokens s' = tk"
      "pj_market s' = pj_market s" "pj_position s' = (pj_position s)((i, b) \<mapsto> q\<lparr>bp_settled := True\<rparr>)"
      "get_market_counter s' = get_market_counter s" "pred_get_fee_bps s' = pred_get_fee_bps s"
    using claim_effect [OF assms(1) p(1)] assms(2) by auto
  have b: "b \<noteq> me" using m(4) assms(3) by auto
  note v = inv_claim [OF p(1) m(1,2,3)]
  have own: "pred_owed (pj_market s) (pj_position s) t (i, b) = (if pm_token m = t then n else 0)" for t
    using m(1,3,5) by (simp add: pred_owed_def)
  have n0: "0 \<le> n" using owed_nonneg [OF p(1), of "pm_token m" "(i, b)"] own [of "pm_token m"] by simp
  have h: "ledger_ok tk \<and> holding tk t me = holding (pj_tokens s) t me - (if pm_token m = t then n else 0)" for t
    using m(6) n0 b p(3) payout_holding [OF p(3), of "pm_token m" me b n tk t] transfer_ok [OF p(3), of "pm_token m" me b n tk]
    by (cases "n > 0") auto
  have "covers holding me (pj_tokens s') (pred_owed (pj_market s') (pj_position s'))"
    by (rule covers_update [OF p(4) owed_support(1) [OF pred_invD(1) [OF p(1)]], where k = "(i, b)" and v = "\<lambda>_. 0"])
      (use v(2) h own in \<open>auto simp: m(7-9)\<close>)
  then show ?thesis using v(1) h p(2) m(7-11) by (simp add: pred_solvent_def)
qed

lemma pred_call_solvent:
  assumes "pred_call transfer me s s'" "pred_solvent holding ledger_ok me s"
  shows "pred_solvent holding ledger_ok me s'"
  using assms
proof (induction rule: pred_call.induct)
  case (fee e a f s s')
  then show ?case
    by (auto simp: set_pred_market_fee_def result_simps pred_solvent_def word_le_nat_alt word_less_alt not_less word_le_def)
next
  case (create e cr r q t cl rs s i s')
  note p = pred_solvent_parts [OF create(3)]
  obtain m where m: "i = get_market_counter s + 1" "pm_market_id m = i" "yes_pool m = 0" "no_pool m = 0" "pm_fee_bps m = pred_get_fee_bps s"
      "pj_market s' = (pj_market s)(i \<mapsto> m)" "pj_position s' = pj_position s" "get_market_counter s' = i"
      "pred_get_fee_bps s' = pred_get_fee_bps s" "pj_tokens s' = pj_tokens s"
    using create_effect [OF create(1)] by auto
  have f: "uint (pm_fee_bps m) \<le> 1000" using p(2) m(5) by simp
  note v = inv_create [OF p(1) create(2) _ m(3,4) f]
  show ?case using v m p unfolding pred_solvent_def covers_def by simp
next
  case (decide e a i s s' w)
  then show ?case using decides_solvent decide_effect by metis
qed (blast intro: bet_solvent claim_solvent)+

lemma pred_run_solvent:
  "(pred_call transfer me)\<^sup>*\<^sup>* s s' \<Longrightarrow> pred_solvent holding ledger_ok me s \<Longrightarrow> pred_solvent holding ledger_ok me s'"
  by (induction rule: rtranclp_induct) (auto intro: pred_call_solvent)

end

section \<open>Properties\<close>

text \<open>
  C33. The prediction markets stay funded. After any sequence of calls on a token of the Stellar network the contract holds, of every
  token, at least what all positions are still worth: the stakes in a market that is undecided or cancelled, the payout of the
  winning stakes in a resolved one. The two pools of a market are the sums of the stakes in it.
\<close>

theorem prediction_markets_stay_funded:
  assumes "sep41_bounded transfer holding ledger_ok" "ledger_ok tk" "\<forall>t. 0 \<le> holding tk t me"
    and "(pred_call transfer me)\<^sup>*\<^sup>* (pred_start g admin tk) s"
  shows "support_total (pred_owed (pj_market s) (pj_position s) t) \<le> holding (pj_tokens s) t me \<and>
    (\<forall>i m. pj_market s i = Some m \<longrightarrow> yes_pool m = support_total (stake_at (pj_position s) OutcomeYes i) \<and>
      no_pool m = support_total (stake_at (pj_position s) OutcomeNo i))"
proof -
  have S: "pred_solvent holding ledger_ok me s"
    by (rule sep41_bounded.pred_run_solvent [OF assms(1,4) pred_start_solvent [where ok = ledger_ok and holding = holding, OF assms(2,3)]])
  have "support_total (pred_owed (pj_market s) (pj_position s) t) \<le> holding (pj_tokens s) t me"
    using pred_solvent_parts(4) [OF S] by (simp add: covers_def)
  then show ?thesis using pred_invD(3) [OF pred_solvent_parts(1) [OF S]] by (simp add: market_inv_def)
qed

text \<open>
  C34. Whoever bet is paid. In every reachable state the holder of an unsettled position in a resolved or cancelled market can claim:
  the call succeeds, returns what the position is worth, the whole stake of a cancelled market or the share of the pools less the
  fee of a resolved one, pays exactly that, and a second claim is refused.
\<close>

theorem bettors_are_paid:
  assumes "sep41_bounded transfer holding ledger_ok" "sep41_live transfer holding ledger_ok" "ledger_ok tk" "\<forall>t. 0 \<le> holding tk t me"
    and "(pred_call transfer me)\<^sup>*\<^sup>* (pred_start g admin tk) s"
    and "pj_market s i = Some m" "pm_status m = MarketResolved \<or> pm_status m = MarketCancelled"
    and "pj_position s (i, b) = Some p" "\<not> bp_settled p" "yes_amount p \<noteq> 0 \<or> no_amount p \<noteq> 0"
    and "authorized e b" "contract_address e = me" "b \<noteq> me"
  shows "\<exists>s'. claim_pred_winnings transfer e b i s = Inr (position_owed m p, s') \<and>
    holding (pj_tokens s') (pm_token m) b = holding (pj_tokens s) (pm_token m) b + position_owed m p \<and>
    (\<forall>e'. \<not> is_ok (claim_pred_winnings transfer e' b i s'))"
proof -
  have S: "pred_solvent holding ledger_ok me s"
    by (rule sep41_bounded.pred_run_solvent [OF assms(1,5) pred_start_solvent [where ok = ledger_ok and holding = holding, OF assms(3,4)]])
  note P = pred_solvent_parts [OF S] and f = position_funded [OF S assms(6,8)]
  have und: "\<not> undecided m" using assms(7) by (auto simp: undecided_def)
  have "\<exists>tk. (if position_owed m p > 0 then transfer (pj_tokens s) (pm_token m) me b (position_owed m p) = Some tk else tk = pj_tokens s) \<and>
      holding tk (pm_token m) b = holding (pj_tokens s) (pm_token m) b + position_owed m p"
  proof (cases "position_owed m p > 0")
    case True
    obtain tk where t: "transfer (pj_tokens s) (pm_token m) me b (position_owed m p) = Some tk"
      using sep41_live.transfer_pays [OF assms(2) P(3) _ f] assms(13) by metis
    have "holding tk (pm_token m) b = holding (pj_tokens s) (pm_token m) b + position_owed m p"
      using sep41.transfer_credit [OF sep41_live.axioms(1) [OF assms(2)] P(3) t _ f(1)] assms(13) by metis
    then show ?thesis using t True by auto
  qed (use f(1) in auto)
  then obtain tk where t: "if position_owed m p > 0 then transfer (pj_tokens s) (pm_token m) (contract_address e) b (position_owed m p) = Some tk
        else tk = pj_tokens s"
      "holding tk (pm_token m) b = holding (pj_tokens s) (pm_token m) b + position_owed m p"
    unfolding assms(12) by blast
  obtain s' where s': "claim_pred_winnings transfer e b i s = Inr (position_owed m p, s')" "pj_tokens s' = tk"
      "pj_position s' (i, b) = Some (p\<lparr>bp_settled := True\<rparr>)"
    using claim_returns [where transfer = transfer, OF P(1) assms(6) und assms(8-11) t(1)] by blast
  have "\<not> is_ok (claim_pred_winnings transfer e' b i s')" for e' by (rule settled_claim_refused [OF s'(3)]) simp
  then show ?thesis using s' t(2) by blast
qed

section \<open>A market\<close>

text \<open>Account 3 resolves a market on token 20 in which account 1 bets 6000 on yes and account 2 bets 3000 on no; yes wins.\<close>

definition pred_env :: "u64 \<Rightarrow> env" where
  "pred_env now = \<lparr>sequence = 0, timestamp = now, authorized = (\<lambda>a. a \<noteq> 8), contract_address = 8,
     new_entry_live = 0, extend_policy = (\<lambda>_ _ l. l), wasm_uploaded = (\<lambda>_. False)\<rparr>"

definition pred_ledger :: ledger where
  "pred_ledger t a = (if t = 20 \<and> (a = 1 \<or> a = 2) then 10000 else 0)"

definition pred_zero :: "ledger pred_jar" where
  "pred_zero = pred_start \<lparr>lg_paused = None, lg_pause_reason = None, lg_pause_until = None, lg_token_whitelist = [20 \<mapsto> True]\<rparr> (Some 9) pred_ledger"

definition pred_made :: "(u64 \<times> ledger pred_jar) pred_result" where
  "pred_made = create_pred_market (pred_env 5) 4 3 ''Q'' 20 10 20 pred_zero"

definition pred_yes :: "ledger pred_jar pred_result" where
  "pred_yes = and_then pred_made (\<lambda>(i, s). place_pred_bet ledger_transfer (pred_env 6) 1 i OutcomeYes 6000 s)"

definition pred_both :: "ledger pred_jar pred_result" where
  "pred_both = and_then pred_yes (place_pred_bet ledger_transfer (pred_env 7) 2 1 OutcomeNo 3000)"

definition pred_won :: "outcome \<Rightarrow> ledger pred_jar pred_result" where
  "pred_won w = and_then pred_both (resolve_pred_market (pred_env 8) 3 1 w)"

lemma pred_won_run:
  assumes "pred_won w = Inr s"
  shows "(pred_call ledger_transfer 8)\<^sup>*\<^sup>* pred_zero s"
proof -
  obtain i s1 s2 s3 where s: "pred_made = Inr (i, s1)" "place_pred_bet ledger_transfer (pred_env 6) 1 i OutcomeYes 6000 s1 = Inr s2"
      "place_pred_bet ledger_transfer (pred_env 7) 2 1 OutcomeNo 3000 s2 = Inr s3" "resolve_pred_market (pred_env 8) 3 1 w s3 = Inr s"
    using assms by (auto simp: pred_won_def pred_both_def pred_yes_def and_then_Inr_iff)
  have "get_market_counter pred_zero \<noteq> - 1" by (simp add: pred_zero_def pred_start_def get_market_counter_def)
  then have c1: "pred_call ledger_transfer 8 pred_zero s1" using s(1) unfolding pred_made_def by (rule pred_call.create [rotated])
  have c2: "pred_call ledger_transfer 8 s1 s2" by (rule pred_call.bet [OF s(2)]) (simp_all add: pred_env_def)
  have c3: "pred_call ledger_transfer 8 s2 s3" by (rule pred_call.bet [OF s(3)]) (simp_all add: pred_env_def)
  have c4: "pred_call ledger_transfer 8 s3 s" by (rule pred_call.decide [of "pred_env 8" 3 1 s3 s w]) (simp add: s(4))
  note step = rtranclp.rtrancl_into_rtrancl [where r = "pred_call ledger_transfer 8"]
  show ?thesis by (rule step [OF step [OF step [OF step [OF rtranclp.rtrancl_refl c1] c2] c3] c4])
qed

lemma pred_ledger_ok: "ledger_capped pred_ledger" "\<forall>t. 0 \<le> ledger_holding pred_ledger t 8"
proof -
  have "support_total (pred_ledger t) = (\<Sum>a\<in>{1, 2}. pred_ledger t a)" for t
    by (rule support_total_superset) (auto simp: support_def pred_ledger_def)
  then have "support_total (pred_ledger t) \<le> SUPPLY_CAP" for t by (simp add: pred_ledger_def SUPPLY_CAP_def)
  moreover have "finite (support (pred_ledger t))" for t
    by (rule finite_subset [of _ "{1, 2}"]) (auto simp: support_def pred_ledger_def)
  ultimately show "ledger_capped pred_ledger" by (simp add: ledger_capped_def) (simp add: pred_ledger_def)
  show "\<forall>t. 0 \<le> ledger_holding pred_ledger t 8" by (simp add: ledger_holding_def pred_ledger_def)
qed

lemma pred_won_ok:
  "\<exists>s m p. pred_won OutcomeYes = Inr s \<and> pj_market s 1 = Some m \<and> pm_status m = MarketResolved \<and> pm_token m = 20 \<and> yes_pool m = 6000 \<and>
     pj_position s (1, 1) = Some p \<and> \<not> bp_settled p \<and> yes_amount p = 6000 \<and> position_owed m p = 8820"
proof -
  have "(case pred_won OutcomeYes of Inl _ \<Rightarrow> False | Inr s \<Rightarrow>
    (case pj_market s 1 of None \<Rightarrow> False | Some m \<Rightarrow> (case pj_position s (1, 1) of None \<Rightarrow> False | Some p \<Rightarrow>
      pm_status m = MarketResolved \<and> pm_token m = 20 \<and> yes_pool m = 6000 \<and> \<not> bp_settled p \<and> yes_amount p = 6000 \<and> position_owed m p = 8820)))"
    by code_simp
  then obtain s where s: "pred_won OutcomeYes = Inr s" "case pj_market s 1 of None \<Rightarrow> False | Some m \<Rightarrow>
      (case pj_position s (1, 1) of None \<Rightarrow> False | Some p \<Rightarrow> pm_status m = MarketResolved \<and> pm_token m = 20 \<and> yes_pool m = 6000 \<and>
       \<not> bp_settled p \<and> yes_amount p = 6000 \<and> position_owed m p = 8820)"
    using case_ok by blast
  then show ?thesis by (cases "pj_market s 1"; cases "pj_position s (1, 1)") auto
qed

theorem prediction_markets_stay_funded_witness:
  "\<exists>s m. pred_won OutcomeYes = Inr s \<and> pj_market s 1 = Some m \<and> support_total (stake_at (pj_position s) OutcomeYes 1) = 6000 \<and>
     support_total (pred_owed (pj_market s) (pj_position s) 20) \<le> ledger_holding (pj_tokens s) 20 8"
proof -
  obtain s m where s: "pred_won OutcomeYes = Inr s" "pj_market s 1 = Some m" "yes_pool m = 6000" using pred_won_ok by blast
  note F = prediction_markets_stay_funded [OF bounded.sep41_bounded_axioms pred_ledger_ok pred_won_run [OF s(1), unfolded pred_zero_def]]
  show ?thesis using F [of 20] s by auto
qed

theorem bettors_are_paid_witness:
  "\<exists>s s'. pred_won OutcomeYes = Inr s \<and> claim_pred_winnings ledger_transfer (pred_env 9) 1 1 s = Inr (8820, s') \<and>
     ledger_holding (pj_tokens s') 20 1 = ledger_holding (pj_tokens s) 20 1 + 8820"
proof -
  obtain s m p where s: "pred_won OutcomeYes = Inr s" "pj_market s 1 = Some m" "pm_status m = MarketResolved" "pm_token m = 20"
      "pj_position s (1, 1) = Some p" "\<not> bp_settled p" "yes_amount p = 6000" "position_owed m p = 8820" using pred_won_ok by blast
  have a: "pm_status m = MarketResolved \<or> pm_status m = MarketCancelled" "yes_amount p \<noteq> 0 \<or> no_amount p \<noteq> 0"
      "authorized (pred_env 9) 1" "contract_address (pred_env 9) = 8" "(1::nat) \<noteq> 8"
    using s by (simp_all add: pred_env_def)
  from bettors_are_paid [OF bounded.sep41_bounded_axioms bounded_live.sep41_live_axioms pred_ledger_ok
      pred_won_run [OF s(1), unfolded pred_zero_def] s(2) a(1) s(5,6) a(2-5)]
  show ?thesis using s by auto
qed

text \<open>
  The resolver alone decides what happens to the stakes: a market resolved for neither side is settled, nobody can claim anything
  from it, and nothing else pays its tokens out. Both bettors of the market above lose their stakes to the contract.
\<close>

theorem resolving_for_nobody_locks_the_stakes:
  "and_then (pred_won OutcomeNone) (\<lambda>s.
     and_then (claim_pred_winnings ledger_transfer (pred_env 9) 1 1 s) (\<lambda>(n, s).
     and_then (claim_pred_winnings ledger_transfer (pred_env 9) 2 1 s) (\<lambda>(n', s).
     Inr (n, n', pj_tokens s 20 8)))) = Inr (0, 0, 9000)"
  by code_simp

end
