(* ===== verification/Market_Maker.thy ===== *)
theory Market_Maker
  imports Legacy_Base
begin

text \<open>
  The market makers of the superseded tip jar (\<^verbatim>\<open>src/contracts/tipjar-legacy/src/market_making/mod.rs\<close> and the entry points
  \<^verbatim>\<open>mm_register\<close> to \<^verbatim>\<open>mm_get_pair_makers\<close> of \<^verbatim>\<open>lib.rs\<close> there): a maker deposits an inventory of two tokens; takers buy and sell the
  base token against it at a price with a spread, and pay a fee that belongs to the maker.
\<close>

section \<open>Data\<close>

datatype maker_status = MakerActive | MakerPaused | MakerClosed

record market_maker =
  mm_maker_id :: u64
  mm_maker :: address
  base_token :: address
  quote_token :: address
  spread_bps :: u32
  base_inventory :: int
  quote_inventory :: int
  max_trade_size :: int
  fees_earned :: int
  total_base_volume :: int
  total_quote_volume :: int
  trade_count :: u64
  mm_status :: maker_status
  mm_created_at :: u64
  mm_updated_at :: u64

record maker_quote =
  mq_maker_id :: u64
  mid_price :: int
  bid_price :: int
  ask_price :: int
  available_base :: int
  available_quote :: int
  mq_timestamp :: u64

record maker_trade =
  mt_maker_id :: u64
  mt_base_amount :: int
  mt_quote_amount :: int
  mt_fee_amount :: int
  mt_price :: int
  mt_timestamp :: u64

datatype market_making_error =
  MmPaused | MakerNotFound | MakerNotActive | MmUnauthorized | InvalidSpread | InvalidInventory | InvalidTradeSize
| InsufficientBaseInventory | InsufficientQuoteInventory | TradeSizeExceedsMax | MmTokenNotWhitelisted | MmIdenticalTokens

datatype maker_event =
  EvMmReg u64 address address address u32
| EvMmBuy u64 address int int int
| EvMmSell u64 address int int int
| EvMmDep u64 int int
| EvMmWdr u64 int int int
| EvMmSprd u64 u32
| EvMmRes u64
| EvMmPau u64
| EvMmClose u64 int int

record 'tk maker_jar =
  mj_instance :: legacy_instance
  mj_maker :: "u64 \<rightharpoonup> market_maker"
  mj_counter :: "u64 option"
  mj_owner_makers :: "address \<rightharpoonup> u64 list"
  mj_active_makers :: "u64 list option"
  mj_pair_makers :: "address \<times> address \<rightharpoonup> u64 list"
  mj_tokens :: 'tk
  mj_events :: "maker_event list"

type_synonym 'a maker_result = "(market_making_error, 'a) result"

definition PRICE_PRECISION :: int where "PRICE_PRECISION = 1000000"
definition MAX_SPREAD_BPS :: u32 where "MAX_SPREAD_BPS = 1000"
definition TRADE_FEE_BPS :: int where "TRADE_FEE_BPS = 10"

section \<open>Storage\<close>

definition mj_put :: "market_maker \<Rightarrow> u64 \<Rightarrow> 'tk maker_jar \<Rightarrow> 'tk maker_jar" where
  "mj_put mm i s = s\<lparr>mj_maker := (mj_maker s)(i \<mapsto> mm)\<rparr>"

definition mj_emit :: "maker_event \<Rightarrow> 'tk maker_jar \<Rightarrow> 'tk maker_jar" where
  "mj_emit ev s = s\<lparr>mj_events := mj_events s @ [ev]\<rparr>"

definition mj_transfer ::
  "'tk transfer_fn \<Rightarrow> address \<Rightarrow> address \<Rightarrow> address \<Rightarrow> int \<Rightarrow> 'tk maker_jar \<Rightarrow> 'tk maker_jar maker_result" where
  "mj_transfer transfer t src dst n s =
     and_then (call_transfer transfer (mj_tokens s) t src dst n) (\<lambda>tk. Inr (s\<lparr>mj_tokens := tk\<rparr>))"

definition mj_pay ::
  "'tk transfer_fn \<Rightarrow> address \<Rightarrow> address \<Rightarrow> address \<Rightarrow> int \<Rightarrow> 'tk maker_jar \<Rightarrow> 'tk maker_jar maker_result" where
  "mj_pay transfer t src dst n s = (if n > 0 then mj_transfer transfer t src dst n s else Inr s)"

definition get_maker_or_panic :: "u64 \<Rightarrow> 'tk maker_jar \<Rightarrow> market_maker maker_result" where
  "get_maker_or_panic i s = ok_or MakerNotFound (mj_maker s i)"

definition add_owner_maker :: "address \<Rightarrow> u64 \<Rightarrow> 'tk maker_jar \<Rightarrow> 'tk maker_jar" where
  "add_owner_maker maker i s =
     (let ids = unwrap_or (mj_owner_makers s maker) [] in
      if i \<in> set ids then s else s\<lparr>mj_owner_makers := (mj_owner_makers s)(maker \<mapsto> ids @ [i])\<rparr>)"

definition add_active_maker :: "u64 \<Rightarrow> 'tk maker_jar \<Rightarrow> 'tk maker_jar" where
  "add_active_maker i s =
     (let ids = unwrap_or (mj_active_makers s) [] in if i \<in> set ids then s else s\<lparr>mj_active_makers := Some (ids @ [i])\<rparr>)"

definition remove_active_maker :: "u64 \<Rightarrow> 'tk maker_jar \<Rightarrow> 'tk maker_jar" where
  "remove_active_maker i s = s\<lparr>mj_active_makers := Some (filter (\<lambda>j. j \<noteq> i) (unwrap_or (mj_active_makers s) []))\<rparr>"

definition add_pair_maker :: "address \<Rightarrow> address \<Rightarrow> u64 \<Rightarrow> 'tk maker_jar \<Rightarrow> 'tk maker_jar" where
  "add_pair_maker base quote i s =
     (let ids = unwrap_or (mj_pair_makers s (base, quote)) [] in
      if i \<in> set ids then s else s\<lparr>mj_pair_makers := (mj_pair_makers s)((base, quote) \<mapsto> ids @ [i])\<rparr>)"

section \<open>The module\<close>

definition register_maker ::
  "'tk transfer_fn \<Rightarrow> env \<Rightarrow> address \<Rightarrow> address \<Rightarrow> address \<Rightarrow> u32 \<Rightarrow> int \<Rightarrow> int \<Rightarrow> int \<Rightarrow> 'tk maker_jar \<Rightarrow>
   (u64 \<times> 'tk maker_jar) maker_result" where
  "register_maker transfer e maker base quote spread base_deposit quote_deposit max_size s =
     and_then (require_auth e maker) (\<lambda>_.
     if base = quote then fail MmIdenticalTokens
     else if spread = 0 \<or> spread > MAX_SPREAD_BPS then fail InvalidSpread
     else if base_deposit < 0 \<or> quote_deposit < 0 \<or> (base_deposit = 0 \<and> quote_deposit = 0) then fail InvalidInventory
     else if max_size \<le> 0 then fail InvalidTradeSize
     else
     let i = unwrap_or (mj_counter s) 0;
         now = timestamp e;
         mm = \<lparr>mm_maker_id = i, mm_maker = maker, base_token = base, quote_token = quote, spread_bps = spread,
               base_inventory = base_deposit, quote_inventory = quote_deposit, max_trade_size = max_size, fees_earned = 0,
               total_base_volume = 0, total_quote_volume = 0, trade_count = 0, mm_status = MakerActive,
               mm_created_at = now, mm_updated_at = now\<rparr>;
         s1 = add_pair_maker base quote i (add_active_maker i (add_owner_maker maker i (mj_put mm i (s\<lparr>mj_counter := Some (i + 1)\<rparr>)))) in
     and_then (mj_pay transfer base maker (contract_address e) base_deposit s1) (\<lambda>s2.
     and_then (mj_pay transfer quote maker (contract_address e) quote_deposit s2) (\<lambda>s3.
     Inr (i, mj_emit (EvMmReg i maker base quote spread) s3))))"

definition half_spread_of :: "int \<Rightarrow> market_maker \<Rightarrow> int maker_result" where
  "half_spread_of mid mm = muldiv_i128 mid (uint (spread_bps mm)) (2 * 10000)"

definition get_maker_quote :: "env \<Rightarrow> u64 \<Rightarrow> int \<Rightarrow> 'tk maker_jar \<Rightarrow> maker_quote maker_result" where
  "get_maker_quote e i mid s =
     and_then (get_maker_or_panic i s) (\<lambda>mm.
     if mm_status mm \<noteq> MakerActive then fail MakerNotActive
     else
     and_then (half_spread_of mid mm) (\<lambda>half_spread.
     let bid = sat_i128 (mid - half_spread); ask = sat_i128 (mid + half_spread) in
     and_then (muldiv_i128 (max_trade_size mm) bid PRICE_PRECISION) (\<lambda>worth.
     Inr \<lparr>mq_maker_id = i, mid_price = mid, bid_price = bid, ask_price = ask,
          available_base = min (base_inventory mm) (max_trade_size mm), available_quote = min (quote_inventory mm) worth,
          mq_timestamp = timestamp e\<rparr>)))"

definition execute_buy ::
  "'tk transfer_fn \<Rightarrow> env \<Rightarrow> address \<Rightarrow> u64 \<Rightarrow> int \<Rightarrow> int \<Rightarrow> int \<Rightarrow> 'tk maker_jar \<Rightarrow> (maker_trade \<times> 'tk maker_jar) maker_result" where
  "execute_buy transfer e taker i base_amount mid max_quote s =
     and_then (require_auth e taker) (\<lambda>_.
     and_then (get_maker_or_panic i s) (\<lambda>mm.
     if mm_status mm \<noteq> MakerActive then fail MakerNotActive
     else if base_amount \<le> 0 \<or> base_amount > max_trade_size mm then fail TradeSizeExceedsMax
     else if base_inventory mm < base_amount then fail InsufficientBaseInventory
     else
     and_then (half_spread_of mid mm) (\<lambda>half_spread.
     let ask = sat_i128 (mid + half_spread) in
     and_then (muldiv_i128 base_amount ask PRICE_PRECISION) (\<lambda>quote_needed.
     and_then (muldiv_i128 quote_needed TRADE_FEE_BPS 10000) (\<lambda>fee.
     let total_quote = add_i128 quote_needed fee in
     if total_quote > max_quote then fail InsufficientQuoteInventory
     else
     let mm' = mm\<lparr>base_inventory := sub_i128 (base_inventory mm) base_amount,
                  quote_inventory := add_i128 (quote_inventory mm) quote_needed,
                  fees_earned := add_i128 (fees_earned mm) fee,
                  total_base_volume := add_i128 (total_base_volume mm) base_amount,
                  total_quote_volume := add_i128 (total_quote_volume mm) quote_needed,
                  trade_count := trade_count mm + 1, mm_updated_at := timestamp e\<rparr> in
     and_then (mj_transfer transfer (quote_token mm) taker (contract_address e) total_quote (mj_put mm' i s)) (\<lambda>s1.
     and_then (mj_transfer transfer (base_token mm) (contract_address e) taker base_amount s1) (\<lambda>s2.
     Inr (\<lparr>mt_maker_id = i, mt_base_amount = base_amount, mt_quote_amount = total_quote, mt_fee_amount = fee, mt_price = ask,
           mt_timestamp = timestamp e\<rparr>,
          mj_emit (EvMmBuy i taker base_amount total_quote fee) s2))))))))"

definition execute_sell ::
  "'tk transfer_fn \<Rightarrow> env \<Rightarrow> address \<Rightarrow> u64 \<Rightarrow> int \<Rightarrow> int \<Rightarrow> int \<Rightarrow> 'tk maker_jar \<Rightarrow> (maker_trade \<times> 'tk maker_jar) maker_result" where
  "execute_sell transfer e taker i base_amount mid min_quote s =
     and_then (require_auth e taker) (\<lambda>_.
     and_then (get_maker_or_panic i s) (\<lambda>mm.
     if mm_status mm \<noteq> MakerActive then fail MakerNotActive
     else if base_amount \<le> 0 \<or> base_amount > max_trade_size mm then fail TradeSizeExceedsMax
     else
     and_then (half_spread_of mid mm) (\<lambda>half_spread.
     let bid = sat_i128 (mid - half_spread) in
     and_then (muldiv_i128 base_amount bid PRICE_PRECISION) (\<lambda>quote_gross.
     and_then (muldiv_i128 quote_gross TRADE_FEE_BPS 10000) (\<lambda>fee.
     let quote_net = sat_i128 (quote_gross - fee) in
     if quote_inventory mm < quote_gross then fail InsufficientQuoteInventory
     else if quote_net < min_quote then fail InsufficientQuoteInventory
     else
     let mm' = mm\<lparr>base_inventory := add_i128 (base_inventory mm) base_amount,
                  quote_inventory := sub_i128 (quote_inventory mm) quote_gross,
                  fees_earned := add_i128 (fees_earned mm) fee,
                  total_base_volume := add_i128 (total_base_volume mm) base_amount,
                  total_quote_volume := add_i128 (total_quote_volume mm) quote_gross,
                  trade_count := trade_count mm + 1, mm_updated_at := timestamp e\<rparr> in
     and_then (mj_transfer transfer (base_token mm) taker (contract_address e) base_amount (mj_put mm' i s)) (\<lambda>s1.
     and_then (mj_transfer transfer (quote_token mm) (contract_address e) taker quote_net s1) (\<lambda>s2.
     Inr (\<lparr>mt_maker_id = i, mt_base_amount = base_amount, mt_quote_amount = quote_net, mt_fee_amount = fee, mt_price = bid,
           mt_timestamp = timestamp e\<rparr>,
          mj_emit (EvMmSell i taker base_amount quote_net fee) s2))))))))"

definition deposit_inventory ::
  "'tk transfer_fn \<Rightarrow> env \<Rightarrow> address \<Rightarrow> u64 \<Rightarrow> int \<Rightarrow> int \<Rightarrow> 'tk maker_jar \<Rightarrow> 'tk maker_jar maker_result" where
  "deposit_inventory transfer e maker i base_amount quote_amount s =
     and_then (require_auth e maker) (\<lambda>_.
     and_then (get_maker_or_panic i s) (\<lambda>mm.
     if mm_maker mm \<noteq> maker then fail MmUnauthorized
     else if mm_status mm = MakerClosed then fail MakerNotActive
     else if base_amount < 0 \<or> quote_amount < 0 \<or> (base_amount = 0 \<and> quote_amount = 0) then fail InvalidInventory
     else
     let mm' = mm\<lparr>base_inventory := add_i128 (base_inventory mm) base_amount,
                  quote_inventory := add_i128 (quote_inventory mm) quote_amount, mm_updated_at := timestamp e\<rparr> in
     and_then (mj_pay transfer (base_token mm) maker (contract_address e) base_amount (mj_put mm' i s)) (\<lambda>s1.
     and_then (mj_pay transfer (quote_token mm) maker (contract_address e) quote_amount s1) (\<lambda>s2.
     Inr (mj_emit (EvMmDep i base_amount quote_amount) s2)))))"

definition withdraw_inventory ::
  "'tk transfer_fn \<Rightarrow> env \<Rightarrow> address \<Rightarrow> u64 \<Rightarrow> int \<Rightarrow> int \<Rightarrow> 'tk maker_jar \<Rightarrow> 'tk maker_jar maker_result" where
  "withdraw_inventory transfer e maker i base_amount quote_amount s =
     and_then (require_auth e maker) (\<lambda>_.
     and_then (get_maker_or_panic i s) (\<lambda>mm.
     if mm_maker mm \<noteq> maker then fail MmUnauthorized
     else if base_amount > base_inventory mm then fail InsufficientBaseInventory
     else if quote_amount > add_i128 (quote_inventory mm) (fees_earned mm) then fail InsufficientQuoteInventory
     else
     let fees_withdrawn = (if fees_earned mm > 0 \<and> quote_amount > 0 then min (fees_earned mm) quote_amount else 0);
         fees' = (if fees_earned mm > 0 \<and> quote_amount > 0 then sub_i128 (fees_earned mm) fees_withdrawn else fees_earned mm);
         quote_from_inventory = (if fees_earned mm > 0 \<and> quote_amount > 0 then sub_i128 quote_amount fees_withdrawn else quote_amount);
         mm' = mm\<lparr>fees_earned := fees', base_inventory := sub_i128 (base_inventory mm) base_amount,
                  quote_inventory := sub_i128 (quote_inventory mm) quote_from_inventory, mm_updated_at := timestamp e\<rparr> in
     and_then (mj_pay transfer (base_token mm) (contract_address e) maker base_amount (mj_put mm' i s)) (\<lambda>s1.
     and_then (mj_pay transfer (quote_token mm) (contract_address e) maker quote_amount s1) (\<lambda>s2.
     Inr (mj_emit (EvMmWdr i base_amount quote_amount fees_withdrawn) s2)))))"

definition update_spread :: "env \<Rightarrow> address \<Rightarrow> u64 \<Rightarrow> u32 \<Rightarrow> 'tk maker_jar \<Rightarrow> 'tk maker_jar maker_result" where
  "update_spread e maker i new_spread s =
     and_then (require_auth e maker) (\<lambda>_.
     and_then (get_maker_or_panic i s) (\<lambda>mm.
     if mm_maker mm \<noteq> maker then fail MmUnauthorized
     else if new_spread = 0 \<or> new_spread > MAX_SPREAD_BPS then fail InvalidSpread
     else Inr (mj_emit (EvMmSprd i new_spread) (mj_put (mm\<lparr>spread_bps := new_spread, mm_updated_at := timestamp e\<rparr>) i s))))"

definition set_maker_status :: "env \<Rightarrow> address \<Rightarrow> u64 \<Rightarrow> bool \<Rightarrow> 'tk maker_jar \<Rightarrow> 'tk maker_jar maker_result" where
  "set_maker_status e maker i active s =
     and_then (require_auth e maker) (\<lambda>_.
     and_then (get_maker_or_panic i s) (\<lambda>mm.
     if mm_maker mm \<noteq> maker then fail MmUnauthorized
     else if mm_status mm = MakerClosed then fail MakerNotActive
     else Inr (mj_emit (if active then EvMmRes i else EvMmPau i)
       (mj_put (mm\<lparr>mm_status := (if active then MakerActive else MakerPaused), mm_updated_at := timestamp e\<rparr>) i s))))"

definition close_maker :: "'tk transfer_fn \<Rightarrow> env \<Rightarrow> address \<Rightarrow> u64 \<Rightarrow> 'tk maker_jar \<Rightarrow> 'tk maker_jar maker_result" where
  "close_maker transfer e maker i s =
     and_then (require_auth e maker) (\<lambda>_.
     and_then (get_maker_or_panic i s) (\<lambda>mm.
     if mm_maker mm \<noteq> maker then fail MmUnauthorized
     else if mm_status mm = MakerClosed then fail MakerNotActive
     else
     let base_return = base_inventory mm;
         quote_return = add_i128 (quote_inventory mm) (fees_earned mm);
         mm' = mm\<lparr>base_inventory := 0, quote_inventory := 0, fees_earned := 0, mm_status := MakerClosed, mm_updated_at := timestamp e\<rparr> in
     and_then (mj_pay transfer (base_token mm) (contract_address e) maker base_return (remove_active_maker i (mj_put mm' i s))) (\<lambda>s1.
     and_then (mj_pay transfer (quote_token mm) (contract_address e) maker quote_return s1) (\<lambda>s2.
     Inr (mj_emit (EvMmClose i base_return quote_return) s2)))))"

section \<open>The entry points of the contract\<close>

definition mj_not_paused :: "env \<Rightarrow> 'tk maker_jar \<Rightarrow> 'tk maker_jar maker_result" where
  "mj_not_paused e s = and_then (require_not_paused MmPaused e (mj_instance s)) (\<lambda>g. Inr (s\<lparr>mj_instance := g\<rparr>))"

definition mm_register ::
  "'tk transfer_fn \<Rightarrow> env \<Rightarrow> address \<Rightarrow> address \<Rightarrow> address \<Rightarrow> u32 \<Rightarrow> int \<Rightarrow> int \<Rightarrow> int \<Rightarrow> 'tk maker_jar \<Rightarrow>
   (u64 \<times> 'tk maker_jar) maker_result" where
  "mm_register transfer e maker base quote spread base_deposit quote_deposit max_size s0 =
     and_then (mj_not_paused e s0) (\<lambda>s.
     if \<not> legacy_whitelisted (mj_instance s) base \<or> \<not> legacy_whitelisted (mj_instance s) quote then fail MmTokenNotWhitelisted
     else register_maker transfer e maker base quote spread base_deposit quote_deposit max_size s)"

definition mm_buy where
  "mm_buy transfer e taker i base_amount mid max_quote s =
     and_then (mj_not_paused e s) (execute_buy transfer e taker i base_amount mid max_quote)"

definition mm_sell where
  "mm_sell transfer e taker i base_amount mid min_quote s =
     and_then (mj_not_paused e s) (execute_sell transfer e taker i base_amount mid min_quote)"

definition mm_deposit where
  "mm_deposit transfer e maker i base_amount quote_amount s =
     and_then (mj_not_paused e s) (deposit_inventory transfer e maker i base_amount quote_amount)"

definition mm_withdraw where
  "mm_withdraw transfer e maker i base_amount quote_amount s =
     and_then (mj_not_paused e s) (withdraw_inventory transfer e maker i base_amount quote_amount)"

definition mm_update_spread where
  "mm_update_spread e maker i new_spread s = and_then (mj_not_paused e s) (update_spread e maker i new_spread)"

definition mm_set_status where
  "mm_set_status e maker i active s = and_then (mj_not_paused e s) (set_maker_status e maker i active)"

definition mm_close where
  "mm_close transfer e maker i s = and_then (mj_not_paused e s) (close_maker transfer e maker i)"

end
