(* ===== verification/Market_Maker_Safety.thy ===== *)
theory Market_Maker_Safety
  imports Market_Maker Claim_Book Token_Supply
begin

text \<open>
  What the market makers guarantee, and what they do not: the inventories stay funded under conditions that the code does not
  enforce, a round trip costs the taker, and the two ways in which those conditions are broken.
\<close>

section \<open>Claims of the makers\<close>

definition maker_ok :: "market_maker \<Rightarrow> bool" where
  "maker_ok mm \<longleftrightarrow> 0 \<le> base_inventory mm \<and> 0 \<le> quote_inventory mm \<and> 0 \<le> fees_earned mm \<and> base_token mm \<noteq> quote_token mm \<and>
     uint (spread_bps mm) \<le> 1000"

definition quote_held :: "market_maker \<Rightarrow> int" where
  "quote_held mm = quote_inventory mm + fees_earned mm"

interpretation base_book: claim_book base_token base_inventory maker_ok
  by unfold_locales (simp add: maker_ok_def)

interpretation quote_book: claim_book quote_token quote_held maker_ok
  by unfold_locales (simp add: maker_ok_def quote_held_def)

definition maker_claims :: "(u64 \<rightharpoonup> market_maker) \<Rightarrow> address \<Rightarrow> int" where
  "maker_claims M t = claims base_token base_inventory M t + claims quote_token quote_held M t"

definition makers_funded ::
  "('tk \<Rightarrow> address \<Rightarrow> address \<Rightarrow> int) \<Rightarrow> ('tk \<Rightarrow> bool) \<Rightarrow> address \<Rightarrow> 'tk maker_jar \<Rightarrow> bool" where
  "makers_funded holding ok me s \<longleftrightarrow> book_ok maker_ok (mj_maker s) \<and> ok (mj_tokens s) \<and>
     (\<forall>t. maker_claims (mj_maker s) t \<le> holding (mj_tokens s) t me)"

lemma makers_fundedD:
  assumes "makers_funded holding ok me s"
  shows "book_ok maker_ok (mj_maker s)" "ok (mj_tokens s)" "maker_claims (mj_maker s) t \<le> holding (mj_tokens s) t me"
    "mj_maker s i = Some mm \<Longrightarrow> maker_ok mm"
    "mj_maker s i = Some mm \<Longrightarrow> base_inventory mm \<le> holding (mj_tokens s) (base_token mm) me"
    "mj_maker s i = Some mm \<Longrightarrow> quote_held mm \<le> holding (mj_tokens s) (quote_token mm) me"
proof -
  show b: "book_ok maker_ok (mj_maker s)" and "ok (mj_tokens s)" using assms by (simp_all add: makers_funded_def)
  show c: "maker_claims (mj_maker s) t \<le> holding (mj_tokens s) t me" for t using assms by (simp add: makers_funded_def)
  show "mj_maker s i = Some mm \<Longrightarrow> maker_ok mm" using b by (rule book_ok_get)
  show "mj_maker s i = Some mm \<Longrightarrow> base_inventory mm \<le> holding (mj_tokens s) (base_token mm) me"
    using base_book.claim_le [OF b] quote_book.claims_nonneg [OF b, of "base_token mm"] c [of "base_token mm"]
    by (fastforce simp: maker_claims_def)
  show "mj_maker s i = Some mm \<Longrightarrow> quote_held mm \<le> holding (mj_tokens s) (quote_token mm) me"
    using quote_book.claim_le [OF b] base_book.claims_nonneg [OF b, of "quote_token mm"] c [of "quote_token mm"]
    by (fastforce simp: maker_claims_def)
qed

text \<open>A maker is replaced while the tokens move by at least as much.\<close>

lemma maker_replaced:
  assumes "makers_funded holding ok me s" "mj_maker s i = Some mm" "mj_maker s' = (mj_maker s)(i \<mapsto> mm')" "maker_ok mm'"
    and "base_token mm' = base_token mm" "quote_token mm' = quote_token mm" "ok (mj_tokens s')"
    and "\<And>t. holding (mj_tokens s') t me = holding (mj_tokens s) t me + only (base_token mm) (base_inventory mm' - base_inventory mm) t
      + only (quote_token mm) (quote_held mm' - quote_held mm) t"
  shows "makers_funded holding ok me s'"
proof -
  note D = makers_fundedD [OF assms(1)]
  have "maker_claims (mj_maker s') t = maker_claims (mj_maker s) t + only (base_token mm) (base_inventory mm' - base_inventory mm) t
      + only (quote_token mm) (quote_held mm' - quote_held mm) t" for t
    using base_book.claims_change [OF D(1) assms(2,5)] quote_book.claims_change [OF D(1) assms(2,6)]
    by (simp add: maker_claims_def assms(3))
  then show ?thesis using D(1,3) assms(3,4,7,8) by (auto simp: makers_funded_def intro: book_ok_upd)
qed

section \<open>Prices\<close>

text \<open>Trades whose products fit 128 bits; the code checks neither the sign nor the size of the price a taker names.\<close>

definition trade_fits :: "int \<Rightarrow> int \<Rightarrow> bool" where
  "trade_fits mid n \<longleftrightarrow> 0 \<le> mid \<and> mid * 1000 \<le> I128_MAX \<and> n * (2 * mid) * 10 \<le> I128_MAX"

definition half_spread :: "market_maker \<Rightarrow> int \<Rightarrow> int" where
  "half_spread mm mid = mid * uint (spread_bps mm) div 20000"

lemma half_spread_bounds:
  assumes "maker_ok mm" "0 \<le> mid"
  shows "0 \<le> half_spread mm mid" "half_spread mm mid \<le> mid"
proof -
  show "0 \<le> half_spread mm mid" using assms by (simp add: half_spread_def pos_imp_zdiv_nonneg_iff)
  have "mid * uint (spread_bps mm) div 20000 \<le> mid * 20000 div 20000"
    using assms by (intro zdiv_mono1 mult_left_mono) (simp_all add: maker_ok_def)
  then show "half_spread mm mid \<le> mid" by (simp add: half_spread_def)
qed

lemma half_spread_exact:
  assumes "maker_ok mm" "trade_fits mid n"
  shows "half_spread_of mid mm = Inr (half_spread mm mid)"
    "sat_i128 (mid + half_spread mm mid) = mid + half_spread mm mid" "sat_i128 (mid - half_spread mm mid) = mid - half_spread mm mid"
proof -
  note h = half_spread_bounds [OF assms(1), of mid]
  have m: "0 \<le> mid" "mid * 1000 \<le> I128_MAX" using assms(2) by (auto simp: trade_fits_def)
  have "mid * uint (spread_bps mm) \<le> mid * 1000" using assms(1) m(1) by (intro mult_left_mono) (auto simp: maker_ok_def)
  then show "half_spread_of mid mm = Inr (half_spread mm mid)"
    using m by (simp add: half_spread_of_def half_spread_def muldiv_i128_nonneg)
  show "sat_i128 (mid + half_spread mm mid) = mid + half_spread mm mid" "sat_i128 (mid - half_spread mm mid) = mid - half_spread mm mid"
    using h m by (simp_all add: in_i128_nonneg)
qed

definition quote_at :: "int \<Rightarrow> int \<Rightarrow> int" where
  "quote_at n price = n * price div PRICE_PRECISION"

definition trade_fee :: "int \<Rightarrow> int" where
  "trade_fee q = q * TRADE_FEE_BPS div 10000"

lemma quote_exact:
  assumes "trade_fits mid n" "0 < n" "0 \<le> price" "price \<le> 2 * mid"
  shows "muldiv_i128 n price PRICE_PRECISION = Inr (quote_at n price)" "0 \<le> quote_at n price"
    "muldiv_i128 (quote_at n price) TRADE_FEE_BPS 10000 = Inr (trade_fee (quote_at n price))"
    "0 \<le> trade_fee (quote_at n price)" "trade_fee (quote_at n price) \<le> quote_at n price"
    "quote_at n price * 10 \<le> I128_MAX"
proof -
  have le: "n * price \<le> n * (2 * mid)" using assms by (intro mult_left_mono) auto
  have fit: "n * (2 * mid) * 10 \<le> I128_MAX" using assms(1) by (simp add: trade_fits_def)
  have np: "0 \<le> n * price" using assms by simp
  then have small: "n * price \<le> I128_MAX" using le fit by linarith
  from np show "muldiv_i128 n price PRICE_PRECISION = Inr (quote_at n price)"
    unfolding quote_at_def using assms small by (intro muldiv_i128_nonneg) (auto simp: PRICE_PRECISION_def)
  show q0: "0 \<le> quote_at n price" using np by (simp add: quote_at_def PRICE_PRECISION_def pos_imp_zdiv_nonneg_iff)
  have "quote_at n price \<le> n * price"
    unfolding quote_at_def by (rule div_int_le_self [OF np]) (simp add: PRICE_PRECISION_def)
  then show q: "quote_at n price * 10 \<le> I128_MAX" using le fit by linarith
  show "muldiv_i128 (quote_at n price) TRADE_FEE_BPS 10000 = Inr (trade_fee (quote_at n price))"
    unfolding trade_fee_def using q0 q by (intro muldiv_i128_nonneg) (auto simp: TRADE_FEE_BPS_def)
  show "0 \<le> trade_fee (quote_at n price)" using q0 by (simp add: trade_fee_def TRADE_FEE_BPS_def pos_imp_zdiv_nonneg_iff)
  have "quote_at n price * 10 div 10000 \<le> quote_at n price * 10000 div 10000" using q0 by (intro zdiv_mono1) auto
  then show "trade_fee (quote_at n price) \<le> quote_at n price" by (simp add: trade_fee_def TRADE_FEE_BPS_def)
qed

lemma trade_fee_mono: "q \<le> q' \<Longrightarrow> trade_fee q \<le> trade_fee q'"
  unfolding trade_fee_def by (intro zdiv_mono1 mult_right_mono) (simp_all add: TRADE_FEE_BPS_def)


section \<open>Payments\<close>

lemma mj_transfer_Inr_iff [result_simps]:
  "mj_transfer transfer t a b n s = Inr s' \<longleftrightarrow> (\<exists>tk. transfer (mj_tokens s) t a b n = Some tk \<and> s' = s\<lparr>mj_tokens := tk\<rparr>)"
  by (auto simp: mj_transfer_def result_simps)

lemma mj_frame [simp]:
  "mj_maker (mj_put mm i s) = (mj_maker s)(i \<mapsto> mm)" "mj_tokens (mj_put mm i s) = mj_tokens s"
  "mj_maker (mj_emit ev s) = mj_maker s" "mj_tokens (mj_emit ev s) = mj_tokens s"
  "mj_maker (add_owner_maker a i s) = mj_maker s" "mj_tokens (add_owner_maker a i s) = mj_tokens s"
  "mj_maker (add_active_maker i s) = mj_maker s" "mj_tokens (add_active_maker i s) = mj_tokens s"
  "mj_maker (remove_active_maker i s) = mj_maker s" "mj_tokens (remove_active_maker i s) = mj_tokens s"
  "mj_maker (add_pair_maker a b i s) = mj_maker s" "mj_tokens (add_pair_maker a b i s) = mj_tokens s"
  by (simp_all add: mj_put_def mj_emit_def add_owner_maker_def add_active_maker_def remove_active_maker_def add_pair_maker_def Let_def)

lemma mj_not_paused_funded:
  "mj_not_paused e s = Inr s' \<Longrightarrow> makers_funded holding ok me s' = makers_funded holding ok me s \<and> mj_maker s' = mj_maker s \<and> mj_tokens s' = mj_tokens s"
  by (auto simp: mj_not_paused_def result_simps makers_funded_def)

context sep41_bounded
begin

lemma pays_in:
  assumes "mj_transfer transfer t src me n s = Inr s' \<or> mj_pay transfer t src me n s = Inr s'" "ledger_ok (mj_tokens s)" "src \<noteq> me" "0 \<le> n"
  shows "mj_maker s' = mj_maker s \<and> ledger_ok (mj_tokens s') \<and> (\<forall>t'. holding (mj_tokens s') t' me = holding (mj_tokens s) t' me + only t n t')"
proof (cases "n > 0 \<or> mj_transfer transfer t src me n s = Inr s'")
  case True
  then obtain tk where tk: "transfer (mj_tokens s) t src me n = Some tk" "s' = s\<lparr>mj_tokens := tk\<rparr>"
    using assms(1) by (auto simp: mj_pay_def mj_transfer_Inr_iff)
  then show ?thesis using deposit_holding [OF assms(2) tk(1) assms(3,4)] transfer_ok [OF assms(2) tk(1) assms(3,4)] by (simp add: only_def)
next
  case False
  then show ?thesis using assms by (auto simp: mj_pay_def only_def)
qed

lemma pays_out:
  assumes "mj_transfer transfer t me dst n s = Inr s' \<or> mj_pay transfer t me dst n s = Inr s'" "ledger_ok (mj_tokens s)" "dst \<noteq> me" "0 \<le> n"
  shows "mj_maker s' = mj_maker s \<and> ledger_ok (mj_tokens s') \<and> (\<forall>t'. holding (mj_tokens s') t' me = holding (mj_tokens s) t' me + only t (- n) t')"
proof (cases "n > 0 \<or> mj_transfer transfer t me dst n s = Inr s'")
  case True
  then obtain tk where tk: "transfer (mj_tokens s) t me dst n = Some tk" "s' = s\<lparr>mj_tokens := tk\<rparr>"
    using assms(1) by (auto simp: mj_pay_def mj_transfer_Inr_iff)
  then show ?thesis
    using payout_holding [OF assms(2) tk(1) assms(3,4)] transfer_ok [OF assms(2) tk(1) assms(3) [symmetric] assms(4)]
    by (simp add: only_def)
next
  case False
  then show ?thesis using assms by (auto simp: mj_pay_def only_def)
qed

lemma swaps_tokens:
  assumes "mj_transfer transfer t a b n s = Inr s1" "mj_transfer transfer t2 b a k s1 = Inr s2"
    and "ledger_ok (mj_tokens s)" "a \<noteq> b" "0 \<le> n" "0 \<le> k"
  shows "holding (mj_tokens s2) t' x = holding (mj_tokens s) t' x + moved t a b n t' x + moved t2 b a k t' x"
proof -
  have tr: "transfer (mj_tokens s) t a b n = Some (mj_tokens s1)" "transfer (mj_tokens s1) t2 b a k = Some (mj_tokens s2)"
    using assms(1,2) by (auto simp: mj_transfer_Inr_iff)
  note m = transfer_moved [OF assms(3) tr(1) assms(4,5)]
  show ?thesis using m(2) transfer_moved(2) [OF m(1) tr(2) assms(4) [symmetric] assms(6)] by simp
qed

lemma inventory_room:
  assumes "makers_funded holding ledger_ok me s" "mj_maker s i = Some mm"
    and "\<And>t. holding tk t me = holding (mj_tokens s) t me + only (base_token mm) b t + only (quote_token mm) q t" "ledger_ok tk"
  shows "base_inventory mm + b \<le> SUPPLY_CAP" "quote_held mm + q \<le> SUPPLY_CAP"
proof -
  note D = makers_fundedD [OF assms(1)]
  have ne: "base_token mm \<noteq> quote_token mm" using D(4) [OF assms(2)] by (simp add: maker_ok_def)
  show "base_inventory mm + b \<le> SUPPLY_CAP"
    using D(5) [OF assms(2)] assms(3) [of "base_token mm"] holding_bounded [OF assms(4), of "base_token mm" me] ne by (simp add: only_def)
  show "quote_held mm + q \<le> SUPPLY_CAP"
    using D(6) [OF assms(2)] assms(3) [of "quote_token mm"] holding_bounded [OF assms(4), of "quote_token mm" me] ne by (simp add: only_def)
qed

text \<open>A purchase: the quote comes in, the base goes out.\<close>

lemma buy_effect:
  assumes "execute_buy transfer e taker i n mid max_quote s = Inr (r, s')" "contract_address e = me" "\<not> authorized e me" "trade_fits mid n"
    and "makers_funded holding ledger_ok me s"
  shows "makers_funded holding ledger_ok me s' \<and> (\<exists>mm. mj_maker s i = Some mm \<and>
    mt_quote_amount r = quote_at n (mid + half_spread mm mid) + trade_fee (quote_at n (mid + half_spread mm mid)) \<and>
    (\<forall>t a. holding (mj_tokens s') t a = holding (mj_tokens s) t a +
       moved (quote_token mm) taker me (mt_quote_amount r) t a + moved (base_token mm) me taker n t a))"
proof -
  note D = makers_fundedD [OF assms(5)]
  obtain mm where mm: "mj_maker s i = Some mm" "authorized e taker" "0 < n" "n \<le> base_inventory mm"
    using assms(1) by (auto simp: execute_buy_def get_maker_or_panic_def Let_def result_simps)
  have taker: "taker \<noteq> me" using mm(2) assms(3) by auto
  note ok = D(4) [OF mm(1)]
  let ?ask = "mid + half_spread mm mid"
  let ?q = "quote_at n ?ask"
  note h = half_spread_exact [OF ok assms(4)] and hb = half_spread_bounds [OF ok, of mid]
  have ask: "0 \<le> ?ask" "?ask \<le> 2 * mid" using hb assms(4) by (auto simp: trade_fits_def)
  note q = quote_exact [OF assms(4) mm(3) ask]
  have tot: "add_i128 ?q (trade_fee ?q) = ?q + trade_fee ?q"
    using q by (intro add_i128_exact) (simp add: in_i128_nonneg)
  define mm' where "mm' = mm\<lparr>base_inventory := sub_i128 (base_inventory mm) n, quote_inventory := add_i128 (quote_inventory mm) ?q,
      fees_earned := add_i128 (fees_earned mm) (trade_fee ?q), total_base_volume := add_i128 (total_base_volume mm) n,
      total_quote_volume := add_i128 (total_quote_volume mm) ?q, trade_count := trade_count mm + 1, mm_updated_at := timestamp e\<rparr>"
  obtain s1 s2 where t: "mj_transfer transfer (quote_token mm) taker me (?q + trade_fee ?q) (mj_put mm' i s) = Inr s1"
      "mj_transfer transfer (base_token mm) me taker n s1 = Inr s2" and r: "mt_quote_amount r = ?q + trade_fee ?q"
      and s': "s' = mj_emit (EvMmBuy i taker n (?q + trade_fee ?q) (trade_fee ?q)) s2"
    using assms(1) mm(1) unfolding execute_buy_def get_maker_or_panic_def assms(2)
    by (auto simp: h q(1,3) tot and_then_Inr_iff require_auth_Inr_iff if_fail_Inr_iff Let_def simp flip: mm'_def)
  have in1: "mj_maker s1 = mj_maker (mj_put mm' i s) \<and> ledger_ok (mj_tokens s1) \<and>
      (\<forall>t'. holding (mj_tokens s1) t' me = holding (mj_tokens s) t' me + only (quote_token mm) (?q + trade_fee ?q) t')"
    using pays_in [OF disjI1 [OF t(1)] _ taker] D(2) q by simp
  then have out: "mj_maker s2 = mj_maker (mj_put mm' i s) \<and> ledger_ok (mj_tokens s2) \<and>
      (\<forall>t'. holding (mj_tokens s2) t' me = holding (mj_tokens s) t' me + only (base_token mm) (- n) t' + only (quote_token mm) (?q + trade_fee ?q) t')"
    using pays_out [OF disjI1 [OF t(2)] _ taker] mm(3) by simp
  have room: "quote_held mm + (?q + trade_fee ?q) \<le> SUPPLY_CAP"
    by (rule inventory_room(2) [OF assms(5) mm(1), of "mj_tokens s2" "- n"]) (use out in auto)
  have inv: "0 \<le> base_inventory mm" "0 \<le> quote_inventory mm" "0 \<le> fees_earned mm" using ok by (auto simp: maker_ok_def)
  have "base_inventory mm \<le> SUPPLY_CAP"
    using D(5) [OF mm(1)] holding_bounded [OF D(2), of "base_token mm" me] by linarith
  then have ex: "base_inventory mm' = base_inventory mm - n" "quote_inventory mm' = quote_inventory mm + ?q" "fees_earned mm' = fees_earned mm + trade_fee ?q"
    using inv q room mm(3,4) by (simp_all add: mm'_def sub_i128_exact add_i128_exact in_i128_nonneg quote_held_def I128_MAX_def SUPPLY_CAP_def)
  have "makers_funded holding ledger_ok me s'"
    by (rule maker_replaced [where mm = mm and mm' = mm' and i = i, OF assms(5) mm(1)])
      (use out ok ex inv mm(4) q in \<open>simp_all add: s' maker_ok_def quote_held_def mm'_def\<close>)
  then show ?thesis using mm(1,3) r swaps_tokens [OF t _ taker] D(2) q by (simp add: s')
qed

text \<open>A sale: the base comes in, the quote less the fee goes out.\<close>

lemma sell_effect:
  assumes "execute_sell transfer e taker i n mid min_quote s = Inr (r, s')" "contract_address e = me" "\<not> authorized e me" "trade_fits mid n"
    and "makers_funded holding ledger_ok me s"
  shows "makers_funded holding ledger_ok me s' \<and> (\<exists>mm. mj_maker s i = Some mm \<and>
    mt_quote_amount r = quote_at n (mid - half_spread mm mid) - trade_fee (quote_at n (mid - half_spread mm mid)) \<and>
    (\<forall>t a. holding (mj_tokens s') t a = holding (mj_tokens s) t a +
       moved (base_token mm) taker me n t a + moved (quote_token mm) me taker (mt_quote_amount r) t a))"
proof -
  note D = makers_fundedD [OF assms(5)]
  obtain mm where mm: "mj_maker s i = Some mm" "authorized e taker" "0 < n"
    using assms(1) by (auto simp: execute_sell_def get_maker_or_panic_def Let_def result_simps)
  have taker: "taker \<noteq> me" using mm(2) assms(3) by auto
  note ok = D(4) [OF mm(1)]
  let ?bid = "mid - half_spread mm mid"
  let ?q = "quote_at n ?bid"
  note h = half_spread_exact [OF ok assms(4)] and hb = half_spread_bounds [OF ok, of mid]
  have bid: "0 \<le> ?bid" "?bid \<le> 2 * mid" using hb assms(4) by (auto simp: trade_fits_def)
  note q = quote_exact [OF assms(4) mm(3) bid]
  have net: "sat_i128 (?q - trade_fee ?q) = ?q - trade_fee ?q" using q by (intro sat_i128_id) (simp add: in_i128_nonneg)
  define mm' where "mm' = mm\<lparr>base_inventory := add_i128 (base_inventory mm) n, quote_inventory := sub_i128 (quote_inventory mm) ?q,
      fees_earned := add_i128 (fees_earned mm) (trade_fee ?q), total_base_volume := add_i128 (total_base_volume mm) n,
      total_quote_volume := add_i128 (total_quote_volume mm) ?q, trade_count := trade_count mm + 1, mm_updated_at := timestamp e\<rparr>"
  obtain s1 s2 where t: "mj_transfer transfer (base_token mm) taker me n (mj_put mm' i s) = Inr s1"
      "mj_transfer transfer (quote_token mm) me taker (?q - trade_fee ?q) s1 = Inr s2" and r: "mt_quote_amount r = ?q - trade_fee ?q"
      and s': "s' = mj_emit (EvMmSell i taker n (?q - trade_fee ?q) (trade_fee ?q)) s2" and le: "?q \<le> quote_inventory mm"
    using assms(1) mm(1) unfolding execute_sell_def get_maker_or_panic_def assms(2)
    by (auto simp: h q(1,3) net and_then_Inr_iff require_auth_Inr_iff if_fail_Inr_iff Let_def simp flip: mm'_def)
  have in1: "mj_maker s1 = mj_maker (mj_put mm' i s) \<and> ledger_ok (mj_tokens s1) \<and>
      (\<forall>t'. holding (mj_tokens s1) t' me = holding (mj_tokens s) t' me + only (base_token mm) n t')"
    using pays_in [OF disjI1 [OF t(1)] _ taker] D(2) mm(3) by simp
  then have out: "mj_maker s2 = mj_maker (mj_put mm' i s) \<and> ledger_ok (mj_tokens s2) \<and>
      (\<forall>t'. holding (mj_tokens s2) t' me = holding (mj_tokens s) t' me + only (base_token mm) n t' + only (quote_token mm) (- (?q - trade_fee ?q)) t')"
    using pays_out [OF disjI1 [OF t(2)] _ taker] q by simp
  have room: "base_inventory mm + n \<le> SUPPLY_CAP"
    by (rule inventory_room(1) [OF assms(5) mm(1), of "mj_tokens s2" n "- (?q - trade_fee ?q)"]) (use out in auto)
  have inv: "0 \<le> base_inventory mm" "0 \<le> quote_inventory mm" "0 \<le> fees_earned mm" using ok by (auto simp: maker_ok_def)
  have "quote_held mm \<le> SUPPLY_CAP"
    using D(6) [OF mm(1)] holding_bounded [OF D(2), of "quote_token mm" me] by linarith
  then have ex: "base_inventory mm' = base_inventory mm + n" "quote_inventory mm' = quote_inventory mm - ?q" "fees_earned mm' = fees_earned mm + trade_fee ?q"
    using inv q room mm(3) le by (simp_all add: mm'_def sub_i128_exact add_i128_exact in_i128_nonneg quote_held_def I128_MAX_def SUPPLY_CAP_def)
  have "makers_funded holding ledger_ok me s'"
    by (rule maker_replaced [where mm = mm and mm' = mm' and i = i, OF assms(5) mm(1)])
      (use out ok ex inv le mm(3) q in \<open>simp_all add: s' maker_ok_def quote_held_def mm'_def\<close>)
  then show ?thesis using mm(1,3) r swaps_tokens [OF t _ taker] D(2) q by (simp add: s')
qed

text \<open>Two payments in or two payments out, in the base and the quote token.\<close>

lemma both_in:
  assumes "mj_pay transfer b src me n s = Inr s1" "mj_pay transfer q src me k s1 = Inr s2" "ledger_ok (mj_tokens s)" "src \<noteq> me" "0 \<le> n" "0 \<le> k"
  shows "mj_maker s2 = mj_maker s \<and> ledger_ok (mj_tokens s2) \<and>
    (\<forall>t'. holding (mj_tokens s2) t' me = holding (mj_tokens s) t' me + only b n t' + only q k t')"
  using pays_in [OF disjI2 [OF assms(1)] assms(3-5)] pays_in [OF disjI2 [OF assms(2)] _ assms(4,6)] by simp

lemma both_out:
  assumes "mj_pay transfer b me dst n s = Inr s1" "mj_pay transfer q me dst k s1 = Inr s2" "ledger_ok (mj_tokens s)" "dst \<noteq> me" "0 \<le> n" "0 \<le> k"
  shows "mj_maker s2 = mj_maker s \<and> ledger_ok (mj_tokens s2) \<and>
    (\<forall>t'. holding (mj_tokens s2) t' me = holding (mj_tokens s) t' me + only b (- n) t' + only q (- k) t')"
  using pays_out [OF disjI2 [OF assms(1)] assms(3-5)] pays_out [OF disjI2 [OF assms(2)] _ assms(4,6)] by simp

lemma register_funded:
  assumes "register_maker transfer e maker b q spread n k most s = Inr (i, s')" "contract_address e = me" "\<not> authorized e me"
    and "makers_funded holding ledger_ok me s"
  shows "makers_funded holding ledger_ok me s'"
proof -
  note D = makers_fundedD [OF assms(4)]
  define mm where "mm = \<lparr>mm_maker_id = i, mm_maker = maker, base_token = b, quote_token = q, spread_bps = spread, base_inventory = n,
      quote_inventory = k, max_trade_size = most, fees_earned = 0, total_base_volume = 0, total_quote_volume = 0, trade_count = 0,
      mm_status = MakerActive, mm_created_at = timestamp e, mm_updated_at = timestamp e\<rparr>"
  define x where "x = add_pair_maker b q i (add_active_maker i (add_owner_maker maker i (mj_put mm i (s\<lparr>mj_counter := Some (i + 1)\<rparr>))))"
  obtain s1 s2 where t: "mj_pay transfer b maker me n x = Inr s1" "mj_pay transfer q maker me k s1 = Inr s2"
      and s'0: "s' = mj_emit (EvMmReg i maker b q spread) s2" and g: "authorized e maker" "0 \<le> n" "0 \<le> k" "b \<noteq> q" "spread \<le> 1000"
    using assms(1,2) unfolding register_maker_def Let_def and_then_Inr_iff if_fail_Inr_iff require_auth_Inr_iff
    by (auto simp: MAX_SPREAD_BPS_def not_less x_def mm_def)
  have mm: "maker_ok mm" "base_token mm = b" "quote_token mm = q" "base_inventory mm = n" "quote_held mm = k"
      "mj_maker x = (mj_maker s)(i \<mapsto> mm)" "mj_tokens x = mj_tokens s" "authorized e maker" "0 \<le> n" "0 \<le> k"
    using g by (simp_all add: mm_def x_def maker_ok_def quote_held_def word_le_def)
  have s': "mj_maker s' = mj_maker s2" "mj_tokens s' = mj_tokens s2" by (simp_all add: s'0)
  have maker: "maker \<noteq> me" using mm(8) assms(3) by auto
  have p: "mj_maker s2 = mj_maker x \<and> ledger_ok (mj_tokens s2) \<and>
      (\<forall>t'. holding (mj_tokens s2) t' me = holding (mj_tokens x) t' me + only b n t' + only q k t')"
    by (rule both_in [OF t]) (use D(2) mm maker in auto)
  have "maker_claims (mj_maker s') t' \<le> holding (mj_tokens s') t' me" for t'
    using base_book.claims_new [OF D(1), of i mm t'] quote_book.claims_new [OF D(1), of i mm t'] D(3) [of t'] p mm(2-7)
    by (simp add: maker_claims_def s')
  then show ?thesis using p mm(1,6) D(1) by (auto simp: makers_funded_def s' intro: book_ok_upd)
qed

lemma deposit_funded:
  assumes "deposit_inventory transfer e maker i n k s = Inr s'" "contract_address e = me" "\<not> authorized e me"
    and "makers_funded holding ledger_ok me s"
  shows "makers_funded holding ledger_ok me s'"
proof -
  note D = makers_fundedD [OF assms(4)]
  define new where "new mm = mm\<lparr>base_inventory := add_i128 (base_inventory mm) n, quote_inventory := add_i128 (quote_inventory mm) k,
      mm_updated_at := timestamp e\<rparr>" for mm :: market_maker
  obtain mm s1 s2 where mm: "mj_maker s i = Some mm" "authorized e maker" "0 \<le> n" "0 \<le> k"
      and t: "mj_pay transfer (base_token mm) maker me n (mj_put (new mm) i s) = Inr s1" "mj_pay transfer (quote_token mm) maker me k s1 = Inr s2"
      and s': "s' = mj_emit (EvMmDep i n k) s2"
    using assms(1,2) unfolding deposit_inventory_def get_maker_or_panic_def
    by (auto simp: and_then_Inr_iff if_fail_Inr_iff require_auth_Inr_iff ok_or_Inr_iff Let_def not_less simp flip: new_def)
  have maker: "maker \<noteq> me" using mm(2) assms(3) by auto
  have p: "mj_maker s2 = mj_maker (mj_put (new mm) i s) \<and> ledger_ok (mj_tokens s2) \<and>
      (\<forall>t'. holding (mj_tokens s2) t' me = holding (mj_tokens (mj_put (new mm) i s)) t' me + only (base_token mm) n t' + only (quote_token mm) k t')"
    by (rule both_in [OF t]) (use D(2) mm maker in auto)
  note room = inventory_room [OF assms(4) mm(1), of "mj_tokens s2" n k]
  have ok: "maker_ok mm" using D(4) [OF mm(1)] .
  have "base_inventory (new mm) = base_inventory mm + n" "quote_inventory (new mm) = quote_inventory mm + k"
    using ok mm(3,4) room p by (simp_all add: new_def maker_ok_def add_i128_exact in_i128_nonneg quote_held_def I128_MAX_def SUPPLY_CAP_def)
  then show ?thesis
    by (intro maker_replaced [where mm = mm and mm' = "new mm" and i = i, OF assms(4) mm(1)])
      (use p ok mm in \<open>simp_all add: s' maker_ok_def quote_held_def new_def\<close>)
qed

lemma withdraw_funded:
  assumes "withdraw_inventory transfer e maker i n k s = Inr s'" "contract_address e = me" "\<not> authorized e me" "0 \<le> n" "0 \<le> k"
    and "makers_funded holding ledger_ok me s"
  shows "makers_funded holding ledger_ok me s'"
proof -
  note D = makers_fundedD [OF assms(6)]
  define took where "took mm = (if fees_earned mm > 0 \<and> k > 0 then min (fees_earned mm) k else 0)" for mm :: market_maker
  define new where "new mm = mm\<lparr>fees_earned := (if fees_earned mm > 0 \<and> k > 0 then sub_i128 (fees_earned mm) (took mm) else fees_earned mm),
      base_inventory := sub_i128 (base_inventory mm) n,
      quote_inventory := sub_i128 (quote_inventory mm) (if fees_earned mm > 0 \<and> k > 0 then sub_i128 k (took mm) else k),
      mm_updated_at := timestamp e\<rparr>" for mm :: market_maker
  obtain mm s1 s2 where mm: "mj_maker s i = Some mm" "authorized e maker" "n \<le> base_inventory mm"
      "k \<le> add_i128 (quote_inventory mm) (fees_earned mm)"
      and t: "mj_pay transfer (base_token mm) me maker n (mj_put (new mm) i s) = Inr s1" "mj_pay transfer (quote_token mm) me maker k s1 = Inr s2"
      and s': "mj_emit (EvMmWdr i n k (took mm)) s2 = s'"
    using assms(1) unfolding withdraw_inventory_def get_maker_or_panic_def Let_def and_then_Inr_iff if_fail_Inr_iff require_auth_Inr_iff
      ok_or_Inr_iff not_less assms(2) sum.inject new_def took_def by blast
  have maker: "maker \<noteq> me" using mm(2) assms(3) by auto
  have p: "mj_maker s2 = mj_maker (mj_put (new mm) i s) \<and> ledger_ok (mj_tokens s2) \<and>
      (\<forall>t'. holding (mj_tokens s2) t' me = holding (mj_tokens (mj_put (new mm) i s)) t' me + only (base_token mm) (- n) t' + only (quote_token mm) (- k) t')"
    by (rule both_out [OF t]) (use D(2) maker assms in auto)
  note room = inventory_room [OF assms(6) mm(1), of "mj_tokens s" 0 0] and ok = D(4) [OF mm(1)]
  have inv: "0 \<le> base_inventory mm" "0 \<le> quote_inventory mm" "0 \<le> fees_earned mm" "base_inventory mm \<le> SUPPLY_CAP"
      "quote_inventory mm + fees_earned mm \<le> SUPPLY_CAP"
    using ok room D(2) by (simp_all add: maker_ok_def quote_held_def)
  then have k: "k \<le> quote_inventory mm + fees_earned mm"
    using mm(4) by (simp add: add_i128_exact in_i128_nonneg I128_MAX_def SUPPLY_CAP_def)
  have ex: "base_inventory (new mm) = base_inventory mm - n" "0 \<le> quote_inventory (new mm)" "0 \<le> fees_earned (new mm)"
      "quote_inventory (new mm) + fees_earned (new mm) = quote_inventory mm + fees_earned mm - k"
    using inv mm(3) k assms(4,5) by (auto simp: new_def took_def min_def sub_i128_exact in_i128_def I128_MAX_def I128_MIN_def SUPPLY_CAP_def)
  show ?thesis
    by (rule maker_replaced [where mm = mm and mm' = "new mm" and i = i, OF assms(6) mm(1)])
      (use p ok ex mm(3) in \<open>simp_all add: s' [symmetric] maker_ok_def quote_held_def\<close>, simp_all add: new_def)
qed

lemma close_funded:
  assumes "close_maker transfer e maker i s = Inr s'" "contract_address e = me" "\<not> authorized e me" "makers_funded holding ledger_ok me s"
  shows "makers_funded holding ledger_ok me s'"
proof -
  note D = makers_fundedD [OF assms(4)]
  define new where "new mm = mm\<lparr>base_inventory := 0, quote_inventory := 0, fees_earned := 0, mm_status := MakerClosed,
      mm_updated_at := timestamp e\<rparr>" for mm :: market_maker
  obtain mm s1 s2 where mm: "mj_maker s i = Some mm" "authorized e maker"
      and t: "mj_pay transfer (base_token mm) me maker (base_inventory mm) (remove_active_maker i (mj_put (new mm) i s)) = Inr s1"
        "mj_pay transfer (quote_token mm) me maker (add_i128 (quote_inventory mm) (fees_earned mm)) s1 = Inr s2"
      and s': "mj_maker s' = mj_maker s2" "mj_tokens s' = mj_tokens s2"
    using assms(1,2) unfolding close_maker_def get_maker_or_panic_def
    by (auto simp: and_then_Inr_iff if_fail_Inr_iff require_auth_Inr_iff ok_or_Inr_iff Let_def simp flip: new_def)
  have maker: "maker \<noteq> me" using mm(2) assms(3) by auto
  note room = inventory_room [OF assms(4) mm(1), of "mj_tokens s" 0 0] and ok = D(4) [OF mm(1)]
  then have q: "add_i128 (quote_inventory mm) (fees_earned mm) = quote_held mm"
    using D(2) unfolding quote_held_def by (intro add_i128_exact) (auto simp: maker_ok_def in_i128_nonneg I128_MAX_def SUPPLY_CAP_def)
  have "mj_maker s2 = mj_maker (remove_active_maker i (mj_put (new mm) i s)) \<and> ledger_ok (mj_tokens s2) \<and>
      (\<forall>t'. holding (mj_tokens s2) t' me = holding (mj_tokens (remove_active_maker i (mj_put (new mm) i s))) t' me
        + only (base_token mm) (- base_inventory mm) t' + only (quote_token mm) (- quote_held mm) t')"
    by (rule both_out [OF t(1) t(2) [unfolded q]]) (use D(2) maker ok in \<open>auto simp: maker_ok_def quote_held_def\<close>)
  then show ?thesis
    by (intro maker_replaced [where mm = mm and mm' = "new mm" and i = i, OF assms(4) mm(1)])
      (use ok in \<open>simp_all add: s' maker_ok_def quote_held_def new_def\<close>)
qed

lemma settings_funded:
  assumes "update_spread e maker i new_spread s = Inr s' \<or> set_maker_status e maker i active s = Inr s'" "makers_funded holding ledger_ok me s"
  shows "makers_funded holding ledger_ok me s'"
proof -
  obtain mm mm' where mm: "mj_maker s i = Some mm" "mj_maker s' = (mj_maker s)(i \<mapsto> mm')" "mj_tokens s' = mj_tokens s"
      "maker_ok mm \<Longrightarrow> maker_ok mm'" "base_token mm' = base_token mm" "quote_token mm' = quote_token mm" "base_inventory mm' = base_inventory mm"
      "quote_held mm' = quote_held mm"
    using assms(1)
    by (auto simp: update_spread_def set_maker_status_def get_maker_or_panic_def result_simps maker_ok_def quote_held_def MAX_SPREAD_BPS_def
        not_less word_le_def)
  note D = makers_fundedD [OF assms(2)]
  show ?thesis by (rule maker_replaced [OF assms(2) mm(1,2)]) (use mm D in auto)
qed

end

section \<open>Runs\<close>

text \<open>
  The calls on market makers. Two conditions are not the code's: a trade names a price that is not negative and small enough for its
  products to fit 128 bits, and a withdrawal has no negative amount.
\<close>

inductive maker_call :: "'tk transfer_fn \<Rightarrow> env \<Rightarrow> 'tk maker_jar \<Rightarrow> 'tk maker_jar \<Rightarrow> bool" for transfer e where
  register: "mm_register transfer e a b q spread n k most s = Inr (i, s') \<Longrightarrow> maker_call transfer e s s'"
| buy: "mm_buy transfer e a i n mid lim s = Inr (r, s') \<Longrightarrow> trade_fits mid n \<Longrightarrow> maker_call transfer e s s'"
| sell: "mm_sell transfer e a i n mid lim s = Inr (r, s') \<Longrightarrow> trade_fits mid n \<Longrightarrow> maker_call transfer e s s'"
| deposit: "mm_deposit transfer e a i n k s = Inr s' \<Longrightarrow> maker_call transfer e s s'"
| withdraw: "mm_withdraw transfer e a i n k s = Inr s' \<Longrightarrow> 0 \<le> n \<Longrightarrow> 0 \<le> k \<Longrightarrow> maker_call transfer e s s'"
| settings: "mm_update_spread e a i sp s = Inr s' \<or> mm_set_status e a i act s = Inr s' \<Longrightarrow> maker_call transfer e s s'"
| close: "mm_close transfer e a i s = Inr s' \<Longrightarrow> maker_call transfer e s s'"

definition maker_step :: "'tk transfer_fn \<Rightarrow> address \<Rightarrow> 'tk maker_jar \<Rightarrow> 'tk maker_jar \<Rightarrow> bool" where
  "maker_step transfer me s s' \<longleftrightarrow> (\<exists>e. contract_address e = me \<and> \<not> authorized e me \<and> maker_call transfer e s s')"

definition maker_start :: "legacy_instance \<Rightarrow> 'tk \<Rightarrow> 'tk maker_jar" where
  "maker_start g tk = \<lparr>mj_instance = g, mj_maker = Map.empty, mj_counter = None, mj_owner_makers = Map.empty, mj_active_makers = None,
     mj_pair_makers = Map.empty, mj_tokens = tk, mj_events = []\<rparr>"

lemma maker_start_funded:
  "ok tk \<Longrightarrow> \<forall>t. 0 \<le> holding tk t me \<Longrightarrow> makers_funded holding ok me (maker_start g tk)"
  by (simp add: makers_funded_def maker_start_def maker_claims_def)

context sep41_bounded
begin

lemma maker_call_funded:
  assumes "maker_call transfer e s s'" "contract_address e = me" "\<not> authorized e me" "makers_funded holding ledger_ok me s"
  shows "makers_funded holding ledger_ok me s'"
proof -
  have np: "makers_funded holding ledger_ok me s1" if "mj_not_paused e s = Inr s1" for s1
    using mj_not_paused_funded [OF that] assms(4) by simp
  show ?thesis
    using assms(1)
  proof cases
    case (register a b q spread n k most i)
    then show ?thesis using register_funded [OF _ assms(2,3)] np by (auto simp: mm_register_def and_then_Inr_iff if_fail_Inr_iff)
  next
    case (buy a i n mid lim r)
    then show ?thesis using buy_effect [OF _ assms(2,3)] np by (auto simp: mm_buy_def and_then_Inr_iff)
  next
    case (sell a i n mid lim r)
    then show ?thesis using sell_effect [OF _ assms(2,3)] np by (auto simp: mm_sell_def and_then_Inr_iff)
  next
    case (deposit a i n k)
    then show ?thesis using deposit_funded [OF _ assms(2,3)] np by (auto simp: mm_deposit_def and_then_Inr_iff)
  next
    case (withdraw a i n k)
    then show ?thesis using withdraw_funded [OF _ assms(2,3)] np by (auto simp: mm_withdraw_def and_then_Inr_iff)
  next
    case (settings a i sp act)
    then show ?thesis using settings_funded [OF disjI1] settings_funded [OF disjI2] np
      by (auto simp: mm_update_spread_def mm_set_status_def and_then_Inr_iff)
  next
    case (close a i)
    then show ?thesis using close_funded [OF _ assms(2,3)] np by (auto simp: mm_close_def and_then_Inr_iff)
  qed
qed

lemma maker_run_funded:
  "(maker_step transfer me)\<^sup>*\<^sup>* s s' \<Longrightarrow> makers_funded holding ledger_ok me s \<Longrightarrow> makers_funded holding ledger_ok me s'"
  by (induction rule: rtranclp_induct) (auto simp: maker_step_def intro: maker_call_funded)

end

section \<open>Properties\<close>

text \<open>
  C35. The market makers stay funded. On a token of the Stellar network, after any run of registrations, trades, deposits, withdrawals,
  settings and closures in which the takers' prices fit and no withdrawal is negative, the contract holds of every token what the
  inventories and fees of all makers claim of it, and no inventory is negative.
\<close>

theorem makers_stay_funded:
  assumes "sep41_bounded transfer holding ledger_ok" "ledger_ok tk" "\<forall>t. 0 \<le> holding tk t me"
    and "(maker_step transfer me)\<^sup>*\<^sup>* (maker_start g tk) s"
  shows "maker_claims (mj_maker s) t \<le> holding (mj_tokens s) t me \<and>
    (\<forall>i mm. mj_maker s i = Some mm \<longrightarrow> 0 \<le> base_inventory mm \<and> 0 \<le> quote_inventory mm \<and> 0 \<le> fees_earned mm)"
proof -
  have F: "makers_funded holding ledger_ok me s"
    by (rule sep41_bounded.maker_run_funded [OF assms(1,4) maker_start_funded [where ok = ledger_ok and holding = holding, OF assms(2,3)]])
  show ?thesis using makers_fundedD(3,4) [OF F] by (auto simp: maker_ok_def)
qed


section \<open>A maker\<close>

text \<open>Account 1 registers a maker of token 20 against token 21, with 1000 of each and a spread of one percent; account 2 trades.\<close>

definition mk_env :: env where
  "mk_env = \<lparr>sequence = 0, timestamp = 9, authorized = (\<lambda>a. a \<noteq> 8), contract_address = 8,
     new_entry_live = 0, extend_policy = (\<lambda>_ _ l. l), wasm_uploaded = (\<lambda>_. False)\<rparr>"

definition mk_ledger :: ledger where
  "mk_ledger t a = (if (t = 20 \<or> t = 21) \<and> (a = 1 \<or> a = 2) then 5000 else 0)"

definition mk_zero :: "ledger maker_jar" where
  "mk_zero = maker_start \<lparr>lg_paused = None, lg_pause_reason = None, lg_pause_until = None,
     lg_token_whitelist = [20 \<mapsto> True, 21 \<mapsto> True]\<rparr> mk_ledger"

definition mk_open :: "(u64 \<times> ledger maker_jar) maker_result" where
  "mk_open = mm_register ledger_transfer mk_env 1 20 21 100 1000 1000 1000 mk_zero"

lemma mk_ledger_ok: "ledger_capped mk_ledger" "\<forall>t. 0 \<le> ledger_holding mk_ledger t 8"
proof -
  have "support_total (mk_ledger t) = (\<Sum>a\<in>{1, 2}. mk_ledger t a)" for t
    by (rule support_total_superset) (auto simp: support_def mk_ledger_def)
  then have "support_total (mk_ledger t) \<le> SUPPLY_CAP" for t by (simp add: mk_ledger_def SUPPLY_CAP_def)
  moreover have "finite (support (mk_ledger t))" for t
    by (rule finite_subset [of _ "{1, 2}"]) (auto simp: support_def mk_ledger_def)
  ultimately show "ledger_capped mk_ledger" by (simp add: ledger_capped_def) (simp add: mk_ledger_def)
  show "\<forall>t. 0 \<le> ledger_holding mk_ledger t 8" by (simp add: ledger_holding_def mk_ledger_def)
qed

lemma mk_env_ok: "contract_address mk_env = 8" "\<not> authorized mk_env 8" by (simp_all add: mk_env_def)


lemma mk_sold_ok:
  "\<exists>s r s1 q s2 mm ms. mk_open = Inr (0, s) \<and> mm_buy ledger_transfer mk_env 2 0 400 1000000 500 s = Inr (r, s1) \<and>
     mm_sell ledger_transfer mk_env 2 0 400 1000000 0 s1 = Inr (q, s2) \<and> mj_maker s 0 = Some mm \<and> mj_maker s1 0 = Some ms \<and>
     base_token ms = base_token mm \<and> quote_token ms = quote_token mm"
proof -
  have "(case mk_open of Inl _ \<Rightarrow> False | Inr (i, s) \<Rightarrow> i = 0 \<and> map_option base_token (mj_maker s 0) = Some 20 \<and>
      map_option quote_token (mj_maker s 0) = Some 21 \<and> (case mm_buy ledger_transfer mk_env 2 i 400 1000000 500 s of Inl _ \<Rightarrow> False
    | Inr (r, s1) \<Rightarrow> map_option base_token (mj_maker s1 0) = Some 20 \<and> map_option quote_token (mj_maker s1 0) = Some 21 \<and>
       (case mm_sell ledger_transfer mk_env 2 0 400 1000000 0 s1 of Inl _ \<Rightarrow> False | Inr (q, s2) \<Rightarrow> True)))" by code_simp
  then show ?thesis by (auto dest!: case_ok)
qed

lemma mk_open_step:
  assumes "mk_open = Inr (i, s)"
  shows "(maker_step ledger_transfer 8)\<^sup>*\<^sup>* mk_zero s" "makers_funded ledger_holding ledger_capped 8 s"
proof -
  have "maker_call ledger_transfer mk_env mk_zero s" using assms unfolding mk_open_def by (rule maker_call.register)
  then have "maker_step ledger_transfer 8 mk_zero s" using mk_env_ok by (auto simp: maker_step_def)
  then show r: "(maker_step ledger_transfer 8)\<^sup>*\<^sup>* mk_zero s" by (rule r_into_rtranclp)
  show "makers_funded ledger_holding ledger_capped 8 s"
    using bounded.maker_run_funded [OF r] maker_start_funded [where ok = ledger_capped and holding = ledger_holding, OF mk_ledger_ok] by (simp add: mk_zero_def)
qed

theorem makers_stay_funded_witness:
  "\<exists>s. mk_open = Inr (0, s) \<and> (maker_step ledger_transfer 8)\<^sup>*\<^sup>* mk_zero s \<and> maker_claims (mj_maker s) 20 \<le> ledger_holding (mj_tokens s) 20 8"
proof -
  obtain s where s: "mk_open = Inr (0, s)" using mk_sold_ok by blast
  note r = mk_open_step(1) [OF s]
  show ?thesis using makers_stay_funded [OF bounded.sep41_bounded_axioms mk_ledger_ok r [unfolded mk_zero_def], of 20] s r by blast
qed


text \<open>
  The price is an argument of the taker: at price zero account 2 takes the whole base inventory for nothing.
\<close>

theorem takers_name_the_price:
  "and_then mk_open (\<lambda>(i, s). and_then (mm_buy ledger_transfer mk_env 2 i 1000 0 0 s) (\<lambda>(r, s).
     Inr (mt_quote_amount r, mj_tokens s 20 2, mj_tokens s 21 2, map_option base_inventory (mj_maker s 0)))) = Inr (0, 6000, 5000, Some 0)"
  by code_simp

text \<open>
  A withdrawal of a negative amount adds to the inventory without a payment. Account 2 opens a maker with one unit, withdraws
  minus 1000 units and then 1000 units, which belong to account 1.
\<close>

theorem negative_withdrawal_takes_foreign_inventory:
  "and_then mk_open (\<lambda>(_, s).
     and_then (mm_register ledger_transfer mk_env 2 20 21 100 1 0 1 s) (\<lambda>(i, s).
     and_then (mm_withdraw ledger_transfer mk_env 2 i (- 1000) 0 s) (\<lambda>s.
     and_then (mm_withdraw ledger_transfer mk_env 2 i 1001 0 s) (\<lambda>s.
     Inr (mj_tokens s 20 2, mj_tokens s 20 8, map_option base_inventory (mj_maker s 0)))))) = Inr (6000, 0, Some 1000)"
  by code_simp

end
