(* ===== verification/Spec2Isabelle.thy ===== *)
theory Spec2Isabelle
  imports Tipjar_Money Tipjar_V2 Derivatives Risk_Management Limit_Orders Arbitrage
    Snapshot_Transform Security_Monitor Migration_Import Legacy_Amm_Shares Payment_Channel
    Tip_Channel Bonding_Curve_Safety Legacy_Locks Legacy_Limits Legacy_Boards Breaker_Safety Legacy_Escrow
    Prediction_Payouts Market_Maker_Safety
begin

text \<open>
  A verification of the Stellar tip jar: the Soroban contracts under \<^verbatim>\<open>src/contracts\<close>, the state
  migration toolkit under \<^verbatim>\<open>src/scripts/migrate\<close> and the transaction checks of the security service
  under \<^verbatim>\<open>src/security/src\<close>.

  \<^bold>\<open>The program.\<close> The tip jar (\<^verbatim>\<open>src/contracts/tipjar/src/lib.rs\<close>) holds tips in escrow, per creator
  and token, until the creator or one of its operators withdraws them; it charges a protocol fee,
  can be paused by its admin and, for a limited time, by a guardian, hands the roles of admin and
  fee collector over in two steps, and replaces its own code behind a timelock. It calls SEP-41
  token contracts, which it does not control. Four further contracts stand beside it: derivatives,
  limit orders, risk management and arbitrage. A second version of the tip jar
  (\<^verbatim>\<open>src/contracts/tipjar-v2-fixture\<close>) runs on the storage of the first. The migration toolkit
  exports the state of a contract over the network, rewrites the snapshot for a new schema, imports it into
  another contract and verifies the result; the security service screens transactions. The superseded tip
  jar (\<^verbatim>\<open>src/contracts/tipjar-legacy\<close>) is one contract with many financial features in modules of their
  own. Its core is modelled, that is tips in all their forms, withdrawals, loans, insurance, leaderboards, milestones and
  administration, and of its features streams, vesting schedules, auctions, subscriptions, prediction markets, market makers, the automated market maker, payment channels, tip channels, bonding curves, time
  locks, access lists, reputation, royalties and the enhanced circuit breaker.

  \<^bold>\<open>How the code is modelled.\<close>
  \<^item> A contract call is a function from the environment of the call (who has authorised, the ledger
    sequence and time, the contract's own address), its arguments and the contract's storage to a
    result: either a fault, or the new storage with the returned value. A fault is an error of the
    contract's error enumeration, a missing authorisation, a trap of the host or a failed callee; as
    the host rolls a failed call back, a fault carries no storage.
  \<^item> Storage is a record with one field per variant of the source's \<^verbatim>\<open>DataKey\<close>: a map for a variant with
    arguments, an optional value for one without; the published events are a list in the same record.
    The tip jar's record also has the lifetimes of the persistent entries and of the instance.
  \<^item> \<^verbatim>\<open>u32\<close> and \<^verbatim>\<open>u64\<close> are words. \<^verbatim>\<open>i128\<close> is \<open>int\<close>; every operator of the source is one of the
    operations of \<open>Prelude\<close>: the checked ones give \<open>None\<close> out of range, the plain ones wrap around,
    which is what they do under the release profile of \<^verbatim>\<open>src/Cargo.toml\<close> and, the workspace excluding
    it, under the default profile of the superseded tip jar.
  \<^item> Addresses and code hashes are numbers, symbols and texts are strings.
  \<^item> Code outside the repository is an argument: the tokens' \<open>transfer\<close> on an abstract token state,
    the host's authorisation and \<open>extend_ttl\<close>, the JSON and SHA-256 functions, the \<^verbatim>\<open>stellar\<close> command-line
    tool that the migration runs (a function from a command line and the state of the chain to an output),
    and the anomaly detector, which works on floating-point numbers. What is relied on is stated as the locales
    \<open>sep41\<close> (a transfer that succeeds moves exactly the amount and the sender owned it) and
    \<open>sep41_live\<close> (a funded transfer succeeds) and the predicate \<open>ttl_extends\<close>; \<open>Token_Ledger\<close> gives
    an executable ledger that meets both locales.

  \<^bold>\<open>The theories.\<close>
  \<^item> \<open>Prelude\<close>: results, \<open>and_then\<close>, words and 128-bit arithmetic, sums over the support of an account
    function. \<open>Host\<close>: the environment, authorisation, token calls, the SEP-41 locales.
    \<open>Token_Ledger\<close>: the executable token. \<open>Token_Supply\<close>: tokens with the bounded supply of a Stellar asset.
    \<open>Claim_Book\<close>: the locale \<open>claim_book\<close> of a book of records with claims on a token.
  \<^item> \<open>Tipjar_State\<close>: constants, keys, errors, events and storage of the tip jar, guards and
    storage writes. \<open>Tipjar_Pause\<close>: the circuit breaker. \<open>Tipjar_Governance\<close>: initialisation,
    handover, upgrade, schema migration, fee settings; the two handovers are interpretations of one
    locale \<open>handover\<close>. \<open>Tipjar_Escrow\<close>: tips, withdrawals, operators, payout addresses, allowlist, fees,
    migration of the entries of the first single-token version, single-token wrappers.
  \<^item> \<open>Tipjar_Books\<close>: the abstract books (what is owed to whom in which token) and the abstraction
    function \<open>books_of\<close>, with the effect of every storage operation on them. \<open>Tipjar_Steps\<close>: the
    datatype \<open>call\<close> of all entry points, their execution \<open>exec\<close>, the movement of money each one
    stands for, the invariant \<open>jar_inv\<close>, its preservation by each call, and the reachable states, in
    which third parties may also move tokens between calls. \<open>Tipjar_Solvency\<close>: the preservation of
    solvency inside the token locales, runs of calls, and the sample jars of the witnesses.
  \<^item> \<open>Tipjar_Properties\<close> and \<open>Tipjar_Money\<close>: the theorems on governance and pauses, and on money.
    \<open>Tipjar_V2\<close>: the second version over the same storage.
  \<^item> \<open>Registry\<close>: the locales \<open>id_registry\<close> and \<open>indexed_registry\<close> of a store whose records are numbered by
    a counter and listed under a key, interpreted by \<open>Derivatives\<close>, \<open>Limit_Orders\<close> and \<open>Arbitrage\<close>.
    \<open>Risk_Management\<close> stands alone.
  \<^item> \<open>Snapshot_Transform\<close>: snapshots, the transformation rules, the checksum. \<open>Migration_Rpc\<close>: the network
    client with its retries and the text form of every value. \<open>Migration_Verify\<close>: the comparison of a
    snapshot with a contract. \<open>Migration_Export\<close> and \<open>Migration_Import\<close>: reading a snapshot; writing one with
    backup, pause, verification, rollback and history. \<open>Security_Monitor\<close>: rate limiter, circuit breaker
    and monitor.
  \<^item> \<open>Legacy_Amm\<close>: pools, shares, swaps and prices of the market maker; \<open>Legacy_Amm_Safety\<close>: its arithmetic;
    \<open>Legacy_Amm_Shares\<close>: its share accounts. \<open>Legacy_Base\<close>: what the features of the superseded tip jar
    share, the pause and token payments. \<open>Channel_Protocol\<close>: the abstract channel between two parties and
    the locale \<open>channel_system\<close> of a contract that runs many of them, interpreted by \<open>Payment_Channel\<close> and
    \<open>Tip_Channel\<close>. \<open>Bonding_Curve\<close> and \<open>Bonding_Curve_Safety\<close>: curves, their prices and trades.
    \<open>Legacy_Guards\<close>: feature pauses and the volume circuit breaker. \<open>Legacy_Locks\<close>: time-locked tips.
    \<open>Legacy_Access\<close>: blacklists and whitelists. \<open>Legacy_Reputation\<close>: scores with decay and streaks.
    \<open>Legacy_Royalty\<close>: the nested distribution of royalties by rules. \<open>Breaker_Engine\<close>: the computations of the enhanced
    circuit breaker; \<open>Breaker_Guard\<close>: its storage and guard; \<open>Breaker_Safety\<close>: its theorems.
  \<^item> The core of the superseded tip jar: \<open>Legacy_Core\<close> has the state, accounts, leaderboards, milestones and
    administration, \<open>Legacy_Credit\<close> the loans, \<open>Legacy_Tips\<close> and \<open>Legacy_Batch\<close> the tips, \<open>Legacy_Payouts\<close> the
    withdrawals and \<open>Legacy_Insurance\<close> the pools. \<open>Legacy_Money\<close> defines what the jar owes and how the accounts move,
    \<open>Legacy_Solvency\<close> the locale \<open>sep41_capped\<close> of tokens with a bounded supply, \<open>Legacy_Runs\<close>, \<open>Legacy_Outflow\<close> and
    \<open>Legacy_History\<close> show call by call that the jar stays solvent, and \<open>Legacy_Calls\<close> has the step relation and
    the interpretation on the token ledger. \<open>Legacy_Boards\<close>, \<open>Legacy_Claims\<close> and \<open>Legacy_Limits\<close> hold the theorems.
  \<^item> The features that keep money in the core's accounts: \<open>Legacy_Features\<close> has their storage around the core;
    \<open>Legacy_Streams\<close>, \<open>Legacy_Vesting\<close> and \<open>Legacy_Auctions\<close> interpret \<open>claim_book\<close>; \<open>Legacy_Subscriptions\<close> moves money at once.
    \<open>Legacy_Escrow\<close> composes them with the core.
  \<^item> \<open>Prediction_Market\<close>: prediction markets, odds and settlement; \<open>Prediction_Claims\<close>: the shares of a pool; \<open>Prediction_Solvency\<close>:
    the invariant of markets and positions; \<open>Prediction_Payouts\<close>: runs and theorems. \<open>Market_Maker\<close>: makers, quotes and trades;
    \<open>Market_Maker_Safety\<close>: their claims (two interpretations of \<open>claim_book\<close>), prices, runs and theorems.

  \<^bold>\<open>What is shown.\<close> For the tip jar: it owns at least what it owes in every reachable state on
  every SEP-41 token, its accounts stay in range on every token whatsoever, every call refines one
  movement of the abstract books, tips and withdrawals have exactly the effect described and succeed
  exactly under the conditions listed, creators can always withdraw, operators stay within their
  allowance, roles and code change only through their procedures, pauses block and expire as
  described, payout changes are delayed, moving old entries is invisible, the second version's tip agrees
  with the first's. For the other contracts: orders are immutable, matches fair, the order book complete,
  the escrow covers open orders as long as none is filled, the total exposure is the sum, recorded
  trades were opportunities. For the off-chain code: the transformation changes exactly what its rules name
  (which includes cancelling matured time locks), calls are
  retried until the first success and no further, a
  verification passes exactly if the target agrees on what it compares, an import is verified or rolled back,
  a dry run leaves the chain alone, the rate limit holds in every window, the monitor trips and blocks. For the superseded tip jar: the
  integer square root is exact, swaps never lower the product of the reserves and move by the ledger
  what they quote, adding and removing liquidity gains nothing by the ledger, shares add up to the total, the channels of both kinds are always funded and
  refine the abstract protocol, whose steps see the clock and the signatures of each call, selling back what was bought returns no more than its cost, the core jar
  holds what it owes after every run of the calls that \<open>core_call\<close> lists (conditional tips are not among them: they book fees
  without tokens) within stated settings, also together with the streams, schedules and auctions
  it holds money for, the daily limit holds for the four kinds of withdrawal that check it, delegates stay within their allowances,
  the volume breaker limits what is accepted and never halts by itself,
  leaderboards are the top of the sorted entries, unlocked tips can be withdrawn, a tripped
  enhanced breaker refuses every tip until its cooldown is over and then recovers by itself, its volume windows stay bounded, prediction
  markets stay funded and pay every bettor its share, market makers stay funded under conditions the code does not enforce and
  trading against them at one price has no profit. Some theorems are
  concrete runs of undesired behaviour: an expired guardian pause comes back, an
  unbounded timelock wraps around to none, a matured payout change is lost, fills and settlements
  spend money that belongs to others, one order is matched twice, initialisation can be repeated,
  schema versions are skipped, a verification misses the locked tips, batches skip the daily limit,
  rewards are forfeited, one party of a channel decides a dispute alone, bulk purchases are undercharged,
  one curve sells the reserve of another, a batch pays a balance twice, shares of a split tip wrap around,
  rewards and repayments are booked without funds, a stopped stream forfeits what has flowed, the first vesting schedule is
  locked for ever, a resolver locks the stakes of a market, takers name their own price, a negative withdrawal takes foreign
  inventory, and insurance claims are never paid.

  \<^bold>\<open>Bounds.\<close> All functions are total; there is no fuel. The recursion is structural except for the
  retry loop of the network client and Newton's loop for the square root, whose termination is proved by
  a measure. Hypotheses that a ledger number, a counter or a product stays in range are stated where the
  code does not check it.

  \<^bold>\<open>Not modelled.\<close> The gas, the archival of expired entries by the host (lifetimes are recorded, not
  acted on), re-entrant calls of token contracts into a contract (the host forbids them), the other
  features of the contract under \<^verbatim>\<open>src/contracts/tipjar-legacy\<close>, which the workspace excludes from the
  build, and the entry points of its market maker, which only authorise the caller once more; the
  directories there that \<^verbatim>\<open>lib.rs\<close> declares no module for, which are not compiled; the command lines and
  progress messages of the migration toolkit, whose clock is read once per run; the network, database and
  file access of the indexer, the analytics, the SDK, the simulator and the tools; and the
  floating-point anomaly detector.
\<close>

end
